(* ===== verification/Kaisola_Prelude.thy ===== *)
theory Kaisola_Prelude
  imports Main "HOL-Library.Word" "HOL-Library.AList"
begin

text \<open>
  What every component shares: the result type of code that can throw, the insertion-ordered
  \<open>Map\<close> of JavaScript, byte buffers, safe integers, and the collections of facts that the
  component proofs draw on.
\<close>

named_theorems result_simps "rewriting of results that may be errors"
named_theorems jmap_simps "laws of the insertion-ordered map"
named_theorems exec_simps "definitions that compute on closed terms"

section \<open>Results that may be errors\<close>

text \<open>
  A function that throws returns \<open>'e + 'a\<close>: \<open>Inl e\<close> is the error the source throws,
  \<open>Inr x\<close> the value it returns. \<open>require b e r\<close> is the guard
  \<^verbatim>\<open>if (!b) fail(e); r\<close>, \<open>ebind r f\<close> is the sequencing of a call that may throw.
\<close>

definition require :: "bool \<Rightarrow> 'e \<Rightarrow> 'e + 'a \<Rightarrow> 'e + 'a" where
  "require b e r = (if b then r else Inl e)"

definition ebind :: "'e + 'a \<Rightarrow> ('a \<Rightarrow> 'e + 'b) \<Rightarrow> 'e + 'b" where
  "ebind r f = (case r of Inl e \<Rightarrow> Inl e | Inr x \<Rightarrow> f x)"

definition is_ok :: "'e + 'a \<Rightarrow> bool" where
  "is_ok r = (case r of Inl _ \<Rightarrow> False | Inr _ \<Rightarrow> True)"

text \<open>\<open>some_is p v\<close>: \<open>v\<close> is there and satisfies \<open>p\<close>.\<close>

definition some_is :: "('a \<Rightarrow> bool) \<Rightarrow> 'a option \<Rightarrow> bool" where
  "some_is p v = (case v of None \<Rightarrow> False | Some x \<Rightarrow> p x)"

lemma some_is_iff [simp]: "some_is p v \<longleftrightarrow> (\<exists>x. v = Some x \<and> p x)"
  by (simp add: some_is_def split: option.split)

lemma require_True [simp]: "require True e r = r"
  by (simp add: require_def)

lemma require_False [simp]: "require False e r = Inl e"
  by (simp add: require_def)

lemma require_eq_Inr [result_simps]: "require b e r = Inr x \<longleftrightarrow> b \<and> r = Inr x"
  by (simp add: require_def)

lemma require_eq_Inl [result_simps]:
  "require b e r = Inl x \<longleftrightarrow> (\<not> b \<and> e = x) \<or> (b \<and> r = Inl x)"
  by (auto simp: require_def)

lemma ebind_Inl [simp]: "ebind (Inl e) f = Inl e"
  by (simp add: ebind_def)

lemma ebind_Inr [simp]: "ebind (Inr x) f = f x"
  by (simp add: ebind_def)

lemma ebind_eq_Inr [result_simps]:
  "ebind r f = Inr y \<longleftrightarrow> (\<exists>x. r = Inr x \<and> f x = Inr y)"
  by (cases r) (auto simp: ebind_def)

lemma ebind_eq_Inl [result_simps]:
  "ebind r f = Inl e \<longleftrightarrow> r = Inl e \<or> (\<exists>x. r = Inr x \<and> f x = Inl e)"
  by (cases r) (auto simp: ebind_def)

lemma ebind_InrE:
  assumes "ebind r f = Inr y"
  obtains x where "r = Inr x" "f x = Inr y"
  using assms by (auto simp: ebind_eq_Inr)

lemma require_InrE:
  assumes "require b e r = Inr y"
  obtains "b" "r = Inr y"
  using assms by (simp add: require_eq_Inr)

lemma is_ok_Inr [simp]: "is_ok (Inr x)"
  by (simp add: is_ok_def)

lemma is_ok_Inl [simp]: "\<not> is_ok (Inl e)"
  by (simp add: is_ok_def)

lemma is_ok_require [simp]: "is_ok (require b e r) \<longleftrightarrow> b \<and> is_ok r"
  by (simp add: require_def)

lemma is_ok_iff: "is_ok r \<longleftrightarrow> (\<exists>x. r = Inr x)"
  by (cases r) auto

text \<open>\<open>emap f xs\<close> is \<open>xs.map(f)\<close> for a callback that may throw.\<close>

fun emap :: "('a \<Rightarrow> 'e + 'b) \<Rightarrow> 'a list \<Rightarrow> 'e + 'b list" where
  "emap f [] = Inr []"
| "emap f (x # xs) = ebind (f x) (\<lambda>y. ebind (emap f xs) (\<lambda>ys. Inr (y # ys)))"

lemma emap_eq_Inr [result_simps]: "emap f xs = Inr ys \<longleftrightarrow> list_all2 (\<lambda>x y. f x = Inr y) xs ys"
  by (induction xs arbitrary: ys) (auto simp: ebind_eq_Inr list_all2_Cons1)

lemma emap_map_id: "(\<And>y. y \<in> set ys \<Longrightarrow> f (g y) = Inr y) \<Longrightarrow> emap f (map g ys) = Inr ys"
  by (induction ys) auto

lemma list_all2_image: "list_all2 (\<lambda>x y. f x = Inr y) xs ys \<Longrightarrow> y \<in> set ys \<Longrightarrow> \<exists>x \<in> set xs. f x = Inr y"
  by (induction xs ys rule: list_all2_induct) auto

section \<open>The insertion-ordered map of JavaScript\<close>

text \<open>
  A \<open>Map\<close> iterates over its entries in insertion order; writing an existing key keeps its
  position, writing a new one appends. Deleting and writing again therefore moves a key to the
  end, which the caches of this program use to keep their least recently used entry in front.
\<close>

type_synonym ('k, 'v) jmap = "('k \<times> 'v) list"

definition jget :: "('k, 'v) jmap \<Rightarrow> 'k \<Rightarrow> 'v option" where
  "jget m k = map_of m k"

definition jset :: "'k \<Rightarrow> 'v \<Rightarrow> ('k, 'v) jmap \<Rightarrow> ('k, 'v) jmap" where
  "jset k v m = AList.update k v m"

definition jdel :: "'k \<Rightarrow> ('k, 'v) jmap \<Rightarrow> ('k, 'v) jmap" where
  "jdel k m = filter (\<lambda>e. fst e \<noteq> k) m"

definition jhas :: "('k, 'v) jmap \<Rightarrow> 'k \<Rightarrow> bool" where
  "jhas m k = (jget m k \<noteq> None)"

definition jkeys :: "('k, 'v) jmap \<Rightarrow> 'k list" where
  "jkeys m = map fst m"

definition jfilter :: "('k \<Rightarrow> 'v \<Rightarrow> bool) \<Rightarrow> ('k, 'v) jmap \<Rightarrow> ('k, 'v) jmap" where
  "jfilter p m = filter (\<lambda>e. p (fst e) (snd e)) m"

definition jmap_ok :: "('k, 'v) jmap \<Rightarrow> bool" where
  "jmap_ok m = distinct (map fst m)"

lemma jget_Nil [simp]: "jget [] k = None"
  by (simp add: jget_def)

lemma jget_Cons [jmap_simps]: "jget (e # m) k = (if fst e = k then Some (snd e) else jget m k)"
  by (cases e) (simp add: jget_def)

lemma jget_jset [jmap_simps, simp]: "jget (jset k v m) k' = (if k' = k then Some v else jget m k')"
  by (simp add: jget_def jset_def update_conv)

lemma jget_jdel [jmap_simps, simp]: "jget (jdel k m) k' = (if k' = k then None else jget m k')"
  by (induction m) (auto simp: jget_def jdel_def)

lemma jget_None: "jget m k = None \<longleftrightarrow> k \<notin> fst ` set m"
  by (simp add: jget_def map_of_eq_None_iff)

lemma jget_Some_in: "jget m k = Some v \<Longrightarrow> (k, v) \<in> set m"
  by (simp add: jget_def map_of_SomeD)

lemma jget_in: "jmap_ok m \<Longrightarrow> (k, v) \<in> set m \<Longrightarrow> jget m k = Some v"
  by (simp add: jget_def jmap_ok_def)

lemma jmap_ok_Nil [simp]: "jmap_ok []"
  by (simp add: jmap_ok_def)

lemma jmap_ok_jset [simp]: "jmap_ok m \<Longrightarrow> jmap_ok (jset k v m)"
  by (simp add: jmap_ok_def jset_def distinct_update)

lemma jmap_ok_filter [simp]: "jmap_ok m \<Longrightarrow> jmap_ok (filter p m)"
  by (simp add: jmap_ok_def distinct_map_filter)

lemma jmap_ok_jdel [simp]: "jmap_ok m \<Longrightarrow> jmap_ok (jdel k m)"
  by (simp add: jdel_def)

lemma jmap_ok_jfilter [simp]: "jmap_ok m \<Longrightarrow> jmap_ok (jfilter p m)"
  by (simp add: jfilter_def)

lemma set_jdel: "set (jdel k m) = {e \<in> set m. fst e \<noteq> k}"
  by (simp add: jdel_def)

lemma set_jfilter: "set (jfilter p m) = {e \<in> set m. p (fst e) (snd e)}"
  by (simp add: jfilter_def)

lemma set_jset: "jmap_ok m \<Longrightarrow> set (jset k v m) = {e \<in> set m. fst e \<noteq> k} \<union> {(k, v)}"
  by (induction m) (auto simp: jset_def jmap_ok_def image_iff)

lemma set_jset_subset: "set (jset k v m) \<subseteq> insert (k, v) (set m)"
  by (induction m) (auto simp: jset_def)

lemma length_jset: "length (jset k v m) = (if jget m k = None then Suc (length m) else length m)"
  by (induction m) (auto simp: jset_def jget_def)

lemma length_jdel_le: "length (jdel k m) \<le> length m"
  by (simp add: jdel_def)

lemma jget_jfilter:
  assumes "jmap_ok m"
  shows "jget (jfilter p m) k =
    (case jget m k of None \<Rightarrow> None | Some v \<Rightarrow> if p k v then Some v else None)"
  using assms
  by (induction m) (auto simp: jget_def jfilter_def jmap_ok_def map_of_eq_None_iff
      image_iff split: option.splits dest: map_of_SomeD)

lemma jset_new: "jget m k = None \<Longrightarrow> jset k v m = m @ [(k, v)]"
  by (induction m) (auto simp: jset_def jget_def split: if_splits)

lemma jdel_id: "k \<notin> fst ` set m \<Longrightarrow> jdel k m = m"
  by (induction m) (auto simp: jdel_def)

lemma length_jdel:
  "jmap_ok m \<Longrightarrow> length (jdel k m) = (if jget m k = None then length m else length m - 1)"
proof (induction m)
  case Nil
  then show ?case by (simp add: jdel_def)
next
  case (Cons e m)
  have id: "k = fst e \<Longrightarrow> jdel k m = m"
    using Cons.prems jdel_id [of k m] by (simp add: jmap_ok_def)
  have "jget m k \<noteq> None \<Longrightarrow> 0 < length m"
    by (cases m) auto
  with Cons id show ?case
    by (cases "fst e = k") (auto simp: jdel_def jget_Cons jmap_ok_def)
qed

lemma jkeys_set: "set (jkeys m) = fst ` set m"
  by (simp add: jkeys_def)

lemma jhas_iff: "jhas m k \<longleftrightarrow> k \<in> set (jkeys m)"
  by (simp add: jhas_def jget_None jkeys_set)

section \<open>Safe integers and byte buffers\<close>

text \<open>
  A JavaScript number that passes \<open>Number.isSafeInteger\<close> is an integer of absolute value at
  most \<open>2 ^ 53 - 1\<close>; arithmetic on such numbers is exact while it stays in that range, so
  they are \<open>int\<close> here and the range is written out where the code tests it.
\<close>

definition max_safe_integer :: int where
  "max_safe_integer = 9007199254740991"

definition is_safe :: "int \<Rightarrow> bool" where
  "is_safe n = (- max_safe_integer \<le> n \<and> n \<le> max_safe_integer)"

type_synonym byte = "8 word"
type_synonym bytes = "byte list"

text \<open>\<open>buffer.subarray(from, to)\<close> for \<open>from \<le> to\<close>; both ends are clipped.\<close>

definition subarray :: "nat \<Rightarrow> nat \<Rightarrow> 'a list \<Rightarrow> 'a list" where
  "subarray a b xs = take (b - a) (drop a xs)"

lemma length_subarray [simp]: "b \<le> length xs \<Longrightarrow> length (subarray a b xs) = b - a"
  by (simp add: subarray_def)

lemma subarray_append_left: "b \<le> length xs \<Longrightarrow> subarray a b (xs @ ys) = subarray a b xs"
  by (cases "a \<le> b") (auto simp: subarray_def)

lemma subarray_0: "subarray 0 b xs = take b xs"
  by (simp add: subarray_def)

declare jget_def [exec_simps] jset_def [exec_simps] jdel_def [exec_simps] jhas_def [exec_simps]
  jkeys_def [exec_simps] jfilter_def [exec_simps] jmap_ok_def [exec_simps] is_safe_def [exec_simps]
  max_safe_integer_def [exec_simps] subarray_def [exec_simps]

section \<open>Sorting by a comparator\<close>

text \<open>
  \<open>Array.prototype.sort\<close> is stable; \<open>sort_by c\<close> is the stable sort for a comparator \<open>c\<close>, whose sign
  says which argument goes first. \<open>localeCompare\<close> is the runtime's collation and is the parameter
  \<open>collate\<close> of what sorts by it.
\<close>

fun insert_by :: "('a \<Rightarrow> 'a \<Rightarrow> int) \<Rightarrow> 'a \<Rightarrow> 'a list \<Rightarrow> 'a list" where
  "insert_by c x [] = [x]"
| "insert_by c x (y # ys) = (if c y x \<le> 0 then y # insert_by c x ys else x # y # ys)"

definition sort_by :: "('a \<Rightarrow> 'a \<Rightarrow> int) \<Rightarrow> 'a list \<Rightarrow> 'a list" where
  "sort_by c xs = fold (insert_by c) xs []"

lemma set_insert_by: "set (insert_by c x ys) = insert x (set ys)"
  by (induction ys) auto

lemma set_sort_by [simp]: "set (sort_by c xs) = set xs"
proof -
  have "set (fold (insert_by c) xs ys) = set xs \<union> set ys" for ys
    by (induction xs arbitrary: ys) (simp_all add: set_insert_by)
  then show ?thesis by (simp add: sort_by_def)
qed

lemma length_insert_by: "length (insert_by c x ys) = Suc (length ys)"
  by (induction ys) simp_all

lemma length_sort_by [simp]: "length (sort_by c xs) = length xs"
proof -
  have "length (fold (insert_by c) xs ys) = length xs + length ys" for ys
    by (induction xs arbitrary: ys) (simp_all add: length_insert_by)
  then show ?thesis by (simp add: sort_by_def)
qed

end
