(* ===== verification/Js_Text.thy ===== *)
theory Js_Text
  imports Kaisola_Prelude
begin

text \<open>
  The strings of JavaScript and the text encodings the program relies on: a string is the list of
  its UTF-16 code units (\<open>value.length\<close> is the length of the list), \<open>Buffer.from(s, 'utf8')\<close> and
  \<open>buffer.toString('utf8')\<close> are the encoder and the replacing decoder of the WHATWG Encoding
  standard, \<open>base64url\<close> is the unpadded alphabet of RFC 4648, and decimal text is what
  \<open>String(n)\<close> prints for an integer. These model the language's standard library, which the
  components call.
\<close>

section \<open>Strings as code units\<close>

type_synonym jstr = "16 word list"

definition js :: "string \<Rightarrow> jstr" where
  "js s = map of_char s"

lemma unat_of_nat_16: "n < 65536 \<Longrightarrow> unat (of_nat n :: 16 word) = n"
  by (simp add: unat_of_nat)

lemma unat_of_char_16: "unat (of_char c :: 16 word) = of_char c"
proof -
  have "(of_char c :: nat) < 65536"
    by (rule less_trans [OF nat_of_char_less_256]) simp
  then have "unat (of_nat (of_char c) :: 16 word) = of_char c" by (rule unat_of_nat_16)
  then show ?thesis by (simp only: of_nat_of_char)
qed

lemma of_char_16_inject [simp]: "(of_char c :: 16 word) = of_char d \<longleftrightarrow> c = d"
proof
  assume "(of_char c :: 16 word) = of_char d"
  then have "(of_char c :: nat) = of_char d"
    using unat_of_char_16 [of c] unat_of_char_16 [of d] by metis
  then show "c = d" by simp
qed simp

lemma js_inject [simp]: "js s = js t \<longleftrightarrow> s = t"
proof
  have inj: "inj (of_char :: char \<Rightarrow> 16 word)" by (rule injI) simp
  assume "js s = js t"
  then show "s = t" using inj by (simp add: js_def inj_map_eq_map)
qed simp

lemma length_js [simp]: "length (js s) = length s"
  by (simp add: js_def)

lemma js_Nil_iff [simp]: "js s = [] \<longleftrightarrow> s = []" "[] = js s \<longleftrightarrow> s = []"
  by (auto simp: js_def)

lemma js_append: "js (s @ t) = js s @ js t"
  by (simp add: js_def)

section \<open>Identifiers\<close>

text \<open>\<open>ID_RE\<close> of \<open>protocol.cjs\<close>: \<^verbatim>\<open>/^[A-Za-z0-9][A-Za-z0-9._:@-]*$/\<close>.\<close>

definition is_digit_unit :: "16 word \<Rightarrow> bool" where
  "is_digit_unit u = (48 \<le> u \<and> u \<le> 57)"

definition is_alnum_unit :: "16 word \<Rightarrow> bool" where
  "is_alnum_unit u = (is_digit_unit u \<or> (65 \<le> u \<and> u \<le> 90) \<or> (97 \<le> u \<and> u \<le> 122))"

definition is_id_unit :: "16 word \<Rightarrow> bool" where
  "is_id_unit u = (is_alnum_unit u \<or> u = 46 \<or> u = 95 \<or> u = 58 \<or> u = 64 \<or> u = 45)"

definition is_b64url_unit :: "16 word \<Rightarrow> bool" where
  "is_b64url_unit u = (is_alnum_unit u \<or> u = 45 \<or> u = 95)"

fun id_re :: "jstr \<Rightarrow> bool" where
  "id_re [] = False"
| "id_re (u # us) = (is_alnum_unit u \<and> list_all is_id_unit us)"

section \<open>Whitespace and case\<close>

text \<open>
  The units \<^verbatim>\<open>\s\<close> matches, which are also those \<open>trim\<close> removes at both ends, and the ASCII part of
  \<open>toLowerCase\<close>.
\<close>

definition is_space_unit :: "16 word \<Rightarrow> bool" where
  "is_space_unit u =
     ((9 \<le> u \<and> u \<le> 13) \<or> u = 32 \<or> u = 0xA0 \<or> u = 0x1680 \<or> (0x2000 \<le> u \<and> u \<le> 0x200A) \<or> u = 0x2028 \<or>
      u = 0x2029 \<or> u = 0x202F \<or> u = 0x205F \<or> u = 0x3000 \<or> u = 0xFEFF)"

definition ascii_lower :: "16 word \<Rightarrow> 16 word" where
  "ascii_lower u = (if 65 \<le> u \<and> u \<le> 90 then u + 32 else u)"

definition js_trim :: "jstr \<Rightarrow> jstr" where
  "js_trim s = rev (dropWhile is_space_unit (rev (dropWhile is_space_unit s)))"

definition trimmed :: "jstr \<Rightarrow> bool" where
  "trimmed s = (s = [] \<or> (\<not> is_space_unit (hd s) \<and> \<not> is_space_unit (last s)))"

lemma dropWhile_rev_hd: "s \<noteq> [] \<Longrightarrow> \<not> p (hd s) \<Longrightarrow> dropWhile p (rev s) \<noteq> [] \<and>
    hd (rev (dropWhile p (rev s))) = hd s"
proof (induction s)
  case (Cons x xs)
  then show ?case by (simp add: dropWhile_append)
qed simp

lemma trimmed_js_trim [simp]: "trimmed (js_trim s)"
proof (cases "dropWhile is_space_unit s = []")
  case True
  have "js_trim s = []" unfolding js_trim_def True by simp
  then show ?thesis by (simp add: trimmed_def)
next
  case False
  define t where "t = dropWhile is_space_unit s"
  have t: "t \<noteq> []" "\<not> is_space_unit (hd t)" using False by (auto simp: t_def hd_dropWhile)
  define w where "w = dropWhile is_space_unit (rev t)"
  from dropWhile_rev_hd [where p = is_space_unit, OF t]
  have w: "w \<noteq> []" "hd (rev w) = hd t" unfolding w_def by blast+
  have "\<not> is_space_unit (hd w)" using w(1) unfolding w_def by (rule hd_dropWhile)
  moreover have "js_trim s = rev w" by (simp add: js_trim_def t_def w_def)
  ultimately show ?thesis using t w by (simp add: trimmed_def last_rev)
qed

lemma js_trim_trimmed [simp]: "trimmed s \<Longrightarrow> js_trim s = s"
proof -
  assume s: "trimmed s"
  have "dropWhile is_space_unit s = s" using s by (cases s) (auto simp: trimmed_def)
  moreover have "dropWhile is_space_unit (rev s) = rev s"
    using s by (cases s rule: rev_cases) (auto simp: trimmed_def)
  ultimately show ?thesis by (simp add: js_trim_def)
qed

lemma js_trim_hd: "js_trim s \<noteq> [] \<Longrightarrow> \<not> is_space_unit (hd (js_trim s))"
  using trimmed_js_trim [of s] by (simp add: trimmed_def)

lemma js_trim_not_Nil: "s \<noteq> [] \<Longrightarrow> \<not> is_space_unit (hd s) \<Longrightarrow> js_trim s \<noteq> []"
  by (cases s) (auto simp: js_trim_def dropWhile_append)

lemma set_js_trim: "set (js_trim s) \<subseteq> set s"
  by (auto simp: js_trim_def dest!: set_dropWhileD)

section \<open>Decimal text\<close>

fun digits_of :: "nat \<Rightarrow> jstr" where
  "digits_of n = (if n < 10 then [of_nat (48 + n)] else digits_of (n div 10) @ [of_nat (48 + n mod 10)])"

declare digits_of.simps [simp del]

definition int_text :: "int \<Rightarrow> jstr" where
  "int_text i = (if i < 0 then 45 # digits_of (nat (- i)) else digits_of (nat i))"

fun nat_of_digits :: "nat \<Rightarrow> jstr \<Rightarrow> nat" where
  "nat_of_digits acc [] = acc"
| "nat_of_digits acc (u # us) = nat_of_digits (10 * acc + (unat u - 48)) us"

lemma nat_of_digits_append: "nat_of_digits acc (xs @ ys) = nat_of_digits (nat_of_digits acc xs) ys"
  by (induction acc xs rule: nat_of_digits.induct) auto

lemma unat_digit: "d < 10 \<Longrightarrow> unat (of_nat (48 + d) :: 16 word) = 48 + d"
  by (simp add: unat_of_nat del: of_nat_add)

lemma nat_of_digits_digits_of [simp]: "nat_of_digits 0 (digits_of n) = n"
proof (induction n rule: digits_of.induct)
  case (1 n)
  show ?case
  proof (cases "n < 10")
    case True
    then show ?thesis by (simp add: digits_of.simps [of n] unat_digit del: of_nat_add)
  next
    case False
    then have "digits_of n = digits_of (n div 10) @ [of_nat (48 + n mod 10)]"
      by (simp add: digits_of.simps [of n])
    moreover have "unat (of_nat (48 + n mod 10) :: 16 word) = 48 + n mod 10"
      by (rule unat_digit) simp
    ultimately show ?thesis
      using False "1.IH" by (simp add: nat_of_digits_append del: of_nat_add)
  qed
qed

lemma digits_of_inject [simp]: "digits_of m = digits_of n \<longleftrightarrow> m = n"
  by (metis nat_of_digits_digits_of)

lemma is_digit_of_nat: "d < 10 \<Longrightarrow> is_digit_unit (of_nat (48 + d))"
  using unat_digit [of d] by (simp add: is_digit_unit_def word_le_nat_alt del: of_nat_add)

lemma digits_of_digits: "list_all is_digit_unit (digits_of n)"
proof (induction n rule: digits_of.induct)
  case (1 n)
  show ?case
  proof (cases "n < 10")
    case True
    then show ?thesis
      using is_digit_of_nat [of n] by (simp add: digits_of.simps [of n] del: of_nat_add)
  next
    case False
    with "1.IH" show ?thesis
      using is_digit_of_nat [of "n mod 10"] by (simp add: digits_of.simps [of n] del: of_nat_add)
  qed
qed

lemma digits_of_not_Nil [simp]: "digits_of n \<noteq> []"
  by (subst digits_of.simps) simp

lemma length_digits_of: "length (digits_of n) \<le> k \<longleftrightarrow> 0 < k \<and> (n < 10 ^ k)"
proof (induction n arbitrary: k rule: digits_of.induct)
  case (1 n)
  show ?case
  proof (cases "n < 10")
    case True
    then show ?thesis
      by (cases k) (auto simp: digits_of.simps [of n] intro: less_le_trans [where y = 10])
  next
    case False
    show ?thesis
    proof (cases k)
      case 0
      then show ?thesis by simp
    next
      case (Suc j)
      have "n div 10 < 10 ^ j \<longleftrightarrow> n < 10 ^ Suc j"
        by (simp add: less_mult_imp_div_less div_less_iff_less_mult mult.commute)
      moreover have "0 < j" if "n < 10 ^ Suc j" using that False by (cases j) auto
      ultimately show ?thesis
        using False "1.IH" Suc by (auto simp: digits_of.simps [of n])
    qed
  qed
qed

declare js_def [exec_simps] is_space_unit_def [exec_simps] ascii_lower_def [exec_simps]
  js_trim_def [exec_simps] is_digit_unit_def [exec_simps] is_alnum_unit_def [exec_simps]
  is_id_unit_def [exec_simps] is_b64url_unit_def [exec_simps] int_text_def [exec_simps]
  digits_of.simps [exec_simps]

end
