(* ===== verification/Utf8.thy ===== *)
theory Utf8
  imports Js_Text
begin

text \<open>
  UTF-8 as the runtime's \<open>Buffer\<close> encodes and decodes it. The codec works on code points as numbers. \<open>utf8_next\<close> reads one code point off the front of a
  byte sequence: its value and the bytes it takes, or \<open>None\<close> and the bytes of the ill-formed prefix
  that the decoder replaces by one U+FFFD (the ``maximal subpart'' rule).
\<close>

definition cont_byte :: "nat \<Rightarrow> bool" where
  "cont_byte b = (128 \<le> b \<and> b < 192)"

definition second_byte :: "nat \<Rightarrow> nat \<Rightarrow> bool" where
  "second_byte a b =
     ((if a = 224 then 160 else if a = 240 then 144 else 128) \<le> b \<and>
      b \<le> (if a = 237 then 159 else if a = 244 then 143 else 191))"

fun utf8_next :: "nat list \<Rightarrow> nat option \<times> nat" where
  "utf8_next [] = (None, 0)"
| "utf8_next (a # bs) =
     (if a < 128 then (Some a, 1)
      else if 194 \<le> a \<and> a \<le> 223 then
        (case bs of
           b # _ \<Rightarrow> if cont_byte b then (Some ((a - 192) * 64 + (b - 128)), 2) else (None, 1)
         | [] \<Rightarrow> (None, 1))
      else if 224 \<le> a \<and> a \<le> 239 then
        (case bs of
           b # c # _ \<Rightarrow>
             if second_byte a b then
               (if cont_byte c then (Some ((a - 224) * 4096 + (b - 128) * 64 + (c - 128)), 3)
                else (None, 2))
             else (None, 1)
         | [b] \<Rightarrow> if second_byte a b then (None, 2) else (None, 1)
         | [] \<Rightarrow> (None, 1))
      else if 240 \<le> a \<and> a \<le> 244 then
        (case bs of
           b # c # d # _ \<Rightarrow>
             if second_byte a b then
               (if cont_byte c then
                  (if cont_byte d
                   then (Some ((a - 240) * 262144 + (b - 128) * 4096 + (c - 128) * 64 + (d - 128)), 4)
                   else (None, 3))
                else (None, 2))
             else (None, 1)
         | [b, c] \<Rightarrow>
             if second_byte a b then (if cont_byte c then (None, 3) else (None, 2)) else (None, 1)
         | [b] \<Rightarrow> if second_byte a b then (None, 2) else (None, 1)
         | [] \<Rightarrow> (None, 1))
      else (None, 1))"

declare utf8_next.simps [simp del]

fun utf8_cps :: "nat list \<Rightarrow> nat list" where
  "utf8_cps [] = []"
| "utf8_cps (a # bs) =
     (case fst (utf8_next (a # bs)) of Some c \<Rightarrow> c | None \<Rightarrow> 65533)
       # utf8_cps (drop (snd (utf8_next (a # bs)) - 1) bs)"

fun utf8_valid :: "nat list \<Rightarrow> bool" where
  "utf8_valid [] = True"
| "utf8_valid (a # bs) =
     (fst (utf8_next (a # bs)) \<noteq> None \<and> utf8_valid (drop (snd (utf8_next (a # bs)) - 1) bs))"

definition enc_cp :: "nat \<Rightarrow> nat list" where
  "enc_cp c =
     (if c < 128 then [c]
      else if c < 2048 then [192 + c div 64, 128 + c mod 64]
      else if c < 65536 then [224 + c div 4096, 128 + c div 64 mod 64, 128 + c mod 64]
      else [240 + c div 262144, 128 + c div 4096 mod 64, 128 + c div 64 mod 64, 128 + c mod 64])"

definition enc_cps :: "nat list \<Rightarrow> nat list" where
  "enc_cps cs = concat (map enc_cp cs)"

definition scalar :: "nat \<Rightarrow> bool" where
  "scalar c = (c < 55296 \<or> (57344 \<le> c \<and> c < 1114112))"

declare utf8_cps.simps(2) [simp del] utf8_valid.simps(2) [simp del]

lemma nat_offset: "(k::nat) \<le> a \<Longrightarrow> a \<le> k + m \<Longrightarrow> \<exists>x. a = k + x \<and> x \<le> m"
  by (rule exI [of _ "a - k"]) simp

lemma cont_byte_offset: "cont_byte b \<Longrightarrow> \<exists>y. b = 128 + y \<and> y \<le> 63"
  by (rule nat_offset) (simp_all add: cont_byte_def)

lemma second_byte_cont: "second_byte a b \<Longrightarrow> cont_byte b"
  by (auto simp: second_byte_def cont_byte_def split: if_splits)

lemma low_six:
  assumes "n = m * 64 + z" "z \<le> 63"
  shows "(n::nat) mod 64 = z" "n div 64 = m"
  using assms by simp_all

lemma utf8_next_Some:
  assumes "utf8_next bs = (Some c, n)"
  shows "scalar c \<and> enc_cp c = take n bs \<and> 1 \<le> n \<and> n \<le> length bs"
proof (cases bs)
  case Nil
  with assms show ?thesis by (simp add: utf8_next.simps)
next
  case (Cons a r)
  consider "a < 128" | "194 \<le> a \<and> a \<le> 223" | "224 \<le> a \<and> a \<le> 239" | "240 \<le> a \<and> a \<le> 244"
    | "128 \<le> a \<and> (a < 194 \<or> 244 < a)" by linarith
  then show ?thesis
  proof cases
    case 1
    with assms Cons show ?thesis by (auto simp: utf8_next.simps enc_cp_def scalar_def)
  next
    case 2
    then obtain x where x: "a = 194 + x" "x \<le> 29" using nat_offset [of 194 a 29] by auto
    with assms Cons obtain b s where b: "r = b # s" "cont_byte b" "c = (2 + x) * 64 + (b - 128)" "n = 2"
      by (auto simp: utf8_next.simps split: list.splits if_splits)
    then obtain y where y: "b = 128 + y" "y \<le> 63" using cont_byte_offset by blast
    obtain k where k: "k = 2 + x" by simp
    have c: "c = k * 64 + y" using b y k by simp
    have "(k * 64 + y) div 64 = k" "(k * 64 + y) mod 64 = y" using y by simp_all
    moreover have "128 \<le> k * 64 + y" "k * 64 + y < 2048" using k x y by simp_all
    ultimately show ?thesis using b x y k c Cons
      by (simp add: enc_cp_def scalar_def)
  next
    case 3
    then obtain x where x: "a = 224 + x" "x \<le> 15" using nat_offset [of 224 a 15] by auto
    with assms Cons obtain b d s where b: "r = b # d # s" "second_byte a b" "cont_byte d"
        "c = x * 4096 + (b - 128) * 64 + (d - 128)" "n = 3"
      by (auto simp: utf8_next.simps split: list.splits if_splits)
    then obtain z where z: "d = 128 + z" "z \<le> 63" using cont_byte_offset by blast
    from b obtain y where y: "b = 128 + y" "y \<le> 63" using cont_byte_offset second_byte_cont by blast
    have e0: "x = 0 \<Longrightarrow> 32 \<le> y" and ed: "x = 13 \<Longrightarrow> y < 32"
      using b x y by (auto simp: second_byte_def)
    have lo: "2048 \<le> x * 4096 + y * 64 + z" using e0 by (cases "x = 0") auto
    have sc: "scalar (x * 4096 + y * 64 + z)"
      using ed x y z by (cases "x < 13"; cases "x = 13") (auto simp: scalar_def)
    have hi: "x * 4096 + y * 64 + z < 65536" using x y z by linarith
    have "(x * 4096 + y * 64 + z) div 64 = x * 64 + y" using z by simp
    moreover have "(x * 4096 + y * 64 + z) div 4096 = x" using y z by simp
    moreover have "(x * 64 + y) mod 64 = y" using y by simp
    moreover have "(x * 4096 + y * 64 + z) mod 64 = z"
      by (rule low_six [where m = "x * 64 + y"]) (use z in simp_all)
    ultimately show ?thesis using b x y z Cons lo sc hi by (simp add: enc_cp_def)
  next
    case 4
    then obtain x where x: "a = 240 + x" "x \<le> 4" using nat_offset [of 240 a 4] by auto
    with assms Cons obtain b d e s where b: "r = b # d # e # s" "second_byte a b" "cont_byte d" "cont_byte e"
        "c = x * 262144 + (b - 128) * 4096 + (d - 128) * 64 + (e - 128)" "n = 4"
      by (auto simp: utf8_next.simps split: list.splits if_splits)
    then obtain z where z: "d = 128 + z" "z \<le> 63" using cont_byte_offset by blast
    from b obtain w where w: "e = 128 + w" "w \<le> 63" using cont_byte_offset by blast
    from b obtain y where y: "b = 128 + y" "y \<le> 63" using cont_byte_offset second_byte_cont by blast
    have e0: "x = 0 \<Longrightarrow> 16 \<le> y" and ed: "x = 4 \<Longrightarrow> y < 16"
      using b x y by (auto simp: second_byte_def)
    have lo: "65536 \<le> x * 262144 + y * 4096 + z * 64 + w" using e0 by (cases "x = 0") auto
    have sc: "scalar (x * 262144 + y * 4096 + z * 64 + w)"
      using ed x y z w lo by (cases "x = 4") (auto simp: scalar_def)
    have "(x * 262144 + y * 4096 + z * 64 + w) div 64 = x * 4096 + y * 64 + z" using w by simp
    moreover have "(x * 262144 + y * 4096 + z * 64 + w) div 4096 = x * 64 + y" using z w by simp
    moreover have "(x * 262144 + y * 4096 + z * 64 + w) div 262144 = x" using y z w by simp
    moreover have "(x * 64 + y) mod 64 = y" using y by simp
    moreover have "(x * 4096 + y * 64 + z) mod 64 = z"
      by (rule low_six [where m = "x * 64 + y"]) (use z in simp_all)
    moreover have "(x * 262144 + y * 4096 + z * 64 + w) mod 64 = w"
      by (rule low_six [where m = "x * 4096 + y * 64 + z"]) (use w in simp_all)
    ultimately show ?thesis using b x y z w Cons lo sc by (simp add: enc_cp_def)
  next
    case 5
    with assms Cons show ?thesis by (auto simp: utf8_next.simps)
  qed
qed

lemma six_parts:
  fixes c :: nat
  obtains x y z where "c = x * 4096 + y * 64 + z" "y \<le> 63" "z \<le> 63" "x = c div 4096"
    "y = c div 64 mod 64" "z = c mod 64"
proof -
  have "c = c div 64 * 64 + c mod 64" by simp
  moreover have "c div 64 = c div 4096 * 64 + c div 64 mod 64"
    by (simp add: div_mult2_eq [of c 64 64, simplified])
  ultimately have "c = c div 4096 * 4096 + c div 64 mod 64 * 64 + c mod 64" by linarith
  then show ?thesis using that by (simp add: less_Suc_eq_le [symmetric])
qed

lemma utf8_next_enc_cp:
  assumes "scalar c"
  shows "utf8_next (enc_cp c @ r) = (Some c, length (enc_cp c))"
proof -
  obtain x y z where c: "c = x * 4096 + y * 64 + z" "y \<le> 63" "z \<le> 63" "x = c div 4096"
    "y = c div 64 mod 64" "z = c mod 64" by (rule six_parts)
  consider "c < 128" | "128 \<le> c" "c < 2048" | "2048 \<le> c" "c < 65536" | "65536 \<le> c" by linarith
  then show ?thesis
  proof cases
    case 1
    then show ?thesis by (simp add: enc_cp_def utf8_next.simps)
  next
    case 2
    have x0: "x = 0" using 2 c(1) by simp
    have y: "2 \<le> y" "y \<le> 31" using 2 c(1,3) x0 by simp_all
    have "c = y * 64 + z" using c(1) x0 by simp
    then have "c div 64 = y" "c mod 64 = z" using low_six [of c y z] c(3) by simp_all
    then have "enc_cp c = [192 + y, 128 + z]" using 2 by (simp add: enc_cp_def)
    then show ?thesis using y c(3) \<open>c = y * 64 + z\<close>
      by (simp add: utf8_next.simps cont_byte_def)
  next
    case 3
    then have x: "x \<le> 15" using c(1) by simp
    have "x = 0 \<Longrightarrow> 32 \<le> y" using 3 c(1-3) by simp
    moreover have "x = 13 \<Longrightarrow> y \<le> 31" using assms c(1-3) by (auto simp: scalar_def)
    ultimately have "second_byte (224 + x) (128 + y)" using c(2) x by (auto simp: second_byte_def)
    moreover have "enc_cp c = [224 + x, 128 + y, 128 + z]"
      using 3 c(4-6) by (simp add: enc_cp_def)
    ultimately show ?thesis using x c(1-3)
      by (simp add: utf8_next.simps cont_byte_def)
  next
    case 4
    obtain u v where u: "x = u * 64 + v" "v \<le> 63" "u = x div 64" "v = x mod 64"
      by (rule that [of "x div 64" "x mod 64"]) (simp_all add: less_Suc_eq_le [symmetric])
    have "c div 262144 = u" using c(4) u(3) div_mult2_eq [of c 4096 64] by simp
    then have e: "enc_cp c = [240 + u, 128 + v, 128 + y, 128 + z]"
      using 4 c(4-6) u(4) by (simp add: enc_cp_def)
    have cc: "c = u * 262144 + v * 4096 + y * 64 + z" using c(1) u(1) by simp
    have "c < 1114112" using assms by (auto simp: scalar_def)
    then have ul: "u \<le> 4" using cc by simp
    have "u = 0 \<Longrightarrow> 16 \<le> v" using 4 cc c(2,3) by simp
    moreover have "u = 4 \<Longrightarrow> v \<le> 15" using \<open>c < 1114112\<close> cc by simp
    ultimately have "second_byte (240 + u) (128 + v)" using u(2) ul by (auto simp: second_byte_def)
    then show ?thesis using e cc ul c(2,3)
      by (simp add: utf8_next.simps cont_byte_def)
  qed
qed

lemma enc_cp_not_Nil [simp]: "enc_cp c \<noteq> []"
  by (simp add: enc_cp_def)

lemma enc_cp_shape:
  assumes "scalar c"
  obtains a t where "enc_cp c = a # t" "\<not> cont_byte a" "list_all cont_byte t"
proof -
  have "c < 1114112" using assms by (auto simp: scalar_def)
  then have "\<not> cont_byte (hd (enc_cp c)) \<and> list_all cont_byte (tl (enc_cp c))"
    by (auto simp: enc_cp_def cont_byte_def less_Suc_eq_le [symmetric])
  then show ?thesis using that by (cases "enc_cp c") auto
qed

lemma enc_cps_Nil [simp]: "enc_cps [] = []"
  by (simp add: enc_cps_def)

lemma enc_cps_Cons [simp]: "enc_cps (c # cs) = enc_cp c @ enc_cps cs"
  by (simp add: enc_cps_def)

lemma enc_cps_append [simp]: "enc_cps (cs @ ds) = enc_cps cs @ enc_cps ds"
  by (simp add: enc_cps_def)

lemma utf8_valid_enc_cp: "scalar c \<Longrightarrow> utf8_valid (enc_cp c @ r) = utf8_valid r"
proof -
  assume s: "scalar c"
  then obtain a t where a: "enc_cp c = a # t" by (rule enc_cp_shape)
  show ?thesis using utf8_next_enc_cp [OF s, of r] a by (simp add: utf8_valid.simps(2))
qed

lemma utf8_cps_enc_cp: "scalar c \<Longrightarrow> utf8_cps (enc_cp c @ r) = c # utf8_cps r"
proof -
  assume s: "scalar c"
  then obtain a t where a: "enc_cp c = a # t" by (rule enc_cp_shape)
  show ?thesis using utf8_next_enc_cp [OF s, of r] a by (simp add: utf8_cps.simps(2))
qed

text \<open>Decoding what was encoded gives the code points back.\<close>

lemma utf8_cps_enc_cps: "list_all scalar cs \<Longrightarrow> utf8_cps (enc_cps cs) = cs"
  by (induction cs) (simp_all add: utf8_cps_enc_cp)

lemma utf8_valid_enc_cps: "list_all scalar cs \<Longrightarrow> utf8_valid (enc_cps cs)"
  by (induction cs) (simp_all add: utf8_valid_enc_cp)

lemma utf8_cps_scalar: "list_all scalar (utf8_cps bs)"
proof (induction bs rule: utf8_cps.induct)
  case (2 a bs)
  obtain oc n where on: "utf8_next (a # bs) = (oc, n)" by fastforce
  then have "scalar (case oc of Some c \<Rightarrow> c | None \<Rightarrow> 65533)"
    using utf8_next_Some by (cases oc) (auto simp: scalar_def)
  with 2 on show ?case by (simp add: utf8_cps.simps(2))
qed simp

text \<open>A byte sequence survives decoding and encoding exactly when it is well formed.\<close>

lemma utf8_valid_split:
  assumes "utf8_valid bs"
  shows "list_all scalar (utf8_cps bs) \<and> enc_cps (utf8_cps bs) = bs"
  using assms
proof (induction bs rule: utf8_valid.induct)
  case (2 a bs)
  obtain oc n where on: "utf8_next (a # bs) = (oc, n)" by fastforce
  with 2(2) obtain c where c: "oc = Some c" by (auto simp: utf8_valid.simps(2))
  from on c have nx: "scalar c" "enc_cp c = take n (a # bs)" "1 \<le> n"
    using utf8_next_Some by auto
  have v: "utf8_valid (drop (n - 1) bs)" using 2(2) on by (simp add: utf8_valid.simps(2))
  have "enc_cps (utf8_cps (drop (n - 1) bs)) = drop (n - 1) bs"
    using 2(1) v on by simp
  moreover have "take n (a # bs) @ drop (n - 1) bs = a # bs"
    using nx(3) by (cases n) simp_all
  ultimately show ?case
    using 2(1) v on c nx by (simp add: utf8_cps.simps(2))
qed simp

lemma utf8_valid_iff: "utf8_valid bs \<longleftrightarrow> enc_cps (utf8_cps bs) = bs"
proof
  assume "utf8_valid bs"
  then show "enc_cps (utf8_cps bs) = bs" using utf8_valid_split by blast
next
  assume "enc_cps (utf8_cps bs) = bs"
  then show "utf8_valid bs" using utf8_valid_enc_cps [OF utf8_cps_scalar [of bs]] by simp
qed

lemma utf8_valid_cases:
  assumes "utf8_valid bs"
  obtains cs where "list_all scalar cs" "bs = enc_cps cs"
  using utf8_valid_split [OF assms] by metis

lemma utf8_valid_append: "utf8_valid xs \<Longrightarrow> utf8_valid ys \<Longrightarrow> utf8_valid (xs @ ys)"
  by (metis utf8_valid_cases utf8_valid_enc_cps enc_cps_append list_all_append)

text \<open>
  Every offset of a well-formed sequence that does not point at a continuation byte splits it
  into two well-formed sequences.
\<close>

definition boundary :: "nat list \<Rightarrow> nat \<Rightarrow> bool" where
  "boundary bs k = (k = 0 \<or> k = length bs \<or> (k < length bs \<and> \<not> cont_byte (bs ! k)))"

lemma utf8_split_at_boundary:
  assumes "utf8_valid bs" "boundary bs k"
  shows "utf8_valid (take k bs) \<and> utf8_valid (drop k bs)"
proof -
  have main: "utf8_valid (take k (enc_cps cs)) \<and> utf8_valid (drop k (enc_cps cs))"
    if "list_all scalar cs" "boundary (enc_cps cs) k" for cs k
    using that
  proof (induction cs arbitrary: k)
    case (Cons c cs)
    then have s: "scalar c" by simp
    obtain a t where a: "enc_cp c = a # t" "list_all cont_byte t" using enc_cp_shape [OF s] by metis
    show ?case
    proof (cases "k < length (enc_cp c)")
      case True
      have "k = 0"
      proof (rule ccontr)
        assume "k \<noteq> 0"
        then have "cont_byte (enc_cps (c # cs) ! k)"
          using True a by (cases k) (auto simp: nth_append list_all_length)
        then show False using Cons.prems(2) True \<open>k \<noteq> 0\<close> by (auto simp: boundary_def)
      qed
      then show ?thesis using utf8_valid_enc_cps [OF Cons.prems(1)] by simp
    next
      case False
      define j where "j = k - length (enc_cp c)"
      have "boundary (enc_cps cs) j"
        using Cons.prems(2) False by (auto simp: boundary_def j_def nth_append)
      then have "utf8_valid (take j (enc_cps cs)) \<and> utf8_valid (drop j (enc_cps cs))"
        using Cons by simp
      then show ?thesis using False s by (simp add: j_def utf8_valid_enc_cp)
    qed
  qed simp
  from assms obtain cs where "list_all scalar cs" "bs = enc_cps cs"
    using utf8_valid_cases by metis
  with main assms show ?thesis by simp
qed

section \<open>UTF-16 and the byte-level codec\<close>

text \<open>
  Code points become one or two code units; reading code units back pairs surrogates, and a lone
  surrogate becomes U+FFFD, which is what the UTF-8 encoder of the runtime writes for it.
\<close>

definition is_high :: "16 word \<Rightarrow> bool" where
  "is_high u = (55296 \<le> unat u \<and> unat u < 56320)"

definition is_low :: "16 word \<Rightarrow> bool" where
  "is_low u = (56320 \<le> unat u \<and> unat u < 57344)"

fun cps_of_units :: "jstr \<Rightarrow> nat list" where
  "cps_of_units [] = []"
| "cps_of_units [u] = [if is_high u \<or> is_low u then 65533 else unat u]"
| "cps_of_units (u # v # us) =
     (if is_high u \<and> is_low v
      then (65536 + (unat u - 55296) * 1024 + (unat v - 56320)) # cps_of_units us
      else (if is_high u \<or> is_low u then 65533 else unat u) # cps_of_units (v # us))"

definition units_of_cp :: "nat \<Rightarrow> jstr" where
  "units_of_cp c =
     (if c < 65536 then [of_nat c]
      else [of_nat (55296 + (c - 65536) div 1024), of_nat (56320 + (c - 65536) mod 1024)])"

definition utf8_encode :: "jstr \<Rightarrow> bytes" where
  "utf8_encode s = map of_nat (enc_cps (cps_of_units s))"

definition utf8_decode :: "bytes \<Rightarrow> jstr" where
  "utf8_decode bs = concat (map units_of_cp (utf8_cps (map unat bs)))"

definition utf8_ok :: "bytes \<Rightarrow> bool" where
  "utf8_ok bs = utf8_valid (map unat bs)"

text \<open>A string without lone surrogates.\<close>

definition well_formed :: "jstr \<Rightarrow> bool" where
  "well_formed s = (concat (map units_of_cp (cps_of_units s)) = s)"

lemma unat_unit_less: "unat (u :: 16 word) < 65536"
  using unsigned_less [of u, where ?'a = nat] by simp

lemma inj_unat_byte: "inj (unat :: byte \<Rightarrow> nat)"
  by (rule injI) (erule unsigned_word_eqI)

lemma cps_of_units_scalar: "list_all scalar (cps_of_units s)"
proof (induction s rule: cps_of_units.induct)
  case (2 u)
  have "unat u < 65536" by (rule unat_unit_less)
  then show ?case by (auto simp: scalar_def is_high_def is_low_def)
next
  case (3 u v us)
  have "unat u < 65536" by (rule unat_unit_less)
  with 3 show ?case by (auto simp: scalar_def is_high_def is_low_def)
qed simp

lemma cps_of_units_cp:
  assumes "scalar c"
  shows "cps_of_units (units_of_cp c @ us) = c # cps_of_units us"
proof (cases "c < 65536")
  case True
  then have u: "unat (of_nat c :: 16 word) = c" by (rule unat_of_nat_16)
  have "\<not> is_high (of_nat c)" "\<not> is_low (of_nat c)"
    using assms True u by (auto simp: is_high_def is_low_def scalar_def)
  then show ?thesis using True u by (cases us) (simp_all add: units_of_cp_def)
next
  case False
  have c: "c < 1114112" using assms by (auto simp: scalar_def)
  define h l where "h = 55296 + (c - 65536) div 1024" and "l = 56320 + (c - 65536) mod 1024"
  have hb: "55296 \<le> h" "h < 56320" and lb: "56320 \<le> l" "l < 57344"
    using c by (auto simp: h_def l_def div_less_iff_less_mult)
  have uh: "unat (of_nat h :: 16 word) = h" and ul: "unat (of_nat l :: 16 word) = l"
    using hb lb by (auto intro: unat_of_nat_16)
  have "is_high (of_nat h)" "is_low (of_nat l)"
    using uh ul hb lb by (simp_all add: is_high_def is_low_def)
  moreover have "65536 + (h - 55296) * 1024 + (l - 56320) = c"
    using False by (simp add: h_def l_def)
  ultimately show ?thesis using False uh ul
    by (simp add: units_of_cp_def h_def [symmetric] l_def [symmetric] del: of_nat_add)
qed

lemma cps_of_units_of_cps: "list_all scalar cs \<Longrightarrow> cps_of_units (concat (map units_of_cp cs)) = cs"
  by (induction cs) (simp_all add: cps_of_units_cp)

lemma enc_cp_byte: "scalar c \<Longrightarrow> list_all (\<lambda>b. b < 256) (enc_cp c)"
proof -
  assume "scalar c"
  then have "c < 1114112" by (auto simp: scalar_def)
  then show ?thesis by (auto simp: enc_cp_def div_less_iff_less_mult)
qed

lemma enc_cps_byte: "list_all scalar cs \<Longrightarrow> list_all (\<lambda>b. b < 256) (enc_cps cs)"
  by (induction cs) (simp_all add: enc_cp_byte)

lemma map_unat_of_nat: "list_all (\<lambda>b. b < 256) bs \<Longrightarrow> map unat (map of_nat bs :: bytes) = bs"
  by (induction bs) (simp_all add: unat_of_nat)

lemma map_unat_utf8_encode: "map unat (utf8_encode s) = enc_cps (cps_of_units s)"
  unfolding utf8_encode_def
  by (rule map_unat_of_nat [OF enc_cps_byte [OF cps_of_units_scalar]])

lemma utf8_encode_ok [simp]: "utf8_ok (utf8_encode s)"
  unfolding utf8_ok_def map_unat_utf8_encode by (rule utf8_valid_enc_cps [OF cps_of_units_scalar])

lemma utf8_decode_encode: "well_formed s \<Longrightarrow> utf8_decode (utf8_encode s) = s"
  unfolding utf8_decode_def map_unat_utf8_encode
  by (simp add: utf8_cps_enc_cps cps_of_units_scalar well_formed_def)

lemma utf8_encode_decode: "utf8_encode (utf8_decode bs) = bs \<longleftrightarrow> utf8_ok bs"
proof -
  have enc: "enc_cps (cps_of_units (utf8_decode bs)) = enc_cps (utf8_cps (map unat bs))"
    by (simp add: utf8_decode_def cps_of_units_of_cps utf8_cps_scalar)
  have "utf8_encode (utf8_decode bs) = bs \<longleftrightarrow>
      map unat (utf8_encode (utf8_decode bs)) = map unat bs"
    by (simp add: inj_map_eq_map [OF inj_unat_byte])
  also have "\<dots> \<longleftrightarrow> utf8_ok bs"
    by (simp add: map_unat_utf8_encode enc utf8_ok_def utf8_valid_iff)
  finally show ?thesis .
qed

lemma utf8_ok_append: "utf8_ok xs \<Longrightarrow> utf8_ok ys \<Longrightarrow> utf8_ok (xs @ ys)"
  by (simp add: utf8_ok_def utf8_valid_append)

lemma utf8_ok_Nil [simp]: "utf8_ok []"
  by (simp add: utf8_ok_def)

lemma utf8_encode_Nil [simp]: "utf8_encode [] = []"
  by (simp add: utf8_encode_def)

lemma utf8_decode_append:
  assumes "utf8_ok xs"
  shows "utf8_decode (xs @ ys) = utf8_decode xs @ utf8_decode ys"
proof -
  obtain cs where cs: "list_all scalar cs" "map unat xs = enc_cps cs"
    using assms utf8_valid_cases unfolding utf8_ok_def by metis
  have "utf8_cps (enc_cps cs @ r) = cs @ utf8_cps r" for r
    using cs(1) by (induction cs) (simp_all add: utf8_cps_enc_cp)
  then show ?thesis
    using cs utf8_cps_enc_cps [OF cs(1)] by (simp add: utf8_decode_def)
qed

declare is_high_def [exec_simps] is_low_def [exec_simps] enc_cp_def [exec_simps]
  enc_cps_def [exec_simps] utf8_encode_def [exec_simps]

end
