(* ===== verification/Base64url.thy ===== *)
theory Base64url
  imports Utf8
begin

text \<open>
  Unpadded base64url text of byte buffers (\<open>buffer.toString('base64url')\<close>, \<open>Buffer.from(s, 'base64url')\<close>
  on the alphabet) and the strict reader \<open>fromB64url\<close> of \<open>crypto.cjs\<close>, which accepts exactly the
  canonical encodings.
\<close>

definition b64_unit :: "nat \<Rightarrow> 16 word" where
  "b64_unit n =
     of_nat (if n < 26 then 65 + n else if n < 52 then 71 + n
             else if n < 62 then n - 4 else if n = 62 then 45 else 95)"

definition b64_val :: "16 word \<Rightarrow> nat" where
  "b64_val u =
     (let n = unat u in
      if 65 \<le> n \<and> n \<le> 90 then n - 65 else if 97 \<le> n \<and> n \<le> 122 then n - 71
      else if 48 \<le> n \<and> n \<le> 57 then n + 4 else if n = 45 then 62 else 63)"

fun b64_enc :: "nat list \<Rightarrow> nat list" where
  "b64_enc [] = []"
| "b64_enc [a] = [a div 4, a mod 4 * 16]"
| "b64_enc [a, b] = [a div 4, a mod 4 * 16 + b div 16, b mod 16 * 4]"
| "b64_enc (a # b # c # r) =
     a div 4 # (a mod 4 * 16 + b div 16) # (b mod 16 * 4 + c div 64) # (c mod 64) # b64_enc r"

fun b64_dec :: "nat list \<Rightarrow> nat list" where
  "b64_dec [] = []"
| "b64_dec [x] = []"
| "b64_dec [x, y] = [x * 4 + y div 16]"
| "b64_dec [x, y, z] = [x * 4 + y div 16, y mod 16 * 16 + z div 4]"
| "b64_dec (x # y # z # w # r) =
     (x * 4 + y div 16) # (y mod 16 * 16 + z div 4) # (z mod 4 * 64 + w) # b64_dec r"

definition b64url :: "bytes \<Rightarrow> jstr" where
  "b64url bs = map b64_unit (b64_enc (map unat bs))"

definition b64url_bytes :: "jstr \<Rightarrow> bytes" where
  "b64url_bytes s = map of_nat (b64_dec (map b64_val s))"

definition from_b64url :: "jstr \<Rightarrow> bytes option" where
  "from_b64url s =
     (if s \<noteq> [] \<and> list_all is_b64url_unit s \<and> b64url (b64url_bytes s) = s
      then Some (b64url_bytes s) else None)"

lemma b64_val_unit: "n < 64 \<Longrightarrow> b64_val (b64_unit n) = n"
proof -
  assume n: "n < 64"
  define m where "m = (if n < 26 then 65 + n else if n < 52 then 71 + n
             else if n < 62 then n - 4 else if n = 62 then 45 else 95)"
  have "m < 65536" using n by (auto simp: m_def)
  then have "unat (of_nat m :: 16 word) = m" by (rule unat_of_nat_16)
  moreover have "b64_unit n = of_nat m" by (simp add: b64_unit_def m_def)
  ultimately show ?thesis using n by (auto simp: b64_val_def m_def Let_def)
qed

lemma b64_unit_alphabet: "n < 64 \<Longrightarrow> is_b64url_unit (b64_unit n)"
proof -
  assume n: "n < 64"
  define m where "m = (if n < 26 then 65 + n else if n < 52 then 71 + n
             else if n < 62 then n - 4 else if n = 62 then 45 else 95)"
  have "m < 65536" using n by (auto simp: m_def)
  then have u: "unat (of_nat m :: 16 word) = m" by (rule unat_of_nat_16)
  have e: "b64_unit n = of_nat m" by (simp add: b64_unit_def m_def)
  show ?thesis
  proof (cases "n < 62")
    case True
    then show ?thesis using u unfolding e
      by (auto simp: is_b64url_unit_def is_alnum_unit_def is_digit_unit_def word_le_nat_alt m_def
          split: if_splits)
  next
    case False
    with n have "n = 62 \<or> n = 63" by auto
    then show ?thesis by (auto simp: b64_unit_def is_b64url_unit_def)
  qed
qed

text \<open>The arithmetic of the six-bit groups.\<close>

lemma b64_group:
  fixes a b c :: nat
  assumes "a < 256" "b < 256" "c < 256"
  shows "a div 4 < 64" "a mod 4 * 16 + b div 16 < 64" "b mod 16 * 4 + c div 64 < 64"
    "a div 4 * 4 + (a mod 4 * 16 + b div 16) div 16 = a"
    "(a mod 4 * 16 + b div 16) mod 16 * 16 + (b mod 16 * 4 + c div 64) div 4 = b"
    "(b mod 16 * 4 + c div 64) mod 4 * 64 + c mod 64 = c"
proof -
  have d: "b div 16 < 16" "c div 64 < 4" "a mod 4 < 4" "b mod 16 < 16"
    using assms by (simp_all add: div_less_iff_less_mult)
  show "a div 4 < 64" using assms by (simp add: div_less_iff_less_mult)
  show "a mod 4 * 16 + b div 16 < 64" "b mod 16 * 4 + c div 64 < 64" using d by linarith+
  have x: "(a mod 4 * 16 + b div 16) div 16 = a mod 4" "(a mod 4 * 16 + b div 16) mod 16 = b div 16"
    using d by simp_all
  have y: "(b mod 16 * 4 + c div 64) div 4 = b mod 16" "(b mod 16 * 4 + c div 64) mod 4 = c div 64"
    using d by simp_all
  show "a div 4 * 4 + (a mod 4 * 16 + b div 16) div 16 = a" unfolding x by simp
  show "(a mod 4 * 16 + b div 16) mod 16 * 16 + (b mod 16 * 4 + c div 64) div 4 = b"
    unfolding x y by simp
  show "(b mod 16 * 4 + c div 64) mod 4 * 64 + c mod 64 = c" unfolding y by simp
qed

lemma b64_dec_enc: "list_all (\<lambda>b. b < 256) bs \<Longrightarrow> b64_dec (b64_enc bs) = bs"
proof (induction bs rule: b64_enc.induct)
  case (4 a b c r)
  then have g: "a < 256" "b < 256" "c < 256" and ih: "b64_dec (b64_enc r) = r" by simp_all
  show ?case by (simp only: b64_enc.simps b64_dec.simps b64_group(4-6) [OF g] ih)
next
  case (3 a b)
  then have g: "a < 256" "b < 256" "(0::nat) < 256" by simp_all
  show ?case using b64_group(4,5) [OF g]
    by (simp only: b64_enc.simps b64_dec.simps div_0 add_0_right)
next
  case (2 a)
  then have g: "a < 256" "(0::nat) < 256" "(0::nat) < 256" by simp_all
  show ?case using b64_group(4) [OF g]
    by (simp only: b64_enc.simps b64_dec.simps div_0 add_0_right)
qed simp

lemma b64_enc_less: "list_all (\<lambda>b. b < 256) bs \<Longrightarrow> list_all (\<lambda>n. n < 64) (b64_enc bs)"
proof (induction bs rule: b64_enc.induct)
  case (4 a b c r)
  then show ?case using b64_group [of a b c] by simp
next
  case (3 a b)
  then show ?case using b64_group [of a b 0] by simp
next
  case (2 a)
  then show ?case using b64_group [of a 0 0] by simp
qed simp

lemma unat_bytes_less: "list_all (\<lambda>b. b < 256) (map unat (bs :: bytes))"
proof -
  have "unat (b :: byte) < 256" for b
    using unsigned_less [of b, where ?'a = nat] by simp
  then show ?thesis by (simp add: list_all_iff)
qed

text \<open>Decoding what was encoded gives the bytes back, and the strict reader accepts it.\<close>

lemma b64url_bytes_b64url [simp]: "b64url_bytes (b64url bs) = bs"
proof -
  have "map b64_val (map b64_unit (b64_enc (map unat bs))) = b64_enc (map unat bs)"
    using b64_enc_less [OF unat_bytes_less [of bs]]
    by (simp add: list_all_iff map_idI b64_val_unit)
  then show ?thesis
    unfolding b64url_def b64url_bytes_def
    by (simp only: b64_dec_enc [OF unat_bytes_less]) (simp add: comp_def)
qed

lemma b64url_inject [simp]: "b64url bs = b64url cs \<longleftrightarrow> bs = cs"
  by (metis b64url_bytes_b64url)

lemma b64url_alphabet: "list_all is_b64url_unit (b64url bs)"
  using b64_enc_less [OF unat_bytes_less [of bs]]
  by (auto simp: b64url_def list_all_iff b64_unit_alphabet)

lemma b64url_Nil_iff [simp]: "b64url bs = [] \<longleftrightarrow> bs = []"
proof -
  have "b64url bs = b64url [] \<longleftrightarrow> bs = []" by simp
  then show ?thesis by (simp add: b64url_def [of "[]"])
qed

lemma from_b64url_b64url: "bs \<noteq> [] \<Longrightarrow> from_b64url (b64url bs) = Some bs"
  by (simp add: from_b64url_def b64url_alphabet)

lemma from_b64url_Some: "from_b64url s = Some bs \<longleftrightarrow> bs \<noteq> [] \<and> s = b64url bs"
  by (auto simp: from_b64url_def b64url_alphabet split: if_splits)

lemma length_b64_enc: "length (b64_enc bs) = (4 * length bs + 2) div 3"
  by (induction bs rule: b64_enc.induct) simp_all

lemma length_b64url: "length (b64url bs) = (4 * length bs + 2) div 3"
  by (simp add: b64url_def length_b64_enc)

end
