(* ===== verification/Json.thy ===== *)
theory Json
  imports Base64url "HOL-Library.List_Lexorder"
begin

text \<open>
  JSON data as the program holds it after \<open>JSON.parse\<close>: an object is the list of its own properties
  in enumeration order. A number is either a safe integer or any other finite double, which is
  carried by the text the runtime prints for it (such a number is only ever rejected or printed
  back by the modelled code). \<open>stringify\<close> is \<open>JSON.stringify\<close> without indentation,
  \<open>canonical_json\<close> is \<open>canonicalJson\<close> of \<open>crypto.cjs\<close>.
\<close>

datatype json =
    JNull
  | JBool bool
  | JInt int
  | JFloat jstr
  | JStr jstr
  | JArr "json list"
  | JObj "(jstr \<times> json) list"

section \<open>Reading values\<close>

text \<open>
  A property that is absent reads as \<open>undefined\<close>, here \<open>None\<close>. \<open>nullish\<close> is the test
  \<^verbatim>\<open>value == null\<close>.
\<close>

fun ofields :: "json \<Rightarrow> (jstr \<times> json) list" where
  "ofields (JObj ps) = ps"
| "ofields _ = []"

definition field :: "json \<Rightarrow> string \<Rightarrow> json option" where
  "field v k = map_of (ofields v) (js k)"

fun is_obj :: "json \<Rightarrow> bool" where
  "is_obj (JObj _) = True"
| "is_obj _ = False"

definition okeys :: "json \<Rightarrow> jstr list" where
  "okeys v = map fst (ofields v)"

definition nullish :: "json option \<Rightarrow> bool" where
  "nullish v = (v = None \<or> v = Some JNull)"

fun as_str :: "json option \<Rightarrow> jstr option" where
  "as_str (Some (JStr s)) = Some s"
| "as_str _ = None"

fun as_int :: "json option \<Rightarrow> int option" where
  "as_int (Some (JInt n)) = (if is_safe n then Some n else None)"
| "as_int _ = None"

fun as_bool :: "json option \<Rightarrow> bool option" where
  "as_bool (Some (JBool b)) = Some b"
| "as_bool _ = None"

fun as_arr :: "json option \<Rightarrow> json list option" where
  "as_arr (Some (JArr xs)) = Some xs"
| "as_arr _ = None"

text \<open>\<open>assertAllowedKeys\<close>: every own property is one of the allowed names.\<close>

definition only_keys :: "json \<Rightarrow> string list \<Rightarrow> bool" where
  "only_keys v ks = list_all (\<lambda>k. k \<in> set (map js ks)) (okeys v)"

text \<open>The values that count as true.\<close>

fun truthy :: "json option \<Rightarrow> bool" where
  "truthy None = False"
| "truthy (Some JNull) = False"
| "truthy (Some (JBool b)) = b"
| "truthy (Some (JInt n)) = (n \<noteq> 0)"
| "truthy (Some (JStr s)) = (s \<noteq> [])"
| "truthy (Some v) = True"

lemma as_str_Some [simp]: "as_str v = Some s \<longleftrightarrow> v = Some (JStr s)"
  by (cases v rule: as_str.cases) auto

lemma as_int_Some [simp]: "as_int v = Some n \<longleftrightarrow> v = Some (JInt n) \<and> is_safe n"
  by (cases v rule: as_int.cases) auto

lemma as_bool_Some [simp]: "as_bool v = Some b \<longleftrightarrow> v = Some (JBool b)"
  by (cases v rule: as_bool.cases) auto

lemma as_arr_Some [simp]: "as_arr v = Some xs \<longleftrightarrow> v = Some (JArr xs)"
  by (cases v rule: as_arr.cases) auto

lemma is_obj_iff: "is_obj v \<longleftrightarrow> (\<exists>ps. v = JObj ps)"
  by (cases v) auto

section \<open>Building objects\<close>

text \<open>
  \<open>obj\<close> is an object literal, in the order its properties are written. A property whose value is
  \<open>undefined\<close>, or that a conditional spread leaves out, is not part of the data.
\<close>

fun entries :: "(string \<times> json option) list \<Rightarrow> (jstr \<times> json) list" where
  "entries [] = []"
| "entries ((k, v) # ps) = (case v of None \<Rightarrow> entries ps | Some x \<Rightarrow> (js k, x) # entries ps)"

definition obj :: "(string \<times> json option) list \<Rightarrow> json" where
  "obj ps = JObj (entries ps)"

lemma field_obj_Nil [simp]: "field (obj []) k = None"
  by (simp add: field_def obj_def)

lemma field_obj_Cons:
  "field (obj ((k', v) # ps)) k = (if k = k' \<and> v \<noteq> None then v else field (obj ps) k)"
  by (cases v) (auto simp: field_def obj_def)

lemma field_obj_other [simp]: "k \<noteq> k' \<Longrightarrow> field (obj ((k', v) # ps)) k = field (obj ps) k"
  by (simp add: field_obj_Cons)

lemma field_obj_here [simp]: "field (obj ps) k = None \<Longrightarrow> field (obj ((k, v) # ps)) k = v"
  by (simp add: field_obj_Cons)

lemma is_obj_obj [simp]: "is_obj (obj ps)"
  by (simp add: obj_def)

lemma only_keys_obj: "only_keys (obj ps) ks = list_all (\<lambda>p. snd p = None \<or> fst p \<in> set ks) ps"
  by (induction ps rule: entries.induct)
    (auto simp: only_keys_def okeys_def obj_def image_iff split: option.splits)

lemma only_keys_obj_Nil [simp]: "only_keys (obj []) ks"
  by (simp add: only_keys_obj)

lemma only_keys_obj_Cons [simp]:
  "only_keys (obj ((k, v) # ps)) ks = ((v = None \<or> k \<in> set ks) \<and> only_keys (obj ps) ks)"
  by (simp add: only_keys_obj)

section \<open>Printing\<close>

definition hex_unit :: "nat \<Rightarrow> 16 word" where
  "hex_unit n = of_nat (if n < 10 then 48 + n else 87 + n)"

definition u_escape :: "16 word \<Rightarrow> jstr" where
  "u_escape u = (let n = unat u in
     [92, 117, hex_unit (n div 4096), hex_unit (n div 256 mod 16),
      hex_unit (n div 16 mod 16), hex_unit (n mod 16)])"

definition esc_unit :: "16 word \<Rightarrow> jstr" where
  "esc_unit u =
     (if u = 34 then [92, 34] else if u = 92 then [92, 92]
      else if u = 8 then [92, 98] else if u = 9 then [92, 116] else if u = 10 then [92, 110]
      else if u = 12 then [92, 102] else if u = 13 then [92, 114]
      else if u < 32 then u_escape u else [u])"

fun esc_units :: "jstr \<Rightarrow> jstr" where
  "esc_units [] = []"
| "esc_units [u] = (if is_high u \<or> is_low u then u_escape u else esc_unit u)"
| "esc_units (u # v # us) =
     (if is_high u \<and> is_low v then u # v # esc_units us
      else (if is_high u \<or> is_low u then u_escape u else esc_unit u) @ esc_units (v # us))"

definition quote :: "jstr \<Rightarrow> jstr" where
  "quote s = 34 # esc_units s @ [34]"

fun commas :: "jstr list \<Rightarrow> jstr" where
  "commas [] = []"
| "commas [s] = s"
| "commas (s # t # r) = s @ 44 # commas (t # r)"

text \<open>\<open>String(value)\<close> of a JSON value without methods of its own.\<close>

fun string_of :: "json \<Rightarrow> jstr" where
  "string_of JNull = js ''null''"
| "string_of (JBool b) = (if b then js ''true'' else js ''false'')"
| "string_of (JInt n) = int_text n"
| "string_of (JFloat t) = t"
| "string_of (JStr s) = s"
| "string_of (JArr xs) = commas (map (\<lambda>x. case x of JNull \<Rightarrow> [] | _ \<Rightarrow> string_of x) xs)"
| "string_of (JObj ps) = js ''[object Object]''"

fun stringify :: "json \<Rightarrow> jstr" where
  "stringify JNull = js ''null''"
| "stringify (JBool b) = (if b then js ''true'' else js ''false'')"
| "stringify (JInt n) = int_text n"
| "stringify (JFloat t) = t"
| "stringify (JStr s) = quote s"
| "stringify (JArr xs) = 91 # commas (map stringify xs) @ [93]"
| "stringify (JObj ps) =
     123 # commas (map (\<lambda>p. quote (fst p) @ 58 # stringify (snd p)) ps) @ [125]"

definition json_bytes :: "json \<Rightarrow> nat" where
  "json_bytes v = length (utf8_encode (stringify v))"

text \<open>A bound on the size of the text that is cheaper to compute than the text.\<close>

lemma unat_16: "unat (u :: 16 word) < 65536"
  by (rule less_le_trans [OF unsigned_less]) simp

lemma length_enc_cps: "length (enc_cps (cps_of_units s)) \<le> 3 * length s"
proof (induction s rule: cps_of_units.induct)
  case (2 u)
  then show ?case using unat_16 [of u] by (simp add: enc_cps_def enc_cp_def)
next
  case (3 u v us)
  have "length (enc_cp (unat u)) \<le> 3" using unat_16 [of u] by (simp add: enc_cp_def)
  moreover have "length (enc_cp 65533) \<le> 3"
    "length (enc_cp (65536 + (unat u - 55296) * 1024 + (unat v - 56320))) \<le> 4"
    by (simp_all add: enc_cp_def)
  ultimately show ?case
    using 3 by (cases "is_high u"; cases "is_low v"; cases "is_low u") (auto simp: enc_cps_def)
qed (simp add: enc_cps_def)

lemma length_utf8_encode: "length (utf8_encode s) \<le> 3 * length s"
  using length_enc_cps [of s] by (simp add: utf8_encode_def)

lemma length_esc_unit: "length (esc_unit u) \<le> 6" "length (u_escape u) \<le> 6"
  by (simp_all add: esc_unit_def u_escape_def Let_def)

lemma length_esc_units: "length (esc_units s) \<le> 6 * length s"
proof (induction s rule: esc_units.induct)
  case (3 u v us)
  then show ?case using length_esc_unit [of u] by auto
qed (use length_esc_unit in auto)

lemma length_commas: "length (commas ts) \<le> (\<Sum>t\<leftarrow>ts. Suc (length t))"
  by (induction ts rule: commas.induct) auto

fun json_size :: "json \<Rightarrow> nat" where
  "json_size JNull = 4"
| "json_size (JBool b) = 5"
| "json_size (JInt n) = length (int_text n)"
| "json_size (JFloat t) = length t"
| "json_size (JStr s) = 6 * length s + 2"
| "json_size (JArr xs) = 2 + (\<Sum>x\<leftarrow>xs. Suc (json_size x))"
| "json_size (JObj ps) = 2 + (\<Sum>p\<leftarrow>ps. 6 * length (fst p) + 4 + json_size (snd p))"

lemma length_stringify: "length (stringify v) \<le> json_size v"
proof (induction v)
  case (JStr s)
  then show ?case using length_esc_units [of s] by (simp add: quote_def)
next
  case (JArr xs)
  have "(\<Sum>t\<leftarrow>map stringify xs. Suc (length t)) \<le> (\<Sum>x\<leftarrow>xs. Suc (json_size x))"
    using JArr by (induction xs) (auto intro: add_mono)
  then show ?case using length_commas [of "map stringify xs"] by simp
next
  case (JObj ps)
  let ?t = "\<lambda>p. quote (fst p) @ 58 # stringify (snd p)"
  have "Suc (length (?t p)) \<le> 6 * length (fst p) + 4 + json_size (snd p)" if "p \<in> set ps" for p
    using JObj [OF that, of "snd p"] length_esc_units [of "fst p"]
    by (simp add: quote_def prod_set_defs)
  then have "(\<Sum>t\<leftarrow>map ?t ps. Suc (length t)) \<le> (\<Sum>p\<leftarrow>ps. 6 * length (fst p) + 4 + json_size (snd p))"
    unfolding map_map comp_def by (intro sum_list_mono)
  then show ?case using length_commas [of "map ?t ps"] by simp
qed simp_all

lemma json_bytes_le: "json_bytes v \<le> 3 * json_size v"
  using length_utf8_encode [of "stringify v"] length_stringify [of v] by (simp add: json_bytes_def)

text \<open>
  \<open>canonicalJson\<close> sorts the properties of every object by name and admits safe integers only.
\<close>

fun all_some :: "'a option list \<Rightarrow> 'a list option" where
  "all_some [] = Some []"
| "all_some (None # _) = None"
| "all_some (Some x # xs) = map_option (Cons x) (all_some xs)"

fun canonical_json :: "json \<Rightarrow> jstr option" where
  "canonical_json JNull = Some (js ''null'')"
| "canonical_json (JBool b) = Some (if b then js ''true'' else js ''false'')"
| "canonical_json (JInt n) = (if is_safe n then Some (int_text n) else None)"
| "canonical_json (JFloat t) = None"
| "canonical_json (JStr s) = Some (quote s)"
| "canonical_json (JArr xs) =
     map_option (\<lambda>ts. 91 # commas ts @ [93]) (all_some (map canonical_json xs))"
| "canonical_json (JObj ps) =
     map_option (\<lambda>ts. 123 # commas ts @ [125])
       (all_some (map snd (sort_key fst
          (map (\<lambda>p. (fst p, map_option (\<lambda>t. quote (fst p) @ 58 # t) (canonical_json (snd p)))) ps))))"

text \<open>
  An object enumerates the names that are array indices first, in numeric order, then the others as
  they were added.
\<close>

definition is_array_index :: "jstr \<Rightarrow> bool" where
  "is_array_index k =
     (k \<noteq> [] \<and> list_all is_digit_unit k \<and> (k = [48] \<or> hd k \<noteq> 48) \<and>
      nat_of_digits 0 k < 4294967295)"

definition enumeration_order :: "(jstr \<times> json) list \<Rightarrow> (jstr \<times> json) list" where
  "enumeration_order ps =
     sort_key (\<lambda>p. nat_of_digits 0 (fst p)) (filter (\<lambda>p. is_array_index (fst p)) ps) @
     filter (\<lambda>p. \<not> is_array_index (fst p)) ps"

declare obj_def [exec_simps] field_def [exec_simps] okeys_def [exec_simps] nullish_def [exec_simps]
  only_keys_def [exec_simps] hex_unit_def [exec_simps] u_escape_def [exec_simps]
  esc_unit_def [exec_simps] quote_def [exec_simps] json_bytes_def [exec_simps]

end
