(* ===== verification/Companion_Protocol.thy ===== *)
theory Companion_Protocol
  imports Json
begin

text \<open>
  The companion wire protocol, \<open>electron/companion/protocol.cjs\<close>: the envelope every frame between
  the desktop and a paired device carries, the validators of its fields and of the body of each
  kind, and the table that says which capability a command needs. Inputs are JSON data; a thrown
  \<open>CompanionProtocolError\<close> is \<open>Inl\<close> of its code (the message text is not modelled).
\<close>

section \<open>Constants, kinds and capabilities\<close>

datatype protocol_error =
    Perr_invalid_shape | Perr_invalid_id | Perr_invalid_number | Perr_invalid_json
  | Perr_unknown_field | Perr_invalid_capability | Perr_invalid_transport | Perr_unknown_type
  | Perr_invalid_role | Perr_unknown_command | Perr_command_identity_mismatch
  | Perr_invalid_receipt | Perr_invalid_error | Perr_frame_too_large | Perr_protocol_mismatch
  | Perr_unknown_kind

definition PROTOCOL_VERSION :: int where "PROTOCOL_VERSION = 1"

definition PROTOCOL_MINOR :: int where "PROTOCOL_MINOR = 0"

definition MAX_FRAME_BYTES :: nat where "MAX_FRAME_BYTES = 1024 * 1024"

definition MAX_ID_LENGTH :: nat where "MAX_ID_LENGTH = 160"

definition MAX_ERROR_MESSAGE :: nat where "MAX_ERROR_MESSAGE = 800"

datatype frame_kind = Hello | Event | Command | Receipt | Snapshot | Ack | Error

fun kind_text :: "frame_kind \<Rightarrow> string" where
  "kind_text Hello = ''hello''"
| "kind_text Event = ''event''"
| "kind_text Command = ''command''"
| "kind_text Receipt = ''receipt''"
| "kind_text Snapshot = ''snapshot''"
| "kind_text Ack = ''ack''"
| "kind_text Error = ''error''"

definition KINDS :: "frame_kind list" where
  "KINDS = [Hello, Event, Command, Receipt, Snapshot, Ack, Error]"

definition kind_of :: "json option \<Rightarrow> frame_kind option" where
  "kind_of v = find (\<lambda>k. v = Some (JStr (js (kind_text k)))) KINDS"

datatype capability = Observe | Agent_control | Terminal_control

fun capability_text :: "capability \<Rightarrow> string" where
  "capability_text Observe = ''observe''"
| "capability_text Agent_control = ''agent-control''"
| "capability_text Terminal_control = ''terminal-control''"

definition CAPABILITIES :: "capability list" where
  "CAPABILITIES = [Observe, Agent_control, Terminal_control]"

definition capability_of :: "json \<Rightarrow> capability option" where
  "capability_of v = find (\<lambda>c. v = JStr (js (capability_text c))) CAPABILITIES"

definition EVENT_TYPES :: "string list" where
  "EVENT_TYPES =
     [''desktop.status'', ''project.updated'', ''session.updated'', ''attention.raised'',
      ''attention.cleared'', ''agent.turn.delta'', ''agent.turn.completed'',
      ''agent.permission.requested'', ''agent.permission.resolved'', ''terminal.snapshot'',
      ''terminal.output'', ''terminal.exit'', ''ledger.task.updated'']"

definition SNAPSHOT_TYPES :: "string list" where
  "SNAPSHOT_TYPES = [''snapshot.projects'', ''terminal.snapshot'']"

definition COMMAND_CAPABILITIES :: "(string \<times> capability) list" where
  "COMMAND_CAPABILITIES =
     [(''attention.ack'', Observe), (''stream.subscribe'', Observe), (''stream.unsubscribe'', Observe),
      (''agent.prompt'', Agent_control), (''agent.steer'', Agent_control),
      (''agent.cancel'', Agent_control), (''permission.respond'', Agent_control),
      (''terminal.acquire-control'', Terminal_control), (''terminal.renew-control'', Terminal_control),
      (''terminal.write'', Terminal_control), (''terminal.resize'', Terminal_control),
      (''terminal.interrupt'', Terminal_control), (''terminal.release-control'', Terminal_control)]"

definition RECEIPT_STATUSES :: "string list" where
  "RECEIPT_STATUSES =
     [''accepted'', ''applied'', ''rejected'', ''stale'', ''unavailable'', ''timed_out'']"

definition TOP_LEVEL_FIELDS :: "string list" where
  "TOP_LEVEL_FIELDS =
     [''v'', ''kind'', ''desktopId'', ''deviceId'', ''connectionId'', ''epoch'', ''seq'', ''id'',
      ''sentAt'', ''body'']"

text \<open>
  \<open>COMMAND_CAPABILITIES[type]\<close> reads an object literal, so a name that the literal does not have
  may still be found on \<open>Object.prototype\<close>; what is found there is a function or an object, never
  a capability.
\<close>

datatype 'a table_lookup = Own 'a | Inherited | Missing

definition OBJECT_PROTOTYPE_KEYS :: "string list" where
  "OBJECT_PROTOTYPE_KEYS =
     [''constructor'', ''__defineGetter__'', ''__defineSetter__'', ''hasOwnProperty'',
      ''__lookupGetter__'', ''__lookupSetter__'', ''isPrototypeOf'', ''propertyIsEnumerable'',
      ''toString'', ''valueOf'', ''__proto__'', ''toLocaleString'']"

definition js_lookup :: "(string \<times> 'a) list \<Rightarrow> jstr \<Rightarrow> 'a table_lookup" where
  "js_lookup table k =
     (case map_of (map (\<lambda>p. (js (fst p), snd p)) table) k of
        Some x \<Rightarrow> Own x
      | None \<Rightarrow> if k \<in> set (map js OBJECT_PROTOTYPE_KEYS) then Inherited else Missing)"

definition required_capability :: "jstr \<Rightarrow> capability table_lookup" where
  "required_capability t = js_lookup COMMAND_CAPABILITIES t"

section \<open>Field validators\<close>

definition identifier_ok :: "nat \<Rightarrow> jstr \<Rightarrow> bool" where
  "identifier_ok m s = (1 \<le> length s \<and> length s \<le> m \<and> id_re s)"

definition validate_identifier :: "nat \<Rightarrow> json option \<Rightarrow> protocol_error + jstr" where
  "validate_identifier m v =
     (case as_str v of
        None \<Rightarrow> Inl Perr_invalid_id
      | Some s \<Rightarrow> require (identifier_ok m s) Perr_invalid_id (Inr s))"

definition safe_integer :: "int \<Rightarrow> int \<Rightarrow> json option \<Rightarrow> protocol_error + int" where
  "safe_integer lo hi v =
     (case as_int v of
        None \<Rightarrow> Inl Perr_invalid_number
      | Some n \<Rightarrow> require (lo \<le> n \<and> n \<le> hi) Perr_invalid_number (Inr n))"

definition assert_plain_object :: "json option \<Rightarrow> protocol_error + json" where
  "assert_plain_object v =
     (case v of
        Some (JObj ps) \<Rightarrow> Inr (JObj ps)
      | _ \<Rightarrow> Inl Perr_invalid_shape)"

definition assert_allowed_keys :: "string list \<Rightarrow> json \<Rightarrow> protocol_error + unit" where
  "assert_allowed_keys ks v = require (only_keys v ks) Perr_unknown_field (Inr ())"

text \<open>An optional field: nothing is checked when it is \<open>null\<close> or absent.\<close>

definition optional :: "json option \<Rightarrow> (json option \<Rightarrow> protocol_error + 'a) \<Rightarrow> protocol_error + unit" where
  "optional v check = (if nullish v then Inr () else ebind (check v) (\<lambda>_. Inr ()))"

fun check_capabilities :: "capability list \<Rightarrow> json list \<Rightarrow> protocol_error + capability list" where
  "check_capabilities unique [] = Inr unique"
| "check_capabilities unique (v # vs) =
     (case capability_of v of
        None \<Rightarrow> Inl Perr_invalid_capability
      | Some c \<Rightarrow>
          require (c \<notin> set unique) Perr_invalid_capability (check_capabilities (unique @ [c]) vs))"

definition validate_capabilities :: "json option \<Rightarrow> protocol_error + capability list" where
  "validate_capabilities v =
     (case as_arr v of
        None \<Rightarrow> Inl Perr_invalid_capability
      | Some vs \<Rightarrow>
          require (length vs \<le> length CAPABILITIES) Perr_invalid_capability
            (check_capabilities [] vs))"

definition host_ok :: "jstr \<Rightarrow> bool" where
  "host_ok s = (1 \<le> length s \<and> length s \<le> 253 \<and> list_all (\<lambda>u. u \<noteq> 0 \<and> u \<noteq> 13 \<and> u \<noteq> 10) s)"

definition check_host :: "json option \<Rightarrow> protocol_error + unit" where
  "check_host v =
     (if nullish v then Inr ()
      else case as_str v of
             None \<Rightarrow> Inl Perr_invalid_transport
           | Some s \<Rightarrow> require (host_ok s) Perr_invalid_transport (Inr ()))"

definition validate_transport_hint :: "json option \<Rightarrow> protocol_error + json" where
  "validate_transport_hint v =
     ebind (assert_plain_object v) (\<lambda>h.
     ebind (assert_allowed_keys [''service'', ''protocol'', ''host'', ''port'', ''tailscaleHost''] h) (\<lambda>_.
     require (field h ''service'' = Some (JStr (js ''_kaisola._tcp'')) \<and>
              field h ''protocol'' = Some (JStr (js ''tcp''))) Perr_invalid_transport (
     ebind (check_host (field h ''host'')) (\<lambda>_.
     ebind (check_host (field h ''tailscaleHost'')) (\<lambda>_.
     ebind (optional (field h ''port'') (safe_integer 1 65535)) (\<lambda>_.
     Inr h))))))"

section \<open>The bodies of the seven kinds\<close>

definition field_is :: "json \<Rightarrow> string \<Rightarrow> string \<Rightarrow> bool" where
  "field_is v k t = (field v k = Some (JStr (js t)))"

definition field_in :: "json \<Rightarrow> string \<Rightarrow> string list \<Rightarrow> bool" where
  "field_in v k ts = (\<exists>t \<in> set ts. field v k = Some (JStr (js t)))"

definition validate_hello :: "json \<Rightarrow> protocol_error + unit" where
  "validate_hello body =
     require (field_is body ''type'' ''hello'') Perr_unknown_type (
     require (field_is body ''role'' ''desktop'' \<or> field_is body ''role'' ''device'') Perr_invalid_role (
     ebind (optional (field body ''protocolMinor'') (safe_integer 0 10000)) (\<lambda>_.
     ebind (optional (field body ''lastAck'') (safe_integer 0 max_safe_integer)) (\<lambda>_.
     ebind (optional (field body ''capabilities'') validate_capabilities) (\<lambda>_.
     optional (field body ''transportHint'') validate_transport_hint)))))"

definition validate_event :: "json \<Rightarrow> protocol_error + unit" where
  "validate_event body = require (field_in body ''type'' EVENT_TYPES) Perr_unknown_type (Inr ())"

definition validate_snapshot :: "json \<Rightarrow> protocol_error + unit" where
  "validate_snapshot body =
     require (field_in body ''type'' SNAPSHOT_TYPES) Perr_unknown_type (
     optional (field body ''revision'') (safe_integer 0 max_safe_integer))"

definition validate_command :: "jstr \<Rightarrow> json \<Rightarrow> protocol_error + unit" where
  "validate_command frame_id body =
     (case as_str (field body ''type'') of
        None \<Rightarrow> Inl Perr_unknown_command
      | Some t \<Rightarrow>
          require (required_capability t \<noteq> Missing) Perr_unknown_command (
          ebind (validate_identifier MAX_ID_LENGTH (field body ''commandId'')) (\<lambda>cid.
          require (cid = frame_id) Perr_command_identity_mismatch (
          ebind (validate_identifier 240 (field body ''projectId'')) (\<lambda>_.
          ebind (validate_identifier 240 (field body ''targetId'')) (\<lambda>_.
          require (case required_capability t of
                     Own c \<Rightarrow> field_is body ''capability'' (capability_text c)
                   | _ \<Rightarrow> False) Perr_invalid_capability (
          ebind (optional (field body ''expectedRevision'') (safe_integer 0 max_safe_integer)) (\<lambda>_.
          optional (field body ''payload'') assert_plain_object))))))))"

definition validate_receipt :: "json \<Rightarrow> protocol_error + unit" where
  "validate_receipt body =
     require (field_is body ''type'' ''command.receipt'') Perr_unknown_type (
     ebind (validate_identifier MAX_ID_LENGTH (field body ''commandId'')) (\<lambda>_.
     require (field_in body ''status'' RECEIPT_STATUSES) Perr_invalid_receipt (
     require (nullish (field body ''message'') \<or>
              some_is (\<lambda>m. length m \<le> MAX_ERROR_MESSAGE) (as_str (field body ''message'')))
       Perr_invalid_receipt (
     optional (field body ''payload'') assert_plain_object))))"

definition validate_ack :: "json \<Rightarrow> protocol_error + unit" where
  "validate_ack body =
     require (field_is body ''type'' ''ack'') Perr_unknown_type (
     ebind (safe_integer 0 max_safe_integer (field body ''ackSeq'')) (\<lambda>_. Inr ()))"

definition validate_error :: "json \<Rightarrow> protocol_error + unit" where
  "validate_error body =
     require (field_is body ''type'' ''error'') Perr_unknown_type (
     ebind (validate_identifier 80 (field body ''code'')) (\<lambda>_.
     require (case as_str (field body ''message'') of
                Some m \<Rightarrow> 1 \<le> length m \<and> length m \<le> MAX_ERROR_MESSAGE
              | None \<Rightarrow> False) Perr_invalid_error (Inr ())))"

fun validate_body :: "frame_kind \<Rightarrow> jstr \<Rightarrow> json \<Rightarrow> protocol_error + unit" where
  "validate_body Hello _ body = validate_hello body"
| "validate_body Event _ body = validate_event body"
| "validate_body Snapshot _ body = validate_snapshot body"
| "validate_body Command frame_id body = validate_command frame_id body"
| "validate_body Receipt _ body = validate_receipt body"
| "validate_body Ack _ body = validate_ack body"
| "validate_body Error _ body = validate_error body"

section \<open>The envelope\<close>

text \<open>
  \<open>validateEnvelope\<close> returns \<open>JSON.parse(JSON.stringify(frame))\<close>, which on JSON data is the
  frame itself.
\<close>

definition validate_envelope :: "int \<Rightarrow> json \<Rightarrow> protocol_error + json" where
  "validate_envelope version frame =
     require (is_obj frame) Perr_invalid_shape (
     require (json_bytes frame \<le> MAX_FRAME_BYTES) Perr_frame_too_large (
     ebind (assert_allowed_keys TOP_LEVEL_FIELDS frame) (\<lambda>_.
     require (field frame ''v'' = Some (JInt version)) Perr_protocol_mismatch (
     case kind_of (field frame ''kind'') of
       None \<Rightarrow> Inl Perr_unknown_kind
     | Some kind \<Rightarrow>
         ebind (validate_identifier MAX_ID_LENGTH (field frame ''desktopId'')) (\<lambda>_.
         ebind (validate_identifier MAX_ID_LENGTH (field frame ''deviceId'')) (\<lambda>_.
         ebind (validate_identifier MAX_ID_LENGTH (field frame ''connectionId'')) (\<lambda>_.
         ebind (validate_identifier MAX_ID_LENGTH (field frame ''epoch'')) (\<lambda>_.
         ebind (validate_identifier MAX_ID_LENGTH (field frame ''id'')) (\<lambda>frame_id.
         ebind (safe_integer 0 max_safe_integer (field frame ''seq'')) (\<lambda>_.
         ebind (safe_integer 0 max_safe_integer (field frame ''sentAt'')) (\<lambda>_.
         ebind (assert_plain_object (field frame ''body'')) (\<lambda>body.
         require (as_str (field body ''type'') \<noteq> None) Perr_unknown_type (
         ebind (validate_body kind frame_id body) (\<lambda>_.
         Inr frame))))))))))))))"

text \<open>
  \<open>decodeEnvelope\<close> of a text: \<open>parse\<close> stands for \<open>JSON.parse\<close>, \<open>None\<close> where it throws.
\<close>

definition decode_envelope :: "(jstr \<Rightarrow> json option) \<Rightarrow> int \<Rightarrow> jstr \<Rightarrow> protocol_error + json" where
  "decode_envelope parse version text =
     (let bytes = length (utf8_encode text) in
      require (bytes \<noteq> 0 \<and> bytes \<le> MAX_FRAME_BYTES) Perr_frame_too_large (
      case parse text of
        None \<Rightarrow> Inl Perr_invalid_json
      | Some v \<Rightarrow> validate_envelope version v))"

text \<open>\<open>makeEnvelope\<close> spreads the fields over a frame that starts with the protocol version.\<close>

definition make_envelope :: "int \<Rightarrow> (jstr \<times> json) list \<Rightarrow> protocol_error + json" where
  "make_envelope version fields =
     validate_envelope version
       (JObj (foldl (\<lambda>acc p. jset (fst p) (snd p) acc) [(js ''v'', JInt PROTOCOL_VERSION)] fields))"

text \<open>The typed view of a frame, which the gateway reads after validation.\<close>

record envelope =
  env_kind :: frame_kind
  env_desktopId :: jstr
  env_deviceId :: jstr
  env_connectionId :: jstr
  env_epoch :: jstr
  env_seq :: int
  env_id :: jstr
  env_sentAt :: int
  env_body :: json

definition the_str :: "json option \<Rightarrow> jstr" where
  "the_str v = (case as_str v of Some s \<Rightarrow> s | None \<Rightarrow> [])"

definition the_int :: "json option \<Rightarrow> int" where
  "the_int v = (case as_int v of Some n \<Rightarrow> n | None \<Rightarrow> 0)"

definition view_envelope :: "json \<Rightarrow> envelope" where
  "view_envelope f =
     \<lparr>env_kind = (case kind_of (field f ''kind'') of Some k \<Rightarrow> k | None \<Rightarrow> Error),
      env_desktopId = the_str (field f ''desktopId''),
      env_deviceId = the_str (field f ''deviceId''),
      env_connectionId = the_str (field f ''connectionId''),
      env_epoch = the_str (field f ''epoch''),
      env_seq = the_int (field f ''seq''),
      env_id = the_str (field f ''id''),
      env_sentAt = the_int (field f ''sentAt''),
      env_body = (case field f ''body'' of Some b \<Rightarrow> b | None \<Rightarrow> JNull)\<rparr>"

section \<open>Facts the other components use\<close>

lemma validate_identifier_Inr [simp]:
  "validate_identifier m v = Inr s \<longleftrightarrow> v = Some (JStr s) \<and> identifier_ok m s"
  by (auto simp: validate_identifier_def require_eq_Inr split: option.splits)

lemma validate_identifier_JStr [simp]:
  "identifier_ok m s \<Longrightarrow> validate_identifier m (Some (JStr s)) = Inr s"
  by (simp add: validate_identifier_def)

lemma safe_integer_Inr [simp]:
  "safe_integer lo hi v = Inr n \<longleftrightarrow> v = Some (JInt n) \<and> is_safe n \<and> lo \<le> n \<and> n \<le> hi"
  by (auto simp: safe_integer_def require_eq_Inr split: option.splits)

lemma assert_plain_object_Inr [simp]:
  "assert_plain_object v = Inr w \<longleftrightarrow> v = Some w \<and> is_obj w"
  by (auto simp: assert_plain_object_def is_obj_iff split: option.splits json.splits)

lemma assert_allowed_keys_Inr [simp]: "assert_allowed_keys ks v = Inr u \<longleftrightarrow> only_keys v ks"
  by (simp add: assert_allowed_keys_def require_eq_Inr)

lemma optional_Inr [simp]:
  "optional v check = Inr u \<longleftrightarrow> nullish v \<or> (\<exists>x. check v = Inr x)"
  by (auto simp: optional_def ebind_eq_Inr)

lemma capability_text_inject [simp]: "capability_text c = capability_text d \<longleftrightarrow> c = d"
  by (cases c; cases d) simp_all

lemma capability_of_Some [simp]: "capability_of v = Some c \<longleftrightarrow> v = JStr (js (capability_text c))"
  by (cases c) (auto simp: capability_of_def CAPABILITIES_def)

lemma capability_of_text [simp]: "capability_of (JStr (js (capability_text c))) = Some c"
  by (rule capability_of_Some [THEN iffD2]) simp

lemma kind_text_inject [simp]: "kind_text c = kind_text d \<longleftrightarrow> c = d"
  by (cases c; cases d) simp_all

lemma kind_of_Some [simp]: "kind_of v = Some k \<longleftrightarrow> v = Some (JStr (js (kind_text k)))"
  by (cases k) (auto simp: kind_of_def KINDS_def)

lemma kind_of_text [simp]: "kind_of (Some (JStr (js (kind_text k)))) = Some k"
  by (rule kind_of_Some [THEN iffD2]) simp

lemma check_capabilities_Inr:
  "check_capabilities u vs = Inr cs \<longleftrightarrow>
     (\<exists>ds. cs = u @ ds \<and> vs = map (\<lambda>c. JStr (js (capability_text c))) ds \<and>
       distinct ds \<and> set u \<inter> set ds = {})"
proof (induction u vs rule: check_capabilities.induct)
  case (1 u)
  then show ?case by auto
next
  case (2 u v vs)
  show ?case
  proof (cases "capability_of v")
    case None
    then have "\<nexists>c. v = JStr (js (capability_text c))" by (metis capability_of_Some option.distinct(1))
    with None show ?thesis by (auto simp: Cons_eq_map_conv)
  next
    case (Some c)
    then have v: "v = JStr (js (capability_text c))" by simp
    have "check_capabilities u (v # vs) = Inr cs \<longleftrightarrow>
        c \<notin> set u \<and> check_capabilities (u @ [c]) vs = Inr cs"
      using Some by (simp add: require_eq_Inr)
    also have "\<dots> \<longleftrightarrow> (\<exists>ds. cs = u @ c # ds \<and> vs = map (\<lambda>c. JStr (js (capability_text c))) ds \<and>
        distinct (c # ds) \<and> set u \<inter> set (c # ds) = {})"
      using 2 [OF Some] by (cases "c \<in> set u") auto
    also have "\<dots> \<longleftrightarrow> (\<exists>ds. cs = u @ ds \<and> v # vs = map (\<lambda>c. JStr (js (capability_text c))) ds \<and>
        distinct ds \<and> set u \<inter> set ds = {})"
      by (force simp: v Cons_eq_map_conv)
    finally show ?thesis .
  qed
qed

lemma validate_capabilities_Inr:
  "validate_capabilities v = Inr cs \<longleftrightarrow>
     v = Some (JArr (map (\<lambda>c. JStr (js (capability_text c))) cs)) \<and> distinct cs \<and> length cs \<le> 3"
  by (auto simp: validate_capabilities_def require_eq_Inr check_capabilities_Inr CAPABILITIES_def
      split: option.splits)

lemma js_lookup_Own: "js_lookup table k = Own x \<Longrightarrow> \<exists>t. (t, x) \<in> set table \<and> k = js t"
  by (auto simp: js_lookup_def split: option.splits if_splits dest!: map_of_SomeD)

text \<open>What a frame that passes \<open>validateEnvelope\<close> looks like.\<close>

definition envelope_ok :: "int \<Rightarrow> json \<Rightarrow> bool" where
  "envelope_ok version f =
     (let e = view_envelope f in
      is_obj f \<and> json_bytes f \<le> MAX_FRAME_BYTES \<and> only_keys f TOP_LEVEL_FIELDS \<and>
      field f ''v'' = Some (JInt version) \<and>
      field f ''kind'' = Some (JStr (js (kind_text (env_kind e)))) \<and>
      field f ''desktopId'' = Some (JStr (env_desktopId e)) \<and> identifier_ok 160 (env_desktopId e) \<and>
      field f ''deviceId'' = Some (JStr (env_deviceId e)) \<and> identifier_ok 160 (env_deviceId e) \<and>
      field f ''connectionId'' = Some (JStr (env_connectionId e)) \<and>
      identifier_ok 160 (env_connectionId e) \<and>
      field f ''epoch'' = Some (JStr (env_epoch e)) \<and> identifier_ok 160 (env_epoch e) \<and>
      field f ''id'' = Some (JStr (env_id e)) \<and> identifier_ok 160 (env_id e) \<and>
      field f ''seq'' = Some (JInt (env_seq e)) \<and> 0 \<le> env_seq e \<and> env_seq e \<le> max_safe_integer \<and>
      field f ''sentAt'' = Some (JInt (env_sentAt e)) \<and> 0 \<le> env_sentAt e \<and>
      env_sentAt e \<le> max_safe_integer \<and>
      field f ''body'' = Some (env_body e) \<and> is_obj (env_body e) \<and>
      (\<exists>t. field (env_body e) ''type'' = Some (JStr t)) \<and>
      is_ok (validate_body (env_kind e) (env_id e) (env_body e)))"

lemma the_str_Some [simp]: "the_str (Some (JStr s)) = s"
  by (simp add: the_str_def)

lemma the_int_Some [simp]: "is_safe n \<Longrightarrow> the_int (Some (JInt n)) = n"
  by (simp add: the_int_def)

lemma safe_nonneg: "0 \<le> n \<Longrightarrow> n \<le> max_safe_integer \<Longrightarrow> is_safe n"
  by (simp add: is_safe_def max_safe_integer_def)

lemma validate_envelope_accepts:
  assumes "envelope_ok version f"
  shows "validate_envelope version f = Inr f"
proof -
  define e where "e = view_envelope f"
  note ok = assms [unfolded envelope_ok_def Let_def, folded e_def]
  have safe: "is_safe (env_seq e)" "is_safe (env_sentAt e)" using ok safe_nonneg by blast+
  have str: "validate_identifier MAX_ID_LENGTH (Some (JStr s)) = Inr s" if "identifier_ok 160 s" for s
    using that by (simp add: MAX_ID_LENGTH_def)
  have int: "safe_integer 0 max_safe_integer (Some (JInt n)) = Inr n"
    if "is_safe n" "0 \<le> n" "n \<le> max_safe_integer" for n using that by simp
  obtain t where t: "field (env_body e) ''type'' = Some (JStr t)" using ok by blast
  obtain u where u: "validate_body (env_kind e) (env_id e) (env_body e) = Inr u"
    using ok by (auto simp: is_ok_iff)
  have body: "assert_plain_object (Some (env_body e)) = Inr (env_body e)" using ok by simp
  have keys: "assert_allowed_keys TOP_LEVEL_FIELDS f = Inr ()" using ok by simp
  show ?thesis
    unfolding validate_envelope_def keys using ok by (simp add: str int safe body t u)
qed

lemma validate_envelope_only:
  assumes "validate_envelope version f = Inr f'"
  shows "f' = f \<and> envelope_ok version f"
proof -
  obtain k a b c d i n m body t u where fields:
    "is_obj f" "json_bytes f \<le> MAX_FRAME_BYTES" "only_keys f TOP_LEVEL_FIELDS"
    "field f ''v'' = Some (JInt version)" "field f ''kind'' = Some (JStr (js (kind_text k)))"
    "field f ''desktopId'' = Some (JStr a)" "identifier_ok 160 a"
    "field f ''deviceId'' = Some (JStr b)" "identifier_ok 160 b"
    "field f ''connectionId'' = Some (JStr c)" "identifier_ok 160 c"
    "field f ''epoch'' = Some (JStr d)" "identifier_ok 160 d"
    "field f ''id'' = Some (JStr i)" "identifier_ok 160 i"
    "field f ''seq'' = Some (JInt n)" "is_safe n" "0 \<le> n" "n \<le> max_safe_integer"
    "field f ''sentAt'' = Some (JInt m)" "is_safe m" "0 \<le> m" "m \<le> max_safe_integer"
    "field f ''body'' = Some body" "is_obj body" "as_str (field body ''type'') = Some t"
    "validate_body k i body = Inr u" and f': "f' = f"
    using assms unfolding validate_envelope_def MAX_ID_LENGTH_def
    by (auto simp only: result_simps validate_identifier_Inr safe_integer_Inr assert_plain_object_Inr
        assert_allowed_keys_Inr kind_of_Some not_None_eq sum.inject split: option.splits)
  then show ?thesis by (simp add: envelope_ok_def Let_def view_envelope_def)
qed

lemma validate_envelope_Inr:
  "validate_envelope version f = Inr f' \<longleftrightarrow> f' = f \<and> envelope_ok version f"
  using validate_envelope_accepts validate_envelope_only by metis

lemma envelope_ok_command:
  assumes "envelope_ok version f" "env_kind (view_envelope f) = Command"
  shows "\<exists>t c. (t, c) \<in> set COMMAND_CAPABILITIES \<and>
    required_capability (js t) = Own c \<and>
    field (env_body (view_envelope f)) ''type'' = Some (JStr (js t)) \<and>
    field (env_body (view_envelope f)) ''capability'' = Some (JStr (js (capability_text c))) \<and>
    field (env_body (view_envelope f)) ''commandId'' = Some (JStr (env_id (view_envelope f)))"
proof -
  let ?b = "env_body (view_envelope f)"
  have "is_ok (validate_command (env_id (view_envelope f)) ?b)"
    using assms by (simp add: envelope_ok_def Let_def)
  then obtain t c where t: "field ?b ''type'' = Some (JStr t)" "required_capability t = Own c"
    "field_is ?b ''capability'' (capability_text c)"
    "field ?b ''commandId'' = Some (JStr (env_id (view_envelope f)))"
    by (auto simp: validate_command_def is_ok_iff result_simps
        split: option.splits table_lookup.splits)
  moreover from t(2) obtain s where "(s, c) \<in> set COMMAND_CAPABILITIES" "t = js s"
    using js_lookup_Own unfolding required_capability_def by metis
  ultimately show ?thesis by (auto simp: field_is_def)
qed

lemmas protocol_exec = identifier_ok_def MAX_ID_LENGTH_def EVENT_TYPES_def SNAPSHOT_TYPES_def
  COMMAND_CAPABILITIES_def RECEIPT_STATUSES_def TOP_LEVEL_FIELDS_def CAPABILITIES_def KINDS_def
  js_lookup_def required_capability_def validate_identifier_def safe_integer_def
  assert_plain_object_def assert_allowed_keys_def optional_def field_is_def field_in_def
  validate_hello_def validate_event_def validate_snapshot_def validate_command_def
  validate_receipt_def validate_ack_def validate_error_def kind_of_def validate_envelope_def
  view_envelope_def the_str_def the_int_def

declare identifier_ok_def [exec_simps] MAX_ID_LENGTH_def [exec_simps] EVENT_TYPES_def [exec_simps]

end
