(* ===== verification/Event_Log.thy ===== *)
theory Event_Log
  imports Companion_Protocol
begin

text \<open>
  The replay log of companion events, \<open>electron/companion/eventLog.cjs\<close>: a bounded suffix of the
  event history, addressed by a sequence number per event. The log keeps the JSON text of an event
  and parses it again on replay; the model keeps the value, whose \<open>json_bytes\<close> is the size of that
  text. \<open>Inl\<close> is the code of the thrown \<open>CompanionEventLogError\<close>.
\<close>

section \<open>State\<close>

datatype event_log_error =
    Elog_invalid_cursor | Elog_invalid_limit | Elog_invalid_event | Elog_invalid_id
  | Elog_unknown_event | Elog_event_too_large | Elog_cursor_ahead | Elog_type_error

record log_event =
  ev_seq :: int
  ev_value :: json
  ev_bytes :: int

record event_log =
  el_epoch :: jstr
  el_maxEvents :: int
  el_maxBytes :: int
  el_events :: "log_event list"
  el_totalBytes :: int
  el_currentSeq :: int
  el_droppedThrough :: int
  el_acks :: "(jstr, int) jmap"

definition DEFAULT_MAX_EVENTS :: int where "DEFAULT_MAX_EVENTS = 2048"

definition DEFAULT_MAX_BYTES :: int where "DEFAULT_MAX_BYTES = 2 * 1024 * 1024"

definition log_safe_integer :: "json option \<Rightarrow> event_log_error + int" where
  "log_safe_integer v =
     (case as_int v of
        None \<Rightarrow> Inl Elog_invalid_cursor
      | Some n \<Rightarrow> require (0 \<le> n) Elog_invalid_cursor (Inr n))"

definition log_safe_limit :: "json option \<Rightarrow> event_log_error + int" where
  "log_safe_limit v =
     (case as_int v of
        None \<Rightarrow> Inl Elog_invalid_limit
      | Some n \<Rightarrow> require (1 \<le> n) Elog_invalid_limit (Inr n))"

definition log_safe_id :: "json option \<Rightarrow> event_log_error + jstr" where
  "log_safe_id v =
     (case validate_identifier MAX_ID_LENGTH v of
        Inl _ \<Rightarrow> Inl Elog_invalid_id
      | Inr s \<Rightarrow> Inr s)"

definition new_event_log :: "json option \<Rightarrow> json option \<Rightarrow> json option \<Rightarrow> event_log_error + event_log" where
  "new_event_log epoch max_events max_bytes =
     ebind (log_safe_id epoch) (\<lambda>e.
     ebind (log_safe_limit max_events) (\<lambda>n.
     ebind (log_safe_limit max_bytes) (\<lambda>b.
     Inr \<lparr>el_epoch = e, el_maxEvents = n, el_maxBytes = b, el_events = [], el_totalBytes = 0,
          el_currentSeq = 0, el_droppedThrough = 0, el_acks = []\<rparr>)))"

section \<open>Operations\<close>

text \<open>
  \<open>#trimToLimits\<close>: drop from the front while a limit is exceeded. Shifting an empty array would
  read a property of \<open>undefined\<close> and throw; that is \<open>Elog_type_error\<close>.
\<close>

fun trim_events ::
  "int \<Rightarrow> int \<Rightarrow> log_event list \<Rightarrow> int \<Rightarrow> int \<Rightarrow> event_log_error + log_event list \<times> int \<times> int" where
  "trim_events max_events max_bytes [] held dropped =
     (if 0 > max_events \<or> held > max_bytes then Inl Elog_type_error else Inr ([], held, dropped))"
| "trim_events max_events max_bytes (e # es) held dropped =
     (if int (length (e # es)) > max_events \<or> held > max_bytes
      then trim_events max_events max_bytes es (held - ev_bytes e) (max dropped (ev_seq e))
      else Inr (e # es, held, dropped))"

definition trim_to_limits :: "event_log \<Rightarrow> event_log_error + event_log" where
  "trim_to_limits l =
     (case trim_events (el_maxEvents l) (el_maxBytes l) (el_events l) (el_totalBytes l)
             (el_droppedThrough l) of
        Inl e \<Rightarrow> Inl e
      | Inr (es, held, dropped) \<Rightarrow>
          Inr (l\<lparr>el_events := es, el_totalBytes := held, el_droppedThrough := dropped\<rparr>))"

record append_input =
  ai_type :: "json option"
  ai_payload :: "json option"
  ai_id :: "json option"
  ai_at :: "json option"
  ai_audience :: "json option"

definition event_object ::
  "jstr \<Rightarrow> int \<Rightarrow> jstr \<Rightarrow> int \<Rightarrow> jstr \<Rightarrow> json \<Rightarrow> jstr option \<Rightarrow> json" where
  "event_object epoch seq eid at ty payload audience =
     JObj ([(js ''epoch'', JStr epoch), (js ''seq'', JInt seq), (js ''id'', JStr eid),
            (js ''at'', JInt at), (js ''type'', JStr ty), (js ''payload'', payload)] @
           (case audience of None \<Rightarrow> [] | Some a \<Rightarrow> [(js ''audience'', JStr a)]))"

definition log_append :: "int \<Rightarrow> append_input \<Rightarrow> event_log \<Rightarrow> event_log_error + event_log \<times> json" where
  "log_append now inp l =
     (case as_str (ai_type inp) of
        None \<Rightarrow> Inl Elog_unknown_event
      | Some ty \<Rightarrow>
     require (ty \<in> set (map js EVENT_TYPES)) Elog_unknown_event (
     let payload = (case ai_payload inp of None \<Rightarrow> JObj [] | Some p \<Rightarrow> p) in
     require (is_obj payload) Elog_invalid_event (
     ebind (log_safe_integer (case ai_at inp of None \<Rightarrow> Some (JInt now) | Some a \<Rightarrow> Some a)) (\<lambda>at.
     let seq = el_currentSeq l + 1 in
     ebind (if nullish (ai_id inp) then Inr (js ''event-'' @ int_text seq)
            else log_safe_id (ai_id inp)) (\<lambda>eid.
     ebind (if nullish (ai_audience inp) then Inr None
            else ebind (log_safe_id (ai_audience inp)) (\<lambda>a. Inr (Some a))) (\<lambda>audience.
     let value = event_object (el_epoch l) seq eid at ty payload audience;
         size = int (json_bytes value) in
     require (size \<le> el_maxBytes l) Elog_event_too_large (
     ebind (trim_to_limits (l\<lparr>el_currentSeq := seq,
              el_events := el_events l @ [\<lparr>ev_seq = seq, ev_value = value, ev_bytes = size\<rparr>],
              el_totalBytes := el_totalBytes l + size\<rparr>)) (\<lambda>l'.
     Inr (l', value)))))))))"

definition log_invalidate :: "event_log \<Rightarrow> event_log \<times> int" where
  "log_invalidate l =
     (let seq = el_currentSeq l + 1 in
      (l\<lparr>el_currentSeq := seq, el_droppedThrough := seq, el_events := [], el_totalBytes := 0\<rparr>, seq))"

datatype snapshot_reason = Epoch_mismatch | Cursor_ahead | Event_gap

datatype replay_result =
    Replay jstr int int "json list"
  | Snapshot_required snapshot_reason jstr int int

definition earliest_seq :: "event_log \<Rightarrow> int" where
  "earliest_seq l = (case el_events l of [] \<Rightarrow> el_currentSeq l + 1 | e # _ \<Rightarrow> ev_seq e)"

definition snapshot_required :: "snapshot_reason \<Rightarrow> event_log \<Rightarrow> replay_result" where
  "snapshot_required reason l =
     Snapshot_required reason (el_epoch l) (el_currentSeq l) (earliest_seq l)"

definition log_replay :: "json option \<Rightarrow> json option \<Rightarrow> event_log \<Rightarrow> event_log_error + replay_result" where
  "log_replay epoch after_seq l =
     ebind (log_safe_id epoch) (\<lambda>e.
     ebind (log_safe_integer after_seq) (\<lambda>c.
     Inr (if e \<noteq> el_epoch l then snapshot_required Epoch_mismatch l
          else if c > el_currentSeq l then snapshot_required Cursor_ahead l
          else if c < el_droppedThrough l then snapshot_required Event_gap l
          else Replay (el_epoch l) (c + 1) (el_currentSeq l)
                 (map ev_value (filter (\<lambda>x. ev_seq x > c) (el_events l))))))"

definition acknowledged :: "event_log \<Rightarrow> jstr \<Rightarrow> int" where
  "acknowledged l c = (case jget (el_acks l) c of None \<Rightarrow> 0 | Some p \<Rightarrow> p)"

definition log_acknowledge ::
  "json option \<Rightarrow> json option \<Rightarrow> event_log \<Rightarrow> event_log_error + event_log \<times> int" where
  "log_acknowledge client seq l =
     ebind (log_safe_id client) (\<lambda>c.
     ebind (log_safe_integer seq) (\<lambda>n.
     require (n \<le> el_currentSeq l) Elog_cursor_ahead (
     let position = max (acknowledged l c) n in
     Inr (l\<lparr>el_acks := jset c position (el_acks l)\<rparr>, position))))"

definition log_drop_client :: "json option \<Rightarrow> event_log \<Rightarrow> event_log_error + event_log \<times> bool" where
  "log_drop_client client l =
     ebind (log_safe_id client) (\<lambda>c.
     Inr (l\<lparr>el_acks := jdel c (el_acks l)\<rparr>, jhas (el_acks l) c))"

record log_stats =
  ls_epoch :: jstr
  ls_currentSeq :: int
  ls_droppedThrough :: int
  ls_earliestSeq :: int
  ls_retainedEvents :: nat
  ls_retainedBytes :: int
  ls_activeClients :: nat
  ls_maxEvents :: int
  ls_maxBytes :: int

definition log_stats_of :: "event_log \<Rightarrow> log_stats" where
  "log_stats_of l =
     \<lparr>ls_epoch = el_epoch l, ls_currentSeq = el_currentSeq l,
      ls_droppedThrough = el_droppedThrough l, ls_earliestSeq = earliest_seq l,
      ls_retainedEvents = length (el_events l), ls_retainedBytes = el_totalBytes l,
      ls_activeClients = length (el_acks l), ls_maxEvents = el_maxEvents l,
      ls_maxBytes = el_maxBytes l\<rparr>"

section \<open>The invariant\<close>

text \<open>
  The retained events are exactly the sequence numbers after \<open>droppedThrough\<close> up to
  \<open>currentSeq\<close>, in order; the byte count is their sum; both limits hold; no acknowledgement is
  ahead of the log.
\<close>

definition log_inv :: "event_log \<Rightarrow> bool" where
  "log_inv l =
     (1 \<le> el_maxEvents l \<and> 1 \<le> el_maxBytes l \<and>
      0 \<le> el_droppedThrough l \<and> el_droppedThrough l \<le> el_currentSeq l \<and>
      map ev_seq (el_events l) = [el_droppedThrough l + 1..el_currentSeq l] \<and>
      el_totalBytes l = sum_list (map ev_bytes (el_events l)) \<and>
      int (length (el_events l)) \<le> el_maxEvents l \<and> el_totalBytes l \<le> el_maxBytes l \<and>
      jmap_ok (el_acks l) \<and> (\<forall>e \<in> set (el_acks l). 0 \<le> snd e \<and> snd e \<le> el_currentSeq l))"

lemma new_event_log_inv: "new_event_log e n b = Inr l \<Longrightarrow> log_inv l"
  by (auto simp: new_event_log_def log_inv_def log_safe_limit_def result_simps split: option.splits)

text \<open>
  Trimming keeps a suffix; it never reaches the empty array with a limit exceeded, and it keeps
  the last event when that event alone is within both limits.
\<close>

lemma trim_events_suffix:
  assumes "map ev_seq es = [d + 1..c]" "held = sum_list (map ev_bytes es)" "1 \<le> n" "1 \<le> b"
    "d \<le> c"
  shows "\<exists>pre keep h d'. trim_events n b es held d = Inr (keep, h, d') \<and> es = pre @ keep \<and>
    map ev_seq keep = [d' + 1..c] \<and> h = sum_list (map ev_bytes keep) \<and> d \<le> d' \<and> d' \<le> c \<and>
    int (length keep) \<le> n \<and> h \<le> b"
  using assms
proof (induction es arbitrary: held d)
  case Nil
  then show ?case by simp
next
  case (Cons e es)
  show ?case
  proof (cases "int (length (e # es)) > n \<or> held > b")
    case True
    have lt: "d < c" using Cons.prems(1,5) by (cases "d = c") auto
    have seqs: "ev_seq e = d + 1" "map ev_seq es = [d + 1 + 1..c]"
      using Cons.prems(1) lt by (simp_all add: upto_rec1)
    have "\<exists>pre keep h d'. trim_events n b es (held - ev_bytes e) (d + 1) = Inr (keep, h, d') \<and>
      es = pre @ keep \<and> map ev_seq keep = [d' + 1..c] \<and> h = sum_list (map ev_bytes keep) \<and>
      d + 1 \<le> d' \<and> d' \<le> c \<and> int (length keep) \<le> n \<and> h \<le> b"
      by (rule Cons.IH) (use Cons.prems seqs lt in simp_all)
    then obtain pre keep h d' where k: "trim_events n b es (held - ev_bytes e) (d + 1) = Inr (keep, h, d')"
      "es = pre @ keep" "map ev_seq keep = [d' + 1..c]" "h = sum_list (map ev_bytes keep)"
      "d + 1 \<le> d'" "d' \<le> c" "int (length keep) \<le> n" "h \<le> b" by blast
    have "trim_events n b (e # es) held d = Inr (keep, h, d')"
      using True k(1) seqs(1) by simp
    then show ?thesis using k by (intro exI [of _ "e # pre"] exI [of _ keep] exI [of _ h] exI [of _ d']) simp
  next
    case False
    then show ?thesis using Cons.prems
      by (intro exI [of _ "[]"] exI [of _ "e # es"] exI [of _ held] exI [of _ d]) simp
  qed
qed

lemma trim_events_keeps_last:
  assumes "trim_events n b (es @ [x]) (sum_list (map ev_bytes es) + ev_bytes x) d = Inr (keep, h, d')"
    "1 \<le> n" "ev_bytes x \<le> b"
  shows "\<exists>pre. keep = pre @ [x]"
  using assms
  by (induction es arbitrary: d) (auto split: if_splits simp: algebra_simps)

lemma trim_to_limits_inv:
  assumes "1 \<le> el_maxEvents l" "1 \<le> el_maxBytes l" "0 \<le> el_droppedThrough l"
    "el_droppedThrough l \<le> el_currentSeq l"
    "map ev_seq (el_events l) = [el_droppedThrough l + 1..el_currentSeq l]"
    "el_totalBytes l = sum_list (map ev_bytes (el_events l))"
    "jmap_ok (el_acks l)" "\<forall>e \<in> set (el_acks l). 0 \<le> snd e \<and> snd e \<le> el_currentSeq l"
  shows "\<exists>l' pre. trim_to_limits l = Inr l' \<and> log_inv l' \<and> el_events l = pre @ el_events l' \<and>
    el_droppedThrough l \<le> el_droppedThrough l' \<and> el_epoch l' = el_epoch l \<and>
    el_currentSeq l' = el_currentSeq l \<and> el_maxEvents l' = el_maxEvents l \<and>
    el_maxBytes l' = el_maxBytes l \<and> el_acks l' = el_acks l"
proof -
  obtain pre keep h d' where k: "trim_events (el_maxEvents l) (el_maxBytes l) (el_events l)
      (el_totalBytes l) (el_droppedThrough l) = Inr (keep, h, d')" "el_events l = pre @ keep"
    "map ev_seq keep = [d' + 1..el_currentSeq l]" "h = sum_list (map ev_bytes keep)"
    "el_droppedThrough l \<le> d'" "d' \<le> el_currentSeq l" "int (length keep) \<le> el_maxEvents l"
    "h \<le> el_maxBytes l"
    using trim_events_suffix [OF assms(5,6,1,2,4)] by blast
  then show ?thesis using assms
    by (intro exI [of _ "l\<lparr>el_events := keep, el_totalBytes := h, el_droppedThrough := d'\<rparr>"] exI [of _ pre])
       (simp add: trim_to_limits_def log_inv_def)
qed

text \<open>One append: the state that is trimmed, and what follows for the returned log.\<close>

lemma log_append_Inr:
  assumes "log_append now inp l = Inr (l', v)"
  obtains l0 size where "l0 = l\<lparr>el_currentSeq := el_currentSeq l + 1,
      el_events := el_events l @ [\<lparr>ev_seq = el_currentSeq l + 1, ev_value = v, ev_bytes = size\<rparr>],
      el_totalBytes := el_totalBytes l + size\<rparr>"
    "size = int (json_bytes v)" "size \<le> el_maxBytes l" "trim_to_limits l0 = Inr l'"
  using assms
  by (auto simp: log_append_def Let_def result_simps split: option.splits)

lemma log_append_step:
  assumes inv: "log_inv l" and app: "log_append now inp l = Inr (l', v)"
  shows "log_inv l' \<and> el_currentSeq l' = el_currentSeq l + 1 \<and> el_epoch l' = el_epoch l \<and>
    el_droppedThrough l \<le> el_droppedThrough l' \<and>
    (\<exists>pre keep. el_events l = pre @ keep \<and> el_events l' =
       keep @ [\<lparr>ev_seq = el_currentSeq l + 1, ev_value = v, ev_bytes = int (json_bytes v)\<rparr>])"
proof -
  obtain l0 size where l0: "l0 = l\<lparr>el_currentSeq := el_currentSeq l + 1,
      el_events := el_events l @ [\<lparr>ev_seq = el_currentSeq l + 1, ev_value = v, ev_bytes = size\<rparr>],
      el_totalBytes := el_totalBytes l + size\<rparr>"
    and size: "size = int (json_bytes v)" "size \<le> el_maxBytes l"
    and trim: "trim_to_limits l0 = Inr l'" using log_append_Inr [OF app] by metis
  let ?x = "\<lparr>ev_seq = el_currentSeq l + 1, ev_value = v, ev_bytes = size\<rparr>"
  have "\<exists>l' pre. trim_to_limits l0 = Inr l' \<and> log_inv l' \<and> el_events l0 = pre @ el_events l' \<and>
    el_droppedThrough l0 \<le> el_droppedThrough l' \<and> el_epoch l' = el_epoch l0 \<and>
    el_currentSeq l' = el_currentSeq l0 \<and> el_maxEvents l' = el_maxEvents l0 \<and>
    el_maxBytes l' = el_maxBytes l0 \<and> el_acks l' = el_acks l0"
    by (rule trim_to_limits_inv) (use inv in \<open>auto simp: l0 log_inv_def upto_rec2\<close>)
  with trim obtain pre where l': "log_inv l'" "el_events l0 = pre @ el_events l'"
    "el_droppedThrough l \<le> el_droppedThrough l'" "el_epoch l' = el_epoch l"
    "el_currentSeq l' = el_currentSeq l + 1" by (auto simp: l0)
  obtain h d' where "trim_events (el_maxEvents l0) (el_maxBytes l0) (el_events l @ [?x])
      (sum_list (map ev_bytes (el_events l)) + ev_bytes ?x) (el_droppedThrough l) = Inr (el_events l', h, d')"
    using trim inv by (auto simp: trim_to_limits_def l0 log_inv_def split: sum.splits)
  then have "\<exists>p. el_events l' = p @ [?x]"
    by (rule trim_events_keeps_last) (use inv size in \<open>auto simp: l0 log_inv_def\<close>)
  then obtain keep where keep: "el_events l' = keep @ [?x]" ..
  with l'(2) have "el_events l = pre @ keep" by (simp add: l0)
  with l' keep size show ?thesis by blast
qed

lemma log_invalidate_inv: "log_inv l \<Longrightarrow> log_invalidate l = (l', n) \<Longrightarrow> log_inv l'"
  by (fastforce simp: log_invalidate_def Let_def log_inv_def)

lemma log_safe_id_Inr [simp]:
  "log_safe_id v = Inr s \<longleftrightarrow> v = Some (JStr s) \<and> identifier_ok MAX_ID_LENGTH s"
  by (cases "validate_identifier MAX_ID_LENGTH v") (auto simp: log_safe_id_def)

lemma log_safe_integer_Inr [simp]:
  "log_safe_integer v = Inr n \<longleftrightarrow> v = Some (JInt n) \<and> is_safe n \<and> 0 \<le> n"
  by (auto simp: log_safe_integer_def result_simps split: option.splits)

lemma log_safe_id_JStr [simp]:
  "identifier_ok MAX_ID_LENGTH s \<Longrightarrow> log_safe_id (Some (JStr s)) = Inr s"
  by (simp add: log_safe_id_def)

lemma log_safe_integer_JInt [simp]:
  "is_safe n \<Longrightarrow> 0 \<le> n \<Longrightarrow> log_safe_integer (Some (JInt n)) = Inr n"
  by (simp add: log_safe_integer_def)

lemma log_acknowledge_Inr:
  "log_acknowledge c n l = Inr (l', k) \<longleftrightarrow>
     (\<exists>i m. c = Some (JStr i) \<and> identifier_ok MAX_ID_LENGTH i \<and> n = Some (JInt m) \<and> is_safe m \<and>
        0 \<le> m \<and> m \<le> el_currentSeq l \<and>
        k = max (acknowledged l i) m \<and>
        l' = l\<lparr>el_acks := jset i k (el_acks l)\<rparr>)"
  by (auto simp: log_acknowledge_def Let_def result_simps split: option.splits)

lemma log_acknowledge_inv:
  assumes "log_inv l" "log_acknowledge c n l = Inr (l', k)"
  shows "log_inv l'"
proof -
  obtain i m where m: "0 \<le> m" "m \<le> el_currentSeq l"
    "k = max (acknowledged l i) m"
    "l' = l\<lparr>el_acks := jset i k (el_acks l)\<rparr>"
    using assms(2) by (auto simp: log_acknowledge_Inr)
  have acks: "jmap_ok (el_acks l)" "\<forall>e \<in> set (el_acks l). 0 \<le> snd e \<and> snd e \<le> el_currentSeq l"
    using assms(1) by (simp_all add: log_inv_def)
  have "0 \<le> k \<and> k \<le> el_currentSeq l"
    using m acks(2) by (force simp: m(3) acknowledged_def split: option.splits dest: jget_Some_in)
  then have "\<forall>e \<in> set (el_acks l'). 0 \<le> snd e \<and> snd e \<le> el_currentSeq l'" "jmap_ok (el_acks l')"
    using acks by (auto simp: m(4) set_jset)
  with assms(1) show ?thesis by (simp add: log_inv_def m(4))
qed

lemma log_drop_client_inv: "log_inv l \<Longrightarrow> log_drop_client c l = Inr (l', k) \<Longrightarrow> log_inv l'"
  by (fastforce simp: log_drop_client_def log_inv_def result_simps set_jdel)

section \<open>Histories\<close>

text \<open>
  One call on the log; a call that throws leaves the log as it was. \<open>published\<close> is the slot the
  call adds to the full history: the event an append returned, or \<open>None\<close> for the payload that
  \<open>invalidate\<close> discarded.
\<close>

datatype log_op =
    Log_append int append_input
  | Log_invalidate
  | Log_acknowledge "json option" "json option"
  | Log_drop_client "json option"

fun log_step :: "event_log \<Rightarrow> log_op \<Rightarrow> event_log" where
  "log_step l (Log_append now inp) =
     (case log_append now inp l of Inl _ \<Rightarrow> l | Inr (l', _) \<Rightarrow> l')"
| "log_step l Log_invalidate = fst (log_invalidate l)"
| "log_step l (Log_acknowledge c n) =
     (case log_acknowledge c n l of Inl _ \<Rightarrow> l | Inr (l', _) \<Rightarrow> l')"
| "log_step l (Log_drop_client c) =
     (case log_drop_client c l of Inl _ \<Rightarrow> l | Inr (l', _) \<Rightarrow> l')"

fun published :: "event_log \<Rightarrow> log_op \<Rightarrow> json option list" where
  "published l (Log_append now inp) =
     (case log_append now inp l of Inl _ \<Rightarrow> [] | Inr (_, v) \<Rightarrow> [Some v])"
| "published l Log_invalidate = [None]"
| "published _ _ = []"

fun log_run :: "event_log \<Rightarrow> log_op list \<Rightarrow> event_log" where
  "log_run l [] = l"
| "log_run l (x # xs) = log_run (log_step l x) xs"

fun history :: "event_log \<Rightarrow> log_op list \<Rightarrow> json option list" where
  "history l [] = []"
| "history l (x # xs) = published l x @ history (log_step l x) xs"

text \<open>The log stands for a suffix of the history: the slots after \<open>droppedThrough\<close>.\<close>

definition log_refines :: "event_log \<Rightarrow> json option list \<Rightarrow> bool" where
  "log_refines l h =
     (log_inv l \<and> el_currentSeq l = int (length h) \<and>
      map (\<lambda>e. Some (ev_value e)) (el_events l) = drop (nat (el_droppedThrough l)) h)"

lemma log_inv_length: "log_inv l \<Longrightarrow> int (length (el_events l)) = el_currentSeq l - el_droppedThrough l"
proof -
  assume "log_inv l"
  then have "length (map ev_seq (el_events l)) = length [el_droppedThrough l + 1..el_currentSeq l]"
    "el_droppedThrough l \<le> el_currentSeq l"
    unfolding log_inv_def by argo+
  then show ?thesis by simp
qed

lemma log_refines_append:
  assumes "log_refines l h" "log_append now inp l = Inr (l', v)"
  shows "log_refines l' (h @ [Some v])"
proof -
  note inv = assms(1) [unfolded log_refines_def]
  from log_append_step [OF conjunct1 [OF inv] assms(2)] obtain pre keep where st: "log_inv l'"
    "el_currentSeq l' = el_currentSeq l + 1" "el_events l = pre @ keep" "el_events l' =
       keep @ [\<lparr>ev_seq = el_currentSeq l + 1, ev_value = v, ev_bytes = int (json_bytes v)\<rparr>]"
    by blast
  have len: "int (length keep) + 1 = el_currentSeq l + 1 - el_droppedThrough l'"
    using log_inv_length [OF st(1)] by (simp add: st)
  have "int (length pre) + int (length keep) = el_currentSeq l - el_droppedThrough l"
    using log_inv_length [OF conjunct1 [OF inv]] by (simp add: st)
  moreover have "0 \<le> el_droppedThrough l" using inv by (simp add: log_inv_def)
  ultimately have d: "nat (el_droppedThrough l') = length pre + nat (el_droppedThrough l)"
    using len by simp
  have "map (\<lambda>e. Some (ev_value e)) keep = drop (length pre) (map (\<lambda>e. Some (ev_value e)) (el_events l))"
    by (simp add: st)
  also have "\<dots> = drop (nat (el_droppedThrough l')) h"
    using inv by (simp add: d)
  finally have keep: "map (\<lambda>e. Some (ev_value e)) keep = drop (nat (el_droppedThrough l')) h" .
  have "el_droppedThrough l' \<le> el_currentSeq l" using len by simp
  then have "nat (el_droppedThrough l') \<le> length h" using inv by simp
  then have "map (\<lambda>e. Some (ev_value e)) (el_events l') = drop (nat (el_droppedThrough l')) (h @ [Some v])"
    by (simp add: st(4) keep)
  then show ?thesis using st inv by (simp add: log_refines_def)
qed

lemma log_refines_step:
  assumes "log_refines l h"
  shows "log_refines (log_step l x) (h @ published l x)"
proof (cases x)
  case (Log_append now inp)
  then show ?thesis using assms log_refines_append [OF assms]
    by (auto split: sum.splits prod.splits)
next
  case Log_invalidate
  have "log_inv (fst (log_invalidate l))"
    using assms log_invalidate_inv [of l "fst (log_invalidate l)" "snd (log_invalidate l)"]
    by (simp add: log_refines_def)
  with Log_invalidate assms show ?thesis
    by (simp add: log_refines_def log_invalidate_def Let_def)
next
  case (Log_acknowledge c n)
  show ?thesis
  proof (cases "log_acknowledge c n l")
    case (Inr r)
    then obtain l' k where r: "log_acknowledge c n l = Inr (l', k)" by (cases r) auto
    have "log_inv l'" using log_acknowledge_inv [OF _ r] assms by (simp add: log_refines_def)
    moreover have "el_currentSeq l' = el_currentSeq l" "el_events l' = el_events l"
      "el_droppedThrough l' = el_droppedThrough l" using r by (auto simp: log_acknowledge_Inr)
    ultimately show ?thesis using assms r by (simp add: Log_acknowledge log_refines_def)
  qed (use assms Log_acknowledge in simp)
next
  case (Log_drop_client c)
  show ?thesis
  proof (cases "log_drop_client c l")
    case (Inr r)
    then obtain l' k where r: "log_drop_client c l = Inr (l', k)" by (cases r) auto
    have "log_inv l'" using log_drop_client_inv [OF _ r] assms by (simp add: log_refines_def)
    moreover have "el_currentSeq l' = el_currentSeq l" "el_events l' = el_events l"
      "el_droppedThrough l' = el_droppedThrough l"
      using r by (auto simp: log_drop_client_def result_simps)
    ultimately show ?thesis using assms r by (simp add: Log_drop_client log_refines_def)
  qed (use assms Log_drop_client in simp)
qed

lemma log_refines_run: "log_refines l h \<Longrightarrow> log_refines (log_run l xs) (h @ history l xs)"
  by (induction xs arbitrary: l h) (auto dest: log_refines_step simp flip: append_assoc)

lemma new_event_log_refines: "new_event_log e n b = Inr l \<Longrightarrow> log_refines l []"
  using new_event_log_inv [of e n b l]
  by (auto simp: log_refines_def new_event_log_def result_simps)

lemma filter_after:
  "map ev_seq es = [d + 1..c] \<Longrightarrow> d \<le> k \<Longrightarrow> filter (\<lambda>x. ev_seq x > k) es = drop (nat (k - d)) es"
proof (induction es arbitrary: d)
  case Nil
  then show ?case by simp
next
  case (Cons e es)
  have "d < c" using Cons.prems(1) by (cases "d < c") auto
  then have e: "ev_seq e = d + 1" "map ev_seq es = [d + 1 + 1..c]"
    using Cons.prems(1) by (simp_all add: upto_rec1)
  show ?case
  proof (cases "k = d")
    case True
    have "\<forall>x \<in> set (e # es). ev_seq x > k"
      using Cons.prems(1) True by (metis atLeastAtMost_iff image_eqI list.set_map set_upto zless_add1_eq less_le_trans linorder_not_less add1_zle_eq)
    then show ?thesis by (simp add: True)
  next
    case False
    with Cons.prems have "filter (\<lambda>x. ev_seq x > k) es = drop (nat (k - (d + 1))) es"
      using Cons.IH [OF e(2)] by simp
    moreover have "nat (k - d) = Suc (nat (k - (d + 1)))" using False Cons.prems by simp
    ultimately show ?thesis using False Cons.prems e by simp
  qed
qed

lemma replay_of_refines:
  assumes ref: "log_refines l h" and rep: "log_replay (Some (JStr ep)) (Some (JInt c)) l = Inr r"
    and ep: "ep = el_epoch l"
  shows "case r of
      Replay e from to evs \<Rightarrow> e = ep \<and> from = c + 1 \<and> to = int (length h) \<and>
        el_droppedThrough l \<le> c \<and> map Some evs = drop (nat c) h
    | Snapshot_required Epoch_mismatch _ _ _ \<Rightarrow> False
    | Snapshot_required Cursor_ahead e cur early \<Rightarrow> int (length h) < c
    | Snapshot_required Event_gap e cur early \<Rightarrow> c < el_droppedThrough l"
proof -
  note r = ref [unfolded log_refines_def]
  have seqs: "map ev_seq (el_events l) = [el_droppedThrough l + 1..el_currentSeq l]"
    "0 \<le> el_droppedThrough l"
    using r by (simp_all add: log_inv_def)
  have "map Some (map ev_value (filter (\<lambda>x. ev_seq x > c) (el_events l))) = drop (nat c) h"
    if "el_droppedThrough l \<le> c"
  proof -
    have "map Some (map ev_value (drop n (el_events l))) =
        drop n (map (\<lambda>e. Some (ev_value e)) (el_events l))" for n by (simp add: drop_map)
    moreover have "nat (c - el_droppedThrough l) + nat (el_droppedThrough l) = nat c"
      using that seqs(2) by simp
    ultimately show ?thesis using filter_after [OF seqs(1) that] r by simp
  qed
  then show ?thesis using rep r ep
    by (auto simp: log_replay_def result_simps snapshot_required_def split: if_splits)
qed

lemmas log_invariants = new_event_log_inv log_invalidate_inv log_acknowledge_inv log_drop_client_inv

lemma log_step_epoch [simp]: "log_refines l h \<Longrightarrow> el_epoch (log_step l x) = el_epoch l"
  by (cases x) (auto simp: log_refines_def log_append_step log_invalidate_def Let_def
      log_acknowledge_Inr log_drop_client_def result_simps split: sum.splits)

lemma log_run_epoch: "log_refines l h \<Longrightarrow> el_epoch (log_run l xs) = el_epoch l"
proof (induction xs arbitrary: l h)
  case (Cons x xs)
  from Cons.IH [OF log_refines_step [OF Cons.prems, of x]] show ?case using Cons.prems by simp
qed simp

lemma new_event_log_fields:
  "new_event_log e n b = Inr l \<Longrightarrow> e = Some (JStr (el_epoch l)) \<and> identifier_ok MAX_ID_LENGTH (el_epoch l) \<and>
     n = Some (JInt (el_maxEvents l)) \<and> b = Some (JInt (el_maxBytes l))"
  by (auto simp: new_event_log_def result_simps log_safe_limit_def split: option.splits)

lemma log_append_no_type_error:
  assumes "log_inv l"
  shows "log_append now inp l \<noteq> Inl Elog_type_error"
proof
  assume err: "log_append now inp l = Inl Elog_type_error"
  have id: "log_safe_id v \<noteq> Inl Elog_type_error" for v by (simp add: log_safe_id_def split: sum.splits)
  have num: "log_safe_integer v \<noteq> Inl Elog_type_error" for v
    by (auto simp: log_safe_integer_def result_simps split: option.splits)
  obtain v size where t: "trim_to_limits (l\<lparr>el_currentSeq := el_currentSeq l + 1,
      el_events := el_events l @ [\<lparr>ev_seq = el_currentSeq l + 1, ev_value = v, ev_bytes = size\<rparr>],
      el_totalBytes := el_totalBytes l + size\<rparr>) = Inl Elog_type_error" (is "trim_to_limits ?l0 = _")
    using err id num by (auto simp: log_append_def Let_def result_simps split: option.splits if_splits)
  have "\<exists>l' pre. trim_to_limits ?l0 = Inr l' \<and> log_inv l' \<and> el_events ?l0 = pre @ el_events l' \<and>
    el_droppedThrough ?l0 \<le> el_droppedThrough l' \<and> el_epoch l' = el_epoch ?l0 \<and>
    el_currentSeq l' = el_currentSeq ?l0 \<and> el_maxEvents l' = el_maxEvents ?l0 \<and>
    el_maxBytes l' = el_maxBytes ?l0 \<and> el_acks l' = el_acks ?l0"
    by (rule trim_to_limits_inv) (use assms in \<open>auto simp: log_inv_def upto_rec2\<close>)
  then show False using t by auto
qed

section \<open>Properties\<close>

text \<open>
  C5. Replay is exact. Whatever calls a new log has served, a client of its epoch that asks for what
  follows cursor \<open>c\<close> is either told to take a snapshot, and then only because \<open>c\<close> lies before
  the oldest retained slot or beyond the newest, or it receives precisely the history after \<open>c\<close>:
  every event, once, in order, none of them discarded.
\<close>

theorem event_log_replay_exact:
  assumes "new_event_log epoch max_events max_bytes = Inr l0"
    and "l = log_run l0 ops" and "h = history l0 ops"
    and "0 \<le> c" and "c \<le> max_safe_integer"
  shows "\<exists>r. log_replay epoch (Some (JInt c)) l = Inr r \<and>
    (case r of
       Replay e from to evs \<Rightarrow> Some (JStr e) = epoch \<and> from = c + 1 \<and> to = int (length h) \<and>
         map Some evs = drop (nat c) h
     | Snapshot_required reason e cur earliest \<Rightarrow>
         reason = Cursor_ahead \<and> int (length h) < c \<or>
         reason = Event_gap \<and> c < el_droppedThrough l)"
proof -
  note ref0 = new_event_log_refines [OF assms(1)]
  have ref: "log_refines l h" using log_refines_run [OF ref0, of ops] by (simp add: assms)
  have ep: "epoch = Some (JStr (el_epoch l))" "identifier_ok MAX_ID_LENGTH (el_epoch l)"
    using new_event_log_fields [OF assms(1)] log_run_epoch [OF ref0, of ops] by (simp_all add: assms)
  have "is_safe c" using assms by (simp add: is_safe_def max_safe_integer_def)
  then obtain r where r: "log_replay epoch (Some (JInt c)) l = Inr r"
    using ep assms by (simp add: log_replay_def ebind_def)
  with replay_of_refines [OF ref, of "el_epoch l" c r] ep show ?thesis
    by (intro exI [of _ r]) (auto split: replay_result.splits snapshot_reason.splits)
qed

theorem event_log_replay_exact_witness:
  "\<exists>l0 r. new_event_log (Some (JStr (js ''e''))) (Some (JInt 1)) (Some (JInt 200)) = Inr l0 \<and>
     history l0 [Log_append 7 \<lparr>ai_type = Some (JStr (js ''desktop.status'')), ai_payload = None,
        ai_id = None, ai_at = None, ai_audience = None\<rparr>, Log_invalidate] \<noteq> [] \<and>
     log_replay (Some (JStr (js ''e''))) (Some (JInt 1)) (log_run l0
       [Log_append 7 \<lparr>ai_type = Some (JStr (js ''desktop.status'')), ai_payload = None,
        ai_id = None, ai_at = None, ai_audience = None\<rparr>, Log_invalidate]) = Inr r"
proof -
  have "is_ok (new_event_log (Some (JStr (js ''e''))) (Some (JInt 1)) (Some (JInt 200)))"
    by (simp add: exec_simps new_event_log_def log_safe_limit_def)
  then obtain l0 where l0: "new_event_log (Some (JStr (js ''e''))) (Some (JInt 1)) (Some (JInt 200)) = Inr l0"
    by (auto simp: is_ok_iff)
  then show ?thesis
    using event_log_replay_exact [OF l0 refl refl, of 1 "[Log_append 7 \<lparr>ai_type = Some (JStr (js ''desktop.status'')),
        ai_payload = None, ai_id = None, ai_at = None, ai_audience = None\<rparr>, Log_invalidate]"]
    by (auto simp: max_safe_integer_def)
qed

text \<open>
  C24. The log is bounded and never throws from trimming: after any calls it retains at most
  \<open>maxEvents\<close> events of at most \<open>maxBytes\<close> bytes in total, no client is acknowledged beyond
  the current sequence number, and an append can only fail by rejecting its input.
\<close>

theorem event_log_bounded:
  assumes "new_event_log epoch (Some (JInt n)) (Some (JInt b)) = Inr l0" and "l = log_run l0 ops"
  shows "int (length (el_events l)) \<le> el_maxEvents l \<and>
    sum_list (map ev_bytes (el_events l)) \<le> el_maxBytes l \<and>
    (\<forall>client. acknowledged l client \<le> el_currentSeq l) \<and>
    log_append now inp l \<noteq> Inl Elog_type_error"
proof -
  have inv: "log_inv l"
    using log_refines_run [OF new_event_log_refines [OF assms(1)], of ops]
    by (simp add: log_refines_def assms)
  then have "acknowledged l client \<le> el_currentSeq l" for client
    by (force simp: acknowledged_def log_inv_def split: option.splits dest: jget_Some_in)
  with inv log_append_no_type_error show ?thesis by (auto simp: log_inv_def)
qed

theorem event_log_bounded_witness:
  "\<exists>l0. new_event_log (Some (JStr (js ''e''))) (Some (JInt 2)) (Some (JInt 300)) = Inr l0 \<and>
    log_append 1 \<lparr>ai_type = None, ai_payload = None, ai_id = None, ai_at = None, ai_audience = None\<rparr>
      (log_run l0 [Log_invalidate]) \<noteq> Inl Elog_type_error"
proof -
  have "is_ok (new_event_log (Some (JStr (js ''e''))) (Some (JInt 2)) (Some (JInt 300)))"
    by (simp add: exec_simps new_event_log_def log_safe_limit_def)
  then obtain l0 where "new_event_log (Some (JStr (js ''e''))) (Some (JInt 2)) (Some (JInt 300)) = Inr l0"
    by (auto simp: is_ok_iff)
  with event_log_bounded [OF this refl] show ?thesis by blast
qed

text \<open>
  The newest event is always retained: an accepted append can be replayed at once by a client
  that had seen everything before it, however small the limits are.
\<close>

theorem event_log_newest_retained:
  assumes "new_event_log epoch max_events max_bytes = Inr l0" and "l = log_run l0 ops"
    and "log_append now inp l = Inr (l', v)" and "el_currentSeq l \<le> max_safe_integer"
  shows "log_replay epoch (Some (JInt (el_currentSeq l))) l' =
    Inr (Replay (el_epoch l0) (el_currentSeq l + 1) (el_currentSeq l + 1) [v])"
proof -
  note ref0 = new_event_log_refines [OF assms(1)]
  have ref: "log_refines l (history l0 ops)" using log_refines_run [OF ref0, of ops] by (simp add: assms)
  then have inv: "log_inv l" and pos: "0 \<le> el_currentSeq l" by (simp_all add: log_refines_def)
  have ep: "epoch = Some (JStr (el_epoch l0))" "identifier_ok MAX_ID_LENGTH (el_epoch l0)"
    using new_event_log_fields [OF assms(1)] by simp_all
  from log_append_step [OF inv assms(3)] obtain keep where st: "log_inv l'" "el_epoch l' = el_epoch l"
    "el_currentSeq l' = el_currentSeq l + 1" "el_events l' =
       keep @ [\<lparr>ev_seq = el_currentSeq l + 1, ev_value = v, ev_bytes = int (json_bytes v)\<rparr>]" by blast
  have len: "int (length keep) = el_currentSeq l - el_droppedThrough l'"
    using log_inv_length [OF st(1)] by (simp add: st)
  have "map ev_seq (el_events l') = [el_droppedThrough l' + 1..el_currentSeq l']"
    using st(1) by (simp add: log_inv_def)
  moreover have "el_droppedThrough l' \<le> el_currentSeq l"
    "nat (el_currentSeq l - el_droppedThrough l') = length keep" using len by linarith+
  ultimately have "filter (\<lambda>x. ev_seq x > el_currentSeq l) (el_events l') = drop (length keep) (el_events l')"
    by (metis filter_after)
  then have "map ev_value (filter (\<lambda>x. ev_seq x > el_currentSeq l) (el_events l')) = [v]"
    by (simp add: st(4))
  moreover have "el_epoch l = el_epoch l0" using log_run_epoch [OF ref0] assms(2) by simp
  moreover have "is_safe (el_currentSeq l)" using pos assms(4) by (simp add: safe_nonneg)
  moreover have "el_droppedThrough l' \<le> el_currentSeq l" using len by linarith
  ultimately show ?thesis using ep pos st(2,3) by (simp add: log_replay_def)
qed

theorem event_log_newest_retained_witness:
  "\<exists>l0 l' v. new_event_log (Some (JStr (js ''e''))) (Some (JInt 1)) (Some (JInt 200)) = Inr l0 \<and>
     log_append 7 \<lparr>ai_type = Some (JStr (js ''desktop.status'')), ai_payload = None,
        ai_id = None, ai_at = None, ai_audience = None\<rparr> (log_run l0 [Log_invalidate]) = Inr (l', v) \<and>
     log_replay (Some (JStr (js ''e''))) (Some (JInt 1)) l' = Inr (Replay (js ''e'') 2 2 [v])"
proof -
  let ?l0 = "\<lparr>el_epoch = js ''e'', el_maxEvents = 1, el_maxBytes = 200, el_events = [],
    el_totalBytes = 0, el_currentSeq = 0, el_droppedThrough = 0, el_acks = []\<rparr>"
  let ?i = "\<lparr>ai_type = Some (JStr (js ''desktop.status'')), ai_payload = None,
        ai_id = None, ai_at = None, ai_audience = None\<rparr>"
  have l0: "new_event_log (Some (JStr (js ''e''))) (Some (JInt 1)) (Some (JInt 200)) = Inr ?l0"
    by (simp add: exec_simps new_event_log_def log_safe_limit_def)
  have "is_ok (log_append 7 ?i (log_run ?l0 [Log_invalidate]))"
    by (simp add: exec_simps log_append_def log_invalidate_def event_object_def trim_to_limits_def Let_def)
  then obtain l' v where app: "log_append 7 ?i (log_run ?l0 [Log_invalidate]) = Inr (l', v)"
    by (auto simp: is_ok_iff)
  have seq: "el_currentSeq (log_run ?l0 [Log_invalidate]) = 1"
    by (simp add: log_invalidate_def Let_def)
  show ?thesis
    using event_log_newest_retained [OF l0 refl app, unfolded seq] app l0
    by (intro exI [of _ ?l0] exI [of _ l'] exI [of _ v] conjI) (simp_all add: max_safe_integer_def)
qed

end
