(* ===== verification/Command_Cache.thy ===== *)
theory Command_Cache
  imports Companion_Protocol "HOL-Library.Multiset"
begin

text \<open>
  The idempotency cache of companion commands, \<open>electron/companion/commandCache.cjs\<close>: a receipt per
  command id, kept for a time to live and evicted least recently used first, and the table of
  commands in flight, which lets a retried command wait for the running one. \<open>execute\<close> is
  asynchronous: the model has one operation per segment between awaits, on a state that holds the
  promises the code creates. A method that throws after it has purged expired entries keeps the
  purge, so methods return the state next to their result.
\<close>

section \<open>Fingerprints\<close>

text \<open>
  \<open>canonicalize\<close> sorts the names of every object and assigns them to a fresh object. Assigning to
  \<^verbatim>\<open>__proto__\<close> sets the prototype and creates no property, and the fresh object enumerates
  names that are array indices first, in numeric order.
\<close>

fun canonicalize :: "json \<Rightarrow> json" where
  "canonicalize (JArr xs) = JArr (map canonicalize xs)"
| "canonicalize (JObj ps) =
     JObj (enumeration_order (filter (\<lambda>p. fst p \<noteq> js ''__proto__'')
       (sort_key fst (map (\<lambda>p. (fst p, canonicalize (snd p))) ps))))"
| "canonicalize v = v"

text \<open>\<open>sha256_hex\<close> stands for \<^verbatim>\<open>createHash('sha256').update(t).digest('hex')\<close>.\<close>

definition fingerprint_command :: "(bytes \<Rightarrow> jstr) \<Rightarrow> json \<Rightarrow> jstr" where
  "fingerprint_command sha256_hex command = sha256_hex (utf8_encode (stringify (canonicalize command)))"

definition fingerprint_ok :: "jstr \<Rightarrow> bool" where
  "fingerprint_ok s = (length s = 64 \<and> list_all (\<lambda>u. is_digit_unit u \<or> (97 \<le> u \<and> u \<le> 102)) s)"

text \<open>
  Two values are the same when they differ only in the order of the properties of their objects.
\<close>

inductive same_value :: "json \<Rightarrow> json \<Rightarrow> bool" where
  Same_leaf: "same_value v v"
| Same_array: "list_all2 same_value xs ys \<Longrightarrow> same_value (JArr xs) (JArr ys)"
| Same_object: "distinct (map fst ps) \<Longrightarrow>
    list_all2 (\<lambda>p q. fst p = fst q \<and> same_value (snd p) (snd q)) ps qs \<Longrightarrow>
    mset qs = mset rs \<Longrightarrow> same_value (JObj ps) (JObj rs)"

lemma sort_by_name:
  assumes "mset ps = mset qs" "distinct (map fst ps)"
  shows "sort_key fst ps = sort_key fst qs"
  using assms by (intro sort_key_inj_key_eq) (simp_all add: distinct_map)

lemma canonicalize_same: "same_value v w \<Longrightarrow> canonicalize v = canonicalize w"
proof (induction rule: same_value.induct)
  case (Same_array xs ys)
  then have "map canonicalize xs = map canonicalize ys" by (induction rule: list_all2_induct) auto
  then show ?case by simp
next
  case (Same_object ps qs rs)
  let ?f = "map (\<lambda>p. (fst p, canonicalize (snd p)))"
  have eq: "?f ps = ?f qs" using Same_object.IH by (induction rule: list_all2_induct) auto
  have "mset (?f qs) = mset (?f rs)" using Same_object.hyps(2) by simp
  moreover have "distinct (map fst (?f qs))" using Same_object.hyps(1) eq [symmetric] by (simp add: comp_def)
  ultimately have "sort_key fst (?f qs) = sort_key fst (?f rs)" by (rule sort_by_name)
  then show ?case by (simp add: eq)
qed simp

section \<open>State\<close>

datatype command_cache_error =
    Cce_invalid_limit | Cce_invalid_command_id | Cce_invalid_fingerprint | Cce_invalid_receipt
  | Cce_command_id_conflict

record receipt_entry =
  re_fingerprint :: jstr
  re_receipt :: json
  re_expiresAt :: int

datatype promise_state = Running | Resolved json | Rejected

record promise =
  pr_commandId :: jstr
  pr_fingerprint :: jstr
  pr_state :: promise_state

record in_flight =
  if_fingerprint :: jstr
  if_promise :: nat

record command_cache =
  cc_maxEntries :: nat
  cc_ttlMs :: int
  cc_receipts :: "(jstr, receipt_entry) jmap"
  cc_inFlight :: "(jstr, in_flight) jmap"
  cc_promises :: "promise list"

definition CACHE_MAX_ENTRIES :: int where "CACHE_MAX_ENTRIES = 1024"

definition CACHE_TTL_MS :: int where "CACHE_TTL_MS = 10 * 60 * 1000"

definition new_command_cache :: "json option \<Rightarrow> json option \<Rightarrow> command_cache_error + command_cache" where
  "new_command_cache max_entries ttl =
     (case (as_int max_entries, as_int ttl) of
        (Some n, Some t) \<Rightarrow>
          require (1 \<le> n) Cce_invalid_limit (
          require (1 \<le> t) Cce_invalid_limit (
          Inr \<lparr>cc_maxEntries = nat n, cc_ttlMs = t, cc_receipts = [], cc_inFlight = [],
               cc_promises = []\<rparr>))
      | _ \<Rightarrow> Inl Cce_invalid_limit)"

section \<open>Operations\<close>

definition purge_expired :: "int \<Rightarrow> command_cache \<Rightarrow> command_cache" where
  "purge_expired now c =
     c\<lparr>cc_receipts := jfilter (\<lambda>_ e. \<not> re_expiresAt e \<le> now) (cc_receipts c)\<rparr>"

fun trim_receipts :: "nat \<Rightarrow> (jstr, receipt_entry) jmap \<Rightarrow> (jstr, receipt_entry) jmap" where
  "trim_receipts n [] = []"
| "trim_receipts n (e # es) = (if length (e # es) > n then trim_receipts n es else e # es)"

definition check_descriptor :: "jstr \<Rightarrow> jstr \<Rightarrow> command_cache_error + unit" where
  "check_descriptor command_id fp =
     require (identifier_ok MAX_ID_LENGTH command_id) Cce_invalid_command_id (
     require (fingerprint_ok fp) Cce_invalid_fingerprint (Inr ()))"

definition touch :: "'k \<Rightarrow> 'v \<Rightarrow> ('k, 'v) jmap \<Rightarrow> ('k, 'v) jmap" where
  "touch k v m = jset k v (jdel k m)"

definition cache_lookup ::
  "int \<Rightarrow> jstr \<Rightarrow> jstr \<Rightarrow> command_cache \<Rightarrow> command_cache \<times> (command_cache_error + json option)" where
  "cache_lookup now command_id fp c0 =
     (case check_descriptor command_id fp of
        Inl e \<Rightarrow> (c0, Inl e)
      | Inr _ \<Rightarrow>
          let c = purge_expired now c0 in
          case jget (cc_receipts c) command_id of
            None \<Rightarrow> (c, Inr None)
          | Some entry \<Rightarrow>
              if re_fingerprint entry \<noteq> fp then (c, Inl Cce_command_id_conflict)
              else (c\<lparr>cc_receipts := touch command_id entry (cc_receipts c)\<rparr>,
                    Inr (Some (re_receipt entry))))"

text \<open>\<open>remember\<close> reads the clock twice, to purge and to date the new entry.\<close>

definition cache_remember ::
  "int \<Rightarrow> int \<Rightarrow> jstr \<Rightarrow> jstr \<Rightarrow> json \<Rightarrow> command_cache \<Rightarrow>
   command_cache \<times> (command_cache_error + json)" where
  "cache_remember now1 now2 command_id fp receipt c0 =
     (case check_descriptor command_id fp of
        Inl e \<Rightarrow> (c0, Inl e)
      | Inr _ \<Rightarrow>
          if \<not> is_obj receipt then (c0, Inl Cce_invalid_receipt)
          else
            let c = purge_expired now1 c0;
                entry = \<lparr>re_fingerprint = fp, re_receipt = receipt, re_expiresAt = now2 + cc_ttlMs c\<rparr>;
                conflict = (case jget (cc_receipts c) command_id of
                              None \<Rightarrow> False | Some existing \<Rightarrow> re_fingerprint existing \<noteq> fp) in
            if conflict then (c, Inl Cce_command_id_conflict)
            else (c\<lparr>cc_receipts := trim_receipts (cc_maxEntries c)
                       (touch command_id entry (cc_receipts c))\<rparr>, Inr receipt))"

datatype execute_result = Exec_cached json | Exec_joined nat | Exec_started nat

text \<open>
  The first segment of \<open>execute\<close>, up to the await: answer from the cache, join the promise in
  flight, or start the executor under a new promise.
\<close>

definition cache_execute ::
  "int \<Rightarrow> jstr \<Rightarrow> jstr \<Rightarrow> command_cache \<Rightarrow>
   command_cache \<times> (command_cache_error + execute_result)" where
  "cache_execute now command_id fp c0 =
     (case cache_lookup now command_id fp c0 of
        (c, Inl e) \<Rightarrow> (c, Inl e)
      | (c, Inr (Some receipt)) \<Rightarrow> (c, Inr (Exec_cached receipt))
      | (c, Inr None) \<Rightarrow>
          (case jget (cc_inFlight c) command_id of
             Some active \<Rightarrow>
               if if_fingerprint active \<noteq> fp then (c, Inl Cce_command_id_conflict)
               else (c, Inr (Exec_joined (if_promise active)))
           | None \<Rightarrow>
               let p = length (cc_promises c) in
               (c\<lparr>cc_promises := cc_promises c @
                   [\<lparr>pr_commandId = command_id, pr_fingerprint = fp, pr_state = Running\<rparr>],
                  cc_inFlight := jset command_id \<lparr>if_fingerprint = fp, if_promise = p\<rparr> (cc_inFlight c)\<rparr>,
                Inr (Exec_started p))))"

definition set_promise :: "nat \<Rightarrow> promise_state \<Rightarrow> command_cache \<Rightarrow> command_cache" where
  "set_promise p st c =
     c\<lparr>cc_promises := (cc_promises c)[p := (cc_promises c ! p)\<lparr>pr_state := st\<rparr>]\<rparr>"

text \<open>
  The executor of promise \<open>p\<close> has ended: \<open>Some r\<close> is the value it returned, \<open>None\<close> that it threw.
  The next segment stores the receipt and settles the promise; a receipt that cannot be stored
  rejects it.
\<close>

definition cache_settle :: "int \<Rightarrow> int \<Rightarrow> nat \<Rightarrow> json option \<Rightarrow> command_cache \<Rightarrow> command_cache" where
  "cache_settle now1 now2 p outcome c =
     (if p < length (cc_promises c) \<and> pr_state (cc_promises c ! p) = Running then
        (case outcome of
           None \<Rightarrow> set_promise p Rejected c
         | Some receipt \<Rightarrow>
             (case cache_remember now1 now2 (pr_commandId (cc_promises c ! p))
                     (pr_fingerprint (cc_promises c ! p)) receipt c of
                (c', Inl e) \<Rightarrow> set_promise p Rejected c'
              | (c', Inr r) \<Rightarrow> set_promise p (Resolved r) c'))
      else c)"

text \<open>The \<open>finally\<close> segment of a settled promise.\<close>

definition cache_finish :: "nat \<Rightarrow> command_cache \<Rightarrow> command_cache" where
  "cache_finish p c =
     (if p < length (cc_promises c) \<and> pr_state (cc_promises c ! p) \<noteq> Running then
        (let command_id = pr_commandId (cc_promises c ! p) in
         case jget (cc_inFlight c) command_id of
           Some active \<Rightarrow>
             if if_promise active = p then c\<lparr>cc_inFlight := jdel command_id (cc_inFlight c)\<rparr> else c
         | None \<Rightarrow> c)
      else c)"

record cache_stats =
  cs_cachedReceipts :: nat
  cs_inFlightCommands :: nat
  cs_maxEntries :: nat
  cs_ttlMs :: int

definition cache_stats_of :: "int \<Rightarrow> command_cache \<Rightarrow> command_cache \<times> cache_stats" where
  "cache_stats_of now c0 =
     (let c = purge_expired now c0 in
      (c, \<lparr>cs_cachedReceipts = length (cc_receipts c), cs_inFlightCommands = length (cc_inFlight c),
           cs_maxEntries = cc_maxEntries c, cs_ttlMs = cc_ttlMs c\<rparr>))"

section \<open>Runs and the invariant\<close>

datatype cache_op =
    Cop_execute int jstr jstr
  | Cop_settle int int nat "json option"
  | Cop_finish nat

fun cache_step :: "command_cache \<Rightarrow> cache_op \<Rightarrow> command_cache" where
  "cache_step c (Cop_execute now k fp) = fst (cache_execute now k fp c)"
| "cache_step c (Cop_settle n1 n2 p r) = cache_settle n1 n2 p r c"
| "cache_step c (Cop_finish p) = cache_finish p c"

fun cache_run :: "command_cache \<Rightarrow> cache_op list \<Rightarrow> command_cache" where
  "cache_run c [] = c"
| "cache_run c (x # xs) = cache_run (cache_step c x) xs"

definition running :: "command_cache \<Rightarrow> nat \<Rightarrow> bool" where
  "running c p = (p < length (cc_promises c) \<and> pr_state (cc_promises c ! p) = Running)"

definition promise_id :: "command_cache \<Rightarrow> nat \<Rightarrow> jstr" where
  "promise_id c p = pr_commandId (cc_promises c ! p)"

text \<open>
  The receipts are within the limit; the table in flight points to promises of the same command;
  and every running promise is the one in flight for its command.
\<close>

definition receipts_ok :: "command_cache \<Rightarrow> bool" where
  "receipts_ok c = (jmap_ok (cc_receipts c) \<and> length (cc_receipts c) \<le> cc_maxEntries c)"

definition flight_ok :: "command_cache \<Rightarrow> bool" where
  "flight_ok c =
     (\<forall>k a. jget (cc_inFlight c) k = Some a \<longrightarrow>
        if_promise a < length (cc_promises c) \<and> promise_id c (if_promise a) = k \<and>
        pr_fingerprint (cc_promises c ! if_promise a) = if_fingerprint a)"

definition running_ok :: "command_cache \<Rightarrow> bool" where
  "running_ok c =
     (\<forall>p. running c p \<longrightarrow>
        (\<exists>a. jget (cc_inFlight c) (promise_id c p) = Some a \<and> if_promise a = p))"

definition cache_inv :: "command_cache \<Rightarrow> bool" where
  "cache_inv c =
     (receipts_ok c \<and> jmap_ok (cc_inFlight c) \<and> 1 \<le> cc_maxEntries c \<and> 1 \<le> cc_ttlMs c \<and>
      flight_ok c \<and> running_ok c)"

lemma new_command_cache_inv: "new_command_cache n t = Inr c \<Longrightarrow> cache_inv c"
  by (auto simp: new_command_cache_def cache_inv_def receipts_ok_def flight_ok_def running_ok_def
      running_def result_simps split: option.splits)

lemma trim_receipts_suffix: "\<exists>pre. es = pre @ trim_receipts n es"
  by (induction es) (auto intro: exI [of _ "_ # _"])

lemma trim_receipts_length: "length (trim_receipts n es) \<le> n"
  by (induction es) auto

lemma trim_receipts_id: "length es \<le> n \<Longrightarrow> trim_receipts n es = es"
  by (cases es) auto

lemma trim_receipts_keeps:
  "length post < n \<Longrightarrow> \<exists>pre'. trim_receipts n (pre @ e # post) = pre' @ e # post"
  by (induction pre) (auto simp: trim_receipts_id)

lemma jmap_ok_suffix: "jmap_ok (pre @ m) \<Longrightarrow> jmap_ok m"
  by (simp add: jmap_ok_def)

lemma jmap_ok_trim: "jmap_ok m \<Longrightarrow> jmap_ok (trim_receipts n m)"
  using trim_receipts_suffix [of m n] jmap_ok_suffix by metis

lemma touch_append: "touch k v m = jdel k m @ [(k, v)]"
  by (simp add: touch_def jset_new)

lemma length_touch:
  "jmap_ok m \<Longrightarrow> jget m k = Some v \<Longrightarrow> length (touch k w m) = length m"
  by (cases m) (auto simp: touch_append length_jdel)

lemma jmap_ok_touch: "jmap_ok m \<Longrightarrow> jmap_ok (touch k v m)"
  by (simp add: touch_def)

text \<open>What the methods leave alone.\<close>

lemma purge_fields [simp]:
  "cc_inFlight (purge_expired now c) = cc_inFlight c"
  "cc_promises (purge_expired now c) = cc_promises c"
  "cc_maxEntries (purge_expired now c) = cc_maxEntries c"
  "cc_ttlMs (purge_expired now c) = cc_ttlMs c"
  by (simp_all add: purge_expired_def)

lemma lookup_fields:
  assumes "cache_lookup now k fp c = (c', r)"
  shows "cc_inFlight c' = cc_inFlight c" "cc_promises c' = cc_promises c"
    "cc_maxEntries c' = cc_maxEntries c" "cc_ttlMs c' = cc_ttlMs c"
  using assms by (auto simp: cache_lookup_def Let_def split: sum.splits option.splits if_splits)

lemma remember_fields:
  assumes "cache_remember n1 n2 k fp v c = (c', r)"
  shows "cc_inFlight c' = cc_inFlight c" "cc_promises c' = cc_promises c"
    "cc_maxEntries c' = cc_maxEntries c" "cc_ttlMs c' = cc_ttlMs c"
  using assms by (auto simp: cache_remember_def Let_def split: sum.splits option.splits if_splits)

lemma set_promise_fields [simp]:
  "cc_inFlight (set_promise p st c) = cc_inFlight c"
  "cc_receipts (set_promise p st c) = cc_receipts c"
  "cc_maxEntries (set_promise p st c) = cc_maxEntries c"
  "cc_ttlMs (set_promise p st c) = cc_ttlMs c"
  "length (cc_promises (set_promise p st c)) = length (cc_promises c)"
  by (simp_all add: set_promise_def)

lemma set_promise_ids [simp]:
  "p < length (cc_promises c) \<Longrightarrow> promise_id (set_promise p st c) q = promise_id c q"
  "p < length (cc_promises c) \<Longrightarrow>
     pr_fingerprint (cc_promises (set_promise p st c) ! q) = pr_fingerprint (cc_promises c ! q)"
  "p < length (cc_promises c) \<Longrightarrow> st \<noteq> Running \<Longrightarrow>
     running (set_promise p st c) q \<longleftrightarrow> running c q \<and> q \<noteq> p"
  by (auto simp: set_promise_def promise_id_def running_def nth_list_update)

lemma purge_receipts_ok: "receipts_ok c \<Longrightarrow> receipts_ok (purge_expired now c)"
  by (auto simp: receipts_ok_def purge_expired_def jfilter_def intro: le_trans [OF length_filter_le])

lemma lookup_receipts_ok:
  assumes "receipts_ok c" "cache_lookup now k fp c = (c', r)"
  shows "receipts_ok c'"
proof -
  let ?c = "purge_expired now c"
  have ok: "receipts_ok ?c" by (rule purge_receipts_ok [OF assms(1)])
  then have "receipts_ok (?c\<lparr>cc_receipts := touch k e (cc_receipts ?c)\<rparr>)"
    if "jget (cc_receipts ?c) k = Some e" for e
    using that by (simp add: receipts_ok_def jmap_ok_touch length_touch)
  with ok assms show ?thesis
    by (auto simp: cache_lookup_def Let_def split: sum.splits option.splits if_splits)
qed

lemma remember_receipts_ok:
  assumes "receipts_ok c" "cache_remember n1 n2 k fp v c = (c', r)"
  shows "receipts_ok c'"
  using assms purge_receipts_ok [OF assms(1), of n1]
  by (auto simp: cache_remember_def Let_def receipts_ok_def trim_receipts_length jmap_ok_trim
      jmap_ok_touch split: sum.splits option.splits if_splits)

lemma cache_inv_transfer:
  assumes "cache_inv c" "receipts_ok c'" "cc_inFlight c' = cc_inFlight c"
    "cc_promises c' = cc_promises c" "cc_maxEntries c' = cc_maxEntries c" "cc_ttlMs c' = cc_ttlMs c"
  shows "cache_inv c'"
  using assms by (simp add: cache_inv_def flight_ok_def running_ok_def running_def promise_id_def)

lemma cache_inv_receipts_ok: "cache_inv c \<Longrightarrow> receipts_ok c"
  by (simp add: cache_inv_def)

lemma lookup_inv: "cache_inv c \<Longrightarrow> cache_lookup now k fp c = (c', r) \<Longrightarrow> cache_inv c'"
  using cache_inv_transfer lookup_receipts_ok cache_inv_receipts_ok lookup_fields by metis

lemma remember_inv: "cache_inv c \<Longrightarrow> cache_remember n1 n2 k fp v c = (c', r) \<Longrightarrow> cache_inv c'"
  using cache_inv_transfer remember_receipts_ok cache_inv_receipts_ok remember_fields by metis

lemma start_inv:
  assumes inv: "cache_inv c" and new: "jget (cc_inFlight c) k = None"
  shows "cache_inv (c\<lparr>cc_promises := cc_promises c @
            [\<lparr>pr_commandId = k, pr_fingerprint = fp, pr_state = Running\<rparr>],
          cc_inFlight := jset k \<lparr>if_fingerprint = fp, if_promise = length (cc_promises c)\<rparr> (cc_inFlight c)\<rparr>)"
    (is "cache_inv ?c")
proof -
  have old: "promise_id ?c p = promise_id c p" "running ?c p = running c p"
    "cc_promises ?c ! p = cc_promises c ! p" if "p < length (cc_promises c)" for p
    using that by (auto simp: promise_id_def running_def nth_append)
  have flight: "if_promise a < length (cc_promises c) \<and> promise_id c (if_promise a) = k' \<and>
       pr_fingerprint (cc_promises c ! if_promise a) = if_fingerprint a"
    if "jget (cc_inFlight c) k' = Some a" for k' a
    using inv that unfolding cache_inv_def flight_ok_def by blast
  have act: "\<exists>a. jget (cc_inFlight ?c) (promise_id ?c p) = Some a \<and> if_promise a = p" if "running ?c p" for p
  proof (cases "p < length (cc_promises c)")
    case True
    then have "running c p" using that old by simp
    then obtain a where "jget (cc_inFlight c) (promise_id c p) = Some a" "if_promise a = p"
      using inv unfolding cache_inv_def running_ok_def by blast
    moreover from this new have "promise_id c p \<noteq> k" by auto
    ultimately show ?thesis using old True by simp
  next
    case False
    with that have "p = length (cc_promises c)" by (simp add: running_def)
    then show ?thesis by (simp add: promise_id_def nth_append)
  qed
  have "if_promise a < length (cc_promises ?c) \<and> promise_id ?c (if_promise a) = k' \<and>
       pr_fingerprint (cc_promises ?c ! if_promise a) = if_fingerprint a"
    if "jget (cc_inFlight ?c) k' = Some a" for k' a
  proof (cases "k' = k")
    case True
    with that show ?thesis by (auto simp: promise_id_def)
  next
    case False
    with that have "jget (cc_inFlight c) k' = Some a" by simp
    with flight [of k' a] old [of "if_promise a"] show ?thesis by simp
  qed
  then have "flight_ok ?c" unfolding flight_ok_def by blast
  moreover have "running_ok ?c" using act unfolding running_ok_def by blast
  ultimately show ?thesis using inv by (simp add: cache_inv_def receipts_ok_def)
qed

lemma execute_inv:
  assumes "cache_inv c"
  shows "cache_inv (fst (cache_execute now k fp c))"
proof -
  obtain c' r where l: "cache_lookup now k fp c = (c', r)" by fastforce
  have inv: "cache_inv c'" by (rule lookup_inv [OF assms l])
  show ?thesis using inv start_inv [OF inv, of k fp]
    by (auto simp: cache_execute_def l Let_def split: sum.splits option.splits)
qed

lemma set_promise_inv:
  assumes "cache_inv c" "p < length (cc_promises c)" "st \<noteq> Running"
  shows "cache_inv (set_promise p st c)"
  using assms by (simp add: cache_inv_def flight_ok_def running_ok_def receipts_ok_def)

lemma settle_inv: "cache_inv c \<Longrightarrow> cache_inv (cache_settle n1 n2 p r c)"
  by (auto simp: cache_settle_def set_promise_inv remember_inv remember_fields
      split: option.splits prod.splits sum.splits)

lemma finish_inv:
  assumes "cache_inv c"
  shows "cache_inv (cache_finish p c)"
proof -
  have "cache_inv (c\<lparr>cc_inFlight := jdel (promise_id c p) (cc_inFlight c)\<rparr>)" (is "cache_inv ?c")
    if p: "\<not> running c p" "jget (cc_inFlight c) (promise_id c p) = Some a" "if_promise a = p" for a
  proof -
    have same: "running ?c q = running c q" "promise_id ?c q = promise_id c q" for q
      by (simp_all add: running_def promise_id_def)
    have "running_ok c" using assms by (simp add: cache_inv_def)
    have "\<exists>a. jget (cc_inFlight ?c) (promise_id ?c q) = Some a \<and> if_promise a = q" if "running ?c q" for q
    proof -
      have "running c q" using that same by simp
      then obtain b where b: "jget (cc_inFlight c) (promise_id c q) = Some b" "if_promise b = q"
        using \<open>running_ok c\<close> unfolding running_ok_def by blast
      have "promise_id c q \<noteq> promise_id c p"
      proof
        assume "promise_id c q = promise_id c p"
        with b(1) p(2) have "b = a" by simp
        with b(2) p(3) have "q = p" by simp
        with p(1) \<open>running c q\<close> show False by simp
      qed
      then have "jget (cc_inFlight ?c) (promise_id c q) = Some b" using b(1) by simp
      with b(2) show ?thesis unfolding same by blast
    qed
    then have "running_ok ?c" unfolding running_ok_def by blast
    moreover have "flight_ok ?c"
      using assms unfolding cache_inv_def flight_ok_def promise_id_def by simp
    ultimately show ?thesis using assms unfolding cache_inv_def receipts_ok_def by simp
  qed
  note drop = this
  show ?thesis
  proof (cases "p < length (cc_promises c) \<and> pr_state (cc_promises c ! p) \<noteq> Running")
    case True
    then have idle: "\<not> running c p" by (simp add: running_def)
    show ?thesis
    proof (cases "jget (cc_inFlight c) (promise_id c p)")
      case None
      with True assms show ?thesis by (simp add: cache_finish_def Let_def promise_id_def)
    next
      case (Some a)
      with True assms drop [OF idle Some] show ?thesis
        by (cases "if_promise a = p") (simp_all add: cache_finish_def Let_def promise_id_def)
    qed
  next
    case False
    with assms show ?thesis by (simp only: cache_finish_def if_False)
  qed
qed

lemma cache_step_inv: "cache_inv c \<Longrightarrow> cache_inv (cache_step c x)"
  by (cases x) (simp_all add: execute_inv settle_inv finish_inv)

lemma cache_run_inv: "cache_inv c \<Longrightarrow> cache_inv (cache_run c xs)"
  by (induction xs arbitrary: c) (simp_all add: cache_step_inv)

section \<open>Retention of a receipt\<close>

text \<open>
  \<open>holds k e T c\<close>: the receipt \<open>e\<close> of command \<open>k\<close> is stored, everything more recently used is
  among \<open>T\<close>, and the command is not running.
\<close>

definition holds :: "jstr \<Rightarrow> receipt_entry \<Rightarrow> jstr set \<Rightarrow> command_cache \<Rightarrow> bool" where
  "holds k e T c =
     ((\<exists>pre post. cc_receipts c = pre @ (k, e) # post \<and> fst ` set post \<subseteq> T) \<and>
      (\<forall>p. running c p \<longrightarrow> promise_id c p \<noteq> k))"

fun touched :: "command_cache \<Rightarrow> cache_op \<Rightarrow> jstr set" where
  "touched c (Cop_execute now k fp) = {k}"
| "touched c (Cop_settle n1 n2 p r) = {promise_id c p}"
| "touched c (Cop_finish p) = {}"

fun touched_run :: "command_cache \<Rightarrow> cache_op list \<Rightarrow> jstr set" where
  "touched_run c [] = {}"
| "touched_run c (x # xs) = touched c x \<union> touched_run (cache_step c x) xs"

fun clock_before :: "int \<Rightarrow> cache_op \<Rightarrow> bool" where
  "clock_before t (Cop_execute now k fp) = (now < t)"
| "clock_before t (Cop_settle n1 n2 p r) = (n1 < t)"
| "clock_before t (Cop_finish p) = True"

lemma finite_touched: "finite (touched_run c xs)"
proof (induction xs arbitrary: c)
  case (Cons x xs)
  then show ?case by (cases x) simp_all
qed simp

lemma holds_get:
  assumes "holds k e T c" "jmap_ok (cc_receipts c)"
  shows "jget (cc_receipts c) k = Some e"
proof -
  have "(k, e) \<in> set (cc_receipts c)" using assms(1) by (auto simp: holds_def)
  with assms(2) show ?thesis by (rule jget_in)
qed

lemma holds_receipts:
  assumes "holds k e T c"
  obtains pre post where "cc_receipts c = pre @ (k, e) # post" "fst ` set post \<subseteq> T"
  using assms unfolding holds_def by blast

lemma holds_idle: "holds k e T c \<Longrightarrow> running c p \<Longrightarrow> promise_id c p \<noteq> k"
  by (simp add: holds_def)

lemma holds_mono:
  assumes "holds k e T c" "T \<subseteq> U"
  shows "holds k e U c"
proof -
  obtain pre post where r: "cc_receipts c = pre @ (k, e) # post" "fst ` set post \<subseteq> T"
    by (rule holds_receipts [OF assms(1)])
  have "fst ` set post \<subseteq> U" using r(2) assms(2) by (rule subset_trans)
  with r(1) holds_idle [OF assms(1)] show ?thesis unfolding holds_def by blast
qed

lemma holds_put:
  assumes "holds k e T c" "m = pre @ (k, e) # post" "fst ` set post \<subseteq> T"
  shows "holds k e T (c\<lparr>cc_receipts := m\<rparr>)"
  using assms by (auto simp: holds_def running_def promise_id_def)

lemma holds_purge:
  assumes "holds k e T c" "now < re_expiresAt e"
  shows "holds k e T (purge_expired now c)"
proof -
  obtain pre post where r: "cc_receipts c = pre @ (k, e) # post" "fst ` set post \<subseteq> T"
    using assms(1) by (auto simp: holds_def)
  let ?f = "jfilter (\<lambda>_ e. \<not> re_expiresAt e \<le> now)"
  have "cc_receipts (purge_expired now c) = ?f pre @ (k, e) # ?f post"
    using assms(2) by (simp add: purge_expired_def r(1) jfilter_def)
  moreover have "fst ` set (?f post) \<subseteq> T" using r(2) by (auto simp: set_jfilter)
  moreover have "\<forall>p. running (purge_expired now c) p \<longrightarrow> promise_id (purge_expired now c) p \<noteq> k"
    using assms(1) by (simp add: holds_def running_def promise_id_def)
  ultimately show ?thesis unfolding holds_def by blast
qed

lemma touch_other:
  assumes "m = pre @ (k, e) # post" "fst ` set post \<subseteq> T" "i \<noteq> k" "i \<in> T"
  shows "\<exists>pre' post'. touch i v m = pre' @ (k, e) # post' \<and> fst ` set post' \<subseteq> T"
proof (intro exI conjI)
  show "touch i v m = jdel i pre @ (k, e) # (jdel i post @ [(i, v)])"
    using assms by (simp add: touch_append jdel_def)
  show "fst ` set (jdel i post @ [(i, v)]) \<subseteq> T" using assms by (auto simp: set_jdel)
qed

lemma touch_same: "\<exists>pre' post'. touch k e m = pre' @ (k, e) # post' \<and> fst ` set post' \<subseteq> T"
  by (intro exI [of _ "jdel k m"] exI [of _ "[]"]) (simp add: touch_append)

lemma trim_holds:
  assumes "m = pre @ (k, e) # post" "fst ` set post \<subseteq> T" "jmap_ok m" "finite T" "card T < n"
  shows "\<exists>pre' post'. trim_receipts n m = pre' @ (k, e) # post' \<and> fst ` set post' \<subseteq> T"
proof -
  have "distinct (map fst post)" using assms(1,3) by (simp add: jmap_ok_def)
  then have "length post = card (fst ` set post)" by (metis distinct_card length_map list.set_map)
  also have "\<dots> \<le> card T" by (rule card_mono) (use assms in auto)
  finally show ?thesis using trim_receipts_keeps [of post n pre "(k, e)"] assms by auto
qed

lemma holds_lookup:
  assumes inv: "cache_inv c" and h: "holds k e T c" and now: "now < re_expiresAt e"
    and l: "cache_lookup now i fp c = (c', r)" and T: "i = k \<or> i \<in> T"
  shows "holds k e T c'"
proof -
  let ?c = "purge_expired now c"
  have hc: "holds k e T ?c" by (rule holds_purge [OF h now])
  have ok: "jmap_ok (cc_receipts ?c)"
    using purge_receipts_ok [OF cache_inv_receipts_ok [OF inv]] by (simp add: receipts_ok_def)
  have "holds k e T (?c\<lparr>cc_receipts := touch i x (cc_receipts ?c)\<rparr>)" if x: "jget (cc_receipts ?c) i = Some x" for x
  proof -
    obtain pre post where r: "cc_receipts ?c = pre @ (k, e) # post" "fst ` set post \<subseteq> T"
      by (rule holds_receipts [OF hc])
    have "\<exists>pre' post'. touch i x (cc_receipts ?c) = pre' @ (k, e) # post' \<and> fst ` set post' \<subseteq> T"
    proof (cases "i = k")
      case True
      then have "x = e" using holds_get [OF hc ok] x by simp
      with True show ?thesis by (simp add: touch_same)
    next
      case False
      with T touch_other [OF r] show ?thesis by blast
    qed
    then obtain pre' post' where "touch i x (cc_receipts ?c) = pre' @ (k, e) # post'"
      "fst ` set post' \<subseteq> T" by blast
    then show ?thesis by (rule holds_put [OF hc])
  qed
  with h hc l show ?thesis
    by (auto simp: cache_lookup_def Let_def split: sum.splits option.splits if_splits)
qed

lemma holds_execute:
  assumes inv: "cache_inv c" and h: "holds k e T c" and now: "now < re_expiresAt e"
    and T: "i = k \<or> i \<in> T"
  shows "holds k e T (fst (cache_execute now i fp c))"
proof -
  obtain c' r where l: "cache_lookup now i fp c = (c', r)" by fastforce
  have hc: "holds k e T c'" by (rule holds_lookup [OF inv h now l T])
  have "r \<noteq> Inr None" if "i = k"
    using that l holds_get [OF holds_purge [OF h now]] purge_receipts_ok [OF cache_inv_receipts_ok [OF inv]]
    by (auto simp: cache_lookup_def Let_def receipts_ok_def split: sum.splits option.splits if_splits)
  moreover have "holds k e T (c'\<lparr>cc_promises := cc_promises c' @
          [\<lparr>pr_commandId = i, pr_fingerprint = fp, pr_state = Running\<rparr>], cc_inFlight := fl\<rparr>)"
    if "i \<noteq> k" for fl
    using hc that by (auto simp: holds_def running_def promise_id_def nth_append less_Suc_eq)
  ultimately show ?thesis using hc
    by (auto simp: cache_execute_def l Let_def split: sum.splits option.splits)
qed

lemma holds_set_promise:
  "holds k e T c \<Longrightarrow> p < length (cc_promises c) \<Longrightarrow> st \<noteq> Running \<Longrightarrow> holds k e T (set_promise p st c)"
  by (simp add: holds_def)

lemma holds_remember:
  assumes inv: "cache_inv c" and h: "holds k e T c" and now: "n1 < re_expiresAt e"
    and r: "cache_remember n1 n2 i fp v c = (c', r)" and i: "i \<noteq> k" "i \<in> T"
    and T: "finite T" "card T < cc_maxEntries c"
  shows "holds k e T c'"
proof -
  let ?c = "purge_expired n1 c"
  have hc: "holds k e T ?c" by (rule holds_purge [OF h now])
  have ok: "jmap_ok (cc_receipts ?c)"
    using purge_receipts_ok [OF cache_inv_receipts_ok [OF inv]] by (simp add: receipts_ok_def)
  have "holds k e T (?c\<lparr>cc_receipts := trim_receipts (cc_maxEntries ?c) (touch i x (cc_receipts ?c))\<rparr>)" for x
  proof -
    obtain pre post where r: "cc_receipts ?c = pre @ (k, e) # post" "fst ` set post \<subseteq> T"
      by (rule holds_receipts [OF hc])
    from touch_other [OF r i] obtain pre1 post1 where
      t: "touch i x (cc_receipts ?c) = pre1 @ (k, e) # post1" "fst ` set post1 \<subseteq> T" by blast
    from trim_holds [OF t jmap_ok_touch [OF ok] T(1), of "cc_maxEntries ?c"] T(2)
    obtain pre2 post2 where "trim_receipts (cc_maxEntries ?c) (touch i x (cc_receipts ?c)) = pre2 @ (k, e) # post2"
      "fst ` set post2 \<subseteq> T" by auto
    then show ?thesis by (rule holds_put [OF hc])
  qed
  with h hc r show ?thesis
    by (auto simp: cache_remember_def Let_def split: sum.splits option.splits if_splits)
qed

lemma holds_step:
  assumes inv: "cache_inv c" and h: "holds k e T c" and now: "clock_before (re_expiresAt e) x"
    and tch: "touched c x - {k} \<subseteq> T" and T: "finite T" "card T < cc_maxEntries c"
  shows "holds k e T (cache_step c x)"
proof (cases x)
  case (Cop_execute now i fp)
  then show ?thesis using holds_execute [OF inv h, of now i fp] now tch by auto
next
  case (Cop_settle n1 n2 p r)
  show ?thesis
  proof (cases "running c p")
    case True
    then have p: "p < length (cc_promises c)" "pr_state (cc_promises c ! p) = Running"
      by (simp_all add: running_def)
    have "promise_id c p \<noteq> k" using h True by (simp add: holds_def)
    then have i: "pr_commandId (cc_promises c ! p) \<noteq> k" "pr_commandId (cc_promises c ! p) \<in> T"
      using tch Cop_settle by (auto simp: promise_id_def)
    show ?thesis
    proof (cases r)
      case None
      then show ?thesis using p h by (simp add: Cop_settle cache_settle_def holds_set_promise)
    next
      case (Some v)
      obtain c' y where m: "cache_remember n1 n2 (pr_commandId (cc_promises c ! p))
          (pr_fingerprint (cc_promises c ! p)) v c = (c', y)" by fastforce
      have "holds k e T c'" by (rule holds_remember [OF inv h _ m i T]) (use now Cop_settle in simp)
      moreover have "p < length (cc_promises c')" using p m remember_fields(2) by metis
      ultimately have "holds k e T (set_promise p st c')" if "st \<noteq> Running" for st
        using that holds_set_promise by blast
      then show ?thesis using p by (cases y) (simp_all add: Cop_settle Some cache_settle_def m)
    qed
  next
    case False
    then have "cache_step c x = c" by (simp only: Cop_settle cache_step.simps cache_settle_def running_def if_False)
    with h show ?thesis by simp
  qed
next
  case (Cop_finish p)
  have "holds k e T (c\<lparr>cc_inFlight := fl\<rparr>)" for fl
    using h by (simp add: holds_def running_def promise_id_def)
  with h show ?thesis by (simp add: Cop_finish cache_finish_def Let_def split: option.splits)
qed

lemma cache_step_maxEntries [simp]: "cc_maxEntries (cache_step c x) = cc_maxEntries c"
  by (cases x) (auto simp: cache_execute_def cache_settle_def cache_finish_def Let_def lookup_fields
      remember_fields split: prod.splits sum.splits option.splits)

lemma holds_run:
  assumes "cache_inv c" "holds k e T c" "list_all (clock_before (re_expiresAt e)) xs"
    "touched_run c xs - {k} \<subseteq> T" "finite T" "card T < cc_maxEntries c"
  shows "holds k e T (cache_run c xs)"
  using assms
proof (induction xs arbitrary: c)
  case (Cons x xs)
  have "holds k e T (cache_step c x)" by (rule holds_step) (use Cons.prems in auto)
  then have "holds k e T (cache_run (cache_step c x) xs)"
    by (intro Cons.IH) (use Cons.prems cache_step_inv in auto)
  then show ?case by simp
qed simp

lemma cache_run_maxEntries [simp]: "cc_maxEntries (cache_run c xs) = cc_maxEntries c"
  by (induction xs arbitrary: c) simp_all

lemma single_flight:
  assumes "cache_inv c" "running c p" "running c q" "promise_id c p = promise_id c q"
  shows "p = q"
proof -
  have "running_ok c" using assms(1) by (simp add: cache_inv_def)
  then obtain a b where "jget (cc_inFlight c) (promise_id c p) = Some a" "if_promise a = p"
    "jget (cc_inFlight c) (promise_id c q) = Some b" "if_promise b = q"
    using assms(2,3) unfolding running_ok_def by blast
  with assms(4) show ?thesis by simp
qed

lemma execute_started:
  assumes "cache_inv c" "cache_execute now k fp c = (c', Inr (Exec_started p))"
  shows "jget (cc_receipts (purge_expired now c)) k = None \<and> (\<forall>q. running c q \<longrightarrow> promise_id c q \<noteq> k)"
proof -
  obtain c1 where l: "cache_lookup now k fp c = (c1, Inr None)" "jget (cc_inFlight c1) k = None"
    using assms(2) by (auto simp: cache_execute_def Let_def split: prod.splits sum.splits option.splits if_splits)
  have "jget (cc_receipts (purge_expired now c)) k = None"
    using l(1) by (auto simp: cache_lookup_def Let_def split: sum.splits option.splits if_splits)
  moreover have "jget (cc_inFlight c) k = None" using l lookup_fields(1) [OF l(1)] by simp
  then have "promise_id c q \<noteq> k" if "running c q" for q
    using assms(1) that unfolding cache_inv_def running_ok_def by fastforce
  ultimately show ?thesis by blast
qed

lemma settle_holds:
  assumes inv: "cache_inv c" and run: "running c p" and st: "cache_settle n1 n2 p (Some r) c = c1"
    and res: "pr_state (cc_promises c1 ! p) = Resolved v"
  shows "v = r \<and> identifier_ok MAX_ID_LENGTH (promise_id c p) \<and>
    holds (promise_id c p) \<lparr>re_fingerprint = pr_fingerprint (cc_promises c ! p), re_receipt = r,
      re_expiresAt = n2 + cc_ttlMs c\<rparr> {} c1"
proof -
  let ?k = "pr_commandId (cc_promises c ! p)" and ?f = "pr_fingerprint (cc_promises c ! p)"
  let ?e = "\<lparr>re_fingerprint = ?f, re_receipt = r, re_expiresAt = n2 + cc_ttlMs c\<rparr>"
  note p = run [unfolded running_def]
  obtain c2 x where m: "cache_remember n1 n2 ?k ?f r c = (c2, x)" by fastforce
  have len: "p < length (cc_promises c2)" using p m remember_fields(2) by metis
  then have x: "x = Inr v" "c1 = set_promise p (Resolved v) c2"
    using st res p by (auto simp: cache_settle_def m set_promise_def split: sum.splits)
  have ok: "v = r" "identifier_ok MAX_ID_LENGTH ?k"
    "cc_receipts c2 = trim_receipts (cc_maxEntries c) (touch ?k ?e (cc_receipts (purge_expired n1 c)))"
    using m x(1) by (auto simp: cache_remember_def check_descriptor_def Let_def result_simps
        split: sum.splits option.splits if_splits)
  have "\<exists>pre. cc_receipts c2 = pre @ [(?k, ?e)]"
    using trim_receipts_keeps [of "[]" "cc_maxEntries c" _ "(?k, ?e)"] inv
    by (simp add: ok(3) touch_append cache_inv_def)
  moreover have "promise_id c1 q \<noteq> ?k" if "running c1 q" for q
  proof -
    have same: "cc_promises c2 = cc_promises c" using m remember_fields(2) by metis
    have "running c2 q \<and> q \<noteq> p" "promise_id c1 q = promise_id c2 q"
      using that len by (simp_all add: x(2))
    then have "running c q \<and> q \<noteq> p" "promise_id c1 q = promise_id c q"
      by (simp_all add: running_def promise_id_def same)
    with single_flight [OF inv run, of q] show ?thesis by (auto simp: promise_id_def)
  qed
  ultimately show ?thesis using ok by (auto simp: holds_def promise_id_def x(2))
qed

section \<open>Properties\<close>

text \<open>
  C4. At most one execution of a command id is under way: in every state the cache can reach, two
  running executors never share a command id, \<open>execute\<close> starts an executor only when none is
  running for that id and no unexpired receipt is stored for it, and the number of stored receipts
  stays within the limit.
\<close>

theorem command_cache_single_flight:
  assumes "new_command_cache max_entries ttl = Inr c0" and "c = cache_run c0 ops"
  shows "(\<forall>p q. running c p \<and> running c q \<and> promise_id c p = promise_id c q \<longrightarrow> p = q) \<and>
    (\<forall>now k fp c' p. cache_execute now k fp c = (c', Inr (Exec_started p)) \<longrightarrow>
       jget (cc_receipts (purge_expired now c)) k = None \<and> (\<forall>q. running c q \<longrightarrow> promise_id c q \<noteq> k)) \<and>
    length (cc_receipts c) \<le> cc_maxEntries c0"
proof -
  have inv: "cache_inv c" using cache_run_inv [OF new_command_cache_inv [OF assms(1)]] assms(2) by simp
  then have "length (cc_receipts c) \<le> cc_maxEntries c0"
    using assms(2) by (simp add: cache_inv_def receipts_ok_def)
  with single_flight [OF inv] execute_started [OF inv] show ?thesis by blast
qed

definition example_fp :: jstr where "example_fp = replicate 64 97"

lemma example_fp_ok [simp]: "fingerprint_ok example_fp"
  by (simp add: fingerprint_ok_def example_fp_def is_digit_unit_def list_all_iff)

theorem command_cache_single_flight_witness:
  "\<exists>c0. new_command_cache (Some (JInt 2)) (Some (JInt 1000)) = Inr c0 \<and>
     running (cache_run c0 [Cop_execute 5 (js ''a'') example_fp]) 0 \<and>
     length (cc_receipts (cache_run c0 [Cop_execute 5 (js ''a'') example_fp])) \<le> cc_maxEntries c0"
proof -
  let ?c0 = "\<lparr>cc_maxEntries = 2, cc_ttlMs = 1000, cc_receipts = [], cc_inFlight = [], cc_promises = []\<rparr>"
  have c0: "new_command_cache (Some (JInt 2)) (Some (JInt 1000)) = Inr ?c0"
    by (simp add: new_command_cache_def exec_simps)
  have "running (cache_run ?c0 [Cop_execute 5 (js ''a'') example_fp]) 0"
    by (simp add: running_def cache_execute_def cache_lookup_def check_descriptor_def purge_expired_def
        Let_def exec_simps)
  with command_cache_single_flight [OF c0 refl, of "[Cop_execute 5 (js ''a'') example_fp]"] c0
  show ?thesis by blast
qed

text \<open>
  C22. A settled command is answered from the cache: once an executor's receipt has been stored, then
  until the receipt expires, and as long as fewer than \<open>maxEntries\<close> other command ids are used
  meanwhile, every retry of the command gets exactly that receipt, and reusing its id for different
  content is refused. Eviction takes the least recently used receipt, never this one.
\<close>

theorem command_cache_receipt_retained:
  assumes "new_command_cache max_entries ttl = Inr c0" and "c = cache_run c0 ops"
    and "running c p" and "cache_settle n1 n2 p (Some r) c = c1"
    and "pr_state (cc_promises c1 ! p) = Resolved v"
    and "list_all (clock_before (n2 + cc_ttlMs c)) later"
    and "card (touched_run c1 later - {promise_id c p}) < cc_maxEntries c"
    and "now < n2 + cc_ttlMs c" and "fingerprint_ok fp"
  shows "snd (cache_execute now (promise_id c p) fp (cache_run c1 later)) =
    (if fp = pr_fingerprint (cc_promises c ! p) then Inr (Exec_cached r)
     else Inl Cce_command_id_conflict)"
proof -
  let ?e = "\<lparr>re_fingerprint = pr_fingerprint (cc_promises c ! p), re_receipt = r,
    re_expiresAt = n2 + cc_ttlMs c\<rparr>"
  let ?T = "touched_run c1 later - {promise_id c p}" and ?d = "cache_run c1 later"
  have inv: "cache_inv c" using cache_run_inv [OF new_command_cache_inv [OF assms(1)]] assms(2) by simp
  have inv1: "cache_inv c1" using settle_inv [OF inv] assms(4) by blast
  have max: "cc_maxEntries c1 = cc_maxEntries c"
    using cache_step_maxEntries [of c "Cop_settle n1 n2 p (Some r)"] assms(4) by simp
  have id: "identifier_ok MAX_ID_LENGTH (promise_id c p)" and h: "holds (promise_id c p) ?e {} c1"
    using settle_holds [OF inv assms(3,4,5)] by auto
  have "holds (promise_id c p) ?e ?T c1" by (rule holds_mono [OF h]) simp
  then have "holds (promise_id c p) ?e ?T ?d"
    by (intro holds_run) (use inv1 assms(6,7) max finite_touched in simp_all)
  then have hd: "holds (promise_id c p) ?e ?T (purge_expired now ?d)"
    by (rule holds_purge) (use assms(8) in simp)
  have "jmap_ok (cc_receipts (purge_expired now ?d))"
    using purge_receipts_ok [OF cache_inv_receipts_ok [OF cache_run_inv [OF inv1]]]
    by (simp add: receipts_ok_def)
  then have get: "jget (cc_receipts (purge_expired now ?d)) (promise_id c p) = Some ?e"
    by (rule holds_get [OF hd])
  show ?thesis using id assms(9)
    by (simp add: cache_execute_def cache_lookup_def check_descriptor_def get Let_def)
qed

theorem command_cache_receipt_retained_witness:
  "\<exists>c0 c1. new_command_cache (Some (JInt 2)) (Some (JInt 1000)) = Inr c0 \<and>
     c1 = cache_settle 6 6 0 (Some (JObj [])) (cache_run c0 [Cop_execute 5 (js ''a'') example_fp]) \<and>
     snd (cache_execute 8 (js ''a'') example_fp
       (cache_run c1 [Cop_finish 0, Cop_execute 7 (js ''b'') example_fp])) = Inr (Exec_cached (JObj []))"
proof -
  let ?init = "\<lparr>cc_maxEntries = 2, cc_ttlMs = 1000, cc_receipts = [], cc_inFlight = [], cc_promises = []\<rparr>"
  let ?started = "cache_run ?init [Cop_execute 5 (js ''a'') example_fp]"
  let ?later = "[Cop_finish 0, Cop_execute 7 (js ''b'') example_fp]"
  have c0: "new_command_cache (Some (JInt 2)) (Some (JInt 1000)) = Inr ?init"
    by (simp add: new_command_cache_def exec_simps)
  note defs = Let_def cache_execute_def cache_lookup_def check_descriptor_def purge_expired_def cache_settle_def
    cache_remember_def set_promise_def touch_def promise_id_def exec_simps
  have c: "?started = \<lparr>cc_maxEntries = 2, cc_ttlMs = 1000, cc_receipts = [],
      cc_inFlight = [(js ''a'', \<lparr>if_fingerprint = example_fp, if_promise = 0\<rparr>)],
      cc_promises = [\<lparr>pr_commandId = js ''a'', pr_fingerprint = example_fp, pr_state = Running\<rparr>]\<rparr>"
    by (simp add: defs)
  have run: "running ?started 0" unfolding c by (simp add: running_def)
  have res: "pr_state (cc_promises (cache_settle 6 6 0 (Some (JObj [])) ?started) ! 0) = Resolved (JObj [])"
    unfolding c by (simp add: defs)
  have ids: "promise_id ?started 0 = js ''a''" "pr_fingerprint (cc_promises ?started ! 0) = example_fp"
    unfolding c by (simp_all add: promise_id_def)
  have cfg: "cc_maxEntries ?started = 2" "cc_ttlMs ?started = 1000" unfolding c by simp_all
  have "card (touched_run (cache_settle 6 6 0 (Some (JObj [])) ?started) ?later - {promise_id ?started 0})
      < cc_maxEntries ?started"
    unfolding ids cfg by simp
  from command_cache_receipt_retained [OF c0 refl run refl res _ this _ example_fp_ok, of 8]
  have "snd (cache_execute 8 (promise_id ?started 0) example_fp
      (cache_run (cache_settle 6 6 0 (Some (JObj [])) ?started) ?later)) = Inr (Exec_cached (JObj []))"
    unfolding ids cfg by simp
  with c0 show ?thesis unfolding ids by blast
qed

text \<open>
  C27. The fingerprint of a command does not depend on the order in which its JSON was written: two
  bodies that differ only in the order of object properties, at any depth, have one fingerprint, so
  a retry that was serialized again is recognised.
\<close>

theorem fingerprint_order_independent:
  assumes "same_value v w"
  shows "fingerprint_command sha256_hex v = fingerprint_command sha256_hex w"
  by (simp add: fingerprint_command_def canonicalize_same [OF assms])

theorem fingerprint_order_independent_witness:
  "fingerprint_command (\<lambda>bs. replicate 64 97)
     (JObj [(js ''a'', JObj [(js ''x'', JInt 1), (js ''y'', JInt 2)]), (js ''b'', JNull)]) =
   fingerprint_command (\<lambda>bs. replicate 64 97)
     (JObj [(js ''b'', JNull), (js ''a'', JObj [(js ''y'', JInt 2), (js ''x'', JInt 1)])])"
proof (rule fingerprint_order_independent)
  have "same_value (JObj [(js ''x'', JInt 1), (js ''y'', JInt 2)]) (JObj [(js ''y'', JInt 2), (js ''x'', JInt 1)])"
    by (rule Same_object [where qs = "[(js ''x'', JInt 1), (js ''y'', JInt 2)]"]) (simp_all add: Same_leaf)
  then show "same_value (JObj [(js ''a'', JObj [(js ''x'', JInt 1), (js ''y'', JInt 2)]), (js ''b'', JNull)])
     (JObj [(js ''b'', JNull), (js ''a'', JObj [(js ''y'', JInt 2), (js ''x'', JInt 1)])])"
    by (intro Same_object [where qs = "[(js ''a'', JObj [(js ''y'', JInt 2), (js ''x'', JInt 1)]), (js ''b'', JNull)]"])
      (simp_all add: Same_leaf)
qed

text \<open>
  A property named \<^verbatim>\<open>__proto__\<close> is not part of the fingerprint: adding one to an object, with
  any value, leaves the fingerprint unchanged, so a command id reused with different content in that
  property is answered from the cache instead of being refused as a conflict.
\<close>

theorem fingerprint_ignores_proto:
  "fingerprint_command sha256_hex (JObj (ps @ [(js ''__proto__'', v)])) =
   fingerprint_command sha256_hex (JObj ps)"
proof -
  have "filter (\<lambda>p. fst p \<noteq> k) (sort_key fst (xs @ [(k, w)])) = filter (\<lambda>p. fst p \<noteq> k) (sort_key fst xs)"
    for k :: jstr and w :: json and xs
    by (simp add: filter_sort)
  then show ?thesis by (simp add: fingerprint_command_def)
qed

end
