(* ===== verification/Command_Router.thy ===== *)
theory Command_Router
  imports Command_Cache
begin

text \<open>
  Dispatch of companion commands, \<open>electron/companion/commandRouter.cjs\<close>. \<open>route\<close> validates the
  frame and runs an executor through the command cache; the executor checks the capabilities,
  calls the handler and turns its result into a receipt. The handlers are code of other modules:
  here they are the set of registered names, and the result a handler returns is an input of the
  step that continues after its await.
\<close>

section \<open>Receipts\<close>

definition receipt :: "jstr \<Rightarrow> json \<Rightarrow> jstr \<Rightarrow> json option \<Rightarrow> json" where
  "receipt command_id status message payload =
     JObj ([(js ''type'', JStr (js ''command.receipt'')), (js ''commandId'', JStr command_id),
            (js ''status'', status), (js ''message'', JStr message)] @
           (if truthy payload then [(js ''payload'', the payload)] else []))"

definition text_of :: "capability table_lookup \<Rightarrow> jstr" where
  "text_of required = (case required of Own c \<Rightarrow> js (capability_text c) | _ \<Rightarrow> js ''requested'')"

text \<open>The receipt for what a handler returned; \<open>None\<close> is \<open>undefined\<close>.\<close>

definition handler_receipt :: "jstr \<Rightarrow> json option \<Rightarrow> json" where
  "handler_receipt command_id result =
     (let object = (case result of Some (JObj _) \<Rightarrow> True | Some (JArr _) \<Rightarrow> True | _ \<Rightarrow> False) in
      if \<not> object then receipt command_id (JStr (js ''applied'')) (js ''Command applied.'') None
      else
        let v = the result;
            refused = (field v ''ok'' = Some (JBool False));
            status = (if nullish (field v ''status'')
                      then JStr (if refused then js ''rejected'' else js ''applied'')
                      else the (field v ''status''));
            message = (if nullish (field v ''message'')
                       then (if refused then js ''Command rejected.'' else js ''Command applied.'')
                       else string_of (the (field v ''message''))) in
        receipt command_id status (take 800 message) (field v ''payload''))"

section \<open>State\<close>

datatype route_error =
    Route_protocol protocol_error
  | Route_not_command
  | Route_cache command_cache_error

text \<open>
  An executor that has not started, is awaiting its handler, or has ended with a receipt or an
  exception (\<open>None\<close>).
\<close>

datatype executor_phase = Waiting | In_handler | Ended "json option"

record executor =
  ex_body :: json
  ex_required :: "capability table_lookup"
  ex_granted :: "json list"
  ex_phase :: executor_phase

text \<open>
  \<open>rt_executors\<close> holds the closures passed to the cache, by the promise they run under, and
  \<open>rt_calls\<close> records every handler call: the promise and the command type.
\<close>

record router =
  rt_cache :: command_cache
  rt_enabled :: "jstr list"
  rt_handlers :: "jstr list"
  rt_executors :: "(nat, executor) jmap"
  rt_calls :: "(nat \<times> jstr) list"

definition new_router :: "command_cache \<Rightarrow> jstr list \<Rightarrow> jstr list \<Rightarrow> router" where
  "new_router cache enabled handlers =
     \<lparr>rt_cache = cache, rt_enabled = enabled, rt_handlers = handlers, rt_executors = [], rt_calls = []\<rparr>"

record route_device =
  rd_deviceId :: "json option"
  rd_capabilities :: "json option"

section \<open>Operations\<close>

text \<open>\<open>route\<close> up to its first await.\<close>

definition route_begin ::
  "(bytes \<Rightarrow> jstr) \<Rightarrow> int \<Rightarrow> json \<Rightarrow> route_device \<Rightarrow> router \<Rightarrow> router \<times> (route_error + execute_result)" where
  "route_begin sha256_hex now frame device r =
     (case validate_envelope PROTOCOL_VERSION frame of
        Inl e \<Rightarrow> (r, Inl (Route_protocol e))
      | Inr clean \<Rightarrow>
          if kind_of (field clean ''kind'') \<noteq> Some Command then (r, Inl Route_not_command)
          else
            case validate_identifier MAX_ID_LENGTH (rd_deviceId device) of
              Inl e \<Rightarrow> (r, Inl (Route_protocol e))
            | Inr _ \<Rightarrow>
                let body = env_body (view_envelope clean);
                    granted = (case as_arr (rd_capabilities device) of Some cs \<Rightarrow> cs | None \<Rightarrow> []);
                    required = required_capability (the_str (field body ''type''));
                    command_id = the_str (field body ''commandId'') in
                case cache_execute now command_id (fingerprint_command sha256_hex body) (rt_cache r) of
                  (c, Inl e) \<Rightarrow> (r\<lparr>rt_cache := c\<rparr>, Inl (Route_cache e))
                | (c, Inr (Exec_started p)) \<Rightarrow>
                    (r\<lparr>rt_cache := c, rt_executors := jset p
                         \<lparr>ex_body = body, ex_required = required, ex_granted = granted,
                          ex_phase = Waiting\<rparr> (rt_executors r)\<rparr>, Inr (Exec_started p))
                | (c, Inr x) \<Rightarrow> (r\<lparr>rt_cache := c\<rparr>, Inr x))"

text \<open>What the executor does up to the await on its handler.\<close>

datatype executor_decision = Answer json | Call_handler jstr

definition executor_action :: "router \<Rightarrow> executor \<Rightarrow> executor_decision" where
  "executor_action r x =
     (let ty = the_str (field (ex_body x) ''type'');
          command_id = the_str (field (ex_body x) ''commandId'') in
      case ex_required x of
        Own c \<Rightarrow>
          if JStr (js (capability_text c)) \<notin> set (ex_granted x)
          then Answer (receipt command_id (JStr (js ''rejected''))
                 (text_of (ex_required x) @ js '' capability is not granted to this device.'') None)
          else if js (capability_text c) \<notin> set (rt_enabled r)
          then Answer (receipt command_id (JStr (js ''unavailable''))
                 (text_of (ex_required x) @ js '' is disabled in this companion build.'') None)
          else if ty \<notin> set (rt_handlers r)
          then Answer (receipt command_id (JStr (js ''unavailable'')) (ty @ js '' is not available.'') None)
          else Call_handler ty
      | _ \<Rightarrow> Answer (receipt command_id (JStr (js ''rejected''))
               (text_of (ex_required x) @ js '' capability is not granted to this device.'') None))"

definition set_executor :: "nat \<Rightarrow> executor_phase \<Rightarrow> executor \<Rightarrow> router \<Rightarrow> router" where
  "set_executor p phase x r = r\<lparr>rt_executors := jset p (x\<lparr>ex_phase := phase\<rparr>) (rt_executors r)\<rparr>"

definition executor_start :: "nat \<Rightarrow> router \<Rightarrow> router" where
  "executor_start p r =
     (case jget (rt_executors r) p of
        None \<Rightarrow> r
      | Some x \<Rightarrow>
          if ex_phase x \<noteq> Waiting then r
          else case executor_action r x of
                 Answer v \<Rightarrow> set_executor p (Ended (Some v)) x r
               | Call_handler ty \<Rightarrow>
                   set_executor p In_handler x (r\<lparr>rt_calls := rt_calls r @ [(p, ty)]\<rparr>))"

text \<open>
  The handler's promise has settled: \<open>Some result\<close> if it returned \<open>result\<close>, \<open>None\<close> if it threw.
\<close>

definition executor_resume :: "nat \<Rightarrow> json option option \<Rightarrow> router \<Rightarrow> router" where
  "executor_resume p outcome r =
     (case jget (rt_executors r) p of
        None \<Rightarrow> r
      | Some x \<Rightarrow>
          if ex_phase x \<noteq> In_handler then r
          else set_executor p
                 (Ended (map_option (handler_receipt (the_str (field (ex_body x) ''commandId''))) outcome)) x r)"

definition route_settle :: "int \<Rightarrow> int \<Rightarrow> nat \<Rightarrow> router \<Rightarrow> router" where
  "route_settle n1 n2 p r =
     (case jget (rt_executors r) p of
        None \<Rightarrow> r
      | Some x \<Rightarrow>
          (case ex_phase x of
             Ended outcome \<Rightarrow> r\<lparr>rt_cache := cache_settle n1 n2 p outcome (rt_cache r)\<rparr>
           | _ \<Rightarrow> r))"

definition route_finish :: "nat \<Rightarrow> router \<Rightarrow> router" where
  "route_finish p r = r\<lparr>rt_cache := cache_finish p (rt_cache r)\<rparr>"

record router_stats =
  rs_enabledCapabilities :: "jstr list"
  rs_handlers :: "jstr list"
  rs_cache :: cache_stats

definition router_stats_of :: "int \<Rightarrow> router \<Rightarrow> router \<times> router_stats" where
  "router_stats_of now r =
     (let (c, st) = cache_stats_of now (rt_cache r) in
      (r\<lparr>rt_cache := c\<rparr>,
       \<lparr>rs_enabledCapabilities = sort (remdups (rt_enabled r)), rs_handlers = sort (rt_handlers r),
        rs_cache = st\<rparr>))"

section \<open>Reachable states\<close>

inductive router_step :: "(bytes \<Rightarrow> jstr) \<Rightarrow> router \<Rightarrow> router \<Rightarrow> bool" for h where
  Step_route: "route_begin h now frame device r = (r', res) \<Longrightarrow> router_step h r r'"
| Step_start: "router_step h r (executor_start p r)"
| Step_resume: "router_step h r (executor_resume p outcome r)"
| Step_settle: "router_step h r (route_settle n1 n2 p r)"
| Step_finish: "router_step h r (route_finish p r)"
| Step_stats: "router_stats_of now r = (r', st) \<Longrightarrow> router_step h r r'"

inductive router_reach :: "(bytes \<Rightarrow> jstr) \<Rightarrow> router \<Rightarrow> router \<Rightarrow> bool" for h r0 where
  Reach_start: "router_reach h r0 r0"
| Reach_step: "router_reach h r0 r \<Longrightarrow> router_step h r r' \<Longrightarrow> router_reach h r0 r'"

inductive_cases router_stepE: "router_step h r r'"

section \<open>The invariant\<close>

definition permitted :: "router \<Rightarrow> executor \<Rightarrow> jstr \<Rightarrow> bool" where
  "permitted r x ty =
     (\<exists>t c. (t, c) \<in> set COMMAND_CAPABILITIES \<and> ty = js t \<and>
        field (ex_body x) ''type'' = Some (JStr (js t)) \<and>
        field (ex_body x) ''capability'' = Some (JStr (js (capability_text c))) \<and>
        JStr (js (capability_text c)) \<in> set (ex_granted x) \<and>
        js (capability_text c) \<in> set (rt_enabled r) \<and> ty \<in> set (rt_handlers r))"

definition executor_ok :: "command_cache \<Rightarrow> nat \<Rightarrow> executor \<Rightarrow> bool" where
  "executor_ok c p x =
     (p < length (cc_promises c) \<and> field (ex_body x) ''commandId'' = Some (JStr (promise_id c p)) \<and>
      (\<exists>t cap. (t, cap) \<in> set COMMAND_CAPABILITIES \<and> ex_required x = Own cap \<and>
         field (ex_body x) ''type'' = Some (JStr (js t)) \<and>
         field (ex_body x) ''capability'' = Some (JStr (js (capability_text cap)))) \<and>
      ((\<forall>v. ex_phase x \<noteq> Ended v) \<longrightarrow> running c p))"

definition router_inv :: "router \<Rightarrow> bool" where
  "router_inv r =
     (cache_inv (rt_cache r) \<and>
      (\<forall>p x. jget (rt_executors r) p = Some x \<longrightarrow> executor_ok (rt_cache r) p x) \<and>
      distinct (map fst (rt_calls r)) \<and>
      (\<forall>p ty. (p, ty) \<in> set (rt_calls r) \<longrightarrow>
         (\<exists>x. jget (rt_executors r) p = Some x \<and> ex_phase x \<noteq> Waiting \<and> permitted r x ty)))"

lemma execute_promises:
  assumes "cache_execute now k fp c = (c', r)"
  shows "(\<exists>p. r = Inr (Exec_started p) \<and> p = length (cc_promises c) \<and> cc_promises c' =
       cc_promises c @ [\<lparr>pr_commandId = k, pr_fingerprint = fp, pr_state = Running\<rparr>]) \<or>
    (\<forall>p. r \<noteq> Inr (Exec_started p)) \<and> cc_promises c' = cc_promises c"
  using assms
  by (auto simp: cache_execute_def Let_def lookup_fields split: prod.splits sum.splits option.splits
      if_splits)

lemma executor_ok_same:
  "executor_ok c p x \<Longrightarrow> cc_promises c' = cc_promises c \<Longrightarrow> executor_ok c' p x"
  by (simp add: executor_ok_def running_def promise_id_def)

lemma executor_ok_append:
  "executor_ok c p x \<Longrightarrow> cc_promises c' = cc_promises c @ ys \<Longrightarrow> executor_ok c' p x"
  by (auto simp: executor_ok_def running_def promise_id_def nth_append)

lemma remember_same:
  "cache_remember n1 n2 k fp v c = (c', r) \<Longrightarrow> promise_id c' q = promise_id c q \<and> running c' q = running c q"
  by (simp add: promise_id_def running_def remember_fields)

lemma settle_promises:
  "length (cc_promises (cache_settle n1 n2 p v c)) = length (cc_promises c)"
  "promise_id (cache_settle n1 n2 p v c) q = promise_id c q"
  "q \<noteq> p \<Longrightarrow> running (cache_settle n1 n2 p v c) q = running c q"
proof -
  have "length (cc_promises (cache_settle n1 n2 p v c)) = length (cc_promises c) \<and>
    promise_id (cache_settle n1 n2 p v c) q = promise_id c q \<and>
    (q \<noteq> p \<longrightarrow> running (cache_settle n1 n2 p v c) q = running c q)"
    by (auto simp: cache_settle_def remember_fields dest: remember_same
        split: option.splits prod.splits sum.splits)
  then show "length (cc_promises (cache_settle n1 n2 p v c)) = length (cc_promises c)"
    "promise_id (cache_settle n1 n2 p v c) q = promise_id c q"
    "q \<noteq> p \<Longrightarrow> running (cache_settle n1 n2 p v c) q = running c q" by auto
qed

lemma finish_promises [simp]: "cc_promises (cache_finish p c) = cc_promises c"
  by (simp add: cache_finish_def Let_def split: option.splits)

lemma permitted_same [simp]:
  "permitted (r\<lparr>rt_cache := c\<rparr>) x ty = permitted r x ty"
  "permitted (r\<lparr>rt_executors := m\<rparr>) x ty = permitted r x ty"
  "permitted (r\<lparr>rt_cache := c, rt_executors := m\<rparr>) x ty = permitted r x ty"
  "permitted (r\<lparr>rt_calls := cs\<rparr>) x ty = permitted r x ty"
  "permitted r (x\<lparr>ex_phase := ph\<rparr>) ty = permitted r x ty"
  by (simp_all add: permitted_def)

lemma router_inv_cache:
  assumes "router_inv r" "cache_inv c"
    and "\<And>p x. executor_ok (rt_cache r) p x \<Longrightarrow> jget (rt_executors r) p = Some x \<Longrightarrow> executor_ok c p x"
  shows "router_inv (r\<lparr>rt_cache := c\<rparr>)"
  using assms by (simp add: router_inv_def)

lemma route_begin_inv:
  assumes inv: "router_inv r" and st: "route_begin h now frame device r = (r', res)"
  shows "router_inv r'"
proof (cases "r' = r")
  case False
  let ?e = "view_envelope frame"
  let ?id = "the_str (field (env_body ?e) ''commandId'')"
  let ?req = "required_capability (the_str (field (env_body ?e) ''type''))"
  obtain c y where ex: "cache_execute now ?id (fingerprint_command h (env_body ?e)) (rt_cache r) = (c, y)"
    by fastforce
  have env: "envelope_ok PROTOCOL_VERSION frame" and kind: "kind_of (field frame ''kind'') = Some Command"
    and r': "r' = r\<lparr>rt_cache := c\<rparr> \<and> (\<forall>p. y \<noteq> Inr (Exec_started p)) \<or>
      (\<exists>p g. y = Inr (Exec_started p) \<and> r' = r\<lparr>rt_cache := c, rt_executors := jset p
         \<lparr>ex_body = env_body ?e, ex_required = ?req, ex_granted = g, ex_phase = Waiting\<rparr> (rt_executors r)\<rparr>)"
    using st False
    by (auto simp: route_begin_def validate_envelope_Inr ex Let_def simp del: kind_of_Some
        split: sum.splits if_splits execute_result.splits option.splits)
  have "env_kind ?e = Command" using kind by (simp add: view_envelope_def del: kind_of_Some)
  from envelope_ok_command [OF env this] obtain t cap where cmd: "(t, cap) \<in> set COMMAND_CAPABILITIES"
    "required_capability (js t) = Own cap" "field (env_body ?e) ''type'' = Some (JStr (js t))"
    "field (env_body ?e) ''capability'' = Some (JStr (js (capability_text cap)))"
    "field (env_body ?e) ''commandId'' = Some (JStr (env_id ?e))" by blast
  have "cache_inv c" using execute_inv [of "rt_cache r" now ?id] inv ex
    by (metis fst_conv router_inv_def)
  from execute_promises [OF ex] r' show ?thesis
  proof (elim disjE exE conjE)
    assume "cc_promises c = cc_promises (rt_cache r)" "r' = r\<lparr>rt_cache := c\<rparr>"
    then show ?thesis using router_inv_cache [OF inv \<open>cache_inv c\<close>] executor_ok_same by metis
  next
    fix p q g
    assume y: "y = Inr (Exec_started p)" "p = length (cc_promises (rt_cache r))"
      and c: "cc_promises c = cc_promises (rt_cache r) @
        [\<lparr>pr_commandId = ?id, pr_fingerprint = fingerprint_command h (env_body ?e), pr_state = Running\<rparr>]"
      and "y = Inr (Exec_started q)"
      and "r' = r\<lparr>rt_cache := c, rt_executors := jset q
         \<lparr>ex_body = env_body ?e, ex_required = ?req, ex_granted = g, ex_phase = Waiting\<rparr> (rt_executors r)\<rparr>"
    then have r': "r' = r\<lparr>rt_cache := c, rt_executors := jset p
         \<lparr>ex_body = env_body ?e, ex_required = Own cap, ex_granted = g, ex_phase = Waiting\<rparr> (rt_executors r)\<rparr>"
      using cmd by simp
    have "executor_ok c p \<lparr>ex_body = env_body ?e, ex_required = Own cap, ex_granted = g, ex_phase = Waiting\<rparr>"
      using cmd by (auto simp: executor_ok_def running_def promise_id_def c y)
    moreover have "executor_ok c q x" if "jget (rt_executors r) q = Some x" for q x
      using inv that executor_ok_append [OF _ c] by (simp add: router_inv_def)
    moreover have "q \<noteq> p" if "(q, ty) \<in> set (rt_calls r)" for q ty
      using inv that y(2) by (fastforce simp: router_inv_def executor_ok_def)
    ultimately show ?thesis using inv \<open>cache_inv c\<close> by (fastforce simp: router_inv_def r')
  qed auto
qed (use inv in simp)

lemma set_executor_inv:
  assumes inv: "router_inv r" and x: "jget (rt_executors r) p = Some x"
    and ph: "ph \<noteq> Waiting" "(\<forall>v. ph \<noteq> Ended v) \<Longrightarrow> running (rt_cache r) p"
  shows "router_inv (set_executor p ph x r)"
proof -
  have "executor_ok (rt_cache r) p x" using inv x by (simp add: router_inv_def)
  then have "executor_ok (rt_cache r) p (x\<lparr>ex_phase := ph\<rparr>)" using ph by (auto simp: executor_ok_def)
  then show ?thesis using inv x ph(1) by (fastforce simp: router_inv_def set_executor_def)
qed

lemma executor_action_permitted:
  assumes "executor_ok c p x" "executor_action r x = Call_handler ty"
  shows "permitted r x ty"
  using assms
  by (auto simp: executor_ok_def executor_action_def permitted_def Let_def split: if_splits)

lemma executor_start_inv:
  assumes inv: "router_inv r"
  shows "router_inv (executor_start p r)"
proof (cases "jget (rt_executors r) p")
  case (Some x)
  show ?thesis
  proof (cases "ex_phase x = Waiting")
    case True
    have ok: "executor_ok (rt_cache r) p x" using inv Some by (simp add: router_inv_def)
    then have run: "running (rt_cache r) p" using True by (simp add: executor_ok_def)
    show ?thesis
    proof (cases "executor_action r x")
      case (Answer v)
      with Some True set_executor_inv [OF inv Some, of "Ended (Some v)"] show ?thesis
        by (simp add: executor_start_def)
    next
      case (Call_handler ty)
      let ?r = "set_executor p In_handler x r"
      let ?s = "set_executor p In_handler x (r\<lparr>rt_calls := rt_calls r @ [(p, ty)]\<rparr>)"
      have "router_inv ?r" using set_executor_inv [OF inv Some, of In_handler] run by simp
      moreover have "permitted r x ty" by (rule executor_action_permitted [OF ok Call_handler])
      moreover have "p \<notin> fst ` set (rt_calls r)" using inv Some True by (fastforce simp: router_inv_def)
      ultimately have "router_inv ?s" by (auto simp: router_inv_def set_executor_def)
      then show ?thesis using Some True Call_handler by (simp add: executor_start_def)
    qed
  qed (use inv Some in \<open>simp add: executor_start_def\<close>)
qed (use inv in \<open>simp add: executor_start_def\<close>)

lemma executor_resume_inv: "router_inv r \<Longrightarrow> router_inv (executor_resume p out r)"
  by (cases "jget (rt_executors r) p") (auto simp: executor_resume_def intro!: set_executor_inv)

lemma route_settle_inv:
  assumes inv: "router_inv r"
  shows "router_inv (route_settle n1 n2 p r)"
proof -
  have "router_inv (r\<lparr>rt_cache := cache_settle n1 n2 p v (rt_cache r)\<rparr>)"
    if x: "jget (rt_executors r) p = Some x" "ex_phase x = Ended v" for x v
  proof (rule router_inv_cache [OF inv])
    show "cache_inv (cache_settle n1 n2 p v (rt_cache r))"
      using inv by (simp add: router_inv_def settle_inv)
    show "executor_ok (cache_settle n1 n2 p v (rt_cache r)) q y"
      if "executor_ok (rt_cache r) q y" "jget (rt_executors r) q = Some y" for q y
      using that x by (cases "q = p") (auto simp: executor_ok_def settle_promises)
  qed
  then show ?thesis using inv by (auto simp: route_settle_def split: option.splits executor_phase.splits)
qed

lemma route_finish_inv:
  assumes "router_inv r"
  shows "router_inv (route_finish p r)"
  unfolding route_finish_def
  using assms router_inv_cache executor_ok_same finish_promises finish_inv by (metis router_inv_def)

lemma router_stats_inv:
  assumes "router_inv r" "router_stats_of now r = (r', st)"
  shows "router_inv r'"
proof -
  have "cache_inv (rt_cache r)" using assms(1) by (simp add: router_inv_def)
  then have "cache_inv (purge_expired now (rt_cache r))"
    by (rule cache_inv_transfer) (simp_all add: purge_receipts_ok cache_inv_receipts_ok \<open>cache_inv (rt_cache r)\<close>)
  moreover have "r' = r\<lparr>rt_cache := purge_expired now (rt_cache r)\<rparr>"
    using assms(2) by (simp add: router_stats_of_def cache_stats_of_def Let_def split: prod.splits)
  ultimately show ?thesis
    using router_inv_cache [OF assms(1)] executor_ok_same purge_fields(2) by metis
qed

lemma router_step_inv:
  assumes "router_step h r r'" "router_inv r"
  shows "router_inv r'"
  using assms
  by (cases rule: router_step.cases)
     (auto intro: route_begin_inv executor_start_inv executor_resume_inv route_settle_inv
        route_finish_inv router_stats_inv)

lemma router_reach_inv: "router_reach h r0 r \<Longrightarrow> router_inv r0 \<Longrightarrow> router_inv r"
  by (induction rule: router_reach.induct) (auto intro: router_step_inv)

lemma new_router_inv: "cache_inv c \<Longrightarrow> router_inv (new_router c enabled handlers)"
  by (simp add: router_inv_def new_router_def)

lemma router_step_config:
  "router_step h r r' \<Longrightarrow> rt_enabled r' = rt_enabled r \<and> rt_handlers r' = rt_handlers r"
  by (cases rule: router_step.cases)
     (auto simp: route_begin_def Let_def executor_start_def executor_resume_def set_executor_def
        route_settle_def route_finish_def router_stats_of_def
        split: sum.splits if_splits option.splits prod.splits execute_result.splits
          executor_phase.splits executor_decision.splits)

lemma router_reach_config:
  "router_reach h r0 r \<Longrightarrow> rt_enabled r = rt_enabled r0 \<and> rt_handlers r = rt_handlers r0"
  by (induction rule: router_reach.induct) (auto dest: router_step_config)

section \<open>Properties\<close>

text \<open>
  C3. A handler runs only for an authorized command. In every state the router can reach, each
  handler call was made by the executor of a frame that named a known command and the capability
  that command requires, for a device that was granted the capability, with the capability enabled
  and the handler registered; no executor called its handler twice; and two executors inside their
  handlers never work on one command id.
\<close>

theorem router_calls_authorized:
  assumes "new_command_cache max_entries ttl = Inr c0"
    and "router_reach sha256_hex (new_router c0 enabled handlers) r"
  shows "(\<forall>p ty. (p, ty) \<in> set (rt_calls r) \<longrightarrow>
      (\<exists>x t c. jget (rt_executors r) p = Some x \<and> ty = js t \<and> (t, c) \<in> set COMMAND_CAPABILITIES \<and>
         field (ex_body x) ''type'' = Some (JStr ty) \<and>
         field (ex_body x) ''capability'' = Some (JStr (js (capability_text c))) \<and>
         JStr (js (capability_text c)) \<in> set (ex_granted x) \<and>
         js (capability_text c) \<in> set enabled \<and> ty \<in> set handlers)) \<and>
    distinct (map fst (rt_calls r)) \<and>
    (\<forall>p q x y. jget (rt_executors r) p = Some x \<and> ex_phase x = In_handler \<and>
       jget (rt_executors r) q = Some y \<and> ex_phase y = In_handler \<and>
       field (ex_body x) ''commandId'' = field (ex_body y) ''commandId'' \<longrightarrow> p = q)"
proof -
  have inv: "router_inv r"
    by (rule router_reach_inv [OF assms(2) new_router_inv [OF new_command_cache_inv [OF assms(1)]]])
  have cfg: "rt_enabled r = enabled" "rt_handlers r = handlers"
    using router_reach_config [OF assms(2)] by (simp_all add: new_router_def)
  have "p = q" if "jget (rt_executors r) p = Some x" "ex_phase x = In_handler"
    "jget (rt_executors r) q = Some y" "ex_phase y = In_handler"
    "field (ex_body x) ''commandId'' = field (ex_body y) ''commandId''" for p q x y
  proof (rule single_flight)
    show "cache_inv (rt_cache r)" using inv by (simp add: router_inv_def)
    have "executor_ok (rt_cache r) p x" "executor_ok (rt_cache r) q y"
      using inv that by (simp_all add: router_inv_def)
    with that show "running (rt_cache r) p" "running (rt_cache r) q"
      "promise_id (rt_cache r) p = promise_id (rt_cache r) q"
      by (simp_all add: executor_ok_def)
  qed
  moreover have "\<exists>x t c. jget (rt_executors r) p = Some x \<and> ty = js t \<and> (t, c) \<in> set COMMAND_CAPABILITIES \<and>
         field (ex_body x) ''type'' = Some (JStr ty) \<and>
         field (ex_body x) ''capability'' = Some (JStr (js (capability_text c))) \<and>
         JStr (js (capability_text c)) \<in> set (ex_granted x) \<and>
         js (capability_text c) \<in> set enabled \<and> ty \<in> set handlers"
    if "(p, ty) \<in> set (rt_calls r)" for p ty
    using inv that unfolding router_inv_def permitted_def cfg by blast
  ultimately show ?thesis using inv unfolding router_inv_def by blast
qed

definition example_frame :: json where
  "example_frame = JObj [(js ''v'', JInt 1), (js ''kind'', JStr (js ''command'')),
     (js ''desktopId'', JStr (js ''d'')), (js ''deviceId'', JStr (js ''p'')),
     (js ''connectionId'', JStr (js ''c'')), (js ''epoch'', JStr (js ''e'')),
     (js ''id'', JStr (js ''x'')), (js ''seq'', JInt 0), (js ''sentAt'', JInt 0),
     (js ''body'', JObj [(js ''type'', JStr (js ''attention.ack'')), (js ''commandId'', JStr (js ''x'')),
        (js ''projectId'', JStr (js ''p'')), (js ''targetId'', JStr (js ''t'')),
        (js ''capability'', JStr (js ''observe''))])]"

definition example_body :: json where
  "example_body = JObj [(js ''type'', JStr (js ''attention.ack'')), (js ''commandId'', JStr (js ''x'')),
     (js ''projectId'', JStr (js ''p'')), (js ''targetId'', JStr (js ''t'')),
     (js ''capability'', JStr (js ''observe''))]"

lemma example_valid: "validate_envelope 1 example_frame = Inr example_frame"
proof -
  have size: "json_bytes example_frame \<le> MAX_FRAME_BYTES"
    by (simp add: example_frame_def MAX_FRAME_BYTES_def exec_simps)
  then show ?thesis unfolding validate_envelope_def
    by (simp add: example_frame_def exec_simps protocol_exec del: json_bytes_def)
qed

lemma example_fields:
  "env_body (view_envelope example_frame) = example_body"
  "kind_of (field example_frame ''kind'') = Some Command"
  "field example_body ''type'' = Some (JStr (js ''attention.ack''))"
  "field example_body ''commandId'' = Some (JStr (js ''x''))"
  by (simp_all add: view_envelope_def example_frame_def example_body_def exec_simps kind_of_def KINDS_def)

lemma example_capability: "required_capability (js ''attention.ack'') = Own Observe"
  by (simp add: required_capability_def js_lookup_def COMMAND_CAPABILITIES_def)

theorem router_calls_authorized_witness:
  "\<exists>c0 r. new_command_cache (Some (JInt 2)) (Some (JInt 1000)) = Inr c0 \<and>
     router_reach (\<lambda>_. example_fp) (new_router c0 [js ''observe''] [js ''attention.ack'']) r \<and>
     rt_calls r = [(0, js ''attention.ack'')] \<and> distinct (map fst (rt_calls r))"
proof -
  let ?init = "\<lparr>cc_maxEntries = 2, cc_ttlMs = 1000, cc_receipts = [], cc_inFlight = [], cc_promises = []\<rparr>"
  let ?h = "\<lambda>_. example_fp"
  let ?device = "\<lparr>rd_deviceId = Some (JStr (js ''p'')), rd_capabilities = Some (JArr [JStr (js ''observe'')])\<rparr>"
  let ?r0 = "new_router ?init [js ''observe''] [js ''attention.ack'']"
  obtain r1 res where r1: "route_begin ?h 5 example_frame ?device ?r0 = (r1, res)" by fastforce
  have id: "identifier_ok MAX_ID_LENGTH (js ''x'')" "identifier_ok MAX_ID_LENGTH (js ''p'')"
    by (simp_all add: identifier_ok_def exec_simps)
  have x: "jget (rt_executors r1) 0 = Some \<lparr>ex_body = example_body, ex_required = Own Observe,
      ex_granted = [JStr (js ''observe'')], ex_phase = Waiting\<rparr>"
    "rt_enabled r1 = [js ''observe'']" "rt_handlers r1 = [js ''attention.ack'']" "rt_calls r1 = []"
    using r1 id
    by (auto simp: route_begin_def new_router_def PROTOCOL_VERSION_def example_valid example_fields
        example_capability cache_execute_def cache_lookup_def check_descriptor_def purge_expired_def
        jfilter_def fingerprint_command_def Let_def simp del: kind_of_Some)
  have calls: "rt_calls (executor_start 0 r1) = [(0, js ''attention.ack'')]"
    by (simp add: executor_start_def x executor_action_def example_fields set_executor_def)
  have c0: "new_command_cache (Some (JInt 2)) (Some (JInt 1000)) = Inr ?init"
    by (simp add: new_command_cache_def exec_simps)
  have reach: "router_reach ?h ?r0 (executor_start 0 r1)"
    by (rule Reach_step [OF Reach_step [OF Reach_start Step_route [OF r1]] Step_start])
  from router_calls_authorized [OF c0 reach] c0 reach calls show ?thesis by blast
qed

end
