(* ===== verification/Terminal_Cursor.thy ===== *)
theory Terminal_Cursor
  imports Companion_Protocol
begin

text \<open>
  Byte offsets into a terminal's output, \<open>electron/companion/terminalCursor.cjs\<close>: snapshots bounded
  to the last bytes of the output without cutting a character, the decision how a client that has
  seen a prefix is brought up to date, and the cursor that numbers the chunks of live output.
\<close>

section \<open>Buffers\<close>

datatype terminal_cursor_error =
    Tce_invalid_stream_epoch | Tce_invalid_offset | Tce_invalid_limit | Tce_invalid_utf8
  | Tce_invalid_exit_status | Tce_invalid_snapshot | Tce_invalid_cursor | Tce_offset_overflow

text \<open>A value passed as output: a string, a byte array, or anything else.\<close>

datatype output_value = Text jstr | Bytes bytes | Other_value

definition DEFAULT_SNAPSHOT_BYTES :: int where "DEFAULT_SNAPSHOT_BYTES = 256 * 1024"

definition safe_epoch :: "json option \<Rightarrow> terminal_cursor_error + jstr" where
  "safe_epoch v =
     (case validate_identifier MAX_ID_LENGTH v of
        Inl _ \<Rightarrow> Inl Tce_invalid_stream_epoch
      | Inr s \<Rightarrow> Inr s)"

definition safe_offset :: "json option \<Rightarrow> terminal_cursor_error + nat" where
  "safe_offset v =
     (case as_int v of
        None \<Rightarrow> Inl Tce_invalid_offset
      | Some n \<Rightarrow> require (0 \<le> n) Tce_invalid_offset (Inr (nat n)))"

definition safe_byte_limit :: "json option \<Rightarrow> terminal_cursor_error + nat" where
  "safe_byte_limit v =
     (case as_int v of
        None \<Rightarrow> Inl Tce_invalid_limit
      | Some n \<Rightarrow> require (1 \<le> n) Tce_invalid_limit (Inr (nat n)))"

definition utf8_buffer :: "output_value \<Rightarrow> terminal_cursor_error + bytes" where
  "utf8_buffer v =
     (case v of
        Other_value \<Rightarrow> Inl Tce_invalid_utf8
      | Text s \<Rightarrow>
          require (utf8_encode (utf8_decode (utf8_encode s)) = utf8_encode s) Tce_invalid_utf8
            (Inr (utf8_encode s))
      | Bytes b \<Rightarrow> require (utf8_encode (utf8_decode b) = b) Tce_invalid_utf8 (Inr b))"

text \<open>Beyond the end \<open>buffer[offset]\<close> is \<open>undefined\<close>, which masks to 0.\<close>

definition is_utf8_boundary :: "bytes \<Rightarrow> nat \<Rightarrow> bool" where
  "is_utf8_boundary b k =
     (k = 0 \<or> k = length b \<or> (if k < length b then and (b ! k) 0xC0 else 0) \<noteq> 0x80)"

function skip_to_boundary :: "bytes \<Rightarrow> nat \<Rightarrow> nat" where
  "skip_to_boundary b k =
     (if k < length b \<and> \<not> is_utf8_boundary b k then skip_to_boundary b (k + 1) else k)"
  by pat_completeness auto
termination by (relation "measure (\<lambda>(b, k). length b - k)") auto

declare skip_to_boundary.simps [simp del]

record tail_result =
  tl_text :: jstr
  tl_bytes :: nat
  tl_droppedBytes :: nat
  tl_truncated :: bool

definition utf8_tail :: "output_value \<Rightarrow> json option \<Rightarrow> terminal_cursor_error + tail_result" where
  "utf8_tail v max_bytes =
     ebind (utf8_buffer v) (\<lambda>buffer.
     ebind (safe_byte_limit max_bytes) (\<lambda>n.
     let start = skip_to_boundary buffer (length buffer - n);
         tail = drop start buffer in
     Inr \<lparr>tl_text = utf8_decode tail, tl_bytes = length tail, tl_droppedBytes = start,
          tl_truncated = (start > 0)\<rparr>))"

section \<open>Snapshots\<close>

definition signal_ok :: "jstr \<Rightarrow> bool" where
  "signal_ok s =
     (1 \<le> length s \<and> length s \<le> 32 \<and>
      list_all (\<lambda>u. (65 \<le> u \<and> u \<le> 90) \<or> is_digit_unit u \<or> u = 95 \<or> u = 45) s)"

definition sanitize_exit_status :: "json option \<Rightarrow> terminal_cursor_error + json option" where
  "sanitize_exit_status v =
     (if nullish v then Inr None
      else
        let w = the v; code = field w ''exitCode''; signal = field w ''signal'' in
        require (is_obj w) Tce_invalid_exit_status (
        require (only_keys w [''exitCode'', ''signal'']) Tce_invalid_exit_status (
        require (nullish code \<or> as_int code \<noteq> None) Tce_invalid_exit_status (
        require (nullish signal \<or> some_is signal_ok (as_str signal)) Tce_invalid_exit_status (
        Inr (Some (JObj
          ((if nullish code then [] else [(js ''exitCode'', the code)]) @
           (if nullish signal then [] else [(js ''signal'', the signal)])))))))))"

record snapshot =
  sn_streamEpoch :: jstr
  sn_output :: jstr
  sn_startOffset :: nat
  sn_endOffset :: nat
  sn_truncated :: bool
  sn_exited :: bool
  sn_exitStatus :: "json option"

definition make_bounded_snapshot ::
  "json option \<Rightarrow> output_value \<Rightarrow> json option \<Rightarrow> json option \<Rightarrow> json option \<Rightarrow> json option \<Rightarrow>
   json option \<Rightarrow> terminal_cursor_error + snapshot" where
  "make_bounded_snapshot stream_epoch output end_offset max_bytes truncated exited exit_status =
     ebind (safe_epoch stream_epoch) (\<lambda>epoch.
     ebind (safe_offset end_offset) (\<lambda>end.
     ebind (safe_byte_limit max_bytes) (\<lambda>n.
     ebind (utf8_buffer output) (\<lambda>buffer.
     require (length buffer \<le> end) Tce_invalid_offset (
     ebind (utf8_tail (Bytes buffer) max_bytes) (\<lambda>tail.
     let start = end - tl_bytes tail in
     ebind (sanitize_exit_status exit_status) (\<lambda>clean.
     Inr \<lparr>sn_streamEpoch = epoch, sn_output = tl_text tail, sn_startOffset = start, sn_endOffset = end,
          sn_truncated = (truncated = Some (JBool True) \<or> tl_truncated tail \<or> start > 0),
          sn_exited = (exited = Some (JBool True)), sn_exitStatus = clean\<rparr>)))))))"

text \<open>A snapshot object as it comes back to \<open>classifyResume\<close>; \<open>None\<close> is a value that is no object.\<close>

record snapshot_input =
  si_streamEpoch :: "json option"
  si_output :: output_value
  si_startOffset :: "json option"
  si_endOffset :: "json option"
  si_truncated :: "json option"
  si_exited :: "json option"
  si_exitStatus :: "json option"

definition normalize_snapshot :: "snapshot_input option \<Rightarrow> terminal_cursor_error + snapshot" where
  "normalize_snapshot v =
     (case v of
        None \<Rightarrow> Inl Tce_invalid_snapshot
      | Some s \<Rightarrow>
          ebind (utf8_buffer (si_output s)) (\<lambda>buffer.
          ebind (make_bounded_snapshot (si_streamEpoch s) (si_output s) (si_endOffset s)
                   (Some (JInt (max 1 (int (length buffer))))) (si_truncated s) (si_exited s)
                   (si_exitStatus s)) (\<lambda>clean.
          require (si_startOffset s = Some (JInt (int (sn_startOffset clean)))) Tce_invalid_snapshot
            (Inr clean))))"

section \<open>Resuming\<close>

datatype resume_reason =
    Resume_epoch_mismatch | Resume_cursor_ahead | Resume_event_gap | Resume_invalid_utf8_boundary
  | Resume_available_suffix

datatype resume =
    Resume_reset resume_reason snapshot
  | Resume_snapshot resume_reason snapshot
  | Resume_current jstr nat

definition classify_resume ::
  "snapshot_input option \<Rightarrow> json option \<Rightarrow> terminal_cursor_error + resume" where
  "classify_resume v cursor =
     ebind (normalize_snapshot v) (\<lambda>clean.
     case cursor of
       None \<Rightarrow> Inl Tce_invalid_cursor
     | Some cur \<Rightarrow>
     require (is_obj cur) Tce_invalid_cursor (
     ebind (safe_epoch (field cur ''streamEpoch'')) (\<lambda>cursor_epoch.
     ebind (safe_offset (field cur ''offset'')) (\<lambda>offset.
     if cursor_epoch \<noteq> sn_streamEpoch clean then Inr (Resume_reset Resume_epoch_mismatch clean)
     else if offset > sn_endOffset clean then Inr (Resume_reset Resume_cursor_ahead clean)
     else if offset < sn_startOffset clean then Inr (Resume_snapshot Resume_event_gap clean)
     else if offset = sn_endOffset clean then Inr (Resume_current (sn_streamEpoch clean) offset)
     else
       ebind (utf8_buffer (Text (sn_output clean))) (\<lambda>buffer.
       let rel = offset - sn_startOffset clean in
       if \<not> is_utf8_boundary buffer rel then Inr (Resume_reset Resume_invalid_utf8_boundary clean)
       else
         let suffix = drop rel buffer in
         ebind (make_bounded_snapshot (Some (JStr (sn_streamEpoch clean))) (Bytes suffix)
                  (Some (JInt (int (sn_endOffset clean)))) (Some (JInt (max 1 (int (length suffix)))))
                  (Some (JBool (sn_truncated clean \<or> offset > 0))) (Some (JBool (sn_exited clean)))
                  (sn_exitStatus clean)) (\<lambda>s.
         Inr (Resume_snapshot Resume_available_suffix s)))))))"

section \<open>The live cursor\<close>

record terminal_cursor =
  tc_streamEpoch :: jstr
  tc_nextOffset :: nat

record chunk =
  ch_streamEpoch :: jstr
  ch_data :: jstr
  ch_startOffset :: nat
  ch_endOffset :: nat

definition new_terminal_cursor :: "json option \<Rightarrow> json option \<Rightarrow> terminal_cursor_error + terminal_cursor" where
  "new_terminal_cursor stream_epoch start =
     ebind (safe_epoch stream_epoch) (\<lambda>e.
     ebind (safe_offset start) (\<lambda>n.
     Inr \<lparr>tc_streamEpoch = e, tc_nextOffset = n\<rparr>))"

definition cursor_append :: "output_value \<Rightarrow> terminal_cursor \<Rightarrow> terminal_cursor_error + terminal_cursor \<times> chunk" where
  "cursor_append v c =
     ebind (utf8_buffer v) (\<lambda>buffer.
     let start = tc_nextOffset c; end = start + length buffer in
     require (is_safe (int end)) Tce_offset_overflow (
     Inr (c\<lparr>tc_nextOffset := end\<rparr>,
          \<lparr>ch_streamEpoch = tc_streamEpoch c, ch_data = utf8_decode buffer, ch_startOffset = start,
           ch_endOffset = end\<rparr>)))"

definition cursor_position :: "terminal_cursor \<Rightarrow> jstr \<times> nat" where
  "cursor_position c = (tc_streamEpoch c, tc_nextOffset c)"

section \<open>Tails\<close>

lemma utf8_buffer_Inr [simp]:
  "utf8_buffer v = Inr b \<longleftrightarrow> (v = Bytes b \<and> utf8_ok b) \<or> (\<exists>s. v = Text s \<and> b = utf8_encode s)"
  by (cases v) (auto simp: utf8_buffer_def require_eq_Inr utf8_encode_decode)

lemma utf8_buffer_ok: "utf8_buffer v = Inr b \<Longrightarrow> utf8_ok b"
  by auto

lemma encode_decode_ok [simp]: "utf8_ok b \<Longrightarrow> utf8_encode (utf8_decode b) = b"
  by (simp add: utf8_encode_decode)

lemma utf8_buffer_Bytes [simp]: "utf8_ok b \<Longrightarrow> utf8_buffer (Bytes b) = Inr b"
  by simp

lemma utf8_buffer_Text [simp]: "utf8_buffer (Text s) = Inr (utf8_encode s)"
  by simp

lemma safe_epoch_Inr [simp]:
  "safe_epoch v = Inr s \<longleftrightarrow> v = Some (JStr s) \<and> identifier_ok MAX_ID_LENGTH s"
  by (cases "validate_identifier MAX_ID_LENGTH v") (auto simp: safe_epoch_def)

lemma safe_epoch_JStr [simp]: "identifier_ok MAX_ID_LENGTH s \<Longrightarrow> safe_epoch (Some (JStr s)) = Inr s"
  by (simp add: safe_epoch_def)

lemma safe_offset_Inr [simp]:
  "safe_offset v = Inr n \<longleftrightarrow> v = Some (JInt (int n)) \<and> is_safe (int n)"
  by (auto simp: safe_offset_def result_simps split: option.splits)

lemma safe_offset_JInt [simp]: "is_safe (int n) \<Longrightarrow> safe_offset (Some (JInt (int n))) = Inr n"
  by (simp add: safe_offset_def)

lemma safe_byte_limit_Inr [simp]:
  "safe_byte_limit v = Inr n \<longleftrightarrow> v = Some (JInt (int n)) \<and> is_safe (int n) \<and> 1 \<le> n"
  by (auto simp: safe_byte_limit_def result_simps split: option.splits)

lemma safe_byte_limit_JInt [simp]:
  "is_safe n \<Longrightarrow> 1 \<le> n \<Longrightarrow> safe_byte_limit (Some (JInt n)) = Inr (nat n)"
  by (simp add: safe_byte_limit_def)

lemma and_192: "and n 192 = 64 * (n div 64 mod 4)" for n :: nat
proof -
  have "and n 192 = push_bit 6 (take_bit 2 (drop_bit 6 n))"
  proof (rule bit_eqI)
    fix k
    have "bit (192 :: nat) k = (k = 6 \<or> k = 7)"
    proof -
      have e: "(192::nat) = push_bit 6 (mask 2)" by (simp add: push_bit_eq_mult mask_eq_exp_minus_1)
      have "bit (192 :: nat) k = (6 \<le> k \<and> k - 6 < 2)"
        unfolding e by (simp only: bit_push_bit_iff bit_mask_iff) simp
      then show ?thesis by auto
    qed
    then show "bit (and n 192) k = bit (push_bit 6 (take_bit 2 (drop_bit 6 n))) k"
      by (auto simp: bit_and_iff bit_push_bit_iff bit_take_bit_iff bit_drop_bit_eq)
  qed
  then show ?thesis by (simp add: push_bit_eq_mult take_bit_eq_mod drop_bit_eq_div)
qed
lemma mask_cont_byte: "(and (w::8 word) 0xC0 = 0x80) \<longleftrightarrow> cont_byte (unat w)"
proof -
  have lt: "unat w < 256" using unsigned_less [of w, where ?'a = nat] by simp
  have "unat (and w 0xC0) = and (unat w) 192" by (simp add: unsigned_and_eq)
  then have "unat (and w 0xC0) = 64 * (unat w div 64)" using lt by (simp add: and_192)
  moreover have "and w 0xC0 = 0x80 \<longleftrightarrow> unat (and w 0xC0) = unat (0x80 :: 8 word)" 
    by (rule word_unat_eq_iff)
  ultimately have "and w 0xC0 = 0x80 \<longleftrightarrow> unat w div 64 = 2" by auto
  then show ?thesis unfolding cont_byte_def by auto
qed

lemma is_utf8_boundary_iff: "k \<le> length b \<Longrightarrow> is_utf8_boundary b k = boundary (map unat b) k"
  by (auto simp: is_utf8_boundary_def boundary_def mask_cont_byte)

lemma utf8_ok_split:
  "utf8_ok b \<Longrightarrow> k \<le> length b \<Longrightarrow> is_utf8_boundary b k \<Longrightarrow> utf8_ok (take k b) \<and> utf8_ok (drop k b)"
  using utf8_split_at_boundary [of "map unat b" k]
  by (simp add: utf8_ok_def is_utf8_boundary_iff take_map drop_map)

lemma skip_to_boundary:
  "k \<le> length b \<Longrightarrow> k \<le> skip_to_boundary b k \<and> skip_to_boundary b k \<le> length b \<and>
    is_utf8_boundary b (skip_to_boundary b k) \<and>
    (\<forall>j. k \<le> j \<and> j < skip_to_boundary b k \<longrightarrow> \<not> is_utf8_boundary b j)"
proof (induction b k rule: skip_to_boundary.induct)
  case (1 b k)
  show ?case
  proof (cases "k < length b \<and> \<not> is_utf8_boundary b k")
    case True
    then have e: "skip_to_boundary b k = skip_to_boundary b (k + 1)"
      by (subst skip_to_boundary.simps) simp
    have IH: "k + 1 \<le> skip_to_boundary b (k + 1) \<and> skip_to_boundary b (k + 1) \<le> length b \<and>
      is_utf8_boundary b (skip_to_boundary b (k + 1)) \<and>
      (\<forall>j. k + 1 \<le> j \<and> j < skip_to_boundary b (k + 1) \<longrightarrow> \<not> is_utf8_boundary b j)"
      using 1 True by simp
    moreover have "\<not> is_utf8_boundary b j" if "k \<le> j" "j < skip_to_boundary b (k + 1)" for j
      using that IH True by (cases "j = k") auto
    ultimately show ?thesis unfolding e by auto
  next
    case False
    then have e: "skip_to_boundary b k = k" by (subst skip_to_boundary.simps) (simp only: if_False)
    have "is_utf8_boundary b k"
      using False 1(2) by (cases "k = length b") (auto simp: is_utf8_boundary_def)
    with 1(2) show ?thesis by (auto simp: e)
  qed
qed

text \<open>A character has at most four bytes, so a boundary is at most three bytes away.\<close>

lemma length_enc_cp: "length (enc_cp c) \<le> 4"
  by (simp add: enc_cp_def)

lemma boundary_near:
  "list_all scalar cs \<Longrightarrow> k \<le> length (enc_cps cs) \<Longrightarrow>
    \<exists>j \<le> 3. k + j \<le> length (enc_cps cs) \<and> boundary (enc_cps cs) (k + j)"
proof (induction cs arbitrary: k)
  case Nil
  then show ?case by (simp add: boundary_def)
next
  case (Cons c cs)
  let ?n = "length (enc_cp c)"
  have sc: "list_all scalar cs" using Cons.prems by simp
  have next_start: "boundary (enc_cps (c # cs)) ?n"
  proof (cases cs)
    case (Cons d ds)
    with sc have "scalar d" by simp
    then obtain a t where "enc_cp d = a # t" "\<not> cont_byte a" by (rule enc_cp_shape)
    with Cons show ?thesis by (simp add: boundary_def nth_append)
  qed (simp add: boundary_def)
  show ?case
  proof (cases "k < ?n")
    case True
    show ?thesis
    proof (cases "k = 0")
      case False
      then have "?n - k \<le> 3" using length_enc_cp [of c] by simp
      with True next_start show ?thesis by (intro exI [of _ "?n - k"]) simp
    qed (auto simp: boundary_def)
  next
    case False
    have "k - ?n \<le> length (enc_cps cs)" using Cons.prems(2) by simp
    from Cons.IH [OF sc this] obtain j where
      j: "j \<le> 3" "k - ?n + j \<le> length (enc_cps cs)" "boundary (enc_cps cs) (k - ?n + j)" by blast
    have b: "boundary (enc_cps (c # cs)) (?n + i)"
      if "boundary (enc_cps cs) i" "i \<le> length (enc_cps cs)" for i
      using that next_start by (cases "i = 0") (auto simp: boundary_def nth_append)
    have "?n + (k - ?n + j) = k + j" using False by simp
    with j b [OF j(3,2)] show ?thesis by (intro exI [of _ j]) simp
  qed
qed

lemma skip_near:
  assumes "utf8_ok b" "k \<le> length b"
  shows "skip_to_boundary b k \<le> k + 3"
proof -
  obtain cs where cs: "list_all scalar cs" "map unat b = enc_cps cs"
    using assms(1) unfolding utf8_ok_def by (rule utf8_valid_cases)
  moreover have "length b = length (enc_cps cs)" using cs(2) by (metis length_map)
  ultimately obtain j where j: "j \<le> 3" "k + j \<le> length b" "boundary (map unat b) (k + j)"
    using boundary_near [of cs k] assms(2) by auto
  then have "is_utf8_boundary b (k + j)" by (simp add: is_utf8_boundary_iff)
  with skip_to_boundary [OF assms(2)] j(1) show ?thesis
    by (metis le_add1 le_trans nat_add_left_cancel_le not_le)
qed

lemma utf8_tail_Inr:
  "utf8_tail (Bytes b) v = Inr t \<longleftrightarrow>
    (\<exists>n. utf8_ok b \<and> safe_byte_limit v = Inr n \<and>
       (let d = skip_to_boundary b (length b - n) in
        t = \<lparr>tl_text = utf8_decode (drop d b), tl_bytes = length (drop d b), tl_droppedBytes = d,
             tl_truncated = (d > 0)\<rparr>))"
  by (auto simp: utf8_tail_def result_simps Let_def)

lemma skip_0 [simp]: "skip_to_boundary b 0 = 0"
  by (simp add: skip_to_boundary.simps is_utf8_boundary_def)

lemma utf8_tail_all:
  "utf8_ok b \<Longrightarrow> safe_byte_limit v = Inr n \<Longrightarrow> length b \<le> n \<Longrightarrow>
    utf8_tail (Bytes b) v = Inr \<lparr>tl_text = utf8_decode b, tl_bytes = length b, tl_droppedBytes = 0,
      tl_truncated = False\<rparr>"
  by (simp add: utf8_tail_Inr Let_def)

lemma nullish_simps [simp]: "nullish None" "nullish (Some JNull)" "nullish (Some v) \<longleftrightarrow> v = JNull"
  by (auto simp: nullish_def)

lemma sanitize_exit_status_idem:
  assumes "sanitize_exit_status v = Inr c"
  shows "sanitize_exit_status c = Inr c"
proof (cases "nullish v")
  case False
  let ?code = "field (the v) ''exitCode''" and ?signal = "field (the v) ''signal''"
  have c: "c = Some (JObj ((if nullish ?code then [] else [(js ''exitCode'', the ?code)]) @
      (if nullish ?signal then [] else [(js ''signal'', the ?signal)])))"
    "nullish ?code \<or> as_int ?code \<noteq> None" "nullish ?signal \<or> (\<exists>s. as_str ?signal = Some s \<and> signal_ok s)"
    using assms False by (auto simp: sanitize_exit_status_def Let_def require_eq_Inr)
  then have "?code = None \<or> ?code = Some JNull \<or> (\<exists>n. ?code = Some (JInt n) \<and> is_safe n)"
    "?signal = None \<or> ?signal = Some JNull \<or> (\<exists>s. ?signal = Some (JStr s) \<and> signal_ok s)"
    by (auto simp: nullish_def)
  then show ?thesis unfolding c(1)
    by (elim disjE exE)
       (simp_all add: sanitize_exit_status_def field_def only_keys_def okeys_def)
next
  case True
  then show ?thesis using assms by (simp add: sanitize_exit_status_def)
qed

section \<open>Snapshots of a known output\<close>

text \<open>The object the desktop keeps and passes to \<open>classifyResume\<close>.\<close>

definition snapshot_to_input :: "snapshot \<Rightarrow> snapshot_input" where
  "snapshot_to_input s =
     \<lparr>si_streamEpoch = Some (JStr (sn_streamEpoch s)), si_output = Text (sn_output s),
      si_startOffset = Some (JInt (int (sn_startOffset s))),
      si_endOffset = Some (JInt (int (sn_endOffset s))),
      si_truncated = Some (JBool (sn_truncated s)), si_exited = Some (JBool (sn_exited s)),
      si_exitStatus = sn_exitStatus s\<rparr>"

text \<open>A snapshot that holds the bytes of \<open>b\<close> from \<open>d\<close> on.\<close>

definition covers :: "bytes \<Rightarrow> nat \<Rightarrow> snapshot \<Rightarrow> bool" where
  "covers b d s =
     (d \<le> length b \<and> is_utf8_boundary b d \<and> sn_output s = utf8_decode (drop d b) \<and>
      sn_startOffset s = d \<and> sn_endOffset s = length b \<and>
      identifier_ok MAX_ID_LENGTH (sn_streamEpoch s) \<and>
      sanitize_exit_status (sn_exitStatus s) = Inr (sn_exitStatus s))"

lemma make_bounded_snapshot_covers:
  assumes "make_bounded_snapshot e (Bytes b) (Some (JInt (int (length b)))) lim tr ex st = Inr s"
  shows "utf8_ok b \<and> (\<exists>n d. safe_byte_limit lim = Inr n \<and> d = skip_to_boundary b (length b - n) \<and> covers b d s)"
proof -
  obtain n t ep clean where u: "utf8_ok b" "utf8_tail (Bytes b) lim = Inr t" "safe_byte_limit lim = Inr n"
    "identifier_ok MAX_ID_LENGTH ep" "sanitize_exit_status st = Inr clean"
    "s = \<lparr>sn_streamEpoch = ep, sn_output = tl_text t, sn_startOffset = length b - tl_bytes t,
          sn_endOffset = length b,
          sn_truncated = (tr = Some (JBool True) \<or> tl_truncated t \<or> length b - tl_bytes t > 0),
          sn_exited = (ex = Some (JBool True)), sn_exitStatus = clean\<rparr>"
    using assms by (auto simp: make_bounded_snapshot_def result_simps Let_def)
  let ?d = "skip_to_boundary b (length b - n)"
  have t: "tl_text t = utf8_decode (drop ?d b)" "tl_bytes t = length b - ?d"
    using u(2,3) by (auto simp: utf8_tail_Inr Let_def)
  have d: "?d \<le> length b" "is_utf8_boundary b ?d"
    using skip_to_boundary [of "length b - n" b] by auto
  have "covers b ?d s" using u(4) sanitize_exit_status_idem [OF u(5)] t d
    by (simp add: covers_def u(6))
  with u(1,3) show ?thesis by blast
qed

lemma make_bounded_snapshot_suffix:
  assumes "utf8_ok x" "length x \<le> n" "is_safe (int n)" "identifier_ok MAX_ID_LENGTH e"
    "sanitize_exit_status st = Inr st"
  shows "make_bounded_snapshot (Some (JStr e)) (Bytes x) (Some (JInt (int n)))
      (Some (JInt (max 1 (int (length x))))) tr ex st =
    Inr \<lparr>sn_streamEpoch = e, sn_output = utf8_decode x, sn_startOffset = n - length x, sn_endOffset = n,
      sn_truncated = (tr = Some (JBool True) \<or> n - length x > 0), sn_exited = (ex = Some (JBool True)),
      sn_exitStatus = st\<rparr>"
proof -
  have lim: "is_safe (max 1 (int (length x)))" "1 \<le> max 1 (int (length x))"
    using assms(2,3) by (auto simp: is_safe_def max_safe_integer_def)
  then have "utf8_tail (Bytes x) (Some (JInt (max 1 (int (length x))))) =
      Inr \<lparr>tl_text = utf8_decode x, tl_bytes = length x, tl_droppedBytes = 0, tl_truncated = False\<rparr>"
    by (intro utf8_tail_all [OF assms(1)]) auto
  with assms lim show ?thesis
    by (simp add: make_bounded_snapshot_def utf8_buffer_Bytes)
qed

lemma make_bounded_snapshot_text:
  "utf8_ok x \<Longrightarrow> make_bounded_snapshot e (Text (utf8_decode x)) n lim tr ex st =
     make_bounded_snapshot e (Bytes x) n lim tr ex st"
  by (simp add: make_bounded_snapshot_def utf8_buffer_Text utf8_buffer_Bytes utf8_encode_decode)

lemma normalize_covers:
  assumes "utf8_ok b" "covers b d s" "is_safe (int (length b))"
  shows "\<exists>s'. normalize_snapshot (Some (snapshot_to_input s)) = Inr s' \<and> covers b d s' \<and>
    sn_streamEpoch s' = sn_streamEpoch s"
proof -
  have x: "utf8_ok (drop d b)" using utf8_ok_split [of b d] assms by (simp add: covers_def)
  have "length b - length (drop d b) = d" using assms(2) by (simp add: covers_def)
  with make_bounded_snapshot_suffix [OF x, of "length b" "sn_streamEpoch s" "sn_exitStatus s"] assms x
  show ?thesis
    by (simp add: normalize_snapshot_def snapshot_to_input_def covers_def make_bounded_snapshot_text)
qed

lemma covers_join: "utf8_ok b \<Longrightarrow> covers b d s \<Longrightarrow> utf8_decode (take d b) @ sn_output s = utf8_decode b"
  using utf8_ok_split [of b d] utf8_decode_append [of "take d b" "drop d b"] by (simp add: covers_def)

lemma boundary_drop:
  assumes "is_utf8_boundary b d" "d \<le> k" "k \<le> length b"
  shows "is_utf8_boundary (drop d b) (k - d) = is_utf8_boundary b k"
  using assms by (cases "k = d") (auto simp: is_utf8_boundary_def)

lemma resume_covers:
  assumes ok: "utf8_ok b" and cov: "covers b d s" and safe: "is_safe (int (length b))"
    and cur: "is_safe (int c)" and e: "sn_streamEpoch s = e"
  shows "\<exists>r. classify_resume (Some (snapshot_to_input s))
      (Some (JObj [(js ''streamEpoch'', JStr e), (js ''offset'', JInt (int c))])) = Inr r \<and>
    (case r of
       Resume_current e' off \<Rightarrow> off = c \<and> c = length b
     | Resume_snapshot reason s' \<Rightarrow>
         reason = Resume_event_gap \<and> c < d \<and> covers b d s' \<or>
         reason = Resume_available_suffix \<and> covers b c s'
     | Resume_reset reason s' \<Rightarrow>
         reason = Resume_cursor_ahead \<and> length b < c \<or>
         reason = Resume_invalid_utf8_boundary \<and> \<not> is_utf8_boundary b c)"
proof -
  obtain s' where s': "normalize_snapshot (Some (snapshot_to_input s)) = Inr s'" "covers b d s'"
    "sn_streamEpoch s' = e" using normalize_covers [OF ok cov safe] e by auto
  note cv = s'(2) [unfolded covers_def]
  let ?cursor = "JObj [(js ''streamEpoch'', JStr e), (js ''offset'', JInt (int c))]"
  have fields: "safe_epoch (field ?cursor ''streamEpoch'') = Inr e" "safe_offset (field ?cursor ''offset'') = Inr c"
    using cv s'(3) cur by (simp_all add: field_def)
  have x: "utf8_ok (drop d b)" using utf8_ok_split [OF ok, of d] cv by simp
  show ?thesis
  proof (cases "length b < c \<or> c < d \<or> c = length b")
    case True
    then show ?thesis using s' fields cv by (auto simp: classify_resume_def)
  next
    case False
    then have c: "d \<le> c" "c < length b" by auto
    show ?thesis
    proof (cases "is_utf8_boundary b c")
      case True
      then have y: "utf8_ok (drop c b)" using utf8_ok_split [OF ok, of c] c by simp
      have "drop (c - d) (drop d b) = drop c b" using c by simp
      with make_bounded_snapshot_suffix [OF y, of "length b" e "sn_exitStatus s'"] True False s' fields cv c x safe
      show ?thesis
        by (simp add: classify_resume_def boundary_drop Let_def covers_def)
    next
      case False
      then show ?thesis using s' fields cv c x
        by (simp add: classify_resume_def boundary_drop)
    qed
  qed
qed

section \<open>The stream a cursor numbers\<close>

fun cursor_run :: "terminal_cursor \<Rightarrow> output_value list \<Rightarrow> terminal_cursor \<times> chunk list" where
  "cursor_run c [] = (c, [])"
| "cursor_run c (v # vs) =
     (case cursor_append v c of
        Inl _ \<Rightarrow> cursor_run c vs
      | Inr (c', ch) \<Rightarrow> (let (c'', chs) = cursor_run c' vs in (c'', ch # chs)))"

fun chained :: "nat \<Rightarrow> chunk list \<Rightarrow> nat \<Rightarrow> bool" where
  "chained n [] m = (n = m)"
| "chained n (ch # chs) m =
     (ch_startOffset ch = n \<and> ch_endOffset ch = n + length (utf8_encode (ch_data ch)) \<and>
      chained (ch_endOffset ch) chs m)"

lemma cursor_append_Inr:
  assumes "cursor_append v c = Inr (c', ch)"
  shows "ch_startOffset ch = tc_nextOffset c \<and> tc_nextOffset c' = ch_endOffset ch \<and>
    ch_endOffset ch = tc_nextOffset c + length (utf8_encode (ch_data ch)) \<and>
    utf8_buffer v = Inr (utf8_encode (ch_data ch)) \<and> utf8_decode (utf8_encode (ch_data ch)) = ch_data ch \<and>
    ch_streamEpoch ch = tc_streamEpoch c \<and> tc_streamEpoch c' = tc_streamEpoch c \<and>
    is_safe (int (tc_nextOffset c'))"
proof -
  obtain b where b: "utf8_buffer v = Inr b" "is_safe (int (tc_nextOffset c + length b))"
    "c' = c\<lparr>tc_nextOffset := tc_nextOffset c + length b\<rparr>"
    "ch = \<lparr>ch_streamEpoch = tc_streamEpoch c, ch_data = utf8_decode b, ch_startOffset = tc_nextOffset c,
           ch_endOffset = tc_nextOffset c + length b\<rparr>"
    using assms by (auto simp: cursor_append_def result_simps Let_def simp del: utf8_buffer_Inr)
  have "utf8_encode (utf8_decode b) = b" using utf8_buffer_ok [OF b(1)] by (simp add: utf8_encode_decode)
  with b show ?thesis by (simp del: utf8_buffer_Inr)
qed

lemma utf8_ok_concat: "(\<And>b. b \<in> set bs \<Longrightarrow> utf8_ok b) \<Longrightarrow> utf8_ok (concat bs)"
  by (induction bs) (auto intro: utf8_ok_append)

section \<open>Properties\<close>

text \<open>
  C25. \<open>utf8Tail\<close> keeps as much as fits: of valid UTF-8 it returns the longest suffix that starts at a
  character boundary and has at most \<open>maxBytes\<close> bytes; text and byte counts agree, nothing is lost
  when everything fits, and never more than three bytes of the allowance are given up.
\<close>

theorem utf8_tail_longest:
  assumes "utf8_ok b" and "is_safe n" and "1 \<le> n"
  shows "\<exists>t. utf8_tail (Bytes b) (Some (JInt n)) = Inr t \<and>
    utf8_encode (tl_text t) = drop (tl_droppedBytes t) b \<and>
    tl_bytes t + tl_droppedBytes t = length b \<and> int (tl_bytes t) \<le> n \<and>
    (\<forall>k \<le> length b. is_utf8_boundary b k \<and> int (length b - k) \<le> n \<longrightarrow> tl_droppedBytes t \<le> k) \<and>
    (if int (length b) \<le> n then tl_droppedBytes t = 0 else n \<le> int (tl_bytes t) + 3)"
proof -
  define k where "k = length b - nat n"
  let ?d = "skip_to_boundary b k"
  have k: "k \<le> length b" by (simp add: k_def)
  have d: "k \<le> ?d" "?d \<le> length b" "is_utf8_boundary b ?d"
    "\<And>j. k \<le> j \<Longrightarrow> j < ?d \<Longrightarrow> \<not> is_utf8_boundary b j"
    using skip_to_boundary [OF k] by auto
  have t: "utf8_tail (Bytes b) (Some (JInt n)) = Inr \<lparr>tl_text = utf8_decode (drop ?d b),
      tl_bytes = length b - ?d, tl_droppedBytes = ?d, tl_truncated = (?d > 0)\<rparr>"
    using assms by (simp add: utf8_tail_def k_def Let_def)
  have "utf8_ok (drop ?d b)" using utf8_ok_split [OF assms(1) d(2,3)] by simp
  moreover have "?d \<le> j" if "is_utf8_boundary b j" "int (length b - j) \<le> n" "j \<le> length b" for j
  proof (rule ccontr)
    assume "\<not> ?d \<le> j"
    moreover have "k \<le> j" using that assms(3) by (simp add: k_def)
    ultimately show False using d(4) [of j] that(1) by simp
  qed
  moreover have "int (length b - ?d) \<le> n" using d(1) assms(3) by (simp add: k_def)
  moreover have "?d = 0" if "int (length b) \<le> n" using that by (simp add: k_def)
  moreover have "n \<le> int (length b - ?d) + 3" if "\<not> int (length b) \<le> n"
    using that skip_near [OF assms(1) k] d(2) assms(3) by (simp add: k_def)
  ultimately show ?thesis using d(2) by (simp add: t)
qed

definition euro_a :: bytes where "euro_a = [0xE2, 0x82, 0xAC, 0x61]"

lemma euro_a_ok: "utf8_ok euro_a"
  by (simp add: euro_a_def utf8_ok_def utf8_valid.simps utf8_next.simps second_byte_def cont_byte_def)

theorem utf8_tail_longest_witness:
  "\<exists>t. utf8_tail (Bytes euro_a) (Some (JInt 3)) = Inr t \<and> tl_bytes t + tl_droppedBytes t = 4 \<and>
     int (tl_bytes t) \<le> 3"
  using utf8_tail_longest [OF euro_a_ok, of 3]
  by (auto simp: euro_a_def is_safe_def max_safe_integer_def)

text \<open>
  C9. Resuming never corrupts the text. Let a snapshot have been taken of a terminal whose output so
  far is \<open>b\<close>, and let a client of the same stream have read the first \<open>c\<close> bytes. The answer is
  \<open>current\<close> only if there is nothing more; a suffix, only if what the client has shown followed by the
  suffix is the whole output; a full snapshot, only if the client's position is no longer retained,
  and then the snapshot ends the output; and a reset, only if the position is beyond the end or inside
  a character.
\<close>

theorem terminal_resume_exact:
  assumes "make_bounded_snapshot (Some (JStr e)) (Bytes b) (Some (JInt (int (length b)))) lim tr ex st = Inr s"
    and "is_safe (int c)"
  shows "\<exists>r. classify_resume (Some (snapshot_to_input s))
      (Some (JObj [(js ''streamEpoch'', JStr e), (js ''offset'', JInt (int c))])) = Inr r \<and>
    (case r of
       Resume_current e' off \<Rightarrow> c = length b \<and> off = c
     | Resume_snapshot Resume_available_suffix s' \<Rightarrow>
         utf8_decode (take c b) @ sn_output s' = utf8_decode b \<and>
         sn_startOffset s' = c \<and> sn_endOffset s' = length b
     | Resume_snapshot _ s' \<Rightarrow>
         c < sn_startOffset s' \<and> sn_endOffset s' = length b \<and>
         utf8_decode (take (sn_startOffset s') b) @ sn_output s' = utf8_decode b
     | Resume_reset _ _ \<Rightarrow> length b < c \<or> \<not> is_utf8_boundary b c)"
proof -
  obtain n d where ok: "utf8_ok b" and cov: "covers b d s"
    using make_bounded_snapshot_covers [OF assms(1)] by blast
  have e: "sn_streamEpoch s = e" "is_safe (int (length b))"
    using assms(1) by (auto simp: make_bounded_snapshot_def result_simps Let_def)
  obtain r where r: "classify_resume (Some (snapshot_to_input s))
      (Some (JObj [(js ''streamEpoch'', JStr e), (js ''offset'', JInt (int c))])) = Inr r"
    "case r of
       Resume_current e' off \<Rightarrow> off = c \<and> c = length b
     | Resume_snapshot reason s' \<Rightarrow>
         reason = Resume_event_gap \<and> c < d \<and> covers b d s' \<or>
         reason = Resume_available_suffix \<and> covers b c s'
     | Resume_reset reason s' \<Rightarrow>
         reason = Resume_cursor_ahead \<and> length b < c \<or>
         reason = Resume_invalid_utf8_boundary \<and> \<not> is_utf8_boundary b c"
    using resume_covers [OF ok cov e(2) assms(2) e(1)] by blast
  have "sn_startOffset s' = k \<and> sn_endOffset s' = length b" if "covers b k s'" for k s'
    using that by (simp add: covers_def)
  with r covers_join [OF ok] show ?thesis
    by (intro exI [of _ r] conjI) (auto split: resume.splits resume_reason.splits)
qed

theorem terminal_resume_exact_witness:
  "\<exists>s r. make_bounded_snapshot (Some (JStr (js ''e''))) (Bytes euro_a) (Some (JInt 4)) (Some (JInt 4))
       None None None = Inr s \<and>
     classify_resume (Some (snapshot_to_input s))
       (Some (JObj [(js ''streamEpoch'', JStr (js ''e'')), (js ''offset'', JInt 3)])) = Inr r"
proof -
  have len: "int (length euro_a) = 4" by (simp add: euro_a_def)
  have "is_ok (make_bounded_snapshot (Some (JStr (js ''e''))) (Bytes euro_a) (Some (JInt (int (length euro_a))))
      (Some (JInt (max 1 (int (length euro_a))))) None None None)"
    using make_bounded_snapshot_suffix [OF euro_a_ok, of "length euro_a" "js ''e''" None None None]
    by (simp add: len exec_simps identifier_ok_def sanitize_exit_status_def)
  then obtain s where s: "make_bounded_snapshot (Some (JStr (js ''e''))) (Bytes euro_a)
      (Some (JInt (int (length euro_a)))) (Some (JInt (max 1 (int (length euro_a))))) None None None = Inr s"
    by (auto simp: is_ok_iff)
  from terminal_resume_exact [OF s, of 3] show ?thesis
    using s by (auto simp: len is_safe_def max_safe_integer_def)
qed

text \<open>
  C26. The live cursor numbers the stream without gaps or overlaps: whatever values are appended, those
  it rejects included, the accepted chunks follow one another from the initial offset to the current
  position, each spans exactly the bytes of its data, and their texts joined are the text of the bytes
  joined, so no chunk boundary ever splits a character.
\<close>

theorem terminal_cursor_contiguous:
  "case cursor_run c vs of (c', chs) \<Rightarrow>
     chained (tc_nextOffset c) chs (tc_nextOffset c') \<and>
     (\<forall>ch \<in> set chs. ch_streamEpoch ch = tc_streamEpoch c) \<and>
     utf8_decode (concat (map (\<lambda>ch. utf8_encode (ch_data ch)) chs)) = concat (map ch_data chs)"
proof (induction c vs rule: cursor_run.induct)
  case (1 c)
  show ?case by (simp add: utf8_decode_def)
next
  case (2 c v vs)
  show ?case
  proof (cases "cursor_append v c")
    case (Inl x)
    with 2 show ?thesis by simp
  next
    case (Inr x)
    then obtain c1 ch where x: "cursor_append v c = Inr (c1, ch)" by (cases x) auto
    obtain c' chs where run: "cursor_run c1 vs = (c', chs)" by fastforce
    note ch = cursor_append_Inr [OF x]
    have IH: "chained (tc_nextOffset c1) chs (tc_nextOffset c') \<and>
      (\<forall>ch \<in> set chs. ch_streamEpoch ch = tc_streamEpoch c1) \<and>
      utf8_decode (concat (map (\<lambda>ch. utf8_encode (ch_data ch)) chs)) = concat (map ch_data chs)"
      using 2(2) [OF x refl] run by simp
    with ch show ?thesis by (simp add: x run utf8_decode_append)
  qed
qed

theorem terminal_cursor_contiguous_witness:
  "chained 0 (snd (cursor_run \<lparr>tc_streamEpoch = js ''e'', tc_nextOffset = 0\<rparr> [Text (js ''a'')]))
     (tc_nextOffset (fst (cursor_run \<lparr>tc_streamEpoch = js ''e'', tc_nextOffset = 0\<rparr> [Text (js ''a'')])))"
  using terminal_cursor_contiguous [of "\<lparr>tc_streamEpoch = js ''e'', tc_nextOffset = 0\<rparr>" "[Text (js ''a'')]"]
  by (simp add: case_prod_beta)

end
