(* ===== verification/Terminal_Control.thy ===== *)
theory Terminal_Control
  imports Command_Router
begin

text \<open>
  Leases on terminal control, \<open>electron/companion/terminalControl.cjs\<close>. The methods are asynchronous
  and mutate shared lease objects, so the model has a heap of leases, and every method is a sequence
  of segments: a task is the continuation of a call at one of its awaits. The clock, fresh identifiers
  and the replies of the terminal adapter are inputs of a segment. \<open>tc_effects\<close> records the calls made
  to the adapter.
\<close>

section \<open>State\<close>

definition DEFAULT_LEASE_TTL_MS :: int where "DEFAULT_LEASE_TTL_MS = 30000"

definition MAX_TERMINAL_INPUT_BYTES :: nat where "MAX_TERMINAL_INPUT_BYTES = 16 * 1024"

definition MIN_COLS :: int where "MIN_COLS = 20"
definition MAX_COLS :: int where "MAX_COLS = 400"
definition MIN_ROWS :: int where "MIN_ROWS = 5"
definition MAX_ROWS :: int where "MAX_ROWS = 200"

record lease =
  le_key :: jstr
  le_leaseId :: jstr
  le_deviceId :: jstr
  le_connectionId :: jstr
  le_session :: nat
  le_projectId :: jstr
  le_terminalId :: jstr
  le_geometry :: "(int \<times> int) option"
  le_expiresAt :: int
  le_timer :: "nat option"

text \<open>What a handler receives; an empty string stands for a missing identifier.\<close>

record control_context =
  cx_deviceId :: jstr
  cx_connectionId :: jstr
  cx_session :: nat
  cx_projectId :: jstr
  cx_targetId :: jstr
  cx_payload :: "json option"

text \<open>
  A call to the adapter, with the lease it was made under and, except for a restore, the context of
  the method that made it.
\<close>

datatype effect =
    Write_input control_context nat jstr
  | Resize_terminal control_context nat int int
  | Interrupt_terminal control_context nat
  | Restore_geometry nat int int

text \<open>
  \<open>tc_restores\<close> is the map \<open>restores\<close> from terminal keys to restore promises; \<open>tc_pending\<close> holds the
  restores that have not settled, each with the lease whose geometry it restores.
\<close>

record control =
  tc_ttlMs :: int
  tc_heap :: "lease list"
  tc_leases :: "(jstr, nat) jmap"
  tc_restores :: "(jstr, nat) jmap"
  tc_pending :: "(nat, nat) jmap"
  tc_timers :: "(nat, nat) jmap"
  tc_fresh :: nat
  tc_effects :: "effect list"

datatype control_config_error = Lease_ttl_invalid

definition new_control :: "json option \<Rightarrow> control_config_error + control" where
  "new_control ttl =
     (case as_int ttl of
        None \<Rightarrow> Inl Lease_ttl_invalid
      | Some t \<Rightarrow> require (1000 \<le> t \<and> t \<le> 5 * 60000) Lease_ttl_invalid
          (Inr \<lparr>tc_ttlMs = t, tc_heap = [], tc_leases = [], tc_restores = [], tc_pending = [],
                tc_timers = [], tc_fresh = 0, tc_effects = []\<rparr>))"

record control_result =
  cr_ok :: bool
  cr_status :: json
  cr_message :: json
  cr_payload :: "json option"

definition control_result_of :: "bool \<Rightarrow> string \<Rightarrow> string \<Rightarrow> json option \<Rightarrow> control_result" where
  "control_result_of ok status message payload =
     \<lparr>cr_ok = ok, cr_status = JStr (js status), cr_message = JStr (js message), cr_payload = payload\<rparr>"

definition opt_field :: "json option \<Rightarrow> string \<Rightarrow> json option" where
  "opt_field v k = (case v of None \<Rightarrow> None | Some w \<Rightarrow> field w k)"

definition or_else :: "json option \<Rightarrow> string \<Rightarrow> json" where
  "or_else v d = (if nullish v then JStr (js d) else the v)"

definition terminal_key :: "jstr \<Rightarrow> jstr \<Rightarrow> jstr" where
  "terminal_key project terminal = project @ 0 # terminal"

definition context_key :: "control_context \<Rightarrow> jstr" where
  "context_key cx = terminal_key (cx_projectId cx) (cx_targetId cx)"

definition identity_ok :: "control_context \<Rightarrow> bool" where
  "identity_ok cx =
     (cx_connectionId cx \<noteq> [] \<and> cx_deviceId cx \<noteq> [] \<and> cx_projectId cx \<noteq> [] \<and> cx_targetId cx \<noteq> [])"

definition same_holder :: "lease \<Rightarrow> control_context \<Rightarrow> bool" where
  "same_holder l cx = (le_deviceId l = cx_deviceId cx \<and> le_connectionId l = cx_connectionId cx)"

definition geometry_of :: "json option \<Rightarrow> (int \<times> int) option" where
  "geometry_of v =
     (case (as_int (opt_field v ''cols''), as_int (opt_field v ''rows'')) of
        (Some c, Some r) \<Rightarrow> if c > 0 \<and> r > 0 then Some (c, r) else None
      | _ \<Rightarrow> None)"

definition lease_payload :: "control \<Rightarrow> lease \<Rightarrow> json" where
  "lease_payload c l =
     JObj [(js ''leaseId'', JStr (le_leaseId l)), (js ''expiresAt'', JInt (le_expiresAt l)),
           (js ''renewAfterMs'', JInt (tc_ttlMs c div 3)),
           (js ''resizeEnabled'', JBool (le_geometry l \<noteq> None))]"

section \<open>Leases\<close>

definition clear_timer :: "nat option \<Rightarrow> control \<Rightarrow> control" where
  "clear_timer t c = (case t of None \<Rightarrow> c | Some i \<Rightarrow> c\<lparr>tc_timers := jdel i (tc_timers c)\<rparr>)"

text \<open>\<open>#arm\<close>: a lease is valid for another \<open>ttlMs\<close>; the old timer is cleared.\<close>

definition arm :: "int \<Rightarrow> nat \<Rightarrow> control \<Rightarrow> control" where
  "arm now i c0 =
     (let c = clear_timer (le_timer (tc_heap c0 ! i)) c0; t = tc_fresh c in
      c\<lparr>tc_heap := (tc_heap c)[i := (tc_heap c ! i)\<lparr>le_expiresAt := now + tc_ttlMs c, le_timer := Some t\<rparr>],
        tc_timers := jset t i (tc_timers c), tc_fresh := t + 1\<rparr>)"

text \<open>
  \<open>#drop\<close> up to its await: the lease leaves the map, and if it had a geometry a restore is started,
  which is the promise to wait for.
\<close>

definition drop_lease :: "jstr \<Rightarrow> control \<Rightarrow> control \<times> nat option" where
  "drop_lease key c =
     (case jget (tc_leases c) key of
        None \<Rightarrow> (c, jget (tc_restores c) key)
      | Some i \<Rightarrow>
          let c1 = clear_timer (le_timer (tc_heap c ! i)) c;
              c2 = c1\<lparr>tc_leases := jdel key (tc_leases c1)\<rparr> in
          if le_geometry (tc_heap c ! i) = None then (c2, None)
          else let r = tc_fresh c2 in
            (c2\<lparr>tc_restores := jset key r (tc_restores c2), tc_pending := jset r i (tc_pending c2),
                tc_fresh := r + 1\<rparr>, Some r))"

definition expire_if_needed :: "int \<Rightarrow> jstr \<Rightarrow> control \<Rightarrow> control \<times> nat option" where
  "expire_if_needed now key c =
     (case jget (tc_leases c) key of
        Some i \<Rightarrow> if le_expiresAt (tc_heap c ! i) \<le> now then drop_lease key c else (c, None)
      | None \<Rightarrow> (c, None))"

text \<open>The callback of a lease timer.\<close>

definition fire_timer :: "int \<Rightarrow> nat \<Rightarrow> control \<Rightarrow> control" where
  "fire_timer now t c =
     (case jget (tc_timers c) t of
        None \<Rightarrow> c
      | Some i \<Rightarrow>
          let c1 = c\<lparr>tc_timers := jdel t (tc_timers c)\<rparr>; l = tc_heap c ! i in
          if jget (tc_leases c1) (le_key l) = Some i \<and> le_expiresAt l \<le> now
          then fst (drop_lease (le_key l) c1) else c1)"

text \<open>A restore calls the adapter, and when that has settled it leaves the table.\<close>

definition restore_call :: "nat \<Rightarrow> control \<Rightarrow> control" where
  "restore_call r c =
     (case jget (tc_pending c) r of
        None \<Rightarrow> c
      | Some i \<Rightarrow>
          (case le_geometry (tc_heap c ! i) of
             None \<Rightarrow> c
           | Some (cols, rows) \<Rightarrow> c\<lparr>tc_effects := tc_effects c @ [Restore_geometry i cols rows]\<rparr>))"

definition restore_settled :: "nat \<Rightarrow> control \<Rightarrow> control" where
  "restore_settled r c =
     (case jget (tc_pending c) r of
        None \<Rightarrow> c
      | Some i \<Rightarrow>
          let key = le_key (tc_heap c ! i) in
          c\<lparr>tc_pending := jdel r (tc_pending c),
            tc_restores := (if jget (tc_restores c) key = Some r then jdel key (tc_restores c)
                            else tc_restores c)\<rparr>)"

section \<open>Methods as segments\<close>

datatype lease_op = Renew | Write | Resize | Interrupt | Release

text \<open>
  The continuations of the methods: after \<open>#expireIfNeeded\<close>, after \<open>#waitForRestore\<close>, after
  \<open>available\<close> with the lease read before it, after the lease was checked, after the adapter replied.
\<close>

datatype task =
    Acquire_enter control_context
  | Acquire_expired control_context
  | Acquire_restored control_context
  | Acquire_available control_context "nat option"
  | Lease_enter lease_op control_context
  | Lease_expired lease_op control_context
  | Lease_checked lease_op control_context nat
  | Adapter_replied lease_op
  | Release_dropped

datatype reply = Returned "json option" | Threw

datatype segment_end =
    Await "nat option" task
  | Finished control_result
  | Failed

definition adapter_failure :: "json option \<Rightarrow> string \<Rightarrow> control_result" where
  "adapter_failure v message =
     \<lparr>cr_ok = False, cr_status = or_else (opt_field v ''status'') ''unavailable'',
      cr_message = or_else (opt_field v ''message'') message, cr_payload = None\<rparr>"

fun applied_message :: "lease_op \<Rightarrow> string" where
  "applied_message Write = ''Terminal input applied.''"
| "applied_message Resize = ''Terminal size applied.''"
| "applied_message Interrupt = ''Interrupt sent.''"
| "applied_message Renew = ''Terminal control renewed.''"
| "applied_message Release = ''Terminal control released.''"

fun not_applied_message :: "lease_op \<Rightarrow> string" where
  "not_applied_message Write = ''Terminal input was not applied.''"
| "not_applied_message Resize = ''Terminal resize was not applied.''"
| "not_applied_message _ = ''Interrupt was not applied.''"

text \<open>The body of a method once \<open>#requireLease\<close> has returned lease \<open>i\<close>.\<close>

definition lease_body :: "int \<Rightarrow> lease_op \<Rightarrow> control_context \<Rightarrow> nat \<Rightarrow> control \<Rightarrow> control \<times> segment_end" where
  "lease_body now lop cx i c =
     (case lop of
        Renew \<Rightarrow>
          let c' = arm now i c in
          (c', Finished (control_result_of True ''applied'' (applied_message Renew)
                 (Some (lease_payload c' (tc_heap c' ! i)))))
      | Write \<Rightarrow>
          (let data = as_str (opt_field (cx_payload cx) ''data'');
               bytes = (case data of Some s \<Rightarrow> length (utf8_encode s) | None \<Rightarrow> 0) in
           if bytes = 0 \<or> bytes > MAX_TERMINAL_INPUT_BYTES
           then (c, Finished (control_result_of False ''rejected''
                       ''Terminal input must be between 1 and 16384 bytes.'' None))
           else (c\<lparr>tc_effects := tc_effects c @ [Write_input cx i (the data)]\<rparr>, Await None (Adapter_replied Write)))
      | Resize \<Rightarrow>
          if le_geometry (tc_heap c ! i) = None
          then (c, Finished (control_result_of False ''unavailable''
                      ''Terminal resize is unavailable until the desktop session reconnects.'' None))
          else
            (case (as_int (opt_field (cx_payload cx) ''cols''), as_int (opt_field (cx_payload cx) ''rows'')) of
               (Some cols, Some rows) \<Rightarrow>
                 if MIN_COLS \<le> cols \<and> cols \<le> MAX_COLS \<and> MIN_ROWS \<le> rows \<and> rows \<le> MAX_ROWS
                 then (c\<lparr>tc_effects := tc_effects c @ [Resize_terminal cx i cols rows]\<rparr>,
                       Await None (Adapter_replied Resize))
                 else (c, Finished (control_result_of False ''rejected''
                             ''Terminal size is outside the supported range.'' None))
             | _ \<Rightarrow> (c, Finished (control_result_of False ''rejected''
                             ''Terminal size is outside the supported range.'' None)))
      | Interrupt \<Rightarrow>
          (c\<lparr>tc_effects := tc_effects c @ [Interrupt_terminal cx i]\<rparr>, Await None (Adapter_replied Interrupt))
      | Release \<Rightarrow>
          (let (c', w) = drop_lease (le_key (tc_heap c ! i)) c in (c', Await w Release_dropped)))"

definition invalid_request :: segment_end where
  "invalid_request =
     Finished (control_result_of False ''rejected'' ''Terminal control request is invalid.'' None)"

fun segment ::
  "int \<Rightarrow> jstr \<Rightarrow> reply \<Rightarrow> task \<Rightarrow> control \<Rightarrow> control \<times> segment_end" where
  "segment now uuid reply (Acquire_enter cx) c =
     (if \<not> identity_ok cx then (c, invalid_request)
      else let (c', w) = expire_if_needed now (context_key cx) c in (c', Await w (Acquire_expired cx)))"
| "segment now uuid reply (Acquire_expired cx) c =
     (c, Await (jget (tc_restores c) (context_key cx)) (Acquire_restored cx))"
| "segment now uuid reply (Acquire_restored cx) c =
     (case jget (tc_leases c) (context_key cx) of
        Some i \<Rightarrow>
          if \<not> same_holder (tc_heap c ! i) cx
          then (c, Finished (control_result_of False ''rejected''
                      ''Terminal is already controlled from another device.'' None))
          else (c, Await None (Acquire_available cx (Some i)))
      | None \<Rightarrow> (c, Await None (Acquire_available cx None)))"
| "segment now uuid reply (Acquire_available cx current) c =
     (case reply of
        Threw \<Rightarrow> (c, Failed)
      | Returned v \<Rightarrow>
          if \<not> truthy (opt_field v ''ok'')
          then (c, Finished (adapter_failure v ''Terminal is unavailable.''))
          else
            let (i, c1) =
              (case current of
                 Some i \<Rightarrow> (i, c)
               | None \<Rightarrow>
                   (length (tc_heap c),
                    c\<lparr>tc_heap := tc_heap c @
                      [\<lparr>le_key = context_key cx, le_leaseId = js ''lease-'' @ uuid,
                        le_deviceId = cx_deviceId cx, le_connectionId = cx_connectionId cx,
                        le_session = cx_session cx, le_projectId = cx_projectId cx,
                        le_terminalId = cx_targetId cx,
                        le_geometry = geometry_of (opt_field v ''geometry''), le_expiresAt = 0,
                        le_timer = None\<rparr>]\<rparr>));
                c2 = arm now i c1;
                c3 = c2\<lparr>tc_leases := jset (context_key cx) i (tc_leases c2)\<rparr> in
            (c3, Finished (control_result_of True ''applied'' ''Terminal control enabled.''
                    (Some (lease_payload c3 (tc_heap c3 ! i))))))"
| "segment now uuid reply (Lease_enter lop cx) c =
     (if \<not> identity_ok cx then (c, invalid_request)
      else let (c', w) = expire_if_needed now (context_key cx) c in (c', Await w (Lease_expired lop cx)))"
| "segment now uuid reply (Lease_expired lop cx) c =
     (case jget (tc_leases c) (context_key cx) of
        Some i \<Rightarrow>
          if as_str (opt_field (cx_payload cx) ''leaseId'') = Some (le_leaseId (tc_heap c ! i)) \<and>
             same_holder (tc_heap c ! i) cx
          then (c, Await None (Lease_checked lop cx i))
          else (c, Finished (control_result_of False ''stale''
                      ''Terminal control lease is missing or expired.'' None))
      | None \<Rightarrow> (c, Finished (control_result_of False ''stale''
                      ''Terminal control lease is missing or expired.'' None)))"
| "segment now uuid reply (Lease_checked lop cx i) c = lease_body now lop cx i c"
| "segment now uuid reply (Adapter_replied lop) c =
     (case reply of
        Threw \<Rightarrow> (c, Failed)
      | Returned v \<Rightarrow>
          if \<not> truthy (opt_field v ''ok'') then (c, Finished (adapter_failure v (not_applied_message lop)))
          else (c, Finished (control_result_of True ''applied'' (applied_message lop) None)))"
| "segment now uuid reply Release_dropped c =
     (c, Finished (control_result_of True ''applied'' (applied_message Release) None))"

text \<open>\<open>releaseSession\<close> and \<open>dispose\<close> drop several leases; \<open>stats\<close> drops the expired ones.\<close>

definition release_session :: "nat \<Rightarrow> control \<Rightarrow> control \<times> nat" where
  "release_session session c =
     (let keys = map fst (filter (\<lambda>e. le_session (tc_heap c ! snd e) = session) (tc_leases c)) in
      (fold (\<lambda>k c. fst (drop_lease k c)) keys c, length keys))"

definition dispose :: "control \<Rightarrow> control" where
  "dispose c = fold (\<lambda>k c. fst (drop_lease k c)) (jkeys (tc_leases c)) c"

definition control_stats :: "int \<Rightarrow> control \<Rightarrow> control \<times> nat \<times> nat \<times> int" where
  "control_stats now c =
     (let c' = fold (\<lambda>k c. fst (expire_if_needed now k c)) (jkeys (tc_leases c)) c in
      (c', length (tc_leases c'), length (tc_restores c'), tc_ttlMs c'))"

section \<open>The system\<close>

text \<open>
  The state of the object together with the suspended calls; a call resumes when the restore it waits
  for has settled. Calls, timers, restores and session teardown interleave freely between segments.
\<close>

type_synonym system = "control \<times> (nat option \<times> task) list"

definition ready :: "control \<Rightarrow> nat option \<Rightarrow> bool" where
  "ready c w = (case w of None \<Rightarrow> True | Some r \<Rightarrow> jget (tc_pending c) r = None)"

inductive control_step :: "system \<Rightarrow> system \<Rightarrow> bool" where
  Call_acquire: "control_step (c, ts) (c, ts @ [(None, Acquire_enter cx)])"
| Call_lease: "control_step (c, ts) (c, ts @ [(None, Lease_enter lop cx)])"
| Run_await: "i < length ts \<Longrightarrow> ts ! i = (w, t) \<Longrightarrow> ready c w \<Longrightarrow>
    segment now uuid reply t c = (c', Await w' t') \<Longrightarrow> control_step (c, ts) (c', ts[i := (w', t')])"
| Run_finish: "i < length ts \<Longrightarrow> ts ! i = (w, t) \<Longrightarrow> ready c w \<Longrightarrow>
    segment now uuid reply t c = (c', e) \<Longrightarrow> (\<forall>w' t'. e \<noteq> Await w' t') \<Longrightarrow>
    control_step (c, ts) (c', take i ts @ drop (i + 1) ts)"
| Timer: "control_step (c, ts) (fire_timer now t c, ts)"
| Restore_runs: "control_step (c, ts) (restore_call r c, ts)"
| Restore_ends: "control_step (c, ts) (restore_settled r c, ts)"
| Close_session: "control_step (c, ts) (fst (release_session session c), ts)"
| Dispose: "control_step (c, ts) (dispose c, ts)"
| Stats: "control_step (c, ts) (fst (control_stats now c), ts)"

inductive control_reach :: "system \<Rightarrow> system \<Rightarrow> bool" where
  Control_start: "control_reach s s"
| Control_more: "control_reach s s1 \<Longrightarrow> control_step s1 s2 \<Longrightarrow> control_reach s s2"

section \<open>The invariant\<close>

text \<open>Whether a context presented the lease at index \<open>i\<close> as its holder.\<close>

definition presents :: "lease list \<Rightarrow> control_context \<Rightarrow> nat \<Rightarrow> bool" where
  "presents h cx i =
     (i < length h \<and> same_holder (h ! i) cx \<and> le_key (h ! i) = context_key cx \<and>
      as_str (opt_field (cx_payload cx) ''leaseId'') = Some (le_leaseId (h ! i)))"

fun task_ok :: "lease list \<Rightarrow> task \<Rightarrow> bool" where
  "task_ok h (Acquire_available cx (Some i)) =
     (i < length h \<and> le_key (h ! i) = context_key cx \<and> same_holder (h ! i) cx)"
| "task_ok h (Lease_checked lop cx i) = presents h cx i"
| "task_ok h _ = True"

fun effect_ok :: "lease list \<Rightarrow> effect \<Rightarrow> bool" where
  "effect_ok h (Write_input cx i s) =
     (presents h cx i \<and> 1 \<le> length (utf8_encode s) \<and> length (utf8_encode s) \<le> MAX_TERMINAL_INPUT_BYTES)"
| "effect_ok h (Resize_terminal cx i cols rows) =
     (presents h cx i \<and> MIN_COLS \<le> cols \<and> cols \<le> MAX_COLS \<and> MIN_ROWS \<le> rows \<and> rows \<le> MAX_ROWS)"
| "effect_ok h (Interrupt_terminal cx i) = presents h cx i"
| "effect_ok h (Restore_geometry i cols rows) = (i < length h \<and> le_geometry (h ! i) = Some (cols, rows))"

definition control_inv :: "control \<Rightarrow> bool" where
  "control_inv c =
     ((\<forall>k i. jget (tc_leases c) k = Some i \<longrightarrow> i < length (tc_heap c) \<and> le_key (tc_heap c ! i) = k) \<and>
      (\<forall>r i. jget (tc_pending c) r = Some i \<longrightarrow> i < length (tc_heap c)) \<and>
      (\<forall>e \<in> set (tc_effects c). effect_ok (tc_heap c) e))"

definition system_inv :: "system \<Rightarrow> bool" where
  "system_inv s = (control_inv (fst s) \<and> (\<forall>w t. (w, t) \<in> set (snd s) \<longrightarrow> task_ok (tc_heap (fst s)) t))"

text \<open>What never changes in a lease; \<open>#arm\<close> changes its expiry and its timer only.\<close>

definition extends :: "lease list \<Rightarrow> lease list \<Rightarrow> bool" where
  "extends h h' =
     (length h \<le> length h' \<and> (\<forall>i < length h. le_key (h' ! i) = le_key (h ! i) \<and>
        le_leaseId (h' ! i) = le_leaseId (h ! i) \<and> le_deviceId (h' ! i) = le_deviceId (h ! i) \<and>
        le_connectionId (h' ! i) = le_connectionId (h ! i) \<and> le_geometry (h' ! i) = le_geometry (h ! i)))"

lemma extends_refl [simp]: "extends h h"
  by (simp add: extends_def)

lemma extends_append [simp]: "extends h (h @ xs)"
  by (simp add: extends_def nth_append)

lemma extends_arm:
  "i < length h \<Longrightarrow> extends h (h[i := (h ! i)\<lparr>le_expiresAt := e, le_timer := t\<rparr>])"
  by (simp add: extends_def nth_list_update)

lemma extends_trans: "extends h h1 \<Longrightarrow> extends h1 h2 \<Longrightarrow> extends h h2"
  by (simp add: extends_def)

lemma extends_presents: "extends h h' \<Longrightarrow> presents h cx i \<Longrightarrow> presents h' cx i"
  by (auto simp: extends_def presents_def same_holder_def)

lemma extends_task_ok: "extends h h' \<Longrightarrow> task_ok h t \<Longrightarrow> task_ok h' t"
  by (cases "(h, t)" rule: task_ok.cases)
     (auto simp: extends_presents, auto simp: extends_def same_holder_def)

lemma extends_effect_ok: "extends h h' \<Longrightarrow> effect_ok h e \<Longrightarrow> effect_ok h' e"
  by (cases e) (auto simp: extends_presents, auto simp: extends_def)

lemma control_inv_lease:
  "control_inv c \<Longrightarrow> jget (tc_leases c) k = Some i \<Longrightarrow> i < length (tc_heap c) \<and> le_key (tc_heap c ! i) = k"
  by (simp add: control_inv_def)

lemma control_inv_cong:
  assumes "control_inv c" "tc_heap c' = tc_heap c" "tc_effects c' = tc_effects c"
    "\<And>k i. jget (tc_leases c') k = Some i \<Longrightarrow> jget (tc_leases c) k = Some i"
    "\<And>r i. jget (tc_pending c') r = Some i \<Longrightarrow> jget (tc_pending c) r = Some i \<or> i < length (tc_heap c)"
  shows "control_inv c'"
  using assms unfolding control_inv_def by metis

text \<open>Dropping and expiring leave the heap and the calls alone.\<close>

lemma clear_timer_fields [simp]:
  "tc_heap (clear_timer t c) = tc_heap c" "tc_leases (clear_timer t c) = tc_leases c"
  "tc_pending (clear_timer t c) = tc_pending c" "tc_effects (clear_timer t c) = tc_effects c"
  "tc_restores (clear_timer t c) = tc_restores c" "tc_ttlMs (clear_timer t c) = tc_ttlMs c"
  "tc_fresh (clear_timer t c) = tc_fresh c"
  by (auto simp: clear_timer_def split: option.splits)

lemma drop_lease_fields [simp]:
  "tc_heap (fst (drop_lease k c)) = tc_heap c" "tc_effects (fst (drop_lease k c)) = tc_effects c"
  "jget (tc_leases (fst (drop_lease k c))) k' = (if k' = k then None else jget (tc_leases c) k')"
  by (auto simp: drop_lease_def Let_def split: option.splits)

lemma drop_lease_inv:
  assumes inv: "control_inv c"
  shows "control_inv (fst (drop_lease k c))"
  by (rule control_inv_cong [OF inv])
     (use control_inv_lease [OF inv] in \<open>auto simp: drop_lease_def Let_def split: option.splits if_splits\<close>)

lemma expire_fields [simp]:
  "tc_heap (fst (expire_if_needed now k c)) = tc_heap c"
  "tc_effects (fst (expire_if_needed now k c)) = tc_effects c"
  by (auto simp: expire_if_needed_def split: option.splits)

lemma expire_heap: "expire_if_needed now k c = (c', w) \<Longrightarrow> tc_heap c' = tc_heap c"
  using expire_fields(1) [of now k c] by simp

lemma expire_inv: "control_inv c \<Longrightarrow> control_inv (fst (expire_if_needed now k c))"
  by (auto simp: expire_if_needed_def drop_lease_inv split: option.splits)

lemma fold_heap:
  assumes "\<And>c k. control_inv c \<Longrightarrow> control_inv (f k c) \<and> tc_heap (f k c) = tc_heap c \<and> tc_effects (f k c) = tc_effects c"
    "control_inv c"
  shows "control_inv (fold f ks c) \<and> tc_heap (fold f ks c) = tc_heap c \<and> tc_effects (fold f ks c) = tc_effects c"
  using assms(2) by (induction ks arbitrary: c) (auto simp: assms(1))

lemma fire_timer_inv: "control_inv c \<Longrightarrow> control_inv (fire_timer now t c) \<and> tc_heap (fire_timer now t c) = tc_heap c"
proof -
  assume inv: "control_inv c"
  have "control_inv (c\<lparr>tc_timers := m\<rparr>)" for m by (rule control_inv_cong [OF inv]) auto
  then show ?thesis using inv
    by (auto simp: fire_timer_def Let_def drop_lease_inv split: option.splits)
qed

lemma restore_call_inv: "control_inv c \<Longrightarrow> control_inv (restore_call r c) \<and> tc_heap (restore_call r c) = tc_heap c"
  by (auto simp: restore_call_def control_inv_def split: option.splits)

lemma restore_settled_inv:
  "control_inv c \<Longrightarrow> control_inv (restore_settled r c) \<and> tc_heap (restore_settled r c) = tc_heap c"
proof -
  assume inv: "control_inv c"
  have "control_inv (restore_settled r c)"
    by (rule control_inv_cong [OF inv]) (auto simp: restore_settled_def Let_def split: option.splits if_splits)
  then show ?thesis by (auto simp: restore_settled_def Let_def split: option.splits)
qed

lemma arm_fields [simp]:
  "length (tc_heap (arm now i c)) = length (tc_heap c)" "tc_leases (arm now i c) = tc_leases c"
  "tc_pending (arm now i c) = tc_pending c" "tc_effects (arm now i c) = tc_effects c"
  "tc_restores (arm now i c) = tc_restores c" "tc_ttlMs (arm now i c) = tc_ttlMs c"
  by (simp_all add: arm_def Let_def)

lemma arm_extends: "i < length (tc_heap c) \<Longrightarrow> extends (tc_heap c) (tc_heap (arm now i c))"
  by (simp add: arm_def Let_def extends_arm)

lemma control_inv_heap:
  assumes "control_inv c" "extends (tc_heap c) (tc_heap c')" "tc_effects c' = tc_effects c"
    "\<And>k i. jget (tc_leases c') k = Some i \<Longrightarrow>
       jget (tc_leases c) k = Some i \<or> i < length (tc_heap c') \<and> le_key (tc_heap c' ! i) = k"
    "tc_pending c' = tc_pending c"
  shows "control_inv c'"
proof -
  have "i < length (tc_heap c') \<and> le_key (tc_heap c' ! i) = k" if "jget (tc_leases c') k = Some i" for k i
    using assms(4) [OF that] control_inv_lease [OF assms(1), of k i] assms(2) by (auto simp: extends_def)
  moreover have "i < length (tc_heap c')" if "jget (tc_pending c') r = Some i" for r i
    using that assms(1,2,5) unfolding control_inv_def extends_def by fastforce
  moreover have "effect_ok (tc_heap c') e" if "e \<in> set (tc_effects c')" for e
    using that assms(1,3) extends_effect_ok [OF assms(2)] by (auto simp: control_inv_def)
  ultimately show ?thesis by (simp add: control_inv_def)
qed

lemma arm_inv: "control_inv c \<Longrightarrow> i < length (tc_heap c) \<Longrightarrow> control_inv (arm now i c)"
  by (rule control_inv_heap) (auto simp: arm_extends)

lemma add_effect_inv:
  "control_inv c \<Longrightarrow> effect_ok (tc_heap c) e \<Longrightarrow> control_inv (c\<lparr>tc_effects := tc_effects c @ [e]\<rparr>)"
  by (auto simp: control_inv_def)

lemma lease_body_inv:
  assumes inv: "control_inv c" and pr: "presents (tc_heap c) cx i"
    and st: "lease_body now lop cx i c = (c', e)"
  shows "control_inv c' \<and> extends (tc_heap c) (tc_heap c') \<and> (\<forall>w t. e = Await w t \<longrightarrow> task_ok (tc_heap c') t)"
proof (cases lop)
  case Renew
  have "i < length (tc_heap c)" using pr by (simp add: presents_def)
  with Renew inv st arm_inv arm_extends show ?thesis by (auto simp: lease_body_def Let_def)
next
  case Write
  have "control_inv (c\<lparr>tc_effects := tc_effects c @ [Write_input cx i s]\<rparr>)"
    if "length (utf8_encode s) \<noteq> 0" "length (utf8_encode s) \<le> MAX_TERMINAL_INPUT_BYTES" for s
    by (rule add_effect_inv [OF inv]) (use pr that in \<open>simp add: Suc_le_eq\<close>)
  with Write inv st show ?thesis
    by (auto simp: lease_body_def Let_def split: if_splits option.splits)
next
  case Resize
  have "control_inv (c\<lparr>tc_effects := tc_effects c @ [Resize_terminal cx i x y]\<rparr>)"
    if "MIN_COLS \<le> x" "x \<le> MAX_COLS" "MIN_ROWS \<le> y" "y \<le> MAX_ROWS" for x y
    by (rule add_effect_inv [OF inv]) (use pr that in simp)
  with Resize inv st show ?thesis by (auto simp: lease_body_def split: if_splits option.splits)
next
  case Interrupt
  have "control_inv (c\<lparr>tc_effects := tc_effects c @ [Interrupt_terminal cx i]\<rparr>)"
    by (rule add_effect_inv [OF inv]) (use pr in simp)
  with Interrupt st show ?thesis by (auto simp: lease_body_def)
next
  case Release
  obtain c1 w where d: "drop_lease (le_key (tc_heap c ! i)) c = (c1, w)" by fastforce
  then have "control_inv c1" "tc_heap c1 = tc_heap c"
    using drop_lease_inv [OF inv, of "le_key (tc_heap c ! i)"] drop_lease_fields(1) [of "le_key (tc_heap c ! i)" c]
    by simp_all
  with Release st d show ?thesis by (auto simp: lease_body_def)
qed

lemma acquired_inv:
  assumes inv: "control_inv c" and t: "task_ok (tc_heap c) (Acquire_available cx current)"
    and st: "segment now uuid (Returned v) (Acquire_available cx current) c = (c', e)"
  shows "control_inv c' \<and> extends (tc_heap c) (tc_heap c') \<and> (\<forall>w t. e \<noteq> Await w t)"
proof (cases "truthy (opt_field v ''ok'')")
  case True
  show ?thesis
  proof (cases current)
    case (Some i)
    let ?c = "arm now i c"
    let ?d = "?c\<lparr>tc_leases := jset (context_key cx) i (tc_leases ?c)\<rparr>"
    have i: "i < length (tc_heap c)" "le_key (tc_heap c ! i) = context_key cx" using t Some by simp_all
    have ex: "extends (tc_heap c) (tc_heap ?c)" by (rule arm_extends [OF i(1)])
    have "control_inv ?d"
      by (rule control_inv_heap [OF inv])
         (use i ex in \<open>auto simp: extends_def split: if_splits\<close>)
    with st Some True ex show ?thesis by (auto simp: Let_def)
  next
    case None
    let ?l = "\<lparr>le_key = context_key cx, le_leaseId = js ''lease-'' @ uuid,
        le_deviceId = cx_deviceId cx, le_connectionId = cx_connectionId cx,
        le_session = cx_session cx, le_projectId = cx_projectId cx, le_terminalId = cx_targetId cx,
        le_geometry = geometry_of (opt_field v ''geometry''), le_expiresAt = 0, le_timer = None\<rparr>"
    let ?i = "length (tc_heap c)" and ?a = "c\<lparr>tc_heap := tc_heap c @ [?l]\<rparr>"
    let ?c = "arm now ?i ?a"
    let ?d = "?c\<lparr>tc_leases := jset (context_key cx) ?i (tc_leases ?c)\<rparr>"
    have e1: "extends (tc_heap ?a) (tc_heap ?c)" by (rule arm_extends) simp
    then have ex: "extends (tc_heap c) (tc_heap ?c)" by (rule extends_trans [rotated]) simp
    have "le_key (tc_heap ?c ! ?i) = context_key cx" using e1 by (simp add: extends_def)
    then have "control_inv ?d"
      by (intro control_inv_heap [OF inv]) (use ex in \<open>auto split: if_splits\<close>)
    with st None True ex show ?thesis by (auto simp: Let_def)
  qed
qed (use inv st in auto)

lemma segment_inv:
  assumes inv: "control_inv c" and t: "task_ok (tc_heap c) t" and st: "segment now uuid reply t c = (c', e)"
  shows "control_inv c' \<and> extends (tc_heap c) (tc_heap c') \<and> (\<forall>w t. e = Await w t \<longrightarrow> task_ok (tc_heap c') t)"
proof (cases t)
  case (Acquire_enter cx)
  then show ?thesis using st inv expire_inv [OF inv, of now "context_key cx"]
    by (auto simp: invalid_request_def expire_heap split: if_splits prod.splits)
next
  case (Acquire_restored cx)
  then show ?thesis using st inv by (auto simp: control_inv_lease split: option.splits if_splits)
next
  case (Acquire_available cx current)
  then show ?thesis using acquired_inv [OF inv, of cx current] st t inv
    by (cases reply) (auto simp del: segment.simps(4), auto)
next
  case (Lease_enter lop cx)
  then show ?thesis using st inv expire_inv [OF inv, of now "context_key cx"]
    by (auto simp: invalid_request_def expire_heap split: if_splits prod.splits)
next
  case (Lease_expired lop cx)
  then show ?thesis using st inv
    by (auto simp: control_inv_lease presents_def split: option.splits if_splits)
next
  case (Lease_checked lop cx i)
  then show ?thesis using lease_body_inv [OF inv, of cx i now lop c' e] st t by simp
next
  case (Adapter_replied lop)
  then show ?thesis using st inv by (auto split: reply.splits if_splits)
qed (use inv st in auto)

lemma control_step_inv: "control_step s s' \<Longrightarrow> system_inv s \<Longrightarrow> system_inv s'"
proof (induction rule: control_step.induct)
  case (Run_await i ts w t c now uuid reply c' w' t')
  have t: "control_inv c" "task_ok (tc_heap c) t"
    using Run_await.prems nth_mem [OF Run_await.hyps(1)] Run_await.hyps(2) by (auto simp: system_inv_def)
  note seg = segment_inv [OF t Run_await.hyps(4)]
  have "task_ok (tc_heap c') u" if "(x, u) \<in> set (ts[i := (w', t')])" for x u
    using set_update_subset_insert [of ts i "(w', t')"] that seg Run_await.prems extends_task_ok
    by (fastforce simp: system_inv_def)
  with seg show ?case by (simp add: system_inv_def)
next
  case (Run_finish i ts w t c now uuid reply c' e)
  have t: "control_inv c" "task_ok (tc_heap c) t"
    using Run_finish.prems nth_mem [OF Run_finish.hyps(1)] Run_finish.hyps(2) by (auto simp: system_inv_def)
  note seg = segment_inv [OF t Run_finish.hyps(4)]
  have "task_ok (tc_heap c') u" if "(x, u) \<in> set (take i ts @ drop (i + 1) ts)" for x u
    using that seg Run_finish.prems extends_task_ok
    by (fastforce simp: system_inv_def dest: in_set_takeD in_set_dropD)
  with seg show ?case by (simp add: system_inv_def)
next
  case (Close_session c ts session)
  then show ?case using fold_heap [of "\<lambda>k c. fst (drop_lease k c)" c]
    by (simp add: release_session_def Let_def system_inv_def drop_lease_inv)
next
  case (Dispose c ts)
  then show ?case using fold_heap [of "\<lambda>k c. fst (drop_lease k c)" c]
    by (simp add: dispose_def system_inv_def drop_lease_inv)
next
  case (Stats c ts now)
  then show ?case using fold_heap [of "\<lambda>k c. fst (expire_if_needed now k c)" c]
    by (simp add: control_stats_def Let_def system_inv_def expire_inv)
qed (auto simp: system_inv_def fire_timer_inv restore_call_inv restore_settled_inv)

lemma control_reach_inv: "control_reach s s' \<Longrightarrow> system_inv s \<Longrightarrow> system_inv s'"
  by (induction rule: control_reach.induct) (auto intro: control_step_inv)

lemma new_control_inv: "new_control ttl = Inr c \<Longrightarrow> system_inv (c, [])"
  by (auto simp: new_control_def system_inv_def control_inv_def result_simps split: option.splits)

section \<open>Acquiring with nothing in between\<close>

text \<open>The three segments of \<open>acquire\<close> before its call to \<open>available\<close>, on an object without restores.\<close>

lemma acquire_to_available:
  assumes "identity_ok cx" "tc_leases c = []" "tc_restores c = []" "control_reach s (c, ts)"
  shows "control_reach s (c, ts @ [(None, Acquire_available cx None)])"
proof -
  have r0: "control_reach s (c, ts @ [(None, Acquire_enter cx)])"
    by (rule Control_more [OF assms(4) Call_acquire])
  have step: "control_reach s (c, ts @ [(None, t')])"
    if "control_reach s (c, ts @ [(None, t)])" "segment 0 [] Threw t c = (c, Await None t')" for t t'
  proof (rule Control_more [OF that(1)])
    have "control_step (c, ts @ [(None, t)]) (c, (ts @ [(None, t)])[length ts := (None, t')])"
      by (rule Run_await [where w = None, OF _ _ _ that(2)]) (simp_all add: ready_def)
    then show "control_step (c, ts @ [(None, t)]) (c, ts @ [(None, t')])" by simp
  qed
  have "control_reach s (c, ts @ [(None, Acquire_expired cx)])"
    by (rule step [OF r0]) (simp add: assms(1,2) expire_if_needed_def)
  then have "control_reach s (c, ts @ [(None, Acquire_restored cx)])"
    by (rule step) (simp add: assms(3))
  then show ?thesis by (rule step) (simp add: assms(2))
qed

lemma acquire_available_new:
  assumes "truthy (opt_field v ''ok'')"
  shows "\<exists>c' r. segment now uuid (Returned v) (Acquire_available cx None) c = (c', Finished r) \<and> cr_ok r \<and>
    jget (tc_leases c') (context_key cx) = Some (length (tc_heap c)) \<and>
    length (tc_heap c) < length (tc_heap c') \<and>
    le_deviceId (tc_heap c' ! length (tc_heap c)) = cx_deviceId cx \<and>
    le_expiresAt (tc_heap c' ! length (tc_heap c)) = now + tc_ttlMs c \<and> tc_ttlMs c' = tc_ttlMs c"
  using assms by (simp add: Let_def arm_def control_result_of_def clear_timer_def)

section \<open>Properties\<close>

text \<open>
  C2. Every effect on a terminal is authorized by a lease. However calls, timers, restores and session
  teardown interleave, each write, resize and interrupt that reached the adapter was made by a call
  whose device and connection hold a lease on that very terminal and which presented the lease's id;
  inputs have between 1 and 16384 bytes, sizes are within the supported range; and a restore sets
  exactly the geometry recorded when the lease was granted.
\<close>

theorem terminal_effects_authorized:
  assumes "new_control ttl = Inr c0" and "control_reach (c0, []) (c, ts)"
    and "e \<in> set (tc_effects c)"
  shows "case e of
      Write_input cx i s \<Rightarrow> presents (tc_heap c) cx i \<and>
        1 \<le> length (utf8_encode s) \<and> length (utf8_encode s) \<le> 16384
    | Resize_terminal cx i cols rows \<Rightarrow> presents (tc_heap c) cx i \<and>
        20 \<le> cols \<and> cols \<le> 400 \<and> 5 \<le> rows \<and> rows \<le> 200
    | Interrupt_terminal cx i \<Rightarrow> presents (tc_heap c) cx i
    | Restore_geometry i cols rows \<Rightarrow>
        i < length (tc_heap c) \<and> le_geometry (tc_heap c ! i) = Some (cols, rows)"
proof -
  have "system_inv (c, ts)" by (rule control_reach_inv [OF assms(2) new_control_inv [OF assms(1)]])
  then have "effect_ok (tc_heap c) e" using assms(3) by (simp add: system_inv_def control_inv_def)
  then show ?thesis
    by (cases e) (simp_all add: MAX_TERMINAL_INPUT_BYTES_def MIN_COLS_def MAX_COLS_def MIN_ROWS_def MAX_ROWS_def)
qed

theorem terminal_effects_authorized_witness:
  "\<exists>c0 c ts cx. new_control (Some (JInt 1000)) = Inr c0 \<and> control_reach (c0, []) (c, ts) \<and>
     Interrupt_terminal cx 0 \<in> set (tc_effects c) \<and> presents (tc_heap c) cx 0"
proof -
  let ?c0 = "\<lparr>tc_ttlMs = 1000, tc_heap = [], tc_leases = [], tc_restores = [], tc_pending = [],
    tc_timers = [], tc_fresh = 0, tc_effects = []\<rparr>"
  let ?cx = "\<lparr>cx_deviceId = js ''d'', cx_connectionId = js ''d'', cx_session = 0, cx_projectId = js ''p'',
      cx_targetId = js ''t'', cx_payload = Some (JObj [(js ''leaseId'', JStr (js ''lease-x''))])\<rparr>"
  let ?ok = "Returned (Some (JObj [(js ''ok'', JBool True)]))"
  have c0: "new_control (Some (JInt 1000)) = Inr ?c0" by (simp add: new_control_def exec_simps)
  have id: "identity_ok ?cx" by (simp add: identity_ok_def)
  have ok: "truthy (opt_field (Some (JObj [(js ''ok'', JBool True)])) ''ok'')"
    by (simp add: opt_field_def field_def)
  have avail: "control_reach (?c0, []) (?c0, [] @ [(None, Acquire_available ?cx None)])"
    by (rule acquire_to_available [OF id _ _ Control_start]) simp_all
  obtain c1 r where s1: "segment 0 (js ''x'') ?ok (Acquire_available ?cx None) ?c0 = (c1, Finished r)"
    using acquire_available_new [OF ok, of 0 "js ''x''" ?cx ?c0] by blast
  have c1: "tc_heap c1 ! 0 = \<lparr>le_key = context_key ?cx, le_leaseId = js ''lease-x'', le_deviceId = js ''d'',
      le_connectionId = js ''d'', le_session = 0, le_projectId = js ''p'', le_terminalId = js ''t'',
      le_geometry = None, le_expiresAt = 1000, le_timer = Some 0\<rparr>"
    "jget (tc_leases c1) (context_key ?cx) = Some 0" "tc_effects c1 = []"
    using s1 by (auto simp: Let_def arm_def clear_timer_def geometry_of_def opt_field_def field_def js_def)
  have "control_step (?c0, [(None, Acquire_available ?cx None)]) (c1, take 0 [(None, Acquire_available ?cx None)] @
      drop (0 + 1) [(None, Acquire_available ?cx None)])"
    by (rule Run_finish [where w = None, OF _ _ _ s1]) (simp_all add: ready_def)
  then have r1: "control_reach (?c0, []) (c1, [])" using Control_more [OF avail] by simp
  have step: "control_reach s (c', [(None, t')])"
    if "control_reach s (c, [(None, t)])" "segment 5 [] Threw t c = (c', Await None t')" for s c c' t t'
  proof (rule Control_more [OF that(1)])
    have "control_step (c, [(None, t)]) (c', [(None, t)][0 := (None, t')])"
      by (rule Run_await [where w = None, OF _ _ _ that(2)]) (simp_all add: ready_def)
    then show "control_step (c, [(None, t)]) (c', [(None, t')])" by simp
  qed
  have "control_reach (?c0, []) (c1, [(None, Lease_enter Interrupt ?cx)])"
    using Control_more [OF r1 Call_lease] by simp
  then have "control_reach (?c0, []) (c1, [(None, Lease_expired Interrupt ?cx)])"
    by (rule step) (simp add: id expire_if_needed_def c1)
  then have "control_reach (?c0, []) (c1, [(None, Lease_checked Interrupt ?cx 0)])"
    by (rule step) (simp add: c1 same_holder_def opt_field_def field_def)
  then have reach: "control_reach (?c0, []) (c1\<lparr>tc_effects := [Interrupt_terminal ?cx 0]\<rparr>,
      [(None, Adapter_replied Interrupt)])"
    by (rule step) (simp add: lease_body_def c1)
  from terminal_effects_authorized [OF c0 reach, of "Interrupt_terminal ?cx 0"] c0 reach show ?thesis
    by fastforce
qed

text \<open>
  Two acquisitions can both succeed. \<open>acquire\<close> looks for a current lease before it awaits
  \<open>available\<close> and not after, so for any two devices there is a reachable state in which the first
  holds an unexpired lease and a call of the second, already past the check, is granted a lease on the
  same terminal: the lease of the first is replaced without having expired or been released.
\<close>

theorem terminal_acquire_race:
  assumes "new_control ttl = Inr c0"
    and "identity_ok first_cx" and "identity_ok second_cx"
    and "context_key first_cx = context_key second_cx"
    and "truthy (opt_field v ''ok'')" and "now' < now + tc_ttlMs c0"
  shows "\<exists>c t c' r i.
      control_reach (c0, []) (c, [(None, t)]) \<and>
      jget (tc_leases c) (context_key first_cx) = Some i \<and>
      le_deviceId (tc_heap c ! i) = cx_deviceId first_cx \<and> now' < le_expiresAt (tc_heap c ! i) \<and>
      segment now' uuid (Returned v) t c = (c', Finished r) \<and> cr_ok r \<and>
      (\<exists>j. jget (tc_leases c') (context_key first_cx) = Some j \<and> j \<noteq> i \<and>
        le_deviceId (tc_heap c' ! j) = cx_deviceId second_cx)"
proof -
  let ?s = "(None, Acquire_available second_cx None)" and ?f = "(None, Acquire_available first_cx None)"
  have c0: "tc_leases c0 = []" "tc_restores c0 = []" "tc_heap c0 = []"
    using assms(1) by (auto simp: new_control_def result_simps split: option.splits)
  have "control_reach (c0, []) (c0, [] @ [?s])"
    by (rule acquire_to_available [OF assms(3) c0(1,2) Control_start])
  then have both: "control_reach (c0, []) (c0, [?s, ?f])"
    using acquire_to_available [OF assms(2) c0(1,2), of "(c0, [])" "[?s]"] by simp
  obtain c1 r1 where s1: "segment now [] (Returned v) (Acquire_available first_cx None) c0 = (c1, Finished r1)"
    "jget (tc_leases c1) (context_key first_cx) = Some 0" "0 < length (tc_heap c1)"
    "le_deviceId (tc_heap c1 ! 0) = cx_deviceId first_cx"
    "le_expiresAt (tc_heap c1 ! 0) = now + tc_ttlMs c0"
    using acquire_available_new [OF assms(5), of now "[]" first_cx c0] c0(3) by auto
  have "control_step (c0, [?s, ?f]) (c1, take 1 [?s, ?f] @ drop (1 + 1) [?s, ?f])"
    by (rule Run_finish [where w = None, OF _ _ _ s1(1)]) (simp_all add: ready_def)
  then have reach: "control_reach (c0, []) (c1, [?s])" using Control_more [OF both] by simp
  obtain c2 r2 where s2: "segment now' uuid (Returned v) (Acquire_available second_cx None) c1 = (c2, Finished r2)"
    "cr_ok r2" "jget (tc_leases c2) (context_key second_cx) = Some (length (tc_heap c1))"
    "le_deviceId (tc_heap c2 ! length (tc_heap c1)) = cx_deviceId second_cx"
    using acquire_available_new [OF assms(5), of now' uuid second_cx c1] by blast
  have "now' < le_expiresAt (tc_heap c1 ! 0)" using s1(5) assms(6) by simp
  moreover have "length (tc_heap c1) \<noteq> 0" using s1(3) by simp
  ultimately show ?thesis using reach s1 s2 assms(4) by metis
qed

definition example_context :: "string \<Rightarrow> control_context" where
  "example_context d =
     \<lparr>cx_deviceId = js d, cx_connectionId = js d, cx_session = 0, cx_projectId = js ''p'',
      cx_targetId = js ''t'', cx_payload = Some (JObj [(js ''leaseId'', JStr (js ''lease-x''))])\<rparr>"

theorem terminal_acquire_race_witness:
  "\<exists>c0 c t c' r i. new_control (Some (JInt 1000)) = Inr c0 \<and>
      control_reach (c0, []) (c, [(None, t)]) \<and>
      jget (tc_leases c) (context_key (example_context ''a'')) = Some i \<and> 500 < le_expiresAt (tc_heap c ! i) \<and>
      segment 500 [] (Returned (Some (JObj [(js ''ok'', JBool True)]))) t c = (c', Finished r) \<and> cr_ok r"
proof -
  have "is_ok (new_control (Some (JInt 1000)))" by (simp add: new_control_def exec_simps)
  then obtain c0 where c0: "new_control (Some (JInt 1000)) = Inr c0" by (auto simp: is_ok_iff)
  then have "tc_ttlMs c0 = 1000" by (auto simp: new_control_def exec_simps)
  then have "500 < 0 + tc_ttlMs c0" by simp
  moreover have "identity_ok (example_context d)" if "d \<noteq> []" for d
    using that by (simp add: identity_ok_def example_context_def)
  moreover have "context_key (example_context ''a'') = context_key (example_context ''b'')"
    by (simp add: context_key_def example_context_def)
  moreover have "truthy (opt_field (Some (JObj [(js ''ok'', JBool True)])) ''ok'')"
    by (simp add: opt_field_def field_def)
  ultimately show ?thesis
    using terminal_acquire_race [OF c0, of "example_context ''a''" "example_context ''b''"
      "Some (JObj [(js ''ok'', JBool True)])" 500 0 "[]"] c0 by blast
qed

end
