(* ===== verification/Link_Protocol.thy ===== *)
theory Link_Protocol
  imports Companion_Protocol
begin

text \<open>
  The multiplexing frames between the relay and a desktop: the desktop's codec of
  \<open>electron/companion/linkProtocol.cjs\<close> and the relay's own copy in \<open>relay/src/index.js\<close>. A frame is
  the version, the type, the length of the channel id, the channel id and the payload. \<open>None\<close> is the
  thrown \<open>invalid relay multiplex frame\<close>.
\<close>

section \<open>The desktop's codec\<close>

definition MUX_VERSION :: byte where "MUX_VERSION = 1"
definition MUX_OPEN :: byte where "MUX_OPEN = 1"
definition MUX_DATA :: byte where "MUX_DATA = 2"
definition MUX_CLOSE :: byte where "MUX_CLOSE = 3"
definition MAX_RELAY_MESSAGE_BYTES :: nat where "MAX_RELAY_MESSAGE_BYTES = 2 * 1024 * 1024"
definition CHANNEL_ID_BYTES :: nat where "CHANNEL_ID_BYTES = 22"
definition MUX_FRAME_OVERHEAD :: nat where "MUX_FRAME_OVERHEAD = 64"
definition MAX_RELAY_DEVICE_PAYLOAD_BYTES :: nat where
  "MAX_RELAY_DEVICE_PAYLOAD_BYTES = MAX_RELAY_MESSAGE_BYTES - MUX_FRAME_OVERHEAD"

definition channel_re :: "jstr \<Rightarrow> bool" where
  "channel_re s = (length s = CHANNEL_ID_BYTES \<and> list_all is_b64url_unit s)"

definition mux_type_ok :: "byte \<Rightarrow> bool" where
  "mux_type_ok t = (t = MUX_OPEN \<or> t = MUX_DATA \<or> t = MUX_CLOSE)"

text \<open>\<open>asBuffer\<close> gives \<open>null\<close> for a value that is no byte array, here \<open>None\<close>.\<close>

definition encode_mux_frame :: "byte \<Rightarrow> jstr \<Rightarrow> bytes option \<Rightarrow> bytes option" where
  "encode_mux_frame ty channel_id payload =
     (if \<not> mux_type_ok ty \<or> \<not> channel_re channel_id then None
      else
        let channel = utf8_encode channel_id in
        case payload of
          None \<Rightarrow> None
        | Some body \<Rightarrow>
            if 3 + length channel + length body > MAX_RELAY_MESSAGE_BYTES then None
            else Some ([MUX_VERSION, ty, of_nat (length channel)] @ channel @ body))"

record mux_frame =
  mf_type :: byte
  mf_channelId :: jstr
  mf_payload :: bytes

definition mux_header_ok :: "bytes \<Rightarrow> bool" where
  "mux_header_ok b =
     (4 \<le> length b \<and> length b \<le> MAX_RELAY_MESSAGE_BYTES \<and> b ! 0 = MUX_VERSION \<and> mux_type_ok (b ! 1) \<and>
      1 \<le> unat (b ! 2) \<and> 3 + unat (b ! 2) \<le> length b)"

definition decode_mux_frame :: "bytes option \<Rightarrow> mux_frame option" where
  "decode_mux_frame v =
     (case v of
        None \<Rightarrow> None
      | Some b \<Rightarrow>
          if \<not> mux_header_ok b then None
          else
            let channel_length = unat (b ! 2);
                channel_id = utf8_decode (subarray 3 (3 + channel_length) b) in
            if \<not> channel_re channel_id then None
            else Some \<lparr>mf_type = b ! 1, mf_channelId = channel_id, mf_payload = drop (3 + channel_length) b\<rparr>)"

section \<open>The relay's codec\<close>

text \<open>
  The relay writes the same bytes, but reads the channel id with a fatal \<open>TextDecoder\<close>, which
  rejects malformed UTF-8 and removes a leading byte order mark.
\<close>

definition strip_bom :: "jstr \<Rightarrow> jstr" where
  "strip_bom s = (case s of u # us \<Rightarrow> if u = 0xFEFF then us else s | [] \<Rightarrow> [])"

definition fatal_decode :: "bytes \<Rightarrow> jstr option" where
  "fatal_decode b = (if utf8_ok b then Some (strip_bom (utf8_decode b)) else None)"

definition relay_encode_mux_frame :: "byte \<Rightarrow> jstr \<Rightarrow> bytes option \<Rightarrow> bytes option" where
  "relay_encode_mux_frame ty channel_id payload =
     (if \<not> mux_type_ok ty \<or> \<not> channel_re channel_id then None
      else
        let channel = utf8_encode channel_id in
        case payload of
          None \<Rightarrow> None
        | Some body \<Rightarrow>
            if 3 + length channel + length body > MAX_RELAY_MESSAGE_BYTES then None
            else Some (MUX_VERSION # ty # of_nat (length channel) # channel @ body))"

definition relay_decode_mux_frame :: "bytes option \<Rightarrow> mux_frame option" where
  "relay_decode_mux_frame v =
     (case v of
        None \<Rightarrow> None
      | Some b \<Rightarrow>
          if \<not> mux_header_ok b then None
          else
            let channel_length = unat (b ! 2) in
            case fatal_decode (subarray 3 (3 + channel_length) b) of
              None \<Rightarrow> None
            | Some channel_id \<Rightarrow>
                if \<not> channel_re channel_id then None
                else Some \<lparr>mf_type = b ! 1, mf_channelId = channel_id,
                           mf_payload = drop (3 + channel_length) b\<rparr>)"

section \<open>ASCII text\<close>

definition ascii :: "jstr \<Rightarrow> bool" where
  "ascii s = list_all (\<lambda>u. unat u < 128) s"

lemma cps_of_units_ascii: "ascii s \<Longrightarrow> cps_of_units s = map unat s"
  by (induction s rule: cps_of_units.induct) (auto simp: ascii_def is_high_def is_low_def)

lemma utf8_encode_ascii: "ascii s \<Longrightarrow> utf8_encode s = map (\<lambda>u. of_nat (unat u)) s"
  unfolding utf8_encode_def
  by (simp only: cps_of_units_ascii) (induction s; simp add: ascii_def enc_cp_def)

lemma length_utf8_encode_ascii: "ascii s \<Longrightarrow> length (utf8_encode s) = length s"
  by (simp add: utf8_encode_ascii)

lemma well_formed_ascii: "ascii s \<Longrightarrow> well_formed s"
  unfolding well_formed_def
  by (simp only: cps_of_units_ascii) (induction s; simp add: ascii_def units_of_cp_def)

lemma utf8_decode_encode_ascii: "ascii s \<Longrightarrow> utf8_decode (utf8_encode s) = s"
  by (simp add: utf8_decode_encode well_formed_ascii)

lemma b64url_unit_ascii: "is_b64url_unit u \<Longrightarrow> unat u < 128"
  by (auto simp: is_b64url_unit_def is_alnum_unit_def is_digit_unit_def word_le_nat_alt)

lemma channel_re_ascii: "channel_re s \<Longrightarrow> ascii s"
  by (auto simp: channel_re_def ascii_def list_all_iff b64url_unit_ascii)

text \<open>Malformed bytes leave a replacement character behind.\<close>

lemma utf8_valid_no_replacement: "65533 \<notin> set (utf8_cps bs) \<Longrightarrow> utf8_valid bs"
proof (induction bs rule: utf8_cps.induct)
  case (2 a bs)
  then show ?case by (cases "fst (utf8_next (a # bs))") (auto simp: utf8_cps.simps utf8_valid.simps)
qed simp

lemma utf8_decode_ascii_ok:
  assumes "ascii (utf8_decode bs)"
  shows "utf8_ok bs"
proof -
  have "65533 \<notin> set (utf8_cps (map unat bs))"
  proof
    assume "65533 \<in> set (utf8_cps (map unat bs))"
    then have "set (units_of_cp 65533) \<subseteq> set (utf8_decode bs)" by (auto simp: utf8_decode_def)
    then have "(65533 :: 16 word) \<in> set (utf8_decode bs)" by (simp add: units_of_cp_def)
    with assms have "unat (65533 :: 16 word) < 128" unfolding ascii_def list_all_iff by blast
    then show False by simp
  qed
  then show ?thesis by (simp add: utf8_ok_def utf8_valid_no_replacement)
qed

section \<open>Properties\<close>

lemma length_channel: "channel_re c \<Longrightarrow> length (utf8_encode c) = 22"
  by (simp add: channel_re_ascii length_utf8_encode_ascii) (simp add: channel_re_def CHANNEL_ID_BYTES_def)

lemma encode_mux_frame_Some:
  "encode_mux_frame ty c (Some p) = Some b \<longleftrightarrow>
     mux_type_ok ty \<and> channel_re c \<and> 25 + length p \<le> MAX_RELAY_MESSAGE_BYTES \<and>
     b = [MUX_VERSION, ty, 22] @ utf8_encode c @ p"
  by (auto simp: encode_mux_frame_def Let_def length_channel split: if_splits)

lemma decode_parts:
  assumes "length c = n" "n < 256" "1 \<le> n"
  shows "mux_header_ok ([MUX_VERSION, ty, of_nat n] @ c @ p) \<longleftrightarrow>
      mux_type_ok ty \<and> 3 + n + length p \<le> MAX_RELAY_MESSAGE_BYTES"
    "subarray 3 (3 + n) ([MUX_VERSION, ty, of_nat n] @ c @ p) = c"
    "drop (3 + n) ([MUX_VERSION, ty, of_nat n] @ c @ p) = p"
proof -
  let ?h = "[MUX_VERSION, ty, of_nat n]"
  show "mux_header_ok (?h @ c @ p) \<longleftrightarrow> mux_type_ok ty \<and> 3 + n + length p \<le> MAX_RELAY_MESSAGE_BYTES"
    using assms by (auto simp: mux_header_ok_def unat_of_nat)
  have d: "drop 3 (?h @ c @ p) = c @ p" by simp
  then show "subarray 3 (3 + n) (?h @ c @ p) = c" using assms by (simp add: subarray_def)
  have "drop (3 + n) (?h @ c @ p) = drop n (drop 3 (?h @ c @ p))" by (simp only: drop_drop add.commute)
  then show "drop (3 + n) (?h @ c @ p) = p" using assms unfolding d by simp
qed

lemma mux_header_cases:
  assumes "mux_header_ok b"
  obtains ty c p where "b = [MUX_VERSION, ty, of_nat (length c)] @ c @ p" "length c < 256" "1 \<le> length c"
proof -
  obtain x y z r where b: "b = x # y # z # r"
    using assms by (auto simp: mux_header_ok_def numeral_eq_Suc Suc_le_length_iff)
  have z: "unat z \<le> length r" "1 \<le> unat z" "x = MUX_VERSION"
    using assms by (auto simp: mux_header_ok_def b)
  have "unat z < 256" using unsigned_less [of z, where ?'a = nat] by simp
  moreover have "b = [MUX_VERSION, y, of_nat (length (take (unat z) r))] @ take (unat z) r @ drop (unat z) r"
    using z by (simp add: b)
  ultimately show ?thesis using that [of y "take (unat z) r" "drop (unat z) r"] z by simp
qed

text \<open>
  C23. The multiplexing codec round trips: a frame that was encoded is decoded to the same type, channel
  and payload by the desktop and by the relay, and the relay encodes the same bytes.
\<close>

theorem mux_frame_roundtrip:
  "encode_mux_frame ty c (Some p) = Some b \<Longrightarrow>
     decode_mux_frame (Some b) = Some \<lparr>mf_type = ty, mf_channelId = c, mf_payload = p\<rparr> \<and>
     relay_decode_mux_frame (Some b) = Some \<lparr>mf_type = ty, mf_channelId = c, mf_payload = p\<rparr> \<and>
     relay_encode_mux_frame ty c (Some p) = Some b \<and> length b = 25 + length p"
proof -
  assume enc: "encode_mux_frame ty c (Some p) = Some b"
  have b: "mux_type_ok ty" "channel_re c" "25 + length p \<le> MAX_RELAY_MESSAGE_BYTES"
    "b = [MUX_VERSION, ty, of_nat 22] @ utf8_encode c @ p"
    using enc by (simp_all add: encode_mux_frame_Some)
  note parts = decode_parts [of "utf8_encode c" 22 ty p, OF length_channel [OF b(2)]]
  have h: "mux_header_ok b" "subarray 3 (3 + 22) b = utf8_encode c" "drop (3 + 22) b = p"
    unfolding b(4) using parts b(1,3) by simp_all
  have i: "unat (b ! 2) = 22" "b ! 1 = ty" by (simp_all add: b(4))
  have dec: "utf8_decode (utf8_encode c) = c" using b(2) by (simp add: channel_re_ascii utf8_decode_encode_ascii)
  have "strip_bom c = c"
  proof (cases c)
    case (Cons u us)
    then have "is_b64url_unit u" using b(2) by (simp add: channel_re_def)
    then have "u \<noteq> 0xFEFF" by (auto simp: is_b64url_unit_def is_alnum_unit_def is_digit_unit_def)
    with Cons show ?thesis by (simp add: strip_bom_def)
  qed (simp add: strip_bom_def)
  moreover have "relay_encode_mux_frame ty c (Some p) = Some b"
    using b length_channel [OF b(2)] by (simp add: relay_encode_mux_frame_def)
  ultimately show ?thesis using h i b(2) length_channel [OF b(2)]
    by (simp add: decode_mux_frame_def relay_decode_mux_frame_def fatal_decode_def Let_def dec b(4))
qed

text \<open>
  The desktop accepts canonical frames only: the bytes of a frame it accepts are the encoding of
  what it returns, so no two messages read as the same frame.
\<close>

theorem mux_frame_canonical:
  "decode_mux_frame (Some b) = Some f \<Longrightarrow>
     encode_mux_frame (mf_type f) (mf_channelId f) (Some (mf_payload f)) = Some b"
proof -
  assume dec: "decode_mux_frame (Some b) = Some f"
  then have "mux_header_ok b" by (simp add: decode_mux_frame_def split: if_splits)
  then obtain ty c p where b: "b = [MUX_VERSION, ty, of_nat (length c)] @ c @ p" "length c < 256" "1 \<le> length c"
    by (rule mux_header_cases)
  note parts = decode_parts [OF refl b(2,3), of ty p, folded b(1)]
  have i: "unat (b ! 2) = length c" "b ! 1 = ty" using b(2) by (simp_all add: b(1) unat_of_nat)
  have f: "channel_re (utf8_decode c)" "mux_type_ok ty" "3 + length c + length p \<le> MAX_RELAY_MESSAGE_BYTES"
    "f = \<lparr>mf_type = ty, mf_channelId = utf8_decode c, mf_payload = p\<rparr>"
    using dec parts i by (auto simp: decode_mux_frame_def Let_def split: if_splits)
  have "utf8_ok c" by (rule utf8_decode_ascii_ok [OF channel_re_ascii [OF f(1)]])
  then have c: "utf8_encode (utf8_decode c) = c" by (simp add: utf8_encode_decode)
  then have "length c = 22" using length_channel [OF f(1)] by simp
  then show ?thesis using f by (simp add: encode_mux_frame_Some c b(1))
qed

text \<open>
  The two copies of the decoder are not the same: the relay removes a byte order mark in front of
  a channel id, so it accepts frames that the desktop's decoder rejects.
\<close>

theorem mux_decoders_differ:
  assumes "channel_re c" and "mux_type_ok ty" and "28 + length p \<le> MAX_RELAY_MESSAGE_BYTES"
    and "b = [MUX_VERSION, ty, 25, 0xEF, 0xBB, 0xBF] @ utf8_encode c @ p"
  shows "decode_mux_frame (Some b) = None \<and>
    relay_decode_mux_frame (Some b) = Some \<lparr>mf_type = ty, mf_channelId = c, mf_payload = p\<rparr>"
proof -
  define x where "x = [0xEF, 0xBB, 0xBF] @ utf8_encode c"
  have len: "length x = 25" using length_channel [OF assms(1)] by (simp add: x_def)
  have b: "b = [MUX_VERSION, ty, of_nat 25] @ x @ p" by (simp add: assms(4) x_def)
  note parts = decode_parts [OF len, of ty p, folded b]
  have i: "unat (b ! 2) = 25" "b ! 1 = ty" by (simp_all add: b)
  have bom: "[0xEF, 0xBB, 0xBF] = utf8_encode [0xFEFF]"
    by (simp add: utf8_encode_def is_high_def is_low_def enc_cp_def)
  have wf: "well_formed [0xFEFF]" by (simp add: well_formed_def is_high_def is_low_def units_of_cp_def)
  have dec: "utf8_decode x = 0xFEFF # c"
    unfolding x_def bom utf8_decode_append [OF utf8_encode_ok]
    using assms(1) wf by (simp add: utf8_decode_encode channel_re_ascii well_formed_ascii)
  have ok: "utf8_ok x" unfolding x_def bom by (rule utf8_ok_append) simp_all
  have "\<not> channel_re (0xFEFF # c)" using assms(1) by (simp add: channel_re_def)
  then show ?thesis using assms(1-3) parts ok i
    by (simp add: decode_mux_frame_def relay_decode_mux_frame_def fatal_decode_def Let_def dec strip_bom_def)
qed

definition example_channel :: jstr where "example_channel = replicate 22 97"

lemma example_channel_re: "channel_re example_channel"
  by (simp add: example_channel_def channel_re_def CHANNEL_ID_BYTES_def exec_simps list_all_iff)

theorem mux_frame_roundtrip_witness:
  "\<exists>b. encode_mux_frame 2 example_channel (Some [1, 2]) = Some b \<and>
     decode_mux_frame (Some b) = Some \<lparr>mf_type = 2, mf_channelId = example_channel, mf_payload = [1, 2]\<rparr>"
proof -
  have "encode_mux_frame 2 example_channel (Some [1, 2]) =
      Some ([MUX_VERSION, 2, 22] @ utf8_encode example_channel @ [1, 2])"
    using example_channel_re
    by (simp add: encode_mux_frame_Some mux_type_ok_def MUX_DATA_def MAX_RELAY_MESSAGE_BYTES_def)
  from mux_frame_roundtrip [OF this] this show ?thesis by blast
qed

theorem mux_frame_canonical_witness:
  "encode_mux_frame 3 example_channel (Some []) = Some ([MUX_VERSION, 3, 22] @ utf8_encode example_channel)"
proof -
  let ?f = "\<lparr>mf_type = 3, mf_channelId = example_channel, mf_payload = []\<rparr>"
  let ?b = "[MUX_VERSION, 3, of_nat 22] @ utf8_encode example_channel @ []"
  note parts = decode_parts [of "utf8_encode example_channel" 22 3 "[]", OF length_channel [OF example_channel_re]]
  have "decode_mux_frame (Some ?b) = Some ?f"
    using parts example_channel_re
    by (simp add: decode_mux_frame_def mux_type_ok_def MUX_CLOSE_def MAX_RELAY_MESSAGE_BYTES_def
        utf8_decode_encode_ascii channel_re_ascii length_channel)
  from mux_frame_canonical [OF this] show ?thesis by simp
qed

theorem mux_decoders_differ_witness:
  "decode_mux_frame (Some ([MUX_VERSION, 2, 25, 0xEF, 0xBB, 0xBF] @ utf8_encode example_channel @ [])) = None"
  using mux_decoders_differ [OF example_channel_re _ _ refl, of 2 "[]"]
  by (simp add: mux_type_ok_def MUX_DATA_def MAX_RELAY_MESSAGE_BYTES_def)

end
