(* ===== verification/Relay.thy ===== *)
theory Relay
  imports Link_Protocol
begin

text \<open>
  The account room of the Kaisola Link relay, \<open>relay/src/index.js\<close>: tickets that are issued, stored
  by digest and consumed once, the sockets of an account's desktops and devices, and the forwarding of
  frames between them. SHA-256 and HMAC are parameters; random tokens, the clock and the buffering of
  sockets are inputs. \<open>rm_log\<close> records what the room sends and which sockets it closes.
\<close>

section \<open>Requests and tickets\<close>

definition MAX_AUTH_TOKEN_BYTES :: nat where "MAX_AUTH_TOKEN_BYTES = 20000"
definition MAX_REQUEST_BYTES :: nat where "MAX_REQUEST_BYTES = 8 * 1024"
definition MAX_SESSION_RESPONSE_BYTES :: nat where "MAX_SESSION_RESPONSE_BYTES = 64 * 1024"
definition MAX_BUFFERED_BYTES :: nat where "MAX_BUFFERED_BYTES = 4 * 1024 * 1024"
definition MAX_DESKTOPS_PER_ACCOUNT :: nat where "MAX_DESKTOPS_PER_ACCOUNT = 8"
definition MAX_DEVICES_PER_ACCOUNT :: nat where "MAX_DEVICES_PER_ACCOUNT = 16"
definition MAX_ACTIVE_TICKETS :: nat where "MAX_ACTIVE_TICKETS = 64"
definition TICKET_TTL_MS :: int where "TICKET_TTL_MS = 60000"

text \<open>\<open>ACCOUNT_KEY\<close> and \<open>TICKET\<close> are the same pattern, 43 characters of base64url.\<close>

definition ticket_re :: "jstr \<Rightarrow> bool" where
  "ticket_re s = (length s = 43 \<and> list_all is_b64url_unit s)"

text \<open>\<^verbatim>\<open>/^Bearer\s+([^\s]+)$/i\<close>\<close>

definition bearer_token :: "jstr \<Rightarrow> jstr option" where
  "bearer_token header =
     (if map ascii_lower (take 6 header) \<noteq> js ''bearer'' then None
      else
        let rest = drop 6 header; token = dropWhile is_space_unit rest in
        if rest \<noteq> [] \<and> is_space_unit (hd rest) \<and> token \<noteq> [] \<and> list_all (\<lambda>u. \<not> is_space_unit u) token \<and>
           length token \<le> MAX_AUTH_TOKEN_BYTES
        then Some token else None)"

datatype relay_role = Desktop | Device

record ticket_request =
  tr_role :: relay_role
  tr_desktopId :: jstr
  tr_deviceId :: "jstr option"

definition identifier_field :: "json option \<Rightarrow> jstr option" where
  "identifier_field v =
     (case as_str v of None \<Rightarrow> None | Some s \<Rightarrow> if identifier_ok 160 s then Some s else None)"

definition role_field :: "json option \<Rightarrow> relay_role option" where
  "role_field v =
     (if v = Some (JStr (js ''desktop'')) then Some Desktop
      else if v = Some (JStr (js ''device'')) then Some Device else None)"

definition validate_ticket_request :: "json \<Rightarrow> ticket_request option" where
  "validate_ticket_request v =
     (if \<not> is_obj v \<or> \<not> only_keys v [''role'', ''desktopId'', ''deviceId''] then None
      else
        let device = identifier_field (field v ''deviceId'') in
        case (role_field (field v ''role''), identifier_field (field v ''desktopId'')) of
          (Some role, Some desktop) \<Rightarrow>
            if (role = Device \<and> device = None) \<or> (role = Desktop \<and> \<not> nullish (field v ''deviceId'')) then None
            else Some \<lparr>tr_role = role, tr_desktopId = desktop, tr_deviceId = device\<rparr>
        | _ \<Rightarrow> None)"

text \<open>
  \<open>readBoundedJSON\<close>: \<open>declared\<close> is the content length if it is a finite number, \<open>parse\<close> stands for
  \<open>JSON.parse\<close>.
\<close>

definition read_bounded_json :: "(jstr \<Rightarrow> json option) \<Rightarrow> int option \<Rightarrow> jstr \<Rightarrow> json option" where
  "read_bounded_json parse declared text =
     (if (case declared of Some n \<Rightarrow> n > int MAX_REQUEST_BYTES | None \<Rightarrow> False) then None
      else if text = [] \<or> length (utf8_encode text) > MAX_REQUEST_BYTES then None
      else parse text)"

text \<open>The user a session endpoint vouches for, from its status and body.\<close>

definition session_user :: "(jstr \<Rightarrow> json option) \<Rightarrow> bool \<Rightarrow> jstr \<Rightarrow> jstr option" where
  "session_user parse status_ok text =
     (if \<not> status_ok \<or> length (utf8_encode text) > MAX_SESSION_RESPONSE_BYTES then None
      else
        case parse text of
          None \<Rightarrow> None
        | Some v \<Rightarrow>
            if field v ''ok'' \<noteq> Some (JBool True) then None
            else
              case field v ''user'' of
                None \<Rightarrow> None
              | Some u \<Rightarrow> identifier_field (field u ''uid''))"

definition derive_account_key :: "(bytes \<Rightarrow> bytes \<Rightarrow> bytes) \<Rightarrow> json option \<Rightarrow> json option \<Rightarrow> jstr option" where
  "derive_account_key hmac uid secret =
     (case (identifier_field uid, as_str secret) of
        (Some u, Some s) \<Rightarrow>
          if length s < 32 then None else Some (b64url (hmac (utf8_encode s) (utf8_encode u)))
      | _ \<Rightarrow> None)"

section \<open>The room\<close>

datatype relay_value = Text_value jstr | Binary bytes

datatype relay_event =
    Sent nat relay_value
  | Closed nat int

record ticket =
  tk_request :: ticket_request
  tk_expiresAt :: int

record socket =
  sk_id :: nat
  sk_request :: ticket_request
  sk_channelId :: jstr
  sk_open :: bool
  sk_buffered :: nat

record room =
  rm_tickets :: "(jstr, ticket) jmap"
  rm_sockets :: "socket list"
  rm_fresh :: nat
  rm_log :: "relay_event list"

definition empty_room :: room where
  "empty_room = \<lparr>rm_tickets = [], rm_sockets = [], rm_fresh = 0, rm_log = []\<rparr>"

definition ticket_key :: "(bytes \<Rightarrow> bytes) \<Rightarrow> jstr \<Rightarrow> jstr" where
  "ticket_key sha256 t = js ''ticket:'' @ b64url (sha256 (utf8_encode t))"

text \<open>
  \<open>#issue\<close> awaits the digest of the new ticket between counting the stored tickets and storing it, so
  it has two segments: \<open>issue_begin\<close> clears the expired tickets among the first 64 in key order and
  says whether the request may go on, \<open>issue_store\<close> stores the ticket.
\<close>

definition clear_expired_tickets :: "int \<Rightarrow> room \<Rightarrow> room \<times> nat" where
  "clear_expired_tickets now r =
     (let listed = take MAX_ACTIVE_TICKETS (sort_key fst (rm_tickets r));
          stale = map fst (filter (\<lambda>e. \<not> is_safe (tk_expiresAt (snd e)) \<or> tk_expiresAt (snd e) \<le> now) listed) in
      (r\<lparr>rm_tickets := filter (\<lambda>e. fst e \<notin> set stale) (rm_tickets r)\<rparr>,
       length listed - length stale))"

definition issue_begin :: "int \<Rightarrow> json \<Rightarrow> room \<Rightarrow> room \<times> (int + ticket_request)" where
  "issue_begin now body r =
     (case validate_ticket_request body of
        None \<Rightarrow> (r, Inl 400)
      | Some m \<Rightarrow>
          let (r', active) = clear_expired_tickets now r in
          if active \<ge> MAX_ACTIVE_TICKETS then (r', Inl 429) else (r', Inr m))"

definition issue_store :: "(bytes \<Rightarrow> bytes) \<Rightarrow> int \<Rightarrow> jstr \<Rightarrow> ticket_request \<Rightarrow> room \<Rightarrow> room" where
  "issue_store sha256 now t m r =
     r\<lparr>rm_tickets := jset (ticket_key sha256 t) \<lparr>tk_request = m, tk_expiresAt = now + TICKET_TTL_MS\<rparr>
         (rm_tickets r)\<rparr>"

text \<open>
  The transaction of \<open>#consumeTicket\<close>: the ticket is deleted even if it has expired. The code
  validates the stored request again, which changes nothing: only validated requests are stored.
\<close>

definition consume_ticket :: "(bytes \<Rightarrow> bytes) \<Rightarrow> int \<Rightarrow> jstr \<Rightarrow> room \<Rightarrow> room \<times> ticket_request option" where
  "consume_ticket sha256 now t r =
     (if \<not> ticket_re t then (r, None)
      else
        case jget (rm_tickets r) (ticket_key sha256 t) of
          None \<Rightarrow> (r, None)
        | Some k \<Rightarrow>
            let r' = r\<lparr>rm_tickets := jdel (ticket_key sha256 t) (rm_tickets r)\<rparr> in
            if \<not> is_safe (tk_expiresAt k) \<or> tk_expiresAt k \<le> now then (r', None)
            else (r', Some (tk_request k)))"

section \<open>Sockets\<close>

definition value_bytes :: "relay_value \<Rightarrow> nat" where
  "value_bytes v = (case v of Text_value s \<Rightarrow> length (utf8_encode s) | Binary b \<Rightarrow> length b)"

definition find_socket :: "nat \<Rightarrow> room \<Rightarrow> socket option" where
  "find_socket i r = find (\<lambda>s. sk_id s = i) (rm_sockets r)"

definition update_socket :: "nat \<Rightarrow> (socket \<Rightarrow> socket) \<Rightarrow> room \<Rightarrow> room" where
  "update_socket i f r = r\<lparr>rm_sockets := map (\<lambda>s. if sk_id s = i then f s else s) (rm_sockets r)\<rparr>"

definition send_value :: "nat \<Rightarrow> relay_value \<Rightarrow> room \<Rightarrow> room \<times> bool" where
  "send_value i v r =
     (case find_socket i r of
        None \<Rightarrow> (r, False)
      | Some s \<Rightarrow>
          if \<not> sk_open s \<or> sk_buffered s + value_bytes v > MAX_BUFFERED_BYTES then (r, False)
          else ((update_socket i (\<lambda>s. s\<lparr>sk_buffered := sk_buffered s + value_bytes v\<rparr>) r)
                  \<lparr>rm_log := rm_log r @ [Sent i v]\<rparr>, True))"

definition close_socket :: "nat \<Rightarrow> int \<Rightarrow> room \<Rightarrow> room" where
  "close_socket i code r =
     (update_socket i (\<lambda>s. s\<lparr>sk_open := False\<rparr>) r)\<lparr>rm_log := rm_log r @ [Closed i code]\<rparr>"

definition control_text :: "string \<Rightarrow> relay_value" where
  "control_text t = Text_value (stringify (JObj [(js ''type'', JStr (js t))]))"

definition is_desktop :: "jstr \<Rightarrow> socket \<Rightarrow> bool" where
  "is_desktop d s = (tr_role (sk_request s) = Desktop \<and> tr_desktopId (sk_request s) = d)"

definition is_device :: "jstr \<Rightarrow> socket \<Rightarrow> bool" where
  "is_device d s = (tr_role (sk_request s) = Device \<and> tr_deviceId (sk_request s) = Some d)"

definition targets :: "jstr \<Rightarrow> socket \<Rightarrow> bool" where
  "targets d s = (tr_role (sk_request s) = Device \<and> tr_desktopId (sk_request s) = d)"

definition open_desktop :: "jstr \<Rightarrow> room \<Rightarrow> socket option" where
  "open_desktop d r = find (\<lambda>s. is_desktop d s \<and> sk_open s) (rm_sockets r)"

definition open_device :: "jstr \<Rightarrow> room \<Rightarrow> socket option" where
  "open_device channel r =
     find (\<lambda>s. tr_role (sk_request s) = Device \<and> sk_channelId s = channel \<and> sk_open s) (rm_sockets r)"

text \<open>\<open>#openDevice\<close>: tell the desktop about a device, or drop a desktop that does not keep up.\<close>

definition announce_device :: "nat \<Rightarrow> nat \<Rightarrow> room \<Rightarrow> room" where
  "announce_device device desktop r =
     (case find_socket device r of
        None \<Rightarrow> r
      | Some s \<Rightarrow>
          (case tr_deviceId (sk_request s) of
             None \<Rightarrow> r
           | Some d \<Rightarrow>
               (case relay_encode_mux_frame MUX_OPEN (sk_channelId s)
                       (Some (utf8_encode (stringify (JObj [(js ''deviceId'', JStr d)])))) of
                  None \<Rightarrow> r
                | Some frame \<Rightarrow>
                    (case send_value desktop (Binary frame) r of
                       (r', True) \<Rightarrow> fst (send_value device (control_text ''relay.ready'') r')
                     | (r', False) \<Rightarrow>
                         fst (send_value device (control_text ''relay.waiting'') (close_socket desktop 4008 r'))))))"

definition connect :: "(bytes \<Rightarrow> bytes) \<Rightarrow> int \<Rightarrow> jstr \<Rightarrow> jstr \<Rightarrow> room \<Rightarrow> room \<times> int" where
  "connect sha256 now t channel r0 =
     (case consume_ticket sha256 now t r0 of
        (r, None) \<Rightarrow> (r, 401)
      | (r, Some m) \<Rightarrow>
          let desktops = length (filter (\<lambda>s. tr_role (sk_request s) = Desktop) (rm_sockets r));
              devices = length (filter (\<lambda>s. tr_role (sk_request s) = Device) (rm_sockets r));
              same = (case tr_role m of
                        Desktop \<Rightarrow> is_desktop (tr_desktopId m)
                      | Device \<Rightarrow> is_device (case tr_deviceId m of Some d \<Rightarrow> d | None \<Rightarrow> []));
              replacing = (\<exists>s \<in> set (rm_sockets r). same s) in
          if \<not> replacing \<and> ((tr_role m = Desktop \<and> desktops \<ge> MAX_DESKTOPS_PER_ACCOUNT) \<or>
                           (tr_role m = Device \<and> devices \<ge> MAX_DEVICES_PER_ACCOUNT))
          then (r, 429)
          else
            let i = rm_fresh r;
                prior = map sk_id (filter same (rm_sockets r));
                r1 = r\<lparr>rm_sockets := rm_sockets r @ [\<lparr>sk_id = i, sk_request = m,
                         sk_channelId = (if tr_role m = Desktop then [] else channel), sk_open = True,
                         sk_buffered = 0\<rparr>], rm_fresh := i + 1\<rparr>;
                r2 = fold (\<lambda>p r. close_socket p 4001 r) prior r1 in
            case tr_role m of
              Desktop \<Rightarrow>
                let r3 = fst (send_value i (control_text ''relay.desktop-ready'') r2) in
                (fold (\<lambda>d r. announce_device d i r)
                   (map sk_id (filter (targets (tr_desktopId m)) (rm_sockets r3))) r3, 101)
            | Device \<Rightarrow>
                (case open_desktop (tr_desktopId m) r2 of
                   Some d \<Rightarrow> (announce_device i (sk_id d) r2, 101)
                 | None \<Rightarrow> (fst (send_value i (control_text ''relay.waiting'') r2), 101)))"

section \<open>Forwarding\<close>

definition device_message :: "socket \<Rightarrow> bytes \<Rightarrow> room \<Rightarrow> room" where
  "device_message s b r =
     (let i = sk_id s in
      case open_desktop (tr_desktopId (sk_request s)) r of
        None \<Rightarrow> fst (send_value i (control_text ''relay.waiting'') r)
      | Some d \<Rightarrow>
          (case relay_encode_mux_frame MUX_DATA (sk_channelId s) (Some b) of
             None \<Rightarrow> r
           | Some frame \<Rightarrow>
               (case send_value (sk_id d) (Binary frame) r of
                  (r', True) \<Rightarrow> r'
                | (r', False) \<Rightarrow>
                    fst (send_value i (control_text ''relay.waiting'') (close_socket (sk_id d) 4008 r')))))"

definition desktop_message :: "socket \<Rightarrow> bytes \<Rightarrow> room \<Rightarrow> room" where
  "desktop_message s b r =
     (case relay_decode_mux_frame (Some b) of
        None \<Rightarrow> close_socket (sk_id s) 1008 r
      | Some f \<Rightarrow>
          if mf_type f \<noteq> MUX_DATA \<and> mf_type f \<noteq> MUX_CLOSE then close_socket (sk_id s) 1008 r
          else
            case open_device (mf_channelId f) r of
              None \<Rightarrow> r
            | Some d \<Rightarrow>
                if tr_desktopId (sk_request d) \<noteq> tr_desktopId (sk_request s) then r
                else if mf_type f = MUX_CLOSE then close_socket (sk_id d) 4000 r
                else
                  (case send_value (sk_id d) (Binary (mf_payload f)) r of
                     (r', True) \<Rightarrow> r'
                   | (r', False) \<Rightarrow> close_socket (sk_id d) 4008 r'))"

definition socket_message :: "nat \<Rightarrow> relay_value \<Rightarrow> room \<Rightarrow> room" where
  "socket_message i v r =
     (case find_socket i r of
        None \<Rightarrow> r
      | Some s \<Rightarrow>
          (case v of
             Text_value t \<Rightarrow>
               if Text_value t = control_text ''relay.ping''
               then fst (send_value i (control_text ''relay.pong'') r)
               else close_socket i 1003 r
           | Binary b \<Rightarrow>
               if b = [] \<or> length b > (if tr_role (sk_request s) = Device then MAX_RELAY_DEVICE_PAYLOAD_BYTES
                                      else MAX_RELAY_MESSAGE_BYTES)
               then close_socket i 1009 r
               else
                 (case tr_role (sk_request s) of
                    Device \<Rightarrow> device_message s b r
                  | Desktop \<Rightarrow> desktop_message s b r)))"

text \<open>
  \<open>#handleClosed\<close>, for a socket that is no longer open; the runtime then forgets the socket.
\<close>

definition handle_closed :: "nat \<Rightarrow> room \<Rightarrow> room" where
  "handle_closed i r =
     (case find_socket i r of
        None \<Rightarrow> r
      | Some s \<Rightarrow>
          (case tr_role (sk_request s) of
             Desktop \<Rightarrow>
               if (case open_desktop (tr_desktopId (sk_request s)) r of None \<Rightarrow> True | Some x \<Rightarrow> sk_id x = i)
               then fold (\<lambda>d r. fst (send_value d (control_text ''relay.waiting'') r))
                      (map sk_id (filter (targets (tr_desktopId (sk_request s))) (rm_sockets r))) r
               else r
           | Device \<Rightarrow>
               (case open_desktop (tr_desktopId (sk_request s)) r of
                  None \<Rightarrow> r
                | Some d \<Rightarrow>
                    (case relay_encode_mux_frame MUX_CLOSE (sk_channelId s) (Some []) of
                       None \<Rightarrow> r
                     | Some frame \<Rightarrow> fst (send_value (sk_id d) (Binary frame) r)))))"

definition socket_closed :: "nat \<Rightarrow> room \<Rightarrow> room" where
  "socket_closed i r =
     (let r' = handle_closed i (update_socket i (\<lambda>s. s\<lparr>sk_open := False\<rparr>) r) in
      r'\<lparr>rm_sockets := filter (\<lambda>s. sk_id s \<noteq> i) (rm_sockets r')\<rparr>)"

definition drain_socket :: "nat \<Rightarrow> nat \<Rightarrow> room \<Rightarrow> room" where
  "drain_socket i n r = update_socket i (\<lambda>s. s\<lparr>sk_buffered := sk_buffered s - n\<rparr>) r"

section \<open>The public entry point\<close>

text \<open>
  \<open>issueTicket\<close> with the outcome of each call it awaits: the body of the request, the user the session
  endpoint vouches for, the account key secret and the room's answer.
\<close>

definition issue_ticket ::
  "(bytes \<Rightarrow> bytes \<Rightarrow> bytes) \<Rightarrow> jstr \<Rightarrow> json option \<Rightarrow> jstr option \<Rightarrow> json option \<Rightarrow>
   (jstr \<Rightarrow> ticket_request \<Rightarrow> int + 'a) \<Rightarrow> int + jstr \<times> 'a" where
  "issue_ticket hmac header body user secret room_issue =
     (case bearer_token header of
        None \<Rightarrow> Inl 401
      | Some token \<Rightarrow>
     case (case body of None \<Rightarrow> None | Some v \<Rightarrow> validate_ticket_request v) of
        None \<Rightarrow> Inl 400
      | Some m \<Rightarrow>
     case user of
        None \<Rightarrow> Inl 401
      | Some uid \<Rightarrow>
     case derive_account_key hmac (Some (JStr uid)) secret of
        None \<Rightarrow> Inl 503
      | Some key \<Rightarrow>
     case room_issue key m of
        Inl status \<Rightarrow> Inl status
      | Inr t \<Rightarrow> Inr (key, t))"

section \<open>The room as a system\<close>

inductive room_step :: "(bytes \<Rightarrow> bytes) \<Rightarrow> room \<Rightarrow> room \<Rightarrow> bool" for h where
  Step_issue: "room_step h r (fst (issue_begin now body r))"
| Step_store: "issue_begin now body r1 = (r2, Inr m) \<Longrightarrow> room_step h r (issue_store h now t m r)"
| Step_connect: "room_step h r (fst (connect h now t channel r))"
| Step_message: "room_step h r (socket_message i v r)"
| Step_closed: "room_step h r (socket_closed i r)"
| Step_drain: "room_step h r (drain_socket i n r)"

inductive room_reach :: "(bytes \<Rightarrow> bytes) \<Rightarrow> room \<Rightarrow> bool" for h where
  Room_start: "room_reach h empty_room"
| Room_more: "room_reach h r \<Longrightarrow> room_step h r r' \<Longrightarrow> room_reach h r'"

text \<open>
  \<open>calmer\<close>: the same sockets, of which some may have been closed; sending, closing, announcing and
  forwarding only ever do that.
\<close>

definition same_socket :: "socket \<Rightarrow> socket \<Rightarrow> bool" where
  "same_socket s t =
     (sk_id t = sk_id s \<and> sk_request t = sk_request s \<and> sk_channelId t = sk_channelId s \<and>
      (sk_open t \<longrightarrow> sk_open s))"

definition calmer :: "room \<Rightarrow> room \<Rightarrow> bool" where
  "calmer r r' =
     (list_all2 same_socket (rm_sockets r) (rm_sockets r') \<and> rm_tickets r' = rm_tickets r \<and>
      rm_fresh r' = rm_fresh r)"

lemma same_socket_refl [simp]: "same_socket s s"
  by (simp add: same_socket_def)

lemma calmer_refl [simp]: "calmer r r"
  by (simp add: calmer_def list_all2_same)

lemma same_socket_trans: "same_socket s t \<Longrightarrow> same_socket t u \<Longrightarrow> same_socket s u"
  by (simp add: same_socket_def)

lemma calmer_trans:
  assumes "calmer r1 r2" "calmer r2 r3"
  shows "calmer r1 r3"
proof -
  have l: "list_all2 same_socket (rm_sockets r1) (rm_sockets r2)" "list_all2 same_socket (rm_sockets r2) (rm_sockets r3)"
    using assms by (simp_all add: calmer_def)
  have "list_all2 same_socket (rm_sockets r1) (rm_sockets r3)"
    by (rule list_all2_trans [OF _ l]) (rule same_socket_trans)
  with assms show ?thesis by (simp add: calmer_def)
qed

lemma update_calmer: "(\<And>s. same_socket s (f s)) \<Longrightarrow> calmer r (update_socket i f r)"
  by (simp add: calmer_def update_socket_def list_all2_map2 list_all2_same)

lemma calmer_log [simp]: "calmer r (r'\<lparr>rm_log := l\<rparr>) = calmer r r'"
  by (simp add: calmer_def)

lemma close_calmer: "calmer r (close_socket i c r)"
  unfolding close_socket_def calmer_log by (rule update_calmer) (simp add: same_socket_def)

lemma send_calmer: "calmer r (fst (send_value i v r))"
proof -
  have "calmer r (update_socket i (\<lambda>s. s\<lparr>sk_buffered := sk_buffered s + value_bytes v\<rparr>) r)"
    by (rule update_calmer) (simp add: same_socket_def)
  then show ?thesis by (simp add: send_value_def split: option.splits)
qed

lemma send_calmer': "send_value i v r = (r', b) \<Longrightarrow> calmer r r'"
  using send_calmer [of r i v] by simp

lemma fold_calmer: "(\<And>x r. calmer r (f x r)) \<Longrightarrow> calmer r (fold f xs r)"
proof (induction xs arbitrary: r)
  case (Cons x xs)
  then show ?case using calmer_trans by fastforce
qed simp

lemmas calm_intros = close_calmer send_calmer send_calmer' calmer_trans

lemma announce_calmer: "calmer r (announce_device i j r)"
proof -
  have "calmer r (fst (send_value i v r'))" "calmer r (fst (send_value i v (close_socket j c r')))"
    if "send_value j w r = (r', b)" for v w c r' b
    using that calm_intros by metis+
  then show ?thesis by (auto simp: announce_device_def split: option.splits prod.splits bool.splits)
qed

lemma device_message_calmer: "calmer r (device_message s b r)"
proof -
  have "calmer r r'" "calmer r (fst (send_value i v (close_socket j c r')))"
    if "send_value j w r = (r', x)" for i j v w c r' x
    using that calm_intros by metis+
  then show ?thesis
    by (auto simp: device_message_def Let_def send_calmer split: option.splits prod.splits bool.splits)
qed

lemma desktop_message_calmer: "calmer r (desktop_message s b r)"
proof -
  have "calmer r r'" "calmer r (close_socket j c r')" if "send_value k w r = (r', x)" for j k w c r' x
    using that calm_intros by metis+
  then show ?thesis
    by (auto simp: desktop_message_def close_calmer split: option.splits prod.splits bool.splits)
qed

lemma message_calmer: "calmer r (socket_message i v r)"
  by (auto simp: socket_message_def send_calmer close_calmer device_message_calmer desktop_message_calmer
      split: option.splits relay_value.splits relay_role.splits)

lemma handle_closed_calmer: "calmer r (handle_closed i r)"
  by (auto simp: handle_closed_def send_calmer fold_calmer split: option.splits relay_role.splits)

section \<open>Connections\<close>

text \<open>
  No desktop and no device is connected twice, and the identities of the sockets the room knows stay
  within the limits of an account.
\<close>

definition rivals :: "socket \<Rightarrow> socket \<Rightarrow> bool" where
  "rivals s t =
     (sk_open s \<and> sk_open t \<and> tr_role (sk_request s) = tr_role (sk_request t) \<and>
      (case tr_role (sk_request s) of
         Desktop \<Rightarrow> tr_desktopId (sk_request s) = tr_desktopId (sk_request t)
       | Device \<Rightarrow> tr_deviceId (sk_request s) = tr_deviceId (sk_request t)))"

definition desktop_ids :: "room \<Rightarrow> jstr set" where
  "desktop_ids r = (\<lambda>s. tr_desktopId (sk_request s)) ` {s \<in> set (rm_sockets r). tr_role (sk_request s) = Desktop}"

definition device_ids :: "room \<Rightarrow> jstr option set" where
  "device_ids r = (\<lambda>s. tr_deviceId (sk_request s)) ` {s \<in> set (rm_sockets r). tr_role (sk_request s) = Device}"

definition request_ok :: "ticket_request \<Rightarrow> bool" where
  "request_ok m = (tr_role m = Device \<longrightarrow> tr_deviceId m \<noteq> None)"

definition room_inv :: "room \<Rightarrow> bool" where
  "room_inv r =
     (distinct (map sk_id (rm_sockets r)) \<and> (\<forall>s \<in> set (rm_sockets r). sk_id s < rm_fresh r) \<and>
      (\<forall>s \<in> set (rm_sockets r). \<forall>t \<in> set (rm_sockets r). rivals s t \<longrightarrow> sk_id s = sk_id t) \<and>
      card (desktop_ids r) \<le> MAX_DESKTOPS_PER_ACCOUNT \<and> card (device_ids r) \<le> MAX_DEVICES_PER_ACCOUNT \<and>
      (\<forall>e \<in> set (rm_tickets r). request_ok (tk_request (snd e))))"

lemma rivals_same:
  assumes "same_socket s0 s" "same_socket t0 t" "rivals s t"
  shows "rivals s0 t0"
proof -
  have "sk_request s = sk_request s0" "sk_request t = sk_request t0" "sk_open s0" "sk_open t0"
    using assms by (simp_all add: same_socket_def rivals_def)
  with assms(3) show ?thesis unfolding rivals_def by (cases "tr_role (sk_request t0)") auto
qed

lemma list_all2_in2: "list_all2 P xs ys \<Longrightarrow> y \<in> set ys \<Longrightarrow> \<exists>x \<in> set xs. P x y"
  by (induction rule: list_all2_induct) auto

lemma ids_requests:
  "desktop_ids x = tr_desktopId ` {q \<in> sk_request ` set (rm_sockets x). tr_role q = Desktop}"
  "device_ids x = tr_deviceId ` {q \<in> sk_request ` set (rm_sockets x). tr_role q = Device}"
  by (auto simp: desktop_ids_def device_ids_def)

lemma calmer_ids:
  assumes "calmer r r'"
  shows "map sk_id (rm_sockets r') = map sk_id (rm_sockets r)"
    "desktop_ids r' = desktop_ids r" "device_ids r' = device_ids r"
proof -
  have all: "list_all2 same_socket (rm_sockets r) (rm_sockets r')" using assms by (simp add: calmer_def)
  then have m: "map (\<lambda>s. (sk_id s, sk_request s)) (rm_sockets r') = map (\<lambda>s. (sk_id s, sk_request s)) (rm_sockets r)"
    by (induction rule: list_all2_induct) (simp_all add: same_socket_def)
  have "map fst (map (\<lambda>s. (sk_id s, sk_request s)) (rm_sockets r')) =
      map fst (map (\<lambda>s. (sk_id s, sk_request s)) (rm_sockets r))" using m by simp
  then show "map sk_id (rm_sockets r') = map sk_id (rm_sockets r)" by (simp add: comp_def)
  have reqs: "sk_request ` set (rm_sockets r') = sk_request ` set (rm_sockets r)"
  proof -
    have "map snd (map (\<lambda>s. (sk_id s, sk_request s)) (rm_sockets r')) =
      map snd (map (\<lambda>s. (sk_id s, sk_request s)) (rm_sockets r))" using m by simp
    then have "map sk_request (rm_sockets r') = map sk_request (rm_sockets r)" by (simp add: comp_def)
    then show ?thesis by (metis list.set_map)
  qed
  then show "desktop_ids r' = desktop_ids r" "device_ids r' = device_ids r" by (simp_all add: ids_requests)
qed

lemma calmer_inv:
  assumes "calmer r r'" "room_inv r"
  shows "room_inv r'"
proof -
  have all: "list_all2 same_socket (rm_sockets r) (rm_sockets r')"
    and same: "rm_tickets r' = rm_tickets r" "rm_fresh r' = rm_fresh r"
    using assms(1) by (simp_all add: calmer_def)
  have older: "\<exists>t \<in> set (rm_sockets r). same_socket t s" if "s \<in> set (rm_sockets r')" for s
    by (rule list_all2_in2 [OF all that])
  have "sk_id s < rm_fresh r'" if "s \<in> set (rm_sockets r')" for s
    using older [OF that] assms(2) same by (auto simp: room_inv_def same_socket_def)
  moreover have "sk_id s = sk_id t" if new: "s \<in> set (rm_sockets r')" "t \<in> set (rm_sockets r')" "rivals s t" for s t
  proof -
    obtain s0 t0 where st: "s0 \<in> set (rm_sockets r)" "same_socket s0 s" "t0 \<in> set (rm_sockets r)" "same_socket t0 t"
      using older [OF new(1)] older [OF new(2)] by blast
    then have "rivals s0 t0" using new(3) rivals_same by blast
    then have "sk_id s0 = sk_id t0" using assms(2) st by (simp add: room_inv_def)
    with st show ?thesis by (simp add: same_socket_def)
  qed
  ultimately show ?thesis using assms(2) calmer_ids [OF assms(1)] same by (simp add: room_inv_def)
qed

lemma validate_ticket_request_ok:
  assumes "validate_ticket_request v = Some m"
  shows "request_ok m"
proof -
  obtain role desktop where "role_field (field v ''role'') = Some role"
    "identifier_field (field v ''desktopId'') = Some desktop"
    using assms
    by (cases "role_field (field v ''role'')"; cases "identifier_field (field v ''desktopId'')")
       (simp_all add: validate_ticket_request_def Let_def split: if_splits)
  with assms show ?thesis
    by (auto simp: validate_ticket_request_def Let_def request_ok_def split: if_splits)
qed

text \<open>Adding a socket closes the earlier sockets of the same desktop or device.\<close>

fun same_identity :: "ticket_request \<Rightarrow> socket \<Rightarrow> bool" where
  "same_identity m s =
     (case tr_role m of
        Desktop \<Rightarrow> is_desktop (tr_desktopId m) s
      | Device \<Rightarrow> is_device (case tr_deviceId m of Some d \<Rightarrow> d | None \<Rightarrow> []) s)"

declare same_identity.simps [simp del]

lemma close_socket_open:
  assumes "t \<in> set (rm_sockets (close_socket p c r))" "sk_open t"
  shows "sk_id t \<noteq> p"
proof -
  let ?f = "\<lambda>u. if sk_id u = p then u\<lparr>sk_open := False\<rparr> else u"
  have "t \<in> ?f ` set (rm_sockets r)" using assms(1) by (simp add: close_socket_def update_socket_def)
  then obtain u where "t = ?f u" ..
  with assms(2) show ?thesis by (cases "sk_id u = p") simp_all
qed

lemma close_all:
  "calmer r (fold (\<lambda>p r. close_socket p 4001 r) ps r)"
  "s \<in> set (rm_sockets (fold (\<lambda>p r. close_socket p 4001 r) ps r)) \<Longrightarrow> sk_open s \<Longrightarrow> sk_id s \<notin> set ps"
proof -
  show "calmer r (fold (\<lambda>p r. close_socket p 4001 r) ps r)" by (rule fold_calmer) (rule close_calmer)
  show "s \<in> set (rm_sockets (fold (\<lambda>p r. close_socket p 4001 r) ps r)) \<Longrightarrow> sk_open s \<Longrightarrow> sk_id s \<notin> set ps"
  proof (induction ps arbitrary: r)
    case (Cons p ps)
    let ?r = "close_socket p 4001 r"
    have s: "s \<in> set (rm_sockets (fold (\<lambda>p r. close_socket p 4001 r) ps ?r))" using Cons.prems(1) by simp
    have "calmer ?r (fold (\<lambda>p r. close_socket p 4001 r) ps ?r)" by (rule fold_calmer) (rule close_calmer)
    then have "list_all2 same_socket (rm_sockets ?r) (rm_sockets (fold (\<lambda>p r. close_socket p 4001 r) ps ?r))"
      by (simp add: calmer_def)
    from list_all2_in2 [OF this s] obtain t where t: "t \<in> set (rm_sockets ?r)" "same_socket t s" by blast
    then have open_t: "sk_open t" "sk_id t = sk_id s" using Cons.prems(2) by (simp_all add: same_socket_def)
    have "sk_id t \<noteq> p" by (rule close_socket_open [OF t(1) open_t(1)])
    then have "sk_id s \<noteq> p" by (simp add: open_t(2))
    with Cons.IH [OF s Cons.prems(2)] show ?case by simp
  qed simp
qed

lemma card_insert_bound: "finite A \<Longrightarrow> card A \<le> n \<Longrightarrow> x \<in> A \<or> card A < n \<Longrightarrow> card (insert x A) \<le> n"
  by (auto simp: card_insert_if)

lemma card_image_filter: "card (f ` {x \<in> set xs. P x}) \<le> length (filter P xs)"
proof -
  have "card (f ` {x \<in> set xs. P x}) \<le> card {x \<in> set xs. P x}" by (rule card_image_le) simp
  also have "\<dots> = card (set (filter P xs))" by simp
  also have "\<dots> \<le> length (filter P xs)" by (rule card_length)
  finally show ?thesis .
qed

lemma add_socket_inv:
  assumes inv: "room_inv r" and m: "request_ok m"
    and room_left: "(\<exists>s \<in> set (rm_sockets r). same_identity m s) \<or>
      (if tr_role m = Desktop
       then length (filter (\<lambda>s. tr_role (sk_request s) = Desktop) (rm_sockets r)) < MAX_DESKTOPS_PER_ACCOUNT
       else length (filter (\<lambda>s. tr_role (sk_request s) = Device) (rm_sockets r)) < MAX_DEVICES_PER_ACCOUNT)"
  shows "room_inv (fold (\<lambda>p r. close_socket p 4001 r) (map sk_id (filter (same_identity m) (rm_sockets r)))
    (r\<lparr>rm_sockets := rm_sockets r @ [\<lparr>sk_id = rm_fresh r, sk_request = m, sk_channelId = c, sk_open = True,
        sk_buffered = 0\<rparr>], rm_fresh := rm_fresh r + 1\<rparr>))" (is "room_inv (fold ?f ?prior ?r1)")
proof -
  let ?n = "\<lparr>sk_id = rm_fresh r, sk_request = m, sk_channelId = c, sk_open = True, sk_buffered = 0\<rparr>"
  let ?r2 = "fold ?f ?prior ?r1"
  note calm = close_all(1) [of ?r1 ?prior]
  have older: "\<exists>t \<in> set (rm_sockets r) \<union> {?n}. same_socket t s" if "s \<in> set (rm_sockets ?r2)" for s
    using list_all2_in2 [of same_socket "rm_sockets ?r1" "rm_sockets ?r2" s] calm that by (simp add: calmer_def)
  have fresh: "sk_id s < rm_fresh r" if "s \<in> set (rm_sockets r)" for s
    using inv that by (simp add: room_inv_def)
  have same: "same_identity m t" if "t \<in> set (rm_sockets r)" "rivals t ?n \<or> rivals ?n t" for t
    using that m
    by (auto simp: rivals_def same_identity.simps is_desktop_def is_device_def request_ok_def split: relay_role.splits)
  have "sk_id s = sk_id t" if st: "s \<in> set (rm_sockets ?r2)" "t \<in> set (rm_sockets ?r2)" "rivals s t" for s t
  proof -
    obtain s0 t0 where o: "s0 \<in> set (rm_sockets r) \<union> {?n}" "same_socket s0 s"
      "t0 \<in> set (rm_sockets r) \<union> {?n}" "same_socket t0 t" using older [OF st(1)] older [OF st(2)] by blast
    have op: "sk_open s" "sk_open t" using st(3) by (simp_all add: rivals_def)
    then have "sk_id s \<notin> set ?prior" "sk_id t \<notin> set ?prior" using close_all(2) st by blast+
    then have no: "s0 \<in> set (rm_sockets r) \<Longrightarrow> \<not> same_identity m s0" "t0 \<in> set (rm_sockets r) \<Longrightarrow> \<not> same_identity m t0"
      using o by (auto simp: same_socket_def)
    have riv: "rivals s0 t0" by (rule rivals_same [OF o(2,4) st(3)])
    have "sk_id s0 = sk_id t0"
    proof (cases "s0 = ?n \<or> t0 = ?n")
      case True
      then show ?thesis using riv same no o by blast
    next
      case False
      then show ?thesis using riv o inv by (simp add: room_inv_def)
    qed
    with o show ?thesis by (simp add: same_socket_def)
  qed
  moreover have "distinct (map sk_id (rm_sockets ?r1))" using inv fresh by (fastforce simp: room_inv_def)
  moreover have "sk_id s < rm_fresh ?r2" if "s \<in> set (rm_sockets ?r2)" for s
    using older [OF that] fresh calm by (fastforce simp: same_socket_def calmer_def)
  moreover have "card (desktop_ids ?r1) \<le> MAX_DESKTOPS_PER_ACCOUNT" "card (device_ids ?r1) \<le> MAX_DEVICES_PER_ACCOUNT"
  proof -
    have fin: "finite (desktop_ids r)" "finite (device_ids r)" by (simp_all add: desktop_ids_def device_ids_def)
    have le: "card (desktop_ids r) \<le> length (filter (\<lambda>s. tr_role (sk_request s) = Desktop) (rm_sockets r))"
      "card (device_ids r) \<le> length (filter (\<lambda>s. tr_role (sk_request s) = Device) (rm_sockets r))"
      unfolding desktop_ids_def device_ids_def by (rule card_image_filter)+
    have ids: "desktop_ids ?r1 = (if tr_role m = Desktop then insert (tr_desktopId m) (desktop_ids r) else desktop_ids r)"
      "device_ids ?r1 = (if tr_role m = Device then insert (tr_deviceId m) (device_ids r) else device_ids r)"
      by (auto simp: ids_requests)
    have mem: "tr_role m = Desktop \<Longrightarrow> (\<exists>s \<in> set (rm_sockets r). same_identity m s) \<Longrightarrow> tr_desktopId m \<in> desktop_ids r"
      "tr_role m = Device \<Longrightarrow> (\<exists>s \<in> set (rm_sockets r). same_identity m s) \<Longrightarrow> tr_deviceId m \<in> device_ids r"
      using m by (force simp: same_identity.simps is_desktop_def is_device_def desktop_ids_def device_ids_def
          request_ok_def image_iff)+
    have cards: "card (desktop_ids r) \<le> MAX_DESKTOPS_PER_ACCOUNT" "card (device_ids r) \<le> MAX_DEVICES_PER_ACCOUNT"
      using inv by (simp_all add: room_inv_def)
    show "card (desktop_ids ?r1) \<le> MAX_DESKTOPS_PER_ACCOUNT"
      unfolding ids using card_insert_bound [OF fin(1) cards(1), of "tr_desktopId m"] cards(1) mem(1) le(1) room_left
      by (auto split: if_splits)
    show "card (device_ids ?r1) \<le> MAX_DEVICES_PER_ACCOUNT"
      unfolding ids using card_insert_bound [OF fin(2) cards(2), of "tr_deviceId m"] cards(2) mem(2) le(2) room_left
      by (auto split: if_splits)
  qed
  ultimately show ?thesis using inv calmer_ids [OF calm] calm
    unfolding room_inv_def by (simp add: calmer_def)
qed

lemma consume_ticket_inv:
  assumes "room_inv r" "consume_ticket h now t r = (r', x)"
  shows "room_inv r' \<and> (\<forall>m. x = Some m \<longrightarrow> request_ok m)"
proof -
  have tk: "request_ok (tk_request k)" if "jget (rm_tickets r) i = Some k" for i k
    using jget_Some_in [OF that] assms(1) by (fastforce simp: room_inv_def)
  have "room_inv (r\<lparr>rm_tickets := jdel i (rm_tickets r)\<rparr>)" for i
    using assms(1) by (simp add: room_inv_def desktop_ids_def device_ids_def set_jdel)
  with assms tk show ?thesis
    by (auto simp: consume_ticket_def Let_def split: if_splits option.splits)
qed

lemma same_identity_fun:
  "(case tr_role m of Desktop \<Rightarrow> is_desktop (tr_desktopId m)
    | Device \<Rightarrow> is_device (case tr_deviceId m of Some d \<Rightarrow> d | None \<Rightarrow> [])) = same_identity m"
  by (rule ext) (simp add: same_identity.simps split: relay_role.splits)

lemma connect_inv:
  assumes inv: "room_inv r0"
  shows "room_inv (fst (connect h now t channel r0))"
proof -
  obtain r x where c: "consume_ticket h now t r0 = (r, x)" by fastforce
  note ci = consume_ticket_inv [OF inv c]
  show ?thesis
  proof (cases x)
    case None
    with ci c show ?thesis by (simp add: connect_def)
  next
    case (Some m)
    let ?r1 = "r\<lparr>rm_sockets := rm_sockets r @ [\<lparr>sk_id = rm_fresh r, sk_request = m,
       sk_channelId = (if tr_role m = Desktop then [] else channel), sk_open = True, sk_buffered = 0\<rparr>],
       rm_fresh := rm_fresh r + 1\<rparr>"
    let ?r2 = "fold (\<lambda>p r. close_socket p 4001 r) (map sk_id (filter (same_identity m) (rm_sockets r))) ?r1"
    let ?full = "\<not> (\<exists>s \<in> set (rm_sockets r). same_identity m s) \<and>
       ((tr_role m = Desktop \<and>
         length (filter (\<lambda>s. tr_role (sk_request s) = Desktop) (rm_sockets r)) \<ge> MAX_DESKTOPS_PER_ACCOUNT) \<or>
        (tr_role m = Device \<and>
         length (filter (\<lambda>s. tr_role (sk_request s) = Device) (rm_sockets r)) \<ge> MAX_DEVICES_PER_ACCOUNT))"
    have calm: "calmer ?r2 (fst (connect h now t channel r0))" if "\<not> ?full"
    proof -
      have "calmer ?r2 (fold (\<lambda>d r. announce_device d i r) ds (fst (send_value i v ?r2)))" for i ds v
        by (rule calmer_trans [OF send_calmer]) (rule fold_calmer, rule announce_calmer)
      then show ?thesis using that
        by (auto simp: connect_def c Some Let_def same_identity_fun announce_calmer send_calmer
            split: relay_role.splits option.splits)
    qed
    show ?thesis
    proof (cases ?full)
      case True
      with ci c Some show ?thesis by (simp add: connect_def Let_def same_identity_fun)
    next
      case False
      have "room_inv r" "request_ok m" using ci Some by simp_all
      then have "room_inv ?r2"
        by (rule add_socket_inv) (use False in \<open>cases "tr_role m"; auto\<close>)
      with calm [OF False] show ?thesis by (rule calmer_inv)
    qed
  qed
qed

lemma tickets_inv:
  assumes "room_inv r" "\<forall>e \<in> set ts. request_ok (tk_request (snd e))"
  shows "room_inv (r\<lparr>rm_tickets := ts\<rparr>)"
  using assms by (simp add: room_inv_def desktop_ids_def device_ids_def)

lemma issue_begin_inv: "room_inv r \<Longrightarrow> room_inv (fst (issue_begin now body r))"
  using tickets_inv [of r] 
  by (auto simp: issue_begin_def clear_expired_tickets_def Let_def room_inv_def split: option.splits)

lemma issue_store_inv: "room_inv r \<Longrightarrow> request_ok m \<Longrightarrow> room_inv (issue_store h now t m r)"
  unfolding issue_store_def
proof (rule tickets_inv, assumption)
  assume "room_inv r" "request_ok m"
  then show "\<forall>e \<in> set (jset (ticket_key h t) \<lparr>tk_request = m, tk_expiresAt = now + TICKET_TTL_MS\<rparr> (rm_tickets r)).
      request_ok (tk_request (snd e))"
    using set_jset_subset by (fastforce simp: room_inv_def)
qed

lemma socket_closed_inv:
  assumes "room_inv r"
  shows "room_inv (socket_closed i r)"
proof -
  let ?u = "update_socket i (\<lambda>s. s\<lparr>sk_open := False\<rparr>) r"
  have "calmer r ?u" by (rule update_calmer) (simp add: same_socket_def)
  then have inv: "room_inv (handle_closed i ?u)"
    using calmer_inv handle_closed_calmer assms by blast
  let ?r = "handle_closed i ?u" and ?f = "filter (\<lambda>s. sk_id s \<noteq> i)"
  have sub: "desktop_ids (?r\<lparr>rm_sockets := ?f (rm_sockets ?r)\<rparr>) \<subseteq> desktop_ids ?r"
    "device_ids (?r\<lparr>rm_sockets := ?f (rm_sockets ?r)\<rparr>) \<subseteq> device_ids ?r"
    by (auto simp: desktop_ids_def device_ids_def)
  have "finite (desktop_ids ?r)" "finite (device_ids ?r)" by (simp_all add: desktop_ids_def device_ids_def)
  then have "card (desktop_ids (?r\<lparr>rm_sockets := ?f (rm_sockets ?r)\<rparr>)) \<le> MAX_DESKTOPS_PER_ACCOUNT"
    "card (device_ids (?r\<lparr>rm_sockets := ?f (rm_sockets ?r)\<rparr>)) \<le> MAX_DEVICES_PER_ACCOUNT"
    using inv card_mono [OF _ sub(1)] card_mono [OF _ sub(2)] le_trans
    unfolding room_inv_def by blast+
  then have "room_inv (?r\<lparr>rm_sockets := ?f (rm_sockets ?r)\<rparr>)"
    using inv by (simp add: room_inv_def distinct_map_filter)
  then show ?thesis by (simp add: socket_closed_def Let_def)
qed

lemma drain_inv: "room_inv r \<Longrightarrow> room_inv (drain_socket i n r)"
  unfolding drain_socket_def
  by (rule calmer_inv [OF update_calmer]) (simp_all add: same_socket_def)

lemma issue_begin_ok: "issue_begin now body r = (r', Inr m) \<Longrightarrow> request_ok m"
  using validate_ticket_request_ok
  by (auto simp: issue_begin_def Let_def split: option.splits prod.splits if_splits)

lemma room_step_inv: "room_step h r r' \<Longrightarrow> room_inv r \<Longrightarrow> room_inv r'"
  by (induction rule: room_step.induct)
     (auto intro: issue_begin_inv issue_store_inv connect_inv socket_closed_inv drain_inv
        calmer_inv [OF message_calmer] dest: issue_begin_ok)

lemma room_reach_inv: "room_reach h r \<Longrightarrow> room_inv r"
proof (induction rule: room_reach.induct)
  case Room_start
  show ?case by (simp add: room_inv_def empty_room_def desktop_ids_def device_ids_def)
next
  case (Room_more r r')
  then show ?case by (blast intro: room_step_inv)
qed

section \<open>Forwarding and tickets\<close>

lemma find_socket_Some: "find_socket i r = Some s \<Longrightarrow> s \<in> set (rm_sockets r) \<and> sk_id s = i"
  by (auto simp: find_socket_def find_Some_iff)

text \<open>What \<open>send_value\<close> can add to the log.\<close>

lemma send_log:
  assumes "send_value i v r = (r', ok)"
  shows "rm_log r' = rm_log r @ (if ok then [Sent i v] else [])"
  using assms by (auto simp: send_value_def update_socket_def split: option.splits if_splits)

lemma send_log_fst:
  "set (rm_log (fst (send_value i v r))) \<subseteq> insert (Sent i v) (set (rm_log r))"
  using send_log [of i v r "fst (send_value i v r)" "snd (send_value i v r)"] by (auto split: if_splits)

lemma close_log: "rm_log (close_socket i c r) = rm_log r @ [Closed i c]"
  by (simp add: close_socket_def update_socket_def)

definition is_binary :: "relay_event \<Rightarrow> bool" where
  "is_binary e = (case e of Sent _ (Binary _) \<Rightarrow> True | _ \<Rightarrow> False)"

lemma binary_control:
  "\<not> is_binary (Sent i (control_text t))" "\<not> is_binary (Closed i c)"
  by (simp_all add: is_binary_def control_text_def)

lemma device_message_binary:
  assumes "e \<in> set (rm_log (device_message s b r))" "e \<notin> set (rm_log r)" "is_binary e"
  shows "\<exists>d frame. open_desktop (tr_desktopId (sk_request s)) r = Some d \<and>
    relay_encode_mux_frame MUX_DATA (sk_channelId s) (Some b) = Some frame \<and> e = Sent (sk_id d) (Binary frame)"
proof (cases "open_desktop (tr_desktopId (sk_request s)) r")
  case None
  then have "e = Sent (sk_id s) (control_text ''relay.waiting'')"
    using assms(1,2) send_log_fst [of "sk_id s" "control_text ''relay.waiting''" r]
    by (auto simp: device_message_def Let_def)
  then show ?thesis using assms(3) binary_control by simp
next
  case (Some d)
  show ?thesis
  proof (cases "relay_encode_mux_frame MUX_DATA (sk_channelId s) (Some b)")
    case None
    then show ?thesis using assms Some by (simp add: device_message_def)
  next
    case enc: (Some frame)
    obtain r' ok where snd: "send_value (sk_id d) (Binary frame) r = (r', ok)" by fastforce
    note log = send_log [OF snd]
    show ?thesis
    proof (cases ok)
      case True
      then have "e = Sent (sk_id d) (Binary frame)"
        using assms(1,2) log by (simp add: device_message_def Some enc snd)
      with Some enc show ?thesis by blast
    next
      case False
      let ?c = "close_socket (sk_id d) 4008 r'"
      have "rm_log ?c = rm_log r @ [Closed (sk_id d) 4008]" using log False by (simp add: close_log)
      then have "e = Closed (sk_id d) 4008 \<or> e = Sent (sk_id s) (control_text ''relay.waiting'')"
        using assms(1,2) send_log_fst [of "sk_id s" "control_text ''relay.waiting''" ?c] False
        by (auto simp: device_message_def Some enc snd)
      then show ?thesis using assms(3) binary_control by auto
    qed
  qed
qed

lemma desktop_message_binary:
  assumes "e \<in> set (rm_log (desktop_message s b r))" "e \<notin> set (rm_log r)" "is_binary e"
  shows "\<exists>d f. relay_decode_mux_frame (Some b) = Some f \<and> mf_type f = MUX_DATA \<and>
    open_device (mf_channelId f) r = Some d \<and> tr_desktopId (sk_request d) = tr_desktopId (sk_request s) \<and>
    e = Sent (sk_id d) (Binary (mf_payload f))"
proof (cases "relay_decode_mux_frame (Some b)")
  case None
  then show ?thesis using assms binary_control by (auto simp: desktop_message_def close_log)
next
  case (Some f)
  show ?thesis
  proof (cases "open_device (mf_channelId f) r")
    case None
    then show ?thesis using assms binary_control Some
      by (auto simp: desktop_message_def close_log split: if_splits)
  next
    case dev: (Some d)
    obtain r' ok where snd: "send_value (sk_id d) (Binary (mf_payload f)) r = (r', ok)" by fastforce
    then show ?thesis using assms binary_control Some dev send_log [OF snd]
      by (auto simp: desktop_message_def close_log split: if_splits bool.splits)
  qed
qed

lemma message_binary:
  assumes "e \<in> set (rm_log (socket_message i v r))" "e \<notin> set (rm_log r)" "is_binary e"
  shows "\<exists>s b. find_socket i r = Some s \<and> v = Binary b \<and>
    (tr_role (sk_request s) = Device \<and> length b \<le> MAX_RELAY_DEVICE_PAYLOAD_BYTES \<and>
       e \<in> set (rm_log (device_message s b r)) \<or>
     tr_role (sk_request s) = Desktop \<and> e \<in> set (rm_log (desktop_message s b r)))"
proof (cases "find_socket i r")
  case None
  then show ?thesis using assms by (simp add: socket_message_def)
next
  case (Some s)
  show ?thesis
  proof (cases v)
    case (Text_value t)
    have "e \<in> set (rm_log (if Text_value t = control_text ''relay.ping''
        then fst (send_value i (control_text ''relay.pong'') r) else close_socket i 1003 r))"
      using assms(1) Some Text_value by (simp add: socket_message_def)
    then show ?thesis
      using send_log_fst [of i "control_text ''relay.pong''" r] assms(2,3) binary_control
      by (auto simp: close_log split: if_splits)
  next
    case (Binary b)
    then show ?thesis using assms Some binary_control
      by (cases "tr_role (sk_request s)") (auto simp: socket_message_def close_log split: if_splits)
  qed
qed

text \<open>Tickets: a key that is absent stays absent until it is stored again.\<close>

lemma calmer_tickets: "calmer r r' \<Longrightarrow> rm_tickets r' = rm_tickets r"
  by (simp add: calmer_def)

lemma consume_absent: "jget (rm_tickets r) (ticket_key h t) = None \<Longrightarrow> snd (consume_ticket h now t r) = None"
  by (simp add: consume_ticket_def)

lemma consume_removes:
  "consume_ticket h now t r = (r', Some m) \<Longrightarrow> jget (rm_tickets r') (ticket_key h t) = None"
  by (auto simp: consume_ticket_def Let_def split: if_splits option.splits)

lemma consume_keeps_absent:
  "jget (rm_tickets r) k = None \<Longrightarrow> consume_ticket h now t r = (r', x) \<Longrightarrow> jget (rm_tickets r') k = None"
  by (auto simp: consume_ticket_def Let_def split: if_splits option.splits)

lemma connect_tickets: "rm_tickets (fst (connect h now t channel r)) = rm_tickets (fst (consume_ticket h now t r))"
proof -
  obtain r1 x where c: "consume_ticket h now t r = (r1, x)" by fastforce
  have fold1: "rm_tickets (fold (\<lambda>p r. close_socket p 4001 r) ps q) = rm_tickets q" for ps q
    by (rule calmer_tickets [OF close_all(1)])
  have fold2: "rm_tickets (fold (\<lambda>d r. announce_device d i r) ds q) = rm_tickets q" for i ds q
    by (rule calmer_tickets [OF fold_calmer [OF announce_calmer]])
  show ?thesis
    by (cases x) (auto simp: connect_def c Let_def fold1 fold2 calmer_tickets [OF send_calmer]
        calmer_tickets [OF announce_calmer] split: option.splits relay_role.splits)
qed

lemma filter_absent: "jget m k = None \<Longrightarrow> jget (filter p m) k = None"
  by (auto simp: jget_None)

text \<open>A step that stores no ticket under key \<open>k\<close>.\<close>

inductive room_step_without :: "(bytes \<Rightarrow> bytes) \<Rightarrow> jstr \<Rightarrow> room \<Rightarrow> room \<Rightarrow> bool" for h k where
  Without_issue: "room_step_without h k r (fst (issue_begin now body r))"
| Without_store: "ticket_key h t \<noteq> k \<Longrightarrow> room_step_without h k r (issue_store h now t m r)"
| Without_connect: "room_step_without h k r (fst (connect h now t channel r))"
| Without_message: "room_step_without h k r (socket_message i v r)"
| Without_closed: "room_step_without h k r (socket_closed i r)"
| Without_drain: "room_step_without h k r (drain_socket i n r)"

lemma step_without_absent:
  "room_step_without h k r r' \<Longrightarrow> jget (rm_tickets r) k = None \<Longrightarrow> jget (rm_tickets r') k = None"
proof (induction rule: room_step_without.induct)
  case (Without_issue r now body)
  then show ?case
    by (auto simp: issue_begin_def clear_expired_tickets_def Let_def filter_absent split: option.splits)
next
  case (Without_store t r now m)
  then show ?case by (simp add: issue_store_def)
next
  case (Without_connect r now t channel)
  obtain r1 x where "consume_ticket h now t r = (r1, x)" by fastforce
  with consume_keeps_absent [OF Without_connect this] show ?case by (simp add: connect_tickets)
next
  case (Without_message r i v)
  then show ?case by (simp add: calmer_tickets [OF message_calmer])
next
  case (Without_closed r i)
  have "calmer r (update_socket i (\<lambda>s. s\<lparr>sk_open := False\<rparr>) r)" by (rule update_calmer) (simp add: same_socket_def)
  from calmer_tickets [OF calmer_trans [OF this handle_closed_calmer]] Without_closed show ?case
    by (simp add: socket_closed_def Let_def)
next
  case (Without_drain r i n)
  then show ?case by (simp add: drain_socket_def update_socket_def)
qed

lemma steps_without_absent:
  "(room_step_without h k)\<^sup>*\<^sup>* r r' \<Longrightarrow> jget (rm_tickets r) k = None \<Longrightarrow> jget (rm_tickets r') k = None"
  by (induction rule: rtranclp_induct) (auto intro: step_without_absent)

section \<open>Properties\<close>

text \<open>
  C10. Accounts stay within their limits: in every reachable room no desktop and no device has two open
  connections, and at most 8 different desktops and 16 different devices are connected, however
  connections, replacements, closures and messages follow one another.
\<close>

theorem relay_connection_limits:
  assumes "room_reach sha256 r"
  shows "(\<forall>s \<in> set (rm_sockets r). \<forall>t \<in> set (rm_sockets r). rivals s t \<longrightarrow> sk_id s = sk_id t) \<and>
    card (desktop_ids r) \<le> 8 \<and> card (device_ids r) \<le> 16"
  using room_reach_inv [OF assms]
  by (simp add: room_inv_def MAX_DESKTOPS_PER_ACCOUNT_def MAX_DEVICES_PER_ACCOUNT_def)

theorem relay_connection_limits_witness:
  "\<exists>r. room_reach (\<lambda>b. b) r \<and> card (desktop_ids r) \<le> 8 \<and> rm_tickets r \<noteq> []"
proof -
  let ?m = "\<lparr>tr_role = Desktop, tr_desktopId = js ''d'', tr_deviceId = None\<rparr>"
  let ?body = "JObj [(js ''role'', JStr (js ''desktop'')), (js ''desktopId'', JStr (js ''d''))]"
  have "validate_ticket_request ?body = Some ?m"
    by (simp add: validate_ticket_request_def role_field_def identifier_field_def exec_simps)
  then have "issue_begin 0 ?body empty_room = (empty_room, Inr ?m)"
    by (simp add: issue_begin_def clear_expired_tickets_def empty_room_def MAX_ACTIVE_TICKETS_def)
  then have reach: "room_reach (\<lambda>b. b) (issue_store (\<lambda>b. b) 0 [] ?m empty_room)"
    by (intro Room_more [OF Room_start] Step_store)
  have "rm_tickets (issue_store (\<lambda>b. b) 0 [] ?m empty_room) \<noteq> []"
    by (simp add: issue_store_def empty_room_def jset_def)
  with relay_connection_limits [OF reach] reach show ?thesis by blast
qed

text \<open>
  C11. A ticket opens one connection: after a ticket has been accepted, every later attempt to use it is
  refused, whatever happens in between, unless a ticket with the same digest is issued again.
\<close>

theorem relay_ticket_single_use:
  assumes "consume_ticket sha256 now t r = (r1, Some m)"
    and "(room_step_without sha256 (ticket_key sha256 t))\<^sup>*\<^sup>* r1 r2"
  shows "snd (connect sha256 now' t channel r2) = 401"
proof -
  have "snd (consume_ticket sha256 now' t r2) = None"
    by (rule consume_absent [OF steps_without_absent [OF assms(2) consume_removes [OF assms(1)]]])
  then show ?thesis by (auto simp: connect_def split: prod.splits option.splits)
qed

theorem relay_ticket_single_use_witness:
  "\<exists>r r1 m. consume_ticket (\<lambda>b. b) 5 (replicate 43 97) r = (r1, Some m) \<and>
     snd (connect (\<lambda>b. b) 6 (replicate 43 97) [] (drain_socket 0 1 r1)) = 401"
proof -
  let ?t = "replicate 43 97 :: jstr"
  let ?m = "\<lparr>tr_role = Desktop, tr_desktopId = js ''d'', tr_deviceId = None\<rparr>"
  let ?r = "issue_store (\<lambda>b. b) 0 ?t ?m empty_room"
  have "ticket_re ?t" by (simp add: ticket_re_def list_all_iff exec_simps)
  then have c: "consume_ticket (\<lambda>b. b) 5 ?t ?r =
      (?r\<lparr>rm_tickets := jdel (ticket_key (\<lambda>b. b) ?t) (rm_tickets ?r)\<rparr>, Some ?m)"
    by (simp add: consume_ticket_def issue_store_def empty_room_def TICKET_TTL_MS_def is_safe_def
        max_safe_integer_def)
  let ?r1 = "?r\<lparr>rm_tickets := jdel (ticket_key (\<lambda>b. b) ?t) (rm_tickets ?r)\<rparr>"
  have "(room_step_without (\<lambda>b. b) (ticket_key (\<lambda>b. b) ?t))\<^sup>*\<^sup>* ?r1 (drain_socket 0 1 ?r1)"
    by (rule r_into_rtranclp) (rule Without_drain)
  from relay_ticket_single_use [OF c this, of 6 "[]"] c show ?thesis by blast
qed

text \<open>
  C1. The relay forwards within one pairing only. Whatever a socket sends, every binary message the
  room sends in response goes either from a device to the open socket of the desktop it named when it
  connected, framed as data under that device's own channel, or from a desktop to the open device that
  has the channel named in the frame and that named this very desktop, with the frame's payload
  unchanged.
\<close>

theorem relay_forwards_within_pairing:
  assumes "Sent j (Binary x) \<in> set (rm_log (socket_message i v r))"
    and "Sent j (Binary x) \<notin> set (rm_log r)"
  shows "\<exists>s b. find_socket i r = Some s \<and> v = Binary b \<and>
    (tr_role (sk_request s) = Device \<and>
       (\<exists>d. open_desktop (tr_desktopId (sk_request s)) r = Some d \<and> sk_id d = j \<and>
          relay_encode_mux_frame MUX_DATA (sk_channelId s) (Some b) = Some x) \<or>
     tr_role (sk_request s) = Desktop \<and>
       (\<exists>d. open_device (sk_channelId d) r = Some d \<and> sk_id d = j \<and>
          tr_desktopId (sk_request d) = tr_desktopId (sk_request s) \<and>
          relay_decode_mux_frame (Some b) =
            Some \<lparr>mf_type = MUX_DATA, mf_channelId = sk_channelId d, mf_payload = x\<rparr>))"
proof -
  have bin: "is_binary (Sent j (Binary x))" by (simp add: is_binary_def)
  from message_binary [OF assms bin] obtain s b where s: "find_socket i r = Some s" "v = Binary b"
    and c: "tr_role (sk_request s) = Device \<and> Sent j (Binary x) \<in> set (rm_log (device_message s b r)) \<or>
     tr_role (sk_request s) = Desktop \<and> Sent j (Binary x) \<in> set (rm_log (desktop_message s b r))" by blast
  from c show ?thesis
  proof (elim disjE conjE)
    assume "tr_role (sk_request s) = Device" "Sent j (Binary x) \<in> set (rm_log (device_message s b r))"
    with device_message_binary [OF _ assms(2) bin, of s b] s show ?thesis by fastforce
  next
    assume a: "tr_role (sk_request s) = Desktop" "Sent j (Binary x) \<in> set (rm_log (desktop_message s b r))"
    from desktop_message_binary [OF a(2) assms(2) bin] obtain d f where
      f: "relay_decode_mux_frame (Some b) = Some f" "mf_type f = MUX_DATA"
      "open_device (mf_channelId f) r = Some d" "tr_desktopId (sk_request d) = tr_desktopId (sk_request s)"
      "j = sk_id d" "x = mf_payload f" by blast
    have "mf_channelId f = sk_channelId d" using f(3) by (auto simp: open_device_def find_Some_iff)
    with f a(1) s show ?thesis by (cases f) auto
  qed
qed

theorem relay_forwards_within_pairing_witness:
  "\<exists>r d x. Sent 0 (Binary x) \<in> set (rm_log (socket_message 2 (Binary [5]) r)) \<and>
     Sent 0 (Binary x) \<notin> set (rm_log r) \<and> open_desktop (js ''d'') r = Some d \<and> sk_id d = 0 \<and>
     relay_encode_mux_frame MUX_DATA example_channel (Some [5]) = Some x"
proof -
  let ?desktop = "\<lparr>sk_id = 0, sk_request = \<lparr>tr_role = Desktop, tr_desktopId = js ''d'', tr_deviceId = None\<rparr>,
    sk_channelId = [], sk_open = True, sk_buffered = 0\<rparr>"
  let ?device = "\<lparr>sk_id = 2, sk_request = \<lparr>tr_role = Device, tr_desktopId = js ''d'', tr_deviceId = Some (js ''p'')\<rparr>,
    sk_channelId = example_channel, sk_open = True, sk_buffered = 0\<rparr>"
  let ?r = "\<lparr>rm_tickets = [], rm_sockets = [?desktop, ?device], rm_fresh = 3, rm_log = []\<rparr>"
  have "encode_mux_frame MUX_DATA example_channel (Some [5]) =
      Some ([MUX_VERSION, MUX_DATA, 22] @ utf8_encode example_channel @ [5])"
    using example_channel_re by (simp add: encode_mux_frame_Some mux_type_ok_def MAX_RELAY_MESSAGE_BYTES_def)
  then obtain x where enc: "relay_encode_mux_frame MUX_DATA example_channel (Some [5]) = Some x" "length x = 26"
    using mux_frame_roundtrip by fastforce
  have find: "find_socket 2 ?r = Some ?device" "find_socket 0 ?r = Some ?desktop"
    "open_desktop (js ''d'') ?r = Some ?desktop"
    by (simp_all add: find_socket_def open_desktop_def is_desktop_def)
  have "send_value 0 (Binary x) ?r = ((update_socket 0 (\<lambda>s. s\<lparr>sk_buffered := sk_buffered s + 26\<rparr>) ?r)
      \<lparr>rm_log := [Sent 0 (Binary x)]\<rparr>, True)"
    by (simp add: send_value_def find value_bytes_def enc MAX_BUFFERED_BYTES_def)
  then have snt: "Sent 0 (Binary x) \<in> set (rm_log (socket_message 2 (Binary [5]) ?r))"
    by (simp add: socket_message_def find device_message_def enc MAX_RELAY_DEVICE_PAYLOAD_BYTES_def
        MAX_RELAY_MESSAGE_BYTES_def MUX_FRAME_OVERHEAD_def)
  moreover have new: "Sent 0 (Binary x) \<notin> set (rm_log ?r)" by simp
  ultimately have "\<exists>s b. find_socket 2 ?r = Some s \<and> (Binary [5] :: relay_value) = Binary b"
    using relay_forwards_within_pairing [OF snt new] by blast
  with snt new find enc show ?thesis by (intro exI [of _ ?r] exI [of _ ?desktop] exI [of _ x]) simp
qed

end
