(* ===== verification/Redaction.thy ===== *)
theory Redaction
  imports Companion_Protocol
begin

text \<open>
  What leaves the desktop is rebuilt from scratch, never forwarded: \<open>electron/companion/redaction.cjs\<close>.
  This theory holds the shared validators and \<open>sanitizeProjection\<close>, which turns the renderer's
  projection into the one that is stored and sent; \<open>Acp_Redaction\<close> has the agent events. A sanitizer
  takes the JSON data it is given and returns a record of the clean values, or \<open>Inl\<close> of the code of
  the thrown \<open>CompanionProjectionError\<close>. The labels in the messages are not modelled, nor is the cycle
  test, since JSON data has no cycles.
\<close>

section \<open>Constants\<close>

datatype projection_error =
    Pj_invalid_projection | Pj_forbidden_key | Pj_unknown_field | Pj_unsafe_path | Pj_not_normalized
  | Pj_unknown_project | Pj_unknown_session | Pj_duplicate_id | Pj_too_large

definition PROJECTION_KIND :: string where "PROJECTION_KIND = ''kaisola.companion.projection''"

definition MAX_PROJECTION_BYTES :: nat where "MAX_PROJECTION_BYTES = 512 * 1024"

definition MAX_PROJECTS :: nat where "MAX_PROJECTS = 64"
definition MAX_SESSIONS :: nat where "MAX_SESSIONS = 500"
definition MAX_ATTENTION :: nat where "MAX_ATTENTION = 200"
definition MAX_PERMISSIONS :: nat where "MAX_PERMISSIONS = 50"
definition MAX_TURNS_PER_SESSION :: nat where "MAX_TURNS_PER_SESSION = 40"
definition MAX_TURN_TEXT :: nat where "MAX_TURN_TEXT = 16384"
definition MAX_DIFF_TEXT :: nat where "MAX_DIFF_TEXT = 16384"
definition MAX_DISPLAY :: nat where "MAX_DISPLAY = 240"
definition MAX_PERMISSION_OPTIONS :: nat where "MAX_PERMISSION_OPTIONS = 12"
definition MAX_PERMISSION_DIFFS :: nat where "MAX_PERMISSION_DIFFS = 8"
definition MAX_PATH :: nat where "MAX_PATH = 1024"

lemmas projection_limits = MAX_PROJECTS_def MAX_SESSIONS_def MAX_ATTENTION_def MAX_PERMISSIONS_def
  MAX_TURNS_PER_SESSION_def MAX_TURN_TEXT_def MAX_DIFF_TEXT_def MAX_DISPLAY_def
  MAX_PERMISSION_OPTIONS_def MAX_PERMISSION_DIFFS_def MAX_PATH_def

definition FORBIDDEN_KEYS :: "string list" where
  "FORBIDDEN_KEYS =
     [''apikey'', ''accesstoken'', ''authtoken'', ''claudeconfigdir'', ''codexhome'', ''environment'',
      ''env'', ''filebuffers'', ''idtoken'', ''mcp'', ''mcpservers'', ''password'', ''refreshtoken'',
      ''resumecommand'', ''secret'', ''settings'', ''terminaloutput'', ''token'', ''unsavedbuffers'',
      ''workspacepath'']"

definition PROJECT_CONNECTIONS :: "string list" where
  "PROJECT_CONNECTIONS = [''live'', ''stale'', ''offline'']"

definition SESSION_KINDS :: "string list" where
  "SESSION_KINDS = [''agent'', ''terminal'', ''panel'']"

datatype session_status = Idle | Running_session | Waiting_session | Done_session | Failed_session

fun status_text :: "session_status \<Rightarrow> string" where
  "status_text Idle = ''idle''"
| "status_text Running_session = ''running''"
| "status_text Waiting_session = ''waiting''"
| "status_text Done_session = ''done''"
| "status_text Failed_session = ''failed''"

definition SESSION_STATUSES :: "session_status list" where
  "SESSION_STATUSES = [Idle, Running_session, Waiting_session, Done_session, Failed_session]"

definition TURN_KINDS :: "string list" where
  "TURN_KINDS = [''user'', ''assistant'', ''thought'', ''tool'']"

definition ATTENTION_KINDS :: "string list" where
  "ATTENTION_KINDS = [''permission'', ''question'', ''review'', ''blocked'', ''failed'', ''completed'']"

definition SEVERITIES :: "string list" where
  "SEVERITIES = [''info'', ''warning'', ''critical'']"

definition PERMISSION_COMPLETENESS :: "string list" where
  "PERMISSION_COMPLETENESS = [''complete'', ''truncated'', ''redacted'', ''unavailable'']"

section \<open>Shared validators\<close>

text \<open>\<open>member_text ts v\<close> is \<open>SET.has(value)\<close> for a set of strings, with the string found.\<close>

definition member_text :: "string list \<Rightarrow> json option \<Rightarrow> jstr option" where
  "member_text ts v =
     (case as_str v of
        None \<Rightarrow> None
      | Some s \<Rightarrow> if s \<in> set (map js ts) then Some s else None)"

definition member_or :: "string \<Rightarrow> string list \<Rightarrow> json option \<Rightarrow> jstr" where
  "member_or d ts v = (case member_text ts v of None \<Rightarrow> js d | Some s \<Rightarrow> s)"

definition required_member :: "string list \<Rightarrow> json option \<Rightarrow> projection_error + jstr" where
  "required_member ts v =
     (case member_text ts v of None \<Rightarrow> Inl Pj_invalid_projection | Some s \<Rightarrow> Inr s)"

text \<open>
  \<open>keyFingerprint\<close>: \<^verbatim>\<open>/[^a-z0-9]/gi\<close> without the \<^verbatim>\<open>u\<close> flag keeps the ASCII letters and digits only.
\<close>

definition key_fingerprint :: "jstr \<Rightarrow> jstr" where
  "key_fingerprint k = map ascii_lower (filter is_alnum_unit k)"

definition forbidden_key :: "jstr \<Rightarrow> bool" where
  "forbidden_key k = (key_fingerprint k \<in> set (map js FORBIDDEN_KEYS))"

fun no_forbidden_keys :: "json \<Rightarrow> bool" where
  "no_forbidden_keys (JArr xs) = (\<forall>x \<in> set xs. no_forbidden_keys x)"
| "no_forbidden_keys (JObj ps) =
     (\<forall>p \<in> set ps. \<not> forbidden_key (fst p) \<and> no_forbidden_keys (snd p))"
| "no_forbidden_keys _ = True"

definition plain :: "json option \<Rightarrow> projection_error + json" where
  "plain v =
     (case v of
        Some (JObj ps) \<Rightarrow> Inr (JObj ps)
      | _ \<Rightarrow> Inl Pj_invalid_projection)"

definition allowed_fields :: "string list \<Rightarrow> json \<Rightarrow> projection_error + unit" where
  "allowed_fields ks v = require (only_keys v ks) Pj_unknown_field (Inr ())"

definition safe_id :: "nat \<Rightarrow> json option \<Rightarrow> projection_error + jstr" where
  "safe_id m v =
     (case validate_identifier m v of
        Inl _ \<Rightarrow> Inl Pj_invalid_projection
      | Inr s \<Rightarrow> Inr s)"

definition is_control_unit :: "16 word \<Rightarrow> bool" where
  "is_control_unit u = (u = 0 \<or> u = 8 \<or> u = 11 \<or> u = 12 \<or> (14 \<le> u \<and> u \<le> 31) \<or> u = 127)"

definition clean_text :: "jstr \<Rightarrow> jstr" where
  "clean_text s = js_trim (filter (\<lambda>u. \<not> is_control_unit u) s)"

text \<open>
  \<open>safeString\<close>; the result \<open>None\<close> is \<open>undefined\<close>. A required text is never empty, so
  \<open>required_string\<close> has a plain result.
\<close>

definition safe_string :: "nat \<Rightarrow> json option \<Rightarrow> projection_error + jstr option" where
  "safe_string m v =
     (if nullish v then Inr None
      else case as_str v of
             None \<Rightarrow> Inl Pj_invalid_projection
           | Some s \<Rightarrow>
               let t = take m (clean_text s) in Inr (if t = [] then None else Some t))"

definition required_string :: "nat \<Rightarrow> json option \<Rightarrow> projection_error + jstr" where
  "required_string m v =
     (case as_str v of
        None \<Rightarrow> Inl Pj_invalid_projection
      | Some s \<Rightarrow>
          require (clean_text s \<noteq> []) Pj_invalid_projection (Inr (take m (clean_text s))))"

definition safe_time :: "json option \<Rightarrow> projection_error + int" where
  "safe_time v =
     (case as_int v of
        None \<Rightarrow> Inl Pj_invalid_projection
      | Some n \<Rightarrow> require (0 \<le> n) Pj_invalid_projection (Inr n))"

definition safe_bool :: "json option \<Rightarrow> bool" where
  "safe_bool v = (v = Some (JBool True))"

text \<open>
  An optional property: \<^verbatim>\<open>...(value == null ? {} : { key: check(value) })\<close>.
\<close>

definition unless_null :: "json option \<Rightarrow> (json option \<Rightarrow> projection_error + 'a) \<Rightarrow> projection_error + 'a option" where
  "unless_null v check = (if nullish v then Inr None else ebind (check v) (\<lambda>x. Inr (Some x)))"

section \<open>Paths\<close>

definition is_slash :: "16 word \<Rightarrow> bool" where
  "is_slash u = (u = 47 \<or> u = 92)"

definition is_letter_unit :: "16 word \<Rightarrow> bool" where
  "is_letter_unit u = ((65 \<le> u \<and> u \<le> 90) \<or> (97 \<le> u \<and> u \<le> 122))"

definition is_scheme_unit :: "16 word \<Rightarrow> bool" where
  "is_scheme_unit u = (is_alnum_unit u \<or> u = 43 \<or> u = 46 \<or> u = 45)"

text \<open>\<^verbatim>\<open>text.split(/[\\/]/)\<close>\<close>

fun segments :: "jstr \<Rightarrow> jstr list" where
  "segments [] = [[]]"
| "segments (u # us) =
     (if is_slash u then [] # segments us else (u # hd (segments us)) # tl (segments us))"

definition posix_absolute :: "jstr \<Rightarrow> bool" where
  "posix_absolute s = (s \<noteq> [] \<and> hd s = 47)"

definition win32_absolute :: "jstr \<Rightarrow> bool" where
  "win32_absolute s =
     ((s \<noteq> [] \<and> is_slash (hd s)) \<or>
      (2 < length s \<and> is_letter_unit (s ! 0) \<and> s ! 1 = 58 \<and> is_slash (s ! 2)))"

definition has_scheme :: "jstr \<Rightarrow> bool" where
  "has_scheme s =
     (s \<noteq> [] \<and> is_letter_unit (hd s) \<and>
      (let rest = dropWhile is_scheme_unit (tl s) in rest \<noteq> [] \<and> hd rest = 58))"

definition has_home :: "jstr \<Rightarrow> bool" where
  "has_home s = (s \<noteq> [] \<and> hd s = 126 \<and> (tl s = [] \<or> is_slash (hd (tl s))))"

definition unsafe_path :: "jstr \<Rightarrow> bool" where
  "unsafe_path s =
     (posix_absolute s \<or> win32_absolute s \<or> has_scheme s \<or> has_home s \<or>
      js ''..'' \<in> set (segments s))"

definition forward_slashes :: "jstr \<Rightarrow> jstr" where
  "forward_slashes s = map (\<lambda>u. if u = 92 then 47 else u) s"

definition safe_relative_path :: "json option \<Rightarrow> projection_error + jstr" where
  "safe_relative_path v =
     ebind (required_string MAX_PATH v) (\<lambda>t.
     require (t \<noteq> [] \<and> \<not> unsafe_path t) Pj_unsafe_path (Inr (forward_slashes t)))"

text \<open>\<open>optionalId\<close> and \<open>displayText\<close> replace what is invalid instead of throwing.\<close>

definition optional_id :: "nat \<Rightarrow> json option \<Rightarrow> jstr option" where
  "optional_id m v = (case safe_id m v of Inl _ \<Rightarrow> None | Inr s \<Rightarrow> Some s)"

definition display_text :: "nat \<Rightarrow> jstr \<Rightarrow> json option \<Rightarrow> jstr" where
  "display_text m fallback v =
     (case as_str v of
        None \<Rightarrow> fallback
      | Some s \<Rightarrow> let t = take m (clean_text s) in if t = [] then fallback else t)"

section \<open>The clean projection\<close>

record turn =
  tn_kind :: jstr
  tn_text :: jstr
  tn_status :: "jstr option"
  tn_at :: "int option"

datatype board_lane = Lane_running | Lane_waiting | Lane_done

record session =
  ss_id :: jstr
  ss_projectId :: jstr
  ss_kind :: jstr
  ss_title :: jstr
  ss_status :: session_status
  ss_needsYou :: bool
  ss_unread :: bool
  ss_updatedAt :: int
  ss_windowId :: "jstr option"
  ss_boardLane :: "board_lane option"
  ss_provider :: "jstr option"
  ss_model :: "jstr option"
  ss_mode :: "jstr option"
  ss_branch :: "jstr option"
  ss_summary :: "jstr option"
  ss_startedAt :: "int option"
  ss_completedAt :: "int option"
  ss_turns :: "turn list option"

record attention =
  at_id :: jstr
  at_projectId :: jstr
  at_kind :: jstr
  at_title :: jstr
  at_createdAt :: int
  at_severity :: jstr
  at_sessionId :: "jstr option"
  at_detail :: "jstr option"

record permission_option =
  po_id :: jstr
  po_label :: jstr

record permission_diff =
  pd_relativePath :: jstr
  pd_oldText :: jstr
  pd_newText :: jstr

record permission =
  pm_permId :: jstr
  pm_projectId :: jstr
  pm_agent :: jstr
  pm_title :: jstr
  pm_requestedAt :: int
  pm_targetId :: "jstr option"
  pm_revision :: "int option"
  pm_completeness :: "jstr option"
  pm_sessionId :: "jstr option"
  pm_kind :: "jstr option"
  pm_options :: "permission_option list"
  pm_diffs :: "permission_diff list"

record project =
  pj_id :: jstr
  pj_name :: jstr
  pj_connection :: jstr
  pj_lastContactAt :: int
  pj_windowId :: "jstr option"
  pj_windowName :: "jstr option"
  pj_repo :: "jstr option"
  pj_branch :: "jstr option"

record counts =
  ct_running :: nat
  ct_waiting :: nat
  ct_done :: nat
  ct_failed :: nat

record card =
  cd_id :: jstr
  cd_json :: json
  cd_updatedAt :: int

record board =
  bd_running :: "card list"
  bd_waiting :: "card list"
  bd_done :: "card list"

record projection =
  pr_revision :: int
  pr_generatedAt :: int
  pr_live :: bool
  pr_projects :: "project list"
  pr_sessions :: "session list"
  pr_attention :: "attention list"
  pr_permissions :: "permission list"
  pr_board :: board

section \<open>Sessions\<close>

definition status_of :: "json option \<Rightarrow> session_status option" where
  "status_of v = find (\<lambda>s. v = Some (JStr (js (status_text s)))) SESSION_STATUSES"

definition normalized_status :: "json \<Rightarrow> session_status" where
  "normalized_status s =
     (let requested = (case status_of (field s ''status'') of None \<Rightarrow> Idle | Some t \<Rightarrow> t) in
      if safe_bool (field s ''needsYou'') \<or> requested = Waiting_session then Waiting_session
      else requested)"

definition board_lane_for :: "bool \<Rightarrow> session_status \<Rightarrow> board_lane option" where
  "board_lane_for needs_you status =
     (if needs_you \<or> status = Waiting_session \<or> status = Failed_session then Some Lane_waiting
      else if status = Running_session then Some Lane_running
      else if status = Done_session then Some Lane_done
      else None)"

definition sanitize_turn :: "json \<Rightarrow> projection_error + turn" where
  "sanitize_turn raw =
     ebind (plain (Some raw)) (\<lambda>t.
     ebind (required_member TURN_KINDS (field t ''kind'')) (\<lambda>kind.
         ebind (required_string MAX_TURN_TEXT (field t ''text'')) (\<lambda>text.
         ebind (safe_string 80 (field t ''status'')) (\<lambda>status.
         ebind (unless_null (field t ''at'') safe_time) (\<lambda>at.
         Inr \<lparr>tn_kind = kind, tn_text = text, tn_status = status, tn_at = at\<rparr>)))))"

definition last_turns :: "json list \<Rightarrow> json list" where
  "last_turns ts = drop (length ts - MAX_TURNS_PER_SESSION) ts"

definition sanitize_turns :: "json option \<Rightarrow> projection_error + turn list option" where
  "sanitize_turns v =
     (case as_arr v of
        None \<Rightarrow> Inr None
      | Some ts \<Rightarrow> ebind (emap sanitize_turn (last_turns ts)) (\<lambda>us. Inr (Some us)))"

definition sanitize_session :: "jstr list \<Rightarrow> json \<Rightarrow> projection_error + session" where
  "sanitize_session projects raw =
     ebind (plain (Some raw)) (\<lambda>s.
     ebind (safe_id 240 (field s ''id'')) (\<lambda>i.
     ebind (safe_id 240 (field s ''projectId'')) (\<lambda>p.
     require (p \<in> set projects) Pj_unknown_project (
     ebind (required_member SESSION_KINDS (field s ''kind'')) (\<lambda>kind.
         let status = normalized_status s; needs_you = safe_bool (field s ''needsYou'') in
         ebind (required_string MAX_DISPLAY (field s ''title'')) (\<lambda>title.
         ebind (safe_time (field s ''updatedAt'')) (\<lambda>updated.
         ebind (unless_null (field s ''windowId'') (safe_id 160)) (\<lambda>window.
         ebind (safe_string 120 (field s ''provider'')) (\<lambda>provider.
         ebind (safe_string 120 (field s ''model'')) (\<lambda>model.
         ebind (safe_string 80 (field s ''mode'')) (\<lambda>mode.
         ebind (safe_string 240 (field s ''branch'')) (\<lambda>branch.
         ebind (safe_string MAX_DISPLAY (field s ''summary'')) (\<lambda>summary.
         ebind (unless_null (field s ''startedAt'') safe_time) (\<lambda>started.
         ebind (unless_null (field s ''completedAt'') safe_time) (\<lambda>completed.
         ebind (sanitize_turns (field s ''turns'')) (\<lambda>turns.
         Inr \<lparr>ss_id = i, ss_projectId = p, ss_kind = kind, ss_title = title, ss_status = status,
              ss_needsYou = needs_you, ss_unread = safe_bool (field s ''unread''),
              ss_updatedAt = updated, ss_windowId = window,
              ss_boardLane = board_lane_for needs_you status,
              ss_provider = provider, ss_model = model, ss_mode = mode, ss_branch = branch,
              ss_summary = summary, ss_startedAt = started, ss_completedAt = completed,
              ss_turns = turns\<rparr>))))))))))))))))"

section \<open>Attention and permissions\<close>

definition session_in :: "session list \<Rightarrow> jstr \<Rightarrow> jstr \<Rightarrow> bool" where
  "session_in sessions project i =
     (\<exists>s \<in> set sessions. ss_id s = i \<and> ss_projectId s = project)"

definition session_ref :: "session list \<Rightarrow> jstr \<Rightarrow> json option \<Rightarrow> projection_error + jstr" where
  "session_ref sessions project v =
     ebind (safe_id 240 v) (\<lambda>i. require (session_in sessions project i) Pj_unknown_session (Inr i))"

definition sanitize_attention :: "jstr list \<Rightarrow> session list \<Rightarrow> json \<Rightarrow> projection_error + attention" where
  "sanitize_attention projects sessions raw =
     ebind (plain (Some raw)) (\<lambda>a.
     ebind (safe_id 240 (field a ''id'')) (\<lambda>i.
     ebind (safe_id 240 (field a ''projectId'')) (\<lambda>p.
     require (p \<in> set projects) Pj_unknown_project (
     ebind (required_member ATTENTION_KINDS (field a ''kind'')) (\<lambda>kind.
         ebind (required_string MAX_DISPLAY (field a ''title'')) (\<lambda>title.
         ebind (safe_time (field a ''createdAt'')) (\<lambda>created.
         ebind (unless_null (field a ''sessionId'') (session_ref sessions p)) (\<lambda>session.
         ebind (safe_string MAX_DISPLAY (field a ''detail'')) (\<lambda>detail.
         Inr \<lparr>at_id = i, at_projectId = p, at_kind = kind, at_title = title, at_createdAt = created,
              at_severity = member_or ''info'' SEVERITIES (field a ''severity''),
              at_sessionId = session, at_detail = detail\<rparr>)))))))))"

definition sanitize_option :: "json \<Rightarrow> projection_error + permission_option" where
  "sanitize_option raw =
     ebind (plain (Some raw)) (\<lambda>v.
     ebind (safe_id 120 (field v ''id'')) (\<lambda>i.
     ebind (required_string 160 (field v ''label'')) (\<lambda>label.
     Inr \<lparr>po_id = i, po_label = label\<rparr>)))"

definition or_empty :: "jstr option \<Rightarrow> jstr" where
  "or_empty t = (case t of None \<Rightarrow> [] | Some s \<Rightarrow> s)"

definition sanitize_diff :: "json \<Rightarrow> projection_error + permission_diff" where
  "sanitize_diff raw =
     ebind (plain (Some raw)) (\<lambda>d.
     ebind (safe_relative_path (field d ''relativePath'')) (\<lambda>p.
     ebind (safe_string MAX_DIFF_TEXT (field d ''oldText'')) (\<lambda>old.
     ebind (safe_string MAX_DIFF_TEXT (field d ''newText'')) (\<lambda>new.
     Inr \<lparr>pd_relativePath = p, pd_oldText = or_empty old, pd_newText = or_empty new\<rparr>))))"

definition array_or_empty :: "json option \<Rightarrow> json list" where
  "array_or_empty v = (case as_arr v of None \<Rightarrow> [] | Some xs \<Rightarrow> xs)"

definition sanitize_permission :: "jstr list \<Rightarrow> session list \<Rightarrow> json \<Rightarrow> projection_error + permission" where
  "sanitize_permission projects sessions raw =
     ebind (plain (Some raw)) (\<lambda>a.
     ebind (safe_id 240 (field a ''permId'')) (\<lambda>i.
     ebind (safe_id 240 (field a ''projectId'')) (\<lambda>p.
     require (p \<in> set projects) Pj_unknown_project (
     ebind (required_string 120 (field a ''agent'')) (\<lambda>agent.
     ebind (required_string MAX_DISPLAY (field a ''title'')) (\<lambda>title.
     ebind (safe_time (field a ''requestedAt'')) (\<lambda>requested.
     ebind (unless_null (field a ''targetId'') (safe_id 240)) (\<lambda>target.
     ebind (unless_null (field a ''revision'') safe_time) (\<lambda>revision.
     ebind (unless_null (field a ''completeness'')
              (\<lambda>v. Inr (member_or ''unavailable'' PERMISSION_COMPLETENESS v))) (\<lambda>completeness.
     ebind (unless_null (field a ''sessionId'') (session_ref sessions p)) (\<lambda>session.
     ebind (safe_string 80 (field a ''kind'')) (\<lambda>kind.
     ebind (emap sanitize_option (take MAX_PERMISSION_OPTIONS (array_or_empty (field a ''options'')))) (\<lambda>options.
     ebind (emap sanitize_diff (take MAX_PERMISSION_DIFFS (array_or_empty (field a ''diffs'')))) (\<lambda>diffs.
     Inr \<lparr>pm_permId = i, pm_projectId = p, pm_agent = agent, pm_title = title,
          pm_requestedAt = requested, pm_targetId = target, pm_revision = revision,
          pm_completeness = completeness, pm_sessionId = session, pm_kind = kind,
          pm_options = options, pm_diffs = diffs\<rparr>))))))))))))))"

definition sanitize_project :: "json \<Rightarrow> projection_error + project" where
  "sanitize_project raw =
     ebind (plain (Some raw)) (\<lambda>p.
     ebind (safe_id 240 (field p ''id'')) (\<lambda>i.
     ebind (required_string MAX_DISPLAY (field p ''name'')) (\<lambda>name.
     ebind (safe_time (field p ''lastContactAt'')) (\<lambda>contact.
     ebind (unless_null (field p ''windowId'') (safe_id 160)) (\<lambda>window.
     ebind (safe_string 240 (field p ''windowName'')) (\<lambda>window_name.
     ebind (safe_string 240 (field p ''repo'')) (\<lambda>repo.
     ebind (safe_string 240 (field p ''branch'')) (\<lambda>branch.
     Inr \<lparr>pj_id = i, pj_name = name,
          pj_connection = member_or ''offline'' PROJECT_CONNECTIONS (field p ''connection''),
          pj_lastContactAt = contact, pj_windowId = window, pj_windowName = window_name,
          pj_repo = repo, pj_branch = branch\<rparr>))))))))"

section \<open>The board\<close>

definition card_order :: "(jstr \<Rightarrow> jstr \<Rightarrow> int) \<Rightarrow> card \<Rightarrow> card \<Rightarrow> int" where
  "card_order collate a b =
     (if cd_updatedAt b - cd_updatedAt a \<noteq> 0 then cd_updatedAt b - cd_updatedAt a
      else collate (cd_id a) (cd_id b))"

definition str_value :: "jstr \<Rightarrow> json option" where "str_value s = Some (JStr s)"
definition lit_value :: "string \<Rightarrow> json option" where "lit_value s = Some (JStr (js s))"
definition int_value :: "int \<Rightarrow> json option" where "int_value n = Some (JInt n)"
definition bool_value :: "bool \<Rightarrow> json option" where "bool_value b = Some (JBool b)"

definition session_card :: "session \<Rightarrow> card" where
  "session_card s =
     \<lparr>cd_id = ss_id s,
      cd_json = obj [(''id'', str_value (ss_id s)), (''type'', lit_value ''session''),
        (''projectId'', str_value (ss_projectId s)), (''title'', str_value (ss_title s)),
        (''status'', lit_value (status_text (ss_status s))), (''needsYou'', bool_value (ss_needsYou s)),
        (''updatedAt'', int_value (ss_updatedAt s)), (''provider'', map_option JStr (ss_provider s)),
        (''summary'', map_option JStr (ss_summary s))],
      cd_updatedAt = ss_updatedAt s\<rparr>"

definition attention_card :: "attention \<Rightarrow> card" where
  "attention_card a =
     \<lparr>cd_id = at_id a,
      cd_json = obj [(''id'', str_value (at_id a)), (''type'', lit_value ''attention''),
        (''projectId'', str_value (at_projectId a)), (''title'', str_value (at_title a)),
        (''status'', lit_value (if at_kind a = js ''failed'' then ''failed'' else ''waiting'')),
        (''needsYou'', bool_value True), (''updatedAt'', int_value (at_createdAt a)),
        (''attentionKind'', str_value (at_kind a)), (''summary'', map_option JStr (at_detail a))],
      cd_updatedAt = at_createdAt a\<rparr>"

definition lane_sessions :: "board_lane \<Rightarrow> session list \<Rightarrow> session list" where
  "lane_sessions lane sessions = filter (\<lambda>s. ss_boardLane s = Some lane) sessions"

text \<open>The attention items shown next to the sessions: those a waiting session does not already show.\<close>

definition lane_attention :: "session list \<Rightarrow> attention list \<Rightarrow> attention list" where
  "lane_attention sessions items =
     (let waiting = map ss_id (lane_sessions Lane_waiting sessions) in
      filter (\<lambda>a. \<not> some_is (\<lambda>i. i \<in> set waiting) (at_sessionId a) \<and> at_kind a \<noteq> js ''completed'')
        items)"

definition build_board :: "(jstr \<Rightarrow> jstr \<Rightarrow> int) \<Rightarrow> session list \<Rightarrow> attention list \<Rightarrow> board" where
  "build_board collate sessions items =
     (let order = sort_by (card_order collate) in
      \<lparr>bd_running = order (map session_card (lane_sessions Lane_running sessions)),
       bd_waiting = order (map session_card (lane_sessions Lane_waiting sessions) @
                           map attention_card (lane_attention sessions items)),
       bd_done = order (map session_card (lane_sessions Lane_done sessions))\<rparr>)"

definition counts_for :: "jstr \<Rightarrow> session list \<Rightarrow> counts" where
  "counts_for project sessions =
     (let own = filter (\<lambda>s. ss_projectId s = project) sessions in
      \<lparr>ct_running = length (lane_sessions Lane_running own),
       ct_waiting = length (lane_sessions Lane_waiting own),
       ct_done = length (lane_sessions Lane_done own),
       ct_failed = length (filter (\<lambda>s. ss_status s = Failed_session) own)\<rparr>)"

section \<open>The projection as JSON\<close>

definition turn_json :: "turn \<Rightarrow> json" where
  "turn_json t = obj [(''kind'', str_value (tn_kind t)), (''text'', str_value (tn_text t)),
     (''status'', map_option JStr (tn_status t)), (''at'', map_option JInt (tn_at t))]"

fun lane_text :: "board_lane \<Rightarrow> string" where
  "lane_text Lane_running = ''running''"
| "lane_text Lane_waiting = ''waiting''"
| "lane_text Lane_done = ''done''"

definition session_json :: "session \<Rightarrow> json" where
  "session_json s = obj
     [(''id'', str_value (ss_id s)), (''projectId'', str_value (ss_projectId s)), (''kind'', str_value (ss_kind s)),
      (''title'', str_value (ss_title s)), (''status'', lit_value (status_text (ss_status s))),
      (''needsYou'', bool_value (ss_needsYou s)), (''unread'', bool_value (ss_unread s)),
      (''updatedAt'', int_value (ss_updatedAt s)), (''windowId'', map_option JStr (ss_windowId s)),
      (''boardLane'', Some (case ss_boardLane s of None \<Rightarrow> JNull | Some l \<Rightarrow> JStr (js (lane_text l)))),
      (''provider'', map_option JStr (ss_provider s)), (''model'', map_option JStr (ss_model s)),
      (''mode'', map_option JStr (ss_mode s)), (''branch'', map_option JStr (ss_branch s)),
      (''summary'', map_option JStr (ss_summary s)),
      (''startedAt'', map_option JInt (ss_startedAt s)),
      (''completedAt'', map_option JInt (ss_completedAt s)),
      (''turns'', map_option (\<lambda>ts. JArr (map turn_json ts)) (ss_turns s))]"

definition attention_json :: "attention \<Rightarrow> json" where
  "attention_json a = obj
     [(''id'', str_value (at_id a)), (''projectId'', str_value (at_projectId a)), (''kind'', str_value (at_kind a)),
      (''title'', str_value (at_title a)), (''createdAt'', int_value (at_createdAt a)),
      (''severity'', str_value (at_severity a)), (''sessionId'', map_option JStr (at_sessionId a)),
      (''detail'', map_option JStr (at_detail a))]"

definition option_json :: "permission_option \<Rightarrow> json" where
  "option_json v = obj [(''id'', str_value (po_id v)), (''label'', str_value (po_label v))]"

definition diff_json :: "permission_diff \<Rightarrow> json" where
  "diff_json d = obj [(''relativePath'', str_value (pd_relativePath d)), (''oldText'', str_value (pd_oldText d)),
     (''newText'', str_value (pd_newText d))]"

definition permission_json :: "permission \<Rightarrow> json" where
  "permission_json p = obj
     [(''permId'', str_value (pm_permId p)), (''projectId'', str_value (pm_projectId p)),
      (''agent'', str_value (pm_agent p)), (''title'', str_value (pm_title p)),
      (''requestedAt'', int_value (pm_requestedAt p)), (''targetId'', map_option JStr (pm_targetId p)),
      (''revision'', map_option JInt (pm_revision p)),
      (''completeness'', map_option JStr (pm_completeness p)),
      (''sessionId'', map_option JStr (pm_sessionId p)), (''kind'', map_option JStr (pm_kind p)),
      (''options'', Some (JArr (map option_json (pm_options p)))),
      (''diffs'', Some (JArr (map diff_json (pm_diffs p))))]"

definition counts_json :: "counts \<Rightarrow> json" where
  "counts_json c = obj [(''running'', int_value (int (ct_running c))),
     (''waiting'', int_value (int (ct_waiting c))), (''done'', int_value (int (ct_done c))),
     (''failed'', int_value (int (ct_failed c)))]"

definition project_json :: "session list \<Rightarrow> project \<Rightarrow> json" where
  "project_json sessions p = obj
     [(''id'', str_value (pj_id p)), (''name'', str_value (pj_name p)), (''connection'', str_value (pj_connection p)),
      (''lastContactAt'', int_value (pj_lastContactAt p)),
      (''windowId'', map_option JStr (pj_windowId p)), (''windowName'', map_option JStr (pj_windowName p)),
      (''repo'', map_option JStr (pj_repo p)), (''branch'', map_option JStr (pj_branch p)),
      (''counts'', Some (counts_json (counts_for (pj_id p) sessions)))]"

definition column_json :: "string \<Rightarrow> string \<Rightarrow> string option \<Rightarrow> card list \<Rightarrow> json" where
  "column_json i title source cards = obj
     [(''id'', lit_value i), (''title'', lit_value title),
      (''sourceLabel'', map_option (\<lambda>s. JStr (js s)) source),
      (''count'', int_value (int (length cards))), (''cards'', Some (JArr (map cd_json cards)))]"

definition board_json :: "board \<Rightarrow> json" where
  "board_json b = obj [(''columns'', Some (JArr
     [column_json ''running'' ''Running'' None (bd_running b),
      column_json ''waiting'' ''Needs You'' (Some ''Waiting for review'') (bd_waiting b),
      column_json ''done'' ''Done'' None (bd_done b)]))]"

definition projection_json :: "projection \<Rightarrow> json" where
  "projection_json p = obj
     [(''projectionKind'', lit_value PROJECTION_KIND), (''revision'', int_value (pr_revision p)),
      (''generatedAt'', int_value (pr_generatedAt p)),
      (''freshness'', lit_value (if pr_live p then ''live'' else ''stale'')),
      (''projects'', Some (JArr (map (project_json (pr_sessions p)) (pr_projects p)))),
      (''sessions'', Some (JArr (map session_json (pr_sessions p)))),
      (''attention'', Some (JArr (map attention_json (pr_attention p)))),
      (''permissions'', Some (JArr (map permission_json (pr_permissions p)))),
      (''board'', Some (board_json (pr_board p)))]"

section \<open>\<open>sanitizeProjection\<close>\<close>

definition bounded_array :: "nat \<Rightarrow> json option \<Rightarrow> projection_error + json list" where
  "bounded_array m v =
     (case as_arr v of
        None \<Rightarrow> Inl Pj_invalid_projection
      | Some xs \<Rightarrow> require (length xs \<le> m) Pj_invalid_projection (Inr xs))"

definition sanitize_projection :: "(jstr \<Rightarrow> jstr \<Rightarrow> int) \<Rightarrow> json option \<Rightarrow> projection_error + projection" where
  "sanitize_projection collate input =
     ebind (plain input) (\<lambda>raw.
     require (field raw ''projectionKind'' = lit_value PROJECTION_KIND) Pj_not_normalized (
     require (no_forbidden_keys raw) Pj_forbidden_key (
     ebind (safe_time (field raw ''revision'')) (\<lambda>revision.
     ebind (safe_time (field raw ''generatedAt'')) (\<lambda>generated.
     ebind (bounded_array MAX_PROJECTS (field raw ''projects'')) (\<lambda>raw_projects.
     ebind (bounded_array MAX_SESSIONS (field raw ''sessions'')) (\<lambda>raw_sessions.
     ebind (emap sanitize_project raw_projects) (\<lambda>projects.
     let ids = map pj_id projects in
     require (distinct ids) Pj_duplicate_id (
     ebind (emap (sanitize_session ids) raw_sessions) (\<lambda>sessions.
     require (distinct (map ss_id sessions)) Pj_duplicate_id (
     ebind (emap (sanitize_attention ids sessions)
              (take MAX_ATTENTION (array_or_empty (field raw ''attention'')))) (\<lambda>attention.
     ebind (emap (sanitize_permission ids sessions)
              (take MAX_PERMISSIONS (array_or_empty (field raw ''permissions'')))) (\<lambda>permissions.
     let clean = \<lparr>pr_revision = revision, pr_generatedAt = generated,
                  pr_live = (field raw ''freshness'' = lit_value ''live''),
                  pr_projects = projects, pr_sessions = sessions, pr_attention = attention,
                  pr_permissions = permissions,
                  pr_board = build_board collate sessions attention\<rparr> in
     require (json_bytes (projection_json clean) \<le> MAX_PROJECTION_BYTES) Pj_too_large (Inr clean))))))))))))))"

section \<open>What the validators guarantee\<close>

text \<open>
  \<open>text_ok m t\<close> holds of the texts \<open>safeString\<close> returns. They need not be trimmed at the end: the text
  is trimmed before it is cut to \<open>m\<close> units, so a cut after a space leaves that space.
\<close>

definition text_ok :: "nat \<Rightarrow> jstr \<Rightarrow> bool" where
  "text_ok m t =
     (t \<noteq> [] \<and> length t \<le> m \<and> list_all (\<lambda>u. \<not> is_control_unit u) t \<and> \<not> is_space_unit (hd t))"

definition time_ok :: "int \<Rightarrow> bool" where
  "time_ok n = (0 \<le> n \<and> is_safe n)"

definition path_ok :: "jstr \<Rightarrow> bool" where
  "path_ok t = (text_ok MAX_PATH t \<and> \<not> unsafe_path t \<and> 92 \<notin> set t)"

definition one_of :: "string list \<Rightarrow> jstr \<Rightarrow> bool" where
  "one_of ts s = (s \<in> set (map js ts))"

lemma clean_text_ok: "clean_text s \<noteq> [] \<Longrightarrow> 0 < m \<Longrightarrow> text_ok m (take m (clean_text s))"
proof -
  assume ne: "clean_text s \<noteq> []" and m: "0 < m"
  have "set (clean_text s) \<subseteq> {u. \<not> is_control_unit u}"
    using set_js_trim [of "filter (\<lambda>u. \<not> is_control_unit u) s"] by (auto simp: clean_text_def)
  moreover have "\<not> is_space_unit (hd (clean_text s))"
    using ne js_trim_hd unfolding clean_text_def by blast
  ultimately show ?thesis
    using ne m by (auto simp: text_ok_def list_all_iff dest!: in_set_takeD)
qed

lemma clean_text_stable: "text_ok m t \<Longrightarrow> trimmed t \<Longrightarrow> clean_text t = t"
  by (simp add: clean_text_def text_ok_def list_all_iff filter_id_conv [THEN iffD2])

lemma required_string_Inr: "required_string m v = Inr t \<Longrightarrow> 0 < m \<Longrightarrow> text_ok m t"
  by (auto simp: required_string_def require_eq_Inr clean_text_ok split: option.splits)

lemma required_string_stable [simp]:
  "text_ok m t \<Longrightarrow> trimmed t \<Longrightarrow> required_string m (str_value t) = Inr t"
  using clean_text_stable [of m t] by (simp add: required_string_def str_value_def text_ok_def)

lemma safe_string_Inr: "safe_string m v = Inr t \<Longrightarrow> 0 < m \<Longrightarrow> pred_option (text_ok m) t"
  using clean_text_ok [of _ m]
  by (auto simp: safe_string_def Let_def split: option.splits if_splits)

lemma safe_string_stable [simp]:
  assumes "pred_option (text_ok m) t" "pred_option trimmed t"
  shows "safe_string m (map_option JStr t) = Inr t"
proof (cases t)
  case None
  then show ?thesis by (simp add: safe_string_def nullish_def)
next
  case (Some s)
  with assms have s: "text_ok m s" "trimmed s" by simp_all
  from s clean_text_stable [OF s] Some show ?thesis
    by (simp add: safe_string_def nullish_def text_ok_def Let_def)
qed

lemma safe_id_Inr: "safe_id m v = Inr s \<longleftrightarrow> v = Some (JStr s) \<and> identifier_ok m s"
  by (auto simp: safe_id_def split: sum.splits)

lemma safe_id_stable [simp]: "identifier_ok m s \<Longrightarrow> safe_id m (str_value s) = Inr s"
  by (simp add: safe_id_Inr str_value_def)

lemma safe_time_Inr: "safe_time v = Inr n \<longleftrightarrow> v = Some (JInt n) \<and> time_ok n"
  by (auto simp: safe_time_def time_ok_def require_eq_Inr split: option.splits)

lemma safe_time_stable [simp]: "time_ok n \<Longrightarrow> safe_time (int_value n) = Inr n"
  by (simp add: safe_time_Inr int_value_def)

lemma plain_Inr: "plain v = Inr x \<longleftrightarrow> v = Some x \<and> is_obj x"
  by (auto simp: plain_def split: option.splits json.splits)

lemma plain_obj [simp]: "plain (Some (obj ps)) = Inr (obj ps)"
  by (simp add: plain_Inr)

lemma member_text_Some: "member_text ts v = Some s \<longleftrightarrow> v = Some (JStr s) \<and> one_of ts s"
  by (auto simp: member_text_def one_of_def split: option.splits)

lemma member_text_stable [simp]: "one_of ts s \<Longrightarrow> member_text ts (str_value s) = Some s"
  by (simp add: member_text_Some str_value_def)

lemma required_member_Inr: "required_member ts v = Inr s \<longleftrightarrow> v = Some (JStr s) \<and> one_of ts s"
proof -
  have "member_text ts v = Some s \<longleftrightarrow> required_member ts v = Inr s"
    by (auto simp: required_member_def split: option.splits)
  then show ?thesis using member_text_Some by metis
qed

lemma required_member_stable [simp]: "one_of ts s \<Longrightarrow> required_member ts (str_value s) = Inr s"
  by (simp add: required_member_Inr str_value_def)

lemma member_or_one_of: "one_of ts (js d) \<Longrightarrow> one_of ts (member_or d ts v)"
  by (auto simp: member_or_def member_text_Some split: option.splits)

lemma member_or_stable [simp]: "one_of ts s \<Longrightarrow> member_or d ts (str_value s) = s"
  by (simp add: member_or_def)

lemma unless_null_Inr:
  "unless_null v f = Inr r \<longleftrightarrow> (nullish v \<and> r = None) \<or> (\<not> nullish v \<and> (\<exists>x. f v = Inr x \<and> r = Some x))"
  by (auto simp: unless_null_def ebind_eq_Inr)

lemma unless_null_id [simp]:
  "pred_option (identifier_ok m) r \<Longrightarrow> unless_null (map_option JStr r) (safe_id m) = Inr r"
  by (cases r) (simp_all add: unless_null_def nullish_def safe_id_Inr [THEN iffD2])

lemma unless_null_time [simp]:
  "pred_option time_ok r \<Longrightarrow> unless_null (map_option JInt r) safe_time = Inr r"
  by (cases r) (simp_all add: unless_null_def nullish_def safe_time_Inr [THEN iffD2])

lemma values_present [simp]: "str_value s \<noteq> None" "lit_value l \<noteq> None" "int_value n \<noteq> None"
    "bool_value b \<noteq> None"
  by (simp_all add: str_value_def lit_value_def int_value_def bool_value_def)

lemma safe_bool_value [simp]: "safe_bool (bool_value b) = b"
  by (simp add: safe_bool_def bool_value_def)

subsection \<open>Paths\<close>

lemma segments_forward [simp]: "segments (forward_slashes s) = segments s"
  by (induction s rule: segments.induct) (auto simp: forward_slashes_def is_slash_def)

lemma is_slash_forward [simp]: "is_slash (if u = 92 then 47 else u) = is_slash u"
  by (simp add: is_slash_def)

lemma forward_unit [simp]: "(if u = 92 then 47 else u) = (58 :: 16 word) \<longleftrightarrow> u = 58"
  by simp

lemma is_letter_forward [simp]: "is_letter_unit (if u = 92 then 47 else u) = is_letter_unit u"
  by (simp add: is_letter_unit_def)

lemma win32_forward [simp]: "win32_absolute (forward_slashes s) = win32_absolute s"
proof -
  have nth: "i < length s \<Longrightarrow> forward_slashes s ! i = (if s ! i = 92 then 47 else s ! i)" for i
    by (simp add: forward_slashes_def)
  have "length (forward_slashes s) = length s" "forward_slashes s = [] \<longleftrightarrow> s = []"
    "s \<noteq> [] \<Longrightarrow> is_slash (hd (forward_slashes s)) = is_slash (hd s)"
    by (simp_all add: forward_slashes_def hd_map del: is_slash_forward if_split) (simp add: is_slash_def)
  then show ?thesis
    by (cases "2 < length s") (auto simp: win32_absolute_def nth simp del: if_split)
qed

lemma unsafe_forward: "\<not> unsafe_path s \<Longrightarrow> \<not> unsafe_path (forward_slashes s)"
proof (cases s)
  case (Cons u us)
  assume safe: "\<not> unsafe_path s"
  have u: "\<not> is_slash u" using safe Cons by (auto simp: unsafe_path_def win32_absolute_def)
  then have u92: "u \<noteq> 92" by (auto simp: is_slash_def)
  have scheme: "has_scheme (forward_slashes s) \<Longrightarrow> has_scheme s"
  proof -
    have tw: "dropWhile is_scheme_unit (forward_slashes vs) \<noteq> [] \<Longrightarrow>
        hd (dropWhile is_scheme_unit (forward_slashes vs)) = 58 \<Longrightarrow>
        dropWhile is_scheme_unit vs \<noteq> [] \<and> hd (dropWhile is_scheme_unit vs) = 58" for vs
    proof (induction vs)
      case (Cons v vs)
      have "\<not> is_scheme_unit 47" "\<not> is_scheme_unit 92"
        by (simp_all add: is_scheme_unit_def is_alnum_unit_def is_digit_unit_def)
      then show ?case using Cons by (cases "v = 92") (auto simp: forward_slashes_def split: if_splits)
    qed (simp add: forward_slashes_def)
    assume "has_scheme (forward_slashes s)"
    then show ?thesis
      using tw [of us] Cons u92 by (auto simp: has_scheme_def Let_def forward_slashes_def)
  qed
  show ?thesis
    using safe scheme u u92 Cons segments_forward [of s]
    win32_forward [of s]
    by (auto simp: unsafe_path_def posix_absolute_def has_home_def hd_map is_slash_def
        forward_slashes_def simp del: segments_forward win32_forward split: if_splits)
qed (simp add: forward_slashes_def)

lemma plain_units: "\<not> is_control_unit 47" "\<not> is_control_unit 92"
  by (simp_all add: is_control_unit_def)

lemma text_ok_forward: "text_ok m s \<Longrightarrow> hd s \<noteq> 92 \<Longrightarrow> text_ok m (forward_slashes s)"
  using plain_units by (cases s) (auto simp: text_ok_def forward_slashes_def list_all_iff)

lemma safe_relative_path_Inr: "safe_relative_path v = Inr t \<Longrightarrow> path_ok t"
proof -
  assume "safe_relative_path v = Inr t"
  then obtain s where s: "required_string MAX_PATH v = Inr s" "\<not> unsafe_path s" "t = forward_slashes s"
    by (auto simp: safe_relative_path_def result_simps)
  from s(1) have ok: "text_ok MAX_PATH s" by (rule required_string_Inr) (simp add: MAX_PATH_def)
  moreover have "hd s \<noteq> 92" using s(2) ok
    by (auto simp: unsafe_path_def win32_absolute_def is_slash_def text_ok_def)
  ultimately have "text_ok MAX_PATH (forward_slashes s)"
    by (rule text_ok_forward)
  moreover have "92 \<notin> set (forward_slashes s)" by (auto simp: forward_slashes_def)
  ultimately show ?thesis using s unsafe_forward by (simp add: path_ok_def)
qed

lemma forward_slashes_id: "92 \<notin> set t \<Longrightarrow> forward_slashes t = t"
  by (induction t) (auto simp: forward_slashes_def)

lemma safe_relative_path_stable [simp]:
  "path_ok t \<Longrightarrow> trimmed t \<Longrightarrow> safe_relative_path (str_value t) = Inr t"
  by (auto simp: safe_relative_path_def path_ok_def forward_slashes_id text_ok_def require_def)

section \<open>Well-formed projections\<close>

definition turn_ok :: "turn \<Rightarrow> bool" where
  "turn_ok t =
     (one_of TURN_KINDS (tn_kind t) \<and> text_ok MAX_TURN_TEXT (tn_text t) \<and>
      pred_option (text_ok 80) (tn_status t) \<and> pred_option time_ok (tn_at t))"

definition session_ok :: "jstr list \<Rightarrow> session \<Rightarrow> bool" where
  "session_ok projects s =
     (identifier_ok 240 (ss_id s) \<and> identifier_ok 240 (ss_projectId s) \<and>
      ss_projectId s \<in> set projects \<and> one_of SESSION_KINDS (ss_kind s) \<and>
      text_ok MAX_DISPLAY (ss_title s) \<and> (ss_needsYou s \<longrightarrow> ss_status s = Waiting_session) \<and>
      time_ok (ss_updatedAt s) \<and> pred_option (identifier_ok 160) (ss_windowId s) \<and>
      ss_boardLane s = board_lane_for (ss_needsYou s) (ss_status s) \<and>
      pred_option (text_ok 120) (ss_provider s) \<and> pred_option (text_ok 120) (ss_model s) \<and>
      pred_option (text_ok 80) (ss_mode s) \<and> pred_option (text_ok 240) (ss_branch s) \<and>
      pred_option (text_ok MAX_DISPLAY) (ss_summary s) \<and>
      pred_option time_ok (ss_startedAt s) \<and> pred_option time_ok (ss_completedAt s) \<and>
      pred_option (\<lambda>ts. length ts \<le> MAX_TURNS_PER_SESSION \<and> list_all turn_ok ts) (ss_turns s))"

definition attention_ok :: "jstr list \<Rightarrow> session list \<Rightarrow> attention \<Rightarrow> bool" where
  "attention_ok projects sessions a =
     (identifier_ok 240 (at_id a) \<and> identifier_ok 240 (at_projectId a) \<and>
      at_projectId a \<in> set projects \<and> one_of ATTENTION_KINDS (at_kind a) \<and>
      text_ok MAX_DISPLAY (at_title a) \<and> time_ok (at_createdAt a) \<and>
      one_of SEVERITIES (at_severity a) \<and> pred_option (text_ok MAX_DISPLAY) (at_detail a) \<and>
      pred_option (\<lambda>i. identifier_ok 240 i \<and> session_in sessions (at_projectId a) i) (at_sessionId a))"

definition diff_ok :: "permission_diff \<Rightarrow> bool" where
  "diff_ok d =
     (path_ok (pd_relativePath d) \<and> (pd_oldText d = [] \<or> text_ok MAX_DIFF_TEXT (pd_oldText d)) \<and>
      (pd_newText d = [] \<or> text_ok MAX_DIFF_TEXT (pd_newText d)))"

definition option_ok :: "permission_option \<Rightarrow> bool" where
  "option_ok v = (identifier_ok 120 (po_id v) \<and> text_ok 160 (po_label v))"

definition permission_ok :: "jstr list \<Rightarrow> session list \<Rightarrow> permission \<Rightarrow> bool" where
  "permission_ok projects sessions p =
     (identifier_ok 240 (pm_permId p) \<and> identifier_ok 240 (pm_projectId p) \<and>
      pm_projectId p \<in> set projects \<and> text_ok 120 (pm_agent p) \<and> text_ok MAX_DISPLAY (pm_title p) \<and>
      time_ok (pm_requestedAt p) \<and> pred_option (identifier_ok 240) (pm_targetId p) \<and>
      pred_option time_ok (pm_revision p) \<and>
      pred_option (one_of PERMISSION_COMPLETENESS) (pm_completeness p) \<and>
      pred_option (\<lambda>i. identifier_ok 240 i \<and> session_in sessions (pm_projectId p) i) (pm_sessionId p) \<and>
      pred_option (text_ok 80) (pm_kind p) \<and>
      length (pm_options p) \<le> MAX_PERMISSION_OPTIONS \<and> list_all option_ok (pm_options p) \<and>
      length (pm_diffs p) \<le> MAX_PERMISSION_DIFFS \<and> list_all diff_ok (pm_diffs p))"

definition project_ok :: "project \<Rightarrow> bool" where
  "project_ok p =
     (identifier_ok 240 (pj_id p) \<and> text_ok MAX_DISPLAY (pj_name p) \<and>
      one_of PROJECT_CONNECTIONS (pj_connection p) \<and> time_ok (pj_lastContactAt p) \<and>
      pred_option (identifier_ok 160) (pj_windowId p) \<and> pred_option (text_ok 240) (pj_windowName p) \<and>
      pred_option (text_ok 240) (pj_repo p) \<and> pred_option (text_ok 240) (pj_branch p))"

definition projection_ok :: "(jstr \<Rightarrow> jstr \<Rightarrow> int) \<Rightarrow> projection \<Rightarrow> bool" where
  "projection_ok collate p =
     (let ids = map pj_id (pr_projects p) in
      time_ok (pr_revision p) \<and> time_ok (pr_generatedAt p) \<and>
      length (pr_projects p) \<le> MAX_PROJECTS \<and> list_all project_ok (pr_projects p) \<and> distinct ids \<and>
      length (pr_sessions p) \<le> MAX_SESSIONS \<and> list_all (session_ok ids) (pr_sessions p) \<and>
      distinct (map ss_id (pr_sessions p)) \<and>
      length (pr_attention p) \<le> MAX_ATTENTION \<and>
      list_all (attention_ok ids (pr_sessions p)) (pr_attention p) \<and>
      length (pr_permissions p) \<le> MAX_PERMISSIONS \<and>
      list_all (permission_ok ids (pr_sessions p)) (pr_permissions p) \<and>
      pr_board p = build_board collate (pr_sessions p) (pr_attention p) \<and>
      json_bytes (projection_json p) \<le> MAX_PROJECTION_BYTES)"

subsection \<open>Sanitizing gives well-formed values\<close>

lemma limits_positive [simp]: "0 < MAX_TURN_TEXT" "0 < MAX_DIFF_TEXT" "0 < MAX_DISPLAY"
    "MAX_TURN_TEXT \<noteq> 0" "MAX_DIFF_TEXT \<noteq> 0" "MAX_DISPLAY \<noteq> 0"
  by (simp_all add: projection_limits)

lemmas validators_Inr = safe_id_Inr safe_time_Inr plain_Inr required_member_Inr unless_null_Inr

lemmas string_Inr = required_string_Inr safe_string_Inr safe_relative_path_Inr

lemma emap_all: "emap f xs = Inr ys \<Longrightarrow> (\<And>x y. f x = Inr y \<Longrightarrow> P y) \<Longrightarrow> list_all P ys"
  by (auto simp: emap_eq_Inr list_all_iff dest!: list_all2_image)

lemma emap_length: "emap f xs = Inr ys \<Longrightarrow> length ys = length xs"
  by (auto simp: emap_eq_Inr list_all2_lengthD)

lemma optional_ok: "unless_null v f = Inr r \<Longrightarrow> (\<And>x. f v = Inr x \<Longrightarrow> P x) \<Longrightarrow> pred_option P r"
  by (auto simp: unless_null_Inr)

lemma optional_id_ok: "unless_null v (safe_id m) = Inr r \<Longrightarrow> pred_option (identifier_ok m) r"
  by (erule optional_ok) (simp add: safe_id_Inr)

lemma optional_time_ok: "unless_null v safe_time = Inr r \<Longrightarrow> pred_option time_ok r"
  by (erule optional_ok) (simp add: safe_time_Inr)

lemma sanitize_turn_ok: "sanitize_turn raw = Inr t \<Longrightarrow> turn_ok t"
  unfolding sanitize_turn_def
  by (elim ebind_InrE require_InrE)
    (clarsimp simp: turn_ok_def required_member_Inr string_Inr optional_time_ok)

lemma sanitize_turns_ok:
  "sanitize_turns v = Inr r \<Longrightarrow>
   pred_option (\<lambda>ts. length ts \<le> MAX_TURNS_PER_SESSION \<and> list_all turn_ok ts) r"
proof (cases "as_arr v")
  case (Some ts)
  assume "sanitize_turns v = Inr r"
  then obtain us where us: "emap sanitize_turn (last_turns ts) = Inr us" "r = Some us"
    using Some by (auto simp: sanitize_turns_def ebind_eq_Inr)
  have "length us = length (last_turns ts)" using us(1) by (rule emap_length)
  then show ?thesis
    using us emap_all [OF us(1) sanitize_turn_ok] by (simp add: last_turns_def)
qed (auto simp: sanitize_turns_def)

lemmas sanitized_ok = required_member_Inr safe_id_Inr safe_time_Inr string_Inr optional_id_ok
  optional_time_ok sanitize_turns_ok member_or_one_of

lemma sanitize_session_ok: "sanitize_session ps raw = Inr s \<Longrightarrow> session_ok ps s"
  unfolding sanitize_session_def Let_def
  by (elim ebind_InrE require_InrE)
    (clarsimp simp: session_ok_def sanitized_ok normalized_status_def)

lemma one_of_defaults [simp]: "one_of SEVERITIES (js ''info'')"
  "one_of PERMISSION_COMPLETENESS (js ''unavailable'')" "one_of PROJECT_CONNECTIONS (js ''offline'')"
  by (simp_all add: one_of_def SEVERITIES_def PERMISSION_COMPLETENESS_def PROJECT_CONNECTIONS_def)

lemma session_ref_Inr:
  "session_ref sessions p v = Inr i \<longleftrightarrow>
   v = Some (JStr i) \<and> identifier_ok 240 i \<and> session_in sessions p i"
  by (auto simp: session_ref_def result_simps safe_id_Inr)

lemma optional_ref_ok:
  "unless_null v (session_ref sessions p) = Inr r \<Longrightarrow>
   pred_option (\<lambda>i. identifier_ok 240 i \<and> session_in sessions p i) r"
  by (erule optional_ok) (simp add: session_ref_Inr)

lemma optional_completeness_ok:
  "unless_null v (\<lambda>w. Inr (member_or ''unavailable'' PERMISSION_COMPLETENESS w)) = Inr r \<Longrightarrow>
   pred_option (one_of PERMISSION_COMPLETENESS) r"
  by (erule optional_ok) (auto intro: member_or_one_of)

lemma sanitize_attention_ok: "sanitize_attention ps ss raw = Inr a \<Longrightarrow> attention_ok ps ss a"
  unfolding sanitize_attention_def
  by (elim ebind_InrE require_InrE)
    (clarsimp simp: attention_ok_def sanitized_ok optional_ref_ok)

lemma sanitize_option_ok: "sanitize_option raw = Inr v \<Longrightarrow> option_ok v"
  unfolding sanitize_option_def
  by (elim ebind_InrE require_InrE) (clarsimp simp: option_ok_def sanitized_ok)

lemma or_empty_ok: "pred_option P t \<Longrightarrow> or_empty t = [] \<or> P (or_empty t)"
  by (cases t) (simp_all add: or_empty_def)

lemma sanitize_diff_ok: "sanitize_diff raw = Inr d \<Longrightarrow> diff_ok d"
  unfolding sanitize_diff_def
  by (elim ebind_InrE require_InrE)
    (clarsimp simp: diff_ok_def sanitized_ok or_empty_ok [OF safe_string_Inr])

lemma sanitize_permission_ok: "sanitize_permission ps ss raw = Inr p \<Longrightarrow> permission_ok ps ss p"
  unfolding sanitize_permission_def
  by (elim ebind_InrE require_InrE)
    (clarsimp simp: permission_ok_def sanitized_ok optional_ref_ok optional_completeness_ok
      emap_all [OF _ sanitize_option_ok] emap_all [OF _ sanitize_diff_ok] emap_length)

lemma sanitize_project_ok: "sanitize_project raw = Inr p \<Longrightarrow> project_ok p"
  unfolding sanitize_project_def
  by (elim ebind_InrE require_InrE) (clarsimp simp: project_ok_def sanitized_ok)

lemma bounded_array_Inr: "bounded_array m v = Inr xs \<longleftrightarrow> v = Some (JArr xs) \<and> length xs \<le> m"
  by (auto simp: bounded_array_def require_eq_Inr split: option.splits)

lemma sanitize_projection_ok: "sanitize_projection collate v = Inr p \<Longrightarrow> projection_ok collate p"
  unfolding sanitize_projection_def Let_def
  by (elim ebind_InrE require_InrE)
    (clarsimp simp: projection_ok_def sanitized_ok bounded_array_Inr emap_length
      emap_all [OF _ sanitize_project_ok] emap_all [OF _ sanitize_session_ok]
      emap_all [OF _ sanitize_attention_ok] emap_all [OF _ sanitize_permission_ok])

subsection \<open>Well-formed values survive sanitizing again\<close>

text \<open>
  The texts of a projection. A stored projection is sanitized again whenever it is read, which
  gives the same projection when no text was cut after a space.
\<close>

definition opt_list :: "'a option \<Rightarrow> 'a list" where
  "opt_list v = (case v of None \<Rightarrow> [] | Some x \<Rightarrow> [x])"

definition or_empty_list :: "'a list option \<Rightarrow> 'a list" where
  "or_empty_list v = (case v of None \<Rightarrow> [] | Some xs \<Rightarrow> xs)"

definition turn_texts :: "turn \<Rightarrow> jstr list" where
  "turn_texts t = tn_text t # opt_list (tn_status t)"

definition session_texts :: "session \<Rightarrow> jstr list" where
  "session_texts s =
     ss_title s # opt_list (ss_provider s) @ opt_list (ss_model s) @ opt_list (ss_mode s) @
     opt_list (ss_branch s) @ opt_list (ss_summary s) @
     concat (map turn_texts (or_empty_list (ss_turns s)))"

definition attention_texts :: "attention \<Rightarrow> jstr list" where
  "attention_texts a = at_title a # opt_list (at_detail a)"

definition permission_texts :: "permission \<Rightarrow> jstr list" where
  "permission_texts p =
     [pm_agent p, pm_title p] @ opt_list (pm_kind p) @ map po_label (pm_options p) @
     concat (map (\<lambda>d. [pd_relativePath d, pd_oldText d, pd_newText d]) (pm_diffs p))"

definition project_texts :: "project \<Rightarrow> jstr list" where
  "project_texts p =
     pj_name p # opt_list (pj_windowName p) @ opt_list (pj_repo p) @ opt_list (pj_branch p)"

definition projection_texts :: "projection \<Rightarrow> jstr list" where
  "projection_texts p =
     concat (map project_texts (pr_projects p)) @ concat (map session_texts (pr_sessions p)) @
     concat (map attention_texts (pr_attention p)) @ concat (map permission_texts (pr_permissions p))"

lemma trimmed_opt_list [simp]: "list_all P (opt_list v) = pred_option P v"
  by (cases v) (simp_all add: opt_list_def)

lemma list_all_concat_map: "list_all P (concat (map f xs)) = list_all (\<lambda>x. list_all P (f x)) xs"
  by (auto simp: list_all_iff)

lemma emap_stable: "list_all P ys \<Longrightarrow> list_all Q ys \<Longrightarrow>
    (\<And>y. P y \<Longrightarrow> Q y \<Longrightarrow> f (g y) = Inr y) \<Longrightarrow> emap f (map g ys) = Inr ys"
  by (rule emap_map_id) (auto simp: list_all_iff)

lemma sanitize_turn_stable:
  "turn_ok t \<Longrightarrow> list_all trimmed (turn_texts t) \<Longrightarrow> sanitize_turn (turn_json t) = Inr t"
  by (simp add: sanitize_turn_def turn_json_def turn_ok_def turn_texts_def)

lemma sanitize_turns_stable:
  assumes "pred_option (\<lambda>ts. length ts \<le> MAX_TURNS_PER_SESSION \<and> list_all turn_ok ts) r"
    "list_all trimmed (concat (map turn_texts (or_empty_list r)))"
  shows "sanitize_turns (map_option (\<lambda>ts. JArr (map turn_json ts)) r) = Inr r"
proof (cases r)
  case (Some ts)
  have "emap sanitize_turn (map turn_json ts) = Inr ts"
    using assms Some sanitize_turn_stable
    by (intro emap_stable [where P = turn_ok and Q = "\<lambda>t. list_all trimmed (turn_texts t)"])
      (auto simp: or_empty_list_def list_all_concat_map)
  then show ?thesis using assms Some by (simp add: sanitize_turns_def last_turns_def)
qed (simp add: sanitize_turns_def)

lemma status_of_text [simp]: "status_of (lit_value (status_text s)) = Some s"
  by (cases s) (simp_all add: status_of_def lit_value_def SESSION_STATUSES_def)

lemma sanitize_session_stable:
  assumes "session_ok ps s" "list_all trimmed (session_texts s)"
  shows "sanitize_session ps (session_json s) = Inr s"
proof -
  have "normalized_status (session_json s) = ss_status s"
    using assms(1) by (simp add: normalized_status_def session_json_def session_ok_def Let_def)
  then show ?thesis
    using assms sanitize_turns_stable [of "ss_turns s"]
    by (simp add: sanitize_session_def session_json_def session_ok_def session_texts_def Let_def)
qed

lemma unless_null_ref [simp]:
  "pred_option (\<lambda>i. identifier_ok 240 i \<and> session_in sessions p i) r \<Longrightarrow>
   unless_null (map_option JStr r) (session_ref sessions p) = Inr r"
  by (cases r) (simp_all add: unless_null_def nullish_def session_ref_Inr [THEN iffD2])

lemma unless_null_completeness [simp]:
  "pred_option (one_of PERMISSION_COMPLETENESS) r \<Longrightarrow>
   unless_null (map_option JStr r)
     (\<lambda>w. Inr (member_or ''unavailable'' PERMISSION_COMPLETENESS w)) = Inr r"
  using member_or_stable [unfolded str_value_def]
  by (cases r) (simp_all add: unless_null_def nullish_def)

lemma sanitize_attention_stable:
  "attention_ok ps ss a \<Longrightarrow> list_all trimmed (attention_texts a) \<Longrightarrow>
   sanitize_attention ps ss (attention_json a) = Inr a"
  by (simp add: sanitize_attention_def attention_json_def attention_ok_def attention_texts_def)

lemma sanitize_option_stable:
  "option_ok v \<Longrightarrow> trimmed (po_label v) \<Longrightarrow> sanitize_option (option_json v) = Inr v"
  by (simp add: sanitize_option_def option_json_def option_ok_def)

lemma safe_string_or_empty:
  "t = [] \<or> text_ok m t \<Longrightarrow> trimmed t \<Longrightarrow>
   safe_string m (str_value t) = Inr (if t = [] then None else Some t)"
proof (cases "t = []")
  case True
  then show ?thesis by (simp add: safe_string_def nullish_def str_value_def clean_text_def js_trim_def)
next
  case False
  moreover assume "t = [] \<or> text_ok m t" "trimmed t"
  ultimately show ?thesis
    using safe_string_stable [of m "Some t"] by (simp add: str_value_def)
qed

lemma sanitize_diff_stable:
  "diff_ok d \<Longrightarrow> list_all trimmed [pd_relativePath d, pd_oldText d, pd_newText d] \<Longrightarrow>
   sanitize_diff (diff_json d) = Inr d"
  by (simp add: sanitize_diff_def diff_json_def diff_ok_def safe_string_or_empty or_empty_def)

lemma sanitize_permission_stable:
  assumes "permission_ok ps ss p" "list_all trimmed (permission_texts p)"
  shows "sanitize_permission ps ss (permission_json p) = Inr p"
proof -
  have "emap sanitize_option (map option_json (pm_options p)) = Inr (pm_options p)"
    using assms sanitize_option_stable
    by (intro emap_stable [where P = option_ok and Q = "\<lambda>v. trimmed (po_label v)"])
      (auto simp: permission_ok_def permission_texts_def list_all_iff)
  moreover have "emap sanitize_diff (map diff_json (pm_diffs p)) = Inr (pm_diffs p)"
    using assms sanitize_diff_stable
    by (intro emap_stable [where P = diff_ok and
          Q = "\<lambda>d. list_all trimmed [pd_relativePath d, pd_oldText d, pd_newText d]"])
      (auto simp: permission_ok_def permission_texts_def list_all_concat_map)
  ultimately show ?thesis
    using assms
    by (simp add: sanitize_permission_def permission_json_def permission_ok_def permission_texts_def
        array_or_empty_def)
qed

lemma sanitize_project_stable:
  "project_ok p \<Longrightarrow> list_all trimmed (project_texts p) \<Longrightarrow>
   sanitize_project (project_json ss p) = Inr p"
  by (simp add: sanitize_project_def project_json_def project_ok_def project_texts_def)

definition PROJECTION_KEYS :: "string list" where
  "PROJECTION_KEYS =
     [''projectionKind'', ''revision'', ''generatedAt'', ''freshness'', ''projects'', ''sessions'',
      ''attention'', ''permissions'', ''board'', ''columns'', ''id'', ''title'', ''sourceLabel'', ''count'',
      ''cards'', ''name'', ''connection'', ''lastContactAt'', ''windowId'', ''windowName'', ''repo'',
      ''branch'', ''counts'', ''running'', ''waiting'', ''done'', ''failed'', ''permId'', ''projectId'',
      ''agent'', ''requestedAt'', ''targetId'', ''completeness'', ''sessionId'', ''kind'', ''options'',
      ''diffs'', ''relativePath'', ''oldText'', ''newText'', ''label'', ''createdAt'', ''severity'',
      ''detail'', ''status'', ''needsYou'', ''unread'', ''updatedAt'', ''boardLane'', ''provider'',
      ''model'', ''mode'', ''summary'', ''startedAt'', ''completedAt'', ''turns'', ''text'', ''at'',
      ''type'', ''attentionKind'']"

text \<open>For a literal key the fingerprint is computed on the character codes.\<close>

definition key_codes :: "string \<Rightarrow> int list" where
  "key_codes k =
     map (\<lambda>n. if 65 \<le> n \<and> n \<le> 90 then n + 32 else n)
       (filter (\<lambda>n. (48 \<le> n \<and> n \<le> 57) \<or> (65 \<le> n \<and> n \<le> 90) \<or> (97 \<le> n \<and> n \<le> 122)) (map of_char k))"

lemma uint_of_char_16: "uint (of_char c :: 16 word) = of_char c"
  using unat_of_char_16 [of c] by (metis int_nat_eq of_nat_of_char uint_ge_0 unat_eq_nat_uint)

lemma alnum_code: "is_alnum_unit (of_char c) \<longleftrightarrow>
    (let n = of_char c :: int in (48 \<le> n \<and> n \<le> 57) \<or> (65 \<le> n \<and> n \<le> 90) \<or> (97 \<le> n \<and> n \<le> 122))"
  by (simp add: is_alnum_unit_def is_digit_unit_def word_le_def uint_of_char_16 Let_def)

lemma lower_code: "uint (ascii_lower (of_char c)) =
    (let n = of_char c :: int in if 65 \<le> n \<and> n \<le> 90 then n + 32 else n)"
proof -
  have "uint (of_char c + 32 :: 16 word) = of_char c + 32" if "of_char c \<le> (90 :: int)"
    using that uint_of_char_16 [of c] by (subst uint_add_lem [THEN iffD1]) simp_all
  then show ?thesis
    by (simp add: ascii_lower_def word_le_def uint_of_char_16 Let_def)
qed

lemma fingerprint_codes: "map uint (key_fingerprint (js k)) = key_codes k"
  by (induction k) (simp_all add: key_fingerprint_def key_codes_def js_def alnum_code lower_code Let_def)

lemma forbidden_codes:
  "forbidden_key (js k) \<longleftrightarrow> key_codes k \<in> set (map (map of_char) FORBIDDEN_KEYS)"
proof -
  have inj: "inj (map uint :: 16 word list \<Rightarrow> int list)"
    by (rule inj_mapI, rule injI) (simp add: word_uint_eq_iff)
  have js: "map uint (js f) = map of_char f" for f
    by (simp add: js_def uint_of_char_16)
  have "key_fingerprint (js k) = js f \<longleftrightarrow> key_codes k = map of_char f" for f
    using inj_eq [OF inj, of "key_fingerprint (js k)" "js f"] by (simp add: fingerprint_codes js)
  then show ?thesis by (auto simp: forbidden_key_def)
qed

lemma projection_keys_allowed: "list_all (\<lambda>k. \<not> forbidden_key (js k)) PROJECTION_KEYS"
  unfolding forbidden_codes by code_simp

lemma no_forbidden_obj:
  "no_forbidden_keys (obj ps) =
   list_all (\<lambda>p. (snd p \<noteq> None \<longrightarrow> \<not> forbidden_key (js (fst p))) \<and>
                 pred_option no_forbidden_keys (snd p)) ps"
  by (induction ps rule: entries.induct) (auto simp: obj_def split: option.splits)

lemma pred_option_True [simp]: "pred_option (\<lambda>x. True) v"
  by (cases v) simp_all

lemma no_forbidden_map [simp]: "pred_option no_forbidden_keys (map_option JStr v)"
  "pred_option no_forbidden_keys (map_option JInt w)"
  by (simp_all add: option.pred_map comp_def)

lemma no_forbidden_values [simp]: "no_forbidden_keys (JStr s)" "no_forbidden_keys (JInt n)"
  "no_forbidden_keys (JBool b)" "no_forbidden_keys JNull"
  by simp_all

lemmas projection_json_defs = turn_json_def session_json_def attention_json_def option_json_def
  diff_json_def permission_json_def counts_json_def project_json_def column_json_def board_json_def
  projection_json_def session_card_def attention_card_def

lemmas allowed_keys = projection_keys_allowed [unfolded PROJECTION_KEYS_def list.pred_inject]

lemma no_forbidden_optional [simp]:
  "no_forbidden_keys (case v of None \<Rightarrow> JNull | Some l \<Rightarrow> JStr (f l))"
  by (cases v) simp_all

lemma no_forbidden_session: "no_forbidden_keys (session_json s)"
  by (simp add: session_json_def turn_json_def no_forbidden_obj allowed_keys option.pred_map comp_def
      str_value_def lit_value_def int_value_def bool_value_def)

lemma no_forbidden_cards:
  "no_forbidden_keys (cd_json (session_card s))" "no_forbidden_keys (cd_json (attention_card a))"
  by (simp_all add: session_card_def attention_card_def no_forbidden_obj allowed_keys
      option.pred_map comp_def str_value_def lit_value_def int_value_def bool_value_def)

lemma no_forbidden_items:
  "no_forbidden_keys (attention_json a)" "no_forbidden_keys (permission_json p)"
  "no_forbidden_keys (project_json ss q)"
  by (simp_all add: attention_json_def permission_json_def option_json_def diff_json_def
      project_json_def counts_json_def no_forbidden_obj allowed_keys option.pred_map comp_def
      str_value_def lit_value_def int_value_def bool_value_def)

lemma no_forbidden_board: "no_forbidden_keys (board_json (build_board collate ss as))"
  by (auto simp: board_json_def column_json_def build_board_def Let_def no_forbidden_obj allowed_keys
      no_forbidden_cards str_value_def lit_value_def int_value_def)

lemma no_forbidden_projection:
  "projection_ok collate p \<Longrightarrow> no_forbidden_keys (projection_json p)"
  by (simp add: projection_json_def projection_ok_def Let_def no_forbidden_obj allowed_keys
      no_forbidden_session no_forbidden_items no_forbidden_board str_value_def lit_value_def int_value_def)

section \<open>Properties\<close>

lemma sanitize_projection_stable:
  assumes ok: "projection_ok collate p" and trimmed: "list_all trimmed (projection_texts p)"
  shows "sanitize_projection collate (Some (projection_json p)) = Inr p"
proof -
  let ?ids = "map pj_id (pr_projects p)"
  have all: "list_all project_ok (pr_projects p)" "list_all (session_ok ?ids) (pr_sessions p)"
    "list_all (attention_ok ?ids (pr_sessions p)) (pr_attention p)"
    "list_all (permission_ok ?ids (pr_sessions p)) (pr_permissions p)"
    using ok by (simp_all add: projection_ok_def Let_def)
  have texts: "list_all (\<lambda>x. list_all trimmed (project_texts x)) (pr_projects p)"
    "list_all (\<lambda>x. list_all trimmed (session_texts x)) (pr_sessions p)"
    "list_all (\<lambda>x. list_all trimmed (attention_texts x)) (pr_attention p)"
    "list_all (\<lambda>x. list_all trimmed (permission_texts x)) (pr_permissions p)"
    using trimmed by (simp_all add: projection_texts_def list_all_concat_map)
  have emaps: "emap sanitize_project (map (project_json (pr_sessions p)) (pr_projects p)) = Inr (pr_projects p)"
    "emap (sanitize_session ?ids) (map session_json (pr_sessions p)) = Inr (pr_sessions p)"
    "emap (sanitize_attention ?ids (pr_sessions p)) (map attention_json (pr_attention p)) = Inr (pr_attention p)"
    "emap (sanitize_permission ?ids (pr_sessions p)) (map permission_json (pr_permissions p)) = Inr (pr_permissions p)"
    by (rule emap_stable [OF all(1) texts(1)], erule (1) sanitize_project_stable)
      (rule emap_stable [OF all(2) texts(2)], erule (1) sanitize_session_stable,
       rule emap_stable [OF all(3) texts(3)], erule (1) sanitize_attention_stable,
       rule emap_stable [OF all(4) texts(4)], erule (1) sanitize_permission_stable)
  have keys: "no_forbidden_keys (projection_json p)" by (rule no_forbidden_projection [OF ok])
  have json: "plain (Some (projection_json p)) = Inr (projection_json p)"
    "field (projection_json p) ''projectionKind'' = lit_value PROJECTION_KIND"
    "field (projection_json p) ''revision'' = int_value (pr_revision p)"
    "field (projection_json p) ''generatedAt'' = int_value (pr_generatedAt p)"
    "field (projection_json p) ''freshness'' = lit_value (if pr_live p then ''live'' else ''stale'')"
    "field (projection_json p) ''projects'' = Some (JArr (map (project_json (pr_sessions p)) (pr_projects p)))"
    "field (projection_json p) ''sessions'' = Some (JArr (map session_json (pr_sessions p)))"
    "field (projection_json p) ''attention'' = Some (JArr (map attention_json (pr_attention p)))"
    "field (projection_json p) ''permissions'' = Some (JArr (map permission_json (pr_permissions p)))"
    by (simp_all add: projection_json_def)
  have live: "(lit_value (if b then ''live'' else ''stale'') = lit_value ''live'') = b" for b
    by (simp add: lit_value_def)
  have eta: "p = \<lparr>pr_revision = pr_revision p, pr_generatedAt = pr_generatedAt p, pr_live = pr_live p,
      pr_projects = pr_projects p, pr_sessions = pr_sessions p, pr_attention = pr_attention p,
      pr_permissions = pr_permissions p, pr_board = build_board collate (pr_sessions p) (pr_attention p)\<rparr>"
    using ok by (simp add: projection_ok_def Let_def)
  show ?thesis
    using ok keys emaps
    by (simp add: sanitize_projection_def json live projection_ok_def Let_def bounded_array_def
        array_or_empty_def flip: eta)
qed

text \<open>Counting by project loses no session when the project ids are distinct.\<close>

lemma count_one: "distinct ids \<Longrightarrow>
    (\<Sum>i\<leftarrow>ids. (if x = i \<and> b then 1 else 0)) = (if b \<and> x \<in> set ids then 1 else 0 :: nat)"
  by (induction ids) auto

lemma count_by_project:
  "distinct ids \<Longrightarrow> list_all (\<lambda>s. ss_projectId s \<in> set ids) sessions \<Longrightarrow>
   (\<Sum>i\<leftarrow>ids. length (filter P (filter (\<lambda>s. ss_projectId s = i) sessions))) = length (filter P sessions)"
proof (induction sessions)
  case (Cons s ss)
  have "(\<Sum>i\<leftarrow>ids. (if ss_projectId s = i \<and> P s then 1 else 0 :: nat)) = (if P s then 1 else 0)"
    using Cons.prems count_one [of ids "ss_projectId s" "P s"] by simp
  moreover have "(\<Sum>i\<leftarrow>ids. length (filter P (filter (\<lambda>s. ss_projectId s = i) (s # ss)))) =
      (\<Sum>i\<leftarrow>ids. (if ss_projectId s = i \<and> P s then 1 else 0)) +
      (\<Sum>i\<leftarrow>ids. length (filter P (filter (\<lambda>s. ss_projectId s = i) ss)))"
    by (subst sum_list_addf [symmetric]) (rule arg_cong [where f = sum_list], auto)
  ultimately show ?case using Cons by simp
qed simp

text \<open>
  C28. What \<open>sanitizeProjection\<close> lets out is consistent and carries nothing that must stay on the
  desktop: project and session ids are unique, every session belongs to a listed project, every
  attention item and permission that names a session names one of its own project, every diff path
  is workspace-relative, no property of the encoded projection has a forbidden name, and its
  encoding fits the limit.
\<close>

theorem sanitized_projection_safe:
  assumes "sanitize_projection collate v = Inr p"
  shows "distinct (map pj_id (pr_projects p)) \<and> distinct (map ss_id (pr_sessions p)) \<and>
    (\<forall>s \<in> set (pr_sessions p). ss_projectId s \<in> set (map pj_id (pr_projects p))) \<and>
    (\<forall>a \<in> set (pr_attention p). \<forall>i. at_sessionId a = Some i \<longrightarrow>
       session_in (pr_sessions p) (at_projectId a) i) \<and>
    (\<forall>q \<in> set (pr_permissions p). (\<forall>i. pm_sessionId q = Some i \<longrightarrow>
       session_in (pr_sessions p) (pm_projectId q) i) \<and>
       (\<forall>d \<in> set (pm_diffs q). \<not> unsafe_path (pd_relativePath d))) \<and>
    no_forbidden_keys (projection_json p) \<and>
    json_bytes (projection_json p) \<le> MAX_PROJECTION_BYTES"
proof -
  have ok: "projection_ok collate p" by (rule sanitize_projection_ok [OF assms])
  then have parts: "list_all (session_ok (map pj_id (pr_projects p))) (pr_sessions p)"
    "list_all (attention_ok (map pj_id (pr_projects p)) (pr_sessions p)) (pr_attention p)"
    "list_all (permission_ok (map pj_id (pr_projects p)) (pr_sessions p)) (pr_permissions p)"
    by (simp_all add: projection_ok_def Let_def)
  show ?thesis
    using ok parts no_forbidden_projection [OF ok]
    by (auto simp: projection_ok_def Let_def list_all_iff session_ok_def attention_ok_def
        permission_ok_def diff_ok_def path_ok_def)
qed

text \<open>
  C29. Reading back what was written changes nothing: sanitizing the encoding of a sanitized projection
  gives the same projection, provided no text was cut after a space.
\<close>

theorem projection_roundtrip:
  assumes "sanitize_projection collate v = Inr p" "list_all trimmed (projection_texts p)"
  shows "sanitize_projection collate (Some (projection_json p)) = Inr p"
  using sanitize_projection_stable [OF sanitize_projection_ok [OF assms(1)] assms(2)] .

text \<open>
  The board and the counters agree: over all projects the counters of each lane add up to the
  session cards of its column, and the rest of the waiting column is the attention items that no
  waiting session already shows.
\<close>

theorem board_matches_counts:
  assumes "sanitize_projection collate v = Inr p"
  shows "(\<Sum>q\<leftarrow>pr_projects p. ct_running (counts_for (pj_id q) (pr_sessions p))) =
      length (bd_running (pr_board p)) \<and>
    (\<Sum>q\<leftarrow>pr_projects p. ct_done (counts_for (pj_id q) (pr_sessions p))) =
      length (bd_done (pr_board p)) \<and>
    (\<Sum>q\<leftarrow>pr_projects p. ct_waiting (counts_for (pj_id q) (pr_sessions p))) +
      length (lane_attention (pr_sessions p) (pr_attention p)) = length (bd_waiting (pr_board p))"
proof -
  have ok: "projection_ok collate p" by (rule sanitize_projection_ok [OF assms])
  then have ids: "distinct (map pj_id (pr_projects p))"
    and own: "list_all (\<lambda>s. ss_projectId s \<in> set (map pj_id (pr_projects p))) (pr_sessions p)"
    and board: "pr_board p = build_board collate (pr_sessions p) (pr_attention p)"
    by (auto simp: projection_ok_def Let_def list_all_iff session_ok_def)
  show ?thesis
    using count_by_project [OF ids own]
    by (simp add: board build_board_def counts_for_def lane_sessions_def Let_def comp_def)
qed

text \<open>
  A path can be accepted once and rejected when it is read back. The text is trimmed before it is
  cut to its limit, so a cut right after a space can leave a last segment of two dots and a space;
  sanitizing that again removes the space and finds a parent reference. The projection store
  sanitizes every record it reads, so it loses the record it has just written.
\<close>

theorem relative_path_unstable:
  "\<exists>s t. safe_relative_path (Some (JStr s)) = Inr t \<and>
     safe_relative_path (Some (JStr t)) = Inl Pj_unsafe_path"
proof -
  define a :: jstr where "a = replicate 1020 97"
  let ?t = "a @ [47, 46, 46, 32]" and ?u = "a @ [47, 46, 46]"
  have a: "a \<noteq> []" "hd a = 97" "length a = 1020" "list_all (\<lambda>u. u = 97) a"
    by (simp_all add: a_def list_all_iff)
  have a0: "a ! 0 = 97" "a ! Suc 0 = 97" by (simp_all add: a_def)
  have plain: "\<not> is_control_unit 97" "\<not> is_space_unit 97" "\<not> is_slash 97" "\<not> is_scheme_unit 47"
    "is_scheme_unit 97"
    by (simp_all add: is_control_unit_def is_space_unit_def is_slash_def is_scheme_unit_def
        is_alnum_unit_def is_digit_unit_def)
  have units: "\<not> is_control_unit 47" "\<not> is_control_unit 46" "\<not> is_control_unit 32"
    "\<not> is_control_unit 97"
    by (simp_all add: is_control_unit_def)
  have seg: "list_all (\<lambda>u. u = 97) b \<Longrightarrow> segments (b @ 47 # us) = b # segments us" for b us
    by (induction b) (simp_all add: plain is_slash_def)
  have scheme: "list_all (\<lambda>u. u = 97) b \<Longrightarrow> dropWhile is_scheme_unit (b @ 47 # us) = 47 # us" for b us
    by (induction b) (simp_all add: plain)
  have "list_all (\<lambda>u. u = 97) (tl a)" using a by (cases a) auto
  from scheme [OF this] have no_scheme: "\<not> has_scheme (a @ 47 # us)" for us
    using a by (cases a) (simp_all add: has_scheme_def)
  have keep: "filter (\<lambda>u. \<not> is_control_unit u) a = a"
    using a(4) plain by (induction a) auto
  have "trimmed (?t @ [97])" "trimmed ?u"
    using a plain by (simp_all add: trimmed_def is_space_unit_def)
  moreover have "js_trim ?t = js_trim ?u"
    using a plain by (cases a) (simp_all add: js_trim_def is_space_unit_def)
  ultimately have clean: "clean_text (?t @ [97]) = ?t @ [97]" "clean_text ?t = ?u"
    using js_trim_trimmed [of "?t @ [97]"] js_trim_trimmed [of ?u]
    by (simp_all add: clean_text_def keep units)
  have "js ''..'' = [46, 46]" by (simp add: js_def)
  moreover have "a \<noteq> [46, 46]" using a(2) by auto
  ultimately have safe: "\<not> unsafe_path ?t" and unsafe: "unsafe_path ?u"
    using no_scheme [of "[46, 46, 32]"] a seg [OF a(4)] a0
    by (simp_all add: unsafe_path_def posix_absolute_def win32_absolute_def has_home_def is_slash_def
        nth_append)
  have fwd: "forward_slashes ?t = ?t" using a(4) by (intro forward_slashes_id) (auto simp: list_all_iff)
  have "safe_relative_path (Some (JStr (?t @ [97]))) = Inr ?t"
    using safe fwd a clean(1) by (simp add: safe_relative_path_def required_string_def MAX_PATH_def)
  moreover have "safe_relative_path (Some (JStr ?t)) = Inl Pj_unsafe_path"
    using unsafe a by (simp add: safe_relative_path_def required_string_def clean(2) MAX_PATH_def)
  ultimately show ?thesis by blast
qed

section \<open>An example\<close>

definition example_collate :: "jstr \<Rightarrow> jstr \<Rightarrow> int" where
  "example_collate a b = (if a = b then 0 else if a < b then - 1 else 1)"

definition example_raw_project :: json where
  "example_raw_project = obj
     [(''id'', lit_value ''p''), (''name'', lit_value '' P ''), (''connection'', lit_value ''live''),
      (''lastContactAt'', int_value 0)]"

definition example_raw_session :: json where
  "example_raw_session = obj
     [(''id'', lit_value ''s''), (''projectId'', lit_value ''p''), (''kind'', lit_value ''agent''),
      (''title'', lit_value ''T''), (''status'', lit_value ''running''), (''updatedAt'', int_value 1)]"

definition example_raw :: json where
  "example_raw = obj
     [(''projectionKind'', lit_value PROJECTION_KIND), (''revision'', int_value 1),
      (''generatedAt'', int_value 2), (''freshness'', lit_value ''live''),
      (''projects'', Some (JArr [example_raw_project])), (''sessions'', Some (JArr [example_raw_session]))]"

definition example_project :: project where
  "example_project =
     \<lparr>pj_id = js ''p'', pj_name = js ''P'', pj_connection = js ''live'', pj_lastContactAt = 0,
      pj_windowId = None, pj_windowName = None, pj_repo = None, pj_branch = None\<rparr>"

definition example_session :: session where
  "example_session =
     \<lparr>ss_id = js ''s'', ss_projectId = js ''p'', ss_kind = js ''agent'', ss_title = js ''T'',
      ss_status = Running_session, ss_needsYou = False, ss_unread = False, ss_updatedAt = 1,
      ss_windowId = None, ss_boardLane = Some Lane_running, ss_provider = None,
      ss_model = None, ss_mode = None, ss_branch = None, ss_summary = None,
      ss_startedAt = None, ss_completedAt = None, ss_turns = None\<rparr>"

definition example_projection :: projection where
  "example_projection =
     \<lparr>pr_revision = 1, pr_generatedAt = 2, pr_live = True, pr_projects = [example_project],
      pr_sessions = [example_session], pr_attention = [], pr_permissions = [],
      pr_board = build_board example_collate [example_session] []\<rparr>"

lemmas redaction_exec = required_string_def safe_string_def
  safe_id_def safe_time_def required_member_def member_or_def member_text_def unless_null_def
  plain_def clean_text_def is_control_unit_def safe_bool_def
  status_of_def SESSION_STATUSES_def SESSION_KINDS_def PROJECT_CONNECTIONS_def str_value_def
  lit_value_def int_value_def bool_value_def projection_limits validate_identifier_def
  identifier_ok_def require_def Let_def nullish_def js_trim_def is_space_unit_def is_safe_def
  max_safe_integer_def is_alnum_unit_def is_digit_unit_def is_id_unit_def

lemma example_size: "json_bytes (projection_json example_projection) \<le> MAX_PROJECTION_BYTES"
  by (rule order_trans [OF json_bytes_le])
    (simp add: example_projection_def example_project_def example_session_def projection_json_defs
      build_board_def sort_by_def lane_sessions_def lane_attention_def counts_for_def str_value_def
      lit_value_def int_value_def bool_value_def obj_def int_text_def digits_of.simps Let_def
      MAX_PROJECTION_BYTES_def PROJECTION_KIND_def)

lemma example_project: "sanitize_project example_raw_project = Inr example_project"
  by (simp add: sanitize_project_def example_raw_project_def)
    (simp add: redaction_exec example_project_def js_def)

lemma example_session: "sanitize_session [js ''p''] example_raw_session = Inr example_session"
  by (simp add: sanitize_session_def example_raw_session_def normalized_status_def)
    (simp add: redaction_exec example_session_def js_def sanitize_turns_def board_lane_for_def)

lemma example_keys: "no_forbidden_keys example_raw"
  by (simp add: example_raw_def example_raw_project_def example_raw_session_def no_forbidden_obj
      allowed_keys lit_value_def int_value_def)

lemma example_sanitized: "sanitize_projection example_collate (Some example_raw) = Inr example_projection"
proof -
  have fields: "plain (Some example_raw) = Inr example_raw"
    "field example_raw ''projectionKind'' = lit_value PROJECTION_KIND"
    "safe_time (field example_raw ''revision'') = Inr 1"
    "safe_time (field example_raw ''generatedAt'') = Inr 2"
    "field example_raw ''freshness'' = lit_value ''live''"
    "bounded_array MAX_PROJECTS (field example_raw ''projects'') = Inr [example_raw_project]"
    "bounded_array MAX_SESSIONS (field example_raw ''sessions'') = Inr [example_raw_session]"
    "array_or_empty (field example_raw ''attention'') = []"
    "array_or_empty (field example_raw ''permissions'') = []"
    by (simp_all add: example_raw_def bounded_array_def array_or_empty_def projection_limits
        safe_time_def int_value_def is_safe_def max_safe_integer_def)
  have ids: "map pj_id [example_project] = [js ''p'']" by (simp add: example_project_def)
  have emaps: "emap sanitize_project [example_raw_project] = Inr [example_project]"
    "emap (sanitize_session [js ''p'']) [example_raw_session] = Inr [example_session]"
    by (simp_all add: example_project example_session)
  show ?thesis
    using example_size
    unfolding sanitize_projection_def fields ebind_Inr Let_def emaps ids
    by (simp add: example_keys flip: example_projection_def)
qed

theorem sanitized_projection_safe_witness:
  "sanitize_projection example_collate (Some example_raw) = Inr example_projection \<and>
   distinct (map ss_id (pr_sessions example_projection)) \<and>
   no_forbidden_keys (projection_json example_projection)"
  using sanitized_projection_safe [OF example_sanitized] example_sanitized by blast

lemma example_trimmed: "list_all trimmed (projection_texts example_projection)"
  by (simp add: projection_texts_def example_projection_def project_texts_def session_texts_def
      example_project_def example_session_def opt_list_def or_empty_list_def js_def trimmed_def
      is_space_unit_def)

theorem projection_roundtrip_witness:
  "sanitize_projection example_collate (Some example_raw) = Inr example_projection \<and>
   sanitize_projection example_collate (Some (projection_json example_projection)) = Inr example_projection"
  using projection_roundtrip [OF example_sanitized example_trimmed] example_sanitized by blast

theorem board_matches_counts_witness:
  "sanitize_projection example_collate (Some example_raw) = Inr example_projection \<and>
   (\<Sum>q\<leftarrow>pr_projects example_projection. ct_running (counts_for (pj_id q) (pr_sessions example_projection))) =
     length (bd_running (pr_board example_projection))"
  using board_matches_counts [OF example_sanitized] example_sanitized by blast

end
