(* ===== verification/Acp_Redaction.thy ===== *)
theory Acp_Redaction
  imports Redaction
begin

text \<open>
  The sanitizers of live agent events in \<open>electron/companion/redaction.cjs\<close>. Unlike the projection,
  most of these reject what they do not recognise instead of repairing it; only the permission
  event is repaired, and says in its \<open>completeness\<close> how much of its context was lost. The results are
  the JSON objects the code builds.
\<close>

section \<open>Strict validators\<close>

definition MAX_ACP_COLLECTION :: nat where "MAX_ACP_COLLECTION = 64"

definition MAX_ACP_EVENT_BYTES :: nat where "MAX_ACP_EVENT_BYTES = 512 * 1024"

definition ACP_EVENT_TYPES :: "string list" where
  "ACP_EVENT_TYPES =
     [''agent.turn.delta'', ''agent.turn.completed'', ''agent.permission.requested'',
      ''agent.permission.resolved'']"

definition ACP_CONTENT_UPDATES :: "string list" where
  "ACP_CONTENT_UPDATES = [''user_message_chunk'', ''agent_message_chunk'', ''agent_thought_chunk'']"

definition ACP_TOOL_KINDS :: "string list" where
  "ACP_TOOL_KINDS =
     [''read'', ''edit'', ''delete'', ''move'', ''search'', ''execute'', ''think'', ''fetch'',
      ''switch_mode'', ''other'']"

definition ACP_TOOL_STATUSES :: "string list" where
  "ACP_TOOL_STATUSES = [''pending'', ''in_progress'', ''completed'', ''failed'']"

definition ACP_PLAN_PRIORITIES :: "string list" where
  "ACP_PLAN_PRIORITIES = [''high'', ''medium'', ''low'']"

definition ACP_PLAN_STATUSES :: "string list" where
  "ACP_PLAN_STATUSES = [''pending'', ''in_progress'', ''completed'']"

definition ACP_STOP_REASONS :: "string list" where
  "ACP_STOP_REASONS = [''end_turn'', ''max_tokens'', ''max_turn_requests'', ''refusal'', ''cancelled'']"

definition strict_ok :: "nat \<Rightarrow> bool \<Rightarrow> jstr \<Rightarrow> bool" where
  "strict_ok m blank s =
     (list_all (\<lambda>u. \<not> is_control_unit u) s \<and> (blank \<or> s \<noteq> []) \<and> length (utf8_encode s) \<le> m)"

text \<open>\<open>strictText\<close>; no caller passes \<open>optional\<close>.\<close>

definition strict_text :: "nat \<Rightarrow> bool \<Rightarrow> json option \<Rightarrow> projection_error + jstr" where
  "strict_text m blank v =
     (case as_str v of
        None \<Rightarrow> Inl Pj_invalid_projection
      | Some s \<Rightarrow> require (strict_ok m blank s) Pj_invalid_projection (Inr s))"

definition strict_path :: "json option \<Rightarrow> projection_error + jstr" where
  "strict_path v =
     ebind (strict_text MAX_PATH False v) (\<lambda>t.
     require (\<not> unsafe_path t) Pj_unsafe_path (Inr (forward_slashes t)))"

text \<open>\<open>strictFinite\<close> with \<open>integer\<close>; the maximum is the largest safe integer.\<close>

definition strict_int :: "int \<Rightarrow> json option \<Rightarrow> projection_error + int" where
  "strict_int lo v =
     (case as_int v of
        None \<Rightarrow> Inl Pj_invalid_projection
      | Some n \<Rightarrow> require (lo \<le> n) Pj_invalid_projection (Inr n))"

text \<open>
  \<open>strictFinite\<close> for an amount between 0 and 1000000000, which may have a fraction. The text of a number
  that is not an integer has an exponent when it is at least \<open>10 ^ 21\<close> or below \<open>10 ^ -6\<close>.
\<close>

definition float_in_range :: "jstr \<Rightarrow> bool" where
  "float_in_range t =
     (t \<noteq> [] \<and> hd t \<noteq> 45 \<and>
      (let exponent = dropWhile (\<lambda>u. u \<noteq> 101) t in
       if exponent = [] then nat_of_digits 0 (takeWhile is_digit_unit t) < 10 ^ 9
       else exponent ! 1 = 45))"

definition strict_amount :: "json option \<Rightarrow> projection_error + json" where
  "strict_amount v =
     (case v of
        Some (JInt n) \<Rightarrow> require (0 \<le> n \<and> n \<le> 1000000000) Pj_invalid_projection (Inr (JInt n))
      | Some (JFloat t) \<Rightarrow> require (float_in_range t) Pj_invalid_projection (Inr (JFloat t))
      | _ \<Rightarrow> Inl Pj_invalid_projection)"

definition bounded_event :: "json \<Rightarrow> projection_error + json" where
  "bounded_event e = require (json_bytes e \<le> MAX_ACP_EVENT_BYTES) Pj_too_large (Inr e)"

definition coalesce :: "json option \<Rightarrow> json option \<Rightarrow> json option" where
  "coalesce a b = (if nullish a then b else a)"

text \<open>An object that has only the allowed fields.\<close>

definition strict_object :: "string list \<Rightarrow> json option \<Rightarrow> projection_error + json" where
  "strict_object ks v = ebind (plain v) (\<lambda>x. ebind (allowed_fields ks x) (\<lambda>_. Inr x))"

definition strict_list :: "nat \<Rightarrow> (json \<Rightarrow> projection_error + json) \<Rightarrow> json option \<Rightarrow> projection_error + json" where
  "strict_list m f v = ebind (bounded_array m v) (\<lambda>xs. ebind (emap f xs) (\<lambda>ys. Inr (JArr ys)))"

section \<open>Parts of an update\<close>

definition acp_text_content :: "json option \<Rightarrow> projection_error + json" where
  "acp_text_content raw =
     ebind (strict_object [''type'', ''text''] raw) (\<lambda>c.
     require (nullish (field c ''type'') \<or> field c ''type'' = lit_value ''text'') Pj_invalid_projection (
     ebind (strict_text MAX_TURN_TEXT True (field c ''text'')) (\<lambda>t.
     Inr (obj [(''type'', lit_value ''text''), (''text'', str_value t)]))))"

definition acp_plan_entry :: "json \<Rightarrow> projection_error + json" where
  "acp_plan_entry raw =
     ebind (strict_object [''content'', ''priority'', ''status''] (Some raw)) (\<lambda>e.
     ebind (required_member ACP_PLAN_PRIORITIES (field e ''priority'')) (\<lambda>priority.
     ebind (required_member ACP_PLAN_STATUSES (field e ''status'')) (\<lambda>status.
     ebind (strict_text 2000 False (field e ''content'')) (\<lambda>content.
     Inr (obj [(''content'', str_value content), (''priority'', str_value priority),
               (''status'', str_value status)])))))"

definition acp_plan_entries :: "json option \<Rightarrow> projection_error + json" where
  "acp_plan_entries = strict_list MAX_ACP_COLLECTION acp_plan_entry"

definition acp_content_item :: "json \<Rightarrow> projection_error + json" where
  "acp_content_item item =
     ebind (allowed_fields [''type'', ''content''] item) (\<lambda>_.
     ebind (acp_text_content (field item ''content'')) (\<lambda>c.
     Inr (obj [(''type'', lit_value ''content''), (''content'', Some c)])))"

definition acp_diff_item :: "json \<Rightarrow> projection_error + json" where
  "acp_diff_item item =
     ebind (allowed_fields [''type'', ''path'', ''oldText'', ''newText''] item) (\<lambda>_.
     ebind (strict_path (field item ''path'')) (\<lambda>path.
     ebind (unless_null (field item ''oldText'') (strict_text MAX_DIFF_TEXT True)) (\<lambda>old.
     ebind (strict_text MAX_DIFF_TEXT True (field item ''newText'')) (\<lambda>new.
     Inr (obj [(''type'', lit_value ''diff''), (''path'', str_value path),
               (''oldText'', map_option JStr old), (''newText'', str_value new)])))))"

definition acp_terminal_item :: "json \<Rightarrow> projection_error + json" where
  "acp_terminal_item item =
     ebind (allowed_fields [''type'', ''terminalId''] item) (\<lambda>_.
     ebind (safe_id 240 (field item ''terminalId'')) (\<lambda>i.
     Inr (obj [(''type'', lit_value ''terminal''), (''terminalId'', str_value i)])))"

definition acp_tool_content :: "json \<Rightarrow> projection_error + json" where
  "acp_tool_content raw =
     ebind (plain (Some raw)) (\<lambda>item.
     if field item ''type'' = lit_value ''content'' then acp_content_item item
     else if field item ''type'' = lit_value ''diff'' then acp_diff_item item
     else if field item ''type'' = lit_value ''terminal'' then acp_terminal_item item
     else Inl Pj_invalid_projection)"

definition acp_location :: "json \<Rightarrow> projection_error + json" where
  "acp_location raw =
     ebind (strict_object [''path'', ''line''] (Some raw)) (\<lambda>l.
     ebind (strict_path (field l ''path'')) (\<lambda>path.
     ebind (unless_null (field l ''line'') (strict_int 0)) (\<lambda>line.
     Inr (obj [(''path'', str_value path), (''line'', map_option JInt line)]))))"

definition TOOL_FIELDS :: "string list" where
  "TOOL_FIELDS = [''sessionUpdate'', ''toolCallId'', ''title'', ''kind'', ''status'', ''content'', ''locations'']"

text \<open>The title of a tool call is required; that of a later update is not.\<close>

definition acp_title :: "bool \<Rightarrow> json option \<Rightarrow> projection_error + jstr option" where
  "acp_title required v =
     (if required then ebind (strict_text 500 False v) (\<lambda>t. Inr (Some t))
      else unless_null v (strict_text 500 False))"

definition acp_tool_update :: "json option \<Rightarrow> projection_error + json" where
  "acp_tool_update raw =
     ebind (strict_object TOOL_FIELDS raw) (\<lambda>u.
     ebind (safe_id 240 (field u ''toolCallId'')) (\<lambda>i.
     ebind (acp_title (field u ''sessionUpdate'' = lit_value ''tool_call'') (field u ''title'')) (\<lambda>title.
     ebind (unless_null (field u ''kind'') (required_member ACP_TOOL_KINDS)) (\<lambda>kind.
     ebind (unless_null (field u ''status'') (required_member ACP_TOOL_STATUSES)) (\<lambda>status.
     ebind (unless_null (field u ''content'') (strict_list 32 acp_tool_content)) (\<lambda>content.
     ebind (unless_null (field u ''locations'') (strict_list 32 acp_location)) (\<lambda>locations.
     Inr (obj [(''sessionUpdate'', field u ''sessionUpdate''), (''toolCallId'', str_value i),
               (''title'', map_option JStr title), (''kind'', map_option JStr kind),
               (''status'', map_option JStr status), (''content'', content),
               (''locations'', locations)]))))))))"

definition acp_command_input :: "json option \<Rightarrow> projection_error + json" where
  "acp_command_input raw =
     ebind (strict_object [''hint''] raw) (\<lambda>i.
     ebind (strict_text 240 True (field i ''hint'')) (\<lambda>hint.
     Inr (obj [(''hint'', str_value hint)])))"

definition acp_command :: "json \<Rightarrow> projection_error + json" where
  "acp_command raw =
     ebind (strict_object [''name'', ''description'', ''input''] (Some raw)) (\<lambda>c.
     ebind (strict_text 120 False (field c ''name'')) (\<lambda>name.
     ebind (strict_text 500 True (field c ''description'')) (\<lambda>description.
     ebind (unless_null (field c ''input'') acp_command_input) (\<lambda>inp.
     Inr (obj [(''name'', str_value name), (''description'', str_value description),
               (''input'', inp)])))))"

definition acp_available_commands :: "json option \<Rightarrow> projection_error + json" where
  "acp_available_commands = strict_list MAX_ACP_COLLECTION acp_command"

text \<open>
  \<open>sanitizeAcpConfigSelectOptions\<close>: a group holds options but no groups. \<open>groups\<close> is what sanitizes the
  options of a group, and \<open>None\<close> where groups are not allowed.
\<close>

definition acp_select_leaf :: "json \<Rightarrow> projection_error + json" where
  "acp_select_leaf option =
     ebind (allowed_fields [''value'', ''name'', ''description''] option) (\<lambda>_.
     ebind (safe_id 160 (field option ''value'')) (\<lambda>val.
     ebind (strict_text 160 False (field option ''name'')) (\<lambda>name.
     ebind (unless_null (field option ''description'') (strict_text 300 True)) (\<lambda>description.
     Inr (obj [(''value'', str_value val), (''name'', str_value name),
               (''description'', map_option JStr description)])))))"

definition acp_select_group ::
  "(json option \<Rightarrow> projection_error + json) \<Rightarrow> json \<Rightarrow> projection_error + json" where
  "acp_select_group inner option =
     ebind (allowed_fields [''group'', ''name'', ''options''] option) (\<lambda>_.
     ebind (safe_id 120 (field option ''group'')) (\<lambda>group.
     ebind (strict_text 160 False (field option ''name'')) (\<lambda>name.
     ebind (inner (field option ''options'')) (\<lambda>options.
     Inr (obj [(''group'', str_value group), (''name'', str_value name), (''options'', Some options)])))))"

definition acp_select_option ::
  "(json option \<Rightarrow> projection_error + json) option \<Rightarrow> json \<Rightarrow> projection_error + json" where
  "acp_select_option groups raw =
     ebind (plain (Some raw)) (\<lambda>option.
     if field option ''group'' \<noteq> None then
       (case groups of
          None \<Rightarrow> Inl Pj_invalid_projection
        | Some inner \<Rightarrow> acp_select_group inner option)
     else acp_select_leaf option)"

fun acp_select_options :: "nat \<Rightarrow> json option \<Rightarrow> projection_error + json" where
  "acp_select_options 0 v = strict_list 32 (acp_select_option None) v"
| "acp_select_options (Suc n) v = strict_list 32 (acp_select_option (Some (acp_select_options n))) v"

definition config_value :: "bool \<Rightarrow> json \<Rightarrow> projection_error + json \<times> json option" where
  "config_value boolean option =
     (if boolean then
        (case as_bool (field option ''currentValue'') of
           None \<Rightarrow> Inl Pj_invalid_projection
         | Some b \<Rightarrow> require (nullish (field option ''options'')) Pj_invalid_projection (Inr (JBool b, None)))
      else
        ebind (safe_id 160 (field option ''currentValue'')) (\<lambda>current.
        ebind (acp_select_options 1 (field option ''options'')) (\<lambda>options.
        Inr (JStr current, Some options))))"

definition CONFIG_FIELDS :: "string list" where
  "CONFIG_FIELDS =
     [''type'', ''id'', ''name'', ''description'', ''category'', ''currentValue'', ''options'']"

definition acp_config_option :: "json \<Rightarrow> projection_error + json" where
  "acp_config_option raw =
     ebind (strict_object CONFIG_FIELDS (Some raw)) (\<lambda>option.
     ebind (required_member [''select'', ''boolean''] (field option ''type'')) (\<lambda>ty.
     ebind (safe_id 160 (field option ''id'')) (\<lambda>i.
     ebind (strict_text 160 False (field option ''name'')) (\<lambda>name.
     ebind (unless_null (field option ''description'') (strict_text 300 True)) (\<lambda>description.
     ebind (unless_null (field option ''category'') (strict_text 120 False)) (\<lambda>category.
     ebind (config_value (ty = js ''boolean'') option) (\<lambda>(current, options).
     Inr (obj [(''type'', str_value ty), (''id'', str_value i), (''name'', str_value name),
               (''description'', map_option JStr description), (''category'', map_option JStr category),
               (''currentValue'', Some current), (''options'', options)]))))))))"

definition acp_config_options :: "json option \<Rightarrow> projection_error + json" where
  "acp_config_options = strict_list 32 acp_config_option"

section \<open>Updates of a turn\<close>

definition acp_content_update :: "jstr \<Rightarrow> json \<Rightarrow> projection_error + json" where
  "acp_content_update kind u =
     ebind (allowed_fields [''sessionUpdate'', ''content'', ''text'', ''messageId''] u) (\<lambda>_.
     require (nullish (field u ''content'') \<noteq> nullish (field u ''text'')) Pj_invalid_projection (
     ebind (if nullish (field u ''content'')
            then ebind (strict_text MAX_TURN_TEXT True (field u ''text'')) (\<lambda>t.
                 Inr (obj [(''type'', lit_value ''text''), (''text'', str_value t)]))
            else acp_text_content (field u ''content'')) (\<lambda>content.
     ebind (unless_null (field u ''messageId'') (safe_id 240)) (\<lambda>message.
     Inr (obj [(''sessionUpdate'', str_value kind), (''content'', Some content),
               (''messageId'', map_option JStr message)])))))"

definition acp_plan_items :: "json \<Rightarrow> projection_error + json" where
  "acp_plan_items plan =
     ebind (allowed_fields [''type'', ''planId'', ''entries''] plan) (\<lambda>_.
     ebind (safe_id 240 (field plan ''planId'')) (\<lambda>i.
     ebind (acp_plan_entries (field plan ''entries'')) (\<lambda>entries.
     Inr (obj [(''type'', lit_value ''items''), (''planId'', str_value i), (''entries'', Some entries)]))))"

definition acp_plan_markdown :: "json \<Rightarrow> projection_error + json" where
  "acp_plan_markdown plan =
     ebind (allowed_fields [''type'', ''planId'', ''content''] plan) (\<lambda>_.
     ebind (safe_id 240 (field plan ''planId'')) (\<lambda>i.
     ebind (strict_text MAX_TURN_TEXT True (field plan ''content'')) (\<lambda>content.
     Inr (obj [(''type'', lit_value ''markdown''), (''planId'', str_value i),
               (''content'', str_value content)]))))"

definition acp_plan_file :: "json \<Rightarrow> projection_error + json" where
  "acp_plan_file plan =
     ebind (allowed_fields [''type'', ''planId'', ''uri''] plan) (\<lambda>_.
     ebind (safe_id 240 (field plan ''planId'')) (\<lambda>i.
     ebind (strict_path (field plan ''uri'')) (\<lambda>uri.
     Inr (obj [(''type'', lit_value ''file''), (''planId'', str_value i), (''uri'', str_value uri)]))))"

definition acp_plan :: "json option \<Rightarrow> projection_error + json" where
  "acp_plan raw =
     ebind (plain raw) (\<lambda>plan.
     if field plan ''type'' = lit_value ''items'' then acp_plan_items plan
     else if field plan ''type'' = lit_value ''markdown'' then acp_plan_markdown plan
     else if field plan ''type'' = lit_value ''file'' then acp_plan_file plan
     else Inl Pj_invalid_projection)"

definition USAGE_FIELDS :: "string list" where
  "USAGE_FIELDS =
     [''sessionUpdate'', ''used'', ''size'', ''usedTokens'', ''maxTokens'', ''contextWindow'', ''cost'']"

definition acp_cost :: "json option \<Rightarrow> projection_error + json" where
  "acp_cost raw =
     ebind (strict_object [''amount'', ''currency''] raw) (\<lambda>c.
     ebind (strict_amount (field c ''amount'')) (\<lambda>amount.
     ebind (strict_text 8 False (field c ''currency'')) (\<lambda>currency.
     Inr (obj [(''amount'', Some amount), (''currency'', str_value currency)]))))"

text \<open>\<open>contextWindow?.used\<close> of a window that is absent is absent.\<close>

definition acp_usage_update :: "json \<Rightarrow> projection_error + json" where
  "acp_usage_update u =
     ebind (allowed_fields USAGE_FIELDS u) (\<lambda>_.
     ebind (unless_null (field u ''contextWindow'') (strict_object [''used'', ''size''])) (\<lambda>window.
     let of_window = (\<lambda>k. case window of None \<Rightarrow> None | Some w \<Rightarrow> field w k) in
     ebind (strict_int 0 (coalesce (field u ''used'')
              (coalesce (field u ''usedTokens'') (of_window ''used'')))) (\<lambda>used.
     ebind (strict_int 1 (coalesce (field u ''size'')
              (coalesce (field u ''maxTokens'') (of_window ''size'')))) (\<lambda>size.
     ebind (unless_null (field u ''cost'') acp_cost) (\<lambda>cost.
     Inr (obj [(''sessionUpdate'', lit_value ''usage_update''), (''used'', int_value used),
               (''size'', int_value size), (''cost'', cost)]))))))"

text \<open>The updates that carry one value under a name of their own.\<close>

definition acp_single ::
  "string \<Rightarrow> string list \<Rightarrow> string \<Rightarrow> (json \<Rightarrow> projection_error + json) \<Rightarrow> json \<Rightarrow> projection_error + json" where
  "acp_single kind ks name check u =
     ebind (allowed_fields (''sessionUpdate'' # ks) u) (\<lambda>_.
     ebind (check u) (\<lambda>x.
     Inr (obj [(''sessionUpdate'', lit_value kind), (name, Some x)])))"

definition id_of :: "json option \<Rightarrow> projection_error + json" where
  "id_of v = ebind (safe_id 240 v) (\<lambda>i. Inr (JStr i))"

definition acp_info_update :: "json \<Rightarrow> projection_error + json" where
  "acp_info_update u =
     ebind (allowed_fields [''sessionUpdate'', ''title'', ''updatedAt''] u) (\<lambda>_.
     ebind (unless_null (field u ''title'') (strict_text 500 True)) (\<lambda>title.
     ebind (unless_null (field u ''updatedAt'') (strict_text 64 False)) (\<lambda>updated.
     Inr (obj [(''sessionUpdate'', lit_value ''session_info_update''), (''title'', map_option JStr title),
               (''updatedAt'', map_option JStr updated)]))))"

definition acp_update_of_kind :: "jstr \<Rightarrow> json \<Rightarrow> projection_error + json" where
  "acp_update_of_kind kind u =
     (if kind \<in> set (map js ACP_CONTENT_UPDATES) then acp_content_update kind u
      else if kind = js ''tool_call'' \<or> kind = js ''tool_call_update'' then acp_tool_update (Some u)
      else if kind = js ''plan'' then
        acp_single ''plan'' [''entries''] ''entries'' (\<lambda>u. acp_plan_entries (field u ''entries'')) u
      else if kind = js ''plan_update'' then
        acp_single ''plan_update'' [''plan''] ''plan'' (\<lambda>u. acp_plan (field u ''plan'')) u
      else if kind = js ''plan_removed'' then
        acp_single ''plan_removed'' [''planId''] ''planId'' (\<lambda>u. id_of (field u ''planId'')) u
      else if kind = js ''available_commands_update'' then
        acp_single ''available_commands_update'' [''availableCommands''] ''availableCommands''
          (\<lambda>u. acp_available_commands (field u ''availableCommands'')) u
      else if kind = js ''current_mode_update'' then
        acp_single ''current_mode_update'' [''currentModeId'', ''modeId''] ''currentModeId''
          (\<lambda>u. id_of (coalesce (field u ''currentModeId'') (field u ''modeId''))) u
      else if kind = js ''current_model_update'' then
        acp_single ''current_model_update'' [''currentModelId'', ''modelId''] ''currentModelId''
          (\<lambda>u. id_of (coalesce (field u ''currentModelId'') (field u ''modelId''))) u
      else if kind = js ''config_option_update'' then
        acp_single ''config_option_update'' [''configOptions''] ''configOptions''
          (\<lambda>u. acp_config_options (field u ''configOptions'')) u
      else if kind = js ''session_info_update'' then acp_info_update u
      else if kind = js ''usage_update'' then acp_usage_update u
      else Inl Pj_invalid_projection)"

definition sanitize_acp_delta :: "json option \<Rightarrow> projection_error + json" where
  "sanitize_acp_delta raw =
     (case as_str raw of
        Some s \<Rightarrow> ebind (strict_text MAX_TURN_TEXT True (Some (JStr s))) (\<lambda>t. Inr (JStr t))
      | None \<Rightarrow>
     ebind (plain raw) (\<lambda>u.
     require (no_forbidden_keys u) Pj_forbidden_key (
     if nullish (field u ''sessionUpdate'') then
       ebind (allowed_fields [''text''] u) (\<lambda>_.
       ebind (strict_text MAX_TURN_TEXT True (field u ''text'')) (\<lambda>t.
       Inr (obj [(''text'', str_value t)])))
     else
       case as_str (field u ''sessionUpdate'') of
         None \<Rightarrow> Inl Pj_invalid_projection
       | Some kind \<Rightarrow> acp_update_of_kind kind u)))"

section \<open>Permission requests\<close>

text \<open>
  How complete the context of a permission request is, in the order of
  \<open>PERMISSION_COMPLETENESS_RANK\<close>. \<open>mark\<close> replaces a state by a worse one only, so it is the maximum.
\<close>

datatype completeness = Complete | Truncated | Redacted | Unavailable

fun completeness_rank :: "completeness \<Rightarrow> nat" where
  "completeness_rank Complete = 0"
| "completeness_rank Truncated = 1"
| "completeness_rank Redacted = 2"
| "completeness_rank Unavailable = 3"

instantiation completeness :: linorder
begin

definition less_eq_completeness :: "completeness \<Rightarrow> completeness \<Rightarrow> bool" where
  "less_eq_completeness a b = (completeness_rank a \<le> completeness_rank b)"

definition less_completeness :: "completeness \<Rightarrow> completeness \<Rightarrow> bool" where
  "less_completeness a b = (completeness_rank a < completeness_rank b)"

instance
proof
  fix a b :: completeness
  show "a \<le> b \<Longrightarrow> b \<le> a \<Longrightarrow> a = b"
    by (cases a; cases b) (simp_all add: less_eq_completeness_def)
qed (auto simp: less_eq_completeness_def less_completeness_def)

end

fun completeness_text :: "completeness \<Rightarrow> string" where
  "completeness_text Complete = ''complete''"
| "completeness_text Truncated = ''truncated''"
| "completeness_text Redacted = ''redacted''"
| "completeness_text Unavailable = ''unavailable''"

definition completeness_of :: "json option \<Rightarrow> completeness" where
  "completeness_of v =
     (case find (\<lambda>c. v = lit_value (completeness_text c)) [Complete, Truncated, Redacted, Unavailable] of
        None \<Rightarrow> Unavailable
      | Some c \<Rightarrow> c)"

definition mark :: "completeness \<Rightarrow> completeness \<Rightarrow> completeness" where
  "mark state c = (if completeness_rank state > completeness_rank c then state else c)"

text \<open>
  One entry of \<open>diffs\<close> or \<open>options\<close>: what is kept of it, whether its context was reduced, whether a text
  was cut. \<^verbatim>\<open>oldText?.length\<close> of a value that is not a string is not modelled: such an entry is reduced,
  which outranks a cut.
\<close>

record kept =
  kp_item :: "json option"
  kp_reduced :: bool
  kp_cut :: bool

definition dropped :: kept where
  "dropped = \<lparr>kp_item = None, kp_reduced = True, kp_cut = False\<rparr>"

definition diff_text :: "json option \<Rightarrow> jstr" where
  "diff_text v = (case as_str v of None \<Rightarrow> [] | Some s \<Rightarrow> take MAX_DIFF_TEXT (clean_text s))"

definition too_long :: "json option \<Rightarrow> bool" where
  "too_long v = (case as_str v of None \<Rightarrow> False | Some s \<Rightarrow> length s > MAX_DIFF_TEXT)"

definition permission_diff_of :: "json \<Rightarrow> projection_error + kept" where
  "permission_diff_of raw =
     (if \<not> is_obj raw then Inr dropped
      else
        ebind (allowed_fields [''type'', ''path'', ''relativePath'', ''oldText'', ''newText''] raw) (\<lambda>_.
        case safe_relative_path (coalesce (field raw ''relativePath'') (field raw ''path'')) of
          Inl _ \<Rightarrow> Inr dropped
        | Inr path \<Rightarrow>
            let old = field raw ''oldText''; new = field raw ''newText'' in
            Inr \<lparr>kp_item = Some (diff_json \<lparr>pd_relativePath = path, pd_oldText = diff_text old,
                                              pd_newText = diff_text new\<rparr>),
                 kp_reduced = (as_str old = None \<or> as_str new = None),
                 kp_cut = (too_long old \<or> too_long new)\<rparr>))"

definition permission_option_of :: "json \<Rightarrow> projection_error + kept" where
  "permission_option_of raw =
     (if \<not> is_obj raw then Inr dropped
      else
        ebind (allowed_fields [''id'', ''optionId'', ''label'', ''name'', ''kind''] raw) (\<lambda>_.
        case optional_id 120 (coalesce (field raw ''id'') (field raw ''optionId'')) of
          None \<Rightarrow> Inr dropped
        | Some i \<Rightarrow>
            Inr \<lparr>kp_item = Some (option_json \<lparr>po_id = i,
                   po_label = display_text 160 i (coalesce (field raw ''label'') (field raw ''name''))\<rparr>),
                 kp_reduced = False, kp_cut = False\<rparr>))"

definition kept_items :: "kept list \<Rightarrow> json list" where
  "kept_items ks = concat (map (\<lambda>k. case kp_item k of None \<Rightarrow> [] | Some x \<Rightarrow> [x]) ks)"

text \<open>What an array that is missing or too long does to the completeness.\<close>

definition array_mark :: "nat \<Rightarrow> json option \<Rightarrow> completeness" where
  "array_mark m v =
     (case as_arr v of
        None \<Rightarrow> Redacted
      | Some xs \<Rightarrow> if length xs > m then Truncated else Complete)"

definition PERMISSION_FIELDS :: "string list" where
  "PERMISSION_FIELDS =
     [''type'', ''permId'', ''revision'', ''completeness'', ''projectId'', ''targetId'', ''sessionId'',
      ''attentionSessionId'', ''key'', ''agent'', ''title'', ''kind'', ''sensitive'', ''requestedAt'',
      ''options'', ''diffs'']"

definition nonneg_int :: "json option \<Rightarrow> int option" where
  "nonneg_int v = (case as_int v of None \<Rightarrow> None | Some n \<Rightarrow> if 0 \<le> n then Some n else None)"

text \<open>
  \<open>project\<close>, \<open>session\<close> and \<open>requested\<close> are the options of the call (\<open>project\<close> is the event's own
  \<open>projectId\<close> by default), \<open>now\<close> is \<open>Date.now()\<close>.
\<close>

definition sanitize_acp_permission ::
  "int \<Rightarrow> json option \<Rightarrow> json option \<Rightarrow> json option \<Rightarrow> json option \<Rightarrow> projection_error + json" where
  "sanitize_acp_permission now project session requested raw =
     ebind (plain raw) (\<lambda>e.
     require (field e ''type'' = lit_value ''agent.permission.requested'') Pj_invalid_projection (
     require (no_forbidden_keys e) Pj_forbidden_key (
     ebind (allowed_fields PERMISSION_FIELDS e) (\<lambda>_.
     ebind (safe_id 240 project) (\<lambda>p.
     ebind (safe_id 240 (field e ''permId'')) (\<lambda>perm.
     ebind (emap permission_diff_of (take MAX_PERMISSION_DIFFS (array_or_empty (field e ''diffs'')))) (\<lambda>diffs.
     ebind (emap permission_option_of (take MAX_PERMISSION_OPTIONS (array_or_empty (field e ''options'')))) (\<lambda>options.
     let cut = (if list_ex kp_cut diffs then Truncated else Complete);
         reduced = (if list_ex kp_reduced (diffs @ options) then Redacted else Complete);
         complete = mark reduced (mark (array_mark MAX_PERMISSION_OPTIONS (field e ''options''))
                      (mark cut (mark (array_mark MAX_PERMISSION_DIFFS (field e ''diffs''))
                        (completeness_of (field e ''completeness'')))));
         session_id = optional_id 240 (coalesce session (coalesce (field e ''attentionSessionId'')
                        (coalesce (field e ''sessionId'') (field e ''targetId''))));
         at = (case nonneg_int (field e ''requestedAt'') of
                 Some n \<Rightarrow> n
               | None \<Rightarrow> (case nonneg_int requested of Some n \<Rightarrow> n | None \<Rightarrow> now));
         kind = (case as_str (field e ''kind'') of
                   None \<Rightarrow> None
                 | Some k \<Rightarrow> let t = take 80 (clean_text k) in if t = [] then None else Some t) in
     Inr (obj [(''type'', lit_value ''agent.permission.requested''), (''permId'', str_value perm),
               (''projectId'', str_value p),
               (''targetId'', map_option JStr (optional_id 240 (field e ''targetId''))),
               (''sessionId'', map_option JStr session_id),
               (''agent'', str_value (display_text 120 (js ''Agent'') (field e ''agent''))),
               (''title'', str_value (display_text MAX_DISPLAY (js ''Agent action'') (field e ''title''))),
               (''requestedAt'', int_value at),
               (''revision'', map_option JInt (nonneg_int (field e ''revision''))),
               (''completeness'', lit_value (completeness_text complete)),
               (''kind'', map_option JStr kind),
               (''options'', Some (JArr (kept_items options))),
               (''diffs'', Some (JArr (kept_items diffs)))])))))))))"

section \<open>\<open>sanitizeAcpSessionEvent\<close>\<close>

definition BASE_KEYS :: "string list" where
  "BASE_KEYS = [''type'', ''projectId'', ''targetId'', ''sessionId'']"

definition acp_delta_fields :: "json \<Rightarrow> projection_error + (string \<times> json option) list" where
  "acp_delta_fields e =
     ebind (allowed_fields (BASE_KEYS @ [''turnId'', ''delta'']) e) (\<lambda>_.
     ebind (safe_id 240 (field e ''turnId'')) (\<lambda>turn.
     ebind (sanitize_acp_delta (field e ''delta'')) (\<lambda>delta.
     Inr [(''turnId'', str_value turn), (''delta'', Some delta)])))"

definition acp_completed_fields :: "json \<Rightarrow> projection_error + (string \<times> json option) list" where
  "acp_completed_fields e =
     ebind (allowed_fields (BASE_KEYS @ [''attentionSessionId'', ''turnId'', ''ok'', ''agent'', ''stopReason'']) e) (\<lambda>_.
     require (as_bool (field e ''ok'') \<noteq> None) Pj_invalid_projection (
     ebind (unless_null (field e ''stopReason'') (required_member ACP_STOP_REASONS)) (\<lambda>reason.
     ebind (unless_null (field e ''attentionSessionId'') (safe_id 240)) (\<lambda>attention.
     ebind (safe_id 240 (field e ''turnId'')) (\<lambda>turn.
     ebind (unless_null (field e ''agent'') (strict_text 160 False)) (\<lambda>agent.
     Inr [(''attentionSessionId'', map_option JStr attention), (''turnId'', str_value turn),
          (''ok'', field e ''ok''), (''agent'', map_option JStr agent),
          (''stopReason'', map_option JStr reason)]))))))"

definition acp_resolved_fields :: "json \<Rightarrow> projection_error + (string \<times> json option) list" where
  "acp_resolved_fields e =
     ebind (allowed_fields (BASE_KEYS @ [''permId'', ''revision'', ''resolution'', ''actorId'']) e) (\<lambda>_.
     ebind (safe_id 240 (field e ''permId'')) (\<lambda>perm.
     ebind (unless_null (field e ''revision'') safe_time) (\<lambda>revision.
     ebind (unless_null (field e ''resolution'') (strict_text 80 False)) (\<lambda>resolution.
     ebind (unless_null (field e ''actorId'') (safe_id 240)) (\<lambda>actor.
     Inr [(''permId'', str_value perm), (''revision'', map_option JInt revision),
          (''resolution'', map_option JStr resolution), (''actorId'', map_option JStr actor)])))))"

definition acp_event_fields :: "jstr \<Rightarrow> json \<Rightarrow> projection_error + (string \<times> json option) list" where
  "acp_event_fields ty e =
     (if ty = js ''agent.turn.delta'' then acp_delta_fields e
      else if ty = js ''agent.turn.completed'' then acp_completed_fields e
      else acp_resolved_fields e)"

definition sanitize_acp_session_event :: "int \<Rightarrow> json option \<Rightarrow> json option \<Rightarrow> projection_error + json" where
  "sanitize_acp_session_event now requested raw =
     ebind (plain raw) (\<lambda>e.
     require (no_forbidden_keys e) Pj_forbidden_key (
     ebind (required_member ACP_EVENT_TYPES (field e ''type'')) (\<lambda>ty.
     if ty = js ''agent.permission.requested'' then
       ebind (sanitize_acp_permission now (field e ''projectId'') None requested raw) bounded_event
     else
       ebind (safe_id 240 (field e ''projectId'')) (\<lambda>p.
       ebind (unless_null (field e ''targetId'') (safe_id 240)) (\<lambda>target.
       ebind (unless_null (field e ''sessionId'') (safe_id 240)) (\<lambda>session.
       require (target \<noteq> None \<or> session \<noteq> None) Pj_invalid_projection (
       ebind (acp_event_fields ty e) (\<lambda>rest.
       bounded_event (obj ([(''type'', str_value ty), (''projectId'', str_value p),
         (''targetId'', map_option JStr target), (''sessionId'', map_option JStr session)] @ rest)))))))))) "

section \<open>Laws of the strict validators\<close>

definition ACP_KEYS :: "string list" where
  "ACP_KEYS =
     [''type'', ''text'', ''content'', ''priority'', ''status'', ''path'', ''oldText'', ''newText'',
      ''terminalId'', ''line'', ''sessionUpdate'', ''toolCallId'', ''title'', ''kind'', ''locations'',
      ''hint'', ''name'', ''description'', ''input'', ''group'', ''options'', ''value'', ''id'',
      ''category'', ''currentValue'', ''messageId'', ''planId'', ''entries'', ''uri'', ''plan'', ''amount'',
      ''currency'', ''used'', ''size'', ''cost'', ''availableCommands'', ''currentModeId'',
      ''currentModelId'', ''configOptions'', ''updatedAt'', ''projectId'', ''targetId'', ''sessionId'',
      ''turnId'', ''delta'', ''attentionSessionId'', ''ok'', ''agent'', ''stopReason'', ''permId'',
      ''revision'', ''resolution'', ''actorId'', ''requestedAt'', ''completeness'', ''diffs'',
      ''relativePath'', ''label'']"

lemma acp_keys_allowed: "list_all (\<lambda>k. \<not> forbidden_key (js k)) ACP_KEYS"
  unfolding forbidden_codes by code_simp

lemmas acp_keys = acp_keys_allowed [unfolded ACP_KEYS_def list.pred_inject]

definition PATH_KEYS :: "string list" where
  "PATH_KEYS = [''path'', ''relativePath'', ''uri'']"

definition path_value :: "json \<Rightarrow> bool" where
  "path_value v = (case v of JStr s \<Rightarrow> \<not> unsafe_path s | _ \<Rightarrow> False)"

text \<open>Every property, at any depth, that names a path holds a path relative to the workspace.\<close>

fun paths_relative :: "json \<Rightarrow> bool" where
  "paths_relative (JArr xs) = (\<forall>x \<in> set xs. paths_relative x)"
| "paths_relative (JObj ps) =
     (\<forall>p \<in> set ps. paths_relative (snd p) \<and> (fst p \<in> set (map js PATH_KEYS) \<longrightarrow> path_value (snd p)))"
| "paths_relative _ = True"

definition acp_clean :: "json \<Rightarrow> bool" where
  "acp_clean x = (x \<noteq> JNull \<and> no_forbidden_keys x \<and> paths_relative x)"

lemma acp_clean_obj:
  "acp_clean (obj ps) \<longleftrightarrow>
   list_all (\<lambda>p. pred_option (\<lambda>x. \<not> forbidden_key (js (fst p)) \<and> no_forbidden_keys x \<and> paths_relative x \<and>
                   (fst p \<in> set PATH_KEYS \<longrightarrow> path_value x)) (snd p)) ps"
  by (induction ps rule: entries.induct) (auto simp: acp_clean_def obj_def split: option.splits)

lemma acp_clean_part: "acp_clean x \<Longrightarrow> no_forbidden_keys x \<and> paths_relative x"
  by (simp add: acp_clean_def)

lemma acp_clean_arr: "acp_clean (JArr xs) \<longleftrightarrow> (\<forall>x \<in> set xs. no_forbidden_keys x \<and> paths_relative x)"
  by (auto simp: acp_clean_def)

lemma strict_text_Inr: "strict_text m b v = Inr s \<longleftrightarrow> v = Some (JStr s) \<and> strict_ok m b s"
  by (auto simp: strict_text_def require_eq_Inr split: option.splits)

lemma strict_text_stable [simp]: "strict_ok m b s \<Longrightarrow> strict_text m b (str_value s) = Inr s"
  by (simp add: strict_text_Inr str_value_def)

lemma strict_int_Inr: "strict_int lo v = Inr n \<longleftrightarrow> v = Some (JInt n) \<and> is_safe n \<and> lo \<le> n"
  by (auto simp: strict_int_def require_eq_Inr split: option.splits)

lemma strict_int_stable [simp]: "is_safe n \<Longrightarrow> lo \<le> n \<Longrightarrow> strict_int lo (int_value n) = Inr n"
  by (simp add: strict_int_Inr int_value_def)

lemma unless_null_map:
  assumes "\<And>x. pred_option P r \<Longrightarrow> P x \<Longrightarrow> f (Some (g x)) = Inr x" "\<And>x. g x \<noteq> JNull" "pred_option P r"
  shows "unless_null (map_option g r) f = Inr r"
  using assms by (cases r) (auto simp: unless_null_def nullish_def)

lemma unless_null_text [simp]:
  "pred_option (strict_ok m b) r \<Longrightarrow> unless_null (map_option JStr r) (strict_text m b) = Inr r"
  by (rule unless_null_map) (auto simp: strict_text_Inr)

lemma unless_null_member [simp]:
  "pred_option (one_of ts) r \<Longrightarrow> unless_null (map_option JStr r) (required_member ts) = Inr r"
  by (rule unless_null_map) (auto simp: required_member_Inr)

lemma unless_null_int [simp]:
  "pred_option (\<lambda>n. is_safe n \<and> lo \<le> n) r \<Longrightarrow> unless_null (map_option JInt r) (strict_int lo) = Inr r"
  by (rule unless_null_map) (auto simp: strict_int_Inr)

lemma optional_text_ok: "unless_null v (strict_text m b) = Inr r \<Longrightarrow> pred_option (strict_ok m b) r"
  by (erule optional_ok) (simp add: strict_text_Inr)

lemma optional_member_ok: "unless_null v (required_member ts) = Inr r \<Longrightarrow> pred_option (one_of ts) r"
  by (erule optional_ok) (simp add: required_member_Inr)

lemma optional_int_ok: "unless_null v (strict_int lo) = Inr r \<Longrightarrow> pred_option (\<lambda>n. is_safe n \<and> lo \<le> n) r"
  by (erule optional_ok) (simp add: strict_int_Inr)

lemma strict_object_Inr: "strict_object ks v = Inr x \<longleftrightarrow> v = Some x \<and> is_obj x \<and> only_keys x ks"
  by (auto simp: strict_object_def result_simps plain_Inr allowed_fields_def)

lemma strict_object_stable [simp]: "only_keys (obj ps) ks \<Longrightarrow> strict_object ks (Some (obj ps)) = Inr (obj ps)"
  by (simp add: strict_object_Inr)

lemma allowed_stable [simp]: "only_keys x ks \<Longrightarrow> allowed_fields ks x = Inr ()"
  by (simp add: allowed_fields_def)

lemma is_high_forward [simp]: "is_high (if u = 92 then 47 else u) = is_high u"
  "is_low (if u = 92 then 47 else u) = is_low u"
  by (simp_all add: is_high_def is_low_def)

lemma enc_cp_forward: "length (enc_cp (unat (if u = 92 then 47 else u :: 16 word))) = length (enc_cp (unat u))"
  by (simp add: enc_cp_def)

lemma length_utf8_forward: "length (utf8_encode (forward_slashes s)) = length (utf8_encode s)"
proof -
  have high: "u = 92 \<Longrightarrow> \<not> is_high u \<and> \<not> is_low u" for u :: "16 word"
    by (simp add: is_high_def is_low_def)
  have "length (enc_cps (cps_of_units (forward_slashes s))) = length (enc_cps (cps_of_units s))"
    using high enc_cp_forward
    by (induction s rule: cps_of_units.induct)
      (auto simp: enc_cps_def forward_slashes_def simp del: if_split)
  then show ?thesis by (simp add: utf8_encode_def)
qed

definition strict_path_ok :: "jstr \<Rightarrow> bool" where
  "strict_path_ok t = (strict_ok MAX_PATH False t \<and> \<not> unsafe_path t \<and> 92 \<notin> set t)"

lemma strict_path_Inr: "strict_path v = Inr t \<Longrightarrow> strict_path_ok t"
proof -
  assume "strict_path v = Inr t"
  then obtain s where s: "strict_ok MAX_PATH False s" "\<not> unsafe_path s" "t = forward_slashes s"
    by (auto simp: strict_path_def result_simps strict_text_Inr)
  have "strict_ok MAX_PATH False t"
  proof -
    have "list_all (\<lambda>u. \<not> is_control_unit u) t" "t \<noteq> []"
      using s plain_units by (auto simp: strict_ok_def list_all_iff forward_slashes_def)
    then show ?thesis using s length_utf8_forward [of s] by (simp add: strict_ok_def)
  qed
  moreover have "92 \<notin> set t" using s by (auto simp: forward_slashes_def)
  ultimately show ?thesis using s unsafe_forward by (simp add: strict_path_ok_def)
qed

lemma strict_path_stable [simp]: "strict_path_ok t \<Longrightarrow> strict_path (str_value t) = Inr t"
  by (simp add: strict_path_def strict_path_ok_def forward_slashes_id)

lemma strict_path_value: "strict_path_ok t \<Longrightarrow> path_value (JStr t)"
  by (simp add: strict_path_ok_def path_value_def)

lemmas strict_Inr = strict_text_Inr strict_int_Inr strict_object_Inr required_member_Inr safe_id_Inr
  safe_time_Inr optional_text_ok optional_member_ok optional_int_ok optional_id_ok optional_time_ok
  allowed_fields_def require_eq_Inr

lemmas clean_simps = acp_clean_obj acp_keys PATH_KEYS_def option.pred_map comp_def str_value_def
  lit_value_def int_value_def bool_value_def

lemma lit_value_eq [simp]: "lit_value s = lit_value t \<longleftrightarrow> s = t" "lit_value s = str_value u \<longleftrightarrow> u = js s"
  "str_value u = lit_value s \<longleftrightarrow> u = js s" "str_value u = str_value w \<longleftrightarrow> u = w"
  by (auto simp: lit_value_def str_value_def)

lemma nullish_values [simp]: "\<not> nullish (str_value s)" "\<not> nullish (lit_value l)" "\<not> nullish (int_value n)"
  "nullish None" "nullish (map_option JStr r) = (r = None)" "nullish (Some x) = (x = JNull)"
  by (cases r) (auto simp: nullish_def str_value_def lit_value_def int_value_def)

section \<open>Sanitizing twice\<close>

text \<open>
  The interface of a part's sanitizer: what it accepts is clean, and sanitizing the result again
  changes nothing. A list of such parts is such a part.
\<close>

locale sanitizer =
  fixes g :: "json option \<Rightarrow> projection_error + json"
  assumes idem: "g v = Inr x \<Longrightarrow> g (Some x) = Inr x"
    and clean: "g v = Inr x \<Longrightarrow> acp_clean x"
begin

lemma optional_part:
  assumes "unless_null v g = Inr r"
  shows "unless_null r g = Inr r \<and> pred_option acp_clean r"
proof (cases r)
  case (Some x)
  then have "g v = Inr x" using assms by (auto simp: unless_null_Inr)
  then show ?thesis
    using Some idem [of v x] clean [of v x] by (auto simp: unless_null_Inr nullish_def acp_clean_def)
qed (simp add: unless_null_def)

lemma optional_parts:
  assumes "unless_null v g = Inr r"
  shows "pred_option (\<lambda>x. no_forbidden_keys x \<and> paths_relative x) r"
  using optional_part [OF assms] by (cases r; simp add: acp_clean_def)

end

locale item_sanitizer =
  fixes f :: "json \<Rightarrow> projection_error + json"
  assumes item_idem: "f v = Inr x \<Longrightarrow> f x = Inr x"
    and item_clean: "f v = Inr x \<Longrightarrow> acp_clean x"
begin

lemma list_idem: "strict_list m f v = Inr x \<Longrightarrow> strict_list m f (Some x) = Inr x"
proof -
  assume "strict_list m f v = Inr x"
  then obtain xs ys where x: "bounded_array m v = Inr xs" "emap f xs = Inr ys" "x = JArr ys"
    by (auto simp: strict_list_def result_simps emap_eq_Inr)
  have "length ys \<le> m" using x(1) emap_length [OF x(2)] by (simp add: bounded_array_Inr)
  moreover have "emap f (map id ys) = Inr ys"
    using emap_all [OF x(2), of "\<lambda>y. f y = Inr y"] item_idem
    by (intro emap_map_id) (auto simp: list_all_iff)
  ultimately show ?thesis by (simp add: strict_list_def x(3) bounded_array_def)
qed

lemma list_clean: "strict_list m f v = Inr x \<Longrightarrow> acp_clean x"
proof -
  assume "strict_list m f v = Inr x"
  then obtain xs ys where x: "emap f xs = Inr ys" "x = JArr ys"
    by (auto simp: strict_list_def result_simps emap_eq_Inr)
  have "list_all acp_clean ys" by (rule emap_all [OF x(1)]) (rule item_clean)
  then show ?thesis by (auto simp: x(2) acp_clean_arr list_all_iff dest: acp_clean_part)
qed

end

sublocale item_sanitizer \<subseteq> list: sanitizer "strict_list m f" for m
  by unfold_locales (erule list_idem, erule list_clean)

interpretation text_content: sanitizer acp_text_content
proof
  fix v x
  assume x: "acp_text_content v = Inr x"
  show "acp_text_content (Some x) = Inr x"
    using x unfolding acp_text_content_def
    by (elim ebind_InrE require_InrE) (clarsimp simp: strict_Inr)
  show "acp_clean x"
    using x unfolding acp_text_content_def
    by (elim ebind_InrE require_InrE) (clarsimp simp: clean_simps)
qed

interpretation plan_entry: item_sanitizer acp_plan_entry
proof
  fix v x
  assume x: "acp_plan_entry v = Inr x"
  show "acp_plan_entry x = Inr x"
    using x unfolding acp_plan_entry_def
    by (elim ebind_InrE require_InrE) (clarsimp simp: strict_Inr)
  show "acp_clean x"
    using x unfolding acp_plan_entry_def
    by (elim ebind_InrE require_InrE) (clarsimp simp: clean_simps)
qed

lemma acp_content_item_idem: "acp_content_item v = Inr x \<Longrightarrow> acp_content_item x = Inr x"
  unfolding acp_content_item_def
  by (elim ebind_InrE require_InrE) (clarsimp simp: strict_Inr text_content.idem)

lemma acp_content_item_clean: "acp_content_item v = Inr x \<Longrightarrow> acp_clean x \<and> field x ''type'' = lit_value ''content''"
  unfolding acp_content_item_def
  by (elim ebind_InrE require_InrE)
    (clarsimp simp: clean_simps dest!: text_content.clean acp_clean_part)

lemma acp_diff_item_idem: "acp_diff_item v = Inr x \<Longrightarrow> acp_diff_item x = Inr x"
  unfolding acp_diff_item_def
  by (elim ebind_InrE require_InrE) (clarsimp simp: strict_Inr dest!: strict_path_Inr)

lemma acp_diff_item_clean: "acp_diff_item v = Inr x \<Longrightarrow> acp_clean x \<and> field x ''type'' = lit_value ''diff''"
  unfolding acp_diff_item_def
  by (elim ebind_InrE require_InrE) (clarsimp simp: clean_simps strict_path_value dest!: strict_path_Inr)

lemma acp_terminal_item_idem: "acp_terminal_item v = Inr x \<Longrightarrow> acp_terminal_item x = Inr x"
  unfolding acp_terminal_item_def
  by (elim ebind_InrE require_InrE) (clarsimp simp: strict_Inr)

lemma acp_terminal_item_clean:
  "acp_terminal_item v = Inr x \<Longrightarrow> acp_clean x \<and> field x ''type'' = lit_value ''terminal''"
  unfolding acp_terminal_item_def
  by (elim ebind_InrE require_InrE) (clarsimp simp: clean_simps)

lemma plain_field: "field x k = lit_value t \<Longrightarrow> plain (Some x) = Inr x"
  by (cases x) (auto simp: field_def lit_value_def plain_def)

lemmas tool_item_idem = acp_content_item_idem acp_diff_item_idem acp_terminal_item_idem

lemmas tool_item_clean = acp_content_item_clean acp_diff_item_clean acp_terminal_item_clean

interpretation tool_content: item_sanitizer acp_tool_content
proof
  fix v x
  assume x: "acp_tool_content v = Inr x"
  then consider "acp_content_item v = Inr x" | "acp_diff_item v = Inr x" | "acp_terminal_item v = Inr x"
    unfolding acp_tool_content_def by (elim ebind_InrE) (auto simp: plain_Inr split: if_splits)
  then have "acp_tool_content x = Inr x \<and> acp_clean x"
  proof cases
    case 1
    note c = acp_content_item_clean [OF 1]
    show ?thesis using c plain_field [OF conjunct2 [OF c]] acp_content_item_idem [OF 1] by (simp add: acp_tool_content_def)
  next
    case 2
    note c = acp_diff_item_clean [OF 2]
    show ?thesis using c plain_field [OF conjunct2 [OF c]] acp_diff_item_idem [OF 2] by (simp add: acp_tool_content_def)
  next
    case 3
    note c = acp_terminal_item_clean [OF 3]
    show ?thesis using c plain_field [OF conjunct2 [OF c]] acp_terminal_item_idem [OF 3] by (simp add: acp_tool_content_def)
  qed
  then show "acp_tool_content x = Inr x" "acp_clean x" by simp_all
qed

interpretation location: item_sanitizer acp_location
proof
  fix v x
  assume x: "acp_location v = Inr x"
  show "acp_location x = Inr x"
    using x unfolding acp_location_def
    by (elim ebind_InrE require_InrE) (clarsimp simp: strict_Inr dest!: strict_path_Inr)
  show "acp_clean x"
    using x unfolding acp_location_def
    by (elim ebind_InrE require_InrE) (clarsimp simp: clean_simps strict_path_value dest!: strict_path_Inr)
qed

interpretation command_input: sanitizer acp_command_input
proof
  fix v x
  assume x: "acp_command_input v = Inr x"
  show "acp_command_input (Some x) = Inr x"
    using x unfolding acp_command_input_def
    by (elim ebind_InrE require_InrE) (clarsimp simp: strict_Inr)
  show "acp_clean x"
    using x unfolding acp_command_input_def
    by (elim ebind_InrE require_InrE) (clarsimp simp: clean_simps)
qed

interpretation command: item_sanitizer acp_command
proof
  fix v x
  assume x: "acp_command v = Inr x"
  show "acp_command x = Inr x"
    using x unfolding acp_command_def
    by (elim ebind_InrE require_InrE) (clarsimp simp: strict_Inr command_input.optional_part)
  show "acp_clean x"
    using x unfolding acp_command_def
    by (elim ebind_InrE require_InrE) (clarsimp simp: clean_simps command_input.optional_parts)
qed

lemma acp_title_stable: "acp_title c w = Inr t \<Longrightarrow> acp_title c (map_option JStr t) = Inr t"
  using optional_text_ok [of w 500 False t]
  by (auto simp: acp_title_def ebind_eq_Inr strict_text_Inr split: if_splits)

lemma acp_tool_update_idem: "acp_tool_update v = Inr x \<Longrightarrow> acp_tool_update (Some x) = Inr x"
  unfolding acp_tool_update_def
  by (elim ebind_InrE require_InrE)
    (clarsimp simp: strict_Inr TOOL_FIELDS_def acp_title_stable tool_content.list.optional_part
      location.list.optional_part)

lemma acp_tool_update_clean:
  assumes "acp_tool_update (Some u) = Inr x" "field u ''sessionUpdate'' = str_value k"
  shows "acp_clean x \<and> field x ''sessionUpdate'' = str_value k"
  using assms unfolding acp_tool_update_def
  by (elim ebind_InrE require_InrE)
    (clarsimp simp: clean_simps strict_Inr tool_content.list.optional_parts location.list.optional_parts)

lemma acp_select_leaf_ok:
  "acp_select_leaf v = Inr x \<Longrightarrow>
   acp_select_leaf x = Inr x \<and> acp_clean x \<and> is_obj x \<and> field x ''group'' = None"
  unfolding acp_select_leaf_def
  by (elim ebind_InrE require_InrE) (clarsimp simp: strict_Inr, simp add: clean_simps)

context sanitizer
begin

lemma acp_select_group_ok:
  "acp_select_group g v = Inr x \<Longrightarrow>
   acp_select_group g x = Inr x \<and> acp_clean x \<and> is_obj x \<and> field x ''group'' \<noteq> None"
  unfolding acp_select_group_def
  by (elim ebind_InrE require_InrE)
    (clarsimp simp: strict_Inr idem, simp add: clean_simps acp_clean_part [OF clean])

end

lemma plain_is_obj: "is_obj x \<Longrightarrow> plain (Some x) = Inr x"
  by (simp add: plain_Inr)

interpretation select_leaf: item_sanitizer "acp_select_option None"
proof
  fix v x
  assume "acp_select_option None v = Inr x"
  then have "acp_select_leaf v = Inr x"
    by (auto simp: acp_select_option_def ebind_eq_Inr plain_Inr split: if_splits)
  from acp_select_leaf_ok [OF this] show "acp_select_option None x = Inr x" "acp_clean x"
    by (simp_all add: acp_select_option_def plain_is_obj)
qed

interpretation select_group: item_sanitizer "acp_select_option (Some (acp_select_options 0))"
proof
  fix v x
  let ?f = "acp_select_option (Some (acp_select_options 0))"
  have inner: "sanitizer (acp_select_options 0)"
    by unfold_locales (auto intro: select_leaf.list_idem select_leaf.list_clean)
  assume "?f v = Inr x"
  then consider "acp_select_leaf v = Inr x" | "acp_select_group (acp_select_options 0) v = Inr x"
    by (auto simp: acp_select_option_def ebind_eq_Inr plain_Inr split: if_splits)
  then have "?f x = Inr x \<and> acp_clean x"
  proof cases
    case 1
    from acp_select_leaf_ok [OF 1] show ?thesis by (simp add: acp_select_option_def plain_is_obj)
  next
    case 2
    from sanitizer.acp_select_group_ok [OF inner 2] show ?thesis
      by (simp add: acp_select_option_def plain_is_obj)
  qed
  then show "?f x = Inr x" "acp_clean x" by simp_all
qed

lemma config_value_ok:
  assumes "config_value c v = Inr r"
  shows "\<exists>current options. r = (current, options) \<and> acp_clean current \<and> pred_option acp_clean options \<and>
    (\<forall>w. field w ''currentValue'' = Some current \<and> field w ''options'' = options \<longrightarrow>
      config_value c w = Inr r)"
proof (cases c)
  case True
  with assms show ?thesis
    by (auto simp: config_value_def require_eq_Inr acp_clean_def split: option.splits)
next
  case False
  then obtain i os where r: "r = (JStr i, Some os)" "identifier_ok 160 i"
    "acp_select_options 1 (field v ''options'') = Inr os"
    using assms by (auto simp: config_value_def ebind_eq_Inr safe_id_Inr)
  have os: "acp_select_options 1 (Some os) = Inr os" "acp_clean os"
    using r(3) select_group.list_idem [of 32] select_group.list_clean [of 32] by auto
  show ?thesis
    using False r os safe_id_stable [of 160 i, unfolded str_value_def]
    by (auto simp: config_value_def acp_clean_def)
qed

lemma acp_clean_optional:
  "pred_option acp_clean r \<Longrightarrow> pred_option (\<lambda>x. no_forbidden_keys x \<and> paths_relative x) r"
  by (cases r) (simp_all add: acp_clean_def)

interpretation config_option: item_sanitizer acp_config_option
proof
  fix v x
  assume x: "acp_config_option v = Inr x"
  then have "acp_config_option x = Inr x \<and> acp_clean x"
    unfolding acp_config_option_def
    by - (elim ebind_InrE require_InrE, frule config_value_ok,
      clarsimp simp: strict_Inr CONFIG_FIELDS_def, simp add: clean_simps acp_clean_part acp_clean_optional)
  then show "acp_config_option x = Inr x" "acp_clean x" by simp_all
qed

lemma acp_plan_items_ok:
  "acp_plan_items v = Inr x \<Longrightarrow> acp_plan_items x = Inr x \<and> acp_clean x \<and> field x ''type'' = lit_value ''items''"
  unfolding acp_plan_items_def acp_plan_entries_def
  by (elim ebind_InrE require_InrE)
    (clarsimp simp: strict_Inr plan_entry.list_idem, simp add: clean_simps acp_clean_part [OF plan_entry.list_clean])

lemma acp_plan_markdown_ok:
  "acp_plan_markdown v = Inr x \<Longrightarrow>
   acp_plan_markdown x = Inr x \<and> acp_clean x \<and> field x ''type'' = lit_value ''markdown''"
  unfolding acp_plan_markdown_def
  by (elim ebind_InrE require_InrE) (clarsimp simp: strict_Inr, simp add: clean_simps)

lemma acp_plan_file_ok:
  "acp_plan_file v = Inr x \<Longrightarrow> acp_plan_file x = Inr x \<and> acp_clean x \<and> field x ''type'' = lit_value ''file''"
  unfolding acp_plan_file_def
  by (elim ebind_InrE require_InrE)
    (clarsimp simp: strict_Inr dest!: strict_path_Inr, simp add: clean_simps strict_path_value)

interpretation plan: sanitizer acp_plan
proof
  fix v x
  assume "acp_plan v = Inr x"
  then obtain p where "acp_plan_items p = Inr x \<or> acp_plan_markdown p = Inr x \<or> acp_plan_file p = Inr x"
    unfolding acp_plan_def by (auto simp: ebind_eq_Inr split: if_splits)
  then have "acp_plan (Some x) = Inr x \<and> acp_clean x"
  proof (elim disjE)
    assume "acp_plan_items p = Inr x"
    note c = acp_plan_items_ok [OF this]
    then show ?thesis using plain_field [of x "''type''"] by (simp add: acp_plan_def)
  next
    assume "acp_plan_markdown p = Inr x"
    note c = acp_plan_markdown_ok [OF this]
    then show ?thesis using plain_field [of x "''type''"] by (simp add: acp_plan_def)
  next
    assume "acp_plan_file p = Inr x"
    note c = acp_plan_file_ok [OF this]
    then show ?thesis using plain_field [of x "''type''"] by (simp add: acp_plan_def)
  qed
  then show "acp_plan (Some x) = Inr x" "acp_clean x" by simp_all
qed

interpretation cost: sanitizer acp_cost
proof
  fix v x
  assume x: "acp_cost v = Inr x"
  have amount: "strict_amount w = Inr a \<Longrightarrow> strict_amount (Some a) = Inr a \<and> acp_clean a" for w a
    by (auto simp: strict_amount_def require_eq_Inr acp_clean_def split: option.splits json.splits)
  have "acp_cost (Some x) = Inr x \<and> acp_clean x"
    using x unfolding acp_cost_def
    by - (elim ebind_InrE require_InrE, frule amount,
      clarsimp simp: strict_Inr, simp add: clean_simps acp_clean_part)
  then show "acp_cost (Some x) = Inr x" "acp_clean x" by simp_all
qed

text \<open>The updates of a turn, by kind.\<close>

lemma acp_single_ok:
  assumes "acp_single kind ks name check u = Inr x" "name \<in> set ks" "name \<noteq> ''sessionUpdate''"
    "\<not> forbidden_key (js name)" "name \<notin> set PATH_KEYS"
    and check: "\<And>w y. check w = Inr y \<Longrightarrow> acp_clean y \<and>
      (\<forall>w'. field w' name = Some y \<and> (\<forall>k. k \<noteq> ''sessionUpdate'' \<and> k \<noteq> name \<longrightarrow> field w' k = None) \<longrightarrow>
         check w' = Inr y)"
  shows "acp_single kind ks name check x = Inr x \<and> acp_clean x \<and>
    field x ''sessionUpdate'' = lit_value kind"
proof -
  obtain y where y: "check u = Inr y" "x = obj [(''sessionUpdate'', lit_value kind), (name, Some y)]"
    using assms(1) by (auto simp: acp_single_def ebind_eq_Inr)
  have "field x name = Some y" using assms(3) y(2) by simp
  moreover have "field x k = None" if "k \<noteq> ''sessionUpdate''" "k \<noteq> name" for k
    using that y(2) by simp
  ultimately have "check x = Inr y" using check [OF y(1)] by blast
  moreover have "acp_clean x"
    using assms(4,5) check [OF y(1)] acp_clean_part [of y] by (simp add: y(2) clean_simps)
  ultimately show ?thesis
    using assms(2,3) by (simp add: acp_single_def y(2))
qed

lemma acp_content_update_ok:
  "acp_content_update kind v = Inr x \<Longrightarrow>
   acp_content_update kind x = Inr x \<and> acp_clean x \<and> field x ''sessionUpdate'' = str_value kind"
proof -
  assume x: "acp_content_update kind v = Inr x"
  have content: "acp_text_content (Some c) = Inr c \<and> acp_clean c \<and> c \<noteq> JNull"
    if "(if b then ebind (strict_text MAX_TURN_TEXT True t) (\<lambda>t.
          Inr (obj [(''type'', lit_value ''text''), (''text'', str_value t)]))
         else acp_text_content w) = Inr c" for b t w c
  proof (cases b)
    case True
    with that obtain s where s: "strict_ok MAX_TURN_TEXT True s"
      "c = obj [(''type'', lit_value ''text''), (''text'', str_value s)]"
      by (auto simp: ebind_eq_Inr strict_text_Inr)
    then show ?thesis by (simp add: acp_text_content_def, simp add: clean_simps) (simp add: obj_def)
  next
    case False
    with that text_content.idem text_content.clean show ?thesis by (auto simp: acp_clean_def)
  qed
  show ?thesis
    using x unfolding acp_content_update_def
    by - (elim ebind_InrE require_InrE, frule content,
      clarsimp simp: strict_Inr, simp add: clean_simps acp_clean_part)
qed

lemma acp_info_update_ok:
  "acp_info_update v = Inr x \<Longrightarrow>
   acp_info_update x = Inr x \<and> acp_clean x \<and> field x ''sessionUpdate'' = lit_value ''session_info_update''"
  unfolding acp_info_update_def
  by (elim ebind_InrE require_InrE) (clarsimp simp: strict_Inr, simp add: clean_simps)

lemma coalesce_value [simp]: "coalesce (int_value n) w = int_value n" "coalesce (str_value s) w = str_value s"
  by (simp_all add: coalesce_def)

lemma unless_null_None [simp]: "unless_null None f = Inr None"
  by (simp add: unless_null_def)

lemma acp_usage_update_ok:
  "acp_usage_update v = Inr x \<Longrightarrow>
   acp_usage_update x = Inr x \<and> acp_clean x \<and> field x ''sessionUpdate'' = lit_value ''usage_update''"
  unfolding acp_usage_update_def Let_def
  by (elim ebind_InrE require_InrE)
    (clarsimp simp: strict_Inr USAGE_FIELDS_def cost.optional_part,
     simp add: clean_simps cost.optional_parts)

lemma id_of_ok: "id_of v = Inr x \<Longrightarrow> (\<exists>i. x = JStr i \<and> identifier_ok 240 i) \<and> acp_clean x"
  by (auto simp: id_of_def ebind_eq_Inr safe_id_Inr acp_clean_def)

lemma id_of_value: "identifier_ok 240 i \<Longrightarrow> id_of (Some (JStr i)) = Inr (JStr i)"
  by (simp add: id_of_def safe_id_stable [unfolded str_value_def])

lemma coalesce_str: "coalesce (Some (JStr i)) w = Some (JStr i)"
  by (simp add: coalesce_def)

lemma part_results:
  "acp_plan_entries v = Inr y \<Longrightarrow> acp_clean y \<and> acp_plan_entries (Some y) = Inr y"
  "acp_available_commands v = Inr y \<Longrightarrow> acp_clean y \<and> acp_available_commands (Some y) = Inr y"
  "acp_config_options v = Inr y \<Longrightarrow> acp_clean y \<and> acp_config_options (Some y) = Inr y"
  "acp_plan v = Inr y \<Longrightarrow> acp_clean y \<and> acp_plan (Some y) = Inr y"
  unfolding acp_plan_entries_def acp_available_commands_def acp_config_options_def
  by (blast intro: plan_entry.list_idem plan_entry.list_clean command.list_idem command.list_clean
      config_option.list_idem config_option.list_clean plan.idem plan.clean)+

lemma id_results:
  "id_of v = Inr y \<Longrightarrow> acp_clean y \<and> id_of (Some y) = Inr y \<and> id_of (coalesce (Some y) w) = Inr y"
  using id_of_ok [of v y] by (auto simp: id_of_value coalesce_str)

lemma acp_update_of_kind_ok:
  assumes x: "acp_update_of_kind kind u = Inr x" and u: "field u ''sessionUpdate'' = str_value kind"
  shows "acp_update_of_kind kind x = Inr x \<and> acp_clean x \<and> field x ''sessionUpdate'' = str_value kind"
proof -
  have again: "acp_tool_update (Some x) = Inr x \<and> acp_clean x \<and> field x ''sessionUpdate'' = str_value kind"
    if "acp_tool_update (Some u) = Inr x"
    using acp_tool_update_idem [OF that] acp_tool_update_clean [OF that u] by simp
  note entries = part_results(1) and commands = part_results(2) and configs = part_results(3)
    and plans = part_results(4) and ids = id_results
  consider (content) "kind \<in> set (map js ACP_CONTENT_UPDATES)" "acp_content_update kind u = Inr x"
    | (tool) "kind = js ''tool_call'' \<or> kind = js ''tool_call_update''" "acp_tool_update (Some u) = Inr x"
    | (plan) "kind = js ''plan''" "acp_single ''plan'' [''entries''] ''entries'' (\<lambda>u. acp_plan_entries (field u ''entries'')) u = Inr x"
    | (plan_update) "kind = js ''plan_update''" "acp_single ''plan_update'' [''plan''] ''plan'' (\<lambda>u. acp_plan (field u ''plan'')) u = Inr x"
    | (plan_removed) "kind = js ''plan_removed''" "acp_single ''plan_removed'' [''planId''] ''planId'' (\<lambda>u. id_of (field u ''planId'')) u = Inr x"
    | (available_commands_update) "kind = js ''available_commands_update''" "acp_single ''available_commands_update'' [''availableCommands''] ''availableCommands'' (\<lambda>u. acp_available_commands (field u ''availableCommands'')) u = Inr x"
    | (current_mode_update) "kind = js ''current_mode_update''" "acp_single ''current_mode_update'' [''currentModeId'', ''modeId''] ''currentModeId'' (\<lambda>u. id_of (coalesce (field u ''currentModeId'') (field u ''modeId''))) u = Inr x"
    | (current_model_update) "kind = js ''current_model_update''" "acp_single ''current_model_update'' [''currentModelId'', ''modelId''] ''currentModelId'' (\<lambda>u. id_of (coalesce (field u ''currentModelId'') (field u ''modelId''))) u = Inr x"
    | (config_option_update) "kind = js ''config_option_update''" "acp_single ''config_option_update'' [''configOptions''] ''configOptions'' (\<lambda>u. acp_config_options (field u ''configOptions'')) u = Inr x"
    | (info) "kind = js ''session_info_update''" "acp_info_update u = Inr x"
    | (usage) "kind = js ''usage_update''" "acp_usage_update u = Inr x"
    using x unfolding acp_update_of_kind_def by (simp split: if_split_asm)
  then show ?thesis
  proof cases
    case content
    from acp_content_update_ok [OF content(2)] content(1) show ?thesis
      by (simp add: acp_update_of_kind_def)
  next
    case tool
    from again [OF tool(2)] tool(1) show ?thesis
      by (auto simp: acp_update_of_kind_def ACP_CONTENT_UPDATES_def)
  next
    case plan
    have "acp_single ''plan'' [''entries''] ''entries'' (\<lambda>u. acp_plan_entries (field u ''entries'')) x = Inr x \<and> acp_clean x \<and>
        field x ''sessionUpdate'' = lit_value ''plan''"
      using entries by (intro acp_single_ok [OF plan(2)]) (simp_all add: acp_keys PATH_KEYS_def)
    then show ?thesis by (simp add: plan(1) acp_update_of_kind_def ACP_CONTENT_UPDATES_def)
  next
    case plan_update
    have "acp_single ''plan_update'' [''plan''] ''plan'' (\<lambda>u. acp_plan (field u ''plan'')) x = Inr x \<and> acp_clean x \<and>
        field x ''sessionUpdate'' = lit_value ''plan_update''"
      using plans by (intro acp_single_ok [OF plan_update(2)]) (simp_all add: acp_keys PATH_KEYS_def)
    then show ?thesis by (simp add: plan_update(1) acp_update_of_kind_def ACP_CONTENT_UPDATES_def)
  next
    case plan_removed
    have "acp_single ''plan_removed'' [''planId''] ''planId'' (\<lambda>u. id_of (field u ''planId'')) x = Inr x \<and> acp_clean x \<and>
        field x ''sessionUpdate'' = lit_value ''plan_removed''"
      using ids by (intro acp_single_ok [OF plan_removed(2)]) (simp_all add: acp_keys PATH_KEYS_def)
    then show ?thesis by (simp add: plan_removed(1) acp_update_of_kind_def ACP_CONTENT_UPDATES_def)
  next
    case available_commands_update
    have "acp_single ''available_commands_update'' [''availableCommands''] ''availableCommands'' (\<lambda>u. acp_available_commands (field u ''availableCommands'')) x = Inr x \<and> acp_clean x \<and>
        field x ''sessionUpdate'' = lit_value ''available_commands_update''"
      using commands by (intro acp_single_ok [OF available_commands_update(2)]) (simp_all add: acp_keys PATH_KEYS_def)
    then show ?thesis by (simp add: available_commands_update(1) acp_update_of_kind_def ACP_CONTENT_UPDATES_def)
  next
    case current_mode_update
    have "acp_single ''current_mode_update'' [''currentModeId'', ''modeId''] ''currentModeId'' (\<lambda>u. id_of (coalesce (field u ''currentModeId'') (field u ''modeId''))) x = Inr x \<and> acp_clean x \<and>
        field x ''sessionUpdate'' = lit_value ''current_mode_update''"
      using ids by (intro acp_single_ok [OF current_mode_update(2)]) (simp_all add: acp_keys PATH_KEYS_def)
    then show ?thesis by (simp add: current_mode_update(1) acp_update_of_kind_def ACP_CONTENT_UPDATES_def)
  next
    case current_model_update
    have "acp_single ''current_model_update'' [''currentModelId'', ''modelId''] ''currentModelId'' (\<lambda>u. id_of (coalesce (field u ''currentModelId'') (field u ''modelId''))) x = Inr x \<and> acp_clean x \<and>
        field x ''sessionUpdate'' = lit_value ''current_model_update''"
      using ids by (intro acp_single_ok [OF current_model_update(2)]) (simp_all add: acp_keys PATH_KEYS_def)
    then show ?thesis by (simp add: current_model_update(1) acp_update_of_kind_def ACP_CONTENT_UPDATES_def)
  next
    case config_option_update
    have "acp_single ''config_option_update'' [''configOptions''] ''configOptions'' (\<lambda>u. acp_config_options (field u ''configOptions'')) x = Inr x \<and> acp_clean x \<and>
        field x ''sessionUpdate'' = lit_value ''config_option_update''"
      using configs by (intro acp_single_ok [OF config_option_update(2)]) (simp_all add: acp_keys PATH_KEYS_def)
    then show ?thesis by (simp add: config_option_update(1) acp_update_of_kind_def ACP_CONTENT_UPDATES_def)
  next
    case info
    from acp_info_update_ok [OF info(2)] show ?thesis
      by (simp add: info(1) acp_update_of_kind_def ACP_CONTENT_UPDATES_def)
  next
    case usage
    from acp_usage_update_ok [OF usage(2)] show ?thesis
      by (simp add: usage(1) acp_update_of_kind_def ACP_CONTENT_UPDATES_def)
  qed
qed

lemma as_str_obj [simp]: "as_str (Some (obj ps)) = None"
  by (simp add: obj_def)

interpretation delta: sanitizer sanitize_acp_delta
proof
  fix v x
  assume x: "sanitize_acp_delta v = Inr x"
  have "sanitize_acp_delta (Some x) = Inr x \<and> acp_clean x"
  proof (cases "as_str v")
    case (Some s)
    then show ?thesis
      using x by (auto simp: sanitize_acp_delta_def ebind_eq_Inr strict_text_Inr acp_clean_def)
  next
    case None
    then obtain u where u: "plain v = Inr u" "no_forbidden_keys u"
      "(if nullish (field u ''sessionUpdate'') then
          ebind (allowed_fields [''text''] u) (\<lambda>_.
          ebind (strict_text MAX_TURN_TEXT True (field u ''text'')) (\<lambda>t.
          Inr (obj [(''text'', str_value t)])))
        else case as_str (field u ''sessionUpdate'') of
               None \<Rightarrow> Inl Pj_invalid_projection
             | Some kind \<Rightarrow> acp_update_of_kind kind u) = Inr x"
      using x by (auto simp: sanitize_acp_delta_def ebind_eq_Inr require_eq_Inr)
    show ?thesis
    proof (cases "nullish (field u ''sessionUpdate'')")
      case True
      then obtain t where t: "x = obj [(''text'', str_value t)]" "strict_ok MAX_TURN_TEXT True t"
        using u(3) by (auto simp: ebind_eq_Inr strict_text_Inr)
      have "acp_clean x" by (simp add: t(1) clean_simps)
      then show ?thesis
        using t acp_clean_part [of x] by (simp add: sanitize_acp_delta_def)
    next
      case False
      then obtain kind where k: "field u ''sessionUpdate'' = str_value kind" "acp_update_of_kind kind u = Inr x"
        using u(3) by (auto simp: str_value_def split: option.splits)
      from acp_update_of_kind_ok [OF k(2,1)] have c: "acp_update_of_kind kind x = Inr x" "acp_clean x"
        "field x ''sessionUpdate'' = str_value kind" by simp_all
      have "plain (Some x) = Inr x" using plain_field [of x "''sessionUpdate''"] c(3)
        by (cases x) (auto simp: field_def str_value_def plain_def)
      moreover from this have "as_str (Some x) = None" by (cases x) (auto simp: plain_def)
      moreover have "as_str (str_value kind) = Some kind" by (simp add: str_value_def)
      ultimately show ?thesis
        using c acp_clean_part [of x] by (simp add: sanitize_acp_delta_def)
    qed
  qed
  then show "sanitize_acp_delta (Some x) = Inr x" "acp_clean x" by simp_all
qed

lemma kept_items_set: "x \<in> set (kept_items ks) \<Longrightarrow> \<exists>k \<in> set ks. kp_item k = Some x"
  by (auto simp: kept_items_def split: option.splits)

lemma permission_diff_clean: "permission_diff_of raw = Inr k \<Longrightarrow> pred_option acp_clean (kp_item k)"
proof -
  have "acp_clean (diff_json d)" if "path_ok (pd_relativePath d)" for d
    using that by (simp add: diff_json_def clean_simps path_ok_def path_value_def)
  moreover assume "permission_diff_of raw = Inr k"
  ultimately show ?thesis
    by (auto simp: permission_diff_of_def dropped_def result_simps Let_def split: if_splits sum.splits
        dest: safe_relative_path_Inr)
qed

lemma permission_option_clean: "permission_option_of raw = Inr k \<Longrightarrow> pred_option acp_clean (kp_item k)"
proof -
  have "acp_clean (option_json v)" for v by (simp add: option_json_def clean_simps)
  moreover assume "permission_option_of raw = Inr k"
  ultimately show ?thesis
    by (auto simp: permission_option_of_def dropped_def result_simps split: if_splits option.splits)
qed

lemma kept_items_clean:
  "list_all (\<lambda>k. pred_option acp_clean (kp_item k)) ks \<Longrightarrow> x \<in> set (kept_items ks) \<Longrightarrow>
   no_forbidden_keys x \<and> paths_relative x"
  using kept_items_set [of x ks] acp_clean_part [of x] by (force simp: list_all_iff)

lemma sanitize_acp_permission_clean:
  "sanitize_acp_permission now p s req raw = Inr x \<Longrightarrow>
   acp_clean x \<and> field x ''type'' = lit_value ''agent.permission.requested''"
  unfolding sanitize_acp_permission_def Let_def
  by (elim ebind_InrE require_InrE)
    (clarsimp, simp add: clean_simps kept_items_clean [OF emap_all [OF _ permission_diff_clean]]
      kept_items_clean [OF emap_all [OF _ permission_option_clean]])

section \<open>Properties\<close>

definition base_fields :: "jstr \<Rightarrow> jstr \<Rightarrow> jstr option \<Rightarrow> jstr option \<Rightarrow> (string \<times> json option) list" where
  "base_fields ty p target session =
     [(''type'', str_value ty), (''projectId'', str_value p),
      (''targetId'', map_option JStr target), (''sessionId'', map_option JStr session)]"

text \<open>The fields of an event that is not a permission request, sanitized again.\<close>

lemma acp_event_fields_ok:
  assumes "acp_event_fields ty e = Inr rest"
  shows "acp_event_fields ty (obj (base_fields ty p target session @ rest)) = Inr rest \<and>
    acp_clean (obj (base_fields ty p target session @ rest)) \<and>
    field (obj (base_fields ty p target session @ rest)) ''type'' = str_value ty \<and>
    field (obj (base_fields ty p target session @ rest)) ''projectId'' = str_value p \<and>
    field (obj (base_fields ty p target session @ rest)) ''targetId'' = map_option JStr target \<and>
    field (obj (base_fields ty p target session @ rest)) ''sessionId'' = map_option JStr session"
proof -
  consider "acp_delta_fields e = Inr rest" "ty = js ''agent.turn.delta''"
    | "acp_completed_fields e = Inr rest" "ty = js ''agent.turn.completed''"
    | "acp_resolved_fields e = Inr rest" "ty \<noteq> js ''agent.turn.delta''" "ty \<noteq> js ''agent.turn.completed''"
    using assms by (auto simp: acp_event_fields_def split: if_splits)
  then show ?thesis
  proof cases
    case 1
    then show ?thesis
      unfolding acp_delta_fields_def
      by - (elim ebind_InrE require_InrE, frule delta.idem, drule delta.clean,
        clarsimp simp: strict_Inr acp_event_fields_def acp_delta_fields_def base_fields_def BASE_KEYS_def,
        simp add: clean_simps acp_clean_part)
  next
    case 2
    then show ?thesis
      unfolding acp_completed_fields_def
      by - (elim ebind_InrE require_InrE,
        clarsimp simp: strict_Inr acp_event_fields_def acp_completed_fields_def base_fields_def BASE_KEYS_def,
        simp add: clean_simps)
  next
    case 3
    then show ?thesis
      unfolding acp_resolved_fields_def
      by - (elim ebind_InrE require_InrE,
        clarsimp simp: strict_Inr acp_event_fields_def acp_resolved_fields_def base_fields_def BASE_KEYS_def,
        simp add: clean_simps)
  qed
qed

text \<open>
  C30. An agent event that is not a permission request is sanitized once and for all: sanitizing the
  result again, at any time, gives the same event. The exhaustive checks of every update kind are
  therefore closed under what they build.
\<close>

theorem acp_event_idempotent:
  assumes "sanitize_acp_session_event now requested raw = Inr e"
    and "field e ''type'' \<noteq> lit_value ''agent.permission.requested''"
  shows "sanitize_acp_session_event now' requested' (Some e) = Inr e"
proof -
  obtain u ty where u: "plain raw = Inr u" "required_member ACP_EVENT_TYPES (field u ''type'') = Inr ty"
    and e: "(if ty = js ''agent.permission.requested'' then
       ebind (sanitize_acp_permission now (field u ''projectId'') None requested raw) bounded_event
     else
       ebind (safe_id 240 (field u ''projectId'')) (\<lambda>p.
       ebind (unless_null (field u ''targetId'') (safe_id 240)) (\<lambda>target.
       ebind (unless_null (field u ''sessionId'') (safe_id 240)) (\<lambda>session.
       require (target \<noteq> None \<or> session \<noteq> None) Pj_invalid_projection (
       ebind (acp_event_fields ty u) (\<lambda>rest.
       bounded_event (obj (base_fields ty p target session @ rest)))))))) = Inr e"
    using assms(1) unfolding sanitize_acp_session_event_def base_fields_def
    by (elim ebind_InrE require_InrE) blast
  have ty: "ty \<noteq> js ''agent.permission.requested''"
  proof
    assume "ty = js ''agent.permission.requested''"
    then obtain x where "sanitize_acp_permission now (field u ''projectId'') None requested raw = Inr x"
      "bounded_event x = Inr e" using e by (auto simp: ebind_eq_Inr)
    then show False
      using assms(2) sanitize_acp_permission_clean by (force simp: bounded_event_def require_eq_Inr)
  qed
  with e obtain p target session rest where
    r: "safe_id 240 (field u ''projectId'') = Inr p"
      "unless_null (field u ''targetId'') (safe_id 240) = Inr target"
      "unless_null (field u ''sessionId'') (safe_id 240) = Inr session"
      "target \<noteq> None \<or> session \<noteq> None"
    and rest: "acp_event_fields ty u = Inr rest"
    and b: "bounded_event (obj (base_fields ty p target session @ rest)) = Inr e"
    by simp (elim ebind_InrE require_InrE, blast)
  have p: "identifier_ok 240 p" "pred_option (identifier_ok 240) target"
    "pred_option (identifier_ok 240) session"
    using r(1,2,3) by (auto simp: safe_id_Inr optional_id_ok)
  have eq: "e = obj (base_fields ty p target session @ rest)"
    using b by (simp add: bounded_event_def require_eq_Inr)
  have ok: "acp_event_fields ty e = Inr rest" "acp_clean e" "field e ''type'' = str_value ty"
    "field e ''projectId'' = str_value p" "field e ''targetId'' = map_option JStr target"
    "field e ''sessionId'' = map_option JStr session" "plain (Some e) = Inr e"
    using acp_event_fields_ok [OF rest, of p target session] by (simp_all add: eq)
  have "sanitize_acp_session_event now' requested' (Some e) =
      bounded_event (obj (base_fields ty p target session @ rest))"
    using u(2) ty p r(4) ok acp_clean_part [of e]
    by (simp add: sanitize_acp_session_event_def required_member_Inr base_fields_def require_def)
  then show ?thesis using b by simp
qed

text \<open>
  C31. Nothing forbidden is in an agent event that leaves the desktop: at every depth no property has
  a forbidden name and every path is relative to the workspace, and the event fits its limit.
\<close>

theorem acp_event_safe:
  assumes "sanitize_acp_session_event now requested raw = Inr e"
  shows "no_forbidden_keys e \<and> paths_relative e \<and> json_bytes e \<le> MAX_ACP_EVENT_BYTES"
proof -
  have bounded: "bounded_event x = Inr e \<Longrightarrow> x = e \<and> json_bytes e \<le> MAX_ACP_EVENT_BYTES" for x
    by (auto simp: bounded_event_def require_eq_Inr)
  have "\<exists>x. bounded_event x = Inr e \<and> acp_clean x"
    using assms unfolding sanitize_acp_session_event_def base_fields_def [symmetric]
    by (elim ebind_InrE require_InrE)
      (auto split: if_split_asm elim!: ebind_InrE require_InrE
        dest: sanitize_acp_permission_clean acp_event_fields_ok)
  then show ?thesis using bounded by (auto simp: acp_clean_def)
qed

section \<open>Completeness of permission requests\<close>

lemma mark_Complete [simp]: "mark s c = Complete \<longleftrightarrow> s = Complete \<and> c = Complete"
  by (cases s; cases c) (simp_all add: mark_def)

lemma mark_max: "mark s c = max s c"
  by (cases s; cases c) (simp_all add: mark_def max_def less_eq_completeness_def)

lemma completeness_of_Complete: "completeness_of v = Complete \<longleftrightarrow> v = lit_value ''complete''"
  by (auto simp: completeness_of_def split: option.splits if_splits)

lemma length_js_trim: "length (js_trim s) \<le> length s"
  using length_dropWhile_le [of is_space_unit s] length_dropWhile_le [of is_space_unit "rev (dropWhile is_space_unit s)"]
  by (simp add: js_trim_def del: length_dropWhile_le)

lemma length_clean_text: "length (clean_text s) \<le> length s"
  unfolding clean_text_def by (rule order_trans [OF length_js_trim length_filter_le])

text \<open>
  A diff or an option that is passed on whole, up to the cleaning of its texts.
\<close>

definition whole_diff :: "json \<Rightarrow> json \<Rightarrow> bool" where
  "whole_diff raw d =
     (\<exists>path old new. field raw ''oldText'' = Some (JStr old) \<and> field raw ''newText'' = Some (JStr new) \<and>
        \<not> unsafe_path path \<and>
        d = diff_json \<lparr>pd_relativePath = path, pd_oldText = clean_text old, pd_newText = clean_text new\<rparr>)"

definition whole_option :: "json \<Rightarrow> json \<Rightarrow> bool" where
  "whole_option raw v =
     (\<exists>i label. coalesce (field raw ''id'') (field raw ''optionId'') = Some (JStr i) \<and>
        v = option_json \<lparr>po_id = i, po_label = label\<rparr>)"

lemma permission_diff_whole:
  "permission_diff_of raw = Inr k \<Longrightarrow> \<not> kp_reduced k \<Longrightarrow> \<not> kp_cut k \<Longrightarrow>
   \<exists>d. kp_item k = Some d \<and> whole_diff raw d"
proof -
  assume k: "permission_diff_of raw = Inr k" "\<not> kp_reduced k" "\<not> kp_cut k"
  then obtain path old new where path: "safe_relative_path (coalesce (field raw ''relativePath'') (field raw ''path'')) = Inr path"
    and texts: "field raw ''oldText'' = Some (JStr old)" "field raw ''newText'' = Some (JStr new)"
      "length old \<le> MAX_DIFF_TEXT" "length new \<le> MAX_DIFF_TEXT"
    and item: "kp_item k = Some (diff_json \<lparr>pd_relativePath = path,
      pd_oldText = diff_text (field raw ''oldText''), pd_newText = diff_text (field raw ''newText'')\<rparr>)"
    by (fastforce simp: permission_diff_of_def dropped_def result_simps Let_def too_long_def
        split: if_splits sum.splits option.splits)
  have "take MAX_DIFF_TEXT (clean_text old) = clean_text old"
    "take MAX_DIFF_TEXT (clean_text new) = clean_text new"
    using texts length_clean_text [of old] length_clean_text [of new] by simp_all
  then show ?thesis
    using item texts safe_relative_path_Inr [OF path]
    by (auto simp: whole_diff_def diff_text_def path_ok_def)
qed

lemma permission_option_whole:
  "permission_option_of raw = Inr k \<Longrightarrow> \<not> kp_reduced k \<Longrightarrow> \<exists>v. kp_item k = Some v \<and> whole_option raw v"
  by (fastforce simp: permission_option_of_def dropped_def result_simps optional_id_def safe_id_Inr
      whole_option_def split: if_splits option.splits sum.splits)

lemma kept_items_all2:
  "list_all2 (\<lambda>raw k. f raw = Inr k) raws ks \<Longrightarrow>
   (\<And>raw k. k \<in> set ks \<Longrightarrow> f raw = Inr k \<Longrightarrow> \<exists>d. kp_item k = Some d \<and> P raw d) \<Longrightarrow>
   list_all2 P raws (kept_items ks)"
proof (induction raws ks rule: list_all2_induct)
  case (Cons raw raws k ks)
  obtain d where "kp_item k = Some d" "P raw d" using Cons.prems [of k raw] Cons.hyps by auto
  moreover have "list_all2 P raws (kept_items ks)" using Cons by auto
  ultimately show ?case by (simp add: kept_items_def)
qed (simp add: kept_items_def)

text \<open>
  A permission request that is sent as complete was complete: the desktop's own event said so,
  every diff and every option of it is passed on, none dropped and none cut, and each diff carries
  both of its texts.
\<close>

theorem permission_complete_whole:
  assumes "sanitize_acp_permission now project session requested (Some e) = Inr x"
    and "field x ''completeness'' = lit_value ''complete''"
  shows "field e ''completeness'' = lit_value ''complete'' \<and>
    (\<exists>ds os ds' os'. field e ''diffs'' = Some (JArr ds) \<and> field e ''options'' = Some (JArr os) \<and>
       field x ''diffs'' = Some (JArr ds') \<and> field x ''options'' = Some (JArr os') \<and>
       list_all2 whole_diff ds ds' \<and> list_all2 whole_option os os')"
proof -
  obtain diffs options cut reduced where
    diffs: "emap permission_diff_of (take MAX_PERMISSION_DIFFS (array_or_empty (field e ''diffs''))) = Inr diffs"
    and options: "emap permission_option_of (take MAX_PERMISSION_OPTIONS (array_or_empty (field e ''options''))) = Inr options"
    and cut: "cut = (if list_ex kp_cut diffs then Truncated else Complete)"
    and reduced: "reduced = (if list_ex kp_reduced (diffs @ options) then Redacted else Complete)"
    and x: "field x ''completeness'' = lit_value (completeness_text
      (mark reduced (mark (array_mark MAX_PERMISSION_OPTIONS (field e ''options''))
        (mark cut (mark (array_mark MAX_PERMISSION_DIFFS (field e ''diffs''))
           (completeness_of (field e ''completeness'')))))))"
    "field x ''diffs'' = Some (JArr (kept_items diffs))" "field x ''options'' = Some (JArr (kept_items options))"
    using assms(1) unfolding sanitize_acp_permission_def Let_def
    by (elim ebind_InrE require_InrE) (clarsimp simp: plain_Inr)
  have "completeness_text c = ''complete'' \<longleftrightarrow> c = Complete" for c by (cases c) simp_all
  then have all: "reduced = Complete" "cut = Complete" "completeness_of (field e ''completeness'') = Complete"
    "array_mark MAX_PERMISSION_OPTIONS (field e ''options'') = Complete"
    "array_mark MAX_PERMISSION_DIFFS (field e ''diffs'') = Complete"
    using assms(2) x(1) by simp_all
  obtain ds os where arrays: "field e ''diffs'' = Some (JArr ds)" "length ds \<le> MAX_PERMISSION_DIFFS"
    "field e ''options'' = Some (JArr os)" "length os \<le> MAX_PERMISSION_OPTIONS"
    using all(4,5) by (auto simp: array_mark_def split: option.splits if_splits)
  have "list_all2 whole_diff ds (kept_items diffs)"
    using diffs arrays all(1,2) cut reduced
    by (intro kept_items_all2 [of permission_diff_of] permission_diff_whole)
      (auto simp: array_or_empty_def emap_eq_Inr list_ex_iff split: if_splits)
  moreover have "list_all2 whole_option os (kept_items options)"
    using options arrays all(1) reduced
    by (intro kept_items_all2 [of permission_option_of] permission_option_whole)
      (auto simp: array_or_empty_def emap_eq_Inr list_ex_iff split: if_splits)
  ultimately show ?thesis
    using all(3) arrays x by (auto simp: completeness_of_Complete)
qed

definition example_permission :: json where
  "example_permission = obj
     [(''type'', lit_value ''agent.permission.requested''), (''permId'', lit_value ''q''),
      (''completeness'', lit_value ''complete''), (''projectId'', lit_value ''p''),
      (''requestedAt'', int_value 5), (''options'', Some (JArr [])),
      (''diffs'', Some (JArr [obj [(''path'', lit_value ''f''), (''oldText'', lit_value ''a''),
                                   (''newText'', lit_value '' a'')]]))]"

definition example_clean_permission :: json where
  "example_clean_permission = obj
     [(''type'', lit_value ''agent.permission.requested''), (''permId'', lit_value ''q''),
      (''projectId'', lit_value ''p''), (''agent'', lit_value ''Agent''), (''title'', lit_value ''Agent action''),
      (''requestedAt'', int_value 5), (''completeness'', lit_value ''complete''),
      (''options'', Some (JArr [])),
      (''diffs'', Some (JArr [obj [(''relativePath'', lit_value ''f''), (''oldText'', lit_value ''a''),
                                   (''newText'', lit_value ''a'')]]))]"

lemma example_diff: "permission_diff_of (obj [(''path'', lit_value ''f''), (''oldText'', lit_value ''a''),
      (''newText'', lit_value '' a'')]) =
    Inr \<lparr>kp_item = Some (obj [(''relativePath'', lit_value ''f''), (''oldText'', lit_value ''a''),
                             (''newText'', lit_value ''a'')]),
         kp_reduced = False, kp_cut = False\<rparr>"
proof -
  have texts: "clean_text (js ''a'') = js ''a''" "clean_text (js '' a'') = js ''a''" "clean_text (js ''f'') = js ''f''"
    by (simp_all add: clean_text_def js_def is_control_unit_def js_trim_def is_space_unit_def)
  have "\<not> unsafe_path (js ''f'')" "forward_slashes (js ''f'') = js ''f''"
    by (simp_all add: unsafe_path_def posix_absolute_def win32_absolute_def has_scheme_def has_home_def
        js_def is_slash_def forward_slashes_def)
  then have "safe_relative_path (lit_value ''f'') = Inr (js ''f'')"
    by (simp add: safe_relative_path_def required_string_def lit_value_def texts require_def MAX_PATH_def)
  then show ?thesis
    by (simp add: permission_diff_of_def coalesce_def diff_text_def too_long_def
        diff_json_def Let_def)
      (simp add: lit_value_def str_value_def texts MAX_DIFF_TEXT_def)
qed

lemma example_permission_sanitized:
  "sanitize_acp_permission 0 (lit_value ''p'') None None (Some example_permission) = Inr example_clean_permission"
proof -
  have keys: "no_forbidden_keys example_permission"
    by (simp add: example_permission_def no_forbidden_obj acp_keys lit_value_def int_value_def)
  have ids: "safe_id 240 (lit_value ''p'') = Inr (js ''p'')" "safe_id 240 (lit_value ''q'') = Inr (js ''q'')"
    "optional_id 240 None = None"
    by (simp_all add: safe_id_def optional_id_def validate_identifier_def identifier_ok_def lit_value_def
        js_def is_alnum_unit_def is_digit_unit_def require_def)
  have none: "display_text m d None = d" "nonneg_int None = None" "nonneg_int (int_value 5) = Some 5" for m d
    by (simp_all add: display_text_def nonneg_int_def int_value_def is_safe_def max_safe_integer_def)
  show ?thesis
    unfolding sanitize_acp_permission_def
    by (simp add: plain_is_obj keys example_permission_def [THEN arg_cong, of is_obj])
      (simp add: example_permission_def example_clean_permission_def PERMISSION_FIELDS_def allowed_fields_def
        ids none example_diff array_or_empty_def array_mark_def projection_limits kept_items_def
        completeness_of_def mark_def coalesce_def require_def str_value_def [symmetric],
       simp add: obj_def lit_value_def str_value_def int_value_def)
qed

theorem permission_complete_whole_witness:
  "\<exists>x. sanitize_acp_permission 0 (lit_value ''p'') None None (Some example_permission) = Inr x \<and>
     field example_permission ''completeness'' = lit_value ''complete''"
  using permission_complete_whole [OF example_permission_sanitized] example_permission_sanitized
  by (auto simp: example_clean_permission_def)

text \<open>
  Complete does not mean unchanged. The texts of a diff are trimmed and nothing records it: the
  example request changes \<open>a\<close> into \<open> a\<close> with a leading space, is sent as complete, and shows a
  diff whose two sides are the same.
\<close>

theorem permission_complete_trims:
  "\<exists>e x d d'. sanitize_acp_permission 0 (lit_value ''p'') None None (Some e) = Inr x \<and>
     field x ''completeness'' = lit_value ''complete'' \<and>
     field e ''diffs'' = Some (JArr [d]) \<and> field d ''oldText'' \<noteq> field d ''newText'' \<and>
     field x ''diffs'' = Some (JArr [d']) \<and> field d' ''oldText'' = field d' ''newText''"
proof -
  let ?d = "obj [(''path'', lit_value ''f''), (''oldText'', lit_value ''a''), (''newText'', lit_value '' a'')]"
  let ?d' = "obj [(''relativePath'', lit_value ''f''), (''oldText'', lit_value ''a''), (''newText'', lit_value ''a'')]"
  have "field example_clean_permission ''completeness'' = lit_value ''complete''"
    "field example_permission ''diffs'' = Some (JArr [?d])" "field ?d ''oldText'' \<noteq> field ?d ''newText''"
    "field example_clean_permission ''diffs'' = Some (JArr [?d'])" "field ?d' ''oldText'' = field ?d' ''newText''"
    by (simp_all add: example_permission_def example_clean_permission_def)
  with example_permission_sanitized show ?thesis by blast
qed

section \<open>An example\<close>

definition example_event :: json where
  "example_event = obj
     [(''type'', lit_value ''agent.permission.resolved''), (''projectId'', lit_value ''p''),
      (''sessionId'', lit_value ''s''), (''permId'', lit_value ''q'')]"

lemma example_event_sanitized: "sanitize_acp_session_event 0 None (Some example_event) = Inr example_event"
proof -
  have keys: "no_forbidden_keys example_event"
    by (simp add: example_event_def no_forbidden_obj acp_keys lit_value_def)
  have size: "json_bytes example_event \<le> MAX_ACP_EVENT_BYTES"
    by (rule order_trans [OF json_bytes_le])
      (simp add: example_event_def lit_value_def obj_def MAX_ACP_EVENT_BYTES_def)
  have ids: "safe_id 240 (lit_value ''p'') = Inr (js ''p'')" "safe_id 240 (lit_value ''q'') = Inr (js ''q'')"
    "safe_id 240 (lit_value ''s'') = Inr (js ''s'')"
    by (simp_all add: safe_id_def validate_identifier_def identifier_ok_def lit_value_def
        js_def is_alnum_unit_def is_digit_unit_def require_def)
  have member: "required_member ACP_EVENT_TYPES (lit_value ''agent.permission.resolved'') =
      Inr (js ''agent.permission.resolved'')"
    by (simp add: required_member_Inr lit_value_def one_of_def ACP_EVENT_TYPES_def)
  have fields: "field example_event ''type'' = lit_value ''agent.permission.resolved''"
    "field example_event ''projectId'' = lit_value ''p''" "field example_event ''targetId'' = None"
    "field example_event ''sessionId'' = lit_value ''s''"
    "acp_event_fields (js ''agent.permission.resolved'') example_event =
      Inr [(''permId'', lit_value ''q''), (''revision'', None), (''resolution'', None), (''actorId'', None)]"
    by (simp_all add: example_event_def acp_event_fields_def acp_resolved_fields_def BASE_KEYS_def ids)
  have eq: "obj [(''type'', str_value (js ''agent.permission.resolved'')), (''projectId'', str_value (js ''p'')),
      (''targetId'', None), (''sessionId'', Some (JStr (js ''s''))), (''permId'', lit_value ''q''),
      (''revision'', None), (''resolution'', None), (''actorId'', None)] = example_event"
    by (simp add: example_event_def obj_def lit_value_def str_value_def)
  have plain: "plain (Some example_event) = Inr example_event" by (simp add: example_event_def)
  show ?thesis
    using size by (simp add: sanitize_acp_session_event_def plain keys member fields ids unless_null_def eq
        bounded_event_def)
qed

theorem acp_event_idempotent_witness:
  "sanitize_acp_session_event 0 None (Some example_event) = Inr example_event \<and>
   sanitize_acp_session_event 7 (Some (JInt 3)) (Some example_event) = Inr example_event"
proof -
  have "field example_event ''type'' \<noteq> lit_value ''agent.permission.requested''"
    by (simp add: example_event_def)
  from acp_event_idempotent [OF example_event_sanitized this] example_event_sanitized show ?thesis by blast
qed

theorem acp_event_safe_witness:
  "sanitize_acp_session_event 0 None (Some example_event) = Inr example_event \<and> paths_relative example_event"
  using acp_event_safe [OF example_event_sanitized] example_event_sanitized by blast

end
