(* ===== verification/Projection_Store.thy ===== *)
theory Projection_Store
  imports Redaction
begin

text \<open>
  The store of the projections the renderer windows publish, \<open>electron/companion/projectionStore.cjs\<close>,
  and the handler that publishes into it, \<open>projectionHandler.cjs\<close>. The storage behind the store (\<open>get\<close>,
  \<open>set\<close>, \<open>del\<close>, \<open>keys\<close>) is a map from keys to texts. \<open>parse\<close> stands for \<open>JSON.parse\<close> (\<open>None\<close> where it
  throws), \<open>collate\<close> for \<open>localeCompare\<close>.
\<close>

section \<open>Records\<close>

datatype projection_store_error =
    Ps_invalid_id | Ps_invalid_publisher | Ps_record_too_large | Ps_projection projection_error

definition STORE_VERSION :: int where "STORE_VERSION = 2"

definition STORE_PREFIX :: string where "STORE_PREFIX = ''kaisola-companion-projection:''"

definition MAX_RECORD_BYTES :: nat where "MAX_RECORD_BYTES = 640 * 1024"

record stored_projection =
  sp_windowId :: jstr
  sp_epoch :: jstr
  sp_generation :: int
  sp_active :: bool
  sp_savedAt :: int
  sp_projection :: projection

record projection_store =
  ps_epoch :: jstr
  ps_data :: "(jstr, jstr) jmap"

definition store_id :: "json option \<Rightarrow> projection_store_error + jstr" where
  "store_id v =
     (case validate_identifier 160 v of
        Inl _ \<Rightarrow> Inl Ps_invalid_id
      | Inr s \<Rightarrow> Inr s)"

definition safe_generation :: "json option \<Rightarrow> projection_store_error + int" where
  "safe_generation v =
     (case as_int v of
        None \<Rightarrow> Inl Ps_invalid_publisher
      | Some n \<Rightarrow> require (1 \<le> n) Ps_invalid_publisher (Inr n))"

definition nonneg :: "json option \<Rightarrow> int option" where
  "nonneg v = (case as_int v of None \<Rightarrow> None | Some n \<Rightarrow> if 0 \<le> n then Some n else None)"

definition new_projection_store :: "json option \<Rightarrow> projection_store_error + projection_store" where
  "new_projection_store epoch = ebind (store_id epoch) (\<lambda>e. Inr \<lparr>ps_epoch = e, ps_data = []\<rparr>)"

definition store_key :: "jstr \<Rightarrow> jstr" where
  "store_key window = js STORE_PREFIX @ window"

definition record_json :: "stored_projection \<Rightarrow> json" where
  "record_json r = obj
     [(''storeVersion'', int_value STORE_VERSION), (''windowId'', str_value (sp_windowId r)),
      (''epoch'', str_value (sp_epoch r)), (''publisherGeneration'', int_value (sp_generation r)),
      (''active'', bool_value (sp_active r)), (''savedAt'', int_value (sp_savedAt r)),
      (''projection'', Some (projection_json (sp_projection r)))]"

text \<open>\<open>#readRecord\<close>; whatever is wrong with a stored text, the record is absent.\<close>

definition record_of :: "(jstr \<Rightarrow> jstr \<Rightarrow> int) \<Rightarrow> json \<Rightarrow> stored_projection option" where
  "record_of collate v =
     (if field v ''storeVersion'' \<noteq> int_value STORE_VERSION then None
      else (case (store_id (field v ''windowId''), store_id (field v ''epoch''),
                 safe_generation (field v ''publisherGeneration''), nonneg (field v ''savedAt''),
                 sanitize_projection collate (field v ''projection'')) of
             (Inr w, Inr e, Inr g, Some at, Inr p) \<Rightarrow>
               Some \<lparr>sp_windowId = w, sp_epoch = e, sp_generation = g,
                     sp_active = safe_bool (field v ''active''), sp_savedAt = at, sp_projection = p\<rparr>
           | _ \<Rightarrow> None))"

definition read_record ::
  "(jstr \<Rightarrow> json option) \<Rightarrow> (jstr \<Rightarrow> jstr \<Rightarrow> int) \<Rightarrow> jstr \<Rightarrow> (jstr, jstr) jmap \<Rightarrow> stored_projection option" where
  "read_record parse collate key data =
     (case jget data key of
        None \<Rightarrow> None
      | Some raw \<Rightarrow>
          if length (utf8_encode raw) > MAX_RECORD_BYTES then None
          else (case parse raw of
                  None \<Rightarrow> None
                | Some v \<Rightarrow> record_of collate v))"

section \<open>Publishing\<close>

text \<open>
  \<^verbatim>\<open>projection?.revision <= r\<close> and \<^verbatim>\<open><\<close> coerce their left side to a number, which is not a number when the
  property is absent. \<open>to_number\<close> gives the floor and the ceiling of what a fractional number, a text,
  an array or an object is coerced to, and \<open>None\<close> for not a number.
\<close>

definition numeric :: "(json \<Rightarrow> (int \<times> int) option) \<Rightarrow> json option \<Rightarrow> (int \<times> int) option" where
  "numeric to_number v =
     (case v of
        None \<Rightarrow> None
      | Some (JInt n) \<Rightarrow> Some (n, n)
      | Some JNull \<Rightarrow> Some (0, 0)
      | Some (JBool b) \<Rightarrow> Some (if b then (1, 1) else (0, 0))
      | Some x \<Rightarrow> to_number x)"

definition not_after :: "(int \<times> int) option \<Rightarrow> int \<Rightarrow> bool" where
  "not_after x r = (case x of None \<Rightarrow> False | Some (lo, hi) \<Rightarrow> hi \<le> r)"

definition before :: "(int \<times> int) option \<Rightarrow> int \<Rightarrow> bool" where
  "before x r = (case x of None \<Rightarrow> False | Some (lo, hi) \<Rightarrow> lo < r)"

datatype publish_result =
    Stale_publisher int
  | Not_newer bool bool int
  | Published projection

text \<open>\<^verbatim>\<open>{ ...projection, generatedAt, freshness: 'live' }\<close>\<close>

definition stamped :: "int \<Rightarrow> json option \<Rightarrow> json" where
  "stamped now v =
     JObj (jset (js ''freshness'') (JStr (js ''live'')) (jset (js ''generatedAt'') (JInt now)
       (case v of None \<Rightarrow> [] | Some x \<Rightarrow> ofields x)))"

text \<open>What an existing record of the same epoch says about a new one.\<close>

definition superseded ::
  "(json \<Rightarrow> (int \<times> int) option) \<Rightarrow> int \<Rightarrow> json option \<Rightarrow> stored_projection \<Rightarrow> publish_result option" where
  "superseded to_number generation revision old =
     (let r = pr_revision (sp_projection old); x = numeric to_number revision in
      if generation < sp_generation old then Some (Stale_publisher r)
      else if generation = sp_generation old \<and> not_after x r
        then Some (Not_newer (revision = Some (JInt r)) (before x r) r)
      else None)"

text \<open>
  \<open>publish\<close>; \<open>now\<close> and \<open>saved\<close> are what the two calls of the clock return, \<open>window\<close> and \<open>generation\<close> the
  values passed in.
\<close>

definition publish ::
  "(jstr \<Rightarrow> json option) \<Rightarrow> (jstr \<Rightarrow> jstr \<Rightarrow> int) \<Rightarrow> (json \<Rightarrow> (int \<times> int) option) \<Rightarrow> int \<Rightarrow> int \<Rightarrow>
   json option \<Rightarrow> json option \<Rightarrow> json option \<Rightarrow> projection_store \<Rightarrow>
   projection_store_error + projection_store \<times> publish_result" where
  "publish parse collate to_number now saved window generation projection s =
     ebind (store_id window) (\<lambda>w.
     ebind (safe_generation generation) (\<lambda>g.
     let key = store_key w;
         existing = read_record parse collate key (ps_data s);
         answer = (case existing of
                     None \<Rightarrow> None
                   | Some old \<Rightarrow>
                       if sp_epoch old = ps_epoch s
                       then superseded to_number g (case projection of None \<Rightarrow> None | Some p \<Rightarrow> field p ''revision'') old
                       else None) in
     (case answer of
       Some r \<Rightarrow> Inr (s, r)
     | None \<Rightarrow>
         (case sanitize_projection collate (Some (stamped now projection)) of
            Inl e \<Rightarrow> Inl (Ps_projection e)
          | Inr clean \<Rightarrow>
              let r = \<lparr>sp_windowId = w, sp_epoch = ps_epoch s, sp_generation = g, sp_active = True,
                       sp_savedAt = saved, sp_projection = clean\<rparr> in
              require (json_bytes (record_json r) \<le> MAX_RECORD_BYTES) Ps_record_too_large
                (Inr (s\<lparr>ps_data := jset key (stringify (record_json r)) (ps_data s)\<rparr>, Published clean))))))"

section \<open>Reading\<close>

definition load ::
  "(jstr \<Rightarrow> json option) \<Rightarrow> (jstr \<Rightarrow> jstr \<Rightarrow> int) \<Rightarrow> json option \<Rightarrow> projection_store \<Rightarrow>
   projection_store_error + stored_projection option" where
  "load parse collate window s =
     ebind (store_id window) (\<lambda>w.
     Inr (case read_record parse collate (store_key w) (ps_data s) of
            None \<Rightarrow> None
          | Some r \<Rightarrow>
              Some (r\<lparr>sp_windowId := w,
                      sp_projection := (sp_projection r)\<lparr>pr_live := (sp_epoch r = ps_epoch s \<and> sp_active r)\<rparr>\<rparr>)))"

definition record_order :: "(jstr \<Rightarrow> jstr \<Rightarrow> int) \<Rightarrow> stored_projection \<Rightarrow> stored_projection \<Rightarrow> int" where
  "record_order collate a b =
     (if sp_savedAt b - sp_savedAt a \<noteq> 0 then sp_savedAt b - sp_savedAt a
      else collate (sp_windowId a) (sp_windowId b))"

text \<open>The window ids of the storage's keys, and what loading them gives; a window that throws is skipped.\<close>

definition stored_windows :: "(jstr, jstr) jmap \<Rightarrow> jstr list" where
  "stored_windows data =
     map (drop (length STORE_PREFIX)) (filter (\<lambda>k. take (length STORE_PREFIX) k = js STORE_PREFIX) (jkeys data))"

definition list_projections ::
  "(jstr \<Rightarrow> json option) \<Rightarrow> (jstr \<Rightarrow> jstr \<Rightarrow> int) \<Rightarrow> projection_store \<Rightarrow> stored_projection list" where
  "list_projections parse collate s =
     sort_by (record_order collate) (concat (map (\<lambda>w.
       case load parse collate (Some (JStr w)) s of Inr (Some r) \<Rightarrow> [r] | _ \<Rightarrow> [])
         (stored_windows (ps_data s))))"

definition delete_projection :: "json option \<Rightarrow> projection_store \<Rightarrow> projection_store_error + projection_store" where
  "delete_projection window s =
     ebind (store_id window) (\<lambda>w. Inr (s\<lparr>ps_data := jdel (store_key w) (ps_data s)\<rparr>))"

definition mark_stale ::
  "(jstr \<Rightarrow> json option) \<Rightarrow> (jstr \<Rightarrow> jstr \<Rightarrow> int) \<Rightarrow> int \<Rightarrow> json option \<Rightarrow> json option \<Rightarrow> projection_store \<Rightarrow>
   projection_store_error + projection_store \<times> bool" where
  "mark_stale parse collate now window generation s =
     ebind (store_id window) (\<lambda>w.
     ebind (safe_generation generation) (\<lambda>g.
     (case read_record parse collate (store_key w) (ps_data s) of
       None \<Rightarrow> Inr (s, False)
     | Some r \<Rightarrow>
         if sp_epoch r \<noteq> ps_epoch s \<or> sp_generation r \<noteq> g \<or> \<not> sp_active r then Inr (s, False)
         else
           let next = r\<lparr>sp_windowId := w, sp_active := False, sp_savedAt := now,
                        sp_projection := (sp_projection r)\<lparr>pr_live := False\<rparr>\<rparr> in
           Inr (s\<lparr>ps_data := jset (store_key w) (stringify (record_json next)) (ps_data s)\<rparr>, True))))"

section \<open>The publishing handler\<close>

text \<open>
  The window behind a \<^verbatim>\<open>companion:publish-projection\<close> message, as far as the handler reads it.
\<close>

record sender_window =
  sw_destroyed :: bool
  sw_pop :: bool
  sw_deleting :: bool
  sw_savedId :: "json option"
  sw_generation :: "json option"

datatype handler_reply =
    Cannot_publish
  | No_identity
  | Rejected_publish projection_store_error
  | Store_reply publish_result

text \<open>The reply, the new store and whether \<open>onPublished\<close> is called, and with which projection.\<close>

fun published_projection :: "publish_result \<Rightarrow> projection option" where
  "published_projection (Published p) = Some p"
| "published_projection _ = None"

definition handle_publish ::
  "(jstr \<Rightarrow> json option) \<Rightarrow> (jstr \<Rightarrow> jstr \<Rightarrow> int) \<Rightarrow> (json \<Rightarrow> (int \<times> int) option) \<Rightarrow> int \<Rightarrow> int \<Rightarrow>
   sender_window option \<Rightarrow> json option \<Rightarrow> projection_store \<Rightarrow>
   projection_store \<times> handler_reply \<times> projection option" where
  "handle_publish parse collate to_number now saved window projection s =
     (case window of
        None \<Rightarrow> (s, Cannot_publish, None)
      | Some w \<Rightarrow>
          if sw_destroyed w \<or> sw_pop w \<or> sw_deleting w then (s, Cannot_publish, None)
          else if nullish (sw_savedId w) \<or> sw_savedId w = Some (JStr []) \<or> as_int (sw_generation w) = None
            then (s, No_identity, None)
          else (case publish parse collate to_number now saved (sw_savedId w) (sw_generation w) projection s of
                  Inl e \<Rightarrow> (s, Rejected_publish e, None)
                | Inr (s', r) \<Rightarrow> (s', Store_reply r, published_projection r)))"

section \<open>Lemmas\<close>

lemma store_id_Inr: "store_id v = Inr w \<longleftrightarrow> v = Some (JStr w) \<and> identifier_ok 160 w"
  by (auto simp: store_id_def split: sum.splits)

lemma store_id_str: "store_id (Some (JStr w)) = (if identifier_ok 160 w then Inr w else Inl Ps_invalid_id)"
  using store_id_Inr [of "Some (JStr w)"] by (auto simp: store_id_def split: sum.splits)

lemma safe_generation_Inr: "safe_generation v = Inr g \<longleftrightarrow> v = Some (JInt g) \<and> is_safe g \<and> 1 \<le> g"
  by (auto simp: safe_generation_def require_eq_Inr split: option.splits)

text \<open>A record whose parts are valid is read back from its encoding.\<close>

lemma record_of_json:
  assumes "identifier_ok 160 (sp_windowId r)" "identifier_ok 160 (sp_epoch r)"
    and "is_safe (sp_generation r)" "1 \<le> sp_generation r" "is_safe (sp_savedAt r)" "0 \<le> sp_savedAt r"
    and "sanitize_projection collate (Some (projection_json (sp_projection r))) = Inr (sp_projection r)"
  shows "record_of collate (record_json r) = Some r"
  using assms
  by (simp add: record_of_def record_json_def STORE_VERSION_def store_id_str safe_generation_Inr [THEN iffD2]
      str_value_def int_value_def bool_value_def nonneg_def safe_bool_def)

lemma field_stamped:
  "k \<noteq> ''freshness'' \<Longrightarrow> k \<noteq> ''generatedAt'' \<Longrightarrow> field (stamped now (Some p)) k = field p k"
  "field (stamped now None) k = (if k = ''freshness'' then Some (JStr (js ''live''))
     else if k = ''generatedAt'' then Some (JInt now) else None)"
  "field (stamped now v) ''freshness'' = lit_value ''live''"
  "field (stamped now v) ''generatedAt'' = int_value now"
  by (auto simp: field_def stamped_def jget_def [symmetric] lit_value_def int_value_def)

lemma sanitize_projection_header:
  assumes "sanitize_projection collate (Some v) = Inr p"
  shows "field v ''revision'' = int_value (pr_revision p) \<and> field v ''generatedAt'' = int_value (pr_generatedAt p) \<and>
    pr_live p = (field v ''freshness'' = lit_value ''live'')"
  using assms unfolding sanitize_projection_def Let_def
  by (elim ebind_InrE require_InrE) (clarsimp simp: safe_time_Inr plain_Inr int_value_def)

text \<open>What a publication that is accepted does.\<close>

lemma publish_accepted:
  assumes "publish parse collate to_number now saved (Some (JStr w)) generation projection s = Inr (s', Published p)"
  obtains g where "generation = Some (JInt g)" "is_safe g" "1 \<le> g" "identifier_ok 160 w"
    "sanitize_projection collate (Some (stamped now projection)) = Inr p"
    "json_bytes (record_json \<lparr>sp_windowId = w, sp_epoch = ps_epoch s, sp_generation = g, sp_active = True,
       sp_savedAt = saved, sp_projection = p\<rparr>) \<le> MAX_RECORD_BYTES"
    "s' = s\<lparr>ps_data := jset (store_key w) (stringify (record_json \<lparr>sp_windowId = w, sp_epoch = ps_epoch s,
       sp_generation = g, sp_active = True, sp_savedAt = saved, sp_projection = p\<rparr>)) (ps_data s)\<rparr>"
    "\<And>old. read_record parse collate (store_key w) (ps_data s) = Some old \<Longrightarrow> sp_epoch old = ps_epoch s \<Longrightarrow>
       superseded to_number g (case projection of None \<Rightarrow> None | Some q \<Rightarrow> field q ''revision'') old = None"
proof -
  obtain g where g: "generation = Some (JInt g)" "is_safe g" "1 \<le> g" "identifier_ok 160 w"
    using assms by (auto simp: publish_def ebind_eq_Inr store_id_Inr safe_generation_Inr)
  have "superseded to_number h rev old \<noteq> Some (Published p)" for h rev old
    by (simp add: superseded_def Let_def)
  then show ?thesis
    using assms g
    by (intro that [of g])
      (auto simp: publish_def store_id_Inr [THEN iffD2] safe_generation_Inr [THEN iffD2] Let_def require_eq_Inr
        split: option.splits sum.splits if_splits)
qed

text \<open>The publications of the witnesses: a window \<open>w\<close> publishes the example projection.\<close>

lemma publish_intro:
  assumes "identifier_ok 160 w" "is_safe g" "1 \<le> g"
    and "sanitize_projection collate (Some (stamped now projection)) = Inr p"
    and "\<And>old. read_record parse collate (store_key w) (ps_data s) = Some old \<Longrightarrow> sp_epoch old = ps_epoch s \<Longrightarrow>
       superseded to_number g (case projection of None \<Rightarrow> None | Some q \<Rightarrow> field q ''revision'') old = None"
    and "json_bytes (record_json \<lparr>sp_windowId = w, sp_epoch = ps_epoch s, sp_generation = g, sp_active = True,
       sp_savedAt = saved, sp_projection = p\<rparr>) \<le> MAX_RECORD_BYTES"
  shows "publish parse collate to_number now saved (Some (JStr w)) (Some (JInt g)) projection s =
    Inr (s\<lparr>ps_data := jset (store_key w) (stringify (record_json \<lparr>sp_windowId = w, sp_epoch = ps_epoch s,
       sp_generation = g, sp_active = True, sp_savedAt = saved, sp_projection = p\<rparr>)) (ps_data s)\<rparr>, Published p)"
  using assms(1-4,6) assms(5)
  by (auto simp: publish_def store_id_str safe_generation_Inr [THEN iffD2] Let_def require_def split: option.splits)

lemma jset_same: "jget m k = Some v \<Longrightarrow> jset k v m = m"
  by (induction m) (auto simp: jset_def jget_def split: if_splits)

lemma field_jget: "field (JObj m) k = jget m (js k)"
  by (simp add: field_def jget_def)

lemma stamped_projection:
  assumes "pr_live p"
  shows "stamped (pr_generatedAt p) (Some (projection_json p)) = projection_json p"
proof -
  obtain m where m: "projection_json p = JObj m" by (simp add: projection_json_def obj_def)
  have "field (projection_json p) ''generatedAt'' = int_value (pr_generatedAt p)"
    "field (projection_json p) ''freshness'' = lit_value ''live''"
    using assms by (simp_all add: projection_json_def field_obj_Cons int_value_def lit_value_def)
  then show ?thesis by (simp add: stamped_def m jset_same field_jget int_value_def lit_value_def)
qed

definition example_record :: stored_projection where
  "example_record = \<lparr>sp_windowId = js ''w'', sp_epoch = js ''e'', sp_generation = 1, sp_active = True,
     sp_savedAt = 3, sp_projection = example_projection\<rparr>"

definition example_parse :: "jstr \<Rightarrow> json option" where
  "example_parse raw = (if raw = stringify (record_json example_record) then Some (record_json example_record) else None)"

definition example_store :: projection_store where
  "example_store = \<lparr>ps_epoch = js ''e'',
     ps_data = [(store_key (js ''w''), stringify (record_json example_record))]\<rparr>"

lemma example_record_size:
  "json_bytes (record_json (example_record\<lparr>sp_generation := 1\<rparr>)) \<le> MAX_RECORD_BYTES"
  "json_bytes (record_json (example_record\<lparr>sp_generation := 2\<rparr>)) \<le> MAX_RECORD_BYTES"
  by (rule order_trans [OF json_bytes_le],
    simp add: example_record_def record_json_def STORE_VERSION_def MAX_RECORD_BYTES_def
      example_projection_def example_project_def example_session_def projection_json_defs
      build_board_def sort_by_def lane_sessions_def lane_attention_def counts_for_def str_value_def
      lit_value_def int_value_def bool_value_def obj_def int_text_def digits_of.simps Let_def PROJECTION_KIND_def)+

lemma example_live: "pr_live example_projection" "pr_generatedAt example_projection = 2"
  "pr_revision example_projection = 1"
  by (simp_all add: example_projection_def)

lemma example_stamped:
  "sanitize_projection example_collate (Some (stamped 2 (Some (projection_json example_projection)))) =
   Inr example_projection"
  using stamped_projection [OF example_live(1)]
    sanitize_projection_stable [OF sanitize_projection_ok [OF example_sanitized] example_trimmed]
  by (simp add: example_live)

lemma example_ids: "identifier_ok 160 (js ''w'')" "identifier_ok 160 (js ''e'')"
  by (simp_all add: js_def identifier_ok_def is_alnum_unit_def is_digit_unit_def is_id_unit_def)

lemma example_publish:
  assumes "g = 1 \<and> ps_data s = [] \<or> g = 2 \<and> ps_data s = ps_data example_store" "ps_epoch s = js ''e''"
  shows "publish example_parse example_collate (\<lambda>v. None) 2 3 (Some (JStr (js ''w''))) (Some (JInt g))
      (Some (projection_json example_projection)) s =
    Inr (s\<lparr>ps_data := [(store_key (js ''w''), stringify (record_json (example_record\<lparr>sp_generation := g\<rparr>)))]\<rparr>,
      Published example_projection)"
proof -
  have size: "json_bytes (record_json (example_record\<lparr>sp_generation := g\<rparr>)) \<le> MAX_RECORD_BYTES"
    using example_record_size assms(1) by auto
  have old: "superseded (\<lambda>v. None) g (Some (JInt 1)) old = None"
    if "read_record example_parse example_collate (store_key (js ''w'')) (ps_data s) = Some old" for old
  proof -
    have "ps_data s = ps_data example_store" "g = 2"
      using assms(1) that by (auto simp: read_record_def)
    moreover have "sp_generation old = 1"
      using that \<open>ps_data s = ps_data example_store\<close>
      by (auto simp: read_record_def example_store_def example_parse_def jget_Cons record_of_def
          record_json_def example_record_def field_obj_Cons safe_generation_Inr int_value_def
          split: if_splits sum.splits option.splits)
    ultimately show ?thesis by (simp add: superseded_def Let_def)
  qed
  have rev: "field (projection_json example_projection) ''revision'' = Some (JInt 1)"
    by (simp add: projection_json_def int_value_def example_live)
  have "jset (store_key (js ''w'')) x (ps_data s) = [(store_key (js ''w''), x)]" for x
    using assms(1) by (auto simp: jset_def example_store_def)
  then show ?thesis
    using publish_intro [where s = s and g = g and parse = example_parse and to_number = "\<lambda>v. None" and saved = 3,
        OF example_ids(1) _ _ example_stamped, unfolded option.case rev] old size assms
    by (auto simp: is_safe_def max_safe_integer_def example_record_def)
qed

lemma example_loaded:
  "load example_parse example_collate (Some (JStr (js ''w''))) example_store = Inr (Some example_record)"
  "read_record example_parse example_collate (store_key (js ''w'')) (ps_data example_store) = Some example_record"
proof -
  have "sanitize_projection example_collate (Some (projection_json example_projection)) = Inr example_projection"
    using example_stamped stamped_projection [OF example_live(1)] by (simp add: example_live)
  then have "record_of example_collate (record_json example_record) = Some example_record"
    using example_ids by (intro record_of_json)
      (simp_all add: example_record_def is_safe_def max_safe_integer_def)
  then show r: "read_record example_parse example_collate (store_key (js ''w'')) (ps_data example_store) =
      Some example_record"
    using example_record_size(1)
    by (simp add: read_record_def example_store_def jget_Cons example_parse_def json_bytes_def example_record_def)
  show "load example_parse example_collate (Some (JStr (js ''w''))) example_store = Inr (Some example_record)"
    using r by (simp add: load_def store_id_str example_ids)
      (simp add: example_record_def example_store_def example_projection_def)
qed

section \<open>Properties\<close>

text \<open>
  C32. Publishing never goes back. A publication that replaces a record of the running session has a
  later publisher generation, or the same generation and a later revision, whatever the renderer
  sends as its revision.
\<close>

theorem publish_never_goes_back:
  assumes "publish parse collate to_number now saved (Some (JStr w)) generation projection s = Inr (s', Published p)"
    and "read_record parse collate (store_key w) (ps_data s) = Some old" "sp_epoch old = ps_epoch s"
  shows "\<exists>g. generation = Some (JInt g) \<and>
    (sp_generation old < g \<or> (sp_generation old = g \<and> pr_revision (sp_projection old) < pr_revision p))"
proof -
  obtain g where g: "generation = Some (JInt g)"
    "sanitize_projection collate (Some (stamped now projection)) = Inr p"
    "superseded to_number g (case projection of None \<Rightarrow> None | Some q \<Rightarrow> field q ''revision'') old = None"
    using publish_accepted [OF assms(1)] assms(2,3) by metis
  have "(case projection of None \<Rightarrow> None | Some q \<Rightarrow> field q ''revision'') = Some (JInt (pr_revision p))"
    using sanitize_projection_header [OF g(2)]
    by (cases projection) (simp_all add: field_stamped int_value_def)
  then show ?thesis
    using g(1,3) by (auto simp: superseded_def Let_def numeric_def not_after_def split: if_splits)
qed

theorem publish_never_goes_back_witness:
  "\<exists>s'. publish example_parse example_collate (\<lambda>v. None) 2 3 (Some (JStr (js ''w''))) (Some (JInt 2))
      (Some (projection_json example_projection)) example_store = Inr (s', Published example_projection) \<and>
    sp_generation example_record < 2"
  using publish_never_goes_back [OF example_publish [of 2 example_store] example_loaded(2)]
    example_publish [of 2 example_store]
  by (simp add: example_store_def example_record_def)

text \<open>
  C33. What is published is what is loaded. If the text that was written parses back to what it encodes,
  and no text of the projection was cut after a space, then loading the window gives the published
  projection, live.
\<close>

theorem published_is_loaded:
  assumes "publish parse collate to_number now saved (Some (JStr w)) (Some (JInt g)) projection s =
      Inr (s', Published p)"
    and "r = \<lparr>sp_windowId = w, sp_epoch = ps_epoch s, sp_generation = g, sp_active = True,
      sp_savedAt = saved, sp_projection = p\<rparr>"
    and "parse (stringify (record_json r)) = Some (record_json r)"
    and "list_all trimmed (projection_texts p)" "0 \<le> saved" "is_safe saved" "identifier_ok 160 (ps_epoch s)"
  shows "load parse collate (Some (JStr w)) s' = Inr (Some r)"
proof -
  have g: "is_safe g" "1 \<le> g" "identifier_ok 160 w"
    and clean: "sanitize_projection collate (Some (stamped now projection)) = Inr p"
    and size: "json_bytes (record_json r) \<le> MAX_RECORD_BYTES"
    and s': "s' = s\<lparr>ps_data := jset (store_key w) (stringify (record_json r)) (ps_data s)\<rparr>"
    using publish_accepted [OF assms(1)] assms(2) by blast+
  have live: "pr_live p" using sanitize_projection_header [OF clean] by (simp add: field_stamped)
  have again: "sanitize_projection collate (Some (projection_json p)) = Inr p"
    by (rule sanitize_projection_stable [OF sanitize_projection_ok [OF clean] assms(4)])
  have "record_of collate (record_json r) = Some r"
    using g assms(2,5,6,7) again by (intro record_of_json) simp_all
  then have "read_record parse collate (store_key w) (ps_data s') = Some r"
    using size assms(3) by (simp add: read_record_def s' json_bytes_def)
  then show ?thesis
    using g(3) live assms(2) by (simp add: load_def store_id_Inr [THEN iffD2] s')
qed

theorem published_is_loaded_witness:
  "load example_parse example_collate (Some (JStr (js ''w''))) example_store = Inr (Some example_record)"
proof -
  have "publish example_parse example_collate (\<lambda>v. None) 2 3 (Some (JStr (js ''w''))) (Some (JInt 1))
      (Some (projection_json example_projection)) \<lparr>ps_epoch = js ''e'', ps_data = []\<rparr> =
      Inr (example_store, Published example_projection)"
    using example_publish [of 1 "\<lparr>ps_epoch = js ''e'', ps_data = []\<rparr>"]
    by (simp add: example_store_def example_record_def)
  then show ?thesis
    by (rule published_is_loaded [where r = example_record, OF _ _ _ example_trimmed])
      (simp_all add: example_record_def example_parse_def is_safe_def max_safe_integer_def example_ids)
qed

text \<open>
  One corrupt window cannot hide the others: when a window's text no longer parses, listing the
  store gives exactly the records of the other windows.
\<close>

theorem corrupt_window_isolated:
  assumes "parse raw = None"
  shows "set (list_projections parse collate (s\<lparr>ps_data := jset (store_key w) raw (ps_data s)\<rparr>)) =
    {r \<in> set (list_projections parse collate s). sp_windowId r \<noteq> w}"
proof -
  let ?s = "s\<lparr>ps_data := jset (store_key w) raw (ps_data s)\<rparr>"
  have key: "store_key v = store_key w \<longleftrightarrow> v = w" for v by (simp add: store_key_def)
  have window: "load parse collate (Some (JStr v)) t = Inr (Some r) \<Longrightarrow> sp_windowId r = v" for v t r
    by (auto simp: load_def ebind_eq_Inr store_id_Inr split: option.splits)
  have other: "v \<noteq> w \<Longrightarrow> load parse collate (Some (JStr v)) ?s = load parse collate (Some (JStr v)) s" for v
    by (simp add: load_def read_record_def key store_id_str cong: option.case_cong)
  have corrupt: "load parse collate (Some (JStr w)) ?s \<noteq> Inr (Some r)" for r
    using assms by (simp add: load_def read_record_def store_id_str)
  have present: "load parse collate (Some (JStr v)) t = Inr (Some r) \<Longrightarrow> v \<in> set (stored_windows (ps_data t))" for v t r
  proof -
    assume "load parse collate (Some (JStr v)) t = Inr (Some r)"
    then have "store_key v \<in> set (jkeys (ps_data t))"
      by (auto simp: load_def ebind_eq_Inr store_id_Inr read_record_def jkeys_set jget_None split: option.splits)
        (metis jget_None option.distinct(1))
    then show ?thesis
      unfolding stored_windows_def store_key_def by (force simp: image_iff)
  qed
  have "r \<in> set (list_projections parse collate t) \<longleftrightarrow>
      (\<exists>v. load parse collate (Some (JStr v)) t = Inr (Some r))" for r t
  proof -
    have "r \<in> set (list_projections parse collate t) \<longleftrightarrow>
        (\<exists>v \<in> set (stored_windows (ps_data t)). load parse collate (Some (JStr v)) t = Inr (Some r))"
      by (force simp: list_projections_def split: sum.splits option.splits)
    then show ?thesis using present by blast
  qed
  then show ?thesis using window other corrupt by (auto, metis+)
qed

theorem corrupt_window_isolated_witness:
  "example_parse [] = None \<and>
   list_projections example_parse example_collate (example_store\<lparr>ps_data := jset (store_key (js ''w'')) [] (ps_data example_store)\<rparr>) = []"
proof -
  have none: "example_parse [] = None"
    by (simp add: example_parse_def record_json_def obj_def STORE_VERSION_def int_value_def)
  have "list_projections example_parse example_collate example_store = [example_record]"
    using example_loaded(1) by (simp add: list_projections_def stored_windows_def example_store_def jkeys_def
        store_key_def sort_by_def)
  then have "set (list_projections example_parse example_collate
      (example_store\<lparr>ps_data := jset (store_key (js ''w'')) [] (ps_data example_store)\<rparr>)) = {}"
    using corrupt_window_isolated [where parse = example_parse and collate = example_collate and
        s = example_store and w = "js ''w''", OF none]
    by (simp add: example_record_def)
  then show ?thesis using none by simp
qed

end
