(* ===== verification/Attention_Records.thy ===== *)
theory Attention_Records
  imports Projection_Store
begin

text \<open>
  The data of the attention service, \<open>electron/ipc/attentionService.cjs\<close>: the records of events that ask
  for the user, the sessions, the surfaces (windows) that show them, and what is read and written of
  each. Texts that come from outside are cleaned the way the code cleans them; an identifier that is
  not valid throws. \<open>now\<close> is what the clock returns during the call, \<open>digest\<close> stands for the
  hexadecimal SHA-256 of a text.
\<close>

section \<open>Reading values\<close>

datatype attention_error = At_identifier | At_kind | At_surface | At_capabilities

definition STORE_VERSION :: int where "STORE_VERSION = 1"

definition OUTCOME_KINDS :: "string list" where
  "OUTCOME_KINDS = [''question'', ''failed'', ''completed'']"

definition safe_identifier :: "nat \<Rightarrow> json option \<Rightarrow> attention_error + jstr" where
  "safe_identifier m v =
     (case validate_identifier m v of
        Inl _ \<Rightarrow> Inl At_identifier
      | Inr s \<Rightarrow> Inr s)"

definition safe_text :: "nat \<Rightarrow> jstr \<Rightarrow> json option \<Rightarrow> jstr" where
  "safe_text m fallback v =
     (let t = (case as_str v of None \<Rightarrow> [] | Some s \<Rightarrow> clean_text s) in
      take m (if t = [] then fallback else t))"

definition time_or :: "int \<Rightarrow> json option \<Rightarrow> int" where
  "time_or fallback v = (case nonneg v of None \<Rightarrow> fallback | Some n \<Rightarrow> n)"

definition optional_identifier :: "json option \<Rightarrow> attention_error + jstr option" where
  "optional_identifier v =
     (case as_str v of
        None \<Rightarrow> Inr None
      | Some s \<Rightarrow> ebind (safe_identifier 240 (Some (JStr s))) (\<lambda>i. Inr (Some i)))"

text \<open>\<^verbatim>\<open>typeof value === 'string' ? safeText(value, '', max) : undefined\<close>\<close>

definition optional_text :: "nat \<Rightarrow> json option \<Rightarrow> jstr option" where
  "optional_text m v = (case as_str v of None \<Rightarrow> None | Some s \<Rightarrow> Some (safe_text m [] v))"

text \<open>\<^verbatim>\<open>...(text ? { key: text } : {})\<close>\<close>

definition nonempty_value :: "jstr option \<Rightarrow> json option" where
  "nonempty_value t = (case t of None \<Rightarrow> None | Some s \<Rightarrow> if s = [] then None else Some (JStr s))"

text \<open>A template literal prints \<open>undefined\<close> for an absent property; \<^verbatim>\<open>a || b\<close> on values.\<close>

definition template :: "json option \<Rightarrow> jstr" where
  "template v = (case v of None \<Rightarrow> js ''undefined'' | Some x \<Rightarrow> string_of x)"

definition json_or :: "json option \<Rightarrow> json option \<Rightarrow> json option" where
  "json_or a b = (if truthy a then a else b)"

section \<open>Keys\<close>

definition session_key :: "jstr \<Rightarrow> jstr \<Rightarrow> jstr" where
  "session_key project session = project @ 0 # session"

definition source_key :: "jstr \<Rightarrow> jstr \<Rightarrow> jstr \<Rightarrow> jstr" where
  "source_key project source source_id = project @ 0 # source @ 0 # source_id"

definition attention_event_id :: "(bytes \<Rightarrow> jstr) \<Rightarrow> jstr \<Rightarrow> jstr \<Rightarrow> jstr \<Rightarrow> attention_error + jstr" where
  "attention_event_id digest project source source_id =
     ebind (safe_identifier 240 (Some (JStr project))) (\<lambda>p.
     ebind (safe_identifier 80 (Some (JStr source))) (\<lambda>src.
     ebind (safe_identifier 500 (Some (JStr source_id))) (\<lambda>sid.
     Inr (js ''attention-'' @
       take 32 (digest (utf8_encode (js ''kaisola-attention-v1'' @ 0 # p @ 0 # src @ 0 # sid)))))))"

section \<open>Actors\<close>

record actor =
  ac_id :: jstr
  ac_surface :: jstr
  ac_projectId :: jstr
  ac_capabilities :: "jstr list"

definition CAPABILITY_TEXTS :: "string list" where
  "CAPABILITY_TEXTS = [''observe'', ''agent-control'', ''terminal-control'']"

definition create_actor ::
  "json option \<Rightarrow> json option \<Rightarrow> json option \<Rightarrow> json option \<Rightarrow> attention_error + actor" where
  "create_actor ident surface project capabilities =
     ebind (safe_identifier 240 ident) (\<lambda>i.
     (case member_text [''desktop'', ''companion''] surface of
       None \<Rightarrow> Inl At_surface
     | Some sf \<Rightarrow>
         ebind (safe_identifier 240 project) (\<lambda>p.
         let list = (case as_arr capabilities of None \<Rightarrow> [] | Some xs \<Rightarrow> xs) in
         require (lit_value ''observe'' \<in> Some ` set list \<and> distinct list \<and>
                  list_all (\<lambda>x. member_text CAPABILITY_TEXTS (Some x) \<noteq> None) list) At_capabilities
           (Inr \<lparr>ac_id = i, ac_surface = sf, ac_projectId = p,
                 ac_capabilities = map (\<lambda>x. the (as_str (Some x))) list\<rparr>))))"

section \<open>Records\<close>

record att_record =
  ar_id :: jstr
  ar_projectId :: jstr
  ar_kind :: jstr
  ar_title :: jstr
  ar_detail :: "jstr option"
  ar_severity :: jstr
  ar_createdAt :: int
  ar_updatedAt :: int
  ar_active :: bool
  ar_sessionId :: "jstr option"
  ar_windowId :: "jstr option"
  ar_clearedAt :: "int option"
  ar_clearReason :: "jstr option"
  ar_sources :: "(jstr \<times> jstr) list"

text \<open>What other modules see of a record, and the events a change emits.\<close>

definition public_event :: "att_record \<Rightarrow> json" where
  "public_event r = obj
     [(''id'', str_value (ar_id r)), (''eventId'', str_value (ar_id r)),
      (''projectId'', str_value (ar_projectId r)), (''kind'', str_value (ar_kind r)),
      (''title'', str_value (ar_title r)), (''createdAt'', int_value (ar_createdAt r)),
      (''severity'', str_value (ar_severity r)), (''sessionId'', nonempty_value (ar_sessionId r)),
      (''detail'', nonempty_value (ar_detail r)), (''windowId'', nonempty_value (ar_windowId r))]"

definition emitted_event :: "string \<Rightarrow> att_record \<Rightarrow> (string \<times> json option) list \<Rightarrow> json" where
  "emitted_event type r extra = obj
     ([(''type'', lit_value type), (''eventId'', str_value (ar_id r)),
       (''projectId'', str_value (ar_projectId r)), (''kind'', str_value (ar_kind r)),
       (''sessionId'', nonempty_value (ar_sessionId r))] @
      (if type = ''attention.raised''
       then [(''title'', str_value (ar_title r)), (''createdAt'', int_value (ar_createdAt r)),
             (''severity'', str_value (ar_severity r)), (''detail'', nonempty_value (ar_detail r))]
       else []) @
      (''windowId'', nonempty_value (ar_windowId r)) # extra)"

text \<open>The sources of a stored record: objects with valid names, without duplicates, eight at most.\<close>

definition clean_source :: "json \<Rightarrow> (jstr \<times> jstr) list" where
  "clean_source v =
     (if \<not> is_obj v then []
      else (case (safe_identifier 80 (field v ''source''), safe_identifier 500 (field v ''sourceId'')) of
              (Inr src, Inr sid) \<Rightarrow> [(src, sid)]
            | _ \<Rightarrow> []))"

definition first_occurrences :: "'a list \<Rightarrow> 'a list" where
  "first_occurrences xs = rev (remdups (rev xs))"

definition clean_sources :: "json option \<Rightarrow> (jstr \<times> jstr) list" where
  "clean_sources v =
     (case as_arr v of
        None \<Rightarrow> []
      | Some xs \<Rightarrow> take 8 (first_occurrences (concat (map clean_source xs))))"

definition clean_record :: "json \<Rightarrow> int \<Rightarrow> att_record option" where
  "clean_record raw now =
     (if \<not> is_obj raw then None
      else
        let status = member_text [''active'', ''cleared''] (field raw ''status'');
            active = (status = Some (js ''active''));
            sources = clean_sources (field raw ''sources'') in
        (case (safe_identifier 240 (field raw ''id''), safe_identifier 240 (field raw ''projectId''),
               member_text ATTENTION_KINDS (field raw ''kind''), status,
               optional_identifier (field raw ''sessionId''), optional_identifier (field raw ''windowId'')) of
           (Inr i, Inr p, Some kind, Some _, Inr session, Inr window) \<Rightarrow>
             if sources = [] then None
             else Some
               \<lparr>ar_id = i, ar_projectId = p, ar_kind = kind,
                ar_title = safe_text 240 (js ''Attention needed'') (field raw ''title''),
                ar_detail = optional_text 240 (field raw ''detail''),
                ar_severity = member_or ''info'' SEVERITIES (field raw ''severity''),
                ar_createdAt = time_or now (field raw ''createdAt''),
                ar_updatedAt = time_or now (field raw ''updatedAt''), ar_active = active,
                ar_sessionId = session, ar_windowId = window,
                ar_clearedAt = (if active then None else Some (time_or now (field raw ''clearedAt''))),
                ar_clearReason = (if active then None
                  else Some (safe_text 80 (js ''acknowledged'') (field raw ''clearReason''))),
                ar_sources = sources\<rparr>
         | _ \<Rightarrow> None))"

definition source_json :: "jstr \<times> jstr \<Rightarrow> json" where
  "source_json x = obj [(''source'', str_value (fst x)), (''sourceId'', str_value (snd x))]"

definition att_record_json :: "att_record \<Rightarrow> json" where
  "att_record_json r = obj
     [(''id'', str_value (ar_id r)), (''projectId'', str_value (ar_projectId r)),
      (''kind'', str_value (ar_kind r)), (''title'', str_value (ar_title r)),
      (''detail'', map_option JStr (ar_detail r)), (''severity'', str_value (ar_severity r)),
      (''createdAt'', int_value (ar_createdAt r)), (''updatedAt'', int_value (ar_updatedAt r)),
      (''status'', lit_value (if ar_active r then ''active'' else ''cleared'')),
      (''sessionId'', map_option JStr (ar_sessionId r)), (''windowId'', map_option JStr (ar_windowId r)),
      (''clearedAt'', map_option JInt (ar_clearedAt r)), (''clearReason'', map_option JStr (ar_clearReason r)),
      (''sources'', Some (JArr (map source_json (ar_sources r))))]"

section \<open>Sessions\<close>

record att_session =
  sn_id :: jstr
  sn_projectId :: jstr
  sn_kind :: jstr
  sn_title :: jstr
  sn_status :: session_status
  sn_updatedAt :: int
  sn_provider :: "jstr option"
  sn_windowId :: "jstr option"

definition clean_session :: "json \<Rightarrow> att_session option" where
  "clean_session raw =
     (if \<not> is_obj raw then None
      else (case (safe_identifier 240 (field raw ''projectId''), safe_identifier 240 (field raw ''id''),
                  optional_identifier (field raw ''windowId'')) of
              (Inr p, Inr i, Inr window) \<Rightarrow> Some
                \<lparr>sn_id = i, sn_projectId = p,
                 sn_kind = member_or ''agent'' [''agent'', ''terminal'', ''panel''] (field raw ''kind''),
                 sn_title = safe_text 240 (js ''Session'') (field raw ''title''),
                 sn_status = (case status_of (field raw ''status'') of None \<Rightarrow> Idle | Some st \<Rightarrow> st),
                 sn_updatedAt = time_or 0 (field raw ''updatedAt''),
                 sn_provider = optional_text 120 (field raw ''provider''), sn_windowId = window\<rparr>
            | _ \<Rightarrow> None))"

definition att_session_json :: "att_session \<Rightarrow> json" where
  "att_session_json s = obj
     [(''id'', str_value (sn_id s)), (''projectId'', str_value (sn_projectId s)),
      (''kind'', str_value (sn_kind s)), (''title'', str_value (sn_title s)),
      (''status'', lit_value (status_text (sn_status s))), (''updatedAt'', int_value (sn_updatedAt s)),
      (''provider'', map_option JStr (sn_provider s)), (''windowId'', map_option JStr (sn_windowId s))]"

section \<open>The state\<close>

record surface =
  sf_focused :: bool
  sf_projectId :: "jstr option"
  sf_visible :: "jstr list"
  sf_aliases :: "(jstr, jstr) jmap"
  sf_updatedAt :: int

text \<open>
  \<open>as_storage\<close> is the data of the text that was stored last (its properties may be in another order),
  \<open>as_emitted\<close> what the subscribers were told, oldest first.
\<close>

record attention_state =
  as_records :: "(jstr, att_record) jmap"
  as_index :: "(jstr, jstr) jmap"
  as_sessions :: "(jstr, att_session) jmap"
  as_surfaces :: "(jstr, surface) jmap"
  as_projected :: "(jstr, jstr) jmap"
  as_revision :: int
  as_dirty :: bool
  as_queued :: bool
  as_storage :: "json option"
  as_emitted :: "json list"

record attention_config =
  cf_maxRecords :: nat
  cf_maxActive :: nat
  cf_maxSessions :: nat
  cf_retention :: int
  cf_digest :: "bytes \<Rightarrow> jstr"
  cf_collate :: "jstr \<Rightarrow> jstr \<Rightarrow> int"

definition DEFAULT_MAX_RECORDS :: nat where "DEFAULT_MAX_RECORDS = 512"
definition DEFAULT_MAX_ACTIVE :: nat where "DEFAULT_MAX_ACTIVE = 200"
definition DEFAULT_MAX_SESSIONS :: nat where "DEFAULT_MAX_SESSIONS = 500"
definition DEFAULT_RETENTION_MS :: int where "DEFAULT_RETENTION_MS = 7 * 24 * 60 * 60 * 1000"

text \<open>The bounds the constructor accepts.\<close>

definition new_attention_config ::
  "nat \<Rightarrow> nat \<Rightarrow> nat \<Rightarrow> int \<Rightarrow> (bytes \<Rightarrow> jstr) \<Rightarrow> (jstr \<Rightarrow> jstr \<Rightarrow> int) \<Rightarrow> attention_config option" where
  "new_attention_config records active sessions retention digest collate =
     (if 0 < records \<and> 0 < active \<and> 0 < sessions \<and> 0 < retention
      then Some \<lparr>cf_maxRecords = records, cf_maxActive = min active records, cf_maxSessions = sessions,
                 cf_retention = retention, cf_digest = digest, cf_collate = collate\<rparr>
      else None)"

end
