(* ===== verification/Attention_Service.thy ===== *)
theory Attention_Service
  imports Attention_Records
begin

text \<open>
  The state machine of the attention service: raising, clearing, acknowledging, the surfaces, the
  bounds on what is kept, and storing and loading it. An operation that throws returns the state it
  has reached so far together with the error.
\<close>

section \<open>Storing\<close>

definition persist :: "attention_state \<Rightarrow> attention_state" where
  "persist s = s\<lparr>as_dirty := True, as_queued := True\<rparr>"

definition persisted :: "attention_state \<Rightarrow> json" where
  "persisted s = obj
     [(''storeVersion'', int_value STORE_VERSION), (''revision'', int_value (as_revision s)),
      (''records'', Some (JArr (map (\<lambda>e. att_record_json (snd e)) (as_records s)))),
      (''sessions'', Some (JArr (map (\<lambda>e. att_session_json (snd e)) (as_sessions s))))]"

definition flush_persistence :: "attention_state \<Rightarrow> attention_state \<times> bool" where
  "flush_persistence s =
     (if as_dirty s then (s\<lparr>as_storage := Some (persisted s), as_dirty := False\<rparr>, True) else (s, False))"

text \<open>
  The queued microtask; \<open>stored\<close> says whether writing the storage succeeds (when it throws, the state
  stays dirty).
\<close>

definition persist_task :: "bool \<Rightarrow> attention_state \<Rightarrow> attention_state" where
  "persist_task stored s =
     (let s1 = s\<lparr>as_queued := False\<rparr> in if stored then fst (flush_persistence s1) else s1)"

definition emit :: "json \<Rightarrow> attention_state \<Rightarrow> attention_state" where
  "emit e s = s\<lparr>as_emitted := as_emitted s @ [e]\<rparr>"

section \<open>Bounds\<close>

definition delete_record :: "att_record \<Rightarrow> attention_state \<Rightarrow> attention_state" where
  "delete_record r s = s\<lparr>as_records := jdel (ar_id r) (as_records s),
     as_index := fold (\<lambda>x. jdel (source_key (ar_projectId r) (fst x) (snd x))) (ar_sources r) (as_index s)\<rparr>"

text \<open>\<^verbatim>\<open>record.clearedAt || record.updatedAt\<close>\<close>

definition cleared_time :: "att_record \<Rightarrow> int" where
  "cleared_time r =
     (case ar_clearedAt r of None \<Rightarrow> ar_updatedAt r | Some t \<Rightarrow> if t = 0 then ar_updatedAt r else t)"

definition expired :: "attention_config \<Rightarrow> int \<Rightarrow> att_record \<Rightarrow> bool" where
  "expired c now r = (\<not> ar_active r \<and> cf_retention c < now - cleared_time r)"

definition expire_records :: "attention_config \<Rightarrow> int \<Rightarrow> attention_state \<Rightarrow> attention_state" where
  "expire_records c now s =
     fold (\<lambda>e t. if expired c now (snd e) then delete_record (snd e) t else t) (as_records s) s"

definition active_records :: "attention_state \<Rightarrow> att_record list" where
  "active_records s = filter ar_active (map snd (as_records s))"

definition age_order :: "(jstr \<Rightarrow> jstr \<Rightarrow> int) \<Rightarrow> att_record \<Rightarrow> att_record \<Rightarrow> int" where
  "age_order collate a b =
     (if ar_createdAt a - ar_createdAt b \<noteq> 0 then ar_createdAt a - ar_createdAt b
      else collate (ar_id a) (ar_id b))"

text \<open>The active records above the limit, oldest first.\<close>

definition overflow :: "attention_config \<Rightarrow> attention_state \<Rightarrow> att_record list" where
  "overflow c s =
     (let active = active_records s in
      take (length active - cf_maxActive c) (sort_by (age_order (cf_collate c)) active))"

definition drop_candidate :: "attention_state \<Rightarrow> att_record option" where
  "drop_candidate s =
     (case sort_by (\<lambda>a b. cleared_time a - cleared_time b) (filter (\<lambda>r. \<not> ar_active r) (map snd (as_records s))) of
        r # _ \<Rightarrow> Some r
      | [] \<Rightarrow> (case sort_by (\<lambda>a b. ar_createdAt a - ar_createdAt b) (map snd (as_records s)) of
                r # _ \<Rightarrow> Some r
              | [] \<Rightarrow> None))"

text \<open>The loop that drops records; every round removes one, so as many rounds as records are enough.\<close>

fun drop_excess :: "attention_config \<Rightarrow> nat \<Rightarrow> attention_state \<Rightarrow> attention_state" where
  "drop_excess c 0 s = s"
| "drop_excess c (Suc n) s =
     (if length (as_records s) \<le> cf_maxRecords c then s
      else (case drop_candidate s of
              None \<Rightarrow> s
            | Some r \<Rightarrow> drop_excess c n (delete_record r s)))"

definition drop_records :: "attention_config \<Rightarrow> attention_state \<Rightarrow> attention_state" where
  "drop_records c s = drop_excess c (length (as_records s)) s"

section \<open>Clearing\<close>

definition is_active :: "attention_state \<Rightarrow> jstr \<Rightarrow> bool" where
  "is_active s i = (case jget (as_records s) i of None \<Rightarrow> False | Some r \<Rightarrow> ar_active r)"

definition cleared_record :: "int \<Rightarrow> json option \<Rightarrow> att_record \<Rightarrow> att_record" where
  "cleared_record now reason r = r\<lparr>ar_active := False, ar_clearedAt := Some now, ar_updatedAt := now,
     ar_clearReason := Some (safe_text 80 (js ''acknowledged'') reason)\<rparr>"

definition cleared_event :: "json option \<Rightarrow> att_record \<Rightarrow> json" where
  "cleared_event actor r = emitted_event ''attention.cleared'' r
     [(''clearedAt'', map_option JInt (ar_clearedAt r)), (''reason'', map_option JStr (ar_clearReason r)),
      (''actorId'', str_value (safe_text 240 (js ''service'') actor))]"

text \<open>
  \<open>#clear\<close> trims after it has cleared, and trimming clears the records above the limit: \<open>clear_with\<close>
  is given the trimming to use. Every nested call finds one active record less, so the number of
  active records bounds the depth (\<open>trim_records_fuel\<close>).
\<close>

definition clear_with ::
  "(attention_state \<Rightarrow> attention_state) \<Rightarrow> int \<Rightarrow> json option \<Rightarrow> json option \<Rightarrow> jstr \<Rightarrow>
   attention_state \<Rightarrow> attention_state" where
  "clear_with trim now reason actor i s =
     (case jget (as_records s) i of
        None \<Rightarrow> s
      | Some r \<Rightarrow>
          if \<not> ar_active r then s
          else
            let r' = cleared_record now reason r;
                s1 = s\<lparr>as_records := jset i r' (as_records s), as_revision := as_revision s + 1\<rparr> in
            emit (cleared_event actor r') (persist (trim s1)))"

definition evict :: "int \<Rightarrow> (attention_state \<Rightarrow> attention_state) \<Rightarrow> att_record list \<Rightarrow> attention_state \<Rightarrow> attention_state" where
  "evict now trim rs s =
     fold (\<lambda>r. clear_with trim now (lit_value ''bounded_eviction'') (lit_value ''service'') (ar_id r)) rs s"

primrec trim_records :: "attention_config \<Rightarrow> int \<Rightarrow> nat \<Rightarrow> attention_state \<Rightarrow> attention_state" where
  "trim_records c now 0 s = drop_records c (expire_records c now s)"
| "trim_records c now (Suc n) s =
     (let s1 = expire_records c now s in
      drop_records c (evict now (trim_records c now n) (overflow c s1) s1))"

definition trim_state :: "attention_config \<Rightarrow> int \<Rightarrow> attention_state \<Rightarrow> attention_state" where
  "trim_state c now s = trim_records c now (length (active_records s)) s"

definition clear_record ::
  "attention_config \<Rightarrow> int \<Rightarrow> json option \<Rightarrow> json option \<Rightarrow> jstr \<Rightarrow> attention_state \<Rightarrow> attention_state" where
  "clear_record c now reason actor i s = clear_with (trim_state c now) now reason actor i s"

text \<open>Clearing all records of a list of ids that are still there, active and of interest.\<close>

definition clear_where ::
  "attention_config \<Rightarrow> int \<Rightarrow> (att_record \<Rightarrow> bool) \<Rightarrow> json option \<Rightarrow> json option \<Rightarrow> attention_state \<Rightarrow>
   attention_state" where
  "clear_where c now p reason actor s =
     fold (\<lambda>i t. case jget (as_records t) i of
                   None \<Rightarrow> t
                 | Some r \<Rightarrow> if ar_active r \<and> p r then clear_record c now reason actor i t else t)
       (jkeys (as_records s)) s"

definition has_source_prefix :: "jstr \<Rightarrow> jstr \<Rightarrow> att_record \<Rightarrow> bool" where
  "has_source_prefix source prefix r =
     list_ex (\<lambda>x. fst x = source \<and>
       (snd x = take (length prefix - 1) prefix \<or> take (length prefix) (snd x) = prefix)) (ar_sources r)"

definition clear_source_prefix ::
  "attention_config \<Rightarrow> int \<Rightarrow> json option \<Rightarrow> jstr \<Rightarrow> jstr \<Rightarrow> json option \<Rightarrow> attention_state \<Rightarrow>
   attention_state \<times> bool" where
  "clear_source_prefix c now project source prefix reason s =
     (let p = (\<lambda>r. Some (JStr (ar_projectId r)) = project \<and> has_source_prefix source prefix r) in
      (clear_where c now p reason (lit_value ''service'') s, list_ex p (active_records s)))"

section \<open>Surfaces\<close>

definition is_visible :: "attention_state \<Rightarrow> jstr \<Rightarrow> jstr \<Rightarrow> bool" where
  "is_visible s project session =
     list_ex (\<lambda>e. sf_focused (snd e) \<and> sf_projectId (snd e) = Some project \<and> session \<in> set (sf_visible (snd e)))
       (as_surfaces s)"

definition project_id_for_alias :: "attention_state \<Rightarrow> json option \<Rightarrow> jstr option" where
  "project_id_for_alias s alias =
     (case as_str alias of
        None \<Rightarrow> None
      | Some a \<Rightarrow>
          if a = [] then None
          else (case remdups (concat (map (\<lambda>e. case jget (sf_aliases (snd e)) a of None \<Rightarrow> [] | Some p \<Rightarrow> [p])
                       (as_surfaces s))) of
                  [p] \<Rightarrow> Some p
                | _ \<Rightarrow> None))"

definition surface_order :: "jstr \<times> surface \<Rightarrow> jstr \<times> surface \<Rightarrow> int" where
  "surface_order a b =
     (if sf_focused (snd a) \<noteq> sf_focused (snd b) then (if sf_focused (snd b) then 1 else - 1)
      else sf_updatedAt (snd b) - sf_updatedAt (snd a))"

definition window_id_for_project :: "attention_state \<Rightarrow> jstr \<Rightarrow> jstr option" where
  "window_id_for_project s project =
     (case sort_by surface_order (filter (\<lambda>e. sf_projectId (snd e) = Some project \<or>
             project \<in> snd ` set (sf_aliases (snd e))) (as_surfaces s)) of
        e # _ \<Rightarrow> Some (fst e)
      | [] \<Rightarrow> None)"

section \<open>Raising\<close>

record raise_input =
  in_projectId :: "json option"
  in_sessionId :: "json option"
  in_source :: "json option"
  in_sourceId :: "json option"
  in_kind :: "json option"
  in_title :: "json option"
  in_detail :: "json option"
  in_severity :: "json option"
  in_createdAt :: "json option"
  in_windowId :: "json option"
  in_coalesce :: bool
  in_authoritative :: bool

record raise_reply =
  rp_duplicate :: bool
  rp_active :: bool
  rp_observed :: "bool option"
  rp_event :: json

record raise_target =
  rt_projectId :: jstr
  rt_kind :: jstr
  rt_source :: jstr
  rt_sourceId :: jstr

definition check_raise :: "raise_input \<Rightarrow> attention_error + raise_target" where
  "check_raise i =
     ebind (safe_identifier 240 (in_projectId i)) (\<lambda>p.
     (case member_text ATTENTION_KINDS (in_kind i) of
       None \<Rightarrow> Inl At_kind
     | Some kind \<Rightarrow>
         ebind (safe_identifier 80 (in_source i)) (\<lambda>src.
         ebind (safe_identifier 500 (in_sourceId i)) (\<lambda>sid.
         Inr \<lparr>rt_projectId = p, rt_kind = kind, rt_source = src, rt_sourceId = sid\<rparr>))))"

definition target_key :: "raise_target \<Rightarrow> jstr" where
  "target_key t = source_key (rt_projectId t) (rt_source t) (rt_sourceId t)"

definition raise_session :: "raise_input \<Rightarrow> attention_error + jstr option" where
  "raise_session i =
     (if nullish (in_sessionId i) then Inr None
      else ebind (safe_identifier 240 (in_sessionId i)) (\<lambda>x. Inr (Some x)))"

text \<open>\<open>#enhance\<close>: the record with what the input adds, and whether that changed it.\<close>

definition enhance :: "int \<Rightarrow> raise_input \<Rightarrow> att_record \<Rightarrow> attention_error + att_record \<times> bool" where
  "enhance now i r =
     ebind (if nullish (in_sessionId i) \<or> \<not> (in_authoritative i \<or> ar_sessionId r = None)
            then Inr (ar_sessionId r)
            else ebind (safe_identifier 240 (in_sessionId i)) (\<lambda>x. Inr (Some x))) (\<lambda>session.
     ebind (optional_identifier (in_windowId i)) (\<lambda>window.
     let r' = r\<lparr>ar_title := safe_text 240 (ar_title r) (in_title i),
               ar_detail := (case optional_text 240 (in_detail i) of None \<Rightarrow> ar_detail r | Some d \<Rightarrow> Some d),
               ar_sessionId := session,
               ar_windowId := (case window of None \<Rightarrow> ar_windowId r | Some w \<Rightarrow> Some w),
               ar_kind := (case member_text ATTENTION_KINDS (in_kind i) of None \<Rightarrow> ar_kind r | Some k \<Rightarrow> k),
               ar_severity := (case member_text SEVERITIES (in_severity i) of None \<Rightarrow> ar_severity r | Some v \<Rightarrow> v)\<rparr> in
     Inr (if r' = r then (r, False) else (r'\<lparr>ar_updatedAt := now\<rparr>, True))))"

definition put_record :: "att_record \<Rightarrow> attention_state \<Rightarrow> attention_state" where
  "put_record r s = s\<lparr>as_records := jset (ar_id r) r (as_records s)\<rparr>"

definition bump :: "attention_state \<Rightarrow> attention_state" where
  "bump s = persist (s\<lparr>as_revision := as_revision s + 1\<rparr>)"

definition updated_event :: "att_record \<Rightarrow> json" where
  "updated_event r = emitted_event ''attention.raised'' r [(''updated'', bool_value True)]"

definition duplicate_reply :: "att_record \<Rightarrow> raise_reply" where
  "duplicate_reply r = \<lparr>rp_duplicate = True, rp_active = ar_active r, rp_observed = None, rp_event = public_event r\<rparr>"

text \<open>A source that is known already.\<close>

definition raise_known ::
  "int \<Rightarrow> raise_input \<Rightarrow> att_record \<Rightarrow> attention_state \<Rightarrow> attention_state \<times> (attention_error + raise_reply)" where
  "raise_known now i r s =
     (case enhance now i r of
        Inl e \<Rightarrow> (s, Inl e)
      | Inr (r', changed) \<Rightarrow>
          let s1 = (if changed then bump (put_record r' s) else s) in
          (if changed \<and> ar_active r' then emit (updated_event r') s1 else s1, Inr (duplicate_reply r')))"

text \<open>A new source of an event that is on show already: the record gets the source, eight at most.\<close>

definition latest_active :: "jstr \<Rightarrow> jstr \<Rightarrow> jstr \<Rightarrow> attention_state \<Rightarrow> att_record option" where
  "latest_active project session kind s =
     (case sort_by (\<lambda>a b. ar_createdAt b - ar_createdAt a)
             (filter (\<lambda>r. ar_projectId r = project \<and> ar_sessionId r = Some session \<and>
                 (ar_kind r = kind \<or> (ar_kind r \<in> set (map js OUTCOME_KINDS) \<and> kind \<in> set (map js OUTCOME_KINDS))))
               (active_records s)) of
        r # _ \<Rightarrow> Some r
      | [] \<Rightarrow> None)"

definition coalesce_target :: "int \<Rightarrow> raise_input \<Rightarrow> raise_target \<Rightarrow> jstr option \<Rightarrow> attention_state \<Rightarrow> att_record option" where
  "coalesce_target now i t session s =
     (case session of
        None \<Rightarrow> None
      | Some x \<Rightarrow>
          if \<not> in_coalesce i then None
          else (case latest_active (rt_projectId t) x (rt_kind t) s of
                  None \<Rightarrow> None
                | Some r \<Rightarrow> if now - ar_createdAt r \<le> 30000 then Some r else None))"

definition add_source :: "raise_target \<Rightarrow> att_record \<Rightarrow> attention_state \<Rightarrow> att_record \<times> attention_state" where
  "add_source t r s =
     (let sources = ar_sources r @ [(rt_source t, rt_sourceId t)];
          dropped = take (length sources - 8) sources;
          r' = r\<lparr>ar_sources := drop (length sources - 8) sources\<rparr> in
      (r', put_record r' (s\<lparr>as_index :=
         fold (\<lambda>x. jdel (source_key (ar_projectId r) (fst x) (snd x))) dropped
           (jset (target_key t) (ar_id r) (as_index s))\<rparr>)))"

definition raise_coalesced ::
  "int \<Rightarrow> raise_input \<Rightarrow> raise_target \<Rightarrow> att_record \<Rightarrow> attention_state \<Rightarrow>
   attention_state \<times> (attention_error + raise_reply)" where
  "raise_coalesced now i t r s =
     (let (r1, s1) = add_source t r s in
      (case enhance now i r1 of
         Inl e \<Rightarrow> (s1, Inl e)
       | Inr (r2, changed) \<Rightarrow>
           let s2 = bump (put_record r2 s1) in
           (if changed then emit (updated_event r2) s2 else s2, Inr (duplicate_reply r2))))"

text \<open>A new event. It supersedes what is on show of the same session, and is cleared at once when the session is visible.\<close>

definition supersede :: "attention_config \<Rightarrow> int \<Rightarrow> raise_target \<Rightarrow> jstr option \<Rightarrow> attention_state \<Rightarrow> attention_state" where
  "supersede c now t session s =
     (case session of
        None \<Rightarrow> s
      | Some x \<Rightarrow>
          if rt_kind t \<in> set (map js OUTCOME_KINDS)
          then clear_where c now (\<lambda>r. ar_projectId r = rt_projectId t \<and> ar_sessionId r = Some x \<and>
                 ar_kind r \<in> set (map js OUTCOME_KINDS)) (lit_value ''superseded'') (lit_value ''service'') s
          else s)"

definition default_title :: "jstr \<Rightarrow> jstr" where
  "default_title kind =
     (if kind = js ''completed'' then js ''Session finished''
      else if kind = js ''failed'' then js ''Session failed'' else js ''Attention needed'')"

definition default_severity :: "jstr \<Rightarrow> jstr" where
  "default_severity kind =
     (if kind = js ''failed'' then js ''critical'' else if kind = js ''blocked'' then js ''warning'' else js ''info'')"

definition fresh_record ::
  "int \<Rightarrow> raise_input \<Rightarrow> raise_target \<Rightarrow> jstr \<Rightarrow> jstr option \<Rightarrow> jstr option \<Rightarrow> bool \<Rightarrow> att_record" where
  "fresh_record now i t ident session window visible =
     \<lparr>ar_id = ident, ar_projectId = rt_projectId t, ar_kind = rt_kind t,
      ar_title = safe_text 240 (default_title (rt_kind t)) (in_title i),
      ar_detail = optional_text 240 (in_detail i),
      ar_severity = (case member_text SEVERITIES (in_severity i) of None \<Rightarrow> default_severity (rt_kind t) | Some v \<Rightarrow> v),
      ar_createdAt = time_or now (in_createdAt i), ar_updatedAt = now, ar_active = (\<not> visible),
      ar_sessionId = session, ar_windowId = window,
      ar_clearedAt = (if visible then Some now else None),
      ar_clearReason = (if visible then Some (js ''observed'') else None),
      ar_sources = [(rt_source t, rt_sourceId t)]\<rparr>"

text \<open>
  Trimming can clear the new record itself. Trimming only drops records that are cleared, so a record
  that is gone afterwards is not active.
\<close>

definition store_record :: "attention_config \<Rightarrow> int \<Rightarrow> raise_target \<Rightarrow> att_record \<Rightarrow> attention_state \<Rightarrow> attention_state" where
  "store_record c now t r s =
     (let s1 = put_record r s;
          s2 = s1\<lparr>as_index := jset (target_key t) (ar_id r) (as_index s1), as_revision := as_revision s1 + 1\<rparr>;
          s3 = persist (trim_state c now s2) in
      if is_active s3 (ar_id r) then emit (emitted_event ''attention.raised'' r []) s3 else s3)"

definition raise_new ::
  "attention_config \<Rightarrow> int \<Rightarrow> raise_input \<Rightarrow> raise_target \<Rightarrow> jstr option \<Rightarrow> attention_state \<Rightarrow>
   attention_state \<times> (attention_error + raise_reply)" where
  "raise_new c now i t session s =
     (let s1 = supersede c now t session s;
          visible = (case session of None \<Rightarrow> None | Some x \<Rightarrow> Some (is_visible s1 (rt_projectId t) x)) in
      (case ebind (attention_event_id (cf_digest c) (rt_projectId t) (rt_source t) (rt_sourceId t)) (\<lambda>ident.
            ebind (optional_identifier (in_windowId i)) (\<lambda>window.
            Inr (fresh_record now i t ident session window (visible = Some True)))) of
         Inl e \<Rightarrow> (s1, Inl e)
       | Inr r \<Rightarrow>
           let s2 = store_record c now t r s1 in
           (s2, Inr \<lparr>rp_duplicate = False, rp_active = is_active s2 (ar_id r), rp_observed = visible,
                     rp_event = public_event r\<rparr>)))"

definition indexed_record :: "raise_target \<Rightarrow> attention_state \<Rightarrow> att_record option" where
  "indexed_record t s =
     (case jget (as_index s) (target_key t) of None \<Rightarrow> None | Some i \<Rightarrow> jget (as_records s) i)"

definition raise ::
  "attention_config \<Rightarrow> int \<Rightarrow> raise_input \<Rightarrow> attention_state \<Rightarrow> attention_state \<times> (attention_error + raise_reply)" where
  "raise c now i s =
     (case check_raise i of
        Inl e \<Rightarrow> (s, Inl e)
      | Inr t \<Rightarrow>
          (case indexed_record t s of
             Some r \<Rightarrow> raise_known now i r s
           | None \<Rightarrow>
               let s1 = s\<lparr>as_index := jdel (target_key t) (as_index s)\<rparr> in
               (case raise_session i of
                  Inl e \<Rightarrow> (s1, Inl e)
                | Inr session \<Rightarrow>
                    (case coalesce_target now i t session s1 of
                       Some r \<Rightarrow> raise_coalesced now i t r s1
                     | None \<Rightarrow> raise_new c now i t session s1))))"

section \<open>Acknowledging\<close>

text \<open>The actor is \<open>None\<close> when the argument is not a capability made by \<open>createAttentionActorCapability\<close>.\<close>

datatype ack_rejection = Lacks_observe | Invalid_target | Other_capability | Other_project

datatype ack_reply = Ack_rejected ack_rejection | Ack_stale "jstr option" | Ack_applied jstr

definition acknowledge ::
  "attention_config \<Rightarrow> int \<Rightarrow> actor option \<Rightarrow> json option \<Rightarrow> json option \<Rightarrow> json option \<Rightarrow> attention_state \<Rightarrow>
   attention_state \<times> ack_reply" where
  "acknowledge c now actor project event reason s =
     (case actor of
        None \<Rightarrow> (s, Ack_rejected Lacks_observe)
      | Some a \<Rightarrow>
          if js ''observe'' \<notin> set (ac_capabilities a) then (s, Ack_rejected Lacks_observe)
          else (case (safe_identifier 240 project, safe_identifier 240 event) of
                  (Inr p, Inr i) \<Rightarrow>
                    if ac_projectId a \<noteq> p then (s, Ack_rejected Other_capability)
                    else (case jget (as_records s) i of
                            None \<Rightarrow> (s, Ack_stale None)
                          | Some r \<Rightarrow>
                              if ar_projectId r \<noteq> p then (s, Ack_rejected Other_project)
                              else if \<not> ar_active r then (s, Ack_stale (Some (ar_id r)))
                              else (clear_record c now
                                      (Some (JStr (safe_text 80 (js ''acknowledged'')
                                        (if reason = None then lit_value ''acknowledged'' else reason))))
                                      (Some (JStr (ac_id a))) i s,
                                    Ack_applied (ar_id r)))
                | _ \<Rightarrow> (s, Ack_rejected Invalid_target)))"

definition clear_source ::
  "attention_config \<Rightarrow> int \<Rightarrow> json option \<Rightarrow> json option \<Rightarrow> json option \<Rightarrow> json option \<Rightarrow> json option \<Rightarrow>
   attention_state \<Rightarrow> attention_state \<times> bool" where
  "clear_source c now project source source_id reason actor s =
     (case (safe_identifier 240 project, safe_identifier 80 source, safe_identifier 500 source_id) of
        (Inr p, Inr src, Inr sid) \<Rightarrow>
          (case jget (as_index s) (source_key p src sid) of
             None \<Rightarrow> (s, False)
           | Some i \<Rightarrow>
               (case jget (as_records s) i of
                  None \<Rightarrow> (s, False)
                | Some r \<Rightarrow>
                    if ar_projectId r \<noteq> p \<or> \<not> ar_active r then (s, False)
                    else (clear_record c now (if reason = None then lit_value ''resolved'' else reason)
                            (if actor = None then lit_value ''service'' else actor) i s, True)))
      | _ \<Rightarrow> (s, False))"

text \<open>
  \<open>acknowledgeVisibleSession\<close> acknowledges, as the desktop, every record of a session that was active
  when it started; a record the trimming has cleared in the meantime is skipped.
\<close>

definition acknowledge_one ::
  "attention_config \<Rightarrow> int \<Rightarrow> actor \<Rightarrow> jstr \<Rightarrow> jstr \<Rightarrow> attention_state \<times> jstr list \<Rightarrow> attention_state \<times> jstr list" where
  "acknowledge_one c now a p i st =
     (case acknowledge c now (Some a) (Some (JStr p)) (Some (JStr i)) (lit_value ''desktop_observed'') (fst st) of
        (s', Ack_applied _) \<Rightarrow> (s', snd st @ [i])
      | (s', _) \<Rightarrow> (s', snd st))"

definition acknowledge_visible_session ::
  "attention_config \<Rightarrow> int \<Rightarrow> json option \<Rightarrow> json option \<Rightarrow> json option \<Rightarrow> attention_state \<Rightarrow>
   attention_error + attention_state \<times> jstr list" where
  "acknowledge_visible_session c now window project session s =
     ebind (safe_identifier 240 window) (\<lambda>w.
     ebind (safe_identifier 240 project) (\<lambda>p.
     ebind (safe_identifier 240 session) (\<lambda>x.
     ebind (create_actor (Some (JStr (js ''desktop-'' @ w))) (lit_value ''desktop'') (Some (JStr p))
             (Some (JArr [JStr (js ''observe'')]))) (\<lambda>a.
     Inr (fold (\<lambda>r. acknowledge_one c now a p (ar_id r))
            (filter (\<lambda>r. ar_projectId r = p \<and> ar_sessionId r = Some x) (active_records s)) (s, []))))))"

section \<open>Surfaces of the desktop\<close>

definition surface_alias :: "json \<Rightarrow> (jstr \<times> jstr) option" where
  "surface_alias item =
     (case (safe_identifier 240 (field item ''projectId''), as_str (field item ''alias'')) of
        (Inr p, Some a) \<Rightarrow> if is_obj item \<and> a \<noteq> [] \<and> length a \<le> 4096 then Some (a, p) else None
      | _ \<Rightarrow> None)"

definition surface_aliases :: "json option \<Rightarrow> (jstr, jstr) jmap" where
  "surface_aliases projects =
     fold (\<lambda>item m. case surface_alias item of None \<Rightarrow> m | Some (a, p) \<Rightarrow> jset a p m)
       (take 64 (array_or_empty projects)) []"

fun acknowledge_visible_sessions ::
  "attention_config \<Rightarrow> int \<Rightarrow> jstr \<Rightarrow> jstr \<Rightarrow> jstr list \<Rightarrow> attention_state \<times> jstr list \<Rightarrow>
   (attention_state \<times> jstr list) \<times> attention_error option" where
  "acknowledge_visible_sessions c now w p [] st = (st, None)"
| "acknowledge_visible_sessions c now w p (x # xs) st =
     (case acknowledge_visible_session c now (Some (JStr w)) (Some (JStr p)) (Some (JStr x)) (fst st) of
        Inl e \<Rightarrow> (st, Some e)
      | Inr (s', cleared) \<Rightarrow> acknowledge_visible_sessions c now w p xs (s', snd st @ cleared))"

definition put_surface :: "jstr \<Rightarrow> surface \<Rightarrow> attention_state \<Rightarrow> attention_state" where
  "put_surface w sf s = s\<lparr>as_surfaces := jset w sf (as_surfaces s)\<rparr>"

definition update_surface ::
  "attention_config \<Rightarrow> int \<Rightarrow> json option \<Rightarrow> json option \<Rightarrow> json option \<Rightarrow> json option \<Rightarrow> json option \<Rightarrow>
   attention_state \<Rightarrow> attention_state \<times> (attention_error + jstr list)" where
  "update_surface c now window focused project visible projects s =
     (case ebind (safe_identifier 240 window) (\<lambda>w.
           ebind (if nullish project then Inr None
                  else ebind (safe_identifier 240 project) (\<lambda>p. Inr (Some p))) (\<lambda>p.
           ebind (emap (\<lambda>v. safe_identifier 240 (Some v)) (take 32 (array_or_empty visible))) (\<lambda>ids.
           Inr (w, \<lparr>sf_focused = safe_bool focused, sf_projectId = p, sf_visible = first_occurrences ids,
                    sf_aliases = surface_aliases projects, sf_updatedAt = now\<rparr>)))) of
        Inl e \<Rightarrow> (s, Inl e)
      | Inr (w, sf) \<Rightarrow>
          let s1 = put_surface w sf s in
          (case sf_projectId sf of
             None \<Rightarrow> (s1, Inr [])
           | Some p \<Rightarrow>
               if \<not> sf_focused sf then (s1, Inr [])
               else (case acknowledge_visible_sessions c now w p (sf_visible sf) (s1, []) of
                       ((s2, cleared), None) \<Rightarrow> (s2, Inr cleared)
                     | ((s2, _), Some e) \<Rightarrow> (s2, Inl e))))"

definition remove_surface :: "json option \<Rightarrow> attention_state \<Rightarrow> attention_state \<times> bool" where
  "remove_surface window s =
     (case safe_identifier 240 window of
        Inl _ \<Rightarrow> (s, False)
      | Inr w \<Rightarrow> (s\<lparr>as_surfaces := jdel w (as_surfaces s)\<rparr>, jhas (as_surfaces s) w))"

section \<open>Sessions\<close>

definition drop_front :: "nat \<Rightarrow> 'a list \<Rightarrow> 'a list" where
  "drop_front m xs = drop (length xs - m) xs"

definition put_session :: "attention_config \<Rightarrow> att_session \<Rightarrow> attention_state \<Rightarrow> attention_state" where
  "put_session c x s =
     (let key = session_key (sn_projectId x) (sn_id x) in
      bump (s\<lparr>as_sessions := drop_front (cf_maxSessions c) (jset key x (jdel key (as_sessions s)))\<rparr>))"

definition upsert_session :: "attention_config \<Rightarrow> json \<Rightarrow> attention_state \<Rightarrow> attention_state" where
  "upsert_session c v s = (case clean_session v of None \<Rightarrow> s | Some x \<Rightarrow> put_session c x s)"

section \<open>Loading\<close>

definition new_attention_state :: "json option \<Rightarrow> attention_state" where
  "new_attention_state storage =
     \<lparr>as_records = [], as_index = [], as_sessions = [], as_surfaces = [], as_projected = [], as_revision = 0,
      as_dirty = False, as_queued = False, as_storage = storage, as_emitted = []\<rparr>"

definition load_record :: "int \<Rightarrow> json \<Rightarrow> attention_state \<Rightarrow> attention_state" where
  "load_record now v s =
     (case clean_record v now of
        None \<Rightarrow> s
      | Some r \<Rightarrow> (put_record r s)\<lparr>as_index :=
          fold (\<lambda>x. jset (source_key (ar_projectId r) (fst x) (snd x)) (ar_id r)) (ar_sources r) (as_index s)\<rparr>)"

definition load_session :: "json \<Rightarrow> attention_state \<Rightarrow> attention_state" where
  "load_session v s =
     (case clean_session v of
        None \<Rightarrow> s
      | Some x \<Rightarrow> s\<lparr>as_sessions := jset (session_key (sn_projectId x) (sn_id x)) x (as_sessions s)\<rparr>)"

text \<open>The constructor with \<open>#load\<close>; \<open>stored\<close> is the data of the stored text, \<open>None\<close> when there is none or it does not parse.\<close>

definition load_state :: "attention_config \<Rightarrow> int \<Rightarrow> json option \<Rightarrow> attention_state" where
  "load_state c now stored =
     (let s = new_attention_state stored in
      (case stored of
         None \<Rightarrow> s
       | Some v \<Rightarrow>
           if field v ''storeVersion'' \<noteq> int_value STORE_VERSION then s
           else
             let s1 = s\<lparr>as_revision := time_or 0 (field v ''revision'')\<rparr>;
                 s2 = fold (load_record now) (drop_front (cf_maxRecords c) (array_or_empty (field v ''records''))) s1;
                 s3 = fold load_session (drop_front (cf_maxSessions c) (array_or_empty (field v ''sessions''))) s2 in
             trim_state c now s3))"

section \<open>Reading\<close>

definition active_events :: "(jstr \<Rightarrow> jstr \<Rightarrow> int) \<Rightarrow> json option \<Rightarrow> attention_state \<Rightarrow> json list" where
  "active_events collate project s =
     map public_event
       (sort_by (\<lambda>a b. if ar_createdAt b - ar_createdAt a \<noteq> 0 then ar_createdAt b - ar_createdAt a
                        else collate (ar_id a) (ar_id b))
         (filter (\<lambda>r. nullish project \<or> project = Some (JStr (ar_projectId r))) (active_records s)))"

definition active_count :: "json option \<Rightarrow> attention_state \<Rightarrow> nat" where
  "active_count projects s =
     length (filter (\<lambda>r. JStr (ar_projectId r) \<in> set (array_or_empty projects)) (active_records s))"

record attention_counters =
  st_revision :: int
  st_active :: nat
  st_records :: nat
  st_sessions :: nat
  st_surfaces :: nat

definition attention_stats :: "attention_state \<Rightarrow> attention_counters" where
  "attention_stats s =
     \<lparr>st_revision = as_revision s, st_active = length (active_records s), st_records = length (as_records s),
      st_sessions = length (as_sessions s), st_surfaces = length (as_surfaces s)\<rparr>"

text \<open>What a session shows when nothing active asks for the user any more: the outcome of its latest event.\<close>

definition latest_record :: "jstr \<Rightarrow> jstr \<Rightarrow> attention_state \<Rightarrow> att_record option" where
  "latest_record project session s =
     (case sort_by (\<lambda>a b. if ar_createdAt b - ar_createdAt a \<noteq> 0 then ar_createdAt b - ar_createdAt a
                          else ar_updatedAt b - ar_updatedAt a)
             (filter (\<lambda>r. ar_projectId r = project \<and> ar_sessionId r = Some session) (map snd (as_records s))) of
        r # _ \<Rightarrow> Some r
      | [] \<Rightarrow> None)"

definition settled_status :: "jstr \<Rightarrow> jstr \<Rightarrow> attention_state \<Rightarrow> session_status" where
  "settled_status project session s =
     (case latest_record project session s of
        None \<Rightarrow> Idle
      | Some r \<Rightarrow> if ar_kind r = js ''completed'' then Done_session
                  else if ar_kind r = js ''failed'' then Failed_session else Idle)"

definition session_events :: "att_record list \<Rightarrow> jstr \<Rightarrow> jstr \<Rightarrow> att_record list" where
  "session_events active project session =
     filter (\<lambda>r. nonempty_value (ar_sessionId r) \<noteq> None \<and>
       session_key (ar_projectId r) (the (ar_sessionId r)) = session_key project session) active"

record board_session =
  bs_session :: att_session
  bs_needsYou :: bool

definition board_session_of :: "attention_state \<Rightarrow> att_session \<Rightarrow> board_session" where
  "board_session_of s x =
     (let events = session_events (active_records s) (sn_projectId x) (sn_id x);
          needs = (events \<noteq> []);
          failed = list_ex (\<lambda>r. ar_kind r = js ''failed'') events;
          status = (if failed then Failed_session else if needs then Waiting_session else sn_status x) in
      \<lparr>bs_session = x\<lparr>sn_status :=
          (if \<not> needs \<and> status = Waiting_session then settled_status (sn_projectId x) (sn_id x) s else status)\<rparr>,
       bs_needsYou = needs\<rparr>)"

record project_counts =
  pc_running :: nat
  pc_needsYou :: nat
  pc_done :: nat
  pc_failed :: nat

definition project_counts_of :: "(jstr, project_counts) jmap \<Rightarrow> jstr \<Rightarrow> project_counts" where
  "project_counts_of m p = (case jget m p of
     None \<Rightarrow> \<lparr>pc_running = 0, pc_needsYou = 0, pc_done = 0, pc_failed = 0\<rparr> | Some c \<Rightarrow> c)"

definition one_if :: "bool \<Rightarrow> nat" where "one_if b = (if b then 1 else 0)"

definition count_session :: "board_session \<Rightarrow> (jstr, project_counts) jmap \<Rightarrow> (jstr, project_counts) jmap" where
  "count_session b m =
     (let p = sn_projectId (bs_session b); st = sn_status (bs_session b); ct = project_counts_of m p in
      jset p \<lparr>pc_running = pc_running ct + one_if (st = Running_session),
              pc_needsYou = pc_needsYou ct + one_if (bs_needsYou b),
              pc_done = pc_done ct + one_if (st = Done_session),
              pc_failed = pc_failed ct + one_if (st = Failed_session)\<rparr> m)"

definition count_event :: "att_record \<Rightarrow> (jstr, project_counts) jmap \<Rightarrow> (jstr, project_counts) jmap" where
  "count_event r m =
     (let ct = project_counts_of m (ar_projectId r) in
      jset (ar_projectId r) (ct\<lparr>pc_needsYou := pc_needsYou ct + 1,
        pc_failed := pc_failed ct + one_if (ar_kind r = js ''failed'')\<rparr>) m)"

record board_state =
  bo_revision :: int
  bo_projects :: "(jstr, project_counts) jmap"
  bo_sessions :: "board_session list"
  bo_attention :: "json list"

definition board_state_of :: "attention_state \<Rightarrow> board_state" where
  "board_state_of s =
     (let sessions = map (\<lambda>e. board_session_of s (snd e)) (as_sessions s);
          known = map (\<lambda>b. session_key (sn_projectId (bs_session b)) (sn_id (bs_session b))) sessions;
          loose = filter (\<lambda>r. nonempty_value (ar_sessionId r) = None \<or>
                    session_key (ar_projectId r) (the (ar_sessionId r)) \<notin> set known) (active_records s) in
      \<lparr>bo_revision = as_revision s, bo_projects = fold count_event loose (fold count_session sessions []),
       bo_sessions = sessions, bo_attention = map public_event (active_records s)\<rparr>)"

end
