(* ===== verification/Attention_Feeds.thy ===== *)
theory Attention_Feeds
  imports Attention_Service
begin

text \<open>
  What feeds the attention service: events of agents, terminals and the task ledger, and the
  projections of the renderer windows. \<open>mergeProjection\<close> puts the active events back into the
  projection that is sent to the devices.
\<close>

datatype handled =
    Ignored
  | Running_again
  | Cleared_source bool
  | Raised raise_reply

definition no_input :: raise_input where
  "no_input = \<lparr>in_projectId = None, in_sessionId = None, in_source = None, in_sourceId = None, in_kind = None,
     in_title = None, in_detail = None, in_severity = None, in_createdAt = None, in_windowId = None,
     in_coalesce = False, in_authoritative = False\<rparr>"

definition raised :: "attention_state \<times> (attention_error + raise_reply) \<Rightarrow> attention_state \<times> (attention_error + handled)" where
  "raised r = (fst r, (case snd r of Inl e \<Rightarrow> Inl e | Inr x \<Rightarrow> Inr (Raised x)))"

text \<open>\<^verbatim>\<open>parts.filter(Boolean).join(' \<cdot> ') || undefined\<close> with the middle dot U+00B7.\<close>

definition dotted :: "json option list \<Rightarrow> json option" where
  "dotted parts =
     nonempty_value (Some (concat (case map template (filter truthy parts) of
        [] \<Rightarrow> []
      | t # ts \<Rightarrow> t # map (\<lambda>u. [32, 183, 32] @ u) ts)))"

definition existing_session :: "jstr \<Rightarrow> json option \<Rightarrow> attention_state \<Rightarrow> att_session option" where
  "existing_session project session s =
     (if truthy session then jget (as_sessions s) (session_key project (template session)) else None)"

definition session_title :: "att_session option \<Rightarrow> json option" where
  "session_title x = (case x of None \<Rightarrow> None | Some y \<Rightarrow> str_value (sn_title y))"

definition session_provider :: "att_session option \<Rightarrow> json option" where
  "session_provider x = (case x of None \<Rightarrow> None | Some y \<Rightarrow> map_option JStr (sn_provider y))"

definition finished_title :: "bool \<Rightarrow> json option \<Rightarrow> json option" where
  "finished_title failed title = str_value (template title @ js (if failed then '' failed'' else '' finished''))"

section \<open>Agent events\<close>

definition window_value :: "attention_state \<Rightarrow> jstr \<Rightarrow> json option" where
  "window_value s p = map_option JStr (window_id_for_project s p)"

definition permission_input :: "attention_state \<Rightarrow> jstr \<Rightarrow> json option \<Rightarrow> json \<Rightarrow> raise_input" where
  "permission_input s p session ev = no_input
     \<lparr>in_projectId := str_value p, in_sessionId := session, in_source := lit_value ''permission'',
      in_sourceId := field ev ''permId'', in_kind := lit_value ''permission'',
      in_title := json_or (field ev ''title'')
        (str_value (template (json_or (field ev ''agent'') (lit_value ''Agent'')) @ js '' needs you'')),
      in_detail := field ev ''kind'',
      in_severity := lit_value (if truthy (field ev ''sensitive'') then ''warning'' else ''info''),
      in_windowId := window_value s p, in_authoritative := True\<rparr>"

definition turn_failed :: "json \<Rightarrow> bool" where
  "turn_failed ev =
     (field ev ''ok'' \<noteq> bool_value True \<or>
      (truthy (field ev ''stopReason'') \<and> field ev ''stopReason'' \<noteq> lit_value ''end_turn'' \<and>
       field ev ''stopReason'' \<noteq> lit_value ''cancelled''))"

definition turn_title :: "att_session option \<Rightarrow> json \<Rightarrow> json option" where
  "turn_title existing ev =
     json_or (json_or (json_or (json_or (field ev ''title'') (session_title existing)) (field ev ''agent''))
       (field ev ''targetId'')) (lit_value ''Agent'')"

definition turn_input :: "attention_state \<Rightarrow> jstr \<Rightarrow> json option \<Rightarrow> json option \<Rightarrow> json option \<Rightarrow> json \<Rightarrow> raise_input" where
  "turn_input s p session title provider ev = no_input
     \<lparr>in_projectId := str_value p, in_sessionId := session, in_source := lit_value ''agent-turn'',
      in_sourceId := str_value (template (json_or (field ev ''targetId'') (lit_value ''agent'')) @ 58 #
        template (field ev ''turnId'')),
      in_kind := lit_value (if turn_failed ev then ''failed'' else ''completed''),
      in_title := finished_title (turn_failed ev) title,
      in_detail := dotted [if provider \<noteq> title then provider else None, field ev ''stopReason''],
      in_severity := lit_value (if turn_failed ev then ''critical'' else ''info''),
      in_windowId := window_value s p, in_coalesce := True, in_authoritative := True\<rparr>"

text \<open>
  A finished turn; the user's own stop (\<open>cancelled\<close>) is not a failure and raises nothing. Titles and
  providers are compared by value.
\<close>

definition handle_turn ::
  "attention_config \<Rightarrow> int \<Rightarrow> jstr \<Rightarrow> json option \<Rightarrow> json \<Rightarrow> attention_state \<Rightarrow>
   attention_state \<times> (attention_error + handled)" where
  "handle_turn c now p session ev s =
     (let existing = existing_session p session s;
          failed = turn_failed ev;
          title = turn_title existing ev;
          provider = json_or (field ev ''agent'') (session_provider existing);
          s1 = (if truthy session
                then upsert_session c (obj
                  [(''id'', session), (''projectId'', str_value p), (''kind'', lit_value ''agent''),
                   (''title'', title), (''status'', lit_value (if failed then ''failed'' else ''done'')),
                   (''updatedAt'', int_value now), (''provider'', provider),
                   (''windowId'', window_value s p)]) s
                else s) in
      if field ev ''stopReason'' = lit_value ''cancelled'' \<and> \<not> failed then (s1, Inr Ignored)
      else raised (raise c now (turn_input s1 p session title provider ev) s1))"

definition handle_acp_event ::
  "attention_config \<Rightarrow> int \<Rightarrow> json \<Rightarrow> attention_state \<Rightarrow> attention_state \<times> (attention_error + handled)" where
  "handle_acp_event c now ev s =
     (case nonempty_value (as_str (field ev ''projectId'')) of
        None \<Rightarrow> (s, Inr Ignored)
      | Some pv \<Rightarrow>
          let p = template (Some pv);
              session = json_or (json_or (field ev ''attentionSessionId'') (field ev ''sessionId'')) (field ev ''targetId'') in
          if field ev ''type'' = lit_value ''agent.permission.requested'' \<and> truthy (field ev ''permId'')
          then raised (raise c now (permission_input s p session ev) s)
          else if field ev ''type'' = lit_value ''agent.permission.resolved'' \<and> truthy (field ev ''permId'')
          then (case clear_source c now (Some pv) (lit_value ''permission'') (field ev ''permId'')
                       (json_or (field ev ''resolution'') (lit_value ''permission_resolved'')) None s of
                  (s', b) \<Rightarrow> (s', Inr (Cleared_source b)))
          else if field ev ''type'' = lit_value ''agent.turn.completed'' \<and> truthy (field ev ''turnId'')
          then handle_turn c now p session ev s
          else (s, Inr Ignored))"

section \<open>Terminal events\<close>

text \<open>
  \<open>Number.isInteger\<close>; a number that is not a safe integer is printed with a point or a negative
  exponent exactly when it is not integral.
\<close>

definition integral :: "json option \<Rightarrow> bool" where
  "integral v =
     (case v of
        Some (JInt n) \<Rightarrow> True
      | Some (JFloat t) \<Rightarrow> (101 \<in> set t \<and> 43 \<in> set t) \<or> (46 \<notin> set t \<and> 101 \<notin> set t)
      | _ \<Rightarrow> False)"

definition terminal_session :: "att_session option \<Rightarrow> json \<Rightarrow> jstr \<Rightarrow> jstr \<Rightarrow> json option \<Rightarrow> json option \<Rightarrow> string \<Rightarrow> int \<Rightarrow> json" where
  "terminal_session existing ev p session title provider status at = obj
     [(''id'', str_value session), (''projectId'', str_value p), (''kind'', lit_value ''terminal''),
      (''title'', title), (''provider'', provider), (''status'', lit_value status), (''updatedAt'', int_value at),
      (''windowId'', (case field ev ''windowId'' of
          None \<Rightarrow> (case existing of None \<Rightarrow> None | Some x \<Rightarrow> map_option JStr (sn_windowId x))
        | Some v \<Rightarrow> Some v))]"

definition terminal_input ::
  "attention_state \<Rightarrow> json \<Rightarrow> jstr \<Rightarrow> jstr \<Rightarrow> json option \<Rightarrow> json option \<Rightarrow> bool \<Rightarrow> int \<Rightarrow> raise_input" where
  "terminal_input s ev p session title provider failed at =
     (let exit = integral (field ev ''exitCode'') in no_input
     \<lparr>in_projectId := str_value p, in_sessionId := str_value session,
      in_source := lit_value (if exit then ''terminal-exit'' else ''terminal-completion''),
      in_sourceId := str_value (session @ 58 # template (json_or (field ev ''streamEpoch'') (lit_value ''stream'')) @
        58 # template (if nullish (field ev ''offset'') then int_value at else field ev ''offset'') @
        58 # (if exit then template (field ev ''exitCode'') else js ''done'')),
      in_kind := lit_value (if failed then ''failed'' else ''completed''),
      in_title := finished_title failed title,
      in_detail := dotted
        [if truthy provider \<and> provider \<noteq> title then str_value (template provider @ js '' terminal'') else None,
         if failed then str_value (js ''Exited with code '' @ template (field ev ''exitCode'') @ js ''.'') else None],
      in_createdAt := int_value at,
      in_severity := lit_value (if failed then ''critical'' else ''info''),
      in_windowId := json_or (field ev ''windowId'') (window_value s p),
      in_coalesce := True, in_authoritative := True\<rparr>)"

definition handle_terminal_event ::
  "attention_config \<Rightarrow> int \<Rightarrow> json \<Rightarrow> attention_state \<Rightarrow> attention_state \<times> (attention_error + handled)" where
  "handle_terminal_event c now ev s =
     (case (nonempty_value (as_str (field ev ''projectId'')),
            nonempty_value (as_str (json_or (field ev ''sessionId'') (field ev ''id'')))) of
        (Some pv, Some sv) \<Rightarrow>
          let p = template (Some pv); session = template (Some sv);
              existing = jget (as_sessions s) (session_key p session);
              title = json_or (json_or (json_or (field ev ''title'') (session_title existing))
                        (session_provider existing)) (lit_value ''Terminal'');
              provider = json_or (field ev ''provider'') (session_provider existing);
              exit = integral (field ev ''exitCode'');
              at = time_or now (field ev ''completedAt'');
              failed = (exit \<and> field ev ''exitCode'' \<noteq> int_value 0) in
          if field ev ''busy'' = bool_value True
          then (upsert_session c (terminal_session existing ev p session title provider ''running'' now) s,
                Inr Running_again)
          else if \<not> exit \<and> nullish (field ev ''completedAt'') then (s, Inr Ignored)
          else
            let s1 = upsert_session c (terminal_session existing ev p session title provider
                       (if failed then ''failed'' else ''done'') at) s in
            raised (raise c now (terminal_input s1 ev p session title provider failed at) s1)
      | _ \<Rightarrow> (s, Inr Ignored))"

section \<open>The task ledger\<close>

definition ledger_project :: "attention_state \<Rightarrow> json option \<Rightarrow> json \<Rightarrow> json option" where
  "ledger_project s project task =
     json_or (json_or project (field task ''projectId''))
       (map_option JStr (project_id_for_alias s (field task ''project'')))"

definition ledger_occurrence :: "int \<Rightarrow> jstr \<Rightarrow> json \<Rightarrow> jstr" where
  "ledger_occurrence now task_id task =
     task_id @ 58 # int_text (time_or now (field task ''updatedAt'')) @ 58 # template (field task ''status'')"

definition ledger_input :: "int \<Rightarrow> attention_state \<Rightarrow> json option \<Rightarrow> jstr \<Rightarrow> json \<Rightarrow> raise_input" where
  "ledger_input now s project task_id task = no_input
     \<lparr>in_projectId := project, in_source := lit_value ''ledger'',
      in_sourceId := str_value (ledger_occurrence now task_id task), in_kind := field task ''status'',
      in_title := json_or (field task ''title'')
        (lit_value (if field task ''status'' = lit_value ''review'' then ''Review agent result'' else ''Agent task blocked'')),
      in_detail := json_or (field task ''result'') (field task ''detail''),
      in_severity := lit_value (if field task ''status'' = lit_value ''blocked'' then ''warning'' else ''info''),
      in_createdAt := field task ''updatedAt'',
      in_windowId := (case as_str project of None \<Rightarrow> None | Some p \<Rightarrow> window_value s p)\<rparr>"

definition handle_ledger_event ::
  "attention_config \<Rightarrow> int \<Rightarrow> json option \<Rightarrow> json option \<Rightarrow> attention_state \<Rightarrow>
   attention_state \<times> (attention_error + handled)" where
  "handle_ledger_event c now task_value project_value s =
     (case task_value of
        None \<Rightarrow> (s, Inr Ignored)
      | Some task \<Rightarrow>
          (case as_str (field task ''id'') of
             None \<Rightarrow> (s, Inr Ignored)
           | Some task_id \<Rightarrow>
               let project = ledger_project s project_value task in
               if \<not> truthy project then (s, Inr Ignored)
               else if field task ''status'' = lit_value ''review'' \<or> field task ''status'' = lit_value ''blocked''
               then
                 let known = truthy (map_option JStr (jget (as_index s)
                       (source_key (template project) (js ''ledger'') (ledger_occurrence now task_id task))));
                     s1 = (if known then s
                           else fst (clear_source_prefix c now project (js ''ledger'') (task_id @ [58])
                                  (lit_value ''ledger_updated'') s)) in
                 raised (raise c now (ledger_input now s1 project task_id task) s1)
               else (case clear_source_prefix c now project (js ''ledger'') (task_id @ [58])
                            (str_value (js ''ledger_'' @ template (json_or (field task ''status'') (lit_value ''updated'')))) s of
                       (s', b) \<Rightarrow> (s', Inr (Cleared_source b)))))"

section \<open>The projections of the windows\<close>

text \<open>The first record that shows a project owns it.\<close>

definition chosen_projects :: "stored_projection list \<Rightarrow> (jstr, stored_projection) jmap" where
  "chosen_projects records =
     fold (\<lambda>r m. fold (\<lambda>p m. if jhas m (pj_id p) then m else jset (pj_id p) r m) (pr_projects (sp_projection r)) m)
       records []"

definition explicit_sessions :: "projection \<Rightarrow> jstr list" where
  "explicit_sessions p =
     concat (map (\<lambda>a. case at_sessionId a of None \<Rightarrow> [] | Some x \<Rightarrow> [x]) (pr_attention p)) @
     concat (map (\<lambda>m. case pm_sessionId m of None \<Rightarrow> [] | Some x \<Rightarrow> [x]) (pr_permissions p))"

text \<open>\<^verbatim>\<open>{ ...session, windowId }\<close> cleaned.\<close>

definition projected_session :: "jstr \<Rightarrow> session \<Rightarrow> att_session option" where
  "projected_session window x =
     clean_session (JObj (jset (js ''windowId'') (JStr window) (ofields (session_json x))))"

definition session_input :: "jstr \<Rightarrow> jstr \<Rightarrow> att_session \<Rightarrow> raise_input" where
  "session_input project window x =
     (let failed = (sn_status x = Failed_session) in no_input
     \<lparr>in_projectId := str_value project, in_sessionId := str_value (sn_id x),
      in_source := lit_value ''projection-session'',
      in_sourceId := str_value (sn_id x @ 58 # int_text (sn_updatedAt x)),
      in_kind := lit_value (if failed then ''failed'' else ''completed''),
      in_title := finished_title failed (str_value (sn_title x)), in_createdAt := int_value (sn_updatedAt x),
      in_severity := lit_value (if failed then ''critical'' else ''info''),
      in_windowId := str_value window, in_coalesce := True\<rparr>)"

text \<open>\<^verbatim>\<open>item.id.replace(/^attention-/, '')\<close>\<close>

definition strip_attention :: "jstr \<Rightarrow> jstr" where
  "strip_attention i = (if take 10 i = js ''attention-'' then drop 10 i else i)"

definition ledger_item :: "attention \<Rightarrow> bool" where
  "ledger_item a =
     (take 15 (at_id a) = js ''attention-task-'' \<or> at_kind a = js ''review'' \<or> at_kind a = js ''blocked'')"

definition item_source :: "attention \<Rightarrow> jstr \<times> jstr" where
  "item_source a =
     (if ledger_item a
      then (js ''ledger'', strip_attention (at_id a) @ 58 # int_text (at_createdAt a) @ 58 # at_kind a)
      else (js ''projection-attention'', at_id a))"

definition item_input :: "jstr \<Rightarrow> jstr \<Rightarrow> attention \<Rightarrow> raise_input" where
  "item_input project window a = no_input
     \<lparr>in_projectId := str_value project, in_sessionId := map_option JStr (at_sessionId a),
      in_source := str_value (fst (item_source a)), in_sourceId := str_value (snd (item_source a)),
      in_kind := str_value (at_kind a), in_title := str_value (at_title a),
      in_detail := map_option JStr (at_detail a), in_createdAt := int_value (at_createdAt a),
      in_severity := str_value (at_severity a), in_windowId := str_value window, in_coalesce := True\<rparr>"

definition pending_input :: "jstr \<Rightarrow> jstr \<Rightarrow> permission \<Rightarrow> raise_input" where
  "pending_input project window m = no_input
     \<lparr>in_projectId := str_value project, in_sessionId := map_option JStr (pm_sessionId m),
      in_source := lit_value ''permission'', in_sourceId := str_value (pm_permId m),
      in_kind := lit_value ''permission'',
      in_title := str_value (if pm_title m \<noteq> [] then pm_title m
        else (if pm_agent m \<noteq> [] then pm_agent m else js ''Agent'') @ js '' needs you''),
      in_createdAt := int_value (pm_requestedAt m), in_windowId := str_value window, in_coalesce := True\<rparr>"

text \<open>The sources a project's projection stands for, with what each raises; a later one with the same key replaces an earlier one.\<close>

definition session_sources :: "jstr \<Rightarrow> stored_projection \<Rightarrow> (jstr \<times> raise_input) list" where
  "session_sources project r =
     concat (map (\<lambda>x. case projected_session (sp_windowId r) x of
         None \<Rightarrow> []
       | Some y \<Rightarrow>
           if ss_needsYou x \<and> sn_id y \<notin> set (explicit_sessions (sp_projection r))
           then [(source_key project (js ''projection-session'') (sn_id y @ 58 # int_text (sn_updatedAt y)),
                  session_input project (sp_windowId r) y)]
           else [])
       (filter (\<lambda>x. ss_projectId x = project) (pr_sessions (sp_projection r))))"

definition project_sources :: "jstr \<Rightarrow> stored_projection \<Rightarrow> (jstr \<times> raise_input) list" where
  "project_sources project r =
     session_sources project r @
     map (\<lambda>a. (source_key project (fst (item_source a)) (snd (item_source a)), item_input project (sp_windowId r) a))
       (filter (\<lambda>a. at_projectId a = project) (pr_attention (sp_projection r))) @
     map (\<lambda>m. (source_key project (js ''permission'') (pm_permId m), pending_input project (sp_windowId r) m))
       (filter (\<lambda>m. pm_projectId m = project) (pr_permissions (sp_projection r)))"

definition derived_sources :: "stored_projection list \<Rightarrow> (jstr, raise_input) jmap" where
  "derived_sources records =
     fold (\<lambda>e. jset (fst e) (snd e))
       (concat (map (\<lambda>e. project_sources (fst e) (snd e)) (chosen_projects records))) []"

text \<open>A project nobody shows keeps its sessions; the others get those of their owner.\<close>

definition next_sessions :: "stored_projection list \<Rightarrow> attention_state \<Rightarrow> (jstr, att_session) jmap" where
  "next_sessions records s =
     fold (\<lambda>e m. fold (\<lambda>x m. case projected_session (sp_windowId (snd e)) x of
                                None \<Rightarrow> m
                              | Some y \<Rightarrow> jset (session_key (fst e) (sn_id y)) y m)
            (filter (\<lambda>x. ss_projectId x = fst e) (pr_sessions (sp_projection (snd e)))) m)
       (chosen_projects records)
       (jfilter (\<lambda>k x. \<not> jhas (chosen_projects records) (sn_projectId x)) (as_sessions s))"

definition bounded_sessions :: "nat \<Rightarrow> (jstr, att_session) jmap \<Rightarrow> (jstr, att_session) jmap" where
  "bounded_sessions m sessions =
     take m (sort_by (\<lambda>a b. sn_updatedAt (snd b) - sn_updatedAt (snd a)) sessions)"

definition clear_unprojected ::
  "attention_config \<Rightarrow> int \<Rightarrow> (jstr, stored_projection) jmap \<Rightarrow> (jstr, raise_input) jmap \<Rightarrow> attention_state \<Rightarrow>
   attention_state" where
  "clear_unprojected c now present derived s =
     fold (\<lambda>e t. if jhas derived (fst e) then t
                 else (case jget (as_records t) (snd e) of
                         None \<Rightarrow> t
                       | Some r \<Rightarrow>
                           if jhas present (ar_projectId r) \<and> ar_active r
                           then clear_record c now (lit_value ''projection_acknowledged'') (lit_value ''desktop-projection'')
                                  (snd e) t
                           else t))
       (as_projected s) s"

definition kept_projected :: "(jstr, stored_projection) jmap \<Rightarrow> attention_state \<Rightarrow> (jstr, jstr) jmap" where
  "kept_projected present s =
     jfilter (\<lambda>k i. case jget (as_records s) i of None \<Rightarrow> False | Some r \<Rightarrow> \<not> jhas present (ar_projectId r))
       (as_projected s)"

fun raise_derived ::
  "attention_config \<Rightarrow> int \<Rightarrow> (jstr, raise_input) jmap \<Rightarrow> attention_state \<times> (jstr, jstr) jmap \<Rightarrow>
   (attention_state \<times> (jstr, jstr) jmap) \<times> attention_error option" where
  "raise_derived c now [] st = (st, None)"
| "raise_derived c now ((k, i) # es) st =
     (case raise c now i (fst st) of
        (s', Inl e) \<Rightarrow> ((s', snd st), Some e)
      | (s', Inr reply) \<Rightarrow>
          raise_derived c now es
            (s', (case as_str (field (rp_event reply) ''id'') of None \<Rightarrow> snd st | Some x \<Rightarrow> jset k x (snd st))))"

definition synchronize_projections ::
  "attention_config \<Rightarrow> int \<Rightarrow> stored_projection list \<Rightarrow> attention_state \<Rightarrow> attention_state \<times> (attention_error + bool)" where
  "synchronize_projections c now records s =
     (let present = chosen_projects records;
          derived = derived_sources records;
          sessions = next_sessions records s;
          s1 = clear_unprojected c now present derived s in
      (case raise_derived c now derived (s1, kept_projected present s1) of
         ((s2, _), Some e) \<Rightarrow> (s2, Inl e)
       | ((s2, projected), None) \<Rightarrow>
           let bounded = bounded_sessions (cf_maxSessions c) sessions;
               changed = (as_sessions s2 \<noteq> bounded);
               s3 = s2\<lparr>as_projected := drop_front (cf_maxRecords c * 8) projected, as_sessions := bounded\<rparr> in
           (if changed then bump s3 else s3, Inr changed)))"

section \<open>The merged projection\<close>

definition merged_session :: "attention_state \<Rightarrow> att_record list \<Rightarrow> session \<Rightarrow> session" where
  "merged_session s active x =
     (let events = session_events active (ss_projectId x) (ss_id x);
          needs = (events \<noteq> []) in
      x\<lparr>ss_status :=
          (if list_ex (\<lambda>r. ar_kind r = js ''failed'') events then Failed_session
           else if needs then Waiting_session
           else if ss_needsYou x \<or> ss_status x = Waiting_session then settled_status (ss_projectId x) (ss_id x) s
           else ss_status x),
        ss_needsYou := needs, ss_unread := needs\<rparr>)"

definition merged_attention :: "session list \<Rightarrow> att_record \<Rightarrow> attention" where
  "merged_attention sessions r =
     \<lparr>at_id = ar_id r, at_projectId = ar_projectId r, at_kind = ar_kind r, at_title = ar_title r,
      at_createdAt = ar_createdAt r, at_severity = ar_severity r,
      at_sessionId = (case ar_sessionId r of
          None \<Rightarrow> None
        | Some x \<Rightarrow>
            if x \<noteq> [] \<and> session_key (ar_projectId r) x \<in> set (map (\<lambda>y. session_key (ss_projectId y) (ss_id y)) sessions)
            then Some x else None),
      at_detail = (if ar_detail r = Some [] then None else ar_detail r)\<rparr>"

definition merge_projection :: "attention_state \<Rightarrow> projection \<Rightarrow> projection" where
  "merge_projection s p =
     (let active = filter (\<lambda>r. ar_projectId r \<in> set (map pj_id (pr_projects p))) (active_records s) in
      p\<lparr>pr_sessions := map (merged_session s active) (pr_sessions p),
        pr_attention := map (merged_attention (pr_sessions p)) active\<rparr>)"

end
