(* ===== verification/Attention_Bounds.thy ===== *)
theory Attention_Bounds
  imports Attention_Feeds
begin

text \<open>
  The bounds of the attention service: whatever is raised, cleared, projected or loaded, the records,
  the active records and the sessions stay within their limits, and trimming never drops a record
  that still asks for the user.
\<close>

section \<open>Maps of records\<close>

definition keyed :: "(jstr, att_record) jmap \<Rightarrow> bool" where
  "keyed m = (jmap_ok m \<and> (\<forall>e \<in> set m. fst e = ar_id (snd e)))"

definition actives :: "(jstr, att_record) jmap \<Rightarrow> att_record list" where
  "actives m = filter ar_active (map snd m)"

lemma active_records_actives: "active_records s = actives (as_records s)"
  by (simp add: active_records_def actives_def)

lemma keyed_Nil [simp]: "keyed []"
  by (simp add: keyed_def)

lemma keyed_jdel [simp]: "keyed m \<Longrightarrow> keyed (jdel k m)"
  by (auto simp: keyed_def set_jdel)

lemma keyed_jset [simp]: "keyed m \<Longrightarrow> keyed (jset (ar_id r) r m)"
  using set_jset_subset [of "ar_id r" r m] by (fastforce simp: keyed_def)

lemma keyed_jget: "keyed m \<Longrightarrow> jget m k = Some r \<Longrightarrow> ar_id r = k"
  unfolding keyed_def by (metis fst_conv snd_conv jget_Some_in)

lemma keyed_in: "keyed m \<Longrightarrow> r \<in> set (map snd m) \<Longrightarrow> jget m (ar_id r) = Some r"
  by (auto simp: keyed_def intro!: jget_in)

lemma length_actives_jset:
  "length (actives (jset k r m)) + (case jget m k of Some x \<Rightarrow> if ar_active x then 1 else 0 | None \<Rightarrow> 0) =
   length (actives m) + (if ar_active r then 1 else 0)"
  by (induction m) (auto simp: jset_def jget_def actives_def)

lemma length_actives_jset_le: "length (actives (jset k r m)) \<le> Suc (length (actives m))"
  using length_actives_jset [of k r m] by (auto split: option.splits if_splits)

lemma actives_jdel:
  assumes "jmap_ok m" "\<And>x. jget m k = Some x \<Longrightarrow> \<not> ar_active x"
  shows "actives (jdel k m) = actives m"
  using assms
proof (induction m)
  case (Cons e m)
  show ?case
  proof (cases "fst e = k")
    case True
    then have "\<not> ar_active (snd e)" "jdel k (e # m) = jdel k m" "jdel k m = m"
      using Cons.prems by (auto simp: jget_Cons jdel_def jmap_ok_def intro: jdel_id [unfolded jdel_def])
    then show ?thesis by (simp add: actives_def)
  next
    case False
    then show ?thesis using Cons by (auto simp: jget_Cons jdel_def actives_def jmap_ok_def)
  qed
qed (simp add: jdel_def)

lemma length_jdel_present: "jmap_ok m \<Longrightarrow> jget m k = Some r \<Longrightarrow> Suc (length (jdel k m)) = length m"
  by (cases m) (auto simp: length_jdel)

section \<open>Dropping records\<close>

lemma delete_record_records [simp]: "as_records (delete_record r s) = jdel (ar_id r) (as_records s)"
  "as_sessions (delete_record r s) = as_sessions s"
  by (simp_all add: delete_record_def)

lemma expire_step:
  assumes "keyed (as_records s)" "set es \<subseteq> set (as_records s)" "keyed (as_records t)"
    "set (as_records t) \<subseteq> set (as_records s)" "actives (as_records t) = actives (as_records s)"
  shows "let t' = fold (\<lambda>e t. if expired c now (snd e) then delete_record (snd e) t else t) es t in
    keyed (as_records t') \<and> set (as_records t') \<subseteq> set (as_records s) \<and>
    actives (as_records t') = actives (as_records s) \<and> as_sessions t' = as_sessions t"
  using assms(2-)
proof (induction es arbitrary: t)
  case (Cons e es)
  let ?t = "if expired c now (snd e) then delete_record (snd e) t else t"
  have "\<not> ar_active x" if "expired c now (snd e)" "jget (as_records t) (ar_id (snd e)) = Some x" for x
  proof -
    have "(ar_id (snd e), x) \<in> set (as_records s)"
      using that(2) Cons.prems(3) by (auto dest: jget_Some_in)
    moreover have "(ar_id (snd e), snd e) \<in> set (as_records s)"
      using Cons.prems(1) assms(1) by (cases e) (auto simp: keyed_def)
    ultimately have "x = snd e" using assms(1) unfolding keyed_def by (metis jget_in option.inject)
    then show ?thesis using that(1) by (simp add: expired_def)
  qed
  then have "actives (as_records ?t) = actives (as_records t)"
    using Cons.prems(2) by (auto simp: keyed_def intro!: actives_jdel)
  moreover have "set (as_records ?t) \<subseteq> set (as_records t)" by (auto simp: set_jdel)
  moreover have "keyed (as_records ?t)" "as_sessions ?t = as_sessions t" using Cons.prems(2) by auto
  ultimately show ?case using Cons.IH [of ?t] Cons.prems by (auto simp: Let_def)
qed simp

lemma expire_records:
  assumes "keyed (as_records s)"
  shows "keyed (as_records (expire_records c now s))"
    "actives (as_records (expire_records c now s)) = actives (as_records s)"
    "as_sessions (expire_records c now s) = as_sessions s"
  using expire_step [OF assms, of "as_records s" s c now] assms by (auto simp: Let_def expire_records_def)

lemma sort_by_Cons_in: "sort_by c xs = x # ys \<Longrightarrow> x \<in> set xs"
  by (metis list.set_intros(1) set_sort_by)

lemma drop_candidate_in:
  assumes "drop_candidate s = Some r"
  shows "r \<in> set (map snd (as_records s))"
  using assms by (auto simp: drop_candidate_def split: list.splits dest!: sort_by_Cons_in)

lemma drop_candidate_cleared:
  assumes "drop_candidate s = Some r" "length (actives (as_records s)) < length (as_records s)"
  shows "\<not> ar_active r"
proof -
  have "filter (\<lambda>r. \<not> ar_active r) (map snd (as_records s)) \<noteq> []"
  proof
    assume "filter (\<lambda>r. \<not> ar_active r) (map snd (as_records s)) = []"
    then have "actives (as_records s) = map snd (as_records s)"
      by (auto simp: actives_def filter_empty_conv intro!: filter_True)
    then show False using assms(2) by simp
  qed
  then obtain x xs where "sort_by (\<lambda>a b. cleared_time a - cleared_time b)
      (filter (\<lambda>r. \<not> ar_active r) (map snd (as_records s))) = x # xs"
    by (metis set_sort_by set_empty neq_Nil_conv)
  from sort_by_Cons_in [OF this] this show ?thesis using assms(1) by (simp add: drop_candidate_def)
qed

lemma drop_excess:
  assumes "keyed (as_records s)"
  shows "keyed (as_records (drop_excess c n s)) \<and> as_sessions (drop_excess c n s) = as_sessions s \<and>
    (length (as_records s) \<le> n + cf_maxRecords c \<longrightarrow> length (as_records (drop_excess c n s)) \<le> cf_maxRecords c) \<and>
    (length (actives (as_records s)) \<le> cf_maxRecords c \<longrightarrow>
       actives (as_records (drop_excess c n s)) = actives (as_records s))"
  using assms
proof (induction c n s rule: drop_excess.induct)
  case (2 c n s)
  show ?case
  proof (cases "length (as_records s) \<le> cf_maxRecords c \<or> drop_candidate s = None")
    case True
    moreover have "as_records s = []" if "drop_candidate s = None"
      using that by (auto simp: drop_candidate_def split: list.splits) (metis set_sort_by set_empty map_is_Nil_conv)
    ultimately show ?thesis using 2 by auto
  next
    case False
    then obtain r where r: "drop_candidate s = Some r" "cf_maxRecords c < length (as_records s)" by auto
    have in_map: "jget (as_records s) (ar_id r) = Some r"
      by (rule keyed_in [OF 2(2) drop_candidate_in [OF r(1)]])
    have shorter: "Suc (length (jdel (ar_id r) (as_records s))) = length (as_records s)"
      using in_map 2(2) by (auto simp: keyed_def intro: length_jdel_present)
    have "actives (jdel (ar_id r) (as_records s)) = actives (as_records s)"
      if "length (actives (as_records s)) \<le> cf_maxRecords c"
      using that drop_candidate_cleared [OF r(1)] r(2) in_map 2(2)
      by (intro actives_jdel) (auto simp: keyed_def)
    then show ?thesis using 2(1) [OF _ r(1)] r shorter 2(2) by auto
  qed
qed simp

lemma drop_records:
  assumes "keyed (as_records s)"
  shows "keyed (as_records (drop_records c s))" "as_sessions (drop_records c s) = as_sessions s"
    "length (as_records (drop_records c s)) \<le> cf_maxRecords c"
    "length (actives (as_records s)) \<le> cf_maxRecords c \<Longrightarrow>
       actives (as_records (drop_records c s)) = actives (as_records s)"
  using drop_excess [OF assms, of c "length (as_records s)"] by (simp_all add: drop_records_def)

section \<open>Clearing and trimming\<close>

text \<open>What holds between operations; sessions are bounded separately, as nothing here touches them.\<close>

definition records_ok :: "attention_config \<Rightarrow> attention_state \<Rightarrow> bool" where
  "records_ok c s =
     (keyed (as_records s) \<and> length (as_records s) \<le> cf_maxRecords c \<and>
      length (actives (as_records s)) \<le> cf_maxActive c)"

definition config_ok :: "attention_config \<Rightarrow> bool" where
  "config_ok c = (cf_maxActive c \<le> cf_maxRecords c)"

lemma emit_persist_fields [simp]:
  "as_records (emit e s) = as_records s" "as_records (persist s) = as_records s"
  "as_sessions (emit e s) = as_sessions s" "as_sessions (persist s) = as_sessions s"
  "as_records (bump s) = as_records s" "as_sessions (bump s) = as_sessions s"
  by (simp_all add: emit_def persist_def bump_def)

lemma cleared_record_fields [simp]: "ar_id (cleared_record now reason r) = ar_id r"
  "\<not> ar_active (cleared_record now reason r)"
  "ar_projectId (cleared_record now reason r) = ar_projectId r"
  by (simp_all add: cleared_record_def)

text \<open>What a trimming does, for states with at most \<open>n\<close> active records.\<close>

definition trims :: "attention_config \<Rightarrow> nat \<Rightarrow> (attention_state \<Rightarrow> attention_state) \<Rightarrow> bool" where
  "trims c n trim = (\<forall>s. keyed (as_records s) \<longrightarrow> length (actives (as_records s)) \<le> n \<longrightarrow>
     records_ok c (trim s) \<and> as_sessions (trim s) = as_sessions s)"

lemma clear_with_ok:
  assumes "trims c n trim" "keyed (as_records s)" "length (actives (as_records s)) \<le> Suc n"
    "jget (as_records s) i = Some r" "ar_active r"
  shows "records_ok c (clear_with trim now reason actor i s) \<and>
    as_sessions (clear_with trim now reason actor i s) = as_sessions s"
proof -
  let ?m = "jset i (cleared_record now reason r) (as_records s)"
  have "i = ar_id (cleared_record now reason r)" using keyed_jget [OF assms(2,4)] by simp
  then have "keyed ?m" using keyed_jset [OF assms(2), of "cleared_record now reason r"] by simp
  moreover have "length (actives ?m) \<le> n"
    using length_actives_jset [of i "cleared_record now reason r" "as_records s"] assms(3-5) by simp
  ultimately show ?thesis
    using assms(1,4,5) by (simp add: clear_with_def trims_def Let_def records_ok_def)
qed

lemma clear_with_idle:
  "\<not> is_active s i \<Longrightarrow> clear_with trim now reason actor i s = s"
  by (auto simp: clear_with_def is_active_def split: option.splits)

lemma fold_keeps:
  assumes "\<And>x t. x \<in> set xs \<Longrightarrow> P t \<Longrightarrow> P (f x t) \<and> g (f x t) = g t" "P t"
  shows "P (fold f xs t) \<and> g (fold f xs t) = g t"
  using assms by (induction xs arbitrary: t) auto

lemma evict_ok:
  assumes "trims c n trim" "keyed (as_records s)" "length (actives (as_records s)) \<le> Suc n"
    "rs \<noteq> []" "is_active s (ar_id (hd rs))" "cf_maxActive c \<le> Suc n"
  shows "records_ok c (evict now trim rs s) \<and> as_sessions (evict now trim rs s) = as_sessions s"
proof -
  let ?clear = "\<lambda>r. clear_with trim now (lit_value ''bounded_eviction'') (lit_value ''service'') (ar_id r)"
  have step: "records_ok c (?clear r t) \<and> as_sessions (?clear r t) = as_sessions t" if "records_ok c t" for r t
  proof (cases "is_active t (ar_id r)")
    case True
    then obtain x where "jget (as_records t) (ar_id r) = Some x" "ar_active x"
      by (auto simp: is_active_def split: option.splits)
    then show ?thesis
      using that assms(6) by (intro clear_with_ok [OF assms(1)]) (auto simp: records_ok_def)
  qed (use that in \<open>simp add: clear_with_idle\<close>)
  have rest: "records_ok c t \<Longrightarrow> records_ok c (fold ?clear qs t) \<and> as_sessions (fold ?clear qs t) = as_sessions t"
    for qs t by (rule fold_keeps) (use step in blast)
  obtain r rs' where rs: "rs = r # rs'" using assms(4) by (cases rs) auto
  obtain x where x: "jget (as_records s) (ar_id r) = Some x" "ar_active x"
    using assms(5) rs by (auto simp: is_active_def split: option.splits)
  show ?thesis
    using rest [OF conjunct1 [OF clear_with_ok [OF assms(1-3) x]]] clear_with_ok [OF assms(1-3) x]
    unfolding evict_def rs by simp
qed

lemma overflow_active:
  assumes "keyed (as_records s)" "overflow c s \<noteq> []"
  shows "is_active s (ar_id (hd (overflow c s)))" "cf_maxActive c < length (actives (as_records s))"
proof -
  let ?sorted = "sort_by (age_order (cf_collate c)) (active_records s)"
  have "overflow c s = take (length (active_records s) - cf_maxActive c) ?sorted"
    by (simp add: overflow_def Let_def)
  then have "hd (overflow c s) \<in> set (take (length (active_records s) - cf_maxActive c) ?sorted)"
    using assms(2) by (metis hd_in_set)
  then have "hd (overflow c s) \<in> set ?sorted" by (rule in_set_takeD)
  then have r: "hd (overflow c s) \<in> set (actives (as_records s))"
    by (simp add: active_records_actives)
  then have "jget (as_records s) (ar_id (hd (overflow c s))) = Some (hd (overflow c s))"
    using assms(1) by (intro keyed_in) (auto simp: actives_def)
  then show "is_active s (ar_id (hd (overflow c s)))" using r by (simp add: is_active_def actives_def)
  show "cf_maxActive c < length (actives (as_records s))"
    using assms(2) by (auto simp: overflow_def Let_def active_records_actives)
qed

lemma overflow_Nil: "overflow c s = [] \<Longrightarrow> length (actives (as_records s)) \<le> cf_maxActive c"
proof -
  have "sort_by (age_order (cf_collate c)) (active_records s) = [] \<Longrightarrow> active_records s = []"
    by (metis set_sort_by set_empty)
  then show "overflow c s = [] \<Longrightarrow> length (actives (as_records s)) \<le> cf_maxActive c"
    by (auto simp: overflow_def Let_def active_records_actives)
qed

lemma drop_records_ok:
  assumes "keyed (as_records s)" "length (actives (as_records s)) \<le> cf_maxActive c" "config_ok c"
  shows "records_ok c (drop_records c s) \<and> as_sessions (drop_records c s) = as_sessions s"
  using drop_records [OF assms(1), of c] assms(2,3) by (simp add: records_ok_def config_ok_def)

lemma trim_records_ok:
  assumes "config_ok c"
  shows "trims c n (trim_records c now n)"
proof (induction n)
  case 0
  show ?case
    using expire_records drop_records_ok [OF _ _ assms] by (auto simp: trims_def)
next
  case (Suc n)
  have "records_ok c (trim_records c now (Suc n) s) \<and> as_sessions (trim_records c now (Suc n) s) = as_sessions s"
    if s: "keyed (as_records s)" "length (actives (as_records s)) \<le> Suc n" for s
  proof -
    let ?s = "expire_records c now s"
    have e: "keyed (as_records ?s)" "length (actives (as_records ?s)) \<le> Suc n" "as_sessions ?s = as_sessions s"
      using expire_records [OF s(1)] s(2) by auto
    let ?t = "evict now (trim_records c now n) (overflow c ?s) ?s"
    have "keyed (as_records ?t) \<and> length (actives (as_records ?t)) \<le> cf_maxActive c \<and> as_sessions ?t = as_sessions s"
    proof (cases "overflow c ?s = []")
      case True
      then show ?thesis using e overflow_Nil [OF True] by (simp add: evict_def)
    next
      case False
      then show ?thesis
        using evict_ok [OF Suc e(1,2) False overflow_active(1) [OF e(1) False]] overflow_active(2) [OF e(1) False] e
        by (simp add: records_ok_def)
    qed
    then show ?thesis
      using drop_records_ok [OF _ _ assms, of ?t] by (auto simp: Let_def)
  qed
  then show ?case by (simp add: trims_def)
qed

text \<open>Any number of rounds from the number of active records on is the same trimming.\<close>

lemma clear_with_cong:
  assumes "\<And>t. keyed (as_records t) \<Longrightarrow> length (actives (as_records t)) \<le> n \<Longrightarrow> trim t = trim' t"
    and "keyed (as_records s)" "length (actives (as_records s)) \<le> Suc n"
  shows "clear_with trim now reason actor i s = clear_with trim' now reason actor i s"
proof (cases "jget (as_records s) i")
  case (Some r)
  show ?thesis
  proof (cases "ar_active r")
    case True
    let ?m = "jset i (cleared_record now reason r) (as_records s)"
    have "i = ar_id (cleared_record now reason r)" using keyed_jget [OF assms(2) Some] by simp
    then have "keyed ?m" using keyed_jset [OF assms(2), of "cleared_record now reason r"] by simp
    moreover have "length (actives ?m) \<le> n"
      using length_actives_jset [of i "cleared_record now reason r" "as_records s"] assms(3) Some True by simp
    ultimately show ?thesis using Some True assms(1) by (simp add: clear_with_def Let_def)
  qed (simp add: clear_with_def Some)
qed (simp add: clear_with_def)

lemma fold_same:
  assumes "\<And>x t. P t \<Longrightarrow> f x t = g x t \<and> P (g x t)" "P t"
  shows "fold f xs t = fold g xs t"
  using assms(2) by (induction xs arbitrary: t) (use assms(1) in auto)

lemma trim_records_Suc:
  assumes "config_ok c" "keyed (as_records s)" "length (actives (as_records s)) \<le> n"
  shows "trim_records c now (Suc n) s = trim_records c now n s"
  using assms(2,3)
proof (induction n arbitrary: s)
  case 0
  have "overflow c (expire_records c now s) = []"
    using expire_records(2) [OF 0(1), of c now] 0(2) by (simp add: overflow_def Let_def active_records_actives)
  then show ?case by (simp add: evict_def)
next
  case (Suc n)
  let ?s = "expire_records c now s"
  have e: "keyed (as_records ?s)" "length (actives (as_records ?s)) \<le> Suc n"
    using expire_records [OF Suc(2)] Suc(3) by auto
  let ?P = "\<lambda>t. keyed (as_records t) \<and> length (actives (as_records t)) \<le> Suc n"
  let ?f = "\<lambda>m r. clear_with (trim_records c now m) now (lit_value ''bounded_eviction'') (lit_value ''service'') (ar_id r)"
  have "evict now (trim_records c now (Suc n)) (overflow c ?s) ?s = evict now (trim_records c now n) (overflow c ?s) ?s"
  proof (cases "overflow c ?s = []")
    case False
    have "?f (Suc n) r t = ?f n r t \<and> ?P (?f n r t)" if t: "?P t" for r t
    proof
      show "?f (Suc n) r t = ?f n r t"
        by (rule clear_with_cong) (use t Suc.IH in auto)
      show "?P (?f n r t)"
      proof (cases "is_active t (ar_id r)")
        case True
        then obtain x where "jget (as_records t) (ar_id r) = Some x" "ar_active x"
          by (auto simp: is_active_def split: option.splits)
        then have "records_ok c (?f n r t)"
          using clear_with_ok [OF trim_records_ok [OF assms(1)]] t by blast
        then show ?thesis
          using overflow_active(2) [OF e(1) False] e(2) by (simp add: records_ok_def)
      qed (use t in \<open>simp add: clear_with_idle\<close>)
    qed
    moreover have "?P ?s" using e by simp
    ultimately show ?thesis unfolding evict_def by (rule fold_same)
  qed (simp add: evict_def)
  then show ?case by (simp only: trim_records.simps Let_def)
qed

lemma trim_records_fuel:
  assumes "config_ok c" "keyed (as_records s)" "length (actives (as_records s)) \<le> n"
  shows "trim_records c now n s = trim_state c now s"
proof -
  have "trim_records c now (length (actives (as_records s)) + k) s = trim_state c now s" for k
    using trim_records_Suc [OF assms(1,2)]
    by (induction k) (simp_all add: trim_state_def active_records_actives del: trim_records.simps)
  then show ?thesis using assms(3) by (metis le_add_diff_inverse)
qed

lemma trim_state_ok:
  assumes "config_ok c" "keyed (as_records s)"
  shows "records_ok c (trim_state c now s)" "as_sessions (trim_state c now s) = as_sessions s"
  using trim_records_ok [OF assms(1), of "length (active_records s)" now] assms(2)
  by (auto simp: trims_def trim_state_def active_records_actives)

section \<open>Every operation keeps the bounds\<close>

text \<open>\<open>keeps c s t\<close>: the step from \<open>s\<close> to \<open>t\<close> keeps the records within their bounds and the sessions as they are.\<close>

definition keeps :: "attention_config \<Rightarrow> attention_state \<Rightarrow> attention_state \<Rightarrow> bool" where
  "keeps c s t = (records_ok c s \<longrightarrow> records_ok c t \<and> as_sessions t = as_sessions s)"

named_theorems keeps_intros "steps that keep the bounds"

lemma keeps_refl [keeps_intros]: "keeps c s s"
  by (simp add: keeps_def)

lemma keeps_trans: "keeps c s t \<Longrightarrow> keeps c t u \<Longrightarrow> keeps c s u"
  by (auto simp: keeps_def)

lemma keeps_fold: "(\<And>x t. x \<in> set xs \<Longrightarrow> keeps c t (f x t)) \<Longrightarrow> keeps c s (fold f xs s)"
  by (induction xs arbitrary: s) (auto intro: keeps_refl keeps_trans)

lemma keeps_same: "as_records t = as_records s \<Longrightarrow> as_sessions t = as_sessions s \<Longrightarrow> keeps c s t"
  by (simp add: keeps_def records_ok_def)

lemma keeps_index [keeps_intros]: "keeps c s (s\<lparr>as_index := x\<rparr>)"
  by (simp add: keeps_same)

lemma keeps_bookkeeping [simp]: "keeps c s (persist t) = keeps c s t" "keeps c s (emit e t) = keeps c s t"
  "keeps c s (bump t) = keeps c s t"
  by (simp_all add: keeps_def records_ok_def)

lemma clear_record_keeps [keeps_intros]:
  assumes "config_ok c"
  shows "keeps c s (clear_record c now reason actor i s)"
proof (cases "is_active s i")
  case True
  then obtain r where r: "jget (as_records s) i = Some r" "ar_active r"
    by (auto simp: is_active_def split: option.splits)
  have "trims c n (trim_state c now)" for n
    using trim_state_ok [OF assms] by (simp add: trims_def)
  from clear_with_ok [OF this _ _ r, of "length (actives (as_records s))"] show ?thesis
    by (simp add: keeps_def clear_record_def records_ok_def)
qed (simp add: clear_record_def clear_with_idle keeps_refl)

lemma clear_where_keeps [keeps_intros]: "config_ok c \<Longrightarrow> keeps c s (clear_where c now p reason actor s)"
  unfolding clear_where_def
  by (rule keeps_fold) (auto split: option.splits intro: keeps_refl clear_record_keeps)

lemma clear_source_prefix_keeps [keeps_intros]:
  "config_ok c \<Longrightarrow> keeps c s (fst (clear_source_prefix c now project source prefix reason s))"
  by (simp add: clear_source_prefix_def Let_def clear_where_keeps)

text \<open>Writing a record back, and writing a new one.\<close>

lemma put_record_keeps:
  assumes "jget (as_records s) (ar_id r) = Some old" "ar_active r = ar_active old"
  shows "keeps c s (put_record r s)"
  using assms length_actives_jset [of "ar_id r" r "as_records s"]
  by (auto simp: keeps_def put_record_def records_ok_def length_jset)

lemma enhance_Inr:
  assumes "enhance now i r = Inr (r', changed)"
  shows "ar_id r' = ar_id r" "ar_active r' = ar_active r" "ar_projectId r' = ar_projectId r"
    "ar_sources r' = ar_sources r"
  using assms by (auto simp: enhance_def ebind_eq_Inr Let_def split: if_splits)

lemma indexed_record_id:
  assumes "records_ok c s" "indexed_record t s = Some r"
  shows "jget (as_records s) (ar_id r) = Some r"
proof -
  obtain i where "jget (as_records s) i = Some r"
    using assms(2) by (auto simp: indexed_record_def split: option.splits)
  then show ?thesis using assms(1) keyed_jget [of "as_records s" i r] by (simp add: records_ok_def)
qed

lemma raise_known_keeps:
  assumes "jget (as_records s) (ar_id r) = Some r"
  shows "keeps c s (fst (raise_known now i r s))"
proof (cases "enhance now i r")
  case (Inr x)
  obtain r' changed where x: "x = (r', changed)" by fastforce
  have "keeps c s (put_record r' s)"
    using enhance_Inr [OF Inr [unfolded x]] assms by (intro put_record_keeps) simp_all
  then show ?thesis
    by (auto simp: raise_known_def Inr x Let_def intro: keeps_intros keeps_trans)
qed (simp add: raise_known_def keeps_refl)

lemma coalesce_target_active:
  assumes "coalesce_target now i t session s = Some r"
  shows "r \<in> set (actives (as_records s))"
  using assms by (auto simp: coalesce_target_def latest_active_def active_records_actives
      split: option.splits if_splits list.splits dest!: sort_by_Cons_in)

lemma add_source_fields:
  "ar_id (fst (add_source t r s)) = ar_id r" "ar_active (fst (add_source t r s)) = ar_active r"
  "jget (as_records (snd (add_source t r s))) (ar_id r) = Some (fst (add_source t r s))"
  by (simp_all add: add_source_def Let_def put_record_def)

lemma add_source_keeps:
  assumes "jget (as_records s) (ar_id r) = Some r"
  shows "keeps c s (snd (add_source t r s))"
proof -
  let ?r = "r\<lparr>ar_sources := drop (length (ar_sources r @ [(rt_source t, rt_sourceId t)]) - 8)
      (ar_sources r @ [(rt_source t, rt_sourceId t)])\<rparr>"
  have "keeps c (s\<lparr>as_index := x\<rparr>) (put_record ?r (s\<lparr>as_index := x\<rparr>))" for x
    using assms by (intro put_record_keeps) simp_all
  then have "keeps c s (put_record ?r (s\<lparr>as_index := x\<rparr>))" for x
    by (rule keeps_trans [OF keeps_index])
  then show ?thesis by (simp add: add_source_def Let_def)
qed

lemma raise_coalesced_keeps:
  assumes "jget (as_records s) (ar_id r) = Some r"
  shows "keeps c s (fst (raise_coalesced now i t r s))"
proof -
  let ?r = "fst (add_source t r s)" and ?s = "snd (add_source t r s)"
  have s: "keeps c s ?s" by (rule add_source_keeps [OF assms])
  show ?thesis
  proof (cases "enhance now i ?r")
    case (Inr x)
    obtain r' changed where x: "x = (r', changed)" by fastforce
    have "keeps c ?s (put_record r' ?s)"
      using enhance_Inr [OF Inr [unfolded x]] add_source_fields [of t r s]
      by (intro put_record_keeps [where old = ?r]) simp_all
    then show ?thesis
      using Inr x s by (auto simp: raise_coalesced_def case_prod_unfold Let_def intro: keeps_trans)
  qed (simp add: raise_coalesced_def case_prod_unfold s)
qed

lemma store_record_keeps [keeps_intros]:
  assumes "config_ok c"
  shows "keeps c s (store_record c now t r s)"
proof -
  have "keyed (jset (ar_id r) r (as_records s))" if "records_ok c s"
    using that by (simp add: records_ok_def)
  then show ?thesis
    using trim_state_ok [OF assms] by (auto simp: keeps_def store_record_def Let_def put_record_def records_ok_def)
qed

lemma raise_new_keeps:
  assumes "config_ok c"
  shows "keeps c s (fst (raise_new c now i t session s))"
proof -
  have "keeps c s (supersede c now t session s)"
    using assms by (auto simp: supersede_def split: option.splits intro: keeps_intros)
  then show ?thesis
    using assms by (auto simp: raise_new_def Let_def split: sum.splits intro: keeps_intros keeps_trans)
qed

lemma raise_keeps [keeps_intros]:
  assumes "config_ok c"
  shows "keeps c s (fst (raise c now i s))"
proof (cases "check_raise i")
  case (Inr t)
  let ?s = "s\<lparr>as_index := jdel (target_key t) (as_index s)\<rparr>"
  have known: "keeps c s (fst (raise_known now i r s))" if "indexed_record t s = Some r" for r
    using indexed_record_id [OF _ that] raise_known_keeps unfolding keeps_def by blast
  have coalesced: "keeps c s (fst (raise_coalesced now i t r ?s))"
    if "coalesce_target now i t session ?s = Some r" for r session
  proof -
    have "jget (as_records ?s) (ar_id r) = Some r" if "records_ok c s"
      using that coalesce_target_active [OF \<open>coalesce_target now i t session ?s = Some r\<close>]
      by (simp add: records_ok_def actives_def keyed_in)
    then have "records_ok c s \<Longrightarrow> keeps c ?s (fst (raise_coalesced now i t r ?s))"
      using raise_coalesced_keeps by blast
    then show ?thesis using keeps_index [of c s] unfolding keeps_def by metis
  qed
  show ?thesis
  proof (cases "indexed_record t s")
    case None
    have new: "keeps c s (fst (raise_new c now i t session ?s))" for session
      by (rule keeps_trans [OF keeps_index raise_new_keeps [OF assms]])
    show ?thesis
      using None coalesced new by (auto simp: raise_def Inr Let_def keeps_index split: sum.splits option.splits)
  qed (simp add: raise_def Inr known)
qed (simp add: raise_def keeps_refl)

lemma acknowledge_keeps [keeps_intros]:
  "config_ok c \<Longrightarrow> keeps c s (fst (acknowledge c now actor project event reason s))"
  by (auto simp: acknowledge_def keeps_refl split: option.splits sum.splits intro: keeps_intros)

lemma clear_source_keeps [keeps_intros]:
  "config_ok c \<Longrightarrow> keeps c s (fst (clear_source c now project source sid reason actor s))"
  by (auto simp: clear_source_def keeps_refl split: option.splits sum.splits intro: keeps_intros)

lemma acknowledge_one_keeps: "config_ok c \<Longrightarrow> keeps c (fst st) (fst (acknowledge_one c now a p i st))"
proof -
  assume c: "config_ok c"
  obtain s' reply where ack: "acknowledge c now (Some a) (Some (JStr p)) (Some (JStr i))
      (lit_value ''desktop_observed'') (fst st) = (s', reply)" by fastforce
  have "keeps c (fst st) s'"
    using acknowledge_keeps [OF c, of "fst st" now "Some a" "Some (JStr p)" "Some (JStr i)"
        "lit_value ''desktop_observed''"] ack by simp
  then show ?thesis by (cases reply) (simp_all add: acknowledge_one_def ack)
qed

lemma keeps_fold_fst:
  assumes "\<And>x t. keeps c (fst t) (fst (f x t))"
  shows "keeps c (fst st) (fst (fold f xs st))"
proof (induction xs arbitrary: st)
  case (Cons x xs)
  show ?case using keeps_trans [OF assms Cons.IH] by simp
qed (simp add: keeps_refl)

lemma acknowledge_visible_session_keeps:
  assumes "config_ok c" "acknowledge_visible_session c now w p x s = Inr (s', ids)"
  shows "keeps c s s'"
proof -
  have "keeps c s (fst (fold (\<lambda>r. acknowledge_one c now a q (ar_id r)) y (s, [])))" for a q y
    using keeps_fold_fst [OF acknowledge_one_keeps [OF assms(1)], of "(s, [])"] by simp
  then have "fold (\<lambda>r. acknowledge_one c now a q (ar_id r)) y (s, []) = (s', ids) \<Longrightarrow> keeps c s s'" for a q y
    by (metis fst_conv)
  then show ?thesis
    using assms(2) unfolding acknowledge_visible_session_def by (elim ebind_InrE) simp
qed

lemma acknowledge_visible_sessions_keeps:
  assumes "config_ok c"
  shows "keeps c (fst st) (fst (fst (acknowledge_visible_sessions c now w p xs st)))"
proof (induction xs arbitrary: st)
  case (Cons x xs)
  show ?case
  proof (cases "acknowledge_visible_session c now (Some (JStr w)) (Some (JStr p)) (Some (JStr x)) (fst st)")
    case (Inr r)
    obtain s' ids where r: "r = (s', ids)" by fastforce
    show ?thesis
      using keeps_trans [OF acknowledge_visible_session_keeps [OF assms Inr [unfolded r]]
          Cons.IH [of "(s', snd st @ ids)", unfolded fst_conv]] Inr r by simp
  qed (simp add: keeps_refl)
qed (simp add: keeps_refl)

lemma update_surface_keeps [keeps_intros]:
  assumes "config_ok c"
  shows "keeps c s (fst (update_surface c now window focused project visible projects s))"
proof -
  have put: "keeps c s (put_surface w sf s)" for w sf by (simp add: put_surface_def keeps_same)
  have seen: "keeps c s t"
    if "acknowledge_visible_sessions c now w p xs (put_surface w sf s, []) = ((t, ids), e)" for w p xs sf t ids e
    using keeps_trans [OF put acknowledge_visible_sessions_keeps [OF assms,
          where st = "(put_surface w sf s, [])" and xs = xs, unfolded fst_conv]] that by (metis fst_conv)
  show ?thesis
    unfolding update_surface_def Let_def
    by (auto simp: put keeps_refl split: sum.split option.split prod.split) (rule seen, assumption)+
qed

lemma remove_surface_keeps [keeps_intros]: "keeps c s (fst (remove_surface window s))"
  by (auto simp: remove_surface_def keeps_same keeps_refl split: sum.splits)

lemma flush_keeps [keeps_intros]: "keeps c s (fst (flush_persistence s))" "keeps c s (persist_task b s)"
  by (auto simp: flush_persistence_def persist_task_def Let_def keeps_same)

text \<open>The bounds, with that of the sessions.\<close>

definition attention_inv :: "attention_config \<Rightarrow> attention_state \<Rightarrow> bool" where
  "attention_inv c s = (records_ok c s \<and> length (as_sessions s) \<le> cf_maxSessions c)"

lemma keeps_inv: "keeps c s t \<Longrightarrow> attention_inv c s \<Longrightarrow> attention_inv c t"
  by (simp add: keeps_def attention_inv_def)

lemma upsert_session_inv: "attention_inv c s \<Longrightarrow> attention_inv c (upsert_session c v s)"
  by (auto simp: upsert_session_def put_session_def Let_def attention_inv_def records_ok_def drop_front_def
      split: option.splits)

lemma raise_inv: "config_ok c \<Longrightarrow> attention_inv c s \<Longrightarrow> attention_inv c (fst (raised (raise c now i s)))"
  using keeps_inv [OF raise_keeps] by (simp add: raised_def)

lemma handle_turn_inv:
  "config_ok c \<Longrightarrow> attention_inv c s \<Longrightarrow> attention_inv c (fst (handle_turn c now p session ev s))"
  by (simp add: handle_turn_def Let_def raise_inv upsert_session_inv)

lemma handle_acp_event_inv:
  assumes "config_ok c" "attention_inv c s"
  shows "attention_inv c (fst (handle_acp_event c now ev s))"
proof -
  have "attention_inv c (fst (clear_source c now pv src sid reason actor s))" for pv src sid reason actor
    by (rule keeps_inv [OF clear_source_keeps [OF assms(1)] assms(2)])
  then show ?thesis
    using assms by (simp add: handle_acp_event_def Let_def raise_inv handle_turn_inv case_prod_unfold split: option.split)
qed

lemma handle_terminal_event_inv:
  "config_ok c \<Longrightarrow> attention_inv c s \<Longrightarrow> attention_inv c (fst (handle_terminal_event c now ev s))"
  by (auto simp: handle_terminal_event_def Let_def raise_inv upsert_session_inv split: option.splits)

lemma handle_ledger_event_inv:
  assumes "config_ok c" "attention_inv c s"
  shows "attention_inv c (fst (handle_ledger_event c now task project s))"
proof -
  have prefix: "attention_inv c (fst (clear_source_prefix c now p src pre reason s))" for p src pre reason
    by (rule keeps_inv [OF clear_source_prefix_keeps [OF assms(1)] assms(2)])
  then show ?thesis
    using assms by (simp add: handle_ledger_event_def Let_def raise_inv case_prod_unfold split: option.split)
qed

lemma raise_derived_keeps:
  assumes "config_ok c"
  shows "keeps c (fst st) (fst (fst (raise_derived c now es st)))"
proof (induction es arbitrary: st)
  case (Cons e es)
  obtain k i where e: "e = (k, i)" by fastforce
  obtain s' reply where r: "raise c now i (fst st) = (s', reply)" by fastforce
  have first: "keeps c (fst st) s'" using raise_keeps [OF assms, of "fst st" now i] r by simp
  have "keeps c (fst st) (fst (fst (raise_derived c now es (s', m))))" for m
    using keeps_trans [OF first] Cons.IH [of "(s', m)"] by simp
  then show ?case by (cases reply) (simp_all add: e r first)
qed (simp add: keeps_refl)

lemma clear_unprojected_keeps:
  assumes "config_ok c"
  shows "keeps c s (clear_unprojected c now present derived s)"
  unfolding clear_unprojected_def
  by (rule keeps_fold) (simp add: keeps_refl clear_record_keeps [OF assms] split: option.split)

lemma synchronize_projections_inv:
  assumes "config_ok c" "attention_inv c s"
  shows "attention_inv c (fst (synchronize_projections c now records s))"
proof -
  define present derived where "present = chosen_projects records" and "derived = derived_sources records"
  define s1 where "s1 = clear_unprojected c now present derived s"
  obtain s2 projected e where r: "raise_derived c now derived (s1, kept_projected present s1) = ((s2, projected), e)"
    by (metis surj_pair)
  have "keeps c s s1" unfolding s1_def by (rule clear_unprojected_keeps [OF assms(1)])
  moreover have "keeps c s1 s2"
    using raise_derived_keeps [OF assms(1), of "(s1, kept_projected present s1)" now derived] r by simp
  ultimately have s2: "attention_inv c s2" using assms(2) by (blast intro: keeps_inv)
  show ?thesis
    using s2 r unfolding synchronize_projections_def
    by (cases e) (simp_all add: Let_def present_def [symmetric] derived_def [symmetric] s1_def [symmetric] bounded_sessions_def
        attention_inv_def records_ok_def bump_def persist_def)
qed

section \<open>Runs\<close>

text \<open>One call, with any arguments, or the queued task that stores the state.\<close>

inductive attention_step :: "attention_config \<Rightarrow> attention_state \<Rightarrow> attention_state \<Rightarrow> bool" for c where
  "attention_step c s (fst (raise c now i s))"
| "attention_step c s (fst (acknowledge c now actor project event reason s))"
| "attention_step c s (fst (clear_source c now project source sid reason actor s))"
| "attention_step c s (fst (update_surface c now window focused project visible projects s))"
| "attention_step c s (fst (remove_surface window s))"
| "attention_step c s (fst (handle_acp_event c now ev s))"
| "attention_step c s (fst (handle_terminal_event c now ev s))"
| "attention_step c s (fst (handle_ledger_event c now task project s))"
| "attention_step c s (fst (synchronize_projections c now records s))"
| "attention_step c s (fst (flush_persistence s))"
| "attention_step c s (persist_task stored s)"

inductive attention_reach :: "attention_config \<Rightarrow> attention_state \<Rightarrow> bool" for c where
  "attention_reach c (load_state c now stored)"
| "attention_reach c s \<Longrightarrow> attention_step c s t \<Longrightarrow> attention_reach c t"

lemma attention_step_inv:
  assumes "attention_step c s t" "config_ok c" "attention_inv c s"
  shows "attention_inv c t"
  using assms(1)
proof cases
  case (6 now ev) then show ?thesis using handle_acp_event_inv [OF assms(2,3)] by simp
next
  case (7 now ev) then show ?thesis using handle_terminal_event_inv [OF assms(2,3)] by simp
next
  case (8 now task project) then show ?thesis using handle_ledger_event_inv [OF assms(2,3)] by simp
next
  case (9 now records) then show ?thesis using synchronize_projections_inv [OF assms(2,3)] by simp
qed (use assms(2,3) in \<open>auto intro: keeps_inv keeps_intros\<close>)

lemma load_record_keyed: "keyed (as_records s) \<Longrightarrow> keyed (as_records (load_record now v s)) \<and>
    as_sessions (load_record now v s) = as_sessions s"
  by (auto simp: load_record_def put_record_def split: option.split)

lemma load_session_records: "as_records (load_session v s) = as_records s \<and>
    length (as_sessions (load_session v s)) \<le> Suc (length (as_sessions s))"
  by (auto simp: load_session_def length_jset split: option.split)

lemma load_sessions: "as_records (fold load_session vs s) = as_records s \<and>
    length (as_sessions (fold load_session vs s)) \<le> length vs + length (as_sessions s)"
proof (induction vs arbitrary: s)
  case (Cons v vs)
  show ?case using Cons [of "load_session v s"] load_session_records [of v s] by simp
qed simp

lemma load_state_inv:
  assumes "config_ok c"
  shows "attention_inv c (load_state c now stored)"
proof -
  have empty_inv: "attention_inv c (new_attention_state v)" for v
    by (simp add: attention_inv_def records_ok_def new_attention_state_def actives_def)
  have "attention_inv c (trim_state c now (fold load_session (drop_front (cf_maxSessions c) ws) (fold (load_record now) vs
      (new_attention_state v\<lparr>as_revision := n\<rparr>))))" for ws vs n v
  proof -
    let ?s = "new_attention_state v\<lparr>as_revision := n\<rparr>"
    let ?t = "fold (load_record now) vs ?s"
    let ?u = "fold load_session (drop_front (cf_maxSessions c) ws) ?t"
    have t: "keyed (as_records ?t) \<and> as_sessions ?t = as_sessions ?s"
      by (rule fold_keeps) (use load_record_keyed in \<open>auto simp: new_attention_state_def\<close>)
    have "as_records ?u = as_records ?t" "length (as_sessions ?u) \<le> cf_maxSessions c"
      using load_sessions [of "drop_front (cf_maxSessions c) ws" ?t] t
      by (auto simp: drop_front_def new_attention_state_def)
    then show ?thesis
      using t trim_state_ok [OF assms, of ?u now] by (simp add: attention_inv_def)
  qed
  then show ?thesis
    using empty_inv by (simp add: load_state_def Let_def split: option.split)
qed

lemma attention_reach_inv: "attention_reach c s \<Longrightarrow> config_ok c \<Longrightarrow> attention_inv c s"
  by (induction rule: attention_reach.induct) (auto intro: load_state_inv attention_step_inv)

section \<open>Clearing one record\<close>

text \<open>Within the bounds trimming clears nothing and tells nobody anything.\<close>

lemma delete_record_emitted [simp]: "as_emitted (delete_record r s) = as_emitted s"
  by (simp add: delete_record_def)

lemma expire_emitted [simp]: "as_emitted (expire_records c now s) = as_emitted s"
proof -
  have "as_emitted (fold (\<lambda>e t. if expired c now (snd e) then delete_record (snd e) t else t) es t) = as_emitted t" for es t
    by (induction es arbitrary: t) auto
  then show ?thesis by (simp add: expire_records_def)
qed

lemma drop_emitted [simp]: "as_emitted (drop_records c s) = as_emitted s"
proof -
  have "as_emitted (drop_excess c n s) = as_emitted s" for n
    by (induction c n s rule: drop_excess.induct) (auto split: option.split)
  then show ?thesis by (simp add: drop_records_def)
qed

lemma trim_state_calm:
  assumes "config_ok c" "keyed (as_records s)" "length (actives (as_records s)) \<le> cf_maxActive c"
  shows "actives (as_records (trim_state c now s)) = actives (as_records s)"
    "as_emitted (trim_state c now s) = as_emitted s"
proof -
  let ?s = "expire_records c now s"
  have e: "keyed (as_records ?s)" "actives (as_records ?s) = actives (as_records s)"
    using expire_records [OF assms(2)] by simp_all
  have "overflow c ?s = []" using assms(3) e(2) by (simp add: overflow_def Let_def active_records_actives)
  then have "trim_records c now n s = drop_records c ?s" for n by (cases n) (simp_all add: evict_def)
  then have trim: "trim_state c now s = drop_records c ?s" by (simp add: trim_state_def)
  show "actives (as_records (trim_state c now s)) = actives (as_records s)"
    using drop_records(4) [OF e(1), of c] e(2) assms(1,3) by (simp add: trim config_ok_def)
  show "as_emitted (trim_state c now s) = as_emitted s" by (simp add: trim)
qed

lemma is_active_iff: "keyed (as_records s) \<Longrightarrow> is_active s i \<longleftrightarrow> i \<in> ar_id ` set (actives (as_records s))"
proof
  assume k: "keyed (as_records s)"
  show "is_active s i \<Longrightarrow> i \<in> ar_id ` set (actives (as_records s))"
    using keyed_jget [OF k, of i] by (force simp: is_active_def actives_def dest: jget_Some_in split: option.splits)
  assume "i \<in> ar_id ` set (actives (as_records s))"
  then obtain r where "r \<in> set (map snd (as_records s))" "ar_active r" "i = ar_id r"
    by (auto simp: actives_def)
  then show "is_active s i" using keyed_in [OF k] by (simp add: is_active_def)
qed

lemma clear_record_exact:
  assumes "config_ok c" "records_ok c s" "jget (as_records s) i = Some r" "ar_active r"
  shows "is_active (clear_record c now reason actor i s) j \<longleftrightarrow> is_active s j \<and> j \<noteq> i"
    "as_emitted (clear_record c now reason actor i s) =
     as_emitted s @ [cleared_event actor (cleared_record now reason r)]"
proof -
  let ?r = "cleared_record now reason r"
  let ?s = "s\<lparr>as_records := jset i ?r (as_records s), as_revision := as_revision s + 1\<rparr>"
  let ?t = "trim_state c now ?s"
  have k: "keyed (as_records s)" "i = ar_id ?r"
    using assms(2) keyed_jget [OF _ assms(3)] by (auto simp: records_ok_def)
  then have ks: "keyed (as_records ?s)" using keyed_jset [OF k(1), of ?r] by simp
  have "length (actives (as_records ?s)) \<le> cf_maxActive c"
    using length_actives_jset [of i ?r "as_records s"] assms(2-4) by (simp add: records_ok_def)
  note calm = trim_state_calm [OF assms(1) ks this]
  have clear: "clear_record c now reason actor i s = emit (cleared_event actor ?r) (persist ?t)"
    by (simp add: clear_record_def clear_with_def assms(3,4) Let_def)
  have "is_active (clear_record c now reason actor i s) j \<longleftrightarrow> is_active ?s j"
    using is_active_iff [OF ks, of j] is_active_iff [of ?t j] trim_state_ok(1) [OF assms(1) ks, of now] calm(1)
    by (simp add: clear is_active_def [of "emit e t" for e t] is_active_def [of ?t] records_ok_def)
  then show "is_active (clear_record c now reason actor i s) j \<longleftrightarrow> is_active s j \<and> j \<noteq> i"
    using assms(3,4) by (auto simp: is_active_def split: option.splits)
  show "as_emitted (clear_record c now reason actor i s) = as_emitted s @ [cleared_event actor ?r]"
    using calm(2) by (simp add: clear emit_def persist_def)
qed

lemma safe_identifier_Inr: "safe_identifier m v = Inr i \<Longrightarrow> v = Some (JStr i)"
  by (auto simp: safe_identifier_def validate_identifier_Inr split: sum.splits)

text \<open>When an acknowledgement is applied.\<close>

lemma acknowledge_cases:
  assumes "acknowledge c now actor project event reason s = (s', reply)"
  obtains (same) "s' = s" "\<And>i. reply \<noteq> Ack_applied i"
  | (applied) a i r why where "actor = Some a" "js ''observe'' \<in> set (ac_capabilities a)"
      "project = Some (JStr (ac_projectId a))" "event = Some (JStr i)" "jget (as_records s) i = Some r"
      "ar_projectId r = ac_projectId a" "ar_active r" "reply = Ack_applied (ar_id r)"
      "s' = clear_record c now why (Some (JStr (ac_id a))) i s"
proof (cases "\<exists>i. reply = Ack_applied i")
  case True
  obtain a where a: "actor = Some a" "js ''observe'' \<in> set (ac_capabilities a)"
    using assms True by (cases actor) (auto simp: acknowledge_def split: if_splits)
  obtain p where p: "safe_identifier 240 project = Inr p"
    using assms True a by (cases "safe_identifier 240 project") (auto simp: acknowledge_def)
  obtain i where i: "safe_identifier 240 event = Inr i"
    using assms True a p by (cases "safe_identifier 240 event") (auto simp: acknowledge_def)
  obtain r where r: "jget (as_records s) i = Some r"
    using assms True a p i by (cases "jget (as_records s) i") (auto simp: acknowledge_def split: if_splits)
  have "ac_projectId a = p" "ar_projectId r = p" "ar_active r" "reply = Ack_applied (ar_id r)"
    "\<exists>why. s' = clear_record c now why (Some (JStr (ac_id a))) i s"
    using assms True a p i r by (auto simp: acknowledge_def split: if_splits)
  then show ?thesis
    using applied a r safe_identifier_Inr [OF p] safe_identifier_Inr [OF i] by blast
next
  case False
  then show ?thesis
    using assms same by (auto simp: acknowledge_def split: option.splits sum.splits if_splits)
qed

section \<open>Properties\<close>

lemma new_attention_config_ok:
  "new_attention_config records active sessions retention digest collate = Some c \<Longrightarrow>
   config_ok c \<and> cf_maxRecords c = records \<and> cf_maxActive c = min active records \<and> cf_maxSessions c = sessions"
  by (auto simp: new_attention_config_def config_ok_def split: if_splits)

text \<open>
  C34. However calls arrive, and whatever was stored, the service never keeps more records, active
  records or sessions than its limits allow, and every record is kept once, under its own identifier.
  And trimming does its work in bounded time: from any records kept that way, however many there are,
  the recursion of the evictions needs no more rounds than there are active records, and what is left
  is within the limits.
\<close>

theorem attention_bounds:
  assumes "new_attention_config records active sessions retention digest collate = Some c" "attention_reach c s"
  shows "length (as_records s) \<le> records \<and> length (active_records s) \<le> min active records \<and>
    length (as_sessions s) \<le> sessions \<and> distinct (jkeys (as_records s)) \<and>
    (\<forall>(k, r) \<in> set (as_records s). ar_id r = k) \<and>
    (\<forall>t now n. distinct (jkeys (as_records t)) \<and> (\<forall>(k, r) \<in> set (as_records t). ar_id r = k) \<and>
        length (active_records t) \<le> n \<longrightarrow>
      trim_records c now n t = trim_state c now t \<and> length (as_records (trim_state c now t)) \<le> records \<and>
      length (active_records (trim_state c now t)) \<le> min active records)"
proof -
  have c: "config_ok c" "cf_maxRecords c = records" "cf_maxActive c = min active records" "cf_maxSessions c = sessions"
    using new_attention_config_ok [OF assms(1)] by simp_all
  have inv: "attention_inv c s" by (rule attention_reach_inv [OF assms(2) c(1)])
  have keyed: "keyed (as_records t) \<longleftrightarrow> distinct (jkeys (as_records t)) \<and> (\<forall>(k, r) \<in> set (as_records t). ar_id r = k)" for t
    by (auto simp: keyed_def jmap_ok_def jkeys_def)
  have "trim_records c now n t = trim_state c now t \<and> length (as_records (trim_state c now t)) \<le> records \<and>
      length (active_records (trim_state c now t)) \<le> min active records"
    if "keyed (as_records t)" "length (active_records t) \<le> n" for t now n
    using trim_records_fuel [OF c(1) that(1)] trim_state_ok(1) [OF c(1) that(1)] that(2) c(2,3)
    by (simp add: active_records_actives records_ok_def)
  then have trim: "\<forall>t now n. distinct (jkeys (as_records t)) \<and> (\<forall>(k, r) \<in> set (as_records t). ar_id r = k) \<and>
        length (active_records t) \<le> n \<longrightarrow>
      trim_records c now n t = trim_state c now t \<and> length (as_records (trim_state c now t)) \<le> records \<and>
      length (active_records (trim_state c now t)) \<le> min active records"
    unfolding keyed by blast
  have "keyed (as_records s)" "length (as_records s) \<le> records" "length (active_records s) \<le> min active records"
    "length (as_sessions s) \<le> sessions"
    using inv c(2-4) by (simp_all add: attention_inv_def records_ok_def active_records_actives)
  then show ?thesis using trim unfolding keyed by blast
qed

text \<open>
  C35. An acknowledgement that is applied comes from an actor that may observe the project of the event;
  it clears exactly that event, leaves every other active event active, and tells the subscribers of
  this one change. An acknowledgement that is not applied changes nothing.
\<close>

theorem acknowledge_clears_exactly:
  assumes "config_ok c" "attention_reach c s"
    and "acknowledge c now actor project event reason s = (s', reply)"
  shows "(\<exists>i r a. reply = Ack_applied i \<and> event = Some (JStr i) \<and> actor = Some a \<and>
      js ''observe'' \<in> set (ac_capabilities a) \<and> project = Some (JStr (ac_projectId a)) \<and>
      jget (as_records s) i = Some r \<and> ar_projectId r = ac_projectId a \<and>
      (\<forall>j. is_active s' j \<longleftrightarrow> is_active s j \<and> j \<noteq> i) \<and>
      (\<exists>e. as_emitted s' = as_emitted s @ [e] \<and> field e ''type'' = lit_value ''attention.cleared'' \<and>
        field e ''eventId'' = str_value i)) \<or>
    (s' = s \<and> (\<forall>i. reply \<noteq> Ack_applied i))"
  using assms(3)
proof (cases rule: acknowledge_cases)
  case (applied a i r why)
  have ok: "records_ok c s" using attention_reach_inv [OF assms(2,1)] by (simp add: attention_inv_def)
  have i: "ar_id r = i" using keyed_jget [OF _ applied(5)] ok by (simp add: records_ok_def)
  let ?e = "cleared_event (Some (JStr (ac_id a))) (cleared_record now why r)"
  have "field ?e ''type'' = lit_value ''attention.cleared''" "field ?e ''eventId'' = str_value i"
    by (simp_all add: cleared_event_def emitted_event_def field_obj_Cons lit_value_def str_value_def i)
  note exact = this clear_record_exact [OF assms(1) ok applied(5,7), of now why "Some (JStr (ac_id a))", folded applied(9)]
  show ?thesis
    by (intro disjI1 exI [of _ i] exI [of _ r] exI [of _ a] conjI exI [of _ ?e])
      (use applied(1-8) i exact in simp_all)
qed simp

section \<open>An example\<close>

definition example_config :: attention_config where
  "example_config = \<lparr>cf_maxRecords = 2, cf_maxActive = 2, cf_maxSessions = 2, cf_retention = 1000,
     cf_digest = (\<lambda>t. []), cf_collate = example_collate\<rparr>"

definition example_input :: raise_input where
  "example_input = no_input\<lparr>in_projectId := lit_value ''p'', in_source := lit_value ''s'', in_sourceId := lit_value ''i'',
     in_kind := lit_value ''review'', in_title := lit_value ''T''\<rparr>"

definition example_attention :: attention_state where
  "example_attention = fst (raise example_config 5 example_input (load_state example_config 0 None))"

definition example_att_record :: att_record where
  "example_att_record = \<lparr>ar_id = js ''attention-'', ar_projectId = js ''p'', ar_kind = js ''review'', ar_title = js ''T'',
     ar_detail = None, ar_severity = js ''info'', ar_createdAt = 5, ar_updatedAt = 5, ar_active = True,
     ar_sessionId = None, ar_windowId = None, ar_clearedAt = None, ar_clearReason = None,
     ar_sources = [(js ''s'', js ''i'')]\<rparr>"

definition example_actor :: actor where
  "example_actor = \<lparr>ac_id = js ''d'', ac_surface = js ''companion'', ac_projectId = js ''p'',
     ac_capabilities = [js ''observe'']\<rparr>"

lemma example_config_new:
  "new_attention_config 2 2 2 1000 (\<lambda>t. []) example_collate = Some example_config"
  by (simp add: new_attention_config_def example_config_def)

lemma example_attention_reach: "attention_reach example_config example_attention"
  unfolding example_attention_def by (rule attention_reach.intros(2)) (rule attention_reach.intros(1), rule attention_step.intros(1))

lemma example_names: "identifier_ok 240 (js ''p'')" "identifier_ok 80 (js ''s'')" "identifier_ok 500 (js ''i'')"
  "identifier_ok 240 (js ''attention-'')"
  by (simp_all add: js_def identifier_ok_def is_alnum_unit_def is_digit_unit_def is_id_unit_def)

lemma safe_identifier_str: "identifier_ok m x \<Longrightarrow> safe_identifier m (Some (JStr x)) = Inr x"
  by (simp add: safe_identifier_def validate_identifier_def)

lemma example_check: "check_raise example_input =
    Inr \<lparr>rt_projectId = js ''p'', rt_kind = js ''review'', rt_source = js ''s'', rt_sourceId = js ''i''\<rparr>"
  by (simp add: check_raise_def example_input_def no_input_def lit_value_def safe_identifier_str example_names
      member_text_def ATTENTION_KINDS_def)

lemma example_input_fields: "in_sessionId example_input = None" "in_detail example_input = None"
  "in_title example_input = lit_value ''T''" "in_severity example_input = None"
  "in_createdAt example_input = None" "in_windowId example_input = None"
  by (simp_all add: example_input_def no_input_def)

lemma example_fresh: "fresh_record 5 example_input
    \<lparr>rt_projectId = js ''p'', rt_kind = js ''review'', rt_source = js ''s'', rt_sourceId = js ''i''\<rparr>
    (js ''attention-'') None None False = example_att_record"
  by (simp add: fresh_record_def example_input_fields example_att_record_def safe_text_def lit_value_def optional_text_def
      member_text_def default_severity_def time_or_def nonneg_def clean_text_def js_trim_def js_def
      is_control_unit_def is_space_unit_def)

lemma example_attention_records: "as_records example_attention = [(js ''attention-'', example_att_record)]"
proof -
  let ?t = "\<lparr>rt_projectId = js ''p'', rt_kind = js ''review'', rt_source = js ''s'', rt_sourceId = js ''i''\<rparr>"
  have load: "load_state example_config 0 None = new_attention_state None" by (simp add: load_state_def Let_def)
  have "as_records (store_record example_config 5 ?t example_att_record s) = [(js ''attention-'', example_att_record)]"
    if "as_records s = []" for s
    using that by (simp add: store_record_def put_record_def jset_def trim_state_def active_records_def
        example_att_record_def example_config_def expire_records_def expired_def overflow_def evict_def drop_records_def
        Let_def)
  then show ?thesis
    by (simp add: example_attention_def raise_def example_check load indexed_record_def new_attention_state_def
        raise_session_def example_input_fields nullish_def coalesce_target_def raise_new_def supersede_def
        attention_event_id_def safe_identifier_str example_names optional_identifier_def example_fresh
        example_config_def [THEN arg_cong, where f = cf_digest] Let_def)
qed

lemma example_acknowledged: "\<exists>s'. acknowledge example_config 9 (Some example_actor) (lit_value ''p'') (lit_value ''attention-'')
    None example_attention = (s', Ack_applied (js ''attention-''))"
  by (simp add: acknowledge_def example_actor_def lit_value_def safe_identifier_str example_names
      example_attention_records jget_Cons) (simp add: example_att_record_def)

theorem attention_bounds_witness:
  "length (as_records example_attention) = 1 \<and> length (active_records example_attention) \<le> min 2 2 \<and>
   length (active_records (trim_state example_config 9 (example_attention\<lparr>as_records :=
     map (\<lambda>k. (k, example_att_record\<lparr>ar_id := k\<rparr>)) [js ''a'', js ''b'', js ''c'']\<rparr>))) \<le> 2"
proof -
  let ?t = "example_attention\<lparr>as_records := map (\<lambda>k. (k, example_att_record\<lparr>ar_id := k\<rparr>)) [js ''a'', js ''b'', js ''c'']\<rparr>"
  note all = attention_bounds [OF example_config_new example_attention_reach]
  have "distinct (jkeys (as_records ?t)) \<and> (\<forall>(k, r) \<in> set (as_records ?t). ar_id r = k) \<and> length (active_records ?t) \<le> 3"
    by (simp add: jkeys_def js_def active_records_def)
  then have "length (active_records (trim_state example_config 9 ?t)) \<le> min 2 2" using all by blast
  moreover have "length (active_records example_attention) \<le> min 2 2" using all by blast
  ultimately show ?thesis by (simp add: example_attention_records)
qed

theorem acknowledge_clears_exactly_witness:
  "\<exists>s'. acknowledge example_config 9 (Some example_actor) (lit_value ''p'') (lit_value ''attention-'') None
      example_attention = (s', Ack_applied (js ''attention-'')) \<and>
    is_active example_attention (js ''attention-'') \<and> \<not> is_active s' (js ''attention-'')"
proof -
  obtain s' where s': "acknowledge example_config 9 (Some example_actor) (lit_value ''p'') (lit_value ''attention-'')
      None example_attention = (s', Ack_applied (js ''attention-''))"
    using example_acknowledged by blast
  have "config_ok example_config" by (simp add: config_ok_def example_config_def)
  from acknowledge_clears_exactly [OF this example_attention_reach s'] have "\<not> is_active s' (js ''attention-'')"
    by auto
  moreover have "is_active example_attention (js ''attention-'')"
    by (simp add: is_active_def example_attention_records jget_Cons example_att_record_def)
  ultimately show ?thesis using s' by blast
qed

end
