(* ===== verification/Desktop_State.thy ===== *)
theory Desktop_State
  imports Acp_Redaction Event_Log Terminal_Cursor Attention_Bounds
begin

text \<open>
  The state the desktop shares with its devices, \<open>electron/companion/desktopState.cjs\<close>: it turns what
  the windows, terminals, agents and the task ledger report into events of the replay log, and builds
  the snapshot of everything from the stored projections. \<open>records\<close> is what the projection store lists
  at the time of the call, \<open>label\<close> the window label function, \<open>c\<close> the bounds of the attention service.
\<close>

section \<open>State\<close>

datatype desktop_error =
    De_log event_log_error | De_projection projection_error | De_attention attention_error
  | De_identifier

text \<open>\<open>ds_heard\<close> is what the listeners were given, oldest first.\<close>

record desktop =
  ds_log :: event_log
  ds_revision :: int
  ds_attention :: "attention_state option"
  ds_heard :: "json list"

definition ACP_EVENT_TYPES :: "string list" where
  "ACP_EVENT_TYPES = [''agent.turn.delta'', ''agent.turn.completed'', ''agent.permission.requested'',
     ''agent.permission.resolved'']"

definition optional_label :: "nat \<Rightarrow> json option \<Rightarrow> jstr option" where
  "optional_label m v =
     (case as_str v of
        None \<Rightarrow> None
      | Some s \<Rightarrow> if clean_text s = [] then None else Some (take m (clean_text s)))"

definition label_value :: "nat \<Rightarrow> json option \<Rightarrow> json option" where
  "label_value m v = map_option JStr (optional_label m v)"

section \<open>Appending\<close>

definition log_input :: "string \<Rightarrow> json \<Rightarrow> int \<Rightarrow> json option \<Rightarrow> append_input" where
  "log_input type payload at audience =
     \<lparr>ai_type = lit_value type, ai_payload = Some payload, ai_id = None, ai_at = Some (JInt at), ai_audience = audience\<rparr>"

definition append_event :: "int \<Rightarrow> append_input \<Rightarrow> desktop \<Rightarrow> desktop \<times> (desktop_error + json)" where
  "append_event now i d =
     (case log_append now i (ds_log d) of
        Inl e \<Rightarrow> (d, Inl (De_log e))
      | Inr (l, v) \<Rightarrow> (d\<lparr>ds_log := l, ds_heard := ds_heard d @ [v]\<rparr>, Inr v))"

section \<open>The attention service\<close>

text \<open>
  The desktop subscribes to the attention service: every event that is emitted is appended, and one
  that cannot be appended is dropped.
\<close>

definition without_type :: "json \<Rightarrow> json" where
  "without_type v = JObj (filter (\<lambda>p. fst p \<noteq> js ''type'') (ofields v))"

definition deliver :: "int \<Rightarrow> json \<Rightarrow> desktop \<Rightarrow> desktop" where
  "deliver now e d =
     (if field e ''type'' = lit_value ''attention.raised'' \<or> field e ''type'' = lit_value ''attention.cleared''
      then fst (append_event now
        \<lparr>ai_type = field e ''type'', ai_payload = Some (without_type e), ai_id = None,
         ai_at = (if \<not> nullish (field e ''createdAt'') then field e ''createdAt''
                  else if \<not> nullish (field e ''clearedAt'') then field e ''clearedAt'' else Some (JInt now)),
         ai_audience = None\<rparr> d)
      else d)"

definition with_attention ::
  "int \<Rightarrow> (attention_state \<Rightarrow> attention_state \<times> (attention_error + 'a)) \<Rightarrow> desktop \<Rightarrow>
   desktop \<times> (desktop_error + 'a option)" where
  "with_attention now f d =
     (case ds_attention d of
        None \<Rightarrow> (d, Inr None)
      | Some a \<Rightarrow>
          let (a', r) = f a in
          (fold (deliver now) (drop (length (as_emitted a)) (as_emitted a')) (d\<lparr>ds_attention := Some a'\<rparr>),
           (case r of Inl e \<Rightarrow> Inl (De_attention e) | Inr x \<Rightarrow> Inr (Some x))))"

definition synchronize_attention ::
  "attention_config \<Rightarrow> int \<Rightarrow> stored_projection list \<Rightarrow> desktop \<Rightarrow> desktop \<times> (desktop_error + bool option)" where
  "synchronize_attention c now records d = with_attention now (synchronize_projections c now records) d"

section \<open>Windows\<close>

text \<open>\<open>#projectForWindow\<close> and \<open>#projectionForWindow\<close>\<close>

definition project_for_window :: "(jstr \<Rightarrow> json option) \<Rightarrow> jstr \<Rightarrow> session list \<Rightarrow> project \<Rightarrow> json" where
  "project_for_window label window sessions p =
     (let named = jset (js ''windowId'') (JStr window) (ofields (project_json sessions p)) in
      JObj (case optional_label 240 (label window) of
              None \<Rightarrow> named
            | Some n \<Rightarrow> jset (js ''windowName'') (JStr n) named))"

definition session_for_window :: "jstr \<Rightarrow> session \<Rightarrow> json" where
  "session_for_window window s = JObj (jset (js ''windowId'') (JStr window) (ofields (session_json s)))"

definition projection_for_window ::
  "(jstr \<Rightarrow> jstr \<Rightarrow> int) \<Rightarrow> (jstr \<Rightarrow> json option) \<Rightarrow> jstr \<Rightarrow> projection \<Rightarrow> projection_error + projection" where
  "projection_for_window collate label window p =
     sanitize_projection collate (Some (JObj
       (jset (js ''sessions'') (JArr (map (session_for_window window) (pr_sessions p)))
       (jset (js ''projects'') (JArr (map (project_for_window label window (pr_sessions p)) (pr_projects p)))
         (ofields (projection_json p))))))"

definition projection_published ::
  "attention_config \<Rightarrow> int \<Rightarrow> (jstr \<Rightarrow> json option) \<Rightarrow> stored_projection list \<Rightarrow> jstr \<Rightarrow> publish_result \<Rightarrow>
   desktop \<Rightarrow> desktop \<times> (desktop_error + json option)" where
  "projection_published c now label records window result d =
     (case published_projection result of
        None \<Rightarrow> (d, Inr None)
      | Some p \<Rightarrow>
          let d1 = d\<lparr>ds_revision := ds_revision d + 1\<rparr> in
          (case projection_for_window (cf_collate c) label window p of
             Inl e \<Rightarrow> (d1, Inl (De_projection e))
           | Inr clean \<Rightarrow>
               (case append_event now (log_input ''project.updated'' (obj
                        [(''windowId'', str_value window), (''revision'', int_value (pr_revision p)),
                         (''projection'', Some (projection_json clean))]) now None) d1 of
                  (d2, Inl e) \<Rightarrow> (d2, Inl e)
                | (d2, Inr event) \<Rightarrow>
                    (case synchronize_attention c now records d2 of
                       (d3, Inl e) \<Rightarrow> (d3, Inl e)
                     | (d3, Inr _) \<Rightarrow> (d3, Inr (Some event))))))"

definition projection_removed ::
  "attention_config \<Rightarrow> int \<Rightarrow> stored_projection list \<Rightarrow> jstr \<Rightarrow> desktop \<Rightarrow> desktop \<times> (desktop_error + json)" where
  "projection_removed c now records window d =
     (let d1 = d\<lparr>ds_revision := ds_revision d + 1\<rparr> in
      (case append_event now (log_input ''project.updated'' (obj
               [(''windowId'', str_value window), (''removed'', bool_value True),
                (''revision'', int_value (ds_revision d1))]) now None) d1 of
         (d2, Inl e) \<Rightarrow> (d2, Inl e)
       | (d2, Inr event) \<Rightarrow>
           (case synchronize_attention c now records d2 of
              (d3, Inl e) \<Rightarrow> (d3, Inl e)
            | (d3, Inr _) \<Rightarrow> (d3, Inr event))))"

section \<open>Terminals\<close>

definition observed_event :: "jstr \<Rightarrow> jstr \<Rightarrow> json option \<Rightarrow> json \<Rightarrow> (string \<times> json) option" where
  "observed_event project terminal channel payload =
     (let at = (\<lambda>k. (k, field payload k));
          common = [(''projectId'', str_value project), (''terminalId'', str_value terminal), at ''streamEpoch''] in
      if channel = lit_value ''terminal:observer-output''
      then Some (''terminal.output'', obj (common @ [at ''startOffset'', at ''endOffset'', at ''data'']))
      else if channel = lit_value ''terminal:observer-exit''
      then Some (''terminal.exit'', obj (common @ [at ''offset'', at ''exitStatus'']))
      else if channel = lit_value ''terminal:observer-activity''
      then Some (''session.updated'', obj
        [(''projectId'', str_value project), (''sessionId'', str_value terminal), at ''streamEpoch'', at ''offset'',
         (''busy'', bool_value (safe_bool (field payload ''busy''))),
         (''completedAt'', Some (case field payload ''completedAt'' of None \<Rightarrow> JNull | Some v \<Rightarrow> v))])
      else if channel = lit_value ''terminal:observer-snapshot-required''
      then Some (''terminal.snapshot'', obj (common @
        [at ''endOffset'', (''snapshotRequired'', bool_value True), at ''reason'']))
      else None)"

fun is_object_value :: "json option \<Rightarrow> bool" where
  "is_object_value (Some (JObj _)) = True"
| "is_object_value (Some (JArr _)) = True"
| "is_object_value _ = False"

definition terminal_observer_event ::
  "int \<Rightarrow> json option \<Rightarrow> json option \<Rightarrow> json option \<Rightarrow> desktop \<Rightarrow> desktop \<times> (desktop_error + json option)" where
  "terminal_observer_event now project channel payload d =
     (case (nonempty_value (as_str project), payload) of
        (Some pv, Some body) \<Rightarrow>
          if \<not> is_object_value payload then (d, Inr None)
          else (case nonempty_value (as_str (field body ''id'')) of
                  None \<Rightarrow> (d, Inr None)
                | Some tv \<Rightarrow>
                    (case observed_event (template (Some pv)) (template (Some tv)) channel body of
                       None \<Rightarrow> (d, Inr None)
                     | Some (type, clean) \<Rightarrow>
                         (case append_event now (log_input type clean now None) d of
                            (d', Inl e) \<Rightarrow> (d', Inl e)
                          | (d', Inr v) \<Rightarrow> (d', Inr (Some v)))))
      | _ \<Rightarrow> (d, Inr None))"

definition output_of :: "json option \<Rightarrow> output_value" where
  "output_of v =
     (case v of
        None \<Rightarrow> Text []
      | Some JNull \<Rightarrow> Text []
      | Some (JStr s) \<Rightarrow> Text s
      | _ \<Rightarrow> Other_value)"

definition snapshot_fields :: "snapshot \<Rightarrow> (string \<times> json option) list" where
  "snapshot_fields s =
     [(''streamEpoch'', str_value (sn_streamEpoch s)), (''output'', str_value (sn_output s)),
      (''startOffset'', int_value (int (sn_startOffset s))), (''endOffset'', int_value (int (sn_endOffset s))),
      (''truncated'', bool_value (sn_truncated s)), (''exited'', bool_value (sn_exited s)),
      (''exitStatus'', sn_exitStatus s)]"

definition positive :: "json option \<Rightarrow> bool" where
  "positive v = (case as_int v of None \<Rightarrow> False | Some n \<Rightarrow> 0 < n)"

text \<open>The snapshot a terminal's resume result carries; \<open>None\<close> when it has none or an invalid one.\<close>

definition observed_snapshot :: "json \<Rightarrow> snapshot option" where
  "observed_snapshot result =
     (let build = (\<lambda>r. case r of Inl _ \<Rightarrow> None | Inr s \<Rightarrow> Some s) in
      if field result ''mode'' = lit_value ''snapshot'' \<and> truthy (field result ''snapshot'')
      then (let v = the (field result ''snapshot'') in
        build (make_bounded_snapshot (field v ''streamEpoch'') (output_of (field v ''output'')) (field v ''endOffset'')
          (Some (JInt DEFAULT_SNAPSHOT_BYTES)) (field v ''truncated'') (field v ''exited'') (field v ''exitStatus'')))
      else if field result ''mode'' = lit_value ''current'' \<and> truthy (field result ''cursor'')
      then (let v = the (field result ''cursor'') in
        build (make_bounded_snapshot (field v ''streamEpoch'') (Text []) (field v ''offset'')
          (Some (JInt DEFAULT_SNAPSHOT_BYTES)) (bool_value (positive (field v ''offset''))) (bool_value False) None))
      else None)"

definition terminal_observer_snapshot ::
  "int \<Rightarrow> json option \<Rightarrow> json option \<Rightarrow> json \<Rightarrow> json option \<Rightarrow> desktop \<Rightarrow> desktop \<times> (desktop_error + json option)" where
  "terminal_observer_snapshot now project terminal result audience d =
     (case (nonempty_value (as_str project), nonempty_value (as_str terminal), observed_snapshot result) of
        (Some pv, Some tv, Some s) \<Rightarrow>
          (case append_event now (log_input ''terminal.snapshot'' (obj
                  ([(''projectId'', Some pv), (''terminalId'', Some tv), (''mode'', field result ''mode'')] @
                   snapshot_fields s @
                   [(''resetReason'', map_option (\<lambda>t. JStr (take 80 t)) (as_str (field result ''resetReason'')))]))
                  now audience) d of
             (d', Inl e) \<Rightarrow> (d', Inl e)
           | (d', Inr v) \<Rightarrow> (d', Inr (Some v)))
      | _ \<Rightarrow> (d, Inr None))"

section \<open>The snapshot\<close>

text \<open>Every project of every record in order; the first record that shows a project owns it.\<close>

definition first_by :: "('a \<Rightarrow> 'k) \<Rightarrow> 'a list \<Rightarrow> ('k, 'a) jmap" where
  "first_by f xs = fold (\<lambda>x m. if jhas m (f x) then m else jset (f x) x m) xs []"

definition shown_projects :: "stored_projection list \<Rightarrow> (stored_projection \<times> project) list" where
  "shown_projects records =
     concat (map (\<lambda>r. map (Pair r) (pr_projects (sp_projection r))) records)"

definition owned_projects :: "stored_projection list \<Rightarrow> (jstr, stored_projection \<times> project) jmap" where
  "owned_projects records = first_by (\<lambda>x. pj_id (snd x)) (shown_projects records)"

definition project_ids :: "stored_projection list \<Rightarrow> jstr list" where
  "project_ids records = jkeys (owned_projects records)"

definition project_ids_for_window :: "stored_projection list \<Rightarrow> jstr \<Rightarrow> jstr list" where
  "project_ids_for_window records window =
     jkeys (jfilter (\<lambda>k x. sp_windowId (fst x) = window) (owned_projects records))"

definition owns :: "stored_projection list \<Rightarrow> jstr \<Rightarrow> jstr \<Rightarrow> bool" where
  "owns records window project =
     (case jget (owned_projects records) project of None \<Rightarrow> False | Some x \<Rightarrow> sp_windowId (fst x) = window)"

definition owned_items :: "stored_projection list \<Rightarrow> (projection \<Rightarrow> 'a list) \<Rightarrow> ('a \<Rightarrow> jstr) \<Rightarrow> ('a \<Rightarrow> jstr) \<Rightarrow>
   (stored_projection \<times> 'a) list" where
  "owned_items records items project_of key_of =
     map snd (first_by (\<lambda>x. key_of (snd x))
       (filter (\<lambda>x. owns records (sp_windowId (fst x)) (project_of (snd x)))
         (concat (map (\<lambda>r. map (Pair r) (items (sp_projection r))) records))))"

definition max_revision :: "stored_projection list \<Rightarrow> int" where
  "max_revision records = fold (\<lambda>r m. max m (pr_revision (sp_projection r))) records 0"

definition snapshot_json ::
  "(jstr \<Rightarrow> json option) \<Rightarrow> int \<Rightarrow> int \<Rightarrow> stored_projection list \<Rightarrow> json" where
  "snapshot_json label now revision records = obj
     [(''projectionKind'', lit_value PROJECTION_KIND), (''revision'', int_value revision),
      (''generatedAt'', int_value now),
      (''freshness'', lit_value (if records \<noteq> [] \<and> list_all (\<lambda>r. pr_live (sp_projection r)) records
                                then ''live'' else ''stale'')),
      (''projects'', Some (JArr (map (\<lambda>e. case snd e of (r, p) \<Rightarrow>
          project_for_window label (sp_windowId r) (pr_sessions (sp_projection r)) p) (owned_projects records)))),
      (''sessions'', Some (JArr (map (\<lambda>x. session_for_window (sp_windowId (fst x)) (snd x))
          (owned_items records pr_sessions ss_projectId ss_id)))),
      (''attention'', Some (JArr (map (\<lambda>x. attention_json (snd x))
          (owned_items records pr_attention at_projectId at_id)))),
      (''permissions'', Some (JArr (map (\<lambda>x. permission_json (snd x))
          (owned_items records pr_permissions pm_projectId pm_permId))))]"

definition desktop_snapshot ::
  "attention_config \<Rightarrow> int \<Rightarrow> (jstr \<Rightarrow> json option) \<Rightarrow> stored_projection list \<Rightarrow> desktop \<Rightarrow>
   desktop \<times> (desktop_error + projection)" where
  "desktop_snapshot c now label records d =
     (case synchronize_attention c now records d of
        (d1, Inl e) \<Rightarrow> (d1, Inl e)
      | (d1, Inr _) \<Rightarrow>
          let revision = max (ds_revision d1) (max_revision records);
              d2 = d1\<lparr>ds_revision := revision\<rparr> in
          (d2, (case sanitize_projection (cf_collate c) (Some (snapshot_json label now revision records)) of
                  Inl e \<Rightarrow> Inl (De_projection e)
                | Inr p \<Rightarrow>
                    (case ds_attention d2 of
                       None \<Rightarrow> Inr p
                     | Some a \<Rightarrow>
                         (case sanitize_projection (cf_collate c) (Some (projection_json (merge_projection a p))) of
                            Inl e \<Rightarrow> Inl (De_projection e)
                          | Inr q \<Rightarrow> Inr q)))))"

section \<open>Agents, terminals and the ledger\<close>

definition acp_session_event ::
  "attention_config \<Rightarrow> int \<Rightarrow> json option \<Rightarrow> bool \<Rightarrow> desktop \<Rightarrow> desktop \<times> (desktop_error + json option)" where
  "acp_session_event c now event record_replay d =
     (case event of
        None \<Rightarrow> (d, Inr None)
      | Some ev \<Rightarrow>
          if \<not> truthy event \<or> member_text ACP_EVENT_TYPES (field ev ''type'') = None \<or>
             nonempty_value (as_str (field ev ''projectId'')) = None then (d, Inr None)
          else (case sanitize_acp_session_event now (int_value now) event of
                  Inl _ \<Rightarrow> (d, Inr None)
                | Inr clean \<Rightarrow>
                    if \<not> record_replay then
                      (case with_attention now (handle_acp_event c now clean)
                              (d\<lparr>ds_log := fst (log_invalidate (ds_log d))\<rparr>) of
                         (d', Inl e) \<Rightarrow> (d', Inl e)
                       | (d', Inr _) \<Rightarrow> (d', Inr None))
                    else
                      (case append_event now
                              \<lparr>ai_type = field clean ''type'', ai_payload = Some (without_type clean), ai_id = None,
                               ai_at = int_value now, ai_audience = None\<rparr> d of
                         (d1, appended) \<Rightarrow>
                           (case with_attention now (handle_acp_event c now clean) d1 of
                              (d', Inl e) \<Rightarrow> (d', Inl e)
                            | (d', Inr _) \<Rightarrow> (d', Inr (case appended of Inl _ \<Rightarrow> None | Inr v \<Rightarrow> Some v))))))"

definition terminal_attention ::
  "attention_config \<Rightarrow> int \<Rightarrow> json \<Rightarrow> desktop \<Rightarrow> desktop \<times> (desktop_error + handled option)" where
  "terminal_attention c now event d = with_attention now (handle_terminal_event c now event) d"

definition clean_task :: "json \<Rightarrow> json" where
  "clean_task task = obj
     [(''id'', field task ''id''),
      (''status'', str_value (case optional_label 40 (field task ''status'') of None \<Rightarrow> js ''open'' | Some t \<Rightarrow> t)),
      (''title'', str_value (case optional_label 300 (field task ''title'') of None \<Rightarrow> js ''Agent task'' | Some t \<Rightarrow> t)),
      (''project'', label_value 240 (field task ''project'')), (''owner'', label_value 120 (field task ''owner'')),
      (''createdBy'', label_value 120 (field task ''createdBy'')), (''detail'', label_value 8000 (field task ''detail'')),
      (''result'', label_value 8000 (field task ''result'')),
      (''createdAt'', map_option JInt (nonneg (field task ''createdAt''))),
      (''updatedAt'', map_option JInt (nonneg (field task ''updatedAt'')))]"

definition task_project :: "desktop \<Rightarrow> json \<Rightarrow> json option" where
  "task_project d task =
     (case nonempty_value (as_str (field task ''projectId'')) of
        Some p \<Rightarrow> Some p
      | None \<Rightarrow>
          (case (as_str (field task ''project''), ds_attention d) of
             (Some alias, Some a) \<Rightarrow> map_option JStr (project_id_for_alias a (Some (JStr alias)))
           | _ \<Rightarrow> None))"

datatype ledger_reply = Ledger_ignored | Ledger_attention "handled option" | Ledger_appended json

definition ledger_event ::
  "attention_config \<Rightarrow> int \<Rightarrow> json \<Rightarrow> desktop \<Rightarrow> desktop \<times> (desktop_error + ledger_reply)" where
  "ledger_event c now event d =
     (case field event ''task'' of
        None \<Rightarrow> (d, Inr Ledger_ignored)
      | Some task \<Rightarrow>
          if \<not> is_obj task then (d, Inr Ledger_ignored)
          else (case task_project d task of
             None \<Rightarrow>
               (case with_attention now (handle_ledger_event c now (Some task) None) d of
                  (d', Inl e) \<Rightarrow> (d', Inl e)
                | (d', Inr r) \<Rightarrow> (d', Inr (Ledger_attention r)))
           | Some project \<Rightarrow>
               (case (safe_identifier 240 (Some project), safe_identifier 240 (field task ''id'')) of
                  (Inr p, Inr _) \<Rightarrow>
                    (case append_event now (log_input ''ledger.task.updated'' (obj
                            [(''projectId'', str_value p), (''task'', Some (clean_task task)),
                             (''change'', str_value (case optional_label 40 (field event ''type'') of
                                None \<Rightarrow> js ''updated'' | Some t \<Rightarrow> t))]) now None) d of
                       (d1, Inl e) \<Rightarrow> (d1, Inl e)
                     | (d1, Inr v) \<Rightarrow>
                         (case with_attention now (handle_ledger_event c now
                                 (Some (JObj (jset (js ''projectId'') (JStr p) (ofields task)))) (str_value p)) d1 of
                            (d', Inl e) \<Rightarrow> (d', Inl e)
                          | (d', Inr _) \<Rightarrow> (d', Inr (Ledger_appended v))))
                | _ \<Rightarrow> (d, Inr Ledger_ignored))))"

text \<open>\<open>None\<close> is the answer without an attention service.\<close>

definition acknowledge_attention ::
  "attention_config \<Rightarrow> int \<Rightarrow> actor option \<Rightarrow> json option \<Rightarrow> json option \<Rightarrow> json option \<Rightarrow> desktop \<Rightarrow>
   desktop \<times> ack_reply option" where
  "acknowledge_attention c now actor project event reason d =
     (case with_attention now (\<lambda>a. case acknowledge c now actor project event reason a of (a', r) \<Rightarrow> (a', Inr r)) d of
        (d', Inr r) \<Rightarrow> (d', r)
      | (d', Inl _) \<Rightarrow> (d', None))"

section \<open>The log\<close>

definition desktop_replay :: "json option \<Rightarrow> json option \<Rightarrow> desktop \<Rightarrow> desktop_error + replay_result" where
  "desktop_replay epoch after_seq d =
     (case log_replay epoch after_seq (ds_log d) of Inl e \<Rightarrow> Inl (De_log e) | Inr r \<Rightarrow> Inr r)"

definition desktop_acknowledge :: "json option \<Rightarrow> json option \<Rightarrow> desktop \<Rightarrow> desktop_error + desktop \<times> int" where
  "desktop_acknowledge client seq d =
     (case log_acknowledge client seq (ds_log d) of
        Inl e \<Rightarrow> Inl (De_log e)
      | Inr (l, n) \<Rightarrow> Inr (d\<lparr>ds_log := l\<rparr>, n))"

definition desktop_disconnect :: "json option \<Rightarrow> desktop \<Rightarrow> desktop_error + desktop \<times> bool" where
  "desktop_disconnect client d =
     (case log_drop_client client (ds_log d) of
        Inl e \<Rightarrow> Inl (De_log e)
      | Inr (l, b) \<Rightarrow> Inr (d\<lparr>ds_log := l\<rparr>, b))"

section \<open>The log stays well formed\<close>

text \<open>\<open>grows d d'\<close>: the log of \<open>d'\<close> is well formed, of the same epoch and not behind that of \<open>d\<close>.\<close>

definition grows :: "desktop \<Rightarrow> desktop \<Rightarrow> bool" where
  "grows d d' = (log_inv (ds_log d) \<longrightarrow> log_inv (ds_log d') \<and> el_epoch (ds_log d') = el_epoch (ds_log d) \<and>
     el_currentSeq (ds_log d) \<le> el_currentSeq (ds_log d'))"

lemma grows_refl [simp]: "grows d d"
  by (simp add: grows_def)

lemma grows_trans: "grows d e \<Longrightarrow> grows e f \<Longrightarrow> grows d f"
  by (auto simp: grows_def)

lemma grows_same [simp]: "grows d (e\<lparr>ds_revision := n\<rparr>) = grows d e" "grows d (e\<lparr>ds_attention := a\<rparr>) = grows d e"
  "grows (d\<lparr>ds_revision := n\<rparr>) e = grows d e" "grows (d\<lparr>ds_attention := a\<rparr>) e = grows d e"
  by (simp_all add: grows_def)

lemma append_event_grows: "grows d (fst (append_event now i d))"
proof (cases "log_append now i (ds_log d)")
  case (Inr x)
  obtain l v where x: "x = (l, v)" by fastforce
  show ?thesis
    using log_append_step [of "ds_log d" now i l v] Inr x by (simp add: append_event_def grows_def)
qed (simp add: append_event_def)

lemma deliver_grows: "grows d (deliver now e d)"
  by (simp add: deliver_def append_event_grows)

lemma fold_deliver_grows: "grows d (fold (deliver now) es d)"
  by (induction es arbitrary: d) (auto intro: grows_trans deliver_grows)

lemma with_attention_grows: "grows d (fst (with_attention now f d))"
  using fold_deliver_grows [of "d\<lparr>ds_attention := a\<rparr>" now for a]
  by (auto simp: with_attention_def split: option.split prod.split)

lemma synchronize_attention_grows: "grows d (fst (synchronize_attention c now records d))"
  by (simp add: synchronize_attention_def with_attention_grows)

lemma synchronize_attention_fields:
  "ds_revision (fst (synchronize_attention c now records d)) = ds_revision d"
proof -
  have deliver: "ds_revision (deliver now e d) = ds_revision d" for e d
    by (simp add: deliver_def append_event_def split: sum.split prod.split)
  have "ds_revision (fold (deliver now) es d) = ds_revision d" for es d
    by (induction es arbitrary: d) (simp_all add: deliver)
  then show ?thesis
    by (simp add: synchronize_attention_def with_attention_def case_prod_unfold Let_def split: option.split)
qed

lemma desktop_snapshot_grows: "grows d (fst (desktop_snapshot c now label records d))"
  using synchronize_attention_grows [of d c now records]
  by (auto simp: desktop_snapshot_def Let_def split: prod.split sum.split option.split)

end
