(* ===== verification/Desktop_Snapshot.thy ===== *)
theory Desktop_Snapshot
  imports Desktop_State
begin

text \<open>
  What the merged snapshot of all windows guarantees: who owns what, which revision it has, and the one
  way in which windows that are each in order can make it fail.
\<close>

section \<open>What sanitizing keeps of a session\<close>

lemma sanitize_session_source:
  assumes "sanitize_session ps raw = Inr s"
  shows "field raw ''id'' = str_value (ss_id s)" "field raw ''projectId'' = str_value (ss_projectId s)"
    "unless_null (field raw ''windowId'') (safe_id 160) = Inr (ss_windowId s)"
proof -
  have "field raw ''id'' = str_value (ss_id s) \<and> field raw ''projectId'' = str_value (ss_projectId s) \<and>
    unless_null (field raw ''windowId'') (safe_id 160) = Inr (ss_windowId s)"
    using assms unfolding sanitize_session_def Let_def
    by (elim ebind_InrE require_InrE) (clarsimp simp: safe_id_Inr plain_Inr str_value_def)
  then show "field raw ''id'' = str_value (ss_id s)" "field raw ''projectId'' = str_value (ss_projectId s)"
    "unless_null (field raw ''windowId'') (safe_id 160) = Inr (ss_windowId s)" by auto
qed

lemma sanitize_projection_parts:
  assumes "sanitize_projection collate (Some raw) = Inr p"
  obtains xs where "field raw ''sessions'' = Some (JArr xs)"
    "list_all2 (\<lambda>x s. sanitize_session (map pj_id (pr_projects p)) x = Inr s) xs (pr_sessions p)"
    "list_all2 (\<lambda>x a. sanitize_attention (map pj_id (pr_projects p)) (pr_sessions p) x = Inr a)
       (take MAX_ATTENTION (array_or_empty (field raw ''attention''))) (pr_attention p)"
    "field raw ''revision'' = int_value (pr_revision p)"
proof -
  have "\<exists>xs. field raw ''sessions'' = Some (JArr xs) \<and>
    list_all2 (\<lambda>x s. sanitize_session (map pj_id (pr_projects p)) x = Inr s) xs (pr_sessions p) \<and>
    list_all2 (\<lambda>x a. sanitize_attention (map pj_id (pr_projects p)) (pr_sessions p) x = Inr a)
       (take MAX_ATTENTION (array_or_empty (field raw ''attention''))) (pr_attention p) \<and>
    field raw ''revision'' = int_value (pr_revision p)"
    using assms unfolding sanitize_projection_def Let_def
    by (elim ebind_InrE require_InrE) (clarsimp simp: emap_eq_Inr plain_Inr bounded_array_Inr safe_time_Inr int_value_def)
  then show ?thesis using that by blast
qed

section \<open>Ownership\<close>

lemma field_jset: "field (JObj (jset (js k) v m)) k' = (if k' = k then Some v else field (JObj m) k')"
  by (simp add: field_jget)

lemma obj_of_fields: "is_obj v \<Longrightarrow> JObj (ofields v) = v"
  by (cases v) simp_all

lemma session_for_window_fields:
  "field (session_for_window w s) ''id'' = str_value (ss_id s)"
  "field (session_for_window w s) ''projectId'' = str_value (ss_projectId s)"
  "field (session_for_window w s) ''windowId'' = str_value w"
  by (simp_all add: session_for_window_def field_jset str_value_def obj_of_fields session_json_def)

lemma session_json_fields: "field (session_json s) ''id'' = str_value (ss_id s)"
  "field (session_json s) ''projectId'' = str_value (ss_projectId s)"
  "field (session_json s) ''windowId'' = map_option JStr (ss_windowId s)"
  by (simp_all add: session_json_def field_obj_Cons str_value_def bool_value_def int_value_def lit_value_def)

lemma first_by_step: "snd ` set (if b then m else jset k x m) \<subseteq> insert x (snd ` set m)"
proof (cases b)
  case False
  have "snd ` set (jset k x m) \<subseteq> snd ` insert (k, x) (set m)" by (rule image_mono [OF set_jset_subset])
  then show ?thesis using False by simp
qed auto

lemma union_step: "A \<subseteq> insert x B \<Longrightarrow> set xs \<union> A \<subseteq> set (x # xs) \<union> B"
  by auto

lemma first_by_values: "snd ` set (first_by f xs) \<subseteq> set xs"
proof -
  have "snd ` set (fold (\<lambda>x m. if jhas m (f x) then m else jset (f x) x m) xs m) \<subseteq> set xs \<union> snd ` set m" for m
  proof (induction xs arbitrary: m)
    case (Cons x xs)
    let ?m = "if jhas m (f x) then m else jset (f x) x m"
    have "set xs \<union> snd ` set ?m \<subseteq> set (x # xs) \<union> snd ` set m"
      by (rule union_step [OF first_by_step])
    then show ?case using Cons [of ?m] by (simp only: fold.simps comp_def)
  qed simp
  from this [of "[]"] show ?thesis by (simp add: first_by_def)
qed

lemma owned_items_in:
  assumes "x \<in> set (owned_items records items project_of key_of)"
  shows "fst x \<in> set records" "snd x \<in> set (items (sp_projection (fst x)))"
    "owns records (sp_windowId (fst x)) (project_of (snd x))"
  using assms first_by_values by (fastforce simp: owned_items_def)+

text \<open>\<open>owned_session records s\<close>: the session of the snapshot is one of the window that owns its project.\<close>

definition owned_session :: "stored_projection list \<Rightarrow> session \<Rightarrow> bool" where
  "owned_session records s =
     (\<exists>r \<in> set records. \<exists>t \<in> set (pr_sessions (sp_projection r)). ss_id t = ss_id s \<and>
       ss_projectId t = ss_projectId s \<and> ss_windowId s = Some (sp_windowId r) \<and>
       owns records (sp_windowId r) (ss_projectId s))"

lemma merged_session_fields: "ss_id (merged_session a act s) = ss_id s"
  "ss_projectId (merged_session a act s) = ss_projectId s" "ss_windowId (merged_session a act s) = ss_windowId s"
  by (simp_all add: merged_session_def Let_def)

lemma snapshot_json_sessions: "field (snapshot_json label now n records) ''sessions'' =
    Some (JArr (map (\<lambda>x. session_for_window (sp_windowId (fst x)) (snd x)) (owned_items records pr_sessions ss_projectId ss_id)))"
  "field (snapshot_json label now n records) ''revision'' = int_value n"
  by (simp_all add: snapshot_json_def lit_value_def int_value_def)

lemma sanitized_session_item:
  assumes "sanitize_projection collate (Some (snapshot_json label now n records)) = Inr p" "s \<in> set (pr_sessions p)"
  obtains y where "y \<in> set (owned_items records pr_sessions ss_projectId ss_id)" "ss_id (snd y) = ss_id s"
    "ss_projectId (snd y) = ss_projectId s" "ss_windowId s = Some (sp_windowId (fst y))"
proof -
  let ?own = "owned_items records pr_sessions ss_projectId ss_id"
  obtain xs where xs: "field (snapshot_json label now n records) ''sessions'' = Some (JArr xs)"
    "list_all2 (\<lambda>x s. sanitize_session (map pj_id (pr_projects p)) x = Inr s) xs (pr_sessions p)"
    using sanitize_projection_parts [OF assms(1)] by metis
  obtain x where x: "x \<in> set xs" "sanitize_session (map pj_id (pr_projects p)) x = Inr s"
    using list_all2_image [OF xs(2) assms(2)] by blast
  obtain y where y: "y \<in> set ?own" "x = session_for_window (sp_windowId (fst y)) (snd y)"
    using x(1) xs(1) by (auto simp: snapshot_json_sessions)
  have "ss_id (snd y) = ss_id s" "ss_projectId (snd y) = ss_projectId s" "ss_windowId s = Some (sp_windowId (fst y))"
    using sanitize_session_source [OF x(2)]
    by (auto simp: y(2) session_for_window_fields str_value_def unless_null_Inr nullish_def safe_id_Inr)
  then show ?thesis using that y(1) by blast
qed

lemma sanitized_sessions_owned:
  assumes "sanitize_projection collate (Some (snapshot_json label now n records)) = Inr p" "s \<in> set (pr_sessions p)"
  shows "owned_session records s"
proof -
  obtain y where y: "y \<in> set (owned_items records pr_sessions ss_projectId ss_id)" "ss_id (snd y) = ss_id s"
    "ss_projectId (snd y) = ss_projectId s" "ss_windowId s = Some (sp_windowId (fst y))"
    using sanitized_session_item [OF assms] .
  then show ?thesis
    using owned_items_in [OF y(1)] unfolding owned_session_def by metis
qed

lemma merged_sessions_owned:
  assumes "sanitize_projection collate (Some (projection_json (merge_projection a p))) = Inr q"
    and "\<And>s. s \<in> set (pr_sessions p) \<Longrightarrow> owned_session records s" "t \<in> set (pr_sessions q)"
  shows "owned_session records t"
proof -
  let ?m = "merge_projection a p"
  have field: "field (projection_json ?m) ''sessions'' = Some (JArr (map session_json (pr_sessions ?m)))"
    by (simp add: projection_json_def lit_value_def int_value_def)
  obtain xs where xs: "xs = map session_json (pr_sessions ?m)"
    "list_all2 (\<lambda>x s. sanitize_session (map pj_id (pr_projects q)) x = Inr s) xs (pr_sessions q)"
    using sanitize_projection_parts [OF assms(1)] field by (metis json.inject(5) option.inject)
  obtain x where x: "x \<in> set xs" "sanitize_session (map pj_id (pr_projects q)) x = Inr t"
    using list_all2_image [OF xs(2) assms(3)] by blast
  obtain act s where s: "s \<in> set (pr_sessions p)" "x = session_json (merged_session a act s)"
    using x(1) xs(1) by (auto simp: merge_projection_def Let_def)
  have "ss_id s = ss_id t" "ss_projectId s = ss_projectId t"
    "unless_null (map_option JStr (ss_windowId s)) (safe_id 160) = Inr (ss_windowId t)"
    using sanitize_session_source [OF x(2)]
    by (simp_all add: s(2) session_json_fields merged_session_fields str_value_def)
  moreover have "ss_windowId s \<noteq> None" using assms(2) [OF s(1)] by (auto simp: owned_session_def)
  ultimately have "ss_id t = ss_id s" "ss_projectId t = ss_projectId s" "ss_windowId t = ss_windowId s"
    by (auto simp: unless_null_Inr nullish_def safe_id_Inr)
  then show ?thesis using assms(2) [OF s(1)] by (simp add: owned_session_def)
qed

section \<open>Properties\<close>

lemma max_revision: "m \<le> fold (\<lambda>r m. max m (pr_revision (sp_projection r))) rs m \<and>
    (\<forall>r \<in> set rs. pr_revision (sp_projection r) \<le> fold (\<lambda>r m. max m (pr_revision (sp_projection r))) rs m)"
proof (induction rs arbitrary: m)
  case (Cons r rs)
  show ?case using Cons [of "max m (pr_revision (sp_projection r))"] by auto
qed simp

lemma snapshot_stages:
  assumes "desktop_snapshot c now label records d = (d', Inr p)"
  obtains q where
    "sanitize_projection (cf_collate c) (Some (snapshot_json label now (ds_revision d') records)) = Inr q"
    "ds_revision d' = max (ds_revision d) (max_revision records)"
    "p = q \<or> (\<exists>a. sanitize_projection (cf_collate c) (Some (projection_json (merge_projection a q))) = Inr p)"
proof -
  obtain d1 r where sync: "synchronize_attention c now records d = (d1, r)" by fastforce
  have rev: "ds_revision d1 = ds_revision d" using synchronize_attention_fields [of c now records d] sync by simp
  obtain b where r: "r = Inr b" using assms sync by (cases r) (simp_all add: desktop_snapshot_def)
  have d': "ds_revision d' = max (ds_revision d) (max_revision records)"
    using assms by (auto simp: desktop_snapshot_def sync r rev Let_def)
  obtain q where q: "sanitize_projection (cf_collate c) (Some (snapshot_json label now (ds_revision d') records)) = Inr q"
    using assms by (auto simp: desktop_snapshot_def sync r d' rev Let_def split: sum.splits)
  have "p = q \<or> (\<exists>a. sanitize_projection (cf_collate c) (Some (projection_json (merge_projection a q))) = Inr p)"
    using assms q by (auto simp: desktop_snapshot_def sync r d' rev Let_def split: option.splits sum.splits)
  then show ?thesis using that q d' by blast
qed

text \<open>
  C38. In a snapshot every session carries the window that owns its project, the first one that shows
  it, and is a session of that window's own projection, whatever the attention service adds. The
  revision never goes back and is not behind that of any window.
\<close>

theorem snapshot_owned:
  assumes "desktop_snapshot c now label records d = (d', Inr p)"
  shows "(\<forall>s \<in> set (pr_sessions p). owned_session records s) \<and>
    ds_revision d \<le> ds_revision d' \<and> pr_revision p = ds_revision d' \<and>
    (\<forall>r \<in> set records. pr_revision (sp_projection r) \<le> pr_revision p)"
proof -
  obtain q where q: "sanitize_projection (cf_collate c) (Some (snapshot_json label now (ds_revision d') records)) = Inr q"
    "ds_revision d' = max (ds_revision d) (max_revision records)"
    "p = q \<or> (\<exists>a. sanitize_projection (cf_collate c) (Some (projection_json (merge_projection a q))) = Inr p)"
    using snapshot_stages [OF assms] by blast
  have owned: "owned_session records s" if "s \<in> set (pr_sessions q)" for s
    using sanitized_sessions_owned [OF q(1) that] .
  have rev_q: "pr_revision q = ds_revision d'"
    using sanitize_projection_parts [OF q(1)] snapshot_json_sessions(2) by (metis int_value_def json.inject(2) option.inject)
  have "pr_revision p = ds_revision d' \<and> (\<forall>s \<in> set (pr_sessions p). owned_session records s)"
    using q(3)
  proof
    assume "\<exists>a. sanitize_projection (cf_collate c) (Some (projection_json (merge_projection a q))) = Inr p"
    then obtain a where a: "sanitize_projection (cf_collate c) (Some (projection_json (merge_projection a q))) = Inr p" ..
    have "field (projection_json (merge_projection a q)) ''revision'' = int_value (pr_revision q)"
      by (simp add: projection_json_def merge_projection_def Let_def lit_value_def int_value_def)
    then have "pr_revision p = pr_revision q"
      using sanitize_projection_parts [OF a] by (metis int_value_def json.inject(2) option.inject)
    moreover have "owned_session records t" if "t \<in> set (pr_sessions p)" for t
      by (rule merged_sessions_owned [OF a _ that]) (rule owned)
    ultimately show ?thesis using rev_q by simp
  qed (use owned rev_q in blast)
  then show ?thesis
    using q(2) max_revision [of 0 records] by (auto simp: max_revision_def le_max_iff_disj)
qed

text \<open>The snapshot of the window of the example.\<close>

definition shown_session :: session where
  "shown_session = example_session\<lparr>ss_windowId := Some (js ''w'')\<rparr>"

definition shown_projection :: projection where
  "shown_projection =
     \<lparr>pr_revision = 1, pr_generatedAt = 2, pr_live = True,
      pr_projects = [example_project\<lparr>pj_windowId := Some (js ''w'')\<rparr>], pr_sessions = [shown_session],
      pr_attention = [], pr_permissions = [], pr_board = build_board example_collate [shown_session] []\<rparr>"

definition quiet_desktop :: desktop where
  "quiet_desktop = \<lparr>ds_log = \<lparr>el_epoch = js ''e'', el_maxEvents = 1, el_maxBytes = 200, el_events = [],
     el_totalBytes = 0, el_currentSeq = 0, el_droppedThrough = 0, el_acks = []\<rparr>, ds_revision = 0, ds_attention = None, ds_heard = []\<rparr>"

lemma shown_size: "json_bytes (projection_json shown_projection) \<le> MAX_PROJECTION_BYTES"
  by (rule order_trans [OF json_bytes_le])
    (simp add: shown_projection_def shown_session_def example_project_def example_session_def
      projection_json_defs build_board_def sort_by_def lane_sessions_def lane_attention_def counts_for_def str_value_def
      lit_value_def int_value_def bool_value_def obj_def int_text_def digits_of.simps Let_def
      MAX_PROJECTION_BYTES_def PROJECTION_KIND_def)

lemma shown_items: "snapshot_json (\<lambda>w. None) 2 1 [example_record] = obj
     [(''projectionKind'', lit_value PROJECTION_KIND), (''revision'', int_value 1), (''generatedAt'', int_value 2),
      (''freshness'', lit_value ''live''),
      (''projects'', Some (JArr [project_for_window (\<lambda>w. None) (js ''w'') [example_session] example_project])),
      (''sessions'', Some (JArr [session_for_window (js ''w'') example_session])),
      (''attention'', Some (JArr [])), (''permissions'', Some (JArr []))]"
  by (simp add: snapshot_json_def owned_items_def owns_def owned_projects_def shown_projects_def first_by_def
      example_record_def example_projection_def example_project_def example_session_def jhas_def jget_Cons jset_def)

lemma shown_project: "sanitize_project (project_for_window (\<lambda>w. None) (js ''w'') [example_session] example_project) =
    Inr (example_project\<lparr>pj_windowId := Some (js ''w'')\<rparr>)"
  by (simp add: project_for_window_def project_json_def example_project_def optional_label_def counts_json_def obj_def jset_def
      sanitize_project_def)
    (simp add: redaction_exec field_def js_def safe_id_def unless_null_def)

lemma shown_session: "sanitize_session [js ''p''] (session_for_window (js ''w'') example_session) = Inr shown_session"
  by (simp add: session_for_window_def session_json_def example_session_def obj_def jset_def shown_session_def
      sanitize_session_def normalized_status_def)
    (simp add: redaction_exec field_def js_def safe_id_def unless_null_def sanitize_turns_def board_lane_for_def)

lemma shown_keys: "no_forbidden_keys (snapshot_json (\<lambda>w. None) 2 1 [example_record])"
  unfolding shown_items
  by (simp add: no_forbidden_obj allowed_keys lit_value_def int_value_def)
    (simp add: project_for_window_def session_for_window_def project_json_def session_json_def example_project_def
      example_session_def optional_label_def counts_json_def obj_def jset_def allowed_keys str_value_def
      lit_value_def int_value_def bool_value_def)

lemma shown_sanitized:
  "sanitize_projection example_collate (Some (snapshot_json (\<lambda>w. None) 2 1 [example_record])) = Inr shown_projection"
proof -
  let ?raw = "snapshot_json (\<lambda>w. None) 2 1 [example_record]"
  have fields: "plain (Some ?raw) = Inr ?raw" "field ?raw ''projectionKind'' = lit_value PROJECTION_KIND"
    "safe_time (field ?raw ''revision'') = Inr 1" "safe_time (field ?raw ''generatedAt'') = Inr 2"
    "field ?raw ''freshness'' = lit_value ''live''"
    "bounded_array MAX_PROJECTS (field ?raw ''projects'') =
       Inr [project_for_window (\<lambda>w. None) (js ''w'') [example_session] example_project]"
    "bounded_array MAX_SESSIONS (field ?raw ''sessions'') = Inr [session_for_window (js ''w'') example_session]"
    "array_or_empty (field ?raw ''attention'') = []" "array_or_empty (field ?raw ''permissions'') = []"
    by (simp_all add: shown_items bounded_array_def array_or_empty_def projection_limits
        safe_time_def lit_value_def int_value_def is_safe_def max_safe_integer_def)
  have ids: "map pj_id [example_project\<lparr>pj_windowId := Some (js ''w'')\<rparr>] = [js ''p'']" by (simp add: example_project_def)
  have emaps: "emap sanitize_project [project_for_window (\<lambda>w. None) (js ''w'') [example_session] example_project] =
      Inr [example_project\<lparr>pj_windowId := Some (js ''w'')\<rparr>]"
    "emap (sanitize_session [js ''p'']) [session_for_window (js ''w'') example_session] = Inr [shown_session]"
    by (simp_all add: shown_project shown_session)
  show ?thesis
    using shown_size
    unfolding sanitize_projection_def fields ebind_Inr Let_def emaps ids
    by (simp add: shown_keys flip: shown_projection_def)
qed

theorem snapshot_owned_witness:
  "\<exists>d'. desktop_snapshot example_config 2 (\<lambda>w. None) [example_record] quiet_desktop = (d', Inr shown_projection) \<and>
    owned_session [example_record] shown_session \<and> ds_revision d' = 1"
proof -
  have snap: "desktop_snapshot example_config 2 (\<lambda>w. None) [example_record] quiet_desktop =
      (quiet_desktop\<lparr>ds_revision := 1\<rparr>, Inr shown_projection)"
    using shown_sanitized
    by (simp add: desktop_snapshot_def synchronize_attention_def with_attention_def quiet_desktop_def max_revision_def
        example_record_def example_live example_config_def)
  then show ?thesis using snapshot_owned [OF snap] by (simp add: shown_projection_def)
qed

section \<open>Two windows with the same session\<close>

text \<open>
  Two windows, each with a projection that is in order: the first shows project \<open>p\<close>, the second project
  \<open>q\<close>, both have a session \<open>s\<close>, and the second has a question about its own.
\<close>

definition other_session :: session where
  "other_session = example_session\<lparr>ss_projectId := js ''q''\<rparr>"

definition other_attention :: attention where
  "other_attention = \<lparr>at_id = js ''a'', at_projectId = js ''q'', at_kind = js ''question'', at_title = js ''T'',
     at_createdAt = 1, at_severity = js ''info'', at_sessionId = Some (js ''s''), at_detail = None\<rparr>"

definition other_projection :: projection where
  "other_projection =
     \<lparr>pr_revision = 1, pr_generatedAt = 2, pr_live = True, pr_projects = [example_project\<lparr>pj_id := js ''q''\<rparr>],
      pr_sessions = [other_session], pr_attention = [other_attention], pr_permissions = [],
      pr_board = build_board example_collate [other_session] [other_attention]\<rparr>"

definition example_windows :: "stored_projection list" where
  "example_windows = [example_record, example_record\<lparr>sp_windowId := js ''v'', sp_projection := other_projection\<rparr>]"

lemma other_size: "json_bytes (projection_json other_projection) \<le> MAX_PROJECTION_BYTES"
  by (rule order_trans [OF json_bytes_le])
    (simp add: other_projection_def other_session_def other_attention_def example_project_def example_session_def
      projection_json_defs build_board_def sort_by_def lane_sessions_def lane_attention_def counts_for_def str_value_def
      lit_value_def int_value_def bool_value_def obj_def int_text_def digits_of.simps Let_def
      MAX_PROJECTION_BYTES_def PROJECTION_KIND_def)

lemmas well_formed_defs = text_ok_def time_ok_def one_of_def is_safe_def max_safe_integer_def
  identifier_ok_def is_alnum_unit_def is_digit_unit_def is_id_unit_def is_control_unit_def is_space_unit_def

lemma other_parts:
  "project_ok (example_project\<lparr>pj_id := js ''q''\<rparr>)" "session_ok [js ''q''] other_session"
  "attention_ok [js ''q''] [other_session] other_attention"
    apply (simp add: project_ok_def example_project_def well_formed_defs js_def projection_limits PROJECT_CONNECTIONS_def)
   apply (simp add: session_ok_def other_session_def example_session_def well_formed_defs js_def projection_limits
      SESSION_KINDS_def board_lane_for_def)
  apply (simp add: attention_ok_def other_attention_def other_session_def example_session_def well_formed_defs js_def
      projection_limits ATTENTION_KINDS_def SEVERITIES_def session_in_def)
  done

lemma other_projection_ok: "projection_ok example_collate other_projection"
  using other_size other_parts
  by (simp add: projection_ok_def Let_def other_projection_def projection_limits time_ok_def is_safe_def
      max_safe_integer_def)

lemma other_projection_stable:
  "sanitize_projection example_collate (Some (projection_json other_projection)) = Inr other_projection"
  by (rule sanitize_projection_stable [OF other_projection_ok])
    (simp add: projection_texts_def other_projection_def project_texts_def session_texts_def attention_texts_def
      example_project_def other_session_def example_session_def other_attention_def opt_list_def or_empty_list_def
      js_def trimmed_def is_space_unit_def)

lemma example_owned:
  "owned_items example_windows pr_sessions ss_projectId ss_id = [(example_record, example_session)]"
  "map snd (owned_items example_windows pr_attention at_projectId at_id) = [other_attention]"
  by (simp_all add: owned_items_def owns_def owned_projects_def shown_projects_def first_by_def example_windows_def
      example_record_def example_projection_def other_projection_def example_project_def example_session_def
      other_session_def other_attention_def jhas_def jget_Cons jset_def js_def)

lemma sanitize_attention_ref:
  assumes "sanitize_attention ps ss (attention_json a) = Inr b" "at_sessionId a = Some i"
  shows "session_in ss (at_projectId a) i"
  using assms unfolding sanitize_attention_def
  by (elim ebind_InrE require_InrE)
    (clarsimp simp: attention_json_def plain_Inr safe_id_Inr str_value_def int_value_def session_ref_def
      unless_null_Inr nullish_def ebind_eq_Inr require_eq_Inr)

lemma snapshot_json_attention: "field (snapshot_json label now n records) ''attention'' =
    Some (JArr (map attention_json (map snd (owned_items records pr_attention at_projectId at_id))))"
  by (simp add: snapshot_json_def lit_value_def int_value_def comp_def)

lemma example_snapshot_rejected:
  "sanitize_projection collate (Some (snapshot_json label now n example_windows)) \<noteq> Inr q"
proof
  assume q: "sanitize_projection collate (Some (snapshot_json label now n example_windows)) = Inr q"
  let ?ids = "map pj_id (pr_projects q)"
  have own: "ss_projectId s = js ''p''" if s: "s \<in> set (pr_sessions q)" for s
  proof (rule sanitized_session_item [OF q s])
    fix y
    assume "y \<in> set (owned_items example_windows pr_sessions ss_projectId ss_id)" "ss_projectId (snd y) = ss_projectId s"
    then show "ss_projectId s = js ''p''" by (simp add: example_owned example_session_def)
  qed
  have "list_all2 (\<lambda>x a. sanitize_attention ?ids (pr_sessions q) x = Inr a)
      (take MAX_ATTENTION [attention_json other_attention]) (pr_attention q)"
    using sanitize_projection_parts [OF q]
    by (simp add: snapshot_json_attention example_owned array_or_empty_def)
  then obtain b where "sanitize_attention ?ids (pr_sessions q) (attention_json other_attention) = Inr b"
    by (auto simp: projection_limits list_all2_Cons1)
  from sanitize_attention_ref [OF this, of "js ''s''"] have "session_in (pr_sessions q) (js ''q'') (js ''s'')"
    by (simp add: other_attention_def)
  then show False using own by (auto simp: session_in_def)
qed

text \<open>
  One session identifier in two windows takes the snapshot away from every device: each window's
  projection is one that sanitizing accepts as it is, but the snapshot drops the session of the second
  window and keeps its attention item, which then refers to no session, and the whole snapshot is
  rejected.
\<close>

theorem snapshot_rejects_shared_session:
  "list_all (\<lambda>r. sanitize_projection example_collate (Some (projection_json (sp_projection r))) = Inr (sp_projection r))
     example_windows \<and>
   (\<exists>e. snd (desktop_snapshot example_config now label example_windows d) = Inl e)"
proof
  show "list_all (\<lambda>r. sanitize_projection example_collate (Some (projection_json (sp_projection r))) = Inr (sp_projection r))
     example_windows"
    using other_projection_stable example_stamped stamped_projection [OF example_live(1)]
    by (simp add: example_windows_def example_record_def example_live)
  show "\<exists>e. snd (desktop_snapshot example_config now label example_windows d) = Inl e"
  proof (cases "desktop_snapshot example_config now label example_windows d")
    case (Pair d' r)
    show ?thesis
    proof (cases r)
      case (Inr p)
      then obtain q where "sanitize_projection (cf_collate example_config)
          (Some (snapshot_json label now (ds_revision d') example_windows)) = Inr q"
        using snapshot_stages [OF Pair [unfolded Inr]] by blast
      then show ?thesis using example_snapshot_rejected by blast
    qed (simp add: Pair)
  qed
qed

end
