(* ===== verification/State_Hub.thy ===== *)
theory State_Hub
  imports Desktop_State
begin

text \<open>
  The facade the gateway synchronises a device through, \<open>electron/companion/stateHub.cjs\<close>: with a
  cursor it replays the events after it, otherwise, or when they are gone, it takes a snapshot and
  names the position of the log the snapshot includes.
\<close>

section \<open>Replaying\<close>

text \<open>
  What a device relies on: a replay ends at the current position and has one event for every
  position after the cursor, and a device at the current position gets an empty replay.
\<close>

locale replay_source =
  fixes good :: "'s \<Rightarrow> bool"
    and current :: "'s \<Rightarrow> int"
    and epoch :: "'s \<Rightarrow> jstr"
    and replay :: "json option \<Rightarrow> json option \<Rightarrow> 's \<Rightarrow> 'e + replay_result"
  assumes replay_ends: "good s \<Longrightarrow> replay e (Some (JInt n)) s = Inr (Replay e' from to evs) \<Longrightarrow>
      e = Some (JStr e') \<and> e' = epoch s \<and> from = n + 1 \<and> to = current s \<and> int (length evs) = to - n"
    and replay_current: "good s \<Longrightarrow> is_safe (current s) \<Longrightarrow>
      replay (Some (JStr (epoch s))) (Some (JInt (current s))) s =
        Inr (Replay (epoch s) (current s + 1) (current s) [])"
begin

text \<open>A device that has applied a replay is up to date: asking again from where it ended gives nothing.\<close>

lemma replay_twice:
  assumes "good s" "is_safe (current s)" "replay e (Some (JInt n)) s = Inr (Replay e' from to evs)"
  shows "replay (Some (JStr e')) (Some (JInt to)) s = Inr (Replay e' (to + 1) to [])"
  using replay_ends [OF assms(1,3)] replay_current [OF assms(1,2)] by simp

end

text \<open>The log of the desktop is such a source once its epoch is a valid name.\<close>

definition log_good :: "desktop \<Rightarrow> bool" where
  "log_good d = (log_inv (ds_log d) \<and> identifier_ok MAX_ID_LENGTH (el_epoch (ds_log d)))"

lemma filter_later: "map ev_seq es = [d + 1..c] \<Longrightarrow> d \<le> n \<Longrightarrow> n \<le> c \<Longrightarrow>
    int (length (filter (\<lambda>x. n < ev_seq x) es)) = c - n"
proof -
  assume es: "map ev_seq es = [d + 1..c]" and n: "d \<le> n" "n \<le> c"
  have "[d + 1..c] = [d + 1..n] @ [n + 1..c]"
    using n by (cases "n = d") (simp_all add: upto_split2)
  moreover have "filter (\<lambda>k. n < k) [d + 1..n] = []" "filter (\<lambda>k. n < k) [n + 1..c] = [n + 1..c]"
    by (auto simp: filter_empty_conv intro: filter_True)
  ultimately have "length (filter (\<lambda>k. n < k) (map ev_seq es)) = nat (c - n)" by (simp add: es)
  then show ?thesis using n by (simp add: filter_map comp_def)
qed

interpretation desktop_log: replay_source log_good "\<lambda>d. el_currentSeq (ds_log d)" "\<lambda>d. el_epoch (ds_log d)" desktop_replay
proof
  fix d :: desktop and e n e' "from" to evs
  assume d: "log_good d" and r: "desktop_replay e (Some (JInt n)) d = Inr (Replay e' from to evs)"
  have inv: "log_inv (ds_log d)" using d by (simp add: log_good_def)
  then have seqs: "map ev_seq (el_events (ds_log d)) = [el_droppedThrough (ds_log d) + 1..el_currentSeq (ds_log d)]"
    by (simp add: log_inv_def)
  have n: "el_droppedThrough (ds_log d) \<le> n" "n \<le> el_currentSeq (ds_log d)"
    and r': "e = Some (JStr e')" "e' = el_epoch (ds_log d)" "from = n + 1" "to = el_currentSeq (ds_log d)"
      "evs = map ev_value (filter (\<lambda>x. n < ev_seq x) (el_events (ds_log d)))"
    using r by (auto simp: desktop_replay_def log_replay_def snapshot_required_def ebind_eq_Inr split: sum.splits if_splits)
  show "e = Some (JStr e') \<and> e' = el_epoch (ds_log d) \<and> from = n + 1 \<and> to = el_currentSeq (ds_log d) \<and>
      int (length evs) = to - n"
    using r' filter_later [OF seqs n] by simp
next
  fix d :: desktop
  assume d: "log_good d" "is_safe (el_currentSeq (ds_log d))"
  let ?l = "ds_log d"
  have b: "0 \<le> el_droppedThrough ?l" "el_droppedThrough ?l \<le> el_currentSeq ?l"
    "map ev_seq (el_events ?l) = [el_droppedThrough ?l + 1..el_currentSeq ?l]"
    using d(1) by (simp_all add: log_good_def log_inv_def)
  have "filter (\<lambda>x. el_currentSeq ?l < ev_seq x) (el_events ?l) = []"
    using filter_later [OF b(3,2)] by simp
  then show "desktop_replay (Some (JStr (el_epoch ?l))) (Some (JInt (el_currentSeq ?l))) d =
      Inr (Replay (el_epoch ?l) (el_currentSeq ?l + 1) (el_currentSeq ?l) [])"
    using d b by (simp add: desktop_replay_def log_replay_def log_good_def)
qed

section \<open>Synchronising\<close>

datatype sync_reason = Initial_connection | Log_reason snapshot_reason

datatype sync_answer =
    Sync_replay jstr int int "json list"
  | Sync_snapshot sync_reason jstr int int projection

datatype hub_error = Hub_cursor | Hub_desktop desktop_error

definition safe_cursor :: "json option \<Rightarrow> hub_error + (jstr \<times> int) option" where
  "safe_cursor v =
     (if nullish v then Inr None
      else
        let x = the v in
        require (is_obj x) Hub_cursor
          (case (validate_identifier MAX_ID_LENGTH (field x ''epoch''), nonneg (field x ''afterSeq'')) of
             (Inr e, Some n) \<Rightarrow> Inr (Some (e, n))
           | _ \<Rightarrow> Inl Hub_cursor))"

definition hub_snapshot ::
  "attention_config \<Rightarrow> int \<Rightarrow> (jstr \<Rightarrow> json option) \<Rightarrow> stored_projection list \<Rightarrow> sync_reason \<Rightarrow> desktop \<Rightarrow>
   desktop \<times> (hub_error + sync_answer)" where
  "hub_snapshot c now label records reason d =
     (case desktop_snapshot c now label records d of
        (d', Inl e) \<Rightarrow> (d', Inl (Hub_desktop e))
      | (d', Inr p) \<Rightarrow>
          (d', Inr (Sync_snapshot reason (el_epoch (ds_log d')) (el_currentSeq (ds_log d')) (pr_revision p) p)))"

definition hub_synchronize ::
  "attention_config \<Rightarrow> int \<Rightarrow> (jstr \<Rightarrow> json option) \<Rightarrow> stored_projection list \<Rightarrow> json option \<Rightarrow> desktop \<Rightarrow>
   desktop \<times> (hub_error + sync_answer)" where
  "hub_synchronize c now label records cursor d =
     (case safe_cursor cursor of
        Inl e \<Rightarrow> (d, Inl e)
      | Inr None \<Rightarrow> hub_snapshot c now label records Initial_connection d
      | Inr (Some (e, n)) \<Rightarrow>
          (case desktop_replay (Some (JStr e)) (Some (JInt n)) d of
             Inl err \<Rightarrow> (d, Inl (Hub_desktop err))
           | Inr (Replay e' from to evs) \<Rightarrow> (d, Inr (Sync_replay e' from to evs))
           | Inr (Snapshot_required reason _ _ _) \<Rightarrow> hub_snapshot c now label records (Log_reason reason) d))"

definition hub_acknowledge :: "json option \<Rightarrow> json option \<Rightarrow> desktop \<Rightarrow> hub_error + desktop \<times> int" where
  "hub_acknowledge client seq d =
     (case validate_identifier MAX_ID_LENGTH client of
        Inl _ \<Rightarrow> Inl Hub_cursor
      | Inr _ \<Rightarrow> (case desktop_acknowledge client seq d of Inl e \<Rightarrow> Inl (Hub_desktop e) | Inr x \<Rightarrow> Inr x))"

definition hub_disconnect :: "json option \<Rightarrow> desktop \<Rightarrow> hub_error + desktop \<times> bool" where
  "hub_disconnect client d =
     (case validate_identifier MAX_ID_LENGTH client of
        Inl _ \<Rightarrow> Inl Hub_cursor
      | Inr _ \<Rightarrow> (case desktop_disconnect client d of Inl e \<Rightarrow> Inl (Hub_desktop e) | Inr x \<Rightarrow> Inr x))"

section \<open>Properties\<close>

text \<open>The position an answer leaves a device at.\<close>

fun answer_position :: "sync_answer \<Rightarrow> jstr \<times> int" where
  "answer_position (Sync_replay e from to evs) = (e, to)"
| "answer_position (Sync_snapshot reason e n revision p) = (e, n)"

text \<open>
  C36. Whatever cursor a device sends, an answer leaves it exactly at the end of the log as the answer
  leaves it, including the events that taking the snapshot itself has caused: asking again from there
  gives an empty replay. A replay has one event for every position after the cursor.
\<close>

theorem synchronize_catches_up:
  assumes "log_good d" "hub_synchronize c now label records cursor d = (d', Inr answer)"
    and "is_safe (el_currentSeq (ds_log d'))"
  shows "answer_position answer = (el_epoch (ds_log d'), el_currentSeq (ds_log d')) \<and>
    el_epoch (ds_log d') = el_epoch (ds_log d) \<and> el_currentSeq (ds_log d) \<le> el_currentSeq (ds_log d') \<and>
    desktop_replay (Some (JStr (fst (answer_position answer)))) (Some (JInt (snd (answer_position answer)))) d' =
      Inr (Replay (el_epoch (ds_log d')) (el_currentSeq (ds_log d') + 1) (el_currentSeq (ds_log d')) []) \<and>
    (\<forall>e from to evs. answer = Sync_replay e from to evs \<longrightarrow>
      (\<exists>v. cursor = Some v \<and> field v ''afterSeq'' = Some (JInt (from - 1)) \<and> int (length evs) = to - (from - 1)))"
proof -
  have snap: "log_good t \<and> el_epoch (ds_log t) = el_epoch (ds_log d) \<and> el_currentSeq (ds_log d) \<le> el_currentSeq (ds_log t) \<and>
      answer_position a = (el_epoch (ds_log t), el_currentSeq (ds_log t)) \<and> (\<forall>e from to evs. a \<noteq> Sync_replay e from to evs)"
    if "hub_snapshot c now label records reason d = (t, Inr a)" for reason t a
    using that assms(1) desktop_snapshot_grows [of d c now label records]
    by (auto simp: hub_snapshot_def grows_def log_good_def split: prod.splits sum.splits)
  have shot: ?thesis if "hub_snapshot c now label records reason d = (d', Inr answer)" for reason
    using snap [OF that] desktop_log.replay_current [OF _ assms(3)] by simp
  consider (start) "safe_cursor cursor = Inr None"
    | (resume) e n r where "safe_cursor cursor = Inr (Some (e, n))" "desktop_replay (Some (JStr e)) (Some (JInt n)) d = Inr r"
    using assms(2) by (auto simp: hub_synchronize_def split: sum.splits option.splits)
  then show ?thesis
  proof cases
    case start
    then have "hub_snapshot c now label records Initial_connection d = (d', Inr answer)"
      using assms(2) by (simp add: hub_synchronize_def)
    then show ?thesis by (rule shot)
  next
    case (resume e n r)
    have cursor: "cursor = Some v \<Longrightarrow> field v ''afterSeq'' = Some (JInt n)" for v
      using resume(1) by (auto simp: safe_cursor_def nullish_def Let_def require_eq_Inr nonneg_def
          split: sum.splits option.splits if_splits)
    have "cursor \<noteq> None" using resume(1) by (cases cursor) (simp_all add: safe_cursor_def nullish_def)
    then obtain v where v: "cursor = Some v" "field v ''afterSeq'' = Some (JInt n)" using cursor by blast
    show ?thesis
    proof (cases r)
      case (Replay e' first last evs)
      have d: "d' = d" "answer = Sync_replay e' first last evs"
        using assms(2) resume Replay by (simp_all add: hub_synchronize_def)
      have ends: "e' = el_epoch (ds_log d)" "first = n + 1" "last = el_currentSeq (ds_log d)" "int (length evs) = last - n"
        using desktop_log.replay_ends [OF assms(1) resume(2) [unfolded Replay]] by auto
      show ?thesis
        using desktop_log.replay_current [OF assms(1)] assms(3) d ends v by simp
    next
      case (Snapshot_required why x y z)
      then have "hub_snapshot c now label records (Log_reason why) d = (d', Inr answer)"
        using assms(2) resume by (simp add: hub_synchronize_def)
      then show ?thesis by (rule shot)
    qed
  qed
qed

definition example_log :: event_log where
  "example_log = \<lparr>el_epoch = js ''e'', el_maxEvents = 1, el_maxBytes = 200, el_events = [], el_totalBytes = 0,
     el_currentSeq = 0, el_droppedThrough = 0, el_acks = []\<rparr>"

definition example_desktop :: desktop where
  "example_desktop = \<lparr>ds_log = example_log, ds_revision = 0, ds_attention = None, ds_heard = []\<rparr>"

definition example_cursor :: json where
  "example_cursor = obj [(''epoch'', lit_value ''e''), (''afterSeq'', int_value 0)]"

lemma obj_not_null [simp]: "obj ps \<noteq> JNull"
  by (simp add: obj_def)

lemma example_log_good: "log_good example_desktop"
  by (simp add: log_good_def log_inv_def example_desktop_def example_log_def js_def identifier_ok_def
      is_alnum_unit_def is_digit_unit_def MAX_ID_LENGTH_def)

theorem synchronize_catches_up_witness:
  "hub_synchronize example_config 1 (\<lambda>w. None) [] (Some example_cursor) example_desktop =
     (example_desktop, Inr (Sync_replay (js ''e'') 1 0 [])) \<and>
   desktop_replay (lit_value ''e'') (int_value 0) example_desktop = Inr (Replay (js ''e'') 1 0 [])"
proof -
  have e: "identifier_ok MAX_ID_LENGTH (js ''e'')"
    by (simp add: js_def identifier_ok_def is_alnum_unit_def is_digit_unit_def MAX_ID_LENGTH_def)
  have cursor: "safe_cursor (Some example_cursor) = Inr (Some (js ''e'', 0))"
    using e is_obj_obj by (simp add: safe_cursor_def example_cursor_def nullish_def lit_value_def int_value_def nonneg_def
        validate_identifier_def is_safe_def max_safe_integer_def)
  have "desktop_replay (Some (JStr (js ''e''))) (Some (JInt 0)) example_desktop = Inr (Replay (js ''e'') 1 0 [])"
    using desktop_log.replay_current [OF example_log_good]
    by (simp add: example_desktop_def example_log_def is_safe_def max_safe_integer_def)
  then have sync: "hub_synchronize example_config 1 (\<lambda>w. None) [] (Some example_cursor) example_desktop =
     (example_desktop, Inr (Sync_replay (js ''e'') 1 0 []))"
    by (simp add: hub_synchronize_def cursor)
  then show ?thesis
    using synchronize_catches_up [OF example_log_good sync]
    by (simp add: example_desktop_def example_log_def is_safe_def max_safe_integer_def lit_value_def int_value_def)
qed

end
