(* ===== verification/Chacha_Poly.thy ===== *)
theory Chacha_Poly
  imports Base64url "HOL-Library.Word"
begin

unbundle bit_operations_syntax

text \<open>
  The authenticated cipher of \<open>src/electron/companion/crypto.cjs\<close>: the ChaCha20 block function and
  key stream on 32 bit words, Poly1305 on unbounded integers, their composition as the fallback
  AEAD, and \<open>aeadEncrypt\<close> / \<open>aeadDecrypt\<close>, which use the cipher of the runtime when it has one.
  The locale \<open>aead\<close> states what the rest of the module relies on: opening accepts exactly what
  sealing produces. The fallback cipher is an instance; the cipher of the runtime is a parameter
  with this law as its documented behaviour.
\<close>

section \<open>Errors\<close>

text \<open>
  The codes of \<open>CompanionCryptoError\<close>. \<open>Range_error\<close> stands for the exceptions of the runtime
  itself (a buffer read out of range, a key of the wrong size).
\<close>

datatype crypto_error =
    Invalid_canonical_value
  | Invalid_encoding
  | Invalid_identity
  | Invalid_public_key
  | Invalid_role
  | Invalid_key_record
  | Identity_proof_failed
  | Role_mismatch
  | Identity_mismatch
  | Message_too_large
  | Authentication_failed
  | Counter_exhausted
  | Invalid_dh
  | Invalid_handshake_context
  | Identity_payload_too_large
  | Invalid_handshake_message
  | Handshake_order
  | Invalid_handshake_result
  | Invalid_transport_key
  | Invalid_direction
  | Frame_too_large
  | Invalid_secure_frame
  | Replay_or_out_of_order
  | Invalid_secure_payload
  | Key_confirmation_failed
  | Range_error

section \<open>ChaCha20\<close>

definition rotl32 :: "32 word \<Rightarrow> nat \<Rightarrow> 32 word" where
  "rotl32 v shift = push_bit shift v OR drop_bit (32 - shift) v"

text \<open>One line of \<open>quarterRound\<close>: add into \<open>x\<close>, then exclusive or into \<open>z\<close> and rotate.\<close>

definition mix_pair :: "nat \<Rightarrow> nat \<Rightarrow> nat \<Rightarrow> nat \<Rightarrow> 32 word list \<Rightarrow> 32 word list" where
  "mix_pair x y z shift st =
     (let st' = st[x := st ! x + st ! y] in st'[z := rotl32 (st' ! z XOR st' ! x) shift])"

definition quarter_round :: "nat \<Rightarrow> nat \<Rightarrow> nat \<Rightarrow> nat \<Rightarrow> 32 word list \<Rightarrow> 32 word list" where
  "quarter_round a b c d st =
     mix_pair c d b 7 (mix_pair a b d 8 (mix_pair c d b 12 (mix_pair a b d 16 st)))"

definition double_round :: "32 word list \<Rightarrow> 32 word list" where
  "double_round st =
     quarter_round 3 4 9 14 (quarter_round 2 7 8 13 (quarter_round 1 6 11 12 (quarter_round 0 5 10 15
       (quarter_round 3 7 11 15 (quarter_round 2 6 10 14 (quarter_round 1 5 9 13
         (quarter_round 0 4 8 12 st)))))))"

text \<open>\<open>readUInt32LE\<close> within the buffer and \<open>writeUInt32LE\<close>.\<close>

definition read_u32le :: "bytes \<Rightarrow> nat \<Rightarrow> 32 word" where
  "read_u32le bs i =
     ucast (bs ! i) + ucast (bs ! (i + 1)) * 2 ^ 8 + ucast (bs ! (i + 2)) * 2 ^ 16
       + ucast (bs ! (i + 3)) * 2 ^ 24"

definition write_u32le :: "32 word \<Rightarrow> bytes" where
  "write_u32le w = [ucast w, ucast (drop_bit 8 w), ucast (drop_bit 16 w), ucast (drop_bit 24 w)]"

definition ascii_bytes :: "string \<Rightarrow> bytes" where
  "ascii_bytes s = map of_char s"

definition CHACHA_CONSTANTS :: bytes where
  "CHACHA_CONSTANTS = ascii_bytes ''expand 32-byte k''"

definition chacha_initial :: "bytes \<Rightarrow> 32 word \<Rightarrow> bytes \<Rightarrow> 32 word list" where
  "chacha_initial key counter nonce =
     map (\<lambda>i. read_u32le CHACHA_CONSTANTS (i * 4)) [0..<4]
     @ map (\<lambda>i. read_u32le key (i * 4)) [0..<8]
     @ counter # map (\<lambda>i. read_u32le nonce (i * 4)) [0..<3]"

text \<open>
  \<open>chachaBlock\<close>. The reads of the key and of the nonce throw when the buffer is too short.
\<close>

definition chacha_block :: "bytes \<Rightarrow> 32 word \<Rightarrow> bytes \<Rightarrow> crypto_error + bytes" where
  "chacha_block key counter nonce =
     require (32 \<le> length key \<and> 12 \<le> length nonce) Range_error
       (let initial = chacha_initial key counter nonce;
            state = (double_round ^^ 10) initial
        in Inr (concat (map2 (\<lambda>s i. write_u32le (s + i)) state initial)))"

text \<open>
  \<open>chachaXor\<close>: 64 bytes at a time, the block counter starting at \<open>initialCounter\<close> and checked
  before every block.
\<close>

function chacha_xor :: "bytes \<Rightarrow> bytes \<Rightarrow> nat \<Rightarrow> bytes \<Rightarrow> crypto_error + bytes" where
  "chacha_xor key nonce counter input =
     (if input = [] then Inr []
      else require (counter \<le> 2 ^ 32 - 1) Message_too_large
        (ebind (chacha_block key (of_nat counter) nonce) (\<lambda>stream.
         ebind (chacha_xor key nonce (counter + 1) (drop 64 input)) (\<lambda>rest.
           Inr (map2 (\<lambda>x y. x XOR y) (take 64 input) stream @ rest)))))"
  by pat_completeness auto
termination by (relation "measure (\<lambda>(key, nonce, counter, input). length input)") auto

declare chacha_xor.simps [simp del]

section \<open>Poly1305\<close>

definition little_endian_big_int :: "bytes \<Rightarrow> int" where
  "little_endian_big_int bs = foldr (\<lambda>b v. push_bit 8 v OR uint b) bs 0"

fun big_int_little_endian :: "int \<Rightarrow> nat \<Rightarrow> bytes" where
  "big_int_little_endian v 0 = []"
| "big_int_little_endian v (Suc n) =
     word_of_int (v AND 255) # big_int_little_endian (drop_bit 8 v) n"

definition clamp :: "bytes \<Rightarrow> bytes" where
  "clamp bs = fold (\<lambda>(i, mask) r. r[i := r ! i AND mask])
     [(3, 15), (7, 15), (11, 15), (15, 15), (4, 252), (8, 252), (12, 252)] bs"

definition poly_prime :: int where
  "poly_prime = push_bit 130 1 - 5"

text \<open>The value of a block with the bit that is set after its last byte.\<close>

definition block_value :: "bytes \<Rightarrow> int" where
  "block_value bs = little_endian_big_int bs + push_bit (8 * length bs) 1"

function poly_accumulate :: "int \<Rightarrow> int \<Rightarrow> bytes \<Rightarrow> int" where
  "poly_accumulate r acc message =
     (if message = [] then acc
      else poly_accumulate r ((acc + block_value (take 16 message)) * r mod poly_prime)
             (drop 16 message))"
  by pat_completeness auto
termination by (relation "measure (\<lambda>(r, acc, message). length message)") auto

declare poly_accumulate.simps [simp del]

definition poly1305 :: "bytes \<Rightarrow> bytes \<Rightarrow> bytes" where
  "poly1305 message one_time_key =
     (let r = little_endian_big_int (clamp (take 16 one_time_key));
          s = little_endian_big_int (subarray 16 32 one_time_key)
      in big_int_little_endian ((poly_accumulate r 0 message + s) AND (push_bit 128 1 - 1)) 16)"

definition pad16 :: "bytes \<Rightarrow> bytes" where
  "pad16 bs = (let remainder = length bs mod 16
               in if remainder = 0 then [] else replicate (16 - remainder) 0)"

text \<open>\<open>writeBigUInt64LE\<close> of a length, which is below \<^term>\<open>2 ^ 64\<close> for every buffer.\<close>

definition aead_mac_data :: "bytes \<Rightarrow> bytes \<Rightarrow> bytes" where
  "aead_mac_data aad ciphertext =
     aad @ pad16 aad @ ciphertext @ pad16 ciphertext
       @ big_int_little_endian (int (length aad)) 8
       @ big_int_little_endian (int (length ciphertext)) 8"

section \<open>The fallback cipher\<close>

definition fallback_encrypt :: "bytes \<Rightarrow> bytes \<Rightarrow> bytes \<Rightarrow> bytes \<Rightarrow> crypto_error + bytes" where
  "fallback_encrypt key nonce aad plaintext =
     ebind (chacha_block key 0 nonce) (\<lambda>block.
     ebind (chacha_xor key nonce 1 plaintext) (\<lambda>ciphertext.
       Inr (ciphertext @ poly1305 (aead_mac_data aad ciphertext) (take 32 block))))"

definition fallback_decrypt :: "bytes \<Rightarrow> bytes \<Rightarrow> bytes \<Rightarrow> bytes \<Rightarrow> crypto_error + bytes" where
  "fallback_decrypt key nonce aad combined =
     require (16 \<le> length combined) Authentication_failed
       (let ciphertext = take (length combined - 16) combined;
            tag = drop (length combined - 16) combined
        in ebind (chacha_block key 0 nonce) (\<lambda>block.
           require (tag = poly1305 (aead_mac_data aad ciphertext) (take 32 block)) Authentication_failed
             (chacha_xor key nonce 1 ciphertext)))"

text \<open>
  \<open>HAS_NATIVE_CHACHA\<close>: the cipher of the runtime, when it has one. Whatever its decryption throws
  becomes \<open>authentication_failed\<close>.
\<close>

record native_cipher =
  native_seal :: "bytes \<Rightarrow> bytes \<Rightarrow> bytes \<Rightarrow> bytes \<Rightarrow> bytes option"
  native_open :: "bytes \<Rightarrow> bytes \<Rightarrow> bytes \<Rightarrow> bytes \<Rightarrow> bytes option"

definition aead_encrypt ::
  "native_cipher option \<Rightarrow> bytes \<Rightarrow> bytes \<Rightarrow> bytes \<Rightarrow> bytes \<Rightarrow> crypto_error + bytes" where
  "aead_encrypt native key nonce aad plaintext =
     (case native of
        None \<Rightarrow> fallback_encrypt key nonce aad plaintext
      | Some c \<Rightarrow> (case native_seal c key nonce aad plaintext of
            None \<Rightarrow> Inl Range_error
          | Some combined \<Rightarrow> Inr combined))"

definition aead_decrypt ::
  "native_cipher option \<Rightarrow> bytes \<Rightarrow> bytes \<Rightarrow> bytes \<Rightarrow> bytes \<Rightarrow> crypto_error + bytes" where
  "aead_decrypt native key nonce aad combined =
     (case native of
        None \<Rightarrow> fallback_decrypt key nonce aad combined
      | Some c \<Rightarrow> require (16 \<le> length combined) Authentication_failed
          (case native_open c key nonce aad combined of
             None \<Rightarrow> Inl Authentication_failed
           | Some plaintext \<Rightarrow> Inr plaintext))"

section \<open>The interface\<close>

locale aead =
  fixes seal :: "bytes \<Rightarrow> bytes \<Rightarrow> bytes \<Rightarrow> bytes \<Rightarrow> 'e + bytes"
    and unseal :: "bytes \<Rightarrow> bytes \<Rightarrow> bytes \<Rightarrow> bytes \<Rightarrow> 'e + bytes"
  assumes unseal_iff: "unseal k n a c = Inr p \<longleftrightarrow> seal k n a p = Inr c"
    and seal_length: "seal k n a p = Inr c \<Longrightarrow> length c = length p + 16"
begin

lemma unseal_seal: "seal k n a p = Inr c \<Longrightarrow> unseal k n a c = Inr p"
  by (simp add: unseal_iff)

lemma seal_inject: "seal k n a p = Inr c \<Longrightarrow> seal k n a q = Inr c \<Longrightarrow> p = q"
  by (simp add: unseal_iff [symmetric])

lemma unseal_length: "unseal k n a c = Inr p \<Longrightarrow> length c = length p + 16"
  by (simp add: unseal_iff seal_length)

lemma unseal_short: "length c < 16 \<Longrightarrow> \<not> is_ok (unseal k n a c)"
  using unseal_length by (force simp: is_ok_iff)

end

text \<open>What is relied on of the cipher of the runtime.\<close>

fun native_law :: "native_cipher option \<Rightarrow> bool" where
  "native_law None = True"
| "native_law (Some c) =
     (\<forall>k n a p s. (native_open c k n a s = Some p \<longleftrightarrow> native_seal c k n a p = Some s)
        \<and> (native_seal c k n a p = Some s \<longrightarrow> length s = length p + 16)
        \<and> (length k = 32 \<and> length n = 12 \<and> length p < 2 ^ 32 \<longrightarrow> native_seal c k n a p \<noteq> None))"

section \<open>The key stream\<close>

lemma length_mix_pair [simp]: "length (mix_pair x y z n st) = length st"
  by (simp add: mix_pair_def Let_def)

lemma length_quarter_round [simp]: "length (quarter_round a b c d st) = length st"
  by (simp add: quarter_round_def)

lemma length_double_round [simp]: "length (double_round st) = length st"
  by (simp add: double_round_def)

lemma length_double_rounds [simp]: "length ((double_round ^^ n) st) = length st"
  by (induction n) simp_all

lemma length_chacha_initial [simp]: "length (chacha_initial key counter nonce) = 16"
  by (simp add: chacha_initial_def)

lemma length_concat_write: "length (concat (map2 (\<lambda>s i. write_u32le (f s i)) xs ys)) = 4 * min (length xs) (length ys)"
  by (induction xs ys rule: list_induct2') (simp_all add: write_u32le_def)

lemma chacha_block_length: "chacha_block key counter nonce = Inr s \<Longrightarrow> length s = 64"
  by (auto simp: chacha_block_def Let_def require_eq_Inr length_concat_write)

lemma chacha_block_total:
  "32 \<le> length key \<Longrightarrow> 12 \<le> length nonce \<Longrightarrow> \<exists>s. chacha_block key counter nonce = Inr s"
  by (simp add: chacha_block_def Let_def)

lemma xor_stream_twice:
  "length xs \<le> length s \<Longrightarrow>
   map2 (\<lambda>x y. x XOR y) (map2 (\<lambda>x y. x XOR y) xs s) s = (xs :: bytes)"
  by (induction xs s rule: list_induct2') (simp_all add: xor.assoc)

lemma chacha_xor_Cons:
  "input \<noteq> [] \<Longrightarrow> chacha_xor key nonce counter input = Inr out \<longleftrightarrow>
   counter \<le> 2 ^ 32 - 1 \<and> (\<exists>s rest. chacha_block key (of_nat counter) nonce = Inr s
     \<and> chacha_xor key nonce (counter + 1) (drop 64 input) = Inr rest
     \<and> out = map2 (\<lambda>x y. x XOR y) (take 64 input) s @ rest)"
  by (subst chacha_xor.simps) (auto simp: require_eq_Inr ebind_eq_Inr)

lemma chacha_xor_Nil [simp]: "chacha_xor key nonce counter [] = Inr []"
  by (simp add: chacha_xor.simps)

lemma chacha_xor_length: "chacha_xor key nonce counter input = Inr out \<Longrightarrow> length out = length input"
proof (induction key nonce counter input arbitrary: out rule: chacha_xor.induct)
  case (1 key nonce counter input)
  show ?case
  proof (cases "input = []")
    case False
    with 1(2) obtain s rest where s: "counter \<le> 2 ^ 32 - 1" "chacha_block key (of_nat counter) nonce = Inr s"
      and r: "chacha_xor key nonce (counter + 1) (drop 64 input) = Inr rest"
      and out: "out = map2 (\<lambda>x y. x XOR y) (take 64 input) s @ rest"
      by (auto simp: chacha_xor_Cons)
    have "length rest = length input - 64" using 1(1) [OF False r] by simp
    then show ?thesis using chacha_block_length [OF s(2)] by (simp add: out)
  qed (use 1(2) in simp)
qed

text \<open>The key stream is its own inverse.\<close>

lemma chacha_xor_involution:
  "chacha_xor key nonce counter input = Inr out \<Longrightarrow> chacha_xor key nonce counter out = Inr input"
proof (induction key nonce counter input arbitrary: out rule: chacha_xor.induct)
  case (1 key nonce counter input)
  show ?case
  proof (cases "input = []")
    case False
    with 1(2) obtain s rest where c: "counter \<le> 2 ^ 32 - 1"
      and s: "chacha_block key (of_nat counter) nonce = Inr s"
      and r: "chacha_xor key nonce (counter + 1) (drop 64 input) = Inr rest"
      and out: "out = map2 (\<lambda>x y. x XOR y) (take 64 input) s @ rest"
      by (auto simp: chacha_xor_Cons)
    have len: "length s = 64" by (rule chacha_block_length [OF s])
    have lr: "length rest = length input - 64" using chacha_xor_length [OF r] by simp
    have parts: "take 64 out = map2 (\<lambda>x y. x XOR y) (take 64 input) s" "drop 64 out = rest"
      using len lr by (auto simp: out min_def)
    have "map2 (\<lambda>x y. x XOR y) (take 64 out) s = take 64 input"
      unfolding parts by (rule xor_stream_twice) (simp add: len)
    moreover have "out \<noteq> []" using False chacha_xor_length [OF 1(2)] by auto
    moreover have "chacha_xor key nonce (counter + 1) (drop 64 out) = Inr (drop 64 input)"
      unfolding parts by (rule 1(1) [OF False r])
    ultimately show ?thesis using c s by (simp add: chacha_xor_Cons)
  qed (use 1(2) in simp)
qed

lemma chacha_xor_iff:
  "chacha_xor key nonce counter x = Inr y \<longleftrightarrow> chacha_xor key nonce counter y = Inr x"
  using chacha_xor_involution by blast

text \<open>The counter suffices for inputs of up to \<open>2 ^ 32\<close> minus the initial counter blocks.\<close>

lemma chacha_xor_total:
  "32 \<le> length key \<Longrightarrow> 12 \<le> length nonce \<Longrightarrow> length input \<le> 64 * (2 ^ 32 - counter) \<Longrightarrow>
   \<exists>out. chacha_xor key nonce counter input = Inr out"
proof (induction key nonce counter input rule: chacha_xor.induct)
  case (1 key nonce counter input)
  show ?case
  proof (cases "input = []")
    case False
    then have "0 < length input" by simp
    with 1(4) have c: "counter \<le> 2 ^ 32 - 1" by linarith
    obtain s where s: "chacha_block key (of_nat counter) nonce = Inr s"
      using chacha_block_total 1(2,3) by blast
    have "length (drop 64 input) \<le> 64 * (2 ^ 32 - (counter + 1))" using 1(4) by simp
    then obtain rest where "chacha_xor key nonce (counter + 1) (drop 64 input) = Inr rest"
      using 1(1) [OF False 1(2,3)] c s by blast
    then show ?thesis using False c s by (auto simp: chacha_xor_Cons)
  qed simp
qed

text \<open>The test vector of RFC 8439 for the quarter round.\<close>

lemma quarter_round_vector:
  "quarter_round 0 1 2 3 [0x11111111, 0x01020304, 0x9b8d6f43, 0x01234567]
     = [0xea2a92f4, 0xcb1cf8ce, 0x4581472e, 0x5881c4bb]"
  by (simp add: quarter_round_def mix_pair_def rotl32_def)

section \<open>The one-time authenticator\<close>

text \<open>The loops over bytes as arithmetic.\<close>

lemma shift_or: "push_bit 8 v OR uint (b :: byte) = 256 * v + uint b"
proof -
  have "take_bit 8 (uint b) = uint b"
    using unsigned_less [of b, where ?'a = int] by (simp add: take_bit_int_eq_self_iff)
  moreover have "push_bit 8 v AND take_bit 8 (uint b) = 0"
    by (auto simp: bit_eq_iff bit_and_iff bit_push_bit_iff bit_take_bit_iff)
  ultimately have "push_bit 8 v AND uint b = 0" by simp
  then have "push_bit 8 v OR uint b = push_bit 8 v + uint b"
    by (simp add: disjunctive_add_eq_or)
  then show ?thesis by (simp add: push_bit_eq_mult)
qed

lemma little_endian_Nil [simp]: "little_endian_big_int [] = 0"
  by (simp add: little_endian_big_int_def)

lemma little_endian_Cons [simp]:
  "little_endian_big_int (b # bs) = uint b + 256 * little_endian_big_int bs"
  by (simp add: little_endian_big_int_def shift_or)

lemma little_endian_or:
  "little_endian_big_int (b # bs) = push_bit 8 (little_endian_big_int bs) OR uint b"
  by (simp add: little_endian_big_int_def)

lemma length_big_int_little_endian [simp]: "length (big_int_little_endian v n) = n"
  by (induction n arbitrary: v) simp_all

lemma length_poly1305 [simp]: "length (poly1305 message key) = 16"
  by (simp add: poly1305_def Let_def)

text \<open>The reference: the blocks of the message as the coefficients of a polynomial in \<open>r\<close>.\<close>

function blocks16 :: "bytes \<Rightarrow> bytes list" where
  "blocks16 message = (if message = [] then [] else take 16 message # blocks16 (drop 16 message))"
  by pat_completeness auto
termination by (relation "measure length") auto

declare blocks16.simps [simp del]

definition polynomial :: "int \<Rightarrow> int list \<Rightarrow> int" where
  "polynomial r cs = (\<Sum>i<length cs. cs ! i * r ^ (length cs - i))"

lemma polynomial_Cons: "polynomial r (c # cs) = c * r ^ Suc (length cs) + polynomial r cs"
  by (simp add: polynomial_def sum.lessThan_Suc_shift del: sum.lessThan_Suc)

lemma poly_accumulate_eq:
  "poly_accumulate r (acc mod poly_prime) message =
     (acc * r ^ length (blocks16 message) + polynomial r (map block_value (blocks16 message)))
       mod poly_prime"
proof (induction message arbitrary: acc rule: blocks16.induct)
  case (1 message)
  show ?case
  proof (cases "message = []")
    case True
    then show ?thesis by (simp add: poly_accumulate.simps blocks16.simps polynomial_def)
  next
    case False
    let ?c = "block_value (take 16 message)" and ?n = "length (blocks16 (drop 16 message))"
    have "poly_accumulate r (acc mod poly_prime) message =
        poly_accumulate r ((acc mod poly_prime + ?c) * r mod poly_prime) (drop 16 message)"
      using False by (subst poly_accumulate.simps) simp
    also have "\<dots> = poly_accumulate r ((acc + ?c) * r mod poly_prime) (drop 16 message)"
      by (metis mod_add_left_eq mod_mult_left_eq)
    also have "\<dots> = ((acc + ?c) * r * r ^ ?n + polynomial r (map block_value (blocks16 (drop 16 message))))
        mod poly_prime"
      by (rule 1 [OF False])
    also have "\<dots> = (acc * r ^ Suc ?n + (?c * r ^ Suc ?n
        + polynomial r (map block_value (blocks16 (drop 16 message))))) mod poly_prime"
      by (simp add: algebra_simps)
    finally show ?thesis
      using False by (subst (1 2) blocks16.simps) (simp add: polynomial_Cons)
  qed
qed

text \<open>Clamping byte by byte is a mask on the number.\<close>

lemma little_endian_and:
  "length xs = length ys \<Longrightarrow>
   little_endian_big_int (map2 (\<lambda>x y. x AND y) xs ys)
     = little_endian_big_int xs AND little_endian_big_int ys"
proof (induction xs ys rule: list_induct2)
  case (Cons x xs y ys)
  have e: "(push_bit 8 v OR uint x) AND (push_bit 8 w OR uint y) = push_bit 8 (v AND w) OR uint (x AND y)"
    for v w :: int
  proof -
    have x: "take_bit 8 (uint x) = uint x" and y: "take_bit 8 (uint y) = uint y"
      using unsigned_less [of x, where ?'a = int] unsigned_less [of y, where ?'a = int]
      by (simp_all add: take_bit_int_eq_self_iff)
    have "(push_bit 8 v OR take_bit 8 a) AND (push_bit 8 w OR take_bit 8 b)
        = push_bit 8 (v AND w) OR (take_bit 8 a AND take_bit 8 b)" for a b :: int
      by (rule bit_eqI) (auto simp: bit_simps)
    from this [of "uint x" "uint y"] show ?thesis by (simp add: x y unsigned_and_eq)
  qed
  show ?case using Cons.IH by (simp del: little_endian_Cons add: little_endian_or e)
qed simp

text \<open>The mask of RFC 8439 on the first half of the one-time key.\<close>

definition CLAMP_MASK :: int where
  "CLAMP_MASK = 0x0ffffffc0ffffffc0ffffffc0fffffff"

definition mask_bytes :: bytes where
  "mask_bytes = [255, 255, 255, 15, 252, 255, 255, 15, 252, 255, 255, 15, 252, 255, 255, 15]"

lemma little_endian_mask_bytes: "little_endian_big_int mask_bytes = CLAMP_MASK"
  by (simp add: mask_bytes_def CLAMP_MASK_def)

lemma and_ones_byte: "(b :: byte) AND 255 = b"
proof -
  have "(255 :: byte) = - 1" by simp
  then show ?thesis by (metis and.right_neutral)
qed

lemma length_16_cases:
  assumes "length bs = 16"
  obtains b0 b1 b2 b3 b4 b5 b6 b7 b8 b9 b10 b11 b12 b13 b14 b15
  where "bs = [b0, b1, b2, b3, b4, b5, b6, b7, b8, b9, b10, b11, b12, b13, b14, b15]"
  using assms by (auto simp: numeral_eq_Suc length_Suc_conv)

lemma clamp_mask: "length bs = 16 \<Longrightarrow> clamp bs = map2 (\<lambda>x y. x AND y) bs mask_bytes"
  by (elim length_16_cases) (simp add: clamp_def mask_bytes_def and_ones_byte)

lemma clamp_value:
  "length bs = 16 \<Longrightarrow> little_endian_big_int (clamp bs) = little_endian_big_int bs AND CLAMP_MASK"
  by (simp add: clamp_mask little_endian_and little_endian_mask_bytes [symmetric] mask_bytes_def)

section \<open>Properties\<close>

text \<open>
  C40. Poly1305 against its definition in RFC 8439: with the first half of the one-time key under the
  clamp mask as \<open>r\<close> and the second half as \<open>s\<close>, the tag is the value at \<open>r\<close> of the polynomial whose
  coefficients are the 16 byte blocks of the message (each with a bit set after its last byte),
  modulo \<open>2 ^ 130 - 5\<close>, plus \<open>s\<close>, in 16 bytes.
\<close>

theorem poly1305_is_polynomial:
  assumes "length key = 32"
  shows "poly1305 message key =
    big_int_little_endian
      (((polynomial (little_endian_big_int (take 16 key) AND 0x0ffffffc0ffffffc0ffffffc0fffffff)
           (map block_value (blocks16 message)) mod (2 ^ 130 - 5))
        + little_endian_big_int (drop 16 key)) mod 2 ^ 128) 16"
proof -
  let ?r = "little_endian_big_int (take 16 key) AND CLAMP_MASK"
  have p: "poly_prime = 2 ^ 130 - 5" by (simp add: poly_prime_def push_bit_eq_mult)
  have "subarray 16 32 key = drop 16 key" using assms by (simp add: subarray_def)
  moreover have "little_endian_big_int (clamp (take 16 key)) = ?r"
    by (rule clamp_value) (simp add: assms)
  moreover have "poly_accumulate ?r 0 message
      = polynomial ?r (map block_value (blocks16 message)) mod poly_prime"
    using poly_accumulate_eq [of ?r 0 message] by simp
  moreover have "v AND (push_bit 128 1 - 1) = v mod 2 ^ 128" for v :: int
    by (metis mask_eq_exp_minus_1 push_bit_of_1 take_bit_eq_mask take_bit_eq_mod)
  ultimately show ?thesis by (simp only: poly1305_def Let_def p CLAMP_MASK_def)
qed

theorem poly1305_is_polynomial_witness:
  "poly1305 [1, 2, 3] (replicate 32 7) =
    big_int_little_endian
      (((polynomial (little_endian_big_int (take 16 (replicate 32 7)) AND 0x0ffffffc0ffffffc0ffffffc0fffffff)
           (map block_value (blocks16 [1, 2, 3])) mod (2 ^ 130 - 5))
        + little_endian_big_int (drop 16 (replicate 32 7))) mod 2 ^ 128) 16"
  by (rule poly1305_is_polynomial) simp

text \<open>The fallback cipher keeps the law of the interface.\<close>

lemma fallback_encrypt_Inr:
  "fallback_encrypt key nonce aad p = Inr c \<longleftrightarrow>
   (\<exists>block ct. chacha_block key 0 nonce = Inr block \<and> chacha_xor key nonce 1 p = Inr ct
     \<and> c = ct @ poly1305 (aead_mac_data aad ct) (take 32 block))"
  by (auto simp: fallback_encrypt_def ebind_eq_Inr)

lemma fallback_decrypt_Inr:
  "fallback_decrypt key nonce aad c = Inr p \<longleftrightarrow>
   (\<exists>block ct. chacha_block key 0 nonce = Inr block \<and> chacha_xor key nonce 1 ct = Inr p
     \<and> c = ct @ poly1305 (aead_mac_data aad ct) (take 32 block))"
  (is "?l \<longleftrightarrow> ?r")
proof
  assume ?l
  then show ?r
    unfolding fallback_decrypt_def Let_def
    by (elim ebind_InrE require_InrE) (metis append_take_drop_id)
next
  assume ?r
  then show ?l by (auto simp: fallback_decrypt_def Let_def)
qed

lemma fallback_open_iff:
  "fallback_decrypt k n a c = Inr p \<longleftrightarrow> fallback_encrypt k n a p = Inr c"
  unfolding fallback_decrypt_Inr fallback_encrypt_Inr by (metis chacha_xor_iff)

lemma fallback_length: "fallback_encrypt k n a p = Inr c \<Longrightarrow> length c = length p + 16"
  by (auto simp: fallback_encrypt_Inr dest: chacha_xor_length)

interpretation fallback: aead fallback_encrypt fallback_decrypt
  by unfold_locales (fact fallback_open_iff fallback_length)+

lemma aead_of_native:
  assumes "native_law native"
  shows "aead (aead_encrypt native) (aead_decrypt native)"
proof (cases native)
  case None
  have "aead_encrypt None = fallback_encrypt" "aead_decrypt None = fallback_decrypt"
    by (intro ext; simp add: aead_encrypt_def aead_decrypt_def)+
  then show ?thesis using None fallback.aead_axioms by simp
next
  case (Some c)
  have law: "native_open c k n a s = Some p \<longleftrightarrow> native_seal c k n a p = Some s"
    and len: "native_seal c k n a p = Some s \<Longrightarrow> length s = length p + 16" for k n a p s
    using assms Some by auto
  show ?thesis
  proof
    show "aead_decrypt native k n a s = Inr p \<longleftrightarrow> aead_encrypt native k n a p = Inr s" for k n a s p
      using law [of k n a s p] len [of k n a p s]
      by (auto simp: Some aead_encrypt_def aead_decrypt_def require_eq_Inr split: option.splits)
    show "aead_encrypt native k n a p = Inr s \<Longrightarrow> length s = length p + 16" for k n a p s
      using len by (auto simp: Some aead_encrypt_def split: option.splits)
  qed
qed

lemma aead_encrypt_total:
  assumes "native_law native" "length key = 32" "length nonce = 12" "length p < 2 ^ 32"
  shows "\<exists>c. aead_encrypt native key nonce aad p = Inr c"
proof (cases native)
  case None
  have "length p \<le> 64 * (2 ^ 32 - 1)" using assms(4) by simp
  then obtain ct where "chacha_xor key nonce 1 p = Inr ct"
    using chacha_xor_total [of key nonce p 1] assms(2,3) by auto
  moreover obtain block where "chacha_block key 0 nonce = Inr block"
    using chacha_block_total [of key nonce 0] assms(2,3) by auto
  ultimately show ?thesis by (simp add: None aead_encrypt_def fallback_encrypt_def)
next
  case (Some c)
  have "native_seal c key nonce aad p \<noteq> None" using assms by (simp add: Some)
  then show ?thesis by (auto simp: Some aead_encrypt_def)
qed

text \<open>
  C39. The fallback cipher opens a text exactly when it is what sealing the result produces: every
  accepted ciphertext is the one and only encryption of its plaintext under the key, nonce and
  associated data, and with a key of 32 bytes and a nonce of 12 every plaintext of up to
  \<open>64 * (2 ^ 32 - 1)\<close> bytes can be sealed, into 16 bytes more.
\<close>

theorem fallback_aead_exact:
  assumes "length key = 32" and "length nonce = 12" and "length plaintext \<le> 64 * (2 ^ 32 - 1)"
  shows "\<exists>c. fallback_encrypt key nonce aad plaintext = Inr c
    \<and> length c = length plaintext + 16
    \<and> fallback_decrypt key nonce aad c = Inr plaintext
    \<and> (\<forall>c'. fallback_decrypt key nonce aad c' = Inr plaintext \<longrightarrow> c' = c)"
proof -
  obtain block ct where "chacha_block key 0 nonce = Inr block" "chacha_xor key nonce 1 plaintext = Inr ct"
    using chacha_block_total [of key nonce 0] chacha_xor_total [of key nonce plaintext 1] assms by auto
  then obtain c where "fallback_encrypt key nonce aad plaintext = Inr c"
    by (auto simp: fallback_encrypt_Inr)
  then show ?thesis
    using fallback.unseal_seal fallback.seal_length by (auto simp: fallback_open_iff)
qed

theorem fallback_aead_exact_witness:
  "\<exists>c. fallback_encrypt (replicate 32 1) (replicate 12 2) [] [3, 4] = Inr c
    \<and> length c = length [3, 4 :: byte] + 16
    \<and> fallback_decrypt (replicate 32 1) (replicate 12 2) [] c = Inr [3, 4]
    \<and> (\<forall>c'. fallback_decrypt (replicate 32 1) (replicate 12 2) [] c' = Inr [3, 4] \<longrightarrow> c' = c)"
  by (rule fallback_aead_exact) simp_all

end
