(* ===== verification/Json_Parse.thy ===== *)
theory Json_Parse
  imports Json
begin

text \<open>
  \<open>JSON.parse\<close> on UTF-16 text. A literal that denotes a safe integer gives that integer; the
  conversion of any other number literal to a double is the parameter \<open>number\<close>. A name that occurs
  twice in an object keeps its first place and its last value, and names that are array indices
  come first. The parser is total: its fuel is twice the length of the text, and \<open>parse_enough\<close> shows
  that more fuel never changes an answer. \<open>parse_stringify\<close> and \<open>parse_canonical\<close> are the round
  trips with \<open>JSON.stringify\<close> and \<open>canonicalJson\<close>.
\<close>

section \<open>Tokens\<close>

definition is_json_space :: "16 word \<Rightarrow> bool" where
  "is_json_space u = (u = 32 \<or> u = 9 \<or> u = 10 \<or> u = 13)"

definition skip_space :: "jstr \<Rightarrow> jstr" where
  "skip_space s = dropWhile is_json_space s"

definition hex_value :: "16 word \<Rightarrow> nat option" where
  "hex_value u =
     (if 48 \<le> u \<and> u \<le> 57 then Some (unat u - 48)
      else if 97 \<le> u \<and> u \<le> 102 then Some (unat u - 87)
      else if 65 \<le> u \<and> u \<le> 70 then Some (unat u - 55) else None)"

definition hex4 :: "16 word \<Rightarrow> 16 word \<Rightarrow> 16 word \<Rightarrow> 16 word \<Rightarrow> 16 word option" where
  "hex4 a b c d =
     (case (hex_value a, hex_value b, hex_value c, hex_value d) of
        (Some w, Some x, Some y, Some z) \<Rightarrow> Some (of_nat (w * 4096 + x * 256 + y * 16 + z))
      | _ \<Rightarrow> None)"

definition simple_escape :: "16 word \<Rightarrow> 16 word option" where
  "simple_escape e =
     (if e = 34 \<or> e = 92 \<or> e = 47 then Some e
      else if e = 98 then Some 8 else if e = 102 then Some 12 else if e = 110 then Some 10
      else if e = 114 then Some 13 else if e = 116 then Some 9 else None)"

definition cons_unit :: "16 word \<Rightarrow> (jstr \<times> jstr) option \<Rightarrow> (jstr \<times> jstr) option" where
  "cons_unit u r = map_option (apfst (Cons u)) r"

text \<open>The rest of a string literal, after its opening quote.\<close>

fun parse_units :: "jstr \<Rightarrow> (jstr \<times> jstr) option" where
  "parse_units [] = None"
| "parse_units [u] = (if u = 34 then Some ([], []) else None)"
| "parse_units (u # e # r) =
     (if u = 34 then Some ([], e # r)
      else if u = 92 then
        (if e = 117 then
           (case r of
              a # b # c # d # r' \<Rightarrow>
                (case hex4 a b c d of None \<Rightarrow> None | Some x \<Rightarrow> cons_unit x (parse_units r'))
            | _ \<Rightarrow> None)
         else (case simple_escape e of None \<Rightarrow> None | Some x \<Rightarrow> cons_unit x (parse_units r)))
      else if u < 32 then None
      else cons_unit u (parse_units (e # r)))"

section \<open>Numbers\<close>

definition is_number_unit :: "16 word \<Rightarrow> bool" where
  "is_number_unit u = (is_digit_unit u \<or> u = 43 \<or> u = 45 \<or> u = 46 \<or> u = 69 \<or> u = 101)"

definition unsigned_part :: "jstr \<Rightarrow> jstr" where
  "unsigned_part t = (if t \<noteq> [] \<and> hd t = 45 then tl t else t)"

definition digits_ok :: "jstr \<Rightarrow> bool" where
  "digits_ok t = (t \<noteq> [] \<and> (hd t = 48 \<longrightarrow> length t = 1))"

definition exponent_ok :: "jstr \<Rightarrow> bool" where
  "exponent_ok t =
     (t = [] \<or> ((hd t = 69 \<or> hd t = 101) \<and>
        (let e = (if tl t \<noteq> [] \<and> (hd (tl t) = 43 \<or> hd (tl t) = 45) then tl (tl t) else tl t)
         in e \<noteq> [] \<and> list_all is_digit_unit e)))"

definition fraction_ok :: "jstr \<Rightarrow> bool" where
  "fraction_ok t =
     (if t \<noteq> [] \<and> hd t = 46
      then takeWhile is_digit_unit (tl t) \<noteq> [] \<and> exponent_ok (dropWhile is_digit_unit (tl t))
      else exponent_ok t)"

text \<open>The number grammar, and the literals of integers.\<close>

definition number_ok :: "jstr \<Rightarrow> bool" where
  "number_ok t =
     (let body = unsigned_part t
      in digits_ok (takeWhile is_digit_unit body) \<and> fraction_ok (dropWhile is_digit_unit body))"

definition integer_literal :: "jstr \<Rightarrow> int option" where
  "integer_literal t =
     (let body = unsigned_part t
      in if digits_ok body \<and> list_all is_digit_unit body
         then Some (if body = t then int (nat_of_digits 0 t) else - int (nat_of_digits 0 body))
         else None)"

definition parse_number :: "(jstr \<Rightarrow> json) \<Rightarrow> jstr \<Rightarrow> (json \<times> jstr) option" where
  "parse_number number s =
     (let t = takeWhile is_number_unit s; r = dropWhile is_number_unit s
      in case integer_literal t of
           Some n \<Rightarrow> Some (if is_safe n then JInt n else number t, r)
         | None \<Rightarrow> if number_ok t then Some (number t, r) else None)"

section \<open>Values\<close>

definition strip_prefix :: "jstr \<Rightarrow> jstr \<Rightarrow> jstr option" where
  "strip_prefix p s = (if take (length p) s = p then Some (drop (length p) s) else None)"

definition parse_atom :: "(jstr \<Rightarrow> json) \<Rightarrow> jstr \<Rightarrow> (json \<times> jstr) option" where
  "parse_atom number s =
     (case strip_prefix (js ''true'') s of Some r \<Rightarrow> Some (JBool True, r) | None \<Rightarrow>
     (case strip_prefix (js ''false'') s of Some r \<Rightarrow> Some (JBool False, r) | None \<Rightarrow>
     (case strip_prefix (js ''null'') s of Some r \<Rightarrow> Some (JNull, r) | None \<Rightarrow>
        parse_number number s)))"

text \<open>The object with these members, each assigned in turn.\<close>

definition object_of :: "(jstr \<times> json) list \<Rightarrow> json" where
  "object_of ps = JObj (enumeration_order (fold (\<lambda>(k, v). jset k v) ps []))"

fun parse_value :: "(jstr \<Rightarrow> json) \<Rightarrow> nat \<Rightarrow> jstr \<Rightarrow> (json \<times> jstr) option"
  and parse_elements :: "(jstr \<Rightarrow> json) \<Rightarrow> nat \<Rightarrow> jstr \<Rightarrow> (json list \<times> jstr) option"
  and parse_members :: "(jstr \<Rightarrow> json) \<Rightarrow> nat \<Rightarrow> jstr \<Rightarrow> ((jstr \<times> json) list \<times> jstr) option" where
  "parse_value number 0 s = None"
| "parse_value number (Suc n) s =
     (case skip_space s of
        [] \<Rightarrow> None
      | u # r \<Rightarrow>
          if u = 34 then map_option (apfst JStr) (parse_units r)
          else if u = 91 then
            (case skip_space r of
               [] \<Rightarrow> None
             | c # r' \<Rightarrow> if c = 93 then Some (JArr [], r')
                         else map_option (apfst JArr) (parse_elements number n (c # r')))
          else if u = 123 then
            (case skip_space r of
               [] \<Rightarrow> None
             | c # r' \<Rightarrow> if c = 125 then Some (object_of [], r')
                         else map_option (apfst object_of) (parse_members number n (c # r')))
          else parse_atom number (u # r))"
| "parse_elements number 0 s = None"
| "parse_elements number (Suc n) s =
     (case parse_value number n s of
        None \<Rightarrow> None
      | Some (v, r) \<Rightarrow>
          (case skip_space r of
             [] \<Rightarrow> None
           | c # r' \<Rightarrow>
               if c = 93 then Some ([v], r')
               else if c = 44 then map_option (apfst (Cons v)) (parse_elements number n r')
               else None))"
| "parse_members number 0 s = None"
| "parse_members number (Suc n) s =
     (case skip_space s of
        [] \<Rightarrow> None
      | q # s' \<Rightarrow>
          if q \<noteq> 34 then None
          else
            (case parse_units s' of
               None \<Rightarrow> None
             | Some (k, r) \<Rightarrow>
                 (case skip_space r of
                    [] \<Rightarrow> None
                  | c # r' \<Rightarrow>
                      if c \<noteq> 58 then None
                      else
                        (case parse_value number n r' of
                           None \<Rightarrow> None
                         | Some (v, rest) \<Rightarrow>
                             (case skip_space rest of
                                [] \<Rightarrow> None
                              | c' # rest' \<Rightarrow>
                                  if c' = 125 then Some ([(k, v)], rest')
                                  else if c' = 44
                                  then map_option (apfst (Cons (k, v))) (parse_members number n rest')
                                  else None)))))"

definition json_parse :: "(jstr \<Rightarrow> json) \<Rightarrow> jstr \<Rightarrow> json option" where
  "json_parse number s =
     (case parse_value number (2 * length s + 2) s of
        None \<Rightarrow> None
      | Some (v, r) \<Rightarrow> if skip_space r = [] then Some v else None)"

section \<open>Strings\<close>

lemma hex_value_hex_unit: "n < 16 \<Longrightarrow> hex_value (hex_unit n) = Some n"
proof -
  assume n: "n < 16"
  have "unat (hex_unit n) = (if n < 10 then 48 + n else 87 + n)"
    using n by (simp add: hex_unit_def unat_of_nat_16)
  then show ?thesis using n by (auto simp: hex_value_def word_le_nat_alt)
qed

lemma hex4_u_escape:
  "hex4 (hex_unit (unat u div 4096)) (hex_unit (unat u div 256 mod 16))
     (hex_unit (unat u div 16 mod 16)) (hex_unit (unat u mod 16)) = Some (u :: 16 word)"
proof -
  let ?n = "unat u" let ?a = "?n div 16" let ?b = "?a div 16" let ?c = "?b div 16"
  have q: "?n div 256 = ?b" "?n div 4096 = ?c" by (simp_all add: div_mult2_eq [symmetric])
  have lt: "?c < 16" using unat_16 [of u] by (simp add: div_mult2_eq [symmetric] div_less_iff_less_mult)
  have rep: "(of_nat ?n :: 16 word) = u" by simp
  have "?c * 4096 + ?b mod 16 * 256 + ?a mod 16 * 16 + ?n mod 16 = ?n"
    using div_mult_mod_eq [of ?n 16] div_mult_mod_eq [of ?a 16] div_mult_mod_eq [of ?b 16] by linarith
  then have "(of_nat (?c * 4096 + ?b mod 16 * 256 + ?a mod 16 * 16 + ?n mod 16) :: 16 word) = u"
    by (simp only: rep)
  moreover have "hex_value (hex_unit (m mod 16)) = Some (m mod 16)" for m
    by (rule hex_value_hex_unit) simp
  ultimately show ?thesis
    by (simp only: q hex4_def hex_value_hex_unit [OF lt] option.case prod.case)
qed

lemma parse_u_escape: "parse_units (u_escape u @ t) = cons_unit u (parse_units t)"
  by (simp add: u_escape_def Let_def hex4_u_escape)

lemma parse_esc_unit: "t \<noteq> [] \<Longrightarrow> parse_units (esc_unit u @ t) = cons_unit u (parse_units t)"
  by (cases t) (auto simp: esc_unit_def parse_u_escape simple_escape_def)

lemma parse_esc_units: "parse_units (esc_units s @ 34 # r) = Some (s, r)"
proof (induction s rule: esc_units.induct)
  case 1
  show ?case by (cases r) simp_all
next
  case (2 u)
  have "parse_units (34 # r) = Some ([], r)" by (cases r) simp_all
  then show ?case by (simp add: parse_u_escape parse_esc_unit cons_unit_def)
next
  case (3 u v us)
  show ?case
  proof (cases "is_high u \<and> is_low v")
    case True
    then have "u \<noteq> 34" "u \<noteq> 92" "\<not> u < 32" "v \<noteq> 34" "v \<noteq> 92" "\<not> v < 32"
      by (auto simp: is_high_def is_low_def word_le_nat_alt word_less_nat_alt)
    moreover have "esc_units us @ 34 # r \<noteq> []" by simp
    then obtain a b where "esc_units us @ 34 # r = a # b" by (meson neq_Nil_conv)
    ultimately show ?thesis using True 3(1) by (simp add: cons_unit_def)
  next
    case False
    let ?t = "esc_units (v # us) @ 34 # r"
    have "esc_units (u # v # us) @ 34 # r
        = (if is_high u \<or> is_low u then u_escape u else esc_unit u) @ ?t"
      by (subst esc_units.simps(3)) (simp only: False if_False append_assoc)
    moreover have "parse_units ((if is_high u \<or> is_low u then u_escape u else esc_unit u) @ ?t)
        = cons_unit u (parse_units ?t)"
      using parse_u_escape [of u ?t] parse_esc_unit [of ?t u] by (simp only: split: if_splits) simp
    ultimately show ?thesis using 3(2) [OF False] by (simp only: cons_unit_def) simp
  qed
qed

section \<open>Numbers\<close>

definition number_boundary :: "jstr \<Rightarrow> bool" where
  "number_boundary r = (r = [] \<or> \<not> is_number_unit (hd r))"

lemma number_boundary_Cons [simp]: "number_boundary (u # r) = (\<not> is_number_unit u)"
  by (simp add: number_boundary_def)

lemma digits_of_hd: "10 \<le> n \<Longrightarrow> hd (digits_of n) \<noteq> 48"
proof (induction n rule: digits_of.induct)
  case (1 n)
  then have e: "digits_of n = digits_of (n div 10) @ [of_nat (48 + n mod 10)]"
    by (simp add: digits_of.simps [of n])
  show ?case
  proof (cases "10 \<le> n div 10")
    case True
    then show ?thesis using 1 by (simp add: e)
  next
    case False
    then have "digits_of (n div 10) = [of_nat (48 + n div 10)]"
      by (simp add: digits_of.simps [of "n div 10"])
    moreover have "unat (of_nat (48 + n div 10) :: 16 word) \<noteq> 48"
      using False 1(2) unat_digit [of "n div 10"] by (simp del: of_nat_add)
    ultimately show ?thesis by (auto simp: e simp del: of_nat_add)
  qed
qed

lemma digits_ok_digits_of: "digits_ok (digits_of n)"
proof (cases "n < 10")
  case True
  then show ?thesis by (simp add: digits_ok_def digits_of.simps [of n])
next
  case False
  then show ?thesis using digits_of_hd [of n] by (simp add: digits_ok_def)
qed

lemma digits_hd: "is_digit_unit (hd (digits_of n))"
  using digits_of_digits [of n] by (cases "digits_of n") auto

lemma number_digits: "list_all is_number_unit (digits_of n)"
  using digits_of_digits [of n] by (auto simp: list_all_iff is_number_unit_def)

lemma takeWhile_boundary:
  "list_all is_number_unit t \<Longrightarrow> number_boundary r \<Longrightarrow>
   takeWhile is_number_unit (t @ r) = t \<and> dropWhile is_number_unit (t @ r) = r"
  by (induction t) (cases r; simp)+

lemma integer_literal_int_text: "integer_literal (int_text n) = Some n"
proof (cases "n < 0")
  case True
  then have "int_text n = 45 # digits_of (nat (- n))" by (simp add: int_text_def)
  then show ?thesis
    using digits_of_digits digits_ok_digits_of True
    by (simp add: integer_literal_def unsigned_part_def)
next
  case False
  have "hd (digits_of (nat n)) \<noteq> 45" using digits_hd [of "nat n"] by (auto simp: is_digit_unit_def)
  then show ?thesis
    using digits_of_digits digits_ok_digits_of False
    by (simp add: integer_literal_def unsigned_part_def int_text_def)
qed

lemma number_int_text: "list_all is_number_unit (int_text n)"
  using number_digits by (simp add: int_text_def is_number_unit_def)

lemma parse_number_int_text:
  "is_safe n \<Longrightarrow> number_boundary r \<Longrightarrow> parse_number number (int_text n @ r) = Some (JInt n, r)"
  using takeWhile_boundary [OF number_int_text] by (simp add: parse_number_def integer_literal_int_text)

lemma int_text_Cons: "\<exists>u t. int_text n = u # t \<and> (u = 45 \<or> is_digit_unit u)"
proof (cases "n < 0")
  case False
  then show ?thesis using digits_hd [of "nat n"] digits_of_not_Nil [of "nat n"]
    by (cases "digits_of (nat n)") (auto simp: int_text_def)
qed (simp add: int_text_def)

lemma parse_atom_int_text:
  assumes "is_safe n" "number_boundary r"
  shows "parse_atom number (int_text n @ r) = Some (JInt n, r)"
proof -
  obtain u t where u: "int_text n = u # t" "u = 45 \<or> is_digit_unit u" using int_text_Cons by blast
  then have "u \<noteq> 116" "u \<noteq> 102" "u \<noteq> 110" by (auto simp: is_digit_unit_def)
  then show ?thesis
    using parse_number_int_text [OF assms, of number] u
    by (simp add: parse_atom_def strip_prefix_def js_def)
qed

section \<open>Values\<close>

text \<open>
  The data \<open>JSON.stringify\<close> prints exactly: safe integers, and objects without repeated names, in
  enumeration order.
\<close>

fun json_exact :: "json \<Rightarrow> bool" where
  "json_exact (JInt n) = is_safe n"
| "json_exact (JFloat t) = False"
| "json_exact (JArr xs) = list_all json_exact xs"
| "json_exact (JObj ps) =
     (distinct (map fst ps) \<and> enumeration_order ps = ps \<and> list_all json_exact (map snd ps))"
| "json_exact _ = True"

lemma stringify_hd:
  "json_exact v \<Longrightarrow> \<exists>u t. stringify v = u # t \<and> \<not> is_json_space u \<and> u \<noteq> 93 \<and> u \<noteq> 125"
proof (cases v)
  case (JInt n)
  obtain u t where "int_text n = u # t" "u = 45 \<or> is_digit_unit u" using int_text_Cons by blast
  then show ?thesis using JInt by (auto simp: is_json_space_def is_digit_unit_def)
qed (auto simp: js_def is_json_space_def quote_def)

lemma skip_space_stringify: "json_exact v \<Longrightarrow> skip_space (stringify v @ r) = stringify v @ r"
  using stringify_hd [of v] by (auto simp: skip_space_def)

lemma skip_space_Cons [simp]: "\<not> is_json_space u \<Longrightarrow> skip_space (u # r) = u # r"
  by (simp add: skip_space_def)

lemma not_space [simp]:
  "\<not> is_json_space 34" "\<not> is_json_space 44" "\<not> is_json_space 58" "\<not> is_json_space 91"
  "\<not> is_json_space 93" "\<not> is_json_space 123" "\<not> is_json_space 125"
  by (simp_all add: is_json_space_def)

lemma not_number [simp]:
  "\<not> is_number_unit 44" "\<not> is_number_unit 93" "\<not> is_number_unit 125"
  by (simp_all add: is_number_unit_def is_digit_unit_def)

lemma commas_Cons: "ts \<noteq> [] \<Longrightarrow> commas (t # ts) = t @ 44 # commas ts"
  by (cases ts) simp_all

text \<open>What the induction gives for the parts of an array or object.\<close>

definition parses_back :: "(jstr \<Rightarrow> json) \<Rightarrow> json \<Rightarrow> bool" where
  "parses_back number v \<longleftrightarrow> json_exact v \<and> (\<forall>n r. 2 * length (stringify v) \<le> n \<longrightarrow> number_boundary r \<longrightarrow>
     parse_value number n (stringify v @ r) = Some (v, r))"

lemma parses_backD:
  "parses_back number v \<Longrightarrow> 2 * length (stringify v) \<le> n \<Longrightarrow> number_boundary r \<Longrightarrow>
   parse_value number n (stringify v @ r) = Some (v, r)"
  by (simp add: parses_back_def)

lemma parse_elements_back:
  "list_all (parses_back number) xs \<Longrightarrow> xs \<noteq> [] \<Longrightarrow>
   2 * length (commas (map stringify xs)) + 1 \<le> n \<Longrightarrow>
   parse_elements number n (commas (map stringify xs) @ 93 # r) = Some (xs, r)"
proof (induction xs arbitrary: n)
  case (Cons x xs)
  obtain m where n: "n = Suc m" using Cons.prems(3) by (cases n) auto
  show ?case
  proof (cases "xs = []")
    case True
    have "parse_value number m (stringify x @ 93 # r) = Some (x, 93 # r)"
      using Cons.prems by (intro parses_backD) (auto simp: n True)
    then show ?thesis by (simp add: n True)
  next
    case False
    let ?t = "commas (map stringify xs) @ 93 # r"
    have e: "commas (map stringify (x # xs)) @ 93 # r = stringify x @ 44 # ?t"
      using False by (simp add: commas_Cons)
    have "parse_value number m (stringify x @ 44 # ?t) = Some (x, 44 # ?t)"
      using Cons.prems False by (intro parses_backD) (auto simp: n commas_Cons)
    moreover have "parse_elements number m ?t = Some (xs, r)"
      using Cons.prems False by (intro Cons.IH) (auto simp: n commas_Cons)
    ultimately show ?thesis by (simp only: e) (simp add: n)
  qed
qed simp

definition member_text :: "jstr \<times> json \<Rightarrow> jstr" where
  "member_text p = quote (fst p) @ 58 # stringify (snd p)"

lemma parse_members_back:
  "list_all (parses_back number) (map snd ps) \<Longrightarrow> ps \<noteq> [] \<Longrightarrow>
   2 * length (commas (map member_text ps)) + 1 \<le> n \<Longrightarrow>
   parse_members number n (commas (map member_text ps) @ 125 # r) = Some (ps, r)"
proof (induction ps arbitrary: n)
  case (Cons p ps)
  obtain k v where p: "p = (k, v)" by (cases p)
  obtain m where n: "n = Suc m" using Cons.prems(3) by (cases n) auto
  show ?case
  proof (cases "ps = []")
    case True
    have "parse_value number m (stringify v @ 125 # r) = Some (v, 125 # r)"
      using Cons.prems by (intro parses_backD) (auto simp: n p True member_text_def)
    then show ?thesis by (simp add: n p True member_text_def quote_def parse_esc_units)
  next
    case False
    let ?t = "commas (map member_text ps) @ 125 # r"
    have e: "commas (map member_text (p # ps)) @ 125 # r = 34 # esc_units k @ 34 # 58 # stringify v @ 44 # ?t"
      using False by (simp add: commas_Cons member_text_def p quote_def)
    have "parse_value number m (stringify v @ 44 # ?t) = Some (v, 44 # ?t)"
      using Cons.prems False by (intro parses_backD) (auto simp: n p commas_Cons member_text_def)
    moreover have "parse_members number m ?t = Some (ps, r)"
      using Cons.prems False by (intro Cons.IH) (auto simp: n commas_Cons)
    ultimately show ?thesis by (simp only: e) (simp add: n p parse_esc_units)
  qed
qed simp

lemma fold_jset_distinct:
  "distinct (map fst acc @ map fst ps) \<Longrightarrow> fold (\<lambda>(k, v). jset k v) ps acc = acc @ ps"
proof (induction ps arbitrary: acc)
  case (Cons p ps)
  obtain k v where p: "p = (k, v)" by (cases p)
  have "jset k v acc = acc @ [p]" using Cons.prems by (auto simp: p jget_None intro!: jset_new)
  then show ?case using Cons.IH [of "acc @ [p]"] Cons.prems by (simp add: p)
qed simp

lemma object_of_exact: "json_exact (JObj ps) \<Longrightarrow> object_of ps = JObj ps"
  using fold_jset_distinct [of "[]" ps] by (simp add: object_of_def)

lemma commas_hd: "xs \<noteq> [] \<Longrightarrow> list_all json_exact xs \<Longrightarrow>
  \<exists>u t. commas (map stringify xs) = u # t \<and> \<not> is_json_space u \<and> u \<noteq> 93"
  using stringify_hd [of "hd xs"] by (cases xs; cases "tl xs") auto

lemma members_hd: "ps \<noteq> [] \<Longrightarrow> \<exists>t. commas (map member_text ps) = 34 # t"
  by (cases ps; cases "tl ps") (auto simp: member_text_def quote_def)

lemma parse_value_atom:
  "0 < n \<Longrightarrow> \<not> is_json_space u \<Longrightarrow> u \<noteq> 34 \<Longrightarrow> u \<noteq> 91 \<Longrightarrow> u \<noteq> 123 \<Longrightarrow>
   parse_value number n (u # s) = parse_atom number (u # s)"
  by (cases n) simp_all

lemma json_exact_parses_back: "json_exact v \<Longrightarrow> parses_back number v"
proof (induction v rule: stringify.induct)
  case (3 n)
  obtain u t where u: "int_text n = u # t" "u = 45 \<or> is_digit_unit u" using int_text_Cons by blast
  then have other: "\<not> is_json_space u" "u \<noteq> 34" "u \<noteq> 91" "u \<noteq> 123"
    by (auto simp: is_json_space_def is_digit_unit_def)
  have "parse_value number m (int_text n @ r) = Some (JInt n, r)"
    if "2 * length (int_text n) \<le> m" "number_boundary r" for m r
    using parse_atom_int_text [of n r number] 3 that u other by (cases m) auto
  then show ?case using 3 by (simp add: parses_back_def)
next
  case (6 xs)
  have parts: "list_all (parses_back number) xs" using 6 by (simp add: list_all_iff)
  show ?case
    unfolding parses_back_def
  proof (intro conjI allI impI)
    fix n r assume n: "2 * length (stringify (JArr xs)) \<le> n" and "number_boundary r"
    then obtain m where m: "n = Suc m" by (cases n) auto
    show "parse_value number n (stringify (JArr xs) @ r) = Some (JArr xs, r)"
    proof (cases "xs = []")
      case False
      then obtain u t where u: "commas (map stringify xs) = u # t" "\<not> is_json_space u" "u \<noteq> 93"
        using commas_hd [of xs] 6(2) by auto
      have "parse_elements number m (commas (map stringify xs) @ 93 # r) = Some (xs, r)"
        using n m by (intro parse_elements_back [OF parts False]) simp
      then show ?thesis using u by (simp add: m)
    qed (simp add: m)
  qed (rule 6)
next
  case (7 ps)
  have txt_eq: "stringify (JObj ps) = 123 # commas (map member_text ps) @ [125]"
    by (simp add: member_text_def [abs_def])
  have parts: "list_all (parses_back number) (map snd ps)" using 7 by (auto simp: list_all_iff)
  show ?case
    unfolding parses_back_def
  proof (intro conjI allI impI)
    fix n r assume n: "2 * length (stringify (JObj ps)) \<le> n" and "number_boundary r"
    then obtain m where m: "n = Suc m" by (cases n) auto
    show "parse_value number n (stringify (JObj ps) @ r) = Some (JObj ps, r)"
    proof (cases "ps = []")
      case True
      then show ?thesis using object_of_exact [of ps] 7(2) by (simp add: m)
    next
      case False
      then obtain t where u: "commas (map member_text ps) = 34 # t" using members_hd by blast
      have "parse_members number m (commas (map member_text ps) @ 125 # r) = Some (ps, r)"
        using n [unfolded txt_eq] m by (intro parse_members_back [OF parts False]) simp
      then show ?thesis using u object_of_exact [OF 7(2)] unfolding txt_eq by (simp add: m)
    qed
  qed (rule 7)
qed (auto simp: parses_back_def js_def quote_def is_json_space_def parse_atom_def strip_prefix_def
    parse_value_atom parse_esc_units elim!: Suc_le_D [elim_format])

lemma parse_stringify: "json_exact v \<Longrightarrow> json_parse number (stringify v) = Some v"
  using parses_backD [OF json_exact_parses_back, of v "2 * length (stringify v) + 2" "[]" number]
  by (simp add: json_parse_def number_boundary_def skip_space_def)

section \<open>Canonical text\<close>

fun sort_json :: "json \<Rightarrow> json" where
  "sort_json (JArr xs) = JArr (map sort_json xs)"
| "sort_json (JObj ps) = JObj (sort_key fst (map (\<lambda>p. (fst p, sort_json (snd p))) ps))"
| "sort_json v = v"

text \<open>Data that has a canonical text and no name that is an array index.\<close>

fun json_plain :: "json \<Rightarrow> bool" where
  "json_plain (JInt n) = is_safe n"
| "json_plain (JFloat t) = False"
| "json_plain (JArr xs) = list_all json_plain xs"
| "json_plain (JObj ps) =
     (distinct (map fst ps) \<and> list_all (\<lambda>k. \<not> is_array_index k) (map fst ps)
      \<and> list_all json_plain (map snd ps))"
| "json_plain _ = True"

lemma all_some_map: "all_some (map Some xs) = Some xs"
  by (induction xs) simp_all

lemma sort_key_map: "sort_key g (map f xs) = map f (sort_key (\<lambda>x. g (f x)) xs)"
proof (induction xs)
  case (Cons x xs)
  have "insort_key g (f x) (map f ys) = map f (insort_key (\<lambda>x. g (f x)) x ys)" for ys
    by (induction ys) simp_all
  then show ?case using Cons by simp
qed simp

lemma canonical_stringify: "json_plain v \<Longrightarrow> canonical_json v = Some (stringify (sort_json v))"
proof (induction v rule: canonical_json.induct)
  case (6 xs)
  then have "map canonical_json xs = map Some (map (\<lambda>x. stringify (sort_json x)) xs)"
    by (simp add: list_all_iff)
  then show ?case by (simp only: canonical_json.simps all_some_map) (simp add: comp_def)
next
  case (7 ps)
  let ?f = "\<lambda>p. (fst p, map_option (\<lambda>t. quote (fst p) @ 58 # t) (canonical_json (snd p)))"
  have "map ?f ps = map (\<lambda>p. (fst p, Some (quote (fst p) @ 58 # stringify (sort_json (snd p))))) ps"
    using 7 by (auto simp: list_all_iff)
  then have "map snd (sort_key fst (map ?f ps))
      = map Some (map (\<lambda>p. quote (fst p) @ 58 # stringify (sort_json (snd p))) (sort_key fst ps))"
    by (simp only:) (simp add: sort_key_map comp_def)
  then show ?case by (simp only: canonical_json.simps all_some_map) (simp add: sort_key_map comp_def)
qed simp_all

lemma enumeration_order_plain:
  "list_all (\<lambda>k. \<not> is_array_index k) (map fst ps) \<Longrightarrow> enumeration_order ps = ps"
  by (simp add: enumeration_order_def list_all_iff filter_id_conv)

lemma sort_json_exact: "json_plain v \<Longrightarrow> json_exact (sort_json v)"
proof (induction v rule: sort_json.induct)
  case (2 ps)
  let ?qs = "sort_key fst (map (\<lambda>p. (fst p, sort_json (snd p))) ps)"
  have s: "set ?qs = (\<lambda>p. (fst p, sort_json (snd p))) ` set ps" by simp
  have "map fst ?qs = sort_key (\<lambda>k. k) (map fst ps)" by (simp add: sort_key_map comp_def)
  then have "distinct (map fst ?qs)" using 2(2) by simp
  moreover have "enumeration_order ?qs = ?qs"
    using 2(2) by (intro enumeration_order_plain) (auto simp: list_all_iff)
  moreover have "list_all json_exact (map snd ?qs)" using 2 by (auto simp: list_all_iff)
  ultimately show ?case by simp
qed (auto simp: list_all_iff)

text \<open>Parsing a canonical text gives the data back, with its names sorted.\<close>

lemma parse_canonical:
  "json_plain v \<Longrightarrow> canonical_json v = Some t \<Longrightarrow> json_parse number t = Some (sort_json v)"
  using parse_stringify [OF sort_json_exact, of v number] by (auto simp: canonical_stringify)

section \<open>The fuel\<close>

lemma length_skip_space: "length (skip_space s) \<le> length s"
  by (simp add: skip_space_def length_dropWhile_le)

lemma skip_space_less: "skip_space s = u # r \<Longrightarrow> length r < length s"
  using length_skip_space [of s] by simp

lemma cons_unit_Some: "cons_unit u x = Some (t, r) \<longleftrightarrow> (\<exists>t'. x = Some (t', r) \<and> t = u # t')"
  by (cases x) (auto simp: cons_unit_def)

lemma parse_units_less: "parse_units s = Some (t, r) \<Longrightarrow> length r < length s"
proof (induction s arbitrary: t rule: parse_units.induct)
  case (3 u e s)
  show ?case
  proof (cases "u = 92 \<and> e = 117")
    case True
    with 3(4) obtain a b c d r' x t' where s: "s = a # b # c # d # r'"
      and x: "hex4 a b c d = Some x" and p: "parse_units r' = Some (t', r)"
      by (auto simp: cons_unit_Some split: list.splits option.splits)
    have "length r < length r'"
      by (rule 3(1) [where ?x21.0 = a and ?x21a = b and ?x21b = c and ?x21c = d and ?x2.0 = x])
        (use True s x p in simp_all)
    then show ?thesis by (simp add: s)
  next
    case False
    then consider "u = 34" "r = e # s" | x t' where "u = 92" "u \<noteq> 34" "e \<noteq> 117" "simple_escape e = Some x" "parse_units s = Some (t', r)"
      | t' where "u \<noteq> 34" "u \<noteq> 92" "\<not> u < 32" "parse_units (e # s) = Some (t', r)"
      using 3(4) by (auto simp: cons_unit_Some split: if_splits option.splits)
    then show ?thesis
    proof cases
      case 2
      then have "length r < length s" using 3(2) by blast
      then show ?thesis by simp
    next
      case 3
      then have "length r < length (e # s)" using "3.IH"(3) by blast
      then show ?thesis by simp
    qed simp
  qed
qed (simp_all split: if_splits)

lemma strip_prefix_le: "strip_prefix p s = Some r \<Longrightarrow> length r \<le> length s"
  by (auto simp: strip_prefix_def split: if_splits)

lemma parse_atom_le: "parse_atom number s = Some (v, r) \<Longrightarrow> length r \<le> length s"
  by (auto simp: parse_atom_def parse_number_def Let_def length_dropWhile_le
      split: option.splits if_splits dest: strip_prefix_le)

lemma parse_le:
  "parse_value number n s = Some (v, r) \<Longrightarrow> length r \<le> length s"
  "parse_elements number n s = Some (vs, r) \<Longrightarrow> length r \<le> length s"
  "parse_members number n s = Some (ps, r) \<Longrightarrow> length r \<le> length s"
proof (induction number n s and number n s and number n s arbitrary: v r and vs r and ps r
    rule: parse_value_parse_elements_parse_members.induct)
  case (2 number n s)
  from 2(3) obtain u t where s: "skip_space s = u # t" by (auto split: list.splits)
  note len = skip_space_less [OF s]
  show ?case
  proof (cases "u = 91 \<or> u = 123")
    case True
    with 2(3) s obtain c t' where t: "skip_space t = c # t'" by (auto split: list.splits)
    show ?thesis
      using 2(1) [OF s _ _ t] 2(2) [OF s _ _ _ t] 2(3) True s t len skip_space_less [OF t]
      by (fastforce split: if_splits)
  qed (use 2(3) s len in \<open>auto split: if_splits dest!: parse_units_less parse_atom_le\<close>)
next
  case (4 number n s)
  from 4(3) obtain x t where x: "parse_value number n s = Some (x, t)" by (auto split: option.splits)
  with 4(3) obtain c t' where t: "skip_space t = c # t'" by (auto split: list.splits)
  show ?case
    using 4(1) [OF x] 4(2) [OF x refl t] 4(3) x t skip_space_less [OF t] by (fastforce split: if_splits)
next
  case (6 number n s)
  from 6(3) obtain s' where s: "skip_space s = 34 # s'" by (auto split: list.splits if_splits)
  with 6(3) obtain k t where k: "parse_units s' = Some (k, t)" by (auto split: option.splits)
  with 6(3) s obtain t' where t: "skip_space t = 58 # t'" by (auto split: list.splits if_splits)
  with 6(3) s k obtain x q where x: "parse_value number n t' = Some (x, q)" by (auto split: option.splits)
  with 6(3) s k t obtain c q' where q: "skip_space q = c # q'" by (auto split: list.splits)
  show ?case
    using 6(1) [OF s _ k refl t _ x] 6(2) [OF s _ k refl t _ x refl q] 6(3) s k t x q
      skip_space_less [OF s] parse_units_less [OF k] skip_space_less [OF t] skip_space_less [OF q]
    by (fastforce split: if_splits)
qed simp_all

lemma parse_step:
  "2 * length s \<le> n \<Longrightarrow> parse_value number (Suc n) s = parse_value number n s"
  "2 * length s + 1 \<le> n \<Longrightarrow> parse_elements number (Suc n) s = parse_elements number n s"
  "2 * length s + 1 \<le> n \<Longrightarrow> parse_members number (Suc n) s = parse_members number n s"
proof (induction number n s and number n s and number n s
    rule: parse_value_parse_elements_parse_members.induct)
  case (1 number s)
  then show ?case by (simp add: skip_space_def)
next
  case (2 number n s)
  show ?case
  proof (cases "skip_space s")
    case (Cons u t)
    note len = skip_space_less [OF Cons]
    have "parse_elements number (Suc n) (c # t') = parse_elements number n (c # t')"
      if "u = 91" "skip_space t = c # t'" "c \<noteq> 93" for c t'
      using 2(1) [OF Cons] that 2(3) len skip_space_less [OF that(2)] by simp
    moreover have "parse_members number (Suc n) (c # t') = parse_members number n (c # t')"
      if "u = 123" "skip_space t = c # t'" "c \<noteq> 125" for c t'
      using 2(2) [OF Cons] that 2(3) len skip_space_less [OF that(2)] by simp
    ultimately show ?thesis
      by (subst (1 2) parse_value.simps(2)) (auto simp del: parse_value.simps simp: Cons split: list.split)
  qed simp
next
  case (4 number n s)
  have v: "parse_value number (Suc n) s = parse_value number n s" using 4(1,3) by simp
  have "parse_elements number (Suc n) t' = parse_elements number n t'"
    if "parse_value number n s = Some (x, t)" "skip_space t = 44 # t'" for x t t'
    using 4(2) [OF that(1) refl that(2)] 4(3) parse_le(1) [OF that(1)] skip_space_less [OF that(2)] by simp
  then show ?case
    by (subst (1 2) parse_elements.simps(2)) (auto simp del: parse_elements.simps parse_value.simps simp: v split: option.split list.split)
next
  case (6 number n s)
  have v: "parse_value number (Suc n) r' = parse_value number n r'"
    if "skip_space s = 34 # s'" "parse_units s' = Some (k, r)" "skip_space r = 58 # r'" for s' k r r'
    using 6(1) [OF that(1) _ that(2) refl that(3)] 6(3) skip_space_less [OF that(1)]
      parse_units_less [OF that(2)] skip_space_less [OF that(3)] by simp
  have m: "parse_members number (Suc n) q' = parse_members number n q'"
    if "skip_space s = 34 # s'" "parse_units s' = Some (k, r)" "skip_space r = 58 # r'"
      "parse_value number n r' = Some (x, q)" "skip_space q = 44 # q'" for s' k r r' x q q'
    using 6(2) [OF that(1) _ that(2) refl that(3) _ that(4) refl that(5)] 6(3) skip_space_less [OF that(1)]
      parse_units_less [OF that(2)] skip_space_less [OF that(3)] parse_le(1) [OF that(4)]
      skip_space_less [OF that(5)] by simp
  show ?case
    by (subst (1 2) parse_members.simps(2))
      (auto simp del: parse_members.simps parse_value.simps simp: v m split: option.split list.split)
qed simp_all

lemma parse_enough: "parse_value number (2 * length s + k) s = parse_value number (2 * length s) s"
  by (induction k) (simp_all add: parse_step(1) del: parse_value.simps)

section \<open>Bytes\<close>

text \<open>Texts whose printing in front of a well-formed text is well-formed: no lone surrogate is printed.\<close>

definition keeps_form :: "jstr \<Rightarrow> bool" where
  "keeps_form s \<longleftrightarrow> (\<forall>t. well_formed t \<longrightarrow> well_formed (s @ t))"

lemma keeps_form_append: "keeps_form s \<Longrightarrow> keeps_form t \<Longrightarrow> keeps_form (s @ t)"
  by (simp add: keeps_form_def)

lemma keeps_form_Nil [simp]: "keeps_form []"
  by (simp add: keeps_form_def)

lemma keeps_form_unit:
  assumes "\<not> is_high u" "\<not> is_low u"
  shows "keeps_form [u]"
proof -
  have c: "cps_of_units (u # t) = unat u # cps_of_units t" for t
    using assms by (cases t) simp_all
  have "units_of_cp (unat u) = [u]" using unat_16 [of u] by (simp add: units_of_cp_def)
  then show ?thesis by (simp add: keeps_form_def well_formed_def c)
qed

lemma keeps_form_pair:
  assumes "is_high u" "is_low v"
  shows "keeps_form [u, v]"
proof -
  let ?c = "65536 + (unat u - 55296) * 1024 + (unat v - 56320)"
  have "unat u - 55296 < 1024" "unat v - 56320 < 1024" using assms by (auto simp: is_high_def is_low_def)
  then have "(?c - 65536) div 1024 = unat u - 55296" "(?c - 65536) mod 1024 = unat v - 56320" by simp_all
  then have "units_of_cp ?c = [of_nat (55296 + (unat u - 55296)), of_nat (56320 + (unat v - 56320))]"
    by (simp only: units_of_cp_def) simp
  also have "\<dots> = [u, v]" using assms by (simp add: is_high_def is_low_def del: of_nat_add)
  finally show ?thesis using assms by (simp add: keeps_form_def well_formed_def)
qed

lemma keeps_form_Cons: "\<not> is_high u \<Longrightarrow> \<not> is_low u \<Longrightarrow> keeps_form s \<Longrightarrow> keeps_form (u # s)"
  using keeps_form_append [OF keeps_form_unit] by fastforce

lemma ascii_not_surrogate: "unat (u :: 16 word) < 128 \<Longrightarrow> \<not> is_high u \<and> \<not> is_low u"
  by (simp add: is_high_def is_low_def)

lemma keeps_form_ascii: "list_all (\<lambda>u. unat u < 128) s \<Longrightarrow> keeps_form s"
  by (induction s) (auto intro!: keeps_form_Cons dest!: ascii_not_surrogate)

lemma keeps_form_one: "unat u < 128 \<Longrightarrow> keeps_form [u]"
  by (rule keeps_form_ascii) simp

lemma hex_unit_ascii: "n < 16 \<Longrightarrow> unat (hex_unit n) < 128"
  by (simp add: hex_unit_def unat_of_nat_16)

lemma keeps_form_u_escape: "keeps_form (u_escape u)"
proof (rule keeps_form_ascii)
  have "unat u div 4096 < 16" using unat_16 [of u] by (simp add: div_less_iff_less_mult)
  then show "list_all (\<lambda>u. unat u < 128) (u_escape u)" by (simp add: u_escape_def Let_def hex_unit_ascii)
qed

lemma keeps_form_esc_unit: "\<not> is_high u \<Longrightarrow> \<not> is_low u \<Longrightarrow> keeps_form (esc_unit u)"
  by (auto simp: esc_unit_def keeps_form_u_escape keeps_form_unit intro!: keeps_form_ascii)

lemma keeps_form_esc_units: "keeps_form (esc_units s)"
proof (induction s rule: esc_units.induct)
  case (3 u v us)
  show ?case
  proof (cases "is_high u \<and> is_low v")
    case True
    then have "keeps_form ([u, v] @ esc_units us)" using 3 by (intro keeps_form_append keeps_form_pair) auto
    then show ?thesis using True by simp
  next
    case False
    have "keeps_form ((if is_high u \<or> is_low u then u_escape u else esc_unit u) @ esc_units (v # us))"
      using 3(2) [OF False] by (intro keeps_form_append) (simp_all add: keeps_form_u_escape keeps_form_esc_unit)
    then show ?thesis by (subst esc_units.simps(3)) (simp only: False if_False)
  qed
qed (simp_all add: keeps_form_u_escape keeps_form_esc_unit)

lemma keeps_form_quote: "keeps_form (quote s)"
proof -
  have "keeps_form ([34] @ esc_units s @ [34])"
    by (intro keeps_form_append keeps_form_esc_units keeps_form_one) simp_all
  then show ?thesis by (simp add: quote_def)
qed

lemma keeps_form_commas: "list_all keeps_form ts \<Longrightarrow> keeps_form (commas ts)"
proof (induction ts rule: commas.induct)
  case (3 s t r)
  then have "keeps_form (s @ [44] @ commas (t # r))"
    by (intro keeps_form_append keeps_form_one) simp_all
  then show ?case by simp
qed simp_all

lemma keeps_form_int_text: "keeps_form (int_text n)"
proof (rule keeps_form_ascii)
  have "unat u < 128" if "is_digit_unit u" for u
    using that by (simp add: is_digit_unit_def word_le_nat_alt)
  then show "list_all (\<lambda>u. unat u < 128) (int_text n)"
    using digits_of_digits by (auto simp: int_text_def list_all_iff)
qed

lemma keeps_form_stringify: "json_exact v \<Longrightarrow> keeps_form (stringify v)"
proof (induction v rule: stringify.induct)
  case (6 xs)
  then have "keeps_form ([91] @ commas (map stringify xs) @ [93])"
    by (intro keeps_form_append keeps_form_commas keeps_form_one) (auto simp: list_all_iff)
  then show ?case by simp
next
  case (7 ps)
  have "keeps_form (quote (fst p) @ [58] @ stringify (snd p))" if "p \<in> set ps" for p
    using 7 that by (intro keeps_form_append keeps_form_quote keeps_form_one) (auto simp: list_all_iff)
  then have "keeps_form ([123] @ commas (map (\<lambda>p. quote (fst p) @ 58 # stringify (snd p)) ps) @ [125])"
    by (intro keeps_form_append keeps_form_commas keeps_form_one) (auto simp: list_all_iff)
  then show ?case by simp
qed (simp_all add: keeps_form_quote keeps_form_int_text keeps_form_ascii js_def)

lemma well_formed_stringify: "json_exact v \<Longrightarrow> well_formed (stringify v)"
  using keeps_form_stringify [of v, unfolded keeps_form_def, rule_format, of "[]"]
  by (simp add: well_formed_def)

text \<open>Reading the bytes of a printed value back.\<close>

lemma parse_encoded: "json_exact v \<Longrightarrow> json_parse number (utf8_decode (utf8_encode (stringify v))) = Some v"
  by (simp add: utf8_decode_encode well_formed_stringify parse_stringify)

end
