(* ===== verification/Identity_Keys.thy ===== *)
theory Identity_Keys
  imports Chacha_Poly Json_Parse Companion_Protocol
begin

text \<open>
  Identities and signed key records of \<open>src/electron/companion/crypto.cjs\<close>: canonical bytes, strict
  base64url, \<open>unsignedKeyRecord\<close>, \<open>signKeyRecord\<close>, \<open>verifySignedKeyRecord\<close>, \<open>createIdentity\<close>. What
  the module takes from the crypto library of the runtime is one record of functions: \<open>key_law\<close>
  states its documented behaviour where a result relies on it.
\<close>

section \<open>The runtime\<close>

text \<open>
  \<open>'k\<close> is the type of private key objects. A public key is known by its raw bytes. \<open>rc_agree\<close> is
  \<open>crypto.diffieHellman\<close> with the public key made from raw bytes (\<open>None\<close> where it throws), and
  \<open>rc_number\<close> the value of a number literal that is not a safe integer.
\<close>

record 'k runtime_crypto =
  rc_isEd :: "'k \<Rightarrow> bool"
  rc_isX :: "'k \<Rightarrow> bool"
  rc_edPublic :: "'k \<Rightarrow> bytes"
  rc_xPublic :: "'k \<Rightarrow> bytes"
  rc_edValid :: "bytes \<Rightarrow> bool"
  rc_sign :: "'k \<Rightarrow> bytes \<Rightarrow> bytes"
  rc_verify :: "bytes \<Rightarrow> bytes \<Rightarrow> bytes \<Rightarrow> bool"
  rc_agree :: "'k \<Rightarrow> bytes \<Rightarrow> bytes option"
  rc_sha256 :: "bytes \<Rightarrow> bytes"
  rc_hmac :: "bytes \<Rightarrow> bytes \<Rightarrow> bytes"
  rc_hkdf :: "bytes \<Rightarrow> bytes \<Rightarrow> bytes \<Rightarrow> bytes"
  rc_native :: "native_cipher option"
  rc_number :: "jstr \<Rightarrow> json"

text \<open>
  The documented behaviour: sizes of keys, signatures and digests, signatures that verify,
  Diffie-Hellman agreement, and the law of the cipher.
\<close>

definition key_law :: "'k runtime_crypto \<Rightarrow> bool" where
  "key_law rc \<longleftrightarrow>
     (\<forall>k. length (rc_edPublic rc k) = 32 \<and> length (rc_xPublic rc k) = 32 \<and> rc_edValid rc (rc_edPublic rc k))
     \<and> (\<forall>k m. length (rc_sign rc k m) = 64 \<and> rc_verify rc (rc_edPublic rc k) m (rc_sign rc k m))
     \<and> (\<forall>a b. \<exists>s. rc_agree rc a (rc_xPublic rc b) = Some s \<and> rc_agree rc b (rc_xPublic rc a) = Some s
          \<and> s \<noteq> replicate 32 0)
     \<and> (\<forall>m. length (rc_sha256 rc m) = 32)
     \<and> (\<forall>k m. length (rc_hmac rc k m) = 32)
     \<and> (\<forall>k s i. length (rc_hkdf rc k s i) = 32)
     \<and> native_law (rc_native rc)"

section \<open>Encodings\<close>

definition canonical_bytes :: "json \<Rightarrow> crypto_error + bytes" where
  "canonical_bytes v =
     (case canonical_json v of
        None \<Rightarrow> Inl Invalid_canonical_value
      | Some t \<Rightarrow> Inr (utf8_encode t))"

text \<open>\<open>fromB64url\<close>, with the number of bytes that is expected, if any.\<close>

definition read_b64url :: "json option \<Rightarrow> nat option \<Rightarrow> crypto_error + bytes" where
  "read_b64url v width =
     (case as_str v of
        None \<Rightarrow> Inl Invalid_encoding
      | Some s \<Rightarrow>
          (case from_b64url s of
             None \<Rightarrow> Inl Invalid_encoding
           | Some b \<Rightarrow>
               require (case width of None \<Rightarrow> True | Some n \<Rightarrow> length b = n) Invalid_encoding (Inr b)))"

definition valid_id :: "json option \<Rightarrow> crypto_error + jstr" where
  "valid_id v =
     (case as_str v of
        None \<Rightarrow> Inl Invalid_identity
      | Some s \<Rightarrow> require (identifier_ok MAX_ID_LENGTH s) Invalid_identity (Inr s))"

text \<open>\<open>JSON.parse(bytes.toString('utf8'))\<close>.\<close>

definition parse_bytes :: "'k runtime_crypto \<Rightarrow> bytes \<Rightarrow> json option" where
  "parse_bytes rc b = json_parse (rc_number rc) (utf8_decode b)"

section \<open>Key records\<close>

datatype party = Desktop_party | Device_party

fun party_text :: "party \<Rightarrow> string" where
  "party_text Desktop_party = ''desktop''"
| "party_text Device_party = ''device''"

definition party_of :: "json option \<Rightarrow> party option" where
  "party_of v =
     (if v = Some (JStr (js ''desktop'')) then Some Desktop_party
      else if v = Some (JStr (js ''device'')) then Some Device_party else None)"

fun identity_id_field :: "party \<Rightarrow> string" where
  "identity_id_field Desktop_party = ''desktopId''"
| "identity_id_field Device_party = ''deviceId''"

definition default_name :: "party \<Rightarrow> jstr" where
  "default_name role = (if role = Desktop_party then js ''Kaisola Desktop'' else js ''Kaisola Device'')"

text \<open>
  \<open>unsignedKeyRecord\<close>: the identifier under the name of the role, the role, and the public key in
  its canonical spelling.
\<close>

definition key_record_json :: "party \<Rightarrow> jstr \<Rightarrow> jstr \<Rightarrow> json option \<Rightarrow> json" where
  "key_record_json role ident static signature =
     obj [(identity_id_field role, Some (JStr ident)), (''role'', Some (JStr (js (party_text role)))),
          (''x25519StaticPublic'', Some (JStr static)), (''signature'', signature)]"

definition unsigned_key_record :: "party \<Rightarrow> json option \<Rightarrow> json option \<Rightarrow> crypto_error + jstr \<times> jstr" where
  "unsigned_key_record role ident static =
     ebind (valid_id ident) (\<lambda>i.
     ebind (read_b64url static (Some 32)) (\<lambda>b. Inr (i, b64url b)))"

definition KEY_RECORD_DOMAIN :: bytes where
  "KEY_RECORD_DOMAIN = ascii_bytes ''kaisola-companion-key-record-v1'' @ [0]"

definition key_record_signing_bytes :: "json \<Rightarrow> crypto_error + bytes" where
  "key_record_signing_bytes record =
     ebind (canonical_bytes record) (\<lambda>b. Inr (KEY_RECORD_DOMAIN @ b))"

definition sign_key_record ::
  "'k runtime_crypto \<Rightarrow> 'k \<Rightarrow> party \<Rightarrow> json option \<Rightarrow> json option \<Rightarrow> crypto_error + json" where
  "sign_key_record rc key role ident static =
     ebind (unsigned_key_record role ident static) (\<lambda>(i, x).
     ebind (key_record_signing_bytes (key_record_json role i x None)) (\<lambda>m.
       Inr (key_record_json role i x (Some (JStr (b64url (rc_sign rc key m)))))))"

text \<open>\<open>publicKeyFromRaw('ed25519', text)\<close>.\<close>

definition ed_public_key :: "'k runtime_crypto \<Rightarrow> json option \<Rightarrow> crypto_error + bytes" where
  "ed_public_key rc v =
     ebind (read_b64url v (Some 32)) (\<lambda>raw. require (rc_edValid rc raw) Invalid_public_key (Inr raw))"

record key_record =
  kr_role :: party
  kr_id :: jstr
  kr_static :: jstr
  kr_signature :: jstr

definition key_record_data :: "key_record \<Rightarrow> json" where
  "key_record_data r = key_record_json (kr_role r) (kr_id r) (kr_static r) (Some (JStr (kr_signature r)))"

text \<open>
  \<open>verifySignedKeyRecord\<close> for an identity key given as text, as every caller gives it. An expected
  identifier that is empty or missing is not compared.
\<close>

definition verify_signed_key_record ::
  "'k runtime_crypto \<Rightarrow> json option \<Rightarrow> json option \<Rightarrow> party \<Rightarrow> jstr option \<Rightarrow> crypto_error + key_record" where
  "verify_signed_key_record rc candidate identity_public expected_role expected_id =
     (case candidate of
        None \<Rightarrow> Inl Invalid_key_record
      | Some v \<Rightarrow>
          require (is_obj v) Invalid_key_record (
          require (only_keys v [''desktopId'', ''deviceId'', ''role'', ''x25519StaticPublic'', ''signature''])
            Invalid_key_record (
          case party_of (field v ''role'') of
            None \<Rightarrow> Inl Invalid_role
          | Some role \<Rightarrow>
              require (role = Desktop_party \<longrightarrow> field v ''deviceId'' = None) Invalid_key_record (
              require (role = Device_party \<longrightarrow> field v ''desktopId'' = None) Invalid_key_record (
              ebind (unsigned_key_record role (field v (identity_id_field role)) (field v ''x25519StaticPublic'')) (\<lambda>(i, x).
              ebind (read_b64url (field v ''signature'') (Some 64)) (\<lambda>signature.
              ebind (ed_public_key rc identity_public) (\<lambda>public.
              ebind (key_record_signing_bytes (key_record_json role i x None)) (\<lambda>m.
              require (rc_verify rc public m signature) Identity_proof_failed (
              require (role = expected_role) Role_mismatch (
              require (case expected_id of None \<Rightarrow> True | Some e \<Rightarrow> e = [] \<or> i = e) Identity_mismatch (
                Inr \<lparr>kr_role = role, kr_id = i, kr_static = x, kr_signature = b64url signature\<rparr>))))))))))))"

section \<open>Identities\<close>

record 'k identity =
  id_id :: jstr
  id_role :: party
  id_displayName :: jstr
  id_identityPrivate :: 'k
  id_identityPublic :: jstr
  id_staticPrivate :: 'k
  id_staticPublic :: jstr
  id_keyRecord :: json

text \<open>\<open>exportPublicB64\<close>: the raw public key is read back strictly from its web key.\<close>

definition export_public :: "bytes \<Rightarrow> crypto_error + bytes" where
  "export_public raw = read_b64url (Some (JStr (b64url raw))) (Some 32)"

definition create_identity ::
  "'k runtime_crypto \<Rightarrow> party \<Rightarrow> json option \<Rightarrow> json option \<Rightarrow> 'k \<Rightarrow> 'k \<Rightarrow> crypto_error + 'k identity" where
  "create_identity rc role ident display_name signing agreement =
     ebind (valid_id ident) (\<lambda>i.
     require (rc_isEd rc signing \<and> rc_isX rc agreement) Invalid_identity (
     ebind (export_public (rc_edPublic rc signing)) (\<lambda>ed.
     ebind (export_public (rc_xPublic rc agreement)) (\<lambda>x.
     ebind (sign_key_record rc signing role ident (Some (JStr (b64url x)))) (\<lambda>record.
       Inr \<lparr>id_id = i, id_role = role,
            id_displayName = (case as_str display_name of Some s \<Rightarrow> take 80 s | None \<Rightarrow> default_name role),
            id_identityPrivate = signing, id_identityPublic = b64url ed,
            id_staticPrivate = agreement, id_staticPublic = b64url x, id_keyRecord = record\<rparr>)))))"

section \<open>Facts\<close>

lemma key_lawD:
  assumes "key_law rc"
  shows "length (rc_edPublic rc k) = 32" "length (rc_xPublic rc k) = 32" "rc_edValid rc (rc_edPublic rc k)"
    "length (rc_sign rc k m) = 64" "rc_verify rc (rc_edPublic rc k) m (rc_sign rc k m)"
    "length (rc_sha256 rc m) = 32" "length (rc_hmac rc c m) = 32" "length (rc_hkdf rc c m i) = 32"
    "native_law (rc_native rc)"
  using assms by (simp_all add: key_law_def)

lemma key_law_agree:
  assumes "key_law rc"
  obtains s where "rc_agree rc a (rc_xPublic rc b) = Some s" "rc_agree rc b (rc_xPublic rc a) = Some s"
    "s \<noteq> replicate 32 0"
  using assms unfolding key_law_def by blast

lemma from_b64url_if: "from_b64url (b64url b) = (if b = [] then None else Some b)"
  using from_b64url_b64url [of b] by (cases "from_b64url (b64url b)") (auto simp: from_b64url_Some)

lemma read_b64url_Inr:
  "read_b64url v width = Inr b \<longleftrightarrow>
   v = Some (JStr (b64url b)) \<and> b \<noteq> [] \<and> (case width of None \<Rightarrow> True | Some n \<Rightarrow> length b = n)"
  by (cases v rule: as_str.cases)
    (auto simp: read_b64url_def require_eq_Inr from_b64url_Some from_b64url_if
      split: option.splits if_splits)

lemma read_b64url_b64url [simp]:
  "b \<noteq> [] \<Longrightarrow> read_b64url (Some (JStr (b64url b))) None = Inr b"
  "b \<noteq> [] \<Longrightarrow> length b = n \<Longrightarrow> read_b64url (Some (JStr (b64url b))) (Some n) = Inr b"
  by (simp_all add: read_b64url_Inr)

lemma valid_id_Inr:
  "valid_id v = Inr i \<longleftrightarrow> v = Some (JStr i) \<and> identifier_ok MAX_ID_LENGTH i"
  by (cases v rule: as_str.cases) (auto simp: valid_id_def require_eq_Inr)

lemma unsigned_key_record_Inr:
  "unsigned_key_record role ident static = Inr (i, x) \<longleftrightarrow>
   ident = Some (JStr i) \<and> identifier_ok MAX_ID_LENGTH i \<and>
   (\<exists>b. static = Some (JStr (b64url b)) \<and> length b = 32 \<and> x = b64url b)"
  by (auto simp: unsigned_key_record_def ebind_eq_Inr valid_id_Inr read_b64url_Inr)

lemma party_of_text [simp]: "party_of (Some (JStr (js (party_text p)))) = Some p"
  by (cases p) (simp_all add: party_of_def)

lemma party_of_literal [simp]:
  "party_of (Some (JStr (js ''desktop''))) = Some Desktop_party"
  "party_of (Some (JStr (js ''device''))) = Some Device_party"
  by (simp_all add: party_of_def)

lemma party_of_Some: "party_of v = Some p \<longleftrightarrow> v = Some (JStr (js (party_text p)))"
  by (cases p) (auto simp: party_of_def)

section \<open>Canonical bytes of records of texts\<close>

lemma canonical_bytes_plain:
  "json_plain v \<Longrightarrow> canonical_bytes v = Inr (utf8_encode (stringify (sort_json v)))"
  by (simp add: canonical_bytes_def canonical_stringify)

lemma parse_canonical_bytes:
  "json_plain v \<Longrightarrow> canonical_bytes v = Inr b \<Longrightarrow> parse_bytes rc b = Some (sort_json v)"
  by (auto simp: canonical_bytes_plain parse_bytes_def parse_encoded sort_json_exact)

lemma field_sort_json:
  "json_plain v \<Longrightarrow> field (sort_json v) k = map_option sort_json (field v k)"
proof (cases v)
  case (JObj ps)
  assume "json_plain v"
  then have d: "distinct (map fst ps)" by (simp add: JObj)
  let ?f = "\<lambda>p. (fst p, sort_json (snd p))"
  have m: "map_of (map ?f ps) x = map_option sort_json (map_of ps x)" for x
    by (induction ps) auto
  have "distinct (map fst (sort_key fst (map ?f ps)))"
  proof -
    have "map fst (sort_key fst (map ?f ps)) = sort_key (\<lambda>k. k) (map fst ps)"
      by (simp add: sort_key_map comp_def)
    then show ?thesis using d by simp
  qed
  moreover have "distinct (map fst (map ?f ps))" using d by (simp add: comp_def)
  ultimately have "map_of (sort_key fst (map ?f ps)) = map_of (map ?f ps)"
    by (simp only: map_of_inject_set) simp
  then show ?thesis by (simp add: JObj field_def m)
qed (simp_all add: field_def)

lemma is_obj_sort_json [simp]: "is_obj (sort_json v) = is_obj v"
  by (cases v) simp_all

lemma only_keys_sort_json [simp]: "only_keys (sort_json v) ks = only_keys v ks"
  by (cases v) (auto simp: only_keys_def okeys_def list_all_iff)

lemma key_record_plain [simp]:
  "json_plain (key_record_json role i x None)"
  "json_plain (key_record_json role i x (Some (JStr s)))"
  by (cases role; simp add: key_record_json_def obj_def is_array_index_def exec_simps)+

lemma field_key_record [simp]:
  "field (key_record_json role i x s) (identity_id_field role) = Some (JStr i)"
  "field (key_record_json Desktop_party i x s) ''desktopId'' = Some (JStr i)"
  "field (key_record_json Device_party i x s) ''deviceId'' = Some (JStr i)"
  "field (key_record_json role i x s) ''role'' = Some (JStr (js (party_text role)))"
  "field (key_record_json role i x s) ''x25519StaticPublic'' = Some (JStr x)"
  "field (key_record_json role i x s) ''signature'' = s"
  "role = Desktop_party \<Longrightarrow> field (key_record_json role i x s) ''deviceId'' = None"
  "role = Device_party \<Longrightarrow> field (key_record_json role i x s) ''desktopId'' = None"
  by (cases role; simp add: key_record_json_def)+

lemma key_record_keys [simp]:
  "only_keys (key_record_json role i x s) [''desktopId'', ''deviceId'', ''role'', ''x25519StaticPublic'', ''signature'']"
  by (cases role) (simp_all add: key_record_json_def)

lemma key_record_obj [simp]: "is_obj (key_record_json role i x s)"
  by (simp add: key_record_json_def)

lemma signing_bytes_total: "\<exists>m. key_record_signing_bytes (key_record_json role i x None) = Inr m"
  by (simp add: key_record_signing_bytes_def canonical_bytes_plain)

text \<open>A signed record verifies, also after its canonical text has been parsed again.\<close>

lemma verify_sorted:
  "verify_signed_key_record rc (Some (sort_json (key_record_json role i x (Some (JStr s))))) pub r e
   = verify_signed_key_record rc (Some (key_record_json role i x (Some (JStr s)))) pub r e"
  by (cases role) (simp_all add: verify_signed_key_record_def field_sort_json)

lemma sign_then_verify:
  assumes law: "key_law rc" and s: "sign_key_record rc key role ident static = Inr record"
    and pub: "pub = Some (JStr (b64url (rc_edPublic rc key)))"
  obtains i x where "ident = Some (JStr i)" "identifier_ok MAX_ID_LENGTH i" "static = Some (JStr (b64url x))" "length x = 32"
    "\<And>e. (case e of None \<Rightarrow> True | Some e' \<Rightarrow> e' = [] \<or> e' = i) \<Longrightarrow>
       \<exists>s. record = key_record_json role i (b64url x) (Some (JStr s)) \<and>
       verify_signed_key_record rc (Some record) pub role e
         = Inr \<lparr>kr_role = role, kr_id = i, kr_static = b64url x, kr_signature = s\<rparr>"
proof -
  from s obtain i x m where u: "unsigned_key_record role ident static = Inr (i, x)"
    and m: "key_record_signing_bytes (key_record_json role i x None) = Inr m"
    and r: "record = key_record_json role i x (Some (JStr (b64url (rc_sign rc key m))))"
    by (auto simp: sign_key_record_def ebind_eq_Inr)
  from u obtain b where b: "ident = Some (JStr i)" "identifier_ok MAX_ID_LENGTH i"
    "static = Some (JStr (b64url b))" "length b = 32" "x = b64url b"
    by (auto simp: unsigned_key_record_Inr)
  have "rc_sign rc key m \<noteq> []" "rc_edPublic rc key \<noteq> []" "b \<noteq> []"
    using key_lawD(1,4) [OF law] b(4) by (metis list.size(3) zero_neq_numeral)+
  then have "verify_signed_key_record rc (Some record) pub role e
      = Inr \<lparr>kr_role = role, kr_id = i, kr_static = x, kr_signature = b64url (rc_sign rc key m)\<rparr>"
    if "case e of None \<Rightarrow> True | Some e' \<Rightarrow> e' = [] \<or> e' = i" for e
    using that b m key_lawD [OF law]
    by (auto simp: verify_signed_key_record_def r pub unsigned_key_record_def valid_id_def ed_public_key_def
        split: option.splits)
  then show ?thesis using that b r by blast
qed

end
