(* ===== verification/Stateful.thy ===== *)
theory Stateful
  imports Kaisola_Prelude
begin

text \<open>
  Methods that mutate their object and may throw: a step takes the state and returns the state it
  leaves behind next to the error or the result. What was mutated before an exception stays
  mutated, which is how the code behaves.
\<close>

type_synonym ('s, 'e, 'a) step = "'s \<Rightarrow> 's \<times> ('e + 'a)"

definition sreturn :: "'a \<Rightarrow> ('s, 'e, 'a) step" where
  "sreturn x s = (s, Inr x)"

definition sthrow :: "'e \<Rightarrow> ('s, 'e, 'a) step" where
  "sthrow e s = (s, Inl e)"

definition sbind :: "('s, 'e, 'a) step \<Rightarrow> ('a \<Rightarrow> ('s, 'e, 'b) step) \<Rightarrow> ('s, 'e, 'b) step" where
  "sbind m f s = (case m s of (s', Inl e) \<Rightarrow> (s', Inl e) | (s', Inr x) \<Rightarrow> f x s')"

text \<open>A computation that does not touch the state, a check, an assignment, a read.\<close>

definition slift :: "'e + 'a \<Rightarrow> ('s, 'e, 'a) step" where
  "slift r s = (s, r)"

definition sguard :: "('s \<Rightarrow> bool) \<Rightarrow> 'e \<Rightarrow> ('s, 'e, unit) step" where
  "sguard p e s = (s, if p s then Inr () else Inl e)"

definition smodify :: "('s \<Rightarrow> 's) \<Rightarrow> ('s, 'e, unit) step" where
  "smodify f s = (f s, Inr ())"

definition sread :: "('s \<Rightarrow> 'a) \<Rightarrow> ('s, 'e, 'a) step" where
  "sread f s = (s, Inr (f s))"

text \<open>A step on a component of the state.\<close>

definition son :: "('s \<Rightarrow> 't) \<Rightarrow> ('t \<Rightarrow> 's \<Rightarrow> 's) \<Rightarrow> ('t, 'e, 'a) step \<Rightarrow> ('s, 'e, 'a) step" where
  "son get put m s = (let (t, r) = m (get s) in (put t s, r))"

lemma sreturn_apply [simp]: "sreturn x s = (s, Inr x)"
  by (simp add: sreturn_def)

lemma sthrow_apply [simp]: "sthrow e s = (s, Inl e)"
  by (simp add: sthrow_def)

lemma slift_apply [simp]: "slift r s = (s, r)"
  by (simp add: slift_def)

lemma sguard_apply [simp]: "sguard p e s = (s, if p s then Inr () else Inl e)"
  by (simp add: sguard_def)

lemma smodify_apply [simp]: "smodify f s = (f s, Inr ())"
  by (simp add: smodify_def)

lemma sread_apply [simp]: "sread f s = (s, Inr (f s))"
  by (simp add: sread_def)

lemma sbind_eq_Inr [result_simps]:
  "sbind m f s = (s', Inr y) \<longleftrightarrow> (\<exists>t x. m s = (t, Inr x) \<and> f x t = (s', Inr y))"
  by (auto simp: sbind_def split: prod.splits sum.splits)

lemma sbind_eq_Inl [result_simps]:
  "sbind m f s = (s', Inl e) \<longleftrightarrow>
   m s = (s', Inl e) \<or> (\<exists>t x. m s = (t, Inr x) \<and> f x t = (s', Inl e))"
  by (auto simp: sbind_def split: prod.splits sum.splits)

lemma sbind_InrE:
  assumes "sbind m f s = (s', Inr y)"
  obtains t x where "m s = (t, Inr x)" "f x t = (s', Inr y)"
  using assms by (auto simp: sbind_eq_Inr)

lemma sbind_ok [simp]: "m s = (t, Inr x) \<Longrightarrow> sbind m f s = f x t"
  by (simp add: sbind_def)

lemma sbind_fail [simp]: "m s = (t, Inl e) \<Longrightarrow> sbind m f s = (t, Inl e)"
  by (simp add: sbind_def)

lemma son_apply: "m (get s) = (t, r) \<Longrightarrow> son get put m s = (put t s, r)"
  by (simp add: son_def)

lemma son_eq: "son get put m s = (s', r) \<longleftrightarrow> (\<exists>t. m (get s) = (t, r) \<and> s' = put t s)"
  by (auto simp: son_def split: prod.splits)

text \<open>A property of the state that every part of a method keeps, whether it throws or not.\<close>

definition skeeps :: "('s \<Rightarrow> bool) \<Rightarrow> ('s, 'e, 'a) step \<Rightarrow> bool" where
  "skeeps p m \<longleftrightarrow> (\<forall>s. p s \<longrightarrow> p (fst (m s)))"

lemma skeeps_bind: "skeeps p m \<Longrightarrow> (\<And>x. skeeps p (f x)) \<Longrightarrow> skeeps p (sbind m f)"
  by (auto simp: skeeps_def sbind_def split: prod.splits sum.splits)

lemma skeeps_pure [simp]:
  "skeeps p (sreturn x)" "skeeps p (sthrow e)" "skeeps p (slift r)" "skeeps p (sguard q e)" "skeeps p (sread g)"
  by (simp_all add: skeeps_def)

lemma skeeps_modify: "(\<And>s. p s \<Longrightarrow> p (f s)) \<Longrightarrow> skeeps p (smodify f)"
  by (simp add: skeeps_def)

lemma skeepsD: "skeeps p m \<Longrightarrow> p s \<Longrightarrow> m s = (s', r) \<Longrightarrow> p s'"
  by (auto simp: skeeps_def dest: spec [of _ s])

end
