(* ===== verification/Noise_Handshake.thy ===== *)
theory Noise_Handshake
  imports Identity_Keys Stateful
begin

text \<open>
  The Noise XX handshake of \<open>src/electron/companion/crypto.cjs\<close>: the symmetric state, the identity
  proofs carried by the encrypted payloads, and the methods of \<open>NoiseXXInitiator\<close> and
  \<open>NoiseXXResponder\<close>. Both classes have the same fields, here one record; a method that throws
  half way leaves the object as it is at that point.
\<close>

section \<open>Symmetric state\<close>

definition NOISE_PROTOCOL :: string where
  "NOISE_PROTOCOL = ''Noise_XX_25519_ChaChaPoly_SHA256''"

definition MAX_HANDSHAKE_MESSAGE_BYTES :: nat where
  "MAX_HANDSHAKE_MESSAGE_BYTES = 64 * 1024"

definition MAX_IDENTITY_PAYLOAD_BYTES :: nat where
  "MAX_IDENTITY_PAYLOAD_BYTES = 8 * 1024"

record noise =
  ns_h :: bytes
  ns_ck :: bytes
  ns_key :: "bytes option"
  ns_counter :: nat

definition noise_nonce :: "nat \<Rightarrow> bytes" where
  "noise_nonce counter = replicate 4 0 @ big_int_little_endian (int counter) 8"

definition noise_hkdf :: "'k runtime_crypto \<Rightarrow> bytes \<Rightarrow> bytes \<Rightarrow> bytes \<times> bytes" where
  "noise_hkdf rc chaining_key input =
     (let temporary = rc_hmac rc chaining_key input;
          output1 = rc_hmac rc temporary [1]
      in (output1, rc_hmac rc temporary (output1 @ [2])))"

definition mix_hash :: "'k runtime_crypto \<Rightarrow> bytes \<Rightarrow> noise \<Rightarrow> noise" where
  "mix_hash rc data n = n\<lparr>ns_h := rc_sha256 rc (ns_h n @ data)\<rparr>"

definition new_noise :: "'k runtime_crypto \<Rightarrow> bytes \<Rightarrow> noise" where
  "new_noise rc prologue =
     (let name = ascii_bytes NOISE_PROTOCOL;
          h = (if length name \<le> 32 then name @ replicate (32 - length name) 0 else rc_sha256 rc name)
      in mix_hash rc prologue \<lparr>ns_h = h, ns_ck = h, ns_key = None, ns_counter = 0\<rparr>)"

definition mix_key :: "'k runtime_crypto \<Rightarrow> bytes \<Rightarrow> noise \<Rightarrow> noise" where
  "mix_key rc input n =
     (let (ck, key) = noise_hkdf rc (ns_ck n) input
      in n\<lparr>ns_ck := ck, ns_key := Some key, ns_counter := 0\<rparr>)"

text \<open>The counter advances before the cipher runs, also when the cipher then throws.\<close>

definition encrypt_and_hash :: "'k runtime_crypto \<Rightarrow> bytes \<Rightarrow> (noise, crypto_error, bytes) step" where
  "encrypt_and_hash rc plaintext n =
     (case ns_key n of
        None \<Rightarrow> (mix_hash rc plaintext n, Inr plaintext)
      | Some key \<Rightarrow>
          (let n' = n\<lparr>ns_counter := ns_counter n + 1\<rparr>
           in case aead_encrypt (rc_native rc) key (noise_nonce (ns_counter n)) (ns_h n) plaintext of
                Inl e \<Rightarrow> (n', Inl e)
              | Inr out \<Rightarrow> (mix_hash rc out n', Inr out)))"

definition decrypt_and_hash :: "'k runtime_crypto \<Rightarrow> bytes \<Rightarrow> (noise, crypto_error, bytes) step" where
  "decrypt_and_hash rc ciphertext n =
     (case ns_key n of
        None \<Rightarrow> (mix_hash rc ciphertext n, Inr ciphertext)
      | Some key \<Rightarrow>
          (let n' = n\<lparr>ns_counter := ns_counter n + 1\<rparr>
           in case aead_decrypt (rc_native rc) key (noise_nonce (ns_counter n)) (ns_h n) ciphertext of
                Inl e \<Rightarrow> (n', Inl e)
              | Inr out \<Rightarrow> (mix_hash rc ciphertext n', Inr out)))"

definition noise_split :: "'k runtime_crypto \<Rightarrow> noise \<Rightarrow> bytes \<times> bytes" where
  "noise_split rc n = noise_hkdf rc (ns_ck n) []"

text \<open>\<open>dh\<close>: a public key of the wrong size, a failing agreement and the all-zero secret are refused.\<close>

definition dh :: "'k runtime_crypto \<Rightarrow> 'k \<Rightarrow> bytes \<Rightarrow> crypto_error + bytes" where
  "dh rc key remote =
     require (length remote = 32) Invalid_public_key
       (case rc_agree rc key remote of
          None \<Rightarrow> Inl Invalid_dh
        | Some shared \<Rightarrow> require (shared \<noteq> replicate 32 0) Invalid_dh (Inr shared))"

section \<open>Identity proofs\<close>

definition PROLOGUE_DOMAIN :: bytes where
  "PROLOGUE_DOMAIN = ascii_bytes ''kaisola-companion-noise-prologue-v1'' @ [0]"

definition HANDSHAKE_SIGNATURE_DOMAIN :: bytes where
  "HANDSHAKE_SIGNATURE_DOMAIN = ascii_bytes ''kaisola-companion-noise-hash-v1'' @ [0]"

definition create_noise_prologue :: "json \<Rightarrow> crypto_error + bytes" where
  "create_noise_prologue context =
     require (is_obj context) Invalid_handshake_context
       (ebind (canonical_bytes context) (\<lambda>b. Inr (PROLOGUE_DOMAIN @ b)))"

definition handshake_signature_bytes :: "party \<Rightarrow> bytes \<Rightarrow> bytes" where
  "handshake_signature_bytes role h = HANDSHAKE_SIGNATURE_DOMAIN @ ascii_bytes (party_text role) @ 0 # h"

definition identity_proof_json :: "'k runtime_crypto \<Rightarrow> 'k identity \<Rightarrow> bytes \<Rightarrow> json" where
  "identity_proof_json rc i h =
     obj [(''v'', Some (JInt 1)), (''role'', Some (JStr (js (party_text (id_role i))))),
          (''identityPublic'', Some (JStr (id_identityPublic i))), (''keyRecord'', Some (id_keyRecord i)),
          (''displayName'', Some (JStr (id_displayName i))),
          (''handshakeSignature'', Some (JStr (b64url
             (rc_sign rc (id_identityPrivate i) (handshake_signature_bytes (id_role i) h)))))]"

definition identity_proof :: "'k runtime_crypto \<Rightarrow> 'k identity \<Rightarrow> bytes \<Rightarrow> crypto_error + bytes" where
  "identity_proof rc i h =
     ebind (canonical_bytes (identity_proof_json rc i h)) (\<lambda>encoded.
     require (length encoded \<le> MAX_IDENTITY_PAYLOAD_BYTES) Identity_payload_too_large (Inr encoded))"

record peer_pin =
  pin_id :: jstr
  pin_identityPublic :: jstr
  pin_staticPublic :: jstr

record peer =
  pe_id :: jstr
  pe_role :: party
  pe_displayName :: jstr
  pe_identityPublic :: jstr
  pe_staticPublic :: jstr
  pe_keyRecord :: key_record

definition peer_name :: "party \<Rightarrow> json option \<Rightarrow> jstr" where
  "peer_name role v =
     (case as_str v of
        Some s \<Rightarrow> if js_trim s \<noteq> [] then take 80 (js_trim s) else default_name role
      | None \<Rightarrow> default_name role)"

definition parse_identity_proof ::
  "'k runtime_crypto \<Rightarrow> bytes \<Rightarrow> bytes \<Rightarrow> bytes \<Rightarrow> party \<Rightarrow> peer_pin option \<Rightarrow> crypto_error + peer" where
  "parse_identity_proof rc encoded h static role pin =
     require (length encoded \<le> MAX_IDENTITY_PAYLOAD_BYTES) Identity_payload_too_large (
     case parse_bytes rc encoded of
       None \<Rightarrow> Inl Identity_proof_failed
     | Some proof \<Rightarrow>
         require (is_obj proof) Identity_proof_failed (
         require (only_keys proof [''v'', ''role'', ''identityPublic'', ''keyRecord'', ''displayName'', ''handshakeSignature'']
             \<and> field proof ''v'' = Some (JInt 1) \<and> field proof ''role'' = Some (JStr (js (party_text role)))) Role_mismatch (
         ebind (read_b64url (field proof ''identityPublic'') (Some 32)) (\<lambda>raw.
         let identity_public = b64url raw in
         ebind (verify_signed_key_record rc (field proof ''keyRecord'') (Some (JStr identity_public)) role
                  (map_option pin_id pin)) (\<lambda>record.
         require (kr_static record = b64url static) Identity_proof_failed (
         require (case pin of None \<Rightarrow> True | Some p \<Rightarrow>
             pin_identityPublic p = [] \<or> pin_identityPublic p = identity_public) Identity_mismatch (
         require (case pin of None \<Rightarrow> True | Some p \<Rightarrow>
             pin_staticPublic p = [] \<or> pin_staticPublic p = kr_static record) Identity_mismatch (
         ebind (read_b64url (field proof ''handshakeSignature'') (Some 64)) (\<lambda>signature.
         ebind (ed_public_key rc (Some (JStr identity_public))) (\<lambda>public.
         require (rc_verify rc public (handshake_signature_bytes role h) signature) Identity_proof_failed (
           Inr \<lparr>pe_id = kr_id record, pe_role = role, pe_displayName = peer_name role (field proof ''displayName''),
                pe_identityPublic = identity_public, pe_staticPublic = kr_static record,
                pe_keyRecord = record\<rparr>)))))))))))"

section \<open>The two sides\<close>

datatype hs_state = Write_1 | Read_2 | Write_3 | Read_1 | Write_2 | Read_3 | Handshake_complete

record 'k handshake =
  hs_identity :: "'k identity"
  hs_pin :: "peer_pin option"
  hs_ephemeral :: 'k
  hs_noise :: noise
  hs_state :: hs_state
  hs_remoteEphemeral :: bytes
  hs_peer :: "peer option"

text \<open>A message comes as base64url text from a frame, or as a buffer.\<close>

datatype wire = Wire_text jstr | Wire_bytes bytes

definition normalize_message :: "wire \<Rightarrow> crypto_error + bytes" where
  "normalize_message w =
     ebind (case w of Wire_text s \<Rightarrow> read_b64url (Some (JStr s)) None | Wire_bytes b \<Rightarrow> Inr b) (\<lambda>m.
     require (m \<noteq> [] \<and> length m \<le> MAX_HANDSHAKE_MESSAGE_BYTES) Invalid_handshake_message (Inr m))"

type_synonym ('k, 'a) hs_step = "('k handshake, crypto_error, 'a) step"

definition ensure_state :: "hs_state \<Rightarrow> ('k, unit) hs_step" where
  "ensure_state expected = sguard (\<lambda>h. hs_state h = expected) Handshake_order"

definition go_to :: "hs_state \<Rightarrow> ('k, unit) hs_step" where
  "go_to st = smodify (\<lambda>h. h\<lparr>hs_state := st\<rparr>)"

definition on_noise :: "(noise, crypto_error, 'a) step \<Rightarrow> ('k, 'a) hs_step" where
  "on_noise m = son hs_noise (\<lambda>n h. h\<lparr>hs_noise := n\<rparr>) m"

definition agree_and_mix :: "'k runtime_crypto \<Rightarrow> ('k handshake \<Rightarrow> 'k) \<Rightarrow> bytes \<Rightarrow> ('k, unit) hs_step" where
  "agree_and_mix rc key remote =
     sbind (sread key) (\<lambda>k. sbind (slift (dh rc k remote)) (\<lambda>shared.
       on_noise (smodify (mix_key rc shared))))"

definition new_handshake ::
  "'k runtime_crypto \<Rightarrow> party \<Rightarrow> 'k identity \<Rightarrow> bytes \<Rightarrow> peer_pin option \<Rightarrow> 'k \<Rightarrow> hs_state \<Rightarrow>
   crypto_error + 'k handshake" where
  "new_handshake rc role i prologue pin ephemeral start =
     require (id_role i = role) Role_mismatch
       (Inr \<lparr>hs_identity = i, hs_pin = pin, hs_ephemeral = ephemeral, hs_noise = new_noise rc prologue,
             hs_state = start, hs_remoteEphemeral = [], hs_peer = None\<rparr>)"

definition new_initiator ::
  "'k runtime_crypto \<Rightarrow> 'k identity \<Rightarrow> bytes \<Rightarrow> peer_pin option \<Rightarrow> 'k \<Rightarrow> crypto_error + 'k handshake" where
  "new_initiator rc i prologue pin ephemeral = new_handshake rc Device_party i prologue pin ephemeral Write_1"

definition new_responder ::
  "'k runtime_crypto \<Rightarrow> 'k identity \<Rightarrow> bytes \<Rightarrow> peer_pin option \<Rightarrow> 'k \<Rightarrow> crypto_error + 'k handshake" where
  "new_responder rc i prologue pin ephemeral = new_handshake rc Desktop_party i prologue pin ephemeral Read_1"

subsection \<open>Initiator\<close>

definition write_message_1 :: "'k runtime_crypto \<Rightarrow> ('k, bytes) hs_step" where
  "write_message_1 rc =
     sbind (ensure_state Write_1) (\<lambda>_.
     sbind (sread hs_ephemeral) (\<lambda>e.
     sbind (slift (export_public (rc_xPublic rc e))) (\<lambda>message.
     sbind (on_noise (smodify (mix_hash rc message))) (\<lambda>_.
     sbind (go_to Read_2) (\<lambda>_. sreturn message)))))"

text \<open>The payload that proves the peer's identity, read against the hash before it.\<close>

definition read_identity :: "'k runtime_crypto \<Rightarrow> bytes \<Rightarrow> bytes \<Rightarrow> party \<Rightarrow> hs_state \<Rightarrow> ('k, peer) hs_step" where
  "read_identity rc encrypted static role next =
     sbind (sread (\<lambda>h. ns_h (hs_noise h))) (\<lambda>before.
     sbind (on_noise (decrypt_and_hash rc encrypted)) (\<lambda>payload.
     sbind (sread hs_pin) (\<lambda>pin.
     sbind (slift (parse_identity_proof rc payload before static role pin)) (\<lambda>p.
     sbind (smodify (\<lambda>h. h\<lparr>hs_peer := Some p\<rparr>)) (\<lambda>_.
     sbind (go_to next) (\<lambda>_. sreturn p))))))"

definition write_identity :: "'k runtime_crypto \<Rightarrow> ('k, bytes) hs_step" where
  "write_identity rc =
     sbind (sread (\<lambda>h. ns_h (hs_noise h))) (\<lambda>before.
     sbind (sread hs_identity) (\<lambda>i.
     sbind (slift (identity_proof rc i before)) (\<lambda>proof. on_noise (encrypt_and_hash rc proof))))"

definition write_static :: "'k runtime_crypto \<Rightarrow> ('k, bytes) hs_step" where
  "write_static rc =
     sbind (sread (\<lambda>h. id_staticPrivate (hs_identity h))) (\<lambda>k.
     sbind (slift (export_public (rc_xPublic rc k))) (\<lambda>static. on_noise (encrypt_and_hash rc static)))"

definition read_message_2 :: "'k runtime_crypto \<Rightarrow> wire \<Rightarrow> ('k, peer) hs_step" where
  "read_message_2 rc w =
     sbind (ensure_state Read_2) (\<lambda>_.
     sbind (slift (normalize_message w)) (\<lambda>message.
     sbind (slift (require (32 + 48 + 16 \<le> length message) Invalid_handshake_message (Inr ()))) (\<lambda>_.
     sbind (smodify (\<lambda>h. h\<lparr>hs_remoteEphemeral := subarray 0 32 message\<rparr>)) (\<lambda>_.
     sbind (on_noise (smodify (mix_hash rc (subarray 0 32 message)))) (\<lambda>_.
     sbind (agree_and_mix rc hs_ephemeral (subarray 0 32 message)) (\<lambda>_.
     sbind (on_noise (decrypt_and_hash rc (subarray 32 80 message))) (\<lambda>static.
     sbind (agree_and_mix rc hs_ephemeral static) (\<lambda>_.
       read_identity rc (drop 80 message) static Desktop_party Write_3))))))))"

definition write_message_3 :: "'k runtime_crypto \<Rightarrow> ('k, bytes) hs_step" where
  "write_message_3 rc =
     sbind (ensure_state Write_3) (\<lambda>_.
     sbind (write_static rc) (\<lambda>encrypted_static.
     sbind (sread hs_remoteEphemeral) (\<lambda>remote.
     sbind (agree_and_mix rc (\<lambda>h. id_staticPrivate (hs_identity h)) remote) (\<lambda>_.
     sbind (write_identity rc) (\<lambda>encrypted_payload.
     sbind (go_to Handshake_complete) (\<lambda>_. sreturn (encrypted_static @ encrypted_payload)))))))"

subsection \<open>Responder\<close>

definition read_message_1 :: "'k runtime_crypto \<Rightarrow> wire \<Rightarrow> ('k, unit) hs_step" where
  "read_message_1 rc w =
     sbind (ensure_state Read_1) (\<lambda>_.
     sbind (slift (normalize_message w)) (\<lambda>message.
     sbind (slift (require (length message = 32) Invalid_handshake_message (Inr ()))) (\<lambda>_.
     sbind (smodify (\<lambda>h. h\<lparr>hs_remoteEphemeral := message\<rparr>)) (\<lambda>_.
     sbind (on_noise (smodify (mix_hash rc message))) (\<lambda>_.
       go_to Write_2)))))"

definition write_message_2 :: "'k runtime_crypto \<Rightarrow> ('k, bytes) hs_step" where
  "write_message_2 rc =
     sbind (ensure_state Write_2) (\<lambda>_.
     sbind (sread hs_ephemeral) (\<lambda>e.
     sbind (slift (export_public (rc_xPublic rc e))) (\<lambda>local_ephemeral.
     sbind (on_noise (smodify (mix_hash rc local_ephemeral))) (\<lambda>_.
     sbind (sread hs_remoteEphemeral) (\<lambda>remote.
     sbind (agree_and_mix rc hs_ephemeral remote) (\<lambda>_.
     sbind (write_static rc) (\<lambda>encrypted_static.
     sbind (agree_and_mix rc (\<lambda>h. id_staticPrivate (hs_identity h)) remote) (\<lambda>_.
     sbind (write_identity rc) (\<lambda>encrypted_payload.
     sbind (go_to Read_3) (\<lambda>_.
       sreturn (local_ephemeral @ encrypted_static @ encrypted_payload)))))))))))"

definition read_message_3 :: "'k runtime_crypto \<Rightarrow> wire \<Rightarrow> ('k, peer) hs_step" where
  "read_message_3 rc w =
     sbind (ensure_state Read_3) (\<lambda>_.
     sbind (slift (normalize_message w)) (\<lambda>message.
     sbind (slift (require (48 + 16 \<le> length message) Invalid_handshake_message (Inr ()))) (\<lambda>_.
     sbind (on_noise (decrypt_and_hash rc (subarray 0 48 message))) (\<lambda>static.
     sbind (agree_and_mix rc hs_ephemeral static) (\<lambda>_.
       read_identity rc (drop 48 message) static Device_party Handshake_complete)))))"

record handshake_result =
  hr_hash :: bytes
  hr_keys :: "bytes \<times> bytes"
  hr_peer :: "peer option"

definition handshake_result_of :: "'k runtime_crypto \<Rightarrow> ('k, handshake_result) hs_step" where
  "handshake_result_of rc =
     sbind (ensure_state Handshake_complete) (\<lambda>_.
     sread (\<lambda>h. \<lparr>hr_hash = ns_h (hs_noise h), hr_keys = noise_split rc (hs_noise h), hr_peer = hs_peer h\<rparr>))"

end
