(* ===== verification/Noise_Agreement.thy ===== *)
theory Noise_Agreement
  imports Noise_Handshake
begin

text \<open>
  What the handshake of \<open>Noise_Handshake\<close> achieves: an honest run between a device and a desktop
  completes on both sides with the same hash and the same keys, each side knowing the identity of
  the other; and whoever completes with a responder has proved, under the responder's own hash, the
  identity the responder reports.
\<close>

section \<open>Sizes of printed texts\<close>

lemma length_commas_sum: "length (commas ts) = sum_list (map length ts) + (length ts - 1)"
  by (induction ts rule: commas.induct) simp_all

lemma sum_list_insort: "sum_list (map f (insort_key g x xs)) = f x + (sum_list (map f xs) :: nat)"
  by (induction xs) simp_all

lemma sum_list_sort: "sum_list (map f (sort_key g xs)) = (sum_list (map f xs) :: nat)"
  by (induction xs) (simp_all add: sum_list_insort)

lemma length_stringify_sort: "length (stringify (sort_json v)) = length (stringify v)"
proof (induction v rule: sort_json.induct)
  case (1 xs)
  then have "map (\<lambda>x. length (stringify (sort_json x))) xs = map (\<lambda>x. length (stringify x)) xs" by simp
  then show ?case by (simp add: length_commas_sum comp_def del: map_eq_conv)
next
  case (2 ps)
  let ?g = "\<lambda>p. quote (fst p) @ 58 # stringify (sort_json (snd p))"
  let ?f = "\<lambda>p. quote (fst p) @ 58 # stringify (snd p)"
  have eq: "map (\<lambda>p. length (?g p)) ps = map (\<lambda>p. length (?f p)) ps" using 2 by simp
  have "stringify (sort_json (JObj ps)) = 123 # commas (map ?g (sort_key fst ps)) @ [125]"
    by (simp add: sort_key_map comp_def)
  then have "length (stringify (sort_json (JObj ps)))
      = 2 + (sum_list (map (\<lambda>p. length (?g p)) (sort_key fst ps)) + (length ps - 1))"
    by (simp only: length_Cons length_append length_commas_sum map_map length_map length_sort comp_def)
      simp
  also have "\<dots> = 2 + (sum_list (map (\<lambda>p. length (?f p)) ps) + (length ps - 1))"
    by (simp only: sum_list_sort eq)
  also have "\<dots> = length (stringify (JObj ps))"
    by (simp only: stringify.simps length_Cons length_append length_commas_sum map_map length_map comp_def)
      simp
  finally show ?case .
qed simp_all

definition plain_unit :: "16 word \<Rightarrow> bool" where
  "plain_unit u = (32 \<le> unat u \<and> unat u < 128 \<and> u \<noteq> 34 \<and> u \<noteq> 92)"

lemma esc_plain: "list_all plain_unit s \<Longrightarrow> esc_units s = s"
proof (induction s rule: esc_units.induct)
  case (2 u)
  then show ?case by (auto simp: plain_unit_def is_high_def is_low_def esc_unit_def word_less_nat_alt)
next
  case (3 u v us)
  then show ?case by (auto simp: plain_unit_def is_high_def is_low_def esc_unit_def word_less_nat_alt)
qed simp

lemma length_quote_plain: "list_all plain_unit s \<Longrightarrow> length (quote s) = length s + 2"
  by (simp add: quote_def esc_plain)

lemma length_quote_le: "length (quote s) \<le> 6 * length s + 2"
  using length_esc_units [of s] by (simp add: quote_def)

lemma plain_b64url: "list_all plain_unit (b64url b)"
proof -
  have "plain_unit u" if "is_b64url_unit u" for u
    using that by (auto simp: plain_unit_def is_b64url_unit_def is_alnum_unit_def is_digit_unit_def word_le_nat_alt)
  then show ?thesis using b64url_alphabet [of b] by (auto simp: list_all_iff)
qed

lemma plain_identifier: "identifier_ok m s \<Longrightarrow> list_all plain_unit s"
proof -
  have "plain_unit u" if "is_id_unit u" for u
    using that by (auto simp: plain_unit_def is_id_unit_def is_alnum_unit_def is_digit_unit_def word_le_nat_alt)
  moreover assume "identifier_ok m s"
  then have "list_all is_id_unit s"
    by (cases s) (auto simp: identifier_ok_def is_id_unit_def)
  ultimately show ?thesis by (auto simp: list_all_iff)
qed

section \<open>Identity proofs\<close>

text \<open>What \<open>createIdentity\<close> makes.\<close>

definition proper_identity :: "'k runtime_crypto \<Rightarrow> 'k identity \<Rightarrow> bool" where
  "proper_identity rc i \<longleftrightarrow>
     identifier_ok MAX_ID_LENGTH (id_id i) \<and> length (id_displayName i) \<le> 80
     \<and> id_identityPublic i = b64url (rc_edPublic rc (id_identityPrivate i))
     \<and> id_staticPublic i = b64url (rc_xPublic rc (id_staticPrivate i))
     \<and> sign_key_record rc (id_identityPrivate i) (id_role i) (Some (JStr (id_id i))) (Some (JStr (id_staticPublic i)))
         = Inr (id_keyRecord i)"

lemma export_public_Inr: "export_public raw = Inr b \<longleftrightarrow> b = raw \<and> length raw = 32"
  by (auto simp: export_public_def read_b64url_Inr)

lemma create_identity_proper:
  assumes "create_identity rc role ident display_name signing agreement = Inr i"
  shows "proper_identity rc i" "id_role i = role"
proof -
  from assms obtain a r where "valid_id ident = Inr a"
    and "sign_key_record rc signing role ident (Some (JStr (b64url (rc_xPublic rc agreement)))) = Inr r"
    and i: "i = \<lparr>id_id = a, id_role = role,
            id_displayName = (case as_str display_name of Some s \<Rightarrow> take 80 s | None \<Rightarrow> default_name role),
            id_identityPrivate = signing, id_identityPublic = b64url (rc_edPublic rc signing),
            id_staticPrivate = agreement, id_staticPublic = b64url (rc_xPublic rc agreement), id_keyRecord = r\<rparr>"
    unfolding create_identity_def
    by (elim ebind_InrE require_InrE) (auto simp: export_public_Inr)
  then show "proper_identity rc i" "id_role i = role"
    by (auto simp: proper_identity_def valid_id_Inr default_name_def split: option.split)
qed

text \<open>The identity a peer reports for it, and the pins it satisfies.\<close>

definition peer_of :: "'k identity \<Rightarrow> key_record \<Rightarrow> peer" where
  "peer_of i r =
     \<lparr>pe_id = id_id i, pe_role = id_role i, pe_displayName = peer_name (id_role i) (Some (JStr (id_displayName i))),
      pe_identityPublic = id_identityPublic i, pe_staticPublic = id_staticPublic i, pe_keyRecord = r\<rparr>"

definition pin_accepts :: "peer_pin option \<Rightarrow> 'k identity \<Rightarrow> bool" where
  "pin_accepts pin i \<longleftrightarrow>
     (case pin of None \<Rightarrow> True
      | Some p \<Rightarrow> pin_id p \<in> {[], id_id i} \<and> pin_identityPublic p \<in> {[], id_identityPublic i}
          \<and> pin_staticPublic p \<in> {[], id_staticPublic i})"

lemma proper_identity_record:
  assumes "key_law rc" "proper_identity rc i"
  shows "\<exists>s. id_keyRecord i = key_record_json (id_role i) (id_id i) (id_staticPublic i) (Some (JStr s))
    \<and> list_all plain_unit s \<and> length s = 86
    \<and> (\<forall>e. (case e of None \<Rightarrow> True | Some e' \<Rightarrow> e' = [] \<or> e' = id_id i) \<longrightarrow>
      verify_signed_key_record rc (Some (id_keyRecord i)) (Some (JStr (id_identityPublic i))) (id_role i) e
        = Inr \<lparr>kr_role = id_role i, kr_id = id_id i, kr_static = id_staticPublic i, kr_signature = s\<rparr>)"
proof -
  from assms(2) have s: "sign_key_record rc (id_identityPrivate i) (id_role i) (Some (JStr (id_id i)))
      (Some (JStr (id_staticPublic i))) = Inr (id_keyRecord i)"
    and p: "id_identityPublic i = b64url (rc_edPublic rc (id_identityPrivate i))"
    unfolding proper_identity_def by blast+
  from s obtain i' x m where u: "unsigned_key_record (id_role i) (Some (JStr (id_id i))) (Some (JStr (id_staticPublic i))) = Inr (i', x)"
    and made: "key_record_json (id_role i) i' x (Some (JStr (b64url (rc_sign rc (id_identityPrivate i) m)))) = id_keyRecord i"
    by (auto simp: sign_key_record_def ebind_eq_Inr)
  have "i' = id_id i" "x = id_staticPublic i" using u by (auto simp: unsigned_key_record_Inr)
  then have r: "id_keyRecord i = key_record_json (id_role i) (id_id i) (id_staticPublic i)
      (Some (JStr (b64url (rc_sign rc (id_identityPrivate i) m))))"
    using made by simp
  have len: "length (b64url (rc_sign rc (id_identityPrivate i) m)) = 86"
    by (simp add: length_b64url key_lawD [OF assms(1)])
  have ok: "verify_signed_key_record rc (Some (id_keyRecord i)) (Some (JStr (id_identityPublic i))) (id_role i) e
      = Inr \<lparr>kr_role = id_role i, kr_id = id_id i, kr_static = id_staticPublic i,
             kr_signature = b64url (rc_sign rc (id_identityPrivate i) m)\<rparr>"
    if e: "case e of None \<Rightarrow> True | Some e' \<Rightarrow> e' = [] \<or> e' = id_id i" for e
  proof (rule sign_then_verify [OF assms(1) s, of "Some (JStr (id_identityPublic i))"])
    fix i'' x'
    assume ii: "Some (JStr (id_id i)) = Some (JStr i'')"
      and v: "\<And>e. (case e of None \<Rightarrow> True | Some e' \<Rightarrow> e' = [] \<or> e' = i'') \<Longrightarrow>
       \<exists>s. id_keyRecord i = key_record_json (id_role i) i'' (b64url x') (Some (JStr s)) \<and>
       verify_signed_key_record rc (Some (id_keyRecord i)) (Some (JStr (id_identityPublic i))) (id_role i) e
         = Inr \<lparr>kr_role = id_role i, kr_id = i'', kr_static = b64url x', kr_signature = s\<rparr>"
    from ii obtain s where k: "id_keyRecord i = key_record_json (id_role i) (id_id i) (b64url x') (Some (JStr s))"
      and w: "verify_signed_key_record rc (Some (id_keyRecord i)) (Some (JStr (id_identityPublic i))) (id_role i) e
         = Inr \<lparr>kr_role = id_role i, kr_id = id_id i, kr_static = b64url x', kr_signature = s\<rparr>"
      using v [of e] e by auto
    have "field (id_keyRecord i) ''signature'' = Some (JStr s)" "field (id_keyRecord i) ''x25519StaticPublic'' = Some (JStr (b64url x'))"
      unfolding k by simp_all
    then show ?thesis using w unfolding r by simp
  qed (simp add: p)
  show ?thesis using r plain_b64url len ok by (intro exI conjI allI impI) assumption+
qed

lemma identity_proof_plain:
  assumes "key_law rc" "proper_identity rc i"
  shows "json_plain (identity_proof_json rc i h)"
proof -
  obtain s where r: "id_keyRecord i = key_record_json (id_role i) (id_id i) (id_staticPublic i) (Some (JStr s))"
    using proper_identity_record [OF assms] by metis
  show ?thesis
    by (simp add: identity_proof_json_def obj_def r is_array_index_def is_safe_def max_safe_integer_def exec_simps
        del: json_plain.simps(4)) (simp add: is_array_index_def exec_simps)
qed

lemma plain_digits: "list_all plain_unit (js ''1'')"
  by (simp add: js_def plain_unit_def)

lemma length_identity_proof:
  assumes "key_law rc" "proper_identity rc i"
  shows "length (stringify (identity_proof_json rc i h)) \<le> 2000"
proof -
  obtain s where r: "id_keyRecord i = key_record_json (id_role i) (id_id i) (id_staticPublic i) (Some (JStr s))"
    and s: "list_all plain_unit s" "length s = 86"
    using proper_identity_record [OF assms] by metis
  have i: "list_all plain_unit (id_id i)" "length (id_id i) \<le> 160"
    using assms(2) plain_identifier by (auto simp: proper_identity_def identifier_ok_def MAX_ID_LENGTH_def)
  have e: "id_identityPublic i = b64url (rc_edPublic rc (id_identityPrivate i))"
    "id_staticPublic i = b64url (rc_xPublic rc (id_staticPrivate i))"
    using assms(2) unfolding proper_identity_def by blast+
  have q: "length (quote (id_id i)) \<le> 162" "length (quote s) = 88"
    "length (quote (id_identityPublic i)) = 45" "length (quote (id_staticPublic i)) = 45"
    "length (quote (b64url (rc_sign rc k m))) = 88" for k m
    using i s by (simp_all add: length_quote_plain plain_b64url e length_b64url key_lawD [OF assms(1)])
  have n: "length (quote (id_displayName i)) \<le> 482"
    using assms(2) length_quote_le [of "id_displayName i"] by (simp add: proper_identity_def)
  have lit: "length (quote (js (identity_id_field r))) \<le> 12" "length (quote (js (party_text r))) \<le> 9" for r
    by (cases r; simp add: quote_def exec_simps is_high_def is_low_def)+
  have one: "length (int_text 1) = 1" by (simp add: int_text_def digits_of.simps)
  have names: "length (quote (js ''v'')) = 3" "length (quote (js ''role'')) = 6"
    "length (quote (js ''identityPublic'')) = 16" "length (quote (js ''keyRecord'')) = 11"
    "length (quote (js ''displayName'')) = 13" "length (quote (js ''handshakeSignature'')) = 20"
    "length (quote (js ''x25519StaticPublic'')) = 20" "length (quote (js ''signature'')) = 11"
    by (simp_all add: quote_def exec_simps is_high_def is_low_def)
  show ?thesis
    using q(1-4) q(5) [of "id_identityPrivate i" "handshake_signature_bytes (id_role i) h"] n
      lit(1) [of "id_role i"] lit(2) [of "id_role i"] one names
    by (simp add: identity_proof_json_def obj_def r key_record_json_def)
qed

lemma field_identity_proof:
  "field (identity_proof_json rc i h) ''v'' = Some (JInt 1)"
  "field (identity_proof_json rc i h) ''role'' = Some (JStr (js (party_text (id_role i))))"
  "field (identity_proof_json rc i h) ''identityPublic'' = Some (JStr (id_identityPublic i))"
  "field (identity_proof_json rc i h) ''keyRecord'' = Some (id_keyRecord i)"
  "field (identity_proof_json rc i h) ''displayName'' = Some (JStr (id_displayName i))"
  "field (identity_proof_json rc i h) ''handshakeSignature'' = Some (JStr (b64url
     (rc_sign rc (id_identityPrivate i) (handshake_signature_bytes (id_role i) h))))"
  "is_obj (identity_proof_json rc i h)"
  "only_keys (identity_proof_json rc i h)
     [''v'', ''role'', ''identityPublic'', ''keyRecord'', ''displayName'', ''handshakeSignature'']"
  by (simp_all add: identity_proof_json_def)

text \<open>A proof that was made under a hash is accepted under that hash, and says who made it.\<close>

lemma identity_proof_accepted:
  assumes law: "key_law rc" and i: "proper_identity rc i" and pin: "pin_accepts pin i"
  shows "\<exists>P r. identity_proof rc i h = Inr P \<and> length P \<le> 8192 \<and> kr_id r = id_id i
    \<and> parse_identity_proof rc P h (rc_xPublic rc (id_staticPrivate i)) (id_role i) pin = Inr (peer_of i r)"
proof -
  let ?v = "identity_proof_json rc i h"
  obtain s where r: "id_keyRecord i = key_record_json (id_role i) (id_id i) (id_staticPublic i) (Some (JStr s))"
    and verified: "\<And>e. (case e of None \<Rightarrow> True | Some e' \<Rightarrow> e' = [] \<or> e' = id_id i) \<Longrightarrow>
      verify_signed_key_record rc (Some (id_keyRecord i)) (Some (JStr (id_identityPublic i))) (id_role i) e
        = Inr \<lparr>kr_role = id_role i, kr_id = id_id i, kr_static = id_staticPublic i, kr_signature = s\<rparr>"
    using proper_identity_record [OF law i] by (elim exE conjE) simp
  let ?r = "\<lparr>kr_role = id_role i, kr_id = id_id i, kr_static = id_staticPublic i, kr_signature = s\<rparr>"
  let ?P = "utf8_encode (stringify (sort_json ?v))"
  have keys: "id_identityPublic i = b64url (rc_edPublic rc (id_identityPrivate i))"
    "id_staticPublic i = b64url (rc_xPublic rc (id_staticPrivate i))"
    using i unfolding proper_identity_def by blast+
  have plain: "json_plain ?v" by (rule identity_proof_plain [OF law i])
  have len: "length ?P \<le> 6000"
    using length_utf8_encode [of "stringify (sort_json ?v)"] length_identity_proof [OF law i, of h]
    by (simp add: length_stringify_sort)
  have made: "identity_proof rc i h = Inr ?P"
    using len by (simp add: identity_proof_def canonical_bytes_plain [OF plain] MAX_IDENTITY_PAYLOAD_BYTES_def)
  have parsed: "parse_bytes rc ?P = Some (sort_json ?v)"
    by (rule parse_canonical_bytes [OF plain canonical_bytes_plain [OF plain]])
  have f: "field (sort_json ?v) k = map_option sort_json (field ?v k)" for k by (rule field_sort_json [OF plain])
  have "length (rc_edPublic rc (id_identityPrivate i)) = 32" "rc_edPublic rc (id_identityPrivate i) \<noteq> []"
    using key_lawD(1) [OF law, of "id_identityPrivate i"] by auto
  note ed = this
  have sig: "length (rc_sign rc k m) = 64" "rc_sign rc k m \<noteq> []" for k m
    using key_lawD(4) [OF law, of k m] by auto
  have kr: "verify_signed_key_record rc (Some (sort_json (id_keyRecord i))) (Some (JStr (id_identityPublic i)))
      (id_role i) (map_option pin_id pin) = Inr ?r"
    using verified [of "map_option pin_id pin"] pin
    by (auto simp: r verify_sorted pin_accepts_def split: option.splits)
  have accepted: "parse_identity_proof rc ?P h (rc_xPublic rc (id_staticPrivate i)) (id_role i) pin = Inr (peer_of i ?r)"
    using len pin kr key_lawD(3,5) [OF law]
    by (auto simp: parse_identity_proof_def MAX_IDENTITY_PAYLOAD_BYTES_def parsed f field_identity_proof keys
        ed sig ed_public_key_def peer_of_def pin_accepts_def Let_def split: option.splits)
  show ?thesis using made accepted len by (intro exI [of _ ?P] exI [of _ ?r]) simp
qed

section \<open>The symmetric state in lock step\<close>

definition keyed :: "noise \<Rightarrow> bool" where
  "keyed n \<longleftrightarrow> (\<exists>k. ns_key n = Some k \<and> length k = 32)"

lemma keyed_mix_key: "key_law rc \<Longrightarrow> keyed (mix_key rc input n)"
  by (simp add: keyed_def mix_key_def noise_hkdf_def Let_def key_lawD)

lemma length_noise_nonce [simp]: "length (noise_nonce c) = 12"
  by (simp add: noise_nonce_def)

lemma crypt_step:
  assumes law: "key_law rc" and n: "keyed n" and p: "length p < 2 ^ 32"
  shows "\<exists>c n'. encrypt_and_hash rc p n = (n', Inr c) \<and> decrypt_and_hash rc c n = (n', Inr p)
    \<and> length c = length p + 16 \<and> keyed n'"
proof -
  from n obtain k where k: "ns_key n = Some k" "length k = 32" by (auto simp: keyed_def)
  note cipher = aead_of_native [OF key_lawD(9) [OF law]]
  obtain c where c: "aead_encrypt (rc_native rc) k (noise_nonce (ns_counter n)) (ns_h n) p = Inr c"
    using aead_encrypt_total [OF key_lawD(9) [OF law] k(2) length_noise_nonce p] by blast
  let ?n = "mix_hash rc c (n\<lparr>ns_counter := ns_counter n + 1\<rparr>)"
  have "encrypt_and_hash rc p n = (?n, Inr c)" "decrypt_and_hash rc c n = (?n, Inr p)"
    using k c aead.unseal_seal [OF cipher c] by (simp_all add: encrypt_and_hash_def decrypt_and_hash_def Let_def)
  moreover have "keyed ?n" using k by (simp add: keyed_def mix_hash_def)
  ultimately show ?thesis using aead.seal_length [OF cipher c] by blast
qed

lemma son_noise [simp]:
  "m (hs_noise h) = (n, r) \<Longrightarrow> on_noise m h = (h\<lparr>hs_noise := n\<rparr>, r)"
  by (simp add: on_noise_def son_def)

lemma agree_and_mix_ok:
  "key_law rc \<Longrightarrow> rc_agree rc (key h) remote = Some s \<Longrightarrow> s \<noteq> replicate 32 0 \<Longrightarrow> length remote = 32 \<Longrightarrow>
   agree_and_mix rc key remote h = (h\<lparr>hs_noise := mix_key rc s (hs_noise h)\<rparr>, Inr ())"
  by (simp add: agree_and_mix_def dh_def)

lemma export_x: "key_law rc \<Longrightarrow> export_public (rc_xPublic rc k) = Inr (rc_xPublic rc k)"
  by (simp add: export_public_Inr key_lawD)

lemma normalize_text:
  "m \<noteq> [] \<Longrightarrow> length m \<le> MAX_HANDSHAKE_MESSAGE_BYTES \<Longrightarrow> normalize_message (Wire_text (b64url m)) = Inr m"
  by (simp add: normalize_message_def)

lemma write_static_ok:
  assumes "key_law rc" "encrypt_and_hash rc (rc_xPublic rc (id_staticPrivate (hs_identity h))) (hs_noise h) = (n, Inr c)"
  shows "write_static rc h = (h\<lparr>hs_noise := n\<rparr>, Inr c)"
  using assms by (simp add: write_static_def export_x sbind_def)

lemma write_identity_ok:
  assumes "identity_proof rc (hs_identity h) (ns_h (hs_noise h)) = Inr P" "encrypt_and_hash rc P (hs_noise h) = (n, Inr c)"
  shows "write_identity rc h = (h\<lparr>hs_noise := n\<rparr>, Inr c)"
  using assms by (simp add: write_identity_def sbind_def)

lemma read_identity_ok:
  assumes "decrypt_and_hash rc c (hs_noise h) = (n, Inr P)"
    and "parse_identity_proof rc P (ns_h (hs_noise h)) static role (hs_pin h) = Inr p"
  shows "read_identity rc c static role next h = (h\<lparr>hs_noise := n, hs_peer := Some p, hs_state := next\<rparr>, Inr p)"
  using assms by (simp add: read_identity_def sbind_def go_to_def)

lemma honest_run_completes:
  assumes law: "key_law rc"
    and d: "proper_identity rc d" "id_role d = Device_party"
    and D: "proper_identity rc D" "id_role D = Desktop_party"
    and pins: "pin_accepts pd D" "pin_accepts pD d"
    and start: "new_initiator rc d prologue pd e = Inr i0" "new_responder rc D prologue pD f = Inr r0"
  shows "\<exists>m1 m2 m3 i1 i2 i3 r1 r2 r3 kd kD hash keys.
    write_message_1 rc i0 = (i1, Inr m1) \<and> read_message_1 rc (Wire_text (b64url m1)) r0 = (r1, Inr ())
    \<and> write_message_2 rc r1 = (r2, Inr m2)
    \<and> read_message_2 rc (Wire_text (b64url m2)) i1 = (i2, Inr (peer_of D kD))
    \<and> write_message_3 rc i2 = (i3, Inr m3)
    \<and> read_message_3 rc (Wire_text (b64url m3)) r2 = (r3, Inr (peer_of d kd))
    \<and> handshake_result_of rc i3 = (i3, Inr \<lparr>hr_hash = hash, hr_keys = keys, hr_peer = Some (peer_of D kD)\<rparr>)
    \<and> handshake_result_of rc r3 = (r3, Inr \<lparr>hr_hash = hash, hr_keys = keys, hr_peer = Some (peer_of d kd)\<rparr>)"
proof -
  let ?E = "rc_xPublic rc e" let ?F = "rc_xPublic rc f"
  let ?S = "rc_xPublic rc (id_staticPrivate D)" let ?T = "rc_xPublic rc (id_staticPrivate d)"
  note len = key_lawD(2) [OF law]
  have ne: "?E \<noteq> []" "?F \<noteq> []" "?S \<noteq> []" "?T \<noteq> []" using len by (metis list.size(3) zero_neq_numeral)+
  obtain s1 where s1: "rc_agree rc e ?F = Some s1" "rc_agree rc f ?E = Some s1" "s1 \<noteq> replicate 32 0"
    by (rule key_law_agree [OF law])
  obtain s2 where s2: "rc_agree rc e ?S = Some s2" "rc_agree rc (id_staticPrivate D) ?E = Some s2" "s2 \<noteq> replicate 32 0"
    by (rule key_law_agree [OF law])
  obtain s3 where s3: "rc_agree rc f ?T = Some s3" "rc_agree rc (id_staticPrivate d) ?F = Some s3" "s3 \<noteq> replicate 32 0"
    by (rule key_law_agree [OF law])
  define n1 where "n1 = mix_hash rc ?E (new_noise rc prologue)"
  define n2 where "n2 = mix_key rc s1 (mix_hash rc ?F n1)"
  have "keyed n2" by (simp add: n2_def keyed_mix_key [OF law])
  then obtain c1 n3 where c1: "encrypt_and_hash rc ?S n2 = (n3, Inr c1)" "decrypt_and_hash rc c1 n2 = (n3, Inr ?S)"
    "length c1 = 48" "keyed n3"
    using crypt_step [OF law, of n2 ?S] by (auto simp: len)
  define n4 where "n4 = mix_key rc s2 n3"
  obtain P kD where P: "identity_proof rc D (ns_h n4) = Inr P" "length P \<le> 8192"
    "parse_identity_proof rc P (ns_h n4) ?S Desktop_party pd = Inr (peer_of D kD)"
    using identity_proof_accepted [OF law D(1) pins(1), of "ns_h n4"] D(2) by metis
  have "keyed n4" by (simp add: n4_def keyed_mix_key [OF law])
  then obtain c2 n5 where c2: "encrypt_and_hash rc P n4 = (n5, Inr c2)" "decrypt_and_hash rc c2 n4 = (n5, Inr P)"
    "length c2 = length P + 16" "keyed n5"
    using crypt_step [OF law, of n4 P] P(2) by auto
  obtain c3 n6 where c3: "encrypt_and_hash rc ?T n5 = (n6, Inr c3)" "decrypt_and_hash rc c3 n5 = (n6, Inr ?T)"
    "length c3 = 48" "keyed n6"
    using crypt_step [OF law c2(4), of ?T] by (auto simp: len)
  define n7 where "n7 = mix_key rc s3 n6"
  obtain Q kd where Q: "identity_proof rc d (ns_h n7) = Inr Q" "length Q \<le> 8192"
    "parse_identity_proof rc Q (ns_h n7) ?T Device_party pD = Inr (peer_of d kd)"
    using identity_proof_accepted [OF law d(1) pins(2), of "ns_h n7"] d(2) by metis
  have "keyed n7" by (simp add: n7_def keyed_mix_key [OF law])
  then obtain c4 n8 where c4: "encrypt_and_hash rc Q n7 = (n8, Inr c4)" "decrypt_and_hash rc c4 n7 = (n8, Inr Q)"
    "length c4 = length Q + 16" "keyed n8"
    using crypt_step [OF law, of n7 Q] Q(2) by auto
  let ?i = "\<lambda>n st r p. \<lparr>hs_identity = d, hs_pin = pd, hs_ephemeral = e, hs_noise = n, hs_state = st,
    hs_remoteEphemeral = r, hs_peer = p\<rparr>"
  let ?r = "\<lambda>n st r p. \<lparr>hs_identity = D, hs_pin = pD, hs_ephemeral = f, hs_noise = n, hs_state = st,
    hs_remoteEphemeral = r, hs_peer = p\<rparr>"
  have i0: "i0 = ?i (new_noise rc prologue) Write_1 [] None" and r0: "r0 = ?r (new_noise rc prologue) Read_1 [] None"
    using start d(2) D(2) by (simp_all add: new_initiator_def new_responder_def new_handshake_def)
  let ?m2 = "?F @ c1 @ c2" let ?m3 = "c3 @ c4"
  have w1: "write_message_1 rc i0 = (?i n1 Read_2 [] None, Inr ?E)"
    by (simp add: i0 write_message_1_def ensure_state_def export_x [OF law] go_to_def n1_def sbind_def)
  have x1: "read_message_1 rc (Wire_text (b64url ?E)) r0 = (?r n1 Write_2 ?E None, Inr ())"
    using ne by (simp add: r0 read_message_1_def ensure_state_def normalize_text len MAX_HANDSHAKE_MESSAGE_BYTES_def
        go_to_def n1_def sbind_def)
  have w2: "write_message_2 rc (?r n1 Write_2 ?E None) = (?r n5 Read_3 ?E None, Inr ?m2)"
    using s1 s2 c1 c2 P
    by (simp add: write_message_2_def ensure_state_def export_x [OF law] go_to_def sbind_def agree_and_mix_ok [OF law]
        len write_static_ok [OF law] write_identity_ok n2_def [symmetric] n4_def [symmetric])
  have split: "subarray 0 32 ?m2 = ?F" "subarray 32 80 ?m2 = c1" "drop 80 ?m2 = c2"
    using c1(3) by (simp_all add: subarray_def len)
  have x2: "read_message_2 rc (Wire_text (b64url ?m2)) (?i n1 Read_2 [] None)
      = (?i n5 Write_3 ?F (Some (peer_of D kD)), Inr (peer_of D kD))"
    using s1 s2 c1 c2 P ne
    by (simp add: read_message_2_def ensure_state_def normalize_text MAX_HANDSHAKE_MESSAGE_BYTES_def sbind_def
        agree_and_mix_ok [OF law] len split read_identity_ok n2_def [symmetric] n4_def [symmetric] del: append_assoc)
  have w3: "write_message_3 rc (?i n5 Write_3 ?F (Some (peer_of D kD)))
      = (?i n8 Handshake_complete ?F (Some (peer_of D kD)), Inr ?m3)"
    using s3 c3 c4 Q
    by (simp add: write_message_3_def ensure_state_def go_to_def sbind_def agree_and_mix_ok [OF law]
        len write_static_ok [OF law] write_identity_ok n7_def [symmetric])
  have split3: "subarray 0 48 ?m3 = c3" "drop 48 ?m3 = c4"
    using c3(3) by (simp_all add: subarray_def)
  have norm3: "normalize_message (Wire_text (b64url ?m3)) = Inr ?m3"
    using c3(3) c4(3) Q(2) by (intro normalize_text) (auto simp: MAX_HANDSHAKE_MESSAGE_BYTES_def)
  have x3: "read_message_3 rc (Wire_text (b64url ?m3)) (?r n5 Read_3 ?E None)
      = (?r n8 Handshake_complete ?E (Some (peer_of d kd)), Inr (peer_of d kd))"
    using s3 c3 c4 Q
    by (simp add: read_message_3_def ensure_state_def norm3 sbind_def
        agree_and_mix_ok [OF law] len split3 read_identity_ok n7_def [symmetric])
  show ?thesis
    by (intro exI conjI, rule w1, rule x1, rule w2, rule x2, rule w3, rule x3)
      (simp_all add: handshake_result_of_def ensure_state_def sbind_def)
qed

section \<open>What a completed responder knows\<close>

definition signed_key_record :: "'k runtime_crypto \<Rightarrow> bytes \<Rightarrow> party \<Rightarrow> jstr \<Rightarrow> jstr \<Rightarrow> bool" where
  "signed_key_record rc public role i static \<longleftrightarrow>
     (\<exists>m s. key_record_signing_bytes (key_record_json role i static None) = Inr m \<and> rc_verify rc public m s)"

lemma verify_signed_key_record_Inr:
  assumes "verify_signed_key_record rc c (Some (JStr (b64url raw))) role e = Inr r"
  shows "kr_role r = role" "identifier_ok MAX_ID_LENGTH (kr_id r)"
    "signed_key_record rc raw role (kr_id r) (kr_static r)" "e \<noteq> None \<Longrightarrow> the e \<in> {[], kr_id r}"
proof -
  obtain i x b public m s where u: "unsigned_key_record role (field (the c) (identity_id_field role))
        (field (the c) ''x25519StaticPublic'') = Inr (i, x)"
    and p: "ed_public_key rc (Some (JStr (b64url raw))) = Inr public"
    and m: "key_record_signing_bytes (key_record_json role i x None) = Inr m" "rc_verify rc public m s"
    and e: "case e of None \<Rightarrow> True | Some e' \<Rightarrow> e' = [] \<or> i = e'"
    and r: "r = \<lparr>kr_role = role, kr_id = i, kr_static = x, kr_signature = b64url s\<rparr>"
    using assms unfolding verify_signed_key_record_def
    by (auto elim!: ebind_InrE require_InrE split: option.splits)
  have "public = raw" using p by (auto simp: ed_public_key_def ebind_eq_Inr require_eq_Inr read_b64url_Inr)
  then show "kr_role r = role" "identifier_ok MAX_ID_LENGTH (kr_id r)"
    "signed_key_record rc raw role (kr_id r) (kr_static r)" "e \<noteq> None \<Longrightarrow> the e \<in> {[], kr_id r}"
    using u m e by (auto simp: r unsigned_key_record_Inr signed_key_record_def)
qed

lemma parse_identity_proof_Inr:
  assumes "parse_identity_proof rc encoded h static role pin = Inr p"
  shows "pe_role p = role" "pe_staticPublic p = b64url static"
    "\<exists>raw s. pe_identityPublic p = b64url raw \<and> length raw = 32
      \<and> rc_verify rc raw (handshake_signature_bytes role h) s
      \<and> signed_key_record rc raw role (pe_id p) (b64url static)"
    "pin \<noteq> None \<Longrightarrow> pin_id (the pin) \<in> {[], pe_id p} \<and> pin_identityPublic (the pin) \<in> {[], pe_identityPublic p}
      \<and> pin_staticPublic (the pin) \<in> {[], pe_staticPublic p}"
proof -
  obtain proof_json raw r s public where
    raw: "length raw = 32"
    and v: "verify_signed_key_record rc (field proof_json ''keyRecord'') (Some (JStr (b64url raw))) role
             (map_option pin_id pin) = Inr r"
    and st: "kr_static r = b64url static"
    and pins: "case pin of None \<Rightarrow> True | Some q \<Rightarrow> pin_identityPublic q = [] \<or> pin_identityPublic q = b64url raw"
      "case pin of None \<Rightarrow> True | Some q \<Rightarrow> pin_staticPublic q = [] \<or> pin_staticPublic q = kr_static r"
    and public: "ed_public_key rc (Some (JStr (b64url raw))) = Inr public"
    and sig: "rc_verify rc public (handshake_signature_bytes role h) s"
    and p: "p = \<lparr>pe_id = kr_id r, pe_role = role,
      pe_displayName = peer_name role (field proof_json ''displayName''), pe_identityPublic = b64url raw,
      pe_staticPublic = kr_static r, pe_keyRecord = r\<rparr>"
    using assms unfolding parse_identity_proof_def Let_def
    by (auto elim!: ebind_InrE require_InrE simp: read_b64url_Inr split: option.splits)
  have "public = raw" using public by (auto simp: ed_public_key_def ebind_eq_Inr require_eq_Inr read_b64url_Inr)
  note facts = verify_signed_key_record_Inr [OF v]
  show "pe_role p = role" "pe_staticPublic p = b64url static" by (simp_all add: p st)
  show "\<exists>raw s. pe_identityPublic p = b64url raw \<and> length raw = 32
      \<and> rc_verify rc raw (handshake_signature_bytes role h) s
      \<and> signed_key_record rc raw role (pe_id p) (b64url static)"
    using raw sig facts(3) \<open>public = raw\<close> st by (auto simp: p)
  show "pin_id (the pin) \<in> {[], pe_id p} \<and> pin_identityPublic (the pin) \<in> {[], pe_identityPublic p}
      \<and> pin_staticPublic (the pin) \<in> {[], pe_staticPublic p}" if "pin \<noteq> None"
    using that facts(4) pins by (auto simp: p)
qed

lemma decrypt_and_hash_h: "decrypt_and_hash rc c n = (n', Inr out) \<Longrightarrow> ns_h n' = rc_sha256 rc (ns_h n @ c)"
  by (auto simp: decrypt_and_hash_def mix_hash_def Let_def split: option.splits sum.splits)

lemma on_noise_eq: "on_noise m h = (h', x) \<longleftrightarrow> (\<exists>n. m (hs_noise h) = (n, x) \<and> h' = h\<lparr>hs_noise := n\<rparr>)"
  by (auto simp: on_noise_def son_eq)

lemma agree_and_mix_dh:
  "agree_and_mix rc key remote h = (h', Inr ()) \<Longrightarrow>
   \<exists>s. dh rc (key h) remote = Inr s \<and> h' = h\<lparr>hs_noise := mix_key rc s (hs_noise h)\<rparr>"
  by (auto simp: agree_and_mix_def sbind_eq_Inr on_noise_def son_eq)

lemma ns_h_mix_key [simp]: "ns_h (mix_key rc s n) = ns_h n"
  by (simp add: mix_key_def case_prod_unfold Let_def)

lemma read_message_3_Inr:
  assumes "read_message_3 rc w r = (r', Inr p)"
  obtains m n1 static s payload n where "hs_state r = Read_3" "normalize_message w = Inr m"
    "decrypt_and_hash rc (take 48 m) (hs_noise r) = (n1, Inr static)" "dh rc (hs_ephemeral r) static = Inr s"
    "decrypt_and_hash rc (drop 48 m) (mix_key rc s n1) = (n, Inr payload)"
    "parse_identity_proof rc payload (rc_sha256 rc (ns_h (hs_noise r) @ take 48 m)) static Device_party (hs_pin r) = Inr p"
    "r' = r\<lparr>hs_noise := n, hs_peer := Some p, hs_state := Handshake_complete\<rparr>"
proof -
  from assms obtain m t u static where st: "hs_state r = Read_3" and m: "normalize_message w = Inr m"
    and d: "on_noise (decrypt_and_hash rc (subarray 0 48 m)) r = (t, Inr static)"
    and a: "agree_and_mix rc hs_ephemeral static t = (u, Inr ())"
    and i: "read_identity rc (drop 48 m) static Device_party Handshake_complete u = (r', Inr p)"
    unfolding read_message_3_def ensure_state_def
    by (auto elim!: sbind_InrE require_InrE split: if_splits)
  obtain n1 where n1: "decrypt_and_hash rc (take 48 m) (hs_noise r) = (n1, Inr static)" "t = r\<lparr>hs_noise := n1\<rparr>"
    using d by (auto simp: on_noise_eq subarray_def)
  obtain s where s: "dh rc (hs_ephemeral r) static = Inr s" "u = r\<lparr>hs_noise := mix_key rc s n1\<rparr>"
    using agree_and_mix_dh [OF a] by (auto simp: n1(2))
  obtain payload n where n: "decrypt_and_hash rc (drop 48 m) (mix_key rc s n1) = (n, Inr payload)"
    "parse_identity_proof rc payload (ns_h n1) static Device_party (hs_pin r) = Inr p"
    "r' = r\<lparr>hs_noise := n, hs_peer := Some p, hs_state := Handshake_complete\<rparr>"
    using i by (auto simp: read_identity_def sbind_eq_Inr on_noise_eq go_to_def s(2))
  then show ?thesis using that [OF st m n1(1) s(1)] decrypt_and_hash_h [OF n1(1)] by simp
qed

section \<open>An example runtime\<close>

text \<open>Functions with the sizes and laws of the runtime, for the witnesses.\<close>

definition example_runtime :: "unit runtime_crypto" where
  "example_runtime =
     \<lparr>rc_isEd = (\<lambda>_. True), rc_isX = (\<lambda>_. True), rc_edPublic = (\<lambda>_. replicate 32 1),
      rc_xPublic = (\<lambda>_. replicate 32 2), rc_edValid = (\<lambda>_. True), rc_sign = (\<lambda>_ _. replicate 64 3),
      rc_verify = (\<lambda>_ _ s. s = replicate 64 3), rc_agree = (\<lambda>_ _. Some (replicate 32 4)),
      rc_sha256 = (\<lambda>_. replicate 32 5), rc_hmac = (\<lambda>_ _. replicate 32 6), rc_hkdf = (\<lambda>_ _ _. replicate 32 7),
      rc_native = None, rc_number = JFloat\<rparr>"

lemma example_key_law: "key_law example_runtime"
  by (simp add: key_law_def example_runtime_def)

lemma create_identity_total:
  assumes "key_law rc" "identifier_ok MAX_ID_LENGTH i" "rc_isEd rc a" "rc_isX rc b"
  shows "\<exists>d. create_identity rc role (Some (JStr i)) name a b = Inr d"
proof -
  have ne: "rc_xPublic rc b \<noteq> []" "rc_edPublic rc a \<noteq> []"
    using key_lawD(2) [OF assms(1), of b] key_lawD(1) [OF assms(1), of a] by auto
  obtain m where "key_record_signing_bytes (key_record_json role i (b64url (rc_xPublic rc b)) None) = Inr m"
    using signing_bytes_total by blast
  then show ?thesis
    using assms key_lawD(1,2) [OF assms(1)] ne
    by (simp add: create_identity_def valid_id_def export_public_Inr export_public_def sign_key_record_def
        unsigned_key_record_def)
qed

lemma example_identities:
  obtains d D i0 r0 where "proper_identity example_runtime d" "id_role d = Device_party"
    "proper_identity example_runtime D" "id_role D = Desktop_party"
    "new_initiator example_runtime d [] None () = Inr i0" "new_responder example_runtime D [] None () = Inr r0"
proof -
  have ok: "identifier_ok MAX_ID_LENGTH (js ''a'')"
    by (simp add: identifier_ok_def MAX_ID_LENGTH_def exec_simps)
  have keys: "rc_isEd example_runtime ()" "rc_isX example_runtime ()" by (simp_all add: example_runtime_def)
  obtain d where d: "create_identity example_runtime Device_party (Some (JStr (js ''a''))) None () () = Inr d"
    using create_identity_total [OF example_key_law ok keys] by blast
  obtain D where D: "create_identity example_runtime Desktop_party (Some (JStr (js ''a''))) None () () = Inr D"
    using create_identity_total [OF example_key_law ok keys] by blast
  show ?thesis
    using that [of d D] create_identity_proper [OF d] create_identity_proper [OF D]
    by (simp add: new_initiator_def new_responder_def new_handshake_def)
qed

section \<open>Properties\<close>

text \<open>
  C15. An honest handshake completes. When a device and a desktop with identities made by
  \<open>createIdentity\<close> exchange the three messages as base64url text over the same prologue, and the
  pins they hold (if any) fit, every method succeeds, each side reports the identity of the other,
  and both results carry the same handshake hash and the same pair of keys.
\<close>

theorem noise_honest_run:
  assumes "key_law rc"
    and "proper_identity rc d" "id_role d = Device_party"
    and "proper_identity rc D" "id_role D = Desktop_party"
    and "pin_accepts pd D" "pin_accepts pD d"
    and "new_initiator rc d prologue pd e = Inr i0" "new_responder rc D prologue pD f = Inr r0"
  shows "\<exists>m1 m2 m3 i1 i2 i3 r1 r2 r3 kd kD hash keys.
    write_message_1 rc i0 = (i1, Inr m1) \<and> read_message_1 rc (Wire_text (b64url m1)) r0 = (r1, Inr ())
    \<and> write_message_2 rc r1 = (r2, Inr m2)
    \<and> read_message_2 rc (Wire_text (b64url m2)) i1 = (i2, Inr (peer_of D kD))
    \<and> write_message_3 rc i2 = (i3, Inr m3)
    \<and> read_message_3 rc (Wire_text (b64url m3)) r2 = (r3, Inr (peer_of d kd))
    \<and> handshake_result_of rc i3 = (i3, Inr \<lparr>hr_hash = hash, hr_keys = keys, hr_peer = Some (peer_of D kD)\<rparr>)
    \<and> handshake_result_of rc r3 = (r3, Inr \<lparr>hr_hash = hash, hr_keys = keys, hr_peer = Some (peer_of d kd)\<rparr>)"
  by (rule honest_run_completes [OF assms])

theorem noise_honest_run_witness:
  "\<exists>(d :: unit identity) (D :: unit identity) i0 r0 m1 m2 m3 i1 i2 i3 r1 r2 r3 kd kD hash keys.
    write_message_1 example_runtime i0 = (i1, Inr m1)
    \<and> read_message_1 example_runtime (Wire_text (b64url m1)) r0 = (r1, Inr ())
    \<and> write_message_2 example_runtime r1 = (r2, Inr m2)
    \<and> read_message_2 example_runtime (Wire_text (b64url m2)) i1 = (i2, Inr (peer_of D kD))
    \<and> write_message_3 example_runtime i2 = (i3, Inr m3)
    \<and> read_message_3 example_runtime (Wire_text (b64url m3)) r2 = (r3, Inr (peer_of d kd))
    \<and> handshake_result_of example_runtime i3 = (i3, Inr \<lparr>hr_hash = hash, hr_keys = keys, hr_peer = Some (peer_of D kD)\<rparr>)
    \<and> handshake_result_of example_runtime r3 = (r3, Inr \<lparr>hr_hash = hash, hr_keys = keys, hr_peer = Some (peer_of d kd)\<rparr>)"
proof -
  obtain d D i0 r0 where *: "proper_identity example_runtime d" "id_role d = Device_party"
    "proper_identity example_runtime D" "id_role D = Desktop_party"
    "new_initiator example_runtime d [] None () = Inr i0" "new_responder example_runtime D [] None () = Inr r0"
    by (rule example_identities)
  have pins: "pin_accepts None D" "pin_accepts None d" by (simp_all add: pin_accepts_def)
  show ?thesis
    by (rule exI [of _ d], rule exI [of _ D], rule exI [of _ i0], rule exI [of _ r0])
      (rule noise_honest_run [OF example_key_law *(1-4) pins *(5,6)])
qed

text \<open>
  C16. A responder that completes has authenticated its peer. When \<open>readMessage3\<close> succeeds, the
  handshake was waiting for it. The static key it decrypted from the first 48 bytes of the message is
  the one it agreed on a secret with, and that secret keys the cipher under which the payload opened
  and the state the keys of the connection are split from. This static key is the one the peer is
  reported with and the one the peer's key record binds to the device's identifier; the record and
  this responder's own transcript (the hash that covers everything up to the encrypted static key)
  are both signed by the peer's identity key. And every non-empty field of the pin is the peer's.
\<close>

theorem responder_authenticates:
  assumes "read_message_3 rc w r = (r', Inr p)"
  shows "hs_state r = Read_3 \<and> hs_state r' = Handshake_complete \<and> hs_peer r' = Some p \<and> pe_role p = Device_party
    \<and> (\<exists>m n static shared payload raw s. normalize_message w = Inr m
        \<and> decrypt_and_hash rc (take 48 m) (hs_noise r) = (n, Inr static)
        \<and> dh rc (hs_ephemeral r) static = Inr shared
        \<and> decrypt_and_hash rc (drop 48 m) (mix_key rc shared n) = (hs_noise r', Inr payload)
        \<and> pe_staticPublic p = b64url static \<and> pe_identityPublic p = b64url raw \<and> length raw = 32
        \<and> rc_verify rc raw (handshake_signature_bytes Device_party
            (rc_sha256 rc (ns_h (hs_noise r) @ take 48 m))) s
        \<and> signed_key_record rc raw Device_party (pe_id p) (b64url static))
    \<and> (\<forall>q. hs_pin r = Some q \<longrightarrow> pin_id q \<in> {[], pe_id p} \<and> pin_identityPublic q \<in> {[], pe_identityPublic p}
        \<and> pin_staticPublic q \<in> {[], pe_staticPublic p})"
proof -
  from assms obtain m n1 static shared payload n where st: "hs_state r = Read_3" "normalize_message w = Inr m"
    "decrypt_and_hash rc (take 48 m) (hs_noise r) = (n1, Inr static)" "dh rc (hs_ephemeral r) static = Inr shared"
    "decrypt_and_hash rc (drop 48 m) (mix_key rc shared n1) = (n, Inr payload)"
    and parsed: "parse_identity_proof rc payload (rc_sha256 rc (ns_h (hs_noise r) @ take 48 m)) static
        Device_party (hs_pin r) = Inr p"
    and r': "r' = r\<lparr>hs_noise := n, hs_peer := Some p, hs_state := Handshake_complete\<rparr>"
    by (rule read_message_3_Inr)
  have r: "hs_state r' = Handshake_complete" "hs_peer r' = Some p" "hs_noise r' = n" by (simp_all add: r')
  obtain raw s where raw: "pe_identityPublic p = b64url raw" "length raw = 32"
    "rc_verify rc raw (handshake_signature_bytes Device_party (rc_sha256 rc (ns_h (hs_noise r) @ take 48 m))) s"
    "signed_key_record rc raw Device_party (pe_id p) (b64url static)"
    using parse_identity_proof_Inr(3) [OF parsed] by blast
  have pins: "\<forall>q. hs_pin r = Some q \<longrightarrow> pin_id q \<in> {[], pe_id p} \<and> pin_identityPublic q \<in> {[], pe_identityPublic p}
        \<and> pin_staticPublic q \<in> {[], pe_staticPublic p}"
    using parse_identity_proof_Inr(4) [OF parsed] by auto
  show ?thesis
    using st r raw pins parse_identity_proof_Inr(1,2) [OF parsed] by blast
qed

theorem responder_authenticates_witness:
  "\<exists>w r r' p. read_message_3 example_runtime w r = (r', Inr p) \<and> hs_state r = Read_3 \<and> pe_role p = Device_party"
proof -
  obtain d D i0 r0 where *: "proper_identity example_runtime d" "id_role d = Device_party"
    "proper_identity example_runtime D" "id_role D = Desktop_party"
    "new_initiator example_runtime d [] None () = Inr i0" "new_responder example_runtime D [] None () = Inr r0"
    by (rule example_identities)
  have pins: "pin_accepts None D" "pin_accepts None d" by (simp_all add: pin_accepts_def)
  obtain w r r' p where "read_message_3 example_runtime w r = (r', Inr p)"
    using honest_run_completes [OF example_key_law *(1-4) pins *(5,6)] by blast
  then show ?thesis using responder_authenticates by blast
qed

end
