(* ===== verification/Secure_Channel.thy ===== *)
theory Secure_Channel
  imports Noise_Agreement "HOL-Library.Multiset" "HOL-Library.Sublist"
begin

text \<open>
  The encrypted frames of \<open>src/electron/companion/crypto.cjs\<close>: the keys of a connection, the methods
  of \<open>SecureFrameChannel\<close>, the phrase both users compare and the key confirmation. A frame carries
  its header in the clear; the canonical bytes of the header are the associated data of the cipher.
\<close>

section \<open>Keys of a connection\<close>

definition MAX_SECURE_PLAINTEXT_BYTES :: nat where
  "MAX_SECURE_PLAINTEXT_BYTES = 1024 * 1024"

definition SAS_ADJECTIVES :: "string list" where
  "SAS_ADJECTIVES =
     [''amber'', ''brisk'', ''calm'', ''clear'', ''coral'', ''dawn'', ''ember'', ''fair'',
      ''gentle'', ''green'', ''lunar'', ''merry'', ''quiet'', ''rapid'', ''silver'', ''warm'']"

definition SAS_NOUNS :: "string list" where
  "SAS_NOUNS =
     [''anchor'', ''bird'', ''cedar'', ''cloud'', ''comet'', ''field'', ''harbor'', ''island'',
      ''maple'', ''meadow'', ''otter'', ''river'', ''stone'', ''trail'', ''willow'', ''wind'']"

datatype direction = Device_to_desktop | Desktop_to_device

fun direction_text :: "direction \<Rightarrow> string" where
  "direction_text Device_to_desktop = ''device-to-desktop''"
| "direction_text Desktop_to_device = ''desktop-to-device''"

record channel_context =
  ct_desktopId :: jstr
  ct_deviceId :: jstr
  ct_connectionId :: jstr

definition context_ok :: "channel_context \<Rightarrow> bool" where
  "context_ok c =
     (identifier_ok MAX_ID_LENGTH (ct_desktopId c) \<and> identifier_ok MAX_ID_LENGTH (ct_deviceId c)
      \<and> identifier_ok MAX_ID_LENGTH (ct_connectionId c))"

definition connection_info :: "channel_context \<Rightarrow> direction \<Rightarrow> crypto_error + bytes" where
  "connection_info c d =
     require (context_ok c) Invalid_identity
       (canonical_bytes (obj [(''v'', Some (JInt 1)), (''protocol'', Some (JStr (js NOISE_PROTOCOL))),
          (''desktopId'', Some (JStr (ct_desktopId c))), (''deviceId'', Some (JStr (ct_deviceId c))),
          (''connectionId'', Some (JStr (ct_connectionId c))), (''direction'', Some (JStr (js (direction_text d))))]))"

text \<open>The keys for the frames of the device and for those of the desktop.\<close>

definition derive_connection_keys ::
  "'k runtime_crypto \<Rightarrow> handshake_result \<Rightarrow> channel_context \<Rightarrow> crypto_error + bytes \<times> bytes" where
  "derive_connection_keys rc result c =
     ebind (connection_info c Device_to_desktop) (\<lambda>up.
     ebind (connection_info c Desktop_to_device) (\<lambda>down.
       Inr (rc_hkdf rc (fst (hr_keys result)) (hr_hash result) up,
            rc_hkdf rc (snd (hr_keys result)) (hr_hash result) down)))"

section \<open>Channels\<close>

record channel =
  ch_sendKey :: bytes
  ch_receiveKey :: bytes
  ch_context :: channel_context
  ch_sendDirection :: direction
  ch_receiveDirection :: direction
  ch_sendCounter :: nat
  ch_receiveCounter :: nat

definition new_channel :: "bytes \<Rightarrow> bytes \<Rightarrow> channel_context \<Rightarrow> direction \<Rightarrow> direction \<Rightarrow> crypto_error + channel" where
  "new_channel send_key receive_key c send receive =
     require (length send_key = 32 \<and> length receive_key = 32) Invalid_transport_key (
     require (context_ok c) Invalid_identity (
     require (send \<noteq> receive) Invalid_direction (
       Inr \<lparr>ch_sendKey = send_key, ch_receiveKey = receive_key, ch_context = c, ch_sendDirection = send,
            ch_receiveDirection = receive, ch_sendCounter = 0, ch_receiveCounter = 0\<rparr>)))"

definition create_secure_channel ::
  "'k runtime_crypto \<Rightarrow> handshake_result \<Rightarrow> channel_context \<Rightarrow> party \<Rightarrow> crypto_error + channel" where
  "create_secure_channel rc result c role =
     ebind (derive_connection_keys rc result c) (\<lambda>(up, down).
     case role of
       Desktop_party \<Rightarrow> new_channel down up c Desktop_to_device Device_to_desktop
     | Device_party \<Rightarrow> new_channel up down c Device_to_desktop Desktop_to_device)"

definition transport_nonce :: "nat \<Rightarrow> crypto_error + bytes" where
  "transport_nonce counter = require (counter \<le> 2 ^ 64 - 1) Counter_exhausted (Inr (noise_nonce counter))"

definition secure_header :: "channel_context \<Rightarrow> direction \<Rightarrow> nat \<Rightarrow> int \<Rightarrow> (string \<times> json option) list" where
  "secure_header c d counter size_of_text =
     [(''v'', Some (JInt 1)), (''desktopId'', Some (JStr (ct_desktopId c))),
      (''deviceId'', Some (JStr (ct_deviceId c))), (''connectionId'', Some (JStr (ct_connectionId c))),
      (''direction'', Some (JStr (js (direction_text d)))), (''counter'', Some (JStr (digits_of counter))),
      (''ciphertextLength'', Some (JInt size_of_text))]"

definition secure_frame :: "channel_context \<Rightarrow> direction \<Rightarrow> nat \<Rightarrow> int \<Rightarrow> bytes \<Rightarrow> json" where
  "secure_frame c d counter size_of_text combined =
     obj (secure_header c d counter size_of_text @ [(''ciphertext'', Some (JStr (b64url combined)))])"

text \<open>
  \<open>encrypt\<close> of a buffer and of a value. The counter advances only when the frame was made.
\<close>

definition encrypt :: "'k runtime_crypto \<Rightarrow> bytes \<Rightarrow> (channel, crypto_error, json) step" where
  "encrypt rc plaintext ch =
     (let c = ch_context ch; d = ch_sendDirection ch; n = ch_sendCounter ch; l = int (length plaintext);
          r = require (length plaintext \<le> MAX_SECURE_PLAINTEXT_BYTES) Frame_too_large (
              ebind (transport_nonce n) (\<lambda>nonce.
              ebind (canonical_bytes (obj (secure_header c d n l))) (\<lambda>aad.
              ebind (aead_encrypt (rc_native rc) (ch_sendKey ch) nonce aad plaintext) (\<lambda>combined.
                Inr (secure_frame c d n l combined)))))
      in case r of
           Inl e \<Rightarrow> (ch, Inl e)
         | Inr f \<Rightarrow> (ch\<lparr>ch_sendCounter := n + 1\<rparr>, Inr f))"

definition encrypt_json :: "'k runtime_crypto \<Rightarrow> json \<Rightarrow> (channel, crypto_error, json) step" where
  "encrypt_json rc v = sbind (slift (canonical_bytes v)) (encrypt rc)"

text \<open>The counter text is a decimal number of up to twenty digits without leading zeros.\<close>

definition counter_text_ok :: "jstr \<Rightarrow> bool" where
  "counter_text_ok s =
     (s = [48] \<or> (s \<noteq> [] \<and> hd s \<noteq> 48 \<and> list_all is_digit_unit s \<and> length s \<le> 20))"

definition without_ciphertext :: "json \<Rightarrow> json" where
  "without_ciphertext f = JObj (filter (\<lambda>p. fst p \<noteq> js ''ciphertext'') (ofields f))"

definition open_frame :: "'k runtime_crypto \<Rightarrow> channel \<Rightarrow> json \<Rightarrow> crypto_error + bytes" where
  "open_frame rc ch f =
     require (is_obj f) Invalid_secure_frame (
     require (only_keys f [''v'', ''desktopId'', ''deviceId'', ''connectionId'', ''direction'', ''counter'',
         ''ciphertextLength'', ''ciphertext'']) Invalid_secure_frame (
     require (field f ''v'' = Some (JInt 1) \<and> field f ''desktopId'' = Some (JStr (ct_desktopId (ch_context ch)))
         \<and> field f ''deviceId'' = Some (JStr (ct_deviceId (ch_context ch)))
         \<and> field f ''connectionId'' = Some (JStr (ct_connectionId (ch_context ch)))
         \<and> field f ''direction'' = Some (JStr (js (direction_text (ch_receiveDirection ch))))) Invalid_secure_frame (
     case as_str (field f ''counter'') of
       None \<Rightarrow> Inl Invalid_secure_frame
     | Some t \<Rightarrow>
         require (counter_text_ok t) Invalid_secure_frame (
         require (nat_of_digits 0 t = ch_receiveCounter ch) Replay_or_out_of_order (
         case as_int (field f ''ciphertextLength'') of
           None \<Rightarrow> Inl Frame_too_large
         | Some l \<Rightarrow>
             require (0 \<le> l \<and> l \<le> int MAX_SECURE_PLAINTEXT_BYTES) Frame_too_large (
             ebind (read_b64url (field f ''ciphertext'') None) (\<lambda>combined.
             require (int (length combined) = l + 16) Invalid_secure_frame (
             ebind (transport_nonce (nat_of_digits 0 t)) (\<lambda>nonce.
             ebind (canonical_bytes (without_ciphertext f)) (\<lambda>aad.
               aead_decrypt (rc_native rc) (ch_receiveKey ch) nonce aad combined))))))))))"

text \<open>\<open>decrypt\<close> of a frame to a buffer and to a value; a payload that does not parse is still consumed.\<close>

definition decrypt :: "'k runtime_crypto \<Rightarrow> json \<Rightarrow> (channel, crypto_error, bytes) step" where
  "decrypt rc f ch =
     (case open_frame rc ch f of
        Inl e \<Rightarrow> (ch, Inl e)
      | Inr p \<Rightarrow> (ch\<lparr>ch_receiveCounter := ch_receiveCounter ch + 1\<rparr>, Inr p))"

definition decrypt_json :: "'k runtime_crypto \<Rightarrow> json \<Rightarrow> (channel, crypto_error, json) step" where
  "decrypt_json rc f =
     sbind (decrypt rc f) (\<lambda>p. slift (case parse_bytes rc p of None \<Rightarrow> Inl Invalid_secure_payload | Some v \<Rightarrow> Inr v))"

section \<open>Confirmation\<close>

definition SAS_INFO :: bytes where
  "SAS_INFO = ascii_bytes ''transcript-authentication-phrase''"

definition sas_word :: "byte \<Rightarrow> jstr" where
  "sas_word b = js (SAS_ADJECTIVES ! unat (drop_bit 4 b)) @ 45 # js (SAS_NOUNS ! unat (b AND 15))"

definition sas_words :: "'k runtime_crypto \<Rightarrow> bytes \<Rightarrow> jstr list" where
  "sas_words rc handshake_hash =
     map sas_word (take 4 (rc_hkdf rc handshake_hash (rc_sha256 rc (ascii_bytes ''kaisola-companion-sas-v1'')) SAS_INFO))"

definition key_confirmation_payload :: "party \<Rightarrow> bytes \<Rightarrow> json" where
  "key_confirmation_payload role handshake_hash =
     obj [(''type'', Some (JStr (js ''key-confirm''))), (''role'', Some (JStr (js (party_text role)))),
          (''transcriptHash'', Some (JStr (b64url handshake_hash)))]"

definition make_key_confirmation ::
  "'k runtime_crypto \<Rightarrow> party \<Rightarrow> bytes \<Rightarrow> (channel, crypto_error, json) step" where
  "make_key_confirmation rc role handshake_hash = encrypt_json rc (key_confirmation_payload role handshake_hash)"

definition verify_key_confirmation ::
  "'k runtime_crypto \<Rightarrow> json \<Rightarrow> party \<Rightarrow> bytes \<Rightarrow> (channel, crypto_error, unit) step" where
  "verify_key_confirmation rc f expected_role handshake_hash =
     sbind (decrypt_json rc f) (\<lambda>payload.
     slift (case canonical_json payload of
         None \<Rightarrow> Inl Invalid_canonical_value
       | Some t \<Rightarrow>
           require (canonical_json (key_confirmation_payload expected_role handshake_hash) = Some t)
             Key_confirmation_failed (Inr ())))"

section \<open>Frames with the same properties\<close>

text \<open>Two objects are the same data when they differ only in the order of their properties.\<close>

definition same_fields :: "json \<Rightarrow> json \<Rightarrow> bool" where
  "same_fields f g \<longleftrightarrow> is_obj f \<and> is_obj g \<and> distinct (okeys f) \<and> distinct (okeys g)
     \<and> set (ofields f) = set (ofields g)"

lemma same_fields_refl: "is_obj f \<Longrightarrow> distinct (okeys f) \<Longrightarrow> same_fields f f"
  by (simp add: same_fields_def)

lemma same_fields_field: "same_fields f g \<Longrightarrow> field f k = field g k"
  using map_of_inject_set [of "ofields f" "ofields g"]
  by (simp add: same_fields_def field_def okeys_def)

lemma same_fields_keys: "same_fields f g \<Longrightarrow> only_keys f ks = only_keys g ks"
  by (auto simp: same_fields_def only_keys_def okeys_def list_all_iff)

lemma canonical_json_same:
  assumes "set ps = set qs" "distinct (map fst ps)" "distinct (map fst qs)"
  shows "canonical_json (JObj ps) = canonical_json (JObj qs)"
proof -
  let ?f = "\<lambda>p. (fst p, map_option (\<lambda>t. quote (fst p) @ 58 # t) (canonical_json (snd p)))"
  have d: "distinct (map fst (map ?f ps))" "distinct (map fst (map ?f qs))" using assms by (simp_all add: comp_def)
  have "mset ps = mset qs"
    using assms by (simp add: set_eq_iff_mset_eq_distinct [symmetric] distinct_map)
  then have "mset (map ?f ps) = mset (map ?f qs)" by simp
  moreover have "inj_on fst (set (map ?f ps))" using d(1) by (simp only: distinct_map)
  ultimately have "sort_key fst (map ?f ps) = sort_key fst (map ?f qs)"
    by (intro sort_key_inj_key_eq) (use d in \<open>simp_all add: distinct_map\<close>)
  then show ?thesis by simp
qed

lemma same_fields_header:
  assumes "same_fields f g"
  shows "canonical_bytes (without_ciphertext f) = canonical_bytes (without_ciphertext g)"
proof -
  have "canonical_json (without_ciphertext f) = canonical_json (without_ciphertext g)"
    unfolding without_ciphertext_def
    by (rule canonical_json_same)
      (use assms in \<open>auto simp: same_fields_def okeys_def distinct_map_filter\<close>)
  then show ?thesis by (simp add: canonical_bytes_def)
qed

lemma open_frame_same:
  assumes "same_fields f g"
  shows "open_frame rc ch f = open_frame rc ch g"
proof -
  have "is_obj f = is_obj g" using assms by (simp add: same_fields_def)
  then show ?thesis
    unfolding open_frame_def same_fields_field [OF assms] same_fields_keys [OF assms] same_fields_header [OF assms]
    by (rule arg_cong)
qed

section \<open>Counters as text\<close>

lemma digits_of_nat_of_digits:
  "list_all is_digit_unit t \<Longrightarrow> t \<noteq> [] \<Longrightarrow> (hd t = 48 \<longrightarrow> length t = 1) \<Longrightarrow> digits_of (nat_of_digits 0 t) = t"
proof (induction t rule: rev_induct)
  case (snoc u ys)
  have u: "48 \<le> unat u" "unat u \<le> 57" using snoc.prems by (auto simp: is_digit_unit_def word_le_nat_alt)
  let ?n = "nat_of_digits 0 ys"
  have n: "nat_of_digits 0 (ys @ [u]) = 10 * ?n + (unat u - 48)" by (simp add: nat_of_digits_append)
  have last: "(of_nat (48 + (unat u - 48)) :: 16 word) = u" using u by simp
  show ?case
  proof (cases "ys = []")
    case True
    then show ?thesis using u last by (simp add: digits_of.simps)
  next
    case False
    then have ys: "hd ys \<noteq> 48" "digits_of ?n = ys" using snoc by auto
    have "?n \<noteq> 0"
    proof
      assume "?n = 0"
      then have "ys = [48]" using ys(2) by (simp add: digits_of.simps)
      then show False using ys(1) by simp
    qed
    moreover obtain m where m: "unat u - 48 = m" "m < 10" using u by simp
    then have "(10 * ?n + m) div 10 = ?n" "(10 * ?n + m) mod 10 = m" by simp_all
    ultimately have "digits_of (10 * ?n + m) = digits_of ?n @ [of_nat (48 + m)]"
      by (simp only: digits_of.simps [of "10 * ?n + m"]) simp
    then have "digits_of (10 * ?n + (unat u - 48)) = digits_of ?n @ [of_nat (48 + (unat u - 48))]"
      by (simp only: m)
    then show ?thesis by (simp only: n ys(2) last)
  qed
qed simp

lemma counter_text_canonical: "counter_text_ok t \<Longrightarrow> digits_of (nat_of_digits 0 t) = t"
  by (rule digits_of_nat_of_digits) (auto simp: counter_text_ok_def is_digit_unit_def)

lemma counter_text_digits_of: "n \<le> 2 ^ 64 - 1 \<Longrightarrow> counter_text_ok (digits_of n)"
proof -
  assume "n \<le> 2 ^ 64 - 1"
  then have "n < 10 ^ 20" by simp
  then have "length (digits_of n) \<le> 20" by (subst length_digits_of) simp
  moreover have "digits_of n = [48]" if "hd (digits_of n) = 48"
    using digits_ok_digits_of [of n] that by (cases "digits_of n") (auto simp: digits_ok_def)
  ultimately show ?thesis using digits_of_digits [of n] by (auto simp: counter_text_ok_def)
qed

section \<open>What is opened is what was sealed\<close>

lemma secure_frame_fields:
  "ofields (secure_frame c d n l combined) =
    [(js ''v'', JInt 1), (js ''desktopId'', JStr (ct_desktopId c)), (js ''deviceId'', JStr (ct_deviceId c)),
     (js ''connectionId'', JStr (ct_connectionId c)), (js ''direction'', JStr (js (direction_text d))),
     (js ''counter'', JStr (digits_of n)), (js ''ciphertextLength'', JInt l), (js ''ciphertext'', JStr (b64url combined))]"
  by (simp add: secure_frame_def secure_header_def obj_def)

lemma secure_frame_distinct: "distinct (okeys (secure_frame c d n l combined))"
  by (simp add: okeys_def secure_frame_fields)

lemma secure_frame_obj [simp]: "is_obj (secure_frame c d n l combined)"
  by (simp add: secure_frame_def)

lemma secure_frame_field [simp]:
  "field (secure_frame c d n l combined) ''v'' = Some (JInt 1)"
  "field (secure_frame c d n l combined) ''desktopId'' = Some (JStr (ct_desktopId c))"
  "field (secure_frame c d n l combined) ''deviceId'' = Some (JStr (ct_deviceId c))"
  "field (secure_frame c d n l combined) ''connectionId'' = Some (JStr (ct_connectionId c))"
  "field (secure_frame c d n l combined) ''direction'' = Some (JStr (js (direction_text d)))"
  "field (secure_frame c d n l combined) ''counter'' = Some (JStr (digits_of n))"
  "field (secure_frame c d n l combined) ''ciphertextLength'' = Some (JInt l)"
  "field (secure_frame c d n l combined) ''ciphertext'' = Some (JStr (b64url combined))"
  by (simp_all add: secure_frame_def secure_header_def)

lemma secure_frame_keys [simp]:
  "only_keys (secure_frame c d n l combined) [''v'', ''desktopId'', ''deviceId'', ''connectionId'', ''direction'',
     ''counter'', ''ciphertextLength'', ''ciphertext'']"
  by (simp add: secure_frame_def secure_header_def)

lemma without_ciphertext_frame [simp]:
  "without_ciphertext (secure_frame c d n l combined) = obj (secure_header c d n l)"
  by (simp add: without_ciphertext_def secure_frame_fields) (simp add: secure_header_def obj_def)

lemma header_plain: "is_safe l \<Longrightarrow> json_plain (obj (secure_header c d n l))"
  by (simp add: secure_header_def obj_def is_array_index_def is_safe_def max_safe_integer_def exec_simps)

text \<open>The eight properties that \<open>decrypt\<close> checks determine the frame.\<close>

lemma frame_determined:
  assumes "is_obj f" "distinct (okeys f)"
    and "only_keys f [''v'', ''desktopId'', ''deviceId'', ''connectionId'', ''direction'', ''counter'',
         ''ciphertextLength'', ''ciphertext'']"
    and "field f ''v'' = Some (JInt 1)" "field f ''desktopId'' = Some (JStr (ct_desktopId c))"
      "field f ''deviceId'' = Some (JStr (ct_deviceId c))" "field f ''connectionId'' = Some (JStr (ct_connectionId c))"
      "field f ''direction'' = Some (JStr (js (direction_text d)))" "field f ''counter'' = Some (JStr (digits_of n))"
      "field f ''ciphertextLength'' = Some (JInt l)" "field f ''ciphertext'' = Some (JStr (b64url combined))"
  shows "same_fields f (secure_frame c d n l combined)"
proof -
  note known = assms(4-) [unfolded field_def]
  have "p \<in> set (ofields (secure_frame c d n l combined))" if "p \<in> set (ofields f)" for p
  proof -
    have v: "map_of (ofields f) (fst p) = Some (snd p)" using that assms(2) by (simp add: okeys_def)
    have "fst p \<in> set (map js [''v'', ''desktopId'', ''deviceId'', ''connectionId'', ''direction'', ''counter'',
         ''ciphertextLength'', ''ciphertext''])"
      using assms(3) that by (simp add: only_keys_def okeys_def list_all_iff)
    then obtain k where j: "fst p = js k" and k: "k \<in> {''v'', ''desktopId'', ''deviceId'', ''connectionId'',
        ''direction'', ''counter'', ''ciphertextLength'', ''ciphertext''}"
      unfolding set_map by (elim imageE) (simp only: set_simps)
    have w: "map_of (ofields f) (js k) = Some (snd p)" using v by (simp only: j)
    have "(js k, snd p) \<in> set (ofields (secure_frame c d n l combined))"
      using k w known by (elim insertE emptyE) (simp_all add: secure_frame_fields)
    then show ?thesis by (simp only: j [symmetric]) simp
  qed
  moreover have "p \<in> set (ofields f)" if "p \<in> set (ofields (secure_frame c d n l combined))" for p
    using that known [THEN map_of_SomeD] by (simp only: secure_frame_fields set_simps) (elim insertE emptyE; simp)
  ultimately show ?thesis
    using assms(1,2) secure_frame_distinct unfolding same_fields_def by auto
qed

definition paired :: "channel \<Rightarrow> channel \<Rightarrow> bool" where
  "paired s r \<longleftrightarrow> ch_sendKey s = ch_receiveKey r \<and> ch_context s = ch_context r
     \<and> ch_sendDirection s = ch_receiveDirection r \<and> ch_sendCounter s = ch_receiveCounter r"

lemma encrypt_Inr:
  "encrypt rc p s = (s', Inr f) \<longleftrightarrow>
   length p \<le> MAX_SECURE_PLAINTEXT_BYTES \<and> ch_sendCounter s \<le> 2 ^ 64 - 1
   \<and> s' = s\<lparr>ch_sendCounter := ch_sendCounter s + 1\<rparr>
   \<and> (\<exists>aad combined. canonical_bytes (obj (secure_header (ch_context s) (ch_sendDirection s) (ch_sendCounter s) (int (length p)))) = Inr aad
      \<and> aead_encrypt (rc_native rc) (ch_sendKey s) (noise_nonce (ch_sendCounter s)) aad p = Inr combined
      \<and> f = secure_frame (ch_context s) (ch_sendDirection s) (ch_sendCounter s) (int (length p)) combined)"
  by (auto simp: encrypt_def Let_def transport_nonce_def require_eq_Inr ebind_eq_Inr split: sum.splits)

lemma open_secure_frame:
  assumes law: "key_law rc" and p: "paired s r"
  shows "open_frame rc r (secure_frame (ch_context r) (ch_receiveDirection r) (ch_receiveCounter r) l combined) = Inr x
    \<longleftrightarrow> l = int (length x) \<and> (\<exists>s'. encrypt rc x s = (s', Inr (secure_frame (ch_context r) (ch_receiveDirection r) (ch_receiveCounter r) l combined)))"
    (is "open_frame rc r ?f = Inr x \<longleftrightarrow> ?right")
proof -
  note cipher = aead_of_native [OF key_lawD(9) [OF law]]
  have inj: "secure_frame c d n l combined = secure_frame c d n l' combined' \<Longrightarrow> l = l' \<and> combined = combined'" for c d n l' combined'
    by (drule arg_cong [where f = ofields]) (simp add: secure_frame_fields)
  have ch: "ch_sendKey s = ch_receiveKey r" "ch_context s = ch_context r"
    "ch_sendDirection s = ch_receiveDirection r" "ch_sendCounter s = ch_receiveCounter r"
    using p by (simp_all add: paired_def)
  let ?n = "ch_receiveCounter r"
  let ?aad = "canonical_bytes (obj (secure_header (ch_context r) (ch_receiveDirection r) ?n l))"
  show ?thesis
  proof
    assume "open_frame rc r ?f = Inr x"
    then obtain aad where l: "0 \<le> l" "l \<le> int MAX_SECURE_PLAINTEXT_BYTES" "int (length combined) = l + 16"
      and n: "?n \<le> 2 ^ 64 - 1" and aad: "?aad = Inr aad"
      and d: "aead_decrypt (rc_native rc) (ch_receiveKey r) (noise_nonce ?n) aad combined = Inr x"
      unfolding open_frame_def
      by (auto simp: transport_nonce_def read_b64url_Inr elim!: ebind_InrE require_InrE split: if_splits)
    have e: "aead_encrypt (rc_native rc) (ch_receiveKey r) (noise_nonce ?n) aad x = Inr combined"
      using d by (simp add: aead.unseal_iff [OF cipher])
    then have "l = int (length x)" using l(3) aead.seal_length [OF cipher e] by simp
    then show ?right using l n aad e by (auto simp: encrypt_Inr ch)
  next
    assume ?right
    then obtain aad combined' where l: "l = int (length x)" and b: "length x \<le> MAX_SECURE_PLAINTEXT_BYTES" "?n \<le> 2 ^ 64 - 1"
      and aad: "?aad = Inr aad" and e: "aead_encrypt (rc_native rc) (ch_receiveKey r) (noise_nonce ?n) aad x = Inr combined'"
      and f: "?f = secure_frame (ch_context r) (ch_receiveDirection r) ?n l combined'"
      by (auto simp: encrypt_Inr ch)
    have combined': "combined' = combined" using inj [OF f] by simp
    have d: "aead_decrypt (rc_native rc) (ch_receiveKey r) (noise_nonce ?n) aad combined = Inr x"
      using e by (simp add: aead.unseal_iff [OF cipher] combined')
    have len: "length combined = length x + 16" using aead.seal_length [OF cipher e] by (simp add: combined')
    then have "combined \<noteq> []" by auto
    moreover have "is_safe l" using b(1) by (simp add: l is_safe_def max_safe_integer_def MAX_SECURE_PLAINTEXT_BYTES_def)
    ultimately show "open_frame rc r ?f = Inr x"
      using b counter_text_digits_of [OF b(2)] aad d len
      by (simp add: open_frame_def transport_nonce_def l)
  qed
qed

text \<open>
  The exact set of frames a receiver opens to a plaintext: those that carry the data of the frame
  the paired sender makes of it.
\<close>

lemma decrypt_exact:
  assumes law: "key_law rc" and p: "paired s r" and f: "distinct (okeys f)"
  shows "decrypt rc f r = (r', Inr x) \<longleftrightarrow>
    r' = r\<lparr>ch_receiveCounter := ch_receiveCounter r + 1\<rparr> \<and> (\<exists>s' g. encrypt rc x s = (s', Inr g) \<and> same_fields f g)"
proof -
  have ch: "ch_context s = ch_context r" "ch_sendDirection s = ch_receiveDirection r" "ch_sendCounter s = ch_receiveCounter r"
    using p by (simp_all add: paired_def)
  let ?g = "secure_frame (ch_context r) (ch_receiveDirection r) (ch_receiveCounter r)"
  have "open_frame rc r f = Inr x \<longleftrightarrow> (\<exists>s' g. encrypt rc x s = (s', Inr g) \<and> same_fields f g)"
  proof
    assume o: "open_frame rc r f = Inr x"
    then obtain t l combined where "is_obj f"
        "only_keys f [''v'', ''desktopId'', ''deviceId'', ''connectionId'', ''direction'', ''counter'',
           ''ciphertextLength'', ''ciphertext'']"
        "field f ''v'' = Some (JInt 1)" "field f ''desktopId'' = Some (JStr (ct_desktopId (ch_context r)))"
        "field f ''deviceId'' = Some (JStr (ct_deviceId (ch_context r)))"
        "field f ''connectionId'' = Some (JStr (ct_connectionId (ch_context r)))"
        "field f ''direction'' = Some (JStr (js (direction_text (ch_receiveDirection r))))"
        "field f ''counter'' = Some (JStr t)" "counter_text_ok t" "nat_of_digits 0 t = ch_receiveCounter r"
        "field f ''ciphertextLength'' = Some (JInt l)" "field f ''ciphertext'' = Some (JStr (b64url combined))"
      unfolding open_frame_def
      by (elim require_InrE) (auto simp: read_b64url_Inr elim!: ebind_InrE require_InrE split: option.splits if_splits)
    moreover from this have "t = digits_of (ch_receiveCounter r)" using counter_text_canonical [of t] by simp
    ultimately have same: "same_fields f (?g l combined)" using f by (intro frame_determined) simp_all
    then have "open_frame rc r (?g l combined) = Inr x" using o by (simp add: open_frame_same [OF same])
    then show "\<exists>s' g. encrypt rc x s = (s', Inr g) \<and> same_fields f g"
      using same by (auto simp: open_secure_frame [OF law p])
  next
    assume "\<exists>s' g. encrypt rc x s = (s', Inr g) \<and> same_fields f g"
    then obtain s' g where e: "encrypt rc x s = (s', Inr g)" and same: "same_fields f g" by blast
    obtain combined where g: "g = ?g (int (length x)) combined" using e by (auto simp: encrypt_Inr ch)
    have "open_frame rc r g = Inr x"
      unfolding g open_secure_frame [OF law p] using e g by blast
    then show "open_frame rc r f = Inr x" by (simp add: open_frame_same [OF same])
  qed
  then show ?thesis by (auto simp: decrypt_def split: sum.splits)
qed

lemma decrypt_Inl: "decrypt rc f r = (r', Inl e) \<Longrightarrow> r' = r"
  by (auto simp: decrypt_def split: sum.splits)

section \<open>Streams\<close>

text \<open>Both ends of a handshake get channels that fit together, in both directions.\<close>

lemma created_channels_paired:
  assumes "create_secure_channel rc x c Device_party = Inr a" "create_secure_channel rc y c Desktop_party = Inr b"
    and "hr_hash x = hr_hash y" "hr_keys x = hr_keys y"
  shows "paired a b" "paired b a"
  using assms
  by (auto simp: create_secure_channel_def derive_connection_keys_def new_channel_def paired_def
      elim!: ebind_InrE require_InrE)

fun send_all :: "'k runtime_crypto \<Rightarrow> bytes list \<Rightarrow> (channel, crypto_error, json list) step" where
  "send_all rc [] = sreturn []"
| "send_all rc (p # ps) = sbind (encrypt rc p) (\<lambda>f. sbind (send_all rc ps) (\<lambda>fs. sreturn (f # fs)))"

text \<open>The frames a receiver accepts among those it is given, with their plaintexts.\<close>

fun receive_all :: "'k runtime_crypto \<Rightarrow> json list \<Rightarrow> channel \<Rightarrow> (json \<times> bytes) list" where
  "receive_all rc [] r = []"
| "receive_all rc (f # fs) r =
     (case decrypt rc f r of
        (r', Inl e) \<Rightarrow> receive_all rc fs r'
      | (r', Inr p) \<Rightarrow> (f, p) # receive_all rc fs r')"

lemma paired_step:
  assumes "paired s r" "encrypt rc x s = (s', Inr g)"
  shows "paired s' (r\<lparr>ch_receiveCounter := ch_receiveCounter r + 1\<rparr>)"
  using assms by (auto simp: paired_def encrypt_Inr)

lemma receive_all_stream:
  assumes law: "key_law rc"
  shows "paired s r \<Longrightarrow> list_all (\<lambda>f. distinct (okeys f)) fs \<Longrightarrow>
    \<exists>s' gs. send_all rc (map snd (receive_all rc fs r)) s = (s', Inr gs)
      \<and> list_all2 same_fields (map fst (receive_all rc fs r)) gs"
proof (induction fs arbitrary: s r)
  case (Cons f fs)
  obtain r' x where d: "decrypt rc f r = (r', x)" by (cases "decrypt rc f r")
  show ?case
  proof (cases x)
    case (Inl e)
    then show ?thesis using Cons d decrypt_Inl [of rc f r r' e] by simp
  next
    case (Inr p)
    then obtain s' g where r': "r' = r\<lparr>ch_receiveCounter := ch_receiveCounter r + 1\<rparr>"
      and e: "encrypt rc p s = (s', Inr g)" and same: "same_fields f g"
      using d decrypt_exact [OF law Cons.prems(1), of f r' p] Cons.prems(2) by auto
    have "paired s' r'" unfolding r' by (rule paired_step [OF Cons.prems(1) e])
    then obtain s'' gs where "send_all rc (map snd (receive_all rc fs r')) s' = (s'', Inr gs)"
      "list_all2 same_fields (map fst (receive_all rc fs r')) gs"
      using Cons.IH Cons.prems(2) by fastforce
    then show ?thesis using e same by (auto simp: d Inr sbind_eq_Inr)
  qed
qed simp

lemma frames_distinct: "send_all rc ps s = (s', Inr gs) \<Longrightarrow> list_all (\<lambda>g. is_obj g \<and> distinct (okeys g)) gs"
  by (induction ps arbitrary: s gs) (auto simp: sbind_eq_Inr encrypt_Inr secure_frame_distinct)

lemma receive_all_sent:
  assumes law: "key_law rc"
  shows "paired s r \<Longrightarrow> send_all rc ps s = (s', Inr gs) \<Longrightarrow> map snd (receive_all rc gs r) = ps"
proof (induction ps arbitrary: s r gs)
  case (Cons p ps)
  then obtain g hs t where e: "encrypt rc p s = (t, Inr g)" and rest: "send_all rc ps t = (s', Inr hs)" and gs: "gs = g # hs"
    by (auto simp: sbind_eq_Inr)
  have g: "distinct (okeys g)" "is_obj g" using e by (auto simp: encrypt_Inr secure_frame_distinct)
  have "decrypt rc g r = (r\<lparr>ch_receiveCounter := ch_receiveCounter r + 1\<rparr>, Inr p)"
    using decrypt_exact [OF law Cons.prems(1) g(1)] e same_fields_refl [OF g(2,1)] by blast
  then show ?case using Cons.IH [OF paired_step [OF Cons.prems(1) e] rest] by (simp add: gs)
qed (simp)

lemma sent_counters:
  "send_all rc ps s = (s', Inr gs) \<Longrightarrow> i < length gs \<Longrightarrow>
   field (gs ! i) ''counter'' = Some (JStr (digits_of (ch_sendCounter s + i)))"
proof (induction ps arbitrary: s gs i)
  case (Cons p ps)
  then obtain g hs t where e: "encrypt rc p s = (t, Inr g)" and rest: "send_all rc ps t = (s', Inr hs)" and gs: "gs = g # hs"
    by (auto simp: sbind_eq_Inr)
  show ?case
  proof (cases i)
    case 0
    then show ?thesis using e by (auto simp: gs encrypt_Inr)
  next
    case (Suc j)
    then have "field (hs ! j) ''counter'' = Some (JStr (digits_of (ch_sendCounter t + j)))"
      using Cons.IH [OF rest] Cons.prems(2) by (simp add: gs)
    moreover have "ch_sendCounter t = ch_sendCounter s + 1" using e by (auto simp: encrypt_Inr)
    ultimately show ?thesis by (simp add: gs Suc)
  qed
qed simp

lemma send_all_same:
  assumes law: "key_law rc"
  shows "paired s r \<Longrightarrow> send_all rc qs s = (s', Inr hs) \<Longrightarrow> send_all rc ps s = (s'', Inr gs) \<Longrightarrow>
    length hs \<le> length gs \<Longrightarrow> list_all2 same_fields hs (take (length hs) gs) \<Longrightarrow> prefix qs ps"
proof (induction qs arbitrary: s r ps hs gs)
  case (Cons q qs)
  obtain h hs' t where h: "encrypt rc q s = (t, Inr h)" "send_all rc qs t = (s', Inr hs')" "hs = h # hs'"
    using Cons.prems(2) by (auto simp: sbind_eq_Inr)
  then obtain p ps' where ps: "ps = p # ps'"
    using Cons.prems(3,4) by (cases ps) auto
  then obtain g gs' u where g: "encrypt rc p s = (u, Inr g)" "send_all rc ps' u = (s'', Inr gs')" "gs = g # gs'"
    using Cons.prems(3) by (auto simp: sbind_eq_Inr)
  have same: "same_fields h g" "list_all2 same_fields hs' (take (length hs') gs')" "length hs' \<le> length gs'"
    using Cons.prems(4,5) by (simp_all add: h(3) g(3))
  let ?r = "r\<lparr>ch_receiveCounter := ch_receiveCounter r + 1\<rparr>"
  have f: "distinct (okeys h)" "distinct (okeys g)" "is_obj g" "is_obj h" using same(1) by (simp_all add: same_fields_def)
  have "decrypt rc h r = (?r, Inr q)"
    using decrypt_exact [OF law Cons.prems(1) f(1)] h(1) same_fields_refl [OF f(4,1)] by blast
  moreover have "decrypt rc h r = (?r, Inr p)"
    using decrypt_exact [OF law Cons.prems(1) f(1)] g(1) same(1) by blast
  ultimately have q: "q = p" by simp
  have tu: "t = u" using h(1) g(1) by (simp add: q)
  have "prefix qs ps'"
    by (rule Cons.IH [OF paired_step [OF Cons.prems(1) h(1)] h(2) g(2) [folded tu] same(3,2)])
  then show ?case by (simp add: q ps)
qed simp

lemma same_fields_shift: "same_fields f g \<Longrightarrow> same_fields f h \<Longrightarrow> same_fields g h"
  by (simp add: same_fields_def)

lemma sent_length: "send_all rc ps s = (s', Inr gs) \<Longrightarrow> length gs = length ps"
  by (induction ps arbitrary: s gs) (auto simp: sbind_eq_Inr)

lemma counters_in_order:
  assumes a: "\<forall>i < length as. field (as ! i) ''counter'' = Some (JStr (digits_of (c + i)))"
    and g: "\<forall>i < length gs. field (gs ! i) ''counter'' = Some (JStr (digits_of (c + i)))"
    and sent: "\<forall>f \<in> set as. \<exists>h \<in> set gs. same_fields f h"
  shows "length as \<le> length gs \<and> list_all2 same_fields as (take (length as) gs)"
proof -
  have at: "i < length gs \<and> same_fields (as ! i) (gs ! i)" if i: "i < length as" for i
  proof -
    obtain h where "h \<in> set gs" "same_fields (as ! i) h" using sent i by (meson nth_mem)
    then obtain j where j: "j < length gs" "same_fields (as ! i) (gs ! j)" by (metis in_set_conv_nth)
    then have "digits_of (c + i) = digits_of (c + j)"
      using a i g same_fields_field [OF j(2), of "''counter''"] by auto
    then have "i = j" using nat_of_digits_digits_of by (metis add_left_cancel)
    then show ?thesis using j by simp
  qed
  have "length as \<le> length gs" using at [of "length as - 1"] by (cases as) auto
  then show ?thesis using at by (auto simp: list_all2_conv_all_nth)
qed


lemma encrypt_total:
  assumes "key_law rc" "length (ch_sendKey s) = 32" "ch_sendCounter s \<le> 2 ^ 64 - 1" "length p \<le> MAX_SECURE_PLAINTEXT_BYTES"
  shows "\<exists>s' g. encrypt rc p s = (s', Inr g)"
proof -
  have "is_safe (int (length p))"
    using assms(4) by (simp add: is_safe_def max_safe_integer_def MAX_SECURE_PLAINTEXT_BYTES_def)
  then obtain aad where "canonical_bytes (obj (secure_header (ch_context s) (ch_sendDirection s) (ch_sendCounter s)
      (int (length p)))) = Inr aad"
    using canonical_bytes_plain [OF header_plain] by blast
  moreover obtain c where "aead_encrypt (rc_native rc) (ch_sendKey s) (noise_nonce (ch_sendCounter s)) aad p = Inr c"
    using aead_encrypt_total [OF key_lawD(9) [OF assms(1)] assms(2) length_noise_nonce] assms(4)
    by (fastforce simp: MAX_SECURE_PLAINTEXT_BYTES_def)
  ultimately show ?thesis using assms(3,4) by (auto simp: encrypt_Inr)
qed

text \<open>
  C17. What a channel delivers, in four parts, for a receiver paired with a sender. (1) Whatever list of
  frames (objects without a repeated property) the receiver is given, those it accepts are, as data and
  in order, the frames the sender would make of the accepted plaintexts; (2) their counters run on from
  the receiver's counter without gap or repetition, so no frame is accepted twice or out of turn.
  (3) The frames of a sender, received in order, give back exactly what was sent. (4) When the sender
  has sent a list of plaintexts and each frame the receiver accepts carries the data of some frame
  that was sent (that nobody else can make an acceptable frame is the cipher's part and not stated
  here), the plaintexts delivered are an initial part of those sent, however the frames were
  dropped, repeated, reordered or mixed with others on the way.
\<close>

theorem secure_channel_stream:
  assumes law: "key_law rc" and p: "paired s r" and fs: "list_all (\<lambda>f. distinct (okeys f)) fs"
  shows "(\<exists>s' gs. send_all rc (map snd (receive_all rc fs r)) s = (s', Inr gs)
        \<and> list_all2 same_fields (map fst (receive_all rc fs r)) gs)
    \<and> (\<forall>i < length (receive_all rc fs r). field (fst (receive_all rc fs r ! i)) ''counter''
          = Some (JStr (digits_of (ch_receiveCounter r + i))))
    \<and> (\<forall>ps s' gs. send_all rc ps s = (s', Inr gs) \<longrightarrow> map snd (receive_all rc gs r) = ps)
    \<and> (\<forall>ps s' gs. send_all rc ps s = (s', Inr gs)
          \<and> (\<forall>f \<in> set (map fst (receive_all rc fs r)). \<exists>g \<in> set gs. same_fields f g)
        \<longrightarrow> prefix (map snd (receive_all rc fs r)) ps)"
proof -
  let ?acc = "receive_all rc fs r"
  obtain t hs where sent: "send_all rc (map snd ?acc) s = (t, Inr hs)" and same: "list_all2 same_fields (map fst ?acc) hs"
    using receive_all_stream [OF law p fs] by blast
  have c: "ch_sendCounter s = ch_receiveCounter r" using p by (simp add: paired_def)
  have counters: "\<forall>i < length ?acc. field (fst (?acc ! i)) ''counter'' = Some (JStr (digits_of (ch_receiveCounter r + i)))"
  proof (intro allI impI)
    fix i assume "i < length ?acc"
    then have i: "i < length hs" "same_fields (fst (?acc ! i)) (hs ! i)"
      using same by (auto simp: list_all2_conv_all_nth)
    then show "field (fst (?acc ! i)) ''counter'' = Some (JStr (digits_of (ch_receiveCounter r + i)))"
      using sent_counters [OF sent i(1)] same_fields_field [OF i(2)] c by simp
  qed
  have "prefix (map snd ?acc) ps" if gs: "send_all rc ps s = (s', Inr gs)"
      "\<forall>f \<in> set (map fst ?acc). \<exists>g \<in> set gs. same_fields f g" for ps s' gs
  proof -
    have hs: "length hs = length ?acc" using same by (simp add: list_all2_lengthD [symmetric])
    have "field (hs ! i) ''counter'' = Some (JStr (digits_of (ch_sendCounter s + i)))" if "i < length hs" for i
      by (rule sent_counters [OF sent that])
    moreover have "\<forall>h \<in> set hs. \<exists>g \<in> set gs. same_fields h g"
    proof
      fix h assume "h \<in> set hs"
      then obtain i where "i < length ?acc" "h = hs ! i" by (auto simp: hs in_set_conv_nth)
      then have "same_fields (fst (?acc ! i)) h" "fst (?acc ! i) \<in> set (map fst ?acc)"
        using same by (auto simp: list_all2_conv_all_nth)
      then show "\<exists>g \<in> set gs. same_fields h g" using gs(2) by (blast intro: same_fields_shift)
    qed
    ultimately show ?thesis
      using counters_in_order [of hs "ch_sendCounter s" gs] sent_counters [OF gs(1)]
        send_all_same [OF law p sent gs(1)] by blast
  qed
  then show ?thesis using sent same counters receive_all_sent [OF law p] by blast
qed

definition example_channel :: "direction \<Rightarrow> direction \<Rightarrow> channel" where
  "example_channel send receive =
     \<lparr>ch_sendKey = replicate 32 8, ch_receiveKey = replicate 32 8,
      ch_context = \<lparr>ct_desktopId = js ''m'', ct_deviceId = js ''d'', ct_connectionId = js ''c''\<rparr>,
      ch_sendDirection = send, ch_receiveDirection = receive, ch_sendCounter = 3, ch_receiveCounter = 3\<rparr>"

theorem secure_channel_stream_witness:
  "\<exists>f g s'. send_all example_runtime [[1, 2], [3]] (example_channel Device_to_desktop Desktop_to_device) = (s', Inr [f, g])
    \<and> receive_all example_runtime [g, f, f] (example_channel Desktop_to_device Device_to_desktop) = [(f, [1, 2])]
    \<and> field f ''counter'' = Some (JStr (js ''3'')) \<and> prefix [[1, 2]] [[1, 2], [3 :: byte]]"
proof -
  let ?s = "example_channel Device_to_desktop Desktop_to_device"
  let ?r = "example_channel Desktop_to_device Device_to_desktop"
  have p: "paired ?s ?r" by (simp add: paired_def example_channel_def)
  obtain s1 f where e: "encrypt example_runtime [1, 2] ?s = (s1, Inr f)"
    using encrypt_total [OF example_key_law, of ?s "[1, 2]"] by (auto simp: example_channel_def MAX_SECURE_PLAINTEXT_BYTES_def)
  have s1: "length (ch_sendKey s1) = 32" "ch_sendCounter s1 = 4"
    using e by (auto simp: encrypt_Inr example_channel_def)
  obtain s2 g where e2: "encrypt example_runtime [3] s1 = (s2, Inr g)"
    using encrypt_total [OF example_key_law s1(1), of "[3]"] s1(2) by (auto simp: MAX_SECURE_PLAINTEXT_BYTES_def)
  have sent: "send_all example_runtime [[1, 2], [3]] ?s = (s2, Inr [f, g])" using e e2 by (simp add: sbind_eq_Inr)
  have ok: "distinct (okeys f)" "is_obj f" "distinct (okeys g)" "is_obj g"
    using frames_distinct [OF sent] by simp_all
  have cf: "field f ''counter'' = Some (JStr (digits_of 3))" and cg: "field g ''counter'' = Some (JStr (digits_of 4))"
    using sent_counters [OF sent, of 0] sent_counters [OF sent, of 1] by (simp_all add: example_channel_def)
  let ?r' = "?r\<lparr>ch_receiveCounter := 4\<rparr>" and ?acc = "receive_all example_runtime [g, f, f] ?r"
  have d: "decrypt example_runtime f ?r = (?r', Inr [1, 2])"
    using decrypt_exact [OF example_key_law p ok(1)] e same_fields_refl [OF ok(2,1)] by (auto simp: example_channel_def)
  have all: "\<forall>i < length ?acc. field (fst (?acc ! i)) ''counter'' = Some (JStr (digits_of (3 + i)))"
    and pre: "\<forall>f' \<in> set (map fst ?acc). \<exists>h \<in> set [f, g]. same_fields f' h \<Longrightarrow> prefix (map snd ?acc) [[1, 2], [3]]"
    using secure_channel_stream [OF example_key_law p, of "[g, f, f]"] ok sent by (auto simp: example_channel_def)
  obtain r1 x where g: "decrypt example_runtime g ?r = (r1, x)" by fastforce
  have "\<exists>e. x = Inl e" using all cg by (cases x) (auto simp: g)
  then have first: "decrypt example_runtime g ?r = (?r, x)" "\<exists>e. x = Inl e" using g decrypt_Inl by auto
  obtain r2 y where f2: "decrypt example_runtime f ?r' = (r2, y)" by fastforce
  have "\<exists>e. y = Inl e"
  proof (cases y)
    case (Inr q)
    then have "field f ''counter'' = Some (JStr (digits_of 4))" using all first by (auto simp: d f2)
    then show ?thesis using cf by simp
  qed simp
  then have acc: "?acc = [(f, [1, 2])]" using first f2 by (auto simp: d)
  have "prefix (map snd ?acc) [[1, 2], [3]]" by (rule pre) (use acc same_fields_refl [OF ok(2,1)] in simp)
  then have "prefix [[1, 2]] [[1, 2], [3 :: byte]]" by (simp only: acc list.map snd_conv)
  moreover have "js ''3'' = digits_of 3" by (simp add: digits_of.simps js_def)
  ultimately show ?thesis using sent acc cf by auto
qed
end
