(* ===== verification/Device_Store.thy ===== *)
theory Device_Store
  imports Noise_Agreement
begin

text \<open>
  The paired devices of a desktop, \<open>src/electron/companion/deviceStore.cjs\<close>: the identity of the
  desktop, the device records, the file they are kept in and the live connections of each device.
  Every change is written to the file before it takes effect; when writing fails the change in
  memory is undone and the error passed on. The file is a list of bytes, replaced by a rename and so
  either the old or the new one. Connection callbacks are numbers, and the calls the store makes of
  them are recorded in its state together with the events it emits.
\<close>

section \<open>Records\<close>

datatype device_error =
    Dv_invalid_record
  | Dv_invalid_capabilities
  | Dv_invalid_store
  | Dv_invalid_identity
  | Dv_safe_storage_failed
  | Dv_store_too_large
  | Dv_write_failed
  | Dv_device_exists
  | Dv_device_limit
  | Dv_unknown_device
  | Dv_invalid_name
  | Dv_crypto crypto_error

definition MAX_STORE_BYTES :: nat where "MAX_STORE_BYTES = 1024 * 1024"
definition MAX_PAIRED_DEVICES :: nat where "MAX_PAIRED_DEVICES = 64"

record device =
  de_deviceId :: jstr
  de_displayName :: jstr
  de_identityPublic :: jstr
  de_staticPublic :: jstr
  de_capabilities :: "capability list"
  de_pairedAt :: int
  de_lastSeenAt :: int

definition device_id :: "json option \<Rightarrow> device_error + jstr" where
  "device_id v =
     (case as_str v of
        None \<Rightarrow> Inl Dv_invalid_record
      | Some s \<Rightarrow> require (identifier_ok MAX_ID_LENGTH s) Dv_invalid_record (Inr s))"

text \<open>
  \<open>validateCapabilities\<close>: between one and three different capabilities, \<open>observe\<close> among them, in the
  order of the table.
\<close>

definition device_capabilities :: "bool \<Rightarrow> json option \<Rightarrow> device_error + capability list" where
  "device_capabilities default_observe v =
     (let value = (if nullish v \<and> default_observe then Some (JArr [JStr (js ''observe'')]) else v)
      in case as_arr value of
           None \<Rightarrow> Inl Dv_invalid_capabilities
         | Some xs \<Rightarrow>
             require (1 \<le> length xs \<and> length xs \<le> length CAPABILITIES) Dv_invalid_capabilities (
             require (list_all (\<lambda>x. capability_of x \<noteq> None) xs \<and> distinct xs) Dv_invalid_capabilities (
             let unique = List.map_filter capability_of xs in
             require (Observe \<in> set unique) Dv_invalid_capabilities (
               Inr (filter (\<lambda>c. c \<in> set unique) CAPABILITIES)))))"

text \<open>\<open>validatePublic\<close>: the canonical text of 32 bytes.\<close>

definition device_public :: "json option \<Rightarrow> device_error + jstr" where
  "device_public v =
     (case as_str v of
        None \<Rightarrow> Inl Dv_invalid_record
      | Some s \<Rightarrow>
          require (case from_b64url s of None \<Rightarrow> False | Some b \<Rightarrow> length b = 32) Dv_invalid_record (Inr s))"

definition device_name :: "json option \<Rightarrow> jstr" where
  "device_name v =
     (case as_str v of
        None \<Rightarrow> js ''Kaisola Device''
      | Some s \<Rightarrow> if js_trim s \<noteq> [] then take 80 (js_trim s) else js ''Kaisola Device'')"

definition clean_device_record :: "json option \<Rightarrow> int \<Rightarrow> device_error + device" where
  "clean_device_record v now =
     (case v of
        None \<Rightarrow> Inl Dv_invalid_record
      | Some d \<Rightarrow>
          require (is_obj d) Dv_invalid_record (
          ebind (device_id (field d ''deviceId'')) (\<lambda>i.
          ebind (device_public (field d ''identityPublic'')) (\<lambda>p.
          ebind (device_public (field d ''x25519StaticPublic'')) (\<lambda>x.
          let paired = (case as_int (field d ''pairedAt'') of Some n \<Rightarrow> if n \<ge> 0 then n else now | None \<Rightarrow> now);
              seen = (case as_int (field d ''lastSeenAt'') of Some n \<Rightarrow> if n \<ge> paired then n else paired | None \<Rightarrow> paired) in
          ebind (device_capabilities True (field d ''capabilities'')) (\<lambda>cs.
            Inr \<lparr>de_deviceId = i, de_displayName = device_name (field d ''displayName''), de_identityPublic = p,
                 de_staticPublic = x, de_capabilities = cs, de_pairedAt = paired, de_lastSeenAt = seen\<rparr>))))))"

definition device_json :: "device \<Rightarrow> json" where
  "device_json d =
     obj [(''deviceId'', Some (JStr (de_deviceId d))), (''displayName'', Some (JStr (de_displayName d))),
          (''identityPublic'', Some (JStr (de_identityPublic d))), (''x25519StaticPublic'', Some (JStr (de_staticPublic d))),
          (''capabilities'', Some (JArr (map (\<lambda>c. JStr (js (capability_text c))) (de_capabilities d)))),
          (''pairedAt'', Some (JInt (de_pairedAt d))), (''lastSeenAt'', Some (JInt (de_lastSeenAt d)))]"

section \<open>The store\<close>

text \<open>
  What the store is given: the runtime, \<open>safeStorage\<close> together with the base64 coding of its
  buffers (\<open>None\<close> or an error where it throws), and \<open>localeCompare\<close>.
\<close>

datatype key_kind = Ed25519 | X25519

record 'k store_env =
  se_crypto :: "'k runtime_crypto"
  se_protect :: "'k \<Rightarrow> jstr option"
  se_unprotect :: "key_kind \<Rightarrow> json option \<Rightarrow> device_error + 'k"
  se_collate :: "jstr \<Rightarrow> jstr \<Rightarrow> int"

datatype device_event =
    Ev_paired device
  | Ev_repaired device
  | Ev_capabilities device
  | Ev_renamed device
  | Ev_seen device
  | Ev_connected jstr
  | Ev_disconnected jstr
  | Ev_revoked jstr nat

datatype close_reason = Device_repaired | Device_capabilities_changed | Device_revoked

record 'k device_store =
  dv_identity :: "'k identity"
  dv_devices :: "(jstr, device) jmap"
  dv_connections :: "(jstr, (nat, nat) jmap) jmap"
  dv_file :: "bytes option"
  dv_fresh :: nat
  dv_closed :: "(nat \<times> close_reason) list"
  dv_events :: "device_event list"

type_synonym ('k, 'a) dv_step = "('k device_store, device_error, 'a) step"

definition emit :: "device_event \<Rightarrow> ('k, unit) dv_step" where
  "emit e = smodify (\<lambda>s. s\<lparr>dv_events := dv_events s @ [e]\<rparr>)"

definition desktop_json :: "'k identity \<Rightarrow> json" where
  "desktop_json i =
     obj [(''desktopId'', Some (JStr (id_id i))), (''displayName'', Some (JStr (id_displayName i))),
          (''identityPublic'', Some (JStr (id_identityPublic i))), (''x25519StaticPublic'', Some (JStr (id_staticPublic i))),
          (''keyRecord'', Some (id_keyRecord i))]"

definition store_payload :: "'k identity \<Rightarrow> jstr \<Rightarrow> jstr \<Rightarrow> device list \<Rightarrow> json" where
  "store_payload i ed x devices =
     obj [(''v'', Some (JInt 1)), (''desktop'', Some (desktop_json i)),
          (''protectedPrivate'', Some (obj [(''ed25519'', Some (JStr ed)), (''x25519'', Some (JStr x))])),
          (''devices'', Some (JArr (map device_json devices)))]"

text \<open>
  \<open>#persist\<close>; \<open>writes\<close> says whether the file operations succeed.
\<close>

definition persist :: "'k store_env \<Rightarrow> bool \<Rightarrow> ('k, unit) dv_step" where
  "persist env writes s =
     (case (se_protect env (id_identityPrivate (dv_identity s)), se_protect env (id_staticPrivate (dv_identity s))) of
        (Some ed, Some x) \<Rightarrow>
          (let devices = sort_by (\<lambda>a b. se_collate env (de_deviceId a) (de_deviceId b)) (map snd (dv_devices s));
               encoded = utf8_encode (stringify (store_payload (dv_identity s) ed x devices))
           in if length encoded > MAX_STORE_BYTES then (s, Inl Dv_store_too_large)
              else if \<not> writes then (s, Inl Dv_write_failed)
              else (s\<lparr>dv_file := Some encoded\<rparr>, Inr ()))
      | _ \<Rightarrow> (s, Inl Dv_safe_storage_failed))"

text \<open>The change is undone when it cannot be stored.\<close>

definition persist_or_undo ::
  "'k store_env \<Rightarrow> bool \<Rightarrow> ((jstr, device) jmap \<Rightarrow> (jstr, device) jmap) \<Rightarrow> ('k, unit) dv_step" where
  "persist_or_undo env writes undo s =
     (case persist env writes s of
        (s', Inl e) \<Rightarrow> (s'\<lparr>dv_devices := undo (dv_devices s')\<rparr>, Inl e)
      | r \<Rightarrow> r)"

text \<open>
  \<open>#closeConnections\<close>: the connections are forgotten before their callbacks run; \<open>throws\<close> tells the
  callbacks that throw, which is swallowed.
\<close>

definition close_connections :: "(nat \<Rightarrow> bool) \<Rightarrow> jstr \<Rightarrow> close_reason \<Rightarrow> ('k, nat) dv_step" where
  "close_connections throws i reason s =
     (case jget (dv_connections s) i of
        None \<Rightarrow> (s, Inr 0)
      | Some records \<Rightarrow>
          (s\<lparr>dv_connections := jdel i (dv_connections s),
             dv_closed := dv_closed s @ map (\<lambda>c. (snd c, reason)) records,
             dv_events := dv_events s @ [Ev_disconnected i]\<rparr>,
           Inr (length (filter (\<lambda>c. \<not> throws (snd c)) records))))"

definition get_device :: "jstr \<Rightarrow> 'k device_store \<Rightarrow> device option" where
  "get_device i s = jget (dv_devices s) i"

definition list_devices :: "'k store_env \<Rightarrow> 'k device_store \<Rightarrow> device list" where
  "list_devices env s =
     sort_by (\<lambda>a b. let n = se_collate env (de_displayName a) (de_displayName b)
                    in if n \<noteq> 0 then n else se_collate env (de_deviceId a) (de_deviceId b))
       (map snd (dv_devices s))"

definition pair_device ::
  "'k store_env \<Rightarrow> bool \<Rightarrow> (nat \<Rightarrow> bool) \<Rightarrow> int \<Rightarrow> json option \<Rightarrow> bool \<Rightarrow> ('k, device) dv_step" where
  "pair_device env writes throws now v replace =
     sbind (slift (clean_device_record v now)) (\<lambda>clean.
     let i = de_deviceId clean in
     sbind (sread (get_device i)) (\<lambda>existing.
     sbind (sguard (\<lambda>s. existing = None \<or> replace) Dv_device_exists) (\<lambda>_.
     sbind (sguard (\<lambda>s. existing \<noteq> None \<or> length (dv_devices s) < MAX_PAIRED_DEVICES) Dv_device_limit) (\<lambda>_.
     sbind (smodify (\<lambda>s. s\<lparr>dv_devices := jset i clean (dv_devices s)\<rparr>)) (\<lambda>_.
     sbind (persist_or_undo env writes (case existing of Some d \<Rightarrow> jset i d | None \<Rightarrow> jdel i)) (\<lambda>_.
     sbind (if existing \<noteq> None then close_connections throws i Device_repaired else sreturn 0) (\<lambda>_.
     sbind (emit (if existing \<noteq> None then Ev_repaired clean else Ev_paired clean)) (\<lambda>_.
       sreturn clean))))))))"

definition the_device :: "jstr \<Rightarrow> ('k, device) dv_step" where
  "the_device i s = (s, case get_device i s of None \<Rightarrow> Inl Dv_unknown_device | Some d \<Rightarrow> Inr d)"

definition store_device :: "'k store_env \<Rightarrow> bool \<Rightarrow> device \<Rightarrow> device \<Rightarrow> ('k, unit) dv_step" where
  "store_device env writes existing next =
     sbind (smodify (\<lambda>s. s\<lparr>dv_devices := jset (de_deviceId next) next (dv_devices s)\<rparr>)) (\<lambda>_.
       persist_or_undo env writes (jset (de_deviceId existing) existing))"

definition set_capabilities ::
  "'k store_env \<Rightarrow> bool \<Rightarrow> (nat \<Rightarrow> bool) \<Rightarrow> jstr \<Rightarrow> json option \<Rightarrow> ('k, device) dv_step" where
  "set_capabilities env writes throws i v =
     sbind (the_device i) (\<lambda>existing.
     sbind (slift (device_capabilities False v)) (\<lambda>cs.
     let next = existing\<lparr>de_capabilities := cs\<rparr> in
     sbind (store_device env writes existing next) (\<lambda>_.
     sbind (close_connections throws (de_deviceId next) Device_capabilities_changed) (\<lambda>_.
     sbind (emit (Ev_capabilities next)) (\<lambda>_. sreturn next)))))"

definition name_control_unit :: "16 word \<Rightarrow> bool" where
  "name_control_unit u = (u \<le> 31 \<or> u = 127)"

definition rename_device :: "'k store_env \<Rightarrow> bool \<Rightarrow> jstr \<Rightarrow> json option \<Rightarrow> ('k, device) dv_step" where
  "rename_device env writes i v =
     sbind (the_device i) (\<lambda>existing.
     case as_str v of
       None \<Rightarrow> sthrow Dv_invalid_name
     | Some s \<Rightarrow>
         (let name = js_trim s in
          if name = [] \<or> length name > 80 \<or> list_ex name_control_unit name then sthrow Dv_invalid_name
          else if name = de_displayName existing then sreturn existing
          else
            (let next = existing\<lparr>de_displayName := name\<rparr> in
             sbind (store_device env writes existing next) (\<lambda>_.
             sbind (emit (Ev_renamed next)) (\<lambda>_. sreturn next)))))"

definition mark_seen :: "'k store_env \<Rightarrow> bool \<Rightarrow> int \<Rightarrow> jstr \<Rightarrow> ('k, bool) dv_step" where
  "mark_seen env writes now i s =
     (case get_device i s of
        None \<Rightarrow> (s, Inr False)
      | Some existing \<Rightarrow>
          (let next = existing\<lparr>de_lastSeenAt := max (de_lastSeenAt existing) now\<rparr> in
           sbind (store_device env writes existing next) (\<lambda>_.
           sbind (emit (Ev_seen next)) (\<lambda>_. sreturn True)) s))"

text \<open>\<open>registerConnection\<close> returns the token that its closure for leaving captures.\<close>

definition register_connection :: "jstr \<Rightarrow> nat \<Rightarrow> ('k, nat) dv_step" where
  "register_connection i close s =
     (if get_device i s = None then (s, Inl Dv_unknown_device)
      else
        (let token = dv_fresh s;
             records = jset token close (case jget (dv_connections s) i of None \<Rightarrow> [] | Some m \<Rightarrow> m)
         in (s\<lparr>dv_connections := jset i records (dv_connections s), dv_fresh := token + 1,
               dv_events := dv_events s @ (if length records = 1 then [Ev_connected i] else [])\<rparr>,
             Inr token)))"

definition unregister_connection :: "jstr \<Rightarrow> nat \<Rightarrow> ('k, bool) dv_step" where
  "unregister_connection i token s =
     (case jget (dv_connections s) i of
        None \<Rightarrow> (s, Inr False)
      | Some current \<Rightarrow>
          (let deleted = jhas current token; rest = jdel token current
           in if rest = []
              then (s\<lparr>dv_connections := jdel i (dv_connections s),
                      dv_events := dv_events s @ (if deleted then [Ev_disconnected i] else [])\<rparr>, Inr deleted)
              else (s\<lparr>dv_connections := jset i rest (dv_connections s)\<rparr>, Inr deleted)))"

definition is_connected :: "jstr \<Rightarrow> 'k device_store \<Rightarrow> bool" where
  "is_connected i s = (case jget (dv_connections s) i of None \<Rightarrow> False | Some m \<Rightarrow> 0 < length m)"

definition revoke_device :: "'k store_env \<Rightarrow> bool \<Rightarrow> (nat \<Rightarrow> bool) \<Rightarrow> jstr \<Rightarrow> ('k, bool) dv_step" where
  "revoke_device env writes throws i s =
     (case get_device i s of
        None \<Rightarrow> (s, Inr False)
      | Some existing \<Rightarrow>
          (sbind (smodify (\<lambda>s. s\<lparr>dv_devices := jdel i (dv_devices s)\<rparr>)) (\<lambda>_.
           sbind (persist_or_undo env writes (jset i existing)) (\<lambda>_.
           sbind (close_connections throws i Device_revoked) (\<lambda>closed.
           sbind (emit (Ev_revoked i closed)) (\<lambda>_. sreturn True)))) s))"

section \<open>Opening the store\<close>

definition empty_store :: "'k identity \<Rightarrow> bytes option \<Rightarrow> 'k device_store" where
  "empty_store i file =
     \<lparr>dv_identity = i, dv_devices = [], dv_connections = [], dv_file = file, dv_fresh = 0, dv_closed = [], dv_events = []\<rparr>"

text \<open>A store without a file starts with a new identity, which has to be one of a desktop.\<close>

definition create_store :: "'k store_env \<Rightarrow> bool \<Rightarrow> bytes option \<Rightarrow> device_error + 'k identity \<Rightarrow> device_error + 'k device_store" where
  "create_store env writes file fresh =
     ebind fresh (\<lambda>i.
     require (id_role i = Desktop_party) Dv_invalid_identity (
     case persist env writes (empty_store i file) of
       (s, Inl e) \<Rightarrow> Inl e
     | (s, Inr _) \<Rightarrow> Inr s))"

definition lift_crypto :: "crypto_error + 'a \<Rightarrow> device_error + 'a" where
  "lift_crypto r = (case r of Inl e \<Rightarrow> Inl (Dv_crypto e) | Inr x \<Rightarrow> Inr x)"

fun load_devices :: "int \<Rightarrow> json list \<Rightarrow> (jstr, device) jmap \<Rightarrow> device_error + (jstr, device) jmap" where
  "load_devices now [] m = Inr m"
| "load_devices now (v # vs) m =
     ebind (clean_device_record (Some v) now) (\<lambda>clean.
     require (\<not> jhas m (de_deviceId clean)) Dv_invalid_store
       (load_devices now vs (jset (de_deviceId clean) clean m)))"

definition sub_field :: "json option \<Rightarrow> string \<Rightarrow> json option" where
  "sub_field v k = (case v of None \<Rightarrow> None | Some x \<Rightarrow> field x k)"

definition load_identity :: "'k store_env \<Rightarrow> json \<Rightarrow> device_error + 'k identity" where
  "load_identity env parsed =
     (let desktop = field parsed ''desktop''; private = field parsed ''protectedPrivate'' in
      ebind (se_unprotect env Ed25519 (sub_field private ''ed25519'')) (\<lambda>ed.
      ebind (se_unprotect env X25519 (sub_field private ''x25519'')) (\<lambda>x.
      ebind (device_id (sub_field desktop ''desktopId'')) (\<lambda>i.
      ebind (lift_crypto (create_identity (se_crypto env) Desktop_party (Some (JStr i)) (sub_field desktop ''displayName'') ed x)) (\<lambda>identity.
      require (sub_field desktop ''identityPublic'' = Some (JStr (id_identityPublic identity))
          \<and> sub_field desktop ''x25519StaticPublic'' = Some (JStr (id_staticPublic identity))) Dv_invalid_store (
      ebind (lift_crypto (verify_signed_key_record (se_crypto env) (sub_field desktop ''keyRecord'')
          (Some (JStr (id_identityPublic identity))) Desktop_party (Some (id_id identity)))) (\<lambda>r.
      require (sub_field (sub_field desktop ''keyRecord'') ''x25519StaticPublic'' = Some (JStr (id_staticPublic identity))) Dv_invalid_store (
        Inr (identity\<lparr>id_keyRecord := the (sub_field desktop ''keyRecord'')\<rparr>)))))))))"

text \<open>
  \<open>#loadOrCreate\<close>. \<open>readable\<close> is false when the file exists and cannot be read. A file whose text is a
  value that counts as false is treated like a missing file.
\<close>

definition load_or_create ::
  "'k store_env \<Rightarrow> bool \<Rightarrow> bool \<Rightarrow> int \<Rightarrow> device_error + 'k identity \<Rightarrow> bytes option \<Rightarrow> device_error + 'k device_store" where
  "load_or_create env readable writes now fresh file =
     (case file of
        None \<Rightarrow> create_store env writes None fresh
      | Some b \<Rightarrow>
          require (readable \<and> 1 \<le> length b \<and> length b \<le> MAX_STORE_BYTES) Dv_invalid_store (
          case parse_bytes (se_crypto env) b of
            None \<Rightarrow> Inl Dv_invalid_store
          | Some parsed \<Rightarrow>
              if \<not> truthy (Some parsed) then create_store env writes file fresh
              else
                require (field parsed ''v'' = Some (JInt 1) \<and> truthy (field parsed ''desktop'')
                    \<and> truthy (field parsed ''protectedPrivate'') \<and> as_arr (field parsed ''devices'') \<noteq> None) Dv_invalid_store (
                ebind (load_identity env parsed) (\<lambda>identity.
                ebind (load_devices now (the (as_arr (field parsed ''devices''))) []) (\<lambda>devices.
                  Inr ((empty_store identity file)\<lparr>dv_devices := devices\<rparr>))))))"

section \<open>Records that the store holds\<close>

definition key_text_ok :: "jstr \<Rightarrow> bool" where
  "key_text_ok s \<longleftrightarrow> (\<exists>b. s = b64url b \<and> length b = 32)"

definition device_ok :: "device \<Rightarrow> bool" where
  "device_ok d \<longleftrightarrow>
     identifier_ok MAX_ID_LENGTH (de_deviceId d)
     \<and> de_displayName d \<noteq> [] \<and> length (de_displayName d) \<le> 80 \<and> \<not> is_space_unit (hd (de_displayName d))
     \<and> key_text_ok (de_identityPublic d) \<and> key_text_ok (de_staticPublic d)
     \<and> Observe \<in> set (de_capabilities d)
     \<and> de_capabilities d = filter (\<lambda>c. c \<in> set (de_capabilities d)) CAPABILITIES
     \<and> 0 \<le> de_pairedAt d \<and> de_pairedAt d \<le> de_lastSeenAt d \<and> is_safe (de_lastSeenAt d)"

lemma device_id_Inr: "device_id v = Inr i \<longleftrightarrow> v = Some (JStr i) \<and> identifier_ok MAX_ID_LENGTH i"
  by (cases v rule: as_str.cases) (auto simp: device_id_def require_eq_Inr)

lemma device_public_Inr: "device_public v = Inr p \<longleftrightarrow> v = Some (JStr p) \<and> key_text_ok p"
  by (cases v rule: as_str.cases)
    (auto simp: device_public_def require_eq_Inr key_text_ok_def from_b64url_Some from_b64url_if
      split: option.splits if_splits)

lemma device_capabilities_Inr:
  assumes "device_capabilities b v = Inr cs"
  shows "Observe \<in> set cs" "cs = filter (\<lambda>c. c \<in> set cs) CAPABILITIES"
proof -
  from assms obtain us where "Observe \<in> set us" "cs = filter (\<lambda>c. c \<in> set us) CAPABILITIES"
    by (auto simp: device_capabilities_def Let_def require_eq_Inr split: option.splits)
  then show "Observe \<in> set cs" "cs = filter (\<lambda>c. c \<in> set cs) CAPABILITIES"
    by (auto simp: CAPABILITIES_def)
qed

lemma device_name_ok:
  "device_name v \<noteq> [] \<and> length (device_name v) \<le> 80 \<and> \<not> is_space_unit (hd (device_name v))"
proof (cases "as_str v")
  case None
  then show ?thesis by (simp add: device_name_def exec_simps)
next
  case (Some s)
  show ?thesis
  proof (cases "js_trim s = []")
    case True
    then show ?thesis using Some by (simp add: device_name_def) (simp add: js_def is_space_unit_def)
  next
    case False
    then have "hd (take 80 (js_trim s)) = hd (js_trim s)" by (cases "js_trim s") simp_all
    then show ?thesis using Some False js_trim_hd [OF False] by (simp add: device_name_def)
  qed
qed

lemma clean_device_record_ok:
  assumes "clean_device_record v now = Inr d" "0 \<le> now" "is_safe now"
  shows "device_ok d"
proof -
  from assms(1) obtain o' cs where o: "v = Some o'" and cs: "device_capabilities True (field o' ''capabilities'') = Inr cs"
    and i: "device_id (field o' ''deviceId'') = Inr (de_deviceId d)"
    and p: "device_public (field o' ''identityPublic'') = Inr (de_identityPublic d)"
    and x: "device_public (field o' ''x25519StaticPublic'') = Inr (de_staticPublic d)"
    and n: "de_displayName d = device_name (field o' ''displayName'')" and c: "de_capabilities d = cs"
    and pa: "de_pairedAt d = (case as_int (field o' ''pairedAt'') of Some n \<Rightarrow> if n \<ge> 0 then n else now | None \<Rightarrow> now)"
    and se: "de_lastSeenAt d = (case as_int (field o' ''lastSeenAt'') of Some n \<Rightarrow> if n \<ge> de_pairedAt d then n else de_pairedAt d | None \<Rightarrow> de_pairedAt d)"
    by (auto simp: clean_device_record_def Let_def elim!: ebind_InrE require_InrE split: option.splits)
  have "0 \<le> de_pairedAt d" "is_safe (de_pairedAt d)"
    using assms(2,3) by (auto simp: pa split: option.splits)
  moreover have "de_pairedAt d \<le> de_lastSeenAt d" "is_safe (de_lastSeenAt d)"
    using \<open>is_safe (de_pairedAt d)\<close> by (auto simp: se split: option.splits)
  ultimately show ?thesis
    using i p x device_name_ok [of "field o' ''displayName''"] device_capabilities_Inr [OF cs]
    unfolding device_ok_def by (simp add: n c device_id_Inr device_public_Inr)
qed

text \<open>A record reads back from its own data, but for white space at the end of a name that was cut.\<close>

definition reloaded :: "device \<Rightarrow> device" where
  "reloaded d = d\<lparr>de_displayName := js_trim (de_displayName d)\<rparr>"

lemma length_js_trim_le: "length (js_trim s) \<le> length s"
  by (simp add: js_trim_def) (metis length_dropWhile_le length_rev le_trans)

lemma capability_of_js [simp]: "capability_of (JStr (js (capability_text c))) = Some c"
  by (cases c) (simp_all add: capability_of_def CAPABILITIES_def)

lemma capability_text_inj: "js (capability_text c) = js (capability_text c') \<longleftrightarrow> c = c'"
  by (cases c; cases c') simp_all

lemma device_capabilities_back:
  assumes "Observe \<in> set cs" "cs = filter (\<lambda>c. c \<in> set cs) CAPABILITIES"
  shows "device_capabilities b (Some (JArr (map (\<lambda>c. JStr (js (capability_text c))) cs))) = Inr cs"
proof -
  have "distinct cs" by (subst assms(2)) (simp add: CAPABILITIES_def)
  then have "distinct (map (\<lambda>c. JStr (js (capability_text c))) cs)"
    by (simp add: distinct_map inj_on_def capability_text_inj)
  moreover have "length cs \<le> length CAPABILITIES" by (subst assms(2)) (rule length_filter_le)
  moreover have "List.map_filter capability_of (map (\<lambda>c. JStr (js (capability_text c))) cs) = cs"
    by (induction cs) (simp_all add: List.map_filter_simps)
  moreover have "cs \<noteq> []" using assms(1) by auto
  ultimately show ?thesis
    using assms by (simp add: device_capabilities_def nullish_def list_all_iff Suc_le_eq)
qed

lemma device_back:
  assumes "device_ok d"
  shows "clean_device_record (Some (device_json d)) now = Inr (reloaded d)"
proof -
  have n: "js_trim (de_displayName d) \<noteq> []" "length (js_trim (de_displayName d)) \<le> 80"
    using assms js_trim_not_Nil [of "de_displayName d"] length_js_trim_le [of "de_displayName d"]
    by (auto simp: device_ok_def)
  have "is_safe (de_pairedAt d)" using assms by (auto simp: device_ok_def is_safe_def)
  moreover have "device_public (Some (JStr (de_identityPublic d))) = Inr (de_identityPublic d)"
    "device_public (Some (JStr (de_staticPublic d))) = Inr (de_staticPublic d)"
    using assms by (simp_all add: device_public_Inr device_ok_def)
  ultimately show ?thesis
    using assms n device_capabilities_back [of "de_capabilities d" True]
    by (simp add: clean_device_record_def device_json_def device_ok_def device_id_def Let_def
        device_name_def reloaded_def)
qed

section \<open>The invariant\<close>

text \<open>
  In memory: at most 64 records, each well-formed and under its own identifier, and connections of
  paired devices only. In the file: a payload with the identity and exactly these records.
\<close>

definition devices_ok :: "(jstr, device) jmap \<Rightarrow> bool" where
  "devices_ok m \<longleftrightarrow> jmap_ok m \<and> length m \<le> MAX_PAIRED_DEVICES \<and> (\<forall>(i, d) \<in> set m. de_deviceId d = i \<and> device_ok d)"

definition connections_ok :: "'k device_store \<Rightarrow> bool" where
  "connections_ok s \<longleftrightarrow> jmap_ok (dv_connections s) \<and>
     (\<forall>(i, m) \<in> set (dv_connections s). get_device i s \<noteq> None \<and> m \<noteq> [])"

definition identity_ok :: "'k store_env \<Rightarrow> 'k identity \<Rightarrow> bool" where
  "identity_ok env i \<longleftrightarrow>
     create_identity (se_crypto env) Desktop_party (Some (JStr (id_id i))) (Some (JStr (id_displayName i)))
       (id_identityPrivate i) (id_staticPrivate i) = Inr i"

definition file_holds :: "'k store_env \<Rightarrow> 'k device_store \<Rightarrow> jstr \<Rightarrow> jstr \<Rightarrow> device list \<Rightarrow> bool" where
  "file_holds env s ed x ds \<longleftrightarrow>
     dv_file s = Some (utf8_encode (stringify (store_payload (dv_identity s) ed x ds)))
     \<and> length (utf8_encode (stringify (store_payload (dv_identity s) ed x ds))) \<le> MAX_STORE_BYTES
     \<and> se_protect env (id_identityPrivate (dv_identity s)) = Some ed
     \<and> se_protect env (id_staticPrivate (dv_identity s)) = Some x
     \<and> list_all device_ok ds \<and> distinct (map de_deviceId ds)
     \<and> reloaded ` set ds = reloaded ` set (map snd (dv_devices s))"

definition file_ok :: "'k store_env \<Rightarrow> 'k device_store \<Rightarrow> bool" where
  "file_ok env s \<longleftrightarrow> (\<exists>ed x ds. file_holds env s ed x ds)"

definition store_ok :: "'k store_env \<Rightarrow> 'k device_store \<Rightarrow> bool" where
  "store_ok env s \<longleftrightarrow> identity_ok env (dv_identity s) \<and> devices_ok (dv_devices s) \<and> connections_ok s \<and> file_ok env s"

lemma distinct_sort_by: "distinct (map f (sort_by c xs)) \<longleftrightarrow> distinct (map f xs)"
proof -
  have ins: "distinct (map f (insert_by c x ys)) \<longleftrightarrow> f x \<notin> f ` set ys \<and> distinct (map f ys)" for x ys
    by (induction ys) (auto simp: set_insert_by)
  have "distinct (map f (fold (insert_by c) xs ys)) \<longleftrightarrow> distinct (map f (rev xs @ ys))" for ys
    by (induction xs arbitrary: ys) (auto simp: ins set_insert_by)
  from this [of "[]"] show ?thesis by (simp add: sort_by_def rev_map [symmetric] del: rev_map)
qed

lemma devices_ok_ids: "devices_ok m \<Longrightarrow> map de_deviceId (map snd m) = map fst m"
  by (auto simp: devices_ok_def)

lemma devices_ok_distinct: "devices_ok m \<Longrightarrow> distinct (map de_deviceId (map snd m))"
  by (simp only: devices_ok_ids) (simp add: devices_ok_def jmap_ok_def)

lemma devices_ok_get: "devices_ok m \<Longrightarrow> jget m i = Some d \<Longrightarrow> de_deviceId d = i \<and> device_ok d"
  by (auto simp: devices_ok_def dest: jget_Some_in)

lemma devices_ok_same:
  assumes "devices_ok m" "jmap_ok m'" "set m' = set m"
  shows "devices_ok m'"
proof -
  have "distinct m" "distinct m'"
    using assms distinct_map [of fst m] distinct_map [of fst m'] by (simp_all add: devices_ok_def jmap_ok_def)
  then have "length m' = length m" using assms(3) by (metis distinct_card)
  then show ?thesis using assms by (simp add: devices_ok_def)
qed

lemma devices_ok_jset:
  assumes "devices_ok m" "device_ok d" "de_deviceId d = i" "jget m i = None \<Longrightarrow> length m < MAX_PAIRED_DEVICES"
  shows "devices_ok (jset i d m)"
  using assms set_jset [of m i d] by (auto simp: devices_ok_def length_jset)

lemma devices_ok_jdel: "devices_ok m \<Longrightarrow> devices_ok (jdel i m)"
  using length_jdel_le [of i m] by (auto simp: devices_ok_def set_jdel)

section \<open>A change and its file\<close>

lemma persist_Inr:
  assumes "devices_ok (dv_devices s)" "persist env writes s = (s', Inr u)"
  shows "s' = s\<lparr>dv_file := dv_file s'\<rparr> \<and> file_ok env s'"
proof -
  let ?ds = "sort_by (\<lambda>a b. se_collate env (de_deviceId a) (de_deviceId b)) (map snd (dv_devices s))"
  from assms(2) obtain ed x where k: "se_protect env (id_identityPrivate (dv_identity s)) = Some ed"
    "se_protect env (id_staticPrivate (dv_identity s)) = Some x"
    and l: "length (utf8_encode (stringify (store_payload (dv_identity s) ed x ?ds))) \<le> MAX_STORE_BYTES"
    and s': "s' = s\<lparr>dv_file := Some (utf8_encode (stringify (store_payload (dv_identity s) ed x ?ds)))\<rparr>"
    by (auto simp: persist_def Let_def split: option.splits if_splits)
  have "list_all device_ok ?ds"
    using assms(1) by (auto simp: list_all_iff set_sort_by devices_ok_def)
  moreover have "distinct (map de_deviceId ?ds)"
    using devices_ok_distinct [OF assms(1)] by (simp only: distinct_sort_by)
  ultimately have "file_holds env s' ed x ?ds"
    using k l by (simp add: file_holds_def s' set_sort_by)
  then have "file_ok env s'" unfolding file_ok_def by blast
  then show ?thesis by (simp add: s')
qed

lemma persist_Inl: "persist env writes s = (s', Inl e) \<Longrightarrow> s' = s"
  by (auto simp: persist_def Let_def split: option.splits if_splits)

text \<open>What a method has done that did not succeed: nothing, but for the order of the records.\<close>

definition same_store :: "'k device_store \<Rightarrow> 'k device_store \<Rightarrow> bool" where
  "same_store s s' \<longleftrightarrow> (\<exists>m. jmap_ok m \<and> set m = set (dv_devices s) \<and> s' = s\<lparr>dv_devices := m\<rparr>)"

lemma same_store_refl: "devices_ok (dv_devices s) \<Longrightarrow> same_store s s"
  unfolding same_store_def by (rule exI [of _ "dv_devices s"]) (simp add: devices_ok_def)

lemma jget_set_eq:
  assumes "jmap_ok m" "jmap_ok m'" "set m' = set m"
  shows "jget m' i = jget m i"
proof -
  have "map_of m' = map_of m" using assms by (subst map_of_inject_set) (simp_all add: jmap_ok_def)
  then show ?thesis by (simp add: jget_def)
qed

lemma same_store_ok:
  assumes "store_ok env s" "same_store s s'"
  shows "store_ok env s'"
proof -
  from assms(2) obtain m where m: "jmap_ok m" "set m = set (dv_devices s)" "s' = s\<lparr>dv_devices := m\<rparr>"
    by (auto simp: same_store_def)
  have "jmap_ok (dv_devices s)" using assms(1) by (simp add: store_ok_def devices_ok_def)
  then have g: "jget m i = jget (dv_devices s) i" for i by (rule jget_set_eq) (rule m(1), rule m(2))
  have "devices_ok m" using assms(1) m devices_ok_same [of "dv_devices s" m] by (simp add: store_ok_def)
  moreover have "connections_ok s' = connections_ok s"
    by (simp add: connections_ok_def get_device_def m(3) g)
  moreover have "file_ok env s' = file_ok env s"
    by (simp add: file_ok_def file_holds_def m(2,3))
  ultimately show ?thesis using assms(1) m(3) by (simp add: store_ok_def)
qed

lemma change_stored:
  assumes "devices_ok m" "persist_or_undo env writes undo (s\<lparr>dv_devices := m\<rparr>) = (s', Inr u)"
  shows "s' = s\<lparr>dv_devices := m, dv_file := dv_file s'\<rparr> \<and> file_ok env s'"
proof -
  have "persist env writes (s\<lparr>dv_devices := m\<rparr>) = (s', Inr u)"
    using assms(2) by (auto simp: persist_or_undo_def split: prod.splits sum.splits)
  from persist_Inr [OF _ this] show ?thesis using assms(1) by simp
qed

lemma change_undone:
  assumes "persist_or_undo env writes undo (s\<lparr>dv_devices := m\<rparr>) = (s', Inl e)"
    and "jmap_ok (undo m)" "set (undo m) = set (dv_devices s)"
  shows "same_store s s'"
proof -
  obtain s1 where "persist env writes (s\<lparr>dv_devices := m\<rparr>) = (s1, Inl e)" "s' = s1\<lparr>dv_devices := undo (dv_devices s1)\<rparr>"
    using assms(1) by (auto simp: persist_or_undo_def split: prod.splits sum.splits)
  then have "s' = s\<lparr>dv_devices := undo m\<rparr>" using persist_Inl by fastforce
  then show ?thesis using assms(2,3) unfolding same_store_def by blast
qed

lemma close_connections_eq:
  "close_connections throws i reason s = (s', r) \<Longrightarrow>
   r = Inr (length (filter (\<lambda>c. \<not> throws (snd c)) (case jget (dv_connections s) i of None \<Rightarrow> [] | Some m \<Rightarrow> m)))
   \<and> s' = s\<lparr>dv_connections := jdel i (dv_connections s),
            dv_closed := dv_closed s @ map (\<lambda>c. (snd c, reason)) (case jget (dv_connections s) i of None \<Rightarrow> [] | Some m \<Rightarrow> m),
            dv_events := dv_events s'\<rparr>"
proof (cases "jget (dv_connections s) i")
  case None
  then have "jdel i (dv_connections s) = dv_connections s" using jdel_id jget_None by metis
  then show "close_connections throws i reason s = (s', r) \<Longrightarrow> ?thesis"
    using None by (auto simp: close_connections_def)
qed (auto simp: close_connections_def)

section \<open>What each method does\<close>

definition stored :: "'k store_env \<Rightarrow> 'k device_store \<Rightarrow> (jstr, device) jmap \<Rightarrow> 'k device_store \<Rightarrow> bool" where
  "stored env s m s' \<longleftrightarrow> s' = s\<lparr>dv_devices := m, dv_file := dv_file s'\<rparr> \<and> file_ok env s'"

definition closed_device :: "jstr \<Rightarrow> close_reason \<Rightarrow> 'k device_store \<Rightarrow> 'k device_store \<Rightarrow> 'k device_store" where
  "closed_device i reason s s' = s\<lparr>dv_connections := jdel i (dv_connections s),
     dv_closed := dv_closed s @ map (\<lambda>c. (snd c, reason)) (case jget (dv_connections s) i of None \<Rightarrow> [] | Some m \<Rightarrow> m),
     dv_events := dv_events s'\<rparr>"

lemma closed_then:
  assumes "close_connections throws i reason t = (t', q)" "s' = t'\<lparr>dv_events := dv_events s'\<rparr>"
  shows "s' = closed_device i reason t s'"
proof -
  obtain es where "t' = t\<lparr>dv_connections := jdel i (dv_connections t),
      dv_closed := dv_closed t @ map (\<lambda>c. (snd c, reason)) (case jget (dv_connections t) i of None \<Rightarrow> [] | Some m \<Rightarrow> m),
      dv_events := es\<rparr>"
    using close_connections_eq [OF assms(1)] by blast
  then show ?thesis unfolding closed_device_def by (subst assms(2)) simp
qed

lemma set_jdel_jset: "jmap_ok m \<Longrightarrow> jget m i = None \<Longrightarrow> set (jdel i (jset i d m)) = set m"
  by (auto simp: set_jdel set_jset jget_None)

lemma set_jset_jset: "jmap_ok m \<Longrightarrow> jget m i = Some d \<Longrightarrow> set (jset i d (jset i d' m)) = set m"
  by (auto simp: set_jset dest: jget_Some_in jget_in)

lemma set_jset_jdel: "jmap_ok m \<Longrightarrow> jget m i = Some d \<Longrightarrow> set (jset i d (jdel i m)) = set m"
  by (auto simp: set_jset set_jdel dest: jget_Some_in jget_in)

lemma pair_device_cases:
  assumes ok: "devices_ok (dv_devices s)" and clock: "0 \<le> now" "is_safe now"
    and step: "pair_device env writes throws now v replace s = (s', r)"
  shows "case r of Inl e \<Rightarrow> same_store s s'
    | Inr d \<Rightarrow> device_ok d \<and> devices_ok (jset (de_deviceId d) d (dv_devices s))
        \<and> (\<exists>t. stored env s (jset (de_deviceId d) d (dv_devices s)) t
             \<and> s' = (if get_device (de_deviceId d) s = None then t\<lparr>dv_events := dv_events s'\<rparr>
                     else closed_device (de_deviceId d) Device_repaired t s'))"
proof (cases "clean_device_record v now")
  case (Inl e)
  then have "s' = s" "r = Inl e" using step by (simp_all add: pair_device_def sbind_def)
  then show ?thesis using same_store_refl [OF ok] by simp
next
  case (Inr d)
  let ?i = "de_deviceId d"
  let ?m = "jset ?i d (dv_devices s)"
  let ?undo = "case get_device ?i s of Some d' \<Rightarrow> jset ?i d' | None \<Rightarrow> jdel ?i"
  have d: "device_ok d" using clean_device_record_ok [OF Inr clock] .
  have j: "jmap_ok (dv_devices s)" using ok by (simp add: devices_ok_def)
  show ?thesis
  proof (cases "(get_device ?i s = None \<or> replace) \<and> (get_device ?i s \<noteq> None \<or> length (dv_devices s) < MAX_PAIRED_DEVICES)")
    case False
    then show ?thesis using step Inr same_store_refl [OF ok]
      by (auto simp: pair_device_def sbind_def Let_def split: if_splits)
  next
    case True
    obtain t p where p: "persist_or_undo env writes ?undo (s\<lparr>dv_devices := ?m\<rparr>) = (t, p)" by fastforce
    have m: "devices_ok ?m"
      using devices_ok_jset [OF ok d refl] True by (auto simp: get_device_def)
    show ?thesis
    proof (cases p)
      case (Inl e)
      have "jmap_ok (?undo ?m)" "set (?undo ?m) = set (dv_devices s)"
        using j by (auto simp: get_device_def set_jdel_jset set_jset_jset split: option.split)
      then have "same_store s t" using p change_undone unfolding Inl by blast
      moreover have "s' = t" "r = Inl e"
        using step Inr p True unfolding Inl by (simp_all add: pair_device_def Let_def)
      ultimately show ?thesis by simp
    next
      case (Inr u)
      have st: "stored env s ?m t" using change_stored [OF m] p unfolding Inr stored_def by blast
      show ?thesis
      proof (cases "get_device ?i s = None")
        case True': True
        have "s' = t\<lparr>dv_events := dv_events s'\<rparr> \<and> r = Inr d"
          using step \<open>clean_device_record v now = Inr d\<close> p True True' unfolding Inr
          by (auto simp: pair_device_def Let_def emit_def)
        then show ?thesis using d m st True' by auto
      next
        case False
        obtain t' q where c: "close_connections throws ?i Device_repaired t = (t', q)" by fastforce
        then have "s' = t'\<lparr>dv_events := dv_events s'\<rparr> \<and> r = Inr d"
          using step \<open>clean_device_record v now = Inr d\<close> p True False close_connections_eq [OF c] unfolding Inr
          by (auto simp: pair_device_def Let_def emit_def)
        then show ?thesis using d m st False closed_then [OF c] by auto
      qed
    qed
  qed
qed

lemma store_device_cases:
  assumes ok: "devices_ok (dv_devices s)" and old: "get_device (de_deviceId next) s = Some existing"
    and new: "device_ok next" and step: "store_device env writes existing next s = (s', r)"
  shows "case r of Inl e \<Rightarrow> same_store s s'
    | Inr u \<Rightarrow> devices_ok (jset (de_deviceId next) next (dv_devices s))
        \<and> stored env s (jset (de_deviceId next) next (dv_devices s)) s'"
proof -
  let ?m = "jset (de_deviceId next) next (dv_devices s)"
  have old': "jget (dv_devices s) (de_deviceId next) = Some existing" using old by (simp add: get_device_def)
  have i: "de_deviceId existing = de_deviceId next" using devices_ok_get [OF ok old'] by simp
  have m: "devices_ok ?m" using devices_ok_jset [OF ok new refl] old' by simp
  have p: "persist_or_undo env writes (jset (de_deviceId next) existing) (s\<lparr>dv_devices := ?m\<rparr>) = (s', r)"
    using step by (simp add: store_device_def sbind_def i)
  show ?thesis
  proof (cases r)
    case (Inl e)
    have "jmap_ok (dv_devices s)" using ok by (simp add: devices_ok_def)
    then have "same_store s s'" using p change_undone old' set_jset_jset unfolding Inl by fastforce
    then show ?thesis by (simp add: Inl)
  next
    case (Inr u)
    then show ?thesis using m change_stored [OF m] p unfolding Inr stored_def by simp
  qed
qed

lemma set_capabilities_cases:
  assumes ok: "devices_ok (dv_devices s)" and step: "set_capabilities env writes throws i v s = (s', r)"
  shows "case r of Inl e \<Rightarrow> same_store s s'
    | Inr d \<Rightarrow> (\<exists>old. get_device i s = Some old \<and> d = old\<lparr>de_capabilities := de_capabilities d\<rparr>)
        \<and> device_capabilities False v = Inr (de_capabilities d)
        \<and> devices_ok (jset i d (dv_devices s))
        \<and> (\<exists>t. stored env s (jset i d (dv_devices s)) t \<and> s' = closed_device i Device_capabilities_changed t s')"
proof (cases "get_device i s")
  case None
  then have "s' = s" "\<exists>e. r = Inl e" using step by (auto simp: set_capabilities_def the_device_def sbind_def)
  then show ?thesis using same_store_refl [OF ok] by auto
next
  case (Some old)
  have old: "de_deviceId old = i" "device_ok old"
    using Some devices_ok_get [OF ok] by (auto simp: get_device_def)
  show ?thesis
  proof (cases "device_capabilities False v")
    case (Inl e)
    then have "s' = s" "r = Inl e" using step Some by (auto simp: set_capabilities_def the_device_def sbind_def)
    then show ?thesis using same_store_refl [OF ok] by auto
  next
    case (Inr cs)
    let ?d = "old\<lparr>de_capabilities := cs\<rparr>"
    have d: "device_ok ?d" using old(2) device_capabilities_Inr [OF Inr] by (simp add: device_ok_def)
    obtain t p where p: "store_device env writes old ?d s = (t, p)" by fastforce
    from store_device_cases [OF ok _ d this] have c: "case p of Inl e \<Rightarrow> same_store s t
      | Inr u \<Rightarrow> devices_ok (jset i ?d (dv_devices s)) \<and> stored env s (jset i ?d (dv_devices s)) t"
      using Some old(1) by (simp cong: sum.case_cong)
    show ?thesis
    proof (cases p)
      case (Inl e)
      then have "s' = t" "r = Inl e"
        using step Some Inr p by (simp_all add: set_capabilities_def the_device_def sbind_def Let_def)
      then show ?thesis using c Inl by simp
    next
      case p': (Inr u)
      obtain t' q where q: "close_connections throws i Device_capabilities_changed t = (t', q)" by fastforce
      then have "s' = t'\<lparr>dv_events := dv_events s'\<rparr> \<and> r = Inr ?d"
        using step Some Inr p close_connections_eq [OF q] old(1) unfolding p'
        by (auto simp: set_capabilities_def the_device_def Let_def emit_def)
      then show ?thesis using c p' Some Inr old(1) closed_then [OF q] by auto
    qed
  qed
qed

lemma rename_device_cases:
  assumes ok: "devices_ok (dv_devices s)" and step: "rename_device env writes i v s = (s', r)"
  shows "(r \<noteq> Inl e \<or> same_store s s') \<and> (r = Inr d \<longrightarrow> get_device i s = Some d \<and> s' = s \<or>
    (\<exists>old t. get_device i s = Some old \<and> d = old\<lparr>de_displayName := de_displayName d\<rparr>
      \<and> devices_ok (jset i d (dv_devices s)) \<and> stored env s (jset i d (dv_devices s)) t
      \<and> s' = t\<lparr>dv_events := dv_events s'\<rparr>))"
proof (cases "get_device i s")
  case None
  then have "s' = s" "\<exists>e. r = Inl e" using step by (auto simp: rename_device_def the_device_def sbind_def)
  then show ?thesis using same_store_refl [OF ok] by auto
next
  case (Some old)
  have old: "de_deviceId old = i" "device_ok old"
    using Some devices_ok_get [OF ok] by (auto simp: get_device_def)
  show ?thesis
  proof (cases "\<exists>u. as_str v = Some u \<and> js_trim u \<noteq> [] \<and> length (js_trim u) \<le> 80
      \<and> \<not> list_ex name_control_unit (js_trim u) \<and> js_trim u \<noteq> de_displayName old")
    case False
    then have "s' = s" "(\<exists>e. r = Inl e) \<or> r = Inr old"
      using step Some by (auto simp: rename_device_def the_device_def sbind_def Let_def split: option.splits if_splits)
    then show ?thesis using same_store_refl [OF ok] Some by auto
  next
    case True
    then obtain u where u: "as_str v = Some u" "js_trim u \<noteq> []" "length (js_trim u) \<le> 80"
      "\<not> list_ex name_control_unit (js_trim u)" "js_trim u \<noteq> de_displayName old" by blast
    let ?d = "old\<lparr>de_displayName := js_trim u\<rparr>"
    have n: "device_ok ?d" using old(2) u js_trim_hd [OF u(2)] by (simp add: device_ok_def)
    obtain t p where p: "store_device env writes old ?d s = (t, p)" by fastforce
    have c: "case p of Inl e \<Rightarrow> same_store s t
      | Inr u \<Rightarrow> devices_ok (jset i ?d (dv_devices s)) \<and> stored env s (jset i ?d (dv_devices s)) t"
      using store_device_cases [OF ok _ n p] Some old(1) by (simp cong: sum.case_cong)
    show ?thesis
    proof (cases p)
      case (Inl e')
      then have "s' = t" "r = Inl e'"
        using step Some p u by (simp_all add: rename_device_def the_device_def sbind_def Let_def)
      then show ?thesis using c Inl by simp
    next
      case (Inr w)
      then have "s' = t\<lparr>dv_events := dv_events s'\<rparr> \<and> r = Inr ?d"
        using step Some p u by (auto simp: rename_device_def the_device_def sbind_def Let_def emit_def)
      then show ?thesis using c Inr Some by auto
    qed
  qed
qed

lemma mark_seen_cases:
  assumes ok: "devices_ok (dv_devices s)" and clock: "is_safe now"
    and step: "mark_seen env writes now i s = (s', r)"
  shows "(r \<noteq> Inl e \<or> same_store s s') \<and> (r = Inr False \<longrightarrow> s' = s) \<and> (r = Inr True \<longrightarrow>
    (\<exists>old t d. get_device i s = Some old \<and> d = old\<lparr>de_lastSeenAt := max (de_lastSeenAt old) now\<rparr>
      \<and> devices_ok (jset i d (dv_devices s)) \<and> stored env s (jset i d (dv_devices s)) t
      \<and> s' = t\<lparr>dv_events := dv_events s'\<rparr>))"
proof (cases "get_device i s")
  case None
  then show ?thesis using step same_store_refl [OF ok] by (auto simp: mark_seen_def)
next
  case (Some old)
  have old: "de_deviceId old = i" "device_ok old"
    using Some devices_ok_get [OF ok] by (auto simp: get_device_def)
  let ?d = "old\<lparr>de_lastSeenAt := max (de_lastSeenAt old) now\<rparr>"
  have n: "device_ok ?d" using old(2) clock by (auto simp: device_ok_def max_def)
  obtain t p where p: "store_device env writes old ?d s = (t, p)" by fastforce
  have c: "case p of Inl e \<Rightarrow> same_store s t
    | Inr u \<Rightarrow> devices_ok (jset i ?d (dv_devices s)) \<and> stored env s (jset i ?d (dv_devices s)) t"
    using store_device_cases [OF ok _ n p] Some old(1) by (simp cong: sum.case_cong)
  show ?thesis
  proof (cases p)
    case (Inl e')
    then have "s' = t" "r = Inl e'" using step Some p by (simp_all add: mark_seen_def sbind_def Let_def)
    then show ?thesis using c Inl by simp
  next
    case (Inr w)
    then have "s' = t\<lparr>dv_events := dv_events s'\<rparr> \<and> r = Inr True"
      using step Some p by (auto simp: mark_seen_def sbind_def Let_def emit_def)
    then show ?thesis using c Inr Some by auto
  qed
qed

lemma revoke_device_cases:
  assumes ok: "devices_ok (dv_devices s)" and step: "revoke_device env writes throws i s = (s', r)"
  shows "(r \<noteq> Inl e \<or> same_store s s') \<and> (r = Inr False \<longrightarrow> s' = s \<and> get_device i s = None) \<and> (r = Inr True \<longrightarrow>
    get_device i s \<noteq> None
    \<and> (\<exists>t. stored env s (jdel i (dv_devices s)) t \<and> s' = closed_device i Device_revoked t s'))"
proof (cases "get_device i s")
  case None
  then show ?thesis using step same_store_refl [OF ok] by (auto simp: revoke_device_def)
next
  case (Some old)
  have g: "jget (dv_devices s) i = Some old" using Some by (simp add: get_device_def)
  have j: "jmap_ok (dv_devices s)" using ok by (simp add: devices_ok_def)
  obtain t p where p: "persist_or_undo env writes (jset i old) (s\<lparr>dv_devices := jdel i (dv_devices s)\<rparr>) = (t, p)" by fastforce
  show ?thesis
  proof (cases p)
    case (Inl e')
    then have "s' = t" "r = Inl e'" using step Some p by (simp_all add: revoke_device_def sbind_def)
    moreover have "same_store s t"
      using change_undone [OF p [unfolded Inl]] j set_jset_jdel [OF j g] by simp
    ultimately show ?thesis by simp
  next
    case (Inr w)
    have st: "stored env s (jdel i (dv_devices s)) t"
      using change_stored [OF devices_ok_jdel [OF ok] p [unfolded Inr]] by (simp only: stored_def)
    obtain t' q where q: "close_connections throws i Device_revoked t = (t', q)" by fastforce
    then have "s' = t'\<lparr>dv_events := dv_events s'\<rparr> \<and> r = Inr True"
      using step Some p Inr close_connections_eq [OF q] by (auto simp: revoke_device_def sbind_def emit_def)
    then show ?thesis using st Some closed_then [OF q] by auto
  qed
qed

section \<open>The invariant is kept\<close>

lemma store_ok_events [simp]: "store_ok env (s\<lparr>dv_events := es\<rparr>) = store_ok env s"
  by (simp add: store_ok_def connections_ok_def get_device_def file_ok_def file_holds_def)

lemma stored_ok:
  assumes "store_ok env s" "devices_ok m" "stored env s m t" "\<And>i. jget (dv_devices s) i \<noteq> None \<Longrightarrow> jget m i \<noteq> None"
  shows "store_ok env t"
proof -
  from assms(3) obtain f where t: "t = s\<lparr>dv_devices := m, dv_file := f\<rparr>" "file_ok env t"
    unfolding stored_def by blast
  have "connections_ok t" using assms(1,4) unfolding t(1)
    by (auto simp: connections_ok_def store_ok_def get_device_def)
  then show ?thesis using assms(1,2) t by (simp add: store_ok_def)
qed

lemma file_ok_closed: "file_ok env (closed_device i reason t s') = file_ok env t"
  by (simp add: file_ok_def file_holds_def closed_device_def)

lemma closed_ok:
  assumes "identity_ok env (dv_identity t)" "devices_ok (dv_devices t)" "file_ok env t" "jmap_ok (dv_connections t)"
    "\<And>j m. (j, m) \<in> set (dv_connections t) \<Longrightarrow> j = i \<or> get_device j t \<noteq> None \<and> m \<noteq> []"
  shows "store_ok env (closed_device i reason t s')"
proof -
  have "connections_ok (closed_device i reason t s')"
    using assms(4,5) by (fastforce simp: connections_ok_def closed_device_def set_jdel get_device_def)
  moreover have "file_ok env (closed_device i reason t s')" using assms(3) by (simp only: file_ok_closed)
  ultimately show ?thesis using assms(1,2) by (simp add: store_ok_def) (simp add: closed_device_def)
qed

lemma store_ok_closed: "store_ok env t \<Longrightarrow> store_ok env (closed_device i reason t s')"
  by (rule closed_ok) (auto simp: store_ok_def connections_ok_def)

lemma revoked_ok:
  assumes "store_ok env s" "stored env s (jdel i (dv_devices s)) t"
  shows "store_ok env (closed_device i reason t s')"
proof -
  from assms(2) obtain f where t: "t = s\<lparr>dv_devices := jdel i (dv_devices s), dv_file := f\<rparr>" "file_ok env t"
    unfolding stored_def by blast
  show ?thesis
    using assms(1) t(2) devices_ok_jdel [of "dv_devices s" i] unfolding t(1)
    by (intro closed_ok) (auto simp: store_ok_def connections_ok_def get_device_def)
qed

lemma register_ok:
  assumes "store_ok env s" "register_connection i close s = (s', r)"
  shows "store_ok env s'"
proof (cases "get_device i s")
  case None
  then show ?thesis using assms by (simp add: register_connection_def)
next
  case (Some d)
  have "jset k v m \<noteq> []" "[] \<noteq> jset k v m" for k v and m :: "(nat, nat) jmap" by (cases m; auto simp: jset_def)+
  moreover have "jmap_ok (dv_connections s)" using assms(1) by (simp add: store_ok_def connections_ok_def)
  ultimately have "connections_ok s'"
    using assms Some
    by (fastforce simp: register_connection_def store_ok_def connections_ok_def Let_def set_jset get_device_def)
  moreover have "dv_identity s' = dv_identity s" "dv_devices s' = dv_devices s" "file_ok env s' = file_ok env s"
    using assms(2) Some by (auto simp: register_connection_def Let_def file_ok_def file_holds_def)
  ultimately show ?thesis using assms(1) by (simp add: store_ok_def)
qed

lemma unregister_ok:
  assumes "store_ok env s" "unregister_connection i token s = (s', r)"
  shows "store_ok env s'"
proof -
  have "jmap_ok (dv_connections s)" using assms(1) by (simp add: store_ok_def connections_ok_def)
  then have "connections_ok s'"
    using assms by (auto simp: unregister_connection_def store_ok_def connections_ok_def Let_def set_jset set_jdel
        get_device_def split: option.splits if_splits dest!: jget_Some_in)
  moreover have "dv_identity s' = dv_identity s" "dv_devices s' = dv_devices s" "file_ok env s' = file_ok env s"
    using assms(2) by (auto simp: unregister_connection_def Let_def file_ok_def file_holds_def split: option.splits if_splits)
  ultimately show ?thesis using assms(1) by (simp add: store_ok_def)
qed

section \<open>Reading the file back\<close>

text \<open>\<open>safeStorage\<close> gives back the key it was given, to this account, as long as the file is unchanged.\<close>

definition store_law :: "'k store_env \<Rightarrow> bool" where
  "store_law env \<longleftrightarrow> key_law (se_crypto env) \<and>
     (\<forall>k t. se_protect env k = Some t \<longrightarrow>
        (rc_isEd (se_crypto env) k \<longrightarrow> se_unprotect env Ed25519 (Some (JStr t)) = Inr k)
        \<and> (rc_isX (se_crypto env) k \<longrightarrow> se_unprotect env X25519 (Some (JStr t)) = Inr k))"

lemma identity_okD:
  assumes "identity_ok env i"
  shows "proper_identity (se_crypto env) i" "id_role i = Desktop_party"
    "rc_isEd (se_crypto env) (id_identityPrivate i)" "rc_isX (se_crypto env) (id_staticPrivate i)"
proof -
  note c = assms [unfolded identity_ok_def]
  show "proper_identity (se_crypto env) i" "id_role i = Desktop_party" using create_identity_proper [OF c] by auto
  show "rc_isEd (se_crypto env) (id_identityPrivate i)" "rc_isX (se_crypto env) (id_staticPrivate i)"
    using c unfolding create_identity_def by (auto elim!: ebind_InrE require_InrE)
qed

lemma create_identity_ok:
  assumes "create_identity (se_crypto env) Desktop_party ident name a b = Inr i"
  shows "identity_ok env i"
proof -
  from assms obtain j ed x r where j: "valid_id ident = Inr j"
    and e: "export_public (rc_edPublic (se_crypto env) a) = Inr ed" "export_public (rc_xPublic (se_crypto env) b) = Inr x"
    and k: "rc_isEd (se_crypto env) a" "rc_isX (se_crypto env) b"
    and r: "sign_key_record (se_crypto env) a Desktop_party ident (Some (JStr (b64url x))) = Inr r"
    and i: "i = \<lparr>id_id = j, id_role = Desktop_party,
            id_displayName = (case as_str name of Some s \<Rightarrow> take 80 s | None \<Rightarrow> default_name Desktop_party),
            id_identityPrivate = a, id_identityPublic = b64url ed,
            id_staticPrivate = b, id_staticPublic = b64url x, id_keyRecord = r\<rparr>"
    unfolding create_identity_def by (elim ebind_InrE require_InrE) auto
  have "ident = Some (JStr j)" "valid_id (Some (JStr j)) = Inr j" using j by (auto simp: valid_id_Inr)
  then show ?thesis
    using e k r by (simp add: identity_ok_def create_identity_def i default_name_def split: option.split)
qed

lemma json_plain_exact: "json_plain v \<Longrightarrow> json_exact v"
  by (induction v rule: json_exact.induct) (auto simp: list_all_iff intro!: enumeration_order_plain)

lemma device_json_plain: "device_ok d \<Longrightarrow> json_plain (device_json d)"
  by (auto simp: device_json_def device_ok_def is_safe_def obj_def is_array_index_def list_all_iff exec_simps)

lemma payload_plain:
  assumes "identity_ok env i" "list_all device_ok ds"
  shows "json_plain (store_payload i ed x ds)"
proof -
  obtain a s where "key_record_json Desktop_party a (id_staticPublic i) (Some (JStr s)) = id_keyRecord i"
    using identity_okD(1,2) [OF assms(1)] unfolding proper_identity_def sign_key_record_def
    by (auto elim!: ebind_InrE simp: unsigned_key_record_Inr)
  then have "json_plain (id_keyRecord i)" using key_record_plain(2) by metis
  then have "json_plain (desktop_json i)"
    by (simp add: desktop_json_def) (simp add: obj_def is_array_index_def exec_simps)
  moreover have "list_all json_plain (map device_json ds)"
    using assms(2) by (auto simp: list_all_iff device_json_plain)
  ultimately show ?thesis
    by (simp add: store_payload_def) (simp add: obj_def is_array_index_def is_safe_def exec_simps)
qed

lemma load_devices_back:
  assumes "list_all device_ok ds" "distinct (map fst m @ map de_deviceId ds)"
  shows "load_devices now (map device_json ds) m = Inr (m @ map (\<lambda>d. (de_deviceId d, reloaded d)) ds)"
  using assms
proof (induction ds arbitrary: m)
  case (Cons d ds)
  have n: "jget m (de_deviceId d) = None" using Cons.prems(2) by (auto simp: jget_None)
  have "de_deviceId (reloaded d) = de_deviceId d" by (simp add: reloaded_def)
  then show ?case
    using Cons n by (simp add: device_back jhas_def jset_new)
qed simp

lemma load_identity_back:
  assumes law: "store_law env" and i: "identity_ok env i"
    and k: "se_protect env (id_identityPrivate i) = Some ed" "se_protect env (id_staticPrivate i) = Some x"
  shows "load_identity env (store_payload i ed x ds) = Inr i"
proof -
  note p = identity_okD [OF i]
  have u: "se_unprotect env Ed25519 (Some (JStr ed)) = Inr (id_identityPrivate i)"
    "se_unprotect env X25519 (Some (JStr x)) = Inr (id_staticPrivate i)"
    using law k p(3,4) by (auto simp: store_law_def)
  have d: "device_id (Some (JStr (id_id i))) = Inr (id_id i)"
    using p(1) by (simp add: device_id_Inr proper_identity_def)
  have "\<exists>r. verify_signed_key_record (se_crypto env) (Some (id_keyRecord i))
      (Some (JStr (id_identityPublic i))) Desktop_party (Some (id_id i)) = Inr r
      \<and> field (id_keyRecord i) ''x25519StaticPublic'' = Some (JStr (id_staticPublic i))"
  proof -
    have s: "sign_key_record (se_crypto env) (id_identityPrivate i) Desktop_party (Some (JStr (id_id i)))
        (Some (JStr (id_staticPublic i))) = Inr (id_keyRecord i)"
      using p(1) unfolding proper_identity_def p(2) by (elim conjE)
    have pub: "Some (JStr (id_identityPublic i)) = Some (JStr (b64url (rc_edPublic (se_crypto env) (id_identityPrivate i))))"
      using p(1) unfolding proper_identity_def by (elim conjE) (simp only:)
    have "key_law (se_crypto env)" using law by (simp only: store_law_def)
    then show ?thesis
    proof (rule sign_then_verify [OF _ s pub], goal_cases)
      case (1 a b)
      from 1(5) [of "Some a"] obtain s' where
        "verify_signed_key_record (se_crypto env) (Some (id_keyRecord i)) (Some (JStr (id_identityPublic i))) Desktop_party (Some a)
           = Inr \<lparr>kr_role = Desktop_party, kr_id = a, kr_static = b64url b, kr_signature = s'\<rparr>"
        "id_keyRecord i = key_record_json Desktop_party a (b64url b) (Some (JStr s'))" by auto
      then show ?case using 1(1,3) by simp
    qed
  qed
  then obtain r where v: "verify_signed_key_record (se_crypto env) (Some (id_keyRecord i))
      (Some (JStr (id_identityPublic i))) Desktop_party (Some (id_id i)) = Inr r"
    and x: "field (id_keyRecord i) ''x25519StaticPublic'' = Some (JStr (id_staticPublic i))" by (elim exE conjE)
  have f: "field (store_payload i ed x ds) ''desktop'' = Some (desktop_json i)"
    "sub_field (field (store_payload i ed x ds) ''protectedPrivate'') ''ed25519'' = Some (JStr ed)"
    "sub_field (field (store_payload i ed x ds) ''protectedPrivate'') ''x25519'' = Some (JStr x)"
    by (simp_all add: store_payload_def sub_field_def)
  have g: "field (desktop_json i) ''desktopId'' = Some (JStr (id_id i))"
    "field (desktop_json i) ''displayName'' = Some (JStr (id_displayName i))"
    "field (desktop_json i) ''identityPublic'' = Some (JStr (id_identityPublic i))"
    "field (desktop_json i) ''x25519StaticPublic'' = Some (JStr (id_staticPublic i))"
    "field (desktop_json i) ''keyRecord'' = Some (id_keyRecord i)"
    by (simp_all add: desktop_json_def)
  have sf: "sub_field (Some v) k = field v k" for v k by (simp add: sub_field_def)
  have h: "i\<lparr>id_keyRecord := id_keyRecord i\<rparr> = i" by simp
  show ?thesis
    by (simp only: load_identity_def Let_def f sf g u d lift_crypto_def i [unfolded identity_ok_def] v x ebind_Inr
        sum.case h require_def if_True simp_thms option.sel)
qed

lemma reopen:
  assumes law: "store_law env" and i: "identity_ok env (dv_identity s)" and f: "file_holds env s ed x ds"
  shows "load_or_create env True writes now fresh (dv_file s)
    = Inr ((empty_store (dv_identity s) (dv_file s))\<lparr>dv_devices := map (\<lambda>d. (de_deviceId d, reloaded d)) ds\<rparr>)"
proof -
  let ?p = "store_payload (dv_identity s) ed x ds"
  let ?b = "utf8_encode (stringify ?p)"
  have plain: "json_plain ?p" using payload_plain [OF i] f by (simp add: file_holds_def)
  have parse: "parse_bytes (se_crypto env) ?b = Some ?p"
    by (simp add: parse_bytes_def parse_encoded json_plain_exact [OF plain])
  have "?b \<noteq> []"
  proof
    assume "?b = []"
    moreover have "utf8_decode [] = []" by code_simp
    ultimately have "utf8_decode ?b = []" by metis
    then have "json_parse (\<lambda>_. JNull) [] = Some ?p"
      using parse_encoded [OF json_plain_exact [OF plain], of "\<lambda>_. JNull"] by simp
    then show False by (simp add: json_parse_def skip_space_def)
  qed
  then have l: "1 \<le> length ?b" by (cases ?b) simp_all
  have t: "truthy (Some ?p)" "field ?p ''v'' = Some (JInt 1)" "truthy (field ?p ''desktop'')"
    "truthy (field ?p ''protectedPrivate'')" "as_arr (field ?p ''devices'') = Some (map device_json ds)"
    by (simp_all add: store_payload_def desktop_json_def) (simp_all add: obj_def)
  have ds: "load_devices now (map device_json ds) [] = Inr (map (\<lambda>d. (de_deviceId d, reloaded d)) ds)"
    using f load_devices_back [of ds "[]" now] by (simp add: file_holds_def)
  show ?thesis
    using f l parse t ds load_identity_back [OF law i, of ed x ds]
    by (simp add: load_or_create_def file_holds_def)
qed

section \<open>Every store that can be reached\<close>

datatype device_op =
    Pair "json option" bool
  | Set_capabilities jstr "json option"
  | Rename jstr "json option"
  | Mark_seen jstr
  | Register jstr nat
  | Unregister jstr nat
  | Revoke jstr

definition outcome :: "'s \<times> ('e + 'a) \<Rightarrow> 's \<times> 'e option" where
  "outcome r = (fst r, case snd r of Inl e \<Rightarrow> Some e | Inr x \<Rightarrow> None)"

lemma outcome_Some: "outcome r = (s', Some e) \<longleftrightarrow> r = (s', Inl e)"
  by (cases r) (auto simp: outcome_def split: sum.splits)

fun perform ::
  "'k store_env \<Rightarrow> bool \<Rightarrow> (nat \<Rightarrow> bool) \<Rightarrow> int \<Rightarrow> device_op \<Rightarrow> 'k device_store \<Rightarrow> 'k device_store \<times> device_error option" where
  "perform env writes throws now (Pair v replace) s = outcome (pair_device env writes throws now v replace s)"
| "perform env writes throws now (Set_capabilities i v) s = outcome (set_capabilities env writes throws i v s)"
| "perform env writes throws now (Rename i v) s = outcome (rename_device env writes i v s)"
| "perform env writes throws now (Mark_seen i) s = outcome (mark_seen env writes now i s)"
| "perform env writes throws now (Register i close) s = outcome (register_connection i close s)"
| "perform env writes throws now (Unregister i token) s = outcome (unregister_connection i token s)"
| "perform env writes throws now (Revoke i) s = outcome (revoke_device env writes throws i s)"

text \<open>
  A store is created where there is no usable file, changed by any of its methods, and opened again from
  the file it left, with any clock, failing writes and throwing callbacks.
\<close>

inductive device_reach :: "'k store_env \<Rightarrow> 'k device_store \<Rightarrow> bool" for env where
  created: "create_identity (se_crypto env) Desktop_party ident name a b = Inr i \<Longrightarrow>
    create_store env writes file (Inr i) = Inr s \<Longrightarrow> device_reach env s"
| performed: "device_reach env s \<Longrightarrow> 0 \<le> now \<Longrightarrow> is_safe now \<Longrightarrow>
    device_reach env (fst (perform env writes throws now op s))"
| reopened: "device_reach env s \<Longrightarrow> load_or_create env True writes now fresh (dv_file s) = Inr s' \<Longrightarrow>
    device_reach env s'"

lemma created_ok:
  assumes i: "identity_ok env i" and c: "create_store env writes file (Inr i) = Inr s"
  shows "store_ok env s"
proof -
  obtain u where "persist env writes (empty_store i file) = (s, Inr u)"
    using c by (auto simp: create_store_def require_eq_Inr split: prod.splits sum.splits)
  moreover have d: "devices_ok (dv_devices (empty_store i file))" by (simp add: devices_ok_def empty_store_def)
  ultimately have "s = (empty_store i file)\<lparr>dv_file := dv_file s\<rparr>" "file_ok env s" using persist_Inr by blast+
  then obtain f where s: "s = (empty_store i file)\<lparr>dv_file := f\<rparr>" "file_ok env s" by blast
  have "connections_ok s" by (simp add: connections_ok_def empty_store_def s(1))
  then show ?thesis using i d s(2) by (simp add: store_ok_def) (simp add: s(1) empty_store_def)
qed

lemma js_trim_le_hd: "device_ok d \<Longrightarrow> device_ok (reloaded d)"
  using js_trim_not_Nil [of "de_displayName d"] js_trim_hd [of "de_displayName d"] length_js_trim_le [of "de_displayName d"]
  by (auto simp: device_ok_def reloaded_def)

lemma reloaded_idem [simp]: "reloaded (reloaded d) = reloaded d"
  by (simp add: reloaded_def)

lemma reopened_ok:
  assumes law: "store_law env" and ok: "store_ok env s"
    and l: "load_or_create env True writes now fresh (dv_file s) = Inr s'"
  shows "store_ok env s'"
proof -
  from ok obtain ed x ds where f: "file_holds env s ed x ds" by (auto simp: store_ok_def file_ok_def)
  have i: "identity_ok env (dv_identity s)" using ok by (simp add: store_ok_def)
  have s': "s' = (empty_store (dv_identity s) (dv_file s))\<lparr>dv_devices := map (\<lambda>d. (de_deviceId d, reloaded d)) ds\<rparr>"
    using reopen [OF law i f] l by simp
  have ids: "distinct (map de_deviceId ds)" using f by (simp add: file_holds_def)
  have d: "devices_ok (dv_devices s)" using ok by (simp add: store_ok_def)
  have "de_deviceId ` set ds = de_deviceId ` reloaded ` set ds" by (simp add: image_image reloaded_def)
  also have "\<dots> = de_deviceId ` reloaded ` set (map snd (dv_devices s))" using f by (simp add: file_holds_def)
  also have "\<dots> = set (map de_deviceId (map snd (dv_devices s)))" by (simp add: image_image reloaded_def)
  finally have "card (set (map de_deviceId ds)) = card (set (map de_deviceId (map snd (dv_devices s))))" by simp
  then have "length ds = length (dv_devices s)"
    using ids devices_ok_distinct [OF d] by (simp only: distinct_card length_map)
  then have "devices_ok (dv_devices s')"
    using d ids f js_trim_le_hd
    by (auto simp: s' devices_ok_def empty_store_def jmap_ok_def comp_def file_holds_def list_all_iff reloaded_def)
  moreover have "file_holds env s' ed x ds"
    using f by (simp add: file_holds_def s' empty_store_def image_image comp_def)
  moreover have "connections_ok s'" by (simp add: connections_ok_def s' empty_store_def)
  ultimately show ?thesis using i unfolding store_ok_def file_ok_def by (auto simp: s' empty_store_def)
qed

lemma jget_jset_covers: "jget m i \<noteq> None \<Longrightarrow> jget (jset j d m) i \<noteq> None"
  by simp

lemma perform_ok:
  assumes ok: "store_ok env s" and clock: "0 \<le> now" "is_safe now"
  shows "store_ok env (fst (perform env writes throws now op s))"
proof -
  have d: "devices_ok (dv_devices s)" using ok by (simp add: store_ok_def)
  note stored_set = stored_ok [OF ok _ _ jget_jset_covers]
  have changed: "store_ok env s'"
    if "devices_ok (jset j c (dv_devices s))" "stored env s (jset j c (dv_devices s)) t" "s' = t\<lparr>dv_events := es\<rparr>"
    for s' t es j c
    using stored_set [OF that(1,2)] that(3) by simp
  have closed: "store_ok env s'"
    if "devices_ok (jset j c (dv_devices s))" "stored env s (jset j c (dv_devices s)) t"
      "s' = closed_device j' reason t t'" for s' j j' c t t' reason
    using stored_set [OF that(1,2)] unfolding that(3) by (rule store_ok_closed)
  note same = same_store_ok [OF ok]
  show ?thesis
  proof (cases op)
    case (Pair v replace)
    obtain s' r where p: "pair_device env writes throws now v replace s = (s', r)" by fastforce
    have "store_ok env s'"
    proof (cases r)
      case (Inl e)
      then show ?thesis using pair_device_cases [OF d clock p] same by simp
    next
      case (Inr c)
      then have m: "devices_ok (jset (de_deviceId c) c (dv_devices s))"
        and "\<exists>t. stored env s (jset (de_deviceId c) c (dv_devices s)) t
             \<and> s' = (if get_device (de_deviceId c) s = None then t\<lparr>dv_events := dv_events s'\<rparr>
                     else closed_device (de_deviceId c) Device_repaired t s')"
        using pair_device_cases [OF d clock p] by (simp_all only: sum.case)
      then obtain t where t: "stored env s (jset (de_deviceId c) c (dv_devices s)) t"
        "s' = t\<lparr>dv_events := dv_events s'\<rparr> \<or> s' = closed_device (de_deviceId c) Device_repaired t s'"
        by metis
      from t(2) show ?thesis using changed [OF m t(1)] closed [OF m t(1)] by blast
    qed
    then show ?thesis by (simp add: Pair p outcome_def)
  next
    case (Set_capabilities i v)
    obtain s' r where p: "set_capabilities env writes throws i v s = (s', r)" by fastforce
    have "store_ok env s'"
    proof (cases r)
      case (Inl e)
      then show ?thesis using set_capabilities_cases [OF d p] same by simp
    next
      case (Inr c)
      then show ?thesis using set_capabilities_cases [OF d p] closed unfolding Inr sum.case by blast
    qed
    then show ?thesis by (simp add: Set_capabilities p outcome_def)
  next
    case (Rename i v)
    obtain s' r where p: "rename_device env writes i v s = (s', r)" by fastforce
    have "store_ok env s'"
    proof (cases r)
      case (Inl e)
      then show ?thesis using rename_device_cases [OF d p, of e] same by blast
    next
      case (Inr c)
      then show ?thesis using rename_device_cases [OF d p, of _ c] ok changed by metis
    qed
    then show ?thesis by (simp add: Rename p outcome_def)
  next
    case (Mark_seen i)
    obtain s' r where p: "mark_seen env writes now i s = (s', r)" by fastforce
    have "store_ok env s'"
    proof (cases r)
      case (Inl e)
      then show ?thesis using mark_seen_cases [OF d clock(2) p, of e] same by blast
    next
      case (Inr b)
      then show ?thesis using mark_seen_cases [OF d clock(2) p] ok changed by (cases b) metis+
    qed
    then show ?thesis by (simp add: Mark_seen p outcome_def)
  next
    case (Register i c)
    then show ?thesis using register_ok [OF ok, of i c] by (simp add: outcome_def) (metis prod.collapse)
  next
    case (Unregister i c)
    then show ?thesis using unregister_ok [OF ok, of i c] by (simp add: outcome_def) (metis prod.collapse)
  next
    case (Revoke i)
    obtain s' r where p: "revoke_device env writes throws i s = (s', r)" by fastforce
    have "store_ok env s'"
    proof (cases r)
      case (Inl e)
      then show ?thesis using revoke_device_cases [OF d p, of e] same by blast
    next
      case (Inr b)
      then show ?thesis using revoke_device_cases [OF d p] ok revoked_ok [OF ok] by (cases b) metis+
    qed
    then show ?thesis by (simp add: Revoke p outcome_def)
  qed
qed

lemma device_reach_ok: "device_reach env s \<Longrightarrow> store_law env \<Longrightarrow> store_ok env s"
proof (induction rule: device_reach.induct)
  case (created ident name a b i writes f s)
  show ?case by (rule created_ok [OF create_identity_ok [OF created(1)] created(2)])
next
  case (performed s now writes throws op)
  then show ?case by (intro perform_ok) simp_all
next
  case (reopened s writes now fresh s')
  then show ?case by (intro reopened_ok [OF reopened.prems(1) _ reopened.hyps(2)]) simp
qed

lemma perform_failed:
  assumes ok: "store_ok env s" and clock: "0 \<le> now" "is_safe now"
    and p: "perform env writes throws now op s = (s', Some e)"
  shows "same_store s s'"
proof -
  have d: "devices_ok (dv_devices s)" using ok by (simp add: store_ok_def)
  show ?thesis
  proof (cases op)
    case (Pair v replace)
    then show ?thesis using pair_device_cases [OF d clock, of env writes throws v replace s' "Inl e"] p by (simp add: outcome_Some)
  next
    case (Set_capabilities i v)
    then show ?thesis using set_capabilities_cases [OF d, of env writes throws i v s' "Inl e"] p by (simp add: outcome_Some)
  next
    case (Rename i v)
    then show ?thesis using rename_device_cases [OF d, of env writes i v s' "Inl e" e] p by (simp add: outcome_Some)
  next
    case (Mark_seen i)
    then show ?thesis using mark_seen_cases [OF d clock(2), of env writes i s' "Inl e" e] p by (simp add: outcome_Some)
  next
    case (Register i c)
    then show ?thesis using p same_store_refl [OF d] by (auto simp: outcome_Some register_connection_def Let_def split: if_splits)
  next
    case (Unregister i c)
    then show ?thesis using p by (auto simp: outcome_Some unregister_connection_def Let_def split: option.splits if_splits)
  next
    case (Revoke i)
    then show ?thesis using revoke_device_cases [OF d, of env writes throws i s' "Inl e" e] p by (simp add: outcome_Some)
  qed
qed

section \<open>A concrete store\<close>

definition example_env :: "unit store_env" where
  "example_env =
     \<lparr>se_crypto = example_runtime, se_protect = (\<lambda>_. Some (js ''a2V5'')), se_unprotect = (\<lambda>_ _. Inr ()), se_collate = (\<lambda>_ _. 0)\<rparr>"

definition example_identity :: "unit identity" where
  "example_identity =
     \<lparr>id_id = js ''a'', id_role = Desktop_party, id_displayName = js ''Kaisola Desktop'',
      id_identityPrivate = (), id_identityPublic = b64url (replicate 32 1),
      id_staticPrivate = (), id_staticPublic = b64url (replicate 32 2),
      id_keyRecord = key_record_json Desktop_party (js ''a'') (b64url (replicate 32 2)) (Some (JStr (b64url (replicate 64 3))))\<rparr>"

definition example_device :: device where
  "example_device =
     \<lparr>de_deviceId = js ''b'', de_displayName = js ''Phone'', de_identityPublic = b64url (replicate 32 8),
      de_staticPublic = b64url (replicate 32 9), de_capabilities = [Observe], de_pairedAt = 0, de_lastSeenAt = 0\<rparr>"

lemma example_law: "store_law example_env"
  using example_key_law by (simp add: store_law_def example_env_def)

lemma example_id_ok: "identifier_ok MAX_ID_LENGTH (js ''a'')" "identifier_ok MAX_ID_LENGTH (js ''b'')"
  by (simp_all add: identifier_ok_def MAX_ID_LENGTH_def exec_simps)

lemma example_identity_created:
  "create_identity (se_crypto example_env) Desktop_party (Some (JStr (js ''a''))) None () () = Inr example_identity"
proof -
  obtain m where m: "key_record_signing_bytes (key_record_json Desktop_party (js ''a'') (b64url (replicate 32 2)) None) = Inr m"
    using signing_bytes_total by blast
  show ?thesis
    using m example_id_ok(1)
    by (simp add: create_identity_def valid_id_def export_public_def sign_key_record_def unsigned_key_record_def
        example_env_def example_runtime_def example_identity_def default_name_def)
qed

lemma example_device_ok: "device_ok example_device"
  using example_id_ok(2) by (auto simp: device_ok_def example_device_def key_text_ok_def CAPABILITIES_def is_safe_def
      exec_simps is_space_unit_def intro: exI [of _ "replicate 32 8"] exI [of _ "replicate 32 9"])

lemma example_payload_size:
  "ds = [] \<or> ds = [example_device] \<Longrightarrow>
   length (utf8_encode (stringify (store_payload example_identity (js ''a2V5'') (js ''a2V5'') ds))) \<le> MAX_STORE_BYTES"
proof -
  assume "ds = [] \<or> ds = [example_device]"
  then have "json_size (store_payload example_identity (js ''a2V5'') (js ''a2V5'') ds) \<le> 100000"
    by (auto simp: store_payload_def desktop_json_def example_identity_def example_device_def device_json_def
        key_record_json_def obj_def length_b64url exec_simps digits_of.simps)
  then show ?thesis
    using json_bytes_le [of "store_payload example_identity (js ''a2V5'') (js ''a2V5'') ds"]
    by (simp add: json_bytes_def MAX_STORE_BYTES_def)
qed

definition example_store :: "unit device_store" where
  "example_store = fst (perform example_env True (\<lambda>_. False) 0 (Register (js ''b'') 7)
     (fst (perform example_env True (\<lambda>_. False) 0 (Pair (Some (device_json example_device)) False)
       (fst (persist example_env True (empty_store example_identity None))))))"

lemma example_persisted:
  "dv_identity s = example_identity \<Longrightarrow> map snd (dv_devices s) = [] \<or> map snd (dv_devices s) = [example_device] \<Longrightarrow>
   persist example_env w s = (if w then (s\<lparr>dv_file := Some (utf8_encode (stringify
     (store_payload example_identity (js ''a2V5'') (js ''a2V5'') (map snd (dv_devices s)))))\<rparr>, Inr ()) else (s, Inl Dv_write_failed))"
  using example_payload_size [of "map snd (dv_devices s)"]
  by (auto simp: persist_def example_env_def sort_by_def not_less)

lemma example_clean: "clean_device_record (Some (device_json example_device)) now = Inr example_device"
proof -
  have "reloaded example_device = example_device"
    by (simp add: reloaded_def example_device_def trimmed_def exec_simps is_space_unit_def)
  then show ?thesis using device_back [OF example_device_ok] by simp
qed

lemma example_store_eq:
  "\<exists>f. example_store = \<lparr>dv_identity = example_identity, dv_devices = [(js ''b'', example_device)],
     dv_connections = [(js ''b'', [(0, 7)])], dv_file = f, dv_fresh = 1, dv_closed = [],
     dv_events = [Ev_paired example_device, Ev_connected (js ''b'')]\<rparr>"
proof -
  have i: "de_deviceId example_device = js ''b''" by (simp add: example_device_def)
  show ?thesis
    by (simp add: example_store_def example_persisted empty_store_def pair_device_def sbind_def example_clean Let_def
        get_device_def persist_or_undo_def i MAX_PAIRED_DEVICES_def jset_def emit_def outcome_def register_connection_def jget_def)
qed

lemma example_reach: "device_reach example_env example_store"
proof -
  have "create_store example_env True None (Inr example_identity) = Inr (fst (persist example_env True (empty_store example_identity None)))"
    by (simp add: create_store_def require_def example_persisted empty_store_def)
       (simp add: example_identity_def)
  from created [OF example_identity_created this] show ?thesis
    unfolding example_store_def by (intro performed) (simp_all add: is_safe_def max_safe_integer_def)
qed

section \<open>Properties\<close>

text \<open>
  C18. What the store has reported as stored is what the next start finds. For every store that can be
  reached, opening the file that it left gives the same identity, key record included, and the same
  paired devices under the same identifiers, with nothing added and nothing lost, but for trailing
  white space in names that were cut at 80 units; it starts without connections.
\<close>

theorem device_store_durable:
  assumes "store_law env" "device_reach env s"
  shows "\<exists>m. jmap_ok m \<and> set m = (\<lambda>e. (fst e, reloaded (snd e))) ` set (dv_devices s) \<and>
    (\<forall>writes now fresh. load_or_create env True writes now fresh (dv_file s)
       = Inr ((empty_store (dv_identity s) (dv_file s))\<lparr>dv_devices := m\<rparr>))"
proof -
  have ok: "store_ok env s" using device_reach_ok assms by blast
  then obtain ed x ds where f: "file_holds env s ed x ds" by (auto simp: store_ok_def file_ok_def)
  have i: "identity_ok env (dv_identity s)" and d: "devices_ok (dv_devices s)" using ok by (simp_all add: store_ok_def)
  let ?m = "map (\<lambda>d. (de_deviceId d, reloaded d)) ds"
  let ?key = "\<lambda>d. (de_deviceId d, d)"
  have "set ?m = ?key ` reloaded ` set ds" by (simp add: image_image reloaded_def)
  also have "\<dots> = ?key ` reloaded ` set (map snd (dv_devices s))" using f by (simp add: file_holds_def)
  also have "\<dots> = (\<lambda>e. (fst e, reloaded (snd e))) ` set (dv_devices s)"
    using d by (auto simp: image_image devices_ok_def reloaded_def intro!: image_cong)
  finally have "set ?m = (\<lambda>e. (fst e, reloaded (snd e))) ` set (dv_devices s)" .
  moreover have "jmap_ok ?m" using f by (simp add: file_holds_def jmap_ok_def comp_def)
  ultimately show ?thesis using reopen [OF assms(1) i f] by blast
qed

theorem device_store_durable_witness:
  "\<exists>m. load_or_create example_env True False 5 (Inl Dv_invalid_record) (dv_file example_store)
      = Inr ((empty_store example_identity (dv_file example_store))\<lparr>dv_devices := m\<rparr>)
    \<and> set m = {(js ''b'', reloaded example_device)}"
proof -
  obtain f where e: "example_store = \<lparr>dv_identity = example_identity, dv_devices = [(js ''b'', example_device)],
     dv_connections = [(js ''b'', [(0, 7)])], dv_file = f, dv_fresh = 1, dv_closed = [],
     dv_events = [Ev_paired example_device, Ev_connected (js ''b'')]\<rparr>" using example_store_eq by blast
  obtain m where "set m = (\<lambda>e. (fst e, reloaded (snd e))) ` set (dv_devices example_store)"
    "\<forall>writes now fresh. load_or_create example_env True writes now fresh (dv_file example_store)
       = Inr ((empty_store (dv_identity example_store) (dv_file example_store))\<lparr>dv_devices := m\<rparr>)"
    using device_store_durable [OF example_law example_reach] by blast
  then show ?thesis by (intro exI [of _ m]) (simp add: e)
qed

text \<open>
  C20. A method that throws changes nothing. Whatever a method of a reachable store is given and
  wherever it fails, in the checks, in the key storage, at the size limit or when writing, the paired
  devices, the live connections, the file, the callbacks called and the events emitted are what they
  were before.
\<close>

theorem device_store_atomic:
  assumes "store_law env" "device_reach env s" "0 \<le> now" "is_safe now"
    and "perform env writes throws now op s = (s', Some e)"
  shows "(\<forall>i. get_device i s' = get_device i s) \<and> dv_connections s' = dv_connections s \<and> dv_file s' = dv_file s
    \<and> dv_closed s' = dv_closed s \<and> dv_events s' = dv_events s \<and> dv_identity s' = dv_identity s"
proof -
  have ok: "store_ok env s" using device_reach_ok assms(1,2) by blast
  obtain m where m: "jmap_ok m" "set m = set (dv_devices s)" "s' = s\<lparr>dv_devices := m\<rparr>"
    using perform_failed [OF ok assms(3-5)] by (auto simp: same_store_def)
  have "jmap_ok (dv_devices s)" using ok by (simp add: store_ok_def devices_ok_def)
  from jget_set_eq [OF this m(1,2)] show ?thesis by (simp add: m(3) get_device_def)
qed

theorem device_store_atomic_witness:
  "\<exists>s'. perform example_env False (\<lambda>_. False) 0 (Revoke (js ''b'')) example_store = (s', Some Dv_write_failed)
    \<and> get_device (js ''b'') s' = Some example_device"
proof -
  obtain f where e: "example_store = \<lparr>dv_identity = example_identity, dv_devices = [(js ''b'', example_device)],
     dv_connections = [(js ''b'', [(0, 7)])], dv_file = f, dv_fresh = 1, dv_closed = [],
     dv_events = [Ev_paired example_device, Ev_connected (js ''b'')]\<rparr>" using example_store_eq by blast
  have "snd (perform example_env False (\<lambda>_. False) 0 (Revoke (js ''b'')) example_store) = Some Dv_write_failed"
    by (simp add: e revoke_device_def get_device_def jget_def sbind_def persist_or_undo_def jdel_def example_persisted outcome_def)
  then obtain s' where p: "perform example_env False (\<lambda>_. False) 0 (Revoke (js ''b'')) example_store = (s', Some Dv_write_failed)"
    by (metis prod.collapse)
  have "get_device (js ''b'') s' = get_device (js ''b'') example_store"
    using device_store_atomic [OF example_law example_reach _ _ p] by (simp add: is_safe_def max_safe_integer_def)
  then show ?thesis using p by (simp add: e get_device_def jget_def)
qed

text \<open>
  C19. Revocation is complete. When revoking a device of a reachable store has succeeded, the device is
  neither in memory nor in the file that the next start reads, it has no connection, and the callback of
  each of its connections was called once with the reason; the other devices keep their records and
  connections.
\<close>

theorem revocation_complete:
  assumes law: "store_law env" and s: "device_reach env s"
    and r: "revoke_device env writes throws i s = (s', Inr True)"
  shows "get_device i s \<noteq> None \<and> get_device i s' = None \<and> \<not> is_connected i s'
    \<and> dv_closed s' = dv_closed s @ map (\<lambda>c. (snd c, Device_revoked)) (case jget (dv_connections s) i of None \<Rightarrow> [] | Some m \<Rightarrow> m)
    \<and> (\<exists>t. load_or_create env True w now fresh (dv_file s') = Inr t \<and> get_device i t = None)
    \<and> (\<forall>j. j \<noteq> i \<longrightarrow> get_device j s' = get_device j s \<and> is_connected j s' = is_connected j s)"
proof -
  have ok: "store_ok env s" using device_reach_ok s law by blast
  then have d: "devices_ok (dv_devices s)" by (simp add: store_ok_def)
  from revoke_device_cases [OF d r] obtain t where g: "get_device i s \<noteq> None"
    and t: "stored env s (jdel i (dv_devices s)) t" "s' = closed_device i Device_revoked t s'" by auto
  obtain f where f: "t = s\<lparr>dv_devices := jdel i (dv_devices s), dv_file := f\<rparr>" using t(1) unfolding stored_def by blast
  have s': "s' = s\<lparr>dv_devices := jdel i (dv_devices s), dv_file := f, dv_connections := jdel i (dv_connections s),
     dv_closed := dv_closed s @ map (\<lambda>c. (snd c, Device_revoked)) (case jget (dv_connections s) i of None \<Rightarrow> [] | Some m \<Rightarrow> m),
     dv_events := dv_events s'\<rparr>"
    using t(2) unfolding closed_device_def f by simp
  have ok': "store_ok env s'" using revoked_ok [OF ok t(1)] t(2) by metis
  then obtain ed x ds where h: "file_holds env s' ed x ds" by (auto simp: store_ok_def file_ok_def)
  have "i \<notin> de_deviceId ` set ds"
  proof
    assume "i \<in> de_deviceId ` set ds"
    then have "i \<in> de_deviceId ` reloaded ` set ds" by (simp add: image_image reloaded_def)
    then have "i \<in> de_deviceId ` reloaded ` set (map snd (dv_devices s'))" using h by (simp add: file_holds_def)
    then have "i \<in> set (map de_deviceId (map snd (dv_devices s')))" by (simp add: image_image reloaded_def)
    then have "i \<in> set (map fst (dv_devices s'))" using ok' by (simp only: store_ok_def devices_ok_ids)
    then show False by (subst (asm) s') (auto simp: jdel_def)
  qed
  then have "jget (map (\<lambda>d. (de_deviceId d, reloaded d)) ds) i = None" by (auto simp: jget_None)
  then have "\<exists>t. load_or_create env True w now fresh (dv_file s') = Inr t \<and> get_device i t = None"
    using reopen [OF law _ h] ok' by (simp add: store_ok_def get_device_def empty_store_def)
  moreover have "get_device i s' = None" "\<not> is_connected i s'"
    by (subst s', simp add: get_device_def is_connected_def)+
  moreover have "get_device j s' = get_device j s" "is_connected j s' = is_connected j s" if "j \<noteq> i" for j
    using that by (subst s', simp add: get_device_def is_connected_def)+
  moreover have "dv_closed s' = dv_closed s @ map (\<lambda>c. (snd c, Device_revoked)) (case jget (dv_connections s) i of None \<Rightarrow> [] | Some m \<Rightarrow> m)"
    by (subst s') simp
  ultimately show ?thesis using g by blast
qed

theorem revocation_complete_witness:
  "\<exists>s'. revoke_device example_env True (\<lambda>_. False) (js ''b'') example_store = (s', Inr True)
    \<and> get_device (js ''b'') s' = None \<and> dv_closed s' = [(7, Device_revoked)]"
proof -
  obtain f where e: "example_store = \<lparr>dv_identity = example_identity, dv_devices = [(js ''b'', example_device)],
     dv_connections = [(js ''b'', [(0, 7)])], dv_file = f, dv_fresh = 1, dv_closed = [],
     dv_events = [Ev_paired example_device, Ev_connected (js ''b'')]\<rparr>" using example_store_eq by blast
  have "snd (revoke_device example_env True (\<lambda>_. False) (js ''b'') example_store) = Inr True"
    by (simp add: e revoke_device_def get_device_def jget_def sbind_def persist_or_undo_def jdel_def example_persisted
        close_connections_def emit_def)
  then obtain s' where p: "revoke_device example_env True (\<lambda>_. False) (js ''b'') example_store = (s', Inr True)"
    by (metis prod.collapse)
  then show ?thesis
    using revocation_complete [OF example_law example_reach p] by (simp add: e jget_def)
qed

text \<open>
  C21. Every store that can be reached is well-formed: at most 64 devices, each under its own valid
  identifier with two canonical 32-byte public keys, a name of 1 to 80 units, the capability to observe
  and no others than those of the table in their order, and safe time stamps that do not go backwards;
  and whatever is connected is paired.
\<close>

theorem device_store_well_formed:
  assumes "store_law env" "device_reach env s"
  shows "length (dv_devices s) \<le> MAX_PAIRED_DEVICES
    \<and> (get_device i s = Some d \<longrightarrow> de_deviceId d = i \<and> device_ok d)
    \<and> (is_connected i s \<longrightarrow> get_device i s \<noteq> None)"
proof -
  have ok: "store_ok env s" using device_reach_ok assms by blast
  then have d: "devices_ok (dv_devices s)" and c: "connections_ok s" by (simp_all add: store_ok_def)
  have "is_connected i s \<Longrightarrow> get_device i s \<noteq> None"
    using c by (auto simp: is_connected_def connections_ok_def split: option.splits dest: jget_Some_in)
  then show ?thesis using d devices_ok_get [OF d] by (auto simp: devices_ok_def get_device_def)
qed

theorem device_store_well_formed_witness:
  "device_ok example_device \<and> is_connected (js ''b'') example_store \<and> length (dv_devices example_store) \<le> 64"
proof -
  obtain f where e: "example_store = \<lparr>dv_identity = example_identity, dv_devices = [(js ''b'', example_device)],
     dv_connections = [(js ''b'', [(0, 7)])], dv_file = f, dv_fresh = 1, dv_closed = [],
     dv_events = [Ev_paired example_device, Ev_connected (js ''b'')]\<rparr>" using example_store_eq by blast
  show ?thesis
    using device_store_well_formed [OF example_law example_reach, of "js ''b''" example_device]
    by (simp add: e get_device_def is_connected_def jget_def MAX_PAIRED_DEVICES_def)
qed

end
