(* ===== verification/Pairing.thy ===== *)
theory Pairing
  imports Device_Store Secure_Channel
begin

text \<open>
  Pairing and resumption, \<open>src/electron/companion/pairing.cjs\<close>: offers shown as QR codes, the
  handshakes they start, and the confirmations that turn a handshake into a paired device. The clock is
  read once per call, random bytes, identifiers and ephemeral keys are arguments. The methods work on
  the session object, which stays in its map, so what they did before they threw stays done. The
  callbacks of connections that the device store closes are recorded there; they concern other sessions.
\<close>

section \<open>Offers\<close>

datatype pairing_error =
    Pr_invalid_payload
  | Pr_protocol_mismatch
  | Pr_identity_mismatch
  | Pr_expired
  | Pr_too_large
  | Pr_offer_mismatch
  | Pr_invalid_expiry
  | Pr_unknown_device
  | Pr_server_busy
  | Pr_offer_unavailable
  | Pr_handshake_unavailable
  | Pr_handshake_order
  | Pr_authentication_failed
  | Pr_device_exists
  | Pr_sas_failed
  | Pr_incomplete
  | Pr_crypto crypto_error
  | Pr_device device_error

definition QR_TYPE :: string where "QR_TYPE = ''kaisola-companion-pairing''"
definition DEFAULT_PAIRING_TTL_MS :: int where "DEFAULT_PAIRING_TTL_MS = 2 * 60 * 1000"
definition MAX_PAIRING_TTL_MS :: int where "MAX_PAIRING_TTL_MS = 5 * 60 * 1000"
definition HANDSHAKE_TIMEOUT_MS :: int where "HANDSHAKE_TIMEOUT_MS = 30 * 1000"
definition MAX_ACTIVE_HANDSHAKES :: nat where "MAX_ACTIVE_HANDSHAKES = 8"
definition MAX_QR_BYTES :: nat where "MAX_QR_BYTES = 16 * 1024"

definition of_crypto :: "crypto_error + 'a \<Rightarrow> pairing_error + 'a" where
  "of_crypto r = (case r of Inl e \<Rightarrow> Inl (Pr_crypto e) | Inr x \<Rightarrow> Inr x)"

definition of_device :: "device_error + 'a \<Rightarrow> pairing_error + 'a" where
  "of_device r = (case r of Inl e \<Rightarrow> Inl (Pr_device e) | Inr x \<Rightarrow> Inr x)"

definition pairing_id :: "json option \<Rightarrow> pairing_error + jstr" where
  "pairing_id v =
     (case as_str v of
        None \<Rightarrow> Inl Pr_invalid_payload
      | Some s \<Rightarrow> require (identifier_ok MAX_ID_LENGTH s) Pr_invalid_payload (Inr s))"

record transport_hint =
  th_host :: "jstr option"
  th_tailscale :: "jstr option"
  th_port :: "int option"

text \<open>A host name: present, of 1 to 253 units, without NUL, CR and LF.\<close>

definition host_ok :: "jstr \<Rightarrow> bool" where
  "host_ok s = (1 \<le> length s \<and> length s \<le> 253 \<and> list_all (\<lambda>u. u \<noteq> 0 \<and> u \<noteq> 13 \<and> u \<noteq> 10) s)"

definition hint_host :: "json option \<Rightarrow> pairing_error + jstr option" where
  "hint_host v =
     (if nullish v then Inr None
      else case as_str v of
             None \<Rightarrow> Inl Pr_invalid_payload
           | Some s \<Rightarrow> require (host_ok s) Pr_invalid_payload (Inr (Some s)))"

definition hint_port :: "json option \<Rightarrow> pairing_error + int option" where
  "hint_port v =
     (if nullish v then Inr None
      else case as_int v of
             None \<Rightarrow> Inl Pr_invalid_payload
           | Some n \<Rightarrow> require (1 \<le> n \<and> n \<le> 65535) Pr_invalid_payload (Inr (Some n)))"

definition normalize_transport_hint :: "json option \<Rightarrow> pairing_error + transport_hint" where
  "normalize_transport_hint v =
     (case v of
        None \<Rightarrow> Inl Pr_invalid_payload
      | Some h \<Rightarrow>
          require (is_obj h) Pr_invalid_payload (
          require (only_keys h [''service'', ''protocol'', ''host'', ''port'', ''tailscaleHost'']) Pr_invalid_payload (
          require (field h ''service'' = Some (JStr (js ''_kaisola._tcp''))
              \<and> field h ''protocol'' = Some (JStr (js ''tcp''))) Pr_invalid_payload (
          ebind (hint_host (field h ''host'')) (\<lambda>host.
          ebind (hint_host (field h ''tailscaleHost'')) (\<lambda>tailscale.
          ebind (hint_port (field h ''port'')) (\<lambda>port.
            Inr \<lparr>th_host = host, th_tailscale = tailscale, th_port = port\<rparr>)))))))"

definition hint_json :: "transport_hint \<Rightarrow> json" where
  "hint_json h =
     obj [(''service'', Some (JStr (js ''_kaisola._tcp''))), (''protocol'', Some (JStr (js ''tcp''))),
          (''host'', map_option JStr (th_host h)), (''tailscaleHost'', map_option JStr (th_tailscale h)),
          (''port'', map_option JInt (th_port h))]"

record pairing_payload =
  pp_desktopId :: jstr
  pp_identityPublic :: jstr
  pp_keyRecord :: key_record
  pp_nonce :: jstr
  pp_capabilities :: "capability list"
  pp_hint :: transport_hint
  pp_expiresAt :: int

definition capabilities_json :: "capability list \<Rightarrow> json" where
  "capabilities_json cs = JArr (map (\<lambda>c. JStr (js (capability_text c))) cs)"

definition payload_json :: "pairing_payload \<Rightarrow> json" where
  "payload_json p =
     obj [(''type'', Some (JStr (js QR_TYPE))), (''protocolVersion'', Some (JInt 1)),
          (''noiseProtocol'', Some (JStr (js NOISE_PROTOCOL))), (''desktopId'', Some (JStr (pp_desktopId p))),
          (''identityPublic'', Some (JStr (pp_identityPublic p))), (''keyRecord'', Some (key_record_data (pp_keyRecord p))),
          (''pairingNonce'', Some (JStr (pp_nonce p))), (''requestedCapabilities'', Some (capabilities_json (pp_capabilities p))),
          (''transportHint'', Some (hint_json (pp_hint p))), (''expiresAt'', Some (JInt (pp_expiresAt p)))]"

text \<open>
  \<open>validatePairingPayload\<close> with a clock skew; the manager always uses the skew 0. An expected
  desktop identifier is never empty.
\<close>

definition validate_pairing_payload ::
  "'k runtime_crypto \<Rightarrow> int \<Rightarrow> int \<Rightarrow> jstr option \<Rightarrow> pairing_payload option \<Rightarrow> json option \<Rightarrow> pairing_error + pairing_payload" where
  "validate_pairing_payload rc now skew expected_desktop expected_payload v =
     (case v of
        None \<Rightarrow> Inl Pr_invalid_payload
      | Some input \<Rightarrow>
          require (is_obj input) Pr_invalid_payload (
          require (only_keys input [''type'', ''protocolVersion'', ''noiseProtocol'', ''desktopId'', ''identityPublic'',
              ''keyRecord'', ''pairingNonce'', ''requestedCapabilities'', ''transportHint'', ''expiresAt'']) Pr_invalid_payload (
          require (field input ''type'' = Some (JStr (js QR_TYPE)) \<and> field input ''protocolVersion'' = Some (JInt 1)
              \<and> field input ''noiseProtocol'' = Some (JStr (js NOISE_PROTOCOL))) Pr_protocol_mismatch (
          ebind (pairing_id (field input ''desktopId'')) (\<lambda>desktop.
          require (case expected_desktop of None \<Rightarrow> True | Some d \<Rightarrow> desktop = d) Pr_identity_mismatch (
          ebind (of_crypto (read_b64url (field input ''identityPublic'') (Some 32))) (\<lambda>identity.
          ebind (of_crypto (verify_signed_key_record rc (field input ''keyRecord'') (Some (JStr (b64url identity)))
              Desktop_party (Some desktop))) (\<lambda>key.
          ebind (of_crypto (read_b64url (field input ''pairingNonce'') (Some 32))) (\<lambda>nonce.
          ebind (of_device (device_capabilities True (field input ''requestedCapabilities''))) (\<lambda>capabilities.
          ebind (normalize_transport_hint (field input ''transportHint'')) (\<lambda>hint.
          case as_int (field input ''expiresAt'') of
            None \<Rightarrow> Inl Pr_invalid_payload
          | Some expires \<Rightarrow>
              require (0 \<le> expires) Pr_invalid_payload (
              require (0 \<le> skew \<and> is_safe skew \<and> now \<le> expires + skew) Pr_expired (
              let clean = \<lparr>pp_desktopId = desktop, pp_identityPublic = b64url identity, pp_keyRecord = key,
                           pp_nonce = b64url nonce, pp_capabilities = capabilities, pp_hint = hint, pp_expiresAt = expires\<rparr> in
              ebind (of_crypto (canonical_bytes (payload_json clean))) (\<lambda>encoded.
              require (length encoded \<le> MAX_QR_BYTES) Pr_too_large (
              require (case expected_payload of None \<Rightarrow> True
                  | Some p \<Rightarrow> canonical_json (payload_json clean) = canonical_json (payload_json p)) Pr_offer_mismatch (
                Inr clean))))))))))))))))"

definition pairing_payload_hash :: "'k runtime_crypto \<Rightarrow> pairing_payload \<Rightarrow> crypto_error + jstr" where
  "pairing_payload_hash rc p = ebind (canonical_bytes (payload_json p)) (\<lambda>b. Inr (b64url (rc_sha256 rc b)))"

definition pairing_context :: "'k runtime_crypto \<Rightarrow> pairing_payload \<Rightarrow> json option \<Rightarrow> pairing_error + jstr \<times> json" where
  "pairing_context rc p connection =
     ebind (pairing_id connection) (\<lambda>c.
     ebind (of_crypto (pairing_payload_hash rc p)) (\<lambda>qr.
       Inr (c, obj [(''v'', Some (JInt 1)), (''mode'', Some (JStr (js ''pair''))), (''protocol'', Some (JStr (js NOISE_PROTOCOL))),
          (''desktopId'', Some (JStr (pp_desktopId p))), (''connectionId'', Some (JStr c)), (''qrHash'', Some (JStr qr))])))"

definition resume_context :: "jstr \<Rightarrow> jstr \<Rightarrow> json option \<Rightarrow> pairing_error + jstr \<times> json" where
  "resume_context desktop device connection =
     ebind (pairing_id (Some (JStr desktop))) (\<lambda>d.
     ebind (pairing_id (Some (JStr device))) (\<lambda>i.
     ebind (pairing_id connection) (\<lambda>c.
       Inr (c, obj [(''v'', Some (JInt 1)), (''mode'', Some (JStr (js ''resume''))), (''protocol'', Some (JStr (js NOISE_PROTOCOL))),
          (''desktopId'', Some (JStr d)), (''deviceId'', Some (JStr i)), (''connectionId'', Some (JStr c))]))))"

definition sas_confirmation_payload :: "party \<Rightarrow> bytes \<Rightarrow> json" where
  "sas_confirmation_payload role handshake_hash =
     obj [(''type'', Some (JStr (js ''sas-confirm''))), (''role'', Some (JStr (js (party_text role)))),
          (''transcriptHash'', Some (JStr (b64url handshake_hash)))]"

section \<open>Sessions\<close>

record offer =
  of_pairingId :: jstr
  of_payload :: pairing_payload
  of_replace :: "jstr option"
  of_expiresAt :: int

datatype session_kind = Pairing | Resuming
datatype session_state = Awaiting_message_3 | Awaiting_pairing_confirmation | Awaiting_key_confirmation | Authenticated

text \<open>
  A session of either kind; the fields that only the other kind has keep their initial value. Of the
  record a resumption refers to only its identifier is used again.
\<close>

record 'k session =
  ss_kind :: session_kind
  ss_pairingId :: jstr
  ss_state :: session_state
  ss_expiresAt :: int
  ss_responder :: "'k handshake"
  ss_desktopId :: jstr
  ss_connectionId :: jstr
  ss_capabilities :: "capability list"
  ss_replace :: "jstr option"
  ss_recordId :: jstr
  ss_known :: bool
  ss_localSas :: bool
  ss_remoteSas :: bool
  ss_remoteKey :: bool
  ss_completed :: bool
  ss_pending :: "json option"
  ss_peer :: "peer option"
  ss_result :: "handshake_result option"
  ss_channel :: "channel option"
  ss_sas :: "jstr list"
  ss_sasFrame :: "json option"
  ss_pairedFrame :: "json option"

record 'k pairing =
  pm_store :: "'k device_store"
  pm_offers :: "(jstr, offer) jmap"
  pm_sessions :: "(jstr, 'k session) jmap"

type_synonym ('k, 'a) pm_step = "('k pairing, pairing_error, 'a) step"
type_synonym ('k, 'a) ss_step = "('k device_store \<times> 'k session, pairing_error, 'a) step"

definition prune :: "int \<Rightarrow> 'k pairing \<Rightarrow> 'k pairing" where
  "prune now m =
     m\<lparr>pm_offers := filter (\<lambda>e. \<not> now > of_expiresAt (snd e)) (pm_offers m),
       pm_sessions := filter (\<lambda>e. \<not> (now > ss_expiresAt (snd e) \<and> \<not> ss_completed (snd e))) (pm_sessions m)\<rparr>"

text \<open>The prose default of each option is a value the caller passes.\<close>

definition default_hint :: json where
  "default_hint = obj [(''service'', Some (JStr (js ''_kaisola._tcp''))), (''protocol'', Some (JStr (js ''tcp'')))]"

definition replaced_device :: "json option \<Rightarrow> ('k, jstr option) pm_step" where
  "replaced_device v =
     (if nullish v then sreturn None
      else
        sbind (slift (pairing_id v)) (\<lambda>i.
        sbind (sguard (\<lambda>m. get_device i (pm_store m) \<noteq> None) Pr_unknown_device) (\<lambda>_. sreturn (Some i))))"

definition offer_json :: "'k identity \<Rightarrow> bytes \<Rightarrow> capability list \<Rightarrow> transport_hint \<Rightarrow> int \<Rightarrow> json" where
  "offer_json desktop nonce capabilities hint expires =
     obj [(''type'', Some (JStr (js QR_TYPE))), (''protocolVersion'', Some (JInt 1)),
          (''noiseProtocol'', Some (JStr (js NOISE_PROTOCOL))), (''desktopId'', Some (JStr (id_id desktop))),
          (''identityPublic'', Some (JStr (id_identityPublic desktop))), (''keyRecord'', Some (id_keyRecord desktop)),
          (''pairingNonce'', Some (JStr (b64url nonce))), (''requestedCapabilities'', Some (capabilities_json capabilities)),
          (''transportHint'', Some (hint_json hint)), (''expiresAt'', Some (JInt expires))]"

definition create_offer ::
  "'k runtime_crypto \<Rightarrow> int \<Rightarrow> bytes \<Rightarrow> json option \<Rightarrow> json option \<Rightarrow> json option \<Rightarrow> json option \<Rightarrow> ('k, pairing_payload) pm_step" where
  "create_offer rc now nonce capabilities hint expires_in replaces =
     sbind (slift (case expires_in of
         None \<Rightarrow> Inr DEFAULT_PAIRING_TTL_MS
       | Some _ \<Rightarrow> (case as_int expires_in of
             None \<Rightarrow> Inl Pr_invalid_expiry
           | Some n \<Rightarrow> require (1 \<le> n \<and> n \<le> MAX_PAIRING_TTL_MS) Pr_invalid_expiry (Inr n)))) (\<lambda>ttl.
     sbind (replaced_device replaces) (\<lambda>replace.
     sbind (smodify (prune now)) (\<lambda>_.
     sbind (sread (\<lambda>m. dv_identity (pm_store m))) (\<lambda>desktop.
     sbind (slift (of_device (device_capabilities True capabilities))) (\<lambda>cs.
     sbind (slift (normalize_transport_hint (case hint of None \<Rightarrow> Some default_hint | h \<Rightarrow> h))) (\<lambda>h.
     sbind (slift (validate_pairing_payload rc now 0 (Some (id_id desktop)) None
         (Some (offer_json desktop nonce cs h (now + ttl))))) (\<lambda>payload.
     sbind (smodify (\<lambda>m. m\<lparr>pm_offers := jset (pp_nonce payload)
         \<lparr>of_pairingId = pp_nonce payload, of_payload = payload, of_replace = replace, of_expiresAt = pp_expiresAt payload\<rparr>
         (pm_offers m)\<rparr>)) (\<lambda>_. sreturn payload))))))))"

definition fresh_session ::
  "session_kind \<Rightarrow> int \<Rightarrow> 'k handshake \<Rightarrow> jstr \<Rightarrow> jstr \<Rightarrow> 'k session" where
  "fresh_session kind expires responder desktop connection =
     \<lparr>ss_kind = kind, ss_pairingId = [], ss_state = Awaiting_message_3, ss_expiresAt = expires, ss_responder = responder,
      ss_desktopId = desktop, ss_connectionId = connection, ss_capabilities = [], ss_replace = None, ss_recordId = [],
      ss_known = False, ss_localSas = False, ss_remoteSas = False, ss_remoteKey = False, ss_completed = False,
      ss_pending = None, ss_peer = None, ss_result = None, ss_channel = None, ss_sas = [], ss_sasFrame = None,
      ss_pairedFrame = None\<rparr>"

text \<open>The session object is in its map when its responder writes the second message.\<close>

definition answer ::
  "'k runtime_crypto \<Rightarrow> jstr \<Rightarrow> 'k session \<Rightarrow> ('k, bytes) pm_step" where
  "answer rc sid session m =
     (case write_message_2 rc (ss_responder session) of
        (h, r) \<Rightarrow> (m\<lparr>pm_sessions := jset sid (session\<lparr>ss_responder := h\<rparr>) (pm_sessions m)\<rparr>, of_crypto r))"

definition begin_handshake ::
  "'k runtime_crypto \<Rightarrow> 'k identity \<Rightarrow> json \<Rightarrow> peer_pin option \<Rightarrow> 'k \<Rightarrow> wire \<Rightarrow> pairing_error + 'k handshake" where
  "begin_handshake rc desktop context pin ephemeral message =
     ebind (of_crypto (create_noise_prologue context)) (\<lambda>prologue.
     ebind (of_crypto (new_responder rc desktop prologue pin ephemeral)) (\<lambda>h.
     of_crypto (case read_message_1 rc message h of (h', Inl e) \<Rightarrow> Inl e | (h', Inr _) \<Rightarrow> Inr h')))"

definition start_pairing ::
  "'k runtime_crypto \<Rightarrow> int \<Rightarrow> jstr \<Rightarrow> 'k \<Rightarrow> json option \<Rightarrow> json option \<Rightarrow> wire \<Rightarrow> ('k, jstr \<times> jstr \<times> bytes) pm_step" where
  "start_pairing rc now uuid ephemeral qr connection message =
     sbind (smodify (prune now)) (\<lambda>_.
     sbind (sguard (\<lambda>m. length (pm_sessions m) < MAX_ACTIVE_HANDSHAKES) Pr_server_busy) (\<lambda>_.
     sbind (sread (\<lambda>m. dv_identity (pm_store m))) (\<lambda>desktop.
     sbind (slift (validate_pairing_payload rc now 0 (Some (id_id desktop)) None qr)) (\<lambda>clean.
     sbind (sread (\<lambda>m. jget (pm_offers m) (pp_nonce clean))) (\<lambda>found.
     case found of
       None \<Rightarrow> sthrow Pr_offer_unavailable
     | Some offer \<Rightarrow>
         sbind (smodify (\<lambda>m. m\<lparr>pm_offers := jdel (pp_nonce clean) (pm_offers m)\<rparr>)) (\<lambda>_.
         sbind (slift (validate_pairing_payload rc now 0 (Some (id_id desktop)) (Some (of_payload offer))
             (Some (payload_json clean)))) (\<lambda>_.
         sbind (slift (pairing_context rc clean connection)) (\<lambda>(c, context).
         sbind (slift (begin_handshake rc desktop context None ephemeral message)) (\<lambda>h.
         let sid = js ''pair-'' @ uuid;
             session = (fresh_session Pairing (min (pp_expiresAt clean) (now + HANDSHAKE_TIMEOUT_MS)) h (pp_desktopId clean) c)
               \<lparr>ss_pairingId := of_pairingId offer, ss_capabilities := pp_capabilities clean, ss_replace := of_replace offer\<rparr> in
         sbind (answer rc sid session) (\<lambda>message2. sreturn (sid, of_pairingId offer, message2)))))))))))"

text \<open>
  An unknown device is answered as well, against random keys; \<open>decoy\<close> are the two of them.
\<close>

definition start_resume ::
  "'k runtime_crypto \<Rightarrow> int \<Rightarrow> jstr \<Rightarrow> 'k \<Rightarrow> bytes \<times> bytes \<Rightarrow> json option \<Rightarrow> json option \<Rightarrow> wire \<Rightarrow> ('k, jstr \<times> bytes) pm_step" where
  "start_resume rc now uuid ephemeral decoy device connection message =
     sbind (smodify (prune now)) (\<lambda>_.
     sbind (sguard (\<lambda>m. length (pm_sessions m) < MAX_ACTIVE_HANDSHAKES) Pr_server_busy) (\<lambda>_.
     sbind (slift (pairing_id device)) (\<lambda>i.
     sbind (sread (\<lambda>m. get_device i (pm_store m))) (\<lambda>stored_record.
     sbind (sread (\<lambda>m. dv_identity (pm_store m))) (\<lambda>desktop.
     let pin = (case stored_record of
           Some d \<Rightarrow> \<lparr>pin_id = de_deviceId d, pin_identityPublic = de_identityPublic d, pin_staticPublic = de_staticPublic d\<rparr>
         | None \<Rightarrow> \<lparr>pin_id = i, pin_identityPublic = b64url (fst decoy), pin_staticPublic = b64url (snd decoy)\<rparr>) in
     sbind (slift (resume_context (id_id desktop) (pin_id pin) connection)) (\<lambda>(c, context).
     sbind (slift (begin_handshake rc desktop context (Some pin) ephemeral message)) (\<lambda>h.
     let sid = js ''resume-'' @ uuid;
         session = (fresh_session Resuming (now + HANDSHAKE_TIMEOUT_MS) h (id_id desktop) c)
           \<lparr>ss_recordId := pin_id pin, ss_known := stored_record \<noteq> None\<rparr> in
     sbind (answer rc sid session) (\<lambda>message2. sreturn (sid, message2)))))))))"

text \<open>\<open>#session\<close> and the method that works on what it returns.\<close>

definition with_session :: "int \<Rightarrow> jstr \<Rightarrow> session_kind option \<Rightarrow> ('k, 'a) ss_step \<Rightarrow> ('k, 'a) pm_step" where
  "with_session now sid kind body m =
     (let m1 = prune now m in
      case jget (pm_sessions m1) sid of
        None \<Rightarrow> (m1, Inl Pr_handshake_unavailable)
      | Some s \<Rightarrow>
          if kind \<noteq> None \<and> kind \<noteq> Some (ss_kind s) then (m1, Inl Pr_handshake_unavailable)
          else
            (case body (pm_store m1, s) of
               ((st, s'), r) \<Rightarrow> (m1\<lparr>pm_store := st, pm_sessions := jset sid s' (pm_sessions m1)\<rparr>, r)))"

definition on_session :: "('k session \<Rightarrow> 'k session) \<Rightarrow> ('k, unit) ss_step" where
  "on_session f = smodify (\<lambda>(st, s). (st, f s))"

definition the_session :: "('k session \<Rightarrow> 'a) \<Rightarrow> ('k, 'a) ss_step" where
  "the_session f = sread (\<lambda>(st, s). f s)"

definition check_session :: "('k session \<Rightarrow> bool) \<Rightarrow> pairing_error \<Rightarrow> ('k, unit) ss_step" where
  "check_session p = sguard (\<lambda>(st, s). p s)"

definition on_responder :: "('k, 'a) hs_step \<Rightarrow> ('k, 'a) ss_step" where
  "on_responder step = (\<lambda>(st, s).
     case step (ss_responder s) of (h, r) \<Rightarrow> ((st, s\<lparr>ss_responder := h\<rparr>), of_crypto r))"

text \<open>A method of the session's channel; the callers have checked that there is one.\<close>

definition on_channel :: "(channel, crypto_error, 'a) step \<Rightarrow> ('k, 'a) ss_step" where
  "on_channel step = (\<lambda>(st, s).
     case ss_channel s of
       None \<Rightarrow> ((st, s), Inl Pr_handshake_order)
     | Some c \<Rightarrow> (case step c of (c', r) \<Rightarrow> ((st, s\<lparr>ss_channel := Some c'\<rparr>), of_crypto r)))"

definition on_store :: "('k, 'a) dv_step \<Rightarrow> ('k, 'a) ss_step" where
  "on_store step = (\<lambda>(st, s). case step st of (st', r) \<Rightarrow> ((st', s), of_device r))"

definition handshake_hash :: "'k session \<Rightarrow> bytes" where
  "handshake_hash s = (case ss_result s of None \<Rightarrow> [] | Some r \<Rightarrow> hr_hash r)"

definition pending_device :: "peer \<Rightarrow> capability list \<Rightarrow> int \<Rightarrow> json" where
  "pending_device p cs now =
     obj [(''deviceId'', Some (JStr (pe_id p))), (''displayName'', Some (JStr (pe_displayName p))),
          (''identityPublic'', Some (JStr (pe_identityPublic p))), (''x25519StaticPublic'', Some (JStr (pe_staticPublic p))),
          (''capabilities'', Some (capabilities_json cs)), (''pairedAt'', Some (JInt now)), (''lastSeenAt'', Some (JInt now))]"

definition check_peer :: "int \<Rightarrow> peer \<Rightarrow> ('k, unit) ss_step" where
  "check_peer now p =
     sbind (the_session ss_kind) (\<lambda>kind.
     case kind of
       Resuming \<Rightarrow> check_session (\<lambda>s. ss_known s \<and> pe_id p = ss_recordId s) Pr_authentication_failed
     | Pairing \<Rightarrow>
         sbind (check_session (\<lambda>s. case ss_replace s of None \<Rightarrow> True | Some i \<Rightarrow> pe_id p = i) Pr_identity_mismatch) (\<lambda>_.
         sbind (sguard (\<lambda>(st, s). ss_replace s \<noteq> None \<or> get_device (pe_id p) st = None) Pr_device_exists) (\<lambda>_.
           on_session (\<lambda>s. s\<lparr>ss_pending := Some (pending_device p (ss_capabilities s) now)\<rparr>))))"

record completion =
  cp_kind :: session_kind
  cp_peer :: peer
  cp_frame :: json
  cp_sas :: "jstr list"

definition complete_body :: "'k runtime_crypto \<Rightarrow> int \<Rightarrow> wire \<Rightarrow> ('k, completion) ss_step" where
  "complete_body rc now message =
     sbind (check_session (\<lambda>s. ss_state s = Awaiting_message_3) Pr_handshake_order) (\<lambda>_.
     sbind (on_responder (read_message_3 rc message)) (\<lambda>p.
     sbind (on_responder (handshake_result_of rc)) (\<lambda>result.
     sbind (check_peer now p) (\<lambda>_.
     sbind (on_session (\<lambda>s. s\<lparr>ss_peer := Some p, ss_result := Some result\<rparr>)) (\<lambda>_.
     sbind (the_session (\<lambda>s. \<lparr>ct_desktopId = ss_desktopId s, ct_deviceId = pe_id p, ct_connectionId = ss_connectionId s\<rparr>)) (\<lambda>c.
     sbind (slift (of_crypto (create_secure_channel rc result c Desktop_party))) (\<lambda>channel.
     sbind (on_session (\<lambda>s. s\<lparr>ss_channel := Some channel, ss_sas := sas_words rc (hr_hash result),
         ss_state := (if ss_kind s = Pairing then Awaiting_pairing_confirmation else Awaiting_key_confirmation)\<rparr>)) (\<lambda>_.
     sbind (on_channel (make_key_confirmation rc Desktop_party (hr_hash result))) (\<lambda>frame.
     the_session (\<lambda>s. \<lparr>cp_kind = ss_kind s, cp_peer = p, cp_frame = frame,
         cp_sas = (if ss_kind s = Pairing then ss_sas s else [])\<rparr>))))))))))"

definition complete_handshake :: "'k runtime_crypto \<Rightarrow> int \<Rightarrow> jstr \<Rightarrow> wire \<Rightarrow> ('k, completion) pm_step" where
  "complete_handshake rc now sid message = with_session now sid None (complete_body rc now message)"

text \<open>The device of a completed resumption is marked as seen; the session is authenticated before that.\<close>

definition key_confirmation_body :: "'k store_env \<Rightarrow> bool \<Rightarrow> int \<Rightarrow> json \<Rightarrow> ('k, bool) ss_step" where
  "key_confirmation_body env writes now frame =
     sbind (check_session (\<lambda>s. ss_channel s \<noteq> None \<and> \<not> ss_remoteKey s) Pr_handshake_order) (\<lambda>_.
     sbind (the_session handshake_hash) (\<lambda>h.
     sbind (on_channel (verify_key_confirmation (se_crypto env) frame Device_party h)) (\<lambda>_.
     sbind (on_session (\<lambda>s. s\<lparr>ss_remoteKey := True\<rparr>)) (\<lambda>_.
     sbind (the_session (\<lambda>s. (ss_kind s, ss_peer s))) (\<lambda>(kind, p).
     case (kind, p) of
       (Resuming, Some p) \<Rightarrow>
         sbind (on_session (\<lambda>s. s\<lparr>ss_state := Authenticated, ss_completed := True\<rparr>)) (\<lambda>_.
         sbind (on_store (mark_seen env writes now (pe_id p))) (\<lambda>_. sreturn True))
     | _ \<Rightarrow> sreturn False)))))"

definition receive_key_confirmation ::
  "'k store_env \<Rightarrow> bool \<Rightarrow> int \<Rightarrow> jstr \<Rightarrow> json \<Rightarrow> ('k, bool) pm_step" where
  "receive_key_confirmation env writes now sid frame =
     with_session now sid None (key_confirmation_body env writes now frame)"

definition paired_json :: "device \<Rightarrow> bytes \<Rightarrow> json" where
  "paired_json d h =
     obj [(''type'', Some (JStr (js ''paired''))), (''deviceId'', Some (JStr (de_deviceId d))),
          (''capabilities'', Some (capabilities_json (de_capabilities d))), (''transcriptHash'', Some (JStr (b64url h)))]"

definition finalize_pairing :: "'k store_env \<Rightarrow> bool \<Rightarrow> (nat \<Rightarrow> bool) \<Rightarrow> int \<Rightarrow> ('k, json option) ss_step" where
  "finalize_pairing env writes throws now =
     sbind (the_session (\<lambda>s. ss_completed s \<or> \<not> ss_localSas s \<or> \<not> ss_remoteSas s \<or> \<not> ss_remoteKey s)) (\<lambda>early.
     if early then the_session ss_pairedFrame
     else
       sbind (the_session (\<lambda>s. (ss_pending s, ss_replace s \<noteq> None))) (\<lambda>(pending, replace).
       sbind (on_store (pair_device env writes throws now pending replace)) (\<lambda>d.
       sbind (on_session (\<lambda>s. s\<lparr>ss_completed := True, ss_state := Authenticated, ss_recordId := de_deviceId d\<rparr>)) (\<lambda>_.
       sbind (the_session handshake_hash) (\<lambda>h.
       sbind (on_channel (encrypt_json (se_crypto env) (paired_json d h))) (\<lambda>frame.
       sbind (on_session (\<lambda>s. s\<lparr>ss_pairedFrame := Some frame\<rparr>)) (\<lambda>_. sreturn (Some frame))))))))"

definition local_sas_body ::
  "'k store_env \<Rightarrow> bool \<Rightarrow> (nat \<Rightarrow> bool) \<Rightarrow> int \<Rightarrow> ('k, json option \<times> bool \<times> json option) ss_step" where
  "local_sas_body env writes throws now =
     sbind (check_session (\<lambda>s. ss_channel s \<noteq> None \<and> ss_remoteKey s) Pr_handshake_order) (\<lambda>_.
     sbind (the_session ss_localSas) (\<lambda>again.
     sbind (if again then sreturn ()
         else
           sbind (on_session (\<lambda>s. s\<lparr>ss_localSas := True\<rparr>)) (\<lambda>_.
           sbind (the_session handshake_hash) (\<lambda>h.
           sbind (on_channel (encrypt_json (se_crypto env) (sas_confirmation_payload Desktop_party h))) (\<lambda>frame.
             on_session (\<lambda>s. s\<lparr>ss_sasFrame := Some frame\<rparr>))))) (\<lambda>_.
     sbind (finalize_pairing env writes throws now) (\<lambda>paired.
       the_session (\<lambda>s. (ss_sasFrame s, ss_completed s, paired))))))"

definition confirm_local_sas ::
  "'k store_env \<Rightarrow> bool \<Rightarrow> (nat \<Rightarrow> bool) \<Rightarrow> int \<Rightarrow> jstr \<Rightarrow> ('k, json option \<times> bool \<times> json option) pm_step" where
  "confirm_local_sas env writes throws now sid = with_session now sid (Some Pairing) (local_sas_body env writes throws now)"

definition remote_sas_body ::
  "'k store_env \<Rightarrow> bool \<Rightarrow> (nat \<Rightarrow> bool) \<Rightarrow> int \<Rightarrow> json \<Rightarrow> ('k, bool \<times> json option) ss_step" where
  "remote_sas_body env writes throws now frame =
     sbind (check_session (\<lambda>s. ss_channel s \<noteq> None \<and> ss_remoteKey s \<and> \<not> ss_remoteSas s) Pr_handshake_order) (\<lambda>_.
     sbind (on_channel (decrypt_json (se_crypto env) frame)) (\<lambda>payload.
     sbind (the_session handshake_hash) (\<lambda>h.
     sbind (slift (case canonical_json payload of
         None \<Rightarrow> Inl (Pr_crypto Invalid_canonical_value)
       | Some t \<Rightarrow> require (canonical_json (sas_confirmation_payload Device_party h) = Some t) Pr_sas_failed (Inr ()))) (\<lambda>_.
     sbind (on_session (\<lambda>s. s\<lparr>ss_remoteSas := True\<rparr>)) (\<lambda>_.
     sbind (finalize_pairing env writes throws now) (\<lambda>paired.
       the_session (\<lambda>s. (ss_completed s, paired))))))))"

definition receive_remote_sas ::
  "'k store_env \<Rightarrow> bool \<Rightarrow> (nat \<Rightarrow> bool) \<Rightarrow> int \<Rightarrow> jstr \<Rightarrow> json \<Rightarrow> ('k, bool \<times> json option) pm_step" where
  "receive_remote_sas env writes throws now sid frame =
     with_session now sid (Some Pairing) (remote_sas_body env writes throws now frame)"

record connection =
  cn_kind :: session_kind
  cn_device :: "device option"
  cn_channel :: "channel option"
  cn_hash :: bytes
  cn_connectionId :: jstr

text \<open>The device is looked up again; it may have been revoked in the meantime.\<close>

definition authenticated_connection :: "int \<Rightarrow> jstr \<Rightarrow> ('k, connection) pm_step" where
  "authenticated_connection now sid =
     with_session now sid None (
     sbind (check_session (\<lambda>s. ss_completed s \<and> ss_state s = Authenticated) Pr_incomplete) (\<lambda>_.
     sread (\<lambda>(st, s). \<lparr>cn_kind = ss_kind s,
        cn_device = (case ss_peer s of None \<Rightarrow> None | Some p \<Rightarrow> get_device (pe_id p) st),
        cn_channel = ss_channel s, cn_hash = handshake_hash s, cn_connectionId = ss_connectionId s\<rparr>)))"

definition release_session :: "jstr \<Rightarrow> ('k, bool) pm_step" where
  "release_session sid m = (m\<lparr>pm_sessions := jdel sid (pm_sessions m)\<rparr>, Inr (jhas (pm_sessions m) sid))"

definition cancel_pairing :: "jstr \<Rightarrow> ('k, bool) pm_step" where
  "cancel_pairing pid m =
     (let ours = (\<lambda>e. of_pairingId (snd e) = pid);
          open = (\<lambda>e. ss_kind (snd e) = Pairing \<and> ss_pairingId (snd e) = pid \<and> \<not> ss_completed (snd e))
      in (m\<lparr>pm_offers := filter (\<lambda>e. \<not> ours e) (pm_offers m), pm_sessions := filter (\<lambda>e. \<not> open e) (pm_sessions m)\<rparr>,
          Inr (list_ex ours (pm_offers m) \<or> list_ex open (pm_sessions m))))"

definition pairing_stats :: "int \<Rightarrow> ('k, nat \<times> nat \<times> nat) pm_step" where
  "pairing_stats now m =
     (let m' = prune now m
      in (m', Inr (length (pm_offers m'), length (pm_sessions m'), length (filter (\<lambda>e. ss_completed (snd e)) (pm_sessions m')))))"

end
