(* ===== verification/Triples.thy ===== *)
theory Triples
  imports Stateful
begin

text \<open>
  Reasoning about steps in the style of Hoare: from a state that satisfies the precondition, a step that
  returns leaves the postcondition of its result, and one that throws leaves the invariant.
\<close>

definition triple :: "('s \<Rightarrow> bool) \<Rightarrow> ('s \<Rightarrow> bool) \<Rightarrow> ('s, 'e, 'a) step \<Rightarrow> ('a \<Rightarrow> 's \<Rightarrow> bool) \<Rightarrow> bool" where
  "triple thrown pre m post \<longleftrightarrow>
     (\<forall>s. pre s \<longrightarrow> (case m s of (s', Inl e) \<Rightarrow> thrown s' | (s', Inr x) \<Rightarrow> post x s'))"

lemma triple_bind:
  "triple thrown pre m mid \<Longrightarrow> (\<And>x. triple thrown (mid x) (f x) post) \<Longrightarrow> triple thrown pre (sbind m f) post"
  unfolding triple_def sbind_def by (fastforce split: prod.splits sum.splits)

lemma triple_weaken:
  "triple thrown pre m post \<Longrightarrow> (\<And>s. pre' s \<Longrightarrow> pre s) \<Longrightarrow> (\<And>x s. post x s \<Longrightarrow> post' x s) \<Longrightarrow> triple thrown pre' m post'"
  unfolding triple_def by (fastforce split: prod.splits sum.splits)

lemma triple_guard:
  "(\<And>s. pre s \<Longrightarrow> \<not> p s \<Longrightarrow> thrown s) \<Longrightarrow> (\<And>s. pre s \<Longrightarrow> p s \<Longrightarrow> post () s) \<Longrightarrow> triple thrown pre (sguard p e) post"
  by (simp add: triple_def)

lemma triple_modify: "(\<And>s. pre s \<Longrightarrow> post () (f s)) \<Longrightarrow> triple thrown pre (smodify f) post"
  by (simp add: triple_def)

lemma triple_read: "(\<And>s. pre s \<Longrightarrow> post (f s) s) \<Longrightarrow> triple thrown pre (sread f) post"
  by (simp add: triple_def)

lemma triple_return: "(\<And>s. pre s \<Longrightarrow> post x s) \<Longrightarrow> triple thrown pre (sreturn x) post"
  by (simp add: triple_def)

lemma triple_throw: "(\<And>s. pre s \<Longrightarrow> thrown s) \<Longrightarrow> triple thrown pre (sthrow e) post"
  by (simp add: triple_def)

lemma triple_lift:
  "(\<And>s e. pre s \<Longrightarrow> r = Inl e \<Longrightarrow> thrown s) \<Longrightarrow> (\<And>s x. pre s \<Longrightarrow> r = Inr x \<Longrightarrow> post x s) \<Longrightarrow> triple thrown pre (slift r) post"
  by (simp add: triple_def split: sum.split)

lemma triple_if:
  "(b \<Longrightarrow> triple thrown pre m post) \<Longrightarrow> (\<not> b \<Longrightarrow> triple thrown pre m' post) \<Longrightarrow> triple thrown pre (if b then m else m') post"
  by simp

lemma triple_inv:
  "triple thrown pre m (\<lambda>x. thrown) \<Longrightarrow> pre s \<Longrightarrow> m s = (s', r) \<Longrightarrow> thrown s'"
  unfolding triple_def by (fastforce split: sum.splits)

lemma triple_Inr:
  assumes "triple thrown pre m post" "pre s" "m s = (s', Inr x)"
  shows "post x s'"
proof -
  have "case m s of (s', Inl e) \<Rightarrow> thrown s' | (s', Inr x) \<Rightarrow> post x s'" using assms(1,2) by (simp add: triple_def)
  then show ?thesis using assms(3) by simp
qed

lemma triple_pre: "(\<And>s. pre s \<Longrightarrow> triple thrown (\<lambda>t. t = s) m post) \<Longrightarrow> triple thrown pre m post"
  by (simp add: triple_def)

lemmas triple_intros =
  triple_guard triple_modify triple_read triple_return triple_throw triple_lift

end
