(* ===== verification/Pairing_Safety.thy ===== *)
theory Pairing_Safety
  imports Pairing Triples
begin

text \<open>
  What holds of every run of the pairing manager of \<open>Pairing\<close>: a log of the calls it got, with their
  inputs, is related to the sessions, the offers and the devices the store announced. Each method is
  taken apart with the triples of \<open>Triples\<close>, over an invariant that says what a session has been
  through.
\<close>

section \<open>Runs of the manager\<close>

text \<open>
  The calls a manager gets, with everything its environment decides: the clock, random values, failing
  writes and throwing callbacks. Other parts of the program change the device store as well, but only
  the manager pairs.
\<close>

datatype 'k pairing_call =
    Create_offer int bytes "json option" "json option" "json option" "json option"
  | Start_pairing int jstr 'k "json option" "json option" wire
  | Start_resume int jstr 'k "bytes \<times> bytes" "json option" "json option" wire
  | Complete int jstr wire
  | Key_confirmation bool int jstr json
  | Local_sas bool "nat \<Rightarrow> bool" int jstr
  | Remote_sas bool "nat \<Rightarrow> bool" int jstr json
  | Connection int jstr
  | Release jstr
  | Cancel jstr
  | Prune int
  | Store_call bool "nat \<Rightarrow> bool" int device_op

datatype pairing_reply =
    Failed pairing_error
  | Offered jstr
  | Started jstr jstr
  | Resumed jstr
  | Handshaken completion
  | Done

definition reply :: "('a \<Rightarrow> pairing_reply) \<Rightarrow> 'k pairing \<times> (pairing_error + 'a) \<Rightarrow> 'k pairing \<times> pairing_reply" where
  "reply f r = (fst r, case snd r of Inl e \<Rightarrow> Failed e | Inr x \<Rightarrow> f x)"

fun pairing_step :: "'k store_env \<Rightarrow> 'k pairing_call \<Rightarrow> 'k pairing \<Rightarrow> 'k pairing \<times> pairing_reply" where
  "pairing_step env (Create_offer now nonce cs hint expires replaces) m =
     reply (\<lambda>p. Offered (pp_nonce p)) (create_offer (se_crypto env) now nonce cs hint expires replaces m)"
| "pairing_step env (Start_pairing now uuid e qr c w) m =
     reply (\<lambda>(sid, pid, _). Started sid pid) (start_pairing (se_crypto env) now uuid e qr c w m)"
| "pairing_step env (Start_resume now uuid e decoy d c w) m =
     reply (\<lambda>(sid, _). Resumed sid) (start_resume (se_crypto env) now uuid e decoy d c w m)"
| "pairing_step env (Complete now sid w) m = reply Handshaken (complete_handshake (se_crypto env) now sid w m)"
| "pairing_step env (Key_confirmation writes now sid f) m =
     reply (\<lambda>_. Done) (receive_key_confirmation env writes now sid f m)"
| "pairing_step env (Local_sas writes throws now sid) m = reply (\<lambda>_. Done) (confirm_local_sas env writes throws now sid m)"
| "pairing_step env (Remote_sas writes throws now sid f) m =
     reply (\<lambda>_. Done) (receive_remote_sas env writes throws now sid f m)"
| "pairing_step env (Connection now sid) m = reply (\<lambda>_. Done) (authenticated_connection now sid m)"
| "pairing_step env (Release sid) m = reply (\<lambda>_. Done) (release_session sid m)"
| "pairing_step env (Cancel pid) m = reply (\<lambda>_. Done) (cancel_pairing pid m)"
| "pairing_step env (Prune now) m = (prune now m, Done)"
| "pairing_step env (Store_call writes throws now op) m =
     (m\<lparr>pm_store := fst (perform env writes throws now op (pm_store m))\<rparr>, Done)"

fun allowed_call :: "'k pairing_call \<Rightarrow> bool" where
  "allowed_call (Store_call writes throws now (Pair v replace)) = False"
| "allowed_call _ = True"

type_synonym 'k pairing_log = "('k pairing_call \<times> pairing_reply) list"

inductive pairing_run :: "'k store_env \<Rightarrow> 'k device_store \<Rightarrow> 'k pairing_log \<Rightarrow> 'k pairing \<Rightarrow> bool" for env st where
  started: "pairing_run env st [] \<lparr>pm_store = st, pm_offers = [], pm_sessions = []\<rparr>"
| continued: "pairing_run env st log m \<Longrightarrow> allowed_call c \<Longrightarrow> pairing_step env c m = (m', r) \<Longrightarrow>
    pairing_run env st ((c, r) # log) m'"

section \<open>What a session has been through\<close>

text \<open>A channel without its counters: its keys, context and directions.\<close>

definition line :: "channel \<Rightarrow> channel" where
  "line c = c\<lparr>ch_sendCounter := 0, ch_receiveCounter := 0\<rparr>"

text \<open>A frame that the channel, at some point of its stream, opens to this value.\<close>

definition says :: "'k runtime_crypto \<Rightarrow> channel \<Rightarrow> json \<Rightarrow> json \<Rightarrow> bool" where
  "says rc l f v \<longleftrightarrow> (\<exists>c c' x. line c = l \<and> decrypt_json rc f c = (c', Inr x) \<and>
     canonical_json x \<noteq> None \<and> canonical_json x = canonical_json v)"

definition called :: "'k pairing_log \<Rightarrow> 'k pairing_call \<Rightarrow> bool" where
  "called log c \<longleftrightarrow> (\<exists>r. (c, r) \<in> set log)"

definition shaken :: "'k store_env \<Rightarrow> 'k pairing_log \<Rightarrow> jstr \<Rightarrow> 'k session \<Rightarrow> bool" where
  "shaken env log sid s \<longleftrightarrow> (\<exists>now w h h' p res. called log (Complete now sid w)
     \<and> read_message_3 (se_crypto env) w h = (h', Inr p) \<and> handshake_result_of (se_crypto env) h' = (h', Inr res)
     \<and> ss_peer s = Some p \<and> ss_result s = Some res
     \<and> (\<forall>c. ss_channel s = Some c \<longrightarrow>
          create_secure_channel (se_crypto env) res
            \<lparr>ct_desktopId = ss_desktopId s, ct_deviceId = pe_id p, ct_connectionId = ss_connectionId s\<rparr> Desktop_party = Inr (line c)))"

definition key_confirmed :: "'k store_env \<Rightarrow> 'k pairing_log \<Rightarrow> jstr \<Rightarrow> 'k session \<Rightarrow> bool" where
  "key_confirmed env log sid s \<longleftrightarrow> (\<exists>c writes now f. ss_channel s = Some c \<and> called log (Key_confirmation writes now sid f)
     \<and> says (se_crypto env) (line c) f (key_confirmation_payload Device_party (handshake_hash s)))"

definition sas_confirmed :: "'k store_env \<Rightarrow> 'k pairing_log \<Rightarrow> jstr \<Rightarrow> 'k session \<Rightarrow> bool" where
  "sas_confirmed env log sid s \<longleftrightarrow> (\<exists>c writes throws now f. ss_channel s = Some c
     \<and> called log (Remote_sas writes throws now sid f)
     \<and> says (se_crypto env) (line c) f (sas_confirmation_payload Device_party (handshake_hash s)))"

text \<open>The pairing identifier of an offer that was made with these capabilities.\<close>

definition offered_with :: "'k pairing_log \<Rightarrow> jstr \<Rightarrow> capability list \<Rightarrow> bool" where
  "offered_with log pid cs \<longleftrightarrow> (\<exists>now nonce v h e r. (Create_offer now nonce v h e r, Offered pid) \<in> set log
     \<and> device_capabilities True v = Inr cs)"

definition session_ok :: "'k store_env \<Rightarrow> 'k pairing_log \<Rightarrow> jstr \<Rightarrow> 'k session \<Rightarrow> bool" where
  "session_ok env log sid s \<longleftrightarrow>
     (ss_channel s \<noteq> None \<or> ss_pending s \<noteq> None \<longrightarrow> shaken env log sid s)
     \<and> (ss_channel s \<noteq> None \<longrightarrow> ss_state s \<noteq> Awaiting_message_3)
     \<and> (\<forall>v. ss_pending s = Some v \<longrightarrow> (\<exists>p t. ss_peer s = Some p \<and> v = pending_device p (ss_capabilities s) t))
     \<and> (ss_remoteKey s \<longrightarrow> key_confirmed env log sid s)
     \<and> (ss_localSas s \<longrightarrow> ss_remoteKey s \<and> (\<exists>writes throws now. called log (Local_sas writes throws now sid)))
     \<and> (ss_remoteSas s \<longrightarrow> ss_remoteKey s \<and> sas_confirmed env log sid s)
     \<and> (ss_kind s = Resuming \<longrightarrow> ss_pending s = None)
     \<and> (ss_kind s = Pairing \<longrightarrow> offered_with log (ss_pairingId s) (ss_capabilities s))
     \<and> (ss_completed s \<longrightarrow> ss_remoteKey s \<and> (ss_kind s = Pairing \<longrightarrow> ss_localSas s \<and> ss_remoteSas s))"

definition vouched :: "'k store_env \<Rightarrow> 'k pairing_log \<Rightarrow> device \<Rightarrow> bool" where
  "vouched env log d \<longleftrightarrow> (\<exists>sid s now. session_ok env log sid s \<and> ss_localSas s \<and> ss_remoteSas s \<and> ss_remoteKey s
     \<and> clean_device_record (ss_pending s) now = Inr d)"

definition paired_devices :: "'k device_store \<Rightarrow> device set" where
  "paired_devices st = {d. Ev_paired d \<in> set (dv_events st) \<or> Ev_repaired d \<in> set (dv_events st)}"

lemma called_mono: "called log c \<Longrightarrow> set log \<subseteq> set log' \<Longrightarrow> called log' c"
  by (auto simp: called_def)

lemma session_ok_mono:
  assumes "session_ok env log sid s" "set log \<subseteq> set log'"
  shows "session_ok env log' sid s"
proof -
  have c: "called log' c" if "called log c" for c using that assms(2) by (rule called_mono)
  have "shaken env log sid s \<Longrightarrow> shaken env log' sid s" "key_confirmed env log sid s \<Longrightarrow> key_confirmed env log' sid s"
    "sas_confirmed env log sid s \<Longrightarrow> sas_confirmed env log' sid s"
    unfolding shaken_def key_confirmed_def sas_confirmed_def using c by blast+
  moreover have "\<exists>writes throws now. called log (Local_sas writes throws now sid) \<Longrightarrow>
      \<exists>writes throws now. called log' (Local_sas writes throws now sid)" using c by blast
  moreover have "offered_with log p cs \<Longrightarrow> offered_with log' p cs" for p cs
    using assms(2) unfolding offered_with_def by blast
  ultimately show ?thesis using assms(1) unfolding session_ok_def by blast
qed

lemma vouched_mono: "vouched env log d \<Longrightarrow> set log \<subseteq> set log' \<Longrightarrow> vouched env log' d"
  unfolding vouched_def using session_ok_mono by metis

section \<open>The parts of a method\<close>

text \<open>
  The invariant of a method that works on session \<open>sid\<close> while \<open>log\<close> already holds its call, over the store
  that had announced the devices \<open>old\<close> before the run.
\<close>

definition session_inv ::
  "'k store_env \<Rightarrow> device set \<Rightarrow> 'k pairing_log \<Rightarrow> jstr \<Rightarrow> 'k device_store \<times> 'k session \<Rightarrow> bool" where
  "session_inv env old log sid p \<longleftrightarrow> session_ok env log sid (snd p) \<and>
     (\<forall>d \<in> paired_devices (fst p). d \<in> old \<or> vouched env log d)"

lemma triple_on_channel:
  assumes "\<And>st s c c' r. pre (st, s) \<Longrightarrow> ss_channel s = Some c \<Longrightarrow> m c = (c', Inl r) \<Longrightarrow> thrown (st, s\<lparr>ss_channel := Some c'\<rparr>)"
    and "\<And>st s c c' x. pre (st, s) \<Longrightarrow> ss_channel s = Some c \<Longrightarrow> m c = (c', Inr x) \<Longrightarrow> post x (st, s\<lparr>ss_channel := Some c'\<rparr>)"
    and "\<And>st s. pre (st, s) \<Longrightarrow> thrown (st, s)"
  shows "triple thrown pre (on_channel m) post"
  unfolding triple_def on_channel_def of_crypto_def
  using assms by (auto split: option.splits prod.splits sum.splits)

lemma triple_on_store:
  assumes "\<And>st s st' e. pre (st, s) \<Longrightarrow> m st = (st', Inl e) \<Longrightarrow> thrown (st', s)"
    and "\<And>st s st' x. pre (st, s) \<Longrightarrow> m st = (st', Inr x) \<Longrightarrow> post x (st', s)"
  shows "triple thrown pre (on_store m) post"
  unfolding triple_def on_store_def of_device_def
  using assms by (auto split: prod.splits sum.splits)

lemma triple_on_session: "(\<And>st s. pre (st, s) \<Longrightarrow> post () (st, f s)) \<Longrightarrow> triple thrown pre (on_session f) post"
  unfolding on_session_def by (rule triple_modify) auto

lemma triple_the_session: "(\<And>st s. pre (st, s) \<Longrightarrow> post (f s) (st, s)) \<Longrightarrow> triple thrown pre (the_session f) post"
  unfolding the_session_def by (rule triple_read) auto

lemma triple_check_session:
  "(\<And>st s. pre (st, s) \<Longrightarrow> \<not> p s \<Longrightarrow> thrown (st, s)) \<Longrightarrow> (\<And>st s. pre (st, s) \<Longrightarrow> p s \<Longrightarrow> post () (st, s)) \<Longrightarrow>
   triple thrown pre (check_session p e) post"
  unfolding check_session_def by (rule triple_guard) auto

text \<open>The methods of a channel keep its line.\<close>

lemma line_encrypt: "encrypt rc p c = (c', r) \<Longrightarrow> line c' = line c"
  by (auto simp: encrypt_def Let_def line_def split: sum.splits)

lemma line_decrypt: "decrypt rc f c = (c', r) \<Longrightarrow> line c' = line c"
  by (auto simp: decrypt_def line_def split: sum.splits)

lemma line_encrypt_json: "encrypt_json rc v c = (c', r) \<Longrightarrow> line c' = line c"
  by (auto simp: encrypt_json_def sbind_def split: prod.splits sum.splits dest: line_encrypt)

lemma line_decrypt_json: "decrypt_json rc f c = (c', r) \<Longrightarrow> line c' = line c"
  by (auto simp: decrypt_json_def sbind_def split: prod.splits sum.splits dest: line_decrypt)

lemma line_verify: "verify_key_confirmation rc f role h c = (c', r) \<Longrightarrow> line c' = line c"
  by (auto simp: verify_key_confirmation_def sbind_def split: prod.splits sum.splits dest: line_decrypt_json)

lemma verify_says:
  "verify_key_confirmation rc f role h c = (c', Inr u) \<Longrightarrow> says rc (line c) f (key_confirmation_payload role h)"
  unfolding verify_key_confirmation_def says_def
  by (auto simp: sbind_eq_Inr require_eq_Inr split: option.splits)

lemma session_ok_channel:
  assumes "session_ok env log sid s" "ss_channel s = Some c" "line c' = line c"
  shows "session_ok env log sid (s\<lparr>ss_channel := Some c'\<rparr>)"
  using assms by (auto simp: session_ok_def shaken_def key_confirmed_def sas_confirmed_def handshake_hash_def)

lemma session_inv_channel:
  "session_inv env old log sid (st, s) \<Longrightarrow> ss_channel s = Some c \<Longrightarrow> line c' = line c \<Longrightarrow>
   session_inv env old log sid (st, s\<lparr>ss_channel := Some c'\<rparr>)"
  by (simp add: session_inv_def session_ok_channel)

section \<open>Announced devices\<close>

lemma paired_devices_events [simp]: "paired_devices (st\<lparr>dv_devices := m\<rparr>) = paired_devices st"
  by (simp add: paired_devices_def)

lemma same_events: "dv_events s' = dv_events s \<Longrightarrow> paired_devices s' = paired_devices s"
  by (simp only: paired_devices_def)

lemma persist_events: "persist env writes s = (s', r) \<Longrightarrow> dv_events s' = dv_events s"
  by (auto simp: persist_def Let_def split: option.splits if_splits)

lemma persist_or_undo_events: "persist_or_undo env writes undo s = (s', r) \<Longrightarrow> dv_events s' = dv_events s"
  unfolding persist_or_undo_def using persist_events [of env writes s]
  by (cases "persist env writes s"; cases "snd (persist env writes s)") auto

lemma close_connections_events:
  "close_connections throws i reason s = (s', r) \<Longrightarrow> dv_events s' \<in> {dv_events s, dv_events s @ [Ev_disconnected i]}"
  unfolding close_connections_def by (cases "jget (dv_connections s) i") auto

lemma pair_device_pairs:
  assumes "pair_device env writes throws now v replace s = (s', r)"
  shows "(r = Inl e \<longrightarrow> paired_devices s' = paired_devices s) \<and>
    (r = Inr d \<longrightarrow> clean_device_record v now = Inr d \<and> paired_devices s' \<subseteq> insert d (paired_devices s))"
proof (cases "clean_device_record v now")
  case (Inl e)
  then show ?thesis using assms by (auto simp: pair_device_def sbind_def)
next
  case (Inr c)
  let ?i = "de_deviceId c"
  let ?m = "jset ?i c (dv_devices s)"
  let ?undo = "case get_device ?i s of Some d' \<Rightarrow> jset ?i d' | None \<Rightarrow> jdel ?i"
  obtain t p where p: "persist_or_undo env writes ?undo (s\<lparr>dv_devices := ?m\<rparr>) = (t, p)" by fastforce
  obtain t' q where q: "close_connections throws ?i Device_repaired t = (t', q)" by fastforce
  obtain n where n: "q = Inr n" using close_connections_eq [OF q] by blast
  have t: "dv_events t = dv_events s" using persist_or_undo_events [OF p] by simp
  have t': "dv_events t' \<in> {dv_events s, dv_events s @ [Ev_disconnected ?i]}" using close_connections_events [OF q] t by simp
  show ?thesis
  proof (cases "(get_device ?i s = None \<or> replace) \<and> (get_device ?i s \<noteq> None \<or> length (dv_devices s) < MAX_PAIRED_DEVICES)")
    case False
    then have "s' = s" "\<exists>e. r = Inl e"
      using assms Inr by (auto simp: pair_device_def sbind_def Let_def split: if_splits)
    then show ?thesis by auto
  next
    case True
    show ?thesis
    proof (cases p)
      case (Inl e')
      then have "s' = t" "r = Inl e'" using assms Inr p True by (auto simp: pair_device_def Let_def)
      then show ?thesis using same_events [OF t] by simp
    next
      case p': (Inr u)
      have "r = Inr c \<and> (\<exists>es. set es \<subseteq> {Ev_disconnected ?i, Ev_paired c, Ev_repaired c} \<and> dv_events s' = dv_events s @ es)"
        using assms Inr p p' q n True t t' by (cases "get_device ?i s = None") (auto simp: pair_device_def Let_def emit_def)
      then show ?thesis using Inr by (auto simp: paired_devices_def)
    qed
  qed
qed

lemma emit_other_pairs:
  "\<forall>d. e \<noteq> Ev_paired d \<and> e \<noteq> Ev_repaired d \<Longrightarrow> paired_devices (s\<lparr>dv_events := dv_events s @ [e]\<rparr>) = paired_devices s"
  by (auto simp: paired_devices_def)

lemma store_device_events: "store_device env writes old new s = (s', r) \<Longrightarrow> dv_events s' = dv_events s"
  unfolding store_device_def sbind_def using persist_or_undo_events by fastforce

lemma mark_seen_pairs:
  assumes "mark_seen env writes now i s = (s', r)"
  shows "paired_devices s' = paired_devices s"
proof (cases "get_device i s")
  case None
  then show ?thesis using assms by (simp add: mark_seen_def)
next
  case (Some old)
  let ?new = "old\<lparr>de_lastSeenAt := max (de_lastSeenAt old) now\<rparr>"
  obtain t p where p: "store_device env writes old ?new s = (t, p)" by fastforce
  have t: "paired_devices t = paired_devices s" by (rule same_events [OF store_device_events [OF p]])
  show ?thesis
  proof (cases p)
    case (Inl e)
    then have "s' = t" using assms Some p by (simp add: mark_seen_def Let_def)
    then show ?thesis using t by simp
  next
    case (Inr u)
    then have "s' = t\<lparr>dv_events := dv_events t @ [Ev_seen ?new]\<rparr>" using assms Some p by (simp add: mark_seen_def Let_def emit_def)
    then show ?thesis using t by (simp add: emit_other_pairs)
  qed
qed

section \<open>Each method keeps the invariant\<close>

lemmas session_facts = session_ok_def shaken_def key_confirmed_def sas_confirmed_def handshake_hash_def

lemma session_ok_completed:
  "session_ok env log sid s \<Longrightarrow> ss_remoteKey s \<Longrightarrow> (ss_kind s = Pairing \<Longrightarrow> ss_localSas s \<and> ss_remoteSas s) \<Longrightarrow>
   session_ok env log sid (s\<lparr>ss_completed := True, ss_state := Authenticated\<rparr>)"
  "session_ok env log sid s \<Longrightarrow> ss_remoteKey s \<Longrightarrow> (ss_kind s = Pairing \<Longrightarrow> ss_localSas s \<and> ss_remoteSas s) \<Longrightarrow>
   session_ok env log sid (s\<lparr>ss_state := Authenticated, ss_completed := True\<rparr>)"
  "session_ok env log sid (s\<lparr>ss_recordId := j\<rparr>) = session_ok env log sid s"
  "session_ok env log sid (s\<lparr>ss_pairedFrame := f\<rparr>) = session_ok env log sid s"
  "session_ok env log sid (s\<lparr>ss_sasFrame := f\<rparr>) = session_ok env log sid s"
  "session_ok env log sid (s\<lparr>ss_responder := h\<rparr>) = session_ok env log sid s"
  by (simp_all add: session_facts)

lemma session_ok_key:
  "session_ok env log sid s \<Longrightarrow> key_confirmed env log sid s \<Longrightarrow> session_ok env log sid (s\<lparr>ss_remoteKey := True\<rparr>)"
  by (simp add: session_facts)

lemma session_ok_local:
  "session_ok env log sid s \<Longrightarrow> ss_remoteKey s \<Longrightarrow> called log (Local_sas writes throws now sid) \<Longrightarrow>
   session_ok env log sid (s\<lparr>ss_localSas := True\<rparr>)"
  by (auto simp: session_facts)

lemma session_ok_remote:
  "session_ok env log sid s \<Longrightarrow> ss_remoteKey s \<Longrightarrow> sas_confirmed env log sid s \<Longrightarrow>
   session_ok env log sid (s\<lparr>ss_remoteSas := True\<rparr>)"
  by (simp add: session_facts)

lemma finalize_triple:
  fixes env :: "'k store_env"
  shows "triple (session_inv env old log sid) (session_inv env old log sid) (finalize_pairing env writes throws now)
    (\<lambda>x. session_inv env old log sid)"
proof -
  let ?keep = "session_inv env old log sid"
  let ?ready = "\<lambda>p. ?keep p \<and> \<not> ss_completed (snd p) \<and> ss_localSas (snd p) \<and> ss_remoteSas (snd p) \<and> ss_remoteKey (snd p)"
  have pair: "triple ?keep (\<lambda>p. ?ready p \<and> ss_pending (snd p) = pending) (on_store (pair_device env writes throws now pending replace))
      (\<lambda>d. ?ready)" for pending replace
  proof (rule triple_on_store, goal_cases)
    case (1 st s st' e)
    then show ?case using pair_device_pairs [OF 1(2)] by (simp add: session_inv_def)
  next
    case (2 st s st' c)
    then have "clean_device_record (ss_pending s) now = Inr c" "paired_devices st' \<subseteq> insert c (paired_devices st)"
      using pair_device_pairs [OF 2(2)] by auto
    moreover have "vouched env log c" using 2(1) calculation(1) unfolding vouched_def session_inv_def by auto
    ultimately show ?case using 2(1) by (auto simp: session_inv_def)
  qed
  have channel: "triple ?keep ?keep (on_channel (encrypt_json (se_crypto env) v)) (\<lambda>f. ?keep)" for v
    by (rule triple_on_channel) (auto intro: session_inv_channel dest: line_encrypt_json)
  have rest: "triple ?keep ?ready (sbind (on_session (\<lambda>s. s\<lparr>ss_completed := True, ss_state := Authenticated, ss_recordId := i\<rparr>)) f) (\<lambda>x. ?keep)"
    if "triple ?keep ?keep (f ()) (\<lambda>x. ?keep)" for f :: "unit \<Rightarrow> ('k, json option) ss_step" and i
    by (rule triple_bind [where mid = "\<lambda>_. ?keep"], rule triple_on_session)
      (use that in \<open>auto simp: session_inv_def session_ok_completed\<close>)
  show ?thesis
    unfolding finalize_pairing_def
    apply (rule triple_bind [where mid = "\<lambda>early p. ?keep p \<and> (\<not> early \<longrightarrow> ?ready p)"])
     apply (rule triple_the_session, simp)
    apply (rule triple_if)
     apply (rule triple_the_session, simp)
    apply (rule triple_bind [where mid = "\<lambda>x p. ?ready p \<and> ss_pending (snd p) = fst x"])
     apply (rule triple_the_session, simp)
    apply (simp only: case_prod_unfold)
    apply (rule triple_bind [OF pair])
    apply (rule rest)
    apply (rule triple_bind [where mid = "\<lambda>_. ?keep"])
     apply (rule triple_the_session, simp)
    apply (rule triple_bind [OF channel])
    apply (rule triple_bind [where mid = "\<lambda>_. ?keep"])
     apply (rule triple_on_session, simp add: session_inv_def session_ok_completed)
    apply (rule triple_return, simp)
    done
qed

lemma key_confirmation_triple:
  assumes "called log (Key_confirmation writes now sid frame)"
  shows "triple (session_inv env old log sid) (session_inv env old log sid) (key_confirmation_body env writes now frame)
    (\<lambda>x. session_inv env old log sid)"
proof -
  let ?keep = "session_inv env old log sid"
  have verify: "triple ?keep (\<lambda>p. ?keep p \<and> handshake_hash (snd p) = h)
      (on_channel (verify_key_confirmation (se_crypto env) frame Device_party h))
      (\<lambda>x p. ?keep p \<and> key_confirmed env log sid (snd p))" for h
  proof (rule triple_on_channel, goal_cases)
    case (1 st s c c' e)
    then show ?case by (auto intro: session_inv_channel dest: line_verify)
  next
    case (2 st s c c' x)
    have "says (se_crypto env) (line c') frame (key_confirmation_payload Device_party h)"
      using verify_says [OF 2(3)] line_verify [OF 2(3)] by simp
    then have "key_confirmed env log sid (s\<lparr>ss_channel := Some c'\<rparr>)"
      using assms 2(1) unfolding key_confirmed_def handshake_hash_def by auto
    then show ?case using 2 by (auto intro: session_inv_channel dest: line_verify)
  next
    case (3 st s)
    then show ?case by simp
  qed
  have seen: "triple ?keep ?keep (on_store (mark_seen env writes now i)) (\<lambda>x. ?keep)" for i
    by (rule triple_on_store) (auto simp: session_inv_def dest: mark_seen_pairs)
  show ?thesis
    unfolding key_confirmation_body_def
    apply (rule triple_bind [where mid = "\<lambda>_. ?keep"])
     apply (rule triple_check_session, assumption, assumption)
    apply (rule triple_bind [where mid = "\<lambda>h p. ?keep p \<and> handshake_hash (snd p) = h"])
     apply (rule triple_the_session, simp)
    apply (rule triple_bind [OF verify])
    apply (rule triple_bind [where mid = "\<lambda>_ p. ?keep p \<and> ss_remoteKey (snd p)"])
     apply (rule triple_on_session, simp add: session_inv_def session_ok_key)
    apply (rule triple_bind [where mid = "\<lambda>x p. ?keep p \<and> ss_remoteKey (snd p) \<and> ss_kind (snd p) = fst x"])
     apply (rule triple_the_session, simp)
    apply (simp add: case_prod_unfold split: session_kind.split option.split)
    apply (intro conjI impI allI)
       apply (rule triple_return, simp)+
    apply (rule triple_bind [where mid = "\<lambda>_. ?keep"])
     apply (rule triple_on_session, auto simp: session_inv_def intro: session_ok_completed)[1]
    apply (rule triple_bind [OF seen])
    apply (rule triple_return, simp)
    done
qed

lemma local_sas_triple:
  assumes "called log (Local_sas writes' throws' now' sid)"
  shows "triple (session_inv env old log sid) (session_inv env old log sid) (local_sas_body env writes throws now)
    (\<lambda>x. session_inv env old log sid)"
proof -
  let ?keep = "session_inv env old log sid"
  have channel: "triple ?keep ?keep (on_channel (encrypt_json (se_crypto env) v)) (\<lambda>f. ?keep)" for v
    by (rule triple_on_channel) (auto intro: session_inv_channel dest: line_encrypt_json)
  show ?thesis
    unfolding local_sas_body_def
    apply (rule triple_bind [where mid = "\<lambda>_ p. ?keep p \<and> ss_remoteKey (snd p)"])
     apply (rule triple_check_session, simp, simp)
    apply (rule triple_bind [where mid = "\<lambda>_ p. ?keep p \<and> ss_remoteKey (snd p)"])
     apply (rule triple_the_session, simp)
    apply (rule triple_bind [where mid = "\<lambda>_. ?keep"])
     apply (rule triple_if)
      apply (rule triple_return, simp)
     apply (rule triple_bind [where mid = "\<lambda>_. ?keep"])
      apply (rule triple_on_session)
      apply (simp add: session_inv_def session_ok_local [OF _ _ assms])
     apply (rule triple_bind [where mid = "\<lambda>_. ?keep"])
      apply (rule triple_the_session, simp)
     apply (rule triple_bind [OF channel])
     apply (rule triple_on_session, simp add: session_inv_def session_ok_completed)
    apply (rule triple_bind [OF finalize_triple])
    apply (rule triple_the_session, simp)
    done
qed

lemma sas_confirmedI:
  assumes "called log (Remote_sas writes throws now sid f)" "ss_channel s = Some c" "line d = line c"
    and "decrypt_json (se_crypto env) f d = (d', Inr x)" "canonical_json x = Some t"
    and "canonical_json (sas_confirmation_payload Device_party (handshake_hash s)) = Some t"
  shows "sas_confirmed env log sid s"
proof -
  have "says (se_crypto env) (line c) f (sas_confirmation_payload Device_party (handshake_hash s))"
    unfolding says_def using assms(3-6) by (intro exI [of _ d] exI [of _ d'] exI [of _ x]) simp
  then show ?thesis unfolding sas_confirmed_def using assms(1,2) by blast
qed

lemma remote_sas_triple:
  assumes "called log (Remote_sas writes' throws' now' sid frame)"
  shows "triple (session_inv env old log sid) (session_inv env old log sid) (remote_sas_body env writes throws now frame)
    (\<lambda>x. session_inv env old log sid)"
proof -
  let ?keep = "session_inv env old log sid"
  let ?read = "\<lambda>x p. ?keep p \<and> ss_remoteKey (snd p) \<and> (\<exists>c d d'. ss_channel (snd p) = Some c \<and> line d = line c
      \<and> decrypt_json (se_crypto env) frame d = (d', Inr x))"
  have channel: "triple ?keep (\<lambda>p. ?keep p \<and> ss_remoteKey (snd p)) (on_channel (decrypt_json (se_crypto env) frame)) ?read"
  proof (rule triple_on_channel, goal_cases)
    case (1 st s c c' e)
    then show ?case by (auto intro: session_inv_channel dest: line_decrypt_json)
  next
    case (2 st s c c' x)
    have l: "line c' = line c" using line_decrypt_json [OF 2(3)] .
    then have "session_inv env old log sid (st, s\<lparr>ss_channel := Some c'\<rparr>)" using 2 session_inv_channel by blast
    then show ?case using 2 by (simp add: l) (metis)
  next
    case (3 st s)
    then show ?case by simp
  qed
  show ?thesis
    unfolding remote_sas_body_def
    apply (rule triple_bind [where mid = "\<lambda>_ p. ?keep p \<and> ss_remoteKey (snd p)"])
     apply (rule triple_check_session, simp, simp)
    apply (rule triple_bind [OF channel])
    subgoal for u x
      apply (rule triple_bind [where mid = "\<lambda>h p. ?read x p \<and> handshake_hash (snd p) = h"])
       apply (rule triple_the_session, simp)
      apply (rule triple_bind [where mid = "\<lambda>_ p. ?keep p \<and> ss_remoteKey (snd p) \<and> sas_confirmed env log sid (snd p)"])
       apply (rule triple_lift)
        apply simp
       apply (auto simp: require_eq_Inr split: option.splits intro: sas_confirmedI [OF assms])[1]
      apply (rule triple_bind [where mid = "\<lambda>_. ?keep"])
       apply (rule triple_on_session, simp add: session_inv_def session_ok_remote)
      apply (rule triple_bind [OF finalize_triple])
      apply (rule triple_the_session, simp)
      done
    done
qed

lemma create_line: "create_secure_channel rc res c role = Inr ch \<Longrightarrow> line ch = ch"
  by (cases role) (auto simp: create_secure_channel_def new_channel_def line_def ebind_eq_Inr require_eq_Inr split: party.splits if_splits)

lemma session_ok_peer:
  assumes "session_ok env log sid s" "ss_channel s = None" "called log (Complete now sid w)"
    and "read_message_3 (se_crypto env) w h = (h', Inr q)" "handshake_result_of (se_crypto env) h' = (h', Inr res)"
    and "pending = None \<or> ss_kind s = Pairing \<and> (\<exists>t. pending = Some (pending_device q (ss_capabilities s) t))"
  shows "session_ok env log sid (s\<lparr>ss_pending := pending, ss_peer := Some q, ss_result := Some res\<rparr>)"
proof -
  let ?s = "s\<lparr>ss_pending := pending, ss_peer := Some q, ss_result := Some res\<rparr>"
  have "\<not> ss_remoteKey s" using assms(1,2) by (auto simp: session_ok_def key_confirmed_def)
  then have "\<not> ss_remoteKey s \<and> \<not> ss_localSas s \<and> \<not> ss_remoteSas s \<and> \<not> ss_completed s
      \<and> (ss_kind s = Pairing \<longrightarrow> offered_with log (ss_pairingId s) (ss_capabilities s))"
    using assms(1) by (auto simp: session_ok_def)
  moreover have "shaken env log sid ?s"
    unfolding shaken_def using assms(2-5)
    by (intro exI [of _ now] exI [of _ w] exI [of _ h] exI [of _ h'] exI [of _ q] exI [of _ res]) simp
  ultimately show ?thesis using assms(2,6) by (auto simp: session_ok_def)
qed

lemma session_ok_new_channel:
  assumes "session_ok env log sid s" "ss_channel s = None" "called log (Complete now sid w)"
    and "read_message_3 (se_crypto env) w h = (h', Inr q)" "handshake_result_of (se_crypto env) h' = (h', Inr res)"
    and "ss_peer s = Some q" "ss_result s = Some res" "st \<noteq> Awaiting_message_3"
    and "create_secure_channel (se_crypto env) res
      \<lparr>ct_desktopId = ss_desktopId s, ct_deviceId = pe_id q, ct_connectionId = ss_connectionId s\<rparr> Desktop_party = Inr c"
  shows "session_ok env log sid (s\<lparr>ss_channel := Some c, ss_sas := sas, ss_state := st\<rparr>)"
proof -
  let ?s = "s\<lparr>ss_channel := Some c, ss_sas := sas, ss_state := st\<rparr>"
  have "\<not> ss_remoteKey s" using assms(1,2) by (auto simp: session_ok_def key_confirmed_def)
  then have "\<not> ss_remoteKey s \<and> \<not> ss_localSas s \<and> \<not> ss_remoteSas s \<and> \<not> ss_completed s
      \<and> (ss_kind s = Pairing \<longrightarrow> offered_with log (ss_pairingId s) (ss_capabilities s))"
    using assms(1) by (auto simp: session_ok_def)
  moreover have "shaken env log sid ?s"
    unfolding shaken_def using assms(3-9) create_line [OF assms(9)]
    by (intro exI [of _ now] exI [of _ w] exI [of _ h] exI [of _ h'] exI [of _ q] exI [of _ res]) simp
  ultimately show ?thesis using assms(1,8) by (auto simp: session_ok_def)
qed

lemma complete_triple:
  assumes "called log (Complete now' sid w)"
  shows "triple (session_inv env old log sid) (session_inv env old log sid) (complete_body (se_crypto env) now w)
    (\<lambda>x. session_inv env old log sid)"
proof -
  let ?keep = "session_inv env old log sid"
  let ?rc = "se_crypto env"
  let ?idle = "\<lambda>p. ?keep p \<and> ss_channel (snd p) = None"
  let ?read = "\<lambda>q p. ?idle p \<and> (\<exists>h. read_message_3 ?rc w h = (ss_responder (snd p), Inr q))"
  let ?both = "\<lambda>q res p. ?idle p \<and> (\<exists>h h'. read_message_3 ?rc w h = (h', Inr q) \<and> handshake_result_of ?rc h' = (h', Inr res))"
  let ?checked = "\<lambda>q res p. \<exists>s0. ?both q res (fst p, s0) \<and>
      (snd p = s0\<lparr>ss_pending := None\<rparr> \<or> ss_kind s0 = Pairing \<and> (\<exists>t. snd p = s0\<lparr>ss_pending := Some (pending_device q (ss_capabilities s0) t)\<rparr>))"
  let ?set = "\<lambda>q res p. ?both q res p \<and> ss_peer (snd p) = Some q \<and> ss_result (snd p) = Some res"
  have idle: "session_ok env log sid s \<Longrightarrow> ss_state s = Awaiting_message_3 \<Longrightarrow> ss_channel s = None" for s
    by (auto simp: session_ok_def)
  have responder: "session_inv env old log sid (st, s\<lparr>ss_responder := h\<rparr>) = session_inv env old log sid (st, s)" for st s h
    by (simp add: session_inv_def session_ok_completed)
  have first: "triple ?keep ?idle (on_responder (read_message_3 ?rc w)) ?read"
    unfolding triple_def on_responder_def of_crypto_def
    by (auto simp: responder split: prod.splits sum.splits)
  have second: "triple ?keep (?read q) (on_responder (handshake_result_of ?rc)) (?both q)" for q
    unfolding triple_def on_responder_def of_crypto_def
    by (auto simp: responder handshake_result_of_def ensure_state_def sbind_def split: prod.splits sum.splits if_splits)
  have check: "triple ?keep (?both q res) (check_peer now q) (\<lambda>u. ?checked q res)" for q res
    unfolding check_peer_def
    apply (rule triple_bind [where mid = "\<lambda>k p. ?both q res p \<and> ss_kind (snd p) = k"])
     apply (rule triple_the_session, simp)
    subgoal for k
      apply (cases k; simp)
       apply (rule triple_bind [where mid = "\<lambda>_ p. ?both q res p \<and> ss_kind (snd p) = Pairing"])
        apply (rule triple_check_session, simp, simp)
       apply (rule triple_bind [where mid = "\<lambda>_ p. ?both q res p \<and> ss_kind (snd p) = Pairing"])
        apply (rule triple_guard, simp, simp)
       apply (rule triple_on_session)
       apply fastforce
      apply (rule triple_check_session, simp)
      subgoal for st s
        by (rule exI [of _ s]) (auto simp: session_inv_def session_ok_def)
      done
    done
  have store: "triple ?keep (?checked q res) (on_session (\<lambda>s. s\<lparr>ss_peer := Some q, ss_result := Some res\<rparr>)) (\<lambda>u. ?set q res)"
    for q res
    by (rule triple_on_session) (auto simp: session_inv_def dest: session_ok_peer [OF _ _ assms])
  have finish: "triple ?keep (\<lambda>p. ?set q res p \<and> c = \<lparr>ct_desktopId = ss_desktopId (snd p), ct_deviceId = pe_id q, ct_connectionId = ss_connectionId (snd p)\<rparr>
      \<and> create_secure_channel ?rc res c Desktop_party = Inr ch)
    (on_session (\<lambda>s. s\<lparr>ss_channel := Some ch, ss_sas := sas_words ?rc (hr_hash res),
       ss_state := (if ss_kind s = Pairing then Awaiting_pairing_confirmation else Awaiting_key_confirmation)\<rparr>)) (\<lambda>u. ?keep)"
    for q res c ch
    by (rule triple_on_session) (auto simp: session_inv_def intro: session_ok_new_channel [OF _ _ assms])
  have channel: "triple ?keep ?keep (on_channel (make_key_confirmation ?rc Desktop_party h)) (\<lambda>f. ?keep)" for h
    by (rule triple_on_channel) (auto simp: make_key_confirmation_def intro: session_inv_channel dest: line_encrypt_json)
  show ?thesis
    unfolding complete_body_def
    apply (rule triple_bind [where mid = "\<lambda>_. ?idle"])
     apply (rule triple_check_session, simp, simp add: session_inv_def idle)
    apply (rule triple_bind [OF first])
    apply (rule triple_bind [OF second])
    apply (rule triple_bind [OF check])
    apply (rule triple_bind [OF store])
    subgoal for u q res
      apply (rule triple_bind [where mid = "\<lambda>c p. ?set q res p \<and> c = \<lparr>ct_desktopId = ss_desktopId (snd p), ct_deviceId = pe_id q, ct_connectionId = ss_connectionId (snd p)\<rparr>"])
       apply (rule triple_the_session, simp)
      subgoal for c
        apply (rule triple_bind [where mid = "\<lambda>ch p. ?set q res p \<and> c = \<lparr>ct_desktopId = ss_desktopId (snd p), ct_deviceId = pe_id q, ct_connectionId = ss_connectionId (snd p)\<rparr>
            \<and> create_secure_channel ?rc res c Desktop_party = Inr ch"])
         apply (rule triple_lift)
          apply simp
         apply (auto simp: of_crypto_def split: sum.splits)[1]
        apply (rule triple_bind [OF finish])
        apply (rule triple_bind [OF channel])
        apply (rule triple_the_session, simp)
        done
      done
    done
qed

section \<open>Offers and the sessions they start\<close>

definition payload_ok :: "pairing_payload \<Rightarrow> bool" where
  "payload_ok p \<longleftrightarrow> is_safe (pp_expiresAt p) \<and> (\<forall>n. th_port (pp_hint p) = Some n \<longrightarrow> is_safe n)
     \<and> Observe \<in> set (pp_capabilities p) \<and> pp_capabilities p = filter (\<lambda>c. c \<in> set (pp_capabilities p)) CAPABILITIES"

lemma hint_port_safe: "hint_port v = Inr r \<Longrightarrow> r = Some n \<Longrightarrow> is_safe n"
  by (cases v rule: as_int.cases) (auto simp: hint_port_def require_eq_Inr split: if_splits)

lemma normalize_hint_port: "normalize_transport_hint v = Inr h \<Longrightarrow> th_port h = Some n \<Longrightarrow> is_safe n"
  unfolding normalize_transport_hint_def
  by (auto elim!: ebind_InrE require_InrE split: option.splits dest: hint_port_safe)

lemma as_int_safe: "as_int v = Some n \<Longrightarrow> is_safe n"
  by (cases v rule: as_int.cases) (auto split: if_splits)

lemma of_device_Inr [simp]: "of_device r = Inr x \<longleftrightarrow> r = Inr x"
  by (simp add: of_device_def split: sum.splits)

lemma of_crypto_Inr [simp]: "of_crypto r = Inr x \<longleftrightarrow> r = Inr x"
  by (simp add: of_crypto_def split: sum.splits)

lemma validate_Inr:
  assumes "validate_pairing_payload rc now skew desktop expected v = Inr p"
  shows "payload_ok p" "now \<le> pp_expiresAt p + skew" "\<exists>input. v = Some input \<and> device_capabilities True (field input ''requestedCapabilities'') = Inr (pp_capabilities p)"
    "expected = Some q \<Longrightarrow> canonical_json (payload_json p) = canonical_json (payload_json q)"
proof -
  obtain input where v: "v = Some input" using assms by (cases v) (simp_all add: validate_pairing_payload_def)
  obtain expires where ex: "as_int (field input ''expiresAt'') = Some expires"
  proof (cases "as_int (field input ''expiresAt'')")
    case None
    then show ?thesis
      using assms unfolding validate_pairing_payload_def v option.case None
      by (elim require_InrE ebind_InrE) simp
  qed
  have "device_capabilities True (field input ''requestedCapabilities'') = Inr (pp_capabilities p)
    \<and> normalize_transport_hint (field input ''transportHint'') = Inr (pp_hint p) \<and> pp_expiresAt p = expires \<and> now \<le> expires + skew
    \<and> (\<forall>q. expected = Some q \<longrightarrow> canonical_json (payload_json p) = canonical_json (payload_json q))"
    using assms unfolding validate_pairing_payload_def v option.case ex Let_def
    by (elim require_InrE ebind_InrE) (simp, elim conjE require_InrE ebind_InrE, clarsimp)
  then have cs: "device_capabilities True (field input ''requestedCapabilities'') = Inr (pp_capabilities p)"
    and hint: "normalize_transport_hint (field input ''transportHint'') = Inr (pp_hint p)"
    and e: "pp_expiresAt p = expires" "now \<le> expires + skew"
      "\<And>q. expected = Some q \<Longrightarrow> canonical_json (payload_json p) = canonical_json (payload_json q)" by blast+
  show "payload_ok p"
    using device_capabilities_Inr [OF cs] normalize_hint_port [OF hint] as_int_safe [OF ex] by (simp add: payload_ok_def e(1))
  show "now \<le> pp_expiresAt p + skew" "\<exists>input. v = Some input \<and> device_capabilities True (field input ''requestedCapabilities'') = Inr (pp_capabilities p)"
    using e(2) cs v by (simp_all add: e(1))
  show "canonical_json (payload_json p) = canonical_json (payload_json q)" if "expected = Some q" using e(3) that by simp
qed

lemma hint_plain: "(\<And>n. th_port h = Some n \<Longrightarrow> is_safe n) \<Longrightarrow> json_plain (hint_json h)"
  unfolding hint_json_def
  by (cases "th_host h"; cases "th_tailscale h"; cases "th_port h") (simp_all add: obj_def is_array_index_def exec_simps)

lemma capabilities_plain [simp]: "json_plain (capabilities_json cs)"
  by (simp add: capabilities_json_def list_all_iff)

lemma offer_plain:
  assumes "payload_ok p"
  shows "json_plain (payload_json p)"
proof -
  have "json_plain (key_record_data (pp_keyRecord p))" "json_plain (hint_json (pp_hint p))" "is_safe (pp_expiresAt p)"
    using assms by (auto simp: key_record_data_def payload_ok_def intro: hint_plain)
  moreover have "is_safe 1" by (simp add: is_safe_def max_safe_integer_def)
  ultimately show ?thesis
    by (simp add: payload_json_def) (simp add: obj_def is_array_index_def exec_simps)
qed

lemma field_payload: "field (payload_json p) ''requestedCapabilities'' = Some (capabilities_json (pp_capabilities p))"
  by (simp add: payload_json_def)

lemma capabilities_json_back:
  "payload_ok p \<Longrightarrow> device_capabilities b (Some (capabilities_json (pp_capabilities p))) = Inr (pp_capabilities p)"
  unfolding capabilities_json_def payload_ok_def by (rule device_capabilities_back) auto

lemma same_sorted:
  assumes "json_plain p" "json_plain q" "canonical_json p = canonical_json q"
  shows "sort_json p = sort_json q"
proof -
  have s: "stringify (sort_json p) = stringify (sort_json q)"
    using assms(3) unfolding canonical_stringify [OF assms(1)] canonical_stringify [OF assms(2)] by (rule option.inject [THEN iffD1])
  have "Some (sort_json p) = json_parse JFloat (stringify (sort_json q))"
    unfolding s [symmetric] by (rule parse_stringify [OF sort_json_exact [OF assms(1)], symmetric])
  also have "\<dots> = Some (sort_json q)" by (rule parse_stringify [OF sort_json_exact [OF assms(2)]])
  finally show ?thesis by (rule option.inject [THEN iffD1])
qed

lemma sort_capabilities: "sort_json (capabilities_json cs) = capabilities_json cs"
  by (simp add: capabilities_json_def)

lemma same_field:
  assumes "json_plain p" "json_plain q" "canonical_json p = canonical_json q"
  shows "map_option sort_json (field p k) = map_option sort_json (field q k)"
  using same_sorted [OF assms] field_sort_json [OF assms(1), of k] field_sort_json [OF assms(2), of k] by metis

lemma same_capabilities:
  assumes "payload_ok p" "payload_ok q" "canonical_json (payload_json p) = canonical_json (payload_json q)"
  shows "pp_capabilities p = pp_capabilities q"
proof -
  have "map_option sort_json (Some (capabilities_json (pp_capabilities p))) = map_option sort_json (Some (capabilities_json (pp_capabilities q)))"
    using same_field [OF offer_plain [OF assms(1)] offer_plain [OF assms(2)] assms(3)] field_payload by metis
  then have "capabilities_json (pp_capabilities p) = capabilities_json (pp_capabilities q)"
    unfolding option.map sort_capabilities by (rule option.inject [THEN iffD1])
  then have "Inr (pp_capabilities p) = (Inr (pp_capabilities q) :: device_error + capability list)"
    using capabilities_json_back [OF assms(1), of True] capabilities_json_back [OF assms(2), of True] by metis
  then show ?thesis by (rule sum.inject(2) [THEN iffD1])
qed

section \<open>The manager keeps the invariant\<close>

definition offer_ok :: "'k pairing_log \<Rightarrow> jstr \<Rightarrow> offer \<Rightarrow> bool" where
  "offer_ok log n o' \<longleftrightarrow> of_pairingId o' = n \<and> payload_ok (of_payload o') \<and> offered_with log n (pp_capabilities (of_payload o'))"

definition run_ok :: "'k store_env \<Rightarrow> device set \<Rightarrow> 'k pairing_log \<Rightarrow> 'k pairing \<Rightarrow> bool" where
  "run_ok env old log m \<longleftrightarrow>
     jmap_ok (pm_sessions m) \<and> jmap_ok (pm_offers m) \<and> length (pm_sessions m) \<le> MAX_ACTIVE_HANDSHAKES
     \<and> (\<forall>(sid, s) \<in> set (pm_sessions m). session_ok env log sid s)
     \<and> (\<forall>(n, o') \<in> set (pm_offers m). offer_ok log n o')
     \<and> (\<forall>d \<in> paired_devices (pm_store m). d \<in> old \<or> vouched env log d)"

lemma offered_mono: "offered_with log p cs \<Longrightarrow> set log \<subseteq> set log' \<Longrightarrow> offered_with log' p cs"
  unfolding offered_with_def by blast

lemma run_ok_mono:
  assumes "run_ok env old log m" "set log \<subseteq> set log'"
  shows "run_ok env old log' m"
proof -
  have "session_ok env log sid s \<Longrightarrow> session_ok env log' sid s" for sid s
    by (rule session_ok_mono [OF _ assms(2)])
  moreover have "offer_ok log n o' \<Longrightarrow> offer_ok log' n o'" for n o'
    using offered_mono assms(2) unfolding offer_ok_def by blast
  moreover have "vouched env log d \<Longrightarrow> vouched env log' d" for d by (rule vouched_mono [OF _ assms(2)])
  ultimately show ?thesis using assms(1) unfolding run_ok_def by blast
qed

lemma run_ok_prune: "run_ok env old log m \<Longrightarrow> run_ok env old log (prune now m)"
  by (auto simp: run_ok_def prune_def intro: le_trans [OF length_filter_le])

lemma run_ok_session:
  assumes "run_ok env old log m" "session_ok env log sid s" "jhas (pm_sessions m) sid \<or> length (pm_sessions m) < MAX_ACTIVE_HANDSHAKES"
    and "\<forall>d \<in> paired_devices st. d \<in> old \<or> vouched env log d"
  shows "run_ok env old log (m\<lparr>pm_store := st, pm_sessions := jset sid s (pm_sessions m)\<rparr>)"
  using assms unfolding run_ok_def
  by (auto simp: set_jset length_jset jhas_def)

lemma with_session_ok:
  assumes "run_ok env old log m" "with_session now sid kind body m = (m', r)"
    and "triple (session_inv env old log sid) (session_inv env old log sid) body (\<lambda>x. session_inv env old log sid)"
  shows "run_ok env old log m'"
proof -
  let ?m = "prune now m"
  have ok: "run_ok env old log ?m" using assms(1) by (rule run_ok_prune)
  show ?thesis
  proof (cases "\<exists>s. jget (pm_sessions ?m) sid = Some s \<and> (kind = None \<or> kind = Some (ss_kind s))")
    case False
    then have "m' = ?m" using assms(2) by (auto simp: with_session_def Let_def split: option.splits if_splits)
    then show ?thesis using ok by simp
  next
    case True
    then obtain s where s: "jget (pm_sessions ?m) sid = Some s" "kind = None \<or> kind = Some (ss_kind s)" by blast
    obtain st s' r' where b: "body (pm_store ?m, s) = ((st, s'), r')" by (metis prod.exhaust)
    have m': "m' = ?m\<lparr>pm_store := st, pm_sessions := jset sid s' (pm_sessions ?m)\<rparr>"
      using assms(2) s b by (auto simp: with_session_def Let_def)
    have "session_inv env old log sid (pm_store ?m, s)"
      using ok jget_Some_in [OF s(1)] by (auto simp: run_ok_def session_inv_def)
    from triple_inv [OF assms(3) this b] have "session_inv env old log sid (st, s')" .
    then show ?thesis using s(1) unfolding m' session_inv_def
      by (intro run_ok_session [OF ok]) (simp_all add: jhas_def)
  qed
qed

definition unshaken :: "'k session \<Rightarrow> bool" where
  "unshaken s \<longleftrightarrow> ss_channel s = None \<and> ss_pending s = None \<and> \<not> ss_remoteKey s \<and> \<not> ss_localSas s \<and> \<not> ss_remoteSas s \<and> \<not> ss_completed s"

lemma unshaken_ok:
  "unshaken s \<Longrightarrow> ss_kind s = Pairing \<longrightarrow> offered_with log (ss_pairingId s) (ss_capabilities s) \<Longrightarrow> session_ok env log sid s"
  by (simp add: unshaken_def session_ok_def)

lemma answer_cases:
  assumes "answer rc sid s m = (m', r)" "unshaken s"
  shows "\<exists>s'. m' = m\<lparr>pm_sessions := jset sid s' (pm_sessions m)\<rparr> \<and> unshaken s' \<and> ss_kind s' = ss_kind s
    \<and> ss_pairingId s' = ss_pairingId s \<and> ss_capabilities s' = ss_capabilities s"
  using assms by (auto simp: answer_def unshaken_def split: prod.splits)

text \<open>
  What starting a pairing does: nothing but pruning, or the offer is claimed, or it is claimed and a
  session with the capabilities that were offered exists.
\<close>

lemma start_pairing_cases:
  assumes "start_pairing rc now uuid e qr c w m = (m', r)"
    and offers: "\<forall>x \<in> set (pm_offers m). payload_ok (of_payload (snd x))"
  shows "m' = prune now m \<and> (\<exists>e. r = Inl e) \<or>
    (\<exists>n o'. jget (pm_offers (prune now m)) n = Some o' \<and>
      (m' = (prune now m)\<lparr>pm_offers := jdel n (pm_offers (prune now m))\<rparr> \<and> (\<exists>e. r = Inl e) \<or>
       (\<exists>sid s. length (pm_sessions (prune now m)) < MAX_ACTIVE_HANDSHAKES
          \<and> m' = (prune now m)\<lparr>pm_offers := jdel n (pm_offers (prune now m)), pm_sessions := jset sid s (pm_sessions (prune now m))\<rparr>
          \<and> unshaken s \<and> ss_kind s = Pairing \<and> ss_pairingId s = of_pairingId o' \<and> ss_capabilities s = pp_capabilities (of_payload o')
          \<and> ((\<exists>e. r = Inl e) \<or> (\<exists>m2. r = Inr (sid, of_pairingId o', m2))))))"
proof -
  let ?m = "prune now m"
  let ?desktop = "dv_identity (pm_store ?m)"
  show ?thesis
  proof (cases "length (pm_sessions ?m) < MAX_ACTIVE_HANDSHAKES")
    case False
    then show ?thesis using assms(1) by (auto simp: start_pairing_def sbind_def)
  next
    case busy: True
    show ?thesis
    proof (cases "validate_pairing_payload rc now 0 (Some (id_id ?desktop)) None qr")
      case (Inl e')
      then show ?thesis using assms(1) busy by (auto simp: start_pairing_def sbind_def)
    next
      case (Inr clean)
      note Inr' = Inr
      show ?thesis
      proof (cases "jget (pm_offers ?m) (pp_nonce clean)")
        case None
        then show ?thesis using assms(1) busy Inr by (auto simp: start_pairing_def sbind_def)
      next
        case (Some o')
        let ?m1 = "?m\<lparr>pm_offers := jdel (pp_nonce clean) (pm_offers ?m)\<rparr>"
        let ?again = "validate_pairing_payload rc now 0 (Some (id_id ?desktop)) (Some (of_payload o')) (Some (payload_json clean))"
        have claimed: ?thesis if "m' = ?m1" "\<exists>e. r = Inl e"
          using Some that by blast
        note before = start_pairing_def sbind_def busy Inr Some
        show ?thesis
        proof (cases ?again)
          case (Inl e')
          then show ?thesis using assms(1) by (intro claimed) (auto simp: before)
        next
          case again: (Inr clean')
          show ?thesis
          proof (cases "pairing_context rc clean c")
            case (Inl e')
            then show ?thesis using assms(1) again by (intro claimed) (auto simp: before)
          next
            case (Inr ctx)
            obtain c' cx where ctx: "pairing_context rc clean c = Inr (c', cx)" using Inr by (cases ctx) simp
            show ?thesis
            proof (cases "begin_handshake rc ?desktop cx None e w")
              case (Inl e')
              then show ?thesis using assms(1) again ctx by (intro claimed) (auto simp: before)
            next
              case handshake: (Inr h)
              let ?s = "(fresh_session Pairing (min (pp_expiresAt clean) (now + HANDSHAKE_TIMEOUT_MS)) h (pp_desktopId clean) c')
                \<lparr>ss_pairingId := of_pairingId o', ss_capabilities := pp_capabilities clean, ss_replace := of_replace o'\<rparr>"
              obtain m2 x where a: "answer rc (js ''pair-'' @ uuid) ?s ?m1 = (m2, x)" by fastforce
              have res: "m' = m2" "r = (case x of Inl e \<Rightarrow> Inl e | Inr y \<Rightarrow> Inr (js ''pair-'' @ uuid, of_pairingId o', y))"
                using assms(1) again ctx handshake a by (auto simp: before Let_def split: sum.splits)
              have "unshaken ?s" by (simp add: unshaken_def fresh_session_def)
              from answer_cases [OF a this] obtain s where s: "m2 = ?m1\<lparr>pm_sessions := jset (js ''pair-'' @ uuid) s (pm_sessions ?m1)\<rparr>"
                "unshaken s" "ss_kind s = ss_kind ?s" "ss_pairingId s = ss_pairingId ?s" "ss_capabilities s = ss_capabilities ?s" by blast
              have "(pp_nonce clean, o') \<in> set (pm_offers m)" using jget_Some_in [OF Some] by (auto simp: prune_def)
              then have po: "payload_ok (of_payload o')" using offers by force
              have "pp_capabilities clean' = pp_capabilities clean"
                using validate_Inr(3) [OF again] validate_Inr(1) [OF Inr'] capabilities_json_back [of clean True] by (simp add: field_payload)
              moreover have "pp_capabilities clean' = pp_capabilities (of_payload o')"
                using same_capabilities [OF validate_Inr(1) [OF again] po] validate_Inr(4) [OF again] by simp
              ultimately have "ss_capabilities s = pp_capabilities (of_payload o')" using s(5) by (simp add: fresh_session_def)
              then show ?thesis using Some busy res s by (auto simp: fresh_session_def split: sum.splits)
            qed
          qed
        qed
      qed
    qed
  qed
qed

lemma start_resume_cases:
  assumes "start_resume rc now uuid e decoy d c w m = (m', r)"
  shows "m' = prune now m \<and> (\<exists>e. r = Inl e) \<or>
    (\<exists>sid s. length (pm_sessions (prune now m)) < MAX_ACTIVE_HANDSHAKES
       \<and> m' = (prune now m)\<lparr>pm_sessions := jset sid s (pm_sessions (prune now m))\<rparr> \<and> unshaken s \<and> ss_kind s = Resuming)"
proof -
  let ?m = "prune now m"
  let ?desktop = "dv_identity (pm_store ?m)"
  show ?thesis
  proof (cases "length (pm_sessions ?m) < MAX_ACTIVE_HANDSHAKES")
    case False
    then show ?thesis using assms by (auto simp: start_resume_def sbind_def)
  next
    case busy: True
    show ?thesis
    proof (cases "pairing_id d")
      case (Inl e')
      then show ?thesis using assms busy by (auto simp: start_resume_def sbind_def)
    next
      case i: (Inr i)
      let ?pin = "case get_device i (pm_store ?m) of
           Some d \<Rightarrow> \<lparr>pin_id = de_deviceId d, pin_identityPublic = de_identityPublic d, pin_staticPublic = de_staticPublic d\<rparr>
         | None \<Rightarrow> \<lparr>pin_id = i, pin_identityPublic = b64url (fst decoy), pin_staticPublic = b64url (snd decoy)\<rparr>"
      note before = start_resume_def sbind_def busy i Let_def
      show ?thesis
      proof (cases "resume_context (id_id ?desktop) (pin_id ?pin) c")
        case (Inl e')
        then show ?thesis using assms by (auto simp: before)
      next
        case (Inr ctx)
        obtain c' cx where ctx: "resume_context (id_id ?desktop) (pin_id ?pin) c = Inr (c', cx)" using Inr by (cases ctx) simp
        show ?thesis
        proof (cases "begin_handshake rc ?desktop cx (Some ?pin) e w")
          case (Inl e')
          then show ?thesis using assms ctx by (auto simp: before)
        next
          case handshake: (Inr h)
          let ?s = "(fresh_session Resuming (now + HANDSHAKE_TIMEOUT_MS) h (id_id ?desktop) c')
             \<lparr>ss_recordId := pin_id ?pin, ss_known := get_device i (pm_store ?m) \<noteq> None\<rparr>"
          obtain m2 x where a: "answer rc (js ''resume-'' @ uuid) ?s ?m = (m2, x)" by fastforce
          have "m' = m2" using assms ctx handshake a by (auto simp: before split: sum.splits)
          moreover have "unshaken ?s" by (simp add: unshaken_def fresh_session_def)
          from answer_cases [OF a this] obtain s where "m2 = ?m\<lparr>pm_sessions := jset (js ''resume-'' @ uuid) s (pm_sessions ?m)\<rparr>"
            "unshaken s" "ss_kind s = ss_kind ?s" by blast
          ultimately show ?thesis using busy by (auto simp: fresh_session_def)
        qed
      qed
    qed
  qed
qed

lemma create_offer_cases:
  assumes "create_offer rc now nonce cs hint expires replaces m = (m', r)"
  shows "(m' = m \<or> m' = prune now m) \<and> (\<exists>e. r = Inl e) \<or>
    (\<exists>p rep. r = Inr p \<and> payload_ok p \<and> device_capabilities True cs = Inr (pp_capabilities p)
      \<and> m' = (prune now m)\<lparr>pm_offers := jset (pp_nonce p)
         \<lparr>of_pairingId = pp_nonce p, of_payload = p, of_replace = rep, of_expiresAt = pp_expiresAt p\<rparr> (pm_offers (prune now m))\<rparr>)"
proof -
  define ttl where "ttl = (case expires of
         None \<Rightarrow> Inr DEFAULT_PAIRING_TTL_MS
       | Some _ \<Rightarrow> (case as_int expires of
             None \<Rightarrow> Inl Pr_invalid_expiry
           | Some n \<Rightarrow> require (1 \<le> n \<and> n \<le> MAX_PAIRING_TTL_MS) Pr_invalid_expiry (Inr n)))"
  define h where "h = normalize_transport_hint (case hint of None \<Rightarrow> Some default_hint | h \<Rightarrow> h)"
  let ?m = "prune now m"
  have "fst (replaced_device replaces m) = m" by (auto simp: replaced_device_def sbind_def split: sum.splits)
  then obtain rep where rep: "replaced_device replaces m = (m, rep)" by (metis prod.collapse)
  note before = create_offer_def sbind_def ttl_def [symmetric] h_def [symmetric] rep
  consider e where "ttl = Inl e" | e where "rep = Inl e" | e where "device_capabilities True cs = Inl e" | e where "h = Inl e"
    | t r' c h' where "ttl = Inr t" "rep = Inr r'" "device_capabilities True cs = Inr c" "h = Inr h'"
    by (cases ttl; cases rep; cases "device_capabilities True cs"; cases h) auto
  then show ?thesis
  proof cases
    case (5 t r' c h')
    let ?v = "validate_pairing_payload rc now 0 (Some (id_id (dv_identity (pm_store ?m)))) None
         (Some (offer_json (dv_identity (pm_store ?m)) nonce c h' (now + t)))"
    show ?thesis
    proof (cases ?v)
      case (Inl e)
      then have "r = Inl e" "m' = ?m" using assms 5 by (simp_all add: before of_device_def)
      then show ?thesis by blast
    next
      case (Inr p)
      have "device_capabilities True (Some (capabilities_json c)) = Inr c"
        unfolding capabilities_json_def by (rule device_capabilities_back) (rule device_capabilities_Inr [OF 5(3)])+
      then have "pp_capabilities p = c" using validate_Inr(3) [OF Inr] by (auto simp: offer_json_def)
      moreover have "r = Inr p" "m' = ?m\<lparr>pm_offers := jset (pp_nonce p)
         \<lparr>of_pairingId = pp_nonce p, of_payload = p, of_replace = r', of_expiresAt = pp_expiresAt p\<rparr> (pm_offers ?m)\<rparr>"
        using assms 5 Inr by (simp_all add: before of_device_def)
      ultimately show ?thesis using 5(3) validate_Inr(1) [OF Inr] by blast
    qed
  qed (use assms in \<open>auto simp: before of_device_def split: sum.splits\<close>)
qed

lemma perform_other_pairs:
  assumes "\<And>v replace. op \<noteq> Pair v replace"
  shows "paired_devices (fst (perform env writes throws now op s)) = paired_devices s"
proof (cases op)
  case (Set_capabilities i v)
  show ?thesis
  proof (cases "get_device i s")
    case None
    then show ?thesis by (simp add: Set_capabilities outcome_def set_capabilities_def the_device_def sbind_def)
  next
    case (Some old)
    show ?thesis
    proof (cases "device_capabilities False v")
      case (Inl e)
      then show ?thesis using Some by (simp add: Set_capabilities outcome_def set_capabilities_def the_device_def sbind_def)
    next
      case (Inr cs)
      let ?new = "old\<lparr>de_capabilities := cs\<rparr>"
      obtain t p where p: "store_device env writes old ?new s = (t, p)" by fastforce
      obtain t' q where q: "close_connections throws (de_deviceId old) Device_capabilities_changed t = (t', q)" by fastforce
      obtain n where n: "q = Inr n" using close_connections_eq [OF q] by blast
      have "dv_events t = dv_events s" by (rule store_device_events [OF p])
      moreover have "dv_events t' \<in> {dv_events t, dv_events t @ [Ev_disconnected (de_deviceId old)]}"
        by (rule close_connections_events [OF q])
      ultimately show ?thesis using Some Inr p q n
        by (cases p) (auto simp: Set_capabilities outcome_def set_capabilities_def the_device_def Let_def emit_def paired_devices_def)
    qed
  qed
next
  case (Rename i v)
  show ?thesis
  proof (cases "get_device i s")
    case None
    then show ?thesis by (simp add: Rename outcome_def rename_device_def the_device_def sbind_def)
  next
    case (Some old)
    let ?new = "\<lambda>u. old\<lparr>de_displayName := u\<rparr>"
    have "paired_devices (fst (sbind (store_device env writes old (?new u)) (\<lambda>_. sbind (emit (Ev_renamed (?new u))) (\<lambda>_. sreturn (?new u))) s)) = paired_devices s" for u
    proof -
      obtain t p where p: "store_device env writes old (?new u) s = (t, p)" by fastforce
      have "dv_events t = dv_events s" by (rule store_device_events [OF p])
      then show ?thesis using p by (cases p) (auto simp: emit_def paired_devices_def)
    qed
    then show ?thesis using Some
      by (auto simp: Rename outcome_def rename_device_def the_device_def sbind_def [of "the_device i"] Let_def split: option.splits)
  qed
next
  case (Mark_seen i)
  then show ?thesis by (simp add: outcome_def) (metis mark_seen_pairs prod.collapse)
next
  case (Register i c)
  then show ?thesis by (auto simp: outcome_def register_connection_def Let_def paired_devices_def)
next
  case (Unregister i c)
  then show ?thesis by (auto simp: outcome_def unregister_connection_def Let_def paired_devices_def split: option.splits)
next
  case (Revoke i)
  show ?thesis
  proof (cases "get_device i s")
    case None
    then show ?thesis by (simp add: Revoke outcome_def revoke_device_def)
  next
    case (Some old)
    obtain t p where p: "persist_or_undo env writes (jset i old) (s\<lparr>dv_devices := jdel i (dv_devices s)\<rparr>) = (t, p)" by fastforce
    obtain t' q where q: "close_connections throws i Device_revoked t = (t', q)" by fastforce
    obtain n where n: "q = Inr n" using close_connections_eq [OF q] by blast
    have "dv_events t = dv_events s" using persist_or_undo_events [OF p] by simp
    moreover have "dv_events t' \<in> {dv_events t, dv_events t @ [Ev_disconnected i]}" by (rule close_connections_events [OF q])
    ultimately show ?thesis using Some p q n
      by (cases p) (auto simp: Revoke outcome_def revoke_device_def emit_def paired_devices_def)
  qed
qed (use assms in auto)

section \<open>Every run\<close>

lemma store_calls_ok:
  assumes "run_ok env old log m" "allowed_call (Store_call writes throws now op)"
  shows "run_ok env old log (m\<lparr>pm_store := fst (perform env writes throws now op (pm_store m))\<rparr>)"
proof -
  have "\<And>v replace. op \<noteq> Pair v replace" using assms(2) by (cases op) auto
  from perform_other_pairs [OF this, of env writes throws now "pm_store m"] show ?thesis using assms(1) by (simp add: run_ok_def)
qed

lemma claimed_ok: "run_ok env old log m \<Longrightarrow> run_ok env old log (m\<lparr>pm_offers := jdel n (pm_offers m)\<rparr>)"
  by (auto simp: run_ok_def set_jdel)

lemma new_session_ok:
  assumes "run_ok env old log m" "session_ok env log sid s" "length (pm_sessions m) < MAX_ACTIVE_HANDSHAKES"
  shows "run_ok env old log (m\<lparr>pm_sessions := jset sid s (pm_sessions m)\<rparr>)"
  using run_ok_session [OF assms(1,2), of "pm_store m"] assms(1,3) by (simp add: run_ok_def)

lemma reply_eq: "reply f x = (m', r) \<Longrightarrow> \<exists>y. x = (m', y) \<and> r = (case y of Inl e \<Rightarrow> Failed e | Inr z \<Rightarrow> f z)"
  by (cases x) (simp add: reply_def)

lemma pairing_step_ok:
  assumes ok: "run_ok env old log m" and "allowed_call c" and step: "pairing_step env c m = (m', r)"
  shows "run_ok env old ((c, r) # log) m'"
proof -
  let ?log = "(c, r) # log"
  have ok': "run_ok env old ?log m" using ok by (rule run_ok_mono) auto
  have c: "called ?log c" by (auto simp: called_def)
  show ?thesis
  proof (cases c)
    case (Create_offer now nonce cs hint expires replaces)
    obtain y where y: "create_offer (se_crypto env) now nonce cs hint expires replaces m = (m', y)"
      "r = (case y of Inl e \<Rightarrow> Failed e | Inr p \<Rightarrow> Offered (pp_nonce p))"
      using reply_eq step unfolding Create_offer pairing_step.simps by blast
    from create_offer_cases [OF y(1)] show ?thesis
    proof (elim disjE conjE exE)
      fix p rep
      assume p: "y = Inr p" "payload_ok p" "device_capabilities True cs = Inr (pp_capabilities p)"
        and m': "m' = (prune now m)\<lparr>pm_offers := jset (pp_nonce p)
         \<lparr>of_pairingId = pp_nonce p, of_payload = p, of_replace = rep, of_expiresAt = pp_expiresAt p\<rparr> (pm_offers (prune now m))\<rparr>"
      have "offered_with ?log (pp_nonce p) (pp_capabilities p)"
        unfolding offered_with_def using p(3) y(2)
        by (intro exI [of _ now] exI [of _ nonce] exI [of _ cs] exI [of _ hint] exI [of _ expires] exI [of _ replaces])
          (simp add: Create_offer p(1))
      then show ?thesis using run_ok_prune [OF ok', of now] p(2) by (auto simp: m' run_ok_def set_jset offer_ok_def)
    qed (use ok' run_ok_prune in auto)
  next
    case (Start_pairing now uuid e qr cn w)
    obtain y where y: "start_pairing (se_crypto env) now uuid e qr cn w m = (m', y)"
      using reply_eq step unfolding Start_pairing pairing_step.simps by blast
    let ?m = "prune now m"
    have pr: "run_ok env old ?log ?m" by (rule run_ok_prune [OF ok'])
    have "\<forall>x \<in> set (pm_offers m). payload_ok (of_payload (snd x))"
      using ok unfolding run_ok_def offer_ok_def by auto
    note cases = start_pairing_cases [OF y this]
    have session: "run_ok env old ?log m'"
      if o': "jget (pm_offers ?m) n = Some o'" and len: "length (pm_sessions ?m) < MAX_ACTIVE_HANDSHAKES"
        and m': "m' = ?m\<lparr>pm_offers := jdel n (pm_offers ?m), pm_sessions := jset sid s (pm_sessions ?m)\<rparr>"
        and s: "unshaken s" "ss_kind s = Pairing" "ss_pairingId s = of_pairingId o'" "ss_capabilities s = pp_capabilities (of_payload o')"
      for n o' sid s
    proof -
      have "offer_ok ?log n o'" using pr jget_Some_in [OF o'] by (auto simp: run_ok_def)
      then have "session_ok env ?log sid s" using s by (intro unshaken_ok) (auto simp: offer_ok_def)
      from new_session_ok [OF claimed_ok [OF pr] this] show ?thesis using len by (simp add: m')
    qed
    from cases show ?thesis
    proof (elim disjE conjE exE, goal_cases)
      case 1
      then show ?case by (simp only: pr)
    next
      case (2 n o' e)
      then show ?case by (simp only: claimed_ok [OF pr])
    qed (rule session; assumption)+
  next
    case (Start_resume now uuid e decoy d cn w)
    obtain y where y: "start_resume (se_crypto env) now uuid e decoy d cn w m = (m', y)"
      using reply_eq step unfolding Start_resume pairing_step.simps by blast
    have pr: "run_ok env old ?log (prune now m)" by (rule run_ok_prune [OF ok'])
    from start_resume_cases [OF y] show ?thesis
    proof (elim disjE conjE exE, goal_cases)
      case 1
      then show ?case by (simp only: pr)
    next
      case (2 sid s)
      have "session_ok env ?log sid s" using 2 by (intro unshaken_ok) simp_all
      from new_session_ok [OF pr this] 2 show ?case by simp
    qed
  next
    case (Complete now sid w)
    obtain y where "complete_handshake (se_crypto env) now sid w m = (m', y)"
      using reply_eq step unfolding Complete pairing_step.simps by blast
    then show ?thesis unfolding complete_handshake_def
      by (rule with_session_ok [OF ok']) (rule complete_triple [OF c [unfolded Complete], folded Complete])
  next
    case (Key_confirmation writes now sid f)
    obtain y where "receive_key_confirmation env writes now sid f m = (m', y)"
      using reply_eq step unfolding Key_confirmation pairing_step.simps by blast
    then show ?thesis unfolding receive_key_confirmation_def
      by (rule with_session_ok [OF ok']) (rule key_confirmation_triple [OF c [unfolded Key_confirmation], folded Key_confirmation])
  next
    case (Local_sas writes throws now sid)
    obtain y where "confirm_local_sas env writes throws now sid m = (m', y)"
      using reply_eq step unfolding Local_sas pairing_step.simps by blast
    then show ?thesis unfolding confirm_local_sas_def
      by (rule with_session_ok [OF ok']) (rule local_sas_triple [OF c [unfolded Local_sas], folded Local_sas])
  next
    case (Remote_sas writes throws now sid f)
    obtain y where "receive_remote_sas env writes throws now sid f m = (m', y)"
      using reply_eq step unfolding Remote_sas pairing_step.simps by blast
    then show ?thesis unfolding receive_remote_sas_def
      by (rule with_session_ok [OF ok']) (rule remote_sas_triple [OF c [unfolded Remote_sas], folded Remote_sas])
  next
    case (Connection now sid)
    obtain y where "authenticated_connection now sid m = (m', y)"
      using reply_eq step unfolding Connection pairing_step.simps by blast
    then show ?thesis unfolding authenticated_connection_def
      by (rule with_session_ok [OF ok'])
        (rule triple_bind [where mid = "\<lambda>_. session_inv env old ?log sid"], rule triple_check_session, assumption, assumption,
         rule triple_read, assumption)
  next
    case (Release sid)
    then have "m' = m\<lparr>pm_sessions := jdel sid (pm_sessions m)\<rparr>" using step by (simp add: reply_def release_session_def)
    then show ?thesis using ok' by (auto simp: run_ok_def set_jdel intro: le_trans [OF length_jdel_le])
  next
    case (Cancel pid)
    then have "\<exists>p q. m' = m\<lparr>pm_offers := filter p (pm_offers m), pm_sessions := filter q (pm_sessions m)\<rparr>"
      using step by (auto simp: reply_def cancel_pairing_def Let_def)
    then show ?thesis using ok' by (auto simp: run_ok_def intro: le_trans [OF length_filter_le])
  next
    case (Prune now)
    then show ?thesis using step run_ok_prune [OF ok'] by auto
  next
    case (Store_call writes throws now op)
    then show ?thesis using step store_calls_ok [OF ok', of writes throws now op] assms(2) by auto
  qed
qed

lemma pairing_run_ok: "pairing_run env st log m \<Longrightarrow> run_ok env (paired_devices st) log m"
proof (induction rule: pairing_run.induct)
  case started
  then show ?case by (simp add: run_ok_def)
next
  case (continued log m c m' r)
  then show ?case by (intro pairing_step_ok)
qed

section \<open>Offers are used once\<close>

definition times_offered :: "'k pairing_log \<Rightarrow> jstr \<Rightarrow> nat" where
  "times_offered log pid = length (filter (\<lambda>e. snd e = Offered pid) log)"

definition times_started :: "'k pairing_log \<Rightarrow> jstr \<Rightarrow> nat" where
  "times_started log pid = length (filter (\<lambda>e. \<exists>sid. snd e = Started sid pid) log)"

definition is_offered :: "'k pairing \<Rightarrow> jstr \<Rightarrow> nat" where
  "is_offered m pid = (if jhas (pm_offers m) pid then 1 else 0)"

lemma is_offered_le:
  assumes "\<And>x. x \<in> set (pm_offers m') \<Longrightarrow> x \<in> set (pm_offers m)"
  shows "is_offered m' pid \<le> is_offered m pid"
proof (cases "jhas (pm_offers m') pid")
  case True
  then obtain v where "jget (pm_offers m') pid = Some v" by (auto simp: jhas_def)
  then have "(pid, v) \<in> set (pm_offers m)" using assms jget_Some_in by metis
  then have "jhas (pm_offers m) pid" by (force simp: jhas_def jget_None)
  then show ?thesis by (simp add: is_offered_def)
qed (simp add: is_offered_def)

lemma with_session_offers: "with_session now sid kind body m = (m', r) \<Longrightarrow> pm_offers m' = pm_offers (prune now m)"
  by (auto simp: with_session_def Let_def split: option.splits if_splits prod.splits)

lemma prune_offers: "x \<in> set (pm_offers (prune now m)) \<Longrightarrow> x \<in> set (pm_offers m)"
  by (simp add: prune_def)

lemma step_offers:
  assumes ok: "run_ok env old log m" and step: "pairing_step env c m = (m', r)"
  shows "times_started [(c, r)] pid + is_offered m' pid \<le> times_offered [(c, r)] pid + is_offered m pid"
proof -
  have pr: "is_offered (prune now m) pid \<le> is_offered m pid" for now
    by (rule is_offered_le) (rule prune_offers)
  have quiet: ?thesis if "\<And>x. x \<in> set (pm_offers m') \<Longrightarrow> x \<in> set (pm_offers m)" "\<And>sid. r \<noteq> Started sid pid"
    using is_offered_le [of m' m pid] that by (simp add: times_started_def)
  show ?thesis
  proof (cases c)
    case (Create_offer now nonce cs hint expires replaces)
    obtain y where y: "create_offer (se_crypto env) now nonce cs hint expires replaces m = (m', y)"
      "r = (case y of Inl e \<Rightarrow> Failed e | Inr p \<Rightarrow> Offered (pp_nonce p))"
      using reply_eq step unfolding Create_offer pairing_step.simps by blast
    from create_offer_cases [OF y(1)] show ?thesis
    proof (elim disjE conjE exE, goal_cases)
      case (3 p rep)
      then show ?case using y(2) pr [of now]
        by (auto simp: times_started_def times_offered_def is_offered_def jhas_def split: if_splits)
    qed (use y(2) pr [of now] in \<open>simp_all add: times_started_def\<close>)
  next
    case (Start_pairing now uuid e qr cn w)
    obtain y where y: "start_pairing (se_crypto env) now uuid e qr cn w m = (m', y)"
      "r = (case y of Inl e \<Rightarrow> Failed e | Inr z \<Rightarrow> (case z of (sid, pid, _) \<Rightarrow> Started sid pid))"
      using reply_eq step unfolding Start_pairing pairing_step.simps by blast
    let ?m = "prune now m"
    have offers: "\<forall>x \<in> set (pm_offers m). payload_ok (of_payload (snd x))"
      using ok unfolding run_ok_def offer_ok_def by auto
    have claimed: ?thesis
      if o': "jget (pm_offers ?m) n = Some o'" and m': "pm_offers m' = jdel n (pm_offers ?m)"
        and y': "(\<exists>e. y = Inl e) \<or> (\<exists>sid m2. y = Inr (sid, of_pairingId o', m2))" for n o'
    proof -
      have "(n, o') \<in> set (pm_offers m)" by (rule prune_offers) (rule jget_Some_in [OF o'])
      then have n: "of_pairingId o' = n" using ok by (auto simp: run_ok_def offer_ok_def)
      have "is_offered m' pid + (if pid = n then 1 else 0) \<le> is_offered ?m pid"
        using o' by (auto simp: is_offered_def jhas_def m')
      then show ?thesis using y' y(2) n pr [of now] by (auto simp: times_started_def split: if_splits)
    qed
    from start_pairing_cases [OF y(1) offers] consider e where "m' = ?m" "y = Inl e"
      | n o' where "jget (pm_offers ?m) n = Some o'" "pm_offers m' = jdel n (pm_offers ?m)"
        "(\<exists>e. y = Inl e) \<or> (\<exists>sid m2. y = Inr (sid, of_pairingId o', m2))" by fastforce
    then show ?thesis
    proof cases
      case (1 e)
      then show ?thesis using y(2) pr [of now] by (simp add: times_started_def)
    qed (rule claimed)
  next
    case (Start_resume now uuid e decoy d cn w)
    obtain y where y: "start_resume (se_crypto env) now uuid e decoy d cn w m = (m', y)"
      "r = (case y of Inl e \<Rightarrow> Failed e | Inr z \<Rightarrow> (case z of (sid, _) \<Rightarrow> Resumed sid))"
      using reply_eq step unfolding Start_resume pairing_step.simps by blast
    have "pm_offers m' = pm_offers (prune now m)" using start_resume_cases [OF y(1)] by auto
    then show ?thesis using y(2) by (intro quiet) (auto dest: prune_offers split: sum.splits prod.splits)
  next
    case (Complete now sid w)
    then show ?thesis using step
      by (intro quiet) (auto dest!: reply_eq with_session_offers dest: prune_offers simp: complete_handshake_def split: sum.splits)
  next
    case (Key_confirmation writes now sid f)
    then show ?thesis using step
      by (intro quiet) (auto dest!: reply_eq with_session_offers dest: prune_offers simp: receive_key_confirmation_def split: sum.splits)
  next
    case (Local_sas writes throws now sid)
    then show ?thesis using step
      by (intro quiet) (auto dest!: reply_eq with_session_offers dest: prune_offers simp: confirm_local_sas_def split: sum.splits)
  next
    case (Remote_sas writes throws now sid f)
    then show ?thesis using step
      by (intro quiet) (auto dest!: reply_eq with_session_offers dest: prune_offers simp: receive_remote_sas_def split: sum.splits)
  next
    case (Connection now sid)
    then show ?thesis using step
      by (intro quiet) (auto dest!: reply_eq with_session_offers dest: prune_offers simp: authenticated_connection_def split: sum.splits)
  next
    case (Release sid)
    then show ?thesis using step by (intro quiet) (auto simp: reply_def release_session_def)
  next
    case (Cancel pid)
    then show ?thesis using step by (intro quiet) (auto simp: reply_def cancel_pairing_def Let_def)
  next
    case (Prune now)
    then show ?thesis using step by (intro quiet) (auto dest: prune_offers)
  next
    case (Store_call writes throws now op)
    then show ?thesis using step by (intro quiet) auto
  qed
qed

lemma run_offers: "pairing_run env st log m \<Longrightarrow> times_started log pid + is_offered m pid \<le> times_offered log pid"
proof (induction rule: pairing_run.induct)
  case started
  then show ?case by (simp add: times_started_def times_offered_def is_offered_def jhas_def)
next
  case (continued log m c m' r)
  have "times_started ((c, r) # log) pid = times_started [(c, r)] pid + times_started log pid"
    "times_offered ((c, r) # log) pid = times_offered [(c, r)] pid + times_offered log pid"
    by (simp_all add: times_started_def times_offered_def)
  then show ?case using step_offers [OF pairing_run_ok [OF continued.hyps(1)] continued.hyps(3), of pid] continued.IH by simp
qed

section \<open>What pairing takes\<close>

lemma pending_clean:
  assumes "clean_device_record (Some (pending_device p cs t)) now = Inr d" "device_capabilities b v = Inr cs"
  shows "de_deviceId d = pe_id p" "de_identityPublic d = pe_identityPublic p" "de_staticPublic d = pe_staticPublic p"
    "de_capabilities d = cs"
proof -
  have c: "device_capabilities True (Some (capabilities_json cs)) = Inr cs"
    unfolding capabilities_json_def by (rule device_capabilities_back) (rule device_capabilities_Inr [OF assms(2)])+
  have d: "device_capabilities True (Some (capabilities_json cs)) = Inr (de_capabilities d)
    \<and> device_id (Some (JStr (pe_id p))) = Inr (de_deviceId d)
    \<and> device_public (Some (JStr (pe_identityPublic p))) = Inr (de_identityPublic d)
    \<and> device_public (Some (JStr (pe_staticPublic p))) = Inr (de_staticPublic d)"
    using assms(1) by (auto simp: clean_device_record_def pending_device_def Let_def elim!: ebind_InrE require_InrE)
  then show "de_deviceId d = pe_id p" "de_identityPublic d = pe_identityPublic p" "de_staticPublic d = pe_staticPublic p"
    "de_capabilities d = cs" using c by (simp_all add: device_id_Inr device_public_Inr)
qed

definition pairing_evidence :: "'k store_env \<Rightarrow> 'k pairing_log \<Rightarrow> device \<Rightarrow> bool" where
  "pairing_evidence env log d \<longleftrightarrow> (\<exists>sid pid p res l c.
     offered_with log pid (de_capabilities d)
     \<and> de_deviceId d = pe_id p \<and> de_identityPublic d = pe_identityPublic p \<and> de_staticPublic d = pe_staticPublic p
     \<and> (\<exists>t w h h'. called log (Complete t sid w) \<and> read_message_3 (se_crypto env) w h = (h', Inr p)
          \<and> handshake_result_of (se_crypto env) h' = (h', Inr res))
     \<and> ct_deviceId c = pe_id p \<and> create_secure_channel (se_crypto env) res c Desktop_party = Inr l
     \<and> (\<exists>writes t f. called log (Key_confirmation writes t sid f)
          \<and> says (se_crypto env) l f (key_confirmation_payload Device_party (hr_hash res)))
     \<and> (\<exists>writes throws t. called log (Local_sas writes throws t sid))
     \<and> (\<exists>writes throws t f. called log (Remote_sas writes throws t sid f)
          \<and> says (se_crypto env) l f (sas_confirmation_payload Device_party (hr_hash res))))"

lemma vouched_evidence:
  assumes "vouched env log d"
  shows "pairing_evidence env log d"
proof -
  from assms obtain sid s now where s: "session_ok env log sid s" "ss_localSas s" "ss_remoteSas s" "ss_remoteKey s"
    and d: "clean_device_record (ss_pending s) now = Inr d" by (auto simp: vouched_def)
  obtain v where v: "ss_pending s = Some v" using d by (cases "ss_pending s") (simp_all add: clean_device_record_def)
  then have kind: "ss_kind s = Pairing" using s(1) by (cases "ss_kind s") (auto simp: session_ok_def)
  obtain p t where p: "ss_peer s = Some p" "v = pending_device p (ss_capabilities s) t"
    using s(1) v by (auto simp: session_ok_def)
  have off: "offered_with log (ss_pairingId s) (ss_capabilities s)" using s(1) kind by (simp add: session_ok_def)
  then obtain x where "device_capabilities True x = Inr (ss_capabilities s)" by (auto simp: offered_with_def)
  note fields = pending_clean [OF d [unfolded v p(2)] this]
  obtain c where c: "ss_channel s = Some c" using s(1,4) by (auto simp: session_ok_def key_confirmed_def)
  have "shaken env log sid s" using s(1) c by (simp add: session_ok_def)
  then obtain t w h h' res where sh: "called log (Complete t sid w)" "read_message_3 (se_crypto env) w h = (h', Inr p)"
    "handshake_result_of (se_crypto env) h' = (h', Inr res)" "ss_result s = Some res"
    "create_secure_channel (se_crypto env) res
            \<lparr>ct_desktopId = ss_desktopId s, ct_deviceId = pe_id p, ct_connectionId = ss_connectionId s\<rparr> Desktop_party = Inr (line c)"
    using c p(1) by (auto simp: shaken_def)
  have h: "handshake_hash s = hr_hash res" by (simp add: handshake_hash_def sh(4))
  have k: "\<exists>writes t f. called log (Key_confirmation writes t sid f)
      \<and> says (se_crypto env) (line c) f (key_confirmation_payload Device_party (hr_hash res))"
    using s(1,4) c h by (auto simp: session_ok_def key_confirmed_def)
  have r: "\<exists>writes throws t f. called log (Remote_sas writes throws t sid f)
      \<and> says (se_crypto env) (line c) f (sas_confirmation_payload Device_party (hr_hash res))"
    using s(1,3) c h by (auto simp: session_ok_def sas_confirmed_def)
  have l: "\<exists>writes throws t. called log (Local_sas writes throws t sid)" using s(1,2) by (simp add: session_ok_def)
  show ?thesis
    unfolding pairing_evidence_def
    by (rule exI [of _ sid], rule exI [of _ "ss_pairingId s"], rule exI [of _ p], rule exI [of _ res],
        rule exI [of _ "line c"],
        rule exI [of _ "\<lparr>ct_desktopId = ss_desktopId s, ct_deviceId = pe_id p, ct_connectionId = ss_connectionId s\<rparr>"])
      (use off fields sh k r l in auto)
qed

end
