(* ===== verification/Pairing_Run.thy ===== *)
theory Pairing_Run
  imports Pairing_Safety
begin

text \<open>
  An honest pairing from the offer to the stored device: the manager of \<open>Pairing\<close> on one side, the
  device's half of \<open>crypto.cjs\<close> on the other, and two users who see the same words.
\<close>

section \<open>The offer\<close>

definition no_hint :: transport_hint where
  "no_hint = \<lparr>th_host = None, th_tailscale = None, th_port = None\<rparr>"

definition own_payload :: "'k identity \<Rightarrow> key_record \<Rightarrow> bytes \<Rightarrow> capability list \<Rightarrow> int \<Rightarrow> pairing_payload" where
  "own_payload D k nonce cs expires =
     \<lparr>pp_desktopId = id_id D, pp_identityPublic = id_identityPublic D, pp_keyRecord = k, pp_nonce = b64url nonce,
      pp_capabilities = cs, pp_hint = no_hint, pp_expiresAt = expires\<rparr>"

definition own_record :: "'k runtime_crypto \<Rightarrow> 'k identity \<Rightarrow> key_record \<Rightarrow> bool" where
  "own_record rc D k \<longleftrightarrow> key_record_data k = id_keyRecord D
     \<and> (\<exists>s. k = \<lparr>kr_role = Desktop_party, kr_id = id_id D, kr_static = id_staticPublic D, kr_signature = s\<rparr> \<and> length s = 86)
     \<and> verify_signed_key_record rc (Some (id_keyRecord D)) (Some (JStr (id_identityPublic D))) Desktop_party (Some (id_id D)) = Inr k"

lemma own_record_exists:
  assumes "key_law rc" "proper_identity rc D" "id_role D = Desktop_party"
  shows "\<exists>k. own_record rc D k"
proof -
  obtain s where s: "id_keyRecord D = key_record_json Desktop_party (id_id D) (id_staticPublic D) (Some (JStr s))" "length s = 86"
    "verify_signed_key_record rc (Some (id_keyRecord D)) (Some (JStr (id_identityPublic D))) Desktop_party (Some (id_id D))
        = Inr \<lparr>kr_role = Desktop_party, kr_id = id_id D, kr_static = id_staticPublic D, kr_signature = s\<rparr>"
    using proper_identity_record [OF assms(1,2)] assms(3) by fastforce
  let ?k = "\<lparr>kr_role = Desktop_party, kr_id = id_id D, kr_static = id_staticPublic D, kr_signature = s\<rparr>"
  have "key_record_data ?k = id_keyRecord D" unfolding s(1) by (simp add: key_record_data_def)
  then have "own_record rc D ?k" unfolding own_record_def using s(2,3) by simp
  then show ?thesis by blast
qed

lemma default_hint_ok: "normalize_transport_hint (Some default_hint) = Inr no_hint" "hint_json no_hint = default_hint"
  by (simp_all add: normalize_transport_hint_def default_hint_def hint_host_def hint_port_def nullish_def no_hint_def hint_json_def)
    (simp add: obj_def)

lemma own_offer:
  assumes "own_record rc D k"
  shows "offer_json D nonce cs no_hint expires = payload_json (own_payload D k nonce cs expires)"
  using assms by (simp add: offer_json_def payload_json_def own_payload_def own_record_def)

lemma length_int_text: "0 \<le> n \<Longrightarrow> is_safe n \<Longrightarrow> length (int_text n) \<le> 16"
proof -
  assume "0 \<le> n" "is_safe n"
  then have "nat n < 10 ^ 16" by (simp add: is_safe_def max_safe_integer_def)
  then have "length (digits_of (nat n)) \<le> 16" by (subst length_digits_of) simp
  then show ?thesis using \<open>0 \<le> n\<close> by (simp add: int_text_def)
qed

lemma length_capabilities:
  assumes "device_capabilities b v = Inr cs"
  shows "(\<Sum>x\<leftarrow>map (\<lambda>c. JStr (js (capability_text c))) cs. Suc (json_size x)) \<le> 225"
proof -
  have "cs = filter (\<lambda>c. c \<in> set cs) CAPABILITIES" by (rule device_capabilities_Inr(2) [OF assms])
  then have "\<exists>p. cs = filter p CAPABILITIES" by blast
  then obtain p where "cs = filter p CAPABILITIES" by blast
  then show ?thesis by (auto simp: CAPABILITIES_def)
qed

lemma own_payload_fits:
  assumes "proper_identity rc D" "own_record rc D k" "length nonce = 32" "device_capabilities b v = Inr cs" "0 \<le> expires" "is_safe expires"
    and law: "key_law rc"
  shows "\<exists>e. canonical_bytes (payload_json (own_payload D k nonce cs expires)) = Inr e \<and> length e \<le> MAX_QR_BYTES"
proof -
  let ?p = "own_payload D k nonce cs expires"
  have ok: "payload_ok ?p"
    using device_capabilities_Inr [OF assms(4)] assms(6) by (simp add: payload_ok_def own_payload_def no_hint_def)
  obtain s where k: "k = \<lparr>kr_role = Desktop_party, kr_id = id_id D, kr_static = id_staticPublic D, kr_signature = s\<rparr>" "length s = 86"
    using assms(2) by (auto simp: own_record_def)
  have l: "length (id_id D) \<le> 160" "length (id_identityPublic D) = 43" "length (id_staticPublic D) = 43" "length (b64url nonce) = 43"
    using assms(1,3) key_lawD(1,2) [OF law] by (auto simp: proper_identity_def identifier_ok_def MAX_ID_LENGTH_def length_b64url)
  have "json_size (payload_json ?p) \<le> 5400"
    using l k(2) length_int_text [OF assms(5,6)] length_capabilities [OF assms(4)]
    by (simp add: payload_json_def own_payload_def no_hint_def hint_json_def key_record_data_def k(1) key_record_json_def capabilities_json_def
        QR_TYPE_def NOISE_PROTOCOL_def) (simp add: obj_def exec_simps)
  then have "length (utf8_encode (stringify (sort_json (payload_json ?p)))) \<le> MAX_QR_BYTES"
    using length_utf8_encode [of "stringify (sort_json (payload_json ?p))"] length_stringify [of "payload_json ?p"]
    by (simp add: length_stringify_sort MAX_QR_BYTES_def)
  then show ?thesis using canonical_bytes_plain [OF offer_plain [OF ok]] by blast
qed

lemma own_payload_valid:
  assumes law: "key_law rc" and D: "proper_identity rc D" "id_role D = Desktop_party" and k: "own_record rc D k"
    and nonce: "length nonce = 32" and cs: "device_capabilities b v = Inr cs"
    and now: "0 \<le> now" "now \<le> expires" "is_safe expires"
    and e: "expected = None \<or> expected = Some (own_payload D k nonce cs expires)"
  shows "validate_pairing_payload rc now 0 (Some (id_id D)) expected (Some (payload_json (own_payload D k nonce cs expires)))
    = Inr (own_payload D k nonce cs expires)"
proof -
  let ?p = "own_payload D k nonce cs expires"
  let ?j = "payload_json ?p"
  obtain enc where enc: "canonical_bytes ?j = Inr enc" "length enc \<le> MAX_QR_BYTES"
    using own_payload_fits [OF D(1) k nonce cs _ now(3) law] now by auto
  let ?ed = "rc_edPublic rc (id_identityPrivate D)"
  have pub: "id_identityPublic D = b64url ?ed" "length ?ed = 32" "identifier_ok MAX_ID_LENGTH (id_id D)"
    using D(1) key_lawD(1) [OF law] by (simp_all add: proper_identity_def)
  have ne: "?ed \<noteq> []" "nonce \<noteq> []" using pub(2) nonce by auto
  have f: "field ?j ''type'' = Some (JStr (js QR_TYPE))" "field ?j ''protocolVersion'' = Some (JInt 1)"
    "field ?j ''noiseProtocol'' = Some (JStr (js NOISE_PROTOCOL))" "field ?j ''desktopId'' = Some (JStr (id_id D))"
    "field ?j ''identityPublic'' = Some (JStr (b64url ?ed))" "field ?j ''keyRecord'' = Some (id_keyRecord D)"
    "field ?j ''pairingNonce'' = Some (JStr (b64url nonce))" "field ?j ''requestedCapabilities'' = Some (capabilities_json cs)"
    "field ?j ''transportHint'' = Some default_hint" "field ?j ''expiresAt'' = Some (JInt expires)"
    using k by (simp_all add: payload_json_def own_payload_def pub(1) default_hint_ok own_record_def)
  have keys: "is_obj ?j" "only_keys ?j [''type'', ''protocolVersion'', ''noiseProtocol'', ''desktopId'', ''identityPublic'',
      ''keyRecord'', ''pairingNonce'', ''requestedCapabilities'', ''transportHint'', ''expiresAt'']"
    by (simp_all add: payload_json_def)
  have id: "pairing_id (Some (JStr (id_id D))) = Inr (id_id D)" using pub(3) by (simp add: pairing_id_def)
  have cs': "device_capabilities True (Some (capabilities_json cs)) = Inr cs"
    unfolding capabilities_json_def by (rule device_capabilities_back) (rule device_capabilities_Inr [OF cs])+
  have r: "read_b64url (Some (JStr (b64url ?ed))) (Some 32) = Inr ?ed" "read_b64url (Some (JStr (b64url nonce))) (Some 32) = Inr nonce"
    using pub(2) ne nonce by simp_all
  have v: "verify_signed_key_record rc (Some (id_keyRecord D)) (Some (JStr (b64url ?ed))) Desktop_party (Some (id_id D)) = Inr k"
    using k pub(1) by (simp add: own_record_def)
  have lifts: "of_crypto (Inr x) = Inr x" "of_device (Inr y) = Inr y" for x :: 'x and y :: 'y by simp_all
  have mine: "\<lparr>pp_desktopId = id_id D, pp_identityPublic = b64url ?ed, pp_keyRecord = k,
       pp_nonce = b64url nonce, pp_capabilities = cs, pp_hint = no_hint, pp_expiresAt = expires\<rparr> = ?p"
    by (simp add: own_payload_def pub(1))
  have int: "as_int (Some (JInt expires)) = Some expires" "0 \<le> expires" "is_safe 0" "now \<le> expires + 0"
    using now by (simp_all add: is_safe_def max_safe_integer_def)
  have req: "require True err x = x" for err :: pairing_error and x :: "pairing_error + pairing_payload" by simp
  show ?thesis
    unfolding validate_pairing_payload_def option.case f id cs' r v default_hint_ok of_crypto_Inr Let_def int(1)
    using keys e int enc by (auto simp: id cs' default_hint_ok mine f r v of_crypto_def of_device_def)
qed

section \<open>Values over a channel\<close>

lemma sort_json_idem: "sort_json (sort_json v) = sort_json v"
proof (induction v rule: sort_json.induct)
  case (1 xs)
  then show ?case by (simp add: comp_def cong: map_cong)
next
  case (2 ps)
  let ?f = "\<lambda>p. (fst p, sort_json (snd p))"
  have m: "map ?f (map ?f ps) = map ?f ps" using 2 by (simp add: comp_def)
  have e: "map ?f (sort_key fst (map ?f ps)) = sort_key fst (map ?f (map ?f ps))"
    using sort_key_map [of fst ?f "map ?f ps"] by (simp add: comp_def)
  show ?case by (simp only: sort_json.simps e m) (simp add: sort_key_id_if_sorted)
qed simp_all

lemma sort_json_plain: "json_plain v \<Longrightarrow> json_plain (sort_json v)"
proof (induction v rule: sort_json.induct)
  case (1 xs)
  then show ?case by (simp add: list_all_iff)
next
  case (2 ps)
  let ?qs = "sort_key fst (map (\<lambda>p. (fst p, sort_json (snd p))) ps)"
  have "map fst ?qs = sort_key (\<lambda>k. k) (map fst ps)" by (simp add: sort_key_map comp_def)
  then have "distinct (map fst ?qs)" using 2(2) by simp
  moreover have "list_all (\<lambda>k. \<not> is_array_index k) (map fst ?qs)" using 2(2) by (auto simp: list_all_iff)
  moreover have "list_all json_plain (map snd ?qs)" using 2 by (fastforce simp: list_all_iff)
  ultimately show ?case by simp
qed simp_all

lemma canonical_sorted: "json_plain v \<Longrightarrow> canonical_json (sort_json v) = canonical_json v"
  by (simp add: canonical_stringify sort_json_plain sort_json_idem)

text \<open>Two channels that can talk to each other, after at most \<open>n\<close> frames each way.\<close>

definition linked :: "channel \<Rightarrow> channel \<Rightarrow> nat \<Rightarrow> bool" where
  "linked a b n \<longleftrightarrow> paired a b \<and> paired b a \<and> length (ch_sendKey a) = 32 \<and> length (ch_sendKey b) = 32
     \<and> ch_sendCounter a \<le> n \<and> ch_sendCounter b \<le> n"

lemma linked_sym: "linked a b n \<Longrightarrow> linked b a n"
  by (auto simp: linked_def)

lemma json_transfer:
  assumes law: "key_law rc" and l: "linked a b n" "n < 2 ^ 64" and v: "json_plain v" "3 * json_size v \<le> MAX_SECURE_PLAINTEXT_BYTES"
  shows "\<exists>a' f b'. encrypt_json rc v a = (a', Inr f) \<and> decrypt_json rc f b = (b', Inr (sort_json v)) \<and> linked a' b' (Suc n)"
proof -
  let ?e = "utf8_encode (stringify (sort_json v))"
  have c: "canonical_bytes v = Inr ?e" by (rule canonical_bytes_plain [OF v(1)])
  have "length ?e \<le> 3 * json_size v"
    using length_utf8_encode [of "stringify (sort_json v)"] length_stringify [of v] by (simp add: length_stringify_sort)
  then have len: "length ?e \<le> MAX_SECURE_PLAINTEXT_BYTES" using v(2) by simp
  have key: "length (ch_sendKey a) = 32" and cnt: "ch_sendCounter a \<le> 2 ^ 64 - 1" and p: "paired a b" "paired b a"
    and rest: "length (ch_sendKey b) = 32" "ch_sendCounter a \<le> n" "ch_sendCounter b \<le> n"
    using l by (simp_all add: linked_def)
  obtain a' f where e: "encrypt rc ?e a = (a', Inr f)" using encrypt_total [OF law key cnt len] by blast
  then have a': "a' = a\<lparr>ch_sendCounter := ch_sendCounter a + 1\<rparr>" and f: "distinct (okeys f)" "is_obj f"
    by (auto simp: encrypt_Inr secure_frame_distinct)
  let ?b = "b\<lparr>ch_receiveCounter := ch_receiveCounter b + 1\<rparr>"
  have d: "decrypt rc f b = (?b, Inr ?e)"
    using decrypt_exact [OF law p(1) f(1)] e same_fields_refl [OF f(2,1)] by blast
  have "parse_bytes rc ?e = Some (sort_json v)" by (rule parse_canonical_bytes [OF v(1) c])
  then have "decrypt_json rc f b = (?b, Inr (sort_json v))" using d by (simp add: decrypt_json_def)
  moreover have "encrypt_json rc v a = (a', Inr f)" using e c by (simp add: encrypt_json_def)
  moreover have "linked a' ?b (Suc n)"
    using p key rest unfolding linked_def a' by (auto simp: paired_def)
  ultimately show ?thesis by blast
qed

lemma confirmation_plain:
  assumes "length h = 32"
  shows "json_plain (key_confirmation_payload role h)" "3 * json_size (key_confirmation_payload role h) \<le> MAX_SECURE_PLAINTEXT_BYTES"
    "json_plain (sas_confirmation_payload role h)" "3 * json_size (sas_confirmation_payload role h) \<le> MAX_SECURE_PLAINTEXT_BYTES"
  using assms
  by (cases role; simp add: key_confirmation_payload_def sas_confirmation_payload_def obj_def is_array_index_def exec_simps
      length_b64url MAX_SECURE_PLAINTEXT_BYTES_def)+

lemma confirmation_transfer:
  assumes law: "key_law rc" and l: "linked a b n" "n < 2 ^ 64" and h: "length h = 32"
  shows "\<exists>a' f b'. make_key_confirmation rc role h a = (a', Inr f) \<and> verify_key_confirmation rc f role h b = (b', Inr ())
    \<and> linked a' b' (Suc n)"
proof -
  note p = confirmation_plain [OF h, of role]
  obtain a' f b' where "encrypt_json rc (key_confirmation_payload role h) a = (a', Inr f)"
    "decrypt_json rc f b = (b', Inr (sort_json (key_confirmation_payload role h)))" "linked a' b' (Suc n)"
    using json_transfer [OF law l p(1,2)] by blast
  then show ?thesis
    using canonical_stringify [OF p(1)] canonical_sorted [OF p(1)]
    by (auto simp: make_key_confirmation_def verify_key_confirmation_def)
qed

section \<open>The methods of the manager on an honest session\<close>

lemma create_offer_own:
  assumes law: "key_law rc" and D: "proper_identity rc D" "id_role D = Desktop_party" and k: "own_record rc D k"
    and nonce: "length nonce = 32" and cs: "device_capabilities True v = Inr cs"
    and now: "0 \<le> now" "is_safe (now + DEFAULT_PAIRING_TTL_MS)" and st: "dv_identity st = D"
  shows "create_offer rc now nonce v None None None \<lparr>pm_store = st, pm_offers = [], pm_sessions = []\<rparr>
    = (\<lparr>pm_store = st, pm_offers = [(b64url nonce, \<lparr>of_pairingId = b64url nonce,
         of_payload = own_payload D k nonce cs (now + DEFAULT_PAIRING_TTL_MS), of_replace = None,
         of_expiresAt = now + DEFAULT_PAIRING_TTL_MS\<rparr>)], pm_sessions = []\<rparr>,
       Inr (own_payload D k nonce cs (now + DEFAULT_PAIRING_TTL_MS)))"
proof -
  let ?x = "now + DEFAULT_PAIRING_TTL_MS"
  have "validate_pairing_payload rc now 0 (Some (id_id D)) None (Some (offer_json D nonce cs no_hint ?x)) = Inr (own_payload D k nonce cs ?x)"
    unfolding own_offer [OF k]
    by (rule own_payload_valid [OF law D k nonce cs]) (use now in \<open>simp_all add: DEFAULT_PAIRING_TTL_MS_def\<close>)
  then show ?thesis
    by (simp add: create_offer_def sbind_def replaced_device_def nullish_def prune_def st cs of_device_def default_hint_ok
        own_payload_def jset_def)
qed

lemma start_pairing_own:
  assumes law: "key_law rc" and D: "proper_identity rc D" "id_role D = Desktop_party" and k: "own_record rc D k"
    and nonce: "length nonce = 32" and cs: "device_capabilities b v = Inr cs"
    and now: "0 \<le> now" "now \<le> expires" "is_safe expires" and st: "dv_identity st = D"
    and ctx: "pairing_context rc (own_payload D k nonce cs expires) (Some (JStr c)) = Inr (c, cx)"
    and pro: "create_noise_prologue cx = Inr prologue" and r0: "new_responder rc D prologue None f = Inr r0"
    and r1: "read_message_1 rc w r0 = (r1, Inr ())" and r2: "write_message_2 rc r1 = (r2, Inr m2)"
  shows "start_pairing rc now uuid f (Some (payload_json (own_payload D k nonce cs expires))) (Some (JStr c)) w
      \<lparr>pm_store = st, pm_offers = [(b64url nonce, \<lparr>of_pairingId = b64url nonce,
         of_payload = own_payload D k nonce cs expires, of_replace = None, of_expiresAt = expires\<rparr>)], pm_sessions = []\<rparr>
    = (\<lparr>pm_store = st, pm_offers = [], pm_sessions = [(js ''pair-'' @ uuid,
         (fresh_session Pairing (min expires (now + HANDSHAKE_TIMEOUT_MS)) r2 (id_id D) c)
           \<lparr>ss_pairingId := b64url nonce, ss_capabilities := cs\<rparr>)]\<rparr>,
       Inr (js ''pair-'' @ uuid, b64url nonce, m2))"
proof -
  note valid = own_payload_valid [OF law D k nonce cs now]
  have h: "begin_handshake rc D cx None f w = Inr r1"
    by (simp add: begin_handshake_def pro r0 r1 of_crypto_def)
  have parts: "pp_nonce (own_payload D k nonce cs expires) = b64url nonce" "pp_expiresAt (own_payload D k nonce cs expires) = expires"
    "pp_desktopId (own_payload D k nonce cs expires) = id_id D" "pp_capabilities (own_payload D k nonce cs expires) = cs"
    by (simp_all add: own_payload_def)
  show ?thesis
    using now(2)
    by (simp add: start_pairing_def sbind_def prune_def st valid parts jget_def jdel_def ctx h answer_def MAX_ACTIVE_HANDSHAKES_def
        Let_def fresh_session_def r2 of_crypto_def jset_def)
qed

lemma with_session_single:
  assumes "now \<le> ss_expiresAt s" "kind = None \<or> kind = Some (ss_kind s)" "body (st, s) = ((st', s'), r)"
  shows "with_session now sid kind body \<lparr>pm_store = st, pm_offers = [], pm_sessions = [(sid, s)]\<rparr>
    = (\<lparr>pm_store = st', pm_offers = [], pm_sessions = [(sid, s')]\<rparr>, r)"
  using assms by (auto simp: with_session_def prune_def Let_def jget_def jset_def)

lemma complete_body_ok:
  assumes "ss_state s = Awaiting_message_3" "ss_kind s = Pairing" "ss_replace s = None" "get_device (pe_id p) st = None"
    and "read_message_3 rc w (ss_responder s) = (r3, Inr p)" "handshake_result_of rc r3 = (r3, Inr res)"
    and "create_secure_channel rc res \<lparr>ct_desktopId = ss_desktopId s, ct_deviceId = pe_id p, ct_connectionId = ss_connectionId s\<rparr>
      Desktop_party = Inr ch"
    and "make_key_confirmation rc Desktop_party (hr_hash res) ch = (ch', Inr frame)"
  shows "complete_body rc now w (st, s) = ((st, s\<lparr>ss_responder := r3, ss_pending := Some (pending_device p (ss_capabilities s) now),
      ss_peer := Some p, ss_result := Some res, ss_channel := Some ch', ss_sas := sas_words rc (hr_hash res),
      ss_state := Awaiting_pairing_confirmation\<rparr>),
    Inr \<lparr>cp_kind = Pairing, cp_peer = p, cp_frame = frame, cp_sas = sas_words rc (hr_hash res)\<rparr>)"
  using assms
  by (simp add: complete_body_def sbind_def check_session_def on_responder_def of_crypto_def check_peer_def the_session_def
      on_session_def on_channel_def)

lemma key_confirmation_body_ok:
  assumes "ss_channel s = Some ch" "\<not> ss_remoteKey s" "ss_kind s = Pairing"
    and "verify_key_confirmation (se_crypto env) f Device_party (handshake_hash s) ch = (ch', Inr ())"
  shows "key_confirmation_body env writes now f (st, s) = ((st, s\<lparr>ss_channel := Some ch', ss_remoteKey := True\<rparr>), Inr False)"
  using assms
  by (simp add: key_confirmation_body_def sbind_def check_session_def of_crypto_def the_session_def on_session_def on_channel_def)

lemma local_sas_body_ok:
  assumes "ss_channel s = Some ch" "ss_remoteKey s" "\<not> ss_localSas s" "\<not> ss_remoteSas s" "\<not> ss_completed s"
    and "encrypt_json (se_crypto env) (sas_confirmation_payload Desktop_party (handshake_hash s)) ch = (ch', Inr frame)"
  shows "local_sas_body env writes throws now (st, s) =
    ((st, s\<lparr>ss_channel := Some ch', ss_localSas := True, ss_sasFrame := Some frame\<rparr>), Inr (Some frame, False, ss_pairedFrame s))"
  using assms
  by (simp add: local_sas_body_def sbind_def check_session_def of_crypto_def the_session_def on_session_def on_channel_def
      finalize_pairing_def handshake_hash_def)

lemma remote_sas_body_ok:
  assumes "ss_channel s = Some ch" "ss_remoteKey s" "ss_localSas s" "\<not> ss_remoteSas s" "\<not> ss_completed s"
    and "decrypt_json (se_crypto env) f ch = (ch', Inr x)"
    and "canonical_json x = Some u" "canonical_json (sas_confirmation_payload Device_party (handshake_hash s)) = Some u"
    and "pair_device env writes throws now (ss_pending s) (ss_replace s \<noteq> None) st = (st', Inr d)"
    and "encrypt_json (se_crypto env) (paired_json d (handshake_hash s)) ch' = (ch'', Inr frame)"
  shows "\<exists>s'. remote_sas_body env writes throws now f (st, s) = ((st', s'), Inr (True, Some frame))"
  using assms
  by (simp add: remote_sas_body_def sbind_def check_session_def of_crypto_def of_device_def the_session_def on_session_def on_channel_def
      on_store_def finalize_pairing_def handshake_hash_def)

section \<open>The device that is stored\<close>

definition stored_device :: "'k identity \<Rightarrow> capability list \<Rightarrow> int \<Rightarrow> device" where
  "stored_device d cs now =
     \<lparr>de_deviceId = id_id d, de_displayName = peer_name Device_party (Some (JStr (id_displayName d))),
      de_identityPublic = id_identityPublic d, de_staticPublic = id_staticPublic d, de_capabilities = cs,
      de_pairedAt = now, de_lastSeenAt = now\<rparr>"

lemma pending_is_record:
  "id_role d = Device_party \<Longrightarrow> pending_device (peer_of d k) cs now = device_json (stored_device d cs now)"
  by (simp add: pending_device_def peer_of_def device_json_def stored_device_def capabilities_json_def)

lemma stored_device_ok:
  assumes "key_law rc" "proper_identity rc d" "device_capabilities b v = Inr cs" "0 \<le> now" "is_safe now"
  shows "device_ok (stored_device d cs now)"
proof -
  have n: "peer_name Device_party (Some (JStr s)) = device_name (Some (JStr s))" for s
    by (simp add: peer_name_def device_name_def default_name_def)
  have "key_text_ok (id_identityPublic d)" "key_text_ok (id_staticPublic d)" "identifier_ok MAX_ID_LENGTH (id_id d)"
    using assms(1,2) key_lawD(1,2) [OF assms(1)] by (auto simp: proper_identity_def key_text_ok_def)
  then show ?thesis
    using device_name_ok [of "Some (JStr (id_displayName d))"] device_capabilities_Inr [OF assms(3)] assms(4,5)
    by (simp add: device_ok_def stored_device_def n)
qed

lemma pair_device_new:
  assumes "device_ok x" "get_device (de_deviceId x) st = None" "length (dv_devices st) < MAX_PAIRED_DEVICES"
    and "persist env True (st\<lparr>dv_devices := dv_devices st @ [(de_deviceId x, reloaded x)]\<rparr>) = (st', Inr ())"
  shows "pair_device env True throws now (Some (device_json x)) False st
    = (st'\<lparr>dv_events := dv_events st' @ [Ev_paired (reloaded x)]\<rparr>, Inr (reloaded x))"
proof -
  have i: "de_deviceId (reloaded x) = de_deviceId x" by (simp add: reloaded_def)
  have "jget (dv_devices st) (de_deviceId x) = None" using assms(2) by (simp add: get_device_def)
  then have "jset (de_deviceId x) (reloaded x) (dv_devices st) = dv_devices st @ [(de_deviceId x, reloaded x)]"
    by (rule jset_new)
  then show ?thesis
    using assms by (simp add: pair_device_def sbind_def device_back [OF assms(1)] Let_def i persist_or_undo_def emit_def)
qed

lemma handshake_hash_length:
  assumes "key_law rc" "read_message_3 rc w r = (r', Inr p)"
  shows "length (ns_h (hs_noise r')) = 32"
proof -
  have d: "decrypt_and_hash rc c n = (n', Inr out) \<Longrightarrow> length (ns_h n') = 32" for c n n' out
    using decrypt_and_hash_h key_lawD(6) [OF assms(1)] by metis
  obtain static u m where "read_identity rc (drop 48 m) static Device_party Handshake_complete u = (r', Inr p)"
    using assms(2) unfolding read_message_3_def by (auto elim!: sbind_InrE)
  then show ?thesis
    by (auto simp: read_identity_def sbind_eq_Inr on_noise_eq go_to_def dest: d)
qed

lemma create_channel_total:
  assumes "key_law rc" "context_ok c"
  shows "\<exists>ch. create_secure_channel rc res c role = Inr ch \<and> length (ch_sendKey ch) = 32 \<and> ch_sendCounter ch = 0"
proof -
  have "json_plain (obj [(''v'', Some (JInt 1)), (''protocol'', Some (JStr (js NOISE_PROTOCOL))),
          (''desktopId'', Some (JStr (ct_desktopId c))), (''deviceId'', Some (JStr (ct_deviceId c))),
          (''connectionId'', Some (JStr (ct_connectionId c))), (''direction'', Some (JStr (js (direction_text d))))])" for d
    by (simp add: obj_def is_array_index_def is_safe_def max_safe_integer_def exec_simps)
  then have "\<exists>b. connection_info c d = Inr b" for d
    using assms(2) canonical_bytes_plain by (simp add: connection_info_def)
  then obtain up down where "connection_info c Device_to_desktop = Inr up" "connection_info c Desktop_to_device = Inr down" by blast
  then show ?thesis
    using assms key_lawD(8) [OF assms(1)]
    by (cases role) (simp_all add: create_secure_channel_def derive_connection_keys_def new_channel_def)
qed

lemma linked_created:
  assumes "key_law rc" "context_ok c" "hr_hash x = hr_hash y" "hr_keys x = hr_keys y"
  shows "\<exists>a b. create_secure_channel rc x c Device_party = Inr a \<and> create_secure_channel rc y c Desktop_party = Inr b \<and> linked a b 0"
proof -
  obtain a b where "create_secure_channel rc x c Device_party = Inr a" "create_secure_channel rc y c Desktop_party = Inr b"
    "length (ch_sendKey a) = 32 \<and> ch_sendCounter a = 0" "length (ch_sendKey b) = 32 \<and> ch_sendCounter b = 0"
    using create_channel_total [OF assms(1,2)] by metis
  then show ?thesis using created_channels_paired [OF _ _ assms(3,4)] by (auto simp: linked_def)
qed

section \<open>A whole pairing\<close>

definition done_with :: "'s \<times> ('e + 'a) \<Rightarrow> ('s \<times> 'a) option" where
  "done_with r = (case r of (s, Inl e) \<Rightarrow> None | (s, Inr x) \<Rightarrow> Some (s, x))"

definition value_of :: "'e + 'a \<Rightarrow> 'a option" where
  "value_of r = (case r of Inl e \<Rightarrow> None | Inr x \<Rightarrow> Some x)"

lemma done_with_Inr [simp]: "done_with (s, Inr x) = Some (s, x)"
  by (simp add: done_with_def)

lemma value_of_Inr [simp]: "value_of (Inr x) = Some x"
  by (simp add: value_of_def)

text \<open>
  The device reads the offer, expects the desktop it names and starts a handshake. The desktop's user
  confirms when both sides show the same words; \<open>None\<close> is a pairing that got stuck somewhere.
\<close>

definition offer_pin :: "pairing_payload \<Rightarrow> peer_pin" where
  "offer_pin p = \<lparr>pin_id = pp_desktopId p, pin_identityPublic = pp_identityPublic p, pin_staticPublic = kr_static (pp_keyRecord p)\<rparr>"

definition device_hello ::
  "'k runtime_crypto \<Rightarrow> 'k identity \<Rightarrow> pairing_payload \<Rightarrow> jstr \<Rightarrow> 'k \<Rightarrow> ('k handshake \<times> bytes) option" where
  "device_hello rc d p c e =
     Option.bind (value_of (pairing_context rc p (Some (JStr c)))) (\<lambda>(_, cx).
     Option.bind (value_of (create_noise_prologue cx)) (\<lambda>prologue.
     Option.bind (value_of (new_initiator rc d prologue (Some (offer_pin p)) e)) (\<lambda>h.
       done_with (write_message_1 rc h))))"

definition device_channel ::
  "'k runtime_crypto \<Rightarrow> 'k identity \<Rightarrow> pairing_payload \<Rightarrow> jstr \<Rightarrow> 'k handshake \<Rightarrow> (channel \<times> bytes) option" where
  "device_channel rc d p c h =
     Option.bind (done_with (handshake_result_of rc h)) (\<lambda>(_, res).
     Option.bind (value_of (create_secure_channel rc res
         \<lparr>ct_desktopId = pp_desktopId p, ct_deviceId = id_id d, ct_connectionId = c\<rparr> Device_party)) (\<lambda>ch.
       Some (ch, hr_hash res)))"

definition honest_pairing ::
  "'k store_env \<Rightarrow> 'k device_store \<Rightarrow> 'k identity \<Rightarrow> json option \<Rightarrow> int \<Rightarrow> jstr \<Rightarrow> bytes \<Rightarrow> jstr \<Rightarrow> 'k \<Rightarrow> 'k
     \<Rightarrow> ('k pairing \<times> json) option" where
  "honest_pairing env st d v now uuid nonce c e f =
     (let rc = se_crypto env in
      Option.bind (done_with (create_offer rc now nonce v None None None \<lparr>pm_store = st, pm_offers = [], pm_sessions = []\<rparr>)) (\<lambda>(m1, p).
      Option.bind (device_hello rc d p c e) (\<lambda>(h1, msg1).
      Option.bind (done_with (start_pairing rc now uuid f (Some (payload_json p)) (Some (JStr c)) (Wire_text (b64url msg1)) m1)) (\<lambda>(m2, sid, pid, msg2).
      Option.bind (done_with (read_message_2 rc (Wire_text (b64url msg2)) h1)) (\<lambda>(h2, _).
      Option.bind (done_with (write_message_3 rc h2)) (\<lambda>(h3, msg3).
      Option.bind (done_with (complete_handshake rc now sid (Wire_text (b64url msg3)) m2)) (\<lambda>(m3, comp).
      Option.bind (device_channel rc d p c h3) (\<lambda>(ch0, hash).
      Option.bind (done_with (verify_key_confirmation rc (cp_frame comp) Desktop_party hash ch0)) (\<lambda>(ch1, _).
      Option.bind (done_with (make_key_confirmation rc Device_party hash ch1)) (\<lambda>(ch2, key_frame).
      Option.bind (done_with (receive_key_confirmation env True now sid key_frame m3)) (\<lambda>(m4, _).
      if sas_words rc hash \<noteq> cp_sas comp then None
      else
        Option.bind (done_with (confirm_local_sas env True (\<lambda>_. False) now sid m4)) (\<lambda>(m5, shown, _).
        Option.bind (Option.bind shown (\<lambda>g. done_with (decrypt_json rc g ch2))) (\<lambda>(ch3, told).
        if canonical_json told \<noteq> canonical_json (sas_confirmation_payload Desktop_party hash) then None
        else
          Option.bind (done_with (encrypt_json rc (sas_confirmation_payload Device_party hash) ch3)) (\<lambda>(ch4, sas_frame).
          Option.bind (done_with (receive_remote_sas env True (\<lambda>_. False) now sid sas_frame m5)) (\<lambda>(m6, _, last_frame).
          Option.bind (Option.bind last_frame (\<lambda>g. done_with (decrypt_json rc g ch4))) (\<lambda>(ch5, paired).
            Some (m6, paired)))))))))))))))))"

lemma pairing_context_total:
  assumes "canonical_bytes (payload_json p) = Inr b" "identifier_ok MAX_ID_LENGTH c"
  shows "\<exists>cx prologue. pairing_context rc p (Some (JStr c)) = Inr (c, cx) \<and> create_noise_prologue cx = Inr prologue"
proof -
  let ?cx = "obj [(''v'', Some (JInt 1)), (''mode'', Some (JStr (js ''pair''))), (''protocol'', Some (JStr (js NOISE_PROTOCOL))),
          (''desktopId'', Some (JStr (pp_desktopId p))), (''connectionId'', Some (JStr c)), (''qrHash'', Some (JStr (b64url (rc_sha256 rc b))))]"
  have "json_plain ?cx" by (simp add: obj_def is_array_index_def is_safe_def max_safe_integer_def exec_simps)
  then obtain e where "canonical_bytes ?cx = Inr e" using canonical_bytes_plain by blast
  then have "create_noise_prologue ?cx = Inr (PROLOGUE_DOMAIN @ e)" by (simp add: create_noise_prologue_def)
  moreover have "pairing_context rc p (Some (JStr c)) = Inr (c, ?cx)"
    using assms by (simp add: pairing_context_def pairing_id_def pairing_payload_hash_def of_crypto_def)
  ultimately show ?thesis by blast
qed

definition can_pair ::
  "'k store_env \<Rightarrow> 'k device_store \<Rightarrow> 'k identity \<Rightarrow> json option \<Rightarrow> capability list \<Rightarrow> int \<Rightarrow> bytes \<Rightarrow> jstr \<Rightarrow> bool" where
  "can_pair env st d v cs now nonce c \<longleftrightarrow>
     key_law (se_crypto env)
     \<and> proper_identity (se_crypto env) (dv_identity st) \<and> id_role (dv_identity st) = Desktop_party
     \<and> proper_identity (se_crypto env) d \<and> id_role d = Device_party
     \<and> get_device (id_id d) st = None \<and> length (dv_devices st) < MAX_PAIRED_DEVICES
     \<and> device_capabilities True v = Inr cs \<and> 0 \<le> now \<and> is_safe (now + DEFAULT_PAIRING_TTL_MS)
     \<and> length nonce = 32 \<and> identifier_ok MAX_ID_LENGTH c
     \<and> (\<exists>st'. persist env True (st\<lparr>dv_devices := dv_devices st @ [(id_id d, reloaded (stored_device d cs now))]\<rparr>) = (st', Inr ()))"

text \<open>The desktop's session after the handshake, its own confirmation sent, and the device's channel.\<close>

definition shaken_hands :: "'k identity \<Rightarrow> capability list \<Rightarrow> int \<Rightarrow> bytes \<Rightarrow> channel \<Rightarrow> 'k session \<Rightarrow> bool" where
  "shaken_hands d cs now hash ch s \<longleftrightarrow>
     ss_kind s = Pairing \<and> now \<le> ss_expiresAt s \<and> \<not> ss_remoteKey s \<and> \<not> ss_localSas s \<and> \<not> ss_remoteSas s \<and> \<not> ss_completed s
     \<and> ss_pending s = Some (device_json (stored_device d cs now)) \<and> ss_replace s = None
     \<and> handshake_hash s = hash \<and> length hash = 32
     \<and> (\<exists>chD. ss_channel s = Some chD \<and> linked ch chD 1)"

lemma honest_handshake:
  fixes env :: "'k store_env"
  assumes can: "can_pair env st d v cs now nonce c"
  defines "rc \<equiv> se_crypto env"
  shows "\<exists>m1 p h1 msg1 m2 msg2 h2 q h3 msg3 s comp ch0 hash ch1.
    create_offer rc now nonce v None None None \<lparr>pm_store = st, pm_offers = [], pm_sessions = []\<rparr> = (m1, Inr p)
    \<and> device_hello rc d p c e = Some (h1, msg1)
    \<and> start_pairing rc now uuid f (Some (payload_json p)) (Some (JStr c)) (Wire_text (b64url msg1)) m1 = (m2, Inr (js ''pair-'' @ uuid, b64url nonce, msg2))
    \<and> read_message_2 rc (Wire_text (b64url msg2)) h1 = (h2, Inr q)
    \<and> write_message_3 rc h2 = (h3, Inr msg3)
    \<and> complete_handshake rc now (js ''pair-'' @ uuid) (Wire_text (b64url msg3)) m2 = (\<lparr>pm_store = st, pm_offers = [], pm_sessions = [(js ''pair-'' @ uuid, s)]\<rparr>, Inr comp)
    \<and> device_channel rc d p c h3 = Some (ch0, hash)
    \<and> verify_key_confirmation rc (cp_frame comp) Desktop_party hash ch0 = (ch1, Inr ())
    \<and> cp_sas comp = sas_words rc hash \<and> shaken_hands d cs now hash ch1 s"
proof -
  let ?D = "dv_identity st" and ?x = "now + DEFAULT_PAIRING_TTL_MS"
  from can have law: "key_law rc" and D: "proper_identity rc ?D" "id_role ?D = Desktop_party"
    and d: "proper_identity rc d" "id_role d = Device_party" and fresh: "get_device (id_id d) st = None"
    and cs: "device_capabilities True v = Inr cs" and now: "0 \<le> now" "is_safe ?x"
    and nonce: "length nonce = 32" and c: "identifier_ok MAX_ID_LENGTH c"
    by (simp_all add: can_pair_def rc_def)
  obtain k where k: "own_record rc ?D k" using own_record_exists [OF law D] by blast
  let ?p = "own_payload ?D k nonce cs ?x"
  have t: "0 \<le> ?x" "now \<le> ?x" using now by (simp_all add: DEFAULT_PAIRING_TTL_MS_def)
  note offer = create_offer_own [OF law D k nonce cs now refl]
  obtain b where "canonical_bytes (payload_json ?p) = Inr b" using own_payload_fits [OF D(1) k nonce cs t(1) now(2) law] by blast
  then obtain cx prologue where cx: "pairing_context rc ?p (Some (JStr c)) = Inr (c, cx)" "create_noise_prologue cx = Inr prologue"
    using pairing_context_total c by blast
  obtain i0 where i0: "new_initiator rc d prologue (Some (offer_pin ?p)) e = Inr i0"
    using d(2) by (simp add: new_initiator_def new_handshake_def)
  obtain r0 where r0: "new_responder rc ?D prologue None f = Inr r0"
    using D(2) by (simp add: new_responder_def new_handshake_def)
  have "kr_static k = id_staticPublic ?D" using k by (auto simp: own_record_def)
  then have pins: "pin_accepts (Some (offer_pin ?p)) ?D" "pin_accepts None d"
    by (simp_all add: pin_accepts_def offer_pin_def own_payload_def)
  obtain m1 m2 m3 i1 i2 i3 r1 r2 r3 kd kD hash keys where run: "write_message_1 rc i0 = (i1, Inr m1)"
    "read_message_1 rc (Wire_text (b64url m1)) r0 = (r1, Inr ())" "write_message_2 rc r1 = (r2, Inr m2)"
    "read_message_2 rc (Wire_text (b64url m2)) i1 = (i2, Inr (peer_of ?D kD))" "write_message_3 rc i2 = (i3, Inr m3)"
    "read_message_3 rc (Wire_text (b64url m3)) r2 = (r3, Inr (peer_of d kd))"
    "handshake_result_of rc i3 = (i3, Inr \<lparr>hr_hash = hash, hr_keys = keys, hr_peer = Some (peer_of ?D kD)\<rparr>)"
    "handshake_result_of rc r3 = (r3, Inr \<lparr>hr_hash = hash, hr_keys = keys, hr_peer = Some (peer_of d kd)\<rparr>)"
    using honest_run_completes [OF law d D pins i0 r0] by blast
  have hello: "device_hello rc d ?p c e = Some (i1, m1)" by (simp add: device_hello_def cx i0 run(1))
  note start = start_pairing_own [OF law D k nonce cs now(1) t(2) now(2) refl cx r0 run(2,3), of uuid]
  have hash: "length hash = 32"
    using handshake_hash_length [OF law run(6)] run(8) by (auto simp: handshake_result_of_def sbind_def ensure_state_def split: if_splits)
  let ?c = "\<lparr>ct_desktopId = id_id ?D, ct_deviceId = id_id d, ct_connectionId = c\<rparr>"
  have "context_ok ?c" using D(1) d(1) c by (simp add: context_ok_def proper_identity_def)
  then obtain a b' where ch: "create_secure_channel rc \<lparr>hr_hash = hash, hr_keys = keys, hr_peer = Some (peer_of ?D kD)\<rparr> ?c Device_party = Inr a"
    "create_secure_channel rc \<lparr>hr_hash = hash, hr_keys = keys, hr_peer = Some (peer_of d kd)\<rparr> ?c Desktop_party = Inr b'" "linked a b' 0"
    using linked_created [OF law, of ?c "\<lparr>hr_hash = hash, hr_keys = keys, hr_peer = Some (peer_of ?D kD)\<rparr>"
        "\<lparr>hr_hash = hash, hr_keys = keys, hr_peer = Some (peer_of d kd)\<rparr>"] by auto
  obtain b'' frame a' where conf: "make_key_confirmation rc Desktop_party hash b' = (b'', Inr frame)"
    "verify_key_confirmation rc frame Desktop_party hash a = (a', Inr ())" "linked b'' a' 1"
    using confirmation_transfer [OF law linked_sym [OF ch(3)] _ hash, of Desktop_party] by auto
  have channel: "device_channel rc d ?p c i3 = Some (a, hash)"
    using run(7) ch(1) by (simp add: device_channel_def own_payload_def)
  let ?s = "(fresh_session Pairing (min ?x (now + HANDSHAKE_TIMEOUT_MS)) r2 (id_id ?D) c)\<lparr>ss_pairingId := b64url nonce, ss_capabilities := cs\<rparr>"
  have peer: "pe_id (peer_of d kd) = id_id d" by (simp add: peer_of_def)
  note body = complete_body_ok [of ?s "peer_of d kd" st rc "Wire_text (b64url m3)" r3, OF _ _ _ _ _ run(8), of b' b'' frame now]
  let ?s' = "?s\<lparr>ss_responder := r3, ss_pending := Some (pending_device (peer_of d kd) (ss_capabilities ?s) now),
      ss_peer := Some (peer_of d kd), ss_result := Some \<lparr>hr_hash = hash, hr_keys = keys, hr_peer = Some (peer_of d kd)\<rparr>,
      ss_channel := Some b'', ss_sas := sas_words rc hash, ss_state := Awaiting_pairing_confirmation\<rparr>"
  let ?comp = "\<lparr>cp_kind = Pairing, cp_peer = peer_of d kd, cp_frame = frame, cp_sas = sas_words rc hash\<rparr>"
  have b: "complete_body rc now (Wire_text (b64url m3)) (st, ?s) = ((st, ?s'), Inr ?comp)"
    using body fresh run(6) ch(2) conf(1) by (simp add: fresh_session_def peer)
  have complete: "complete_handshake rc now (js ''pair-'' @ uuid) (Wire_text (b64url m3)) \<lparr>pm_store = st, pm_offers = [], pm_sessions = [(js ''pair-'' @ uuid, ?s)]\<rparr>
      = (\<lparr>pm_store = st, pm_offers = [], pm_sessions = [(js ''pair-'' @ uuid, ?s')]\<rparr>, Inr ?comp)"
    unfolding complete_handshake_def
    by (rule with_session_single) (use t b in \<open>simp_all add: fresh_session_def HANDSHAKE_TIMEOUT_MS_def\<close>)
  have "shaken_hands d cs now hash a' ?s'"
    using t hash linked_sym [OF conf(3)] pending_is_record [OF d(2), of kd cs now]
    by (simp add: shaken_hands_def fresh_session_def HANDSHAKE_TIMEOUT_MS_def handshake_hash_def)
  then show ?thesis
    using offer hello start run(4,5) complete channel conf(2)
    by (intro exI conjI) (assumption | simp)+
qed


lemma persist_frame: "persist env writes s = (s', r) \<Longrightarrow> s' = s\<lparr>dv_file := dv_file s'\<rparr>"
  by (auto simp: persist_def Let_def split: option.splits if_splits sum.splits)

lemma paired_json_plain:
  assumes "length h = 32" "identifier_ok MAX_ID_LENGTH (de_deviceId x)" "device_capabilities b v = Inr (de_capabilities x)"
  shows "json_plain (paired_json x h)" "3 * json_size (paired_json x h) \<le> MAX_SECURE_PLAINTEXT_BYTES"
proof -
  show "json_plain (paired_json x h)"
    by (simp add: paired_json_def capabilities_json_def obj_def is_array_index_def exec_simps list_all_iff)
  have "length (de_deviceId x) \<le> 160" "length (b64url h) = 43"
    using assms(1,2) by (simp_all add: identifier_ok_def MAX_ID_LENGTH_def length_b64url)
  then show "3 * json_size (paired_json x h) \<le> MAX_SECURE_PLAINTEXT_BYTES"
    using length_capabilities [OF assms(3)]
    by (simp add: paired_json_def capabilities_json_def obj_def exec_simps MAX_SECURE_PLAINTEXT_BYTES_def)
qed

text \<open>From the two confirmed handshakes to the stored device.\<close>

lemma honest_confirmations:
  fixes env :: "'k store_env"
  assumes can: "can_pair env st d v cs now nonce c" and s: "shaken_hands d cs now hash ch1 s"
  defines "rc \<equiv> se_crypto env" and "x \<equiv> stored_device d cs now"
  shows "\<exists>ch2 key_frame m4 b m5 shown rest ch3 told ch4 sas_frame m6 fin ch5 ended.
    make_key_confirmation rc Device_party hash ch1 = (ch2, Inr key_frame)
    \<and> receive_key_confirmation env True now sid key_frame \<lparr>pm_store = st, pm_offers = [], pm_sessions = [(sid, s)]\<rparr> = (m4, Inr b)
    \<and> confirm_local_sas env True (\<lambda>_. False) now sid m4 = (m5, Inr (Some shown, rest))
    \<and> decrypt_json rc shown ch2 = (ch3, Inr told)
    \<and> canonical_json told = canonical_json (sas_confirmation_payload Desktop_party hash)
    \<and> encrypt_json rc (sas_confirmation_payload Device_party hash) ch3 = (ch4, Inr sas_frame)
    \<and> receive_remote_sas env True (\<lambda>_. False) now sid sas_frame m5 = (m6, Inr (ended, Some fin))
    \<and> decrypt_json rc fin ch4 = (ch5, Inr (sort_json (paired_json (reloaded x) hash)))
    \<and> get_device (id_id d) (pm_store m6) = Some (reloaded x) \<and> Ev_paired (reloaded x) \<in> set (dv_events (pm_store m6))"
proof -
  from can have law: "key_law rc" and d: "proper_identity rc d" "id_role d = Device_party"
    and fresh: "get_device (id_id d) st = None" "length (dv_devices st) < MAX_PAIRED_DEVICES"
    and cs: "device_capabilities True v = Inr cs" and now: "0 \<le> now" "is_safe (now + DEFAULT_PAIRING_TTL_MS)"
    by (simp_all add: can_pair_def rc_def)
  from s obtain chD where sess: "ss_kind s = Pairing" "now \<le> ss_expiresAt s" "\<not> ss_remoteKey s" "\<not> ss_localSas s" "\<not> ss_remoteSas s"
    "\<not> ss_completed s" "ss_pending s = Some (device_json x)" "ss_replace s = None" "handshake_hash s = hash" "length hash = 32"
    "ss_channel s = Some chD" "linked ch1 chD 1" by (auto simp: shaken_hands_def x_def)
  note plain = confirmation_plain [OF sess(10)]
  have lt: "(1 :: nat) < 2 ^ 64" "Suc 1 < 2 ^ 64" "Suc (Suc 1) < 2 ^ 64" "Suc (Suc (Suc 1)) < 2 ^ 64" by simp_all
  obtain ch2 f1 chD2 where k: "make_key_confirmation rc Device_party hash ch1 = (ch2, Inr f1)"
    "verify_key_confirmation rc f1 Device_party hash chD = (chD2, Inr ())" "linked ch2 chD2 (Suc 1)"
    using confirmation_transfer [OF law sess(12) lt(1) sess(10), of Device_party] by blast
  obtain chD3 f2 ch3 where l: "encrypt_json rc (sas_confirmation_payload Desktop_party hash) chD2 = (chD3, Inr f2)"
    "decrypt_json rc f2 ch2 = (ch3, Inr (sort_json (sas_confirmation_payload Desktop_party hash)))" "linked chD3 ch3 (Suc (Suc 1))"
    using json_transfer [OF law linked_sym [OF k(3)] lt(2) plain(3,4) [of Desktop_party]] by blast
  obtain ch4 f3 chD4 where r: "encrypt_json rc (sas_confirmation_payload Device_party hash) ch3 = (ch4, Inr f3)"
    "decrypt_json rc f3 chD3 = (chD4, Inr (sort_json (sas_confirmation_payload Device_party hash)))" "linked ch4 chD4 (Suc (Suc (Suc 1)))"
    using json_transfer [OF law linked_sym [OF l(3)] lt(3) plain(3,4) [of Device_party]] by blast
  have safe: "is_safe now" using now by (simp add: is_safe_def DEFAULT_PAIRING_TTL_MS_def)
  have ok: "device_ok x" unfolding x_def by (rule stored_device_ok [OF law d(1) cs now(1) safe])
  have id: "de_deviceId x = id_id d" "de_capabilities (reloaded x) = cs" "de_deviceId (reloaded x) = id_id d"
    by (simp_all add: x_def stored_device_def reloaded_def)
  obtain st' where st': "persist env True (st\<lparr>dv_devices := dv_devices st @ [(id_id d, reloaded x)]\<rparr>) = (st', Inr ())"
    using can unfolding can_pair_def x_def by blast
  have pair: "pair_device env True (\<lambda>_. False) now (Some (device_json x)) False st
      = (st'\<lparr>dv_events := dv_events st' @ [Ev_paired (reloaded x)]\<rparr>, Inr (reloaded x))"
    by (rule pair_device_new [OF ok]) (use fresh st' id(1) in simp_all)
  have "identifier_ok MAX_ID_LENGTH (id_id d)" using d(1) by (simp add: proper_identity_def)
  then have pp: "json_plain (paired_json (reloaded x) hash)" "3 * json_size (paired_json (reloaded x) hash) \<le> MAX_SECURE_PLAINTEXT_BYTES"
    using paired_json_plain [OF sess(10), of "reloaded x" True v] cs id by simp_all
  obtain chD5 f4 ch5 where z: "encrypt_json rc (paired_json (reloaded x) hash) chD4 = (chD5, Inr f4)"
    "decrypt_json rc f4 ch4 = (ch5, Inr (sort_json (paired_json (reloaded x) hash)))"
    using json_transfer [OF law linked_sym [OF r(3)] lt(4) pp] by blast
  let ?s1 = "s\<lparr>ss_channel := Some chD2, ss_remoteKey := True\<rparr>"
  let ?s2 = "?s1\<lparr>ss_channel := Some chD3, ss_localSas := True, ss_sasFrame := Some f2\<rparr>"
  have hashes: "handshake_hash ?s1 = hash" "handshake_hash ?s2 = hash" using sess(9) by (simp_all add: handshake_hash_def)
  have key: "receive_key_confirmation env True now sid f1 \<lparr>pm_store = st, pm_offers = [], pm_sessions = [(sid, s)]\<rparr>
      = (\<lparr>pm_store = st, pm_offers = [], pm_sessions = [(sid, ?s1)]\<rparr>, Inr False)"
    unfolding receive_key_confirmation_def
    by (intro with_session_single key_confirmation_body_ok) (use sess k(2) in \<open>simp_all add: rc_def\<close>)
  have local: "confirm_local_sas env True (\<lambda>_. False) now sid \<lparr>pm_store = st, pm_offers = [], pm_sessions = [(sid, ?s1)]\<rparr>
      = (\<lparr>pm_store = st, pm_offers = [], pm_sessions = [(sid, ?s2)]\<rparr>, Inr (Some f2, False, ss_pairedFrame s))"
    unfolding confirm_local_sas_def
    using local_sas_body_ok [of ?s1 chD2 env chD3 f2 True "\<lambda>_. False" now st] sess l(1) hashes
    by (intro with_session_single) (simp_all add: rc_def)
  have cj: "canonical_json (sort_json (sas_confirmation_payload role hash)) = canonical_json (sas_confirmation_payload role hash)" for role
    by (rule canonical_sorted [OF plain(3)])
  have u: "\<exists>u. canonical_json (sas_confirmation_payload Device_party hash) = Some u" using canonical_stringify [OF plain(3)] by blast
  then obtain u where u: "canonical_json (sas_confirmation_payload Device_party hash) = Some u" ..
  have body: "\<exists>s'. remote_sas_body env True (\<lambda>_. False) now f3 (st, ?s2)
      = ((st'\<lparr>dv_events := dv_events st' @ [Ev_paired (reloaded x)]\<rparr>, s'), Inr (True, Some f4))"
    by (rule remote_sas_body_ok [where ch = chD3 and ch' = chD4 and ch'' = chD5 and u = u and d = "reloaded x"
          and x = "sort_json (sas_confirmation_payload Device_party hash)"])
      (use sess r(2) z(1) pair u cj [of Device_party] hashes in \<open>simp_all add: rc_def\<close>)
  then obtain s3 where s3: "remote_sas_body env True (\<lambda>_. False) now f3 (st, ?s2)
      = ((st'\<lparr>dv_events := dv_events st' @ [Ev_paired (reloaded x)]\<rparr>, s3), Inr (True, Some f4))" ..
  let ?st = "st'\<lparr>dv_events := dv_events st' @ [Ev_paired (reloaded x)]\<rparr>"
  have remote: "receive_remote_sas env True (\<lambda>_. False) now sid f3 \<lparr>pm_store = st, pm_offers = [], pm_sessions = [(sid, ?s2)]\<rparr>
      = (\<lparr>pm_store = ?st, pm_offers = [], pm_sessions = [(sid, s3)]\<rparr>, Inr (True, Some f4))"
    unfolding receive_remote_sas_def by (rule with_session_single) (use sess s3 in simp_all)
  have devs: "dv_devices st' = dv_devices st @ [(id_id d, reloaded x)]" using persist_frame [OF st'] by (metis device_store.select_convs(2) device_store.surjective device_store.update_convs(2) device_store.update_convs(4))
  have "get_device (id_id d) ?st = Some (reloaded x)"
    using fresh(1) by (simp add: get_device_def devs jget_def map_add_def)
  then show ?thesis
    using k(1) key local l(2) cj [of Desktop_party] r(1) remote z(2)
    by (intro exI conjI) (assumption | simp)+
qed


text \<open>The same calls as a run of the manager.\<close>

lemma run_call:
  assumes "pairing_run env st log m" "allowed_call c" "pairing_step env c m = (m', r)"
  shows "\<exists>log'. pairing_run env st log' m'"
  using continued [OF assms] by blast

lemma honest_run_exists:
  assumes can: "can_pair env st d v cs now nonce c"
  shows "\<exists>log m. pairing_run env st log m \<and> Ev_paired (reloaded (stored_device d cs now)) \<in> set (dv_events (pm_store m))"
proof -
  obtain m1 p h1 msg1 m2 msg2 h2 q h3 msg3 s comp ch0 hash ch1 where h:
    "create_offer (se_crypto env) now nonce v None None None \<lparr>pm_store = st, pm_offers = [], pm_sessions = []\<rparr> = (m1, Inr p)"
    "start_pairing (se_crypto env) now uuid f (Some (payload_json p)) (Some (JStr c)) (Wire_text (b64url msg1)) m1
       = (m2, Inr (js ''pair-'' @ uuid, b64url nonce, msg2))"
    "complete_handshake (se_crypto env) now (js ''pair-'' @ uuid) (Wire_text (b64url msg3)) m2
       = (\<lparr>pm_store = st, pm_offers = [], pm_sessions = [(js ''pair-'' @ uuid, s)]\<rparr>, Inr comp)"
    "shaken_hands d cs now hash ch1 s"
    using honest_handshake [OF can, where uuid = uuid and f = f and e = f] by (elim exE conjE) (rule that)
  let ?m3 = "\<lparr>pm_store = st, pm_offers = [], pm_sessions = [(js ''pair-'' @ uuid, s)]\<rparr>"
  obtain ch2 key_frame m4 b m5 shown rest ch3 told ch4 sas_frame m6 fin ch5 ended where r:
    "receive_key_confirmation env True now (js ''pair-'' @ uuid) key_frame ?m3 = (m4, Inr b)"
    "confirm_local_sas env True (\<lambda>_. False) now (js ''pair-'' @ uuid) m4 = (m5, Inr (Some shown, rest))"
    "receive_remote_sas env True (\<lambda>_. False) now (js ''pair-'' @ uuid) sas_frame m5 = (m6, Inr (ended, Some fin))"
    "Ev_paired (reloaded (stored_device d cs now)) \<in> set (dv_events (pm_store m6))"
    using honest_confirmations [OF can h(4), of "js ''pair-'' @ uuid"] by blast
  have "\<exists>log. pairing_run env st log m1"
    by (rule run_call [OF started, of "Create_offer now nonce v None None None"]) (simp_all add: reply_def h(1))
  then obtain l1 where "pairing_run env st l1 m1" ..
  then have "\<exists>log. pairing_run env st log m2"
    by (rule run_call [where c = "Start_pairing now uuid f (Some (payload_json p)) (Some (JStr c)) (Wire_text (b64url msg1))"])
      (simp_all add: reply_def h(2))
  then obtain l2 where "pairing_run env st l2 m2" ..
  then have "\<exists>log. pairing_run env st log ?m3"
    by (rule run_call [where c = "Complete now (js ''pair-'' @ uuid) (Wire_text (b64url msg3))"]) (simp_all add: reply_def h(3))
  then obtain l3 where "pairing_run env st l3 ?m3" ..
  then have "\<exists>log. pairing_run env st log m4"
    by (rule run_call [where c = "Key_confirmation True now (js ''pair-'' @ uuid) key_frame"]) (simp_all add: reply_def r(1))
  then obtain l4 where "pairing_run env st l4 m4" ..
  then have "\<exists>log. pairing_run env st log m5"
    by (rule run_call [where c = "Local_sas True (\<lambda>_. False) now (js ''pair-'' @ uuid)"]) (simp_all add: reply_def r(2))
  then obtain l5 where "pairing_run env st l5 m5" ..
  then have "\<exists>log. pairing_run env st log m6"
    by (rule run_call [where c = "Remote_sas True (\<lambda>_. False) now (js ''pair-'' @ uuid) sas_frame"]) (simp_all add: reply_def r(3))
  then show ?thesis using r(4) by blast
qed

section \<open>A concrete pairing\<close>

lemma example_can_pair:
  obtains d :: "unit identity" and nonce where
    "can_pair example_env (empty_store example_identity None) d (Some (capabilities_json [Observe])) [Observe] 0 nonce (js ''b'')"
proof -
  have keys: "rc_isEd example_runtime ()" "rc_isX example_runtime ()" by (simp_all add: example_runtime_def)
  have rc: "se_crypto example_env = example_runtime" by (simp add: example_env_def)
  obtain d where d: "create_identity example_runtime Device_party (Some (JStr (js ''b''))) None () () = Inr d"
    using create_identity_total [OF example_key_law example_id_ok(2) keys] by blast
  have pd: "proper_identity example_runtime d" "id_role d = Device_party" using create_identity_proper [OF d] by simp_all
  have pD: "proper_identity example_runtime example_identity" "id_role example_identity = Desktop_party"
    using create_identity_proper [OF example_identity_created] by (simp_all add: rc)
  have cs: "device_capabilities True (Some (capabilities_json [Observe])) = Inr [Observe]"
    unfolding capabilities_json_def by (rule device_capabilities_back) (simp_all add: CAPABILITIES_def)
  have safe: "is_safe 0" "is_safe (0 + DEFAULT_PAIRING_TTL_MS)"
    by (simp_all add: is_safe_def max_safe_integer_def DEFAULT_PAIRING_TTL_MS_def)
  let ?x = "stored_device d [Observe] 0"
  have "device_ok ?x" by (rule stored_device_ok [OF example_key_law pd(1) cs _ safe(1)]) simp
  then have l: "length (de_deviceId ?x) \<le> 160" "length (de_displayName ?x) \<le> 80" "length (de_identityPublic ?x) \<le> 43"
    "length (de_staticPublic ?x) \<le> 43"
    by (auto simp: device_ok_def key_text_ok_def identifier_ok_def MAX_ID_LENGTH_def length_b64url)
  have "length (js_trim (de_displayName ?x)) \<le> 80" using l(2) length_js_trim_le [of "de_displayName ?x"] by linarith
  then have "json_size (store_payload example_identity (js ''a2V5'') (js ''a2V5'') [reloaded ?x]) \<le> 100000"
    using l by (simp add: store_payload_def desktop_json_def example_identity_def device_json_def reloaded_def
        key_record_json_def obj_def length_b64url exec_simps digits_of.simps stored_device_def)
  then have "length (utf8_encode (stringify (store_payload example_identity (js ''a2V5'') (js ''a2V5'') [reloaded ?x]))) \<le> MAX_STORE_BYTES"
    using json_bytes_le [of "store_payload example_identity (js ''a2V5'') (js ''a2V5'') [reloaded ?x]"]
    by (simp add: json_bytes_def MAX_STORE_BYTES_def)
  then have "\<exists>s. persist example_env True ((empty_store example_identity None)\<lparr>dv_devices := [(id_id d, reloaded ?x)]\<rparr>) = (s, Inr ())"
    by (simp add: persist_def example_env_def sort_by_def not_less empty_store_def)
  then have "can_pair example_env (empty_store example_identity None) d (Some (capabilities_json [Observe])) [Observe] 0 (replicate 32 0) (js ''b'')"
    unfolding can_pair_def rc
    using example_key_law pd pD cs safe example_id_ok(2)
    by (simp add: empty_store_def get_device_def MAX_PAIRED_DEVICES_def)
  then show ?thesis by (rule that)
qed

section \<open>Properties\<close>

text \<open>
  C13. An honest pairing succeeds. The desktop shows an offer, the device reads it, both complete the
  handshake, the device checks the desktop's key confirmation and sends its own, both show the same
  words, the desktop's user confirms and the device learns of it, the device's user confirms: every
  call of the manager succeeds, the device ends up stored under its identifier with its own keys and
  exactly the offered capabilities, the store reports it as paired, and the device reads the final
  message that says so. It needs a desktop and a device with proper identities, a device that is not
  yet stored, room for it and a file that can be written.
\<close>

theorem honest_pairing_completes:
  assumes "can_pair env st d v cs now nonce c"
  shows "\<exists>m hash. honest_pairing env st d v now uuid nonce c e f
      = Some (m, sort_json (paired_json (reloaded (stored_device d cs now)) hash))
    \<and> get_device (id_id d) (pm_store m) = Some (reloaded (stored_device d cs now))
    \<and> Ev_paired (reloaded (stored_device d cs now)) \<in> set (dv_events (pm_store m))"
proof -
  obtain m1 p h1 msg1 m2 msg2 h2 q h3 msg3 s comp ch0 hash ch1 where h:
    "create_offer (se_crypto env) now nonce v None None None \<lparr>pm_store = st, pm_offers = [], pm_sessions = []\<rparr> = (m1, Inr p)"
    "device_hello (se_crypto env) d p c e = Some (h1, msg1)"
    "start_pairing (se_crypto env) now uuid f (Some (payload_json p)) (Some (JStr c)) (Wire_text (b64url msg1)) m1
       = (m2, Inr (js ''pair-'' @ uuid, b64url nonce, msg2))"
    "read_message_2 (se_crypto env) (Wire_text (b64url msg2)) h1 = (h2, Inr q)"
    "write_message_3 (se_crypto env) h2 = (h3, Inr msg3)"
    "complete_handshake (se_crypto env) now (js ''pair-'' @ uuid) (Wire_text (b64url msg3)) m2
       = (\<lparr>pm_store = st, pm_offers = [], pm_sessions = [(js ''pair-'' @ uuid, s)]\<rparr>, Inr comp)"
    "device_channel (se_crypto env) d p c h3 = Some (ch0, hash)"
    "verify_key_confirmation (se_crypto env) (cp_frame comp) Desktop_party hash ch0 = (ch1, Inr ())"
    "cp_sas comp = sas_words (se_crypto env) hash" "shaken_hands d cs now hash ch1 s"
    using honest_handshake [OF assms, where uuid = uuid and f = f and e = e] by blast
  obtain ch2 key_frame m4 b m5 shown rest ch3 told ch4 sas_frame m6 fin ch5 ended where r:
    "make_key_confirmation (se_crypto env) Device_party hash ch1 = (ch2, Inr key_frame)"
    "receive_key_confirmation env True now (js ''pair-'' @ uuid) key_frame
       \<lparr>pm_store = st, pm_offers = [], pm_sessions = [(js ''pair-'' @ uuid, s)]\<rparr> = (m4, Inr b)"
    "confirm_local_sas env True (\<lambda>_. False) now (js ''pair-'' @ uuid) m4 = (m5, Inr (Some shown, rest))"
    "decrypt_json (se_crypto env) shown ch2 = (ch3, Inr told)"
    "canonical_json told = canonical_json (sas_confirmation_payload Desktop_party hash)"
    "encrypt_json (se_crypto env) (sas_confirmation_payload Device_party hash) ch3 = (ch4, Inr sas_frame)"
    "receive_remote_sas env True (\<lambda>_. False) now (js ''pair-'' @ uuid) sas_frame m5 = (m6, Inr (ended, Some fin))"
    "decrypt_json (se_crypto env) fin ch4 = (ch5, Inr (sort_json (paired_json (reloaded (stored_device d cs now)) hash)))"
    "get_device (id_id d) (pm_store m6) = Some (reloaded (stored_device d cs now))"
    "Ev_paired (reloaded (stored_device d cs now)) \<in> set (dv_events (pm_store m6))"
    using honest_confirmations [OF assms h(10), of "js ''pair-'' @ uuid"] by blast
  obtain b1 b2 where rest: "rest = (b1, b2)" by (cases rest)
  have "honest_pairing env st d v now uuid nonce c e f
      = Some (m6, sort_json (paired_json (reloaded (stored_device d cs now)) hash))"
    by (simp add: honest_pairing_def Let_def h(1-9) r(1-8) r(3) [unfolded rest])
  then show ?thesis using r(9,10) by blast
qed

theorem honest_pairing_completes_witness:
  "\<exists>(d :: unit identity) nonce m hash. honest_pairing example_env (empty_store example_identity None) d
       (Some (capabilities_json [Observe])) 0 (js ''u'') nonce (js ''b'') () ()
      = Some (m, sort_json (paired_json (reloaded (stored_device d [Observe] 0)) hash))"
proof -
  obtain d :: "unit identity" and nonce where
    "can_pair example_env (empty_store example_identity None) d (Some (capabilities_json [Observe])) [Observe] 0 nonce (js ''b'')"
    by (rule example_can_pair)
  from honest_pairing_completes [OF this, of "js ''u''" "()" "()"] show ?thesis by blast
qed

text \<open>
  C12. Nobody is paired without both users. Whatever calls the manager of a desktop gets, in any order
  and with any inputs, times, random values and failures, while other parts of the program change the
  device store as well: when the store reports a device as paired that it did not report at the start,
  the log of the calls shows, for one session, a handshake in which the device proved the identity and
  the keys that were stored, a key confirmation of the device for that handshake, opened by the
  channel of that handshake, a confirmation of the words by the desktop's user, and one by the
  device's user that was opened by the same channel; and the stored capabilities are those of an offer
  that was made.
\<close>

theorem pairing_needs_both_users:
  assumes "pairing_run env st log m" "d \<in> paired_devices (pm_store m)" "d \<notin> paired_devices st"
  shows "\<exists>sid pid p res l c.
     offered_with log pid (de_capabilities d)
     \<and> de_deviceId d = pe_id p \<and> de_identityPublic d = pe_identityPublic p \<and> de_staticPublic d = pe_staticPublic p
     \<and> (\<exists>t w h h'. called log (Complete t sid w) \<and> read_message_3 (se_crypto env) w h = (h', Inr p)
          \<and> handshake_result_of (se_crypto env) h' = (h', Inr res))
     \<and> ct_deviceId c = pe_id p \<and> create_secure_channel (se_crypto env) res c Desktop_party = Inr l
     \<and> (\<exists>writes t f. called log (Key_confirmation writes t sid f)
          \<and> says (se_crypto env) l f (key_confirmation_payload Device_party (hr_hash res)))
     \<and> (\<exists>writes throws t. called log (Local_sas writes throws t sid))
     \<and> (\<exists>writes throws t f. called log (Remote_sas writes throws t sid f)
          \<and> says (se_crypto env) l f (sas_confirmation_payload Device_party (hr_hash res)))"
proof -
  have "run_ok env (paired_devices st) log m" by (rule pairing_run_ok [OF assms(1)])
  then have "vouched env log d" using assms(2,3) by (auto simp: run_ok_def)
  from vouched_evidence [OF this] show ?thesis unfolding pairing_evidence_def .
qed

theorem pairing_needs_both_users_witness:
  "\<exists>log (m :: unit pairing) d sid. pairing_run example_env (empty_store example_identity None) log m
     \<and> d \<in> paired_devices (pm_store m) \<and> (\<exists>writes throws t. called log (Local_sas writes throws t sid))"
proof -
  obtain x :: "unit identity" and nonce where
    "can_pair example_env (empty_store example_identity None) x (Some (capabilities_json [Observe])) [Observe] 0 nonce (js ''b'')"
    by (rule example_can_pair)
  from honest_run_exists [OF this] obtain log m where r: "pairing_run example_env (empty_store example_identity None) log m"
    "Ev_paired (reloaded (stored_device x [Observe] 0)) \<in> set (dv_events (pm_store m))" by blast
  let ?d = "reloaded (stored_device x [Observe] 0)"
  have p: "?d \<in> paired_devices (pm_store m)" "?d \<notin> paired_devices (empty_store example_identity None)"
    using r(2) by (simp_all add: paired_devices_def empty_store_def)
  show ?thesis using pairing_needs_both_users [OF r(1) p] r(1) p(1) by blast
qed

text \<open>
  C14. An offer starts at most one handshake. However often offers are made, started, cancelled and
  pruned, the manager has never started more pairings of an offer than it made offers of that
  identifier, and it never has more than eight sessions.
\<close>

theorem pairing_offer_single_use:
  assumes "pairing_run env st log m"
  shows "times_started log pid \<le> times_offered log pid \<and> length (pm_sessions m) \<le> MAX_ACTIVE_HANDSHAKES"
  using run_offers [OF assms, of pid] pairing_run_ok [OF assms] by (simp add: run_ok_def)

theorem pairing_offer_single_use_witness:
  "\<exists>log (m :: unit pairing). pairing_run example_env (empty_store example_identity None) log m \<and> log \<noteq> []
     \<and> times_started log [] \<le> times_offered log [] \<and> length (pm_sessions m) \<le> MAX_ACTIVE_HANDSHAKES"
proof -
  let ?m = "\<lparr>pm_store = empty_store example_identity None, pm_offers = [], pm_sessions = []\<rparr> :: unit pairing"
  obtain m' r where "pairing_step example_env (Create_offer 0 (replicate 32 0) None None None None) ?m = (m', r)"
    by (rule prod.exhaust)
  from continued [OF started [of example_env] _ this]
  have "pairing_run example_env (empty_store example_identity None) [(Create_offer 0 (replicate 32 0) None None None None, r)] m'"
    by simp
  from this pairing_offer_single_use [OF this, of "[]"] show ?thesis by blast
qed

end
