(* ===== verification/Gateway_Merge.thy ===== *)
theory Gateway_Merge
  imports Desktop_State
begin

text \<open>
  What the gateway adds to a snapshot before a device gets it, \<open>src/electron/companion/gateway.cjs\<close>:
  the sessions and permission requests the agent service knows of and the tasks of the ledger. Every
  addition goes through \<open>sanitizeProjection\<close> on its own, and one that is rejected is dropped with a
  diagnostic. The agent service and the ledger are parameters: what they return, or that they throw.
\<close>

section \<open>Capabilities\<close>

datatype gateway_error =
    Ge_protocol protocol_error
  | Ge_not_granted
  | Ge_closed
  | Ge_identity
  | Ge_connection
  | Ge_hello_required
  | Ge_not_accepted
  | Ge_hub
  | Ge_router

definition of_protocol :: "protocol_error + 'a \<Rightarrow> gateway_error + 'a" where
  "of_protocol r = (case r of Inl e \<Rightarrow> Inl (Ge_protocol e) | Inr x \<Rightarrow> Inr x)"

definition or_empty_array :: "json option \<Rightarrow> json option" where
  "or_empty_array v = (if nullish v then Some (JArr []) else v)"

definition granted_capabilities :: "json option \<Rightarrow> json option \<Rightarrow> gateway_error + capability list" where
  "granted_capabilities device requested =
     ebind (of_protocol (validate_capabilities (or_empty_array device))) (\<lambda>granted.
     ebind (of_protocol (validate_capabilities (or_empty_array requested))) (\<lambda>clean.
     let negotiated = filter (\<lambda>c. c \<in> set granted) clean in
     require (Observe \<in> set negotiated) Ge_not_granted (Inr negotiated)))"

section \<open>Diagnostics\<close>

record diagnostic =
  dg_source :: string
  dg_entryId :: jstr
  dg_code :: "jstr option"

fun projection_code :: "projection_error \<Rightarrow> string" where
  "projection_code Pj_invalid_projection = ''invalid_projection''"
| "projection_code Pj_forbidden_key = ''forbidden_projection_key''"
| "projection_code Pj_unknown_field = ''unknown_projection_field''"
| "projection_code Pj_unsafe_path = ''unsafe_path''"
| "projection_code Pj_not_normalized = ''not_normalized''"
| "projection_code Pj_unknown_project = ''unknown_project''"
| "projection_code Pj_unknown_session = ''unknown_session''"
| "projection_code Pj_duplicate_id = ''duplicate_id''"
| "projection_code Pj_too_large = ''projection_too_large''"

definition rejected :: "string \<Rightarrow> jstr \<Rightarrow> projection_error \<Rightarrow> diagnostic" where
  "rejected source entry e = \<lparr>dg_source = source, dg_entryId = entry, dg_code = Some (js (projection_code e))\<rparr>"

definition valid_id :: "nat \<Rightarrow> json option \<Rightarrow> jstr option" where
  "valid_id m v = (case validate_identifier m v of Inl _ \<Rightarrow> None | Inr s \<Rightarrow> Some s)"

definition normalized_text :: "json option \<Rightarrow> jstr \<Rightarrow> nat \<Rightarrow> jstr" where
  "normalized_text v fallback m =
     (case as_str v of
        None \<Rightarrow> fallback
      | Some s \<Rightarrow> (let t = clean_text s in if t \<noteq> [] then take m t else fallback))"

text \<open>
  \<open>tryProjectionEntry\<close> with a patch of one property. The accumulator of the merges is the projection
  and the diagnostics so far.
\<close>

type_synonym merged = "projection \<times> diagnostic list"

definition patched :: "projection \<Rightarrow> string \<Rightarrow> json list \<Rightarrow> json" where
  "patched p key items = JObj (jset (js key) (JArr items) (ofields (projection_json p)))"

definition try_entry ::
  "(jstr \<Rightarrow> jstr \<Rightarrow> int) \<Rightarrow> string \<Rightarrow> json list \<Rightarrow> string \<Rightarrow> jstr \<Rightarrow> merged \<Rightarrow> merged" where
  "try_entry collate key items source entry m =
     (case sanitize_projection collate (Some (patched (fst m) key items)) of
        Inl e \<Rightarrow> (fst m, snd m @ [rejected source entry e])
      | Inr q \<Rightarrow> (q, snd m))"

section \<open>The agent service\<close>

text \<open>What the service returns for a project: summaries and permission events, or the code it threw.\<close>

type_synonym acp_service = "jstr \<Rightarrow> jstr option + json \<times> json"

definition candidate_ids :: "json \<Rightarrow> jstr list" where
  "candidate_ids summary =
     List.map_filter (valid_id 240) [field summary ''sessionId'', field summary ''targetId'']"

definition find_session :: "projection \<Rightarrow> jstr \<Rightarrow> session option" where
  "find_session p i = find (\<lambda>s. ss_id s = i) (pr_sessions p)"

definition known_session :: "projection \<Rightarrow> jstr \<Rightarrow> jstr list \<Rightarrow> session option" where
  "known_session p project candidates =
     find (\<lambda>s. ss_projectId s = project) (List.map_filter (find_session p) candidates)"

definition set_field :: "string \<Rightarrow> json \<Rightarrow> json \<Rightarrow> json" where
  "set_field k v x = JObj (jset (js k) v (ofields x))"

definition busy :: "json \<Rightarrow> bool" where
  "busy summary = safe_bool (field summary ''busy'')"

definition new_agent_session :: "int \<Rightarrow> jstr \<Rightarrow> jstr \<Rightarrow> json \<Rightarrow> json" where
  "new_agent_session generated project i summary =
     obj [(''id'', str_value i), (''projectId'', str_value project), (''kind'', lit_value ''agent''),
          (''title'', str_value (normalized_text (field summary ''name'')
             (normalized_text (field summary ''provider'') (js ''Agent'') 120) 240)),
          (''status'', lit_value (if busy summary then ''running'' else ''idle'')), (''needsYou'', bool_value False),
          (''unread'', bool_value False), (''updatedAt'', int_value generated)]"

text \<open>Status, provider and title of the session are brought up to date, whether it is new or not.\<close>

definition updated_session :: "json \<Rightarrow> json \<Rightarrow> json" where
  "updated_session summary x =
     (let provider = normalized_text (field summary ''provider'') [] 120;
          name = normalized_text (field summary ''name'') [] 240;
          x1 = (if busy summary then set_field ''status'' (JStr (js ''running'')) x
                else if field x ''status'' = lit_value ''running'' then set_field ''status'' (JStr (js ''idle'')) x
                else x);
          x2 = (if provider \<noteq> [] then set_field ''provider'' (JStr provider) x1 else x1)
      in if field x2 ''title'' = lit_value ''Agent'' \<and> name \<noteq> [] then set_field ''title'' (JStr name) x2 else x2)"

definition merge_summary ::
  "(jstr \<Rightarrow> jstr \<Rightarrow> int) \<Rightarrow> int \<Rightarrow> jstr \<Rightarrow> json \<Rightarrow> merged \<Rightarrow> merged" where
  "merge_summary collate generated project summary m =
     (if field summary ''projectId'' \<noteq> str_value project then m
      else
        let candidates = candidate_ids summary;
            entry = (case candidates of [] \<Rightarrow> project | c # _ \<Rightarrow> c);
            submit = (\<lambda>sessions. try_entry collate ''sessions'' sessions ''acp.session'' entry m) in
        case known_session (fst m) project candidates of
          Some s \<Rightarrow>
            (let x = updated_session summary (session_json s) in
             submit (map (\<lambda>t. if ss_id t = ss_id s then x else session_json t) (pr_sessions (fst m))))
        | None \<Rightarrow>
            (case find (\<lambda>c. find_session (fst m) c = None) candidates of
               None \<Rightarrow> m
             | Some i \<Rightarrow>
                 submit (map session_json (pr_sessions (fst m)) @
                   [updated_session summary (new_agent_session generated project i summary)])))"

definition event_session :: "projection \<Rightarrow> jstr \<Rightarrow> json \<Rightarrow> jstr option" where
  "event_session p project event =
     find (\<lambda>i. session_in (pr_sessions p) project i)
       (List.map_filter (valid_id 240) [field event ''attentionSessionId'', field event ''sessionId'', field event ''targetId''])"

definition merge_permission ::
  "(jstr \<Rightarrow> jstr \<Rightarrow> int) \<Rightarrow> int \<Rightarrow> int \<Rightarrow> jstr \<Rightarrow> json \<Rightarrow> merged \<Rightarrow> merged" where
  "merge_permission collate now generated project event m =
     (if field event ''projectId'' \<noteq> str_value project then m
      else
        let session = event_session (fst m) project event in
        case sanitize_acp_permission now (str_value project) (map_option JStr session) (int_value generated) (Some event) of
          Inl e \<Rightarrow>
            (fst m, snd m @ [rejected ''acp.permission''
               (case valid_id 240 (field event ''permId'') of None \<Rightarrow> project | Some i \<Rightarrow> i) e])
        | Inr clean \<Rightarrow>
            let dropped = [js ''type''] @ (if session = None then [js ''sessionId''] else []);
                permission = JObj (filter (\<lambda>e. fst e \<notin> set dropped) (ofields clean)) in
            try_entry collate ''permissions'' (map permission_json (pr_permissions (fst m)) @ [permission])
              ''acp.permission'' (the_str (field clean ''permId'')) m)"

definition without_renderer_permissions :: "(jstr \<Rightarrow> jstr \<Rightarrow> int) \<Rightarrow> jstr \<Rightarrow> merged \<Rightarrow> merged" where
  "without_renderer_permissions collate project m =
     try_entry collate ''permissions''
       (map permission_json (filter (\<lambda>p. pm_projectId p \<noteq> project) (pr_permissions (fst m))))
       ''acp.permissions'' project m"

definition merge_project ::
  "(jstr \<Rightarrow> jstr \<Rightarrow> int) \<Rightarrow> int \<Rightarrow> int \<Rightarrow> acp_service \<Rightarrow> jstr \<Rightarrow> merged \<Rightarrow> merged" where
  "merge_project collate now generated acp project m =
     (case acp project of
        Inl code \<Rightarrow> (fst m, snd m @ [\<lparr>dg_source = ''acp.project'', dg_entryId = project, dg_code = code\<rparr>])
      | Inr (summaries, events) \<Rightarrow>
          fold (merge_permission collate now generated project) (array_or_empty (Some events))
            (fold (merge_summary collate generated project) (array_or_empty (Some summaries))
              (without_renderer_permissions collate project m)))"

definition merge_acp_projection ::
  "(jstr \<Rightarrow> jstr \<Rightarrow> int) \<Rightarrow> int \<Rightarrow> acp_service option \<Rightarrow> projection \<Rightarrow> merged" where
  "merge_acp_projection collate now service p =
     (case service of
        None \<Rightarrow> (p, [])
      | Some acp \<Rightarrow> fold (merge_project collate now (pr_generatedAt p) acp) (map pj_id (pr_projects p)) (p, []))"

section \<open>The ledger\<close>

text \<open>A ledger that throws gives the code, one that does not return an array nothing.\<close>

type_synonym ledger = "jstr option + json"

definition ledger_alias :: "json \<Rightarrow> project list \<Rightarrow> jstr option" where
  "ledger_alias task projects =
     (case as_str (field task ''project'') of
        None \<Rightarrow> None
      | Some alias \<Rightarrow>
          if alias = [] then None
          else (case filter (\<lambda>p. alias \<in> {pj_id p, pj_name p} \<or> pj_repo p = Some alias) projects of
                  [p] \<Rightarrow> Some (pj_id p)
                | _ \<Rightarrow> None))"

definition ledger_project_id :: "json \<Rightarrow> project list \<Rightarrow> jstr option" where
  "ledger_project_id task projects =
     (case as_str (field task ''projectId'') of
        None \<Rightarrow> ledger_alias task projects
      | Some i \<Rightarrow> if i \<in> set (map pj_id projects) then Some i else ledger_alias task projects)"

definition ledger_time :: "json \<Rightarrow> projection \<Rightarrow> int" where
  "ledger_time task p =
     (case nonneg (field task ''updatedAt'') of
        Some n \<Rightarrow> n
      | None \<Rightarrow> (case nonneg (field task ''createdAt'') of Some n \<Rightarrow> n | None \<Rightarrow> pr_generatedAt p))"

definition same_item :: "jstr \<Rightarrow> jstr \<Rightarrow> jstr \<Rightarrow> int \<Rightarrow> attention \<Rightarrow> bool" where
  "same_item project kind title at a =
     (at_projectId a = project \<and> at_kind a = kind \<and> at_title a = title \<and> at_createdAt a = at)"

definition ledger_item :: "jstr \<Rightarrow> jstr \<Rightarrow> bool \<Rightarrow> jstr \<Rightarrow> int \<Rightarrow> jstr \<Rightarrow> json" where
  "ledger_item i project blocked title at detail =
     obj [(''id'', str_value i), (''projectId'', str_value project),
          (''kind'', lit_value (if blocked then ''blocked'' else ''review'')), (''title'', str_value title),
          (''createdAt'', int_value at), (''severity'', lit_value (if blocked then ''warning'' else ''info'')),
          (''detail'', if detail = [] then None else str_value detail)]"

definition merge_task :: "(jstr \<Rightarrow> jstr \<Rightarrow> int) \<Rightarrow> json \<Rightarrow> merged \<Rightarrow> merged" where
  "merge_task collate task m =
     (let review = (field task ''status'' = lit_value ''review'');
          blocked = (field task ''status'' = lit_value ''blocked'') in
      if \<not> review \<and> \<not> blocked then m
      else
        case (ledger_project_id task (pr_projects (fst m)), valid_id 200 (field task ''id'')) of
          (Some project, Some task_id) \<Rightarrow>
            let at = ledger_time task (fst m);
                title = normalized_text (field task ''title'')
                  (if review then js ''Review agent result'' else js ''Agent task blocked'') 240;
                kind = (if blocked then js ''blocked'' else js ''review'') in
            if list_ex (same_item project kind title at) (pr_attention (fst m)) then m
            else
              (case valid_id 240 (Some (JStr (js ''attention-'' @ task_id))) of
                 None \<Rightarrow> m
               | Some i \<Rightarrow>
                   if i \<in> set (map at_id (pr_attention (fst m))) then m
                   else
                     let detail = normalized_text (json_or (field task ''result'') (field task ''detail'')) [] 240 in
                     try_entry collate ''attention''
                       (map attention_json (pr_attention (fst m)) @ [ledger_item i project blocked title at detail])
                       ''ledger.task'' task_id m)
        | _ \<Rightarrow> m)"

definition merge_ledger_projection ::
  "(jstr \<Rightarrow> jstr \<Rightarrow> int) \<Rightarrow> ledger option \<Rightarrow> projection \<Rightarrow> merged" where
  "merge_ledger_projection collate adapter p =
     (case adapter of
        None \<Rightarrow> (p, [])
      | Some (Inl code) \<Rightarrow> (p, [\<lparr>dg_source = ''ledger.adapter'', dg_entryId = js ''list'', dg_code = code\<rparr>])
      | Some (Inr tasks) \<Rightarrow> fold (merge_task collate) (take 200 (array_or_empty (Some tasks))) (p, []))"

end
