(* ===== verification/Gateway.thy ===== *)
theory Gateway
  imports Gateway_Merge State_Hub Terminal_Control Stateful
begin

text \<open>
  The gateway, \<open>src/electron/companion/gateway.cjs\<close>: sessions of connected devices, the frames they send
  and get, their subscriptions to terminals and the terminal streams those share. It drives the state
  hub, the command router and terminal control of the other theories. Objects that are referred to
  (sessions, streams) are list entries with their index as identity. Asynchronous methods are cut at
  their awaits. What the environment decides during a call (the clock, what the transports take, what
  the agent service and the ledger return) is the record \<open>gateway_env\<close>.
\<close>

section \<open>State\<close>

record subscription =
  sb_stream :: nat
  sb_generation :: nat
  sb_afterSeq :: int

text \<open>\<open>gs_sent\<close> is what the transport of the session took, oldest first.\<close>

record gateway_session =
  gs_deviceId :: jstr
  gs_granted :: "capability list"
  gs_connectionId :: "jstr option"
  gs_capabilities :: "capability list"
  gs_connected :: bool
  gs_closed :: bool
  gs_lastSentSeq :: int
  gs_frameCounter :: nat
  gs_subscriptions :: "(jstr, subscription) jmap"
  gs_generations :: "(jstr, nat) jmap"
  gs_acp :: "jstr list"
  gs_sent :: "json list"

text \<open>
  What has become of the set-up of a stream: it is under way, it succeeded, it was refused (because the
  terminal is unavailable or not), or it threw.
\<close>

datatype stream_setup = Setting_up | Set_up | Refused bool | Setup_threw

text \<open>An interest is a call of \<open>#subscribeTerminal\<close> that waits for the set-up, with its session.\<close>

record terminal_stream =
  sm_key :: jstr
  sm_projectId :: jstr
  sm_terminalId :: jstr
  sm_members :: "nat list"
  sm_interests :: "(nat \<times> nat) list"
  sm_pending :: "json list"
  sm_overflow :: bool
  sm_snapshot :: "snapshot option"
  sm_setup :: stream_setup
  sm_closing :: bool

text \<open>A call of \<open>#subscribeTerminal\<close> in one of its waits.\<close>

datatype subscribe_wait = Detaching | Finding "nat option" | Awaiting_setup nat

record subscribe_call =
  sc_session :: nat
  sc_command :: json
  sc_generation :: nat
  sc_wait :: subscribe_wait

record gateway =
  gw_desktopId :: jstr
  gw_epoch :: jstr
  gw_hub :: desktop
  gw_router :: router
  gw_control :: "control option"
  gw_sessions :: "gateway_session list"
  gw_open :: "nat list"
  gw_streams :: "terminal_stream list"
  gw_live :: "(jstr, nat) jmap"
  gw_calls :: "(nat, subscribe_call) jmap"
  gw_fresh :: nat
  gw_errors :: nat
  gw_logged :: "jstr list"
  gw_disposed :: bool

record gateway_env =
  ge_now :: int
  ge_sha256 :: "bytes \<Rightarrow> jstr"
  ge_attention :: attention_config
  ge_label :: "jstr \<Rightarrow> json option"
  ge_records :: "stored_projection list"
  ge_hint :: "json option"
  ge_acp :: "acp_service option"
  ge_subscribes :: "jstr \<Rightarrow> jstr option + unit"
  ge_ledger :: "ledger option"
  ge_accepts :: "nat \<Rightarrow> json \<Rightarrow> bool"

type_synonym 'a gw_step = "(gateway, gateway_error, 'a) step"

definition MAX_TERMINAL_OBSERVERS :: nat where "MAX_TERMINAL_OBSERVERS = 8"

definition new_gateway :: "jstr \<Rightarrow> jstr \<Rightarrow> desktop \<Rightarrow> router \<Rightarrow> control option \<Rightarrow> gateway" where
  "new_gateway desktop epoch hub router control =
     \<lparr>gw_desktopId = desktop, gw_epoch = epoch, gw_hub = hub, gw_router = router, gw_control = control,
      gw_sessions = [], gw_open = [], gw_streams = [], gw_live = [], gw_calls = [], gw_fresh = 0, gw_errors = 0,
      gw_logged = [], gw_disposed = False\<rparr>"

definition update_session :: "nat \<Rightarrow> (gateway_session \<Rightarrow> gateway_session) \<Rightarrow> gateway \<Rightarrow> gateway" where
  "update_session i f g = g\<lparr>gw_sessions := (gw_sessions g)[i := f (gw_sessions g ! i)]\<rparr>"

definition update_stream :: "nat \<Rightarrow> (terminal_stream \<Rightarrow> terminal_stream) \<Rightarrow> gateway \<Rightarrow> gateway" where
  "update_stream t f g = g\<lparr>gw_streams := (gw_streams g)[t := f (gw_streams g ! t)]\<rparr>"

section \<open>Diagnostics\<close>

text \<open>\<open>#recordAdapterDiagnostic\<close>; of what is logged the model keeps the keys it is deduplicated by.\<close>

definition masked :: "(16 word \<Rightarrow> bool) \<Rightarrow> jstr \<Rightarrow> jstr" where
  "masked ok s = map (\<lambda>u. if ok u then u else 95) s"

definition is_source_unit :: "16 word \<Rightarrow> bool" where
  "is_source_unit u = (is_alnum_unit u \<or> u \<in> {95, 46, 58, 45})"

definition diagnostic_key :: "diagnostic \<Rightarrow> jstr" where
  "diagnostic_key d =
     masked is_source_unit (normalized_text (Some (JStr (js (dg_source d)))) (js ''adapter'') 80) @ js '':'' @
     masked (\<lambda>u. is_source_unit u \<or> u = 64) (normalized_text (Some (JStr (dg_entryId d))) (js ''unknown'') 160) @ js '':'' @
     masked is_source_unit (normalized_text (map_option JStr (dg_code d)) (js ''adapter_error'') 80)"

definition record_diagnostic :: "diagnostic \<Rightarrow> gateway \<Rightarrow> gateway" where
  "record_diagnostic d g =
     (let key = diagnostic_key d; g' = g\<lparr>gw_errors := gw_errors g + 1\<rparr> in
      if key \<in> set (gw_logged g) then g'
      else g'\<lparr>gw_logged := (if 32 \<le> length (gw_logged g) then tl (gw_logged g) else gw_logged g) @ [key]\<rparr>)"

section \<open>Releasing a session\<close>

text \<open>
  \<open>#maybeDisposeTerminalStream\<close> up to its await, and \<open>dispose_finished\<close>, what it does in the end, once
  the set-up has settled and the observer has been unsubscribed; \<open>failure\<close> is the code of what that threw.
\<close>

definition maybe_dispose :: "nat \<Rightarrow> gateway \<Rightarrow> gateway" where
  "maybe_dispose t g =
     (let s = gw_streams g ! t in
      if sm_members s \<noteq> [] \<or> sm_interests s \<noteq> [] \<or> sm_closing s then g
      else update_stream t (\<lambda>s. s\<lparr>sm_closing := True\<rparr>) g)"

definition dispose_finished :: "nat \<Rightarrow> jstr option option \<Rightarrow> gateway \<Rightarrow> gateway" where
  "dispose_finished t failure g =
     (let key = sm_key (gw_streams g ! t);
          g1 = (case failure of
                  None \<Rightarrow> g
                | Some code \<Rightarrow> record_diagnostic \<lparr>dg_source = ''terminal.dispose'', dg_entryId = key, dg_code = code\<rparr> g)
      in if jget (gw_live g1) key = Some t then g1\<lparr>gw_live := jdel key (gw_live g1)\<rparr> else g1)"

text \<open>\<open>#detachTerminalMember\<close> up to its await\<close>

definition detach_member :: "nat \<Rightarrow> jstr \<Rightarrow> gateway \<Rightarrow> gateway" where
  "detach_member i key g =
     (case jget (gs_subscriptions (gw_sessions g ! i)) key of
        None \<Rightarrow> g
      | Some m \<Rightarrow>
          maybe_dispose (sb_stream m)
            (update_stream (sb_stream m) (\<lambda>s. s\<lparr>sm_members := removeAll i (sm_members s)\<rparr>)
              (update_session i (\<lambda>s. s\<lparr>gs_subscriptions := jdel key (gs_subscriptions s)\<rparr>) g)))"

definition bump_generations :: "gateway_session \<Rightarrow> gateway_session" where
  "bump_generations s = s\<lparr>gs_generations := map (\<lambda>e. (fst e, snd e + 1)) (gs_generations s)\<rparr>"

definition drop_interests :: "nat \<Rightarrow> nat \<Rightarrow> gateway \<Rightarrow> gateway" where
  "drop_interests i t g =
     maybe_dispose t (update_stream t (\<lambda>s. s\<lparr>sm_interests := filter (\<lambda>e. snd e \<noteq> i) (sm_interests s)\<rparr>) g)"

definition release_control :: "nat \<Rightarrow> gateway \<Rightarrow> gateway" where
  "release_control i g =
     (case gw_control g of
        None \<Rightarrow> g
      | Some c \<Rightarrow> g\<lparr>gw_control := Some (fst (release_session i c))\<rparr>)"

definition release_gateway_session :: "nat \<Rightarrow> gateway \<Rightarrow> gateway" where
  "release_gateway_session i g =
     (let g1 = update_session i bump_generations (g\<lparr>gw_open := removeAll i (gw_open g)\<rparr>);
          g2 = fold (detach_member i) (jkeys (gs_subscriptions (gw_sessions g1 ! i))) g1;
          g3 = fold (drop_interests i) (map snd (gw_live g2)) g2
      in release_control i (update_session i (\<lambda>s. s\<lparr>gs_acp := []\<rparr>) g3))"

definition close_session :: "nat \<Rightarrow> bool gw_step" where
  "close_session i g =
     (if gs_closed (gw_sessions g ! i) then (g, Inr False)
      else
        let g1 = release_gateway_session i (update_session i (\<lambda>s. s\<lparr>gs_closed := True, gs_connected := False\<rparr>) g) in
        case hub_disconnect (Some (JStr (gs_deviceId (gw_sessions g1 ! i)))) (gw_hub g1) of
          Inl e \<Rightarrow> (g1, Inl Ge_hub)
        | Inr (d, _) \<Rightarrow> (g1\<lparr>gw_hub := d\<rparr>, Inr True))"

section \<open>Sending\<close>

definition the_gs :: "nat \<Rightarrow> (gateway_session \<Rightarrow> 'a) \<Rightarrow> 'a gw_step" where
  "the_gs i f = sread (\<lambda>g. f (gw_sessions g ! i))"

definition on_gs :: "nat \<Rightarrow> (gateway_session \<Rightarrow> gateway_session) \<Rightarrow> unit gw_step" where
  "on_gs i f = smodify (update_session i f)"

definition frame_of ::
  "gateway \<Rightarrow> gateway_session \<Rightarrow> frame_kind \<Rightarrow> json \<Rightarrow> json option \<Rightarrow> json option \<Rightarrow> json option \<Rightarrow> json" where
  "frame_of g s kind body i seq at =
     obj [(''v'', Some (JInt PROTOCOL_VERSION)), (''kind'', lit_value (kind_text kind)),
          (''desktopId'', str_value (gw_desktopId g)), (''deviceId'', str_value (gs_deviceId s)),
          (''connectionId'', Some (case gs_connectionId s of None \<Rightarrow> JNull | Some c \<Rightarrow> JStr c)),
          (''epoch'', str_value (gw_epoch g)), (''seq'', seq), (''id'', i), (''sentAt'', at), (''body'', Some body)]"

text \<open>\<open>#send\<close>; a transport takes nothing after \<open>close\<close>, which closing the session calls.\<close>

definition send ::
  "gateway_env \<Rightarrow> nat \<Rightarrow> frame_kind \<Rightarrow> json \<Rightarrow> json option \<Rightarrow> json option \<Rightarrow> json option \<Rightarrow> bool gw_step" where
  "send env i kind body name seq at =
     sbind (sread (\<lambda>g. frame_of g (gw_sessions g ! i) kind body name seq at)) (\<lambda>raw.
     sbind (slift (of_protocol (validate_envelope PROTOCOL_VERSION raw))) (\<lambda>frame.
     sbind (the_gs i gs_closed) (\<lambda>closed.
     if ge_accepts env i frame \<and> \<not> closed
     then sbind (on_gs i (\<lambda>s. s\<lparr>gs_sent := gs_sent s @ [frame]\<rparr>)) (\<lambda>_. sreturn True)
     else sbind (close_session i) (\<lambda>_. sreturn False))))"

definition next_id :: "nat \<Rightarrow> string \<Rightarrow> json option gw_step" where
  "next_id i prefix =
     sbind (on_gs i (\<lambda>s. s\<lparr>gs_frameCounter := gs_frameCounter s + 1\<rparr>)) (\<lambda>_.
     the_gs i (\<lambda>s. str_value (js prefix @ js ''-'' @ int_text (int (gs_frameCounter s)))))"

section \<open>Synchronising\<close>

definition TERMINAL_EVENT_TYPES :: "string list" where
  "TERMINAL_EVENT_TYPES = [''terminal.snapshot'', ''terminal.output'', ''terminal.exit'']"

definition payload_of :: "json \<Rightarrow> json" where
  "payload_of event = (case field event ''payload'' of None \<Rightarrow> JNull | Some p \<Rightarrow> p)"

definition accepts_event :: "gateway_session \<Rightarrow> json \<Rightarrow> bool" where
  "accepts_event s event =
     (let audience = field event ''audience''; p = payload_of event;
          terminal = (member_text TERMINAL_EVENT_TYPES (field event ''type'') \<noteq> None);
          activity = (field event ''type'' = lit_value ''session.updated'' \<and> truthy (field p ''streamEpoch'')
                      \<and> truthy (field p ''sessionId'')) in
      if truthy audience \<and> audience \<noteq> map_option JStr (gs_connectionId s) then False
      else if \<not> terminal \<and> \<not> activity then True
      else
        let target = coalesce (field p ''terminalId'') (field p ''sessionId'');
            key = template (field p ''projectId'') @ 0 # template target in
        case jget (gs_subscriptions s) key of
          None \<Rightarrow> False
        | Some m \<Rightarrow> (case as_int (field event ''seq'') of None \<Rightarrow> False | Some n \<Rightarrow> sb_afterSeq m < n))"

definition event_body :: "json \<Rightarrow> json" where
  "event_body event =
     JObj (case field event ''type'' of
             None \<Rightarrow> ofields (payload_of event)
           | Some ty \<Rightarrow> jset (js ''type'') ty (ofields (payload_of event)))"

fun send_events :: "gateway_env \<Rightarrow> nat \<Rightarrow> int \<Rightarrow> json list \<Rightarrow> bool gw_step" where
  "send_events env i last_seq [] =
     sbind (on_gs i (\<lambda>s. s\<lparr>gs_lastSentSeq := last_seq\<rparr>)) (\<lambda>_. sreturn True)"
| "send_events env i last_seq (event # events) =
     sbind (the_gs i (\<lambda>s. accepts_event s event)) (\<lambda>wanted.
     if \<not> wanted then send_events env i last_seq events
     else
       sbind (send env i Event (event_body event) (field event ''id'') (field event ''seq'') (field event ''at'')) (\<lambda>sent.
       if \<not> sent then sreturn False
       else
         sbind (on_gs i (\<lambda>s. s\<lparr>gs_lastSentSeq := the_int (field event ''seq'')\<rparr>)) (\<lambda>_.
           send_events env i last_seq events)))"

fun reason_text :: "sync_reason \<Rightarrow> string" where
  "reason_text Initial_connection = ''initial_connection''"
| "reason_text (Log_reason Epoch_mismatch) = ''epoch_mismatch''"
| "reason_text (Log_reason Cursor_ahead) = ''cursor_ahead''"
| "reason_text (Log_reason Event_gap) = ''event_gap''"

fun send_synchronization :: "gateway_env \<Rightarrow> nat \<Rightarrow> sync_answer \<Rightarrow> bool gw_step" where
  "send_synchronization env i (Sync_snapshot reason e current revision p) =
     sbind (next_id i ''snapshot'') (\<lambda>name.
     sbind (send env i Snapshot
         (obj [(''type'', lit_value ''snapshot.projects''), (''revision'', int_value revision),
               (''reason'', lit_value (reason_text reason)), (''projection'', Some (projection_json p))])
         name (int_value current) (int_value (ge_now env))) (\<lambda>sent.
     if \<not> sent then sreturn False
     else sbind (on_gs i (\<lambda>s. s\<lparr>gs_lastSentSeq := current\<rparr>)) (\<lambda>_. sreturn True)))"
| "send_synchronization env i (Sync_replay e first last_seq events) = send_events env i last_seq events"

text \<open>\<open>synchronize\<close> of the gateway: a snapshot gets what the agent service and the ledger know.\<close>

definition merged_snapshot :: "gateway_env \<Rightarrow> projection \<Rightarrow> merged" where
  "merged_snapshot env p =
     (let collate = cf_collate (ge_attention env);
          (p1, d1) = merge_acp_projection collate (ge_now env) (ge_acp env) p;
          (p2, d2) = merge_ledger_projection collate (ge_ledger env) p1
      in (p2, d1 @ d2))"

definition gateway_synchronize :: "gateway_env \<Rightarrow> json option \<Rightarrow> sync_answer gw_step" where
  "gateway_synchronize env cursor g =
     (case hub_synchronize (ge_attention env) (ge_now env) (ge_label env) (ge_records env) cursor (gw_hub g) of
        (d, Inl e) \<Rightarrow> (g\<lparr>gw_hub := d\<rparr>, Inl Ge_hub)
      | (d, Inr (Sync_snapshot reason e current revision p)) \<Rightarrow>
          (let (q, diagnostics) = merged_snapshot env p in
           (fold record_diagnostic diagnostics (g\<lparr>gw_hub := d\<rparr>),
            Inr (Sync_snapshot reason e current (pr_revision q) q)))
      | (d, Inr answer) \<Rightarrow> (g\<lparr>gw_hub := d\<rparr>, Inr answer))"

definition cursor_json :: "jstr \<Rightarrow> int \<Rightarrow> json" where
  "cursor_json epoch seq = obj [(''epoch'', str_value epoch), (''afterSeq'', int_value seq)]"

definition synchronize_session :: "gateway_env \<Rightarrow> nat \<Rightarrow> bool gw_step" where
  "synchronize_session env i =
     sbind (the_gs i (\<lambda>s. gs_connected s \<and> \<not> gs_closed s)) (\<lambda>ready.
     if \<not> ready then sreturn False
     else
       sbind (sread (\<lambda>g. cursor_json (gw_epoch g) (gs_lastSentSeq (gw_sessions g ! i)))) (\<lambda>cursor.
       sbind (gateway_synchronize env (Some cursor)) (\<lambda>answer.
         send_synchronization env i answer)))"

section \<open>Agent subscriptions\<close>

definition shown_project_ids :: "gateway_env \<Rightarrow> sync_answer option \<Rightarrow> jstr list" where
  "shown_project_ids env answer =
     (case answer of
        Some (Sync_snapshot reason e current revision p) \<Rightarrow> map pj_id (pr_projects p)
      | _ \<Rightarrow> project_ids (ge_records env))"

definition subscribe_project :: "gateway_env \<Rightarrow> nat \<Rightarrow> jstr \<Rightarrow> gateway \<Rightarrow> gateway" where
  "subscribe_project env i project g =
     (if project \<in> set (gs_acp (gw_sessions g ! i)) then g
      else case ge_subscribes env project of
             Inl code \<Rightarrow> record_diagnostic \<lparr>dg_source = ''acp.subscription'', dg_entryId = project, dg_code = code\<rparr> g
           | Inr _ \<Rightarrow> update_session i (\<lambda>s. s\<lparr>gs_acp := gs_acp s @ [project]\<rparr>) g)"

definition reconcile_acp :: "gateway_env \<Rightarrow> nat \<Rightarrow> sync_answer option \<Rightarrow> gateway \<Rightarrow> gateway" where
  "reconcile_acp env i answer g =
     (let s = gw_sessions g ! i in
      if gs_closed s \<or> \<not> gs_connected s \<or> ge_acp env = None then g
      else
        let desired = (if Observe \<in> set (gs_capabilities s)
                       then remdups (List.map_filter (\<lambda>p. valid_id 240 (Some (JStr p))) (shown_project_ids env answer))
                       else []);
            g1 = update_session i (\<lambda>s. s\<lparr>gs_acp := filter (\<lambda>p. p \<in> set desired) (gs_acp s)\<rparr>) g
        in fold (subscribe_project env i) desired g1)"

section \<open>Receiving\<close>

definition attach :: "json option \<Rightarrow> json option \<Rightarrow> nat gw_step" where
  "attach device capabilities g =
     (if gw_disposed g then (g, Inl Ge_closed)
      else case (validate_identifier MAX_ID_LENGTH device, validate_capabilities (or_empty_array capabilities)) of
             (Inr d, Inr cs) \<Rightarrow>
               (g\<lparr>gw_sessions := gw_sessions g @
                   [\<lparr>gs_deviceId = d, gs_granted = cs, gs_connectionId = None, gs_capabilities = [], gs_connected = False,
                     gs_closed = False, gs_lastSentSeq = 0, gs_frameCounter = 0, gs_subscriptions = [],
                     gs_generations = [], gs_acp = [], gs_sent = []\<rparr>],
                  gw_open := gw_open g @ [length (gw_sessions g)]\<rparr>, Inr (length (gw_sessions g)))
           | (Inl e, _) \<Rightarrow> (g, Inl (Ge_protocol e))
           | (_, Inl e) \<Rightarrow> (g, Inl (Ge_protocol e)))"

definition current_transport_hint :: "gateway_env \<Rightarrow> (string \<times> json option) list" where
  "current_transport_hint env =
     (case validate_transport_hint (ge_hint env) of
        Inl _ \<Rightarrow> []
      | Inr h \<Rightarrow> [(''transportHint'', Some h)])"

definition capability_json :: "capability list \<Rightarrow> json" where
  "capability_json cs = JArr (map (\<lambda>c. JStr (js (capability_text c))) cs)"

datatype receive_reply =
    Greeted "capability list"
  | Acknowledged json
  | Routed execute_result

definition hello :: "gateway_env \<Rightarrow> nat \<Rightarrow> json \<Rightarrow> receive_reply gw_step" where
  "hello env i frame =
     (let f = view_envelope frame; body = env_body f in
      sbind (sguard (\<lambda>_. env_kind f = Hello \<and> field body ''role'' = lit_value ''device'') Ge_hello_required) (\<lambda>_.
      sbind (on_gs i (\<lambda>s. s\<lparr>gs_connectionId := Some (env_connectionId f)\<rparr>)) (\<lambda>_.
      sbind (the_gs i gs_granted) (\<lambda>granted.
      sbind (slift (granted_capabilities (Some (capability_json granted)) (field body ''capabilities''))) (\<lambda>cs.
      sbind (on_gs i (\<lambda>s. s\<lparr>gs_capabilities := cs, gs_connected := True\<rparr>)) (\<lambda>_.
      sbind (next_id i ''hello'') (\<lambda>name.
      sbind (send env i Hello
          (obj ([(''type'', lit_value ''hello''), (''role'', lit_value ''desktop''), (''protocolMinor'', int_value PROTOCOL_MINOR),
                 (''capabilities'', Some (capability_json cs))] @ current_transport_hint env))
          name (int_value 0) (int_value (ge_now env))) (\<lambda>_.
      let last_ack = field body ''lastAck'';
          cursor = (if nullish last_ack then None
                    else Some (obj [(''epoch'', str_value (env_epoch f)), (''afterSeq'', last_ack)])) in
      sbind (gateway_synchronize env cursor) (\<lambda>answer.
      sbind (smodify (reconcile_acp env i (Some answer))) (\<lambda>_.
      sbind (send_synchronization env i answer) (\<lambda>_. sreturn (Greeted cs))))))))))))"

text \<open>
  \<open>receive\<close>; a command goes to the router with the capabilities that were negotiated, and its receipt is
  sent by \<open>command_done\<close>, once the promise of the router has settled.
\<close>

definition receive :: "gateway_env \<Rightarrow> nat \<Rightarrow> json \<Rightarrow> receive_reply gw_step" where
  "receive env i raw =
     sbind (sguard (\<lambda>g. \<not> gs_closed (gw_sessions g ! i)) Ge_closed) (\<lambda>_.
     sbind (slift (of_protocol (validate_envelope PROTOCOL_VERSION raw))) (\<lambda>frame.
     let f = view_envelope frame in
     sbind (sguard (\<lambda>g. env_desktopId f = gw_desktopId g \<and> env_deviceId f = gs_deviceId (gw_sessions g ! i)) Ge_identity) (\<lambda>_.
     sbind (the_gs i gs_connected) (\<lambda>connected.
     if \<not> connected then hello env i frame
     else
       sbind (sguard (\<lambda>g. Some (env_connectionId f) = gs_connectionId (gw_sessions g ! i) \<and> env_epoch f = gw_epoch g)
           Ge_connection) (\<lambda>_.
       if env_kind f = Ack then (\<lambda>g.
         (case hub_acknowledge (str_value (gs_deviceId (gw_sessions g ! i))) (field (env_body f) ''ackSeq'') (gw_hub g) of
            Inl e \<Rightarrow> (g, Inl Ge_hub)
          | Inr (d, _) \<Rightarrow> (g\<lparr>gw_hub := d\<rparr>, Inr (Acknowledged (JInt (the_int (field (env_body f) ''ackSeq'')))))))
       else if env_kind f = Command then (\<lambda>g.
         (let s = gw_sessions g ! i;
              device = \<lparr>rd_deviceId = str_value (gs_deviceId s), rd_capabilities = Some (capability_json (gs_capabilities s))\<rparr> in
          case route_begin (ge_sha256 env) (ge_now env) frame device (gw_router g) of
            (r, Inl e) \<Rightarrow> (g\<lparr>gw_router := r\<rparr>, Inl Ge_router)
          | (r, Inr x) \<Rightarrow> (g\<lparr>gw_router := r\<rparr>, Inr (Routed x))))
       else sthrow Ge_not_accepted)))))"

definition command_done :: "gateway_env \<Rightarrow> nat \<Rightarrow> json \<Rightarrow> json gw_step" where
  "command_done env i answer =
     sbind (next_id i ''receipt'') (\<lambda>name.
     sbind (the_gs i (\<lambda>s. int_value (gs_lastSentSeq s))) (\<lambda>seq.
     sbind (send env i Receipt answer name seq (int_value (ge_now env))) (\<lambda>_. sreturn answer)))"

text \<open>
  The microtask of \<open>#queueSynchronization\<close>: every open session is brought up to date, and one that
  cannot is closed.
\<close>

definition synchronize_or_close :: "gateway_env \<Rightarrow> nat \<Rightarrow> gateway \<Rightarrow> gateway" where
  "synchronize_or_close env i g =
     (case synchronize_session env i g of
        (g', Inr _) \<Rightarrow> g'
      | (g', Inl _) \<Rightarrow> fst (close_session i g'))"

definition run_synchronization :: "gateway_env \<Rightarrow> gateway \<Rightarrow> gateway" where
  "run_synchronization env g =
     (if gw_disposed g then g
      else
        let g1 = fold (\<lambda>i. reconcile_acp env i None) (gw_open g) g in
        fold (synchronize_or_close env) (gw_open g1) g1)"

definition dispose_gateway :: "gateway \<Rightarrow> gateway" where
  "dispose_gateway g =
     (if gw_disposed g then g
      else
        let g1 = fold (\<lambda>i g. fst (close_session i g)) (gw_open g) (g\<lparr>gw_disposed := True\<rparr>) in
        case gw_control g1 of None \<Rightarrow> g1 | Some c \<Rightarrow> g1\<lparr>gw_control := Some (Terminal_Control.dispose c)\<rparr>)"


section \<open>Terminal streams\<close>

datatype stream_error =
    Se_cursor terminal_cursor_error
  | Se_offsets
  | Se_no_snapshot
  | Se_output
  | Se_gap
  | Se_exit
  | Se_incomplete_cursor

fun cursor_code :: "terminal_cursor_error \<Rightarrow> string" where
  "cursor_code Tce_invalid_stream_epoch = ''invalid_stream_epoch''"
| "cursor_code Tce_invalid_offset = ''invalid_offset''"
| "cursor_code Tce_invalid_limit = ''invalid_limit''"
| "cursor_code Tce_invalid_utf8 = ''invalid_utf8''"
| "cursor_code Tce_invalid_exit_status = ''invalid_exit_status''"
| "cursor_code Tce_invalid_snapshot = ''invalid_snapshot''"
| "cursor_code Tce_invalid_cursor = ''invalid_cursor''"
| "cursor_code Tce_offset_overflow = ''offset_overflow''"

definition stream_diagnostic :: "jstr \<Rightarrow> stream_error \<Rightarrow> diagnostic" where
  "stream_diagnostic terminal e =
     \<lparr>dg_source = ''terminal.stream'', dg_entryId = terminal,
      dg_code = (case e of Se_cursor c \<Rightarrow> Some (js (cursor_code c)) | _ \<Rightarrow> None)\<rparr>"

definition of_cursor :: "terminal_cursor_error + 'a \<Rightarrow> stream_error + 'a" where
  "of_cursor r = (case r of Inl e \<Rightarrow> Inl (Se_cursor e) | Inr x \<Rightarrow> Inr x)"

definition limit_value :: "json option" where
  "limit_value = Some (JInt DEFAULT_SNAPSHOT_BYTES)"

definition terminal_snapshot :: "json \<Rightarrow> stream_error + snapshot" where
  "terminal_snapshot result =
     (if field result ''mode'' = lit_value ''snapshot'' \<and> truthy (field result ''snapshot'') then
        (let v = the (field result ''snapshot'') in
         ebind (of_cursor (make_bounded_snapshot (field v ''streamEpoch'') (output_of (field v ''output'')) (field v ''endOffset'')
             limit_value (field v ''truncated'') (field v ''exited'') (field v ''exitStatus''))) (\<lambda>s.
         require (case as_int (field v ''startOffset'') of None \<Rightarrow> True | Some n \<Rightarrow> n = int (sn_startOffset s)) Se_offsets (Inr s)))
      else if field result ''mode'' = lit_value ''current'' \<and> truthy (field result ''cursor'') then
        (let v = the (field result ''cursor'') in
         of_cursor (make_bounded_snapshot (field v ''streamEpoch'') (Text []) (field v ''offset'') limit_value
           (bool_value (positive (field v ''offset''))) (bool_value False) None))
      else Inl Se_no_snapshot)"

fun resume_reason_text :: "resume_reason \<Rightarrow> string" where
  "resume_reason_text Resume_epoch_mismatch = ''epoch_mismatch''"
| "resume_reason_text Resume_cursor_ahead = ''cursor_ahead''"
| "resume_reason_text Resume_event_gap = ''event_gap''"
| "resume_reason_text Resume_invalid_utf8_boundary = ''invalid_utf8_boundary''"
| "resume_reason_text Resume_available_suffix = ''available_suffix''"

definition snapshot_value :: "snapshot \<Rightarrow> json" where
  "snapshot_value s = obj (snapshot_fields s)"

definition input_of :: "snapshot \<Rightarrow> snapshot_input" where
  "input_of s =
     \<lparr>si_streamEpoch = str_value (sn_streamEpoch s), si_output = Text (sn_output s),
      si_startOffset = int_value (int (sn_startOffset s)), si_endOffset = int_value (int (sn_endOffset s)),
      si_truncated = bool_value (sn_truncated s), si_exited = bool_value (sn_exited s), si_exitStatus = sn_exitStatus s\<rparr>"

definition terminal_resume :: "snapshot option \<Rightarrow> json option \<Rightarrow> stream_error + json" where
  "terminal_resume snap payload =
     (case snap of
        None \<Rightarrow> Inl Se_no_snapshot
      | Some s \<Rightarrow>
          let epoch = opt_field payload ''streamEpoch''; offset = opt_field payload ''afterOffset'' in
          require (nullish epoch = nullish offset) Se_incomplete_cursor
            (if nullish epoch then Inr (obj [(''mode'', lit_value ''snapshot''), (''snapshot'', Some (snapshot_value s))])
             else
               ebind (of_cursor (classify_resume (Some (input_of s)) (Some (obj [(''streamEpoch'', epoch), (''offset'', offset)])))) (\<lambda>r.
               Inr (case r of
                      Resume_current e n \<Rightarrow> obj [(''mode'', lit_value ''current''),
                        (''cursor'', Some (obj [(''streamEpoch'', str_value e), (''offset'', int_value (int n))]))]
                    | Resume_reset why s' \<Rightarrow> obj [(''mode'', lit_value ''snapshot''),
                        (''resetReason'', lit_value (resume_reason_text why)), (''snapshot'', Some (snapshot_value s'))]
                    | Resume_snapshot why s' \<Rightarrow> obj [(''mode'', lit_value ''snapshot''),
                        (''resetReason'', lit_value (resume_reason_text why)), (''snapshot'', Some (snapshot_value s'))]))))"

text \<open>
  \<open>#applyTerminalStreamEvent\<close> on the snapshot of a stream. Offsets are compared as safe integers.
\<close>

definition apply_output :: "snapshot \<Rightarrow> json \<Rightarrow> stream_error + snapshot option" where
  "apply_output s p =
     (let data = (case as_str (field p ''data'') of None \<Rightarrow> [] | Some d \<Rightarrow> d);
          bytes = length (utf8_encode data) in
      case (as_int (field p ''startOffset''), as_int (field p ''endOffset'')) of
        (Some a, Some b) \<Rightarrow>
          require (bytes \<noteq> 0 \<and> b - a = int bytes) Se_output
            (if field p ''streamEpoch'' = str_value (sn_streamEpoch s) \<and> b \<le> int (sn_endOffset s) then Inr None
             else
               require (field p ''streamEpoch'' = str_value (sn_streamEpoch s) \<and> a = int (sn_endOffset s)) Se_gap
                 (ebind (of_cursor (make_bounded_snapshot (field p ''streamEpoch'') (Text (sn_output s @ data)) (int_value b)
                     limit_value (bool_value (sn_truncated s \<or> 0 < a)) (bool_value False) None)) (\<lambda>s'. Inr (Some s'))))
      | _ \<Rightarrow> Inl Se_output)"

definition apply_exit :: "snapshot \<Rightarrow> json \<Rightarrow> stream_error + snapshot option" where
  "apply_exit s p =
     require (field p ''streamEpoch'' = str_value (sn_streamEpoch s) \<and> field p ''offset'' = int_value (int (sn_endOffset s))) Se_exit
       (ebind (of_cursor (make_bounded_snapshot (str_value (sn_streamEpoch s)) (Text (sn_output s)) (field p ''offset'')
           limit_value (bool_value (sn_truncated s)) (bool_value True) (field p ''exitStatus''))) (\<lambda>s'. Inr (Some s')))"

text \<open>\<open>Inr None\<close> is an event that was already applied, which goes no further.\<close>

definition apply_to_snapshot :: "snapshot \<Rightarrow> json \<Rightarrow> stream_error + snapshot option" where
  "apply_to_snapshot s event =
     (let p = payload_of event; channel = field event ''channel'' in
      if channel = lit_value ''terminal:observer-snapshot''
      then ebind (terminal_snapshot (obj [(''mode'', lit_value ''snapshot''), (''snapshot'', Some p)])) (\<lambda>s'. Inr (Some s'))
      else if channel = lit_value ''terminal:observer-output'' then apply_output s p
      else if channel = lit_value ''terminal:observer-exit'' then apply_exit s p
      else Inr (Some s))"

definition apply_stream_event :: "gateway_env \<Rightarrow> nat \<Rightarrow> json \<Rightarrow> gateway \<Rightarrow> gateway" where
  "apply_stream_event env t event g =
     (let st = gw_streams g ! t in
      case sm_snapshot st of
        None \<Rightarrow> g
      | Some s \<Rightarrow>
          if field (payload_of event) ''id'' \<noteq> str_value (sm_terminalId st) then g
          else case apply_to_snapshot s event of
            Inl e \<Rightarrow> record_diagnostic (stream_diagnostic (sm_terminalId st) e) g
          | Inr None \<Rightarrow> g
          | Inr (Some s') \<Rightarrow>
              let g1 = update_stream t (\<lambda>x. x\<lparr>sm_snapshot := Some s'\<rparr>) g in
              if sm_members st = [] then g1
              else if field event ''channel'' = lit_value ''terminal:observer-snapshot''
              then g1\<lparr>gw_hub := fst (terminal_observer_snapshot (ge_now env) (str_value (sm_projectId st)) (str_value (sm_terminalId st))
                        (obj [(''mode'', lit_value ''snapshot''), (''snapshot'', Some (snapshot_value s'))]) None (gw_hub g1))\<rparr>
              else g1\<lparr>gw_hub := fst (terminal_observer_event (ge_now env) (str_value (sm_projectId st)) (field event ''channel'')
                        (field event ''payload'') (gw_hub g1))\<rparr>)"

definition handle_stream_event :: "gateway_env \<Rightarrow> nat \<Rightarrow> json \<Rightarrow> gateway \<Rightarrow> gateway" where
  "handle_stream_event env t event g =
     (let st = gw_streams g ! t in
      if jget (gw_live g) (sm_key st) \<noteq> Some t \<or> sm_closing st then g
      else if sm_snapshot st = None then
        update_stream t (\<lambda>x. if length (sm_pending x) < 64 then x\<lparr>sm_pending := sm_pending x @ [event]\<rparr>
                             else x\<lparr>sm_overflow := True\<rparr>) g
      else apply_stream_event env t event g)"

text \<open>
  The set-up of a stream once the observer has answered; \<open>None\<close> is an observer that threw.
\<close>

definition setup_settled :: "gateway_env \<Rightarrow> nat \<Rightarrow> json option \<Rightarrow> gateway \<Rightarrow> gateway" where
  "setup_settled env t outcome g =
     (case outcome of
        None \<Rightarrow> update_stream t (\<lambda>x. x\<lparr>sm_setup := Setup_threw\<rparr>) g
      | Some result \<Rightarrow>
          if \<not> truthy (field result ''ok'')
          then update_stream t (\<lambda>x. x\<lparr>sm_setup := Refused (truthy (field result ''unavailable''))\<rparr>) g
          else case terminal_snapshot result of
            Inl e \<Rightarrow> update_stream t (\<lambda>x. x\<lparr>sm_setup := Setup_threw\<rparr>) g
          | Inr s \<Rightarrow>
              let g1 = update_stream t (\<lambda>x. x\<lparr>sm_snapshot := Some s\<rparr>) g in
              if sm_overflow (gw_streams g1 ! t) then update_stream t (\<lambda>x. x\<lparr>sm_setup := Setup_threw\<rparr>) g1
              else
                let events = sm_pending (gw_streams g1 ! t);
                    g2 = update_stream t (\<lambda>x. x\<lparr>sm_pending := []\<rparr>) g1
                in update_stream t (\<lambda>x. x\<lparr>sm_setup := Set_up\<rparr>) (fold (apply_stream_event env t) events g2))"

section \<open>Subscribing\<close>

datatype subscribe_reply = Subscribed | Sub_rejected | Sub_unavailable | Sub_threw

definition command_key :: "json \<Rightarrow> jstr" where
  "command_key command = template (field command ''projectId'') @ 0 # template (field command ''targetId'')"

definition next_generation :: "jstr \<Rightarrow> gateway_session \<Rightarrow> nat" where
  "next_generation key s = (case jget (gs_generations s) key of None \<Rightarrow> 1 | Some n \<Rightarrow> n + 1)"

definition set_generation :: "jstr \<Rightarrow> gateway_session \<Rightarrow> gateway_session" where
  "set_generation key s = s\<lparr>gs_generations := jset key (next_generation key s) (gs_generations s)\<rparr>"

text \<open>
  The segments of \<open>#subscribeTerminal\<close>. A waiting call is resumed at any time the set-up allows; a
  reply ends it.
\<close>

definition subscribe_begin :: "nat \<Rightarrow> json \<Rightarrow> gateway \<Rightarrow> gateway \<times> subscribe_reply option" where
  "subscribe_begin i command g =
     (if gs_closed (gw_sessions g ! i) then (g, Some Sub_unavailable)
      else
        let key = command_key command;
            g1 = update_session i (set_generation key) g;
            generation = next_generation key (gw_sessions g ! i);
            g2 = detach_member i key g1
        in (g2\<lparr>gw_fresh := gw_fresh g2 + 1,
               gw_calls := jset (gw_fresh g2) \<lparr>sc_session = i, sc_command = command, sc_generation = generation, sc_wait = Detaching\<rparr>
                 (gw_calls g2)\<rparr>, None))"

definition set_wait :: "nat \<Rightarrow> subscribe_wait \<Rightarrow> subscribe_call \<Rightarrow> gateway \<Rightarrow> gateway" where
  "set_wait n w c g = g\<lparr>gw_calls := jset n (c\<lparr>sc_wait := w\<rparr>) (gw_calls g)\<rparr>"

definition new_stream :: "json \<Rightarrow> terminal_stream" where
  "new_stream command =
     \<lparr>sm_key = command_key command, sm_projectId = template (field command ''projectId''),
      sm_terminalId = template (field command ''targetId''), sm_members = [], sm_interests = [], sm_pending = [],
      sm_overflow = False, sm_snapshot = None, sm_setup = Setting_up, sm_closing = False\<rparr>"

definition add_stream :: "json \<Rightarrow> gateway \<Rightarrow> gateway" where
  "add_stream command g =
     g\<lparr>gw_streams := gw_streams g @ [new_stream command],
       gw_live := jset (command_key command) (length (gw_streams g)) (gw_live g)\<rparr>"

text \<open>\<open>#terminalStreamFor\<close>, with its second look after a stream that was closing has gone\<close>

definition find_stream :: "bool \<Rightarrow> json \<Rightarrow> gateway \<Rightarrow> gateway \<times> nat option" where
  "find_stream again command g =
     (case jget (gw_live g) (command_key command) of
        None \<Rightarrow> (add_stream command g, Some (length (gw_streams g)))
      | Some t \<Rightarrow> if sm_closing (gw_streams g ! t) \<and> \<not> again then (g, None) else (g, Some t))"

definition superseded_call :: "subscribe_call \<Rightarrow> gateway \<Rightarrow> bool" where
  "superseded_call c g =
     (let s = gw_sessions g ! sc_session c in
      gs_closed s \<or> jget (gs_generations s) (command_key (sc_command c)) \<noteq> Some (sc_generation c))"

definition end_call :: "nat \<Rightarrow> nat \<Rightarrow> subscribe_reply \<Rightarrow> gateway \<Rightarrow> gateway \<times> subscribe_reply option" where
  "end_call n t r g =
     (let g1 = maybe_dispose t g in (g1\<lparr>gw_calls := jdel n (gw_calls g1)\<rparr>, Some r))"

definition subscribe_commit ::
  "gateway_env \<Rightarrow> nat \<Rightarrow> nat \<Rightarrow> subscribe_call \<Rightarrow> gateway \<Rightarrow> gateway \<times> subscribe_reply option" where
  "subscribe_commit env n t c g =
     (let i = sc_session c; st = gw_streams g ! t in
      if MAX_TERMINAL_OBSERVERS \<le> length (sm_members st) then end_call n t Sub_rejected g
      else case terminal_resume (sm_snapshot st) (field (sc_command c) ''payload'') of
        Inl e \<Rightarrow> end_call n t Sub_rejected g
      | Inr result \<Rightarrow>
          let current = el_currentSeq (ds_log (gw_hub g));
              after_seq = (if is_safe current \<and> 0 \<le> current then current else 0);
              g1 = update_stream t (\<lambda>x. x\<lparr>sm_members := (if i \<in> set (sm_members x) then sm_members x else sm_members x @ [i])\<rparr>) g;
              g2 = update_session i (\<lambda>s. s\<lparr>gs_subscriptions := jset (command_key (sc_command c))
                     \<lparr>sb_stream = t, sb_generation = sc_generation c, sb_afterSeq = after_seq\<rparr> (gs_subscriptions s)\<rparr>) g1;
              g3 = g2\<lparr>gw_calls := jdel n (gw_calls g2)\<rparr>
          in (case terminal_observer_snapshot (ge_now env) (field (sc_command c) ''projectId'') (field (sc_command c) ''targetId'')
                     result (map_option JStr (gs_connectionId (gw_sessions g ! i))) (gw_hub g3) of
                (d, Inl e) \<Rightarrow> (g3\<lparr>gw_hub := d\<rparr>, Some Sub_threw)
              | (d, Inr _) \<Rightarrow> (g3\<lparr>gw_hub := d\<rparr>, Some Subscribed)))"

definition subscribe_resume :: "gateway_env \<Rightarrow> nat \<Rightarrow> gateway \<Rightarrow> gateway \<times> subscribe_reply option" where
  "subscribe_resume env n g =
     (case jget (gw_calls g) n of
        None \<Rightarrow> (g, None)
      | Some c \<Rightarrow>
          (case sc_wait c of
             Detaching \<Rightarrow> (let (g1, found) = find_stream False (sc_command c) g in (set_wait n (Finding found) c g1, None))
           | Finding None \<Rightarrow> (let (g1, found) = find_stream True (sc_command c) g in (set_wait n (Finding found) c g1, None))
           | Finding (Some t) \<Rightarrow>
               if superseded_call c g then end_call n t Sub_unavailable g
               else (set_wait n (Awaiting_setup t) c
                       (update_stream t (\<lambda>x. x\<lparr>sm_interests := sm_interests x @ [(n, sc_session c)]\<rparr>) g), None)
           | Awaiting_setup t \<Rightarrow>
               if sm_setup (gw_streams g ! t) = Setting_up then (g, None)
               else
                 let g1 = update_stream t (\<lambda>x. x\<lparr>sm_interests := filter (\<lambda>e. fst e \<noteq> n) (sm_interests x)\<rparr>) g in
                 case sm_setup (gw_streams g ! t) of
                   Refused unavailable \<Rightarrow> end_call n t (if unavailable then Sub_unavailable else Sub_rejected) g1
                 | Setup_threw \<Rightarrow> end_call n t Sub_rejected g1
                 | _ \<Rightarrow>
                     if superseded_call c g1 then end_call n t Sub_unavailable g1
                     else subscribe_commit env n t c g1))"

definition unsubscribe_terminal :: "nat \<Rightarrow> json \<Rightarrow> gateway \<Rightarrow> gateway" where
  "unsubscribe_terminal i command g =
     detach_member i (command_key command) (update_session i (set_generation (command_key command)) g)"

end
