(* ===== verification/Gateway_Delivery.thy ===== *)
theory Gateway_Delivery
  imports Gateway Triples
begin

text \<open>
  What the sessions of the gateway send: frames of their own connection, greeting first, events in the
  order of the log and none twice, and after a synchronisation exactly the events that were missing.
\<close>

section \<open>The log under the gateway\<close>

text \<open>The events of a log carry their own sequence numbers.\<close>

definition log_named :: "event_log \<Rightarrow> bool" where
  "log_named l \<longleftrightarrow> (\<forall>e \<in> set (el_events l). field (ev_value e) ''seq'' = Some (JInt (ev_seq e)))"

definition evolves :: "desktop \<Rightarrow> desktop \<Rightarrow> bool" where
  "evolves d d' \<longleftrightarrow> grows d d' \<and> (log_inv (ds_log d) \<and> log_named (ds_log d) \<longrightarrow> log_named (ds_log d'))"

lemma evolves_refl [simp]: "evolves d d"
  by (simp add: evolves_def)

lemma evolves_trans: "evolves d e \<Longrightarrow> evolves e f \<Longrightarrow> evolves d f"
  unfolding evolves_def grows_def by auto

lemma evolves_same [simp]: "evolves d (e\<lparr>ds_revision := n\<rparr>) = evolves d e" "evolves d (e\<lparr>ds_attention := a\<rparr>) = evolves d e"
  "evolves (d\<lparr>ds_revision := n\<rparr>) e = evolves d e" "evolves (d\<lparr>ds_attention := a\<rparr>) e = evolves d e"
  by (simp_all add: evolves_def)

lemma event_object_seq [simp]: "field (event_object epoch seq eid at ty payload audience) ''seq'' = Some (JInt seq)"
  by (simp add: event_object_def field_def)

lemma log_append_value:
  "log_append now inp l = Inr (l', v) \<Longrightarrow> field v ''seq'' = Some (JInt (el_currentSeq l + 1))"
  by (auto simp: log_append_def Let_def result_simps split: option.splits)

lemma append_event_evolves: "evolves d (fst (append_event now i d))"
proof (cases "log_append now i (ds_log d)")
  case (Inr x)
  obtain l v where x: "x = (l, v)" by fastforce
  have "log_named l" if inv: "log_inv (ds_log d)" and named: "log_named (ds_log d)"
  proof -
    obtain pre keep where k: "el_events (ds_log d) = pre @ keep" "el_events l =
       keep @ [\<lparr>ev_seq = el_currentSeq (ds_log d) + 1, ev_value = v, ev_bytes = int (json_bytes v)\<rparr>]"
      using log_append_step [OF inv, of now i l v] Inr x by blast
    then show ?thesis using named log_append_value [of now i "ds_log d" l v] Inr x by (auto simp: log_named_def)
  qed
  then show ?thesis
    using append_event_grows [of d now i] Inr x by (simp add: append_event_def evolves_def)
qed (simp add: append_event_def)

lemma deliver_evolves: "evolves d (deliver now e d)"
  by (simp add: deliver_def append_event_evolves)

lemma fold_deliver_evolves: "evolves d (fold (deliver now) es d)"
  by (induction es arbitrary: d) (auto intro: evolves_trans deliver_evolves)

lemma with_attention_evolves: "evolves d (fst (with_attention now f d))"
  using fold_deliver_evolves [of "d\<lparr>ds_attention := a\<rparr>" now for a]
  by (auto simp: with_attention_def split: option.split prod.split)

lemma desktop_snapshot_evolves: "evolves d (fst (desktop_snapshot c now label records d))"
  using with_attention_evolves [of d now "synchronize_projections c now records"]
  by (auto simp: desktop_snapshot_def synchronize_attention_def Let_def split: prod.split sum.split option.split)

lemma hub_synchronize_evolves: "evolves d (fst (hub_synchronize c now label records cursor d))"
  using desktop_snapshot_evolves [of d c now label records]
  by (auto simp: hub_synchronize_def hub_snapshot_def split: prod.split sum.split option.split replay_result.split)

lemma ack_evolves: "ds_log d' = (ds_log d)\<lparr>el_acks := a\<rparr> \<Longrightarrow> log_inv (ds_log d) \<longrightarrow> log_inv (ds_log d') \<Longrightarrow> evolves d d'"
  by (simp add: evolves_def grows_def log_named_def)

lemma hub_disconnect_evolves:
  assumes "hub_disconnect client d = Inr (d', b)"
  shows "evolves d d'"
proof -
  obtain l where l: "log_drop_client client (ds_log d) = Inr (l, b)" "d' = d\<lparr>ds_log := l\<rparr>"
    using assms by (auto simp: hub_disconnect_def desktop_disconnect_def split: sum.splits)
  then obtain a where "l = (ds_log d)\<lparr>el_acks := a\<rparr>" by (auto simp: log_drop_client_def ebind_eq_Inr)
  then show ?thesis using l(2) log_drop_client_inv [OF _ l(1)] by (intro ack_evolves [where a = a]) simp_all
qed

lemma hub_acknowledge_evolves:
  assumes "hub_acknowledge client seq d = Inr (d', n)"
  shows "evolves d d'"
proof -
  obtain l where l: "log_acknowledge client seq (ds_log d) = Inr (l, n)" "d' = d\<lparr>ds_log := l\<rparr>"
    using assms by (auto simp: hub_acknowledge_def desktop_acknowledge_def split: sum.splits)
  then obtain a where "l = (ds_log d)\<lparr>el_acks := a\<rparr>" by (auto simp: log_acknowledge_def ebind_eq_Inr require_eq_Inr Let_def)
  then show ?thesis using l(2) log_acknowledge_inv [OF _ l(1)] by (intro ack_evolves [where a = a]) simp_all
qed

lemma terminal_evolves:
  "evolves d (fst (terminal_observer_event now project channel payload d))"
  "evolves d (fst (terminal_observer_snapshot now project terminal result audience d))"
  using append_event_evolves [of d now]
  by (auto simp: terminal_observer_event_def terminal_observer_snapshot_def split: prod.split sum.split option.split)
    (metis fst_conv)+


text \<open>What a replay brings: one event for every position after the cursor, in order.\<close>

definition named_from :: "json list \<Rightarrow> int \<Rightarrow> int \<Rightarrow> bool" where
  "named_from events n m \<longleftrightarrow> map (\<lambda>e. field e ''seq'') events = map (\<lambda>k. Some (JInt k)) [n + 1..m]"

lemma filter_upto: "d \<le> n \<Longrightarrow> n \<le> m \<Longrightarrow> filter (\<lambda>k. n < k) [d + 1..m :: int] = [n + 1..m]"
proof -
  assume n: "d \<le> n" "n \<le> m"
  have "[d + 1..m] = [d + 1..n] @ [n + 1..m]"
    using n by (cases "n = d") (simp_all add: upto_split2)
  moreover have "filter (\<lambda>k. n < k) [d + 1..n] = []" "filter (\<lambda>k. n < k) [n + 1..m] = [n + 1..m]"
    by (auto simp: filter_empty_conv intro: filter_True)
  ultimately show ?thesis by simp
qed

lemma replay_named:
  assumes "log_inv (ds_log d)" "log_named (ds_log d)" "desktop_replay e (Some (JInt n)) d = Inr (Replay e' first m events)"
  shows "named_from events n m \<and> m = el_currentSeq (ds_log d) \<and> n \<le> m \<and> 0 \<le> n"
proof -
  let ?es = "el_events (ds_log d)" and ?d = "el_droppedThrough (ds_log d)" and ?m = "el_currentSeq (ds_log d)"
  have r: "?d \<le> n" "n \<le> ?m" "m = ?m" "events = map ev_value (filter (\<lambda>x. n < ev_seq x) ?es)" "0 \<le> n"
    using assms(3) by (auto simp: desktop_replay_def log_replay_def snapshot_required_def ebind_eq_Inr log_safe_integer_def
        require_eq_Inr split: sum.splits if_splits)
  have "map ev_seq ?es = [?d + 1..?m]" using assms(1) by (simp add: log_inv_def)
  moreover have "map ev_seq (filter (\<lambda>x. n < ev_seq x) ?es) = filter (\<lambda>k. n < k) (map ev_seq ?es)"
    by (simp add: filter_map comp_def)
  ultimately have "map ev_seq (filter (\<lambda>x. n < ev_seq x) ?es) = [n + 1..?m]" using filter_upto [OF r(1,2)] by simp
  moreover have "map (\<lambda>e. field e ''seq'') events = map (\<lambda>k. Some (JInt k)) (map ev_seq (filter (\<lambda>x. n < ev_seq x) ?es))"
    using assms(2) by (auto simp: r(4) log_named_def)
  ultimately show ?thesis using r by (simp add: named_from_def)
qed

section \<open>Sessions\<close>

text \<open>The part of a session that the terminal streams and subscriptions do not touch.\<close>

definition core :: "gateway_session \<Rightarrow> gateway_session" where
  "core s = s\<lparr>gs_subscriptions := [], gs_generations := [], gs_acp := []\<rparr>"

lemma core_simps [simp]:
  "gs_deviceId (core s) = gs_deviceId s" "gs_granted (core s) = gs_granted s" "gs_connectionId (core s) = gs_connectionId s"
  "gs_capabilities (core s) = gs_capabilities s" "gs_connected (core s) = gs_connected s" "gs_closed (core s) = gs_closed s"
  "gs_lastSentSeq (core s) = gs_lastSentSeq s" "gs_sent (core s) = gs_sent s"
  "core (s\<lparr>gs_subscriptions := a\<rparr>) = core s" "core (s\<lparr>gs_generations := b\<rparr>) = core s" "core (s\<lparr>gs_acp := c\<rparr>) = core s"
  by (simp_all add: core_def)

definition frame_kept :: "gateway \<Rightarrow> gateway \<Rightarrow> bool" where
  "frame_kept g g' \<longleftrightarrow> gw_desktopId g' = gw_desktopId g \<and> gw_epoch g' = gw_epoch g \<and> evolves (gw_hub g) (gw_hub g')
     \<and> set (gw_open g') \<subseteq> set (gw_open g)"

lemma frame_kept_refl [simp]: "frame_kept g g"
  by (simp add: frame_kept_def)

lemma frame_kept_trans: "frame_kept g h \<Longrightarrow> frame_kept h k \<Longrightarrow> frame_kept g k"
  by (simp add: frame_kept_def evolves_trans [of "gw_hub g" "gw_hub h" "gw_hub k"]) (elim conjE, erule order_trans, assumption)

lemma frame_kept_fields [simp]:
  "frame_kept g (h\<lparr>gw_sessions := a\<rparr>) = frame_kept g h" "frame_kept g (h\<lparr>gw_streams := b\<rparr>) = frame_kept g h"
  "frame_kept g (h\<lparr>gw_live := c\<rparr>) = frame_kept g h" "frame_kept g (h\<lparr>gw_calls := d\<rparr>) = frame_kept g h"
  "frame_kept g (h\<lparr>gw_errors := e\<rparr>) = frame_kept g h" "frame_kept g (h\<lparr>gw_logged := l\<rparr>) = frame_kept g h"
  "frame_kept g (h\<lparr>gw_control := k\<rparr>) = frame_kept g h" "frame_kept g (h\<lparr>gw_router := r\<rparr>) = frame_kept g h"
  "frame_kept g (h\<lparr>gw_disposed := m\<rparr>) = frame_kept g h" "frame_kept g (h\<lparr>gw_fresh := n\<rparr>) = frame_kept g h"
  "frame_kept g (g\<lparr>gw_open := removeAll i (gw_open g)\<rparr>)" "frame_kept g (g\<lparr>gw_hub := x\<rparr>) = evolves (gw_hub g) x"
  by (auto simp: frame_kept_def)

definition only :: "nat \<Rightarrow> gateway \<Rightarrow> gateway \<Rightarrow> bool" where
  "only i g g' \<longleftrightarrow> (\<exists>x. map core (gw_sessions g') = (map core (gw_sessions g))[i := x])
     \<and> frame_kept g g'"

definition quiet :: "gateway \<Rightarrow> gateway \<Rightarrow> bool" where
  "quiet g g' \<longleftrightarrow> map core (gw_sessions g') = map core (gw_sessions g)
     \<and> frame_kept g g'"

lemma quiet_refl [simp]: "quiet g g"
  by (simp add: quiet_def)

lemma quiet_trans: "quiet g h \<Longrightarrow> quiet h k \<Longrightarrow> quiet g k"
  unfolding quiet_def using frame_kept_trans by auto

lemma quiet_only: "quiet g g' \<Longrightarrow> only i g g'"
  unfolding quiet_def only_def by (metis list_update_id)

lemma only_refl [simp]: "only i g g"
  by (rule quiet_only) simp

lemma only_trans: "only i g h \<Longrightarrow> only i h k \<Longrightarrow> only i g k"
  unfolding only_def using frame_kept_trans by (metis list_update_overwrite)

lemma only_length: "only i g g' \<Longrightarrow> length (gw_sessions g') = length (gw_sessions g)"
  unfolding only_def by (metis length_list_update length_map)

lemma quiet_session: "quiet g g' \<Longrightarrow> i < length (gw_sessions g) \<Longrightarrow> core (gw_sessions g' ! i) = core (gw_sessions g ! i)"
  unfolding quiet_def by (metis length_map nth_map)

lemma quiet_fold: "(\<And>x g. quiet g (f x g)) \<Longrightarrow> quiet g (fold f xs g)"
  by (induction xs arbitrary: g) (auto intro: quiet_trans)

lemma quiet_update_session: "(\<And>s. core (f s) = core s) \<Longrightarrow> quiet g (update_session i f g)"
  by (cases "i < length (gw_sessions g)")
    (simp add: quiet_def update_session_def map_update, metis list_update_id nth_map,
     simp add: quiet_def update_session_def list_update_beyond)

lemma only_update_session: "only i g (update_session i f g)"
  by (auto simp: only_def update_session_def map_update)

lemma quiet_fields [simp]:
  "quiet g (g\<lparr>gw_open := removeAll i (gw_open g)\<rparr>)" "quiet g (g\<lparr>gw_streams := b\<rparr>)" "quiet g (g\<lparr>gw_live := c\<rparr>)" "quiet g (g\<lparr>gw_calls := d\<rparr>)"
  "quiet g (g\<lparr>gw_errors := e\<rparr>)" "quiet g (g\<lparr>gw_logged := l\<rparr>)" "quiet g (g\<lparr>gw_control := k\<rparr>)" "quiet g (g\<lparr>gw_router := r\<rparr>)"
  "quiet g (g\<lparr>gw_disposed := m\<rparr>)" "quiet g (update_stream t f g)" "quiet g (g\<lparr>gw_fresh := n\<rparr>)"
  by (simp_all add: quiet_def update_stream_def)

lemma quiet_hub: "evolves (gw_hub g) d \<Longrightarrow> quiet g (g\<lparr>gw_hub := d\<rparr>)"
  by (simp add: quiet_def)

lemma quiet_diagnostic [simp]: "quiet g (record_diagnostic d g)"
  by (simp add: quiet_def record_diagnostic_def Let_def)

lemma quiet_dispose [simp]: "quiet g (maybe_dispose t g)"
  by (simp add: maybe_dispose_def Let_def)

lemma quiet_detach [simp]: "quiet g (detach_member i key g)"
  unfolding detach_member_def
  by (cases "jget (gs_subscriptions (gw_sessions g ! i)) key")
    (auto intro!: quiet_trans [OF quiet_update_session quiet_trans [OF quiet_fields(10) quiet_dispose]])

lemma quiet_drop [simp]: "quiet g (drop_interests i t g)"
  unfolding drop_interests_def by (rule quiet_trans [OF quiet_fields(10) quiet_dispose])

lemma quiet_release [simp]: "quiet g (release_gateway_session i g)"
proof -
  have b: "quiet g (update_session i bump_generations (g\<lparr>gw_open := removeAll i (gw_open g)\<rparr>))"
    by (rule quiet_trans [OF quiet_fields(1) quiet_update_session]) (simp add: bump_generations_def)
  have c: "quiet h (release_control i h)" for h by (simp add: release_control_def split: option.split)
  show ?thesis
    unfolding release_gateway_session_def Let_def
    by (rule quiet_trans [OF b quiet_trans [OF quiet_fold quiet_trans [OF quiet_fold quiet_trans [OF quiet_update_session c]]]])
      simp_all
qed

definition closed_core :: "gateway_session \<Rightarrow> gateway_session" where
  "closed_core s = core (if gs_closed s then s else s\<lparr>gs_closed := True, gs_connected := False\<rparr>)"

lemma close_only:
  assumes "i < length (gw_sessions g)" "close_session i g = (g', r)"
  shows "only i g g' \<and> core (gw_sessions g' ! i) = closed_core (gw_sessions g ! i)"
proof (cases "gs_closed (gw_sessions g ! i)")
  case True
  then show ?thesis using assms by (simp add: close_session_def closed_core_def)
next
  case False
  let ?g0 = "update_session i (\<lambda>s. s\<lparr>gs_closed := True, gs_connected := False\<rparr>) g"
  let ?g1 = "release_gateway_session i ?g0"
  have "only i g ?g1" by (rule only_trans [OF only_update_session quiet_only [OF quiet_release]])
  moreover have "core (gw_sessions ?g1 ! i) = core (gw_sessions ?g0 ! i)"
    by (rule quiet_session [OF quiet_release]) (use assms(1) in \<open>simp add: update_session_def\<close>)
  moreover have "core (gw_sessions ?g0 ! i) = closed_core (gw_sessions g ! i)"
    using False assms(1) by (simp add: update_session_def closed_core_def)
  moreover have "quiet ?g1 g'"
    using assms(2) False hub_disconnect_evolves
    by (auto simp: close_session_def Let_def split: sum.splits intro!: quiet_hub)
  moreover have "core (gw_sessions g' ! i) = core (gw_sessions ?g1 ! i)"
    by (rule quiet_session [OF \<open>quiet ?g1 g'\<close>])
      (use assms(1) only_length [OF \<open>only i g ?g1\<close>] in simp)
  ultimately show ?thesis using only_trans [OF _ quiet_only] by metis
qed


text \<open>A frame of the session's own connection.\<close>

definition frame_ok :: "jstr \<Rightarrow> jstr \<Rightarrow> gateway_session \<Rightarrow> json \<Rightarrow> bool" where
  "frame_ok desktop epoch s f \<longleftrightarrow>
     envelope_ok PROTOCOL_VERSION f \<and> env_desktopId (view_envelope f) = desktop \<and> env_deviceId (view_envelope f) = gs_deviceId s
     \<and> Some (env_connectionId (view_envelope f)) = gs_connectionId s \<and> env_epoch (view_envelope f) = epoch"

definition event_seqs :: "gateway_session \<Rightarrow> int list" where
  "event_seqs s = map (\<lambda>f. env_seq (view_envelope f)) (filter (\<lambda>f. env_kind (view_envelope f) = Event) (gs_sent s))"

definition sent_ok :: "jstr \<Rightarrow> jstr \<Rightarrow> int \<Rightarrow> gateway_session \<Rightarrow> bool" where
  "sent_ok desktop epoch current s \<longleftrightarrow>
     (\<forall>f \<in> set (gs_sent s). frame_ok desktop epoch s f) \<and> sorted_wrt (<) (event_seqs s)
     \<and> (\<forall>n \<in> set (event_seqs s). n \<le> gs_lastSentSeq s) \<and> 0 \<le> gs_lastSentSeq s \<and> gs_lastSentSeq s \<le> current
     \<and> (gs_connected s \<longrightarrow> \<not> gs_closed s \<and> gs_connectionId s \<noteq> None
          \<and> set (gs_capabilities s) \<subseteq> set (gs_granted s) \<and> Observe \<in> set (gs_capabilities s))
     \<and> (\<not> gs_connected s \<and> \<not> gs_closed s \<longrightarrow> gs_sent s = [] \<and> gs_lastSentSeq s = 0)"

lemma sent_ok_core [simp]: "sent_ok desktop epoch current (core s) = sent_ok desktop epoch current s"
  by (simp add: sent_ok_def frame_ok_def event_seqs_def)

lemma sent_ok_mono: "sent_ok desktop epoch current s \<Longrightarrow> current \<le> current' \<Longrightarrow> sent_ok desktop epoch current' s"
  by (auto simp: sent_ok_def)

lemma sent_ok_closed: "sent_ok desktop epoch current s \<Longrightarrow> sent_ok desktop epoch current (closed_core s)"
  by (auto simp: closed_core_def sent_ok_def frame_ok_def event_seqs_def)

definition fine :: "gateway \<Rightarrow> bool" where
  "fine g \<longleftrightarrow> identifier_ok MAX_ID_LENGTH (gw_epoch g) \<and> log_inv (ds_log (gw_hub g)) \<and> log_named (ds_log (gw_hub g)) \<and> (\<forall>i \<in> set (gw_open g). i < length (gw_sessions g))
     \<and> (\<forall>s \<in> set (gw_sessions g). sent_ok (gw_desktopId g) (gw_epoch g) (el_currentSeq (ds_log (gw_hub g))) s)"

definition session_fine :: "gateway \<Rightarrow> nat \<Rightarrow> bool" where
  "session_fine g i \<longleftrightarrow> sent_ok (gw_desktopId g) (gw_epoch g) (el_currentSeq (ds_log (gw_hub g))) (gw_sessions g ! i)"

lemma fineD: "fine g \<Longrightarrow> i < length (gw_sessions g) \<Longrightarrow> session_fine g i"
  by (simp add: fine_def session_fine_def)

lemma fine_only:
  assumes "fine g" "only i g g'" "i < length (gw_sessions g) \<Longrightarrow> session_fine g' i"
  shows "fine g'"
proof -
  have ev: "evolves (gw_hub g) (gw_hub g')" and dk: "gw_desktopId g' = gw_desktopId g" "gw_epoch g' = gw_epoch g"
    using assms(2) by (simp_all add: only_def frame_kept_def)
  have hub: "log_inv (ds_log (gw_hub g'))" "log_named (ds_log (gw_hub g'))"
    "el_currentSeq (ds_log (gw_hub g)) \<le> el_currentSeq (ds_log (gw_hub g'))"
    using assms(1) ev by (simp_all add: fine_def evolves_def grows_def)
  obtain x where x: "map core (gw_sessions g') = (map core (gw_sessions g))[i := x]" using assms(2) by (auto simp: only_def)
  have len: "length (gw_sessions g') = length (gw_sessions g)" by (rule only_length [OF assms(2)])
  have "session_fine g' j" if j: "j < length (gw_sessions g')" for j
  proof (cases "j = i")
    case True
    then show ?thesis using assms(3) j len by simp
  next
    case False
    have "core (gw_sessions g' ! j) = core (gw_sessions g ! j)"
      using arg_cong [OF x, of "\<lambda>ys. ys ! j"] j len False by simp
    moreover have "sent_ok (gw_desktopId g') (gw_epoch g') (el_currentSeq (ds_log (gw_hub g'))) (gw_sessions g ! j)"
      using sent_ok_mono [OF fineD [OF assms(1), unfolded session_fine_def] hub(3)] j len dk by simp
    ultimately show ?thesis unfolding session_fine_def by (metis sent_ok_core)
  qed
  moreover have "\<forall>i \<in> set (gw_open g'). i < length (gw_sessions g')"
    using assms(1,2) len by (auto simp: fine_def only_def frame_kept_def)
  moreover have "identifier_ok MAX_ID_LENGTH (gw_epoch g')" using assms(1) dk(2) by (simp add: fine_def)
  ultimately show ?thesis using hub by (auto simp: fine_def session_fine_def in_set_conv_nth)
qed

lemma fine_quiet: "fine g \<Longrightarrow> quiet g g' \<Longrightarrow> fine g'"
proof -
  assume f: "fine g" and q: "quiet g g'"
  have "sent_ok (gw_desktopId g') (gw_epoch g') (el_currentSeq (ds_log (gw_hub g'))) (core s)" if "s \<in> set (gw_sessions g)" for s
    using f q that sent_ok_mono by (auto simp: fine_def quiet_def frame_kept_def evolves_def grows_def)
  then have "\<forall>s \<in> set (map core (gw_sessions g')). sent_ok (gw_desktopId g') (gw_epoch g') (el_currentSeq (ds_log (gw_hub g'))) s"
    using q by (auto simp: quiet_def)
  moreover have "length (gw_sessions g') = length (gw_sessions g)"
    using q unfolding quiet_def by (metis length_map)
  ultimately show ?thesis using f q by (auto simp: fine_def quiet_def frame_kept_def evolves_def grows_def)
qed

lemma close_fine:
  assumes "fine g" "close_session i g = (g', r)" "i < length (gw_sessions g)"
  shows "fine g'"
proof (rule fine_only [OF assms(1)])
  note c = close_only [OF assms(3,2)]
  then show "only i g g'" by simp
  have "sent_ok (gw_desktopId g') (gw_epoch g') (el_currentSeq (ds_log (gw_hub g'))) (gw_sessions g ! i)"
    using sent_ok_mono [OF fineD [OF assms(1,3), unfolded session_fine_def]] assms(1) c
    by (simp add: fine_def only_def frame_kept_def evolves_def grows_def)
  then show "session_fine g' i" unfolding session_fine_def using c sent_ok_closed sent_ok_core by metis
qed

section \<open>Sending\<close>

lemma frame_fields:
  assumes "f = frame_of g s kind body name seq at" "envelope_ok PROTOCOL_VERSION f"
  shows "env_kind (view_envelope f) = kind" "frame_ok (gw_desktopId g) (gw_epoch g) s f"
    "seq = Some (JInt (env_seq (view_envelope f)))" "0 \<le> env_seq (view_envelope f)" "is_safe (env_seq (view_envelope f))"
    "env_body (view_envelope f) = body"
proof -
  have fields: "field f ''kind'' = lit_value (kind_text kind)" "field f ''desktopId'' = str_value (gw_desktopId g)"
    "field f ''deviceId'' = str_value (gs_deviceId s)" "field f ''epoch'' = str_value (gw_epoch g)"
    "field f ''connectionId'' = Some (case gs_connectionId s of None \<Rightarrow> JNull | Some c \<Rightarrow> JStr c)" "field f ''seq'' = seq"
    "field f ''body'' = Some body"
    by (simp_all add: assms(1) frame_of_def str_value_def lit_value_def)
  note ok = assms(2) [unfolded envelope_ok_def Let_def]
  show "env_kind (view_envelope f) = kind" using ok fields(1) by (simp add: lit_value_def)
  show "seq = Some (JInt (env_seq (view_envelope f)))" "0 \<le> env_seq (view_envelope f)" using ok fields(6) by simp_all
  show "is_safe (env_seq (view_envelope f))" using ok by (simp add: is_safe_def max_safe_integer_def)
  show "env_body (view_envelope f) = body" using ok fields(7) by simp
  show "frame_ok (gw_desktopId g) (gw_epoch g) s f"
    using assms(2) ok fields(2-5) by (cases "gs_connectionId s") (simp_all add: frame_ok_def str_value_def)
qed

lemma send_cases:
  assumes "send env i kind body name seq at g = (g', r)"
  obtains (error) e where "g' = g" "r = Inl e"
  | (sent) f where "f = frame_of g (gw_sessions g ! i) kind body name seq at" "envelope_ok PROTOCOL_VERSION f"
      "\<not> gs_closed (gw_sessions g ! i)" "ge_accepts env i f" "r = Inr True"
      "g' = update_session i (\<lambda>s. s\<lparr>gs_sent := gs_sent s @ [f]\<rparr>) g"
  | (refused) b where "close_session i g = (g', b)" "r \<noteq> Inr True"
proof (cases "validate_envelope PROTOCOL_VERSION (frame_of g (gw_sessions g ! i) kind body name seq at)")
  case (Inl e)
  then have "g' = g \<and> r = Inl (Ge_protocol e)" using assms by (simp add: send_def sbind_def of_protocol_def)
  then show ?thesis using error by blast
next
  case (Inr f)
  then have f: "f = frame_of g (gw_sessions g ! i) kind body name seq at" "envelope_ok PROTOCOL_VERSION f"
    by (simp_all add: validate_envelope_Inr)
  show ?thesis
  proof (cases "ge_accepts env i f \<and> \<not> gs_closed (gw_sessions g ! i)")
    case True
    then show ?thesis
      using assms Inr sent [OF f] by (simp add: send_def sbind_def of_protocol_def the_gs_def on_gs_def)
  next
    case False
    obtain h b where c: "close_session i g = (h, b)" by fastforce
    then have "g' = h \<and> r \<noteq> Inr True"
      using assms Inr False by (auto simp: send_def sbind_def of_protocol_def the_gs_def on_gs_def split: sum.splits)
    then show ?thesis using refused c by blast
  qed
qed

lemma update_session_nth [simp]:
  "i < length (gw_sessions g) \<Longrightarrow> gw_sessions (update_session i f g) ! i = f (gw_sessions g ! i)"
  "length (gw_sessions (update_session i f g)) = length (gw_sessions g)"
  "gw_hub (update_session i f g) = gw_hub g" "gw_desktopId (update_session i f g) = gw_desktopId g"
  "gw_epoch (update_session i f g) = gw_epoch g"
  by (simp_all add: update_session_def)

lemma fine_update:
  assumes "fine g" "i < length (gw_sessions g) \<Longrightarrow>
    sent_ok (gw_desktopId g) (gw_epoch g) (el_currentSeq (ds_log (gw_hub g))) (f (gw_sessions g ! i))"
  shows "fine (update_session i f g)"
  by (rule fine_only [OF assms(1) only_update_session [of i g f]]) (use assms(2) in \<open>simp add: session_fine_def\<close>)

text \<open>A frame that is no event, to an open session that has been greeted or is being greeted.\<close>

lemma send_fine:
  assumes "fine g" "i < length (gw_sessions g)" "kind \<noteq> Event" "gs_connected (gw_sessions g ! i) \<or> gs_closed (gw_sessions g ! i)"
    and "send env i kind body name seq at g = (g', r)"
  shows "fine g' \<and> only i g g' \<and> (gs_connected (gw_sessions g' ! i) \<or> gs_closed (gw_sessions g' ! i))
    \<and> gs_lastSentSeq (gw_sessions g' ! i) = gs_lastSentSeq (gw_sessions g ! i)"
  using assms(5)
proof (cases rule: send_cases)
  case (error e)
  then show ?thesis using assms by simp
next
  case (sent f)
  note fields = frame_fields [OF sent(1,2)]
  have "fine g'"
    unfolding sent(6)
    by (rule fine_update [OF assms(1)])
      (use fineD [OF assms(1,2)] fields(1,2) assms(3,4) sent(3) in
        \<open>auto simp: session_fine_def sent_ok_def frame_ok_def event_seqs_def\<close>)
  then show ?thesis using assms(2,4) only_update_session by (simp add: sent(6))
next
  case (refused b)
  note c = close_only [OF assms(2) refused(1)]
  have "core (gw_sessions g' ! i) = closed_core (gw_sessions g ! i)" using c by simp
  then have "gs_closed (core (gw_sessions g' ! i)) \<and> gs_lastSentSeq (core (gw_sessions g' ! i)) = gs_lastSentSeq (gw_sessions g ! i)"
    by (simp add: closed_core_def)
  then show ?thesis using close_fine [OF assms(1) refused(1) assms(2)] c unfolding core_simps by blast
qed


lemma named_Cons: "named_from (e # es) n m \<Longrightarrow> n \<le> m \<Longrightarrow>
    field e ''seq'' = Some (JInt (n + 1)) \<and> named_from es (n + 1) m \<and> n + 1 \<le> m"
  by (cases "n = m") (simp_all add: named_from_def upto_rec1)

definition greeted :: "gateway \<Rightarrow> nat \<Rightarrow> bool" where
  "greeted g i \<longleftrightarrow> gs_connected (gw_sessions g ! i) \<or> gs_closed (gw_sessions g ! i)"

lemma send_event_fine:
  assumes "fine g" "i < length (gw_sessions g)" "greeted g i"
    and seq: "gs_lastSentSeq (gw_sessions g ! i) < k" "k \<le> el_currentSeq (ds_log (gw_hub g))"
    and "send env i Event body name (Some (JInt k)) at g = (g1, r1)"
  shows "only i g g1" "r1 \<noteq> Inr True \<Longrightarrow> fine g1"
    "r1 = Inr True \<Longrightarrow> fine (update_session i (\<lambda>s. s\<lparr>gs_lastSentSeq := k\<rparr>) g1) \<and> is_safe k \<and> greeted g1 i \<and> gw_hub g1 = gw_hub g"
proof -
  have "only i g g1 \<and> (r1 \<noteq> Inr True \<longrightarrow> fine g1) \<and> (r1 = Inr True \<longrightarrow>
      fine (update_session i (\<lambda>s. s\<lparr>gs_lastSentSeq := k\<rparr>) g1) \<and> is_safe k \<and> greeted g1 i \<and> gw_hub g1 = gw_hub g)"
    using assms(6)
  proof (cases rule: send_cases)
    case (error e)
    then show ?thesis using assms(1) by simp
  next
    case (sent f)
    note fields = frame_fields [OF sent(1,2)]
    have k: "env_seq (view_envelope f) = k" using fields(3) by simp
    have "update_session i (\<lambda>s. s\<lparr>gs_lastSentSeq := k\<rparr>) g1
        = update_session i (\<lambda>s. s\<lparr>gs_sent := gs_sent s @ [f], gs_lastSentSeq := k\<rparr>) g"
      using assms(2) by (simp add: sent(6) update_session_def)
    moreover have "fine (update_session i (\<lambda>s. s\<lparr>gs_sent := gs_sent s @ [f], gs_lastSentSeq := k\<rparr>) g)"
    proof (rule fine_update [OF assms(1)])
      have "sorted_wrt (<) (event_seqs (gw_sessions g ! i) @ [k])" "\<forall>n \<in> set (event_seqs (gw_sessions g ! i)). n \<le> k"
        using fineD [OF assms(1,2)] seq(1) by (fastforce simp: session_fine_def sent_ok_def sorted_wrt_append)+
      then show "sent_ok (gw_desktopId g) (gw_epoch g) (el_currentSeq (ds_log (gw_hub g)))
          ((gw_sessions g ! i)\<lparr>gs_sent := gs_sent (gw_sessions g ! i) @ [f], gs_lastSentSeq := k\<rparr>)"
        using fineD [OF assms(1,2)] fields(1,2,4) k seq(2) assms(3) sent(3)
        by (auto simp: session_fine_def sent_ok_def frame_ok_def event_seqs_def greeted_def)
    qed
    ultimately show ?thesis
      using assms(2,3) only_update_session fields(5) k by (simp add: sent(5,6) greeted_def)
  next
    case (refused b)
    then show ?thesis using close_only [OF assms(2) refused(1)] close_fine [OF assms(1) refused(1) assms(2)] by simp
  qed
  then show "only i g g1" "r1 \<noteq> Inr True \<Longrightarrow> fine g1"
    "r1 = Inr True \<Longrightarrow> fine (update_session i (\<lambda>s. s\<lparr>gs_lastSentSeq := k\<rparr>) g1) \<and> is_safe k \<and> greeted g1 i \<and> gw_hub g1 = gw_hub g"
    by simp_all
qed

lemma send_events_fine:
  assumes "fine g" "i < length (gw_sessions g)" "greeted g i"
    and "gs_lastSentSeq (gw_sessions g ! i) \<le> n" "n \<le> m" "m \<le> el_currentSeq (ds_log (gw_hub g))" "named_from events n m"
    and "send_events env i m events g = (g', r)"
  shows "fine g' \<and> only i g g'"
  using assms
proof (induction events arbitrary: g n)
  case Nil
  have "fine (update_session i (\<lambda>s. s\<lparr>gs_lastSentSeq := m\<rparr>) g)"
    by (rule fine_update [OF Nil.prems(1)])
      (use fineD [OF Nil.prems(1,2)] Nil.prems(3-6) in
        \<open>auto simp: session_fine_def sent_ok_def frame_ok_def event_seqs_def greeted_def\<close>)
  then show ?case using Nil.prems(8) only_update_session by (auto simp: sbind_def on_gs_def)
next
  case (Cons e es)
  have e: "field e ''seq'' = Some (JInt (n + 1))" "named_from es (n + 1) m" "n + 1 \<le> m"
    using named_Cons [OF Cons.prems(7,5)] by simp_all
  show ?case
  proof (cases "accepts_event (gw_sessions g ! i) e")
    case False
    then have "send_events env i m es g = (g', r)" using Cons.prems(8) by (simp add: sbind_def the_gs_def)
    then show ?thesis using Cons.IH [OF Cons.prems(1-3) _ e(3) Cons.prems(6) e(2)] Cons.prems(4) by simp
  next
    case True
    obtain g1 r1 where s: "send env i Event (event_body e) (field e ''id'') (Some (JInt (n + 1))) (field e ''at'') g = (g1, r1)"
      by fastforce
    note sf = send_event_fine [OF Cons.prems(1-3) _ _ s]
    have seq: "gs_lastSentSeq (gw_sessions g ! i) < n + 1" "n + 1 \<le> el_currentSeq (ds_log (gw_hub g))"
      using Cons.prems(4,6) e(3) by simp_all
    show ?thesis
    proof (cases "r1 = Inr True")
      case False
      then have "g' = g1"
        using Cons.prems(8) True s e(1) by (auto simp: sbind_def the_gs_def split: sum.splits if_splits)
      then show ?thesis using sf [OF seq] False by simp
    next
      case True
      let ?g2 = "update_session i (\<lambda>s. s\<lparr>gs_lastSentSeq := n + 1\<rparr>) g1"
      have p: "fine ?g2" "is_safe (n + 1)" "greeted g1 i" "gw_hub g1 = gw_hub g" "only i g g1" using sf [OF seq] True by simp_all
      then have step: "send_events env i m es ?g2 = (g', r)"
        using Cons.prems(8) True s e(1) \<open>accepts_event (gw_sessions g ! i) e\<close>
        by (simp add: sbind_def the_gs_def on_gs_def)
      have len: "i < length (gw_sessions g1)" using only_length [OF p(5)] Cons.prems(2) by simp
      have "fine g' \<and> only i ?g2 g'"
        by (rule Cons.IH [OF p(1) _ _ _ e(3) _ e(2) step]) (use len p Cons.prems(6) in \<open>simp_all add: greeted_def\<close>)
      then show ?thesis using only_trans [OF only_trans [OF p(5) only_update_session]] by blast
    qed
  qed
qed

lemma next_id_quiet:
  assumes "fine g" "i < length (gw_sessions g)" "next_id i prefix g = (g', r)"
  shows "fine g'" "only i g g'" "greeted g' i = greeted g i" "gw_hub g' = gw_hub g"
    "gs_lastSentSeq (gw_sessions g' ! i) = gs_lastSentSeq (gw_sessions g ! i)"
    "gs_connected (gw_sessions g' ! i) = gs_connected (gw_sessions g ! i)" "\<exists>x. r = Inr x"
proof -
  let ?f = "\<lambda>s. s\<lparr>gs_frameCounter := gs_frameCounter s + 1\<rparr>"
  have g': "g' = update_session i ?f g" "\<exists>x. r = Inr x"
    using assms(3) by (auto simp: next_id_def sbind_def on_gs_def the_gs_def)
  show "fine g'"
    unfolding g'(1) by (rule fine_update [OF assms(1)])
      (use fineD [OF assms(1,2)] in \<open>auto simp: session_fine_def sent_ok_def frame_ok_def event_seqs_def\<close>)
  show "only i g g'" "greeted g' i = greeted g i" "gw_hub g' = gw_hub g"
    "gs_lastSentSeq (gw_sessions g' ! i) = gs_lastSentSeq (gw_sessions g ! i)"
    "gs_connected (gw_sessions g' ! i) = gs_connected (gw_sessions g ! i)" "\<exists>x. r = Inr x"
    using assms(2) g' only_update_session by (simp_all add: greeted_def)
qed

text \<open>What an answer of the hub is, seen from a session.\<close>

definition answer_ok :: "gateway \<Rightarrow> nat \<Rightarrow> sync_answer \<Rightarrow> bool" where
  "answer_ok g i answer \<longleftrightarrow>
     (case answer of
        Sync_snapshot reason e current revision p \<Rightarrow> current = el_currentSeq (ds_log (gw_hub g))
      | Sync_replay e first m events \<Rightarrow>
          m = el_currentSeq (ds_log (gw_hub g)) \<and> (\<exists>n. gs_lastSentSeq (gw_sessions g ! i) \<le> n \<and> n \<le> m \<and> named_from events n m))"

lemma send_synchronization_fine:
  assumes "fine g" "i < length (gw_sessions g)" "greeted g i" "answer_ok g i answer"
    and "send_synchronization env i answer g = (g', r)"
  shows "fine g' \<and> only i g g'"
proof (cases answer)
  case (Sync_replay e first m events)
  then obtain n where n: "m = el_currentSeq (ds_log (gw_hub g))" "gs_lastSentSeq (gw_sessions g ! i) \<le> n" "n \<le> m" "named_from events n m"
    using assms(4) by (auto simp: answer_ok_def)
  show ?thesis
    by (rule send_events_fine [OF assms(1-3) n(2,3) _ n(4)]) (use assms(5) n(1) Sync_replay in simp_all)
next
  case (Sync_snapshot reason e current revision p)
  then have cur: "current = el_currentSeq (ds_log (gw_hub g))" using assms(4) by (simp add: answer_ok_def)
  obtain g1 r1 where n1: "next_id i ''snapshot'' g = (g1, r1)" by fastforce
  note q = next_id_quiet [OF assms(1,2) n1]
  obtain x where x: "r1 = Inr x" using q(7) by blast
  have len: "i < length (gw_sessions g1)" using only_length [OF q(2)] assms(2) by simp
  let ?body = "obj [(''type'', lit_value ''snapshot.projects''), (''revision'', int_value revision),
               (''reason'', lit_value (reason_text reason)), (''projection'', Some (projection_json p))]"
  obtain g2 r2 where s: "send env i Snapshot ?body x (int_value current) (int_value (ge_now env)) g1 = (g2, r2)" by fastforce
  note sf = send_fine [OF q(1) len _ _ s]
  have f2: "fine g2" "only i g1 g2" "greeted g2 i" using sf q(3) assms(3) by (simp_all add: greeted_def)
  show ?thesis
  proof (cases "r2 = Inr True")
    case False
    then have "g' = g2"
      using assms(5) n1 x s Sync_snapshot by (auto simp: sbind_def split: sum.splits if_splits)
    then show ?thesis using f2 only_trans [OF q(2)] by blast
  next
    case True
    have hub: "gw_hub g2 = gw_hub g1"
      using s True by (cases rule: send_cases) simp_all
    have "fine (update_session i (\<lambda>s. s\<lparr>gs_lastSentSeq := current\<rparr>) g2)"
      by (rule fine_update [OF f2(1)])
        (use fineD [OF f2(1)] f2(3) cur hub q(4) in
          \<open>fastforce simp: session_fine_def sent_ok_def frame_ok_def event_seqs_def greeted_def\<close>)
    moreover have "g' = update_session i (\<lambda>s. s\<lparr>gs_lastSentSeq := current\<rparr>) g2"
      using assms(5) n1 x s True Sync_snapshot by (simp add: sbind_def on_gs_def)
    ultimately show ?thesis using only_trans [OF q(2) only_trans [OF f2(2) only_update_session]] by simp
  qed
qed


lemma quiet_diagnostics: "quiet g (fold record_diagnostic ds g)"
  by (rule quiet_fold) simp

lemma fold_diagnostic_hub [simp]: "gw_hub (fold record_diagnostic ds g) = gw_hub g"
  by (induction ds arbitrary: g) (simp_all add: record_diagnostic_def Let_def)

lemma fold_diagnostic_sessions [simp]: "gw_sessions (fold record_diagnostic ds g) = gw_sessions g"
  by (induction ds arbitrary: g) (simp_all add: record_diagnostic_def Let_def)

lemma safe_cursor_obj:
  "safe_cursor (Some (obj [(''epoch'', e), (''afterSeq'', v)])) = Inr (Some (e', n)) \<Longrightarrow> nonneg v = Some n"
  by (cases v) (auto simp: safe_cursor_def nullish_def Let_def require_eq_Inr split: sum.splits option.splits if_splits)

lemma hub_answer:
  assumes "log_inv (ds_log d)" "log_named (ds_log d)" "hub_synchronize c now label records cursor d = (d', Inr answer)"
  shows "case answer of
      Sync_snapshot reason e current revision p \<Rightarrow> current = el_currentSeq (ds_log d')
    | Sync_replay e first m events \<Rightarrow> d' = d \<and> m = el_currentSeq (ds_log d) \<and>
        (\<exists>e' n. safe_cursor cursor = Inr (Some (e', n)) \<and> 0 \<le> n \<and> n \<le> m \<and> named_from events n m
          \<and> events = map ev_value (filter (\<lambda>x. n < ev_seq x) (el_events (ds_log d))))"
proof -
  have snap: "case answer of Sync_snapshot reason e current revision p \<Rightarrow> current = el_currentSeq (ds_log d') | _ \<Rightarrow> False"
    if "hub_snapshot c now label records why d = (d', Inr answer)" for why
    using that by (auto simp: hub_snapshot_def split: prod.splits sum.splits)
  consider (start) "safe_cursor cursor = Inr None"
    | (resume) e n r where "safe_cursor cursor = Inr (Some (e, n))" "desktop_replay (Some (JStr e)) (Some (JInt n)) d = Inr r"
    using assms(3) by (auto simp: hub_synchronize_def split: sum.splits option.splits)
  then show ?thesis
  proof cases
    case start
    then have "hub_snapshot c now label records Initial_connection d = (d', Inr answer)"
      using assms(3) by (simp add: hub_synchronize_def)
    from snap [OF this] show ?thesis by (cases answer) simp_all
  next
    case (resume e n r)
    show ?thesis
    proof (cases r)
      case (Replay e' first m events)
      have "d' = d" "answer = Sync_replay e' first m events"
        using assms(3) resume Replay by (simp_all add: hub_synchronize_def)
      moreover have "events = map ev_value (filter (\<lambda>x. n < ev_seq x) (el_events (ds_log d)))"
        using resume(2) Replay by (auto simp: desktop_replay_def log_replay_def snapshot_required_def ebind_eq_Inr log_safe_integer_def
            require_eq_Inr split: sum.splits if_splits)
      ultimately show ?thesis
        using replay_named [OF assms(1,2) resume(2) [unfolded Replay]] resume(1) by auto
    next
      case (Snapshot_required why x y z)
      then have "hub_snapshot c now label records (Log_reason why) d = (d', Inr answer)"
        using assms(3) resume by (simp add: hub_synchronize_def)
      from snap [OF this] show ?thesis by (cases answer) simp_all
    qed
  qed
qed

lemma gateway_synchronize_cases:
  assumes "gateway_synchronize env cursor g = (g', r)"
  shows "quiet g g'" "\<exists>d. fst (hub_synchronize (ge_attention env) (ge_now env) (ge_label env) (ge_records env) cursor (gw_hub g)) = d
      \<and> gw_hub g' = d"
    "gw_sessions g' = gw_sessions g"
proof -
  let ?h = "hub_synchronize (ge_attention env) (ge_now env) (ge_label env) (ge_records env) cursor (gw_hub g)"
  have e: "quiet g (g\<lparr>gw_hub := fst ?h\<rparr>)" by (rule quiet_hub [OF hub_synchronize_evolves])
  have "\<exists>ds. g' = fold record_diagnostic ds (g\<lparr>gw_hub := fst ?h\<rparr>)"
  proof -
    obtain d a where h: "?h = (d, a)" by fastforce
    have "fold record_diagnostic [] x = x" for x by simp
    then show ?thesis
      using assms h by (auto simp: gateway_synchronize_def split: sum.splits sync_answer.splits prod.splits)
        (rule exI [of _ "[]"], simp)+
  qed
  then obtain ds where ds: "g' = fold record_diagnostic ds (g\<lparr>gw_hub := fst ?h\<rparr>)" ..
  show "quiet g g'" unfolding ds by (rule quiet_trans [OF e quiet_diagnostics])
  show "\<exists>d. fst ?h = d \<and> gw_hub g' = d" by (simp add: ds)
  show "gw_sessions g' = gw_sessions g" by (simp add: ds)
qed

lemma gateway_answer_ok:
  assumes "fine g" "gateway_synchronize env cursor g = (g', Inr answer)"
    and "\<And>e n. safe_cursor cursor = Inr (Some (e, n)) \<Longrightarrow> 0 \<le> n \<Longrightarrow> gs_lastSentSeq (gw_sessions g ! i) \<le> n"
  shows "answer_ok g' i answer"
proof -
  let ?h = "hub_synchronize (ge_attention env) (ge_now env) (ge_label env) (ge_records env) cursor (gw_hub g)"
  obtain d a where h: "?h = (d, Inr a)"
    using assms(2) by (cases ?h; cases "snd ?h") (auto simp: gateway_synchronize_def)
  have hub: "gw_hub g' = d" "gw_sessions g' = gw_sessions g" using gateway_synchronize_cases [OF assms(2)] h by auto
  have inv: "log_inv (ds_log (gw_hub g))" "log_named (ds_log (gw_hub g))" using assms(1) by (simp_all add: fine_def)
  note ha = hub_answer [OF inv h]
  show ?thesis
  proof (cases a)
    case (Sync_replay e first m events)
    then have "answer = Sync_replay e first m events" using assms(2) h by (simp add: gateway_synchronize_def)
    then show ?thesis using ha Sync_replay hub assms(3) by (auto simp: answer_ok_def)
  next
    case (Sync_snapshot reason e current revision p)
    then have "\<exists>rev q. answer = Sync_snapshot reason e current rev q"
      using assms(2) h by (auto simp: gateway_synchronize_def split: prod.splits)
    then show ?thesis using ha Sync_snapshot hub by (auto simp: answer_ok_def)
  qed
qed

lemma synchronize_session_fine:
  assumes "fine g" "i < length (gw_sessions g)" "synchronize_session env i g = (g', r)"
  shows "fine g' \<and> only i g g'"
proof (cases "gs_connected (gw_sessions g ! i) \<and> \<not> gs_closed (gw_sessions g ! i)")
  case False
  then show ?thesis using assms by (simp add: synchronize_session_def sbind_def the_gs_def)
next
  case True
  let ?cursor = "cursor_json (gw_epoch g) (gs_lastSentSeq (gw_sessions g ! i))"
  obtain g1 r1 where s: "gateway_synchronize env (Some ?cursor) g = (g1, r1)" by fastforce
  note q = gateway_synchronize_cases [OF s]
  have f: "fine g1" by (rule fine_quiet [OF assms(1) q(1)])
  show ?thesis
  proof (cases r1)
    case (Inl e)
    then have "g' = g1" using assms(3) True s by (simp add: synchronize_session_def sbind_def the_gs_def)
    then show ?thesis using f quiet_only [OF q(1)] by simp
  next
    case (Inr answer)
    have send: "send_synchronization env i answer g1 = (g', r)"
      using assms(3) True s Inr by (simp add: synchronize_session_def sbind_def the_gs_def)
    have "answer_ok g1 i answer"
      by (rule gateway_answer_ok [OF assms(1) s [unfolded Inr]])
        (auto simp: cursor_json_def int_value_def nonneg_def dest!: safe_cursor_obj split: option.splits if_splits)
    then have "fine g' \<and> only i g1 g'"
      by (intro send_synchronization_fine [OF f _ _ _ send]) (use assms(2) True q(3) in \<open>simp_all add: greeted_def\<close>)
    then show ?thesis using only_trans [OF quiet_only [OF q(1)]] by blast
  qed
qed

lemma synchronize_or_close_fine:
  assumes "fine g" "i < length (gw_sessions g)"
  shows "fine (synchronize_or_close env i g) \<and> only i g (synchronize_or_close env i g)"
proof -
  obtain g1 r1 where s: "synchronize_session env i g = (g1, r1)" by fastforce
  note f = synchronize_session_fine [OF assms s]
  obtain g2 r2 where c: "close_session i g1 = (g2, r2)" by fastforce
  have "i < length (gw_sessions g1)" using only_length f assms(2) by metis
  then have "fine g2 \<and> only i g g2" using close_fine [OF _ c] close_only [OF _ c] f only_trans by blast
  then show ?thesis using f by (cases r1) (simp_all add: synchronize_or_close_def s c)
qed

lemma quiet_subscribe: "quiet g (subscribe_project env i p g)"
proof -
  have "quiet g (update_session i (\<lambda>s. s\<lparr>gs_acp := gs_acp s @ [p]\<rparr>) g)" by (rule quiet_update_session) simp
  then show ?thesis unfolding subscribe_project_def by (simp split: sum.split)
qed

lemma quiet_reconcile: "quiet g (reconcile_acp env i answer g)"
proof -
  have "quiet g (fold (subscribe_project env i) ps (update_session i (\<lambda>s. s\<lparr>gs_acp := filter q (gs_acp s)\<rparr>) g))" for ps q
    by (rule quiet_trans [OF quiet_update_session quiet_fold [OF quiet_subscribe]]) simp
  then show ?thesis unfolding reconcile_acp_def Let_def by simp
qed


section \<open>Receiving\<close>

definition step_ok :: "gateway \<Rightarrow> nat \<Rightarrow> gateway \<Rightarrow> bool" where
  "step_ok g i g' \<longleftrightarrow> fine g' \<and> only i g g' \<and> i < length (gw_sessions g')"

definition begun :: "gateway \<Rightarrow> nat \<Rightarrow> gateway \<Rightarrow> bool" where
  "begun g i g' \<longleftrightarrow> step_ok g i g' \<and> greeted g' i \<and> gs_lastSentSeq (gw_sessions g' ! i) = 0"

lemma step_ok_trans: "step_ok g i h \<Longrightarrow> fine k \<Longrightarrow> only i h k \<Longrightarrow> step_ok g i k"
  unfolding step_ok_def by (metis only_length only_trans)

lemma granted_capabilities_Inr:
  "granted_capabilities (Some (capability_json granted)) requested = Inr cs \<Longrightarrow> set cs \<subseteq> set granted \<and> Observe \<in> set cs"
  unfolding granted_capabilities_def of_protocol_def Let_def capability_json_def
  by (elim ebind_InrE require_InrE) (auto simp: or_empty_array_def nullish_def validate_capabilities_Inr
      map_idI inj_def inj_map_eq_map split: sum.splits)

lemma begun_next_id: "triple (step_ok g i) (begun g i) (next_id i prefix) (\<lambda>_. begun g i)"
  unfolding triple_def
proof (intro allI impI)
  fix s assume b: "begun g i s"
  obtain s' r where n: "next_id i prefix s = (s', r)" by fastforce
  have f: "fine s" "i < length (gw_sessions s)" using b by (simp_all add: begun_def step_ok_def)
  note q = next_id_quiet [OF f n]
  have "begun g i s'" using b q step_ok_trans [OF _ q(1,2)] by (simp add: begun_def)
  then show "case next_id i prefix s of (s', Inl e) \<Rightarrow> step_ok g i s' | (s', Inr x) \<Rightarrow> begun g i s'"
    using n q(7) by auto
qed

lemma begun_send: "kind \<noteq> Event \<Longrightarrow>
    triple (step_ok g i) (begun g i) (send env i kind body name seq at) (\<lambda>_. begun g i)"
  unfolding triple_def
proof (intro allI impI)
  fix s assume k: "kind \<noteq> Event" and b: "begun g i s"
  obtain s' r where n: "send env i kind body name seq at s = (s', r)" by fastforce
  have f: "fine s" "i < length (gw_sessions s)" "greeted s i" using b by (simp_all add: begun_def step_ok_def)
  have q: "fine s'" "only i s s'" "greeted s' i" "gs_lastSentSeq (gw_sessions s' ! i) = gs_lastSentSeq (gw_sessions s ! i)"
    using send_fine [OF f(1,2) k f(3) [unfolded greeted_def] n] by (simp_all add: greeted_def)
  have "begun g i s'" using b q step_ok_trans [OF _ q(1,2)] by (simp add: begun_def)
  then show "case send env i kind body name seq at s of (s', Inl e) \<Rightarrow> step_ok g i s' | (s', Inr x) \<Rightarrow> begun g i s'"
    using n by (auto simp: begun_def split: sum.split)
qed

definition answered :: "gateway \<Rightarrow> nat \<Rightarrow> sync_answer \<Rightarrow> gateway \<Rightarrow> bool" where
  "answered g i answer g' \<longleftrightarrow> begun g i g' \<and> answer_ok g' i answer"

lemma begun_synchronize: "triple (step_ok g i) (begun g i) (gateway_synchronize env cursor) (answered g i)"
  unfolding triple_def
proof (intro allI impI)
  fix s assume b: "begun g i s"
  obtain s' r where n: "gateway_synchronize env cursor s = (s', r)" by fastforce
  have f: "fine s" "i < length (gw_sessions s)" using b by (simp_all add: begun_def step_ok_def)
  note q = gateway_synchronize_cases [OF n]
  have s': "begun g i s'"
    using b q(3) step_ok_trans [OF _ fine_quiet [OF f(1) q(1)] quiet_only [OF q(1)]] by (simp add: begun_def greeted_def)
  have "answer_ok s' i answer" if "r = Inr answer" for answer
    by (rule gateway_answer_ok [OF f(1) n [unfolded that]]) (use b in \<open>simp add: begun_def\<close>)
  then show "case gateway_synchronize env cursor s of (s', Inl e) \<Rightarrow> step_ok g i s' | (s', Inr x) \<Rightarrow> answered g i x s'"
    using n s' by (auto simp: answered_def begun_def split: sum.split)
qed

lemma answer_ok_quiet:
  "core (gw_sessions g' ! i) = core (gw_sessions g ! i) \<Longrightarrow> gw_hub g' = gw_hub g \<Longrightarrow> answer_ok g' i answer = answer_ok g i answer"
proof -
  assume c: "core (gw_sessions g' ! i) = core (gw_sessions g ! i)" and h: "gw_hub g' = gw_hub g"
  have "gs_lastSentSeq (gw_sessions g' ! i) = gs_lastSentSeq (gw_sessions g ! i)" using c core_simps(7) by metis
  then show ?thesis by (cases answer) (simp_all add: answer_ok_def h)
qed

lemma subscribe_project_hub [simp]: "gw_hub (subscribe_project env i p g) = gw_hub g"
  by (simp add: subscribe_project_def record_diagnostic_def Let_def split: sum.split)

lemma fold_subscribe_hub [simp]: "gw_hub (fold (subscribe_project env i) ps g) = gw_hub g"
  by (induction ps arbitrary: g) simp_all

lemma reconcile_hub [simp]: "gw_hub (reconcile_acp env i answer g) = gw_hub g"
  by (simp add: reconcile_acp_def Let_def)

lemma greeted_core: "core (gw_sessions g' ! i) = core (gw_sessions g ! i) \<Longrightarrow> greeted g' i = greeted g i"
  unfolding greeted_def by (metis core_simps(5,6))

lemma answered_reconcile: "triple (step_ok g i) (answered g i x) (smodify (reconcile_acp env i a)) (\<lambda>_. answered g i x)"
proof (rule triple_modify)
  fix s assume a: "answered g i x s"
  let ?s = "reconcile_acp env i a s"
  have q: "quiet s ?s" by (rule quiet_reconcile)
  have f: "fine s" "i < length (gw_sessions s)" using a by (simp_all add: answered_def begun_def step_ok_def)
  have c: "core (gw_sessions ?s ! i) = core (gw_sessions s ! i)" by (rule quiet_session [OF q f(2)])
  have l: "gs_lastSentSeq (gw_sessions ?s ! i) = gs_lastSentSeq (gw_sessions s ! i)" using c core_simps(7) by metis
  show "answered g i x ?s"
    using a step_ok_trans [OF _ fine_quiet [OF f(1) q] quiet_only [OF q]] answer_ok_quiet [OF c reconcile_hub] greeted_core [OF c] l
    by (simp add: answered_def begun_def)
qed

lemma answered_send: "triple (step_ok g i) (answered g i x) (send_synchronization env i x) (\<lambda>_. step_ok g i)"
  unfolding triple_def
proof (intro allI impI)
  fix s assume a: "answered g i x s"
  obtain s' r where n: "send_synchronization env i x s = (s', r)" by fastforce
  have f: "fine s" "i < length (gw_sessions s)" "greeted s i" "answer_ok s i x" "step_ok g i s"
    using a by (simp_all add: answered_def begun_def step_ok_def)
  have "step_ok g i s'" using send_synchronization_fine [OF f(1-4) n] step_ok_trans [OF f(5)] by blast
  then show "case send_synchronization env i x s of (s', Inl e) \<Rightarrow> step_ok g i s' | (s', Inr y) \<Rightarrow> step_ok g i s'"
    using n by (auto split: sum.split)
qed

definition ungreeted :: "gateway \<Rightarrow> nat \<Rightarrow> gateway \<Rightarrow> bool" where
  "ungreeted g i g' \<longleftrightarrow> step_ok g i g' \<and> \<not> greeted g' i"

lemma ungreeted_connection:
  assumes "ungreeted g i s"
  shows "ungreeted g i (update_session i (\<lambda>s. s\<lparr>gs_connectionId := c\<rparr>) s)"
proof -
  have f: "fine s" "i < length (gw_sessions s)" "\<not> greeted s i" "step_ok g i s"
    using assms by (simp_all add: ungreeted_def step_ok_def)
  have "fine (update_session i (\<lambda>s. s\<lparr>gs_connectionId := c\<rparr>) s)"
    by (rule fine_update [OF f(1)])
      (use fineD [OF f(1,2)] f(3) in \<open>auto simp: session_fine_def sent_ok_def event_seqs_def greeted_def\<close>)
  then show ?thesis
    using step_ok_trans [OF f(4) _ only_update_session] f(2,3) by (simp add: ungreeted_def greeted_def)
qed

lemma ungreeted_connect:
  assumes "ungreeted g i s" "gs_connectionId (gw_sessions s ! i) \<noteq> None"
    "set cs \<subseteq> set (gs_granted (gw_sessions s ! i))" "Observe \<in> set cs"
  shows "begun g i (update_session i (\<lambda>s. s\<lparr>gs_capabilities := cs, gs_connected := True\<rparr>) s)"
proof -
  have f: "fine s" "i < length (gw_sessions s)" "\<not> greeted s i" "step_ok g i s"
    using assms by (simp_all add: ungreeted_def step_ok_def)
  have "fine (update_session i (\<lambda>s. s\<lparr>gs_capabilities := cs, gs_connected := True\<rparr>) s)"
    by (rule fine_update [OF f(1)])
      (use fineD [OF f(1,2)] f(3) assms(2-4) in \<open>auto simp: session_fine_def sent_ok_def event_seqs_def greeted_def\<close>)
  moreover have "gs_lastSentSeq (gw_sessions s ! i) = 0"
    using fineD [OF f(1,2)] f(3) by (simp add: session_fine_def sent_ok_def greeted_def)
  ultimately show ?thesis
    using step_ok_trans [OF f(4) _ only_update_session] f(2) by (simp add: begun_def greeted_def)
qed


lemma ungreeted_hello:
  "triple (step_ok g i) (ungreeted g i) (hello env i frame) (\<lambda>_. step_ok g i)"
  unfolding hello_def Let_def
  apply (rule triple_bind [where mid = "\<lambda>_. ungreeted g i"], rule triple_guard, simp add: ungreeted_def, simp)
  apply (rule triple_bind [where mid = "\<lambda>_ s. ungreeted g i s \<and> gs_connectionId (gw_sessions s ! i) \<noteq> None"])
   apply (unfold on_gs_def, rule triple_modify, rule conjI, rule ungreeted_connection, assumption, simp add: ungreeted_def step_ok_def)
  apply (rule triple_bind [where mid = "\<lambda>granted s. ungreeted g i s \<and> gs_connectionId (gw_sessions s ! i) \<noteq> None
      \<and> granted = gs_granted (gw_sessions s ! i)"])
   apply (unfold the_gs_def, rule triple_read, simp)
  apply (rule triple_bind [where mid = "\<lambda>cs s. ungreeted g i s \<and> gs_connectionId (gw_sessions s ! i) \<noteq> None
      \<and> set cs \<subseteq> set (gs_granted (gw_sessions s ! i)) \<and> Observe \<in> set cs"])
   apply (rule triple_lift, simp add: ungreeted_def, simp add: granted_capabilities_Inr)
  apply (rule triple_bind [where mid = "\<lambda>_. begun g i"], rule triple_modify, rule ungreeted_connect, (elim conjE, assumption)+)
  apply (rule triple_bind [OF begun_next_id])
  apply (rule triple_bind [OF begun_send], simp)
  apply (rule triple_bind [OF begun_synchronize])
  apply (rule triple_bind [OF answered_reconcile])
  apply (rule triple_bind [OF answered_send])
  apply (rule triple_return, assumption)
  done

lemma hello_fine:
  assumes "fine g" "i < length (gw_sessions g)" "\<not> greeted g i" "hello env i frame g = (g', r)"
  shows "fine g' \<and> only i g g'"
  using triple_inv [OF ungreeted_hello [of g i env frame] _ assms(4)] assms(1-3) by (simp add: ungreeted_def step_ok_def)

lemma receive_fine:
  assumes "fine g" "i < length (gw_sessions g)" "receive env i raw g = (g', r)"
  shows "fine g' \<and> only i g g'"
proof -
  let ?s = "gw_sessions g ! i"
  have other: "fine g' \<and> only i g g'" if "quiet g g'" using that fine_quiet [OF assms(1)] quiet_only by blast
  show ?thesis
  proof (cases "gs_closed ?s")
    case True
    then show ?thesis using assms(1,3) by (simp add: receive_def sbind_def)
  next
    case open': False
    show ?thesis
    proof (cases "validate_envelope PROTOCOL_VERSION raw")
      case (Inl e)
      then show ?thesis using assms(1,3) open' by (simp add: receive_def sbind_def of_protocol_def)
    next
      case (Inr frame)
      let ?f = "view_envelope frame"
      show ?thesis
      proof (cases "env_desktopId ?f = gw_desktopId g \<and> env_deviceId ?f = gs_deviceId ?s")
        case False
        then show ?thesis
          using assms(1,3) open' Inr by (simp add: receive_def sbind_def of_protocol_def Let_def split: if_splits)
      next
        case ids: True
        show ?thesis
        proof (cases "gs_connected ?s")
          case False
          then have "hello env i frame g = (g', r)"
            using assms(3) open' Inr ids by (simp add: receive_def sbind_def of_protocol_def Let_def the_gs_def)
          then show ?thesis using hello_fine [OF assms(1,2)] False open' by (simp add: greeted_def)
        next
          case True
          note after = assms(3) open' Inr ids True
          show ?thesis
          proof (rule other, cases "hub_acknowledge (str_value (gs_deviceId ?s)) (field (env_body ?f) ''ackSeq'') (gw_hub g)")
            case (Inl e)
            then show "quiet g g'"
              using after by (auto simp: receive_def sbind_def of_protocol_def Let_def the_gs_def split: if_splits prod.splits sum.splits)
          next
            case (Inr x)
            then show "quiet g g'"
              using after hub_acknowledge_evolves
              by (auto simp: receive_def sbind_def of_protocol_def Let_def the_gs_def
                  split: if_splits prod.splits sum.splits intro!: quiet_hub)
          qed
        qed
      qed
    qed
  qed
qed

lemma command_done_fine:
  assumes "fine g" "i < length (gw_sessions g)" "greeted g i" "command_done env i answer g = (g', r)"
  shows "fine g' \<and> only i g g'"
proof -
  obtain g1 r1 where n: "next_id i ''receipt'' g = (g1, r1)" by fastforce
  note q = next_id_quiet [OF assms(1,2) n]
  obtain x where x: "r1 = Inr x" using q(7) by blast
  have len: "i < length (gw_sessions g1)" using only_length [OF q(2)] assms(2) by simp
  obtain g2 r2 where s: "send env i Receipt answer x (int_value (gs_lastSentSeq (gw_sessions g1 ! i))) (int_value (ge_now env)) g1 = (g2, r2)"
    by fastforce
  have "fine g2" "only i g1 g2"
    using send_fine [OF q(1) len _ _ s] q(3) assms(3) by (simp_all add: greeted_def)
  moreover have "g' = g2" using assms(4) n x s by (simp add: command_done_def sbind_def the_gs_def split: sum.splits)
  ultimately show ?thesis using only_trans [OF q(2)] by simp
qed


lemma attach_fine:
  assumes "fine g" "attach device capabilities g = (g', r)"
  shows "fine g'"
proof -
  have "g' = g \<or> (\<exists>d cs. g' = g\<lparr>gw_sessions := gw_sessions g @
                   [\<lparr>gs_deviceId = d, gs_granted = cs, gs_connectionId = None, gs_capabilities = [], gs_connected = False,
                     gs_closed = False, gs_lastSentSeq = 0, gs_frameCounter = 0, gs_subscriptions = [],
                     gs_generations = [], gs_acp = [], gs_sent = []\<rparr>],
                  gw_open := gw_open g @ [length (gw_sessions g)]\<rparr>)"
    using assms(2) by (auto simp: attach_def split: if_splits sum.splits)
  moreover have "0 \<le> el_currentSeq (ds_log (gw_hub g))" if "fine g"
    using that by (auto simp: fine_def log_inv_def)
  ultimately show ?thesis
    using assms(1) by (auto simp: fine_def sent_ok_def event_seqs_def less_Suc_eq)
qed

section \<open>The other steps\<close>

lemma quiet_apply: "quiet g (apply_stream_event env t event g)"
proof -
  have "quiet g (record_diagnostic d g)" for d by simp
  moreover have "quiet g ((update_stream t f g)\<lparr>gw_hub := d\<rparr>)" if "evolves (gw_hub g) d" for f d
    by (rule quiet_trans [OF quiet_fields(10) quiet_hub]) (use that in \<open>simp add: update_stream_def\<close>)
  ultimately show ?thesis
    using terminal_evolves
    by (auto simp: apply_stream_event_def Let_def update_stream_def split: option.split sum.split)
qed

lemma quiet_handle: "quiet g (handle_stream_event env t event g)"
  unfolding handle_stream_event_def Let_def using quiet_apply by simp

lemma quiet_setup: "quiet g (setup_settled env t outcome g)"
proof -
  have a: "quiet g (update_stream t f (update_stream t f' g))" for f f' by (rule quiet_trans [OF quiet_fields(10,10)])
  have "quiet g (update_stream t f (fold (apply_stream_event env t) es (update_stream t f' (update_stream t f'' g))))" for f f' f'' es
    by (rule quiet_trans [OF a quiet_trans [OF quiet_fold [OF quiet_apply] quiet_fields(10)]])
  then show ?thesis
    unfolding setup_settled_def Let_def using a by (simp split: option.split sum.split)
qed

lemma quiet_dispose_finished: "quiet g (dispose_finished t failure g)"
  unfolding dispose_finished_def Let_def
  by (auto split: option.split intro: quiet_trans [OF quiet_diagnostic quiet_fields(3)])

lemma quiet_set_generation: "quiet g (update_session i (set_generation key) g)"
  by (rule quiet_update_session) (simp add: set_generation_def)

lemma quiet_begin: "quiet g (fst (subscribe_begin i command g))"
  unfolding subscribe_begin_def Let_def
  using quiet_trans [OF quiet_trans [OF quiet_set_generation quiet_detach] quiet_trans [OF quiet_fields(11) quiet_fields(4)]]
  by simp

lemma quiet_unsubscribe: "quiet g (unsubscribe_terminal i command g)"
  unfolding unsubscribe_terminal_def by (rule quiet_trans [OF quiet_set_generation quiet_detach])

lemma quiet_find: "quiet g (fst (find_stream again command g))"
  unfolding find_stream_def add_stream_def
  by (auto split: option.split intro: quiet_trans [OF quiet_fields(2) quiet_fields(3)])

lemma quiet_end: "quiet g (fst (end_call n t r g))"
  unfolding end_call_def Let_def by (simp add: quiet_trans [OF quiet_dispose quiet_fields(4)])

lemma quiet_set_wait [simp]: "quiet g (set_wait n w c g)"
  by (simp add: set_wait_def)

lemma quiet_if: "quiet g (fst a) \<Longrightarrow> quiet g (fst b) \<Longrightarrow> quiet g (fst (if c then a else b))"
  by simp

lemma quiet_sum:
  "(\<And>e. quiet g (fst (a e))) \<Longrightarrow> (\<And>z. quiet g (fst (f z))) \<Longrightarrow> quiet g (fst (case x of Inl e \<Rightarrow> a e | Inr z \<Rightarrow> f z))"
  by (cases x) simp_all

lemma quiet_observer:
  assumes "\<And>d. evolves h d \<Longrightarrow> quiet g (f d)"
  shows "quiet g (fst (case terminal_observer_snapshot now project terminal result audience h of
      (d, Inl e) \<Rightarrow> (f d, x) | (d, Inr v) \<Rightarrow> (f d, y)))"
  using assms terminal_evolves(2) [of h now project terminal result audience] by (auto split: prod.split sum.split)

lemma quiet_commit: "quiet g (fst (subscribe_commit env n t c g))"
proof -
  have u: "quiet g ((update_session i (\<lambda>s. s\<lparr>gs_subscriptions := f s\<rparr>) (update_stream t f' g))\<lparr>gw_calls := cs, gw_hub := d\<rparr>)"
    if "evolves (gw_hub g) d" for i f f' cs d
    by (rule quiet_trans [OF quiet_fields(10) quiet_trans [OF quiet_update_session quiet_trans [OF quiet_fields(4) quiet_hub]]])
      (use that in \<open>simp_all add: update_stream_def update_session_def\<close>)
  show ?thesis
    unfolding subscribe_commit_def Let_def
    by (rule quiet_if [OF quiet_end quiet_sum [OF quiet_end quiet_observer [OF u]]])
      (simp add: update_stream_def update_session_def)
qed

lemma quiet_resume: "quiet g (fst (subscribe_resume env n g))"
proof -
  have e: "quiet g (fst (end_call n t r (update_stream t f g)))" for t r f
    by (rule quiet_trans [OF quiet_fields(10) quiet_end])
  have c: "quiet g (fst (subscribe_commit env n t c (update_stream t f g)))" for t c f
    by (rule quiet_trans [OF quiet_fields(10) quiet_commit])
  have w: "quiet g (set_wait n w c (update_stream t f g))" for w c t f
    by (rule quiet_trans [OF quiet_fields(10) quiet_set_wait])
  have s: "quiet g (set_wait n (Finding x) c h)" if "find_stream again command g = (h, x)" for again command h x c
    using quiet_trans [OF quiet_find [of g again command] quiet_set_wait] by (simp add: that)
  show ?thesis
    unfolding subscribe_resume_def Let_def
    using e c w quiet_end s by (auto split: option.split subscribe_wait.split stream_setup.split prod.split)
qed

lemma fine_fold:
  assumes "\<And>i g. fine g \<Longrightarrow> i < length (gw_sessions g) \<Longrightarrow> fine (f i g) \<and> only i g (f i g)"
  shows "fine g \<Longrightarrow> \<forall>i \<in> set is. i < length (gw_sessions g) \<Longrightarrow> fine (fold f is g)"
proof (induction "is" arbitrary: g)
  case (Cons i "is")
  have "fine (f i g)" "only i g (f i g)" using assms [of g i] Cons.prems by simp_all
  then show ?case using Cons.IH [of "f i g"] Cons.prems(2) only_length [of i g "f i g"] by simp
qed simp

lemma fine_open: "fine g \<Longrightarrow> \<forall>i \<in> set (gw_open g). i < length (gw_sessions g)"
  by (simp add: fine_def)

lemma run_synchronization_fine:
  assumes "fine g"
  shows "fine (run_synchronization env g)"
proof -
  have q: "quiet g (fold (\<lambda>i. reconcile_acp env i None) (gw_open g) g)" by (rule quiet_fold [OF quiet_reconcile])
  note f = fine_quiet [OF assms q]
  show ?thesis
    unfolding run_synchronization_def Let_def
    using assms fine_fold [where f = "synchronize_or_close env", OF synchronize_or_close_fine f fine_open [OF f]] by simp
qed

lemma dispose_gateway_fine:
  assumes "fine g"
  shows "fine (dispose_gateway g)"
proof -
  have d: "fine (g\<lparr>gw_disposed := True\<rparr>)" by (rule fine_quiet [OF assms]) simp
  have c: "fine (fst (close_session i g)) \<and> only i g (fst (close_session i g))" if "fine g" "i < length (gw_sessions g)" for i g
    using close_fine [OF that(1) _ that(2)] close_only [OF that(2)] by (metis prod.collapse)
  have "fine (fold (\<lambda>i g. fst (close_session i g)) (gw_open g) (g\<lparr>gw_disposed := True\<rparr>))"
    by (rule fine_fold [OF c d]) (use fine_open [OF assms] in simp_all)
  then show ?thesis
    unfolding dispose_gateway_def Let_def using assms fine_quiet [OF _ quiet_fields(7)] by (simp split: option.split)
qed


section \<open>Reachable gateways\<close>

text \<open>
  What can happen to a gateway: its methods are called, with any environment, a waiting subscription
  goes on, and the hub changes for reasons of its own (the store, the agents, the ledger and terminal
  observers append to its log). A receipt is sent to a session that has been greeted, as only those
  have commands on their way.
\<close>

inductive gateway_step :: "gateway \<Rightarrow> gateway \<Rightarrow> bool" where
  Step_hub: "evolves (gw_hub g) d \<Longrightarrow> gateway_step g (g\<lparr>gw_hub := d\<rparr>)"
| Step_router: "gateway_step g (g\<lparr>gw_router := r, gw_control := c\<rparr>)"
| Step_attach: "gateway_step g (fst (attach device capabilities g))"
| Step_receive: "i < length (gw_sessions g) \<Longrightarrow> gateway_step g (fst (receive env i raw g))"
| Step_command_done: "i < length (gw_sessions g) \<Longrightarrow> greeted g i \<Longrightarrow> gateway_step g (fst (command_done env i answer g))"
| Step_synchronize: "gateway_step g (run_synchronization env g)"
| Step_close: "i < length (gw_sessions g) \<Longrightarrow> gateway_step g (fst (close_session i g))"
| Step_dispose: "gateway_step g (dispose_gateway g)"
| Step_subscribe: "i < length (gw_sessions g) \<Longrightarrow> gateway_step g (fst (subscribe_begin i command g))"
| Step_resume: "gateway_step g (fst (subscribe_resume env n g))"
| Step_unsubscribe: "i < length (gw_sessions g) \<Longrightarrow> gateway_step g (unsubscribe_terminal i command g)"
| Step_stream_event: "gateway_step g (handle_stream_event env t event g)"
| Step_setup: "gateway_step g (setup_settled env t outcome g)"
| Step_dispose_stream: "gateway_step g (dispose_finished t failure g)"

inductive gateway_reach :: "gateway \<Rightarrow> bool" where
  Reach_start: "identifier_ok MAX_ID_LENGTH epoch \<Longrightarrow> log_inv (ds_log hub) \<Longrightarrow> log_named (ds_log hub) \<Longrightarrow> gateway_reach (new_gateway desktop epoch hub router control)"
| Reach_step: "gateway_reach g \<Longrightarrow> gateway_step g g' \<Longrightarrow> gateway_reach g'"

lemma step_fine:
  assumes "gateway_step g g'" "fine g"
  shows "fine g'"
  using assms
proof cases
  case (Step_hub d)
  then show ?thesis using fine_quiet [OF assms(2) quiet_hub] by simp
next
  case (Step_router c r)
  have "quiet g (g\<lparr>gw_router := r, gw_control := c\<rparr>)" by (rule quiet_trans [OF quiet_fields(8) quiet_fields(7)])
  then show ?thesis using fine_quiet [OF assms(2)] Step_router by simp
next
  case (Step_attach device capabilities)
  then show ?thesis using attach_fine [OF assms(2)] by (metis prod.collapse)
next
  case (Step_receive i env raw)
  then show ?thesis using receive_fine [OF assms(2)] by (metis prod.collapse)
next
  case (Step_command_done i env answer)
  then show ?thesis using command_done_fine [OF assms(2)] by (metis prod.collapse)
next
  case (Step_synchronize env)
  then show ?thesis using run_synchronization_fine [OF assms(2)] by simp
next
  case (Step_close i)
  then show ?thesis using close_fine [OF assms(2)] by (metis prod.collapse)
next
  case Step_dispose
  then show ?thesis using dispose_gateway_fine [OF assms(2)] by simp
next
  case (Step_subscribe i command)
  then show ?thesis using fine_quiet [OF assms(2) quiet_begin] by simp
next
  case (Step_resume env n)
  then show ?thesis using fine_quiet [OF assms(2) quiet_resume] by simp
next
  case (Step_unsubscribe i command)
  then show ?thesis using fine_quiet [OF assms(2) quiet_unsubscribe] by simp
next
  case (Step_stream_event env t event)
  then show ?thesis using fine_quiet [OF assms(2) quiet_handle] by simp
next
  case (Step_setup env t outcome)
  then show ?thesis using fine_quiet [OF assms(2) quiet_setup] by simp
next
  case (Step_dispose_stream t failure)
  then show ?thesis using fine_quiet [OF assms(2) quiet_dispose_finished] by simp
qed

lemma new_gateway_fine: "identifier_ok MAX_ID_LENGTH epoch \<Longrightarrow> log_inv (ds_log hub) \<Longrightarrow> log_named (ds_log hub) \<Longrightarrow> fine (new_gateway desktop epoch hub router control)"
  by (simp add: new_gateway_def fine_def)

lemma reach_fine: "gateway_reach g \<Longrightarrow> fine g"
  by (induction rule: gateway_reach.induct) (rule new_gateway_fine, assumption+, rule step_fine)


section \<open>What is due\<close>

definition event_frame :: "gateway \<Rightarrow> gateway_session \<Rightarrow> json \<Rightarrow> json" where
  "event_frame g s e = frame_of g s Event (event_body e) (field e ''id'') (field e ''seq'') (field e ''at'')"

definition frames_due :: "gateway \<Rightarrow> gateway_session \<Rightarrow> json list \<Rightarrow> json list" where
  "frames_due g s events = map (event_frame g s) (filter (accepts_event s) events)"

lemma frames_due_simps [simp]:
  "frames_due g s [] = []"
  "frames_due g s (e # es) = (if accepts_event s e then event_frame g s e # frames_due g s es else frames_due g s es)"
  by (simp_all add: frames_due_def)

lemma frames_due_update:
  assumes "gs_subscriptions s' = gs_subscriptions s" "gs_connectionId s' = gs_connectionId s" "gs_deviceId s' = gs_deviceId s"
    "gw_desktopId g' = gw_desktopId g" "gw_epoch g' = gw_epoch g"
  shows "frames_due g' s' es = frames_due g s es"
proof -
  have "accepts_event s' = accepts_event s" by (rule ext) (simp add: accepts_event_def assms)
  moreover have "event_frame g' s' = event_frame g s" by (rule ext) (simp add: event_frame_def frame_of_def assms)
  ultimately show ?thesis by (simp add: frames_due_def)
qed

lemma send_events_exact:
  assumes "i < length (gw_sessions g)" "send_events env i m events g = (g', r)"
  shows "(r = Inr True \<longrightarrow> gs_sent (gw_sessions g' ! i) = gs_sent (gw_sessions g ! i) @ frames_due g (gw_sessions g ! i) events
      \<and> gs_lastSentSeq (gw_sessions g' ! i) = m)
    \<and> (\<exists>k. gs_sent (gw_sessions g' ! i) = gs_sent (gw_sessions g ! i) @ take k (frames_due g (gw_sessions g ! i) events))"
  using assms
proof (induction events arbitrary: g)
  case Nil
  then show ?case by (auto simp: sbind_def on_gs_def)
next
  case (Cons e es)
  let ?s = "gw_sessions g ! i"
  show ?case
  proof (cases "accepts_event ?s e")
    case False
    then have "send_events env i m es g = (g', r)" using Cons.prems(2) by (simp add: sbind_def the_gs_def)
    then show ?thesis using Cons.IH [OF Cons.prems(1)] False by simp
  next
    case True
    obtain g1 r1 where s: "send env i Event (event_body e) (field e ''id'') (field e ''seq'') (field e ''at'') g = (g1, r1)"
      by fastforce
    show ?thesis
    proof (cases "r1 = Inr True")
      case False
      then have *: "g' = g1" "r \<noteq> Inr True"
        using Cons.prems(2) True s by (auto simp: sbind_def the_gs_def split: sum.splits if_splits)
      have "gs_sent (gw_sessions g1 ! i) = gs_sent ?s"
        using s
      proof (cases rule: send_cases)
        case (refused b)
        then have "core (gw_sessions g1 ! i) = closed_core ?s" using close_only [OF Cons.prems(1)] by blast
        then have "gs_sent (core (gw_sessions g1 ! i)) = gs_sent ?s" by (simp add: closed_core_def)
        then show ?thesis by simp
      qed (use False in simp_all)
      then show ?thesis using * by (auto intro: exI [of _ 0])
    next
      case r1: True
      obtain f where f: "f = event_frame g ?s e" "g1 = update_session i (\<lambda>s. s\<lparr>gs_sent := gs_sent s @ [f]\<rparr>) g"
        using s r1 by (cases rule: send_cases) (simp_all add: event_frame_def)
      let ?g2 = "update_session i (\<lambda>s. s\<lparr>gs_lastSentSeq := the_int (field e ''seq'')\<rparr>) g1"
      have "send_events env i m es ?g2 = (g', r)"
        using Cons.prems(2) True s r1 by (simp add: sbind_def the_gs_def on_gs_def)
      note ih = Cons.IH [OF _ this]
      have s2: "gw_sessions ?g2 ! i = ?s\<lparr>gs_sent := gs_sent ?s @ [f], gs_lastSentSeq := the_int (field e ''seq'')\<rparr>"
        using Cons.prems(1) by (simp add: f(2))
      have due: "frames_due ?g2 (gw_sessions ?g2 ! i) es = frames_due g ?s es"
        by (rule frames_due_update) (simp_all add: s2, simp_all add: f(2))
      obtain k where "gs_sent (gw_sessions g' ! i) = (gs_sent ?s @ [f]) @ take k (frames_due g ?s es)"
        using ih due s2 Cons.prems(1) f(2) by auto
      moreover have "r = Inr True \<longrightarrow> gs_sent (gw_sessions g' ! i) = (gs_sent ?s @ [f]) @ frames_due g ?s es
          \<and> gs_lastSentSeq (gw_sessions g' ! i) = m"
        using ih due s2 Cons.prems(1) f(2) by simp
      ultimately show ?thesis using True f(1) by (auto intro!: exI [of _ "Suc k"])
    qed
  qed
qed

end
