(* ===== verification/Gateway_Additions.thy ===== *)
theory Gateway_Additions
  imports Gateway_Merge
begin

text \<open>
  What the merges of the gateway keep of a projection and what they add to it: every session and item
  of the desktop stays, in order; what is added comes from a summary of the agent service or from a
  task of the ledger; and a summary or task is shown unless \<open>sanitizeProjection\<close> refused its entry,
  which is then reported, or the list of items is full.
\<close>

section \<open>What the merges keep\<close>

text \<open>
  All of an item of attention is compared, its texts without the space that \<open>safeString\<close> may leave at
  their end; of a session all but what the merge brings up to date and the optional texts.
\<close>

definition item_view ::
  "attention \<Rightarrow> jstr \<times> jstr \<times> jstr \<times> jstr \<times> int \<times> jstr \<times> jstr option \<times> jstr option" where
  "item_view a = (at_id a, at_projectId a, at_kind a, js_trim (at_title a), at_createdAt a, at_severity a,
     at_sessionId a, map_option js_trim (at_detail a))"

definition session_view :: "session \<Rightarrow> jstr \<times> jstr \<times> jstr \<times> bool \<times> bool \<times> int" where
  "session_view s = (ss_id s, ss_projectId s, ss_kind s, ss_needsYou s, ss_unread s, ss_updatedAt s)"

text \<open>
  \<open>enriches collate p q\<close>: \<open>q\<close> is well formed like every sanitized projection, belongs to the same state
  and lists the same projects, and no session or item of \<open>p\<close> has gone or moved.
\<close>

definition enriches :: "(jstr \<Rightarrow> jstr \<Rightarrow> int) \<Rightarrow> projection \<Rightarrow> projection \<Rightarrow> bool" where
  "enriches collate p q \<longleftrightarrow>
     projection_ok collate q \<and> pr_revision q = pr_revision p \<and> pr_generatedAt q = pr_generatedAt p
     \<and> pr_live q = pr_live p \<and> map pj_id (pr_projects q) = map pj_id (pr_projects p)
     \<and> (\<exists>ss. map session_view (pr_sessions q) = map session_view (pr_sessions p) @ ss)
     \<and> (\<exists>as. map item_view (pr_attention q) = map item_view (pr_attention p) @ as)"

lemma enriches_refl: "projection_ok collate p \<Longrightarrow> enriches collate p p"
  by (simp add: enriches_def)

lemma enriches_trans: "enriches collate p q \<Longrightarrow> enriches collate q r \<Longrightarrow> enriches collate p r"
  unfolding enriches_def by (elim conjE exE) simp

lemma enriches_ok: "enriches collate p q \<Longrightarrow> projection_ok collate q"
  by (simp add: enriches_def)

lemma enriches_projects: "enriches collate p q \<Longrightarrow> map pj_id (pr_projects q) = map pj_id (pr_projects p)"
  by (simp add: enriches_def)

lemma enriches_time: "enriches collate p q \<Longrightarrow> pr_generatedAt q = pr_generatedAt p"
  by (simp add: enriches_def)

lemma enriches_session:
  assumes "enriches collate p q" "s \<in> set (pr_sessions p)"
  shows "\<exists>t \<in> set (pr_sessions q). session_view t = session_view s"
proof -
  obtain ss where e: "map session_view (pr_sessions q) = map session_view (pr_sessions p) @ ss"
    using assms(1) unfolding enriches_def by blast
  have "session_view s \<in> set (map session_view (pr_sessions q))" unfolding e using assms(2) by simp
  then show ?thesis by auto
qed

lemma enriches_item:
  assumes "enriches collate p q" "a \<in> set (pr_attention p)"
  shows "\<exists>b \<in> set (pr_attention q). item_view b = item_view a"
proof -
  obtain as where e: "map item_view (pr_attention q) = map item_view (pr_attention p) @ as"
    using assms(1) unfolding enriches_def by blast
  have "item_view a \<in> set (map item_view (pr_attention q))" unfolding e using assms(2) by simp
  then show ?thesis by auto
qed

lemma set_field_field [simp]:
  "field (set_field k v x) k' = (if k' = k then Some v else field x k')"
  using js_inject by (auto simp: field_def set_field_def jset_def update_conv)

lemma patched_field [simp]:
  "field (patched p k items) k' = (if k' = k then Some (JArr items) else field (projection_json p) k')"
  using js_inject by (auto simp: field_def patched_def jset_def update_conv)

lemma projection_json_fields [simp]:
  "field (projection_json p) ''projectionKind'' = lit_value PROJECTION_KIND"
  "field (projection_json p) ''revision'' = int_value (pr_revision p)"
  "field (projection_json p) ''generatedAt'' = int_value (pr_generatedAt p)"
  "field (projection_json p) ''freshness'' = lit_value (if pr_live p then ''live'' else ''stale'')"
  "field (projection_json p) ''projects'' = Some (JArr (map (project_json (pr_sessions p)) (pr_projects p)))"
  "field (projection_json p) ''sessions'' = Some (JArr (map session_json (pr_sessions p)))"
  "field (projection_json p) ''attention'' = Some (JArr (map attention_json (pr_attention p)))"
  "field (projection_json p) ''permissions'' = Some (JArr (map permission_json (pr_permissions p)))"
  by (simp_all add: projection_json_def)

text \<open>What a sanitized patch is, array by array.\<close>

definition patch_array :: "projection \<Rightarrow> string \<Rightarrow> json list \<Rightarrow> string \<Rightarrow> json list \<Rightarrow> json list" where
  "patch_array p key items k current = (if key = k then items else current)"

lemma sanitized_arrays:
  assumes "sanitize_projection collate (Some raw) = Inr q"
  shows "field raw ''revision'' = Some (JInt (pr_revision q))" "field raw ''generatedAt'' = Some (JInt (pr_generatedAt q))"
    "pr_live q = (field raw ''freshness'' = lit_value ''live'')"
    "\<exists>xs. field raw ''projects'' = Some (JArr xs) \<and> emap sanitize_project xs = Inr (pr_projects q)"
    "\<exists>xs. field raw ''sessions'' = Some (JArr xs) \<and> emap (sanitize_session (map pj_id (pr_projects q))) xs = Inr (pr_sessions q)"
    "emap (sanitize_attention (map pj_id (pr_projects q)) (pr_sessions q))
       (take MAX_ATTENTION (array_or_empty (field raw ''attention''))) = Inr (pr_attention q)"
    "emap (sanitize_permission (map pj_id (pr_projects q)) (pr_sessions q))
       (take MAX_PERMISSIONS (array_or_empty (field raw ''permissions''))) = Inr (pr_permissions q)"
proof -
  have "is_obj raw"
  proof (rule ccontr)
    assume "\<not> is_obj raw"
    then have "plain (Some raw) = Inl Pj_invalid_projection" by (cases raw) (simp_all add: plain_def)
    then show False using assms by (simp add: sanitize_projection_def)
  qed
  then have plain: "plain (Some raw) = Inr raw" by (simp add: plain_Inr)
  obtain revision generated xs ys projects sessions items permissions where
    "safe_time (field raw ''revision'') = Inr revision" "safe_time (field raw ''generatedAt'') = Inr generated"
    "bounded_array MAX_PROJECTS (field raw ''projects'') = Inr xs" "bounded_array MAX_SESSIONS (field raw ''sessions'') = Inr ys"
    "emap sanitize_project xs = Inr projects" "emap (sanitize_session (map pj_id projects)) ys = Inr sessions"
    "emap (sanitize_attention (map pj_id projects) sessions)
       (take MAX_ATTENTION (array_or_empty (field raw ''attention''))) = Inr items"
    "emap (sanitize_permission (map pj_id projects) sessions)
       (take MAX_PERMISSIONS (array_or_empty (field raw ''permissions''))) = Inr permissions"
    "q = \<lparr>pr_revision = revision, pr_generatedAt = generated,
                  pr_live = (field raw ''freshness'' = lit_value ''live''),
                  pr_projects = projects, pr_sessions = sessions, pr_attention = items,
                  pr_permissions = permissions, pr_board = build_board collate sessions items\<rparr>"
    using assms unfolding sanitize_projection_def plain ebind_Inr Let_def
    by (elim ebind_InrE require_InrE) (rule that, (assumption | simp only: sum.inject)+)
  note parts = this
  from parts(1,2,9) show "field raw ''revision'' = Some (JInt (pr_revision q))" "field raw ''generatedAt'' = Some (JInt (pr_generatedAt q))"
    by (simp_all add: safe_time_Inr)
  from parts(9) show "pr_live q = (field raw ''freshness'' = lit_value ''live'')" by simp
  from parts(3,5,9) bounded_array_Inr show "\<exists>xs. field raw ''projects'' = Some (JArr xs) \<and> emap sanitize_project xs = Inr (pr_projects q)" by simp
  from parts(4,6,9) bounded_array_Inr
  show "\<exists>xs. field raw ''sessions'' = Some (JArr xs) \<and> emap (sanitize_session (map pj_id (pr_projects q))) xs = Inr (pr_sessions q)"
    by simp
  from parts(7,9) show "emap (sanitize_attention (map pj_id (pr_projects q)) (pr_sessions q))
       (take MAX_ATTENTION (array_or_empty (field raw ''attention''))) = Inr (pr_attention q)" by simp
  from parts(8,9) show "emap (sanitize_permission (map pj_id (pr_projects q)) (pr_sessions q))
       (take MAX_PERMISSIONS (array_or_empty (field raw ''permissions''))) = Inr (pr_permissions q)" by simp
qed

lemma patched_parts:
  assumes q: "sanitize_projection collate (Some (patched p key items)) = Inr q"
    and key: "key \<in> {''sessions'', ''attention'', ''permissions''}"
  shows "pr_revision q = pr_revision p" "pr_generatedAt q = pr_generatedAt p" "pr_live q = pr_live p"
    "list_all2 (\<lambda>x y. sanitize_project x = Inr y) (map (project_json (pr_sessions p)) (pr_projects p)) (pr_projects q)"
    "list_all2 (\<lambda>x y. sanitize_session (map pj_id (pr_projects q)) x = Inr y)
       (patch_array p key items ''sessions'' (map session_json (pr_sessions p))) (pr_sessions q)"
    "list_all2 (\<lambda>x y. sanitize_attention (map pj_id (pr_projects q)) (pr_sessions q) x = Inr y)
       (take MAX_ATTENTION (patch_array p key items ''attention'' (map attention_json (pr_attention p)))) (pr_attention q)"
    "list_all2 (\<lambda>x y. sanitize_permission (map pj_id (pr_projects q)) (pr_sessions q) x = Inr y)
       (take MAX_PERMISSIONS (patch_array p key items ''permissions'' (map permission_json (pr_permissions p)))) (pr_permissions q)"
proof -
  note parts = sanitized_arrays [OF q]
  have key': "key \<noteq> ''revision''" "key \<noteq> ''generatedAt''" "key \<noteq> ''freshness''" "key \<noteq> ''projects''" using key by auto
  show "pr_revision q = pr_revision p" "pr_generatedAt q = pr_generatedAt p"
    using parts(1,2) key' by (simp_all add: int_value_def)
  show "pr_live q = pr_live p" using parts(3) key' by (simp add: lit_value_def)
  show "list_all2 (\<lambda>x y. sanitize_project x = Inr y) (map (project_json (pr_sessions p)) (pr_projects p)) (pr_projects q)"
    using parts(4) key' by (simp add: emap_eq_Inr)
  show "list_all2 (\<lambda>x y. sanitize_session (map pj_id (pr_projects q)) x = Inr y)
       (patch_array p key items ''sessions'' (map session_json (pr_sessions p))) (pr_sessions q)"
    using parts(5) by (cases "key = ''sessions''") (simp_all add: emap_eq_Inr patch_array_def)
  show "list_all2 (\<lambda>x y. sanitize_attention (map pj_id (pr_projects q)) (pr_sessions q) x = Inr y)
       (take MAX_ATTENTION (patch_array p key items ''attention'' (map attention_json (pr_attention p)))) (pr_attention q)"
    using parts(6) by (cases "key = ''attention''") (simp_all add: emap_eq_Inr patch_array_def array_or_empty_def)
  show "list_all2 (\<lambda>x y. sanitize_permission (map pj_id (pr_projects q)) (pr_sessions q) x = Inr y)
       (take MAX_PERMISSIONS (patch_array p key items ''permissions'' (map permission_json (pr_permissions p)))) (pr_permissions q)"
    using parts(7) by (cases "key = ''permissions''") (simp_all add: emap_eq_Inr patch_array_def array_or_empty_def)
qed

lemma text_again: "text_ok m t \<Longrightarrow> clean_text t = js_trim t"
  by (simp add: clean_text_def text_ok_def list_all_iff filter_id_conv [THEN iffD2])

lemma text_ok_trim: "text_ok m t \<Longrightarrow> js_trim t \<noteq> [] \<and> length (js_trim t) \<le> m"
  using length_js_trim [of t] js_trim_not_Nil [of t] by (simp add: text_ok_def)

lemma required_string_again: "text_ok m t \<Longrightarrow> required_string m (str_value t) = Inr (js_trim t)"
  using text_ok_trim [of m t] by (simp add: required_string_def str_value_def text_again)

lemma safe_string_again:
  "pred_option (text_ok m) d \<Longrightarrow> safe_string m (map_option JStr d) = Inr (map_option js_trim d)"
proof (cases d)
  case (Some t)
  moreover assume "pred_option (text_ok m) d"
  ultimately show ?thesis
    using text_ok_trim [of m t] by (simp add: safe_string_def nullish_def Let_def text_again)
qed (simp add: safe_string_def nullish_def)

lemma sanitize_attention_Inr:
  assumes "sanitize_attention ps ss x = Inr a"
  shows "field x ''id'' = Some (JStr (at_id a))" "field x ''projectId'' = Some (JStr (at_projectId a))"
    "field x ''kind'' = Some (JStr (at_kind a))" "required_string MAX_DISPLAY (field x ''title'') = Inr (at_title a)"
    "field x ''createdAt'' = Some (JInt (at_createdAt a))"
    "at_severity a = member_or ''info'' SEVERITIES (field x ''severity'')"
    "unless_null (field x ''sessionId'') (session_ref ss (at_projectId a)) = Inr (at_sessionId a)"
    "safe_string MAX_DISPLAY (field x ''detail'') = Inr (at_detail a)"
proof -
  obtain i p kind title created session detail where "field x ''id'' = Some (JStr i)" "field x ''projectId'' = Some (JStr p)"
    "field x ''kind'' = Some (JStr kind)" "required_string MAX_DISPLAY (field x ''title'') = Inr title"
    "field x ''createdAt'' = Some (JInt created)" "unless_null (field x ''sessionId'') (session_ref ss p) = Inr session"
    "safe_string MAX_DISPLAY (field x ''detail'') = Inr detail"
    "a = \<lparr>at_id = i, at_projectId = p, at_kind = kind, at_title = title, at_createdAt = created,
              at_severity = member_or ''info'' SEVERITIES (field x ''severity''),
              at_sessionId = session, at_detail = detail\<rparr>"
    using assms unfolding sanitize_attention_def
    by (elim ebind_InrE require_InrE) (simp add: plain_Inr safe_id_Inr safe_time_Inr required_member_Inr)
  then show "field x ''id'' = Some (JStr (at_id a))" "field x ''projectId'' = Some (JStr (at_projectId a))"
    "field x ''kind'' = Some (JStr (at_kind a))" "required_string MAX_DISPLAY (field x ''title'') = Inr (at_title a)"
    "field x ''createdAt'' = Some (JInt (at_createdAt a))"
    "at_severity a = member_or ''info'' SEVERITIES (field x ''severity'')"
    "unless_null (field x ''sessionId'') (session_ref ss (at_projectId a)) = Inr (at_sessionId a)"
    "safe_string MAX_DISPLAY (field x ''detail'') = Inr (at_detail a)"
    by simp_all
qed

lemma attention_json_fields [simp]:
  "field (attention_json a) ''id'' = str_value (at_id a)" "field (attention_json a) ''projectId'' = str_value (at_projectId a)"
  "field (attention_json a) ''kind'' = str_value (at_kind a)" "field (attention_json a) ''title'' = str_value (at_title a)"
  "field (attention_json a) ''createdAt'' = int_value (at_createdAt a)"
  "field (attention_json a) ''severity'' = str_value (at_severity a)"
  "field (attention_json a) ''sessionId'' = map_option JStr (at_sessionId a)"
  "field (attention_json a) ''detail'' = map_option JStr (at_detail a)"
  by (simp_all add: attention_json_def)

lemma session_ref_again: "unless_null (map_option JStr v) (session_ref ss p) = Inr r \<Longrightarrow> r = v"
  by (auto simp: unless_null_Inr session_ref_def ebind_eq_Inr require_eq_Inr safe_id_Inr)

lemma item_again:
  assumes "attention_ok ps ss a" "sanitize_attention ps' ss' (attention_json a) = Inr b"
  shows "item_view b = item_view a"
proof -
  note parts = sanitize_attention_Inr [OF assms(2), unfolded attention_json_fields]
  have t: "text_ok MAX_DISPLAY (at_title a)" "pred_option (text_ok MAX_DISPLAY) (at_detail a)" "one_of SEVERITIES (at_severity a)"
    using assms(1) by (simp_all add: attention_ok_def)
  have "at_title b = js_trim (at_title a)" "at_detail b = map_option js_trim (at_detail a)"
    using parts(4) required_string_again [OF t(1)] parts(8) safe_string_again [OF t(2)] by simp_all
  then show ?thesis
    using parts(1-3,5) parts(6) [unfolded member_or_stable [OF t(3)]] session_ref_again [OF parts(7)]
    by (simp add: item_view_def str_value_def int_value_def option.map_comp comp_def)
qed

definition json_view :: "json \<Rightarrow> json option \<times> json option \<times> json option \<times> bool \<times> bool \<times> json option" where
  "json_view x = (field x ''id'', field x ''projectId'', field x ''kind'', safe_bool (field x ''needsYou''),
     safe_bool (field x ''unread''), field x ''updatedAt'')"

definition own_view :: "session \<Rightarrow> json option \<times> json option \<times> json option \<times> bool \<times> bool \<times> json option" where
  "own_view s = (Some (JStr (ss_id s)), Some (JStr (ss_projectId s)), Some (JStr (ss_kind s)), ss_needsYou s,
     ss_unread s, Some (JInt (ss_updatedAt s)))"

lemma json_view_session [simp]: "json_view (session_json s) = own_view s"
  by (simp add: json_view_def own_view_def session_json_def str_value_def int_value_def bool_value_def safe_bool_def)

lemma own_view_iff: "own_view s = own_view t \<longleftrightarrow> session_view s = session_view t"
  by (auto simp: own_view_def session_view_def)

lemma sanitized_session_view:
  assumes "sanitize_session ps x = Inr t"
  shows "own_view t = json_view x"
  using assms unfolding sanitize_session_def Let_def
  by (elim ebind_InrE require_InrE)
    (auto simp: plain_Inr safe_id_Inr required_member_Inr safe_time_Inr own_view_def json_view_def)

lemma sanitized_project_id:
  assumes "sanitize_project x = Inr p"
  shows "field x ''id'' = Some (JStr (pj_id p))"
  using assms unfolding sanitize_project_def
  by (elim ebind_InrE require_InrE) (auto simp: plain_Inr safe_id_Inr)

lemma project_json_id [simp]: "field (project_json ss p) ''id'' = Some (JStr (pj_id p))"
  by (simp add: project_json_def str_value_def)

lemma list_all2_same_key:
  assumes "list_all2 R xs ys" "\<And>x y. R x y \<Longrightarrow> f x = g y"
  shows "map f xs = map g ys"
  using assms by (induction rule: list_all2_induct) auto


lemma list_all2_take_split:
  assumes "list_all2 R (take n (xs @ zs)) ys" "length xs \<le> n"
  shows "list_all2 R xs (take (length xs) ys)" "list_all2 R (take (n - length xs) zs) (drop (length xs) ys)"
  using assms by (auto simp: list_all2_append1 take_all)

section \<open>An entry that was accepted\<close>

abbreviation session_array :: "projection \<Rightarrow> string \<Rightarrow> json list \<Rightarrow> json list" where
  "session_array p key items \<equiv> patch_array p key items ''sessions'' (map session_json (pr_sessions p))"

abbreviation item_array :: "projection \<Rightarrow> string \<Rightarrow> json list \<Rightarrow> json list" where
  "item_array p key items \<equiv> patch_array p key items ''attention'' (map attention_json (pr_attention p))"

lemma accepted_projects:
  assumes "sanitize_projection collate (Some (patched p key items)) = Inr q"
    "key \<in> {''sessions'', ''attention'', ''permissions''}"
  shows "map pj_id (pr_projects q) = map pj_id (pr_projects p)"
  using list_all2_same_key [OF patched_parts(4) [OF assms], of "\<lambda>x. the_str (field x ''id'')" pj_id] sanitized_project_id
  by (simp add: comp_def)

lemma accepted_sessions:
  assumes "sanitize_projection collate (Some (patched p key items)) = Inr q"
    "key \<in> {''sessions'', ''attention'', ''permissions''}"
  shows "map own_view (pr_sessions q) = map json_view (session_array p key items)"
  by (rule list_all2_same_key [OF patched_parts(5) [OF assms], symmetric]) (simp add: sanitized_session_view)

lemma accepted_items:
  assumes ok: "projection_ok collate p"
    and q: "sanitize_projection collate (Some (patched p key items)) = Inr q"
    "key \<in> {''sessions'', ''attention'', ''permissions''}"
    and zs: "item_array p key items = map attention_json (pr_attention p) @ zs"
  shows "map item_view (take (length (pr_attention p)) (pr_attention q)) = map item_view (pr_attention p)"
    "list_all2 (\<lambda>x y. sanitize_attention (map pj_id (pr_projects q)) (pr_sessions q) x = Inr y)
       (take (MAX_ATTENTION - length (pr_attention p)) zs) (drop (length (pr_attention p)) (pr_attention q))"
proof -
  have n: "length (map attention_json (pr_attention p)) \<le> MAX_ATTENTION"
    and each: "list_all (attention_ok (map pj_id (pr_projects p)) (pr_sessions p)) (pr_attention p)"
    using ok by (simp_all add: projection_ok_def Let_def)
  note parts = list_all2_take_split [OF patched_parts(6) [OF q, unfolded zs] n]
  show "list_all2 (\<lambda>x y. sanitize_attention (map pj_id (pr_projects q)) (pr_sessions q) x = Inr y)
       (take (MAX_ATTENTION - length (pr_attention p)) zs) (drop (length (pr_attention p)) (pr_attention q))"
    using parts(2) by simp
  have l: "list_all2 (\<lambda>a y. sanitize_attention (map pj_id (pr_projects q)) (pr_sessions q) (attention_json a) = Inr y)
      (pr_attention p) (take (length (pr_attention p)) (pr_attention q))"
    using parts(1) by (simp add: list_all2_map1)
  have "list_all2 (\<lambda>a b. item_view a = item_view b) (pr_attention p) (take (length (pr_attention p)) (pr_attention q))"
    unfolding list_all2_conv_all_nth
  proof (intro conjI allI impI)
    show "length (pr_attention p) = length (take (length (pr_attention p)) (pr_attention q))" using l by (rule list_all2_lengthD)
    fix i assume i: "i < length (pr_attention p)"
    have "attention_ok (map pj_id (pr_projects p)) (pr_sessions p) (pr_attention p ! i)"
      using each i by (simp add: list_all_length)
    from item_again [OF this list_all2_nthD [OF l i]]
    show "item_view (pr_attention p ! i) = item_view (take (length (pr_attention p)) (pr_attention q) ! i)" by simp
  qed
  then show "map item_view (take (length (pr_attention p)) (pr_attention q)) = map item_view (pr_attention p)"
    by (simp add: list_all2_same_key [where f = item_view and g = item_view])
qed

lemma accepted_enriches:
  assumes ok: "projection_ok collate p"
    and q: "sanitize_projection collate (Some (patched p key items)) = Inr q"
    "key \<in> {''sessions'', ''attention'', ''permissions''}"
    and s: "map json_view (session_array p key items) = map own_view (pr_sessions p) @ rest"
    and zs: "item_array p key items = map attention_json (pr_attention p) @ zs"
  shows "enriches collate p q"
proof -
  have "map item_view (pr_attention q) = map item_view (take (length (pr_attention p)) (pr_attention q))
      @ map item_view (drop (length (pr_attention p)) (pr_attention q))"
    unfolding map_append [symmetric] append_take_drop_id ..
  then have items: "\<exists>as. map item_view (pr_attention q) = map item_view (pr_attention p) @ as"
    unfolding accepted_items(1) [OF ok q zs] by blast
  have o: "map own_view (pr_sessions q) = map own_view (pr_sessions p) @ rest"
    using accepted_sessions [OF q] s by simp
  then have "length (pr_sessions p) \<le> length (pr_sessions q)" by (metis length_append length_map le_add1)
  moreover have "map own_view (take (length (pr_sessions p)) (pr_sessions q)) = map own_view (pr_sessions p)"
    using arg_cong [OF o, of "take (length (pr_sessions p))"] by (simp add: take_map)
  ultimately have "map session_view (take (length (pr_sessions p)) (pr_sessions q)) = map session_view (pr_sessions p)"
    by (simp add: list_eq_iff_nth_eq own_view_iff)
  then have "map session_view (pr_sessions q) = map session_view (pr_sessions p)
      @ map session_view (drop (length (pr_sessions p)) (pr_sessions q))"
    by (metis append_take_drop_id map_append)
  then show ?thesis
    using patched_parts(1-3) [OF q] accepted_projects [OF q] items sanitize_projection_ok [OF q(1)]
    unfolding enriches_def by blast
qed

section \<open>What they add\<close>

text \<open>The summaries of a project and the tasks the merges look at.\<close>

definition known_summaries :: "acp_service option \<Rightarrow> jstr \<Rightarrow> json list" where
  "known_summaries service project =
     (case service of
        None \<Rightarrow> []
      | Some acp \<Rightarrow> (case acp project of Inl code \<Rightarrow> [] | Inr (summaries, events) \<Rightarrow> array_or_empty (Some summaries)))"

definition known_tasks :: "ledger option \<Rightarrow> json list" where
  "known_tasks adapter =
     (case adapter of Some (Inr tasks) \<Rightarrow> take 200 (array_or_empty (Some tasks)) | _ \<Rightarrow> [])"

definition task_kind :: "json \<Rightarrow> jstr option" where
  "task_kind task =
     (if field task ''status'' = lit_value ''blocked'' then Some (js ''blocked'')
      else if field task ''status'' = lit_value ''review'' then Some (js ''review'') else None)"

definition task_title :: "json \<Rightarrow> jstr" where
  "task_title task = normalized_text (field task ''title'')
     (if field task ''status'' = lit_value ''review'' then js ''Review agent result'' else js ''Agent task blocked'') 240"

definition task_detail :: "json \<Rightarrow> jstr" where
  "task_detail task = normalized_text (json_or (field task ''result'') (field task ''detail'')) [] 240"

text \<open>The item a task becomes, in a projection like \<open>p\<close>.\<close>

definition task_view ::
  "projection \<Rightarrow> json \<Rightarrow> jstr \<Rightarrow> jstr \<Rightarrow> jstr \<times> jstr \<times> jstr \<times> jstr \<times> int \<times> jstr \<times> jstr option \<times> jstr option" where
  "task_view p task project i =
     (js ''attention-'' @ i, project, the (task_kind task), js_trim (task_title task), ledger_time task p,
      js (if task_kind task = Some (js ''blocked'') then ''warning'' else ''info''), None,
      if task_detail task = [] then None else Some (js_trim (task_detail task)))"

text \<open>An addition was refused, and the refusal reported.\<close>

definition refused ::
  "(jstr \<Rightarrow> jstr \<Rightarrow> int) \<Rightarrow> projection \<Rightarrow> diagnostic list \<Rightarrow> string \<Rightarrow> (projection \<Rightarrow> json list) \<Rightarrow> string \<Rightarrow> jstr \<Rightarrow> jstr \<Rightarrow> bool" where
  "refused collate p ds key current source entry i \<longleftrightarrow>
     (\<exists>p' x e. enriches collate p p' \<and> field x ''id'' = Some (JStr i)
        \<and> sanitize_projection collate (Some (patched p' key (current p' @ [x]))) = Inl e \<and> rejected source entry e \<in> set ds)"

definition session_known :: "acp_service option \<Rightarrow> session \<Rightarrow> bool" where
  "session_known service s \<longleftrightarrow>
     ss_kind s = js ''agent'' \<and> (\<exists>summary \<in> set (known_summaries service (ss_projectId s)).
       field summary ''projectId'' = str_value (ss_projectId s) \<and> ss_id s \<in> set (candidate_ids summary))"

definition item_known :: "(jstr \<Rightarrow> jstr \<Rightarrow> int) \<Rightarrow> ledger option \<Rightarrow> projection \<Rightarrow> attention \<Rightarrow> bool" where
  "item_known collate adapter p a \<longleftrightarrow>
     (\<exists>task \<in> set (known_tasks adapter). \<exists>project i p'. task_kind task \<noteq> None \<and> valid_id 200 (field task ''id'') = Some i
        \<and> enriches collate p p' \<and> ledger_project_id task (pr_projects p') = Some project
        \<and> item_view a = task_view p task project i)"

definition summary_shown ::
  "(jstr \<Rightarrow> jstr \<Rightarrow> int) \<Rightarrow> projection \<Rightarrow> projection \<Rightarrow> diagnostic list \<Rightarrow> json \<Rightarrow> bool" where
  "summary_shown collate p q ds summary \<longleftrightarrow>
     (\<exists>s \<in> set (pr_sessions q). ss_id s \<in> set (candidate_ids summary))
     \<or> (\<exists>i \<in> set (candidate_ids summary).
          refused collate p ds ''sessions'' (\<lambda>p'. map session_json (pr_sessions p')) ''acp.session'' (hd (candidate_ids summary)) i)"

definition task_shown ::
  "(jstr \<Rightarrow> jstr \<Rightarrow> int) \<Rightarrow> projection \<Rightarrow> projection \<Rightarrow> diagnostic list \<Rightarrow> json \<Rightarrow> jstr \<Rightarrow> jstr \<Rightarrow> bool" where
  "task_shown collate p q ds task project i \<longleftrightarrow>
     (\<exists>a \<in> set (pr_attention q). at_id a = js ''attention-'' @ i
        \<or> (at_projectId a, Some (at_kind a), js_trim (at_title a), at_createdAt a)
           = (project, task_kind task, js_trim (task_title task), ledger_time task p))
     \<or> length (pr_attention q) = MAX_ATTENTION
     \<or> refused collate p ds ''attention'' (\<lambda>p'. map attention_json (pr_attention p')) ''ledger.task'' i (js ''attention-'' @ i)"

definition additions_ok ::
  "(jstr \<Rightarrow> jstr \<Rightarrow> int) \<Rightarrow> acp_service option \<Rightarrow> ledger option \<Rightarrow> projection \<Rightarrow> projection \<Rightarrow> bool" where
  "additions_ok collate service adapter p q \<longleftrightarrow>
     enriches collate p q
     \<and> (\<forall>s \<in> set (pr_sessions q). (\<exists>t \<in> set (pr_sessions p). session_view s = session_view t) \<or> session_known service s)
     \<and> (\<forall>a \<in> set (pr_attention q). (\<exists>b \<in> set (pr_attention p). item_view a = item_view b) \<or> item_known collate adapter p a)"

lemma updated_session_view [simp]: "json_view (updated_session summary x) = json_view x"
  by (simp add: updated_session_def json_view_def Let_def)

lemma find_mem: "find p xs = Some x \<Longrightarrow> x \<in> set xs \<and> p x"
  by (auto simp: find_Some_iff)

lemma json_view_fields:
  "json_view x = own_view t \<Longrightarrow> field x ''id'' = Some (JStr (ss_id t)) \<and> field x ''projectId'' = Some (JStr (ss_projectId t))
    \<and> field x ''kind'' = Some (JStr (ss_kind t))"
  by (simp add: json_view_def own_view_def)

text \<open>One step that offers an entry keeps what is there and adds at most what is new.\<close>

lemma offer:
  assumes inv: "additions_ok collate service adapter p (fst m)" and key: "key \<in> {''sessions'', ''attention'', ''permissions''}"
    and sa: "map json_view (session_array (fst m) key items) = map own_view (pr_sessions (fst m)) @ map json_view new"
    and ia: "item_array (fst m) key items = map attention_json (pr_attention (fst m)) @ zs"
    and n: "\<And>x t. x \<in> set new \<Longrightarrow> json_view x = own_view t \<Longrightarrow> session_known service t"
    and z: "\<And>x ps ss a. x \<in> set zs \<Longrightarrow> sanitize_attention ps ss x = Inr a \<Longrightarrow> item_known collate adapter p a"
  shows "additions_ok collate service adapter p (fst (try_entry collate key items source entry m))"
proof (cases "sanitize_projection collate (Some (patched (fst m) key items))")
  case (Inr q)
  have ok: "projection_ok collate (fst m)" using inv by (simp add: additions_ok_def enriches_def)
  have sessions: "\<And>t. t \<in> set (pr_sessions (fst m)) \<Longrightarrow>
      (\<exists>t' \<in> set (pr_sessions p). session_view t = session_view t') \<or> session_known service t"
    and known: "\<And>b. b \<in> set (pr_attention (fst m)) \<Longrightarrow>
      (\<exists>b' \<in> set (pr_attention p). item_view b = item_view b') \<or> item_known collate adapter p b"
    using inv unfolding additions_ok_def by blast+
  have o: "map own_view (pr_sessions q) = map own_view (pr_sessions (fst m)) @ map json_view new"
    using accepted_sessions [OF Inr key] sa by simp
  have "(\<exists>t \<in> set (pr_sessions p). session_view u = session_view t) \<or> session_known service u" if u: "u \<in> set (pr_sessions q)" for u
  proof -
    have "own_view u \<in> set (map own_view (pr_sessions q))" using u by simp
    then consider t where "t \<in> set (pr_sessions (fst m))" "session_view u = session_view t"
      | x where "x \<in> set new" "own_view u = json_view x" unfolding o by (auto simp: own_view_iff)
    then show ?thesis
    proof cases
      case (1 t)
      then have "session_known service u = session_known service t" by (simp add: session_known_def session_view_def)
      then show ?thesis using sessions [OF 1(1)] 1(2) by simp
    next
      case (2 x)
      then show ?thesis using n [of x u] by simp
    qed
  qed
  moreover have "(\<exists>b \<in> set (pr_attention p). item_view a = item_view b) \<or> item_known collate adapter p a"
    if a: "a \<in> set (pr_attention q)" for a
  proof -
    let ?n = "length (pr_attention (fst m))"
    note items = accepted_items [OF ok Inr key ia]
    have "a \<in> set (take ?n (pr_attention q)) \<or> a \<in> set (drop ?n (pr_attention q))"
      using a by (metis Un_iff append_take_drop_id set_append)
    then show ?thesis
    proof
      assume "a \<in> set (take ?n (pr_attention q))"
      then have "item_view a \<in> set (map item_view (take ?n (pr_attention q)))" by simp
      then obtain b where b: "b \<in> set (pr_attention (fst m))" "item_view a = item_view b" unfolding items(1) by auto
      then have "item_known collate adapter p a = item_known collate adapter p b" by (simp add: item_known_def)
      then show ?thesis using known [OF b(1)] b(2) by simp
    next
      assume "a \<in> set (drop ?n (pr_attention q))"
      then obtain x where "x \<in> set zs" "sanitize_attention (map pj_id (pr_projects q)) (pr_sessions q) x = Inr a"
        using items(2) by (metis list_all2_image in_set_takeD)
      then show ?thesis using z by blast
    qed
  qed
  moreover have "enriches collate p q"
    using inv accepted_enriches [OF ok Inr key sa ia] enriches_trans unfolding additions_ok_def by blast
  ultimately show ?thesis by (simp add: additions_ok_def try_entry_def Inr)
qed (use inv in \<open>simp add: try_entry_def\<close>)

section \<open>Each step adds only what is known\<close>

lemma valid_id_Some: "valid_id m v = Some s \<longleftrightarrow> v = Some (JStr s) \<and> identifier_ok m s"
  by (auto simp: valid_id_def split: sum.splits)

lemma additions_session_ids: "additions_ok collate service adapter p q \<Longrightarrow> distinct (map ss_id (pr_sessions q))"
  by (simp add: additions_ok_def enriches_def projection_ok_def Let_def)

lemma known_session_in:
  assumes "known_session p project candidates = Some s"
  shows "s \<in> set (pr_sessions p) \<and> ss_id s \<in> set candidates"
proof -
  have "s \<in> set (List.map_filter (find_session p) candidates)"
    using assms by (auto simp: known_session_def dest: find_mem)
  then obtain c where "c \<in> set candidates" "find_session p c = Some s" by (auto simp: List.map_filter_def)
  then show ?thesis using find_mem [of "\<lambda>s. ss_id s = c" "pr_sessions p" s] by (simp add: find_session_def)
qed

lemma updated_views:
  assumes "distinct (map ss_id ss)" "s \<in> set ss"
  shows "map json_view (map (\<lambda>t. if ss_id t = ss_id s then updated_session summary (session_json s) else session_json t) ss)
    = map own_view ss"
proof -
  have "t = s" if "t \<in> set ss" "ss_id t = ss_id s" for t using assms that by (metis distinct_map inj_onD)
  then show ?thesis by auto
qed

lemma new_session_view:
  assumes "json_view (updated_session summary (new_agent_session generated project i summary)) = own_view t"
  shows "ss_id t = i \<and> ss_projectId t = project \<and> ss_kind t = js ''agent''"
  using json_view_fields [of "new_agent_session generated project i summary" t] assms
  by (simp add: new_agent_session_def str_value_def lit_value_def)

lemma other_array [simp]:
  "key \<noteq> ''sessions'' \<Longrightarrow> map json_view (session_array p key items) = map own_view (pr_sessions p)"
  "key \<noteq> ''attention'' \<Longrightarrow> item_array p key items = map attention_json (pr_attention p)"
  by (simp_all add: patch_array_def comp_def)

lemma offer_permissions:
  assumes "additions_ok collate service adapter p (fst m)"
  shows "additions_ok collate service adapter p (fst (try_entry collate ''permissions'' items source entry m))"
  by (rule offer [OF assms, where new = "[]" and zs = "[]"]) simp_all

lemma offer_sessions:
  assumes "additions_ok collate service adapter p (fst m)"
    and "map json_view items = map own_view (pr_sessions (fst m)) @ map json_view new"
    and "\<And>x t. x \<in> set new \<Longrightarrow> json_view x = own_view t \<Longrightarrow> session_known service t"
  shows "additions_ok collate service adapter p (fst (try_entry collate ''sessions'' items source entry m))"
  by (rule offer [OF assms(1), where new = new and zs = "[]"]) (use assms(2,3) in \<open>simp_all add: patch_array_def\<close>)

lemma summary_adds:
  assumes inv: "additions_ok collate service adapter p (fst m)" and s: "summary \<in> set (known_summaries service project)"
  shows "additions_ok collate service adapter p (fst (merge_summary collate generated project summary m))"
proof (cases "field summary ''projectId'' = str_value project")
  case True
  let ?cs = "candidate_ids summary"
  show ?thesis
  proof (cases "known_session (fst m) project ?cs")
    case (Some u)
    then have "u \<in> set (pr_sessions (fst m))" by (simp add: known_session_in)
    from updated_views [OF additions_session_ids [OF inv] this]
    show ?thesis using True Some
      by (auto simp: merge_summary_def Let_def comp_def intro!: offer_sessions [OF inv, where new = "[]"])
  next
    case None
    show ?thesis
    proof (cases "find (\<lambda>c. find_session (fst m) c = None) ?cs")
      case None': (Some i)
      let ?x = "updated_session summary (new_agent_session generated project i summary)"
      have "i \<in> set ?cs" using find_mem [OF None'] by simp
      then have "session_known service t" if "json_view ?x = own_view t" for t
        using new_session_view [OF that] True s by (auto simp: session_known_def)
      then show ?thesis using True None None'
        by (auto simp: merge_summary_def Let_def comp_def intro!: offer_sessions [OF inv, where new = "[?x]"])
    qed (use True None inv in \<open>simp add: merge_summary_def Let_def\<close>)
  qed
qed (use inv in \<open>simp add: merge_summary_def\<close>)

lemma permission_adds:
  assumes "additions_ok collate service adapter p (fst m)"
  shows "additions_ok collate service adapter p (fst (merge_permission collate now generated project event m))"
  using assms by (auto simp: merge_permission_def Let_def split: sum.split intro!: offer_permissions)

lemma project_adds:
  assumes "additions_ok collate service adapter p (fst m)" "service = Some acp"
  shows "additions_ok collate service adapter p (fst (merge_project collate now generated acp project m))"
proof (cases "acp project")
  case (Inr r)
  obtain summaries events where r: "r = (summaries, events)" by (rule prod.exhaust)
  let ?I = "\<lambda>m. additions_ok collate service adapter p (fst m)"
  have 1: "?I (without_renderer_permissions collate project m)"
    unfolding without_renderer_permissions_def by (rule offer_permissions [OF assms(1)])
  have "?I (fold (merge_summary collate generated project) (array_or_empty (Some summaries)) (without_renderer_permissions collate project m))"
    by (rule fold_invariant [where Q = "\<lambda>x. x \<in> set (known_summaries service project)" and P = ?I])
      (use 1 summary_adds in \<open>simp_all add: known_summaries_def assms(2) Inr r\<close>)
  then have "?I (fold (merge_permission collate now generated project) (array_or_empty (Some events))
      (fold (merge_summary collate generated project) (array_or_empty (Some summaries)) (without_renderer_permissions collate project m)))"
    by (rule fold_invariant [where Q = "\<lambda>x. True" and P = ?I, rotated]) (simp_all add: permission_adds)
  then show ?thesis by (simp add: merge_project_def Inr r)
qed (use assms in \<open>simp add: merge_project_def\<close>)

lemma normalized_ok: "0 < m \<Longrightarrow> text_ok m fallback \<Longrightarrow> text_ok m (normalized_text v fallback m)"
  by (auto simp: normalized_text_def Let_def clean_text_ok split: option.split)

lemma normalized_ok_or_empty: "0 < m \<Longrightarrow> normalized_text v [] m = [] \<or> text_ok m (normalized_text v [] m)"
  by (auto simp: normalized_text_def Let_def clean_text_ok split: option.split)

lemma task_texts:
  "text_ok MAX_DISPLAY (task_title task)" "task_detail task = [] \<or> text_ok MAX_DISPLAY (task_detail task)"
proof -
  have f: "text_ok 240 (if b then js ''Review agent result'' else js ''Agent task blocked'')" for b
    by (simp add: text_ok_def js_def is_control_unit_def is_space_unit_def)
  show "text_ok MAX_DISPLAY (task_title task)"
    unfolding task_title_def MAX_DISPLAY_def by (rule normalized_ok [OF _ f]) simp
  show "task_detail task = [] \<or> text_ok MAX_DISPLAY (task_detail task)"
    unfolding task_detail_def MAX_DISPLAY_def by (rule normalized_ok_or_empty) simp
qed

lemma ledger_item_fields [simp]:
  "field (ledger_item i project blocked title at detail) ''id'' = str_value i"
  "field (ledger_item i project blocked title at detail) ''projectId'' = str_value project"
  "field (ledger_item i project blocked title at detail) ''kind'' = lit_value (if blocked then ''blocked'' else ''review'')"
  "field (ledger_item i project blocked title at detail) ''title'' = str_value title"
  "field (ledger_item i project blocked title at detail) ''createdAt'' = int_value at"
  "field (ledger_item i project blocked title at detail) ''severity'' = lit_value (if blocked then ''warning'' else ''info'')"
  "field (ledger_item i project blocked title at detail) ''sessionId'' = None"
  "field (ledger_item i project blocked title at detail) ''detail'' = map_option JStr (if detail = [] then None else Some detail)"
  by (simp_all add: ledger_item_def str_value_def)

lemma ledger_item_view:
  assumes "sanitize_attention ps ss (ledger_item i project blocked title at detail) = Inr a"
    and "text_ok MAX_DISPLAY title" "detail = [] \<or> text_ok MAX_DISPLAY detail"
  shows "item_view a = (i, project, js (if blocked then ''blocked'' else ''review''), js_trim title, at,
    js (if blocked then ''warning'' else ''info''), None, if detail = [] then None else Some (js_trim detail))"
proof -
  note parts = sanitize_attention_Inr [OF assms(1), unfolded ledger_item_fields]
  have d: "pred_option (text_ok MAX_DISPLAY) (if detail = [] then None else Some detail)" using assms(3) by auto
  have "one_of SEVERITIES (js (if blocked then ''warning'' else ''info''))"
    by (simp add: one_of_def SEVERITIES_def)
  then have s: "member_or ''info'' SEVERITIES (lit_value (if blocked then ''warning'' else ''info'')) = js (if blocked then ''warning'' else ''info'')"
    using member_or_stable by (simp add: str_value_def lit_value_def)
  have "at_title a = js_trim title" "at_detail a = map_option js_trim (if detail = [] then None else Some detail)"
    using parts(4) required_string_again [OF assms(2)] parts(8) safe_string_again [OF d] by simp_all
  moreover have "at_sessionId a = None" using session_ref_again [of None] parts(7) by simp
  ultimately show ?thesis
    using parts(1-3,5) parts(6) [unfolded s]
    by (simp add: item_view_def str_value_def int_value_def lit_value_def)
qed

lemma attention_id_ok: "identifier_ok 200 i \<Longrightarrow> identifier_ok 240 (js ''attention-'' @ i)"
  by (cases i) (auto simp: identifier_ok_def js_def is_alnum_unit_def is_digit_unit_def is_id_unit_def)

lemma merge_task_due:
  assumes "task_kind task = Some kind" "ledger_project_id task (pr_projects (fst m)) = Some project"
    and "valid_id 200 (field task ''id'') = Some i"
  shows "merge_task collate task m =
    (if list_ex (same_item project kind (task_title task) (ledger_time task (fst m))) (pr_attention (fst m))
       \<or> js ''attention-'' @ i \<in> set (map at_id (pr_attention (fst m))) then m
     else try_entry collate ''attention'' (map attention_json (pr_attention (fst m)) @
         [ledger_item (js ''attention-'' @ i) project (kind = js ''blocked'') (task_title task) (ledger_time task (fst m)) (task_detail task)])
       ''ledger.task'' i m)"
proof -
  have "valid_id 240 (Some (JStr (js ''attention-'' @ i))) = Some (js ''attention-'' @ i)"
    using assms(3) attention_id_ok by (simp add: valid_id_Some)
  then show ?thesis
    using assms by (auto simp: merge_task_def task_kind_def task_title_def task_detail_def lit_value_def Let_def split: if_splits)
qed

lemma merge_task_skip:
  assumes "task_kind task = None \<or> ledger_project_id task (pr_projects (fst m)) = None \<or> valid_id 200 (field task ''id'') = None"
  shows "merge_task collate task m = m"
  using assms by (auto simp: merge_task_def task_kind_def Let_def split: if_splits option.split)

lemma task_kinds: "task_kind task = Some kind \<Longrightarrow> kind = js (if kind = js ''blocked'' then ''blocked'' else ''review'')"
  by (auto simp: task_kind_def split: if_splits)

lemma task_adds:
  assumes inv: "additions_ok collate service adapter p (fst m)" and task: "task \<in> set (known_tasks adapter)"
  shows "additions_ok collate service adapter p (fst (merge_task collate task m))"
proof (cases "task_kind task = None \<or> ledger_project_id task (pr_projects (fst m)) = None \<or> valid_id 200 (field task ''id'') = None")
  case False
  then obtain kind project i where due: "task_kind task = Some kind" "ledger_project_id task (pr_projects (fst m)) = Some project"
    "valid_id 200 (field task ''id'') = Some i" by auto
  have e: "enriches collate p (fst m)" using inv by (simp add: additions_ok_def)
  have time: "ledger_time task (fst m) = ledger_time task p" using enriches_time [OF e] by (simp add: ledger_time_def split: option.split)
  let ?x = "ledger_item (js ''attention-'' @ i) project (kind = js ''blocked'') (task_title task) (ledger_time task (fst m)) (task_detail task)"
  have "item_known collate adapter p a" if "sanitize_attention ps ss ?x = Inr a" for ps ss a
  proof -
    have "item_view a = task_view p task project i"
      using ledger_item_view [OF that task_texts] task_kinds [OF due(1)]
      by (simp add: task_view_def due(1) time)
    then show ?thesis using task due e unfolding item_known_def by blast
  qed
  then have "additions_ok collate service adapter p (fst (try_entry collate ''attention'' (map attention_json (pr_attention (fst m)) @ [?x]) source entry m))" for source entry
    by (intro offer [OF inv, where new = "[]" and zs = "[?x]"]) (auto simp: patch_array_def)
  then show ?thesis using inv by (simp add: merge_task_due [OF due])
qed (use inv in \<open>simp add: merge_task_skip\<close>)

lemma additions_refl: "projection_ok collate p \<Longrightarrow> additions_ok collate service adapter p p"
  by (auto simp: additions_ok_def enriches_refl)

lemma acp_adds:
  assumes "projection_ok collate p"
  shows "additions_ok collate service adapter p (fst (merge_acp_projection collate now service p))"
proof (cases service)
  case (Some acp)
  have "additions_ok collate service adapter p (fst (fold (merge_project collate now (pr_generatedAt p) acp) (map pj_id (pr_projects p)) (p, [])))"
    by (rule fold_invariant [where Q = "\<lambda>x. True" and P = "\<lambda>m. additions_ok collate service adapter p (fst m)"])
      (simp_all add: additions_refl [OF assms] project_adds Some)
  then show ?thesis by (simp add: merge_acp_projection_def Some)
qed (simp add: merge_acp_projection_def additions_refl [OF assms])

lemma ledger_adds:
  assumes "additions_ok collate service adapter p q"
  shows "additions_ok collate service adapter p (fst (merge_ledger_projection collate adapter q))"
proof -
  have "additions_ok collate service adapter p (fst (fold (merge_task collate) (known_tasks adapter) (q, [])))"
    by (rule fold_invariant [where Q = "\<lambda>x. x \<in> set (known_tasks adapter)" and P = "\<lambda>m. additions_ok collate service adapter p (fst m)"])
      (simp_all add: assms task_adds)
  then show ?thesis
    using assms by (auto simp: merge_ledger_projection_def known_tasks_def split: option.splits sum.splits)
qed

section \<open>Each step shows what it is given\<close>

definition adds_to :: "(jstr \<Rightarrow> jstr \<Rightarrow> int) \<Rightarrow> merged \<Rightarrow> merged \<Rightarrow> bool" where
  "adds_to collate m m' \<longleftrightarrow> enriches collate (fst m) (fst m') \<and> set (snd m) \<subseteq> set (snd m')"

lemma adds_to_refl: "projection_ok collate (fst m) \<Longrightarrow> adds_to collate m m"
  by (simp add: adds_to_def enriches_refl)

lemma adds_to_trans: "adds_to collate a b \<Longrightarrow> adds_to collate b c \<Longrightarrow> adds_to collate a c"
  unfolding adds_to_def using enriches_trans by blast

lemma adds_to_ok: "adds_to collate m m' \<Longrightarrow> projection_ok collate (fst m')"
  unfolding adds_to_def using enriches_ok by blast

lemma additions_enriches: "additions_ok collate service adapter p q \<Longrightarrow> enriches collate p q"
  by (simp add: additions_ok_def)

lemma try_entry_reports: "set (snd m) \<subseteq> set (snd (try_entry collate key items source entry m))"
  by (auto simp: try_entry_def split: sum.split)

lemma summary_grows:
  assumes "projection_ok collate (fst m)"
  shows "adds_to collate m (merge_summary collate generated project summary m)"
proof -
  have "summary \<in> set (known_summaries (Some (\<lambda>_. Inr (JArr [summary], JNull))) project)"
    by (simp add: known_summaries_def array_or_empty_def)
  from additions_enriches [OF summary_adds [OF additions_refl [OF assms] this]] try_entry_reports
  show ?thesis by (auto simp: adds_to_def merge_summary_def Let_def split: option.split)
qed

lemma permission_grows:
  assumes "projection_ok collate (fst m)"
  shows "adds_to collate m (merge_permission collate now generated project event m)"
  using additions_enriches [OF permission_adds [OF additions_refl [OF assms]]] try_entry_reports
  by (auto simp: adds_to_def merge_permission_def Let_def split: sum.split)

lemma renderer_grows:
  assumes "projection_ok collate (fst m)"
  shows "adds_to collate m (without_renderer_permissions collate project m)"
  using additions_enriches [OF offer_permissions [OF additions_refl [OF assms]]] try_entry_reports
  by (simp add: adds_to_def without_renderer_permissions_def)

lemma task_grows:
  assumes "projection_ok collate (fst m)"
  shows "adds_to collate m (merge_task collate task m)"
proof -
  have "task \<in> set (known_tasks (Some (Inr (JArr [task]))))" by (simp add: known_tasks_def array_or_empty_def)
  from additions_enriches [OF task_adds [OF additions_refl [OF assms] this]] try_entry_reports
  show ?thesis by (auto simp: adds_to_def merge_task_def Let_def split: option.split)
qed

lemma fold_grows:
  assumes "\<And>x m. projection_ok collate (fst m) \<Longrightarrow> adds_to collate m (f x m)" "projection_ok collate (fst m)"
  shows "adds_to collate m (fold f xs m)"
  using assms(2)
proof (induction xs arbitrary: m)
  case (Cons x xs)
  have g: "adds_to collate m (f x m)" by (rule assms(1) [OF Cons.prems])
  from adds_to_trans [OF g Cons.IH [OF adds_to_ok [OF g]]] show ?case by simp
qed (simp add: adds_to_refl)

lemma fold_at:
  assumes "\<And>x m. projection_ok collate (fst m) \<Longrightarrow> adds_to collate m (f x m)" "projection_ok collate (fst m)" "x \<in> set xs"
  shows "\<exists>n. adds_to collate m n \<and> adds_to collate (f x n) (fold f xs m)"
proof -
  obtain ys zs where xs: "xs = ys @ x # zs" using assms(3) by (metis split_list)
  let ?n = "fold f ys m"
  have n: "adds_to collate m ?n" by (rule fold_grows [OF assms(1,2)])
  have x: "adds_to collate ?n (f x ?n)" by (rule assms(1) [OF adds_to_ok [OF n]])
  have "adds_to collate (f x ?n) (fold f zs (f x ?n))" by (rule fold_grows [OF assms(1) adds_to_ok [OF x]])
  then show ?thesis using n unfolding xs fold_append fold.simps comp_def by blast
qed

lemma project_grows:
  assumes "projection_ok collate (fst m)"
  shows "adds_to collate m (merge_project collate now generated acp project m)"
proof (cases "acp project")
  case (Inr r)
  obtain summaries events where r: "r = (summaries, events)" by (rule prod.exhaust)
  note a = renderer_grows [OF assms, of project]
  let ?w = "without_renderer_permissions collate project m"
  let ?s = "fold (merge_summary collate generated project) (array_or_empty (Some summaries)) ?w"
  have b: "adds_to collate ?w ?s" by (rule fold_grows [OF summary_grows adds_to_ok [OF a]])
  have "adds_to collate ?s (fold (merge_permission collate now generated project) (array_or_empty (Some events)) ?s)"
    by (rule fold_grows [OF permission_grows adds_to_ok [OF b]])
  from adds_to_trans [OF a adds_to_trans [OF b this]] show ?thesis by (simp only: merge_project_def Inr r sum.case prod.case)
qed (use assms in \<open>auto simp: merge_project_def adds_to_def enriches_refl\<close>)

lemma summary_shown_grows:
  assumes "summary_shown collate p q ds summary" "enriches collate q q'" "set ds \<subseteq> set ds'"
  shows "summary_shown collate p q' ds' summary"
proof -
  have "\<exists>t \<in> set (pr_sessions q'). ss_id t = ss_id s" if "s \<in> set (pr_sessions q)" for s
    using enriches_session [OF assms(2) that] by (auto simp: session_view_def)
  moreover have "refused collate p ds' key current source entry i" if "refused collate p ds key current source entry i"
    for key current source entry i
    using that assms(3) unfolding refused_def by blast
  ultimately show ?thesis using assms(1) unfolding summary_shown_def by metis
qed

lemma summary_step:
  fixes generated :: int
  assumes p: "enriches collate p (fst m)" and s: "field summary ''projectId'' = str_value project" "candidate_ids summary \<noteq> []"
  defines "m' \<equiv> merge_summary collate generated project summary m"
  shows "summary_shown collate p (fst m') (snd m') summary"
proof -
  let ?cs = "candidate_ids summary"
  have ok: "projection_ok collate (fst m)" by (rule enriches_ok [OF p])
  have stays: "summary_shown collate p (fst m') (snd m') summary" if "u \<in> set (pr_sessions (fst m))" "ss_id u \<in> set ?cs" for u
  proof -
    have "enriches collate (fst m) (fst m')"
      using summary_grows [OF ok] unfolding adds_to_def m'_def by blast
    from enriches_session [OF this that(1)] obtain t where "t \<in> set (pr_sessions (fst m'))" "ss_id t = ss_id u"
      by (auto simp: session_view_def)
    then show ?thesis using that(2) unfolding summary_shown_def by metis
  qed
  show ?thesis
  proof (cases "known_session (fst m) project ?cs")
    case (Some u)
    then show ?thesis using stays known_session_in by blast
  next
    case None
    show ?thesis
    proof (cases "find (\<lambda>c. find_session (fst m) c = None) ?cs")
      case None': None
      then have "find_session (fst m) (hd ?cs) \<noteq> None" using s(2) by (auto simp: find_None_iff)
      then obtain u where "u \<in> set (pr_sessions (fst m))" "ss_id u = hd ?cs"
        by (auto simp: find_session_def dest: find_mem)
      then show ?thesis using stays [of u] s(2) by simp
    next
      case None': (Some i)
      let ?x = "updated_session summary (new_agent_session generated project i summary)"
      let ?items = "map session_json (pr_sessions (fst m)) @ [?x]"
      have i: "i \<in> set ?cs" using find_mem [OF None'] by simp
      have x: "field ?x ''id'' = Some (JStr i)"
        using arg_cong [OF updated_session_view [of summary "new_agent_session generated project i summary"], of fst]
        by (simp add: json_view_def new_agent_session_def str_value_def)
      have entry: "(case ?cs of [] \<Rightarrow> project | c # _ \<Rightarrow> c) = hd ?cs" using s(2) by (cases ?cs) simp_all
      have m': "m' = try_entry collate ''sessions'' ?items ''acp.session'' (hd ?cs) m"
        using s(1) None None' entry by (simp add: m'_def merge_summary_def Let_def)
      show ?thesis
      proof (cases "sanitize_projection collate (Some (patched (fst m) ''sessions'' ?items))")
        case (Inl e)
        then have "rejected ''acp.session'' (hd ?cs) e \<in> set (snd m')" by (simp add: m' try_entry_def)
        then show ?thesis unfolding summary_shown_def refused_def using p x Inl i by blast
      next
        case (Inr q)
        have "map own_view (pr_sessions q) = map json_view (session_array (fst m) ''sessions'' ?items)"
          by (rule accepted_sessions [OF Inr]) simp
        then have "json_view ?x \<in> set (map own_view (pr_sessions q))" by (simp add: patch_array_def)
        then obtain t where t: "t \<in> set (pr_sessions q)" "json_view ?x = own_view t" by auto
        have "ss_id t = i" using json_view_fields [OF t(2)] x by simp
        moreover have "fst m' = q" by (simp add: m' try_entry_def Inr)
        ultimately show ?thesis using t(1) i unfolding summary_shown_def by blast
      qed
    qed
  qed
qed

lemma acp_shows:
  assumes ok: "projection_ok collate p" and project: "project \<in> set (map pj_id (pr_projects p))"
    and s: "summary \<in> set (known_summaries service project)" "field summary ''projectId'' = str_value project"
      "candidate_ids summary \<noteq> []"
    and r: "merge_acp_projection collate now service p = (q, ds)"
  shows "summary_shown collate p q ds summary"
proof -
  obtain acp summaries events where acp: "service = Some acp" "acp project = Inr (summaries, events)"
    "summary \<in> set (array_or_empty (Some summaries))"
    using s(1) unfolding known_summaries_def
    by (cases service; cases "the service project") auto
  let ?f = "merge_project collate now (pr_generatedAt p) acp" and ?g = "merge_summary collate (pr_generatedAt p) project"
  let ?h = "merge_permission collate now (pr_generatedAt p) project"
  have qds: "fold ?f (map pj_id (pr_projects p)) (p, []) = (q, ds)" using r by (simp add: merge_acp_projection_def acp(1))
  obtain n where n: "adds_to collate (p, []) n" "adds_to collate (?f project n) (q, ds)"
    using fold_at [where f = ?f, OF project_grows, of "(p, [])" project "map pj_id (pr_projects p)"] ok project qds
    by (metis fst_conv)
  let ?w = "without_renderer_permissions collate project n"
  have w: "adds_to collate n ?w" by (rule renderer_grows [OF adds_to_ok [OF n(1)]])
  obtain m where m: "adds_to collate ?w m" "adds_to collate (?g summary m) (fold ?g (array_or_empty (Some summaries)) ?w)"
    using fold_at [where f = ?g, OF summary_grows adds_to_ok [OF w] acp(3)] by blast
  have "adds_to collate (fold ?g (array_or_empty (Some summaries)) ?w) (?f project n)"
    using fold_grows [where f = ?h, OF permission_grows adds_to_ok [OF m(2)]] by (simp add: merge_project_def acp(2))
  then have g: "adds_to collate (?g summary m) (q, ds)" using m(2) n(2) adds_to_trans by blast
  have "adds_to collate (p, []) m" using n(1) w m(1) adds_to_trans by blast
  then have "enriches collate p (fst m)" by (simp add: adds_to_def)
  note shown = summary_step [OF this s(2,3), of "pr_generatedAt p"]
  have "enriches collate (fst (?g summary m)) q" "set (snd (?g summary m)) \<subseteq> set ds" using g by (simp_all add: adds_to_def)
  then show ?thesis by (rule summary_shown_grows [OF shown])
qed

lemma task_shown_grows:
  assumes "task_shown collate p q ds task project i" "enriches collate q q'" "set ds \<subseteq> set ds'"
  shows "task_shown collate p q' ds' task project i"
proof -
  have "\<exists>b \<in> set (pr_attention q'). item_view b = item_view a" if "a \<in> set (pr_attention q)" for a
    by (rule enriches_item [OF assms(2) that])
  then have items: "\<exists>b \<in> set (pr_attention q'). at_id b = at_id a \<and> at_projectId b = at_projectId a \<and> at_kind b = at_kind a
      \<and> js_trim (at_title b) = js_trim (at_title a) \<and> at_createdAt b = at_createdAt a" if "a \<in> set (pr_attention q)" for a
    using that by (fastforce simp: item_view_def)
  have "length (pr_attention q) \<le> length (pr_attention q')"
    using assms(2) unfolding enriches_def by (metis length_append length_map le_add1)
  moreover have "length (pr_attention q') \<le> MAX_ATTENTION"
    using enriches_ok [OF assms(2)] by (simp add: projection_ok_def Let_def)
  ultimately have full: "length (pr_attention q) = MAX_ATTENTION \<Longrightarrow> length (pr_attention q') = MAX_ATTENTION" by simp
  consider (item) a where "a \<in> set (pr_attention q)" "at_id a = js ''attention-'' @ i
        \<or> (at_projectId a, Some (at_kind a), js_trim (at_title a), at_createdAt a)
           = (project, task_kind task, js_trim (task_title task), ledger_time task p)"
    | (full) "length (pr_attention q) = MAX_ATTENTION"
    | (refused) "refused collate p ds ''attention'' (\<lambda>p'. map attention_json (pr_attention p')) ''ledger.task'' i (js ''attention-'' @ i)"
    using assms(1) unfolding task_shown_def by blast
  then show ?thesis
  proof cases
    case item
    from items [OF item(1)] item(2) show ?thesis unfolding task_shown_def by fastforce
  next
    case full
    then show ?thesis using \<open>length (pr_attention q) = MAX_ATTENTION \<Longrightarrow> _\<close> by (simp add: task_shown_def)
  next
    case refused
    then show ?thesis using assms(3) unfolding task_shown_def refused_def by blast
  qed
qed

lemma task_step:
  assumes p: "enriches collate p (fst m)"
    and due: "task_kind task = Some kind" "ledger_project_id task (pr_projects (fst m)) = Some project"
      "valid_id 200 (field task ''id'') = Some i"
  shows "task_shown collate p (fst (merge_task collate task m)) (snd (merge_task collate task m)) task project i"
proof -
  have time: "ledger_time task (fst m) = ledger_time task p"
    using enriches_time [OF p] by (simp add: ledger_time_def split: option.split)
  have ok: "projection_ok collate (fst m)" by (rule enriches_ok [OF p])
  let ?there = "list_ex (same_item project kind (task_title task) (ledger_time task (fst m))) (pr_attention (fst m))
       \<or> js ''attention-'' @ i \<in> set (map at_id (pr_attention (fst m)))"
  show ?thesis
  proof (cases ?there)
    case True
    then have "merge_task collate task m = m" by (simp add: merge_task_due [OF due])
    moreover have "task_shown collate p (fst m) (snd m) task project i"
      using True by (auto simp: task_shown_def list_ex_iff same_item_def time due(1))
    ultimately show ?thesis by simp
  next
    case False
    let ?x = "ledger_item (js ''attention-'' @ i) project (kind = js ''blocked'') (task_title task) (ledger_time task (fst m)) (task_detail task)"
    let ?items = "map attention_json (pr_attention (fst m)) @ [?x]"
    have m': "merge_task collate task m = try_entry collate ''attention'' ?items ''ledger.task'' i m"
      using False by (simp add: merge_task_due [OF due])
    show ?thesis
    proof (cases "sanitize_projection collate (Some (patched (fst m) ''attention'' ?items))")
      case (Inl e)
      have "rejected ''ledger.task'' i e \<in> set (snd (merge_task collate task m))" by (simp add: m' try_entry_def Inl)
      moreover have "field ?x ''id'' = Some (JStr (js ''attention-'' @ i))" by (simp add: str_value_def)
      ultimately show ?thesis using p Inl unfolding task_shown_def refused_def by blast
    next
      case (Inr q)
      have q: "fst (merge_task collate task m) = q" by (simp add: m' try_entry_def Inr)
      have ia: "item_array (fst m) ''attention'' ?items = map attention_json (pr_attention (fst m)) @ [?x]" by (simp add: patch_array_def)
      let ?n = "length (pr_attention (fst m))"
      note items = accepted_items [OF ok Inr _ ia]
      have "length (pr_attention q) \<le> MAX_ATTENTION" using sanitize_projection_ok [OF Inr] by (simp add: projection_ok_def Let_def)
      moreover have "?n \<le> length (pr_attention q)" using arg_cong [OF items(1), of length] by simp
      moreover have "?n \<le> MAX_ATTENTION" using ok by (simp add: projection_ok_def Let_def)
      ultimately consider "length (pr_attention q) = MAX_ATTENTION" | "?n < MAX_ATTENTION" by linarith
      then show ?thesis
      proof cases
        case 2
        then have "take (MAX_ATTENTION - ?n) [?x] = [?x]" by simp
        then obtain a where a: "drop ?n (pr_attention q) = [a]"
          "sanitize_attention (map pj_id (pr_projects q)) (pr_sessions q) ?x = Inr a"
          using items(2) by (auto simp: list_all2_Cons1)
        have "a \<in> set (pr_attention q)" using a(1) by (metis in_set_dropD list.set_intros(1))
        moreover have "at_id a = js ''attention-'' @ i" using sanitize_attention_Inr(1) [OF a(2)] by (simp add: str_value_def)
        ultimately show ?thesis unfolding q task_shown_def by blast
      qed (simp add: q task_shown_def)
    qed
  qed
qed

lemma ledger_shows:
  assumes p: "enriches collate p q" and task: "task \<in> set (known_tasks adapter)" "task_kind task \<noteq> None"
    "field task ''projectId'' = str_value project" "project \<in> set (map pj_id (pr_projects p))"
    "valid_id 200 (field task ''id'') = Some i"
    and r: "merge_ledger_projection collate adapter q = (q', ds)"
  shows "task_shown collate p q' ds task project i"
proof -
  have qds: "fold (merge_task collate) (known_tasks adapter) (q, []) = (q', ds)"
    using r task(1) by (auto simp: merge_ledger_projection_def known_tasks_def split: option.splits sum.splits)
  obtain n where n: "adds_to collate (q, []) n" "adds_to collate (merge_task collate task n) (q', ds)"
    using fold_at [where f = "merge_task collate", OF task_grows, of "(q, [])" task "known_tasks adapter"]
      enriches_ok [OF p] task(1) qds by (metis fst_conv)
  have pn: "enriches collate p (fst n)" using n(1) p enriches_trans by (auto simp: adds_to_def)
  have "ledger_project_id task (pr_projects (fst n)) = Some project"
    using task(3,4) enriches_projects [OF pn] by (simp add: ledger_project_id_def str_value_def)
  moreover obtain kind where "task_kind task = Some kind" using task(2) by blast
  ultimately show ?thesis
    using task_shown_grows [OF task_step [OF pn _ _ task(5)]] n(2) by (auto simp: adds_to_def)
qed

text \<open>Both merges together.\<close>

lemma merges_add:
  assumes ok: "projection_ok collate p" and acp: "merge_acp_projection collate now service p = (p1, d1)"
    and ledger: "merge_ledger_projection collate adapter p1 = (q, d2)"
  shows "additions_ok collate service adapter p q"
    "\<forall>project \<in> set (map pj_id (pr_projects p)). \<forall>summary \<in> set (known_summaries service project).
       field summary ''projectId'' = str_value project \<and> candidate_ids summary \<noteq> [] \<longrightarrow>
       summary_shown collate p q (d1 @ d2) summary"
    "\<forall>task \<in> set (known_tasks adapter). \<forall>project \<in> set (map pj_id (pr_projects p)). \<forall>i.
       task_kind task \<noteq> None \<and> field task ''projectId'' = str_value project \<and> valid_id 200 (field task ''id'') = Some i \<longrightarrow>
       task_shown collate p q (d1 @ d2) task project i"
proof -
  have a: "additions_ok collate service adapter p p1" using acp_adds [OF ok, of service adapter now] by (simp add: acp)
  then have e: "enriches collate p p1" by (rule additions_enriches)
  have later: "enriches collate p1 q"
    using additions_enriches [OF ledger_adds [OF additions_refl [OF enriches_ok [OF e]]], of adapter] by (simp add: ledger)
  show "additions_ok collate service adapter p q" using ledger_adds [OF a] by (simp add: ledger)
  show "\<forall>project \<in> set (map pj_id (pr_projects p)). \<forall>summary \<in> set (known_summaries service project).
       field summary ''projectId'' = str_value project \<and> candidate_ids summary \<noteq> [] \<longrightarrow>
       summary_shown collate p q (d1 @ d2) summary"
    using summary_shown_grows [OF acp_shows [OF ok _ _ _ _ acp] later] by simp
  show "\<forall>task \<in> set (known_tasks adapter). \<forall>project \<in> set (map pj_id (pr_projects p)). \<forall>i.
       task_kind task \<noteq> None \<and> field task ''projectId'' = str_value project \<and> valid_id 200 (field task ''id'') = Some i \<longrightarrow>
       task_shown collate p q (d1 @ d2) task project i"
    using task_shown_grows [OF ledger_shows [OF e _ _ _ _ _ ledger] enriches_refl [OF enriches_ok [OF later]]] by simp
qed

end
