(* ===== verification/Gateway_Properties.thy ===== *)
theory Gateway_Properties
  imports Gateway_Delivery Gateway_Additions Desktop_Snapshot
begin

text \<open>
  What the gateway of \<open>src/electron/companion/gateway.cjs\<close> sends: the frames of its sessions in order
  (from the invariant of \<open>Gateway_Delivery\<close>), exactly what a session missed, and the merged snapshot
  (from \<open>Gateway_Additions\<close>); then an example of a phone that connects and a snapshot with a task.
\<close>

section \<open>Properties\<close>

text \<open>
  C6. In every reachable gateway, whatever is called in whatever order: every frame a session sent is a
  valid envelope of its own desktop, device, connection and epoch; its events carry strictly increasing
  numbers, so none is sent twice or out of order, and none is newer than the position the session
  remembers, which the log has reached; and a connected session can observe and has no capability that
  its device was not granted.
\<close>

theorem gateway_frames_in_order:
  assumes "gateway_reach g" "s \<in> set (gw_sessions g)"
  shows "(\<forall>f \<in> set (gs_sent s). frame_ok (gw_desktopId g) (gw_epoch g) s f)
    \<and> sorted_wrt (<) (event_seqs s) \<and> (\<forall>n \<in> set (event_seqs s). n \<le> gs_lastSentSeq s)
    \<and> gs_lastSentSeq s \<le> el_currentSeq (ds_log (gw_hub g))
    \<and> (gs_connected s \<longrightarrow> Observe \<in> set (gs_capabilities s) \<and> set (gs_capabilities s) \<subseteq> set (gs_granted s))"
  using reach_fine [OF assms(1)] assms(2) by (simp add: fine_def sent_ok_def)


definition missing_events :: "gateway \<Rightarrow> gateway_session \<Rightarrow> json list" where
  "missing_events g s = map ev_value (filter (\<lambda>x. gs_lastSentSeq s < ev_seq x) (el_events (ds_log (gw_hub g))))"

lemma session_cursor:
  assumes "identifier_ok MAX_ID_LENGTH epoch" "0 \<le> n" "is_safe n"
  shows "safe_cursor (Some (cursor_json epoch n)) = Inr (Some (epoch, n))"
  using assms by (simp add: safe_cursor_def cursor_json_def nullish_def str_value_def int_value_def nonneg_def
      validate_identifier_def is_obj_obj Let_def)

lemma replay_available:
  assumes "log_inv (ds_log d)" "identifier_ok MAX_ID_LENGTH (el_epoch (ds_log d))" "is_safe n" "0 \<le> n"
    and "el_droppedThrough (ds_log d) \<le> n" "n \<le> el_currentSeq (ds_log d)"
  shows "desktop_replay (Some (JStr (el_epoch (ds_log d)))) (Some (JInt n)) d =
    Inr (Replay (el_epoch (ds_log d)) (n + 1) (el_currentSeq (ds_log d)) (map ev_value (filter (\<lambda>x. n < ev_seq x) (el_events (ds_log d)))))"
  using assms by (simp add: desktop_replay_def log_replay_def log_safe_id_def log_safe_integer_def)

text \<open>
  C7. An open session that the log can still serve is brought up to date exactly: what it sends are the
  frames of the events after the last one it sent that are meant for it, in their order and in full when
  the call returns true, and then it stands at the end of the log. When the transport stops taking
  frames, or one of them cannot be built, what was sent is an initial part of them.
\<close>

theorem gateway_synchronize_exact:
  assumes "gateway_reach g" "i < length (gw_sessions g)" "gs_connected (gw_sessions g ! i)"
    and "el_epoch (ds_log (gw_hub g)) = gw_epoch g" "is_safe (el_currentSeq (ds_log (gw_hub g)))"
    and "el_droppedThrough (ds_log (gw_hub g)) \<le> gs_lastSentSeq (gw_sessions g ! i)"
    and "synchronize_session env i g = (g', r)"
  shows "(r = Inr True \<longrightarrow>
      gs_sent (gw_sessions g' ! i) = gs_sent (gw_sessions g ! i) @
        frames_due g (gw_sessions g ! i) (missing_events g (gw_sessions g ! i))
      \<and> gs_lastSentSeq (gw_sessions g' ! i) = el_currentSeq (ds_log (gw_hub g)))
    \<and> (\<exists>k. gs_sent (gw_sessions g' ! i) = gs_sent (gw_sessions g ! i) @
        take k (frames_due g (gw_sessions g ! i) (missing_events g (gw_sessions g ! i))))"
proof -
  let ?s = "gw_sessions g ! i" and ?d = "gw_hub g"
  have f: "fine g" by (rule reach_fine [OF assms(1)])
  have s: "\<not> gs_closed ?s" "0 \<le> gs_lastSentSeq ?s" "gs_lastSentSeq ?s \<le> el_currentSeq (ds_log ?d)"
    using fineD [OF f assms(2)] assms(3) by (simp_all add: session_fine_def sent_ok_def)
  have n: "is_safe (gs_lastSentSeq ?s)" using s assms(5) by (simp add: is_safe_def)
  have e: "identifier_ok MAX_ID_LENGTH (gw_epoch g)" "log_inv (ds_log ?d)" using f by (simp_all add: fine_def)
  have "gateway_synchronize env (Some (cursor_json (gw_epoch g) (gs_lastSentSeq ?s))) g =
      (g\<lparr>gw_hub := ?d\<rparr>, Inr (Sync_replay (gw_epoch g) (gs_lastSentSeq ?s + 1) (el_currentSeq (ds_log ?d)) (missing_events g ?s)))"
    using session_cursor [OF e(1) s(2) n] replay_available [OF e(2) _ n s(2) assms(6) s(3)] e(1) assms(4)
    by (simp add: gateway_synchronize_def hub_synchronize_def missing_events_def)
  then have "send_events env i (el_currentSeq (ds_log ?d)) (missing_events g ?s) g = (g', r)"
    using assms(3,7) s(1) by (simp add: synchronize_session_def sbind_def the_gs_def)
  from send_events_exact [OF assms(2) this] show ?thesis by simp
qed



section \<open>An example\<close>

text \<open>
  A phone says hello to a desktop whose log is empty, then the desktop appends an event and brings the
  phone up to date.
\<close>

definition sample_hub :: desktop where
  "sample_hub = \<lparr>ds_log = \<lparr>el_epoch = js ''e'', el_maxEvents = 4, el_maxBytes = 4000, el_events = [], el_totalBytes = 0,
     el_currentSeq = 0, el_droppedThrough = 0, el_acks = []\<rparr>, ds_revision = 0, ds_attention = None, ds_heard = []\<rparr>"

definition sample_router :: router where
  "sample_router = \<lparr>rt_cache = \<lparr>cc_maxEntries = 2, cc_ttlMs = 1000, cc_receipts = [], cc_inFlight = [], cc_promises = []\<rparr>,
     rt_enabled = [], rt_handlers = [], rt_executors = [], rt_calls = []\<rparr>"

definition sample_env :: gateway_env where
  "sample_env = \<lparr>ge_now = 1, ge_sha256 = (\<lambda>b. []), ge_attention = example_config, ge_label = (\<lambda>w. None), ge_records = [],
     ge_hint = None, ge_acp = None, ge_subscribes = (\<lambda>p. Inr ()), ge_ledger = None, ge_accepts = (\<lambda>i f. True)\<rparr>"

definition sample_session :: gateway_session where
  "sample_session = \<lparr>gs_deviceId = js ''d'', gs_granted = [Observe], gs_connectionId = None, gs_capabilities = [],
     gs_connected = False, gs_closed = False, gs_lastSentSeq = 0, gs_frameCounter = 0, gs_subscriptions = [],
     gs_generations = [], gs_acp = [], gs_sent = []\<rparr>"

definition sample_start :: gateway where
  "sample_start = new_gateway (js ''k'') (js ''e'') sample_hub sample_router None"

definition sample_attached :: gateway where
  "sample_attached = sample_start\<lparr>gw_sessions := [sample_session], gw_open := [0]\<rparr>"

definition sample_frame :: "string \<Rightarrow> json \<Rightarrow> int \<Rightarrow> string \<Rightarrow> json" where
  "sample_frame kind body n i = JObj [(js ''v'', JInt 1), (js ''kind'', JStr (js kind)), (js ''desktopId'', JStr (js ''k'')),
     (js ''deviceId'', JStr (js ''d'')), (js ''connectionId'', JStr (js ''c'')), (js ''epoch'', JStr (js ''e'')),
     (js ''seq'', JInt n), (js ''id'', JStr (js i)), (js ''sentAt'', JInt 1), (js ''body'', body)]"

definition sample_hello_body :: json where
  "sample_hello_body = JObj [(js ''type'', JStr (js ''hello'')), (js ''role'', JStr (js ''device'')),
     (js ''lastAck'', JInt 0), (js ''capabilities'', JArr [JStr (js ''observe'')])]"

definition sample_reply_body :: json where
  "sample_reply_body = JObj [(js ''type'', JStr (js ''hello'')), (js ''role'', JStr (js ''desktop'')),
     (js ''protocolMinor'', JInt 0), (js ''capabilities'', JArr [JStr (js ''observe'')])]"

definition sample_event_body :: json where
  "sample_event_body = JObj [(js ''type'', JStr (js ''desktop.status''))]"

definition sample_greeted :: gateway where
  "sample_greeted = sample_attached\<lparr>gw_sessions := [sample_session\<lparr>gs_connectionId := Some (js ''c''), gs_capabilities := [Observe],
     gs_connected := True, gs_frameCounter := 1, gs_sent := [sample_frame ''hello'' sample_reply_body 0 ''hello-1'']\<rparr>]\<rparr>"

lemmas sample_frame_defs = sample_frame_def sample_hello_body_def sample_reply_body_def sample_event_body_def

lemma sample_frames_valid:
  "validate_envelope 1 (sample_frame ''hello'' sample_hello_body 0 ''h'') = Inr (sample_frame ''hello'' sample_hello_body 0 ''h'')"
  "validate_envelope 1 (sample_frame ''hello'' sample_reply_body 0 ''hello-1'') = Inr (sample_frame ''hello'' sample_reply_body 0 ''hello-1'')"
  "validate_envelope 1 (sample_frame ''event'' sample_event_body 1 ''event-1'') = Inr (sample_frame ''event'' sample_event_body 1 ''event-1'')"
proof -
  have cap: "validate_capabilities (Some (JArr [JStr [111, 98, 115, 101, 114, 118, 101]])) = Inr [Observe]"
    using validate_capabilities_Inr [of "Some (JArr [JStr (js ''observe'')])" "[Observe]"] by (simp add: js_def)
  have size: "json_bytes (sample_frame ''hello'' sample_hello_body 0 ''h'') \<le> MAX_FRAME_BYTES"
    "json_bytes (sample_frame ''hello'' sample_reply_body 0 ''hello-1'') \<le> MAX_FRAME_BYTES"
    "json_bytes (sample_frame ''event'' sample_event_body 1 ''event-1'') \<le> MAX_FRAME_BYTES"
    by (simp_all add: sample_frame_defs MAX_FRAME_BYTES_def exec_simps)
  show "validate_envelope 1 (sample_frame ''hello'' sample_hello_body 0 ''h'') = Inr (sample_frame ''hello'' sample_hello_body 0 ''h'')"
    using size(1) unfolding validate_envelope_def
    by (simp add: sample_frame_defs exec_simps protocol_exec cap del: json_bytes_def)
  show "validate_envelope 1 (sample_frame ''hello'' sample_reply_body 0 ''hello-1'') = Inr (sample_frame ''hello'' sample_reply_body 0 ''hello-1'')"
    using size(2) unfolding validate_envelope_def
    by (simp add: sample_frame_defs exec_simps protocol_exec cap del: json_bytes_def)
  show "validate_envelope 1 (sample_frame ''event'' sample_event_body 1 ''event-1'') = Inr (sample_frame ''event'' sample_event_body 1 ''event-1'')"
    using size(3) unfolding validate_envelope_def
    by (simp add: sample_frame_defs exec_simps protocol_exec cap del: json_bytes_def)
qed

lemma sample_capability [simp]: "validate_capabilities (Some (JArr [JStr (js ''observe'')])) = Inr [Observe]"
  using validate_capabilities_Inr [of "Some (JArr [JStr (js ''observe'')])" "[Observe]"] by simp

lemma sample_identifiers [simp]:
  "identifier_ok MAX_ID_LENGTH (js ''k'')" "identifier_ok MAX_ID_LENGTH (js ''d'')" "identifier_ok MAX_ID_LENGTH (js ''e'')"
  by (simp_all add: js_def identifier_ok_def is_alnum_unit_def is_digit_unit_def MAX_ID_LENGTH_def)

lemma sample_attach:
  "attach (lit_value ''d'') (Some (JArr [JStr (js ''observe'')])) sample_start = (sample_attached, Inr 0)"
  by (simp add: attach_def sample_start_def new_gateway_def sample_attached_def or_empty_array_def nullish_def lit_value_def
      sample_session_def validate_identifier_def)

lemma sample_view:
  "view_envelope (sample_frame ''hello'' sample_hello_body 0 ''h'') = \<lparr>env_kind = Hello, env_desktopId = js ''k'', env_deviceId = js ''d'',
     env_connectionId = js ''c'', env_epoch = js ''e'', env_seq = 0, env_id = js ''h'', env_sentAt = 1, env_body = sample_hello_body\<rparr>"
  by (simp add: view_envelope_def sample_frame_def field_def exec_simps kind_of_def KINDS_def)


lemma sample_frame_of:
  assumes "gw_desktopId g = js ''k''" "gw_epoch g = js ''e''" "gs_deviceId s = js ''d''" "gs_connectionId s = Some (js ''c'')"
  shows "frame_of g s kind body (str_value (js i)) (int_value n) (int_value 1) = sample_frame (kind_text kind) body n i"
  using assms by (simp add: frame_of_def sample_frame_def obj_def PROTOCOL_VERSION_def lit_value_def str_value_def int_value_def)

lemma sample_hello_fields:
  "field sample_hello_body ''role'' = lit_value ''device''"
  "field sample_hello_body ''capabilities'' = Some (JArr [JStr (js ''observe'')])"
  "field sample_hello_body ''lastAck'' = int_value 0"
  by (simp_all add: sample_hello_body_def field_def exec_simps lit_value_def int_value_def)

lemma sample_reply:
  "obj ([(''type'', lit_value ''hello''), (''role'', lit_value ''desktop''), (''protocolMinor'', int_value PROTOCOL_MINOR),
     (''capabilities'', Some (capability_json [Observe]))] @ current_transport_hint sample_env) = sample_reply_body"
  by (simp add: sample_reply_body_def obj_def lit_value_def int_value_def PROTOCOL_MINOR_def capability_json_def
      current_transport_hint_def sample_env_def validate_transport_hint_def assert_plain_object_def)

lemma sample_granted:
  "granted_capabilities (Some (capability_json [Observe])) (Some (JArr [JStr (js ''observe'')])) = Inr [Observe]"
  by (simp add: granted_capabilities_def capability_json_def or_empty_array_def nullish_def of_protocol_def)

lemma sample_synchronized:
  assumes "gw_hub g = sample_hub" "gw_epoch g = js ''e''"
  shows "gateway_synchronize sample_env (Some (obj [(''epoch'', str_value (js ''e'')), (''afterSeq'', int_value 0)])) g =
    (g, Inr (Sync_replay (js ''e'') 1 0 []))"
proof -
  have c: "safe_cursor (Some (cursor_json (js ''e'') 0)) = Inr (Some (js ''e'', 0))"
    by (rule session_cursor) (simp_all add: is_safe_def max_safe_integer_def)
  have "desktop_replay (Some (JStr (el_epoch (ds_log sample_hub)))) (Some (JInt 0)) sample_hub = Inr (Replay (js ''e'') 1 0 [])"
    by (subst replay_available) (simp_all add: sample_hub_def log_inv_def is_safe_def max_safe_integer_def)
  then show ?thesis
    using c assms by (simp add: gateway_synchronize_def hub_synchronize_def cursor_json_def sample_hub_def)
qed

lemma sample_receive:
  "receive sample_env 0 (sample_frame ''hello'' sample_hello_body 0 ''h'') sample_attached = (sample_greeted, Inr (Greeted [Observe]))"
proof -
  let ?s = "sample_session\<lparr>gs_connectionId := Some (js ''c''), gs_capabilities := [Observe], gs_connected := True, gs_frameCounter := Suc 0\<rparr>"
  let ?g = "sample_attached\<lparr>gw_sessions := [?s]\<rparr>"
  let ?s0 = "sample_session\<lparr>gs_connectionId := Some (js ''c''), gs_capabilities := [Observe], gs_connected := True, gs_frameCounter := 0\<rparr>"
  have send: "send sample_env 0 Hello sample_reply_body (str_value (js ''hello-1'')) (int_value 0) (int_value 1) ?g =
      (sample_greeted, Inr True)"
    by (simp add: send_def sbind_def of_protocol_def sample_frame_of sample_attached_def sample_start_def new_gateway_def
        sample_session_def PROTOCOL_VERSION_def sample_frames_valid(2) the_gs_def on_gs_def sample_env_def update_session_def
        sample_greeted_def)
  have name: "next_id 0 ''hello'' (sample_attached\<lparr>gw_sessions := [?s0]\<rparr>) = (?g, Inr (str_value (js ''hello-1'')))"
    by (simp add: next_id_def sbind_def on_gs_def the_gs_def update_session_def sample_attached_def int_text_def digits_of.simps js_def)
  have sync: "gateway_synchronize sample_env (Some (obj [(''epoch'', str_value (js ''e'')), (''afterSeq'', int_value 0)])) sample_greeted =
      (sample_greeted, Inr (Sync_replay (js ''e'') 1 0 []))"
    by (rule sample_synchronized) (simp_all add: sample_greeted_def sample_attached_def sample_start_def new_gateway_def)
  have steps: "update_session 0 (\<lambda>s. s\<lparr>gs_capabilities := [Observe], gs_connected := True\<rparr>)
      (update_session 0 (\<lambda>s. s\<lparr>gs_connectionId := Some (js ''c'')\<rparr>) sample_attached) = sample_attached\<lparr>gw_sessions := [?s0]\<rparr>"
    "gs_granted (gw_sessions (update_session 0 (\<lambda>s. s\<lparr>gs_connectionId := Some (js ''c'')\<rparr>) sample_attached) ! 0) = [Observe]"
    by (simp_all add: update_session_def sample_attached_def sample_session_def)
  have start: "\<not> gs_closed (gw_sessions sample_attached ! 0)" "\<not> gs_connected (gw_sessions sample_attached ! 0)"
    "gw_desktopId sample_attached = js ''k''" "gs_deviceId (gw_sessions sample_attached ! 0) = js ''d''"
    by (simp_all add: sample_attached_def sample_session_def sample_start_def new_gateway_def)
  have rest: "reconcile_acp sample_env 0 a sample_greeted = sample_greeted" for a
    by (simp add: reconcile_acp_def Let_def sample_env_def)
  have last_seq: "update_session 0 (\<lambda>s. s\<lparr>gs_lastSentSeq := 0\<rparr>) sample_greeted = sample_greeted"
    by (simp add: update_session_def sample_greeted_def sample_session_def)
  have number: "\<not> nullish (int_value 0)" by (simp add: nullish_def int_value_def)
  have now: "ge_now sample_env = 1" by (simp add: sample_env_def)
  show ?thesis
    by (simp add: receive_def hello_def sbind_def of_protocol_def sample_frames_valid(1) [folded PROTOCOL_VERSION_def] sample_view
        Let_def start the_gs_def on_gs_def sample_hello_fields steps sample_granted name sample_reply [simplified] now send sync
        number rest last_seq)
qed


definition sample_event :: json where
  "sample_event = event_object (js ''e'') 1 (js ''event-1'') 1 (js ''desktop.status'') (JObj []) None"

definition sample_input :: append_input where
  "sample_input = \<lparr>ai_type = lit_value ''desktop.status'', ai_payload = None, ai_id = None, ai_at = None, ai_audience = None\<rparr>"

definition told_hub :: desktop where
  "told_hub = sample_hub\<lparr>ds_log := (ds_log sample_hub)\<lparr>el_events := [\<lparr>ev_seq = 1, ev_value = sample_event,
     ev_bytes = int (json_bytes sample_event)\<rparr>], el_totalBytes := int (json_bytes sample_event), el_currentSeq := 1\<rparr>,
     ds_heard := [sample_event]\<rparr>"

definition sample_told :: gateway where
  "sample_told = sample_greeted\<lparr>gw_hub := told_hub\<rparr>"

definition sample_synced :: gateway where
  "sample_synced = sample_told\<lparr>gw_sessions := [(gw_sessions sample_greeted ! 0)\<lparr>gs_lastSentSeq := 1,
     gs_sent := [sample_frame ''hello'' sample_reply_body 0 ''hello-1'', sample_frame ''event'' sample_event_body 1 ''event-1'']\<rparr>]\<rparr>"

lemma sample_event_size: "json_bytes sample_event \<le> 4000"
  by (simp add: sample_event_def event_object_def obj_def exec_simps)

lemma sample_append: "append_event 1 sample_input sample_hub = (told_hub, Inr sample_event)"
proof -
  have name: "event_object (js ''e'') 1 (js ''event-'' @ [49]) 1 (js ''desktop.status'') (JObj []) None = sample_event"
    by (simp add: sample_event_def js_def)
  have "log_append 1 sample_input (ds_log sample_hub) = Inr (ds_log told_hub, sample_event)"
    using sample_event_size
    by (simp add: log_append_def sample_input_def lit_value_def EVENT_TYPES_def log_safe_integer_def is_safe_def max_safe_integer_def
        Let_def nullish_def int_text_def digits_of.simps name sample_hub_def told_hub_def
        trim_to_limits_def trim_events.simps)
  then show ?thesis by (simp add: append_event_def told_hub_def sample_hub_def)
qed

lemma sample_synchronize: "synchronize_session sample_env 0 sample_told = (sample_synced, Inr True)"
proof -
  let ?s = "gw_sessions sample_greeted ! 0"
  have fields: "field sample_event ''id'' = str_value (js ''event-1'')" "field sample_event ''seq'' = int_value 1"
    "field sample_event ''at'' = int_value 1" "field sample_event ''type'' = lit_value ''desktop.status''"
    "field sample_event ''payload'' = Some (JObj [])" "field sample_event ''audience'' = None"
    by (simp_all add: sample_event_def event_object_def field_def exec_simps str_value_def int_value_def lit_value_def)
  have body: "event_body sample_event = sample_event_body"
    by (simp add: event_body_def fields payload_of_def sample_event_body_def lit_value_def jset_def)
  have wanted: "accepts_event ?s sample_event"
    by (simp add: accepts_event_def fields Let_def TERMINAL_EVENT_TYPES_def member_text_def lit_value_def js_def)
  have session: "gs_connected ?s" "\<not> gs_closed ?s" "gs_lastSentSeq ?s = 0" "gs_deviceId ?s = js ''d''" "gs_connectionId ?s = Some (js ''c'')"
    by (simp_all add: sample_greeted_def sample_session_def)
  have told: "gw_sessions sample_told = [?s]" "gw_epoch sample_told = js ''e''" "gw_desktopId sample_told = js ''k''"
    "gw_hub sample_told = told_hub"
    by (simp_all add: sample_told_def sample_greeted_def sample_attached_def sample_start_def new_gateway_def)
  have c: "safe_cursor (Some (cursor_json (js ''e'') 0)) = Inr (Some (js ''e'', 0))"
    by (rule session_cursor) (simp_all add: is_safe_def max_safe_integer_def)
  have "desktop_replay (Some (JStr (js ''e''))) (Some (JInt 0)) told_hub = Inr (Replay (js ''e'') 1 1 [sample_event])"
    by (simp add: desktop_replay_def log_replay_def told_hub_def sample_hub_def log_safe_id_def log_safe_integer_def is_safe_def
        max_safe_integer_def)
  then have sync: "gateway_synchronize sample_env (Some (cursor_json (js ''e'') 0)) sample_told =
      (sample_told, Inr (Sync_replay (js ''e'') 1 1 [sample_event]))"
    using c told by (simp add: gateway_synchronize_def hub_synchronize_def)
  let ?f = "sample_frame ''event'' sample_event_body 1 ''event-1''"
  have "send sample_env 0 Event sample_event_body (str_value (js ''event-1'')) (int_value 1) (int_value 1) sample_told =
      (update_session 0 (\<lambda>s. s\<lparr>gs_sent := gs_sent s @ [?f]\<rparr>) sample_told, Inr True)"
    using session told by (simp add: send_def sbind_def of_protocol_def sample_frame_of PROTOCOL_VERSION_def sample_frames_valid(3)
        the_gs_def on_gs_def sample_env_def)
  moreover have "update_session 0 (\<lambda>s. s\<lparr>gs_lastSentSeq := 1\<rparr>) (update_session 0 (\<lambda>s. s\<lparr>gs_lastSentSeq := 1\<rparr>)
      (update_session 0 (\<lambda>s. s\<lparr>gs_sent := gs_sent s @ [?f]\<rparr>) sample_told)) = sample_synced"
    using told by (simp add: update_session_def sample_synced_def) (simp add: sample_told_def sample_greeted_def sample_session_def)
  ultimately show ?thesis
    using session told by (simp add: synchronize_session_def sbind_def the_gs_def on_gs_def sync wanted body fields int_value_def is_safe_def
        max_safe_integer_def)
qed


lemma sample_run: "run_synchronization sample_env sample_told = sample_synced"
proof -
  have told: "gw_open sample_told = [0]" "\<not> gw_disposed sample_told"
    by (simp_all add: sample_told_def sample_greeted_def sample_attached_def sample_start_def new_gateway_def)
  have "reconcile_acp sample_env 0 None sample_told = sample_told" by (simp add: reconcile_acp_def Let_def sample_env_def)
  then show ?thesis using told sample_synchronize by (simp add: run_synchronization_def synchronize_or_close_def)
qed

lemma sample_reach: "gateway_reach sample_told" "gateway_reach sample_synced"
proof -
  have "log_inv (ds_log sample_hub)" "log_named (ds_log sample_hub)"
    by (simp_all add: sample_hub_def log_inv_def log_named_def)
  then have "gateway_reach sample_start" unfolding sample_start_def by (intro Reach_start) simp_all
  then have a: "gateway_reach sample_attached"
    using Reach_step Step_attach [of sample_start "lit_value ''d''" "Some (JArr [JStr (js ''observe'')])"] sample_attach by fastforce
  have "gateway_reach (fst (receive sample_env 0 (sample_frame ''hello'' sample_hello_body 0 ''h'') sample_attached))"
    by (rule Reach_step [OF a Step_receive]) (simp add: sample_attached_def)
  then have "gateway_reach sample_greeted" using sample_receive by simp
  moreover have "gw_hub sample_greeted = sample_hub"
    by (simp add: sample_greeted_def sample_attached_def sample_start_def new_gateway_def)
  moreover have "evolves sample_hub told_hub"
    using append_event_evolves [of sample_hub 1 sample_input] sample_append by simp
  ultimately show told: "gateway_reach sample_told"
    unfolding sample_told_def using Reach_step Step_hub by fastforce
  show "gateway_reach sample_synced" using Reach_step [OF told Step_synchronize [of sample_told sample_env]] sample_run by simp
qed

theorem gateway_frames_in_order_witness:
  "\<exists>s. s \<in> set (gw_sessions sample_synced) \<and> length (gs_sent s) = 2 \<and> event_seqs s = [1] \<and> gs_connected s \<and> Observe \<in> set (gs_capabilities s)
     \<and> frame_ok (js ''k'') (js ''e'') s (sample_frame ''event'' sample_event_body 1 ''event-1'')
     \<and> gs_lastSentSeq s \<le> el_currentSeq (ds_log (gw_hub sample_synced))"
proof -
  let ?s = "gw_sessions sample_synced ! 0" and ?f = "sample_frame ''event'' sample_event_body 1 ''event-1''"
  have s: "gw_sessions sample_synced = [?s]" "length (gs_sent ?s) = 2" "gs_connected ?s" "?f \<in> set (gs_sent ?s)"
    "gw_desktopId sample_synced = js ''k''" "gw_epoch sample_synced = js ''e''"
    by (simp_all add: sample_synced_def sample_told_def sample_greeted_def sample_attached_def sample_start_def new_gateway_def
        sample_session_def)
  have "event_seqs ?s = [1]"
    by (simp add: event_seqs_def sample_synced_def view_envelope_def sample_frame_def field_def exec_simps kind_of_def KINDS_def
        the_int_def)
  then show ?thesis
    using gateway_frames_in_order [OF sample_reach(2), of ?s] s by (metis list.set_intros(1))
qed

theorem gateway_synchronize_exact_witness:
  "synchronize_session sample_env 0 sample_told = (sample_synced, Inr True)
   \<and> frames_due sample_told (gw_sessions sample_told ! 0) (missing_events sample_told (gw_sessions sample_told ! 0)) =
       [sample_frame ''event'' sample_event_body 1 ''event-1'']"
proof -
  let ?s = "gw_sessions sample_told ! 0"
  have told: "0 < length (gw_sessions sample_told)" "gs_connected ?s" "gs_lastSentSeq ?s = 0"
    "gs_sent ?s = [sample_frame ''hello'' sample_reply_body 0 ''hello-1'']"
    "gw_epoch sample_told = js ''e''" "gw_hub sample_told = told_hub"
    by (simp_all add: sample_told_def sample_greeted_def sample_session_def sample_attached_def sample_start_def new_gateway_def)
  have log: "el_epoch (ds_log told_hub) = js ''e''" "is_safe (el_currentSeq (ds_log told_hub))" "el_droppedThrough (ds_log told_hub) = 0"
    by (simp_all add: told_hub_def sample_hub_def is_safe_def max_safe_integer_def)
  have sent: "gs_sent (gw_sessions sample_synced ! 0) = gs_sent ?s @ [sample_frame ''event'' sample_event_body 1 ''event-1'']"
    unfolding told(4) by (simp add: sample_synced_def)
  have "gs_sent (gw_sessions sample_synced ! 0) = gs_sent ?s @ frames_due sample_told ?s (missing_events sample_told ?s)"
    using gateway_synchronize_exact [OF sample_reach(1) told(1,2) _ _ _ sample_synchronize] told log by simp
  then show ?thesis using sent sample_synchronize by simp
qed












end
