(* ===== verification/Gateway_Streams.thy ===== *)
theory Gateway_Streams
  imports Gateway_Properties
begin

text \<open>
  Who watches which terminal. A session holds a marker per terminal, a stream lists its members, and a
  call of \<open>#subscribeTerminal\<close> that waits is told from later ones by its generation. The invariant relates
  the three; it is stays by every method of the gateway.
\<close>

section \<open>The relation\<close>

text \<open>The markers of the sessions, the members of the streams and their keys, as functions of the index.\<close>

definition slot :: "gateway \<Rightarrow> nat \<Rightarrow> jstr \<Rightarrow> subscription option" where
  "slot g i k = (if i < length (gw_sessions g) then jget (gs_subscriptions (gw_sessions g ! i)) k else None)"

definition generation_of :: "gateway \<Rightarrow> nat \<Rightarrow> jstr \<Rightarrow> nat option" where
  "generation_of g i k = (if i < length (gw_sessions g) then jget (gs_generations (gw_sessions g ! i)) k else None)"

definition members_of :: "gateway \<Rightarrow> nat \<Rightarrow> nat list" where
  "members_of g t = (if t < length (gw_streams g) then sm_members (gw_streams g ! t) else [])"

definition key_of :: "gateway \<Rightarrow> nat \<Rightarrow> jstr" where
  "key_of g t = (if t < length (gw_streams g) then sm_key (gw_streams g ! t) else [])"

definition linked :: "(nat \<Rightarrow> jstr \<Rightarrow> subscription option) \<Rightarrow> (nat \<Rightarrow> jstr) \<Rightarrow> (nat \<Rightarrow> nat list) \<Rightarrow> bool" where
  "linked sl key mem \<longleftrightarrow>
     (\<forall>t. distinct (mem t) \<and> length (mem t) \<le> MAX_TERMINAL_OBSERVERS)
     \<and> (\<forall>t. \<forall>i \<in> set (mem t). \<exists>m. sl i (key t) = Some m \<and> sb_stream m = t)
     \<and> (\<forall>i k m. sl i k = Some m \<longrightarrow> key (sb_stream m) = k \<and> i \<in> set (mem (sb_stream m)))"

lemma linkedD:
  assumes "linked sl key mem"
  shows "distinct (mem t)" "length (mem t) \<le> MAX_TERMINAL_OBSERVERS"
    "i \<in> set (mem t) \<Longrightarrow> \<exists>m. sl i (key t) = Some m \<and> sb_stream m = t"
    "sl i k = Some m \<Longrightarrow> key (sb_stream m) = k" "sl i k = Some m \<Longrightarrow> i \<in> set (mem (sb_stream m))"
  using assms unfolding linked_def by simp_all

lemma linkedI:
  assumes "\<And>t. distinct (mem t)" "\<And>t. length (mem t) \<le> MAX_TERMINAL_OBSERVERS"
    "\<And>t i. i \<in> set (mem t) \<Longrightarrow> \<exists>m. sl i (key t) = Some m \<and> sb_stream m = t"
    "\<And>i k m. sl i k = Some m \<Longrightarrow> key (sb_stream m) = k" "\<And>i k m. sl i k = Some m \<Longrightarrow> i \<in> set (mem (sb_stream m))"
  shows "linked sl key mem"
  using assms unfolding linked_def by simp

lemma linked_detach:
  assumes "linked sl key mem" "sl i k = Some m"
  shows "linked (sl(i := (sl i)(k := None))) key (mem(sb_stream m := removeAll i (mem (sb_stream m))))"
proof -
  let ?t = "sb_stream m"
  note d = linkedD [OF assms(1)]
  have k: "key ?t = k" by (rule d(4) [OF assms(2)])
  have len: "length (removeAll i (mem ?t)) \<le> MAX_TERMINAL_OBSERVERS"
    using length_removeAll_less_eq [of i "mem ?t"] d(2) [of ?t] by (rule order_trans)
  show ?thesis
  proof (rule linkedI)
    fix t show "distinct ((mem(?t := removeAll i (mem ?t))) t)" using d(1) by (simp add: distinct_removeAll)
    show "length ((mem(?t := removeAll i (mem ?t))) t) \<le> MAX_TERMINAL_OBSERVERS" using d(2) len by simp
  next
    fix t j assume "j \<in> set ((mem(?t := removeAll i (mem ?t))) t)"
    then have j: "j \<in> set (mem t)" "j = i \<Longrightarrow> t \<noteq> ?t" by (simp_all split: if_splits)
    then obtain m' where m': "sl j (key t) = Some m'" "sb_stream m' = t" using d(3) by blast
    have "key t \<noteq> k" if "j = i"
    proof
      assume "key t = k"
      then have "m' = m" using m'(1) assms(2) that by simp
      then show False using m'(2) j(2) [OF that] by simp
    qed
    then have "(sl(i := (sl i)(k := None))) j (key t) = Some m'" using m'(1) by (cases "j = i") simp_all
    then show "\<exists>m'. (sl(i := (sl i)(k := None))) j (key t) = Some m' \<and> sb_stream m' = t" using m'(2) by blast
  next
    fix j k' m' assume "(sl(i := (sl i)(k := None))) j k' = Some m'"
    then have s: "sl j k' = Some m'" "j = i \<Longrightarrow> k' \<noteq> k" by (simp_all split: if_splits)
    show "key (sb_stream m') = k'" by (rule d(4) [OF s(1)])
    have "sb_stream m' \<noteq> ?t" if "j = i" using s(2) [OF that] d(4) [OF s(1)] k by metis
    then show "j \<in> set ((mem(?t := removeAll i (mem ?t))) (sb_stream m'))" using d(5) [OF s(1)] by auto
  qed
qed

lemma linked_join:
  assumes "linked sl key mem" "sl i (key t) = None" "length (mem t) < MAX_TERMINAL_OBSERVERS" "sb_stream m = t"
  shows "linked (sl(i := (sl i)(key t := Some m))) key (mem(t := mem t @ [i]))"
proof -
  note d = linkedD [OF assms(1)]
  have out: "i \<notin> set (mem t)" using d(3) [of i t] assms(2) by auto
  show ?thesis
  proof (rule linkedI)
    fix u show "distinct ((mem(t := mem t @ [i])) u)" using d(1) out by simp
    show "length ((mem(t := mem t @ [i])) u) \<le> MAX_TERMINAL_OBSERVERS" using d(2) assms(3) by simp
  next
    fix u j assume "j \<in> set ((mem(t := mem t @ [i])) u)"
    then consider "j = i" "u = t" | "j \<in> set (mem u)" by (auto split: if_splits)
    then show "\<exists>m'. (sl(i := (sl i)(key t := Some m))) j (key u) = Some m' \<and> sb_stream m' = u"
    proof cases
      case 1
      then show ?thesis using assms(4) by simp
    next
      case 2
      then obtain m' where m': "sl j (key u) = Some m'" "sb_stream m' = u" using d(3) by blast
      then have "\<not> (j = i \<and> key u = key t)" using assms(2) by auto
      then have "(sl(i := (sl i)(key t := Some m))) j (key u) = Some m'" using m'(1) by (cases "j = i") simp_all
      then show ?thesis using m'(2) by blast
    qed
  next
    fix j k' m' assume "(sl(i := (sl i)(key t := Some m))) j k' = Some m'"
    then have both: "j = i \<and> k' = key t \<and> m' = m \<or> sl j k' = Some m'" unfolding fun_upd_apply by (simp split: if_splits)
    show "key (sb_stream m') = k'" using both assms(4) d(4) [of j k' m'] by blast
    show "j \<in> set ((mem(t := mem t @ [i])) (sb_stream m'))"
    proof (cases "sl j k' = Some m'")
      case True
      then show ?thesis using d(5) [OF True] by auto
    next
      case False
      then show ?thesis using both assms(4) by simp
    qed
  qed
qed

lemma linked_fresh:
  assumes "linked sl key mem" "mem t = []"
  shows "linked sl (key(t := k)) mem"
proof -
  note d = linkedD [OF assms(1)]
  show ?thesis
  proof (rule linkedI)
    fix u i assume "i \<in> set (mem u)"
    then show "\<exists>m. sl i ((key(t := k)) u) = Some m \<and> sb_stream m = u" using d(3) [of i u] assms(2) by auto
  next
    fix i k' m assume s: "sl i k' = Some m"
    have "sb_stream m \<noteq> t" using d(5) [OF s] assms(2) by auto
    then show "(key(t := k)) (sb_stream m) = k'" using d(4) [OF s] by simp
  qed (use d in simp_all)
qed

section \<open>Calls that wait\<close>

definition call_key :: "subscribe_call \<Rightarrow> jstr" where
  "call_key c = command_key (sc_command c)"

fun awaits :: "subscribe_wait \<Rightarrow> nat option" where
  "awaits Detaching = None"
| "awaits (Finding t) = t"
| "awaits (Awaiting_setup t) = Some t"

definition call_ok :: "gateway \<Rightarrow> nat \<Rightarrow> subscribe_call \<Rightarrow> bool" where
  "call_ok g n c \<longleftrightarrow> n < gw_fresh g \<and> sc_session c < length (gw_sessions g)
     \<and> (\<exists>v. generation_of g (sc_session c) (call_key c) = Some v \<and> sc_generation c \<le> v
          \<and> (sc_generation c = v \<longrightarrow> slot g (sc_session c) (call_key c) = None))
     \<and> (\<forall>t. awaits (sc_wait c) = Some t \<longrightarrow> t < length (gw_streams g) \<and> key_of g t = call_key c)"

definition calls_differ :: "(nat, subscribe_call) jmap \<Rightarrow> bool" where
  "calls_differ calls \<longleftrightarrow> (\<forall>n n' c c'. jget calls n = Some c \<longrightarrow> jget calls n' = Some c' \<longrightarrow> n \<noteq> n' \<longrightarrow>
     sc_session c = sc_session c' \<longrightarrow> call_key c = call_key c' \<longrightarrow> sc_generation c \<noteq> sc_generation c')"

definition streams_ok :: "gateway \<Rightarrow> bool" where
  "streams_ok g \<longleftrightarrow> linked (slot g) (key_of g) (members_of g)
     \<and> (\<forall>k t. jget (gw_live g) k = Some t \<longrightarrow> t < length (gw_streams g) \<and> key_of g t = k)
     \<and> (\<forall>n c. jget (gw_calls g) n = Some c \<longrightarrow> call_ok g n c) \<and> calls_differ (gw_calls g)"

definition closed_empty :: "gateway \<Rightarrow> bool" where
  "closed_empty g \<longleftrightarrow> (\<forall>i < length (gw_sessions g). gs_closed (gw_sessions g ! i) \<longrightarrow> (\<forall>k. slot g i k = None))"

text \<open>Everything the relation speaks of is the same.\<close>

definition same_view :: "gateway \<Rightarrow> gateway \<Rightarrow> bool" where
  "same_view g g' \<longleftrightarrow>
     map (\<lambda>s. (gs_subscriptions s, gs_generations s, gs_closed s)) (gw_sessions g') =
       map (\<lambda>s. (gs_subscriptions s, gs_generations s, gs_closed s)) (gw_sessions g)
     \<and> map (\<lambda>x. (sm_key x, sm_members x)) (gw_streams g') = map (\<lambda>x. (sm_key x, sm_members x)) (gw_streams g)
     \<and> gw_live g' = gw_live g \<and> gw_calls g' = gw_calls g \<and> gw_fresh g' = gw_fresh g"

lemma same_view_parts:
  assumes "same_view g g'"
  shows "length (gw_sessions g') = length (gw_sessions g)" "length (gw_streams g') = length (gw_streams g)"
    "slot g' = slot g" "generation_of g' = generation_of g" "members_of g' = members_of g" "key_of g' = key_of g"
    "i < length (gw_sessions g) \<Longrightarrow> gs_closed (gw_sessions g' ! i) = gs_closed (gw_sessions g ! i)"
proof -
  let ?f = "\<lambda>s. (gs_subscriptions s, gs_generations s, gs_closed s)" and ?h = "\<lambda>x. (sm_key x, sm_members x)"
  have m: "map ?f (gw_sessions g') = map ?f (gw_sessions g)" "map ?h (gw_streams g') = map ?h (gw_streams g)"
    using assms by (simp_all add: same_view_def)
  show len: "length (gw_sessions g') = length (gw_sessions g)" "length (gw_streams g') = length (gw_streams g)"
    using arg_cong [OF m(1), of length] arg_cong [OF m(2), of length] by simp_all
  have s: "?f (gw_sessions g' ! i) = ?f (gw_sessions g ! i)" if "i < length (gw_sessions g)" for i
    using arg_cong [OF m(1), of "\<lambda>l. l ! i"] that len by simp
  have t: "?h (gw_streams g' ! i) = ?h (gw_streams g ! i)" if "i < length (gw_streams g)" for i
    using arg_cong [OF m(2), of "\<lambda>l. l ! i"] that len by simp
  show "slot g' = slot g" "generation_of g' = generation_of g" using s len by (auto simp: slot_def generation_of_def fun_eq_iff)
  show "members_of g' = members_of g" "key_of g' = key_of g" using t len by (auto simp: members_of_def key_of_def fun_eq_iff)
  show "i < length (gw_sessions g) \<Longrightarrow> gs_closed (gw_sessions g' ! i) = gs_closed (gw_sessions g ! i)" using s by simp
qed

lemma same_view_ok:
  assumes "same_view g g'"
  shows "streams_ok g' = streams_ok g" "closed_empty g' = closed_empty g"
  using same_view_parts [OF assms] assms
  by (simp_all add: streams_ok_def call_ok_def closed_empty_def same_view_def)

lemma same_view_refl [simp]: "same_view g g"
  by (simp add: same_view_def)

lemma same_view_trans: "same_view g h \<Longrightarrow> same_view h k \<Longrightarrow> same_view g k"
  by (simp add: same_view_def)


section \<open>Steps that change no marker\<close>

lemma same_view_update_session:
  assumes "\<And>s. gs_subscriptions (f s) = gs_subscriptions s" "\<And>s. gs_generations (f s) = gs_generations s" "\<And>s. gs_closed (f s) = gs_closed s"
  shows "same_view g (update_session i f g)"
proof (cases "i < length (gw_sessions g)")
  case True
  then show ?thesis using assms by (simp add: same_view_def update_session_def map_update) (metis (lifting) list_update_id nth_map)
qed (simp add: same_view_def update_session_def list_update_beyond)

lemma same_view_update_stream:
  assumes "\<And>x. sm_key (f x) = sm_key x" "\<And>x. sm_members (f x) = sm_members x"
  shows "same_view g (update_stream t f g)"
proof (cases "t < length (gw_streams g)")
  case True
  then show ?thesis using assms by (simp add: same_view_def update_stream_def map_update) (metis (lifting) list_update_id nth_map)
qed (simp add: same_view_def update_stream_def list_update_beyond)

lemma same_view_fields [simp]:
  "same_view g (g\<lparr>gw_open := a\<rparr>)" "same_view g (g\<lparr>gw_hub := b\<rparr>)" "same_view g (g\<lparr>gw_errors := e\<rparr>)" "same_view g (g\<lparr>gw_logged := l\<rparr>)"
  "same_view g (g\<lparr>gw_control := k\<rparr>)" "same_view g (g\<lparr>gw_router := r\<rparr>)" "same_view g (g\<lparr>gw_disposed := m\<rparr>)"
  by (simp_all add: same_view_def)

lemma same_view_diagnostic [simp]: "same_view g (record_diagnostic d g)"
  by (simp add: same_view_def record_diagnostic_def Let_def)

lemma same_view_dispose [simp]: "same_view g (maybe_dispose t g)"
  by (simp add: maybe_dispose_def Let_def same_view_update_stream)

lemma same_view_drop [simp]: "same_view g (drop_interests i t g)"
  unfolding drop_interests_def by (rule same_view_trans [OF same_view_update_stream same_view_dispose]) simp_all

lemma same_view_fold: "(\<And>x g. same_view g (f x g)) \<Longrightarrow> same_view g (fold f xs g)"
  by (induction xs arbitrary: g) (auto intro: same_view_trans)

lemma same_view_control [simp]: "same_view g (release_control i g)"
  by (simp add: release_control_def split: option.split)

lemma same_view_apply: "same_view g (apply_stream_event env t event g)"
proof -
  have "same_view g ((update_stream t (\<lambda>x. x\<lparr>sm_snapshot := s\<rparr>) g)\<lparr>gw_hub := d\<rparr>)" "same_view g (update_stream t (\<lambda>x. x\<lparr>sm_snapshot := s\<rparr>) g)" for s d
    using same_view_trans [OF same_view_update_stream same_view_fields(2)] same_view_update_stream by simp_all
  then show ?thesis by (simp add: apply_stream_event_def Let_def split: option.split sum.split)
qed

lemma same_view_handle: "same_view g (handle_stream_event env t event g)"
  using same_view_apply by (auto simp: handle_stream_event_def Let_def intro: same_view_update_stream)

lemma same_view_setup: "same_view g (setup_settled env t outcome g)"
proof -
  have u: "same_view g (update_stream t (\<lambda>x. x\<lparr>sm_setup := s\<rparr>) g)" "same_view g (update_stream t (\<lambda>x. x\<lparr>sm_pending := p\<rparr>) g)"
    "same_view g (update_stream t (\<lambda>x. x\<lparr>sm_snapshot := q\<rparr>) g)" for g s p q
    by (simp_all add: same_view_update_stream)
  have "same_view g (update_stream t (\<lambda>x. x\<lparr>sm_setup := s\<rparr>) (fold (apply_stream_event env t) es
      (update_stream t (\<lambda>x. x\<lparr>sm_pending := p\<rparr>) (update_stream t (\<lambda>x. x\<lparr>sm_snapshot := q\<rparr>) g))))" for s es p q
    by (rule same_view_trans [OF u(3) same_view_trans [OF u(2) same_view_trans [OF same_view_fold [OF same_view_apply] u(1)]]])
  moreover have "same_view g (update_stream t (\<lambda>x. x\<lparr>sm_setup := s\<rparr>) (update_stream t (\<lambda>x. x\<lparr>sm_snapshot := q\<rparr>) g))" for s q
    by (rule same_view_trans [OF u(3) u(1)])
  ultimately show ?thesis
    unfolding setup_settled_def Let_def using u by (simp split: option.split sum.split)
qed

lemma same_view_subscribe_project: "same_view g (subscribe_project env i p g)"
  unfolding subscribe_project_def using same_view_update_session [of "\<lambda>s. s\<lparr>gs_acp := gs_acp s @ [p]\<rparr>"] by (simp split: sum.split)

lemma same_view_reconcile: "same_view g (reconcile_acp env i answer g)"
proof -
  have "same_view g (fold (subscribe_project env i) ps (update_session i (\<lambda>s. s\<lparr>gs_acp := filter q (gs_acp s)\<rparr>) g))" for ps q
    by (rule same_view_trans [OF same_view_update_session same_view_fold [OF same_view_subscribe_project]]) simp_all
  then show ?thesis unfolding reconcile_acp_def Let_def by simp
qed

section \<open>Detaching\<close>

lemma view_update_session:
  assumes "i < length (gw_sessions g)"
  shows "slot (update_session i f g) = (slot g)(i := jget (gs_subscriptions (f (gw_sessions g ! i))))"
    "generation_of (update_session i f g) = (generation_of g)(i := jget (gs_generations (f (gw_sessions g ! i))))"
    "members_of (update_session i f g) = members_of g" "key_of (update_session i f g) = key_of g"
    "gw_streams (update_session i f g) = gw_streams g" "gw_live (update_session i f g) = gw_live g"
    "gw_calls (update_session i f g) = gw_calls g" "gw_fresh (update_session i f g) = gw_fresh g"
  using assms by (auto simp: slot_def generation_of_def members_of_def key_of_def update_session_def fun_eq_iff nth_list_update)

lemma view_update_stream:
  assumes "\<And>x. sm_key (f x) = sm_key x"
  shows "slot (update_stream t f g) = slot g" "generation_of (update_stream t f g) = generation_of g"
    "key_of (update_stream t f g) = key_of g" "length (gw_streams (update_stream t f g)) = length (gw_streams g)"
    "gw_sessions (update_stream t f g) = gw_sessions g" "gw_live (update_stream t f g) = gw_live g"
    "gw_calls (update_stream t f g) = gw_calls g" "gw_fresh (update_stream t f g) = gw_fresh g"
    "t < length (gw_streams g) \<Longrightarrow> members_of (update_stream t f g) = (members_of g)(t := sm_members (f (gw_streams g ! t)))"
proof -
  have nth: "(gw_streams g)[t := f (gw_streams g ! t)] ! x = (if x = t then f (gw_streams g ! t) else gw_streams g ! x)"
    if "x < length (gw_streams g)" for x
    using that by simp
  show "slot (update_stream t f g) = slot g" "generation_of (update_stream t f g) = generation_of g"
    "key_of (update_stream t f g) = key_of g" "length (gw_streams (update_stream t f g)) = length (gw_streams g)"
    "gw_sessions (update_stream t f g) = gw_sessions g" "gw_live (update_stream t f g) = gw_live g"
    "gw_calls (update_stream t f g) = gw_calls g" "gw_fresh (update_stream t f g) = gw_fresh g"
    "t < length (gw_streams g) \<Longrightarrow> members_of (update_stream t f g) = (members_of g)(t := sm_members (f (gw_streams g ! t)))"
    using assms by (auto simp: slot_def generation_of_def members_of_def key_of_def update_stream_def fun_eq_iff nth)
qed

definition frame_same :: "gateway \<Rightarrow> gateway \<Rightarrow> bool" where
  "frame_same g g' \<longleftrightarrow> length (gw_sessions g') = length (gw_sessions g) \<and> length (gw_streams g') = length (gw_streams g)
     \<and> key_of g' = key_of g \<and> gw_live g' = gw_live g \<and> gw_calls g' = gw_calls g \<and> gw_fresh g' = gw_fresh g
     \<and> (\<forall>i < length (gw_sessions g). gs_closed (gw_sessions g' ! i) = gs_closed (gw_sessions g ! i))"

lemma frame_same_trans: "frame_same g h \<Longrightarrow> frame_same h k \<Longrightarrow> frame_same g k"
  by (simp add: frame_same_def)

lemma same_view_frame: "same_view g g' \<Longrightarrow> frame_same g g'"
  using same_view_parts [of g g'] by (simp add: frame_same_def same_view_def)

lemma detach_view:
  assumes "linked (slot g) (key_of g) (members_of g)" "i < length (gw_sessions g)" and h_def: "h = detach_member i key g"
  shows "linked (slot h) (key_of h) (members_of h) \<and> slot h = (slot g)(i := (slot g i)(key := None))
    \<and> generation_of h = generation_of g \<and> frame_same g h"
proof (cases "slot g i key")
  case None
  then have "h = g" using assms(2) by (simp add: h_def detach_member_def slot_def)
  moreover have "(slot g)(i := (slot g i)(key := None)) = slot g" using None by (auto simp: fun_eq_iff)
  ultimately show ?thesis using assms(1) by (simp add: frame_same_def)
next
  case (Some m)
  let ?u = "update_session i (\<lambda>s. s\<lparr>gs_subscriptions := jdel key (gs_subscriptions s)\<rparr>) g"
  let ?v = "update_stream (sb_stream m) (\<lambda>s. s\<lparr>sm_members := removeAll i (sm_members s)\<rparr>) ?u"
  have h: "h = maybe_dispose (sb_stream m) ?v" using Some assms(2) by (simp add: h_def detach_member_def slot_def)
  have "i \<in> set (members_of g (sb_stream m))" by (rule linkedD(5) [OF assms(1) Some])
  then have t: "sb_stream m < length (gw_streams ?u)" using assms(2) by (auto simp: members_of_def view_update_session split: if_splits)
  have slot: "slot ?v = (slot g)(i := (slot g i)(key := None))"
    using assms(2) by (auto simp: view_update_stream view_update_session slot_def fun_eq_iff)
  have mem: "members_of ?v = (members_of g)(sb_stream m := removeAll i (members_of g (sb_stream m)))"
    using t assms(2) by (simp add: view_update_stream view_update_session members_of_def)
  have key: "key_of ?v = key_of g" "generation_of ?v = generation_of g"
    using assms(2) by (auto simp: view_update_stream view_update_session generation_of_def fun_eq_iff)
  have "linked (slot ?v) (key_of ?v) (members_of ?v)" using linked_detach [OF assms(1) Some] slot mem key by simp
  moreover have "frame_same g ?v"
    using assms(2) key by (simp add: frame_same_def view_update_stream view_update_session) (simp add: update_session_def nth_list_update)
  moreover have v: "same_view ?v h" unfolding h by (rule same_view_dispose)
  ultimately show ?thesis
    using slot key same_view_parts [OF v] frame_same_trans [OF _ same_view_frame [OF v]] by simp
qed


lemma call_ok_kept:
  assumes "call_ok g n c" "frame_same g h"
    and "\<And>v. generation_of g (sc_session c) (call_key c) = Some v \<Longrightarrow> \<exists>w. generation_of h (sc_session c) (call_key c) = Some w \<and> v \<le> w
      \<and> (v = w \<longrightarrow> slot g (sc_session c) (call_key c) = None \<longrightarrow> slot h (sc_session c) (call_key c) = None)"
  shows "call_ok h n c"
proof -
  obtain v where v: "generation_of g (sc_session c) (call_key c) = Some v" "sc_generation c \<le> v"
    "sc_generation c = v \<longrightarrow> slot g (sc_session c) (call_key c) = None"
    using assms(1) unfolding call_ok_def by blast
  obtain w where w: "generation_of h (sc_session c) (call_key c) = Some w" "v \<le> w"
    "v = w \<longrightarrow> slot g (sc_session c) (call_key c) = None \<longrightarrow> slot h (sc_session c) (call_key c) = None"
    using assms(3) [OF v(1)] by (elim exE conjE) (rule that)
  have "sc_generation c \<le> w" by (rule order_trans [OF v(2) w(2)])
  moreover have "slot h (sc_session c) (call_key c) = None" if "sc_generation c = w"
  proof -
    have "v = w" using v(2) w(2) that by linarith
    then show ?thesis using v(3) w(3) that by blast
  qed
  ultimately have "\<exists>w. generation_of h (sc_session c) (call_key c) = Some w \<and> sc_generation c \<le> w
      \<and> (sc_generation c = w \<longrightarrow> slot h (sc_session c) (call_key c) = None)"
    using w(1) by blast
  moreover have "gw_fresh h = gw_fresh g" "length (gw_sessions h) = length (gw_sessions g)"
    "length (gw_streams h) = length (gw_streams g)" "key_of h = key_of g"
    using assms(2) by (simp_all add: frame_same_def)
  moreover have "n < gw_fresh g" "sc_session c < length (gw_sessions g)"
    "\<forall>t. awaits (sc_wait c) = Some t \<longrightarrow> t < length (gw_streams g) \<and> key_of g t = call_key c"
    using assms(1) unfolding call_ok_def by blast+
  ultimately show ?thesis unfolding call_ok_def by (simp only:)
qed

lemma streams_ok_kept:
  assumes "streams_ok g" "frame_same g h" "linked (slot h) (key_of h) (members_of h)"
    and "\<And>i k v. generation_of g i k = Some v \<Longrightarrow> \<exists>w. generation_of h i k = Some w \<and> v \<le> w \<and> (v = w \<longrightarrow> slot g i k = None \<longrightarrow> slot h i k = None)"
  shows "streams_ok h"
proof -
  have "call_ok h n c" if "jget (gw_calls h) n = Some c" for n c
    by (rule call_ok_kept [OF _ assms(2) assms(4)]) (use assms(1,2) that in \<open>simp_all add: streams_ok_def frame_same_def\<close>)
  then show ?thesis using assms(1-3) by (simp add: streams_ok_def frame_same_def)
qed

lemma detach_ok:
  assumes "streams_ok g" "i < length (gw_sessions g)"
  shows "streams_ok (detach_member i key g)"
proof -
  have l: "linked (slot g) (key_of g) (members_of g)" using assms(1) by (simp add: streams_ok_def)
  note v = detach_view [OF l assms(2) refl, of key]
  show ?thesis
    by (rule streams_ok_kept [OF assms(1)]) (use v in auto)
qed

text \<open>\<open>cleared i ks g h\<close>: from \<open>g\<close> to \<open>h\<close> session \<open>i\<close> lost its markers under \<open>ks\<close>.\<close>

definition cleared :: "nat \<Rightarrow> jstr set \<Rightarrow> gateway \<Rightarrow> gateway \<Rightarrow> bool" where
  "cleared i ks g h \<longleftrightarrow> frame_same g h \<and> slot h = (slot g)(i := (\<lambda>k. if k \<in> ks then None else slot g i k))"

lemma detach_fold:
  assumes "streams_ok g" "i < length (gw_sessions g)"
  shows "streams_ok (fold (detach_member i) ks g) \<and> cleared i (set ks) g (fold (detach_member i) ks g)"
  using assms
proof (induction ks arbitrary: g)
  case Nil
  then show ?case by (simp add: cleared_def frame_same_def)
next
  case (Cons k ks)
  let ?h = "detach_member i k g"
  have l: "linked (slot g) (key_of g) (members_of g)" using Cons.prems(1) by (simp add: streams_ok_def)
  note v = detach_view [OF l Cons.prems(2) refl, of k]
  have len: "i < length (gw_sessions ?h)" using v Cons.prems(2) by (simp add: frame_same_def)
  note ih = Cons.IH [OF detach_ok [OF Cons.prems] len]
  have "cleared i (set (k # ks)) g (fold (detach_member i) ks ?h)"
    using ih v frame_same_trans [of g ?h] by (auto simp: cleared_def fun_eq_iff)
  then show ?case using ih by simp
qed

lemma jget_bump: "jget (map (\<lambda>e. (fst e, Suc (snd e))) m) k = map_option Suc (jget m k)"
  by (induction m) (simp_all add: jget_Cons)

lemma release_ok:
  assumes "streams_ok g" "i < length (gw_sessions g)" "h = release_gateway_session i g"
  shows "streams_ok h" "slot h = (slot g)(i := \<lambda>k. None)" "frame_same g h"
proof -
  let ?g1 = "update_session i bump_generations (g\<lparr>gw_open := removeAll i (gw_open g)\<rparr>)"
  let ?ks = "jkeys (gs_subscriptions (gw_sessions ?g1 ! i))"
  let ?g2 = "fold (detach_member i) ?ks ?g1"
  let ?g3 = "fold (drop_interests i) (map snd (gw_live ?g2)) ?g2"
  have i: "i < length (gw_sessions (g\<lparr>gw_open := removeAll i (gw_open g)\<rparr>))" using assms(2) by simp
  have v0: "slot (g\<lparr>gw_open := a\<rparr>) = slot g" "generation_of (g\<lparr>gw_open := a\<rparr>) = generation_of g" "members_of (g\<lparr>gw_open := a\<rparr>) = members_of g"
    "key_of (g\<lparr>gw_open := a\<rparr>) = key_of g" for a
    by (simp_all add: slot_def generation_of_def members_of_def key_of_def fun_eq_iff)
  have s1: "slot ?g1 = slot g" "members_of ?g1 = members_of g" "key_of ?g1 = key_of g"
    using view_update_session [OF i] v0 assms(2) by (auto simp: bump_generations_def slot_def fun_eq_iff)
  have gen: "generation_of ?g1 j k = (if j = i then map_option Suc (generation_of g j k) else generation_of g j k)" for j k
    using view_update_session(2) [OF i] v0(2) assms(2) by (simp add: bump_generations_def jget_bump generation_of_def)
  have f1: "frame_same g ?g1"
    using s1 assms(2) by (simp add: frame_same_def) (simp add: update_session_def nth_list_update bump_generations_def)
  have ok1: "streams_ok ?g1"
  proof (rule streams_ok_kept [OF assms(1) f1])
    show "linked (slot ?g1) (key_of ?g1) (members_of ?g1)" using assms(1) s1 by (simp add: streams_ok_def)
    fix j k v assume "generation_of g j k = Some v"
    then show "\<exists>w. generation_of ?g1 j k = Some w \<and> v \<le> w \<and> (v = w \<longrightarrow> slot g j k = None \<longrightarrow> slot ?g1 j k = None)"
      using gen s1 by (cases "j = i") simp_all
  qed
  have len1: "i < length (gw_sessions ?g1)" using assms(2) by simp
  note d = detach_fold [OF ok1 len1, of ?ks]
  have all: "slot ?g1 i k = None" if "k \<notin> set ?ks" for k
    using that assms(2) by (simp add: slot_def jkeys_set jget_None)
  have s2: "slot ?g2 = (slot g)(i := \<lambda>k. None)"
    using d all s1(1) by (auto simp: cleared_def fun_eq_iff)
  have v: "same_view ?g2 h"
  proof -
    have a: "same_view ?g2 ?g3" by (rule same_view_fold) simp
    have b: "same_view ?g3 (update_session i (\<lambda>s. s\<lparr>gs_acp := []\<rparr>) ?g3)" by (rule same_view_update_session) simp_all
    show ?thesis
      unfolding assms(3) release_gateway_session_def Let_def by (rule same_view_trans [OF a same_view_trans [OF b same_view_control]])
  qed
  show "streams_ok h" using d same_view_ok(1) [OF v] by simp
  show "slot h = (slot g)(i := \<lambda>k. None)" using s2 same_view_parts(3) [OF v] by simp
  show "frame_same g h"
    using frame_same_trans [OF f1 frame_same_trans [OF _ same_view_frame [OF v]]] d by (simp add: cleared_def)
qed

definition watched :: "gateway \<Rightarrow> bool" where
  "watched g \<longleftrightarrow> streams_ok g \<and> closed_empty g"

lemma watched_same: "same_view g h \<Longrightarrow> watched g \<Longrightarrow> watched h"
  using same_view_ok [of g h] by (simp add: watched_def)

lemma close_watched:
  assumes "watched g" "i < length (gw_sessions g)"
  shows "watched (fst (close_session i g)) \<and> length (gw_sessions (fst (close_session i g))) = length (gw_sessions g)"
proof (cases "gs_closed (gw_sessions g ! i)")
  case True
  then show ?thesis using assms by (simp add: close_session_def)
next
  case False
  let ?g0 = "update_session i (\<lambda>s. s\<lparr>gs_closed := True, gs_connected := False\<rparr>) g"
  let ?g1 = "release_gateway_session i ?g0"
  have view: "slot ?g0 = slot g" "generation_of ?g0 = generation_of g" "members_of ?g0 = members_of g" "key_of ?g0 = key_of g"
    using assms(2) by (auto simp: view_update_session slot_def generation_of_def fun_eq_iff)
  have "streams_ok ?g0"
    using assms view by (simp add: watched_def streams_ok_def call_ok_def view_update_session)
  then have r: "streams_ok ?g1" "slot ?g1 = (slot ?g0)(i := \<lambda>k. None)" "frame_same ?g0 ?g1"
    using release_ok [of ?g0 i ?g1] assms(2) by simp_all
  have "closed_empty ?g1"
    unfolding closed_empty_def
  proof (intro allI impI)
    fix j k assume j: "j < length (gw_sessions ?g1)" "gs_closed (gw_sessions ?g1 ! j)"
    then have "j < length (gw_sessions g)" "gs_closed (gw_sessions ?g0 ! j)" using r(3) by (simp_all add: frame_same_def)
    then show "slot ?g1 j k = None"
      using r(2) view(1) assms by (cases "j = i") (simp_all add: watched_def closed_empty_def update_session_def)
  qed
  then have w: "watched ?g1" using r(1) by (simp add: watched_def)
  have "same_view ?g1 (fst (close_session i g))"
    using False by (simp add: close_session_def Let_def split: sum.split prod.split)
  then show ?thesis
    using watched_same [OF _ w] same_view_parts(1) r(3) by (simp add: frame_same_def)
qed


section \<open>Sending and receiving\<close>

definition stays :: "nat \<Rightarrow> gateway \<Rightarrow> bool" where
  "stays i g \<longleftrightarrow> watched g \<and> i < length (gw_sessions g)"

lemma kept_same: "same_view g h \<Longrightarrow> stays i g \<Longrightarrow> stays i h"
  using watched_same same_view_parts(1) [of g h] by (auto simp: stays_def)

lemma skeeps_if: "skeeps p m \<Longrightarrow> skeeps p m' \<Longrightarrow> skeeps p (if b then m else m')"
  by simp

lemma keeps_view: "(\<And>g. same_view g (fst (m g))) \<Longrightarrow> skeeps (stays i) m"
  using kept_same by (auto simp: skeeps_def)

lemma keeps_read [simp]: "skeeps (stays i) (the_gs j f)"
  by (simp add: the_gs_def)

lemma keeps_update:
  assumes "\<And>s. gs_subscriptions (f s) = gs_subscriptions s" "\<And>s. gs_generations (f s) = gs_generations s" "\<And>s. gs_closed (f s) = gs_closed s"
  shows "skeeps (stays i) (on_gs i f)"
  by (rule keeps_view) (simp add: on_gs_def same_view_update_session assms)

lemma keeps_close: "skeeps (stays i) (close_session i)"
  using close_watched by (simp add: skeeps_def stays_def)

lemmas keeps_intros = skeeps_bind skeeps_if skeeps_pure keeps_read keeps_update keeps_close

lemma keeps_send: "skeeps (stays i) (send env i kind body name seq at)"
  unfolding send_def by (intro keeps_intros) simp_all

lemma keeps_next_id: "skeeps (stays i) (next_id i prefix)"
  unfolding next_id_def by (intro keeps_intros) simp_all

lemma keeps_send_events: "skeeps (stays i) (send_events env i last_seq events)"
proof (induction events)
  case Nil
  show ?case unfolding send_events.simps by (intro keeps_intros) simp_all
next
  case (Cons e es)
  show ?case unfolding send_events.simps by (intro keeps_intros keeps_send Cons.IH) simp_all
qed

lemma keeps_send_synchronization: "skeeps (stays i) (send_synchronization env i answer)"
proof (cases answer)
  case (Sync_snapshot reason e current revision p)
  then show ?thesis by (simp only: send_synchronization.simps, intro keeps_intros keeps_next_id keeps_send) simp_all
qed (simp add: keeps_send_events)

lemma same_view_diagnostics: "same_view g (fold record_diagnostic ds (g\<lparr>gw_hub := d\<rparr>))"
  by (rule same_view_trans [OF same_view_fields(2) same_view_fold]) simp

lemma keeps_gateway_synchronize: "skeeps (stays i) (gateway_synchronize env cursor)"
  by (rule keeps_view) (auto simp: gateway_synchronize_def same_view_diagnostics split: prod.split sum.split sync_answer.split)

lemma keeps_synchronize_session: "skeeps (stays i) (synchronize_session env i)"
  unfolding synchronize_session_def by (intro keeps_intros keeps_gateway_synchronize keeps_send_synchronization)

lemma keeps_reconcile: "skeeps (stays i) (smodify (reconcile_acp env i a))"
  by (rule keeps_view) (simp add: same_view_reconcile)

lemma keeps_hello: "skeeps (stays i) (hello env i frame)"
  unfolding hello_def Let_def
  by (intro keeps_intros keeps_next_id keeps_send keeps_gateway_synchronize keeps_reconcile keeps_send_synchronization) simp_all

lemma keeps_receive: "skeeps (stays i) (receive env i raw)"
  unfolding receive_def Let_def
  by (intro keeps_intros keeps_hello keeps_view) (auto split: sum.split prod.split)

lemma keeps_command_done: "skeeps (stays i) (command_done env i answer)"
  unfolding command_done_def by (intro keeps_intros keeps_next_id keeps_send)

lemma keepsD: "skeeps (stays i) m \<Longrightarrow> watched g \<Longrightarrow> i < length (gw_sessions g) \<Longrightarrow> watched (fst (m g)) \<and> i < length (gw_sessions (fst (m g)))"
  by (simp add: skeeps_def stays_def)


section \<open>The other steps\<close>

lemma attach_watched:
  assumes "watched g"
  shows "watched (fst (attach device capabilities g))"
proof -
  have main: "watched (g\<lparr>gw_sessions := gw_sessions g @ [s], gw_open := os\<rparr>)"
    if s: "gs_subscriptions s = []" "gs_generations s = []" for s os
  proof -
    let ?h = "g\<lparr>gw_sessions := gw_sessions g @ [s], gw_open := os\<rparr>"
    have v: "slot ?h = slot g" "generation_of ?h = generation_of g" "members_of ?h = members_of g" "key_of ?h = key_of g"
      using s by (auto simp: slot_def generation_of_def members_of_def key_of_def nth_append fun_eq_iff)
    have "call_ok ?h n c" if "call_ok g n c" for n c using that v by (auto simp: call_ok_def)
    then have "streams_ok ?h" using assms v by (simp add: watched_def streams_ok_def)
    moreover have "closed_empty ?h" using assms v s by (auto simp: watched_def closed_empty_def nth_append slot_def less_Suc_eq)
    ultimately show ?thesis by (simp add: watched_def)
  qed
  then show ?thesis using assms by (simp add: attach_def split: sum.split)
qed

lemma generation_ok:
  assumes "watched g" "i < length (gw_sessions g)" "h = update_session i (set_generation key) g"
  shows "watched h" "generation_of h i key = Some (next_generation key (gw_sessions g ! i))"
    "\<And>n c. jget (gw_calls g) n = Some c \<Longrightarrow> sc_session c = i \<Longrightarrow> call_key c = key \<Longrightarrow> sc_generation c < next_generation key (gw_sessions g ! i)"
    "frame_same g h"
proof -
  let ?v = "next_generation key (gw_sessions g ! i)"
  have view: "slot h = slot g" "members_of h = members_of g" "key_of h = key_of g"
    "generation_of h = (generation_of g)(i := (generation_of g i)(key := Some ?v))"
    using assms(2,3) by (auto simp: view_update_session set_generation_def slot_def generation_of_def fun_eq_iff)
  show frame: "frame_same g h"
    using assms(2) view unfolding assms(3)
    by (simp add: frame_same_def view_update_session) (simp add: update_session_def nth_list_update set_generation_def)
  have new: "?v = (case generation_of g i key of None \<Rightarrow> 1 | Some n \<Rightarrow> n + 1)"
    using assms(2) by (simp add: next_generation_def generation_of_def)
  have "streams_ok h"
    by (rule streams_ok_kept [OF _ frame]) (use assms(1) view new in \<open>auto simp: watched_def streams_ok_def\<close>)
  moreover have "closed_empty h" using assms(1) frame view by (simp add: watched_def closed_empty_def frame_same_def)
  ultimately show "watched h" by (simp add: watched_def)
  show "generation_of h i key = Some ?v" using view by simp
  fix n c assume c: "jget (gw_calls g) n = Some c" "sc_session c = i" "call_key c = key"
  then have "call_ok g n c" using assms(1) by (simp add: watched_def streams_ok_def)
  then obtain v where "generation_of g i key = Some v" "sc_generation c \<le> v" using c by (auto simp: call_ok_def)
  then show "sc_generation c < ?v" using new by simp
qed

lemma detach_watched:
  assumes "watched g" "i < length (gw_sessions g)"
  shows "watched (detach_member i key g)" "frame_same g (detach_member i key g)"
    "slot (detach_member i key g) i key = None" "generation_of (detach_member i key g) = generation_of g"
proof -
  have l: "linked (slot g) (key_of g) (members_of g)" using assms(1) by (simp add: watched_def streams_ok_def)
  note v = detach_view [OF l assms(2) refl, of key]
  show "frame_same g (detach_member i key g)" "slot (detach_member i key g) i key = None"
    "generation_of (detach_member i key g) = generation_of g" using v by simp_all
  show "watched (detach_member i key g)"
    using detach_ok [of g i key] assms v by (auto simp: watched_def closed_empty_def frame_same_def)
qed

lemma unsubscribe_watched:
  assumes "watched g" "i < length (gw_sessions g)"
  shows "watched (unsubscribe_terminal i command g)"
  unfolding unsubscribe_terminal_def
  using detach_watched(1) [OF generation_ok(1) [OF assms refl]] assms(2) by simp

lemma begin_watched:
  assumes "watched g" "i < length (gw_sessions g)"
  shows "watched (fst (subscribe_begin i command g))"
proof (cases "gs_closed (gw_sessions g ! i)")
  case True
  then show ?thesis using assms by (simp add: subscribe_begin_def)
next
  case False
  let ?key = "command_key command" and ?v = "next_generation (command_key command) (gw_sessions g ! i)"
  let ?g1 = "update_session i (set_generation ?key) g"
  let ?g2 = "detach_member i ?key ?g1"
  let ?c = "\<lparr>sc_session = i, sc_command = command, sc_generation = ?v, sc_wait = Detaching\<rparr>"
  let ?h = "?g2\<lparr>gw_fresh := gw_fresh ?g2 + 1, gw_calls := jset (gw_fresh ?g2) ?c (gw_calls ?g2)\<rparr>"
  note g1 = generation_ok [OF assms, where key = ?key, OF refl]
  have len: "i < length (gw_sessions ?g1)" using assms(2) by simp
  note g2 = detach_watched [OF g1(1) len, of ?key]
  have f: "frame_same g ?g2" by (rule frame_same_trans [OF g1(4) g2(2)])
  have len2: "i < length (gw_sessions ?g2)" using f assms(2) by (simp add: frame_same_def)
  have ok: "streams_ok ?g2" using g2(1) by (simp add: watched_def)
  have old: "call_ok ?g2 n c" "n < gw_fresh ?g2" if "jget (gw_calls ?g2) n = Some c" for n c
    using ok that by (simp_all add: streams_ok_def call_ok_def)
  have view: "slot ?h = slot ?g2" "generation_of ?h = generation_of ?g2" "key_of ?h = key_of ?g2" "members_of ?h = members_of ?g2"
    by (simp_all add: slot_def generation_of_def key_of_def members_of_def fun_eq_iff)
  have new: "call_ok ?h (gw_fresh ?g2) ?c"
    using len2 view g1(2) g2(3,4) by (simp add: call_ok_def call_key_def)
  have calls: "call_ok ?h n c" if "jget (gw_calls ?h) n = Some c" for n c
  proof (cases "n = gw_fresh ?g2")
    case True
    then show ?thesis using that new by simp
  next
    case False
    then have "call_ok ?g2 n c" using that old by simp
    then show ?thesis using view by (simp add: call_ok_def)
  qed
  have gen: "sc_generation c < ?v" if "jget (gw_calls ?g2) n = Some c" "sc_session c = i" "call_key c = ?key" for n c
    using g1(3) that f by (simp add: frame_same_def)
  have "calls_differ (gw_calls ?h)"
    unfolding calls_differ_def
  proof (intro allI impI)
    fix n n' c c'
    assume c: "jget (gw_calls ?h) n = Some c" "jget (gw_calls ?h) n' = Some c'" "n \<noteq> n'" "sc_session c = sc_session c'" "call_key c = call_key c'"
    consider "n = gw_fresh ?g2" | "n' = gw_fresh ?g2" | "n \<noteq> gw_fresh ?g2" "n' \<noteq> gw_fresh ?g2" by blast
    then show "sc_generation c \<noteq> sc_generation c'"
    proof cases
      case 1
      then show ?thesis using c gen [of n' c'] by (auto simp: call_key_def)
    next
      case 2
      then show ?thesis using c gen [of n c] by (auto simp: call_key_def)
    next
      case 3
      then show ?thesis using c ok unfolding streams_ok_def calls_differ_def by auto
    qed
  qed
  then have "streams_ok ?h" using ok calls view by (simp add: streams_ok_def)
  moreover have "closed_empty ?h" using g2(1) view by (simp add: watched_def closed_empty_def)
  ultimately have "watched ?h" by (simp add: watched_def)
  then show ?thesis using False by (simp add: subscribe_begin_def Let_def)
qed


lemma call_watched: "watched g \<Longrightarrow> jget (gw_calls g) n = Some c \<Longrightarrow> call_ok g n c"
  by (simp add: watched_def streams_ok_def)

lemma fewer_calls:
  assumes "watched g" "h = g\<lparr>gw_calls := jdel n (gw_calls g)\<rparr>"
  shows "watched h"
proof -
  have view: "slot h = slot g" "generation_of h = generation_of g" "key_of h = key_of g" "members_of h = members_of g"
    by (simp_all add: assms(2) slot_def generation_of_def key_of_def members_of_def fun_eq_iff)
  have "call_ok h k c" if "jget (gw_calls h) k = Some c" for k c
  proof -
    have "call_ok g k c" using that assms call_watched by (simp split: if_splits)
    then show ?thesis using view by (simp add: call_ok_def assms(2))
  qed
  moreover have "calls_differ (gw_calls h)"
    using assms(1) by (simp add: watched_def streams_ok_def calls_differ_def assms(2))
  ultimately show ?thesis
    using assms(1) view by (simp add: watched_def streams_ok_def closed_empty_def) (simp add: assms(2))
qed

lemma set_wait_watched:
  assumes "watched g" "jget (gw_calls g) n = Some c" "\<And>t. awaits w = Some t \<Longrightarrow> t < length (gw_streams g) \<and> key_of g t = call_key c"
  shows "watched (set_wait n w c g)"
proof -
  let ?h = "set_wait n w c g"
  have view: "slot ?h = slot g" "generation_of ?h = generation_of g" "key_of ?h = key_of g" "members_of ?h = members_of g"
    by (simp_all add: set_wait_def slot_def generation_of_def key_of_def members_of_def fun_eq_iff)
  have calls: "gw_calls ?h = jset n (c\<lparr>sc_wait := w\<rparr>) (gw_calls g)" by (simp add: set_wait_def)
  have "call_ok ?h k c'" if "jget (gw_calls ?h) k = Some c'" for k c'
  proof (cases "k = n")
    case True
    then have "c' = c\<lparr>sc_wait := w\<rparr>" using that by (simp add: calls)
    then show ?thesis
      using call_watched [OF assms(1,2)] assms(3) view True by (simp add: call_ok_def call_key_def set_wait_def)
  next
    case False
    then have "call_ok g k c'" using that assms(1) call_watched by (simp add: calls)
    then show ?thesis using view by (simp add: call_ok_def set_wait_def)
  qed
  moreover have "calls_differ (gw_calls ?h)"
    unfolding calls_differ_def
  proof (intro allI impI)
    fix k k' x x'
    assume x: "jget (gw_calls ?h) k = Some x" "jget (gw_calls ?h) k' = Some x'" "k \<noteq> k'" "sc_session x = sc_session x'" "call_key x = call_key x'"
    define y y' where "y = (if k = n then c else x)" and "y' = (if k' = n then c else x')"
    have y: "jget (gw_calls g) k = Some y" "sc_session y = sc_session x" "call_key y = call_key x" "sc_generation y = sc_generation x"
      using x(1) assms(2) by (auto simp: y_def calls call_key_def split: if_splits)
    have y': "jget (gw_calls g) k' = Some y'" "sc_session y' = sc_session x'" "call_key y' = call_key x'" "sc_generation y' = sc_generation x'"
      using x(2) assms(2) by (auto simp: y'_def calls call_key_def split: if_splits)
    have "calls_differ (gw_calls g)" using assms(1) by (simp add: watched_def streams_ok_def)
    then have "sc_generation y \<noteq> sc_generation y'" using y y' x(3-5) unfolding calls_differ_def by metis
    then show "sc_generation x \<noteq> sc_generation x'" using y(4) y'(4) by simp
  qed
  ultimately show ?thesis
    using assms(1) view by (simp add: watched_def streams_ok_def closed_empty_def) (simp add: set_wait_def)
qed

lemma add_stream_watched:
  assumes "watched g"
  shows "watched (add_stream command g)" "key_of (add_stream command g) (length (gw_streams g)) = command_key command"
    "length (gw_streams (add_stream command g)) = Suc (length (gw_streams g))" "gw_calls (add_stream command g) = gw_calls g"
proof -
  let ?h = "add_stream command g" and ?T = "length (gw_streams g)"
  have view: "slot ?h = slot g" "generation_of ?h = generation_of g" "members_of ?h = members_of g"
    "key_of ?h = (key_of g)(?T := command_key command)"
    by (auto simp: add_stream_def slot_def generation_of_def members_of_def key_of_def nth_append new_stream_def fun_eq_iff less_Suc_eq)
  show len: "length (gw_streams ?h) = Suc ?T" and "gw_calls ?h = gw_calls g" by (simp_all add: add_stream_def)
  show "key_of ?h ?T = command_key command" using view by simp
  have ok: "streams_ok g" using assms by (simp add: watched_def)
  have "linked (slot ?h) (key_of ?h) (members_of ?h)"
    unfolding view using linked_fresh [of "slot g" "key_of g" "members_of g" ?T] ok by (simp add: streams_ok_def members_of_def)
  moreover have "call_ok ?h n c" if "jget (gw_calls g) n = Some c" for n c
    using call_watched [OF assms that] view len by (auto simp: call_ok_def) (auto simp: add_stream_def)
  moreover have "\<forall>k t. jget (gw_live ?h) k = Some t \<longrightarrow> t < length (gw_streams ?h) \<and> key_of ?h t = k"
    using ok view len by (auto simp: streams_ok_def) (auto simp: add_stream_def less_SucI split: if_splits)
  ultimately have "streams_ok ?h" using ok by (simp add: streams_ok_def) (simp add: add_stream_def)
  then show "watched ?h" using assms view by (simp add: watched_def closed_empty_def) (simp add: add_stream_def)
qed

lemma find_watched:
  assumes "watched g" "find_stream again command g = (h, found)"
  shows "watched h" "gw_calls h = gw_calls g" "found = Some t \<Longrightarrow> t < length (gw_streams h) \<and> key_of h t = command_key command"
  using assms add_stream_watched [OF assms(1), of command]
  by (auto simp: find_stream_def watched_def streams_ok_def split: option.splits if_splits)


lemma end_call_watched: "watched g \<Longrightarrow> watched (fst (end_call n t r g))"
  unfolding end_call_def Let_def
  using fewer_calls [OF watched_same [OF same_view_dispose] refl] by simp

text \<open>Joining a stream: the session had no marker, and the stream fewer than eight members.\<close>

lemma join_watched:
  assumes "watched g" "jget (gw_calls g) n = Some c" "\<not> superseded_call c g" "t < length (gw_streams g)" "key_of g t = call_key c"
    and "length (sm_members (gw_streams g ! t)) < MAX_TERMINAL_OBSERVERS" "sb_stream m = t"
  defines "i \<equiv> sc_session c"
  defines "g1 \<equiv> update_stream t (\<lambda>x. x\<lparr>sm_members := (if i \<in> set (sm_members x) then sm_members x else sm_members x @ [i])\<rparr>) g"
  defines "h \<equiv> update_session i (\<lambda>s. s\<lparr>gs_subscriptions := jset (command_key (sc_command c)) m (gs_subscriptions s)\<rparr>) g1"
  shows "watched (h\<lparr>gw_calls := jdel n (gw_calls h)\<rparr>)"
proof -
  have ok: "streams_ok g" and l: "linked (slot g) (key_of g) (members_of g)" using assms(1) by (simp_all add: watched_def streams_ok_def)
  have call: "call_ok g n c" by (rule call_watched [OF assms(1,2)])
  have i: "i < length (gw_sessions g)" using call by (simp add: call_ok_def i_def)
  have live: "\<not> gs_closed (gw_sessions g ! i)" "generation_of g i (call_key c) = Some (sc_generation c)"
    using assms(3) i by (simp_all add: superseded_call_def generation_of_def call_key_def i_def Let_def)
  have none: "slot g i (key_of g t) = None" using call live(2) assms(5) by (auto simp: call_ok_def i_def)
  have out: "i \<notin> set (sm_members (gw_streams g ! t))"
    using linkedD(3) [OF l, of i t] none assms(4) by (auto simp: members_of_def)
  have i1: "i < length (gw_sessions g1)" using i by (simp add: g1_def update_stream_def)
  have view1: "slot g1 = slot g" "generation_of g1 = generation_of g" "key_of g1 = key_of g"
    "members_of g1 = (members_of g)(t := members_of g t @ [i])" "gw_sessions g1 = gw_sessions g" "gw_live g1 = gw_live g"
    "gw_calls g1 = gw_calls g" "gw_fresh g1 = gw_fresh g" "length (gw_streams g1) = length (gw_streams g)"
    using out assms(4) by (auto simp: g1_def view_update_stream members_of_def)
  have view: "slot h = (slot g)(i := (slot g i)(key_of g t := Some m))" "generation_of h = generation_of g" "key_of h = key_of g"
    "members_of h = (members_of g)(t := members_of g t @ [i])" "gw_live h = gw_live g" "gw_calls h = gw_calls g" "gw_fresh h = gw_fresh g"
    "length (gw_streams h) = length (gw_streams g)" "length (gw_sessions h) = length (gw_sessions g)"
    using i1 i assms(5) view1
    by (auto simp: h_def view_update_session slot_def generation_of_def call_key_def fun_eq_iff)
  let ?k = "h\<lparr>gw_calls := jdel n (gw_calls h)\<rparr>"
  have viewk: "slot ?k = slot h" "generation_of ?k = generation_of h" "key_of ?k = key_of h" "members_of ?k = members_of h"
    by (simp_all add: slot_def generation_of_def key_of_def members_of_def fun_eq_iff)
  have "linked ((slot g)(i := (slot g i)(key_of g t := Some m))) (key_of g) ((members_of g)(t := members_of g t @ [i]))"
    by (rule linked_join [OF l none _ assms(7)]) (use assms(4,6) in \<open>simp add: members_of_def\<close>)
  then have "linked (slot ?k) (key_of ?k) (members_of ?k)" by (simp only: viewk view(1,3,4))
  moreover have "call_ok ?k n' c'" if c': "jget (gw_calls ?k) n' = Some c'" for n' c'
  proof -
    have n': "n' \<noteq> n" "jget (gw_calls g) n' = Some c'" using c' view(6) by (simp_all split: if_splits)
    have ok': "call_ok g n' c'" by (rule call_watched [OF assms(1) n'(2)])
    have "slot h (sc_session c') (call_key c') = slot g (sc_session c') (call_key c')"
      if "generation_of g (sc_session c') (call_key c') = Some (sc_generation c')"
    proof (cases "sc_session c' = i \<and> call_key c' = key_of g t")
      case True
      then have "sc_generation c \<noteq> sc_generation c'"
        using ok n' assms(2,5) unfolding streams_ok_def calls_differ_def i_def by metis
      then show ?thesis using that live(2) True assms(5) by simp
    next
      case False
      then show ?thesis using view(1) by auto
    qed
    then show ?thesis using ok' viewk view by (auto simp: call_ok_def)
  qed
  moreover have "calls_differ (gw_calls ?k)" using ok view(6) by (simp add: streams_ok_def calls_differ_def)
  ultimately have s: "streams_ok ?k" using ok viewk view by (simp add: streams_ok_def)
  have "gs_closed (gw_sessions ?k ! j) = gs_closed (gw_sessions g ! j)" if "j < length (gw_sessions g)" for j
    using that view1(5) by (cases "j = i") (simp_all add: h_def update_session_def)
  then have "closed_empty ?k"
    using assms(1) live(1) view viewk by (auto simp: watched_def closed_empty_def)
  then show ?thesis using s by (simp add: watched_def)
qed

lemma commit_watched:
  assumes "watched g" "jget (gw_calls g) n = Some c" "\<not> superseded_call c g" "t < length (gw_streams g)" "key_of g t = call_key c"
  shows "watched (fst (subscribe_commit env n t c g))"
proof (cases "MAX_TERMINAL_OBSERVERS \<le> length (sm_members (gw_streams g ! t))")
  case True
  then show ?thesis using end_call_watched [OF assms(1)] by (simp add: subscribe_commit_def Let_def)
next
  case False
  have hub: "watched (fst (case x of (d, Inl e) \<Rightarrow> (k\<lparr>gw_hub := d\<rparr>, r) | (d, Inr v) \<Rightarrow> (k\<lparr>gw_hub := d\<rparr>, r')))" if "watched k" for k r r' x
    using watched_same [OF same_view_fields(2) that] by (simp split: prod.split sum.split)
  show ?thesis
  proof (cases "terminal_resume (sm_snapshot (gw_streams g ! t)) (field (sc_command c) ''payload'')")
    case (Inl e)
    then show ?thesis using end_call_watched [OF assms(1)] False by (simp add: subscribe_commit_def Let_def)
  next
    case (Inr result)
    show ?thesis
      unfolding subscribe_commit_def Let_def
      by (simp only: Inr False if_False sum.case) (rule hub, rule join_watched [OF assms], use False in simp_all)
  qed
qed

lemma resume_watched:
  assumes "watched g"
  shows "watched (fst (subscribe_resume env n g))"
proof (cases "jget (gw_calls g) n")
  case None
  then show ?thesis using assms by (simp add: subscribe_resume_def)
next
  case (Some c)
  have call: "call_ok g n c" by (rule call_watched [OF assms Some])
  have found: "watched (set_wait n (Finding f) c h)" if "find_stream again (sc_command c) g = (h, f)" for again h f
  proof (rule set_wait_watched)
    note w = find_watched [OF assms that]
    show "watched h" "jget (gw_calls h) n = Some c" using w Some by simp_all
    fix t assume "awaits (Finding f) = Some t"
    then show "t < length (gw_streams h) \<and> key_of h t = call_key c" using w(3) by (simp add: call_key_def)
  qed
  have interests: "same_view g (update_stream t (\<lambda>x. x\<lparr>sm_interests := f x\<rparr>) g)" for t f
    by (rule same_view_update_stream) simp_all
  show ?thesis
  proof (cases "sc_wait c")
    case Detaching
    then show ?thesis using Some found [of False] by (simp add: subscribe_resume_def split: prod.split)
  next
    case (Finding f)
    show ?thesis
    proof (cases f)
      case None
      then show ?thesis using Some Finding found [of True] by (simp add: subscribe_resume_def split: prod.split)
    next
      case f: (Some t)
      have t: "t < length (gw_streams g) \<and> key_of g t = call_key c" using call Finding f by (simp add: call_ok_def)
      let ?g1 = "update_stream t (\<lambda>x. x\<lparr>sm_interests := sm_interests x @ [(n, sc_session c)]\<rparr>) g"
      note v = interests [of t "\<lambda>x. sm_interests x @ [(n, sc_session c)]"]
      have "watched (set_wait n (Awaiting_setup t) c ?g1)"
        by (rule set_wait_watched [OF watched_same [OF v assms]])
          (use Some t same_view_parts [OF v] in \<open>simp_all add: update_stream_def\<close>)
      then show ?thesis
        using Some Finding f end_call_watched [OF assms] by (simp add: subscribe_resume_def)
    qed
  next
    case (Awaiting_setup t)
    let ?g1 = "update_stream t (\<lambda>x. x\<lparr>sm_interests := filter (\<lambda>e. fst e \<noteq> n) (sm_interests x)\<rparr>) g"
    note v = interests [of t "\<lambda>x. filter (\<lambda>e. fst e \<noteq> n) (sm_interests x)"]
    have w: "watched ?g1" by (rule watched_same [OF v assms])
    have t: "t < length (gw_streams ?g1)" "key_of ?g1 t = call_key c" "jget (gw_calls ?g1) n = Some c"
      using call Awaiting_setup Some same_view_parts [OF v] by (simp_all add: call_ok_def update_stream_def)
    have "\<not> superseded_call c ?g1 \<Longrightarrow> watched (fst (subscribe_commit env n t c ?g1))"
      by (rule commit_watched [OF w t(3) _ t(1,2)])
    then show ?thesis
      using assms Some Awaiting_setup end_call_watched [OF w] by (simp add: subscribe_resume_def Let_def split: stream_setup.split)
  qed
qed


lemma dispose_finished_watched:
  assumes "watched g"
  shows "watched (dispose_finished t failure g)"
proof -
  have less: "watched (h\<lparr>gw_live := jdel k (gw_live h)\<rparr>)" if h: "watched h" for h k
  proof -
    let ?k = "h\<lparr>gw_live := jdel k (gw_live h)\<rparr>"
    have view: "slot ?k = slot h" "generation_of ?k = generation_of h" "key_of ?k = key_of h" "members_of ?k = members_of h"
      by (simp_all add: slot_def generation_of_def key_of_def members_of_def fun_eq_iff)
    have "call_ok ?k n c = call_ok h n c" for n c by (simp add: call_ok_def view)
    then show ?thesis using h by (simp add: watched_def streams_ok_def closed_empty_def view)
  qed
  have d: "watched (case failure of None \<Rightarrow> g | Some code \<Rightarrow> record_diagnostic (f code) g)" for f
    using assms watched_same [OF same_view_diagnostic assms] by (simp split: option.split)
  show ?thesis unfolding dispose_finished_def Let_def using d less by simp
qed

lemma watched_fold:
  assumes "\<And>i g. watched g \<Longrightarrow> i < length (gw_sessions g) \<Longrightarrow> watched (f i g) \<and> length (gw_sessions (f i g)) = length (gw_sessions g)"
  shows "watched g \<Longrightarrow> \<forall>i \<in> set is. i < length (gw_sessions g) \<Longrightarrow> watched (fold f is g)"
  using assms by (induction "is" arbitrary: g) simp_all

lemma synchronize_or_close_watched:
  assumes "watched g" "i < length (gw_sessions g)" "fine g"
  shows "watched (synchronize_or_close env i g)"
proof -
  obtain g1 r where s: "synchronize_session env i g = (g1, r)" by fastforce
  have "watched g1" "i < length (gw_sessions g1)"
    using keepsD [OF keeps_synchronize_session assms(1,2), of env] s by simp_all
  then show ?thesis using close_watched s by (simp add: synchronize_or_close_def split: sum.split)
qed

lemma run_synchronization_watched:
  assumes "watched g" "fine g"
  shows "watched (run_synchronization env g)"
proof -
  let ?g1 = "fold (\<lambda>i. reconcile_acp env i None) (gw_open g) g"
  have w: "watched ?g1" by (rule watched_same [OF same_view_fold [OF same_view_reconcile] assms(1)])
  have f: "fine ?g1" by (rule fine_quiet [OF assms(2) quiet_fold [OF quiet_reconcile]])
  have "watched (fold (synchronize_or_close env) is h) \<and> fine (fold (synchronize_or_close env) is h)"
    if "watched h" "fine h" "\<forall>i \<in> set is. i < length (gw_sessions h)" for "is" h
    using that
  proof (induction "is" arbitrary: h)
    case (Cons i "is")
    have "watched (synchronize_or_close env i h)" using synchronize_or_close_watched Cons.prems by simp
    moreover have "fine (synchronize_or_close env i h)" "only i h (synchronize_or_close env i h)"
      using synchronize_or_close_fine [of h i env] Cons.prems by simp_all
    ultimately show ?case using Cons.IH [of "synchronize_or_close env i h"] Cons.prems(3) only_length by fastforce
  qed simp
  then show ?thesis
    unfolding run_synchronization_def Let_def using assms(1) w f fine_open [OF f] by simp
qed

lemma dispose_gateway_watched:
  assumes "watched g" "fine g"
  shows "watched (dispose_gateway g)"
proof -
  have "watched (fold (\<lambda>i g. fst (close_session i g)) (gw_open g) (g\<lparr>gw_disposed := True\<rparr>))"
    by (rule watched_fold [where f = "\<lambda>i g. fst (close_session i g)", OF close_watched])
      (use watched_same [OF same_view_fields(7) assms(1)] fine_open [OF assms(2)] in simp_all)
  then show ?thesis
    unfolding dispose_gateway_def Let_def using assms(1) watched_same [OF same_view_fields(5)] by (simp split: option.split)
qed

lemma step_watched:
  assumes "gateway_step g g'" "watched g" "fine g"
  shows "watched g'"
  using assms
proof cases
  case (Step_hub d)
  then show ?thesis using watched_same [OF same_view_fields(2) assms(2)] by simp
next
  case (Step_router c r)
  have "same_view g (g\<lparr>gw_router := r, gw_control := c\<rparr>)" by (rule same_view_trans [OF same_view_fields(6) same_view_fields(5)])
  then show ?thesis using watched_same [OF _ assms(2)] Step_router by simp
next
  case (Step_attach device capabilities)
  then show ?thesis using attach_watched [OF assms(2)] by simp
next
  case (Step_receive i env raw)
  then show ?thesis using keepsD [OF keeps_receive assms(2)] by simp
next
  case (Step_command_done i env answer)
  then show ?thesis using keepsD [OF keeps_command_done assms(2)] by simp
next
  case (Step_synchronize env)
  then show ?thesis using run_synchronization_watched [OF assms(2,3)] by simp
next
  case (Step_close i)
  then show ?thesis using close_watched [OF assms(2)] by simp
next
  case Step_dispose
  then show ?thesis using dispose_gateway_watched [OF assms(2,3)] by simp
next
  case (Step_subscribe i command)
  then show ?thesis using begin_watched [OF assms(2)] by simp
next
  case (Step_resume env n)
  then show ?thesis using resume_watched [OF assms(2)] by simp
next
  case (Step_unsubscribe i command)
  then show ?thesis using unsubscribe_watched [OF assms(2)] by simp
next
  case (Step_stream_event env t event)
  then show ?thesis using watched_same [OF same_view_handle assms(2)] by simp
next
  case (Step_setup env t outcome)
  then show ?thesis using watched_same [OF same_view_setup assms(2)] by simp
next
  case (Step_dispose_stream t failure)
  then show ?thesis using dispose_finished_watched [OF assms(2)] by simp
qed

lemma new_gateway_watched: "watched (new_gateway desktop epoch hub router control)"
  by (simp add: new_gateway_def watched_def streams_ok_def linked_def closed_empty_def calls_differ_def slot_def members_of_def)

lemma reach_watched: "gateway_reach g \<Longrightarrow> watched g"
proof (induction rule: gateway_reach.induct)
  case (Reach_step g g')
  then show ?case using step_watched reach_fine by blast
qed (rule new_gateway_watched)

section \<open>Property\<close>

text \<open>
  C8. Terminal streams and sessions agree, however subscriptions, their cancellation and disconnects
  interleave: a stream has at most eight members, each once; a session is a member exactly if its
  marker for that terminal points to the stream; and a closed session is a member of no stream, so
  that nothing more is sent to it and the stream can be disposed of.
\<close>

theorem gateway_streams_consistent:
  assumes "gateway_reach g" "t < length (gw_streams g)"
  shows "length (sm_members (gw_streams g ! t)) \<le> 8 \<and> distinct (sm_members (gw_streams g ! t))
    \<and> (i \<in> set (sm_members (gw_streams g ! t)) \<longleftrightarrow> i < length (gw_sessions g) \<and>
         (\<exists>m. jget (gs_subscriptions (gw_sessions g ! i)) (sm_key (gw_streams g ! t)) = Some m \<and> sb_stream m = t))
    \<and> (i \<in> set (sm_members (gw_streams g ! t)) \<longrightarrow> \<not> gs_closed (gw_sessions g ! i))"
proof -
  have w: "watched g" by (rule reach_watched [OF assms(1)])
  have view: "members_of g t = sm_members (gw_streams g ! t)" "key_of g t = sm_key (gw_streams g ! t)"
    using assms(2) by (simp_all add: members_of_def key_of_def)
  have l: "linked (slot g) (key_of g) (members_of g)" using w by (simp add: watched_def streams_ok_def)
  have member: "i \<in> set (members_of g t) \<longleftrightarrow> (\<exists>m. slot g i (key_of g t) = Some m \<and> sb_stream m = t)"
    using linkedD(3,5) [OF l] by metis
  have "\<not> gs_closed (gw_sessions g ! i)" if "i \<in> set (members_of g t)"
    using that member w by (auto simp: watched_def closed_empty_def slot_def split: if_splits)
  then show ?thesis
    using linkedD(1,2) [OF l, of t] member view by (auto simp: slot_def MAX_TERMINAL_OBSERVERS_def split: if_splits)
qed

section \<open>A terminal that is watched\<close>

text \<open>The phone of the example subscribes to a terminal, whose observer answers with an empty snapshot.\<close>

definition sample_command :: json where
  "sample_command = JObj [(js ''projectId'', JStr (js ''p'')), (js ''targetId'', JStr (js ''t''))]"

definition sample_observer :: json where
  "sample_observer = JObj [(js ''ok'', JBool True), (js ''mode'', JStr (js ''snapshot'')),
     (js ''snapshot'', JObj [(js ''streamEpoch'', JStr (js ''s'')), (js ''output'', JStr []), (js ''endOffset'', JInt 0)])]"

definition sample_snapshot :: snapshot where
  "sample_snapshot = \<lparr>sn_streamEpoch = js ''s'', sn_output = [], sn_startOffset = 0, sn_endOffset = 0, sn_truncated = False,
     sn_exited = False, sn_exitStatus = None\<rparr>"

definition sample_key :: jstr where
  "sample_key = js ''p'' @ 0 # js ''t''"

definition sample_call :: "subscribe_wait \<Rightarrow> subscribe_call" where
  "sample_call w = \<lparr>sc_session = 0, sc_command = sample_command, sc_generation = 1, sc_wait = w\<rparr>"

definition sample_stream :: "(nat \<times> nat) list \<Rightarrow> snapshot option \<Rightarrow> stream_setup \<Rightarrow> terminal_stream" where
  "sample_stream interests s setup = \<lparr>sm_key = sample_key, sm_projectId = js ''p'', sm_terminalId = js ''t'', sm_members = [],
     sm_interests = interests, sm_pending = [], sm_overflow = False, sm_snapshot = s, sm_setup = setup, sm_closing = False\<rparr>"

definition sample_phone :: gateway_session where
  "sample_phone = gw_sessions sample_synced ! 0"

definition sample_calling :: "subscribe_wait \<Rightarrow> terminal_stream list \<Rightarrow> gateway" where
  "sample_calling w ss = sample_synced\<lparr>gw_sessions := [sample_phone\<lparr>gs_generations := [(sample_key, 1)]\<rparr>],
     gw_fresh := 1, gw_calls := [(0, sample_call w)], gw_streams := ss, gw_live := (if ss = [] then [] else [(sample_key, 0)])\<rparr>"

lemma sample_fields [simp]: "command_key sample_command = sample_key" "field sample_command ''payload'' = None"
  "template (field sample_command ''projectId'') = js ''p''" "template (field sample_command ''targetId'') = js ''t''"
  by (simp_all add: command_key_def sample_command_def field_def sample_key_def exec_simps template_def)

lemma sample_synced_fields:
  "gw_sessions sample_synced = [sample_phone]" "\<not> gs_closed sample_phone"
  "gs_generations sample_phone = []" "gs_subscriptions sample_phone = []"
  "gw_streams sample_synced = []" "gw_live sample_synced = []" "gw_calls sample_synced = []" "gw_fresh sample_synced = 0"
  by (simp_all add: sample_phone_def sample_synced_def sample_told_def sample_greeted_def sample_attached_def sample_start_def new_gateway_def
      sample_session_def)

lemma sample_begin: "subscribe_begin 0 sample_command sample_synced = (sample_calling Detaching [], None)"
  using sample_synced_fields
  by (simp add: subscribe_begin_def Let_def update_session_def set_generation_def next_generation_def detach_member_def jset_def
      sample_calling_def sample_call_def)

lemma sample_find: "subscribe_resume sample_env 0 (sample_calling Detaching []) =
    (sample_calling (Finding (Some 0)) [sample_stream [] None Setting_up], None)"
  by (simp add: subscribe_resume_def sample_calling_def sample_call_def jget_Cons find_stream_def add_stream_def new_stream_def
      set_wait_def jset_def sample_stream_def)

lemma sample_await: "subscribe_resume sample_env 0 (sample_calling (Finding (Some 0)) [sample_stream [] None Setting_up]) =
    (sample_calling (Awaiting_setup 0) [sample_stream [(0, 0)] None Setting_up], None)"
  using sample_synced_fields
  by (simp add: subscribe_resume_def sample_calling_def sample_call_def jget_Cons superseded_call_def set_wait_def jset_def
      sample_stream_def update_stream_def)

lemma sample_setup: "setup_settled sample_env 0 (Some sample_observer) (sample_calling (Awaiting_setup 0) [sample_stream [(0, 0)] None Setting_up]) =
    sample_calling (Awaiting_setup 0) [sample_stream [(0, 0)] (Some sample_snapshot) Set_up]"
proof -
  have "truthy (field sample_observer ''ok'')" by (simp add: sample_observer_def field_def exec_simps)
  have "validate_identifier MAX_ID_LENGTH (Some (JStr [115])) = Inr [115]"
    by (simp add: validate_identifier_def identifier_ok_def is_alnum_unit_def is_digit_unit_def MAX_ID_LENGTH_def)
  then have "make_bounded_snapshot (Some (JStr (js ''s''))) (Text []) (Some (JInt 0)) limit_value None None None = Inr sample_snapshot"
    by (simp add: make_bounded_snapshot_def safe_epoch_def safe_offset_def safe_byte_limit_def limit_value_def utf8_tail_def
        sample_snapshot_def Let_def sanitize_exit_status_def nullish_def DEFAULT_SNAPSHOT_BYTES_def js_def is_safe_def max_safe_integer_def utf8_encode_def utf8_decode_def)
  then have "terminal_snapshot sample_observer = Inr sample_snapshot"
    by (simp add: terminal_snapshot_def sample_observer_def field_def exec_simps lit_value_def output_of_def of_cursor_def)
  with \<open>truthy (field sample_observer ''ok'')\<close> show ?thesis
    by (simp add: setup_settled_def Let_def update_stream_def sample_calling_def sample_stream_def)
qed

lemma sample_commit: "gw_streams (fst (subscribe_resume sample_env 0 (sample_calling (Awaiting_setup 0) [sample_stream [(0, 0)] (Some sample_snapshot) Set_up])))
   = [(sample_stream [] (Some sample_snapshot) Set_up)\<lparr>sm_members := [0]\<rparr>]"
  using sample_synced_fields
  by (simp add: subscribe_resume_def sample_calling_def sample_call_def jget_Cons superseded_call_def jset_def
      sample_stream_def update_stream_def update_session_def subscribe_commit_def MAX_TERMINAL_OBSERVERS_def terminal_resume_def opt_field_def Let_def
      split: prod.split sum.split)

lemma sample_watching: "gateway_reach (fst (subscribe_resume sample_env 0
    (sample_calling (Awaiting_setup 0) [sample_stream [(0, 0)] (Some sample_snapshot) Set_up])))"
proof -
  have "0 < length (gw_sessions sample_synced)" using sample_synced_fields(1) by simp
  then have "gateway_reach (sample_calling Detaching [])"
    using Reach_step [OF sample_reach(2) Step_subscribe, of 0 sample_command] sample_begin by simp
  then have "gateway_reach (sample_calling (Finding (Some 0)) [sample_stream [] None Setting_up])"
    using Reach_step [OF _ Step_resume, of "sample_calling Detaching []" sample_env 0] sample_find by simp
  then have "gateway_reach (sample_calling (Awaiting_setup 0) [sample_stream [(0, 0)] None Setting_up])"
    using Reach_step [OF _ Step_resume, of "sample_calling (Finding (Some 0)) [sample_stream [] None Setting_up]" sample_env 0] sample_await
    by simp
  then have "gateway_reach (sample_calling (Awaiting_setup 0) [sample_stream [(0, 0)] (Some sample_snapshot) Set_up])"
    using Reach_step [OF _ Step_setup, of _ sample_env 0 "Some sample_observer"] sample_setup by metis
  then show ?thesis by (rule Reach_step [OF _ Step_resume])
qed

theorem gateway_streams_consistent_witness:
  "\<exists>g. gateway_reach g \<and> map sm_members (gw_streams g) = [[0]] \<and> \<not> gs_closed (gw_sessions g ! 0)
     \<and> (\<exists>m. jget (gs_subscriptions (gw_sessions g ! 0)) (sm_key (gw_streams g ! 0)) = Some m \<and> sb_stream m = 0)"
proof -
  let ?g = "fst (subscribe_resume sample_env 0
    (sample_calling (Awaiting_setup 0) [sample_stream [(0, 0)] (Some sample_snapshot) Set_up]))"
  have m: "map sm_members (gw_streams ?g) = [[0]]" unfolding sample_commit by simp
  have s: "0 < length (gw_streams ?g)" "0 \<in> set (sm_members (gw_streams ?g ! 0))" by (simp_all add: sample_commit)
  note p = gateway_streams_consistent [OF sample_watching s(1), of 0]
  have "\<not> gs_closed (gw_sessions ?g ! 0)" using p s(2) by (elim conjE) (drule mp, assumption+)
  moreover have "\<exists>m. jget (gs_subscriptions (gw_sessions ?g ! 0)) (sm_key (gw_streams ?g ! 0)) = Some m \<and> sb_stream m = 0"
    using p s(2) by (elim conjE) (drule iffD1, assumption+, elim conjE)
  ultimately show ?thesis using sample_watching m by (intro exI [of _ ?g] conjI)
qed

end
