(* ===== verification/Spec2Isabelle.thy ===== *)
theory Spec2Isabelle
  imports Event_Log Command_Router Terminal_Cursor Terminal_Control Relay Acp_Redaction Desktop_Snapshot
    State_Hub Secure_Channel Pairing_Run Gateway_Streams
begin

text \<open>
  Kaisola is a desktop workbench (Electron) that phones and tablets can watch and, within limits,
  operate. This development models the part that stands between the desktop and such a device, the
  companion subsystem, \<open>src/electron/companion\<close>, with the attention service of
  \<open>src/electron/ipc/attentionService.cjs\<close>, which feeds it, and the relay worker
  \<open>src/relay/src/index.js\<close>, which carries its frames over the Internet. It is the part of the program
  that parses what strangers send, decides who may do what, and promises that nothing private leaves
  the desktop and that a device that was away can catch up exactly.

  HOW THE PARTS INTERACT. A device is paired once: the pairing manager shows an offer as a QR code,
  both sides run a Noise XX handshake and compare words, and the device store keeps the record of the
  device in a file. Every later connection resumes with the stored keys. Frames are encrypted with
  counters in a secure channel; over the Internet they travel inside multiplex frames through the
  account room of the relay. Inside, a frame is an envelope of the companion protocol. Commands go
  through the command router and its receipt cache; commands that drive a terminal need a lease
  from terminal control. The gateway holds the sessions of the connected devices: it greets them, hands
  their commands to the router and sends them what the state hub answers, merged with what the agents
  and the ledger know, and it shares one stream per terminal among the sessions that watch it. In the
  other direction the windows publish projections, which the redaction
  rebuilds from scratch before the projection store keeps them; the desktop state merges them with
  agent events, terminal output and attention records into one event log, from which the state hub
  answers a device with a replay or a snapshot.

  THE LIBRARY.
  \<^item> \<open>Kaisola_Prelude\<close>: results of code that throws (\<open>require\<close>, \<open>ebind\<close>), the insertion-ordered \<open>Map\<close> of
    JavaScript as an association list (\<open>jget\<close>, \<open>jset\<close>, \<open>jdel\<close>, invariant \<open>jmap_ok\<close>), safe integers, stable
    sorting by a comparison function, and the collections \<open>result_simps\<close>, \<open>jmap_simps\<close>, \<open>exec_simps\<close>.
  \<^item> \<open>Js_Text\<close>, \<open>Utf8\<close>, \<open>Base64url\<close>: strings as lists of 16-bit code units, UTF-8 as the runtime encodes
    and decodes it (lone surrogates and malformed bytes included), base64url text.
  \<^item> \<open>Json\<close>, \<open>Json_Parse\<close>: JSON values (an object keeps the order of its properties; a number is a
    safe integer or the literal of another number), \<open>JSON.stringify\<close>, canonical text, and a parser
    with the theorem that it reads back what was printed.
  \<^item> \<open>Stateful\<close>, \<open>Triples\<close>: methods that mutate their object and may throw, as functions from a state to
    the state they leave and an error or a result, with Hoare-style rules for them. What was mutated
    before an exception stays mutated, as in the code.

  THE COMPONENTS (theory: source).
  \<^item> \<open>Companion_Protocol\<close>: \<open>protocol.cjs\<close>. Envelopes of seven kinds, capabilities, identifiers, limits.
  \<^item> \<open>Event_Log\<close>: \<open>eventLog.cjs\<close>. The state is the record of the retained events, their sizes and the
    acknowledgements. Replay is refined from the history of all events (an abstract log that forgets
    nothing): it returns exactly the missing suffix, or says that a snapshot is needed.
  \<^item> \<open>Command_Cache\<close>, \<open>Command_Router\<close>: \<open>commandCache.cjs\<close>, \<open>commandRouter.cjs\<close>. Fingerprints, receipts
    and promises; a command runs at most once, and only with its capability. Asynchronous methods are
    cut at their awaits, and the segments interleave arbitrarily.
  \<^item> \<open>Terminal_Cursor\<close>: \<open>terminalCursor.cjs\<close>. Byte offsets, bounded snapshots and what a resume yields.
  \<^item> \<open>Terminal_Control\<close>: \<open>terminalControl.cjs\<close>. Leases, again as interleaved segments, with timers.
  \<^item> \<open>Link_Protocol\<close>, \<open>Relay\<close>: \<open>linkProtocol.cjs\<close>, \<open>relay/src/index.js\<close>. Both copies of the frame codec;
    tickets, sockets, limits and forwarding in the account room, as a step relation of the room.
  \<^item> \<open>Redaction\<close>, \<open>Acp_Redaction\<close>: \<open>redaction.cjs\<close>. The sanitizers of projections, agent events and
    permission requests.
  \<^item> \<open>Projection_Store\<close>: \<open>projectionStore.cjs\<close>, \<open>projectionHandler.cjs\<close>. Publishing, loading, listing.
  \<^item> \<open>Attention_Records\<close>, \<open>Attention_Service\<close>, \<open>Attention_Feeds\<close>, \<open>Attention_Bounds\<close>:
    \<open>ipc/attentionService.cjs\<close>. Records of what asks for the user, what raises and clears them, and the
    bounds on what is kept.
  \<^item> \<open>Desktop_State\<close>, \<open>Desktop_Snapshot\<close>: \<open>desktopState.cjs\<close>. Events of all sources, the merged snapshot
    and who owns a project. \<open>State_Hub\<close>: \<open>stateHub.cjs\<close>.
  \<^item> \<open>Gateway_Merge\<close>, \<open>Gateway\<close>: \<open>gateway.cjs\<close>. The record \<open>gateway\<close> has the sessions, the terminal streams,
    the waiting subscriptions, and the hub, router and terminal control it drives; sessions and streams
    are list entries named by their index, as the code compares them by identity. A session keeps the
    frames its transport took (\<open>gs_sent\<close>). \<open>Gateway_Additions\<close> shows what the merges keep of a
    snapshot, what they add and that they do add it, \<open>Gateway_Delivery\<close> has the step relation of a gateway and the
    invariant of what its sessions sent, \<open>Gateway_Streams\<close> the invariant that ties the members of the
    streams to the sessions, \<open>Gateway_Properties\<close> properties and an example of a phone that connects.
  \<^item> \<open>Chacha_Poly\<close>, \<open>Identity_Keys\<close>, \<open>Noise_Handshake\<close>, \<open>Noise_Agreement\<close>, \<open>Secure_Channel\<close>:
    \<open>crypto.cjs\<close>. The pure JavaScript ChaCha20-Poly1305 word by word, signed key records, the
    handshake of both sides as state machines, the encrypted stream, the words and the confirmations.
  \<^item> \<open>Device_Store\<close>: \<open>deviceStore.cjs\<close>. Paired devices, live connections, the file and how it is loaded.
  \<^item> \<open>Pairing\<close>, \<open>Pairing_Safety\<close>, \<open>Pairing_Run\<close>: \<open>pairing.cjs\<close>. Offers, sessions and their methods; an
    invariant that relates every session to the log of the calls; an honest pairing end to end.

  WHAT THE LEMMAS SHOW. Each component theory proves the behaviour of its operations on every branch
  that its properties need, an invariant of the reachable states, and the properties, which carry the
  numbers C1, C2, ... in the order of their importance. Among them: no device is paired unless both
  users confirmed the words of one handshake (\<open>Pairing_Run\<close>), and an honest pairing succeeds; the relay
  forwards only between the devices and the desktop of one pairing; every session of the gateway sends
  valid frames of its own connection, each event once and in order, and a synchronisation exactly what
  was missing, and a closed session watches no terminal any more; no write reaches a terminal
  without a lease; no command runs without its capability or twice at the same time; replay and
  resume are exact; a snapshot of the gateway loses nothing of the desktop's, gains only what the agents
  and the ledger know, and shows it or reports why not; a receiver of the secure channel that accepts
  only frames which were sent (that others cannot be made is not stated) delivers an initial part of
  what was sent, and the two sides of a handshake agree; a revoked device is gone from memory and from
  the file; what was stored is what the next start finds, up to a space at the end of a name that was
  cut; what the redaction lets out has no forbidden name, only relative paths in diffs and agent events,
  and a bounded size, and redacting it again changes nothing, of a projection when no text was cut after a space, of
  an agent event when it is no permission request; the fallback cipher opens what it makes and its
  authenticator is the polynomial of RFC 8439.

  INTERFACES. The locale \<open>sanitizer\<close> (and \<open>item_sanitizer\<close>) states what every function of the redaction
  promises its callers and is interpreted for the functions of \<open>Acp_Redaction\<close>; \<open>aead\<close> is what a secure
  channel needs of a cipher, interpreted by the fallback cipher of the code; \<open>replay_source\<close> is what
  the state hub needs of a log, interpreted by the log of the desktop state.

  PARAMETERS AND HYPOTHESES. What is not in the repository is an argument. The runtime's
  cryptography is the record \<open>runtime_crypto\<close> with the hypothesis \<open>key_law\<close>: documented lengths of keys,
  signatures and digests, signatures of a key verify under it, the two sides of a key agreement get
  the same shared secret, and the cipher of the runtime is a correct one. \<open>store_law\<close> adds that the
  operating system's key storage gives back what it was given. Neither says that signatures cannot be
  forged or that digests do not collide; where that matters the theorem says what was verified instead.
  What a transport takes, what the agent service and the ledger return and what the terminal observer
  answers is the environment of a gateway call (\<open>gateway_env\<close>), different at every step.
  The relay's digest and message authentication, \<open>JSON.parse\<close> and the session service, \<open>localeCompare\<close>
  and the label of a window are parameters without laws. Clocks, random values, failing writes and
  throwing callbacks are arguments or results chosen by the environment. Each hypothesis is shown to
  be satisfiable by the witness of its theorem.

  BOUNDS AND FUEL. No definition needs fuel for termination. The trimming of the attention service
  repeats a step until nothing is left to drop; \<open>Attention_Bounds\<close> shows that as many rounds as there
  are active records always suffice. Integers of the program are safe integers (at most \<open>2 ^ 53 - 1\<close>)
  where the code checks it, and 32-bit words where it computes with them; counters of the secure
  channel stop at \<open>2 ^ 64\<close>.

  NOT MODELLED. The texts of error messages. The session broker, terminals and agents as processes, the
  transports (sockets, Bonjour, Tailscale, the relay client with its timers), the wiring of the
  companion handler, of the gateway the table of command handlers and the calls of the agent service
  they make, and the HTTP entry point of the relay: they are calls into the operating system and the
  framework around the logic modelled here. The main process, the preload script and the renderer (React components and
  their store) are a user interface. The Swift applications are in another language. Probes, smoke
  tests and build scripts are not part of the program.
\<close>

end
